(* ===== verification/Prelude.thy ===== *)
theory Prelude
  imports Main "HOL-Library.List_Lexorder" "HOL-Library.AList"
begin

text \<open>
  Shared vocabulary of the development.

  A JavaScript string is the list of its UTF-16 code units (\<open>jstring\<close>), because
  \<open>length\<close>, \<open>slice\<close>, \<open>includes\<close> and \<open><\<close> count and compare code units. \<open>js\<close> turns an
  ASCII literal into code units; other literals of the source are written out as code units.
  The theory holds the string methods the program uses (\<open>trim\<close>, \<open>toLowerCase\<close>, \<open>includes\<close>,
  \<open>startsWith\<close>, \<open>isWellFormed\<close>, spreading into code points, decimal digits), the result
  type of code that throws, and the generic lemmas the components share.

  \<open>to_lower\<close> maps the cased letters of ASCII, Latin-1, basic Greek, Cyrillic and the
  fullwidth forms and the three code units whose lower case leaves their script
  (U+0130, U+212A, U+212B); letters of other cased scripts are left as they are.
\<close>

named_theorems js_simps
  \<open>evaluation of closed string expressions\<close>

section \<open>Strings\<close>

type_synonym jstring = "nat list"

definition js :: "string \<Rightarrow> jstring" where
  "js s = map of_char s"

lemma js_Nil [simp, js_simps]: "js [] = []"
  by (simp add: js_def)

lemma js_Cons [js_simps]: "js (c # s) = of_char c # js s"
  by (simp add: js_def)

lemma js_inj [simp]: "js a = js b \<longleftrightarrow> a = b"
  by (simp add: js_def inj_map_eq_map inj_on_def)

lemma js_Nil_iff [simp]: "js a = [] \<longleftrightarrow> a = []"
  by (simp add: js_def)

subsection \<open>White space and trimming\<close>

text \<open>The code units of WhiteSpace and LineTerminator: what \<open>trim\<close> removes and \<open>\s\<close> matches.\<close>

definition is_space :: "nat \<Rightarrow> bool" where
  "is_space c \<longleftrightarrow> (9 \<le> c \<and> c \<le> 13) \<or> c = 32 \<or> c = 0xA0 \<or> c = 0x1680 \<or>
     (0x2000 \<le> c \<and> c \<le> 0x200A) \<or> c = 0x2028 \<or> c = 0x2029 \<or> c = 0x202F \<or> c = 0x205F \<or>
     c = 0x3000 \<or> c = 0xFEFF"

definition trim_start :: "jstring \<Rightarrow> jstring" where
  "trim_start s = dropWhile is_space s"

definition trim_end :: "jstring \<Rightarrow> jstring" where
  "trim_end s = rev (dropWhile is_space (rev s))"

definition trim :: "jstring \<Rightarrow> jstring" where
  "trim s = trim_end (trim_start s)"

text \<open>\<open>value.trim().length === 0\<close>, the emptiness test used across the program.\<close>

definition blank :: "jstring \<Rightarrow> bool" where
  "blank s \<longleftrightarrow> trim s = []"

lemma trim_Nil [simp]: "trim [] = []"
  by (simp add: trim_def trim_start_def trim_end_def)

lemma trim_end_Nil_iff: "trim_end s = [] \<longleftrightarrow> list_all is_space s"
  by (simp add: trim_end_def dropWhile_eq_Nil_conv list_all_iff)

lemma trim_start_Nil_iff: "trim_start s = [] \<longleftrightarrow> list_all is_space s"
  by (simp add: trim_start_def dropWhile_eq_Nil_conv list_all_iff)

lemma blank_iff: "blank s \<longleftrightarrow> list_all is_space s"
proof (cases "trim_start s")
  case Nil
  then show ?thesis by (simp add: blank_def trim_def trim_end_Nil_iff trim_start_Nil_iff [symmetric])
next
  case (Cons c r)
  then have "\<not> is_space c" using hd_dropWhile [of is_space s] by (simp add: trim_start_def)
  with Cons show ?thesis
    by (simp add: blank_def trim_def trim_end_Nil_iff trim_start_Nil_iff [symmetric])
qed

lemma blank_Nil [simp]: "blank []"
  by (simp add: blank_iff)

lemma not_blank_not_Nil: "\<not> blank s \<Longrightarrow> s \<noteq> []"
  by auto

lemma trim_end_ends: "trim_end s = [] \<or> \<not> is_space (last (trim_end s))"
  using hd_dropWhile [of is_space "rev s"]
  by (cases "dropWhile is_space (rev s)") (auto simp: trim_end_def)

lemma trim_end_prefix: "\<exists>w. s = trim_end s @ w \<and> list_all is_space w"
proof (intro exI conjI)
  have "rev s = takeWhile is_space (rev s) @ dropWhile is_space (rev s)" by simp
  then have "rev (rev s) = rev (takeWhile is_space (rev s) @ dropWhile is_space (rev s))" by metis
  then show "s = trim_end s @ rev (takeWhile is_space (rev s))"
    unfolding trim_end_def rev_append rev_rev_ident .
  show "list_all is_space (rev (takeWhile is_space (rev s)))"
    by (auto simp: list_all_iff dest: set_takeWhileD)
qed

lemma trim_starts: "trim s = [] \<or> \<not> is_space (hd (trim s))"
proof (cases "dropWhile is_space s")
  case Nil
  then show ?thesis by (simp only: trim_def trim_start_def trim_end_def) simp
next
  case (Cons c r)
  then have c: "\<not> is_space c" using hd_dropWhile [of is_space s] by simp
  obtain w where w: "c # r = trim_end (c # r) @ w" "list_all is_space w"
    using trim_end_prefix by blast
  then have "trim_end (c # r) = [] \<or> hd (trim_end (c # r)) = c"
    by (cases "trim_end (c # r)") auto
  with c Cons show ?thesis by (auto simp: trim_def trim_start_def)
qed

text \<open>\<open>trim\<close> is idempotent: its result neither starts nor ends with white space.\<close>

lemma trim_trim [simp]: "trim (trim s) = trim s"
proof (cases "trim s = []")
  case True
  then show ?thesis by simp
next
  case False
  then have 1: "trim_start (trim s) = trim s"
    using trim_starts [of s] by (cases "trim s") (auto simp: trim_start_def)
  have "\<not> is_space (last (trim s))"
    using False trim_end_ends [of "trim_start s"] by (auto simp: trim_def)
  then have "trim_end (trim s) = trim s"
    using False by (cases "trim s" rule: rev_cases) (auto simp: trim_end_def)
  with 1 show ?thesis by (simp add: trim_def [of "trim s"])
qed

lemma blank_trim [simp]: "blank (trim s) = blank s"
  by (simp add: blank_def)

subsection \<open>Searching\<close>

fun starts_with :: "'a list \<Rightarrow> 'a list \<Rightarrow> bool" where
  "starts_with [] s = True"
| "starts_with (p # ps) [] = False"
| "starts_with (p # ps) (c # cs) = (p = c \<and> starts_with ps cs)"

fun contains :: "'a list \<Rightarrow> 'a list \<Rightarrow> bool" where
  "contains p [] = (p = [])"
| "contains p (c # cs) = (starts_with p (c # cs) \<or> contains p cs)"

lemma starts_with_iff: "starts_with p s \<longleftrightarrow> (\<exists>w. s = p @ w)"
  by (induction p s rule: starts_with.induct) auto

lemma starts_with_append [simp]: "starts_with p (p @ w)"
  by (auto simp: starts_with_iff)

lemma includes_iff: "contains p s \<longleftrightarrow> (\<exists>u w. s = u @ p @ w)"
proof (induction s)
  case Nil
  then show ?case by auto
next
  case (Cons c cs)
  show ?case
  proof
    assume "contains p (c # cs)"
    then consider "starts_with p (c # cs)" | "contains p cs" by auto
    then show "\<exists>u w. c # cs = u @ p @ w"
    proof cases
      case 1
      then show ?thesis by (metis append_Nil starts_with_iff)
    next
      case 2
      then show ?thesis using Cons by (metis append_Cons)
    qed
  next
    assume "\<exists>u w. c # cs = u @ p @ w"
    then obtain u w where uw: "c # cs = u @ p @ w" by blast
    show "contains p (c # cs)"
    proof (cases u)
      case Nil
      with uw have "starts_with p (c # cs)" by (auto simp: starts_with_iff)
      then show ?thesis by simp
    next
      case (Cons d u')
      with uw have "cs = u' @ p @ w" by simp
      then have "contains p cs" using Cons.IH by blast
      then show ?thesis by simp
    qed
  qed
qed

lemma includes_self [simp]: "contains s s"
  by (metis append_Nil append_Nil2 includes_iff)

text \<open>\<open>s.split(c)\<close> for a one-unit separator and \<open>parts.join(sep)\<close>.\<close>

fun split_on :: "nat \<Rightarrow> jstring \<Rightarrow> jstring list" where
  "split_on c [] = [[]]"
| "split_on c (x # xs) =
     (if x = c then [] # split_on c xs
      else (case split_on c xs of [] \<Rightarrow> [[x]] | p # ps \<Rightarrow> (x # p) # ps))"

fun join :: "jstring \<Rightarrow> jstring list \<Rightarrow> jstring" where
  "join sep [] = []"
| "join sep [p] = p"
| "join sep (p # ps) = p @ sep @ join sep ps"

lemma split_on_no_sep: "c \<notin> set s \<Longrightarrow> split_on c s = [s]"
  by (induction s) auto

lemma split_on_not_Nil [simp]: "split_on c s \<noteq> []"
  by (induction s) (auto split: list.splits)

lemma split_on_append: "c \<notin> set a \<Longrightarrow> split_on c (a @ c # b) = a # split_on c b"
  by (induction a) auto

text \<open>\<open>s.replaceAll(p, r)\<close> for a non-empty pattern \<open>p\<close>.\<close>

function replace_all :: "jstring \<Rightarrow> jstring \<Rightarrow> jstring \<Rightarrow> jstring" where
  "replace_all p r [] = []"
| "replace_all p r (c # cs) =
     (if starts_with p (c # cs) then r @ replace_all p r (drop (length p - 1) cs)
      else c # replace_all p r cs)"
  by pat_completeness auto
termination by (relation "measure (\<lambda>(p, r, s). length s)") auto

subsection \<open>Case\<close>

definition lower_unit :: "nat \<Rightarrow> nat list" where
  "lower_unit c =
     (if 0x41 \<le> c \<and> c \<le> 0x5A then [c + 32]
      else if 0xC0 \<le> c \<and> c \<le> 0xDE \<and> c \<noteq> 0xD7 then [c + 32]
      else if c = 0x130 then [0x69, 0x307]
      else if c = 0x212A then [0x6B]
      else if c = 0x212B then [0xE5]
      else if 0x391 \<le> c \<and> c \<le> 0x3A9 \<and> c \<noteq> 0x3A2 then [c + 32]
      else if 0x400 \<le> c \<and> c \<le> 0x40F then [c + 80]
      else if 0x410 \<le> c \<and> c \<le> 0x42F then [c + 32]
      else if 0xFF21 \<le> c \<and> c \<le> 0xFF3A then [c + 32]
      else [c])"

definition to_lower :: "jstring \<Rightarrow> jstring" where
  "to_lower s = concat (map lower_unit s)"

lemma lower_unit_idem: "concat (map lower_unit (lower_unit c)) = lower_unit c"
  by (simp add: lower_unit_def)

lemma to_lower_append [simp]: "to_lower (a @ b) = to_lower a @ to_lower b"
  by (simp add: to_lower_def)

lemma to_lower_idem [simp]: "to_lower (to_lower s) = to_lower s"
  by (induction s) (simp_all add: to_lower_def lower_unit_idem)

subsection \<open>Surrogates and code points\<close>

definition is_high :: "nat \<Rightarrow> bool" where
  "is_high c \<longleftrightarrow> 0xD800 \<le> c \<and> c \<le> 0xDBFF"

definition is_low :: "nat \<Rightarrow> bool" where
  "is_low c \<longleftrightarrow> 0xDC00 \<le> c \<and> c \<le> 0xDFFF"

text \<open>\<open>[...s]\<close> and \<open>Array.from(s)\<close>: the code points, a lone surrogate standing for itself.\<close>

fun code_points :: "jstring \<Rightarrow> jstring list" where
  "code_points [] = []"
| "code_points [c] = [[c]]"
| "code_points (c # d # s) =
     (if is_high c \<and> is_low d then [c, d] # code_points s else [c] # code_points (d # s))"

lemma concat_code_points [simp]: "concat (code_points s) = s"
  by (induction s rule: code_points.induct) auto

text \<open>\<open>s.isWellFormed()\<close>: no lone surrogate.\<close>

definition is_well_formed :: "jstring \<Rightarrow> bool" where
  "is_well_formed s \<longleftrightarrow>
     list_all (\<lambda>p. \<not> (case p of [c] \<Rightarrow> is_high c \<or> is_low c | _ \<Rightarrow> False)) (code_points s)"

subsection \<open>Digits and numbers\<close>

definition is_digit :: "nat \<Rightarrow> bool" where
  "is_digit c \<longleftrightarrow> 48 \<le> c \<and> c \<le> 57"

definition is_lower_hex :: "nat \<Rightarrow> bool" where
  "is_lower_hex c \<longleftrightarrow> is_digit c \<or> (97 \<le> c \<and> c \<le> 102)"

definition is_hex :: "nat \<Rightarrow> bool" where
  "is_hex c \<longleftrightarrow> is_lower_hex c \<or> (65 \<le> c \<and> c \<le> 70)"

definition is_base64 :: "nat \<Rightarrow> bool" where
  "is_base64 c \<longleftrightarrow> is_digit c \<or> (65 \<le> c \<and> c \<le> 90) \<or> (97 \<le> c \<and> c \<le> 122) \<or> c = 43 \<or> c = 47"

definition digits_value :: "jstring \<Rightarrow> nat" where
  "digits_value s = foldl (\<lambda>n c. 10 * n + (c - 48)) 0 s"

text \<open>The decimal rendering of a non-negative integer in a template string.\<close>

fun show_nat :: "nat \<Rightarrow> jstring" where
  "show_nat n = (if n < 10 then [48 + n] else show_nat (n div 10) @ [48 + n mod 10])"

declare show_nat.simps [simp del]

lemma digits_value_snoc [simp]: "digits_value (s @ [c]) = 10 * digits_value s + (c - 48)"
  by (simp add: digits_value_def)

lemma digits_value_show_nat [simp]: "digits_value (show_nat n) = n"
proof (induction n rule: show_nat.induct)
  case (1 n)
  show ?case
  proof (cases "n < 10")
    case True
    then show ?thesis by (subst show_nat.simps) (simp add: digits_value_def)
  next
    case False
    with 1 show ?thesis by (subst show_nat.simps) simp
  qed
qed

lemma show_nat_digits: "list_all is_digit (show_nat n)"
proof (induction n rule: show_nat.induct)
  case (1 n)
  show ?case
  proof (cases "n < 10")
    case True
    then show ?thesis by (subst show_nat.simps) (simp add: is_digit_def)
  next
    case False
    with 1 have "list_all is_digit (show_nat (n div 10))" by simp
    with False show ?thesis by (subst show_nat.simps) (simp add: is_digit_def)
  qed
qed

section \<open>Results of code that throws\<close>

type_synonym error = string

type_synonym ('e, 'a) result = "'e + 'a"

fun and_then :: "('e, 'a) result \<Rightarrow> ('a \<Rightarrow> ('e, 'b) result) \<Rightarrow> ('e, 'b) result" where
  "and_then (Inl e) f = Inl e"
| "and_then (Inr a) f = f a"

definition guard :: "bool \<Rightarrow> 'e \<Rightarrow> ('e, unit) result" where
  "guard b e = (if b then Inr () else Inl e)"

lemma and_then_Inr: "and_then r f = Inr b \<longleftrightarrow> (\<exists>a. r = Inr a \<and> f a = Inr b)"
  by (cases r) auto

lemma guard_Inr [simp]: "guard b e = Inr u \<longleftrightarrow> b"
  by (simp add: guard_def)

lemma guard_Inl [simp]: "guard b e = Inl e' \<longleftrightarrow> \<not> b \<and> e' = e"
  by (auto simp: guard_def)

text \<open>The items of an array through a function that may throw, in order, first error wins.\<close>

fun map_result :: "('a \<Rightarrow> ('e, 'b) result) \<Rightarrow> 'a list \<Rightarrow> ('e, 'b list) result" where
  "map_result f [] = Inr []"
| "map_result f (x # xs) = and_then (f x) (\<lambda>y. and_then (map_result f xs) (\<lambda>ys. Inr (y # ys)))"

lemma map_result_Inr:
  "map_result f xs = Inr ys \<longleftrightarrow> length ys = length xs \<and> (\<forall>i < length xs. f (xs ! i) = Inr (ys ! i))"
proof (induction xs arbitrary: ys)
  case Nil
  then show ?case by auto
next
  case (Cons x xs)
  show ?case
    by (cases ys) (auto simp: and_then_Inr Cons nth_Cons less_Suc_eq_0_disj split: nat.splits)
qed

lemma map_result_Inr_set:
  "map_result f xs = Inr ys \<Longrightarrow> y \<in> set ys \<Longrightarrow> \<exists>x \<in> set xs. f x = Inr y"
  by (metis in_set_conv_nth map_result_Inr)

section \<open>Insertion-ordered maps\<close>

text \<open>
  A JavaScript \<open>Map\<close> iterates in insertion order and \<open>set\<close> on a present key keeps its place:
  the association lists of the library, with \<open>AList.update\<close> and \<open>AList.delete\<close>.
\<close>

type_synonym ('k, 'v) js_map = "('k \<times> 'v) list"

abbreviation map_get :: "('k, 'v) js_map \<Rightarrow> 'k \<Rightarrow> 'v option" where
  "map_get m k \<equiv> map_of m k"

definition map_has :: "('k, 'v) js_map \<Rightarrow> 'k \<Rightarrow> bool" where
  "map_has m k \<longleftrightarrow> map_of m k \<noteq> None"

abbreviation map_values :: "('k, 'v) js_map \<Rightarrow> 'v list" where
  "map_values m \<equiv> map snd m"

lemma map_get_update [simp]:
  "map_get (AList.update k v m) k' = (if k' = k then Some v else map_get m k')"
  by (simp add: update_conv')

lemma map_get_delete [simp]:
  "map_get (AList.delete k m) k' = (if k' = k then None else map_get m k')"
  by (simp add: delete_conv')

lemma update_fresh: "map_of m k = None \<Longrightarrow> AList.update k v m = m @ [(k, v)]"
  by (induction m) (auto split: if_splits)

section \<open>Lists\<close>

text \<open>
  \<open>Array.prototype.sort\<close> with a comparator: stable, so for a comparator that is a total preorder
  the result is that of insertion sort, \<open>le x y\<close> standing for \<open>compare(x, y) <= 0\<close>.
\<close>

fun insert_by :: "('a \<Rightarrow> 'a \<Rightarrow> bool) \<Rightarrow> 'a \<Rightarrow> 'a list \<Rightarrow> 'a list" where
  "insert_by le x [] = [x]"
| "insert_by le x (y # ys) = (if le x y then x # y # ys else y # insert_by le x ys)"

fun sort_by :: "('a \<Rightarrow> 'a \<Rightarrow> bool) \<Rightarrow> 'a list \<Rightarrow> 'a list" where
  "sort_by le [] = []"
| "sort_by le (x # xs) = insert_by le x (sort_by le xs)"

lemma set_insert_by [simp]: "set (insert_by le x xs) = insert x (set xs)"
  by (induction xs) auto

lemma set_sort_by [simp]: "set (sort_by le xs) = set xs"
  by (induction xs) auto

lemma length_insert_by [simp]: "length (insert_by le x xs) = Suc (length xs)"
  by (induction xs) auto

lemma length_sort_by [simp]: "length (sort_by le xs) = length xs"
  by (induction xs) auto

lemma sorted_insert_by:
  assumes "\<And>x y. le x y \<or> le y x" and "\<And>x y z. le x y \<Longrightarrow> le y z \<Longrightarrow> le x z"
  shows "sorted_wrt le xs \<Longrightarrow> sorted_wrt le (insert_by le x xs)"
  by (induction xs) (use assms in \<open>auto\<close>)

lemma sorted_sort_by:
  assumes "\<And>x y. le x y \<or> le y x" and "\<And>x y z. le x y \<Longrightarrow> le y z \<Longrightarrow> le x z"
  shows "sorted_wrt le (sort_by le xs)"
  by (induction xs) (simp_all add: sorted_insert_by [OF assms])

lemma find_Some_iff': "List.find P xs = Some x \<Longrightarrow> P x \<and> x \<in> set xs"
  by (auto simp: find_Some_iff)

lemma filter_one: "filter P xs = [x] \<Longrightarrow> P x \<and> x \<in> set xs"
  by (metis filter_eq_Cons_iff in_set_conv_decomp)

end
