(* ===== verification/JsonText.thy ===== *)
theory JsonText
  imports Complex_Main Prelude
begin

text \<open>
  JSON as the program meets it: \<open>json\<close> is a parsed, untrusted value (\<open>unknown\<close> in the source)
  with the reads the validators make of it, and \<open>jtext\<close> the values the program itself
  serializes with \<open>JSON.stringify\<close> before hashing. \<open>stringify_inject\<close> shows that the
  serialization loses nothing, so that a payload hash identifies the payload up to a collision
  of the hash function, which is a parameter of every definition that hashes.
\<close>

section \<open>Parsed values\<close>

text \<open>A number read by \<open>JSON.parse\<close>; an overflowing literal is an infinity.\<close>

datatype jnum = Num rat | Infinite bool | NotANumber

datatype json =
    JNull
  | JBool bool
  | JNum jnum
  | JStr jstring
  | JArr "json list"
  | JObj "(jstring \<times> json) list"

text \<open>A property read \<open>value[key]\<close>: \<open>None\<close> is \<open>undefined\<close>.\<close>

definition field :: "(jstring \<times> json) list \<Rightarrow> string \<Rightarrow> json option" where
  "field obj key = map_of obj (js key)"

text \<open>\<open>Number.isInteger\<close> and \<open>Number.isSafeInteger\<close>.\<close>

fun as_integer :: "jnum \<Rightarrow> int option" where
  "as_integer (Num r) = (if of_int \<lfloor>r\<rfloor> = r then Some \<lfloor>r\<rfloor> else None)"
| "as_integer _ = None"

definition max_safe_integer :: int where
  "max_safe_integer = 2 ^ 53 - 1"

definition as_safe_integer :: "jnum \<Rightarrow> int option" where
  "as_safe_integer n =
     (case as_integer n of Some i \<Rightarrow> (if \<bar>i\<bar> \<le> max_safe_integer then Some i else None) | None \<Rightarrow> None)"

lemma as_safe_integer_bound: "as_safe_integer n = Some i \<Longrightarrow> \<bar>i\<bar> \<le> max_safe_integer"
  by (auto simp: as_safe_integer_def split: option.splits if_splits)

text \<open>\<open>Object.keys(value)\<close> inside and exactly equal to a list of allowed keys.\<close>

definition keys_within :: "(jstring \<times> json) list \<Rightarrow> string list \<Rightarrow> bool" where
  "keys_within obj allowed \<longleftrightarrow> list_all (\<lambda>k. k \<in> set (map js allowed)) (map fst obj)"

definition keys_exactly :: "(jstring \<times> json) list \<Rightarrow> string list \<Rightarrow> bool" where
  "keys_exactly obj allowed \<longleftrightarrow> length obj = length allowed \<and> keys_within obj allowed"

text \<open>The own keys of an object are distinct: \<open>JSON.parse\<close> keeps the last of equal keys.\<close>

fun json_ok :: "json \<Rightarrow> bool" where
  "json_ok (JArr xs) = list_all json_ok xs"
| "json_ok (JObj kvs) = (distinct (map fst kvs) \<and> list_all (\<lambda>kv. json_ok (snd kv)) kvs)"
| "json_ok _ = True"

lemma keys_exactly_set:
  assumes "keys_exactly obj ks" and "distinct (map fst obj)" and "distinct ks"
  shows "set (map fst obj) = js ` set ks"
proof -
  have sub: "set (map fst obj) \<subseteq> set (map js ks)"
    using assms(1) by (auto simp: keys_exactly_def keys_within_def list_all_iff)
  have "card (set (map fst obj)) = length ks"
    using assms(1,2) distinct_card [of "map fst obj"] by (simp add: keys_exactly_def)
  moreover have "card (set (map js ks)) = length ks"
    using assms(3) distinct_card [of "map js ks"] by (simp add: distinct_map inj_on_def)
  ultimately have "set (map fst obj) = set (map js ks)"
    using sub by (intro card_subset_eq) auto
  then show ?thesis by simp
qed

lemma keys_exactly_field:
  assumes "keys_exactly obj ks" and "distinct (map fst obj)" and "distinct ks" and "k \<in> set ks"
  shows "\<exists>v. field obj k = Some v"
proof -
  have "js k \<in> fst ` set obj"
    using keys_exactly_set [OF assms(1-3)] assms(4) by auto
  then show ?thesis by (simp add: field_def map_of_eq_None_iff [symmetric] del: not_None_eq)
      (metis map_of_eq_None_iff option.exhaust)
qed

section \<open>Serialization\<close>

datatype jtext = TNull | TStr jstring | TNat nat | TArr "jtext list" | TObj "(jstring \<times> jtext) list"

definition hex_digit :: "nat \<Rightarrow> nat" where
  "hex_digit n = (if n < 10 then 48 + n else 87 + n)"

definition unhex :: "nat \<Rightarrow> nat" where
  "unhex c = (if c < 58 then c - 48 else c - 87)"

definition hex4 :: "nat \<Rightarrow> jstring" where
  "hex4 c = [hex_digit (c div 4096 mod 16), hex_digit (c div 256 mod 16),
     hex_digit (c div 16 mod 16), hex_digit (c mod 16)]"

text \<open>The escapes of well-formed \<open>JSON.stringify\<close>, code point by code point.\<close>

fun escape_point :: "jstring \<Rightarrow> jstring" where
  "escape_point [c] =
     (if c = 34 then [92, 34] else if c = 92 then [92, 92]
      else if c = 8 then [92, 98] else if c = 12 then [92, 102] else if c = 10 then [92, 110]
      else if c = 13 then [92, 114] else if c = 9 then [92, 116]
      else if c < 32 \<or> is_high c \<or> is_low c then [92, 117] @ hex4 c
      else [c])"
| "escape_point p = p"

definition escape :: "jstring \<Rightarrow> jstring" where
  "escape s = concat (map escape_point (code_points s))"

fun stringify :: "jtext \<Rightarrow> jstring"
  and elements_tail :: "jtext list \<Rightarrow> jstring"
  and members_tail :: "(jstring \<times> jtext) list \<Rightarrow> jstring" where
  "stringify TNull = js ''null''"
| "stringify (TStr s) = 34 # escape s @ [34]"
| "stringify (TNat n) = show_nat n"
| "stringify (TArr []) = js ''[]''"
| "stringify (TArr (v # vs)) = 91 # stringify v @ elements_tail vs"
| "stringify (TObj []) = [123, 125]"
| "stringify (TObj ((k, v) # kvs)) = 123 # 34 # escape k @ [34, 58] @ stringify v @ members_tail kvs"
| "elements_tail [] = [93]"
| "elements_tail (v # vs) = 44 # stringify v @ elements_tail vs"
| "members_tail [] = [125]"
| "members_tail ((k, v) # kvs) = 44 # 34 # escape k @ [34, 58] @ stringify v @ members_tail kvs"

subsection \<open>Reading a string literal back\<close>

definition push :: "nat \<Rightarrow> (jstring \<times> jstring) option \<Rightarrow> (jstring \<times> jstring) option" where
  "push c r = map_option (\<lambda>(s, rest). (c # s, rest)) r"

lemma push_Some [simp]: "push c (Some (s, r)) = Some (c # s, r)"
  by (simp add: push_def)

definition unescape_char :: "nat \<Rightarrow> nat" where
  "unescape_char c = (if c = 98 then 8 else if c = 102 then 12 else if c = 110 then 10
     else if c = 114 then 13 else if c = 116 then 9 else c)"

fun unquote :: "jstring \<Rightarrow> (jstring \<times> jstring) option" where
  "unquote [] = None"
| "unquote (c # r) =
     (if c = 34 then Some ([], r)
      else if c \<noteq> 92 then push c (unquote r)
      else (case r of
          [] \<Rightarrow> None
        | e # r1 \<Rightarrow>
            if e \<noteq> 117 then push (unescape_char e) (unquote r1)
            else (case r1 of
                h1 # h2 # h3 # h4 # r2 \<Rightarrow>
                  push (4096 * unhex h1 + 256 * unhex h2 + 16 * unhex h3 + unhex h4) (unquote r2)
              | _ \<Rightarrow> None)))"

lemma unhex_hex_digit [simp]: "n < 16 \<Longrightarrow> unhex (hex_digit n) = n"
  by (simp add: unhex_def hex_digit_def)

lemma hex4_value:
  assumes "c < 65536"
  shows "4096 * (c div 4096 mod 16) + 256 * (c div 256 mod 16) + 16 * (c div 16 mod 16) + c mod 16 = (c::nat)"
proof -
  have 1: "c div 256 = c div 16 div 16" "c div 4096 = c div 16 div 16 div 16"
    by (simp_all add: div_mult2_eq [symmetric])
  have 2: "c div 16 div 16 div 16 mod 16 = c div 16 div 16 div 16"
    using assms by (simp add: div_mult2_eq [symmetric])
  have "16 * (c div 16 div 16 div 16) + c div 16 div 16 mod 16 = c div 16 div 16"
    "16 * (c div 16 div 16) + c div 16 mod 16 = c div 16" "16 * (c div 16) + c mod 16 = c"
    by simp_all
  then show ?thesis unfolding 1 2 by linarith
qed

lemma unquote_escape_one: "unquote (escape_point [c] @ r) = push c (unquote r)"
proof -
  have "c < 32 \<or> is_high c \<or> is_low c \<Longrightarrow> c < 65536"
    by (auto simp: is_high_def is_low_def)
  then show ?thesis
    by (auto simp: unescape_char_def hex4_def hex4_value)
qed

lemma unquote_plain: "c \<noteq> 34 \<Longrightarrow> c \<noteq> 92 \<Longrightarrow> unquote (c # r) = push c (unquote r)"
  by simp

lemma unquote_escape: "unquote (escape s @ 34 # r) = Some (s, r)"
proof (induction s rule: code_points.induct)
  case 1
  then show ?case by (simp add: escape_def)
next
  case (2 c)
  then show ?case
    using unquote_escape_one [of c "34 # r"] by (simp add: escape_def del: escape_point.simps)
next
  case (3 c d s)
  show ?case
  proof (cases "is_high c \<and> is_low d")
    case True
    then have "c \<noteq> 34" "c \<noteq> 92" "d \<noteq> 34" "d \<noteq> 92" by (auto simp: is_high_def is_low_def)
    with True 3(1) show ?thesis by (simp add: escape_def)
  next
    case False
    with 3(2) have "unquote (escape (d # s) @ 34 # r) = Some (d # s, r)" by simp
    moreover have "escape (c # d # s) = escape_point [c] @ escape (d # s)"
      using False by (auto simp: escape_def simp del: escape_point.simps)
    ultimately show ?thesis
      using unquote_escape_one [of c "escape (d # s) @ 34 # r"]
      by (simp del: escape_point.simps unquote.simps)
  qed
qed

lemma escape_inject:
  assumes "escape s @ 34 # r = escape s' @ 34 # r'"
  shows "s = s' \<and> r = r'"
proof -
  have "Some (s, r) = Some (s', r')"
    using unquote_escape [of s r] unquote_escape [of s' r'] unfolding assms by metis
  then show ?thesis by simp
qed

subsection \<open>Serialization is injective\<close>

definition no_digit :: "jstring \<Rightarrow> bool" where
  "no_digit r \<longleftrightarrow> r = [] \<or> \<not> is_digit (hd r)"

lemma digits_append_inject:
  assumes "list_all is_digit a" "list_all is_digit b" "no_digit r" "no_digit r'" "a @ r = b @ r'"
  shows "a = b \<and> r = r'"
  using assms
proof (induction a arbitrary: b)
  case Nil
  then show ?case by (cases b) (auto simp: no_digit_def)
next
  case (Cons c a)
  then show ?case by (cases b) (auto simp: no_digit_def)
qed

lemma show_nat_inject [simp]: "show_nat m = show_nat n \<longleftrightarrow> m = n"
  by (metis digits_value_show_nat)

lemma show_nat_append_inject:
  "no_digit r \<Longrightarrow> no_digit r' \<Longrightarrow> show_nat m @ r = show_nat n @ r' \<Longrightarrow> m = n \<and> r = r'"
  using digits_append_inject [OF show_nat_digits show_nat_digits, of r r' m n] by simp

lemma show_nat_not_Nil [simp]: "show_nat n \<noteq> []"
  by (subst show_nat.simps) simp

lemma hd_show_nat: "is_digit (hd (show_nat n))"
  using show_nat_digits [of n] by (cases "show_nat n") auto

definition head_class :: "jtext \<Rightarrow> nat" where
  "head_class v = (case v of TNull \<Rightarrow> 110 | TStr _ \<Rightarrow> 34 | TNat _ \<Rightarrow> 48 | TArr _ \<Rightarrow> 91 | TObj _ \<Rightarrow> 123)"

lemma stringify_head:
  "stringify v \<noteq> [] \<and> (if is_digit (hd (stringify v)) then 48 else hd (stringify v)) = head_class v"
proof (cases v)
  case (TArr vs)
  then show ?thesis by (cases vs) (simp_all add: head_class_def is_digit_def js_simps)
next
  case (TObj kvs)
  then show ?thesis
    by (cases kvs; cases "hd kvs") (simp_all add: head_class_def is_digit_def)
next
  case (TNat n)
  then show ?thesis by (simp add: head_class_def hd_show_nat)
qed (simp_all add: head_class_def is_digit_def js_simps)

lemma tails_no_digit [simp]:
  "no_digit (elements_tail vs @ r)" "no_digit (members_tail kvs @ r)"
proof -
  show "no_digit (elements_tail vs @ r)" by (cases vs) (simp_all add: no_digit_def is_digit_def)
  show "no_digit (members_tail kvs @ r)"
    by (cases kvs; cases "hd kvs") (simp_all add: no_digit_def is_digit_def)
qed

lemma escape_inject_append [simp]:
  "escape s @ 34 # r = escape s' @ 34 # r' \<longleftrightarrow> s = s' \<and> r = r'"
  using escape_inject by blast

lemma same_head_class:
  assumes "stringify v @ r = stringify v' @ r'"
  shows "head_class v = head_class v'"
proof -
  have "hd (stringify v) = hd (stringify v')"
    using assms stringify_head [of v] stringify_head [of v'] by (metis hd_append2)
  then show ?thesis using stringify_head [of v] stringify_head [of v'] by metis
qed

lemma stringify_append_inject:
  "stringify v @ r = stringify v' @ r' \<Longrightarrow> no_digit r \<Longrightarrow> no_digit r' \<Longrightarrow> v = v' \<and> r = r'"
  "elements_tail vs @ r = elements_tail vs' @ r' \<Longrightarrow> vs = vs' \<and> r = r'"
  "members_tail kvs @ r = members_tail kvs' @ r' \<Longrightarrow> kvs = kvs' \<and> r = r'"
proof (induction v and vs and kvs arbitrary: v' r r' and vs' r r' and kvs' r r'
    rule: stringify_elements_tail_members_tail.induct)
  case 1
  then show ?case using same_head_class [OF 1(1)] by (cases v') (auto simp: head_class_def)
next
  case (2 s)
  then show ?case using same_head_class [OF 2(1)] by (cases v') (auto simp: head_class_def)
next
  case (3 n)
  then obtain m where v': "v' = TNat m"
    using same_head_class [OF 3(1)] by (cases v') (auto simp: head_class_def)
  with 3 have "n = m \<and> r = r'" by (intro show_nat_append_inject) simp_all
  then show ?case using v' by simp
next
  case 4
  then obtain vs where v': "v' = TArr vs"
    using same_head_class [OF 4(1)] by (cases v') (auto simp: head_class_def)
  show ?case
  proof (cases vs)
    case (Cons w ws)
    with 4(1) v' have "93 # r = stringify w @ elements_tail ws @ r'" by (simp add: js_simps)
    then have "hd (stringify w) = 93" using stringify_head [of w] by (metis hd_append2 list.sel(1))
    then show ?thesis
      using stringify_head [of w] by (cases w) (auto simp: head_class_def is_digit_def)
  qed (use 4 v' in \<open>simp add: js_simps\<close>)
next
  case (5 v vs)
  obtain ws' where v': "v' = TArr ws'"
    using same_head_class [OF 5(3)] by (cases v') (auto simp: head_class_def)
  show ?case
  proof (cases ws')
    case Nil
    with 5(3) v' have "93 # r' = stringify v @ elements_tail vs @ r" by (simp add: js_simps)
    then have "hd (stringify v) = 93" using stringify_head [of v] by (metis hd_append2 list.sel(1))
    then show ?thesis
      using stringify_head [of v] by (cases v) (auto simp: head_class_def is_digit_def)
  next
    case (Cons w ws)
    with 5(3) v' have "stringify v @ elements_tail vs @ r = stringify w @ elements_tail ws @ r'"
      by simp
    then have "v = w \<and> elements_tail vs @ r = elements_tail ws @ r'"
      by (rule 5(1)) simp_all
    then show ?thesis using 5(2) v' Cons by blast
  qed
next
  case 6
  then obtain kvs where v': "v' = TObj kvs"
    using same_head_class [OF 6(1)] by (cases v') (auto simp: head_class_def)
  show ?case using 6 v' by (cases kvs; cases "hd kvs") auto
next
  case (7 k v kvs)
  obtain kws' where v': "v' = TObj kws'"
    using same_head_class [OF 7(3)] by (cases v') (auto simp: head_class_def)
  show ?case
  proof (cases kws')
    case Nil
    then show ?thesis using 7(3) v' by simp
  next
    case (Cons kw kws)
    obtain k' w where kw: "kw = (k', w)" by force
    with 7(3) v' Cons have "k = k'"
      and "stringify v @ members_tail kvs @ r = stringify w @ members_tail kws @ r'"
      by simp_all
    moreover from this(2) have "v = w \<and> members_tail kvs @ r = members_tail kws @ r'"
      by (rule 7(1)) simp_all
    ultimately show ?thesis using 7(2) v' Cons kw by blast
  qed
next
  case 8
  then show ?case by (cases vs') auto
next
  case (9 v vs)
  show ?case
  proof (cases vs')
    case Nil
    then show ?thesis using 9(3) by simp
  next
    case (Cons w ws)
    with 9(3) have "stringify v @ elements_tail vs @ r = stringify w @ elements_tail ws @ r'" by simp
    then have "v = w \<and> elements_tail vs @ r = elements_tail ws @ r'" by (rule 9(1)) simp_all
    then show ?thesis using 9(2) Cons by blast
  qed
next
  case 10
  then show ?case by (cases kvs'; cases "hd kvs'") auto
next
  case (11 k v kvs)
  show ?case
  proof (cases kvs')
    case Nil
    then show ?thesis using 11(3) by simp
  next
    case (Cons kw kws)
    obtain k' w where kw: "kw = (k', w)" by force
    with 11(3) Cons have "k = k'"
      and "stringify v @ members_tail kvs @ r = stringify w @ members_tail kws @ r'"
      by simp_all
    moreover from this(2) have "v = w \<and> members_tail kvs @ r = members_tail kws @ r'"
      by (rule 11(1)) simp_all
    ultimately show ?thesis using 11(2) Cons kw by blast
  qed
qed

lemma stringify_inject [simp]: "stringify v = stringify v' \<longleftrightarrow> v = v'"
  using stringify_append_inject(1) [of v "[]" v' "[]"] by (auto simp: no_digit_def)

end
