(* ===== verification/Identity.thy ===== *)
theory Identity
  imports Prelude
begin

text \<open>
  \<open>src/enterprise/identity.ts\<close>: roles and their capabilities, the identity records, the
  execution context derived from a membership, and the in-memory identity repository. A
  \<open>Date\<close> is its time value in milliseconds. The TypeScript interface \<open>IdentityRepository\<close> is
  the record \<open>identity_ops\<close> of operations over a repository state; what its clients rely on is
  the locale \<open>identity_repository\<close>, interpreted here on the in-memory repository.
\<close>

section \<open>Roles and capabilities\<close>

datatype role = Agent | Supervisor | Admin

datatype capability =
    Agent_invoke | Conversation_read | Ticket_create | Handoff_create | Audit_read
  | Storeops_read | Availability_write | Booking_create | Booking_manage

definition roles :: "role list" where
  "roles = [Agent, Supervisor, Admin]"

definition capabilities :: "capability list" where
  "capabilities = [Agent_invoke, Conversation_read, Ticket_create, Handoff_create, Audit_read,
     Storeops_read, Availability_write, Booking_create, Booking_manage]"

fun capabilitiesForRole :: "role \<Rightarrow> capability list" where
  "capabilitiesForRole Agent =
     [Agent_invoke, Conversation_read, Ticket_create, Storeops_read, Booking_create]"
| "capabilitiesForRole Supervisor =
     [Agent_invoke, Conversation_read, Ticket_create, Handoff_create, Storeops_read,
      Availability_write, Booking_create, Booking_manage]"
| "capabilitiesForRole Admin =
     [Agent_invoke, Conversation_read, Ticket_create, Handoff_create, Audit_read, Storeops_read,
      Availability_write, Booking_create, Booking_manage]"

text \<open>\<open>isRole\<close> on a string of the database: the role it names, if any.\<close>

definition isRole :: "jstring \<Rightarrow> role option" where
  "isRole s = (if s = js ''agent'' then Some Agent else if s = js ''supervisor'' then Some Supervisor
     else if s = js ''admin'' then Some Admin else None)"

fun role_name :: "role \<Rightarrow> jstring" where
  "role_name Agent = js ''agent''"
| "role_name Supervisor = js ''supervisor''"
| "role_name Admin = js ''admin''"

lemma isRole_role_name [simp]: "isRole (role_name r) = Some r"
  by (cases r) (simp_all add: isRole_def)

lemma isRole_iff: "isRole s = Some r \<longleftrightarrow> s = role_name r"
  by (cases r) (auto simp: isRole_def)

lemma roles_all: "r \<in> set roles"
  by (cases r) (simp_all add: roles_def)

text \<open>The capabilities grow along agent, supervisor, admin; only an admin reads the audit.\<close>

lemma capabilities_monotone:
  "set (capabilitiesForRole Agent) \<subset> set (capabilitiesForRole Supervisor)"
  "set (capabilitiesForRole Supervisor) \<subset> set (capabilitiesForRole Admin)"
  by auto

lemma capability_owners:
  "Audit_read \<in> set (capabilitiesForRole r) \<longleftrightarrow> r = Admin"
  "Handoff_create \<in> set (capabilitiesForRole r) \<longleftrightarrow> r \<noteq> Agent"
  "Booking_manage \<in> set (capabilitiesForRole r) \<longleftrightarrow> r \<noteq> Agent"
  "Availability_write \<in> set (capabilitiesForRole r) \<longleftrightarrow> r \<noteq> Agent"
  "Agent_invoke \<in> set (capabilitiesForRole r)"
  "Ticket_create \<in> set (capabilitiesForRole r)"
  "Booking_create \<in> set (capabilitiesForRole r)"
  "Storeops_read \<in> set (capabilitiesForRole r)"
  by (cases r; simp)+

section \<open>Records\<close>

type_synonym date = int

record user =
  user_id :: jstring
  user_email :: jstring
  user_displayName :: jstring
  user_passwordHash :: jstring
  user_createdAt :: date

record tenant =
  tenant_id :: jstring
  tenant_name :: jstring
  tenant_createdAt :: date

record store_rec =
  store_id :: jstring
  store_tenantId :: jstring
  store_name :: jstring
  store_createdAt :: date

record membership =
  mem_id :: jstring
  mem_userId :: jstring
  mem_tenantId :: jstring
  mem_storeId :: jstring
  mem_role :: role
  mem_createdAt :: date

record auth_session =
  ses_id :: jstring
  ses_userId :: jstring
  ses_tokenHash :: jstring
  ses_expiresAt :: date
  ses_createdAt :: date

text \<open>\<open>SupportExecutionContext\<close>, its nested objects flattened into one record.\<close>

record exec_context =
  actor_userId :: jstring
  actor_role :: role
  actor_capabilities :: "capability list"
  scope_tenantId :: jstring
  scope_storeId :: jstring
  request_requestId :: jstring

definition createSupportExecutionContext :: "membership \<Rightarrow> jstring \<Rightarrow> exec_context" where
  "createSupportExecutionContext m requestId =
     \<lparr>actor_userId = mem_userId m, actor_role = mem_role m,
      actor_capabilities = capabilitiesForRole (mem_role m),
      scope_tenantId = mem_tenantId m, scope_storeId = mem_storeId m,
      request_requestId = requestId\<rparr>"

section \<open>The repository interface\<close>

record 'r identity_ops =
  createUser :: "'r \<Rightarrow> user \<Rightarrow> (error, 'r) result"
  createTenant :: "'r \<Rightarrow> tenant \<Rightarrow> (error, 'r) result"
  createStore :: "'r \<Rightarrow> store_rec \<Rightarrow> (error, 'r) result"
  createMembership :: "'r \<Rightarrow> membership \<Rightarrow> (error, 'r) result"
  createAuthSession :: "'r \<Rightarrow> auth_session \<Rightarrow> (error, 'r) result"
  findUserByEmail :: "'r \<Rightarrow> jstring \<Rightarrow> user option"
  findUserById :: "'r \<Rightarrow> jstring \<Rightarrow> user option"
  findAuthSessionByTokenHash :: "'r \<Rightarrow> jstring \<Rightarrow> auth_session option"
  findAuthSessionByUserId :: "'r \<Rightarrow> jstring \<Rightarrow> auth_session list"
  deleteAuthSessionByTokenHash :: "'r \<Rightarrow> jstring \<Rightarrow> 'r"
  findMembership :: "'r \<Rightarrow> jstring \<Rightarrow> jstring \<Rightarrow> jstring \<Rightarrow> membership option"
  listMembershipsForUser :: "'r \<Rightarrow> jstring \<Rightarrow> membership list"

definition normalizeEmail :: "jstring \<Rightarrow> jstring" where
  "normalizeEmail email = to_lower (trim email)"

definition sameMembership :: "membership \<Rightarrow> membership \<Rightarrow> bool" where
  "sameMembership l r \<longleftrightarrow> mem_userId l = mem_userId r \<and> mem_tenantId l = mem_tenantId r \<and>
     mem_storeId l = mem_storeId r"

text \<open>
  What the authentication service relies on, for token hashes of the form \<open>hash_ok\<close> that the
  repository can store: sessions are found under their token hash until
  they are deleted, session operations touch nothing else, and the memberships listed for a
  user are the user's own.
\<close>

locale identity_repository =
  fixes ops :: "'r identity_ops"
    and inv :: "'r \<Rightarrow> bool"
    and hash_ok :: "jstring \<Rightarrow> bool"
  assumes session_found: "inv r \<Longrightarrow> hash_ok (ses_tokenHash s) \<Longrightarrow> hash_ok h \<Longrightarrow> createAuthSession ops r s = Inr r' \<Longrightarrow>
      findAuthSessionByTokenHash ops r' h =
        (if h = ses_tokenHash s then Some s else findAuthSessionByTokenHash ops r h)"
    and session_fresh: "inv r \<Longrightarrow> createAuthSession ops r s = Inr r' \<Longrightarrow>
      findAuthSessionByTokenHash ops r (ses_tokenHash s) = None"
    and session_frame: "inv r \<Longrightarrow> createAuthSession ops r s = Inr r' \<Longrightarrow>
      inv r' \<and> findUserById ops r' = findUserById ops r \<and>
      findUserByEmail ops r' = findUserByEmail ops r \<and>
      listMembershipsForUser ops r' = listMembershipsForUser ops r"
    and session_deleted: "inv r \<Longrightarrow> hash_ok h \<Longrightarrow> hash_ok h' \<Longrightarrow>
      findAuthSessionByTokenHash ops (deleteAuthSessionByTokenHash ops r h) h' =
        (if h' = h then None else findAuthSessionByTokenHash ops r h')"
    and delete_frame: "inv r \<Longrightarrow>
      inv (deleteAuthSessionByTokenHash ops r h) \<and>
      findUserById ops (deleteAuthSessionByTokenHash ops r h) = findUserById ops r \<and>
      findUserByEmail ops (deleteAuthSessionByTokenHash ops r h) = findUserByEmail ops r \<and>
      listMembershipsForUser ops (deleteAuthSessionByTokenHash ops r h) = listMembershipsForUser ops r"
    and user_by_email: "inv r \<Longrightarrow> findUserByEmail ops r e = Some u \<Longrightarrow>
      findUserById ops r (user_id u) = Some u"
    and user_by_id: "inv r \<Longrightarrow> findUserById ops r i = Some u \<Longrightarrow> user_id u = i"
    and own_memberships: "inv r \<Longrightarrow> m \<in> set (listMembershipsForUser ops r i) \<Longrightarrow> mem_userId m = i"

section \<open>The in-memory repository\<close>

record memory_repo =
  users :: "(jstring, user) js_map"
  usersByEmail :: "(jstring, jstring) js_map"
  tenants :: "(jstring, tenant) js_map"
  stores :: "(jstring, store_rec) js_map"
  memberships :: "(jstring, membership) js_map"
  sessions :: "(jstring, auth_session) js_map"

definition empty_repo :: memory_repo where
  "empty_repo = \<lparr>users = [], usersByEmail = [], tenants = [], stores = [], memberships = [], sessions = []\<rparr>"

definition mem_createUser :: "memory_repo \<Rightarrow> user \<Rightarrow> (error, memory_repo) result" where
  "mem_createUser r u =
     (let email = normalizeEmail (user_email u) in
      if map_has (users r) (user_id u) \<or> map_has (usersByEmail r) email
      then Inl ''User already exists.''
      else Inr (r\<lparr>users := AList.update (user_id u) (u\<lparr>user_email := email\<rparr>) (users r),
                  usersByEmail := AList.update email (user_id u) (usersByEmail r)\<rparr>))"

definition mem_createTenant :: "memory_repo \<Rightarrow> tenant \<Rightarrow> (error, memory_repo) result" where
  "mem_createTenant r t =
     (if map_has (tenants r) (tenant_id t) then Inl ''Tenant already exists.''
      else Inr (r\<lparr>tenants := AList.update (tenant_id t) t (tenants r)\<rparr>))"

definition mem_createStore :: "memory_repo \<Rightarrow> store_rec \<Rightarrow> (error, memory_repo) result" where
  "mem_createStore r s =
     (if \<not> map_has (tenants r) (store_tenantId s) then Inl ''Store tenant does not exist.''
      else if map_has (stores r) (store_id s) then Inl ''Store already exists.''
      else Inr (r\<lparr>stores := AList.update (store_id s) s (stores r)\<rparr>))"

text \<open>The role check of the source cannot fail on the typed role.\<close>

definition mem_createMembership :: "memory_repo \<Rightarrow> membership \<Rightarrow> (error, memory_repo) result" where
  "mem_createMembership r m =
     (if mem_role m \<notin> set roles then Inl ''Membership role is invalid.''
      else if \<not> map_has (users r) (mem_userId m) then Inl ''Membership user does not exist.''
      else if \<not> map_has (tenants r) (mem_tenantId m) then Inl ''Membership tenant does not exist.''
      else (case map_get (stores r) (mem_storeId m) of
          None \<Rightarrow> Inl ''Membership store does not exist.''
        | Some s \<Rightarrow>
            if store_tenantId s \<noteq> mem_tenantId m then Inl ''Membership store does not belong to tenant.''
            else if list_ex (\<lambda>x. sameMembership x m) (map_values (memberships r))
            then Inl ''Membership already exists.''
            else Inr (r\<lparr>memberships := AList.update (mem_id m) m (memberships r)\<rparr>)))"

definition mem_createAuthSession :: "memory_repo \<Rightarrow> auth_session \<Rightarrow> (error, memory_repo) result" where
  "mem_createAuthSession r s =
     (if \<not> map_has (users r) (ses_userId s) then Inl ''Auth session user does not exist.''
      else if map_has (sessions r) (ses_tokenHash s) then Inl ''Auth session token hash already exists.''
      else Inr (r\<lparr>sessions := AList.update (ses_tokenHash s) s (sessions r)\<rparr>))"

text \<open>\<open>id ? this.users.get(id) : undefined\<close>: an empty id is falsy.\<close>

definition mem_findUserByEmail :: "memory_repo \<Rightarrow> jstring \<Rightarrow> user option" where
  "mem_findUserByEmail r email =
     (case map_get (usersByEmail r) (normalizeEmail email) of
        None \<Rightarrow> None
      | Some i \<Rightarrow> if i = [] then None else map_get (users r) i)"

definition mem_findUserById :: "memory_repo \<Rightarrow> jstring \<Rightarrow> user option" where
  "mem_findUserById r i = map_get (users r) i"

definition mem_findAuthSessionByTokenHash :: "memory_repo \<Rightarrow> jstring \<Rightarrow> auth_session option" where
  "mem_findAuthSessionByTokenHash r h = map_get (sessions r) h"

definition mem_findAuthSessionByUserId :: "memory_repo \<Rightarrow> jstring \<Rightarrow> auth_session list" where
  "mem_findAuthSessionByUserId r i = filter (\<lambda>s. ses_userId s = i) (map_values (sessions r))"

definition mem_deleteAuthSessionByTokenHash :: "memory_repo \<Rightarrow> jstring \<Rightarrow> memory_repo" where
  "mem_deleteAuthSessionByTokenHash r h = r\<lparr>sessions := AList.delete h (sessions r)\<rparr>"

definition mem_findMembership :: "memory_repo \<Rightarrow> jstring \<Rightarrow> jstring \<Rightarrow> jstring \<Rightarrow> membership option" where
  "mem_findMembership r u t s =
     List.find (\<lambda>m. mem_userId m = u \<and> mem_tenantId m = t \<and> mem_storeId m = s) (map_values (memberships r))"

definition mem_listMembershipsForUser :: "memory_repo \<Rightarrow> jstring \<Rightarrow> membership list" where
  "mem_listMembershipsForUser r u = filter (\<lambda>m. mem_userId m = u) (map_values (memberships r))"

definition memory_ops :: "memory_repo identity_ops" where
  "memory_ops =
     \<lparr>createUser = mem_createUser, createTenant = mem_createTenant, createStore = mem_createStore,
      createMembership = mem_createMembership, createAuthSession = mem_createAuthSession,
      findUserByEmail = mem_findUserByEmail, findUserById = mem_findUserById,
      findAuthSessionByTokenHash = mem_findAuthSessionByTokenHash,
      findAuthSessionByUserId = mem_findAuthSessionByUserId,
      deleteAuthSessionByTokenHash = mem_deleteAuthSessionByTokenHash,
      findMembership = mem_findMembership, listMembershipsForUser = mem_listMembershipsForUser\<rparr>"

lemma memory_ops_simps:
  "createUser memory_ops = mem_createUser" "createTenant memory_ops = mem_createTenant"
  "createStore memory_ops = mem_createStore" "createMembership memory_ops = mem_createMembership"
  "createAuthSession memory_ops = mem_createAuthSession"
  "findUserByEmail memory_ops = mem_findUserByEmail" "findUserById memory_ops = mem_findUserById"
  "findAuthSessionByTokenHash memory_ops = mem_findAuthSessionByTokenHash"
  "findAuthSessionByUserId memory_ops = mem_findAuthSessionByUserId"
  "deleteAuthSessionByTokenHash memory_ops = mem_deleteAuthSessionByTokenHash"
  "findMembership memory_ops = mem_findMembership"
  "listMembershipsForUser memory_ops = mem_listMembershipsForUser"
  by (simp_all add: memory_ops_def)

subsection \<open>Invariant\<close>

text \<open>
  Users sit under their own id with a normalized e-mail that the e-mail index points back from;
  every store has a tenant; every membership joins an existing user to a store of its own
  tenant, once per user and store; every session sits under its token hash and has a user.
\<close>

definition membership_ok :: "memory_repo \<Rightarrow> membership \<Rightarrow> bool" where
  "membership_ok r m \<longleftrightarrow> map_has (users r) (mem_userId m) \<and>
     (\<exists>s. map_get (stores r) (mem_storeId m) = Some s \<and> store_tenantId s = mem_tenantId m)"

definition repo_ok :: "memory_repo \<Rightarrow> bool" where
  "repo_ok r \<longleftrightarrow>
     (\<forall>i u. map_get (users r) i = Some u \<longrightarrow>
        user_id u = i \<and> map_get (usersByEmail r) (user_email u) = Some i) \<and>
     (\<forall>e i. map_get (usersByEmail r) e = Some i \<longrightarrow>
        (\<exists>u. map_get (users r) i = Some u \<and> user_email u = e)) \<and>
     (\<forall>i s. map_get (stores r) i = Some s \<longrightarrow> store_id s = i \<and> map_has (tenants r) (store_tenantId s)) \<and>
     (\<forall>m \<in> set (map_values (memberships r)). membership_ok r m) \<and>
     (\<forall>h s. map_get (sessions r) h = Some s \<longrightarrow> ses_tokenHash s = h \<and> map_has (users r) (ses_userId s))"

lemmas memory_defs =
  mem_createUser_def mem_createTenant_def mem_createStore_def mem_createMembership_def
  mem_createAuthSession_def mem_findUserByEmail_def mem_findUserById_def
  mem_findAuthSessionByTokenHash_def mem_findAuthSessionByUserId_def
  mem_deleteAuthSessionByTokenHash_def mem_findMembership_def mem_listMembershipsForUser_def
  map_has_def

lemma set_values_update:
  "x \<in> set (map_values (AList.update k v m)) \<Longrightarrow> x = v \<or> x \<in> set (map_values m)"
  by (induction m) (auto split: if_splits)

lemma membership_ok_mono:
  assumes "membership_ok r m"
    and "\<And>i. map_has (users r) i \<Longrightarrow> map_has (users r') i"
    and "\<And>i s. map_get (stores r) i = Some s \<Longrightarrow> map_get (stores r') i = Some s"
  shows "membership_ok r' m"
  using assms by (auto simp: membership_ok_def)

lemma repo_ok_membership:
  "repo_ok r \<Longrightarrow> m \<in> set (map_values (memberships r)) \<Longrightarrow> membership_ok r m"
  unfolding repo_ok_def by blast

lemma repo_ok_empty: "repo_ok empty_repo"
  by (simp add: repo_ok_def empty_repo_def)

lemma repo_ok_createUser:
  assumes ok: "repo_ok r" and new: "mem_createUser r u = Inr r'"
  shows "repo_ok r'"
proof -
  have r': "map_get (users r) (user_id u) = None"
    "map_get (usersByEmail r) (normalizeEmail (user_email u)) = None"
    "r' = r\<lparr>users := AList.update (user_id u) (u\<lparr>user_email := normalizeEmail (user_email u)\<rparr>) (users r),
       usersByEmail := AList.update (normalizeEmail (user_email u)) (user_id u) (usersByEmail r)\<rparr>"
    using new by (auto simp: memory_defs Let_def split: if_splits)
  have "\<forall>m \<in> set (map_values (memberships r)). membership_ok r' m"
  proof
    fix m assume "m \<in> set (map_values (memberships r))"
    with ok have "membership_ok r m" by (rule repo_ok_membership)
    then show "membership_ok r' m" by (rule membership_ok_mono) (simp_all add: r'(3) map_has_def)
  qed
  moreover have "\<forall>e i. map_get (usersByEmail r) e = Some i \<longrightarrow> i \<noteq> user_id u"
    using ok r'(1) unfolding repo_ok_def by (metis option.distinct(1))
  moreover have "\<forall>i v. map_get (users r) i = Some v \<longrightarrow> user_email v \<noteq> normalizeEmail (user_email u)"
    using ok r'(2) unfolding repo_ok_def by (metis option.distinct(1))
  ultimately show ?thesis using ok r'(1,2)
    unfolding repo_ok_def by (auto simp: r'(3) map_has_def)
qed

lemma repo_ok_createTenant:
  assumes ok: "repo_ok r" and new: "mem_createTenant r t = Inr r'"
  shows "repo_ok r'"
proof -
  have r': "r' = r\<lparr>tenants := AList.update (tenant_id t) t (tenants r)\<rparr>"
    using new by (auto simp: memory_defs split: if_splits)
  have "membership_ok r' m = membership_ok r m" for m by (simp add: membership_ok_def r')
  then show ?thesis using ok unfolding repo_ok_def r' by (auto simp: map_has_def)
qed

lemma repo_ok_createStore:
  assumes ok: "repo_ok r" and new: "mem_createStore r s = Inr r'"
  shows "repo_ok r'"
proof -
  have r': "map_has (tenants r) (store_tenantId s)" "map_get (stores r) (store_id s) = None"
    "r' = r\<lparr>stores := AList.update (store_id s) s (stores r)\<rparr>"
    using new by (auto simp: memory_defs split: if_splits)
  have "\<forall>m \<in> set (map_values (memberships r)). membership_ok r' m"
  proof
    fix m assume "m \<in> set (map_values (memberships r))"
    with ok have "membership_ok r m" by (rule repo_ok_membership)
    then show "membership_ok r' m" by (rule membership_ok_mono) (use r'(2) in \<open>auto simp: r'(3)\<close>)
  qed
  then show ?thesis using ok r'(1,2) unfolding repo_ok_def by (auto simp: r'(3))
qed

lemma repo_ok_createMembership:
  assumes ok: "repo_ok r" and new: "mem_createMembership r m = Inr r'"
  shows "repo_ok r'"
proof -
  have m: "membership_ok r m" and r': "r' = r\<lparr>memberships := AList.update (mem_id m) m (memberships r)\<rparr>"
    using new by (auto simp: memory_defs membership_ok_def split: if_splits option.splits)
  have "membership_ok r' x \<longleftrightarrow> membership_ok r x" for x
    by (simp add: membership_ok_def r')
  then have "\<forall>x \<in> set (map_values (memberships r')). membership_ok r' x"
    using ok m set_values_update [of _ "mem_id m" m "memberships r"]
    unfolding repo_ok_def r' by fastforce
  then show ?thesis using ok unfolding repo_ok_def by (auto simp: r')
qed

lemma membership_ok_sessions [simp]: "membership_ok (r\<lparr>sessions := x\<rparr>) = membership_ok r"
  by (simp add: fun_eq_iff membership_ok_def)

lemma repo_ok_createAuthSession: "repo_ok r \<Longrightarrow> mem_createAuthSession r s = Inr r' \<Longrightarrow> repo_ok r'"
  unfolding repo_ok_def mem_createAuthSession_def by (force split: if_splits)

lemma repo_ok_deleteAuthSession: "repo_ok r \<Longrightarrow> repo_ok (mem_deleteAuthSessionByTokenHash r h)"
  unfolding repo_ok_def mem_deleteAuthSessionByTokenHash_def by (force split: if_splits)

lemmas repo_ok_intros =
  repo_ok_createUser repo_ok_createTenant repo_ok_createStore repo_ok_createMembership
  repo_ok_createAuthSession repo_ok_deleteAuthSession

lemma find_frame [simp]:
  "mem_findUserByEmail (r\<lparr>sessions := x\<rparr>) = mem_findUserByEmail r"
  "mem_findUserById (r\<lparr>sessions := x\<rparr>) = mem_findUserById r"
  "mem_listMembershipsForUser (r\<lparr>sessions := x\<rparr>) = mem_listMembershipsForUser r"
  by (auto simp: fun_eq_iff mem_findUserByEmail_def mem_findUserById_def mem_listMembershipsForUser_def
      split: option.splits)

interpretation memory: identity_repository memory_ops repo_ok "\<lambda>_. True"
proof (unfold_locales, goal_cases)
  case (1 r s r' h)
  then show ?case by (auto simp: memory_ops_def memory_defs split: if_splits)
next
  case (2 r s r')
  then show ?case by (auto simp: memory_ops_def memory_defs split: if_splits)
next
  case (3 r s r')
  then have "repo_ok r'" using repo_ok_createAuthSession by (simp add: memory_ops_def)
  with 3 show ?case by (auto simp: memory_ops_def mem_createAuthSession_def split: if_splits)
next
  case (4 r h h')
  then show ?case by (simp add: memory_ops_def memory_defs)
next
  case (5 r h)
  then have "repo_ok (mem_deleteAuthSessionByTokenHash r h)" by (rule repo_ok_deleteAuthSession)
  then show ?case by (simp add: memory_ops_def mem_deleteAuthSessionByTokenHash_def)
next
  case (6 r e u)
  then show ?case
    by (auto simp: memory_ops_def memory_defs repo_ok_def split: option.splits if_splits)
next
  case (7 r i u)
  then show ?case by (simp add: memory_ops_def memory_defs repo_ok_def)
next
  case (8 r m i)
  then show ?case by (simp add: memory_ops_def memory_defs)
qed

end
