(* ===== verification/Bytes.thy ===== *)
theory Bytes
  imports Prelude "HOL-Library.Word"
begin

text \<open>
  Node's \<open>Buffer\<close> as a list of 8-bit words, and the encodings the program uses of it: base64
  and base64url, UTF-8, hexadecimal, 32-bit big-endian integers. \<open>Buffer.from(s, "base64")\<close>
  and \<open>"base64url"\<close> read both alphabets and skip every other character.
\<close>

type_synonym byte = "8 word"

section \<open>Base64\<close>

definition b64_char :: "bool \<Rightarrow> nat \<Rightarrow> nat" where
  "b64_char url d =
     (if d < 26 then 65 + d else if d < 52 then 97 + (d - 26) else if d < 62 then 48 + (d - 52)
      else if d = 62 then (if url then 45 else 43) else (if url then 95 else 47))"

definition b64_digit :: "nat \<Rightarrow> nat option" where
  "b64_digit c =
     (if 65 \<le> c \<and> c \<le> 90 then Some (c - 65) else if 97 \<le> c \<and> c \<le> 122 then Some (c - 97 + 26)
      else if 48 \<le> c \<and> c \<le> 57 then Some (c - 48 + 52) else if c = 43 \<or> c = 45 then Some 62
      else if c = 47 \<or> c = 95 then Some 63 else None)"

fun b64_digits :: "byte list \<Rightarrow> nat list" where
  "b64_digits [] = []"
| "b64_digits [a] = [unat a div 4, (unat a mod 4) * 16]"
| "b64_digits [a, b] = [unat a div 4, (unat a mod 4) * 16 + unat b div 16, (unat b mod 16) * 4]"
| "b64_digits (a # b # c # r) =
     [unat a div 4, (unat a mod 4) * 16 + unat b div 16, (unat b mod 16) * 4 + unat c div 64,
      unat c mod 64] @ b64_digits r"

fun b64_bytes :: "nat list \<Rightarrow> byte list" where
  "b64_bytes (p # q # r # s # ds) =
     of_nat (p * 4 + q div 16) # of_nat (q mod 16 * 16 + r div 4) # of_nat (r mod 4 * 64 + s) # b64_bytes ds"
| "b64_bytes [p, q, r] = [of_nat (p * 4 + q div 16), of_nat (q mod 16 * 16 + r div 4)]"
| "b64_bytes [p, q] = [of_nat (p * 4 + q div 16)]"
| "b64_bytes _ = []"

definition base64url :: "byte list \<Rightarrow> jstring" where
  "base64url bs = map (b64_char True) (b64_digits bs)"

definition base64 :: "byte list \<Rightarrow> jstring" where
  "base64 bs = map (b64_char False) (b64_digits bs) @
     (if length bs mod 3 = 1 then [61, 61] else if length bs mod 3 = 2 then [61] else [])"

definition from_base64 :: "jstring \<Rightarrow> byte list" where
  "from_base64 s = b64_bytes (List.map_filter b64_digit s)"

lemma b64_digit_char [simp]: "d < 64 \<Longrightarrow> b64_digit (b64_char url d) = Some d"
  by (auto simp: b64_digit_def b64_char_def)

lemma byte_bound: "unat (b :: byte) < 256"
  using unsigned_less [of b, where 'a = nat] by simp

lemma byte_parts: "unat (b :: byte) div 16 < 16" "unat (b :: byte) div 64 < 4"
  using byte_bound [of b] by (simp_all add: less_mult_imp_div_less)

lemma b64_digits_bound: "d \<in> set (b64_digits bs) \<Longrightarrow> d < 64"
proof (induction bs rule: b64_digits.induct)
  case (2 a)
  then show ?case using byte_bound [of a] by auto
next
  case (3 a b)
  then show ?case using byte_bound [of a] byte_parts [of b] by auto
next
  case (4 a b c r)
  then show ?case using byte_bound [of a] byte_parts [of b] byte_parts [of c] by auto
qed simp

lemma b64_join:
  "y < 16 \<Longrightarrow> (a div 4) * 4 + ((a mod 4) * 16 + y) div 16 = (a :: nat)"
  "(a div 4) * 4 + ((a mod 4) * 16) div 16 = (a :: nat)"
  "z < 4 \<Longrightarrow> b < 256 \<Longrightarrow> (x * 16 + b div 16) mod 16 * 16 + ((b mod 16) * 4 + z) div 4 = (b :: nat)"
  "b < 256 \<Longrightarrow> (x * 16 + b div 16) mod 16 * 16 + ((b mod 16) * 4) div 4 = (b :: nat)"
  "c < 256 \<Longrightarrow> (x * 4 + c div 64) mod 4 * 64 + c mod 64 = (c :: nat)"
  by (simp_all add: less_mult_imp_div_less)

lemma b64_bytes_digits [simp]: "b64_bytes (b64_digits bs) = bs"
  by (induction bs rule: b64_digits.induct)
    (simp_all only: b64_digits.simps b64_bytes.simps append.simps b64_join byte_parts byte_bound
      of_nat_unat ucast_id)

lemma map_filter_b64: "list_all (\<lambda>d. d < 64) ds \<Longrightarrow> List.map_filter b64_digit (map (b64_char u) ds) = ds"
  by (induction ds) (simp_all add: List.map_filter_simps)

lemma map_filter_append: "List.map_filter f (a @ b) = List.map_filter f a @ List.map_filter f b"
  by (simp add: List.map_filter_def)

lemma from_base64_base64url [simp]: "from_base64 (base64url bs) = bs"
  by (simp add: from_base64_def base64url_def map_filter_b64 list_all_iff b64_digits_bound)

lemma from_base64_base64 [simp]: "from_base64 (base64 bs) = bs"
  by (simp add: from_base64_def base64_def map_filter_append map_filter_b64 list_all_iff
      b64_digits_bound List.map_filter_simps b64_digit_def)

lemma base64url_chars: "c \<in> set (base64url bs) \<Longrightarrow> c \<noteq> 36 \<and> c \<noteq> 59 \<and> c \<noteq> 61"
  by (auto simp: base64url_def b64_char_def split: if_splits)

lemma base64url_Nil_iff [simp]: "base64url bs = [] \<longleftrightarrow> bs = []"
  by (cases bs rule: b64_digits.cases) (simp_all add: base64url_def)

section \<open>UTF-8 and integers\<close>

text \<open>\<open>Buffer.from(s, "utf8")\<close>: a lone surrogate is written as U+FFFD.\<close>

definition utf8_point :: "nat \<Rightarrow> byte list" where
  "utf8_point p =
     map of_nat
      (if p < 0x80 then [p]
       else if p < 0x800 then [0xC0 + p div 64, 0x80 + p mod 64]
       else if p < 0x10000 then [0xE0 + p div 4096, 0x80 + p div 64 mod 64, 0x80 + p mod 64]
       else [0xF0 + p div 262144, 0x80 + p div 4096 mod 64, 0x80 + p div 64 mod 64, 0x80 + p mod 64])"

fun point_value :: "jstring \<Rightarrow> nat" where
  "point_value [c] = (if is_high c \<or> is_low c then 0xFFFD else c)"
| "point_value [h, l] = 0x10000 + (h - 0xD800) * 0x400 + (l - 0xDC00)"
| "point_value _ = 0xFFFD"

definition utf8 :: "jstring \<Rightarrow> byte list" where
  "utf8 s = concat (map (utf8_point \<circ> point_value) (code_points s))"

text \<open>\<open>Buffer.byteLength(s)\<close>.\<close>

definition byte_length :: "jstring \<Rightarrow> nat" where
  "byte_length s = length (utf8 s)"

fun be32 :: "byte list \<Rightarrow> nat" where
  "be32 (a # b # c # d # _) = ((unat a * 256 + unat b) * 256 + unat c) * 256 + unat d"
| "be32 _ = 0"

definition to_be32 :: "nat \<Rightarrow> byte list" where
  "to_be32 n = map of_nat [n div 256 div 256 div 256, n div 256 div 256 mod 256, n div 256 mod 256, n mod 256]"

lemma be32_to_be32 [simp]:
  assumes "n < 2 ^ 32"
  shows "be32 (to_be32 n @ r) = n"
proof -
  have top: "n div 256 div 256 div 256 < 256"
    using assms by (simp add: less_mult_imp_div_less)
  have u: "unat (of_nat m :: byte) = m" if "m < 256" for m
    using that by (simp add: unat_of_nat take_bit_eq_mod)
  show ?thesis
    unfolding to_be32_def by (simp add: u top del: div_mult2_eq)
qed

lemma length_to_be32 [simp]: "length (to_be32 n) = 4"
  by (simp add: to_be32_def)

lemma utf8_ascii: "list_all (\<lambda>c. c < 0x80) s \<Longrightarrow> utf8 s = map of_nat s"
proof (induction s rule: code_points.induct)
  case (3 c d s)
  then show ?case by (simp add: utf8_def utf8_point_def is_high_def is_low_def)
qed (simp_all add: utf8_def utf8_point_def is_high_def is_low_def)

end
