(* ===== verification/AuthService.thy ===== *)
theory AuthService
  imports Identity Bytes
begin

text \<open>
  \<open>src/enterprise/auth.ts\<close>: \<open>EnterpriseAuthService\<close> over an identity repository. The cryptographic
  functions of \<open>node:crypto\<close> are the fields of \<open>crypto\<close>; random bytes, the random UUID and
  the clock reading of a call are its arguments. The client's lemmas are proved once in the
  locale \<open>identity_repository\<close>; the properties rest on its interpretation on the in-memory
  repository.
\<close>

record crypto =
  sha256_hex :: "jstring \<Rightarrow> jstring"
  scrypt :: "jstring \<Rightarrow> byte list \<Rightarrow> nat \<Rightarrow> byte list"

definition PASSWORD_KEY_BYTES :: nat where
  "PASSWORD_KEY_BYTES = 64"

record authenticated_session =
  as_token :: jstring
  as_expiresAt :: date

section \<open>Passwords\<close>

definition hashPassword :: "crypto \<Rightarrow> byte list \<Rightarrow> jstring \<Rightarrow> (error, jstring) result" where
  "hashPassword c salt password =
     (if password = [] then Inl ''Password is required.''
      else Inr (js ''scrypt$'' @ base64url salt @ js ''$'' @ base64url (scrypt c password salt PASSWORD_KEY_BYTES)))"

definition hashSessionToken :: "crypto \<Rightarrow> jstring \<Rightarrow> jstring" where
  "hashSessionToken c token = sha256_hex c token"

definition verifyPassword :: "crypto \<Rightarrow> jstring \<Rightarrow> jstring \<Rightarrow> bool" where
  "verifyPassword c password encoded =
     (case split_on 36 encoded of
        algorithm # saltEncoded # expectedEncoded # _ \<Rightarrow>
          if algorithm \<noteq> js ''scrypt'' \<or> saltEncoded = [] \<or> expectedEncoded = [] then False
          else (let expected = from_base64 expectedEncoded;
                    actual = scrypt c password (from_base64 saltEncoded) (length expected)
                in length actual = length expected \<and> actual = expected)
      | _ \<Rightarrow> False)"

definition rejectUnknownPassword :: "jstring \<Rightarrow> bool" where
  "rejectUnknownPassword password = False"

section \<open>The service\<close>

definition login ::
  "'r identity_ops \<Rightarrow> crypto \<Rightarrow> int \<Rightarrow> 'r \<Rightarrow> jstring \<Rightarrow> jstring \<Rightarrow> date \<Rightarrow> byte list \<Rightarrow> jstring \<Rightarrow>
     (error, 'r \<times> authenticated_session option) result" where
  "login ops c ttl r email password now random uuid =
     (let found = findUserByEmail ops r email;
          valid = (case found of Some u \<Rightarrow> verifyPassword c password (user_passwordHash u)
                   | None \<Rightarrow> rejectUnknownPassword password) in
      case found of
        None \<Rightarrow> Inr (r, None)
      | Some u \<Rightarrow>
          if \<not> valid then Inr (r, None)
          else (let token = base64url random; expiresAt = now + ttl in
            and_then (createAuthSession ops r
                \<lparr>ses_id = uuid, ses_userId = user_id u, ses_tokenHash = hashSessionToken c token,
                 ses_expiresAt = expiresAt, ses_createdAt = now\<rparr>)
              (\<lambda>r'. Inr (r', Some \<lparr>as_token = token, as_expiresAt = expiresAt\<rparr>))))"

text \<open>A missing token is \<open>undefined\<close>; the empty string is falsy too.\<close>

definition logout :: "'r identity_ops \<Rightarrow> crypto \<Rightarrow> 'r \<Rightarrow> jstring option \<Rightarrow> 'r" where
  "logout ops c r token =
     (case token of None \<Rightarrow> r
      | Some t \<Rightarrow> if t = [] then r else deleteAuthSessionByTokenHash ops r (hashSessionToken c t))"

definition resolveExecutionContext ::
  "'r identity_ops \<Rightarrow> crypto \<Rightarrow> 'r \<Rightarrow> jstring option \<Rightarrow> jstring \<Rightarrow> date \<Rightarrow> 'r \<times> exec_context option" where
  "resolveExecutionContext ops c r token requestId now =
     (case token of
        None \<Rightarrow> (r, None)
      | Some t \<Rightarrow>
          if t = [] then (r, None)
          else (let tokenHash = hashSessionToken c t in
            case findAuthSessionByTokenHash ops r tokenHash of
              None \<Rightarrow> (r, None)
            | Some session \<Rightarrow>
                if ses_expiresAt session \<le> now
                then (deleteAuthSessionByTokenHash ops r tokenHash, None)
                else (case findUserById ops r (ses_userId session) of
                    None \<Rightarrow> (r, None)
                  | Some u \<Rightarrow>
                      (case listMembershipsForUser ops r (user_id u) of
                         [m] \<Rightarrow> (r, Some (createSupportExecutionContext m requestId))
                       | _ \<Rightarrow> (r, None)))))"

lemmas service_defs = login_def logout_def resolveExecutionContext_def

section \<open>What the service guarantees over any lawful repository\<close>

context identity_repository
begin

lemma login_session:
  assumes "inv r" and "login ops c ttl r email password now random uuid = Inr (r', Some s)"
  shows "\<exists>u. findUserByEmail ops r email = Some u \<and> verifyPassword c password (user_passwordHash u) \<and>
     as_token s = base64url random \<and> as_expiresAt s = now + ttl \<and>
     createAuthSession ops r \<lparr>ses_id = uuid, ses_userId = user_id u,
       ses_tokenHash = hashSessionToken c (as_token s), ses_expiresAt = now + ttl, ses_createdAt = now\<rparr> = Inr r'"
  using assms by (auto simp: login_def Let_def and_then_Inr split: option.splits if_splits)

lemma login_resolve:
  assumes inv: "inv r" and login: "login ops c ttl r email password now random uuid = Inr (r', Some s)"
    and random: "random \<noteq> []" and live: "now2 < now + ttl" and hash: "\<And>t. hash_ok (hashSessionToken c t)"
  shows "inv r'"
    and "\<exists>u. findUserByEmail ops r email = Some u \<and>
      resolveExecutionContext ops c r' (Some (as_token s)) rid now2 =
        (r', case listMembershipsForUser ops r (user_id u) of
               [m] \<Rightarrow> Some (createSupportExecutionContext m rid) | _ \<Rightarrow> None)"
proof -
  obtain u where u: "findUserByEmail ops r email = Some u" "as_token s = base64url random"
    and new: "createAuthSession ops r \<lparr>ses_id = uuid, ses_userId = user_id u,
       ses_tokenHash = hashSessionToken c (as_token s), ses_expiresAt = now + ttl, ses_createdAt = now\<rparr> = Inr r'"
    using login_session [OF inv login] by blast
  note frame = session_frame [OF inv new]
  show "inv r'" using frame by blast
  have "findUserById ops r' (user_id u) = Some u"
    using user_by_email [OF inv u(1)] frame by simp
  moreover have "findAuthSessionByTokenHash ops r' (hashSessionToken c (as_token s)) =
      Some \<lparr>ses_id = uuid, ses_userId = user_id u,
       ses_tokenHash = hashSessionToken c (as_token s), ses_expiresAt = now + ttl, ses_createdAt = now\<rparr>"
    using session_found [OF inv _ _ new] hash by simp
  ultimately show "\<exists>u. findUserByEmail ops r email = Some u \<and>
      resolveExecutionContext ops c r' (Some (as_token s)) rid now2 =
        (r', case listMembershipsForUser ops r (user_id u) of
               [m] \<Rightarrow> Some (createSupportExecutionContext m rid) | _ \<Rightarrow> None)"
    using u random live frame
    by (auto simp: resolveExecutionContext_def Let_def split: list.splits)
qed

lemma resolve_sound:
  assumes "inv r" and "resolveExecutionContext ops c r token rid now = (r', Some ctx)"
  shows "r' = r \<and> (\<exists>t s m. token = Some t \<and>
      findAuthSessionByTokenHash ops r (hashSessionToken c t) = Some s \<and> now < ses_expiresAt s \<and>
      findUserById ops r (ses_userId s) \<noteq> None \<and>
      listMembershipsForUser ops r (ses_userId s) = [m] \<and> mem_userId m = ses_userId s \<and>
      ctx = createSupportExecutionContext m rid)"
proof -
  obtain t s u m where facts: "token = Some t" "r' = r"
    "findAuthSessionByTokenHash ops r (hashSessionToken c t) = Some s" "now < ses_expiresAt s"
    "findUserById ops r (ses_userId s) = Some u" "listMembershipsForUser ops r (user_id u) = [m]"
    "ctx = createSupportExecutionContext m rid"
    using assms(2)
    by (auto simp: resolveExecutionContext_def Let_def split: option.splits if_splits list.splits)
  moreover have "user_id u = ses_userId s" using user_by_id [OF assms(1) facts(5)] .
  moreover have "mem_userId m = user_id u"
    using own_memberships [OF assms(1)] facts(6) by (metis list.set_intros(1))
  ultimately show ?thesis by auto
qed

lemma resolve_revoked:
  assumes "inv r" and "t \<noteq> []" and hash: "\<And>t. hash_ok (hashSessionToken c t)"
    and "r' = logout ops c r (Some t) \<or>
      (\<exists>s. findAuthSessionByTokenHash ops r (hashSessionToken c t) = Some s \<and> ses_expiresAt s \<le> now \<and>
        r' = fst (resolveExecutionContext ops c r (Some t) rid now))"
  shows "resolveExecutionContext ops c r' (Some t) rid2 now2 = (r', None)"
proof -
  have "r' = deleteAuthSessionByTokenHash ops r (hashSessionToken c t)"
    using assms by (auto simp: logout_def resolveExecutionContext_def Let_def)
  then show ?thesis
    using session_deleted [OF assms(1)] hash by (simp add: resolveExecutionContext_def Let_def)
qed

end

section \<open>Properties\<close>

definition demo_crypto :: crypto where
  "demo_crypto = \<lparr>sha256_hex = (\<lambda>t. t), scrypt = (\<lambda>p s n. take n (utf8 p @ s @ replicate n 0))\<rparr>"

definition demo_user :: user where
  "demo_user = \<lparr>user_id = js ''u1'', user_email = js ''a@b'', user_displayName = js ''A'',
     user_passwordHash = js ''scrypt$AA$cHc'', user_createdAt = 0\<rparr>"

definition demo_repo :: memory_repo where
  "demo_repo =
     \<lparr>users = [(js ''u1'', demo_user)],
      usersByEmail = [(js ''a@b'', js ''u1'')],
      tenants = [(js ''t1'', \<lparr>tenant_id = js ''t1'', tenant_name = js ''T'', tenant_createdAt = 0\<rparr>)],
      stores = [(js ''s1'', \<lparr>store_id = js ''s1'', store_tenantId = js ''t1'', store_name = js ''S'', store_createdAt = 0\<rparr>)],
      memberships = [(js ''m1'', \<lparr>mem_id = js ''m1'', mem_userId = js ''u1'', mem_tenantId = js ''t1'',
          mem_storeId = js ''s1'', mem_role = Supervisor, mem_createdAt = 0\<rparr>)],
      sessions = []\<rparr>"

definition demo_logged_in :: memory_repo where
  "demo_logged_in = demo_repo\<lparr>sessions := [(js ''AQID'', \<lparr>ses_id = js ''x'', ses_userId = js ''u1'',
     ses_tokenHash = js ''AQID'', ses_expiresAt = 15, ses_createdAt = 5\<rparr>)]\<rparr>"

lemma demo_token: "base64url [1, 2, 3] = js ''AQID''"
  by (simp add: base64url_def b64_char_def js_simps)

lemma demo_find: "mem_findUserByEmail demo_repo (js '' A@b'') = Some demo_user"
  by (simp add: mem_findUserByEmail_def demo_repo_def normalizeEmail_def js_simps trim_def
      trim_start_def trim_end_def is_space_def to_lower_def lower_unit_def)

lemma demo_verify: "verifyPassword demo_crypto (js ''pw'') (user_passwordHash demo_user)"
  by (simp add: demo_user_def verifyPassword_def demo_crypto_def js_simps from_base64_def
      b64_digit_def List.map_filter_simps utf8_def utf8_point_def is_high_def is_low_def)

lemma demo_login:
  "login memory_ops demo_crypto 10 demo_repo (js '' A@b'') (js ''pw'') 5 [1, 2, 3] (js ''x'') =
     Inr (demo_logged_in, Some \<lparr>as_token = js ''AQID'', as_expiresAt = 15\<rparr>)"
proof -
  have "mem_createAuthSession demo_repo
      \<lparr>ses_id = js ''x'', ses_userId = user_id demo_user, ses_tokenHash = hashSessionToken demo_crypto (js ''AQID''),
       ses_expiresAt = 15, ses_createdAt = 5\<rparr> = Inr demo_logged_in"
    by (simp add: mem_createAuthSession_def demo_repo_def demo_logged_in_def demo_user_def map_has_def
        hashSessionToken_def demo_crypto_def)
  then show ?thesis
    by (simp add: login_def memory_ops_simps demo_find demo_verify demo_token Let_def)
qed

lemma demo_repo_ok: "repo_ok demo_repo"
  by (simp add: repo_ok_def demo_repo_def demo_user_def membership_ok_def map_has_def)

text \<open>
  Logging in with a password that verifies gives a token with which, until the session
  expires, a request resolves to the execution context of the user's single membership, and to
  none when the user has no membership or several.
\<close>

theorem login_then_resolve:
  assumes "repo_ok r" and "login memory_ops c ttl r email password now random uuid = Inr (r', Some s)"
    and "random \<noteq> []" and "now2 < now + ttl"
  shows "\<exists>u. mem_findUserByEmail r email = Some u \<and>
    verifyPassword c password (user_passwordHash u) \<and>
    resolveExecutionContext memory_ops c r' (Some (as_token s)) rid now2 =
      (r', case mem_listMembershipsForUser r (user_id u) of
             [m] \<Rightarrow> Some (createSupportExecutionContext m rid) | _ \<Rightarrow> None)"
proof -
  obtain u where u: "mem_findUserByEmail r email = Some u" "verifyPassword c password (user_passwordHash u)"
    using memory.login_session [OF assms(1,2)] unfolding memory_ops_simps by blast
  obtain v where v: "mem_findUserByEmail r email = Some v"
    "resolveExecutionContext memory_ops c r' (Some (as_token s)) rid now2 =
      (r', case mem_listMembershipsForUser r (user_id v) of
             [m] \<Rightarrow> Some (createSupportExecutionContext m rid) | _ \<Rightarrow> None)"
    using memory.login_resolve(2) [OF assms TrueI, where rid = rid] unfolding memory_ops_simps by auto
  from u(1) v(1) have "v = u" by simp
  with u v(2) show ?thesis by (intro exI [of _ u] conjI) simp_all
qed

theorem login_then_resolve_witness:
  "\<exists>u. mem_findUserByEmail demo_repo (js '' A@b'') = Some u \<and>
    verifyPassword demo_crypto (js ''pw'') (user_passwordHash u) \<and>
    resolveExecutionContext memory_ops demo_crypto demo_logged_in (Some (js ''AQID'')) [] 14 =
      (demo_logged_in, case mem_listMembershipsForUser demo_repo (user_id u) of
             [m] \<Rightarrow> Some (createSupportExecutionContext m []) | _ \<Rightarrow> None)"
  using login_then_resolve [OF demo_repo_ok demo_login, of 14 "[]"] by simp

text \<open>
  Authentication fails closed: a request resolves to an execution context only for a token
  whose hash is a stored, unexpired session of an existing user with exactly one membership; the
  context is that membership's, with the capabilities of its role, and resolving stores nothing.
\<close>

theorem resolve_authentic:
  assumes "repo_ok r" and "resolveExecutionContext memory_ops c r token rid now = (r', Some ctx)"
  shows "r' = r \<and> (\<exists>t s m. token = Some t \<and>
    mem_findAuthSessionByTokenHash r (hashSessionToken c t) = Some s \<and> now < ses_expiresAt s \<and>
    mem_findUserById r (ses_userId s) \<noteq> None \<and> mem_listMembershipsForUser r (ses_userId s) = [m] \<and>
    actor_userId ctx = ses_userId s \<and> actor_role ctx = mem_role m \<and>
    actor_capabilities ctx = capabilitiesForRole (mem_role m) \<and>
    scope_tenantId ctx = mem_tenantId m \<and> scope_storeId ctx = mem_storeId m)"
proof -
  have ctx: "actor_userId (createSupportExecutionContext m rid) = mem_userId m"
    "actor_role (createSupportExecutionContext m rid) = mem_role m"
    "actor_capabilities (createSupportExecutionContext m rid) = capabilitiesForRole (mem_role m)"
    "scope_tenantId (createSupportExecutionContext m rid) = mem_tenantId m"
    "scope_storeId (createSupportExecutionContext m rid) = mem_storeId m" for m
    by (simp_all add: createSupportExecutionContext_def)
  show ?thesis
    using memory.resolve_sound [OF assms] unfolding memory_ops_simps by (metis ctx)
qed

lemma demo_logged_in_ok: "repo_ok demo_logged_in"
proof -
  have "repo_ok (fst (demo_logged_in, Some \<lparr>as_token = js ''AQID'', as_expiresAt = 15\<rparr>))"
    using memory.login_resolve(1) [OF demo_repo_ok demo_login, of 14] by simp
  then show ?thesis by simp
qed

lemma demo_resolves:
  "resolveExecutionContext memory_ops demo_crypto demo_logged_in (Some (js ''AQID'')) (js ''q'') 14 =
     (demo_logged_in, Some \<lparr>actor_userId = js ''u1'', actor_role = Supervisor,
       actor_capabilities = capabilitiesForRole Supervisor, scope_tenantId = js ''t1'',
       scope_storeId = js ''s1'', request_requestId = js ''q''\<rparr>)"
  by (simp add: resolveExecutionContext_def Let_def memory_ops_simps demo_logged_in_def demo_repo_def demo_user_def
      mem_findAuthSessionByTokenHash_def mem_findUserById_def mem_listMembershipsForUser_def
      hashSessionToken_def demo_crypto_def createSupportExecutionContext_def)

theorem resolve_authentic_witness:
  "\<exists>t s m. Some (js ''AQID'') = Some t \<and>
    mem_findAuthSessionByTokenHash demo_logged_in (hashSessionToken demo_crypto t) = Some s \<and>
    14 < ses_expiresAt s \<and> mem_findUserById demo_logged_in (ses_userId s) \<noteq> None \<and>
    mem_listMembershipsForUser demo_logged_in (ses_userId s) = [m] \<and> js ''u1'' = ses_userId s"
  using resolve_authentic [OF demo_logged_in_ok demo_resolves] by auto

text \<open>
  A session that was logged out, or that a request found expired, is gone: its token
  resolves to nothing from then on, at whatever time and for whatever request.
\<close>

theorem revoked_session_never_resolves:
  assumes "repo_ok r" and "t \<noteq> []"
    and "r' = logout memory_ops c r (Some t) \<or>
      (\<exists>s. mem_findAuthSessionByTokenHash r (hashSessionToken c t) = Some s \<and> ses_expiresAt s \<le> now \<and>
        r' = fst (resolveExecutionContext memory_ops c r (Some t) rid now))"
  shows "resolveExecutionContext memory_ops c r' (Some t) rid2 now2 = (r', None)"
proof (rule memory.resolve_revoked [OF assms(1,2) TrueI])
  show "r' = logout memory_ops c r (Some t) \<or>
      (\<exists>s. findAuthSessionByTokenHash memory_ops r (hashSessionToken c t) = Some s \<and> ses_expiresAt s \<le> now \<and>
        r' = fst (resolveExecutionContext memory_ops c r (Some t) rid now))"
    using assms(3) by (simp only: memory_ops_simps)
qed

theorem revoked_session_never_resolves_witness:
  "resolveExecutionContext memory_ops demo_crypto
      (logout memory_ops demo_crypto demo_logged_in (Some (js ''AQID''))) (Some (js ''AQID'')) [] 0 =
    (logout memory_ops demo_crypto demo_logged_in (Some (js ''AQID'')), None)"
  by (rule revoked_session_never_resolves [OF demo_logged_in_ok]) (simp_all add: js_simps)

text \<open>
  A password verifies against its own hash, and any other password verifies exactly when
  \<open>scrypt\<close> derives the same key from it under the same salt.
\<close>

theorem password_roundtrip:
  assumes key: "\<And>p s n. length (scrypt c p s n) = n"
    and "salt \<noteq> []" and "hashPassword c salt p = Inr h"
  shows "verifyPassword c p h \<and>
    (verifyPassword c q h \<longleftrightarrow> scrypt c q salt PASSWORD_KEY_BYTES = scrypt c p salt PASSWORD_KEY_BYTES)"
proof -
  have h: "h = js ''scrypt'' @ 36 # base64url salt @ 36 # base64url (scrypt c p salt PASSWORD_KEY_BYTES)"
    using assms(3) by (auto simp: hashPassword_def js_simps split: if_splits)
  have ne: "scrypt c p salt PASSWORD_KEY_BYTES \<noteq> []"
    using key [of p salt PASSWORD_KEY_BYTES] by (auto simp: PASSWORD_KEY_BYTES_def)
  have "36 \<notin> set (base64url bs)" for bs using base64url_chars by blast
  then have "split_on 36 h = [js ''scrypt'', base64url salt, base64url (scrypt c p salt PASSWORD_KEY_BYTES)]"
    unfolding h by (simp add: split_on_append split_on_no_sep js_simps)
  then show ?thesis
    using assms(2) ne by (simp add: verifyPassword_def key eq_commute [of "scrypt c p salt PASSWORD_KEY_BYTES"])
qed

theorem password_roundtrip_witness:
  "verifyPassword \<lparr>sha256_hex = id, scrypt = (\<lambda>p s n. take n (utf8 p @ replicate n 0))\<rparr> (js ''p'')
     (js ''scrypt$'' @ base64url [7] @ js ''$'' @ base64url (take 64 (utf8 (js ''p'') @ replicate 64 0)))"
  using password_roundtrip [of "\<lparr>sha256_hex = id, scrypt = (\<lambda>p s n. take n (utf8 p @ replicate n 0))\<rparr>"
      "[7]" "js ''p''"]
  by (simp add: hashPassword_def PASSWORD_KEY_BYTES_def js_simps)

end
