(* ===== verification/AgentProfile.thy ===== *)
theory AgentProfile
  imports JsonText AuthService "HOL-Library.Multiset"
begin

text \<open>
  \<open>src/enterprise/agent-profile.ts\<close>: validation, normalization and hashing of an agent
  profile. The fields of the profile given are values of unchecked type (\<open>None\<close> is
  \<open>undefined\<close>), as the validators treat them.
\<close>

datatype tool_name = Search_faq | Search_knowledge | Create_ticket | Handoff_to_human

definition AGENT_TOOL_NAMES :: "tool_name list" where
  "AGENT_TOOL_NAMES = [Search_faq, Search_knowledge, Create_ticket, Handoff_to_human]"

fun tool_string :: "tool_name \<Rightarrow> jstring" where
  "tool_string Search_faq = js ''search_faq''"
| "tool_string Search_knowledge = js ''search_knowledge''"
| "tool_string Create_ticket = js ''create_ticket''"
| "tool_string Handoff_to_human = js ''handoff_to_human''"

lemma tool_string_inj [simp]: "tool_string a = tool_string b \<longleftrightarrow> a = b"
  by (cases a; cases b) simp_all

lemma inj_tool_string: "inj tool_string"
  by (rule injI) simp

record agent_profile_input =
  in_id :: "json option"
  in_version :: "json option"
  in_identityPrompt :: "json option"
  in_workPolicy :: "json option"
  in_allowedSkills :: "json option"
  in_allowedTools :: "json option"

record resolved_profile =
  prof_id :: jstring
  prof_version :: jstring
  prof_identityPrompt :: jstring
  prof_workPolicy :: jstring
  prof_allowedSkills :: "jstring list"
  prof_allowedTools :: "tool_name list"
  prof_hash :: jstring

definition DEFAULT_AGENT_PROFILE :: agent_profile_input where
  "DEFAULT_AGENT_PROFILE =
     \<lparr>in_id = Some (JStr (js ''customer-support-agent'')),
      in_version = Some (JStr (js ''v1'')),
      in_identityPrompt = Some (JStr (js ''You are a customer-support agent.'')),
      in_workPolicy = Some (JStr (js ''Use only the provided support tools.'')),
      in_allowedSkills = Some (JArr (map (JStr \<circ> js)
        [''appointment'', ''complaint'', ''escalation'', ''greeting'', ''refund'', ''safety-escalation''])),
      in_allowedTools = Some (JArr (map (JStr \<circ> tool_string) AGENT_TOOL_NAMES))\<rparr>"

definition requiredGroundingTools :: "tool_name list" where
  "requiredGroundingTools = [Search_faq, Search_knowledge]"

definition requiredTrimmedText :: "json option \<Rightarrow> string \<Rightarrow> (error, jstring) result" where
  "requiredTrimmedText value fld =
     (case value of
        Some (JStr s) \<Rightarrow>
          if blank s then Inl (''Agent profile '' @ fld @ '' must be a non-empty string.'') else Inr (trim s)
      | _ \<Rightarrow> Inl (''Agent profile '' @ fld @ '' must be a non-empty string.''))"

definition requiredPromptText :: "json option \<Rightarrow> string \<Rightarrow> (error, jstring) result" where
  "requiredPromptText value fld =
     (case value of
        Some (JStr s) \<Rightarrow>
          if blank s then Inl (''Agent profile '' @ fld @ '' must be a non-empty string.'') else Inr s
      | _ \<Rightarrow> Inl (''Agent profile '' @ fld @ '' must be a non-empty string.''))"

fun normalizeSkill :: "json \<Rightarrow> (error, jstring) result" where
  "normalizeSkill (JStr s) =
     (if blank s then Inl ''Agent profile allowedSkills must contain non-empty strings.'' else Inr (trim s))"
| "normalizeSkill _ = Inl ''Agent profile allowedSkills must contain non-empty strings.''"

definition normalizeSkills :: "json option \<Rightarrow> (error, jstring list) result" where
  "normalizeSkills value =
     (case value of
        Some (JArr xs) \<Rightarrow>
          and_then (map_result normalizeSkill xs) (\<lambda>allowedSkills.
            if distinct allowedSkills then Inr allowedSkills
            else Inl ''Agent profile allowedSkills must be unique.'')
      | _ \<Rightarrow> Inl ''Agent profile allowedSkills must be an array.'')"

definition normalizeTool :: "json \<Rightarrow> (error, tool_name) result" where
  "normalizeTool value =
     (case List.find (\<lambda>t. value = JStr (tool_string t)) AGENT_TOOL_NAMES of
        Some t \<Rightarrow> Inr t
      | None \<Rightarrow> Inl ''Agent profile allowedTools must contain only known tools.'')"

definition normalizeTools :: "json option \<Rightarrow> (error, tool_name list) result" where
  "normalizeTools value =
     (case value of
        Some (JArr xs) \<Rightarrow>
          and_then (map_result normalizeTool xs) (\<lambda>allowedTools.
            if \<not> distinct allowedTools then Inl ''Agent profile allowedTools must be unique.''
            else (case List.find (\<lambda>t. t \<notin> set allowedTools) requiredGroundingTools of
                Some t \<Rightarrow> Inl (''Agent profile allowedTools must include '' @
                  (if t = Search_faq then ''search_faq.'' else ''search_knowledge.''))
              | None \<Rightarrow> Inr allowedTools))
      | _ \<Rightarrow> Inl ''Agent profile allowedTools must be an array.'')"

text \<open>The canonical text that is hashed; \<open>sort\<close> orders strings by code units.\<close>

definition canonical_profile :: "resolved_profile \<Rightarrow> jtext" where
  "canonical_profile p =
     TObj [(js ''id'', TStr (prof_id p)), (js ''version'', TStr (prof_version p)),
           (js ''identityPrompt'', TStr (prof_identityPrompt p)), (js ''workPolicy'', TStr (prof_workPolicy p)),
           (js ''allowedSkills'', TArr (map TStr (sort (prof_allowedSkills p)))),
           (js ''allowedTools'', TArr (map TStr (sort (map tool_string (prof_allowedTools p)))))]"

definition hashAgentProfile :: "crypto \<Rightarrow> resolved_profile \<Rightarrow> jstring" where
  "hashAgentProfile c p = sha256_hex c (stringify (canonical_profile p))"

definition resolveAgentProfile :: "crypto \<Rightarrow> agent_profile_input \<Rightarrow> (error, resolved_profile) result" where
  "resolveAgentProfile c p =
     and_then (requiredTrimmedText (in_id p) ''id'') (\<lambda>i.
     and_then (requiredTrimmedText (in_version p) ''version'') (\<lambda>version.
     and_then (requiredPromptText (in_identityPrompt p) ''identityPrompt'') (\<lambda>identityPrompt.
     and_then (requiredPromptText (in_workPolicy p) ''workPolicy'') (\<lambda>workPolicy.
     and_then (normalizeSkills (in_allowedSkills p)) (\<lambda>allowedSkills.
     and_then (normalizeTools (in_allowedTools p)) (\<lambda>allowedTools.
       let q = \<lparr>prof_id = i, prof_version = version, prof_identityPrompt = identityPrompt,
         prof_workPolicy = workPolicy, prof_allowedSkills = allowedSkills,
         prof_allowedTools = allowedTools, prof_hash = []\<rparr>
       in Inr (q\<lparr>prof_hash := hashAgentProfile c q\<rparr>)))))))"

section \<open>Well-formed profiles\<close>

definition profile_ok :: "crypto \<Rightarrow> resolved_profile \<Rightarrow> bool" where
  "profile_ok c p \<longleftrightarrow>
     \<not> blank (prof_id p) \<and> trim (prof_id p) = prof_id p \<and>
     \<not> blank (prof_version p) \<and> trim (prof_version p) = prof_version p \<and>
     \<not> blank (prof_identityPrompt p) \<and> \<not> blank (prof_workPolicy p) \<and>
     distinct (prof_allowedSkills p) \<and>
     list_all (\<lambda>s. \<not> blank s \<and> trim s = s) (prof_allowedSkills p) \<and>
     distinct (prof_allowedTools p) \<and> set requiredGroundingTools \<subseteq> set (prof_allowedTools p) \<and>
     prof_hash p = hashAgentProfile c p"

lemma requiredTrimmedText_Inr:
  "requiredTrimmedText v f = Inr s \<Longrightarrow> \<not> blank s \<and> trim s = s"
  by (auto simp: requiredTrimmedText_def split: option.splits json.splits if_splits)

lemma requiredPromptText_Inr: "requiredPromptText v f = Inr s \<Longrightarrow> \<not> blank s"
  by (auto simp: requiredPromptText_def split: option.splits json.splits if_splits)

fun_cases normalizeSkill_InrE: "normalizeSkill v = Inr s"

lemma normalizeSkills_Inr:
  assumes "normalizeSkills v = Inr ss"
  shows "distinct ss \<and> list_all (\<lambda>s. \<not> blank s \<and> trim s = s) ss"
proof -
  obtain xs where xs: "map_result normalizeSkill xs = Inr ss" "distinct ss"
    using assms by (auto simp: normalizeSkills_def and_then_Inr split: option.splits json.splits if_splits)
  have "\<not> blank s \<and> trim s = s" if "s \<in> set ss" for s
    using map_result_Inr_set [OF xs(1) that] by (auto elim!: normalizeSkill_InrE split: if_splits)
  with xs(2) show ?thesis by (simp add: list_all_iff)
qed

lemma normalizeTools_Inr:
  assumes "normalizeTools v = Inr ts"
  shows "distinct ts \<and> set requiredGroundingTools \<subseteq> set ts"
  using assms
  by (auto simp: normalizeTools_def and_then_Inr find_None_iff requiredGroundingTools_def
      split: option.splits json.splits if_splits)

lemma resolve_profile_ok:
  assumes "resolveAgentProfile c p = Inr q"
  shows "profile_ok c q"
proof -
  from assms obtain i ver ip wp sk tl where
    parts: "requiredTrimmedText (in_id p) ''id'' = Inr i" "requiredTrimmedText (in_version p) ''version'' = Inr ver"
      "requiredPromptText (in_identityPrompt p) ''identityPrompt'' = Inr ip"
      "requiredPromptText (in_workPolicy p) ''workPolicy'' = Inr wp"
      "normalizeSkills (in_allowedSkills p) = Inr sk" "normalizeTools (in_allowedTools p) = Inr tl"
    and q: "q = \<lparr>prof_id = i, prof_version = ver, prof_identityPrompt = ip, prof_workPolicy = wp,
      prof_allowedSkills = sk, prof_allowedTools = tl,
      prof_hash = hashAgentProfile c \<lparr>prof_id = i, prof_version = ver, prof_identityPrompt = ip,
        prof_workPolicy = wp, prof_allowedSkills = sk, prof_allowedTools = tl, prof_hash = []\<rparr>\<rparr>"
    by (auto simp: resolveAgentProfile_def and_then_Inr Let_def)
  show ?thesis
    using requiredTrimmedText_Inr [OF parts(1)] requiredTrimmedText_Inr [OF parts(2)]
      requiredPromptText_Inr [OF parts(3)] requiredPromptText_Inr [OF parts(4)]
      normalizeSkills_Inr [OF parts(5)] normalizeTools_Inr [OF parts(6)]
    by (simp add: profile_ok_def q hashAgentProfile_def canonical_profile_def)
qed

lemma map_TStr_inj [simp]: "map TStr a = map TStr b \<longleftrightarrow> a = b"
  by (simp add: inj_map_eq_map inj_on_def)

lemma sort_eq_mset: "sort xs = sort ys \<longleftrightarrow> mset xs = mset ys"
  by (metis mset_sort properties_for_sort sorted_sort)

lemma map_tool_string_mset: "mset (map tool_string a) = mset (map tool_string b) \<longleftrightarrow> mset a = mset b"
  by (simp add: inj_eq [OF multiset.inj_map [OF inj_tool_string]])

lemma canonical_profile_eq:
  "canonical_profile p = canonical_profile q \<longleftrightarrow>
     prof_id p = prof_id q \<and> prof_version p = prof_version q \<and>
     prof_identityPrompt p = prof_identityPrompt q \<and> prof_workPolicy p = prof_workPolicy q \<and>
     mset (prof_allowedSkills p) = mset (prof_allowedSkills q) \<and>
     mset (prof_allowedTools p) = mset (prof_allowedTools q)"
  by (simp add: canonical_profile_def sort_eq_mset map_tool_string_mset del: mset_map)

section \<open>Properties\<close>

text \<open>
  The profile hash identifies the profile: two resolved profiles have the same canonical
  text exactly when they agree on id, version and prompts and list the same skills and the same
  tools, in any order; so where the hash function does not collide on the two texts, equal
  hashes mean equal profiles.
\<close>

theorem profile_hash_identifies:
  assumes "resolveAgentProfile c a = Inr p" and "resolveAgentProfile c b = Inr q"
    and "sha256_hex c (stringify (canonical_profile p)) = sha256_hex c (stringify (canonical_profile q)) \<Longrightarrow>
      stringify (canonical_profile p) = stringify (canonical_profile q)"
  shows "prof_hash p = prof_hash q \<longleftrightarrow>
     prof_id p = prof_id q \<and> prof_version p = prof_version q \<and>
     prof_identityPrompt p = prof_identityPrompt q \<and> prof_workPolicy p = prof_workPolicy q \<and>
     set (prof_allowedSkills p) = set (prof_allowedSkills q) \<and>
     set (prof_allowedTools p) = set (prof_allowedTools q)"
proof -
  have ok: "profile_ok c p" "profile_ok c q" using assms(1,2) by (simp_all add: resolve_profile_ok)
  then have "prof_hash p = prof_hash q \<longleftrightarrow> canonical_profile p = canonical_profile q"
    using assms(3) by (auto simp: profile_ok_def hashAgentProfile_def)
  then show ?thesis
    using ok unfolding canonical_profile_eq by (simp add: profile_ok_def set_eq_iff_mset_eq_distinct)
qed

definition demo_profile :: "tool_name list \<Rightarrow> agent_profile_input" where
  "demo_profile tools = DEFAULT_AGENT_PROFILE\<lparr>in_allowedTools := Some (JArr (map (JStr \<circ> tool_string) tools))\<rparr>"

theorem profile_hash_identifies_witness:
  "\<exists>p q. resolveAgentProfile demo_crypto (demo_profile [Search_faq, Search_knowledge]) = Inr p \<and>
     resolveAgentProfile demo_crypto (demo_profile [Search_knowledge, Search_faq]) = Inr q \<and>
     prof_hash p = prof_hash q"
proof -
  note evaluate = resolveAgentProfile_def demo_profile_def DEFAULT_AGENT_PROFILE_def requiredTrimmedText_def
    requiredPromptText_def blank_iff js_simps is_space_def normalizeSkills_def normalizeTools_def
    normalizeTool_def AGENT_TOOL_NAMES_def requiredGroundingTools_def Let_def trim_def
    trim_start_def trim_end_def
  obtain p where p: "resolveAgentProfile demo_crypto (demo_profile [Search_faq, Search_knowledge]) = Inr p"
    by (simp add: evaluate)
  obtain q where q: "resolveAgentProfile demo_crypto (demo_profile [Search_knowledge, Search_faq]) = Inr q"
    by (simp add: evaluate)
  have "prof_hash p = prof_hash q \<longleftrightarrow>
     prof_id p = prof_id q \<and> prof_version p = prof_version q \<and>
     prof_identityPrompt p = prof_identityPrompt q \<and> prof_workPolicy p = prof_workPolicy q \<and>
     set (prof_allowedSkills p) = set (prof_allowedSkills q) \<and>
     set (prof_allowedTools p) = set (prof_allowedTools q)"
    by (rule profile_hash_identifies [OF p q]) (simp add: demo_crypto_def)
  moreover have "prof_id p = prof_id q \<and> prof_version p = prof_version q \<and>
     prof_identityPrompt p = prof_identityPrompt q \<and> prof_workPolicy p = prof_workPolicy q \<and>
     set (prof_allowedSkills p) = set (prof_allowedSkills q) \<and>
     set (prof_allowedTools p) = set (prof_allowedTools q)"
    using p q by (auto simp: evaluate)
  ultimately show ?thesis using p q by blast
qed

end
