(* ===== verification/Knowledge.thy ===== *)
theory Knowledge
  imports Prelude
begin

text \<open>
  \<open>src/knowledge.ts\<close> and the evidence types of \<open>src/index.ts\<close>: validation of governed knowledge
  entries, admissibility of evidence in a tenant and store, the lexical score and the ranked
  search. Entries are the typed records of the interface, so the \<open>typeof\<close> tests of the
  validator cannot fail; an optional field is an \<open>option\<close>. \<open>NFKC\<close> normalization and
  \<open>localeCompare\<close>, which the host takes from ICU, are parameters.
\<close>

section \<open>Data\<close>

record knowledge_entry =
  ke_id :: jstring
  ke_kind :: jstring
  ke_status :: jstring
  ke_title :: jstring
  ke_content :: jstring
  ke_version :: jstring
  ke_updatedAt :: jstring
  ke_tenantScope :: "jstring option"
  ke_storeScope :: "jstring option"
  ke_sourceRef :: jstring
  ke_tags :: "jstring list"

record knowledge_metadata =
  km_kind :: jstring
  km_status :: jstring
  km_version :: jstring
  km_sourceRef :: jstring
  km_tenantScope :: "jstring option"
  km_storeScope :: "jstring option"

record grounding_reference =
  gr_id :: jstring
  gr_version :: jstring
  gr_sourceRef :: jstring
  gr_kind :: jstring

record retrieval_context =
  rc_tenantId :: jstring
  rc_storeId :: jstring

record safety_option =
  so_action :: jstring
  so_risk :: jstring
  so_likelyResult :: jstring

datatype risk_category =
    Allergy | Skin_abnormality | Device_safety | Contraindication | Unknown_professional_risk

record safety_evidence =
  se_id :: jstring
  se_riskCategory :: risk_category
  se_status :: jstring
  se_version :: jstring
  se_scope :: "jstring list"
  se_allowedOptions :: "safety_option list"
  se_requiresEscalation :: bool

record evidence =
  ev_id :: jstring
  ev_text :: jstring
  ev_safety :: "safety_evidence option"
  ev_knowledge :: "knowledge_metadata option"
  ev_relevance :: "(nat \<times> nat) option"

definition approved :: jstring where "approved = js ''approved''"

definition synthetic_test_only :: jstring where "synthetic_test_only = js ''synthetic_test_only''"

definition statuses :: "jstring list" where
  "statuses = [approved, synthetic_test_only, js ''unapproved'', js ''retired'']"

definition kinds :: "jstring list" where
  "kinds = [js ''faq'', js ''policy'', js ''sop'', js ''reference'']"

section \<open>Validation\<close>

datatype knowledge_error =
    Required jstring string
  | Duplicate_id jstring
  | Unsupported_status jstring
  | Unsupported_kind jstring
  | Not_iso_date jstring
  | Bad_tags jstring
  | Store_without_tenant jstring
  | Search_aborted

definition requiredString :: "jstring \<Rightarrow> string \<Rightarrow> jstring \<Rightarrow> (knowledge_error, unit) result" where
  "requiredString value name i = guard (\<not> blank value) (Required i name)"

text \<open>
  \<open>/^\d{4}-\d{2}-\d{2}$/\<close> and a finite \<open>Date.parse\<close>: the host's parser takes months 1 to 12 and
  days 1 to 31 and lets a day past the end of its month run over into the next.
\<close>

definition validIsoDate :: "jstring \<Rightarrow> bool" where
  "validIsoDate v \<longleftrightarrow>
     length v = 10 \<and> v ! 4 = 45 \<and> v ! 7 = 45 \<and>
     list_all is_digit (take 4 v @ take 2 (drop 5 v) @ drop 8 v) \<and>
     digits_value (take 2 (drop 5 v)) \<in> {1..12} \<and> digits_value (drop 8 v) \<in> {1..31}"

text \<open>\<open>entry.storeScope\<close> as a condition: absent and empty are falsy.\<close>

definition truthy :: "jstring option \<Rightarrow> bool" where
  "truthy s \<longleftrightarrow> (case s of None \<Rightarrow> False | Some v \<Rightarrow> v \<noteq> [])"

definition validateEntry :: "jstring list \<Rightarrow> knowledge_entry \<Rightarrow> (knowledge_error, unit) result" where
  "validateEntry ids e =
     and_then (requiredString (ke_id e) ''id'' []) (\<lambda>_.
     and_then (guard (ke_id e \<notin> set ids) (Duplicate_id (ke_id e))) (\<lambda>_.
     and_then (guard (ke_status e \<in> set statuses) (Unsupported_status (ke_id e))) (\<lambda>_.
     and_then (guard (ke_kind e \<in> set kinds) (Unsupported_kind (ke_id e))) (\<lambda>_.
     and_then (requiredString (ke_title e) ''title'' (ke_id e)) (\<lambda>_.
     and_then (requiredString (ke_content e) ''content'' (ke_id e)) (\<lambda>_.
     and_then (requiredString (ke_version e) ''version'' (ke_id e)) (\<lambda>_.
     and_then (requiredString (ke_sourceRef e) ''sourceRef'' (ke_id e)) (\<lambda>_.
     and_then (guard (validIsoDate (ke_updatedAt e)) (Not_iso_date (ke_id e))) (\<lambda>_.
     and_then (guard (\<not> list_ex blank (ke_tags e)) (Bad_tags (ke_id e))) (\<lambda>_.
       guard (\<not> (truthy (ke_storeScope e) \<and> \<not> truthy (ke_tenantScope e)))
         (Store_without_tenant (ke_id e))))))))))))"

fun validateFrom :: "jstring list \<Rightarrow> knowledge_entry list \<Rightarrow> (knowledge_error, unit) result" where
  "validateFrom ids [] = Inr ()"
| "validateFrom ids (e # es) = and_then (validateEntry ids e) (\<lambda>_. validateFrom (ke_id e # ids) es)"

definition validateKnowledgeEntries :: "knowledge_entry list \<Rightarrow> (knowledge_error, unit) result" where
  "validateKnowledgeEntries es = validateFrom [] es"

section \<open>Admissibility\<close>

definition knowledgeScopeAllows :: "knowledge_metadata \<Rightarrow> retrieval_context option \<Rightarrow> bool" where
  "knowledgeScopeAllows m context =
     (case context of
        None \<Rightarrow> km_tenantScope m = None \<and> km_storeScope m = None
      | Some c \<Rightarrow>
          if km_tenantScope m \<noteq> None \<and> km_tenantScope m \<noteq> Some (rc_tenantId c) then False
          else if km_storeScope m \<noteq> None \<and> km_storeScope m \<noteq> Some (rc_storeId c) then False
          else True)"

definition isAdmissibleKnowledgeEvidence ::
  "knowledge_metadata option \<Rightarrow> retrieval_context option \<Rightarrow> bool \<Rightarrow> bool" where
  "isAdmissibleKnowledgeEvidence md context allowSynthetic =
     (case md of
        None \<Rightarrow> False
      | Some m \<Rightarrow>
          if \<not> knowledgeScopeAllows m context then False
          else km_status m = approved \<or> (allowSynthetic \<and> km_status m = synthetic_test_only))"

definition entry_metadata :: "knowledge_entry \<Rightarrow> knowledge_metadata" where
  "entry_metadata e =
     \<lparr>km_kind = ke_kind e, km_status = ke_status e, km_version = ke_version e,
      km_sourceRef = ke_sourceRef e,
      km_tenantScope = (if truthy (ke_tenantScope e) then ke_tenantScope e else None),
      km_storeScope = (if truthy (ke_storeScope e) then ke_storeScope e else None)\<rparr>"

definition groundingReference :: "evidence \<Rightarrow> grounding_reference option" where
  "groundingReference ev =
     (case ev_knowledge ev of
        None \<Rightarrow> None
      | Some k \<Rightarrow> Some \<lparr>gr_id = ev_id ev, gr_version = km_version k, gr_sourceRef = km_sourceRef k,
          gr_kind = km_kind k\<rparr>)"

section \<open>Scoring\<close>

definition genericRetrievalTags :: "jstring list" where
  "genericRetrievalTags =
     [[0x56E2, 0x8D2D, 0x5238], [0x9000, 0x6B3E], [0x5546, 0x5BB6], [0x5546, 0x6237], [0x670D, 0x52A1], [0x8BA2,
       0x5355], [0x5230, 0x5E97], [0x6D88, 0x8D39]]"

text \<open>The class \<open>[\s...]\<close> of separators that is removed before matching.\<close>

definition search_separator :: "nat \<Rightarrow> bool" where
  "search_separator c \<longleftrightarrow> is_space c \<or> c \<in> set
     [0xFF0C, 0x3002, 0xFF01, 0xFF1F, 0x3001, 0xFF1B, 0xFF1A, 0x201C, 0x201D, 0x2018, 0x2019, 0x2C, 0x2E, 0x21,
       0x3F, 0x3B, 0x3A, 0x27, 0x22, 0x28, 0x29, 0xFF08, 0xFF09, 0x5B, 0x5D, 0x3010, 0x3011, 0x5F, 0x2D]"

definition normalizeSearchText :: "(jstring \<Rightarrow> jstring) \<Rightarrow> jstring \<Rightarrow> jstring" where
  "normalizeSearchText nfkc text =
     filter (\<lambda>c. \<not> search_separator c)
      (replace_all [0x88AB, 0x62D2] [0x62D2, 0x7EDD, 0x63A5, 0x5F85]
      (replace_all [0x9884, 0x5B9A] [0x9884, 0x7EA6]
      (replace_all [0x4E0D, 0x540C, 0x610F] [0x4E0D, 0x63A5, 0x53D7]
      (replace_all [0x9519, 0x4E86] [0x9519, 0x8BEF]
      (replace_all [0x6539, 0x4E86] [0x53D8, 0x66F4]
      (replace_all [0x5546, 0x5BB6] [0x5546, 0x6237]
        (to_lower (nfkc text))))))))"

text \<open>The two-unit substrings, as a set in insertion order.\<close>

fun grams :: "jstring \<Rightarrow> jstring list" where
  "grams (a # b # r) = [a, b] # grams (b # r)"
| "grams _ = []"

definition bigrams :: "jstring \<Rightarrow> jstring list" where
  "bigrams text = remdups (grams text)"

definition tag_score :: "jstring \<Rightarrow> jstring \<Rightarrow> nat" where
  "tag_score q tag =
     (if contains tag q then 20 + length tag else if contains q tag then 10 else 0)"

text \<open>The comparison of the quotient with 0.25 is exact in binary floating point.\<close>

definition score :: "(jstring \<Rightarrow> jstring) \<Rightarrow> knowledge_entry \<Rightarrow> jstring \<Rightarrow> nat" where
  "score nfkc e query =
     (let q = normalizeSearchText nfkc query in
      if length q < 2 then 0
      else (let title = normalizeSearchText nfkc (ke_title e);
                content = normalizeSearchText nfkc (ke_content e);
                tags = filter (\<lambda>t. t \<noteq> []) (map (normalizeSearchText nfkc) (ke_tags e));
                queryBigrams = bigrams q;
                directPhrase = contains q title \<or> contains q content;
                matchedTags = filter (\<lambda>t. contains t q) tags;
                hasSpecificTag = list_ex (\<lambda>t. length t \<ge> 3 \<and> t \<notin> set genericRetrievalTags) matchedTags;
                haystack = bigrams (title @ content @ concat tags);
                overlap = length (filter (\<lambda>g. g \<in> set haystack) queryBigrams);
                points = (if contains q title then 80 else 0) + (if contains q content then 40 else 0) +
                  sum_list (map (tag_score q) tags) + overlap * 5;
                dense = overlap \<ge> 4 \<and> 4 * overlap \<ge> max 1 (length queryBigrams)
            in if directPhrase \<or> hasSpecificTag \<or> length matchedTags \<ge> 2 \<or> dense then points else 0))"

section \<open>The retrieval service\<close>

record governed_knowledge =
  gk_entries :: "knowledge_entry list"
  gk_allowSynthetic :: bool
  gk_rankByRelevance :: bool

definition newGovernedKnowledge ::
  "knowledge_entry list \<Rightarrow> bool option \<Rightarrow> bool option \<Rightarrow> (knowledge_error, governed_knowledge) result" where
  "newGovernedKnowledge es synthetic rank =
     and_then (validateKnowledgeEntries es) (\<lambda>_.
       Inr \<lparr>gk_entries = es, gk_allowSynthetic = (synthetic = Some True), gk_rankByRelevance = (rank = Some True)\<rparr>)"

definition ranks_before :: "(jstring \<Rightarrow> jstring \<Rightarrow> int) \<Rightarrow> knowledge_entry \<times> nat \<Rightarrow> knowledge_entry \<times> nat \<Rightarrow> bool" where
  "ranks_before localeCompare l r \<longleftrightarrow>
     (if snd r \<noteq> snd l then snd r < snd l else localeCompare (ke_id (fst l)) (ke_id (fst r)) \<le> 0)"

definition governed_matches ::
  "(jstring \<Rightarrow> jstring) \<Rightarrow> (jstring \<Rightarrow> jstring \<Rightarrow> int) \<Rightarrow> governed_knowledge \<Rightarrow> jstring \<Rightarrow>
     retrieval_context option \<Rightarrow> (knowledge_entry \<times> nat) list" where
  "governed_matches nfkc localeCompare g query context =
     (let matches = filter (\<lambda>m. snd m \<ge> 20) (map (\<lambda>e. (e, score nfkc e query))
            (filter (\<lambda>e. isAdmissibleKnowledgeEvidence (Some (entry_metadata e)) context (gk_allowSynthetic g))
              (gk_entries g)))
      in if gk_rankByRelevance g then take 3 (sort_by (ranks_before localeCompare) matches) else matches)"

definition governed_search ::
  "(jstring \<Rightarrow> jstring) \<Rightarrow> (jstring \<Rightarrow> jstring \<Rightarrow> int) \<Rightarrow> governed_knowledge \<Rightarrow> bool \<Rightarrow> jstring \<Rightarrow>
     retrieval_context option \<Rightarrow> (knowledge_error, evidence list) result" where
  "governed_search nfkc localeCompare g aborted query context =
     (if aborted then Inl Search_aborted
      else Inr (map (\<lambda>((e, s), i). \<lparr>ev_id = ke_id e, ev_text = ke_content e, ev_safety = None,
             ev_knowledge = Some (entry_metadata e),
             ev_relevance = (if gk_rankByRelevance g then Some (s, i + 1) else None)\<rparr>)
           (let ms = governed_matches nfkc localeCompare g query context in zip ms [0..<length ms])))"

section \<open>Lemmas\<close>

lemma truthy_simps [simp]: "\<not> truthy None" "truthy (Some v) \<longleftrightarrow> v \<noteq> []"
  by (simp_all add: truthy_def)

lemma entry_scope:
  assumes "knowledgeScopeAllows (entry_metadata e) context"
  shows "truthy (ke_tenantScope e) \<Longrightarrow> \<exists>c. context = Some c \<and> ke_tenantScope e = Some (rc_tenantId c)"
    and "truthy (ke_storeScope e) \<Longrightarrow> \<exists>c. context = Some c \<and> ke_storeScope e = Some (rc_storeId c)"
  using assms
  by (auto simp: knowledgeScopeAllows_def entry_metadata_def split: option.splits if_splits)

lemma admissible_iff:
  "isAdmissibleKnowledgeEvidence (Some m) context syn \<longleftrightarrow>
     knowledgeScopeAllows m context \<and> (km_status m = approved \<or> (syn \<and> km_status m = synthetic_test_only))"
  by (simp add: isAdmissibleKnowledgeEvidence_def)

lemma scope_allows_iff:
  "knowledgeScopeAllows m (Some c) \<longleftrightarrow>
     km_tenantScope m \<in> {None, Some (rc_tenantId c)} \<and> km_storeScope m \<in> {None, Some (rc_storeId c)}"
  by (auto simp: knowledgeScopeAllows_def)

lemma set_takeD: "x \<in> set (take n xs) \<Longrightarrow> x \<in> set xs"
  by (rule in_set_takeD)

lemma governed_matches_in:
  assumes "m \<in> set (governed_matches nfkc lc g query context)"
  shows "fst m \<in> set (gk_entries g)" and "snd m = score nfkc (fst m) query" and "20 \<le> snd m"
    and "isAdmissibleKnowledgeEvidence (Some (entry_metadata (fst m))) context (gk_allowSynthetic g)"
  using assms by (auto simp: governed_matches_def Let_def split: if_splits dest!: set_takeD)

lemma governed_search_Inr:
  assumes "governed_search nfkc lc g aborted query context = Inr evs"
  shows "length evs = length (governed_matches nfkc lc g query context)"
    and "i < length evs \<Longrightarrow> evs ! i = (case governed_matches nfkc lc g query context ! i of (e, s) \<Rightarrow>
       \<lparr>ev_id = ke_id e, ev_text = ke_content e, ev_safety = None, ev_knowledge = Some (entry_metadata e),
        ev_relevance = (if gk_rankByRelevance g then Some (s, i + 1) else None)\<rparr>)"
  using assms by (auto simp: governed_search_def Let_def split: if_splits prod.splits)

lemma validateFrom_ok:
  "validateFrom ids es = Inr () \<Longrightarrow> e \<in> set es \<Longrightarrow>
     \<not> blank (ke_id e) \<and> ke_id e \<notin> set ids \<and> ke_status e \<in> set statuses \<and>
     (truthy (ke_storeScope e) \<longrightarrow> truthy (ke_tenantScope e))"
proof (induction es arbitrary: ids)
  case (Cons a es)
  then have a: "validateEntry ids a = Inr ()" and es: "validateFrom (ke_id a # ids) es = Inr ()"
    by (simp_all add: and_then_Inr)
  show ?case
  proof (cases "e = a")
    case True
    then show ?thesis using a by (auto simp: validateEntry_def and_then_Inr requiredString_def)
  next
    case False
    then show ?thesis using Cons.IH [OF es] Cons.prems(2) by simp
  qed
qed simp

lemma validateFrom_distinct: "validateFrom ids es = Inr () \<Longrightarrow> distinct (map ke_id es)"
proof (induction es arbitrary: ids)
  case (Cons e es)
  then have es: "validateFrom (ke_id e # ids) es = Inr ()" by (simp add: and_then_Inr)
  then have "ke_id e \<noteq> ke_id x" if "x \<in> set es" for x
    using validateFrom_ok [OF es that] by auto
  with Cons.IH [OF es] show ?case by auto
qed simp

lemma newGovernedKnowledge_Inr:
  "newGovernedKnowledge es syn rank = Inr g \<Longrightarrow>
     gk_entries g = es \<and> validateKnowledgeEntries es = Inr () \<and> gk_allowSynthetic g = (syn = Some True) \<and>
     gk_rankByRelevance g = (rank = Some True)"
  by (auto simp: newGovernedKnowledge_def and_then_Inr)

section \<open>Properties\<close>

text \<open>
  C4. Retrieval leaks nothing: every piece of evidence a search returns is the content of an
  entry that is approved (or a synthetic fixture, where these are allowed); an entry scoped to a
  tenant comes only to that tenant, and an entry scoped to a store only to that store of its
  tenant. A search without a context sees unscoped entries alone.
\<close>

theorem governed_search_scoped:
  assumes "newGovernedKnowledge es syn rank = Inr g"
    and "governed_search nfkc lc g aborted query context = Inr evs" and "ev \<in> set evs"
  shows "\<exists>e \<in> set es. ev_id ev = ke_id e \<and> ev_text ev = ke_content e \<and>
    (ke_status e = approved \<or> (syn = Some True \<and> ke_status e = synthetic_test_only)) \<and>
    (truthy (ke_tenantScope e) \<longrightarrow> (\<exists>c. context = Some c \<and> ke_tenantScope e = Some (rc_tenantId c))) \<and>
    (truthy (ke_storeScope e) \<longrightarrow> (\<exists>c. context = Some c \<and> ke_tenantScope e = Some (rc_tenantId c) \<and>
       ke_storeScope e = Some (rc_storeId c)))"
proof -
  note g = newGovernedKnowledge_Inr [OF assms(1)]
  from assms(3) obtain i where i: "i < length evs" "evs ! i = ev" by (auto simp: in_set_conv_nth)
  define m where "m = governed_matches nfkc lc g query context ! i"
  have m: "m \<in> set (governed_matches nfkc lc g query context)"
    using i(1) governed_search_Inr(1) [OF assms(2)] by (simp add: m_def)
  have ev: "ev_id ev = ke_id (fst m)" "ev_text ev = ke_content (fst m)"
    using governed_search_Inr(2) [OF assms(2) i(1)] i(2) by (auto simp: m_def split: prod.splits)
  note entry = governed_matches_in [OF m]
  have "truthy (ke_storeScope (fst m)) \<longrightarrow> truthy (ke_tenantScope (fst m))"
    using validateFrom_ok [of "[]" es "fst m"] entry(1) g by (simp add: validateKnowledgeEntries_def)
  moreover have scope: "knowledgeScopeAllows (entry_metadata (fst m)) context"
    and "ke_status (fst m) = approved \<or> (syn = Some True \<and> ke_status (fst m) = synthetic_test_only)"
    using entry(4) g by (auto simp: admissible_iff entry_metadata_def)
  ultimately show ?thesis
    using ev entry(1) g entry_scope [OF scope] by (metis option.inject)
qed

definition demo_entry :: knowledge_entry where
  "demo_entry =
     \<lparr>ke_id = js ''k1'', ke_kind = js ''faq'', ke_status = approved, ke_title = js ''opening hours'',
      ke_content = js ''nine to six'', ke_version = js ''v1'', ke_updatedAt = js ''2024-01-31'',
      ke_tenantScope = Some (js ''t1''), ke_storeScope = None, ke_sourceRef = js ''ref'',
      ke_tags = [js ''hours'']\<rparr>"

definition demo_knowledge :: "bool \<Rightarrow> governed_knowledge" where
  "demo_knowledge rank = \<lparr>gk_entries = [demo_entry, demo_entry\<lparr>ke_id := js ''k2'', ke_title := js ''x''\<rparr>],
     gk_allowSynthetic = False, gk_rankByRelevance = rank\<rparr>"

definition demo_context :: retrieval_context where
  "demo_context = \<lparr>rc_tenantId = js ''t1'', rc_storeId = js ''s1''\<rparr>"

lemma demo_knowledge_new:
  "newGovernedKnowledge (gk_entries (demo_knowledge True)) None (Some True) = Inr (demo_knowledge True)"
  by (simp add: newGovernedKnowledge_def demo_knowledge_def demo_entry_def validateKnowledgeEntries_def
      validateEntry_def requiredString_def guard_def statuses_def kinds_def approved_def
      validIsoDate_def js_simps blank_iff is_space_def is_digit_def digits_value_def)

lemmas search_text_eval =
  normalizeSearchText_def js_simps to_lower_def lower_unit_def search_separator_def is_space_def

lemma demo_scores:
  "score id demo_entry (js ''hours'') = 125"
  "score id (demo_entry\<lparr>ke_id := js ''k2'', ke_title := js ''x''\<rparr>) (js ''hours'') = 45"
  by (simp_all add: score_def Let_def demo_entry_def search_text_eval tag_score_def bigrams_def)

lemma demo_search:
  "governed_search id (\<lambda>a b. if a \<le> b then 0 else 1) (demo_knowledge True) False (js ''hours'') (Some demo_context) =
     Inr [\<lparr>ev_id = js ''k1'', ev_text = js ''nine to six'', ev_safety = None,
       ev_knowledge = Some (entry_metadata demo_entry), ev_relevance = Some (125, 1)\<rparr>,
      \<lparr>ev_id = js ''k2'', ev_text = js ''nine to six'', ev_safety = None,
       ev_knowledge = Some (entry_metadata demo_entry), ev_relevance = Some (45, 2)\<rparr>]"
proof -
  have "isAdmissibleKnowledgeEvidence (Some (entry_metadata demo_entry)) (Some demo_context) False"
    "entry_metadata (demo_entry\<lparr>ke_id := i, ke_title := t\<rparr>) = entry_metadata demo_entry" for i t
    by (simp_all add: admissible_iff scope_allows_iff entry_metadata_def demo_entry_def demo_context_def)
  then show ?thesis
    by (simp add: governed_search_def governed_matches_def demo_knowledge_def demo_scores ranks_before_def) (simp add: demo_entry_def)
qed

theorem governed_search_scoped_witness:
  "\<exists>e \<in> set (gk_entries (demo_knowledge True)). js ''k1'' = ke_id e \<and>
    (truthy (ke_tenantScope e) \<longrightarrow> ke_tenantScope e = Some (js ''t1''))"
proof -
  let ?ev = "\<lparr>ev_id = js ''k1'', ev_text = js ''nine to six'', ev_safety = None,
       ev_knowledge = Some (entry_metadata demo_entry), ev_relevance = Some (125, 1)\<rparr>"
  from governed_search_scoped [OF demo_knowledge_new demo_search, of ?ev]
  show ?thesis by (fastforce simp: demo_context_def)
qed

text \<open>
  Ranked search returns at most three pieces of evidence, ranked 1, 2, 3 by descending score
  (ties by id), each with a score of at least 20, and no admissible entry that was left out
  outranks one that was returned.
\<close>

theorem governed_search_ranked:
  assumes total: "\<And>a b. lc a b \<le> 0 \<or> lc b a \<le> 0"
    and trans: "\<forall>a b c. lc a b \<le> 0 \<longrightarrow> lc b c \<le> 0 \<longrightarrow> lc a c \<le> 0"
    and "gk_rankByRelevance g" and "governed_search nfkc lc g False query context = Inr evs"
  shows "length evs \<le> 3 \<and>
    (\<forall>i < length evs. \<exists>e \<in> set (gk_entries g). ev_id (evs ! i) = ke_id e \<and>
       ev_relevance (evs ! i) = Some (score nfkc e query, i + 1) \<and> 20 \<le> score nfkc e query \<and>
       (\<forall>j. i < j \<longrightarrow> j < length evs \<longrightarrow> fst (the (ev_relevance (evs ! j))) \<le> score nfkc e query)) \<and>
    (\<forall>e \<in> set (gk_entries g).
       isAdmissibleKnowledgeEvidence (Some (entry_metadata e)) context (gk_allowSynthetic g) \<longrightarrow>
       20 \<le> score nfkc e query \<longrightarrow> ke_id e \<notin> set (map ev_id evs) \<longrightarrow>
       length evs = 3 \<and> (\<forall>ev \<in> set evs. score nfkc e query \<le> fst (the (ev_relevance ev))))"
proof -
  let ?le = "ranks_before lc"
  define all where "all = sort_by ?le (filter (\<lambda>m. snd m \<ge> 20) (map (\<lambda>e. (e, score nfkc e query))
            (filter (\<lambda>e. isAdmissibleKnowledgeEvidence (Some (entry_metadata e)) context (gk_allowSynthetic g))
              (gk_entries g))))"
  have ms: "governed_matches nfkc lc g query context = take 3 all"
    using assms(3) by (simp add: governed_matches_def all_def)
  have t: "?le x y \<or> ?le y x" for x y
    using total by (auto simp: ranks_before_def)
  have tr: "?le x z" if "?le x y" "?le y z" for x y z
    using that trans [rule_format] by (auto simp: ranks_before_def split: if_splits)
  have sorted: "sorted_wrt ?le all" unfolding all_def by (rule sorted_sort_by) (use t tr in blast)+
  have ord: "snd (all ! j) \<le> snd (all ! i)" if "i < j" "j < length all" for i j
    using sorted_wrt_nth_less [OF sorted that] by (auto simp: ranks_before_def split: if_splits)
  have len: "length evs = min 3 (length all)"
    using governed_search_Inr(1) [OF assms(4)] ms by (simp add: min.commute)
  have at: "ev_id (evs ! i) = ke_id (fst (all ! i)) \<and> ev_relevance (evs ! i) = Some (snd (all ! i), i + 1)"
    if "i < length evs" for i
    using governed_search_Inr(2) [OF assms(4) that] ms assms(3) that len by (auto split: prod.splits)
  have in_all: "m \<in> set all \<longleftrightarrow> fst m \<in> set (gk_entries g) \<and> snd m = score nfkc (fst m) query \<and> 20 \<le> snd m \<and>
      isAdmissibleKnowledgeEvidence (Some (entry_metadata (fst m))) context (gk_allowSynthetic g)" for m
    by (cases m) (auto simp: all_def)
  have "length evs \<le> 3" using len by simp
  moreover have "\<exists>e \<in> set (gk_entries g). ev_id (evs ! i) = ke_id e \<and>
       ev_relevance (evs ! i) = Some (score nfkc e query, i + 1) \<and> 20 \<le> score nfkc e query \<and>
       (\<forall>j. i < j \<longrightarrow> j < length evs \<longrightarrow> fst (the (ev_relevance (evs ! j))) \<le> score nfkc e query)"
    if i: "i < length evs" for i
  proof -
    have "all ! i \<in> set all" using i len by simp
    then have e: "fst (all ! i) \<in> set (gk_entries g)" "snd (all ! i) = score nfkc (fst (all ! i)) query"
      "20 \<le> snd (all ! i)" using in_all by blast+
    have "fst (the (ev_relevance (evs ! j))) \<le> snd (all ! i)" if "i < j" "j < length evs" for j
      using at [OF that(2)] ord [OF that(1)] that len by simp
    with e at [OF i] show ?thesis by (intro bexI [of _ "fst (all ! i)"]) auto
  qed
  moreover have "length evs = 3 \<and> (\<forall>ev \<in> set evs. score nfkc e query \<le> fst (the (ev_relevance ev)))"
    if e: "e \<in> set (gk_entries g)"
      "isAdmissibleKnowledgeEvidence (Some (entry_metadata e)) context (gk_allowSynthetic g)"
      "20 \<le> score nfkc e query" "ke_id e \<notin> set (map ev_id evs)" for e
  proof -
    have "(e, score nfkc e query) \<in> set all" using e in_all by simp
    then obtain k where k: "k < length all" "all ! k = (e, score nfkc e query)" by (auto simp: in_set_conv_nth)
    have "\<not> k < length evs"
    proof
      assume "k < length evs"
      then have "ev_id (evs ! k) = ke_id e" "evs ! k \<in> set evs" using at k(2) by simp_all
      with e(4) show False by (metis image_eqI list.set_map)
    qed
    then have "length evs = 3" "3 \<le> k" using len k(1) by auto
    moreover have "score nfkc e query \<le> fst (the (ev_relevance ev))" if "ev \<in> set evs" for ev
    proof -
      obtain i where "i < length evs" "evs ! i = ev" using \<open>ev \<in> set evs\<close> by (metis in_set_conv_nth)
      with at [of i] ord [of i k] k \<open>3 \<le> k\<close> \<open>length evs = 3\<close> show ?thesis by auto
    qed
    ultimately show ?thesis by blast
  qed
  ultimately show ?thesis by blast
qed

theorem governed_search_ranked_witness:
  "\<exists>e \<in> set (gk_entries (demo_knowledge True)). js ''k1'' = ke_id e \<and> score id e (js ''hours'') = 125"
proof -
  let ?lc = "\<lambda>a b :: jstring. if a \<le> b then 0 else (1 :: int)"
  have total: "?lc a b \<le> 0 \<or> ?lc b a \<le> 0" for a b by auto
  have trans: "\<forall>a b c. ?lc a b \<le> 0 \<longrightarrow> ?lc b c \<le> 0 \<longrightarrow> ?lc a c \<le> 0"
    by auto
  have rank: "gk_rankByRelevance (demo_knowledge True)" by (simp add: demo_knowledge_def)
  have "\<exists>e \<in> set (gk_entries (demo_knowledge True)). js ''k1'' = ke_id e \<and>
      Some (125, Suc 0) = Some (score id e (js ''hours''), Suc 0)"
    using governed_search_ranked [OF total trans rank demo_search,
        THEN conjunct2, THEN conjunct1, THEN spec [where x = 0]]
    by auto
  then show ?thesis by auto
qed

end
