(* ===== verification/Regex.thy ===== *)
theory Regex
  imports Prelude
begin

text \<open>
  The regular expressions of the keyword classifiers: literals, \<open>.{0,n}\<close> and \<open>.*\<close> (any
  characters but line terminators), alternation, sequence and \<open>?\<close>. \<open>ends r s\<close> lists what can
  remain of \<open>s\<close> after a match of \<open>r\<close> at its front, \<open>re_test\<close> is \<open>RegExp.prototype.test\<close> of an
  expression without anchors, and \<open>re_test_iff\<close> shows both agree with the language of the
  expression. Patterns with anchors or captures are written as predicates where they occur.
\<close>

datatype re = Lit jstring | Gap "nat option" | Alt "re list" | Seq "re list" | Opt re

definition line_end :: "nat \<Rightarrow> bool" where
  "line_end c \<longleftrightarrow> c = 10 \<or> c = 13 \<or> c = 0x2028 \<or> c = 0x2029"

fun gap_ends :: "nat \<Rightarrow> jstring \<Rightarrow> jstring list" where
  "gap_ends n [] = [[]]"
| "gap_ends n (c # cs) = (c # cs) # (if n = 0 \<or> line_end c then [] else gap_ends (n - 1) cs)"

fun ends :: "re \<Rightarrow> jstring \<Rightarrow> jstring list"
  and seq_ends :: "re list \<Rightarrow> jstring list \<Rightarrow> jstring list" where
  "ends (Lit p) s = (if starts_with p s then [drop (length p) s] else [])"
| "ends (Gap None) s = gap_ends (length s) s"
| "ends (Gap (Some n)) s = gap_ends n s"
| "ends (Alt rs) s = concat (map (\<lambda>r. ends r s) rs)"
| "ends (Seq rs) s = seq_ends rs [s]"
| "ends (Opt r) s = ends r s @ [s]"
| "seq_ends [] ss = ss"
| "seq_ends (r # rs) ss = seq_ends rs (concat (map (ends r) ss))"

fun re_test :: "re \<Rightarrow> jstring \<Rightarrow> bool" where
  "re_test r [] = (ends r [] \<noteq> [])"
| "re_test r (c # cs) = (ends r (c # cs) \<noteq> [] \<or> re_test r cs)"

section \<open>The language of an expression\<close>

fun lang :: "re \<Rightarrow> jstring set"
  and seq_lang :: "re list \<Rightarrow> jstring set" where
  "lang (Lit p) = {p}"
| "lang (Gap None) = {v. \<not> list_ex line_end v}"
| "lang (Gap (Some n)) = {v. \<not> list_ex line_end v \<and> length v \<le> n}"
| "lang (Alt rs) = (\<Union>r \<in> set rs. lang r)"
| "lang (Seq rs) = seq_lang rs"
| "lang (Opt r) = insert [] (lang r)"
| "seq_lang [] = {[]}"
| "seq_lang (r # rs) = {u @ v | u v. u \<in> lang r \<and> v \<in> seq_lang rs}"

lemma gap_ends_iff:
  "w \<in> set (gap_ends n s) \<longleftrightarrow> (\<exists>v. s = v @ w \<and> \<not> list_ex line_end v \<and> length v \<le> n)"
proof (induction n s rule: gap_ends.induct)
  case (1 n)
  then show ?case by auto
next
  case (2 n c cs)
  have *: "(\<exists>v. c # cs = v @ w \<and> \<not> list_ex line_end v \<and> length v \<le> n) \<longleftrightarrow>
      w = c # cs \<or> (\<not> line_end c \<and> n \<noteq> 0 \<and> (\<exists>v. cs = v @ w \<and> \<not> list_ex line_end v \<and> length v \<le> n - 1))"
    (is "?L \<longleftrightarrow> ?R")
  proof
    assume ?L
    then obtain v where "c # cs = v @ w" "\<not> list_ex line_end v" "length v \<le> n" by blast
    then show ?R by (cases v) auto
  next
    assume ?R
    then show ?L
    proof
      assume "w = c # cs"
      then show ?L by (intro exI [of _ "[]"]) simp
    next
      assume "\<not> line_end c \<and> n \<noteq> 0 \<and> (\<exists>v. cs = v @ w \<and> \<not> list_ex line_end v \<and> length v \<le> n - 1)"
      then obtain v where "\<not> line_end c" "n \<noteq> 0" "cs = v @ w" "\<not> list_ex line_end v" "length v \<le> n - 1"
        by blast
      then show ?L by (intro exI [of _ "c # v"]) auto
    qed
  qed
  show ?case unfolding * using 2 by auto
qed

lemma ends_iff:
  "w \<in> set (ends r s) \<longleftrightarrow> (\<exists>v \<in> lang r. s = v @ w)"
  "w \<in> set (seq_ends rs ss) \<longleftrightarrow> (\<exists>v \<in> seq_lang rs. \<exists>s \<in> set ss. s = v @ w)"
proof (induction r s and rs ss arbitrary: w and w rule: ends_seq_ends.induct)
  case (1 p s)
  then show ?case by (auto simp: starts_with_iff)
next
  case (2 s)
  then show ?case by (auto simp: gap_ends_iff)
next
  case (3 n s)
  then show ?case by (auto simp: gap_ends_iff)
next
  case (8 r rs ss)
  have "w \<in> set (seq_ends (r # rs) ss) \<longleftrightarrow>
      (\<exists>v \<in> seq_lang rs. \<exists>s \<in> set ss. v @ w \<in> set (ends r s))"
    using 8(2) by auto
  also have "\<dots> \<longleftrightarrow> (\<exists>v \<in> seq_lang rs. \<exists>s \<in> set ss. \<exists>u \<in> lang r. s = u @ v @ w)"
    using 8(1) by blast
  also have "\<dots> \<longleftrightarrow> (\<exists>v \<in> seq_lang (r # rs). \<exists>s \<in> set ss. s = v @ w)"
    by (auto; metis append.assoc)
  finally show ?case .
qed auto

theorem re_test_iff: "re_test r s \<longleftrightarrow> (\<exists>u v w. s = u @ v @ w \<and> v \<in> lang r)"
proof (induction s)
  case Nil
  have "ends r [] \<noteq> [] \<longleftrightarrow> (\<exists>w. w \<in> set (ends r []))" by (cases "ends r []") auto
  then show ?case by (auto simp: ends_iff)
next
  case (Cons c cs)
  have e: "ends r (c # cs) \<noteq> [] \<longleftrightarrow> (\<exists>v w. c # cs = v @ w \<and> v \<in> lang r)"
    by (metis all_not_in_conv ends_iff(1) set_empty)
  show ?case
  proof
    assume "re_test r (c # cs)"
    then consider "ends r (c # cs) \<noteq> []" | "re_test r cs" by auto
    then show "\<exists>u v w. c # cs = u @ v @ w \<and> v \<in> lang r"
    proof cases
      case 1
      then show ?thesis using e by (metis append_Nil)
    next
      case 2
      then show ?thesis using Cons.IH by (metis append_Cons)
    qed
  next
    assume "\<exists>u v w. c # cs = u @ v @ w \<and> v \<in> lang r"
    then obtain u v w where uvw: "c # cs = u @ v @ w" "v \<in> lang r" by blast
    show "re_test r (c # cs)"
    proof (cases u)
      case Nil
      then have "ends r (c # cs) \<noteq> []" using uvw e by auto
      then show ?thesis by simp
    next
      case (Cons d u')
      then show ?thesis using uvw Cons.IH by auto
    qed
  qed
qed

end
