(* ===== verification/Safety.thy ===== *)
theory Safety
  imports Knowledge Regex
begin

text \<open>
  \<open>src/safety.ts\<close>: the keyword and pattern cues that assign a request to a professional-risk
  category, the retrieval of approved safety knowledge, the safety decision and the inspection
  of a response. The keyword lists are the literals of the source in code units; a keyword of
  ASCII letters inside them is written the same way.
\<close>

fun risk_string :: "risk_category \<Rightarrow> jstring" where
  "risk_string Allergy = js ''allergy''"
| "risk_string Skin_abnormality = js ''skin_abnormality''"
| "risk_string Device_safety = js ''device_safety''"
| "risk_string Contraindication = js ''contraindication''"
| "risk_string Unknown_professional_risk = js ''unknown_professional_risk''"

section \<open>Risk detection\<close>

definition hasKeyword :: "jstring \<Rightarrow> jstring list \<Rightarrow> bool" where
  "hasKeyword text keywords = list_ex (\<lambda>k. contains k text) keywords"

abbreviation lits :: "jstring list \<Rightarrow> re" where
  "lits ws \<equiv> Alt (map Lit ws)"

abbreviation upto_chars :: "nat \<Rightarrow> re" where
  "upto_chars n \<equiv> Gap (Some n)"

definition hard_negative_patterns :: "re list" where
  "hard_negative_patterns =
     [Seq [lits [[0x4EF7, 0x683C], [0x8D39, 0x7528], [0x670D, 0x52A1], [0x4F53, 0x9A8C]], upto_chars 8,
       lits [[0x4E0D, 0x8212, 0x670D], [0x96BE, 0x53D7]]],
      Seq [lits [[0x9000, 0x6B3E], [0x8BA2, 0x5355], [0x653F, 0x7B56]], upto_chars 8, lits [[0x98CE, 0x9669],
        [0x8FC7, 0x654F], [0x4E0D, 0x8212, 0x670D]]],
      Seq [lits [[0x8BBE, 0x5907], [0x4EEA, 0x5668]], upto_chars 8, lits [[0x9001, 0x5230], [0x914D, 0x9001],
        [0x5230, 0x8D27], [0x7269, 0x6D41]]],
      Seq [lits [[0x4F1A, 0x5458], [0x653F, 0x7B56]], upto_chars 8, lits [[0x8FC7, 0x654F], [0x4E0D, 0x8212,
        0x670D]]],
      Seq [Lit [0x76AE, 0x80A4, 0x7BA1, 0x7406], upto_chars 8, lits [[0x8425, 0x4E1A], [0x51E0, 0x70B9], [0x9884,
        0x7EA6]]]]"

definition hasSafetyHardNegative :: "jstring \<Rightarrow> bool" where
  "hasSafetyHardNegative text = list_ex (\<lambda>p. re_test p text) hard_negative_patterns"

definition hasDeviceRiskSignal :: "jstring \<Rightarrow> bool" where
  "hasDeviceRiskSignal text =
     (let deviceContext = hasKeyword text [[0x4EEA, 0x5668], [0x8BBE, 0x5907], [0x673A, 0x5668], [0x673A, 0x5B50]];
          deviceFault = hasKeyword text
            [[0x62A5, 0x9519], [0x62, 0x61, 0x6F, 0x63, 0x75, 0x6F], [0x7126, 0x7CCA], [0x7CCA, 0x5473], [0x706B,
              0x661F], [0x8BFB, 0x6570, 0x8DF3], [0x6570, 0x5B57, 0x5FFD, 0x9AD8, 0x5FFD, 0x4F4E], [0x754C, 0x9762,
              0x4E00, 0x76F4, 0x95EA]]
      in (hasKeyword text [[0x4EEA, 0x5668], [0x8BBE, 0x5907], [0x673A, 0x5668]] \<and>
          hasKeyword text [[0x7535], [0x64, 0x69, 0x61, 0x6E], [0x9EBB], [0x6253, 0x75DB], [0x70EB], [0x5F02,
            0x5E38], [0x4E0D, 0x5BF9, 0x52B2], [0x602A, 0x602A], [0x75BC], [0x78B0]]) \<or>
         hasKeyword text [[0x7535, 0x4E86, 0x4E00, 0x4E0B], [0x50CF, 0x88AB, 0x7535], [0x6F0F, 0x7535], [0x7535,
           0x9EBB]] \<or> (deviceContext \<and> deviceFault))"

definition service_decision_pattern :: re where
  "service_decision_pattern =
     lits [[0x80FD, 0x4E0D, 0x80FD], [0x53EF, 0x4E0D, 0x53EF, 0x4EE5], [0x8FD8, 0x80FD], [0x80FD, 0x5426], [0x5B89,
       0x6392], [0x9884, 0x7EA6], [0x9879, 0x76EE], [0x670D, 0x52A1], [0x505A], [0x7EE7, 0x7EED], [0x80FD, 0x6392],
       [0x80FD, 0x7EA6]]"

definition taken_pattern :: re where
  "taken_pattern =
     Seq [lits [[0x5403, 0x8FC7], [0x5403, 0x7740], [0x670D, 0x8FC7], [0x670D, 0x7528], [0x5728, 0x5403], [0x5403,
       0x5B8C], [0x670D, 0x836F], [0x5403, 0x836F]], upto_chars 4, Opt (Lit [0x836F])]"

definition hasContraindicationSignal :: "jstring \<Rightarrow> bool" where
  "hasContraindicationSignal text =
     (let serviceDecision = re_test service_decision_pattern text;
          medicationContext = hasKeyword text [[0x836F], [0x670D, 0x7528], [0x559D, 0x836F], [0x836F, 0x7247]]
      in (re_test taken_pattern text \<and> serviceDecision) \<or> (medicationContext \<and> serviceDecision) \<or>
         hasKeyword text [[0x6000, 0x5B55], [0x6000, 0x7740], [0x54FA, 0x4E73], [0x6000, 0x5B9D, 0x5B9D], [0x809A,
           0x5B50, 0x91CC, 0x6709, 0x5B9D, 0x5B9D]])"

definition hasVisibleSkinRiskSignal :: "jstring \<Rightarrow> bool" where
  "hasVisibleSkinRiskSignal text = hasKeyword text
     [[0x7EA2, 0x6591], [0x7EA2, 0x62, 0x61, 0x6E], [0x75B9, 0x5B50], [0x6E17, 0x51FA], [0x53D1, 0x767D], [0x6652,
       0x4F24], [0x5192, 0x70ED], [0x70E4, 0x719F], [0x9488, 0x624E], [0x9488, 0x6233], [0x5C0F, 0x7599, 0x7629],
       [0x989C, 0x8272, 0x8D8A, 0x6765, 0x8D8A, 0x767D]]"

definition hasAcuteUncertainRiskSignal :: "jstring \<Rightarrow> bool" where
  "hasAcuteUncertainRiskSignal text \<longleftrightarrow>
     hasKeyword text
       [[0x5934, 0x6655], [0x80F8, 0x53E3, 0x53D1, 0x95F7], [0x80F8, 0x53E3, 0x5835], [0x80F8, 0x6D, 0x65, 0x6E],
         [0x55D3, 0x5B50, 0x53D1, 0x7D27], [0x55D3, 0x5B50, 0x6A, 0x69, 0x6E], [0x773C, 0x524D, 0x53D1, 0x9ED1],
           [0x53D1, 0x98D8], [0x7F29, 0x8116, 0x5B50], [0x4E0D, 0x5BF9, 0x5473],
        [0x5168, 0x662F, 0x6C57], [0x51FA, 0x53BB, 0x900F, 0x6C14], [0x53CD, 0x590D, 0x541E, 0x54BD], [0x9000,
          0x4E86, 0x4E24, 0x6B65], [0x7AD9, 0x4E0D, 0x7A33], [0x5634, 0x5507, 0x80BF]] \<or>
     re_test (Seq [Lit [0x773C, 0x524D], upto_chars 4, Lit [0x53D1, 0x9ED1]]) text"

definition allergy_words :: "jstring list" where
  "allergy_words =
     [[0x8FC7, 0x654F], [0x61, 0x6C, 0x6C, 0x65, 0x72, 0x67, 0x79], [0x4E0D, 0x826F, 0x53CD, 0x5E94], [0x8D8A,
       0x6765, 0x8D8A, 0x75D2], [0x8D8A, 0x505A, 0x8D8A, 0x75D2], [0x75D2, 0x5F97], [0x53D1, 0x75D2], [0x5F00,
       0x59CB, 0x75D2], [0x8D8A, 0x6320, 0x8D8A, 0x75D2], [0x6293, 0x8138],
      [0x75D2, 0x4E00, 0x76F4], [0x79, 0x75, 0x65, 0x75D2], [0x63C9, 0x773C, 0x775B]]"

definition skin_words :: "jstring list" where
  "skin_words =
     [[0x76AE, 0x80A4, 0x5F02, 0x5E38], [0x73, 0x6B, 0x69, 0x6E, 0x61, 0x62, 0x6E, 0x6F, 0x72, 0x6D, 0x61, 0x6C],
       [0x7EA2, 0x80BF], [0x7834, 0x635F], [0x523A, 0x75DB], [0x523A, 0x523A], [0x624E, 0x7740, 0x75BC], [0x5C0F,
         0x6C34, 0x6CE1], [0x5C0F, 0x6CE1], [0x8D77, 0x6CE1], [0x5192, 0x6CE1],
      [0x6CE1, 0x6CE1], [0x9F13, 0x8D77, 0x6765], [0x53D1, 0x70EB], [0x7279, 0x522B, 0x70EB], [0x5F88, 0x70EB],
        [0x70ED, 0x5F97, 0x5389, 0x5BB3], [0x70E7, 0x8D77, 0x6765], [0x7EA2, 0x7EA2], [0x7EA2, 0x53C8, 0x70EB],
          [0x76AE, 0x90FD, 0x7834],
      [0x6301, 0x7EED, 0x89C9, 0x5F97, 0x70ED], [0x8138, 0x6E29, 0x5EA6, 0x5F88, 0x9AD8]]"

definition hasProfessionalRiskSignal :: "jstring \<Rightarrow> bool" where
  "hasProfessionalRiskSignal t \<longleftrightarrow>
     hasKeyword t [[0x4E13, 0x4E1A, 0x98CE, 0x9669], [0x5B89, 0x5168, 0x98CE, 0x9669], [0x4E0D, 0x786E, 0x5B9A],
       [0x70, 0x72, 0x6F, 0x66, 0x65, 0x73, 0x73, 0x69, 0x6F, 0x6E, 0x61, 0x6C, 0x72, 0x69, 0x73, 0x6B], [0x547C,
         0x5438, 0x56F0, 0x96BE]] \<or>
     re_test (Seq [Lit [0x547C, 0x5438], upto_chars 4, lits [[0x4E0D, 0x8212, 0x670D], [0x4E0D, 0x9002]]]) t \<or>
     re_test (Seq [Lit [0x5598], upto_chars 6,
       Alt [Seq [Lit [0x4E0D], upto_chars 2, lits [[0x8212, 0x670D], [0x9002]]], Lit [0x4E0D, 0x4E0A,
         0x6765]]]) t \<or>
     (re_test (lits [[0x505A, 0x4E00, 0x534A], [0x505A, 0x5230, 0x534A, 0x622A], [0x521A, 0x505A, 0x5B8C], [0x521A,
       0x5F04, 0x5B8C], [0x64CD, 0x4F5C, 0x4E2D], [0x9879, 0x76EE, 0x4E2D], [0x8FDB, 0x884C, 0x65F6], [0x78B0,
       0x5230, 0x90A3, 0x4E2A, 0x5934]]) t \<and>
      hasKeyword t [[0x4E0D, 0x8212, 0x670D], [0x96BE, 0x53D7], [0x4E0D, 0x9002], [0x602A, 0x602A], [0x4E0D,
        0x5BF9, 0x52B2], [0x4E0D, 0x592A, 0x5BF9], [0x64, 0x75, 0x69], [0x7F29, 0x4E86, 0x4E00, 0x4E0B]]) \<or>
     hasKeyword t
       [[0x5598, 0x4E0D, 0x4E0A, 0x6765], [0x4E00, 0x76F4, 0x8BF4, 0x5598], [0x5FC3, 0x91CC, 0x6CA1, 0x5E95],
         [0x6015, 0x4E0D, 0x5B89, 0x5168], [0x611F, 0x89C9, 0x5F88, 0x4E0D, 0x5BF9], [0x4EBA, 0x4E0D, 0x5BF9,
           0x52B2], [0x5148, 0x522B, 0x5F04], [0x4E0D, 0x592A, 0x64, 0x75, 0x69],
        [0x62FF, 0x4E0D, 0x51C6], [0x5F80, 0x4E0B, 0x505A]] \<or>
     re_test (Seq [Lit [0x76AE, 0x80A4], upto_chars 6, lits [[0x602A, 0x602A], [0x602A], [0x4E0D, 0x5BF9]]]) t"

definition safety_marks :: "nat list" where
  "safety_marks = [0xFF0C, 0x3002, 0xFF01, 0xFF1F, 0x3001, 0xFF1B, 0xFF1A, 0x201C, 0x201D, 0x2018, 0x2019, 0x2C,
    0x2E, 0x21, 0x3F, 0x3B, 0x3A, 0x27, 0x22, 0x2D]"

definition safety_separator :: "nat \<Rightarrow> bool" where
  "safety_separator c \<longleftrightarrow> is_space c \<or> c \<in> set safety_marks"

definition normalize_risk_text :: "jstring \<Rightarrow> jstring" where
  "normalize_risk_text text = filter (\<lambda>c. \<not> safety_separator c) (to_lower text)"

definition detectSafetyRisk :: "jstring \<Rightarrow> risk_category option" where
  "detectSafetyRisk text =
     (let t = normalize_risk_text text in
      if hasSafetyHardNegative t then None
      else if hasDeviceRiskSignal t then Some Device_safety
      else if hasContraindicationSignal t then Some Contraindication
      else if hasVisibleSkinRiskSignal t then Some Skin_abnormality
      else if hasAcuteUncertainRiskSignal t then Some Unknown_professional_risk
      else if hasKeyword t allergy_words then Some Allergy
      else if hasKeyword t skin_words then Some Skin_abnormality
      else if hasKeyword t [[0x7981, 0x5FCC], [0x63, 0x6F, 0x6E, 0x74, 0x72, 0x61, 0x69, 0x6E, 0x64, 0x69, 0x63,
        0x61, 0x74, 0x69, 0x6F, 0x6E]] then Some Contraindication
      else if hasKeyword t [[0x8BBE, 0x5907, 0x5B89, 0x5168], [0x4EEA, 0x5668, 0x5B89, 0x5168], [0x64, 0x65, 0x76,
        0x69, 0x63, 0x65, 0x73, 0x61, 0x66, 0x65, 0x74, 0x79], [0x4EEA, 0x5668, 0x521A, 0x521A, 0x54CD], [0x8BBE,
        0x5907, 0x4E0D, 0x5BF9]]
      then Some Device_safety
      else if hasProfessionalRiskSignal t then Some Unknown_professional_risk
      else None)"

section \<open>Approved safety knowledge\<close>

record safety_entry =
  sk_id :: jstring
  sk_domain :: jstring
  sk_riskCategory :: risk_category
  sk_status :: jstring
  sk_version :: jstring
  sk_updatedAt :: jstring
  sk_scope :: "jstring list"
  sk_evidenceText :: jstring
  sk_allowedOptions :: "safety_option list"
  sk_requiresEscalation :: bool

definition queryMatches :: "safety_entry \<Rightarrow> jstring \<Rightarrow> bool" where
  "queryMatches e query \<longleftrightarrow>
     contains (risk_string (sk_riskCategory e)) (to_lower query) \<or>
     detectSafetyRisk query = Some (sk_riskCategory e)"

definition safety_usable :: "jstring \<Rightarrow> bool \<Rightarrow> bool" where
  "safety_usable status synthetic \<longleftrightarrow> status = approved \<or> (synthetic \<and> status = synthetic_test_only)"

definition safety_search ::
  "safety_entry list \<Rightarrow> bool \<Rightarrow> jstring \<Rightarrow> bool \<Rightarrow> (error, evidence list) result" where
  "safety_search entries synthetic query aborted =
     (if aborted then Inl ''Safety knowledge search aborted.''
      else Inr (map (\<lambda>e. \<lparr>ev_id = sk_id e, ev_text = sk_evidenceText e,
            ev_safety = Some \<lparr>se_id = sk_id e, se_riskCategory = sk_riskCategory e, se_status = sk_status e,
              se_version = sk_version e, se_scope = sk_scope e, se_allowedOptions = sk_allowedOptions e,
              se_requiresEscalation = sk_requiresEscalation e\<rparr>,
            ev_knowledge = None, ev_relevance = None\<rparr>)
          (filter (\<lambda>e. queryMatches e query)
            (filter (\<lambda>e. safety_usable (sk_status e) synthetic)
              (filter (\<lambda>e. sk_domain e = js ''safety'') entries)))))"

section \<open>The decision\<close>

datatype disposition = Supported | Escalate | Fallback

record safety_decision =
  sd_disposition :: disposition
  sd_riskCategory :: risk_category
  sd_evidenceIds :: "jstring list"
  sd_options :: "safety_option list"
  sd_reason :: jstring

definition scoped_evidence ::
  "risk_category \<Rightarrow> safety_evidence list \<Rightarrow> bool \<Rightarrow> jstring \<Rightarrow> safety_evidence list" where
  "scoped_evidence risk evidence synthetic requestedScope =
     (let usable = filter (\<lambda>e. se_riskCategory e = risk \<and> safety_usable (se_status e) synthetic) evidence
      in if requestedScope \<noteq> [] then filter (\<lambda>e. requestedScope \<in> set (se_scope e)) usable else usable)"

definition decideSafety ::
  "risk_category \<Rightarrow> safety_evidence list \<Rightarrow> bool \<Rightarrow> jstring \<Rightarrow> safety_decision" where
  "decideSafety risk evidence synthetic requestedScope =
     (let scoped = scoped_evidence risk evidence synthetic requestedScope;
          evidenceIds = map se_id scoped;
          options = take 3 (concat (map se_allowedOptions scoped))
      in if scoped = [] then \<lparr>sd_disposition = Escalate, sd_riskCategory = risk, sd_evidenceIds = [],
           sd_options = [], sd_reason = js ''insufficient_approved_evidence''\<rparr>
      else if list_ex se_requiresEscalation scoped then \<lparr>sd_disposition = Escalate, sd_riskCategory = risk,
           sd_evidenceIds = evidenceIds, sd_options = [], sd_reason = js ''knowledge_requires_qualified_human''\<rparr>
      else if options = [] then \<lparr>sd_disposition = Escalate, sd_riskCategory = risk,
           sd_evidenceIds = evidenceIds, sd_options = [], sd_reason = js ''evidence_has_no_allowed_option''\<rparr>
      else \<lparr>sd_disposition = Supported, sd_riskCategory = risk, sd_evidenceIds = evidenceIds,
           sd_options = options, sd_reason = js ''approved_evidence_covers_scope''\<rparr>)"

definition option_line :: "nat \<Rightarrow> safety_option \<Rightarrow> jstring" where
  "option_line i o' = show_nat (i + 1) @ js ''. '' @ so_action o' @ [0xFF08, 0x98CE, 0x9669, 0xFF1A] @ so_risk o' @
     [0xFF1B, 0x9884, 0x671F, 0xFF1A] @ so_likelyResult o' @ [0xFF09]"

definition formatSafetySupportedResponse :: "safety_option list \<Rightarrow> jstring" where
  "formatSafetySupportedResponse options =
     [0x4EE5, 0x4E0B, 0x4EC5, 0x4E3A, 0x5DF2, 0x6279, 0x51C6, 0x8D44, 0x6599, 0x8986, 0x76D6, 0x7684, 0x9009,
       0x9879, 0xFF1A] @ 10 #
     join [10] (map (\<lambda>(i, o'). option_line i o') (zip [0..<length options] options))"

definition inspectUnsupportedProfessionalClaims :: "jstring \<Rightarrow> disposition \<Rightarrow> jstring list \<Rightarrow> string list" where
  "inspectUnsupportedProfessionalClaims text disposition approvedOptionTexts =
     (if disposition = Supported
      then (if approvedOptionTexts = [] then [''supported_without_approved_options'']
            else if \<not> list_all (\<lambda>o'. contains o' text) approvedOptionTexts
            then [''approved_option_missing_from_response''] else []) @
           (if length approvedOptionTexts = 1 \<and> text \<noteq> hd approvedOptionTexts
            then [''supported_response_not_exactly_approved''] else [])
      else (if re_test (Seq [lits [[0x53EF, 0x4EE5], [0x7EE7, 0x7EED], [0x7167, 0x5E38], [0x76F4, 0x63A5]],
        upto_chars 6, lits [[0x64CD, 0x4F5C], [0x505A], [0x8FDB, 0x884C], [0x9879, 0x76EE]]]) text \<or>
              re_test (lits [[0x65E0, 0x9700, 0x6682, 0x505C], [0x4E0D, 0x7528, 0x6682, 0x505C]]) text
            then [''continuation_when_pause_required''] else []) @
           (if re_test (lits [[0x80AF, 0x5B9A], [0x786E, 0x5B9A, 0x6CA1, 0x95EE, 0x9898], [0x5DF2, 0x7ECF, 0x8BCA,
             0x65AD], [0x786E, 0x8BCA]]) text
            then [''unsupported_certainty_or_diagnosis''] else []) @
           (if re_test (Alt [Lit [0x6CBB, 0x7597], Lit [0x7981, 0x5FCC], Seq [Lit [0x4EEA, 0x5668], upto_chars 4,
             lits [[0x8C03], [0x7528]]],
                Seq [Lit [0x8BBE, 0x5907], upto_chars 4, lits [[0x8C03], [0x7528]]], Seq [Lit [0x8FC7, 0x654F],
                  upto_chars 4, lits [[0x5904, 0x7406], [0x6B65, 0x9AA4]]]]) text
            then [''professional_instruction_when_escalation_required''] else []))"

section \<open>Lemmas\<close>

lemma scoped_evidence_iff:
  "e \<in> set (scoped_evidence risk evidence syn scope) \<longleftrightarrow>
     e \<in> set evidence \<and> se_riskCategory e = risk \<and> safety_usable (se_status e) syn \<and>
     (scope \<noteq> [] \<longrightarrow> scope \<in> set (se_scope e))"
  by (auto simp: scoped_evidence_def Let_def)

lemma decideSafety_cases:
  "decideSafety risk evidence syn scope =
     (let scoped = scoped_evidence risk evidence syn scope in
      if scoped \<noteq> [] \<and> \<not> list_ex se_requiresEscalation scoped \<and> concat (map se_allowedOptions scoped) \<noteq> []
      then \<lparr>sd_disposition = Supported, sd_riskCategory = risk, sd_evidenceIds = map se_id scoped,
           sd_options = take 3 (concat (map se_allowedOptions scoped)),
           sd_reason = js ''approved_evidence_covers_scope''\<rparr>
      else \<lparr>sd_disposition = Escalate, sd_riskCategory = risk, sd_evidenceIds = map se_id scoped,
           sd_options = [], sd_reason = sd_reason (decideSafety risk evidence syn scope)\<rparr>)"
  by (simp add: decideSafety_def Let_def)

lemma lower_unit_space: "is_space c \<Longrightarrow> lower_unit c = [c]"
  unfolding is_space_def by (elim disjE conjE; simp add: lower_unit_def)

lemma lower_unit_marks: "list_all (\<lambda>c. lower_unit c = [c]) safety_marks"
  unfolding safety_marks_def list.pred_inject by (intro conjI TrueI; simp add: lower_unit_def)

lemma lower_unit_separator: "safety_separator c \<Longrightarrow> lower_unit c = [c]"
  using lower_unit_marks lower_unit_space by (auto simp: safety_separator_def list_all_iff)

lemma normalize_risk_append:
  "list_all safety_separator w \<Longrightarrow> normalize_risk_text (a @ w @ b) = normalize_risk_text (a @ b)"
proof -
  assume "list_all safety_separator w"
  moreover have "safety_separator c \<Longrightarrow> filter (\<lambda>c. \<not> safety_separator c) (lower_unit c) = []" for c
    by (simp add: lower_unit_separator)
  ultimately have "filter (\<lambda>c. \<not> safety_separator c) (to_lower w) = []"
    by (induction w) (simp_all add: to_lower_def)
  then show ?thesis by (simp add: normalize_risk_text_def)
qed

lemma normalize_risk_lower: "normalize_risk_text (to_lower t) = normalize_risk_text t"
  by (simp add: normalize_risk_text_def)

section \<open>Properties\<close>

text \<open>
  C5. A safety decision supports an answer exactly when the evidence of the risk category that
  is approved (or a permitted fixture) and covers the requested scope is non-empty, lists an
  option and nowhere requires escalation. Then it offers one to three options, each allowed by
  such evidence; in every other case it escalates and offers none.
\<close>

theorem decideSafety_supported_iff:
  "(sd_disposition (decideSafety risk evidence syn scope) = Supported \<longleftrightarrow>
     (\<exists>e \<in> set evidence. se_riskCategory e = risk \<and> safety_usable (se_status e) syn \<and>
        (scope = [] \<or> scope \<in> set (se_scope e)) \<and> se_allowedOptions e \<noteq> []) \<and>
     (\<nexists>e. e \<in> set evidence \<and> se_riskCategory e = risk \<and> safety_usable (se_status e) syn \<and>
        (scope = [] \<or> scope \<in> set (se_scope e)) \<and> se_requiresEscalation e)) \<and>
   (if sd_disposition (decideSafety risk evidence syn scope) = Supported
    then length (sd_options (decideSafety risk evidence syn scope)) \<in> {1..3} \<and>
      set (sd_options (decideSafety risk evidence syn scope)) \<subseteq>
        {o'. \<exists>e. e \<in> set evidence \<and> se_riskCategory e = risk \<and> safety_usable (se_status e) syn \<and>
           (scope = [] \<or> scope \<in> set (se_scope e)) \<and> o' \<in> set (se_allowedOptions e)}
    else sd_disposition (decideSafety risk evidence syn scope) = Escalate \<and>
      sd_options (decideSafety risk evidence syn scope) = [])"
proof -
  let ?sc = "scoped_evidence risk evidence syn scope"
  have mem: "e \<in> set ?sc \<longleftrightarrow> e \<in> set evidence \<and> se_riskCategory e = risk \<and>
      safety_usable (se_status e) syn \<and> (scope = [] \<or> scope \<in> set (se_scope e))" for e
    by (auto simp: scoped_evidence_iff)
  have some: "?sc \<noteq> [] \<and> concat (map se_allowedOptions ?sc) \<noteq> [] \<longleftrightarrow> (\<exists>e \<in> set ?sc. se_allowedOptions e \<noteq> [])"
    by auto
  have E: "(\<exists>e \<in> set evidence. se_riskCategory e = risk \<and> safety_usable (se_status e) syn \<and>
        (scope = [] \<or> scope \<in> set (se_scope e)) \<and> se_allowedOptions e \<noteq> []) \<longleftrightarrow>
      (\<exists>e \<in> set ?sc. se_allowedOptions e \<noteq> [])"
    "(\<nexists>e. e \<in> set evidence \<and> se_riskCategory e = risk \<and> safety_usable (se_status e) syn \<and>
        (scope = [] \<or> scope \<in> set (se_scope e)) \<and> se_requiresEscalation e) \<longleftrightarrow>
      \<not> list_ex se_requiresEscalation ?sc"
    "{o'. \<exists>e. e \<in> set evidence \<and> se_riskCategory e = risk \<and> safety_usable (se_status e) syn \<and>
           (scope = [] \<or> scope \<in> set (se_scope e)) \<and> o' \<in> set (se_allowedOptions e)} =
      {o'. \<exists>e \<in> set ?sc. o' \<in> set (se_allowedOptions e)}"
    unfolding list_ex_iff using mem by blast+
  show ?thesis
  proof (cases "(\<exists>e \<in> set ?sc. se_allowedOptions e \<noteq> []) \<and> \<not> list_ex se_requiresEscalation ?sc")
    case True
    then have d: "decideSafety risk evidence syn scope =
        \<lparr>sd_disposition = Supported, sd_riskCategory = risk, sd_evidenceIds = map se_id ?sc,
         sd_options = take 3 (concat (map se_allowedOptions ?sc)),
         sd_reason = js ''approved_evidence_covers_scope''\<rparr>"
      using some by (subst decideSafety_cases) (simp add: Let_def)
    have "concat (map se_allowedOptions ?sc) \<noteq> []" using True some by blast
    then have "length (take 3 (concat (map se_allowedOptions ?sc))) \<in> {1..3}"
      by (cases "concat (map se_allowedOptions ?sc)") auto
    moreover have "o' \<in> set (take 3 (concat (map se_allowedOptions ?sc))) \<Longrightarrow>
        \<exists>e \<in> set ?sc. o' \<in> set (se_allowedOptions e)" for o'
      by (drule set_takeD) auto
    ultimately show ?thesis using True unfolding E by (auto simp: d)
  next
    case False
    then have d: "sd_disposition (decideSafety risk evidence syn scope) = Escalate"
        "sd_options (decideSafety risk evidence syn scope) = []"
      using some by (subst decideSafety_cases; auto simp: Let_def)+
    show ?thesis using False unfolding E by (simp add: d)
  qed
qed

text \<open>
  White space and punctuation inserted anywhere in a request, and a change to lower case,
  leave the detected risk category as it is.
\<close>

theorem detectSafetyRisk_separators:
  assumes "list_all safety_separator w"
  shows "detectSafetyRisk (a @ w @ b) = detectSafetyRisk (a @ b) \<and>
    detectSafetyRisk (to_lower (a @ b)) = detectSafetyRisk (a @ b)"
  unfolding detectSafetyRisk_def normalize_risk_append [OF assms] normalize_risk_lower by simp

theorem detectSafetyRisk_separators_witness:
  "detectSafetyRisk [0x6000, 0xFF0C, 0x5B55] = detectSafetyRisk [0x6000, 0x5B55]"
  using detectSafetyRisk_separators [of "[0xFF0C]" "[0x6000]" "[0x5B55]"]
  by (simp add: safety_separator_def safety_marks_def)

end
