(* ===== verification/RealPolicy.thy ===== *)
theory RealPolicy
  imports Safety
begin

text \<open>
  The request and result types of \<open>src/index.ts\<close> and \<open>src/real-policy.ts\<close>: the bounded
  routing cues and the policy that turns the result of a turn into the one that is sent. The
  agent events and messages belong to a package the program uses; only the fields that the
  program reads are kept.
\<close>

section \<open>Requests, results and agent events\<close>

record support_request =
  rq_conversationId :: jstring
  rq_tenantId :: jstring
  rq_storeId :: jstring
  rq_customerId :: jstring
  rq_text :: jstring
  rq_requestId :: "jstring option"
  rq_permissions :: "jstring list option"
  rq_mayEscalate :: "bool option"
  rq_requiresEscalation :: "bool option"

datatype stop_reason = Stop | Length_stop | Tool_use | Error_stop | Aborted

record message =
  msg_role :: jstring
  msg_texts :: "jstring list"
  msg_stopReason :: stop_reason

datatype agent_event =
    Turn_start
  | Tool_execution_start jstring "jstring option"
  | Tool_execution_end jstring bool
  | Message_end message
  | Other_event jstring

datatype policy_decision = AUTO | WORKFLOW | HUMAN | SAFE_FALLBACK

datatype outcome = Answer | Fallback_outcome | Escalation

record support_result =
  sr_policyDecision :: "policy_decision option"
  sr_type :: outcome
  sr_text :: jstring
  sr_piSessionId :: jstring
  sr_toolsCalled :: "jstring list"
  sr_sessionEvents :: "agent_event list"
  sr_evidence :: "grounding_reference list"

section \<open>Cues\<close>

text \<open>
  The \<open>i\<close> flag without \<open>u\<close> folds no other character onto an ASCII letter, and the Chinese
  characters have no case.
\<close>

definition ascii_lower :: "jstring \<Rightarrow> jstring" where
  "ascii_lower s = map (\<lambda>c. if 65 \<le> c \<and> c \<le> 90 then c + 32 else c) s"

definition is_word_unit :: "nat \<Rightarrow> bool" where
  "is_word_unit c \<longleftrightarrow> is_digit c \<or> (65 \<le> c \<and> c \<le> 90) \<or> (97 \<le> c \<and> c \<le> 122) \<or> c = 95"

text \<open>A word of word characters followed by \<open>\b\<close>.\<close>

fun contains_word_end :: "jstring \<Rightarrow> jstring \<Rightarrow> bool" where
  "contains_word_end w [] = False"
| "contains_word_end w (c # cs) =
     ((starts_with w (c # cs) \<and>
        (case drop (length w) (c # cs) of [] \<Rightarrow> True | d # _ \<Rightarrow> \<not> is_word_unit d)) \<or>
      contains_word_end w cs)"

definition human_words :: "jstring list" where
  "human_words =
     [[0x6295, 0x8BC9], [0x8D54, 0x507F], [0x8D54, 0x6211], [0x8865, 0x507F], [0x9884, 0x7EA6], [0x9884, 0x8BA2],
       [0x4FEE, 0x6539], [0x5220, 0x9664], [0x53D6, 0x6D88, 0x8BA2, 0x5355], [0x8F6C, 0x8D26], [0x6263, 0x6B3E],
         [0x7BA1, 0x7406, 0x5458],
      [0x63, 0x6F, 0x6D, 0x70, 0x6C, 0x61, 0x69, 0x6E, 0x74], [0x63, 0x6F, 0x6D, 0x70, 0x65, 0x6E, 0x73, 0x61,
        0x74], [0x72, 0x65, 0x73, 0x65, 0x72, 0x76], [0x64, 0x65, 0x6C, 0x65, 0x74, 0x65], [0x74, 0x72, 0x61, 0x6E,
        0x73, 0x66, 0x65, 0x72]]"

definition needsHuman :: "jstring \<Rightarrow> bool" where
  "needsHuman text = (let t = ascii_lower text in
     list_ex (\<lambda>w. contains w t) human_words \<or> contains_word_end [0x62, 0x6F, 0x6F, 0x6B] t)"

definition greeting_tail :: "nat \<Rightarrow> bool" where
  "greeting_tail c \<longleftrightarrow> is_space c \<or> c \<in> set [0xFF01, 0x21, 0x3002, 0x2E, 0x3F, 0xFF1F]"

definition isGreeting :: "jstring \<Rightarrow> bool" where
  "isGreeting text = (let t = ascii_lower (trim text) in
     list_ex (\<lambda>g. starts_with g t \<and> list_all greeting_tail (drop (length g) t))
       [[0x4F60, 0x597D], [0x60A8, 0x597D], [0x5728, 0x5417], [0x68, 0x69], [0x68, 0x65, 0x6C, 0x6C, 0x6F]])"

section \<open>The policy\<close>

record policy_facts =
  pf_requestText :: jstring
  pf_failed :: bool
  pf_requiresEscalation :: bool
  pf_safety :: "disposition option"
  pf_durableTicket :: bool
  pf_durableHandoff :: bool

definition respond :: "support_result \<Rightarrow> policy_decision \<Rightarrow> outcome \<Rightarrow> jstring \<Rightarrow> support_result" where
  "respond r d t text = r\<lparr>sr_policyDecision := Some d, sr_type := t, sr_text := text, sr_evidence := []\<rparr>"

definition text_failed_safety :: jstring where
  "text_failed_safety = [0x5F53, 0x524D, 0x65E0, 0x6CD5, 0x5B89, 0x5168, 0x786E, 0x8BA4, 0xFF0C, 0x8BF7, 0x6682,
    0x505C, 0x5F53, 0x524D, 0x64CD, 0x4F5C, 0x5E76, 0x8054, 0x7CFB, 0x5408, 0x683C, 0x4E13, 0x4E1A, 0x4EBA, 0x5458,
    0x3002]"

definition text_failed :: jstring where
  "text_failed = [0x62B1, 0x6B49, 0xFF0C, 0x5F53, 0x524D, 0x65E0, 0x6CD5, 0x786E, 0x8BA4, 0x5904, 0x7406, 0x7ED3,
    0x679C, 0xFF0C, 0x8BF7, 0x7A0D, 0x540E, 0x91CD, 0x8BD5, 0x6216, 0x8054, 0x7CFB, 0x4EBA, 0x5DE5, 0x5BA2, 0x670D,
    0x3002]"

definition text_handoff :: jstring where
  "text_handoff = [0x5DF2, 0x4E3A, 0x60A8, 0x8F6C, 0x4EA4, 0x4EBA, 0x5DE5, 0x5BA2, 0x670D, 0x8DDF, 0x8FDB, 0x3002]"

definition text_human :: jstring where
  "text_human = [0x8BE5, 0x8BF7, 0x6C42, 0x9700, 0x8981, 0x4EBA, 0x5DE5, 0x6838, 0x5B9E, 0xFF1B, 0x5F53, 0x524D,
    0x5C1A, 0x672A, 0x5B8C, 0x6210, 0x8F6C, 0x4EA4, 0xFF0C, 0x8BF7, 0x8054, 0x7CFB, 0x4EBA, 0x5DE5, 0x5BA2, 0x670D,
    0x3002, 0x4E0D, 0x80FD, 0x786E, 0x8BA4, 0x9884, 0x7EA6, 0x3001, 0x8D54, 0x507F, 0x6216, 0x5176, 0x4ED6, 0x4E1A,
    0x52A1, 0x64CD, 0x4F5C, 0x5DF2, 0x5B8C, 0x6210, 0x3002]"

definition text_ticket :: jstring where
  "text_ticket = [0x5DF2, 0x521B, 0x5EFA, 0x5BA2, 0x670D, 0x5DE5, 0x5355, 0xFF0C, 0x5177, 0x4F53, 0x5904, 0x7406,
    0x7ED3, 0x679C, 0x9700, 0x7531, 0x4EBA, 0x5DE5, 0x786E, 0x8BA4, 0x3002]"

definition text_greeting :: jstring where
  "text_greeting = [0x60A8, 0x597D, 0xFF0C, 0x8BF7, 0x95EE, 0x6709, 0x4EC0, 0x4E48, 0x53EF, 0x4EE5, 0x5E2E, 0x60A8,
    0xFF1F]"

definition text_unverified :: jstring where
  "text_unverified = [0x62B1, 0x6B49, 0xFF0C, 0x5F53, 0x524D, 0x6CA1, 0x6709, 0x8DB3, 0x591F, 0x7684, 0x5DF2,
    0x9A8C, 0x8BC1, 0x4FE1, 0x606F, 0x53EF, 0x4EE5, 0x5B89, 0x5168, 0x7B54, 0x590D, 0xFF0C, 0x8BF7, 0x8054, 0x7CFB,
    0x4EBA, 0x5DE5, 0x5BA2, 0x670D, 0x3002]"

definition applyRealPolicy :: "support_result \<Rightarrow> policy_facts \<Rightarrow> support_result" where
  "applyRealPolicy r f =
     (if pf_failed f
      then respond r SAFE_FALLBACK Fallback_outcome
        (if pf_safety f \<noteq> None then text_failed_safety else text_failed)
      else if pf_safety f \<noteq> None
      then r\<lparr>sr_policyDecision := Some (if sr_type r = Fallback_outcome then SAFE_FALLBACK
          else if pf_safety f = Some Escalate then HUMAN else AUTO)\<rparr>
      else if pf_durableHandoff f then respond r HUMAN Escalation text_handoff
      else if pf_requiresEscalation f \<or> needsHuman (pf_requestText f)
      then respond r HUMAN Fallback_outcome text_human
      else if pf_durableTicket f then respond r WORKFLOW Answer text_ticket
      else if sr_type r = Answer \<and> length (sr_evidence r) > 0 then r\<lparr>sr_policyDecision := Some AUTO\<rparr>
      else if isGreeting (pf_requestText f) then respond r AUTO Answer text_greeting
      else respond r SAFE_FALLBACK Fallback_outcome text_unverified)"

lemma respond_simps [simp]:
  "sr_policyDecision (respond r d t x) = Some d" "sr_type (respond r d t x) = t"
  "sr_text (respond r d t x) = x" "sr_evidence (respond r d t x) = []"
  "sr_toolsCalled (respond r d t x) = sr_toolsCalled r"
  "sr_sessionEvents (respond r d t x) = sr_sessionEvents r"
  "sr_piSessionId (respond r d t x) = sr_piSessionId r"
  by (simp_all add: respond_def)

section \<open>Properties\<close>

text \<open>
  C6. The policy answers automatically only when nothing failed and either the safety decision
  supports the (non-fallback) result, or no human, ticket or escalation cue applies and the
  result is an answer grounded in evidence or the request is a greeting. A turn that failed
  becomes a fallback without evidence; and whatever the model wrote is sent unchanged only
  under a safety decision or as a grounded answer, every other text being a fixed one.
\<close>

theorem real_policy_auto_iff:
  "(sr_policyDecision (applyRealPolicy r f) = Some AUTO \<longleftrightarrow>
     \<not> pf_failed f \<and>
     (case pf_safety f of
        Some d \<Rightarrow> sr_type r \<noteq> Fallback_outcome \<and> d \<noteq> Escalate
      | None \<Rightarrow> \<not> pf_durableHandoff f \<and> \<not> pf_requiresEscalation f \<and> \<not> needsHuman (pf_requestText f) \<and>
          \<not> pf_durableTicket f \<and> ((sr_type r = Answer \<and> sr_evidence r \<noteq> []) \<or> isGreeting (pf_requestText f)))) \<and>
   (if pf_failed f then sr_policyDecision (applyRealPolicy r f) = Some SAFE_FALLBACK \<and>
      sr_type (applyRealPolicy r f) = Fallback_outcome \<and> sr_evidence (applyRealPolicy r f) = []
    else sr_policyDecision (applyRealPolicy r f) \<noteq> None) \<and>
   (if (\<not> pf_failed f \<and> pf_safety f \<noteq> None) \<or>
       (sr_policyDecision (applyRealPolicy r f) = Some AUTO \<and> sr_type r = Answer \<and> sr_evidence r \<noteq> [])
    then sr_text (applyRealPolicy r f) = sr_text r
    else sr_text (applyRealPolicy r f) \<in> {text_failed_safety, text_failed, text_handoff, text_human,
      text_ticket, text_greeting, text_unverified})"
  by (cases "pf_safety f") (simp_all add: applyRealPolicy_def)

end
