(* ===== verification/SupportStore.thy ===== *)
theory SupportStore
  imports RealPolicy JsonText
begin

text \<open>
  \<open>InMemorySupportStore\<close> of \<open>src/index.ts\<close> and the port \<open>SupportBusinessStore\<close>. The store keeps
  the session mappings, the tickets under the string \<open>tenantId:idempotencyKey\<close>, the reserved
  ticket and handoff keys and the handoffs. The business port is a record of operations over a
  state; an operation that throws may have changed the state. What the runtime relies on is
  the locale \<open>support_business_store\<close>.
\<close>

section \<open>Records\<close>

record support_ticket =
  tk_id :: jstring
  tk_tenantId :: jstring
  tk_storeId :: jstring
  tk_summary :: jstring
  tk_idempotencyKey :: jstring

record persistent_ticket = support_ticket +
  tk_conversationId :: jstring
  tk_createdAt :: int

record new_ticket =
  nt_tenantId :: jstring
  nt_storeId :: jstring
  nt_conversationId :: jstring
  nt_summary :: jstring
  nt_idempotencyKey :: jstring

record support_handoff =
  ho_id :: jstring
  ho_tenantId :: jstring
  ho_storeId :: jstring
  ho_conversationId :: jstring
  ho_reason :: jstring
  ho_createdAt :: int

record new_handoff =
  nh_tenantId :: jstring
  nh_storeId :: jstring
  nh_conversationId :: jstring
  nh_reason :: jstring

text \<open>A session manager of the agent package is known by the identifier of its session.\<close>

record stored_session =
  st_conversationId :: jstring
  st_tenantId :: jstring
  st_storeId :: jstring
  st_customerId :: jstring
  st_piSessionId :: jstring
  st_sessionFile :: "jstring option"
  st_agentProfileId :: "jstring option"
  st_agentProfileVersion :: "jstring option"
  st_agentProfileHash :: "jstring option"
  st_sessionManager :: "jstring option"

record support_store =
  ss_sessions :: "(jstring, stored_session) js_map"
  ss_tickets :: "(jstring, support_ticket) js_map"
  ss_ticketReservations :: "jstring list"
  ss_handoffReservations :: "jstring list"
  ss_handoffs :: "(jstring \<times> jstring) list"
  ss_ticketCreationAttempts :: nat

section \<open>Operations\<close>

definition newSupportStore :: "stored_session list \<Rightarrow> support_store" where
  "newSupportStore mappings =
     \<lparr>ss_sessions = foldl (\<lambda>m s. AList.update (st_conversationId s) s m) [] mappings,
      ss_tickets = [], ss_ticketReservations = [], ss_handoffReservations = [], ss_handoffs = [],
      ss_ticketCreationAttempts = 0\<rparr>"

definition getSession :: "support_store \<Rightarrow> jstring \<Rightarrow> stored_session option" where
  "getSession s c = map_get (ss_sessions s) c"

definition setSession :: "support_store \<Rightarrow> stored_session \<Rightarrow> support_store" where
  "setSession s x = s\<lparr>ss_sessions := AList.update (st_conversationId x) x (ss_sessions s)\<rparr>"

definition exportSessionMappings :: "support_store \<Rightarrow> stored_session list" where
  "exportSessionMappings s = map (\<lambda>x. x\<lparr>st_sessionManager := None\<rparr>) (map_values (ss_sessions s))"

definition ticket_key :: "jstring \<Rightarrow> jstring \<Rightarrow> jstring" where
  "ticket_key tenantId idempotencyKey = tenantId @ 58 # idempotencyKey"

definition findTicket :: "support_store \<Rightarrow> jstring \<Rightarrow> jstring \<Rightarrow> support_ticket option" where
  "findTicket s t k = map_get (ss_tickets s) (ticket_key t k)"

definition reserveTicket :: "support_store \<Rightarrow> jstring \<Rightarrow> jstring \<Rightarrow> support_store \<times> bool" where
  "reserveTicket s t k =
     (let key = ticket_key t k in
      if map_has (ss_tickets s) key \<or> key \<in> set (ss_ticketReservations s) then (s, False)
      else (s\<lparr>ss_ticketReservations := List.insert key (ss_ticketReservations s)\<rparr>, True))"

definition releaseTicketReservation :: "support_store \<Rightarrow> jstring \<Rightarrow> jstring \<Rightarrow> support_store" where
  "releaseTicketReservation s t k =
     s\<lparr>ss_ticketReservations := removeAll (ticket_key t k) (ss_ticketReservations s)\<rparr>"

definition createTicket :: "support_store \<Rightarrow> support_ticket \<Rightarrow> support_store \<times> support_ticket \<times> bool" where
  "createTicket s x =
     (let s = s\<lparr>ss_ticketCreationAttempts := ss_ticketCreationAttempts s + 1\<rparr>;
          key = ticket_key (tk_tenantId x) (tk_idempotencyKey x)
      in case map_get (ss_tickets s) key of
           Some existing \<Rightarrow> (s, existing, True)
         | None \<Rightarrow> (s\<lparr>ss_tickets := AList.update key x (ss_tickets s),
              ss_ticketReservations := removeAll key (ss_ticketReservations s)\<rparr>, x, False))"

definition createHandoff :: "support_store \<Rightarrow> jstring \<Rightarrow> jstring \<Rightarrow> support_store" where
  "createHandoff s conversationId reason =
     s\<lparr>ss_handoffs := ss_handoffs s @ [(conversationId, reason)],
       ss_handoffReservations := removeAll conversationId (ss_handoffReservations s)\<rparr>"

definition findHandoff :: "support_store \<Rightarrow> jstring \<Rightarrow> (jstring \<times> jstring) option" where
  "findHandoff s conversationId = List.find (\<lambda>h. fst h = conversationId) (ss_handoffs s)"

definition reserveHandoff :: "support_store \<Rightarrow> jstring \<Rightarrow> support_store \<times> bool" where
  "reserveHandoff s c =
     (if findHandoff s c \<noteq> None \<or> c \<in> set (ss_handoffReservations s) then (s, False)
      else (s\<lparr>ss_handoffReservations := List.insert c (ss_handoffReservations s)\<rparr>, True))"

definition releaseHandoffReservation :: "support_store \<Rightarrow> jstring \<Rightarrow> support_store" where
  "releaseHandoffReservation s c =
     s\<lparr>ss_handoffReservations := removeAll c (ss_handoffReservations s)\<rparr>"

definition getTickets :: "support_store \<Rightarrow> support_ticket list" where
  "getTickets s = map_values (ss_tickets s)"

definition getHandoffs :: "support_store \<Rightarrow> (jstring \<times> jstring) list" where
  "getHandoffs s = ss_handoffs s"

definition getTicketCreationAttempts :: "support_store \<Rightarrow> nat" where
  "getTicketCreationAttempts s = ss_ticketCreationAttempts s"

lemmas store_defs =
  getSession_def setSession_def findTicket_def reserveTicket_def releaseTicketReservation_def
  createTicket_def createHandoff_def findHandoff_def reserveHandoff_def releaseHandoffReservation_def

section \<open>Invariant\<close>

text \<open>
  A key is never both reserved and used, tickets sit under the key of their own tenant and
  idempotency key, sessions under their conversation.
\<close>

definition store_ok :: "support_store \<Rightarrow> bool" where
  "store_ok s \<longleftrightarrow>
     (\<forall>k t. map_get (ss_tickets s) k = Some t \<longrightarrow>
        k \<notin> set (ss_ticketReservations s) \<and> k = ticket_key (tk_tenantId t) (tk_idempotencyKey t)) \<and>
     (\<forall>c r. (c, r) \<in> set (ss_handoffs s) \<longrightarrow> c \<notin> set (ss_handoffReservations s)) \<and>
     (\<forall>c x. map_get (ss_sessions s) c = Some x \<longrightarrow> st_conversationId x = c)"

lemma findHandoff_None: "findHandoff s c = None \<longleftrightarrow> (\<forall>r. (c, r) \<notin> set (ss_handoffs s))"
proof -
  have "(\<exists>h \<in> set (ss_handoffs s). fst h = c) \<longleftrightarrow> (\<exists>r. (c, r) \<in> set (ss_handoffs s))" by force
  then show ?thesis unfolding findHandoff_def find_None_iff by blast
qed

lemma findHandoff_Some: "findHandoff s c = Some h \<Longrightarrow> fst h = c \<and> h \<in> set (ss_handoffs s)"
  unfolding findHandoff_def by (drule find_Some_iff') simp

lemma newSupportStore_ok: "store_ok (newSupportStore ms)"
proof -
  define P where "P m \<longleftrightarrow> (\<forall>c x. map_get m c = Some x \<longrightarrow> st_conversationId x = c)" for m :: "(jstring, stored_session) js_map"
  have step: "P m \<Longrightarrow> P (AList.update (st_conversationId s) s m)" for m s
    unfolding P_def by simp
  have "P m \<Longrightarrow> P (foldl (\<lambda>m s. AList.update (st_conversationId s) s m) m ms)" for m
    by (induction ms arbitrary: m) (simp_all add: step)
  moreover have "P []" by (simp add: P_def)
  ultimately have "P (ss_sessions (newSupportStore ms))" by (simp add: newSupportStore_def)
  moreover have "ss_tickets (newSupportStore ms) = []" "ss_handoffs (newSupportStore ms) = []"
    by (simp_all add: newSupportStore_def)
  ultimately show ?thesis unfolding store_ok_def P_def [symmetric] by simp
qed

lemma store_ok_setSession: "store_ok s \<Longrightarrow> store_ok (setSession s x)"
  by (auto simp: store_ok_def setSession_def)

lemma store_ok_reserveTicket: "store_ok s \<Longrightarrow> store_ok (fst (reserveTicket s t k))"
  by (auto simp: store_ok_def reserveTicket_def Let_def map_has_def)

lemma store_ok_releaseTicketReservation: "store_ok s \<Longrightarrow> store_ok (releaseTicketReservation s t k)"
  by (auto simp: store_ok_def releaseTicketReservation_def)

lemma store_ok_createTicket: "store_ok s \<Longrightarrow> store_ok (fst (createTicket s x))"
  by (auto simp: store_ok_def createTicket_def Let_def split: option.splits)

lemma store_ok_createHandoff: "store_ok s \<Longrightarrow> store_ok (createHandoff s c r)"
  by (auto simp: store_ok_def createHandoff_def)

lemma store_ok_reserveHandoff: "store_ok s \<Longrightarrow> store_ok (fst (reserveHandoff s c))"
  by (auto simp: store_ok_def reserveHandoff_def findHandoff_None)

lemma store_ok_releaseHandoffReservation: "store_ok s \<Longrightarrow> store_ok (releaseHandoffReservation s c)"
  by (auto simp: store_ok_def releaseHandoffReservation_def)

lemmas store_ok_intros =
  store_ok_setSession store_ok_reserveTicket store_ok_releaseTicketReservation store_ok_createTicket
  store_ok_createHandoff store_ok_reserveHandoff store_ok_releaseHandoffReservation

lemma ticket_key_inj:
  "58 \<notin> set t \<Longrightarrow> 58 \<notin> set t' \<Longrightarrow> ticket_key t k = ticket_key t' k' \<longleftrightarrow> t = t' \<and> k = k'"
proof (induction t arbitrary: t')
  case Nil
  then show ?case by (cases t') (auto simp: ticket_key_def)
next
  case (Cons a t)
  then show ?case by (cases t') (auto simp: ticket_key_def)
qed

section \<open>The business port\<close>

record 'b business_ops =
  bo_findTicket :: "'b \<Rightarrow> jstring \<Rightarrow> jstring \<Rightarrow> (error, persistent_ticket option) result"
  bo_createTicket :: "'b \<Rightarrow> new_ticket \<Rightarrow> 'b \<times> (error, persistent_ticket \<times> bool) result"
  bo_findHandoff :: "'b \<Rightarrow> jstring \<Rightarrow> jstring \<Rightarrow> jstring \<Rightarrow> (error, support_handoff option) result"
  bo_createHandoff :: "'b \<Rightarrow> new_handoff \<Rightarrow> 'b \<times> (error, support_handoff \<times> bool) result"
  bo_recordAudit :: "'b \<Rightarrow> jstring \<Rightarrow> jstring \<Rightarrow> jstring \<Rightarrow> json \<Rightarrow> 'b \<times> (error, unit) result"

text \<open>
  What the runtime relies on: a ticket is returned under the tenant and key it was asked for, it
  is stored under them, and asking again returns the same ticket as a duplicate; handoffs
  likewise, one per conversation of a store.
\<close>

locale support_business_store =
  fixes bops :: "'b business_ops" and binv :: "'b \<Rightarrow> bool"
  assumes ticket_created: "binv b \<Longrightarrow> bo_createTicket bops b n = (b', Inr (t, dup)) \<Longrightarrow>
      binv b' \<and> tk_tenantId t = nt_tenantId n \<and> tk_idempotencyKey t = nt_idempotencyKey n \<and>
      bo_findTicket bops b' (nt_tenantId n) (nt_idempotencyKey n) = Inr (Some t)"
    and ticket_fresh: "binv b \<Longrightarrow> bo_createTicket bops b n = (b', Inr (t, False)) \<Longrightarrow>
      bo_findTicket bops b (nt_tenantId n) (nt_idempotencyKey n) = Inr None"
    and ticket_duplicate: "binv b \<Longrightarrow> bo_findTicket bops b (nt_tenantId n) (nt_idempotencyKey n) = Inr (Some t) \<Longrightarrow>
      nt_storeId n = tk_storeId t \<Longrightarrow> nt_conversationId n = tk_conversationId t \<Longrightarrow>
      bo_createTicket bops b n = (b, Inr (t, True))"
    and handoff_created: "binv b \<Longrightarrow> bo_createHandoff bops b m = (b', Inr (h, dup')) \<Longrightarrow>
      binv b' \<and> ho_tenantId h = nh_tenantId m \<and> ho_storeId h = nh_storeId m \<and>
      ho_conversationId h = nh_conversationId m \<and>
      bo_findHandoff bops b' (nh_tenantId m) (nh_storeId m) (nh_conversationId m) = Inr (Some h)"
begin

lemma ticket_idempotent:
  assumes "binv b" and "bo_createTicket bops b n = (b', Inr (t, False))"
    and "tk_storeId t = nt_storeId n" and "tk_conversationId t = nt_conversationId n"
  shows "bo_createTicket bops b' n = (b', Inr (t, True))"
  using ticket_created [OF assms(1,2)] ticket_duplicate [of b' n t] assms(3,4) by simp

end

section \<open>Properties\<close>

text \<open>
  Ticket keys are exclusive: a reservation succeeds exactly when the key of the tenant is
  neither used nor reserved, it then blocks every further reservation of the key until it is
  released, and a ticket once created under the key blocks it for good, whatever is released,
  and is returned as a duplicate to every later creation.
\<close>

theorem ticket_reservation_exclusive:
  assumes "store_ok s" and "tk_tenantId x = t" and "tk_idempotencyKey x = k"
    and "tk_tenantId y = t" and "tk_idempotencyKey y = k"
  shows "(snd (reserveTicket s t k) \<longleftrightarrow>
      findTicket s t k = None \<and> ticket_key t k \<notin> set (ss_ticketReservations s)) \<and>
    \<not> snd (reserveTicket (fst (reserveTicket s t k)) t k) \<and>
    (snd (reserveTicket (releaseTicketReservation s t k) t k) \<longleftrightarrow> findTicket s t k = None) \<and>
    \<not> snd (reserveTicket (releaseTicketReservation (fst (createTicket s x)) t k) t k) \<and>
    snd (createTicket (fst (createTicket s x)) y) = (the (findTicket (fst (createTicket s x)) t k), True)"
  using assms
  by (auto simp: reserveTicket_def releaseTicketReservation_def createTicket_def findTicket_def
      Let_def map_has_def split: option.splits)

theorem ticket_reservation_exclusive_witness:
  "\<not> snd (reserveTicket (fst (reserveTicket (newSupportStore []) (js ''t'') (js ''k''))) (js ''t'') (js ''k''))"
  using ticket_reservation_exclusive
    [OF newSupportStore_ok, of "\<lparr>tk_id = js ''1'', tk_tenantId = js ''t'', tk_storeId = [], tk_summary = [],
       tk_idempotencyKey = js ''k''\<rparr>" "js ''t''" "js ''k''"
      "\<lparr>tk_id = js ''2'', tk_tenantId = js ''t'', tk_storeId = [], tk_summary = [],
       tk_idempotencyKey = js ''k''\<rparr>" "[]"]
  by simp

text \<open>
  The key of the in-memory store joins tenant and key with a colon, so it separates tenants only
  where their identifiers hold no colon: tenant \<open>a:b\<close> with key \<open>c\<close> blocks tenant \<open>a\<close> with key
  \<open>b:c\<close>.
\<close>

lemma ticket_key_collision: "ticket_key (js ''a:b'') (js ''c'') = ticket_key (js ''a'') (js ''b:c'')"
  by (simp add: ticket_key_def js_simps)

end
