(* ===== verification/Runtime.thy ===== *)
theory Runtime
  imports SupportStore AgentProfile
begin

text \<open>
  \<open>SupportAgentRuntime\<close> of \<open>src/index.ts\<close>: one turn of a support conversation. The local variables
  of \<open>run\<close> and of its callbacks are the record \<open>turn\<close>; what runs between two suspension
  points (\<open>await\<close>) is one step, and \<open>turn_step\<close> takes an event of the environment (the timer, the
  agent package, the retrieval service, the business store) to the next state, or to \<open>None\<close> where
  the agent package never produces the event: it runs a tool call only after \<open>beforeToolCall\<close>
  allowed it. \<open>conclude\<close> is the part of \<open>run\<close> after the agent up to its next await: the answer of the business store
  to the handoff of a safety escalation, or to the audit record that \<open>finish\<close> stores; the phase of the turn says
  which of them is awaited, and events of tool calls that are still under way may come in between and after.

  An abort signal of the turn is raised by \<open>expireTurn\<close> only, so it is raised exactly when
  \<open>tn_timedOut\<close> holds. Evidence objects live outside the turn and may change while it runs
  (\<open>Ev_heap\<close>): \<open>tn_groundingSources\<close> refers to them, \<open>structuredClone\<close> copies their values, and
  comparing the \<open>JSON.stringify\<close> of both is comparing the records.
\<close>

section \<open>Configuration and request checks\<close>

record faq_entry =
  fq_id :: jstring
  fq_question :: jstring
  fq_answer :: jstring
  fq_status :: jstring
  fq_version :: jstring
  fq_sourceRef :: jstring
  fq_tenantScope :: "jstring option"
  fq_storeScope :: "jstring option"

record 'b runtime_options =
  op_realPolicy :: bool
  op_fallbackModel :: bool
  op_business :: "'b business_ops option"
  op_faq :: "faq_entry list"
  op_allowSynthetic :: bool
  op_maxAgentTurns :: nat
  op_maxToolCalls :: nat
  op_overallTurnTimeoutMs :: int
  op_profile :: resolved_profile

definition default_limits :: "'b runtime_options \<Rightarrow> 'b runtime_options" where
  "default_limits o' = o'\<lparr>op_maxAgentTurns := 4, op_maxToolCalls := 6, op_overallTurnTimeoutMs := 10000\<rparr>"

text \<open>The request is the typed record, so only the emptiness checks can fail.\<close>

definition validateRequest :: "support_request \<Rightarrow> (error, unit) result" where
  "validateRequest r =
     (case List.find (\<lambda>(name, v). blank v)
        [(''conversationId'', rq_conversationId r), (''tenantId'', rq_tenantId r),
         (''storeId'', rq_storeId r), (''customerId'', rq_customerId r), (''text'', rq_text r)] of
        Some (name, _) \<Rightarrow> Inl (''Support request '' @ name @ '' is required.'')
      | None \<Rightarrow> Inr ())"

definition hasPermission :: "support_request \<Rightarrow> string \<Rightarrow> bool" where
  "hasPermission r p = (case rq_permissions r of None \<Rightarrow> False | Some ps \<Rightarrow> js p \<in> set ps)"

definition hasUnsafeSideEffectPromise :: "jstring \<Rightarrow> bool" where
  "hasUnsafeSideEffectPromise text = re_test
     (Alt [Lit [0x5DF2, 0x9000, 0x6B3E], Lit [0x5DF2, 0x53D6, 0x6D88], Lit [0x5DF2, 0x4FEE, 0x6539], Lit [0x5DF2,
       0x5B8C, 0x6210, 0x9000, 0x6B3E], Seq [Lit [0x9000, 0x6B3E], Gap None, Lit [0x5DF2, 0x5B8C, 0x6210]]]) text"

definition hasSupportFactualClaim :: "jstring \<Rightarrow> bool" where
  "hasSupportFactualClaim text = re_test
     (lits [[0x8425, 0x4E1A], [0x9000, 0x6B3E], [0x9884, 0x7EA6], [0x8BA2, 0x5355], [0x4EF7, 0x683C], [0x8D39,
       0x7528], [0x5DE5, 0x4F5C, 0x65E5], [0x5C0F, 0x65F6], [0x653F, 0x7B56], [0x89C4, 0x5219]]) text"

definition textFromMessage :: "message option \<Rightarrow> jstring" where
  "textFromMessage m = (case m of None \<Rightarrow> [] | Some x \<Rightarrow> trim (join [10] (msg_texts x)))"

definition faq_evidence :: "faq_entry \<Rightarrow> evidence" where
  "faq_evidence f =
     \<lparr>ev_id = fq_id f, ev_text = fq_answer f, ev_safety = None,
      ev_knowledge = Some \<lparr>km_kind = js ''faq'', km_status = fq_status f, km_version = fq_version f,
        km_sourceRef = fq_sourceRef f,
        km_tenantScope = (if truthy (fq_tenantScope f) then fq_tenantScope f else None),
        km_storeScope = (if truthy (fq_storeScope f) then fq_storeScope f else None)\<rparr>,
      ev_relevance = None\<rparr>"

definition request_context :: "support_request \<Rightarrow> retrieval_context" where
  "request_context r = \<lparr>rc_tenantId = rq_tenantId r, rc_storeId = rq_storeId r\<rparr>"

definition admits :: "'b runtime_options \<Rightarrow> support_request \<Rightarrow> evidence \<Rightarrow> bool" where
  "admits opts r e = isAdmissibleKnowledgeEvidence (ev_knowledge e) (Some (request_context r)) (op_allowSynthetic opts)"

definition findAdmittedFaq :: "'b runtime_options \<Rightarrow> support_request \<Rightarrow> jstring \<Rightarrow> evidence option" where
  "findAdmittedFaq opts r query =
     List.find (admits opts r)
      (map faq_evidence (filter (\<lambda>f. contains query (fq_question f) \<or> contains (fq_question f) query) (op_faq opts)))"

text \<open>
  \<open>getOrCreateSession\<close>: \<open>opened\<close> is the identifier of the session that opening the file gives,
  \<open>created\<close> the identifier and file of a new session manager, \<open>directory\<close> whether a session
  directory is configured.
\<close>

definition session_of :: "'b runtime_options \<Rightarrow> support_request \<Rightarrow> jstring \<Rightarrow> jstring option \<Rightarrow> stored_session" where
  "session_of opts r sid file =
     \<lparr>st_conversationId = rq_conversationId r, st_tenantId = rq_tenantId r, st_storeId = rq_storeId r,
      st_customerId = rq_customerId r, st_piSessionId = sid, st_sessionFile = file,
      st_agentProfileId = Some (prof_id (op_profile opts)),
      st_agentProfileVersion = Some (prof_version (op_profile opts)),
      st_agentProfileHash = Some (prof_hash (op_profile opts)), st_sessionManager = Some sid\<rparr>"

definition getOrCreateSession ::
  "'b runtime_options \<Rightarrow> bool \<Rightarrow> support_request \<Rightarrow> jstring \<Rightarrow> jstring \<times> jstring option \<Rightarrow> support_store \<Rightarrow>
     (error, support_store \<times> jstring) result" where
  "getOrCreateSession opts directory r opened created s =
     (case getSession s (rq_conversationId r) of
        Some x \<Rightarrow>
          if st_tenantId x \<noteq> rq_tenantId r \<or> st_storeId x \<noteq> rq_storeId r \<or> st_customerId x \<noteq> rq_customerId r
          then Inl ''Conversation identity does not match the existing support session.''
          else if st_agentProfileId x \<noteq> Some (prof_id (op_profile opts)) \<or>
            st_agentProfileVersion x \<noteq> Some (prof_version (op_profile opts)) \<or>
            st_agentProfileHash x \<noteq> Some (prof_hash (op_profile opts))
          then Inl ''Active agent profile does not match the existing support session.''
          else (case st_sessionManager x of
              Some m \<Rightarrow> Inr (s, m)
            | None \<Rightarrow>
                if \<not> truthy (st_sessionFile x) \<or> \<not> directory
                then Inl ''Persistent support session mapping cannot be restored without a session directory.''
                else if opened \<noteq> st_piSessionId x
                then Inl ''Persistent support session mapping does not match the Pi session file.''
                else Inr (setSession s (x\<lparr>st_sessionManager := Some opened\<rparr>), opened))
      | None \<Rightarrow> Inr (setSession s (session_of opts r (fst created) (snd created)), fst created))"

text \<open>The system prompt: \<open>skills\<close> are the loaded skills with their file contents.\<close>

definition DEFAULT_RUNTIME_PROMPT :: jstring where
  "DEFAULT_RUNTIME_PROMPT = js ''You are a customer-support agent. Use only the provided support tools.''"

definition matchingSkills :: "jstring \<Rightarrow> jstring list" where
  "matchingSkills text = (let t = to_lower text in
     (if contains [0x9884, 0x7EA6] t then [js ''appointment''] else []) @
     (if contains [0x6295, 0x8BC9] t then [js ''complaint''] else []) @
     (if contains [0x9000, 0x6B3E] t then [js ''refund''] else []) @
     (if contains [0x4EBA, 0x5DE5] t \<or> contains [0x5347, 0x7EA7] t then [js ''escalation''] else []) @
     (if contains [0x4F60, 0x597D] t \<or> contains [0x60A8, 0x597D] t then [js ''greeting''] else []) @
     (if detectSafetyRisk text \<noteq> None then [js ''safety-escalation''] else []))"

definition buildSystemPrompt ::
  "resolved_profile \<Rightarrow> ((jstring \<times> jstring) list \<Rightarrow> jstring) \<Rightarrow> (jstring \<times> jstring) list \<Rightarrow> jstring \<Rightarrow>
     (error, jstring) result" where
  "buildSystemPrompt p formatSkills skills text =
     (if list_ex (\<lambda>k. k \<notin> fst ` set skills) (prof_allowedSkills p)
      then Inl ''Agent profile references unavailable Skills.''
      else (let mine = filter (\<lambda>k. fst k \<in> set (prof_allowedSkills p)) skills;
                instructions = map snd (filter (\<lambda>k. fst k \<in> set (matchingSkills text)) mine);
                intro = (if prof_identityPrompt p = js ''You are a customer-support agent.'' \<and>
                     prof_workPolicy p = js ''Use only the provided support tools.''
                   then DEFAULT_RUNTIME_PROMPT
                   else join [10, 10] [DEFAULT_RUNTIME_PROMPT, prof_identityPrompt p, prof_workPolicy p])
            in Inr (join [10, 10] (filter (\<lambda>x. length x > 0) (intro # formatSkills mine # instructions)))))"

section \<open>The state of a turn\<close>

datatype source = Shared nat | Private evidence

datatype check_origin = Policy_check | Pi_check

datatype check_status = Pending | Completed | Failed

record knowledge_check =
  kc_origin :: check_origin
  kc_query :: jstring
  kc_status :: check_status

datatype routing_decision = NO_CANDIDATE | SINGLE_CANDIDATE | AMBIGUOUS_MULTIPLE_CANDIDATES

record routing_audit =
  ra_admittedCandidateCount :: nat
  ra_candidateEvidenceIds :: "jstring list"
  ra_decision :: routing_decision
  ra_eligibleEvidenceIds :: "jstring list"

record knowledge_snapshot =
  sn_sources :: "source list"
  sn_evidence :: "evidence list"
  sn_routing :: routing_audit

datatype tool_call =
    Call_search_faq jstring
  | Call_search_knowledge jstring
  | Call_create_ticket jstring jstring
  | Call_handoff jstring

text \<open>
  Where \<open>run\<close> is: it serves the agent; it awaits the handoff of a safety escalation (what it needs afterwards, and the
  answer to come: \<open>None\<close> when the call will reject, \<open>Some None\<close> when there is no business store); it awaits the
  audit record; it has returned or rejected.
\<close>

record finish_info =
  fi_requestId :: jstring
  fi_now :: int
  fi_piSessionId :: jstring
  fi_sessionFile :: "jstring option"

datatype turn_phase =
    Serving
  | Awaiting_handoff finish_info "message option" safety_decision "support_handoff option option"
  | Awaiting_audit support_result json
  | Run_returned support_result
  | Run_rejected error

record 'b turn =
  tn_phase :: turn_phase
  tn_request :: support_request
  tn_store :: support_store
  tn_business :: 'b
  tn_heap :: "nat \<Rightarrow> evidence"
  tn_startedAt :: int
  tn_turns :: nat
  tn_toolCalls :: nat
  tn_timedOut :: bool
  tn_limitReached :: bool
  tn_escalationRequested :: bool
  tn_toolFailed :: bool
  tn_noKnowledgeEvidence :: bool
  tn_piFaqMiss :: bool
  tn_verifiedKnowledgeEvidence :: bool
  tn_groundingQuery :: "jstring option"
  tn_groundingEvidence :: "evidence list"
  tn_groundingSources :: "source list"
  tn_knowledgeRouting :: "routing_audit option"
  tn_activeTools :: int
  tn_overallExpiresAt :: int
  tn_evidenceSettledAt :: "int option"
  tn_deadlineEvidenceEligible :: bool
  tn_sealed :: bool
  tn_promptStarted :: bool
  tn_knowledgeChecks :: "knowledge_check list"
  tn_safetyEvidence :: "safety_evidence list"
  tn_safetyRetrievalQuery :: "jstring option"
  tn_reservedTicketKeys :: "jstring list"
  tn_reservedHandoff :: bool
  tn_toolsCalled :: "jstring list"
  tn_sessionEvents :: "agent_event list"
  tn_completedChecks :: "(jstring, knowledge_snapshot) js_map"
  tn_messages :: "message list"
  tn_customEntries :: "json list"
  tn_awaiting :: "tool_call list"
  tn_granted :: "tool_call list"
  tn_ticketsSettling :: "persistent_ticket list"
  tn_handoffsSettling :: "support_handoff list"

text \<open>
  The last four fields say what is under way: tool calls in \<open>beforeToolCall\<close> at its query of the
  business store, tool calls that were allowed and not run yet, and tickets and handoffs the
  business store has written while the runtime has not seen its answer.
\<close>

definition safetyRisk :: "'b turn \<Rightarrow> risk_category option" where
  "safetyRisk t = detectSafetyRisk (rq_text (tn_request t))"

definition tenant :: "'b turn \<Rightarrow> jstring" where
  "tenant t = rq_tenantId (tn_request t)"

definition conversation :: "'b turn \<Rightarrow> jstring" where
  "conversation t = rq_conversationId (tn_request t)"

fun deref :: "(nat \<Rightarrow> evidence) \<Rightarrow> source \<Rightarrow> evidence" where
  "deref h (Shared n) = h n"
| "deref h (Private e) = e"

definition values_of :: "'b turn \<Rightarrow> source list \<Rightarrow> evidence list" where
  "values_of t ss = map (deref (tn_heap t)) ss"

definition snapshotStillCurrent :: "'b turn \<Rightarrow> bool" where
  "snapshotStillCurrent t \<longleftrightarrow> length (tn_groundingEvidence t) = 1 \<and>
     values_of t (tn_groundingSources t) = tn_groundingEvidence t"

definition expireTurn :: "'b turn \<Rightarrow> 'b turn" where
  "expireTurn t =
     (if tn_timedOut t \<or> tn_sealed t then t
      else t\<lparr>tn_deadlineEvidenceEligible :=
           safetyRisk t = None \<and> tn_verifiedKnowledgeEvidence t \<and>
           (case tn_evidenceSettledAt t of None \<Rightarrow> False | Some a \<Rightarrow> a < tn_overallExpiresAt t) \<and>
           snapshotStillCurrent t \<and>
           map_option ra_decision (tn_knowledgeRouting t) = Some SINGLE_CANDIDATE \<and>
           tn_activeTools t = 0 \<and> \<not> tn_toolFailed t \<and> \<not> tn_limitReached t \<and>
           \<not> tn_escalationRequested t \<and> rq_requiresEscalation (tn_request t) \<noteq> Some True \<and>
           tn_reservedTicketKeys t = [] \<and> \<not> tn_reservedHandoff t,
         tn_timedOut := True\<rparr>)"

definition checkDeadline :: "int \<Rightarrow> 'b turn \<Rightarrow> 'b turn" where
  "checkDeadline now t = (if now \<ge> tn_overallExpiresAt t then expireTurn t else t)"

section \<open>Callbacks of the tools\<close>

definition onEscalate :: "'b turn \<Rightarrow> 'b turn" where
  "onEscalate t = (if tn_timedOut t \<or> tn_sealed t then t else t\<lparr>tn_escalationRequested := True\<rparr>)"

definition onNoKnowledgeEvidence :: "'b turn \<Rightarrow> 'b turn" where
  "onNoKnowledgeEvidence t = t\<lparr>tn_noKnowledgeEvidence := True, tn_piFaqMiss := True\<rparr>"

definition ground :: "jstring \<Rightarrow> source list \<Rightarrow> evidence list \<Rightarrow> routing_audit option \<Rightarrow> 'b turn \<Rightarrow> 'b turn" where
  "ground query sources evidence routing t =
     t\<lparr>tn_groundingQuery := Some query, tn_groundingSources := sources, tn_groundingEvidence := evidence,
       tn_knowledgeRouting := routing\<rparr>"

definition onKnowledgeEvidence :: "'b runtime_options \<Rightarrow> jstring \<Rightarrow> source list \<Rightarrow> 'b turn \<Rightarrow> 'b turn" where
  "onKnowledgeEvidence opts query sources t =
     (let admitted = filter (\<lambda>s. admits opts (tn_request t) (deref (tn_heap t) s)) sources;
          t = (ground query admitted (values_of t admitted) None t)\<lparr>tn_evidenceSettledAt := None,
            tn_verifiedKnowledgeEvidence := (length admitted > 0)\<rparr>
      in if tn_verifiedKnowledgeEvidence t then t else t\<lparr>tn_noKnowledgeEvidence := True\<rparr>)"

definition onOrdinaryKnowledgeRouting ::
  "int \<Rightarrow> jstring \<Rightarrow> source list \<Rightarrow> routing_audit \<Rightarrow> 'b turn \<Rightarrow> 'b turn" where
  "onOrdinaryKnowledgeRouting now query sources routing t =
     (let t = (ground query sources (values_of t sources) (Some routing) t)\<lparr>tn_evidenceSettledAt := Some now,
            tn_verifiedKnowledgeEvidence := (length sources = 1)\<rparr>
      in if tn_verifiedKnowledgeEvidence t then t else t\<lparr>tn_noKnowledgeEvidence := True\<rparr>)"

definition onSafetyEvidence :: "jstring \<Rightarrow> evidence list \<Rightarrow> 'b turn \<Rightarrow> 'b turn" where
  "onSafetyEvidence query es t =
     t\<lparr>tn_safetyRetrievalQuery := Some query, tn_safetyEvidence := List.map_filter ev_safety es\<rparr>"

definition route :: "evidence list \<Rightarrow> routing_audit" where
  "route admitted =
     \<lparr>ra_admittedCandidateCount = length admitted, ra_candidateEvidenceIds = map ev_id admitted,
      ra_decision = (if length admitted = 0 then NO_CANDIDATE else if length admitted = 1 then SINGLE_CANDIDATE
        else AMBIGUOUS_MULTIPLE_CANDIDATES),
      ra_eligibleEvidenceIds = (if length admitted = 1 then map ev_id admitted else [])\<rparr>"

text \<open>\<open>search_faq\<close>, and \<open>search_knowledge\<close> once the retrieval service has answered with \<open>found\<close>.\<close>

definition searchFaq :: "'b runtime_options \<Rightarrow> jstring \<Rightarrow> 'b turn \<Rightarrow> 'b turn" where
  "searchFaq opts query t =
     (if tn_timedOut t then t
      else case findAdmittedFaq opts (tn_request t) query of
          Some e \<Rightarrow> onKnowledgeEvidence opts query [Private e] t
        | None \<Rightarrow> onNoKnowledgeEvidence t)"

definition searchKnowledge :: "'b runtime_options \<Rightarrow> int \<Rightarrow> jstring \<Rightarrow> nat list \<Rightarrow> 'b turn \<Rightarrow> 'b turn" where
  "searchKnowledge opts now query found t =
     (let t = onSafetyEvidence query (map (tn_heap t) found) t;
          admitted = filter (\<lambda>n. admits opts (tn_request t) (tn_heap t n)) found;
          authorized = (if length admitted = 1 then map Shared admitted else [])
      in onOrdinaryKnowledgeRouting now query authorized (route (map (tn_heap t) admitted)) t)"

section \<open>Knowledge checks\<close>

datatype 'b check_start = Refused "'b turn" | Cached "'b turn" | Started "'b turn"

fun started_turn :: "'b check_start \<Rightarrow> 'b turn" where
  "started_turn (Refused t) = t"
| "started_turn (Cached t) = t"
| "started_turn (Started t) = t"

definition beginKnowledge :: "int \<Rightarrow> check_origin \<Rightarrow> jstring \<Rightarrow> 'b turn \<Rightarrow> 'b check_start" where
  "beginKnowledge now origin query t =
     (let t = checkDeadline now t in
      if tn_timedOut t \<or> tn_sealed t then Refused t
      else case map_get (tn_completedChecks t) query of
          Some c \<Rightarrow>
            if values_of t (sn_sources c) \<noteq> sn_evidence c then Refused t
            else (let verified = (length (sn_evidence c) = 1) in
              Cached ((ground query (sn_sources c) (sn_evidence c) (Some (sn_routing c)) t)
                \<lparr>tn_verifiedKnowledgeEvidence := verified, tn_noKnowledgeEvidence := \<not> verified\<rparr>))
        | None \<Rightarrow> Started (t\<lparr>tn_knowledgeChecks := tn_knowledgeChecks t @
             [\<lparr>kc_origin = origin, kc_query = query, kc_status = Pending\<rparr>]\<rparr>))"

definition set_status :: "nat \<Rightarrow> check_status \<Rightarrow> 'b turn \<Rightarrow> 'b turn" where
  "set_status i st t = t\<lparr>tn_knowledgeChecks := (tn_knowledgeChecks t)
     [i := (tn_knowledgeChecks t ! i)\<lparr>kc_status := st\<rparr>]\<rparr>"

text \<open>
  The rest of \<open>executeKnowledge\<close> for check \<open>i\<close> of query \<open>query\<close>: \<open>found\<close> is what the retrieval
  service gave, \<open>None\<close> when it failed or the tool timed out. The flag says whether the check
  returned (rather than threw).
\<close>

definition settleKnowledge ::
  "'b runtime_options \<Rightarrow> nat \<Rightarrow> jstring \<Rightarrow> nat list option \<Rightarrow> int \<Rightarrow> 'b turn \<Rightarrow> 'b turn \<times> bool" where
  "settleKnowledge opts i query found now t =
     (let failed = (\<lambda>t. (if tn_sealed t then t else set_status i Failed t, False)) in
      case found of
        None \<Rightarrow> failed t
      | Some refs \<Rightarrow>
          if tn_timedOut t then failed t
          else (let t = checkDeadline now (searchKnowledge opts now query refs t) in
            if tn_timedOut t \<or> tn_sealed t then failed t
            else (let t = set_status i Completed t in
              (if safetyRisk t = None
               then t\<lparr>tn_completedChecks := AList.update query
                   \<lparr>sn_sources = tn_groundingSources t, sn_evidence = tn_groundingEvidence t,
                    sn_routing = the (tn_knowledgeRouting t)\<rparr> (tn_completedChecks t)\<rparr>
               else t, True))))"

text \<open>The policy's own check before the agent is prompted, and its end.\<close>

definition failTool :: "'b turn \<Rightarrow> 'b turn" where
  "failTool t = (if tn_sealed t then t else t\<lparr>tn_toolFailed := True\<rparr>)"

definition policyCheck :: "'b runtime_options \<Rightarrow> int \<Rightarrow> 'b turn \<Rightarrow> 'b turn" where
  "policyCheck opts now t =
     (let query = rq_text (tn_request t) in
      if safetyRisk t \<noteq> None \<or> findAdmittedFaq opts (tn_request t) query \<noteq> None then t
      else (let t = t\<lparr>tn_toolCalls := tn_toolCalls t + 1\<rparr> in
        if tn_toolCalls t > op_maxToolCalls opts then t\<lparr>tn_limitReached := True\<rparr>
        else (let t = t\<lparr>tn_toolsCalled := tn_toolsCalled t @ [js ''search_knowledge''],
                tn_activeTools := tn_activeTools t + 1\<rparr> in
          case beginKnowledge now Policy_check query t of
            Refused t \<Rightarrow> (failTool t)\<lparr>tn_activeTools := tn_activeTools t - 1\<rparr>
          | Cached t \<Rightarrow> t\<lparr>tn_activeTools := tn_activeTools t - 1\<rparr>
          | Started t \<Rightarrow> t)))"

definition policySettle :: "'b runtime_options \<Rightarrow> nat \<Rightarrow> jstring \<Rightarrow> nat list option \<Rightarrow> int \<Rightarrow> 'b turn \<Rightarrow> 'b turn" where
  "policySettle opts i query found now t =
     (case settleKnowledge opts i query found now t of (t, ok) \<Rightarrow>
        (if ok then t else failTool t)\<lparr>tn_activeTools := tn_activeTools t - 1\<rparr>)"

section \<open>Tool calls of the agent\<close>

text \<open>
  \<open>beforeToolCall\<close> up to its query of the business store: the turn and, unless the call is
  blocked, the place where it goes on (\<open>Some True\<close>: the query is awaited, \<open>Some False\<close>: allowed).
\<close>

definition is_cached_check :: "tool_call \<Rightarrow> 'b turn \<Rightarrow> bool" where
  "is_cached_check call t =
     (case call of Call_search_knowledge q \<Rightarrow> map_has (tn_completedChecks t) q | _ \<Rightarrow> False)"

definition beforeToolCall ::
  "'b runtime_options \<Rightarrow> int \<Rightarrow> tool_call \<Rightarrow> 'b turn \<Rightarrow> 'b turn \<times> bool option" where
  "beforeToolCall opts now call t =
     (let t = checkDeadline now t in
      if tn_timedOut t \<or> tn_sealed t then (t, None)
      else (let t = (if is_cached_check call t then t else t\<lparr>tn_toolCalls := tn_toolCalls t + 1\<rparr>) in
        if tn_toolCalls t > op_maxToolCalls opts then (t\<lparr>tn_limitReached := True\<rparr>, None)
        else case call of
            Call_create_ticket _ _ \<Rightarrow>
              if \<not> hasPermission (tn_request t) ''tickets:write'' then (t, None) else (t, Some True)
          | Call_handoff _ \<Rightarrow>
              if rq_mayEscalate (tn_request t) \<noteq> Some True \<or> \<not> hasPermission (tn_request t) ''handoff:write''
              then (t, None) else (t, Some True)
          | _ \<Rightarrow> (t, Some False)))"

text \<open>
  The rest of \<open>beforeToolCall\<close>: a record found in the business store, or a reservation that is
  taken, blocks the call. A query that fails rejects the hook, and the call does not run.
\<close>

definition reserveCall :: "'b runtime_options \<Rightarrow> tool_call \<Rightarrow> 'b turn \<Rightarrow> 'b turn \<times> bool" where
  "reserveCall opts call t =
     (case call of
        Call_create_ticket _ key \<Rightarrow>
          (case (case op_business opts of None \<Rightarrow> Inr None
                 | Some ops \<Rightarrow> bo_findTicket ops (tn_business t) (tenant t) key) of
             Inr None \<Rightarrow>
               (case reserveTicket (tn_store t) (tenant t) key of
                  (s, False) \<Rightarrow> (t, False)
                | (s, True) \<Rightarrow> (t\<lparr>tn_store := s,
                    tn_reservedTicketKeys := List.insert key (tn_reservedTicketKeys t)\<rparr>, True))
           | _ \<Rightarrow> (t, False))
      | Call_handoff _ \<Rightarrow>
          (case (case op_business opts of None \<Rightarrow> Inr None
                 | Some ops \<Rightarrow> bo_findHandoff ops (tn_business t) (tenant t) (rq_storeId (tn_request t)) (conversation t)) of
             Inr None \<Rightarrow>
               (case reserveHandoff (tn_store t) (conversation t) of
                  (s, False) \<Rightarrow> (t, False)
                | (s, True) \<Rightarrow> (t\<lparr>tn_store := s, tn_reservedHandoff := True\<rparr>, True))
           | _ \<Rightarrow> (t, False))
      | _ \<Rightarrow> (t, True))"

definition shouldStopAfterTurn :: "'b runtime_options \<Rightarrow> 'b turn \<Rightarrow> 'b turn \<times> bool" where
  "shouldStopAfterTurn opts t =
     (if tn_turns t \<ge> op_maxAgentTurns opts then (t\<lparr>tn_limitReached := True\<rparr>, True) else (t, False))"

text \<open>\<open>createBusinessTicket\<close> and \<open>createBusinessHandoff\<close>, each up to and after the business store's answer.\<close>

definition ticket_input :: "'b turn \<Rightarrow> jstring \<Rightarrow> jstring \<Rightarrow> new_ticket" where
  "ticket_input t summary key =
     \<lparr>nt_tenantId = tenant t, nt_storeId = rq_storeId (tn_request t), nt_conversationId = conversation t,
      nt_summary = summary, nt_idempotencyKey = key\<rparr>"

definition handoff_input :: "'b turn \<Rightarrow> jstring \<Rightarrow> new_handoff" where
  "handoff_input t reason =
     \<lparr>nh_tenantId = tenant t, nh_storeId = rq_storeId (tn_request t), nh_conversationId = conversation t,
      nh_reason = reason\<rparr>"

definition createBusinessTicket :: "'b runtime_options \<Rightarrow> jstring \<Rightarrow> jstring \<Rightarrow> 'b turn \<Rightarrow> 'b turn" where
  "createBusinessTicket opts summary key t =
     (case op_business opts of
        None \<Rightarrow> t\<lparr>tn_store := fst (createTicket (tn_store t)
            \<lparr>tk_id = js ''ticket-'' @ show_nat (length (getTickets (tn_store t)) + 1), tk_tenantId = tenant t,
             tk_storeId = rq_storeId (tn_request t), tk_summary = summary, tk_idempotencyKey = key\<rparr>)\<rparr>
      | Some ops \<Rightarrow>
          (case bo_createTicket ops (tn_business t) (ticket_input t summary key) of
             (b, Inl _) \<Rightarrow> t\<lparr>tn_business := b\<rparr>
           | (b, Inr (x, _)) \<Rightarrow> t\<lparr>tn_business := b, tn_ticketsSettling := tn_ticketsSettling t @ [x]\<rparr>))"

definition settleTicket :: "persistent_ticket \<Rightarrow> 'b turn \<Rightarrow> 'b turn" where
  "settleTicket x t = t\<lparr>tn_store := fst (createTicket (tn_store t) (support_ticket.truncate x)),
     tn_ticketsSettling := remove1 x (tn_ticketsSettling t)\<rparr>"

definition callHandoff :: "'b runtime_options \<Rightarrow> jstring \<Rightarrow> 'b turn \<Rightarrow> 'b turn \<times> support_handoff option option" where
  "callHandoff opts reason t =
     (case op_business opts of
        None \<Rightarrow> (t\<lparr>tn_store := createHandoff (tn_store t) (conversation t) reason\<rparr>, Some None)
      | Some ops \<Rightarrow>
          (case bo_createHandoff ops (tn_business t) (handoff_input t reason) of
             (b, Inl _) \<Rightarrow> (t\<lparr>tn_business := b\<rparr>, None)
           | (b, Inr (x, _)) \<Rightarrow> (t\<lparr>tn_business := b\<rparr>, Some (Some x))))"

definition createBusinessHandoff :: "'b runtime_options \<Rightarrow> jstring \<Rightarrow> 'b turn \<Rightarrow> 'b turn" where
  "createBusinessHandoff opts reason t =
     (case callHandoff opts reason t of
        (t, None) \<Rightarrow> t
      | (t, Some None) \<Rightarrow> onEscalate t
      | (t, Some (Some x)) \<Rightarrow> t\<lparr>tn_handoffsSettling := tn_handoffsSettling t @ [x]\<rparr>)"

definition settleHandoff :: "support_handoff \<Rightarrow> 'b turn \<Rightarrow> 'b turn" where
  "settleHandoff x t =
     t\<lparr>tn_store := (if findHandoff (tn_store t) (conversation t) = None
         then createHandoff (tn_store t) (conversation t) (ho_reason x) else tn_store t)\<rparr>"

text \<open>\<open>persistEvent\<close>.\<close>

definition persistEvent :: "agent_event \<Rightarrow> 'b turn \<Rightarrow> 'b turn" where
  "persistEvent e t =
     (if tn_sealed t \<or> tn_timedOut t then t
      else (let t = t\<lparr>tn_sessionEvents := tn_sessionEvents t @ [e]\<rparr> in
        case e of
          Turn_start \<Rightarrow> t\<lparr>tn_turns := tn_turns t + 1\<rparr>
        | Tool_execution_start name query \<Rightarrow>
            (let t = t\<lparr>tn_activeTools := tn_activeTools t + 1\<rparr> in
             if name = js ''search_knowledge'' \<and> (case query of None \<Rightarrow> False | Some q \<Rightarrow> map_has (tn_completedChecks t) q)
             then t else t\<lparr>tn_toolsCalled := tn_toolsCalled t @ [name]\<rparr>)
        | Tool_execution_end name isError \<Rightarrow>
            (let t = t\<lparr>tn_activeTools := tn_activeTools t - 1\<rparr> in
             if isError then t\<lparr>tn_toolFailed := True\<rparr> else t)
        | Message_end m \<Rightarrow>
            if msg_role m \<in> {js ''user'', js ''assistant'', js ''toolResult''}
            then t\<lparr>tn_messages := tn_messages t @ [m]\<rparr> else t
        | Other_event _ \<Rightarrow> t))"

section \<open>The start of a turn\<close>

definition pending_check :: "check_origin \<Rightarrow> nat \<Rightarrow> 'b turn \<Rightarrow> bool" where
  "pending_check origin i t \<longleftrightarrow> i < length (tn_knowledgeChecks t) \<and>
     kc_status (tn_knowledgeChecks t ! i) = Pending \<and> kc_origin (tn_knowledgeChecks t ! i) = origin"

definition tool_of :: "tool_call \<Rightarrow> tool_name" where
  "tool_of call = (case call of Call_search_faq _ \<Rightarrow> Search_faq | Call_search_knowledge _ \<Rightarrow> Search_knowledge
     | Call_create_ticket _ _ \<Rightarrow> Create_ticket | Call_handoff _ \<Rightarrow> Handoff_to_human)"

definition runTool :: "'b runtime_options \<Rightarrow> tool_call \<Rightarrow> int \<Rightarrow> 'b turn \<Rightarrow> 'b turn" where
  "runTool opts call now t =
     (case call of
        Call_search_faq q \<Rightarrow> searchFaq opts q t
      | Call_search_knowledge q \<Rightarrow> started_turn (beginKnowledge now Pi_check q t)
      | Call_create_ticket summary key \<Rightarrow> if tn_timedOut t then t else createBusinessTicket opts summary key t
      | Call_handoff reason \<Rightarrow>
          if tn_timedOut t then t else createBusinessHandoff opts reason t)"

text \<open>The state when \<open>run\<close> starts, with the session's earlier messages.\<close>

definition startTurn ::
  "'b runtime_options \<Rightarrow> support_request \<Rightarrow> support_store \<Rightarrow> 'b \<Rightarrow> (nat \<Rightarrow> evidence) \<Rightarrow> message list \<Rightarrow> int \<Rightarrow> 'b turn" where
  "startTurn opts r s b h earlier now =
     \<lparr>tn_phase = Serving, tn_request = r, tn_store = s, tn_business = b, tn_heap = h, tn_startedAt = now, tn_turns = 0,
      tn_toolCalls = 0, tn_timedOut = False, tn_limitReached = False, tn_escalationRequested = False,
      tn_toolFailed = False, tn_noKnowledgeEvidence = False, tn_piFaqMiss = False,
      tn_verifiedKnowledgeEvidence = False, tn_groundingQuery = None, tn_groundingEvidence = [],
      tn_groundingSources = [], tn_knowledgeRouting = None, tn_activeTools = 0,
      tn_overallExpiresAt = now + op_overallTurnTimeoutMs opts, tn_evidenceSettledAt = None,
      tn_deadlineEvidenceEligible = False, tn_sealed = False, tn_promptStarted = False,
      tn_knowledgeChecks = [], tn_safetyEvidence = [], tn_safetyRetrievalQuery = None,
      tn_reservedTicketKeys = [], tn_reservedHandoff = False, tn_toolsCalled = [], tn_sessionEvents = [],
      tn_completedChecks = [], tn_messages = earlier, tn_customEntries = [], tn_awaiting = [],
      tn_granted = [], tn_ticketsSettling = [], tn_handoffsSettling = []\<rparr>"

section \<open>The end of a turn\<close>

definition safetyDecision :: "'b turn \<Rightarrow> safety_decision option" where
  "safetyDecision t = map_option (\<lambda>risk. decideSafety risk (tn_safetyEvidence t) False (js ''pause'')) (safetyRisk t)"

definition groundingReferences :: "'b turn \<Rightarrow> grounding_reference list" where
  "groundingReferences t = List.map_filter groundingReference (tn_groundingEvidence t)"

definition groundedText :: "'b turn \<Rightarrow> jstring" where
  "groundedText t = join [10, 10] (map ev_text (tn_groundingEvidence t))"

definition turn_failed :: "message option \<Rightarrow> 'b turn \<Rightarrow> bool" where
  "turn_failed lastMsg t \<longleftrightarrow> tn_timedOut t \<or> tn_limitReached t \<or> tn_toolFailed t \<or>
     (case lastMsg of
        None \<Rightarrow> True
      | Some m \<Rightarrow> (msg_stopReason m \<noteq> Tool_use \<and> textFromMessage lastMsg = []) \<or>
          msg_stopReason m \<in> {Length_stop, Error_stop, Aborted})"

definition durableTicket :: "'b runtime_options \<Rightarrow> 'b turn \<Rightarrow> bool" where
  "durableTicket opts t \<longleftrightarrow> op_business opts \<noteq> None \<and>
     list_ex (\<lambda>k. findTicket (tn_store t) (tenant t) k \<noteq> None) (tn_reservedTicketKeys t)"

definition durableHandoff :: "'b runtime_options \<Rightarrow> 'b turn \<Rightarrow> bool" where
  "durableHandoff opts t \<longleftrightarrow> op_business opts \<noteq> None \<and> tn_reservedHandoff t \<and>
     findHandoff (tn_store t) (conversation t) \<noteq> None"

definition finalResult ::
  "'b runtime_options \<Rightarrow> safety_decision option \<Rightarrow> message option \<Rightarrow> 'b turn \<Rightarrow> support_result \<Rightarrow> support_result" where
  "finalResult opts d lastMsg t r =
     (if op_realPolicy opts
      then applyRealPolicy r \<lparr>pf_requestText = rq_text (tn_request t), pf_failed = turn_failed lastMsg t,
        pf_requiresEscalation = (rq_requiresEscalation (tn_request t) = Some True),
        pf_safety = map_option sd_disposition d,
        pf_durableTicket = durableTicket opts t, pf_durableHandoff = durableHandoff opts t\<rparr>
      else r)"

definition policy_stop_message :: message where
  "policy_stop_message = \<lparr>msg_role = js ''assistant'', msg_texts = [], msg_stopReason = Aborted\<rparr>"

definition user_message :: "jstring \<Rightarrow> message" where
  "user_message text = \<lparr>msg_role = js ''user'', msg_texts = [text], msg_stopReason = Stop\<rparr>"

text \<open>The messages \<open>finish\<close> adds to the session when the agent left none.\<close>

definition finishMessages :: "'b turn \<Rightarrow> message list" where
  "finishMessages t =
     (let ms = tn_messages t @ (if tn_promptStarted t then []
          else [user_message (rq_text (tn_request t)), policy_stop_message])
      in if tn_timedOut t \<and> \<not> list_ex (\<lambda>m. msg_role m = js ''assistant'') ms then ms @ [policy_stop_message] else ms)"

definition releaseReservations :: "'b turn \<Rightarrow> support_store" where
  "releaseReservations t =
     (let s = foldl (\<lambda>s k. if findTicket s (tenant t) k = None then releaseTicketReservation s (tenant t) k else s)
          (tn_store t) (tn_reservedTicketKeys t)
      in if tn_reservedHandoff t \<and> findHandoff s (conversation t) = None
         then releaseHandoffReservation s (conversation t) else s)"

subsection \<open>The audit record\<close>

abbreviation jnat :: "nat \<Rightarrow> json" where
  "jnat n \<equiv> JNum (Num (of_nat n))"

abbreviation jobj :: "(string \<times> json) list \<Rightarrow> json" where
  "jobj kvs \<equiv> JObj (map (\<lambda>(k, v). (js k, v)) kvs)"

abbreviation jstrs :: "jstring list \<Rightarrow> json" where
  "jstrs ss \<equiv> JArr (map JStr ss)"

definition outcome_string :: "outcome \<Rightarrow> jstring" where
  "outcome_string x = (case x of Answer \<Rightarrow> js ''answer'' | Fallback_outcome \<Rightarrow> js ''fallback''
     | Escalation \<Rightarrow> js ''escalation'')"

definition decision_string :: "policy_decision \<Rightarrow> jstring" where
  "decision_string d = (case d of AUTO \<Rightarrow> js ''AUTO'' | WORKFLOW \<Rightarrow> js ''WORKFLOW'' | HUMAN \<Rightarrow> js ''HUMAN''
     | SAFE_FALLBACK \<Rightarrow> js ''SAFE_FALLBACK'')"

definition disposition_string :: "disposition \<Rightarrow> jstring" where
  "disposition_string d = (case d of Supported \<Rightarrow> js ''supported'' | Escalate \<Rightarrow> js ''escalate''
     | Fallback \<Rightarrow> js ''fallback'')"

definition reference_json :: "grounding_reference \<Rightarrow> json" where
  "reference_json g = jobj [(''id'', JStr (gr_id g)), (''version'', JStr (gr_version g)),
     (''sourceRef'', JStr (gr_sourceRef g)), (''kind'', JStr (gr_kind g))]"

definition check_json :: "knowledge_check \<Rightarrow> json" where
  "check_json c = jobj
     [(''knowledgeCheckOrigin'', JStr (if kc_origin c = Policy_check then js ''policy'' else js ''pi_tool'')),
      (''query'', JStr (kc_query c)),
      (''status'', JStr (case kc_status c of Pending \<Rightarrow> js ''pending'' | Completed \<Rightarrow> js ''completed''
        | Failed \<Rightarrow> js ''failed''))]"

definition routing_json :: "support_result \<Rightarrow> routing_audit \<Rightarrow> json" where
  "routing_json r a = jobj
     [(''admittedCandidateCount'', jnat (ra_admittedCandidateCount a)),
      (''candidateEvidenceIds'', jstrs (ra_candidateEvidenceIds a)),
      (''decision'', JStr (case ra_decision a of NO_CANDIDATE \<Rightarrow> js ''NO_CANDIDATE''
        | SINGLE_CANDIDATE \<Rightarrow> js ''SINGLE_CANDIDATE''
        | AMBIGUOUS_MULTIPLE_CANDIDATES \<Rightarrow> js ''AMBIGUOUS_MULTIPLE_CANDIDATES'')),
      (''semanticSelectorInvoked'', JBool False),
      (''eligibleEvidenceIds'', jstrs (ra_eligibleEvidenceIds a)),
      (''authorizedEvidenceIds'', jstrs (filter (\<lambda>i. i \<in> set (ra_candidateEvidenceIds a)) (map gr_id (sr_evidence r))))]"

definition safety_json :: "'b turn \<Rightarrow> safety_decision \<Rightarrow> json" where
  "safety_json t d = JObj (map (\<lambda>(k, v). (js k, v))
     ([(''riskCategory'', JStr (risk_string (sd_riskCategory d)))] @
      (case tn_safetyRetrievalQuery t of None \<Rightarrow> [] | Some q \<Rightarrow> [(''retrievalQuery'', JStr q)]) @
      [(''evidenceIds'', jstrs (map se_id (tn_safetyEvidence t))),
       (''evidenceApprovalStatus'', jstrs (map se_status (tn_safetyEvidence t))),
       (''disposition'', JStr (disposition_string (sd_disposition d))),
       (''handoffResult'', JStr (if findHandoff (tn_store t) (conversation t) = None then js ''not_created'' else js ''created'')),
       (''guardResult'', JStr (sd_reason d))]))"

definition auditPayload ::
  "'b runtime_options \<Rightarrow> finish_info \<Rightarrow> safety_decision option \<Rightarrow> support_result \<Rightarrow> 'b turn \<Rightarrow> json" where
  "auditPayload opts info decided r t = JObj (map (\<lambda>(k, v). (js k, v))
     ((case sr_policyDecision r of None \<Rightarrow> []
       | Some d \<Rightarrow> [(''policyDecision'', JStr (decision_string d)), (''policyVersion'', JStr (js ''real-policy-v1''))]) @
      [(''schemaVersion'', JStr (js ''support-agent-audit-v1'')), (''requestId'', JStr (fi_requestId info)),
       (''runtimeDurationMs'', jnat (nat (fi_now info - tn_startedAt t))),
       (''agentProfileId'', JStr (prof_id (op_profile opts))),
       (''agentProfileVersion'', JStr (prof_version (op_profile opts))),
       (''agentProfileHash'', JStr (prof_hash (op_profile opts))),
       (''conversationId'', JStr (conversation t)), (''outcome'', JStr (outcome_string (sr_type r))),
       (''toolsCalled'', jstrs (tn_toolsCalled t)), (''turns'', jnat (tn_turns t)),
       (''toolCalls'', jnat (tn_toolCalls t)), (''timedOut'', JBool (tn_timedOut t)),
       (''limitReached'', JBool (tn_limitReached t)), (''escalationRequested'', JBool (tn_escalationRequested t)),
       (''toolFailed'', JBool (tn_toolFailed t)), (''knowledgeChecks'', JArr (map check_json (tn_knowledgeChecks t))),
       (''policyStoppedBeforePi'', JBool (\<not> tn_promptStarted t))] @
      (case decided of None \<Rightarrow> [] | Some d \<Rightarrow> [(''safety'', safety_json t d)]) @
      (if truthy (tn_groundingQuery t)
       then [(''grounding'', jobj [(''retrievalQuery'', JStr (the (tn_groundingQuery t))),
           (''admissible'', JBool (length (sr_evidence r) > 0)),
           (''evidence'', JArr (map reference_json (sr_evidence r))),
           (''intermediateEvidence'', JArr (map reference_json (groundingReferences t)))])]
       else []) @
      (case tn_knowledgeRouting t of None \<Rightarrow> [] | Some a \<Rightarrow> [(''knowledgeRouting'', routing_json r a)])))"

subsection \<open>Finishing\<close>

text \<open>
  \<open>finish\<close> up to its await: the turn is sealed, the policy applied, the reservations that led to no record released,
  the session mapping stored, and the audit record handed to the business store. \<open>recordAudited\<close> is the record and
  its answer: the result is lost when the business store refuses it.
\<close>

definition finish ::
  "'b runtime_options \<Rightarrow> finish_info \<Rightarrow> safety_decision option \<Rightarrow> message option \<Rightarrow> support_result \<Rightarrow> 'b turn \<Rightarrow> 'b turn" where
  "finish opts info decided lastMsg r t =
     (let t = t\<lparr>tn_sealed := True\<rparr>;
          r = finalResult opts decided lastMsg t r;
          t = t\<lparr>tn_messages := finishMessages t,
            tn_knowledgeChecks := map (\<lambda>c. if kc_status c = Pending then c\<lparr>kc_status := Failed\<rparr> else c) (tn_knowledgeChecks t),
            tn_store := releaseReservations t\<rparr>;
          payload = auditPayload opts info decided r t
      in t\<lparr>tn_customEntries := tn_customEntries t @ [payload],
           tn_store := setSession (tn_store t)
             (session_of opts (tn_request t) (fi_piSessionId info) (fi_sessionFile info)),
           tn_phase := (if op_business opts = None then Run_returned r else Awaiting_audit r payload)\<rparr>)"

definition recordAudited :: "'b business_ops \<Rightarrow> support_result \<Rightarrow> json \<Rightarrow> 'b turn \<Rightarrow> 'b turn" where
  "recordAudited ops r payload t =
     (case bo_recordAudit ops (tn_business t) (tenant t) (rq_storeId (tn_request t)) (conversation t) payload of
        (b, Inl e) \<Rightarrow> t\<lparr>tn_business := b, tn_phase := Run_rejected e\<rparr>
      | (b, Inr _) \<Rightarrow> t\<lparr>tn_business := b, tn_phase := Run_returned r\<rparr>)"

definition result_of :: "finish_info \<Rightarrow> 'b turn \<Rightarrow> outcome \<Rightarrow> jstring \<Rightarrow> grounding_reference list \<Rightarrow> support_result" where
  "result_of info t ty text evidence =
     \<lparr>sr_policyDecision = None, sr_type = ty, sr_text = text, sr_piSessionId = fi_piSessionId info,
      sr_toolsCalled = tn_toolsCalled t, sr_sessionEvents = tn_sessionEvents t, sr_evidence = evidence\<rparr>"

definition text_timeout :: jstring where
  "text_timeout = [0x62B1, 0x6B49, 0xFF0C, 0x5F53, 0x524D, 0x5904, 0x7406, 0x8D85, 0x65F6, 0xFF0C, 0x5DF2, 0x4FDD,
    0x7559, 0x8BB0, 0x5F55, 0xFF0C, 0x8BF7, 0x7A0D, 0x540E, 0x91CD, 0x8BD5, 0x6216, 0x8054, 0x7CFB, 0x4EBA, 0x5DE5,
    0x5BA2, 0x670D, 0x3002]"

definition text_limit :: jstring where
  "text_limit = [0x62B1, 0x6B49, 0xFF0C, 0x672C, 0x6B21, 0x5904, 0x7406, 0x5DF2, 0x8FBE, 0x5230, 0x5B89, 0x5168,
    0x6267, 0x884C, 0x4E0A, 0x9650, 0xFF0C, 0x5DF2, 0x4FDD, 0x7559, 0x8BB0, 0x5F55, 0xFF0C, 0x8BF7, 0x8054, 0x7CFB,
    0x4EBA, 0x5DE5, 0x5BA2, 0x670D, 0x3002]"

definition text_safety_no_handoff :: jstring where
  "text_safety_no_handoff = [0x5F53, 0x524D, 0x5B58, 0x5728, 0x9700, 0x8981, 0x4E13, 0x4E1A, 0x786E, 0x8BA4,
    0x7684, 0x5B89, 0x5168, 0x98CE, 0x9669, 0xFF0C, 0x8BF7, 0x6682, 0x505C, 0x5F53, 0x524D, 0x64CD, 0x4F5C, 0xFF1B,
    0x4EBA, 0x5DE5, 0x8F6C, 0x4EA4, 0x6682, 0x672A, 0x5B8C, 0x6210, 0xFF0C, 0x8BF7, 0x7ACB, 0x5373, 0x8054, 0x7CFB,
    0x5408, 0x683C, 0x4E13, 0x4E1A, 0x4EBA, 0x5458, 0x3002]"

definition text_safety_escalated :: jstring where
  "text_safety_escalated = [0x5F53, 0x524D, 0x5B58, 0x5728, 0x9700, 0x8981, 0x4E13, 0x4E1A, 0x786E, 0x8BA4, 0x7684,
    0x5B89, 0x5168, 0x98CE, 0x9669, 0xFF0C, 0x8BF7, 0x6682, 0x505C, 0x5F53, 0x524D, 0x64CD, 0x4F5C, 0x5E76, 0x7531,
    0x5408, 0x683C, 0x4E13, 0x4E1A, 0x4EBA, 0x5458, 0x8DDF, 0x8FDB, 0x3002]"

definition text_needs_human :: jstring where
  "text_needs_human = [0x62B1, 0x6B49, 0xFF0C, 0x8BE5, 0x95EE, 0x9898, 0x9700, 0x8981, 0x4EBA, 0x5DE5, 0x5BA2,
    0x670D, 0x5904, 0x7406, 0xFF0C, 0x5DF2, 0x4FDD, 0x7559, 0x8BB0, 0x5F55, 0xFF0C, 0x8BF7, 0x8054, 0x7CFB, 0x4EBA,
    0x5DE5, 0x5BA2, 0x670D, 0x3002]"

definition text_no_evidence :: jstring where
  "text_no_evidence = [0x62B1, 0x6B49, 0xFF0C, 0x5F53, 0x524D, 0x6CA1, 0x6709, 0x8DB3, 0x591F, 0x7684, 0x5DF2,
    0x9A8C, 0x8BC1, 0x4FE1, 0x606F, 0x53EF, 0x4EE5, 0x5B89, 0x5168, 0x7B54, 0x590D, 0xFF0C, 0x5DF2, 0x4FDD, 0x7559,
    0x8BB0, 0x5F55, 0xFF0C, 0x8BF7, 0x8054, 0x7CFB, 0x4EBA, 0x5DE5, 0x5BA2, 0x670D, 0x3002]"

definition text_stale :: jstring where
  "text_stale = [0x62B1, 0x6B49, 0xFF0C, 0x5F53, 0x524D, 0x8BC1, 0x636E, 0x4FE1, 0x606F, 0x65E0, 0x6CD5, 0x786E,
    0x8BA4, 0xFF0C, 0x8BF7, 0x8054, 0x7CFB, 0x4EBA, 0x5DE5, 0x5BA2, 0x670D, 0x3002]"

definition text_unavailable :: jstring where
  "text_unavailable = [0x62B1, 0x6B49, 0xFF0C, 0x5F53, 0x524D, 0x670D, 0x52A1, 0x6682, 0x65F6, 0x4E0D, 0x53EF,
    0x7528, 0xFF0C, 0x8BF7, 0x7A0D, 0x540E, 0x91CD, 0x8BD5, 0x6216, 0x8054, 0x7CFB, 0x4EBA, 0x5DE5, 0x5BA2, 0x670D,
    0x3002]"

definition text_unsafe :: jstring where
  "text_unsafe = [0x62B1, 0x6B49, 0xFF0C, 0x6682, 0x65F6, 0x65E0, 0x6CD5, 0x5B89, 0x5168, 0x5730, 0x63D0, 0x4F9B,
    0x7B54, 0x590D, 0xFF0C, 0x8BF7, 0x8054, 0x7CFB, 0x4EBA, 0x5DE5, 0x5BA2, 0x670D, 0x3002]"

definition text_unconfirmed :: jstring where
  "text_unconfirmed = [0x62B1, 0x6B49, 0xFF0C, 0x6211, 0x65E0, 0x6CD5, 0x786E, 0x8BA4, 0x8BE5, 0x64CD, 0x4F5C,
    0x5DF2, 0x7ECF, 0x5B8C, 0x6210, 0xFF0C, 0x8BF7, 0x8054, 0x7CFB, 0x4EBA, 0x5DE5, 0x5BA2, 0x670D, 0x6838, 0x5B9E,
    0x3002]"

definition completedTicketAfterPolicyMiss :: "'b turn \<Rightarrow> bool" where
  "completedTicketAfterPolicyMiss t \<longleftrightarrow> \<not> tn_piFaqMiss t \<and>
     list_all (\<lambda>c. kc_origin c = Policy_check) (tn_knowledgeChecks t) \<and>
     list_ex (\<lambda>k. findTicket (tn_store t) (tenant t) k \<noteq> None) (tn_reservedTicketKeys t)"

text \<open>The result chosen once neither time, limits nor safety decide it.\<close>

definition ordinaryOutcome :: "message option \<Rightarrow> 'b turn \<Rightarrow> outcome \<times> jstring \<times> grounding_reference list" where
  "ordinaryOutcome lastMsg t =
     (let text = textFromMessage lastMsg in
      if tn_escalationRequested t then (Escalation, text_handoff, [])
      else if rq_requiresEscalation (tn_request t) = Some True then (Fallback_outcome, text_needs_human, [])
      else if tn_toolFailed t then (Fallback_outcome, text_no_evidence, [])
      else if tn_verifiedKnowledgeEvidence t \<and> \<not> snapshotStillCurrent t then (Fallback_outcome, text_stale, [])
      else if tn_verifiedKnowledgeEvidence t then (Answer, groundedText t, groundingReferences t)
      else if tn_noKnowledgeEvidence t \<and> \<not> completedTicketAfterPolicyMiss t
      then (Fallback_outcome, text_no_evidence, [])
      else if (case lastMsg of None \<Rightarrow> False | Some m \<Rightarrow> msg_stopReason m \<in> {Error_stop, Aborted})
      then (Fallback_outcome, text_unavailable, [])
      else if text = [] \<or> contains (js ''<tool'') text \<or> contains (js ''system prompt'') text
      then (Fallback_outcome, text_unsafe, [])
      else if hasSupportFactualClaim text \<and> \<not> tn_verifiedKnowledgeEvidence t
      then (Fallback_outcome, text_unverified, [])
      else if hasUnsafeSideEffectPromise text then (Fallback_outcome, text_unconfirmed, [])
      else (Answer, text, []))"

text \<open>
  The handoff of a safety escalation: without one, and with its reservation, it is called and awaited; \<open>escalated\<close> is
  what follows its answer, or follows at once when the conversation has a handoff or a reservation for one.
\<close>

definition answer_with ::
  "'b runtime_options \<Rightarrow> finish_info \<Rightarrow> safety_decision option \<Rightarrow> message option \<Rightarrow>
     outcome \<times> jstring \<times> grounding_reference list \<Rightarrow> 'b turn \<Rightarrow> 'b turn" where
  "answer_with opts info decided lastMsg x t =
     (case x of (ty, text, refs) \<Rightarrow> finish opts info decided lastMsg (result_of info t ty text refs) t)"

definition escalated ::
  "'b runtime_options \<Rightarrow> finish_info \<Rightarrow> message option \<Rightarrow> safety_decision \<Rightarrow> 'b turn \<Rightarrow> 'b turn" where
  "escalated opts info lastMsg d t =
     answer_with opts info (Some d) lastMsg (Escalation, text_safety_escalated, []) (t\<lparr>tn_escalationRequested := True\<rparr>)"

definition safetyHandoff ::
  "'b runtime_options \<Rightarrow> finish_info \<Rightarrow> message option \<Rightarrow> safety_decision \<Rightarrow> 'b turn \<Rightarrow> 'b turn" where
  "safetyHandoff opts info lastMsg d t =
     (if findHandoff (tn_store t) (conversation t) \<noteq> None then escalated opts info lastMsg d t
      else (case reserveHandoff (tn_store t) (conversation t) of
          (_, False) \<Rightarrow> escalated opts info lastMsg d t
        | (s, True) \<Rightarrow>
            (case callHandoff opts (js ''qualified_professional_required:'' @ risk_string (sd_riskCategory d) @ 58 # sd_reason d)
                (t\<lparr>tn_store := s, tn_reservedHandoff := True\<rparr>) of
               (t, answer) \<Rightarrow> t\<lparr>tn_phase := Awaiting_handoff info lastMsg d answer\<rparr>)))"

definition safetyHandedOff ::
  "'b runtime_options \<Rightarrow> finish_info \<Rightarrow> message option \<Rightarrow> safety_decision \<Rightarrow> support_handoff option option \<Rightarrow> 'b turn \<Rightarrow> 'b turn" where
  "safetyHandedOff opts info lastMsg d answer t =
     (case answer of
        None \<Rightarrow> answer_with opts info (Some d) lastMsg (Fallback_outcome, text_safety_no_handoff, []) t
      | Some None \<Rightarrow> escalated opts info lastMsg d t
      | Some (Some x) \<Rightarrow> escalated opts info lastMsg d (settleHandoff x t))"

definition conclude :: "'b runtime_options \<Rightarrow> finish_info \<Rightarrow> message option \<Rightarrow> 'b turn \<Rightarrow> 'b turn" where
  "conclude opts info lastMsg t =
     (let d = safetyDecision t; answer = (\<lambda>x. answer_with opts info d lastMsg x t) in
      if tn_timedOut t
      then (if tn_deadlineEvidenceEligible t then answer (Answer, groundedText t, groundingReferences t)
            else answer (Fallback_outcome, text_timeout, []))
      else if tn_limitReached t then answer (Fallback_outcome, text_limit, [])
      else case d of
          Some risk \<Rightarrow>
            (case sd_disposition risk of
               Escalate \<Rightarrow> safetyHandoff opts info lastMsg risk t
             | Supported \<Rightarrow> answer (Answer, formatSafetySupportedResponse (sd_options risk), [])
             | Fallback \<Rightarrow> answer (ordinaryOutcome lastMsg t))
        | None \<Rightarrow> answer (ordinaryOutcome lastMsg t))"

section \<open>Steps of the environment\<close>

text \<open>
  \<open>run\<close> concludes once; its timer is cleared then. Calls of the agent that are still under way go on.
\<close>

datatype turn_event =
    Ev_heap "nat \<Rightarrow> evidence"
  | Ev_timer
  | Ev_policy_settle nat "nat list option" int
  | Ev_prompt
  | Ev_prompt_fallback message
  | Ev_prompt_end int
  | Ev_before tool_call int
  | Ev_reserve tool_call
  | Ev_run tool_call int
  | Ev_knowledge_settle nat "nat list option" int
  | Ev_ticket_settle persistent_ticket
  | Ev_handoff_settle support_handoff
  | Ev_turn_end
  | Ev_agent agent_event
  | Ev_conclude finish_info "message option"
  | Ev_safety_handoff int
  | Ev_audit

definition turn_step :: "'b runtime_options \<Rightarrow> turn_event \<Rightarrow> 'b turn \<Rightarrow> 'b turn option" where
  "turn_step opts e t =
     (case e of
        Ev_heap h \<Rightarrow> Some (t\<lparr>tn_heap := h\<rparr>)
      | Ev_timer \<Rightarrow> if tn_phase t = Serving then Some (expireTurn t) else None
      | Ev_policy_settle i found now \<Rightarrow>
          if pending_check Policy_check i t
          then Some (policySettle opts i (kc_query (tn_knowledgeChecks t ! i)) found now t) else None
      | Ev_prompt \<Rightarrow>
          if tn_phase t \<noteq> Serving \<or> tn_timedOut t \<or> tn_limitReached t \<or> tn_toolFailed t then None
          else Some (t\<lparr>tn_promptStarted := True\<rparr>)
      | Ev_prompt_fallback m \<Rightarrow>
          if tn_phase t \<noteq> Serving \<or> tn_timedOut t \<or> msg_stopReason m \<noteq> Error_stop \<or> \<not> op_fallbackModel opts then None
          else Some (t\<lparr>tn_promptStarted := True\<rparr>)
      | Ev_prompt_end now \<Rightarrow> if tn_phase t = Serving then Some (checkDeadline now t) else None
      | Ev_before call now \<Rightarrow>
          if \<not> tn_promptStarted t \<or> tool_of call \<notin> set (prof_allowedTools (op_profile opts)) then None
          else (case beforeToolCall opts now call t of
              (t, None) \<Rightarrow> Some t
            | (t, Some True) \<Rightarrow> Some (t\<lparr>tn_awaiting := tn_awaiting t @ [call]\<rparr>)
            | (t, Some False) \<Rightarrow> Some (t\<lparr>tn_granted := tn_granted t @ [call]\<rparr>))
      | Ev_reserve call \<Rightarrow>
          if call \<notin> set (tn_awaiting t) then None
          else (case reserveCall opts call (t\<lparr>tn_awaiting := remove1 call (tn_awaiting t)\<rparr>) of
              (t, False) \<Rightarrow> Some t
            | (t, True) \<Rightarrow> Some (t\<lparr>tn_granted := tn_granted t @ [call]\<rparr>))
      | Ev_run call now \<Rightarrow>
          if call \<notin> set (tn_granted t) then None
          else Some (runTool opts call now (t\<lparr>tn_granted := remove1 call (tn_granted t)\<rparr>))
      | Ev_knowledge_settle i found now \<Rightarrow>
          if pending_check Pi_check i t
          then Some (fst (settleKnowledge opts i (kc_query (tn_knowledgeChecks t ! i)) found now t)) else None
      | Ev_ticket_settle x \<Rightarrow> if x \<in> set (tn_ticketsSettling t) then Some (settleTicket x t) else None
      | Ev_handoff_settle x \<Rightarrow>
          if x \<in> set (tn_handoffsSettling t)
          then Some (onEscalate (settleHandoff x (t\<lparr>tn_handoffsSettling := remove1 x (tn_handoffsSettling t)\<rparr>))) else None
      | Ev_turn_end \<Rightarrow> Some (fst (shouldStopAfterTurn opts t))
      | Ev_agent a \<Rightarrow> Some (persistEvent a t)
      | Ev_conclude info lastMsg \<Rightarrow> if tn_phase t = Serving then Some (conclude opts info lastMsg t) else None
      | Ev_safety_handoff now \<Rightarrow>
          (case tn_phase t of
             Awaiting_handoff info lastMsg d answer \<Rightarrow>
               Some (safetyHandedOff opts (info\<lparr>fi_now := now\<rparr>) lastMsg d answer t)
           | _ \<Rightarrow> None)
      | Ev_audit \<Rightarrow>
          (case (tn_phase t, op_business opts) of
             (Awaiting_audit r payload, Some ops) \<Rightarrow> Some (recordAudited ops r payload t)
           | _ \<Rightarrow> None))"

fun turn_run :: "'b runtime_options \<Rightarrow> turn_event list \<Rightarrow> 'b turn \<Rightarrow> 'b turn option" where
  "turn_run opts [] t = Some t"
| "turn_run opts (e # es) t = (case turn_step opts e t of None \<Rightarrow> None | Some t' \<Rightarrow> turn_run opts es t')"

end
