(* ===== verification/StoreOpsContracts.thy ===== *)
theory StoreOpsContracts
  imports JsonText
begin

text \<open>
  \<open>src/storeops/contracts.ts\<close>: the validators of untrusted input and the transition table of
  booking intents. Dates are handled as strings, as in the source: the parser of the host takes
  days 1 to 31 of months 1 to 12 and lets a day past the end of its month run over into the
  next, which \<open>toISOString\<close> then shows. An instant is returned in its canonical form of 24 code
  units. \<open>String(v)\<close> is \<open>None\<close> where the string holds a number, which no keyword of the
  validators does; of an array it is the join of its elements, so a one-element array passes a
  keyword check and stays an array.
\<close>

section \<open>Types\<close>

datatype storeops_error =
    Invalid_request | Forbidden | Not_found | Availability_conflict | Booking_intent_conflict
  | Dependency_unavailable | Database_failure

datatype booking_status = Pending_confirmation | Confirmed | Alternative_proposed | Cancelled

type_synonym window = "jstring \<times> jstring"

record availability_write =
  aw_expectedVersion :: int
  aw_windows :: "window list"
  aw_status :: json

record booking_create =
  bc_conversationId :: jstring
  bc_requestedService :: jstring
  bc_requested :: "(jstring \<times> jstring) option"
  bc_preferredStaffMembershipId :: "jstring option"

record booking_transition =
  bt_expectedVersion :: int
  bt_action :: json
  bt_interval :: "(jstring \<times> jstring) option"

section \<open>Helpers\<close>

fun js_String :: "json \<Rightarrow> jstring option" where
  "js_String (JStr s) = Some s"
| "js_String JNull = Some (js ''null'')"
| "js_String (JBool b) = Some (if b then js ''true'' else js ''false'')"
| "js_String (JNum n) = None"
| "js_String (JObj kvs) = Some (js ''[object Object]'')"
| "js_String (JArr xs) =
     (let parts = map (\<lambda>x. if x = JNull then Some [] else js_String x) xs in
      if None \<in> set parts then None else Some (join [44] (map the parts)))"

definition keyword :: "string list \<Rightarrow> json option \<Rightarrow> bool" where
  "keyword ws v = (case v of None \<Rightarrow> False
     | Some x \<Rightarrow> (case js_String x of None \<Rightarrow> False | Some s \<Rightarrow> s \<in> set (map js ws)))"

definition object :: "json \<Rightarrow> string list \<Rightarrow> (storeops_error, (jstring \<times> json) list) result" where
  "object v keys = (case v of
      JObj kvs \<Rightarrow> if keys_within kvs keys then Inr kvs else Inl Invalid_request
    | _ \<Rightarrow> Inl Invalid_request)"

definition boundedId :: "json option \<Rightarrow> (storeops_error, jstring) result" where
  "boundedId v = (case v of
      Some (JStr s) \<Rightarrow> if blank s \<or> length (code_points s) > 200 then Inl Invalid_request else Inr s
    | _ \<Rightarrow> Inl Invalid_request)"

subsection \<open>Dates and instants\<close>

definition two :: "nat \<Rightarrow> jstring" where
  "two n = [48 + n div 10, 48 + n mod 10]"

definition four :: "nat \<Rightarrow> jstring" where
  "four n = [48 + n div 1000, 48 + n div 100 mod 10, 48 + n div 10 mod 10, 48 + n mod 10]"

definition leap_year :: "nat \<Rightarrow> bool" where
  "leap_year y \<longleftrightarrow> (y mod 4 = 0 \<and> y mod 100 \<noteq> 0) \<or> y mod 400 = 0"

definition days_in_month :: "nat \<Rightarrow> nat \<Rightarrow> nat" where
  "days_in_month y m =
     (if m = 2 then (if leap_year y then 29 else 28) else if m \<in> {4, 6, 9, 11} then 30 else 31)"

definition date_shape :: "jstring \<Rightarrow> bool" where
  "date_shape v \<longleftrightarrow> length v = 10 \<and> v ! 4 = 45 \<and> v ! 7 = 45 \<and>
     list_all is_digit (take 4 v @ take 2 (drop 5 v) @ drop 8 v)"

definition year_of :: "jstring \<Rightarrow> nat" where "year_of v = digits_value (take 4 v)"
definition month_of :: "jstring \<Rightarrow> nat" where "month_of v = digits_value (take 2 (drop 5 v))"
definition day_of :: "jstring \<Rightarrow> nat" where "day_of v = digits_value (take 2 (drop 8 v))"

text \<open>\<open>Date.parse\<close> of a date that has the shape, and the date part of its \<open>toISOString\<close>.\<close>

definition date_parses :: "jstring \<Rightarrow> bool" where
  "date_parses v \<longleftrightarrow> month_of v \<in> {1..12} \<and> day_of v \<in> {1..31}"

definition show_date :: "nat \<times> nat \<times> nat \<Rightarrow> jstring" where
  "show_date d = (case d of (y, m, n) \<Rightarrow> four y @ [45] @ two m @ [45] @ two n)"

definition normal_date :: "jstring \<Rightarrow> nat \<times> nat \<times> nat" where
  "normal_date v =
     (let y = year_of v; m = month_of v; d = day_of v; n = days_in_month y m in
      if d \<le> n then (y, m, d) else (y, m + 1, d - n))"

definition validateDate :: "json option \<Rightarrow> (storeops_error, jstring) result" where
  "validateDate v = (case v of
      Some (JStr s) \<Rightarrow>
        if \<not> date_shape s \<or> \<not> date_parses s \<or> show_date (normal_date s) \<noteq> s then Inl Invalid_request else Inr s
    | _ \<Rightarrow> Inl Invalid_request)"

definition validateTimeZone :: "(jstring \<Rightarrow> bool) \<Rightarrow> jstring option \<Rightarrow> (storeops_error, jstring) result" where
  "validateTimeZone known v = (case v of
      None \<Rightarrow> Inl Dependency_unavailable
    | Some z \<Rightarrow> if z = [] \<or> \<not> known z then Inl Dependency_unavailable else Inr z)"

definition version :: "json option \<Rightarrow> int \<Rightarrow> (storeops_error, int) result" where
  "version v minimum = (case v of
      Some (JNum n) \<Rightarrow>
        (case as_safe_integer n of
           Some i \<Rightarrow> if i < minimum then Inl Invalid_request else Inr i
         | None \<Rightarrow> Inl Invalid_request)
    | _ \<Rightarrow> Inl Invalid_request)"

text \<open>\<open>T\d{2}:\d{2}:\d{2}(?:\.\d{1,3})?Z\<close> after a date, and the digits of the fraction.\<close>

definition time_shape :: "jstring \<Rightarrow> jstring option" where
  "time_shape t =
     (if length t \<ge> 10 \<and> t ! 0 = 84 \<and> t ! 3 = 58 \<and> t ! 6 = 58 \<and>
        list_all is_digit (take 2 (drop 1 t) @ take 2 (drop 4 t) @ take 2 (drop 7 t)) \<and> last t = 90
      then (let f = butlast (drop 9 t) in
        if f = [] then Some []
        else if hd f = 46 \<and> length f \<in> {2..4} \<and> list_all is_digit (tl f) then Some (tl f) else None)
      else None)"

definition hour_of :: "jstring \<Rightarrow> nat" where "hour_of t = digits_value (take 2 (drop 1 t))"
definition minute_of :: "jstring \<Rightarrow> nat" where "minute_of t = digits_value (take 2 (drop 4 t))"
definition second_of :: "jstring \<Rightarrow> nat" where "second_of t = digits_value (take 2 (drop 7 t))"

text \<open>
  The parser of the host takes 24:00:00 for midnight; the last pattern of the source excludes
  it. The date being valid, \<open>toISOString\<close> only completes the milliseconds.
\<close>

definition time_parses :: "jstring \<Rightarrow> jstring \<Rightarrow> bool" where
  "time_parses t f \<longleftrightarrow> minute_of t \<le> 59 \<and> second_of t \<le> 59 \<and>
     (hour_of t \<le> 23 \<or> (hour_of t = 24 \<and> minute_of t = 0 \<and> second_of t = 0 \<and> list_all (\<lambda>c. c = 48) f))"

definition instant :: "json option \<Rightarrow> (storeops_error, jstring) result" where
  "instant v = (case v of
      Some (JStr s) \<Rightarrow>
        (let d = take 10 s; t = drop 10 s in
         case time_shape t of
           None \<Rightarrow> Inl Invalid_request
         | Some f \<Rightarrow>
             if \<not> date_shape d \<or> \<not> date_parses d \<or> \<not> time_parses t f then Inl Invalid_request
             else and_then (validateDate (Some (JStr d))) (\<lambda>_.
               if hour_of t > 23 \<or> minute_of t > 59 \<or> second_of t > 59 then Inl Invalid_request
               else Inr (d @ take 9 t @ [46] @ f @ replicate (3 - length f) 48 @ [90])))
    | _ \<Rightarrow> Inl Invalid_request)"

definition interval :: "json option \<Rightarrow> json option \<Rightarrow> (storeops_error, (jstring \<times> jstring) option) result" where
  "interval start end' =
     (if start = None \<and> end' = None then Inr None
      else and_then (instant start) (\<lambda>a. and_then (instant end') (\<lambda>b.
        if a \<ge> b then Inl Invalid_request else Inr (Some (a, b)))))"

section \<open>Parsers\<close>

text \<open>\<open>/^([01]\d|2[0-3]):[0-5]\d$/\<close>.\<close>

definition clock_time :: "jstring \<Rightarrow> bool" where
  "clock_time s \<longleftrightarrow> length s = 5 \<and> s ! 2 = 58 \<and> list_all is_digit (take 2 s @ drop 3 s) \<and>
     digits_value (take 2 s) \<le> 23 \<and> s ! 3 \<le> 53"

fun parseWindows :: "jstring \<Rightarrow> json list \<Rightarrow> (storeops_error, window list) result" where
  "parseWindows previous [] = Inr []"
| "parseWindows previous (v # vs) =
     and_then (object v [''start'', ''end'']) (\<lambda>w.
       case (field w ''start'', field w ''end'') of
         (Some (JStr a), Some (JStr b)) \<Rightarrow>
           if \<not> clock_time a \<or> \<not> clock_time b \<or> a \<ge> b \<or> a < previous then Inl Invalid_request
           else and_then (parseWindows b vs) (\<lambda>ws. Inr ((a, b) # ws))
       | _ \<Rightarrow> Inl Invalid_request)"

definition parseAvailabilityWrite :: "jstring \<Rightarrow> json \<Rightarrow> (storeops_error, availability_write) result" where
  "parseAvailabilityWrite date input =
     and_then (validateDate (Some (JStr date))) (\<lambda>_.
     and_then (object input [''expectedVersion'', ''windows'', ''status'']) (\<lambda>data.
       case field data ''windows'' of
         Some (JArr vs) \<Rightarrow>
           if length vs > 24 \<or> \<not> keyword [''published'', ''withdrawn''] (field data ''status'')
           then Inl Invalid_request
           else and_then (parseWindows [] vs) (\<lambda>windows.
             and_then (version (field data ''expectedVersion'') 0) (\<lambda>n.
               Inr \<lparr>aw_expectedVersion = n, aw_windows = windows, aw_status = the (field data ''status'')\<rparr>))
       | _ \<Rightarrow> Inl Invalid_request))"

definition parseBookingCreate :: "json \<Rightarrow> (storeops_error, booking_create) result" where
  "parseBookingCreate input =
     and_then (object input [''conversationId'', ''requestedService'', ''requestedStart'', ''requestedEnd'',
         ''preferredStaffMembershipId'']) (\<lambda>data.
     and_then (interval (field data ''requestedStart'') (field data ''requestedEnd'')) (\<lambda>requested.
     and_then (boundedId (field data ''conversationId'')) (\<lambda>conversationId.
     and_then (boundedId (field data ''requestedService'')) (\<lambda>requestedService.
     and_then (if field data ''preferredStaffMembershipId'' = None then Inr None
         else map_sum id Some (boundedId (field data ''preferredStaffMembershipId''))) (\<lambda>preferred.
       Inr \<lparr>bc_conversationId = conversationId, bc_requestedService = requestedService,
         bc_requested = requested, bc_preferredStaffMembershipId = preferred\<rparr>)))))"

definition is_action :: "json \<Rightarrow> string \<Rightarrow> bool" where
  "is_action v w \<longleftrightarrow> v = JStr (js w)"

definition parseBookingTransition :: "json \<Rightarrow> (storeops_error, booking_transition) result" where
  "parseBookingTransition input =
     and_then (object input [''expectedVersion'', ''action'', ''start'', ''end'']) (\<lambda>data.
       if \<not> keyword [''confirm'', ''propose_alternative'', ''cancel''] (field data ''action'')
       then Inl Invalid_request
       else and_then (interval (field data ''start'') (field data ''end'')) (\<lambda>iv.
         let action = the (field data ''action'') in
         if (is_action action ''cancel'' \<and> iv \<noteq> None) \<or> (is_action action ''propose_alternative'' \<and> iv = None)
         then Inl Invalid_request
         else and_then (version (field data ''expectedVersion'') 1) (\<lambda>n.
           Inr \<lparr>bt_expectedVersion = n, bt_action = action, bt_interval = iv\<rparr>)))"

section \<open>Transitions\<close>

record transition =
  tr_status :: booking_status
  tr_confirmed :: "(jstring \<times> jstring) option"
  tr_alternative :: "(jstring \<times> jstring) option"

definition nonempty :: "jstring option \<Rightarrow> bool" where
  "nonempty s \<longleftrightarrow> (case s of None \<Rightarrow> False | Some v \<Rightarrow> v \<noteq> [])"

definition resolveTransition ::
  "booking_status \<Rightarrow> jstring option \<Rightarrow> jstring option \<Rightarrow> booking_transition \<Rightarrow> (storeops_error, transition) result" where
  "resolveTransition status alternativeStart alternativeEnd input =
     (if status = Cancelled \<or> (status = Confirmed \<and> \<not> is_action (bt_action input) ''cancel'')
      then Inl Booking_intent_conflict
      else if is_action (bt_action input) ''cancel''
      then Inr \<lparr>tr_status = Cancelled, tr_confirmed = None, tr_alternative = None\<rparr>
      else if is_action (bt_action input) ''propose_alternative''
      then (if status \<noteq> Pending_confirmation then Inl Booking_intent_conflict
        else (case bt_interval input of
            None \<Rightarrow> Inl Invalid_request
          | Some iv \<Rightarrow> Inr \<lparr>tr_status = Alternative_proposed, tr_confirmed = None, tr_alternative = Some iv\<rparr>))
      else if status = Alternative_proposed
      then (if bt_interval input \<noteq> None \<or> \<not> nonempty alternativeStart \<or> \<not> nonempty alternativeEnd
        then Inl Invalid_request
        else Inr \<lparr>tr_status = Confirmed, tr_confirmed = Some (the alternativeStart, the alternativeEnd),
          tr_alternative = None\<rparr>)
      else (case bt_interval input of
          None \<Rightarrow> Inl Invalid_request
        | Some iv \<Rightarrow> Inr \<lparr>tr_status = Confirmed, tr_confirmed = Some iv, tr_alternative = None\<rparr>))"

section \<open>Lemmas\<close>

lemma digits_value_lt: "list_all is_digit s \<Longrightarrow> digits_value s < 10 ^ length s"
proof (induction s rule: rev_induct)
  case (snoc c s)
  then have "digits_value s < 10 ^ length s" "c - 48 < 10" by (auto simp: is_digit_def)
  then show ?case by (simp add: algebra_simps)
qed (simp add: digits_value_def)

lemma digit_obtain: "is_digit a \<Longrightarrow> \<exists>k < 10. a = 48 + k"
  unfolding is_digit_def by (intro exI [of _ "a - 48"]) auto

lemma ten_div: "n < 10 \<Longrightarrow> (10 * x + n) div 10 = (x :: nat)" "n < 10 \<Longrightarrow> (10 * x + n) mod 10 = n"
  by simp_all

lemma two_digits:
  assumes "is_digit a" "is_digit b"
  shows "two (digits_value [a, b]) = [a, b]"
proof -
  obtain k l where k: "a = 48 + k" "b = 48 + l" "k < 10" "l < 10"
    using assms [THEN digit_obtain] by auto
  then have "digits_value [a, b] = 10 * k + l" by (simp add: digits_value_def)
  then show ?thesis unfolding two_def using k by (simp only: ten_div)
qed

lemma four_digits:
  assumes "is_digit a" "is_digit b" "is_digit c" "is_digit d"
  shows "four (digits_value [a, b, c, d]) = [a, b, c, d]"
proof -
  obtain k l m n where k: "a = 48 + k" "b = 48 + l" "c = 48 + m" "d = 48 + n" "k < 10" "l < 10" "m < 10" "n < 10"
    using assms [THEN digit_obtain] by auto
  let ?v = "10 * (10 * (10 * k + l) + m) + n"
  have v: "digits_value [a, b, c, d] = ?v" by (simp add: k digits_value_def)
  have 1: "?v div 10 = 10 * (10 * k + l) + m" "?v mod 10 = n" using k by (simp_all only: ten_div)
  have "?v div 100 = ?v div 10 div 10" by (simp add: div_mult2_eq [symmetric])
  then have 2: "?v div 100 = 10 * k + l" unfolding 1 using k by (simp only: ten_div)
  have "?v div 1000 = ?v div 100 div 10" by (simp add: div_mult2_eq [symmetric])
  then have 3: "?v div 1000 = k" unfolding 2 using k by (simp only: ten_div)
  show ?thesis unfolding v four_def 1 2 3 using k by (simp only: ten_div)
qed

lemma two_value:
  assumes "n < 100"
  shows "digits_value (two n) = n" "list_all is_digit (two n)" "length (two n) = 2"
proof -
  have m: "x mod 10 \<le> 9" for x :: nat using mod_less_divisor [of 10 x] by linarith
  have "n div 10 < 10" using assms by (simp add: less_mult_imp_div_less)
  then show "list_all is_digit (two n)" by (simp add: two_def is_digit_def m)
  show "digits_value (two n) = n" "length (two n) = 2" by (simp_all add: two_def digits_value_def)
qed

lemma four_value:
  assumes "n < 10000"
  shows "digits_value (four n) = n" "list_all is_digit (four n)" "length (four n) = 4"
proof -
  have m: "x mod 10 \<le> 9" for x :: nat using mod_less_divisor [of 10 x] by linarith
  have "n div 1000 < 10" using assms by (simp add: less_mult_imp_div_less)
  then show "list_all is_digit (four n)" by (simp add: four_def is_digit_def m)
  have 1: "10 * (n div 10) + n mod 10 = n" by simp
  have e: "n div 100 = n div 10 div 10" "n div 1000 = n div 100 div 10"
    by (simp_all add: div_mult2_eq [symmetric])
  have 2: "10 * (n div 100) + n div 10 mod 10 = n div 10" unfolding e(1) by (rule mult_div_mod_eq)
  have 3: "10 * (n div 1000) + n div 100 mod 10 = n div 100" unfolding e(2) by (rule mult_div_mod_eq)
  have "digits_value (four n) = 10 * (10 * (10 * (n div 1000) + n div 100 mod 10) + n div 10 mod 10) + n mod 10"
    by (simp add: four_def digits_value_def)
  then show "digits_value (four n) = n" unfolding 3 2 1 .
  show "length (four n) = 4" by (simp add: four_def)
qed

lemma date_parts:
  assumes "y < 10000" "m < 100" "d < 100"
  shows "date_shape (show_date (y, m, d))" "year_of (show_date (y, m, d)) = y"
    "month_of (show_date (y, m, d)) = m" "day_of (show_date (y, m, d)) = d"
proof -
  note l = two_value [OF assms(2)] two_value [OF assms(3)] four_value [OF assms(1)]
  show "year_of (show_date (y, m, d)) = y" "month_of (show_date (y, m, d)) = m" "day_of (show_date (y, m, d)) = d"
    using l by (simp_all add: year_of_def month_of_def day_of_def show_date_def)
  show "date_shape (show_date (y, m, d))"
    using l by (simp add: date_shape_def show_date_def nth_append)
qed

lemma date_shape_show:
  assumes "date_shape s"
  shows "s = show_date (year_of s, month_of s, day_of s)"
proof -
  have "length s = Suc (Suc (Suc (Suc (Suc (Suc (Suc (Suc (Suc (Suc 0)))))))))" using assms by (simp add: date_shape_def)
  then obtain a b c d x e f y g h where s: "s = [a, b, c, d, x, e, f, y, g, h]"
    by (auto simp: length_Suc_conv)
  show ?thesis
    using assms by (simp add: date_shape_def s show_date_def year_of_def month_of_def day_of_def two_digits four_digits)
qed

lemma month_bound: "date_shape s \<Longrightarrow> month_of s < 100 \<and> day_of s < 100 \<and> year_of s < 10000"
  using digits_value_lt [of "take 4 s"] digits_value_lt [of "take 2 (drop 5 s)"] digits_value_lt [of "take 2 (drop 8 s)"]
  by (simp add: date_shape_def month_of_def day_of_def year_of_def list_all_append)

lemma validateDate_iff_dates:
  "validateDate (Some (JStr s)) = Inr t \<longleftrightarrow> s = t \<and>
     (\<exists>y m d. y < 10000 \<and> m \<in> {1..12} \<and> d \<in> {1..days_in_month y m} \<and> s = show_date (y, m, d))"
proof
  assume v: "validateDate (Some (JStr s)) = Inr t"
  then have s: "date_shape s" "date_parses s" "show_date (normal_date s) = s" "t = s"
    by (auto simp: validateDate_def split: if_splits)
  let ?y = "year_of s" and ?m = "month_of s" and ?d = "day_of s"
  note bounds = month_bound [OF s(1)]
  have "?d \<le> days_in_month ?y ?m"
  proof (rule ccontr)
    assume over: "\<not> ?d \<le> days_in_month ?y ?m"
    then have n: "normal_date s = (?y, ?m + 1, ?d - days_in_month ?y ?m)" by (simp add: normal_date_def Let_def)
    have "month_of (show_date (normal_date s)) = ?m + 1"
      unfolding n using bounds s(2) by (intro date_parts(3)) (auto simp: date_parses_def)
    with s(3) show False by simp
  qed
  then show "s = t \<and> (\<exists>y m d. y < 10000 \<and> m \<in> {1..12} \<and> d \<in> {1..days_in_month y m} \<and> s = show_date (y, m, d))"
    using bounds s date_shape_show [OF s(1)] by (auto simp: date_parses_def)
next
  assume "s = t \<and> (\<exists>y m d. y < 10000 \<and> m \<in> {1..12} \<and> d \<in> {1..days_in_month y m} \<and> s = show_date (y, m, d))"
  then obtain y m d where s: "s = t" "y < 10000" "m \<in> {1..12}" "d \<in> {1..days_in_month y m}" "s = show_date (y, m, d)"
    by blast
  have "days_in_month y m \<le> 31" by (simp add: days_in_month_def)
  then have d: "m < 100" "d < 100" "d \<le> 31" using s by auto
  note parts = date_parts [OF s(2) d(1,2)]
  show "validateDate (Some (JStr s)) = Inr t"
    using s d parts by (simp add: validateDate_def date_parses_def normal_date_def)
qed

section \<open>Properties\<close>

text \<open>
  \<open>validateDate\<close> accepts exactly the calendar dates: the strings \<open>YYYY-MM-DD\<close> of a month of the
  year and a day of that month, leap years included, and returns them unchanged.
\<close>

theorem validateDate_iff:
  "validateDate (Some (JStr s)) = Inr t \<longleftrightarrow> s = t \<and>
     (\<exists>y m d. y < 10000 \<and> m \<in> {1..12} \<and> d \<in> {1..days_in_month y m} \<and> s = show_date (y, m, d))"
  by (rule validateDate_iff_dates)

lemma parseWindows_ordered:
  "parseWindows previous vs = Inr ws \<Longrightarrow> length ws = length vs \<and>
     (\<forall>(a, b) \<in> set ws. clock_time a \<and> clock_time b \<and> a < b \<and> previous \<le> a) \<and>
     sorted_wrt (\<lambda>w w'. snd w \<le> fst w') ws"
proof (induction vs arbitrary: previous ws)
  case (Cons v vs)
  from Cons(2) obtain kvs where o: "object v [''start'', ''end''] = Inr kvs" by (cases "object v [''start'', ''end'']") simp_all
  note run = Cons(2) [unfolded parseWindows.simps o and_then.simps]
  from run obtain a where fa: "field kvs ''start'' = Some (JStr a)"
    by (cases "field kvs ''start''"; cases "the (field kvs ''start'')") simp_all
  from run fa obtain b where fb: "field kvs ''end'' = Some (JStr b)"
    by (cases "field kvs ''end''"; cases "the (field kvs ''end'')") simp_all
  note run = run [unfolded fa fb, simplified]
  from run have c: "clock_time a" "clock_time b" "a < b" "previous \<le> a" by (auto split: if_split_asm)
  from run c obtain ws' where ws: "parseWindows b vs = Inr ws'" "ws = (a, b) # ws'"
    by (cases "parseWindows b vs") (auto split: if_split_asm)
  have "length ws' = length vs \<and> (\<forall>(x, y) \<in> set ws'. clock_time x \<and> clock_time y \<and> x < y \<and> b \<le> x) \<and>
     sorted_wrt (\<lambda>w w'. snd w \<le> fst w') ws'"
    by (rule Cons(1) [OF ws(1)])
  then show ?case using c ws by fastforce
qed simp

text \<open>
  C10. The windows of an accepted availability are at most 24 well-formed clock intervals of positive
  length in ascending order, none starting before the previous one ends, so they are pairwise
  disjoint; the day is a calendar date and the expected version a non-negative safe integer.
\<close>

theorem availability_windows_disjoint:
  assumes "parseAvailabilityWrite date input = Inr w"
  shows "length (aw_windows w) \<le> 24 \<and> validateDate (Some (JStr date)) = Inr date \<and>
    (\<forall>(a, b) \<in> set (aw_windows w). clock_time a \<and> clock_time b \<and> a < b) \<and>
    sorted_wrt (\<lambda>x y. snd x \<le> fst y) (aw_windows w) \<and>
    0 \<le> aw_expectedVersion w \<and> aw_expectedVersion w \<le> max_safe_integer"
proof -
  have "validateDate (Some (JStr date)) = Inr r \<Longrightarrow> r = date" for r
    by (simp add: validateDate_iff_dates)
  then have d: "validateDate (Some (JStr date)) = Inr date"
    using assms by (cases "validateDate (Some (JStr date))") (auto simp: parseAvailabilityWrite_def)
  note run = assms [unfolded parseAvailabilityWrite_def d and_then.simps]
  from run obtain kvs where o: "object input [''expectedVersion'', ''windows'', ''status''] = Inr kvs"
    by (cases "object input [''expectedVersion'', ''windows'', ''status'']") simp_all
  note run = run [unfolded o and_then.simps]
  from run obtain vs where vs: "field kvs ''windows'' = Some (JArr vs)"
    by (cases "field kvs ''windows''"; cases "the (field kvs ''windows'')") simp_all
  note run = run [unfolded vs option.case json.case]
  from run have l: "length vs \<le> 24" by (simp split: if_split_asm)
  from run obtain ws where ws: "parseWindows [] vs = Inr ws" by (cases "parseWindows [] vs") (simp_all split: if_split_asm)
  from run ws obtain n where n: "version (field kvs ''expectedVersion'') 0 = Inr n" "aw_windows w = ws" "aw_expectedVersion w = n"
    by (cases "version (field kvs ''expectedVersion'') 0") (auto split: if_split_asm)
  have "0 \<le> n \<and> n \<le> max_safe_integer"
    using n(1) as_safe_integer_bound by (fastforce simp: version_def split: option.splits json.splits if_split_asm)
  then show ?thesis using d l n parseWindows_ordered [OF ws] by auto
qed

theorem availability_windows_disjoint_witness:
  "\<exists>w. parseAvailabilityWrite (show_date (2024, 2, 29)) (JObj [(js ''expectedVersion'', JNum (Num 3)),
      (js ''windows'', JArr [JObj [(js ''start'', JStr (js ''09:00'')), (js ''end'', JStr (js ''12:30''))]]),
      (js ''status'', JStr (js ''published''))]) = Inr w \<and> length (aw_windows w) \<le> 24 \<and> aw_expectedVersion w \<le> max_safe_integer"
proof -
  have "validateDate (Some (JStr (show_date (2024, 2, 29)))) = Inr (show_date (2024, 2, 29))"
    unfolding validateDate_iff_dates
    by (intro conjI exI [of _ 2024] exI [of _ 2] exI [of _ 29]) (simp_all add: days_in_month_def leap_year_def)
  moreover have "clock_time (js ''09:00'')" "clock_time (js ''12:30'')" "js ''09:00'' < js ''12:30''"
    by (simp_all add: clock_time_def js_simps is_digit_def digits_value_def)
  ultimately have "\<exists>w. parseAvailabilityWrite (show_date (2024, 2, 29)) (JObj [(js ''expectedVersion'', JNum (Num 3)),
      (js ''windows'', JArr [JObj [(js ''start'', JStr (js ''09:00'')), (js ''end'', JStr (js ''12:30''))]]),
      (js ''status'', JStr (js ''published''))]) = Inr w"
    by (simp add: parseAvailabilityWrite_def object_def keys_within_def field_def keyword_def version_def
        as_safe_integer_def max_safe_integer_def)
  then show ?thesis using availability_windows_disjoint by blast
qed

text \<open>
  An action is checked as the string it converts to but compared as the value it is: the
  one-element array \<open>["cancel"]\<close> passes the validation of a transition, and the transition of a
  proposed alternative then confirms the intent where the string \<open>"cancel"\<close> cancels it.
\<close>

theorem array_action_confirms:
  "\<exists>quirk plain.
     parseBookingTransition (JObj [(js ''action'', JArr [JStr (js ''cancel'')]), (js ''expectedVersion'', JNum (Num 1))]) = Inr quirk \<and>
     parseBookingTransition (JObj [(js ''action'', JStr (js ''cancel'')), (js ''expectedVersion'', JNum (Num 1))]) = Inr plain \<and>
     resolveTransition Alternative_proposed (Some (a # x)) (Some (b # y)) quirk =
       Inr \<lparr>tr_status = Confirmed, tr_confirmed = Some (a # x, b # y), tr_alternative = None\<rparr> \<and>
     resolveTransition Alternative_proposed (Some (a # x)) (Some (b # y)) plain =
       Inr \<lparr>tr_status = Cancelled, tr_confirmed = None, tr_alternative = None\<rparr>"
  by (simp add: parseBookingTransition_def object_def keys_within_def field_def interval_def keyword_def is_action_def
      version_def as_safe_integer_def max_safe_integer_def resolveTransition_def nonempty_def Let_def)

end
