(* ===== verification/RagRegistry.thy ===== *)
theory RagRegistry
  imports Knowledge JsonText Bytes StoreOpsContracts
begin

text \<open>
  The registry of private knowledge of \<open>src/retrieval/fastapi.ts\<close> with the tables of
  \<open>migrations/004_job_ready_rag.sql\<close>: the registration boundary, the canonical chunks of a document,
  and the two operations of \<open>PostgresRagRegistry\<close>. Every failure is the same error. A registration
  locks each document before it reads it, so its transaction is a function; \<open>stops\<close> says at which
  of its checks the abort signal is seen, and \<open>answer\<close> what becomes of the commit. The rows of the
  chunk table belong to the external indexer. SHA-256 of a text is a parameter.
\<close>

section \<open>The registration boundary\<close>

record chunk =
  ch_chunkId :: jstring
  ch_ordinal :: nat
  ch_text :: jstring
  ch_chunkSha256 :: jstring
  ch_embeddingProfileId :: jstring

record registered_document =
  rd_entry :: knowledge_entry
  rd_active :: bool
  rd_contentSha256 :: jstring
  rd_chunks :: "chunk list"

definition stringValue :: "jstring \<Rightarrow> nat \<Rightarrow> bool \<Rightarrow> bool" where
  "stringValue v limit allowWhitespace \<longleftrightarrow>
     (if allowWhitespace then v \<noteq> [] else trim v \<noteq> []) \<and> is_well_formed v \<and> 0 \<notin> set v \<and>
     length (code_points v) \<le> limit"

definition scopeValue :: "retrieval_context \<Rightarrow> bool" where
  "scopeValue s \<longleftrightarrow> stringValue (rc_tenantId s) 200 False \<and> stringValue (rc_storeId s) 200 False"

definition registrable :: "retrieval_context \<Rightarrow> knowledge_entry \<Rightarrow> bool" where
  "registrable scope e \<longleftrightarrow>
     stringValue (ke_id e) 200 False \<and> stringValue (ke_version e) 200 False \<and> stringValue (ke_content e) 16000 False \<and>
     stringValue (ke_sourceRef e) (256 * 1024) False \<and> stringValue (ke_title e) 16000 False \<and>
     list_all (\<lambda>t. is_well_formed t \<and> 0 \<notin> set t) (ke_tags e) \<and>
     ke_status e = approved \<and> ke_tenantScope e = Some (rc_tenantId scope) \<and> ke_storeScope e = Some (rc_storeId scope)"

definition validatePrivateRegistration :: "knowledge_entry list \<Rightarrow> retrieval_context \<Rightarrow> knowledge_entry list option" where
  "validatePrivateRegistration entries scope =
     (if \<not> scopeValue scope \<or> entries = [] then None
      else (case validateKnowledgeEntries entries of
          Inl _ \<Rightarrow> None
        | Inr _ \<Rightarrow> if list_all (registrable scope) entries then Some entries else None))"

section \<open>Chunks\<close>

function pieces :: "nat \<Rightarrow> 'a list \<Rightarrow> 'a list list" where
  "pieces n xs = (if xs = [] \<or> n = 0 then [] else take n xs # pieces n (drop n xs))"
  by pat_completeness auto
termination by (relation "measure (\<lambda>(n, xs). length xs)") auto

declare pieces.simps [simp del]

definition chunk_texts :: "jstring \<Rightarrow> jstring list" where
  "chunk_texts content = map concat (pieces 2000 (code_points content))"

definition chunk_key :: "knowledge_entry \<Rightarrow> jstring \<Rightarrow> nat \<Rightarrow> jstring \<Rightarrow> jtext" where
  "chunk_key e profile ordinal chunkSha256 =
     TArr [TStr (the (ke_tenantScope e)), TStr (the (ke_storeScope e)), TStr (ke_id e), TStr (ke_version e), TStr profile,
       TNat ordinal, TStr chunkSha256]"

definition chunk_of :: "(jstring \<Rightarrow> jstring) \<Rightarrow> knowledge_entry \<Rightarrow> jstring \<Rightarrow> nat \<Rightarrow> jstring \<Rightarrow> chunk" where
  "chunk_of sha e profile ordinal t =
     \<lparr>ch_chunkId = sha (stringify (chunk_key e profile ordinal (sha t))), ch_ordinal = ordinal, ch_text = t,
      ch_chunkSha256 = sha t, ch_embeddingProfileId = profile\<rparr>"

definition canonicalChunks :: "(jstring \<Rightarrow> jstring) \<Rightarrow> knowledge_entry \<Rightarrow> jstring \<Rightarrow> chunk list option" where
  "canonicalChunks sha e profile =
     (case (ke_tenantScope e, ke_storeScope e) of
        (Some t, Some s) \<Rightarrow>
          if \<not> stringValue profile 200 False \<or> validatePrivateRegistration [e] \<lparr>rc_tenantId = t, rc_storeId = s\<rparr> = None then None
          else (let texts = chunk_texts (ke_content e) in
            Some (map (\<lambda>(i, x). chunk_of sha e profile i x) (zip [0..<length texts] texts)))
      | _ \<Rightarrow> None)"

definition validateCompleteChunkGeneration :: "(jstring \<Rightarrow> jstring) \<Rightarrow> knowledge_entry \<Rightarrow> chunk list \<Rightarrow> jstring \<Rightarrow> bool" where
  "validateCompleteChunkGeneration sha e storedChunks profile =
     (case canonicalChunks sha e profile of
        None \<Rightarrow> False
      | Some expectedChunks \<Rightarrow> length storedChunks = length expectedChunks \<and>
          list_all (\<lambda>x. filter (\<lambda>stored. ch_ordinal stored = ch_ordinal x) storedChunks = [x]) expectedChunks)"

section \<open>The tables\<close>

record rag_document =
  dc_tenantId :: jstring
  dc_storeId :: jstring
  dc_documentId :: jstring
  dc_version :: jstring
  dc_kind :: jstring
  dc_title :: jstring
  dc_content :: jstring
  dc_contentSha256 :: jstring
  dc_sourceRef :: jstring
  dc_updatedDate :: jstring
  dc_tags :: "jstring list"
  dc_status :: jstring
  dc_active :: bool

record chunk_row =
  cr_tenantId :: jstring
  cr_storeId :: jstring
  cr_documentId :: jstring
  cr_version :: jstring
  cr_chunk :: chunk

record registry =
  rg_stores :: "(jstring \<times> jstring) list"
  rg_documents :: "rag_document list"
  rg_chunks :: "chunk_row list"

definition retired :: jstring where
  "retired = js ''retired''"

definition document_at :: "retrieval_context \<Rightarrow> jstring \<Rightarrow> rag_document \<Rightarrow> bool" where
  "document_at scope i d \<longleftrightarrow> dc_tenantId d = rc_tenantId scope \<and> dc_storeId d = rc_storeId scope \<and> dc_documentId d = i"

definition document_row :: "(jstring \<Rightarrow> jstring) \<Rightarrow> retrieval_context \<Rightarrow> knowledge_entry \<Rightarrow> rag_document" where
  "document_row sha scope e =
     \<lparr>dc_tenantId = rc_tenantId scope, dc_storeId = rc_storeId scope, dc_documentId = ke_id e, dc_version = ke_version e,
      dc_kind = ke_kind e, dc_title = ke_title e, dc_content = ke_content e, dc_contentSha256 = sha (ke_content e),
      dc_sourceRef = ke_sourceRef e, dc_updatedDate = ke_updatedAt e, dc_tags = ke_tags e, dc_status = approved,
      dc_active = True\<rparr>"

definition retire :: "rag_document \<Rightarrow> rag_document" where
  "retire d = d\<lparr>dc_status := retired, dc_active := False\<rparr>"

text \<open>The date column takes real dates from the year 1 on.\<close>

definition date_column :: "jstring \<Rightarrow> bool" where
  "date_column v \<longleftrightarrow> year_of v \<ge> 1 \<and> day_of v \<le> days_in_month (year_of v) (month_of v)"

text \<open>One document: a row of the version must be the active, identical one; otherwise the active row
  of the document is retired and the new version inserted.\<close>

definition register_entry ::
  "(jstring \<Rightarrow> jstring) \<Rightarrow> retrieval_context \<Rightarrow> knowledge_entry \<Rightarrow> registry \<Rightarrow> (unit, registry) result" where
  "register_entry sha scope e rg =
     (case List.find (\<lambda>d. document_at scope (ke_id e) d \<and> dc_version d = ke_version e) (rg_documents rg) of
        Some d \<Rightarrow> if d = document_row sha scope e then Inr rg else Inl ()
      | None \<Rightarrow>
          if (rc_tenantId scope, rc_storeId scope) \<notin> set (rg_stores rg) \<or> \<not> date_column (ke_updatedAt e) then Inl ()
          else Inr (rg\<lparr>rg_documents :=
            map (\<lambda>d. if document_at scope (ke_id e) d \<and> dc_active d then retire d else d) (rg_documents rg) @
              [document_row sha scope e]\<rparr>))"

fun register_all ::
  "(jstring \<Rightarrow> jstring) \<Rightarrow> retrieval_context \<Rightarrow> nat option \<Rightarrow> knowledge_entry list \<Rightarrow> registry \<Rightarrow> (unit, registry) result" where
  "register_all sha scope stops [] rg = (if stops = Some 0 then Inl () else Inr rg)"
| "register_all sha scope stops (e # es) rg =
     (if stops = Some 0 then Inl ()
      else and_then (register_entry sha scope e rg) (register_all sha scope (map_option (\<lambda>n. n - 1) stops) es))"

datatype commit_answer = Committed | Not_committed | Answer_lost

definition register ::
  "(jstring \<Rightarrow> jstring) \<Rightarrow> nat option \<Rightarrow> commit_answer \<Rightarrow> knowledge_entry list \<Rightarrow> retrieval_context \<Rightarrow> registry \<Rightarrow>
     registry \<times> (unit, unit) result" where
  "register sha stops answer entries scope rg =
     (case validatePrivateRegistration entries scope of
        None \<Rightarrow> (rg, Inl ())
      | Some approved_entries \<Rightarrow>
          (case register_all sha scope stops (sort_by (\<lambda>a b. ke_id a \<le> ke_id b) approved_entries) rg of
             Inl _ \<Rightarrow> (rg, Inl ())
           | Inr rg' \<Rightarrow> (case answer of
               Committed \<Rightarrow> (rg', Inr ()) | Not_committed \<Rightarrow> (rg, Inl ()) | Answer_lost \<Rightarrow> (rg', Inl ()))))"

definition entry_of :: "rag_document \<Rightarrow> knowledge_entry" where
  "entry_of d =
     \<lparr>ke_id = dc_documentId d, ke_kind = dc_kind d, ke_status = dc_status d, ke_title = dc_title d,
      ke_content = dc_content d, ke_version = dc_version d, ke_updatedAt = dc_updatedDate d,
      ke_tenantScope = Some (dc_tenantId d), ke_storeScope = Some (dc_storeId d), ke_sourceRef = dc_sourceRef d,
      ke_tags = dc_tags d\<rparr>"

definition chunks_for :: "registry \<Rightarrow> rag_document \<Rightarrow> jstring \<Rightarrow> chunk list" where
  "chunks_for rg d profile = sort_by (\<lambda>a b. ch_ordinal a \<le> ch_ordinal b)
     (map cr_chunk (filter (\<lambda>c. cr_tenantId c = dc_tenantId d \<and> cr_storeId c = dc_storeId d \<and>
        cr_documentId c = dc_documentId d \<and> cr_version c = dc_version d \<and>
        ch_embeddingProfileId (cr_chunk c) = profile) (rg_chunks rg)))"

definition current :: "registry \<Rightarrow> retrieval_context \<Rightarrow> jstring list \<Rightarrow> jstring \<Rightarrow> registered_document list option" where
  "current rg scope ids profile =
     (if \<not> scopeValue scope \<or> \<not> stringValue profile 200 False \<or> length ids > 3 \<or>
        \<not> list_all (\<lambda>i. stringValue i 200 False) ids then None
      else Some (map (\<lambda>d. \<lparr>rd_entry = entry_of d, rd_active = dc_active d, rd_contentSha256 = dc_contentSha256 d,
            rd_chunks = chunks_for rg d profile\<rparr>)
          (filter (\<lambda>d. dc_tenantId d = rc_tenantId scope \<and> dc_storeId d = rc_storeId scope \<and>
             dc_documentId d \<in> set ids \<and> dc_active d \<and> dc_status d = approved) (rg_documents rg))))"

end
