(* ===== verification/WeComCrypto.thy ===== *)
theory WeComCrypto
  imports JsonText Bytes
begin

text \<open>
  The verified callbacks of \<open>src/channels/wecom/crypto.ts\<close>: the query of a callback, its time and
  signature, the encrypted element of its body, the decryption of a message and the fields of the
  decrypted event. Every failure is the same error, so a verifier gives an option. SHA-1 of a byte
  string and the AES-CBC decryption (key, ciphertext) are parameters; the latter gives \<open>None\<close>
  where the cipher throws.
\<close>

section \<open>Decoding text\<close>

text \<open>The fatal decoder of UTF-8: overlong forms, surrogates and values above 0x10FFFF are errors.\<close>

definition continuation :: "byte \<Rightarrow> bool" where
  "continuation b \<longleftrightarrow> 0x80 \<le> unat b \<and> unat b \<le> 0xBF"

definition units_of :: "nat \<Rightarrow> jstring" where
  "units_of p = (if p < 0x10000 then [p] else [0xD800 + (p - 0x10000) div 0x400, 0xDC00 + (p - 0x10000) mod 0x400])"

fun utf8_next :: "byte list \<Rightarrow> (nat \<times> nat) option" where
  "utf8_next [] = None"
| "utf8_next (a # r) =
     (let n = unat a in
      if n < 0x80 then Some (n, 1)
      else (case r of
          [] \<Rightarrow> None
        | b # r \<Rightarrow>
            if \<not> continuation b then None
            else if 0xC2 \<le> n \<and> n \<le> 0xDF then Some ((n - 0xC0) * 64 + (unat b - 0x80), 2)
            else (case r of
                [] \<Rightarrow> None
              | c # r \<Rightarrow>
                  if \<not> continuation c then None
                  else if 0xE0 \<le> n \<and> n \<le> 0xEF then
                    (if (n = 0xE0 \<and> unat b < 0xA0) \<or> (n = 0xED \<and> unat b > 0x9F) then None
                     else Some (((n - 0xE0) * 64 + (unat b - 0x80)) * 64 + (unat c - 0x80), 3))
                  else (case r of
                      [] \<Rightarrow> None
                    | d # r \<Rightarrow>
                        if \<not> continuation d \<or> n < 0xF0 \<or> n > 0xF4 \<or> (n = 0xF0 \<and> unat b < 0x90) \<or>
                          (n = 0xF4 \<and> unat b > 0x8F) then None
                        else Some ((((n - 0xF0) * 64 + (unat b - 0x80)) * 64 + (unat c - 0x80)) * 64 + (unat d - 0x80), 4)))))"

function utf8_decode :: "byte list \<Rightarrow> jstring option" where
  "utf8_decode bs =
     (if bs = [] then Some []
      else (case utf8_next bs of
          None \<Rightarrow> None
        | Some (p, n) \<Rightarrow> map_option ((@) (units_of p)) (utf8_decode (drop (max 1 n) bs))))"
  by pat_completeness auto
termination by (relation "measure length") auto

declare utf8_decode.simps [simp del]

text \<open>A decoder drops a byte order mark at the start.\<close>

definition decode_text :: "byte list \<Rightarrow> jstring option" where
  "decode_text bs = utf8_decode (if take 3 bs = [0xEF, 0xBB, 0xBF] then drop 3 bs else bs)"

section \<open>The query of a callback\<close>

type_synonym query = "(jstring \<times> jstring) list"

record callback_query =
  cq_msgSignature :: jstring
  cq_timestamp :: jstring
  cq_nonce :: jstring

definition CALLBACK_FIELDS :: "jstring list" where
  "CALLBACK_FIELDS = [js ''msg_signature'', js ''timestamp'', js ''nonce'', js ''echostr'']"

definition getAll :: "query \<Rightarrow> jstring \<Rightarrow> jstring list" where
  "getAll q k = map snd (filter (\<lambda>kv. fst kv = k) q)"

definition exactly_once :: "jstring list \<Rightarrow> query \<Rightarrow> bool" where
  "exactly_once names q \<longleftrightarrow> length q = length names \<and> list_all (\<lambda>kv. fst kv \<in> set names) q \<and>
     list_all (\<lambda>f. length (getAll q f) = 1) names"

definition boundedQueryValue :: "query \<Rightarrow> jstring \<Rightarrow> nat \<Rightarrow> jstring option" where
  "boundedQueryValue q f maxLength = (case map_of q f of
     None \<Rightarrow> None
   | Some v \<Rightarrow> if v = [] \<or> length v > maxLength \<or> 0 \<in> set v \<or> \<not> is_well_formed v then None else Some v)"

definition signature_shape :: "jstring \<Rightarrow> bool" where
  "signature_shape s \<longleftrightarrow> length s = 40 \<and> list_all is_hex s"

definition timestamp_shape :: "jstring \<Rightarrow> bool" where
  "timestamp_shape s \<longleftrightarrow> 1 \<le> length s \<and> length s \<le> 20 \<and> list_all is_digit s"

text \<open>\<open>/^[A-Za-z0-9+/]+={0,2}$/\<close>\<close>

definition base64_shape :: "jstring \<Rightarrow> bool" where
  "base64_shape s \<longleftrightarrow> (let r = dropWhile is_base64 s in takeWhile is_base64 s \<noteq> [] \<and> r \<in> {[], [61], [61, 61]})"

definition parse_query_fields :: "query \<Rightarrow> callback_query option" where
  "parse_query_fields q =
     (case (boundedQueryValue q (js ''msg_signature'') 40, boundedQueryValue q (js ''timestamp'') 20,
         boundedQueryValue q (js ''nonce'') 128) of
        (Some s, Some t, Some n) \<Rightarrow>
          if signature_shape s \<and> timestamp_shape t
          then Some \<lparr>cq_msgSignature = s, cq_timestamp = t, cq_nonce = n\<rparr> else None
      | _ \<Rightarrow> None)"

definition parseEventQuery :: "query \<Rightarrow> callback_query option" where
  "parseEventQuery q = (if \<not> exactly_once (take 3 CALLBACK_FIELDS) q then None else parse_query_fields q)"

definition parseVerificationQuery :: "query \<Rightarrow> (callback_query \<times> jstring) option" where
  "parseVerificationQuery q =
     (if \<not> exactly_once CALLBACK_FIELDS q then None
      else (case (parse_query_fields q, boundedQueryValue q (js ''echostr'') 8192) of
          (Some c, Some e) \<Rightarrow> if length e mod 4 \<noteq> 0 \<or> \<not> base64_shape e then None else Some (c, e)
        | _ \<Rightarrow> None))"

section \<open>Time and signature\<close>

text \<open>\<open>now\<close> is the time in milliseconds, \<open>None\<close> for an invalid date.\<close>

definition validateTimestamp :: "jstring \<Rightarrow> int option \<Rightarrow> int \<Rightarrow> bool" where
  "validateTimestamp timestamp now skew = (case now of
     None \<Rightarrow> False
   | Some ms \<Rightarrow> \<bar>int (digits_value timestamp) - ms div 1000\<bar> \<le> skew)"

definition hex_value :: "nat \<Rightarrow> nat" where
  "hex_value c = (if c < 58 then c - 48 else if c < 71 then c - 55 else c - 87)"

text \<open>\<open>Buffer.from(s, "hex")\<close> stops at the first pair that is not hexadecimal.\<close>

fun from_hex :: "jstring \<Rightarrow> byte list" where
  "from_hex (a # b # s) = (if is_hex a \<and> is_hex b then of_nat (hex_value a * 16 + hex_value b) # from_hex s else [])"
| "from_hex _ = []"

definition signed_text :: "jstring \<Rightarrow> jstring \<Rightarrow> jstring \<Rightarrow> jstring \<Rightarrow> jstring" where
  "signed_text token timestamp nonce encrypted = concat (sort [token, timestamp, nonce, encrypted])"

definition verifySignature ::
  "(byte list \<Rightarrow> byte list) \<Rightarrow> jstring \<Rightarrow> jstring \<Rightarrow> jstring \<Rightarrow> jstring \<Rightarrow> jstring \<Rightarrow> bool" where
  "verifySignature sha1 token timestamp nonce encrypted msgSignature \<longleftrightarrow>
     from_hex msgSignature = sha1 (utf8 (signed_text token timestamp nonce encrypted))"

section \<open>Elements of a document\<close>

text \<open>
  \<open>/<F>\s*(?:<!\[CDATA\[([\s\S]*?)\]\]>|([^<]*))\s*<\/F>/g\<close>: after the opening tag the white space is
  taken whole, for a CDATA section begins with \<open><\<close> and plain content ends before one; the section
  ends at the first \<open>]]>\<close> that only white space separates from the closing tag.
\<close>

definition open_tag :: "jstring \<Rightarrow> jstring" where
  "open_tag f = [60] @ f @ [62]"

definition close_tag :: "jstring \<Rightarrow> jstring" where
  "close_tag f = [60, 47] @ f @ [62]"

definition after_space :: "jstring \<Rightarrow> jstring \<Rightarrow> jstring option" where
  "after_space p s = (let r = dropWhile is_space s in if starts_with p r then Some (drop (length p) r) else None)"

fun cdata_content :: "jstring \<Rightarrow> jstring \<Rightarrow> (jstring \<times> jstring) option" where
  "cdata_content close s =
     (case (if starts_with [93, 93, 62] s then after_space close (drop 3 s) else None) of
        Some rest \<Rightarrow> Some ([], rest)
      | None \<Rightarrow> (case s of [] \<Rightarrow> None | c # s' \<Rightarrow> map_option (\<lambda>(v, r). (c # v, r)) (cdata_content close s')))"

declare cdata_content.simps [simp del]

definition element_content :: "jstring \<Rightarrow> jstring \<Rightarrow> (jstring \<times> jstring) option" where
  "element_content f s =
     (let r = dropWhile is_space s in
      if starts_with (js ''<![CDATA['') r then cdata_content (close_tag f) (drop 9 r)
      else (let v = takeWhile (\<lambda>c. c \<noteq> 60) r; r' = dropWhile (\<lambda>c. c \<noteq> 60) r in
        if starts_with (close_tag f) r' then Some (v, drop (length (close_tag f)) r') else None))"

definition element_at :: "jstring \<Rightarrow> jstring \<Rightarrow> (jstring \<times> jstring) option" where
  "element_at f s = (if starts_with (open_tag f) s then element_content f (drop (length (open_tag f)) s) else None)"

lemma cdata_content_length: "cdata_content close s = Some (v, r) \<Longrightarrow> length r \<le> length s"
proof (induction s arbitrary: v r)
  case (Cons c s)
  then show ?case
    by (auto simp: cdata_content.simps [of close "c # s"] after_space_def Let_def le_diff_conv split: option.splits if_splits
        dest: Cons.IH intro!: le_trans [OF diff_le_self] le_trans [OF length_dropWhile_le])
qed (auto simp: cdata_content.simps)

lemma element_content_length: "element_content f s = Some (v, r) \<Longrightarrow> length r \<le> length s"
proof -
  have drops: "length (dropWhile P (drop n xs)) \<le> length xs" "length (drop n (dropWhile P xs)) \<le> length xs" for P n and xs :: jstring
    using length_dropWhile_le [of P "drop n xs"] length_dropWhile_le [of P xs] by simp_all
  assume "element_content f s = Some (v, r)"
  then show ?thesis using length_dropWhile_le [of is_space s]
    by (auto simp: element_content_def Let_def split: if_splits dest!: cdata_content_length
        intro: order_trans [OF _ length_dropWhile_le] drops)
qed

lemma element_at_length: "element_at f s = Some (v, r) \<Longrightarrow> length r < length s"
  by (cases s) (auto simp: element_at_def open_tag_def starts_with_iff split: if_splits dest!: element_content_length)

function elements :: "jstring \<Rightarrow> jstring \<Rightarrow> jstring list" where
  "elements f s =
     (case element_at f s of
        Some (v, rest) \<Rightarrow> v # elements f rest
      | None \<Rightarrow> (case s of [] \<Rightarrow> [] | c # s' \<Rightarrow> elements f s'))"
  by pat_completeness auto
termination by (relation "measure (\<lambda>(f, s). length s)") (auto dest: element_at_length)

declare elements.simps [simp del]

definition encryptedXmlValue :: "jstring \<Rightarrow> jstring option" where
  "encryptedXmlValue body =
     (if body = [] \<or> length body > 64 * 1024 \<or> 0 \<in> set body \<or> \<not> is_well_formed body then None
      else (case elements (js ''Encrypt'') body of
          [v] \<Rightarrow> (let e = trim v in
            if e = [] \<or> length e > 8192 \<or> length e mod 4 \<noteq> 0 \<or> \<not> base64_shape e then None else Some e)
        | _ \<Rightarrow> None))"

definition xmlField :: "jstring \<Rightarrow> string \<Rightarrow> nat \<Rightarrow> jstring option" where
  "xmlField xml f maxLength =
     (case elements (js f) xml of
        [v] \<Rightarrow> (let x = trim v in
          if x = [] \<or> length x > maxLength \<or> 0 \<in> set x \<or> \<not> is_well_formed x then None else Some x)
      | _ \<Rightarrow> None)"

section \<open>Decryption\<close>

definition stripPkcs7Padding :: "byte list \<Rightarrow> byte list option" where
  "stripPkcs7Padding v =
     (if v = [] then None
      else (let n = unat (last v) in
        if n < 1 \<or> n > 32 \<or> n > length v then None
        else if list_all (\<lambda>b. b = last v) (drop (length v - n) v) then Some (take (length v - n) v) else None))"

definition unframe :: "byte list \<Rightarrow> jstring \<Rightarrow> jstring option" where
  "unframe plain corpId =
     (if length plain < 21 then None
      else (let n = be32 (drop 16 plain) in
        if n < 1 \<or> 20 + n > length plain then None
        else if drop (20 + n) plain \<noteq> utf8 corpId then None
        else decode_text (take n (drop 20 plain))))"

definition decryptMessage ::
  "(byte list \<Rightarrow> byte list \<Rightarrow> byte list option) \<Rightarrow> jstring \<Rightarrow> byte list \<Rightarrow> jstring \<Rightarrow> jstring option" where
  "decryptMessage aes encrypted aesKey corpId =
     (let ciphertext = from_base64 encrypted in
      if ciphertext = [] \<or> length ciphertext mod 16 \<noteq> 0 then None
      else (case aes aesKey ciphertext of
          None \<Rightarrow> None
        | Some padded \<Rightarrow> (case stripPkcs7Padding padded of None \<Rightarrow> None | Some plain \<Rightarrow> unframe plain corpId)))"

section \<open>Events and configuration\<close>

record kf_event =
  ke_token :: jstring
  ke_openKfId :: jstring
  ke_createdAtUnix :: nat

definition parseKfMessageEvent :: "jstring \<Rightarrow> jstring \<Rightarrow> kf_event option" where
  "parseKfMessageEvent xml corpId =
     (if xmlField xml ''ToUserName'' 128 \<noteq> Some corpId \<or> xmlField xml ''MsgType'' 32 \<noteq> Some (js ''event'') \<or>
        xmlField xml ''Event'' 64 \<noteq> Some (js ''kf_msg_or_event'') then None
      else (case (xmlField xml ''CreateTime'' 20, xmlField xml ''Token'' 2048, xmlField xml ''OpenKfId'' 128) of
          (Some t, Some token, Some openKfId) \<Rightarrow>
            if \<not> timestamp_shape t \<or> int (digits_value t) > max_safe_integer then None
            else Some \<lparr>ke_token = token, ke_openKfId = openKfId, ke_createdAtUnix = digits_value t\<rparr>
        | _ \<Rightarrow> None))"

definition validateCorpId :: "jstring \<Rightarrow> bool" where
  "validateCorpId v \<longleftrightarrow> v = trim v \<and> 3 \<le> length v \<and> length v \<le> 128 \<and> starts_with (js ''ww'') v \<and>
     \<not> list_ex (\<lambda>c. is_space c \<or> c = 0) v"

definition is_alnum :: "nat \<Rightarrow> bool" where
  "is_alnum c \<longleftrightarrow> is_digit c \<or> (65 \<le> c \<and> c \<le> 90) \<or> (97 \<le> c \<and> c \<le> 122)"

definition validateToken :: "jstring \<Rightarrow> bool" where
  "validateToken v \<longleftrightarrow> 1 \<le> length v \<and> length v \<le> 32 \<and> list_all is_alnum v"

definition decodeEncodingAesKey :: "jstring \<Rightarrow> byte list option" where
  "decodeEncodingAesKey v =
     (if length v \<noteq> 43 \<or> \<not> list_all is_base64 v then None
      else (let k = from_base64 (v @ [61]) in if length k \<noteq> 32 then None else Some k))"

record verifier =
  vf_corpId :: jstring
  vf_token :: jstring
  vf_aesKey :: "byte list"
  vf_maxClockSkewSeconds :: int

definition createWeComCallbackVerifier :: "jstring \<Rightarrow> jstring \<Rightarrow> jstring \<Rightarrow> int option \<Rightarrow> verifier option" where
  "createWeComCallbackVerifier corpId token encodingAesKey skew =
     (if \<not> validateCorpId corpId \<or> \<not> validateToken token then None
      else (case decodeEncodingAesKey encodingAesKey of
          None \<Rightarrow> None
        | Some k \<Rightarrow> (let n = (case skew of None \<Rightarrow> 5 * 60 | Some n \<Rightarrow> n) in
            if n < 0 \<or> n > 3600 then None
            else Some \<lparr>vf_corpId = corpId, vf_token = token, vf_aesKey = k, vf_maxClockSkewSeconds = n\<rparr>)))"

text \<open>The environment: \<open>Inr None\<close> when nothing is configured.\<close>

definition weComCallbackVerifierFromEnv ::
  "jstring option \<Rightarrow> jstring option \<Rightarrow> jstring option \<Rightarrow> (unit, verifier option) result" where
  "weComCallbackVerifierFromEnv corpId token key =
     (let provided = filter (\<lambda>v. case v of None \<Rightarrow> False | Some s \<Rightarrow> trim s \<noteq> []) [corpId, token, key] in
      if provided = [] then Inr None
      else if length provided \<noteq> 3 then Inl ()
      else (case createWeComCallbackVerifier (trim (the corpId)) (trim (the token)) (trim (the key)) None of
          None \<Rightarrow> Inl () | Some v \<Rightarrow> Inr (Some v)))"

section \<open>The verifier\<close>

definition verifyUrl ::
  "(byte list \<Rightarrow> byte list) \<Rightarrow> (byte list \<Rightarrow> byte list \<Rightarrow> byte list option) \<Rightarrow> verifier \<Rightarrow> int option \<Rightarrow> query \<Rightarrow> jstring option" where
  "verifyUrl sha1 aes v now q =
     (case parseVerificationQuery q of
        None \<Rightarrow> None
      | Some (c, echostr) \<Rightarrow>
          if \<not> validateTimestamp (cq_timestamp c) now (vf_maxClockSkewSeconds v) \<or>
            \<not> verifySignature sha1 (vf_token v) (cq_timestamp c) (cq_nonce c) echostr (cq_msgSignature c)
          then None else decryptMessage aes echostr (vf_aesKey v) (vf_corpId v))"

text \<open>What both verifiers of events check before they read the decrypted document.\<close>

definition verified_document ::
  "(byte list \<Rightarrow> byte list) \<Rightarrow> (byte list \<Rightarrow> byte list \<Rightarrow> byte list option) \<Rightarrow> verifier \<Rightarrow> int option \<Rightarrow> query \<Rightarrow> jstring \<Rightarrow> jstring option" where
  "verified_document sha1 aes v now q body =
     (case parseEventQuery q of
        None \<Rightarrow> None
      | Some c \<Rightarrow>
          if \<not> validateTimestamp (cq_timestamp c) now (vf_maxClockSkewSeconds v) then None
          else (case encryptedXmlValue body of
              None \<Rightarrow> None
            | Some encrypted \<Rightarrow>
                if \<not> verifySignature sha1 (vf_token v) (cq_timestamp c) (cq_nonce c) encrypted (cq_msgSignature c) then None
                else decryptMessage aes encrypted (vf_aesKey v) (vf_corpId v)))"

definition verifyEvent ::
  "(byte list \<Rightarrow> byte list) \<Rightarrow> (byte list \<Rightarrow> byte list \<Rightarrow> byte list option) \<Rightarrow> verifier \<Rightarrow> int option \<Rightarrow> query \<Rightarrow> jstring \<Rightarrow> kf_event option" where
  "verifyEvent sha1 aes v now q body =
     (case verified_document sha1 aes v now q body of
        None \<Rightarrow> None | Some xml \<Rightarrow> parseKfMessageEvent xml (vf_corpId v))"

end
