(* ===== verification/FastApiRetrieval.thy ===== *)
theory FastApiRetrieval
  imports RagRegistry WeComCrypto
begin

text \<open>
  The client of the retrieval service, \<open>FastApiRetrievalService\<close> of \<open>src/retrieval/fastapi.ts\<close>: the
  bounded response, the validation of an untrusted search response, and the evidence that is
  taken from the registry for its candidates. What the service sends is an argument; the registry
  is the function \<open>registry\<close>, \<open>None\<close> where it fails. \<open>abort\<close> says in which phase the abort signal is
  seen. Every failure is the same error.
\<close>

section \<open>Responses\<close>

record api_response =
  ar_status :: nat
  ar_contentType :: "jstring option"
  ar_parts :: "byte list list option"
  ar_broken :: bool

fun read_parts :: "byte list list \<Rightarrow> nat \<Rightarrow> byte list option" where
  "read_parts [] n = Some []"
| "read_parts (p # ps) n =
     (if n + length p > 256 * 1024 then None else map_option ((@) p) (read_parts ps (n + length p)))"

definition boundedJson :: "(jstring \<Rightarrow> json option) \<Rightarrow> api_response \<Rightarrow> json option" where
  "boundedJson parse r =
     (if ar_status r \<noteq> 200 \<or> map_option (\<lambda>h. trim (hd (split_on 59 h))) (ar_contentType r) \<noteq> Some (js ''application/json'')
      then None
      else (case ar_parts r of
          None \<Rightarrow> None
        | Some parts \<Rightarrow>
            if ar_broken r then None
            else (case read_parts parts 0 of
                None \<Rightarrow> None
              | Some bs \<Rightarrow> (case decode_text bs of None \<Rightarrow> None | Some t \<Rightarrow> parse t))))"

section \<open>Requests\<close>

record rag_client =
  rl_serviceCredential :: jstring
  rl_embeddingProfileId :: jstring

text \<open>The endpoint as the host parses it.\<close>

record endpoint =
  ep_protocol :: jstring
  ep_username :: jstring
  ep_password :: jstring
  ep_search :: jstring
  ep_hash :: jstring
  ep_pathname :: jstring

definition newFastApiRetrieval :: "endpoint option \<Rightarrow> jstring \<Rightarrow> jstring \<Rightarrow> rag_client option" where
  "newFastApiRetrieval ep credential profile =
     (case ep of
        None \<Rightarrow> None
      | Some u \<Rightarrow>
          if ep_protocol u \<notin> {js ''http:'', js ''https:''} \<or> ep_username u \<noteq> [] \<or> ep_password u \<noteq> [] \<or>
            ep_search u \<noteq> [] \<or> ep_hash u \<noteq> [] \<or> ep_pathname u \<noteq> [47] \<or>
            \<not> stringValue credential 4096 False \<or> 13 \<in> set credential \<or> 10 \<in> set credential \<or>
            \<not> stringValue profile 200 False
          then None else Some \<lparr>rl_serviceCredential = credential, rl_embeddingProfileId = profile\<rparr>)"

definition scope_text :: "retrieval_context \<Rightarrow> jtext" where
  "scope_text s = TObj [(js ''tenantId'', TStr (rc_tenantId s)), (js ''storeId'', TStr (rc_storeId s))]"

definition search_body :: "jstring \<Rightarrow> retrieval_context \<Rightarrow> jstring \<Rightarrow> jstring \<Rightarrow> jtext" where
  "search_body requestId scope query profile =
     TObj [(js ''schemaVersion'', TStr (js ''job-ready-v1'')), (js ''requestId'', TStr requestId),
       (js ''scope'', scope_text scope), (js ''query'', TStr query), (js ''topK'', TNat 3),
       (js ''embeddingProfileId'', TStr profile)]"

definition ingest_body :: "(jstring \<Rightarrow> jstring) \<Rightarrow> jstring \<Rightarrow> retrieval_context \<Rightarrow> knowledge_entry \<Rightarrow> jstring \<Rightarrow> jtext" where
  "ingest_body sha requestId scope e profile =
     TObj [(js ''schemaVersion'', TStr (js ''job-ready-v1'')), (js ''requestId'', TStr requestId),
       (js ''scope'', scope_text scope), (js ''documentId'', TStr (ke_id e)), (js ''version'', TStr (ke_version e)),
       (js ''contentSha256'', TStr (sha (ke_content e))), (js ''embeddingProfileId'', TStr profile)]"

text \<open>A request above its limit is not sent; otherwise \<open>reply\<close> is the parsed response to it.\<close>

definition post :: "jtext \<Rightarrow> nat \<Rightarrow> (jtext \<Rightarrow> json option) \<Rightarrow> json option" where
  "post body limit reply = (if byte_length (stringify body) \<le> limit then reply body else None)"

section \<open>The search response\<close>

record candidate =
  cd_chunkId :: jstring
  cd_documentId :: jstring
  cd_version :: jstring
  cd_sourceRef :: jstring
  cd_kind :: jstring
  cd_contentSha256 :: jstring
  cd_chunkSha256 :: jstring
  cd_text :: jstring
  cd_score :: rat
  cd_rank :: nat
  cd_embeddingProfileId :: jstring

definition text_field :: "(jstring \<times> json) list \<Rightarrow> string \<Rightarrow> nat \<Rightarrow> bool \<Rightarrow> jstring option" where
  "text_field c k limit allowWhitespace = (case field c k of
      Some (JStr v) \<Rightarrow> if stringValue v limit allowWhitespace then Some v else None | _ \<Rightarrow> None)"

definition hash_field :: "(jstring \<times> json) list \<Rightarrow> string \<Rightarrow> jstring option" where
  "hash_field c k = (case field c k of
      Some (JStr v) \<Rightarrow> if length v = 64 \<and> list_all is_lower_hex v then Some v else None | _ \<Rightarrow> None)"

definition scope_field :: "(jstring \<times> json) list \<Rightarrow> retrieval_context option" where
  "scope_field c = (case field c ''scope'' of
      Some (JObj s) \<Rightarrow>
        if \<not> keys_exactly s [''tenantId'', ''storeId''] then None
        else (case (text_field s ''tenantId'' 200 False, text_field s ''storeId'' 200 False) of
            (Some t, Some i) \<Rightarrow> Some \<lparr>rc_tenantId = t, rc_storeId = i\<rparr> | _ \<Rightarrow> None)
    | _ \<Rightarrow> None)"

definition score_field :: "(jstring \<times> json) list \<Rightarrow> rat option" where
  "score_field c = (case field c ''score'' of
      Some (JNum (Num n)) \<Rightarrow> if - 1 \<le> n \<and> n \<le> 1 then Some n else None | _ \<Rightarrow> None)"

definition candidate_keys :: "string list" where
  "candidate_keys = [''chunkId'', ''documentId'', ''version'', ''sourceRef'', ''kind'', ''scope'', ''status'', ''contentSha256'',
     ''chunkSha256'', ''text'', ''score'', ''rank'', ''embeddingProfileId'']"

definition parse_candidate :: "retrieval_context \<Rightarrow> jstring \<Rightarrow> jstring list \<Rightarrow> nat \<Rightarrow> json \<Rightarrow> candidate option" where
  "parse_candidate scope profile documents index v =
     (case v of
        JObj c \<Rightarrow>
          if \<not> keys_exactly c candidate_keys then None
          else (case (text_field c ''documentId'' 200 False, text_field c ''version'' 200 False,
                text_field c ''sourceRef'' (256 * 1024) False, text_field c ''text'' 2000 True) of
              (Some i, Some ver, Some src, Some t) \<Rightarrow>
                (case (hash_field c ''chunkId'', hash_field c ''contentSha256'', hash_field c ''chunkSha256'',
                    scope_field c, score_field c, field c ''kind'') of
                   (Some chunkId, Some contentSha, Some chunkSha, Some s, Some sc, Some (JStr kind)) \<Rightarrow>
                     if s \<noteq> scope \<or> field c ''status'' \<noteq> Some (JStr approved) \<or>
                       kind \<notin> {js ''policy'', js ''sop'', js ''reference''} \<or>
                       field c ''embeddingProfileId'' \<noteq> Some (JStr profile) \<or>
                       field c ''rank'' \<noteq> Some (JNum (Num (of_nat (index + 1)))) \<or> i \<in> set documents
                     then None
                     else Some \<lparr>cd_chunkId = chunkId, cd_documentId = i, cd_version = ver, cd_sourceRef = src, cd_kind = kind,
                       cd_contentSha256 = contentSha, cd_chunkSha256 = chunkSha, cd_text = t, cd_score = sc,
                       cd_rank = index + 1, cd_embeddingProfileId = profile\<rparr>
                 | _ \<Rightarrow> None)
            | _ \<Rightarrow> None)
      | _ \<Rightarrow> None)"

fun parse_candidates :: "retrieval_context \<Rightarrow> jstring \<Rightarrow> jstring list \<Rightarrow> nat \<Rightarrow> json list \<Rightarrow> candidate list option" where
  "parse_candidates scope profile documents index [] = Some []"
| "parse_candidates scope profile documents index (v # vs) =
     (case parse_candidate scope profile documents index v of
        None \<Rightarrow> None
      | Some c \<Rightarrow> map_option ((#) c) (parse_candidates scope profile (cd_documentId c # documents) (index + 1) vs))"

definition validateSearchResponse :: "json \<Rightarrow> jstring \<Rightarrow> retrieval_context \<Rightarrow> jstring \<Rightarrow> candidate list option" where
  "validateSearchResponse v requestId scope profile =
     (case v of
        JObj r \<Rightarrow>
          if \<not> keys_exactly r [''schemaVersion'', ''requestId'', ''candidates''] \<or>
            field r ''schemaVersion'' \<noteq> Some (JStr (js ''job-ready-v1'')) \<or> field r ''requestId'' \<noteq> Some (JStr requestId)
          then None
          else (case field r ''candidates'' of
              Some (JArr cs) \<Rightarrow> if length cs > 3 then None else parse_candidates scope profile [] 0 cs
            | _ \<Rightarrow> None)
      | _ \<Rightarrow> None)"

section \<open>Search and ingestion\<close>

record rag_evidence =
  re_id :: jstring
  re_text :: jstring
  re_knowledge :: knowledge_metadata
  re_score :: rat
  re_rank :: nat

definition candidate_evidence ::
  "(jstring \<Rightarrow> jstring) \<Rightarrow> retrieval_context \<Rightarrow> registered_document list \<Rightarrow> candidate \<Rightarrow> rag_evidence option" where
  "candidate_evidence sha scope documents c =
     (case filter (\<lambda>d. ke_id (rd_entry d) = cd_documentId c) documents of
        [doc] \<Rightarrow>
          (case validatePrivateRegistration [rd_entry doc] scope of
             Some [e] \<Rightarrow>
               if \<not> rd_active doc \<or> ke_version e \<noteq> cd_version c \<or> ke_sourceRef e \<noteq> cd_sourceRef c \<or> ke_kind e \<noteq> cd_kind c \<or>
                 rd_contentSha256 doc \<noteq> cd_contentSha256 c \<or> sha (ke_content e) \<noteq> cd_contentSha256 c \<or>
                 \<not> validateCompleteChunkGeneration sha e (rd_chunks doc) (cd_embeddingProfileId c) then None
               else (case (filter (\<lambda>k. ch_chunkId k = cd_chunkId c \<and> ch_embeddingProfileId k = cd_embeddingProfileId c) (rd_chunks doc),
                   canonicalChunks sha e (cd_embeddingProfileId c)) of
                   ([stored], Some canonical) \<Rightarrow>
                     if ch_ordinal stored < length canonical \<and>
                       ch_chunkId (canonical ! ch_ordinal stored) = cd_chunkId c \<and> ch_text stored = cd_text c \<and>
                       ch_text (canonical ! ch_ordinal stored) = cd_text c \<and> ch_chunkSha256 stored = cd_chunkSha256 c \<and>
                       ch_chunkSha256 (canonical ! ch_ordinal stored) = cd_chunkSha256 c
                     then (let k = \<lparr>km_kind = ke_kind e, km_status = ke_status e, km_version = ke_version e,
                           km_sourceRef = ke_sourceRef e, km_tenantScope = ke_tenantScope e, km_storeScope = ke_storeScope e\<rparr>
                       in if isAdmissibleKnowledgeEvidence (Some k) (Some scope) False
                          then Some \<lparr>re_id = ke_id e, re_text = ke_content e, re_knowledge = k, re_score = cd_score c,
                            re_rank = cd_rank c\<rparr>
                          else None)
                     else None
                 | _ \<Rightarrow> None)
           | _ \<Rightarrow> None)
      | _ \<Rightarrow> None)"

definition all_some :: "'a option list \<Rightarrow> 'a list option" where
  "all_some xs = (if None \<in> set xs then None else Some (map the xs))"

datatype search_phase = Before_request | In_request | In_registry | At_end

definition rag_search ::
  "(jstring \<Rightarrow> jstring) \<Rightarrow> rag_client \<Rightarrow> (retrieval_context \<Rightarrow> jstring list \<Rightarrow> jstring \<Rightarrow> registered_document list option) \<Rightarrow>
     (jtext \<Rightarrow> json option) \<Rightarrow> search_phase option \<Rightarrow> jstring \<Rightarrow> jstring \<Rightarrow> retrieval_context option \<Rightarrow> rag_evidence list option" where
  "rag_search sha client registry reply abort requestId query context =
     (case context of
        None \<Rightarrow> None
      | Some scope \<Rightarrow>
          if abort = Some Before_request \<or> \<not> scopeValue scope \<or> \<not> stringValue query 4000 False then None
          else (let profile = rl_embeddingProfileId client in
            case (if abort = Some In_request then None
                  else post (search_body requestId scope query profile) (32 * 1024) reply) of
              None \<Rightarrow> None
            | Some v \<Rightarrow> (case validateSearchResponse v requestId scope profile of
                None \<Rightarrow> None
              | Some candidates \<Rightarrow>
                  (case (if abort = Some In_registry then None else registry scope (map cd_documentId candidates) profile) of
                     None \<Rightarrow> None
                   | Some documents \<Rightarrow>
                       (case all_some (map (candidate_evidence sha scope documents) candidates) of
                          None \<Rightarrow> None
                        | Some evidence \<Rightarrow> if abort = Some At_end then None else Some evidence)))))"

definition ingest ::
  "(jstring \<Rightarrow> jstring) \<Rightarrow> rag_client \<Rightarrow> (jtext \<Rightarrow> json option) \<Rightarrow> bool \<Rightarrow> jstring \<Rightarrow> knowledge_entry \<Rightarrow> retrieval_context \<Rightarrow>
     (jstring \<times> json) list option" where
  "ingest sha client reply aborted requestId e scope =
     (case validatePrivateRegistration [e] scope of
        None \<Rightarrow> None
      | Some _ \<Rightarrow>
          if ke_kind e \<notin> {js ''policy'', js ''sop'', js ''reference''} then None
          else (let profile = rl_embeddingProfileId client in
            case (if aborted then None else post (ingest_body sha requestId scope e profile) (8 * 1024) reply) of
              Some (JObj r) \<Rightarrow>
                if keys_exactly r [''schemaVersion'', ''requestId'', ''documentId'', ''version'', ''contentSha256'',
                    ''embeddingProfileId'', ''chunkCount'', ''outcome''] \<and>
                  field r ''schemaVersion'' = Some (JStr (js ''job-ready-v1'')) \<and>
                  field r ''requestId'' = Some (JStr requestId) \<and> field r ''documentId'' = Some (JStr (ke_id e)) \<and>
                  field r ''version'' = Some (JStr (ke_version e)) \<and>
                  field r ''contentSha256'' = Some (JStr (sha (ke_content e))) \<and>
                  field r ''embeddingProfileId'' = Some (JStr profile) \<and>
                  (case canonicalChunks sha e profile of
                     None \<Rightarrow> False
                   | Some chunks \<Rightarrow> field r ''chunkCount'' = Some (JNum (Num (of_nat (length chunks))))) \<and>
                  (field r ''outcome'' = Some (JStr (js ''indexed'')) \<or>
                   field r ''outcome'' = Some (JStr (js ''already_indexed'')))
                then Some r else None
            | _ \<Rightarrow> None))"

end
