(* ===== verification/Composition.thy ===== *)
theory Composition
  imports Runtime FastApiRetrieval
begin

text \<open>
  How an enterprise application is put together: \<open>src/enterprise/application.ts\<close>,
  \<open>src/enterprise/private-knowledge.ts\<close>, \<open>src/enterprise/vector-retrieval.ts\<close>,
  \<open>src/enterprise/pi-runtime.ts\<close> and \<open>src/private-corpus.ts\<close>. An environment is a function from the
  names of its variables; the corpus directory is a parameter that is read as often as the
  source reads it, and URLs are parsed by the host. Numbers are exact: a literal of more than fifteen
  significant digits is not rounded.
\<close>

section \<open>The environment\<close>

type_synonym environment = "string \<Rightarrow> jstring option"

text \<open>\<open>env.NAME?.trim() || fallback\<close>.\<close>

definition setting :: "environment \<Rightarrow> string \<Rightarrow> jstring \<Rightarrow> jstring" where
  "setting env name fallback =
     (case env name of None \<Rightarrow> fallback | Some v \<Rightarrow> if trim v = [] then fallback else trim v)"

text \<open>\<open>Number(text)\<close>: \<open>None\<close> is \<open>NaN\<close> or infinite.\<close>

definition digits_part :: "jstring \<Rightarrow> jstring \<times> jstring" where
  "digits_part s = (takeWhile is_digit s, dropWhile is_digit s)"

definition signed :: "jstring \<Rightarrow> bool \<times> jstring" where
  "signed s = (if s \<noteq> [] \<and> hd s = 45 then (True, tl s) else if s \<noteq> [] \<and> hd s = 43 then (False, tl s) else (False, s))"

definition exponent_of :: "jstring \<Rightarrow> int option" where
  "exponent_of s =
     (if s = [] then Some 0
      else if hd s = 101 \<or> hd s = 69
      then (case signed (tl s) of (negative, ds) \<Rightarrow>
          if ds \<noteq> [] \<and> list_all is_digit ds
          then Some (if negative then - int (digits_value ds) else int (digits_value ds)) else None)
      else None)"

definition power_of_ten :: "int \<Rightarrow> rat" where
  "power_of_ten e = (if 0 \<le> e then 10 ^ nat e else 1 / 10 ^ nat (- e))"

definition decimal_number :: "jstring \<Rightarrow> rat option" where
  "decimal_number s =
     (case signed s of (negative, r) \<Rightarrow>
      case digits_part r of (whole, r1) \<Rightarrow>
        (let dot = (r1 \<noteq> [] \<and> hd r1 = 46);
             fraction = (if dot then takeWhile is_digit (tl r1) else []);
             rest = (if dot then dropWhile is_digit (tl r1) else r1)
         in if whole = [] \<and> fraction = [] then None
            else (case exponent_of rest of
                None \<Rightarrow> None
              | Some e \<Rightarrow> (let m = of_nat (digits_value (whole @ fraction)) * power_of_ten (e - int (length fraction))
                  in Some (if negative then - m else m)))))"

definition radix_value :: "nat \<Rightarrow> jstring \<Rightarrow> nat" where
  "radix_value radix s = foldl (\<lambda>n c. radix * n + hex_value c) 0 s"

definition radix_number :: "nat \<Rightarrow> (nat \<Rightarrow> bool) \<Rightarrow> jstring \<Rightarrow> rat option" where
  "radix_number radix digit s = (if s \<noteq> [] \<and> list_all digit s then Some (of_nat (radix_value radix s)) else None)"

definition to_number :: "jstring \<Rightarrow> rat option" where
  "to_number text =
     (let s = trim text; p = take 2 s in
      if s = [] then Some 0
      else if p = js ''0x'' \<or> p = js ''0X'' then radix_number 16 is_hex (drop 2 s)
      else if p = js ''0o'' \<or> p = js ''0O'' then radix_number 8 (\<lambda>c. is_digit c \<and> c < 56) (drop 2 s)
      else if p = js ''0b'' \<or> p = js ''0B'' then radix_number 2 (\<lambda>c. c = 48 \<or> c = 49) (drop 2 s)
      else decimal_number s)"

record application_config =
  ac_databaseUrl :: jstring
  ac_host :: jstring
  ac_port :: nat
  ac_secureCookies :: bool

definition enterpriseApplicationConfigFromEnv :: "environment \<Rightarrow> (error, application_config) result" where
  "enterpriseApplicationConfigFromEnv env =
     (let databaseUrl = setting env ''DATABASE_URL'' [] in
      if databaseUrl = [] then Inl ''DATABASE_URL is required to start the Enterprise application.''
      else (case to_number (case env ''PORT'' of None \<Rightarrow> js ''3000'' | Some p \<Rightarrow> p) of
          None \<Rightarrow> Inl ''PORT must be a valid TCP port.''
        | Some n \<Rightarrow>
            if of_int \<lfloor>n\<rfloor> \<noteq> n \<or> n < 1 \<or> n > 65535 then Inl ''PORT must be a valid TCP port.''
            else (let secure = setting env ''ENTERPRISE_SECURE_COOKIES'' (js ''false'') in
              if secure \<noteq> js ''true'' \<and> secure \<noteq> js ''false'' then Inl ''ENTERPRISE_SECURE_COOKIES must be true or false.''
              else Inr \<lparr>ac_databaseUrl = databaseUrl, ac_host = setting env ''HOST'' (js ''127.0.0.1''),
                ac_port = nat \<lfloor>n\<rfloor>, ac_secureCookies = (secure = js ''true'')\<rparr>)))"

datatype runtime_mode = Deterministic | Pi_real jstring jstring

definition enterpriseRuntimeModeFromEnv :: "environment \<Rightarrow> (error, runtime_mode) result" where
  "enterpriseRuntimeModeFromEnv env =
     (let mode = setting env ''ENTERPRISE_RUNTIME_MODE'' (js ''deterministic'') in
      if mode = js ''deterministic'' then Inr Deterministic
      else if mode \<noteq> js ''pi-real'' then Inl ''ENTERPRISE_RUNTIME_MODE must be deterministic or pi-real.''
      else (let providerId = setting env ''PI_PROVIDER'' []; modelId = setting env ''PI_MODEL'' [] in
        if providerId = [] \<or> modelId = [] then Inl ''PI_PROVIDER and PI_MODEL are required for pi-real runtime mode.''
        else Inr (Pi_real providerId modelId)))"

datatype knowledge_mode = Portfolio | Private

definition enterpriseKnowledgeModeFromEnv :: "environment \<Rightarrow> (error, knowledge_mode) result" where
  "enterpriseKnowledgeModeFromEnv env =
     (let mode = setting env ''ENTERPRISE_KNOWLEDGE_MODE'' (js ''portfolio'') in
      if mode = js ''portfolio'' then Inr Portfolio
      else if mode = js ''private'' then Inr Private
      else Inl ''ENTERPRISE_KNOWLEDGE_MODE must be portfolio or private.'')"

definition enterpriseRetrievalModeFromEnv :: "environment \<Rightarrow> (error, bool) result" where
  "enterpriseRetrievalModeFromEnv env =
     (let mode = setting env ''ENTERPRISE_RETRIEVAL_MODE'' (js ''lexical'') in
      if mode = js ''lexical'' then Inr False
      else if mode = js ''vector'' then Inr True
      else Inl ''ENTERPRISE_RETRIEVAL_MODE must be lexical or vector.'')"

section \<open>Private knowledge\<close>

text \<open>What reading and validating the directory of a name gives.\<close>

type_synonym corpus = "jstring \<Rightarrow> (error, knowledge_entry list) result"

definition privateKnowledgeDirectoryFromEnvironment :: "environment \<Rightarrow> jstring option" where
  "privateKnowledgeDirectoryFromEnvironment env =
     (let d = setting env ''SUPPORT_AGENT_PRIVATE_KNOWLEDGE_DIR'' [] in if d = [] then None else Some d)"

definition loadPrivateKnowledgeCorpus :: "corpus \<Rightarrow> environment \<Rightarrow> (error, knowledge_entry list) result" where
  "loadPrivateKnowledgeCorpus read env =
     (case privateKnowledgeDirectoryFromEnvironment env of
        None \<Rightarrow> Inl ''SUPPORT_AGENT_PRIVATE_KNOWLEDGE_DIR is required to load a private knowledge corpus.''
      | Some d \<Rightarrow> read d)"

record private_composition =
  pc_faq :: "faq_entry list"
  pc_knowledge :: "knowledge_entry list"
  pc_tenantId :: jstring
  pc_storeId :: jstring
  pc_allowSyntheticTestFixtures :: bool
  pc_allowSyntheticTestKnowledge :: bool

definition toFaqEntry :: "knowledge_entry \<Rightarrow> faq_entry" where
  "toFaqEntry e =
     \<lparr>fq_id = ke_id e, fq_question = ke_title e, fq_answer = ke_content e, fq_status = ke_status e, fq_version = ke_version e,
      fq_sourceRef = ke_sourceRef e, fq_tenantScope = ke_tenantScope e, fq_storeScope = ke_storeScope e\<rparr>"

definition scope_key :: "knowledge_entry \<Rightarrow> jstring" where
  "scope_key e = the (ke_tenantScope e) @ [0] @ the (ke_storeScope e)"

definition declares_scope :: "knowledge_entry \<Rightarrow> bool" where
  "declares_scope e \<longleftrightarrow> ke_tenantScope e \<notin> {None, Some []} \<and> ke_storeScope e \<notin> {None, Some []}"

fun check_scopes :: "knowledge_entry list \<Rightarrow> (error, jstring list) result" where
  "check_scopes [] = Inr []"
| "check_scopes (e # es) =
     (if ke_status e \<noteq> approved then Inl ''Private knowledge entry must have status approved.''
      else if \<not> declares_scope e then Inl ''Private knowledge entry must declare tenantScope and storeScope.''
      else and_then (check_scopes es) (\<lambda>keys. Inr (scope_key e # keys)))"

definition loadPrivateStoreKnowledgeComposition :: "corpus \<Rightarrow> environment \<Rightarrow> (error, private_composition) result" where
  "loadPrivateStoreKnowledgeComposition read env =
     and_then (loadPrivateKnowledgeCorpus read env) (\<lambda>entries.
       if entries = [] then Inl ''A private knowledge corpus must contain at least one approved entry.''
       else and_then (check_scopes entries) (\<lambda>keys.
         if length (remdups keys) \<noteq> 1 then Inl ''A private knowledge corpus must contain exactly one tenant/store scope.''
         else (let parts = split_on 0 (hd keys) in
           Inr \<lparr>pc_faq = map toFaqEntry (filter (\<lambda>e. ke_kind e = js ''faq'') entries),
             pc_knowledge = filter (\<lambda>e. ke_kind e \<noteq> js ''faq'') entries,
             pc_tenantId = parts ! 0, pc_storeId = parts ! 1,
             pc_allowSyntheticTestFixtures = False, pc_allowSyntheticTestKnowledge = False\<rparr>)))"

section \<open>Vector retrieval\<close>

record service_url = endpoint +
  su_hostname :: jstring

definition octet :: "jstring \<Rightarrow> bool" where
  "octet s \<longleftrightarrow> s \<noteq> [] \<and> length s \<le> 3 \<and> list_all is_digit s \<and> digits_value s \<le> 255 \<and> (hd s = 48 \<longrightarrow> length s = 1)"

definition private_v4 :: "jstring \<Rightarrow> bool" where
  "private_v4 host =
     (case split_on 46 host of
        [a, b, c, d] \<Rightarrow> list_all octet [a, b, c, d] \<and>
          (digits_value a = 127 \<or> digits_value a = 10 \<or>
           (digits_value a = 172 \<and> 16 \<le> digits_value b \<and> digits_value b \<le> 31) \<or>
           (digits_value a = 192 \<and> digits_value b = 168))
      | _ \<Rightarrow> False)"

definition private_host :: "jstring \<Rightarrow> bool" where
  "private_host host \<longleftrightarrow> private_v4 host \<or> host \<in> {js ''localhost'', js ''[::1]'', js ''ai-service''}"

definition hosted_profile :: jstring where
  "hosted_profile = js ''openai-text-embedding-3-small-1536-v1''"

definition enterpriseVectorRetrievalFactoryFromEnv ::
  "(jstring \<Rightarrow> service_url option) \<Rightarrow> environment \<Rightarrow> (error, rag_client option) result" where
  "enterpriseVectorRetrievalFactoryFromEnv parse_url env =
     (let mode = setting env ''ENTERPRISE_RETRIEVAL_MODE'' (js ''lexical'') in
      if mode = js ''lexical'' then Inr None
      else if mode \<noteq> js ''vector'' \<or> map_option trim (env ''ENTERPRISE_KNOWLEDGE_MODE'') = Some (js ''private'') \<or>
        env ''RAG_CORPUS_CLASSIFICATION'' \<noteq> Some (js ''public-synthetic'') \<or> env ''RAG_EMBEDDING_PROFILE'' \<noteq> Some hosted_profile
      then Inl ''Vector retrieval requires the S2 hosted profile and a public/synthetic corpus.''
      else (let refused = Inl ''Vector retrieval requires a private RAG_SERVICE_URL and valid RAG_SERVICE_CREDENTIAL.'' in
        case parse_url (setting env ''RAG_SERVICE_URL'' []) of
          None \<Rightarrow> refused
        | Some url \<Rightarrow>
            if \<not> private_host (su_hostname url) then refused
            else (case newFastApiRetrieval (Some (endpoint.truncate url)) (setting env ''RAG_SERVICE_CREDENTIAL'' []) hosted_profile of
                None \<Rightarrow> refused
              | Some client \<Rightarrow> Inr (Some client))))"

section \<open>The provider runtime\<close>

text \<open>What each call on the provider's runtime gives: \<open>None\<close> where it throws.\<close>

record provider_runtime =
  pr_checkAuth :: "jstring \<Rightarrow> bool option"
  pr_getModel :: "jstring \<Rightarrow> jstring \<Rightarrow> jstring option option"

definition bootstrapPiEnterpriseRuntime ::
  "(jstring \<Rightarrow> jstring \<Rightarrow> provider_runtime option) \<Rightarrow> jstring \<Rightarrow> jstring \<Rightarrow> (error, jstring) result" where
  "bootstrapPiEnterpriseRuntime createRuntime providerId modelId =
     (case createRuntime providerId modelId of
        None \<Rightarrow> Inl ''Pi provider initialization failed.''
      | Some runtime \<Rightarrow>
          (case pr_checkAuth runtime providerId of
             None \<Rightarrow> Inl ''Pi provider authentication could not be verified.''
           | Some False \<Rightarrow> Inl ''Pi provider authentication is not configured.''
           | Some True \<Rightarrow>
               (case pr_getModel runtime providerId modelId of
                  Some (Some m) \<Rightarrow> Inr m
                | _ \<Rightarrow> Inl ''Pi provider/model is unavailable.'')))"

text \<open>A runtime factory: the deterministic one, or the model and the knowledge it answers from.\<close>

record pi_factory =
  pf_model :: jstring
  pf_composition :: "private_composition option"

definition bootstrapPiEnterpriseRuntimeFactory ::
  "(jstring \<Rightarrow> jstring \<Rightarrow> provider_runtime option) \<Rightarrow> jstring \<Rightarrow> jstring \<Rightarrow> private_composition option \<Rightarrow> (error, pi_factory) result" where
  "bootstrapPiEnterpriseRuntimeFactory createRuntime providerId modelId composition =
     and_then (bootstrapPiEnterpriseRuntime createRuntime providerId modelId) (\<lambda>m.
       Inr \<lparr>pf_model = m, pf_composition = composition\<rparr>)"

definition enterpriseRuntimeFactoryFromEnv ::
  "(jstring \<Rightarrow> jstring \<Rightarrow> provider_runtime option) \<Rightarrow> corpus \<Rightarrow> environment \<Rightarrow> (error, pi_factory option) result" where
  "enterpriseRuntimeFactoryFromEnv createRuntime read env =
     and_then (enterpriseRetrievalModeFromEnv env) (\<lambda>_.
     and_then (enterpriseRuntimeModeFromEnv env) (\<lambda>runtimeMode.
     and_then (enterpriseKnowledgeModeFromEnv env) (\<lambda>knowledgeMode.
       case runtimeMode of
         Deterministic \<Rightarrow>
           if knowledgeMode = Private then Inl ''ENTERPRISE_KNOWLEDGE_MODE=private requires ENTERPRISE_RUNTIME_MODE=pi-real.''
           else Inr None
       | Pi_real providerId modelId \<Rightarrow>
           if knowledgeMode = Private
           then and_then (loadPrivateStoreKnowledgeComposition read env) (\<lambda>composition.
             map_sum id Some (bootstrapPiEnterpriseRuntimeFactory createRuntime providerId modelId (Some composition)))
           else map_sum id Some (bootstrapPiEnterpriseRuntimeFactory createRuntime providerId modelId None))))"

section \<open>Starting from the environment\<close>

record 'c startup_options =
  st_config :: application_config
  st_channels :: 'c
  st_retrieval :: "rag_client option"
  st_runtime :: "pi_factory option"
  st_knowledgeEntries :: "knowledge_entry list option"

text \<open>The three channel readers of \<open>channels\<close> come after the configuration; the directory is read a
  second time for the entries to register.\<close>

definition startup ::
  "(environment \<Rightarrow> (error, 'c) result) \<Rightarrow> (jstring \<Rightarrow> service_url option) \<Rightarrow> (jstring \<Rightarrow> jstring \<Rightarrow> provider_runtime option) \<Rightarrow>
     corpus \<Rightarrow> corpus \<Rightarrow> environment \<Rightarrow> (error, 'c startup_options) result" where
  "startup channels parse_url createRuntime read reread env =
     and_then (enterpriseApplicationConfigFromEnv env) (\<lambda>config.
     and_then (channels env) (\<lambda>c.
     and_then (enterpriseVectorRetrievalFactoryFromEnv parse_url env) (\<lambda>retrieval.
     and_then (enterpriseRuntimeFactoryFromEnv createRuntime read env) (\<lambda>runtime.
     and_then (enterpriseKnowledgeModeFromEnv env) (\<lambda>mode.
     and_then (if mode = Private then map_sum id Some (loadPrivateKnowledgeCorpus reread env) else Inr None) (\<lambda>entries.
       Inr \<lparr>st_config = config, st_channels = c, st_retrieval = retrieval, st_runtime = runtime,
         st_knowledgeEntries = entries\<rparr>))))))"

section \<open>Resources\<close>

datatype startup_phase = Connect | Migrate | Seed | Register | Make_runtime | Make_server

record app_resources =
  ar_poolEnded :: bool
  ar_runtimeCreated :: bool
  ar_runtimeClosed :: bool
  ar_listening :: bool
  ar_closed :: bool

definition new_resources :: app_resources where
  "new_resources = \<lparr>ar_poolEnded = False, ar_runtimeCreated = False, ar_runtimeClosed = False, ar_listening = False,
     ar_closed = False\<rparr>"

text \<open>
  The \<open>catch\<close> block and the method \<open>close\<close>; \<open>runtime_rejects\<close>, \<open>server_rejects\<close> and \<open>pool_rejects\<close> tell which
  of the closing calls rejects.
\<close>

definition end_pool :: "app_resources \<Rightarrow> app_resources" where
  "end_pool st = st\<lparr>ar_poolEnded := True\<rparr>"

definition close_runtime :: "app_resources \<Rightarrow> app_resources" where
  "close_runtime st = (if ar_runtimeCreated st then st\<lparr>ar_runtimeClosed := True\<rparr> else st)"

definition release_failed :: "bool \<Rightarrow> app_resources \<Rightarrow> app_resources" where
  "release_failed runtime_rejects st =
     (if ar_runtimeCreated st \<and> runtime_rejects then close_runtime st else end_pool (close_runtime st))"

fun run_phases :: "(startup_phase \<Rightarrow> bool) \<Rightarrow> startup_phase list \<Rightarrow> app_resources \<Rightarrow> app_resources \<times> bool" where
  "run_phases fails [] st = (st, True)"
| "run_phases fails (p # ps) st =
     (if fails p then (st, False)
      else run_phases fails ps (if p = Make_runtime then st\<lparr>ar_runtimeCreated := True\<rparr> else st))"

text \<open>\<open>None\<close>: refused before there is a pool.\<close>

definition createEnterpriseApplication ::
  "(startup_phase \<Rightarrow> bool) \<Rightarrow> bool \<Rightarrow> jstring \<Rightarrow> bool \<Rightarrow> bool \<Rightarrow> bool \<Rightarrow> (app_resources \<times> bool) option" where
  "createEnterpriseApplication fails runtime_rejects databaseUrl has_retrieval has_factory has_entries =
     (if trim databaseUrl = [] \<or> (has_retrieval \<and> has_factory) then None
      else (case run_phases fails ([Connect, Migrate, Seed] @ (if has_entries then [Register] else []) @ [Make_runtime, Make_server])
              new_resources of
          (st, True) \<Rightarrow> Some (st, True)
        | (st, False) \<Rightarrow> Some (release_failed runtime_rejects st, False)))"

text \<open>
  The method \<open>start\<close>: \<open>once\<close> rejects when the server reports an error before it listens. \<open>startEnterpriseApplication\<close>
  starts what it created; when that rejects, the application is not handed to anyone.
\<close>

definition start_server :: "bool \<Rightarrow> app_resources \<Rightarrow> app_resources \<times> bool" where
  "start_server listen_fails st =
     (if ar_listening st then (st, True)
      else if listen_fails then (st, False) else (st\<lparr>ar_listening := True\<rparr>, True))"

definition startEnterpriseApplication ::
  "(startup_phase \<Rightarrow> bool) \<Rightarrow> bool \<Rightarrow> bool \<Rightarrow> jstring \<Rightarrow> bool \<Rightarrow> bool \<Rightarrow> bool \<Rightarrow> (app_resources \<times> bool) option" where
  "startEnterpriseApplication fails listen_fails runtime_rejects databaseUrl has_retrieval has_factory has_entries =
     (case createEnterpriseApplication fails runtime_rejects databaseUrl has_retrieval has_factory has_entries of
        Some (st, True) \<Rightarrow> Some (start_server listen_fails st)
      | refused \<Rightarrow> refused)"

text \<open>The flag tells whether the call resolves.\<close>

definition close_application :: "bool \<Rightarrow> bool \<Rightarrow> bool \<Rightarrow> app_resources \<Rightarrow> app_resources \<times> bool" where
  "close_application server_rejects runtime_rejects pool_rejects st =
     (if ar_closed st then (st, True)
      else (let st1 = st\<lparr>ar_closed := True\<rparr>;
                st2 = (if ar_listening st1 \<and> \<not> server_rejects then st1\<lparr>ar_listening := False\<rparr> else st1)
            in (end_pool (close_runtime st2),
                \<not> (ar_listening st1 \<and> server_rejects) \<and> \<not> (ar_runtimeCreated st1 \<and> runtime_rejects) \<and> \<not> pool_rejects)))"

end
