(* ===== verification/Database.thy ===== *)
theory Database
  imports SupportStore Identity StoreOpsContracts
begin

text \<open>
  The relational store the Postgres repositories work on. A table of \<open>migrations/\<close> is the list of
  its rows in the order of insertion; a row is a record of the columns the program reads. A
  statement that violates a constraint gives \<open>None\<close> and changes nothing; constraints are checked
  by the definitions that write the tables. \<open>NOW()\<close> is the time of the running transaction,
  a random identifier is the next value of an unbounded supply, and the collation that orders
  texts is a field of the database: all three are facts of the environment.

  Times written by \<open>NOW()\<close> are millisecond values; instants that callers supply are kept in the
  canonical text of \<open>instant\<close>, which orders like the instants. Text columns hold well-formed
  strings without U+0000, which the driver would change or the server refuse.
\<close>

section \<open>Rows\<close>

record conversation =
  cv_id :: jstring
  cv_tenantId :: jstring
  cv_storeId :: jstring
  cv_customerId :: jstring
  cv_piSessionId :: "jstring option"
  cv_createdAt :: date
  cv_updatedAt :: date

record audit_event =
  ae_id :: jstring
  ae_tenantId :: jstring
  ae_storeId :: jstring
  ae_conversationId :: jstring
  ae_payload :: json
  ae_createdAt :: date

record availability_row =
  av_id :: jstring
  av_tenantId :: jstring
  av_storeId :: jstring
  av_staff :: jstring
  av_date :: jstring
  av_timeZone :: jstring
  av_windows :: "window list"
  av_status :: jstring
  av_version :: int
  av_updatedBy :: jstring
  av_updatedAt :: date

text \<open>
  The two columns of an interval are both null or both set (a CHECK of the table), so an
  interval is one optional pair.
\<close>

record booking_row =
  bk_id :: jstring
  bk_tenantId :: jstring
  bk_storeId :: jstring
  bk_conversationId :: jstring
  bk_customerId :: jstring
  bk_channelBindingId :: "jstring option"
  bk_requestedService :: jstring
  bk_requested :: "(jstring \<times> jstring) option"
  bk_preferredStaff :: "jstring option"
  bk_status :: booking_status
  bk_alternative :: "(jstring \<times> jstring) option"
  bk_confirmed :: "(jstring \<times> jstring) option"
  bk_createdBy :: jstring
  bk_updatedBy :: jstring
  bk_idempotencyKey :: jstring
  bk_requestHash :: jstring
  bk_version :: int
  bk_createdAt :: date
  bk_updatedAt :: date

record channel_binding =
  cb_id :: jstring
  cb_tenantId :: jstring
  cb_storeId :: jstring
  cb_corpId :: jstring
  cb_applicationId :: jstring
  cb_subject :: jstring
  cb_membershipId :: jstring
  cb_active :: bool

datatype inbound_state = In_processing | In_routed | In_completed | In_failed | In_indeterminate

datatype delivery_state = Not_sent | Sent | Accepted | Rejected | Indeterminate | Unavailable

datatype result_type = Answered | Fell_back | Escalated

record inbound_row =
  ib_id :: jstring
  ib_corpId :: jstring
  ib_applicationId :: jstring
  ib_messageId :: jstring
  ib_payloadHash :: jstring
  ib_state :: inbound_state
  ib_bindingId :: "jstring option"
  ib_scope :: "(jstring \<times> jstring) option"
  ib_conversationId :: "jstring option"
  ib_requestId :: jstring
  ib_resultType :: "result_type option"
  ib_errorCategory :: "string option"
  ib_delivery :: delivery_state

record kf_channel =
  kf_id :: jstring
  kf_corpId :: jstring
  kf_openKfId :: jstring
  kf_tenantId :: jstring
  kf_storeId :: jstring
  kf_membershipId :: jstring
  kf_active :: bool

record customer_binding =
  cu_id :: jstring
  cu_channelId :: jstring
  cu_tenantId :: jstring
  cu_storeId :: jstring
  cu_externalUserId :: jstring
  cu_customerId :: jstring
  cu_conversationId :: jstring

record customer_inbound =
  ci_id :: jstring
  ci_corpId :: jstring
  ci_openKfId :: jstring
  ci_messageId :: jstring
  ci_payloadHash :: jstring
  ci_state :: inbound_state
  ci_requestId :: jstring
  ci_route :: "(jstring \<times> jstring \<times> jstring \<times> jstring \<times> jstring) option"
  ci_resultType :: "result_type option"
  ci_errorCategory :: "string option"

record notification =
  nf_taskId :: jstring
  nf_bookingId :: jstring
  nf_tenantId :: jstring
  nf_storeId :: jstring
  nf_corpId :: jstring
  nf_applicationId :: jstring
  nf_bindingId :: jstring
  nf_expectedVersion :: int
  nf_delivery :: delivery_state
  nf_feedback :: delivery_state
  nf_customer :: delivery_state

section \<open>The database\<close>

record db =
  db_users :: "user list"
  db_tenants :: "tenant list"
  db_stores :: "store_rec list"
  db_memberships :: "membership list"
  db_sessions :: "auth_session list"
  db_conversations :: "conversation list"
  db_tickets :: "persistent_ticket list"
  db_handoffs :: "support_handoff list"
  db_audit :: "audit_event list"
  db_availability :: "availability_row list"
  db_bookings :: "booking_row list"
  db_bindings :: "channel_binding list"
  db_inbound :: "inbound_row list"
  db_channels :: "kf_channel list"
  db_customers :: "customer_binding list"
  db_customerInbound :: "customer_inbound list"
  db_notifications :: "notification list"
  db_now :: date
  db_uuids :: "nat \<Rightarrow> jstring"
  db_drawn :: nat
  db_collate :: "jstring \<Rightarrow> jstring \<Rightarrow> bool"

definition uuid :: "db \<Rightarrow> jstring" where
  "uuid d = db_uuids d (db_drawn d)"

definition draw :: "db \<Rightarrow> db" where
  "draw d = d\<lparr>db_drawn := Suc (db_drawn d)\<rparr>"

text \<open>Foreign keys: the row that a reference names.\<close>

definition has_store :: "db \<Rightarrow> jstring \<Rightarrow> jstring \<Rightarrow> bool" where
  "has_store d t s \<longleftrightarrow> list_ex (\<lambda>x. store_id x = s \<and> store_tenantId x = t) (db_stores d)"

definition has_member :: "db \<Rightarrow> jstring \<Rightarrow> jstring \<Rightarrow> jstring \<Rightarrow> bool" where
  "has_member d m t s \<longleftrightarrow>
     list_ex (\<lambda>x. mem_id x = m \<and> mem_tenantId x = t \<and> mem_storeId x = s) (db_memberships d)"

definition has_conversation :: "db \<Rightarrow> jstring \<Rightarrow> jstring \<Rightarrow> jstring \<Rightarrow> bool" where
  "has_conversation d c t s \<longleftrightarrow>
     list_ex (\<lambda>x. cv_id x = c \<and> cv_tenantId x = t \<and> cv_storeId x = s) (db_conversations d)"

definition has_customer_conversation :: "db \<Rightarrow> jstring \<Rightarrow> jstring \<Rightarrow> jstring \<Rightarrow> jstring \<Rightarrow> bool" where
  "has_customer_conversation d c t s u \<longleftrightarrow>
     list_ex (\<lambda>x. cv_id x = c \<and> cv_tenantId x = t \<and> cv_storeId x = s \<and> cv_customerId x = u) (db_conversations d)"

definition has_binding :: "db \<Rightarrow> jstring \<Rightarrow> jstring \<Rightarrow> jstring \<Rightarrow> bool" where
  "has_binding d b t s \<longleftrightarrow>
     list_ex (\<lambda>x. cb_id x = b \<and> cb_tenantId x = t \<and> cb_storeId x = s) (db_bindings d)"

section \<open>Statements\<close>

text \<open>
  \<open>UPDATE ... WHERE\<close> on a table, with the number of rows it changed; \<open>ORDER BY created DESC, id\<close>.
\<close>

definition update_where :: "('a \<Rightarrow> bool) \<Rightarrow> ('a \<Rightarrow> 'a) \<Rightarrow> 'a list \<Rightarrow> 'a list" where
  "update_where P f xs = map (\<lambda>x. if P x then f x else x) xs"

definition count_where :: "('a \<Rightarrow> bool) \<Rightarrow> 'a list \<Rightarrow> nat" where
  "count_where P xs = length (filter P xs)"

definition newest_first :: "(jstring \<Rightarrow> jstring \<Rightarrow> bool) \<Rightarrow> ('a \<Rightarrow> date) \<Rightarrow> ('a \<Rightarrow> jstring) \<Rightarrow> 'a list \<Rightarrow> 'a list" where
  "newest_first le t i xs = sort_by (\<lambda>x y. t x > t y \<or> (t x = t y \<and> le (i x) (i y))) xs"

lemma set_newest_first [simp]: "set (newest_first le t i xs) = set xs"
  by (simp add: newest_first_def)

lemma length_newest_first [simp]: "length (newest_first le t i xs) = length xs"
  by (simp add: newest_first_def)

lemma length_update_where [simp]: "length (update_where P f xs) = length xs"
  by (simp add: update_where_def)

lemma set_update_where: "set (update_where P f xs) = f ` {x \<in> set xs. P x} \<union> {x \<in> set xs. \<not> P x}"
  by (auto simp: update_where_def)

lemma map_update_where: "(\<And>x. g (f x) = g x) \<Longrightarrow> map g (update_where P f xs) = map g xs"
  by (auto simp: update_where_def)

lemma update_where_same: "(\<And>x. x \<in> set xs \<Longrightarrow> \<not> P x) \<Longrightarrow> update_where P f xs = xs"
  unfolding update_where_def by (rule map_idI) auto

lemma count_where_0: "count_where P xs = 0 \<longleftrightarrow> (\<forall>x \<in> set xs. \<not> P x)"
  by (auto simp: count_where_def filter_empty_conv)

text \<open>The first row that matches, over a column that determines the row.\<close>

lemma find_append: "List.find P (xs @ ys) = (case List.find P xs of Some x \<Rightarrow> Some x | None \<Rightarrow> List.find P ys)"
  by (induction xs) auto

lemma key_unique: "distinct (map k xs) \<Longrightarrow> x \<in> set xs \<Longrightarrow> y \<in> set xs \<Longrightarrow> k x = k y \<Longrightarrow> x = y"
  by (auto simp: distinct_map dest: inj_onD)

lemma find_unique:
  assumes "distinct (map k xs)" and "x \<in> set xs" and "\<And>y. P y \<longleftrightarrow> k y = k x"
  shows "List.find P xs = Some x"
  using assms(1,2)
proof (induction xs)
  case (Cons y ys)
  then show ?case using assms(3) by (auto simp: rev_image_eqI)
qed simp

lemma filter_distinct_key:
  assumes "distinct (map k xs)" and "x \<in> set xs"
  shows "filter (\<lambda>y. k y = k x) xs = [x]"
  using assms
proof (induction xs)
  case (Cons y ys)
  show ?case
  proof (cases "y = x")
    case True
    from Cons.prems(1) True have "k x \<notin> k ` set ys" by simp
    with True show ?thesis by (auto simp: filter_empty_conv image_iff)
  next
    case False
    with Cons show ?thesis by force
  qed
qed simp

lemma find_update_where:
  assumes "\<And>x. P (f x) \<longleftrightarrow> P x"
  shows "List.find P (update_where Q f xs) = map_option (\<lambda>x. if Q x then f x else x) (List.find P xs)"
  by (induction xs) (auto simp: update_where_def assms)

lemma list_ex_update_where: "(\<And>x. P (f x) \<longleftrightarrow> P x) \<Longrightarrow> list_ex P (update_where Q f xs) \<longleftrightarrow> list_ex P xs"
  by (induction xs) (auto simp: update_where_def)

lemma list_ex_key: "list_ex (\<lambda>x. k x = v) xs \<longleftrightarrow> v \<in> k ` set xs"
  by (auto simp: list_ex_iff)

lemma list_ex_or: "list_ex (\<lambda>x. P x \<or> Q x) xs \<longleftrightarrow> list_ex P xs \<or> list_ex Q xs"
  by (auto simp: list_ex_iff)

lemma find_False [simp]: "List.find (\<lambda>x. False) xs = None"
  by (induction xs) auto

lemma find_cong_None: "List.find P xs = None \<longleftrightarrow> (\<forall>x \<in> set xs. \<not> P x)"
  by (auto simp: find_None_iff)

section \<open>Times\<close>

text \<open>
  \<open>toISOString\<close> of the years 0 to 9999: the civil date of a day number, counting years from
  March.
\<close>

definition civil :: "int \<Rightarrow> nat \<times> nat \<times> nat" where
  "civil days =
     (let z = days + 719468; era = z div 146097; doe = z mod 146097;
          yoe = (doe - doe div 1460 + doe div 36524 - doe div 146096) div 365;
          doy = doe - (365 * yoe + yoe div 4 - yoe div 100);
          mp = (5 * doy + 2) div 153;
          d = doy - (153 * mp + 2) div 5 + 1;
          m = (if mp < 10 then mp + 3 else mp - 9);
          y = yoe + era * 400 + (if m \<le> 2 then 1 else 0)
      in (nat y, nat m, nat d))"

definition three :: "nat \<Rightarrow> jstring" where
  "three n = [48 + n div 100, 48 + n div 10 mod 10, 48 + n mod 10]"

definition toISOString :: "date \<Rightarrow> jstring" where
  "toISOString ms =
     (let t = nat (ms mod 86400000) in
      show_date (civil (ms div 86400000)) @ [84] @ two (t div 3600000) @ [58] @ two (t div 60000 mod 60) @ [58] @
      two (t div 1000 mod 60) @ [46] @ three (t mod 1000) @ [90])"

lemma civil_epoch: "civil 0 = (1970, 1, 1)"
  by code_simp

lemma civil_leap_day: "civil 19782 = (2024, 2, 29)"
  by code_simp

section \<open>A small database\<close>

text \<open>One store with a supervisor, an agent and a customer; the witnesses run on it.\<close>

definition demo_db :: db where
  "demo_db =
     \<lparr>db_users = [\<lparr>user_id = js ''u1'', user_email = js ''a@b'', user_displayName = js ''A'', user_passwordHash = [], user_createdAt = 0\<rparr>,
        \<lparr>user_id = js ''u2'', user_email = js ''c@d'', user_displayName = js ''B'', user_passwordHash = [], user_createdAt = 0\<rparr>],
      db_tenants = [\<lparr>tenant_id = js ''t'', tenant_name = js ''T'', tenant_createdAt = 0\<rparr>],
      db_stores = [\<lparr>store_id = js ''s'', store_tenantId = js ''t'', store_name = js ''S'', store_createdAt = 0\<rparr>],
      db_memberships =
       [\<lparr>mem_id = js ''m1'', mem_userId = js ''u1'', mem_tenantId = js ''t'', mem_storeId = js ''s'',
         mem_role = Supervisor, mem_createdAt = 0\<rparr>,
        \<lparr>mem_id = js ''m2'', mem_userId = js ''u2'', mem_tenantId = js ''t'', mem_storeId = js ''s'',
         mem_role = Agent, mem_createdAt = 0\<rparr>],
      db_sessions = [],
      db_conversations = [\<lparr>cv_id = js ''c'', cv_tenantId = js ''t'', cv_storeId = js ''s'', cv_customerId = js ''k'',
        cv_piSessionId = None, cv_createdAt = 0, cv_updatedAt = 0\<rparr>],
      db_tickets = [], db_handoffs = [], db_audit = [], db_availability = [], db_bookings = [],
      db_bindings = [\<lparr>cb_id = js ''b'', cb_tenantId = js ''t'', cb_storeId = js ''s'', cb_corpId = js ''w'',
        cb_applicationId = js ''1'', cb_subject = js ''x'', cb_membershipId = js ''m1'', cb_active = True\<rparr>],
      db_inbound = [],
      db_channels = [\<lparr>kf_id = js ''f'', kf_corpId = js ''w'', kf_openKfId = js ''o'', kf_tenantId = js ''t'',
        kf_storeId = js ''s'', kf_membershipId = js ''m1'', kf_active = True\<rparr>],
      db_customers = [], db_customerInbound = [], db_notifications = [],
      db_now = 1000, db_uuids = (\<lambda>n. [n]), db_drawn = 0, db_collate = (\<lambda>a b. a \<le> b)\<rparr>"

definition demo_supervisor :: exec_context where
  "demo_supervisor =
     \<lparr>actor_userId = js ''u1'', actor_role = Supervisor, actor_capabilities = capabilitiesForRole Supervisor,
      scope_tenantId = js ''t'', scope_storeId = js ''s'', request_requestId = js ''q''\<rparr>"

definition demo_agent :: exec_context where
  "demo_agent =
     \<lparr>actor_userId = js ''u2'', actor_role = Agent, actor_capabilities = capabilitiesForRole Agent,
      scope_tenantId = js ''t'', scope_storeId = js ''s'', request_requestId = js ''q''\<rparr>"

end
