(* ===== verification/PgIdentity.thy ===== *)
theory PgIdentity
  imports Database AuthService
begin

text \<open>
  \<open>PostgresIdentityRepository\<close> of \<open>src/enterprise/postgres.ts\<close>: the second implementation of the
  identity repository. The column \<open>token_hash\<close> is \<open>CHAR(64)\<close>: it refuses longer values, pads shorter
  ones with blanks and compares without trailing blanks, and the row conversion trims what it
  reads. The interpretation of \<open>identity_repository\<close> holds for hashes of 64 hexadecimal digits,
  the form of a SHA-256 digest.
\<close>

section \<open>Operations\<close>

definition unpad :: "jstring \<Rightarrow> jstring" where
  "unpad s = rev (dropWhile (\<lambda>c. c = 32) (rev s))"

definition constraint :: error where
  "constraint = ''constraint violation''"

definition pg_createUser :: "db \<Rightarrow> user \<Rightarrow> (error, db) result" where
  "pg_createUser d u =
     (let u' = u\<lparr>user_email := to_lower (trim (user_email u))\<rparr> in
      if list_ex (\<lambda>x. user_id x = user_id u' \<or> user_email x = user_email u') (db_users d) then Inl constraint
      else Inr (d\<lparr>db_users := db_users d @ [u']\<rparr>))"

definition pg_createTenant :: "db \<Rightarrow> tenant \<Rightarrow> (error, db) result" where
  "pg_createTenant d t =
     (if list_ex (\<lambda>x. tenant_id x = tenant_id t) (db_tenants d) then Inl constraint
      else Inr (d\<lparr>db_tenants := db_tenants d @ [t]\<rparr>))"

definition pg_createStore :: "db \<Rightarrow> store_rec \<Rightarrow> (error, db) result" where
  "pg_createStore d s =
     (if list_ex (\<lambda>x. store_id x = store_id s) (db_stores d) \<or>
        \<not> list_ex (\<lambda>t. tenant_id t = store_tenantId s) (db_tenants d) then Inl constraint
      else Inr (d\<lparr>db_stores := db_stores d @ [s]\<rparr>))"

definition pg_createMembership :: "db \<Rightarrow> membership \<Rightarrow> (error, db) result" where
  "pg_createMembership d m =
     (if list_ex (\<lambda>x. mem_id x = mem_id m \<or> sameMembership x m) (db_memberships d) \<or>
        \<not> list_ex (\<lambda>u. user_id u = mem_userId m) (db_users d) \<or>
        \<not> has_store d (mem_tenantId m) (mem_storeId m) then Inl constraint
      else Inr (d\<lparr>db_memberships := db_memberships d @ [m]\<rparr>))"

definition pg_createAuthSession :: "db \<Rightarrow> auth_session \<Rightarrow> (error, db) result" where
  "pg_createAuthSession d s =
     (let h = unpad (ses_tokenHash s) in
      if length (code_points h) > 64 \<or> list_ex (\<lambda>x. ses_id x = ses_id s \<or> ses_tokenHash x = h) (db_sessions d) \<or>
        \<not> list_ex (\<lambda>u. user_id u = ses_userId s) (db_users d) then Inl constraint
      else Inr (d\<lparr>db_sessions := db_sessions d @ [s\<lparr>ses_tokenHash := h\<rparr>]\<rparr>))"

definition sessionFromRow :: "auth_session \<Rightarrow> auth_session" where
  "sessionFromRow s = s\<lparr>ses_tokenHash := trim (ses_tokenHash s)\<rparr>"

definition pg_findUserByEmail :: "db \<Rightarrow> jstring \<Rightarrow> user option" where
  "pg_findUserByEmail d e = List.find (\<lambda>u. user_email u = to_lower (trim e)) (db_users d)"

definition pg_findUserById :: "db \<Rightarrow> jstring \<Rightarrow> user option" where
  "pg_findUserById d i = List.find (\<lambda>u. user_id u = i) (db_users d)"

definition pg_findAuthSessionByTokenHash :: "db \<Rightarrow> jstring \<Rightarrow> auth_session option" where
  "pg_findAuthSessionByTokenHash d h =
     map_option sessionFromRow (List.find (\<lambda>s. ses_tokenHash s = unpad h) (db_sessions d))"

definition pg_findAuthSessionByUserId :: "db \<Rightarrow> jstring \<Rightarrow> auth_session list" where
  "pg_findAuthSessionByUserId d i = map sessionFromRow
     (sort_by (\<lambda>a b. ses_createdAt a \<le> ses_createdAt b) (filter (\<lambda>s. ses_userId s = i) (db_sessions d)))"

definition pg_deleteAuthSessionByTokenHash :: "db \<Rightarrow> jstring \<Rightarrow> db" where
  "pg_deleteAuthSessionByTokenHash d h =
     d\<lparr>db_sessions := filter (\<lambda>s. ses_tokenHash s \<noteq> unpad h) (db_sessions d)\<rparr>"

definition pg_findMembership :: "db \<Rightarrow> jstring \<Rightarrow> jstring \<Rightarrow> jstring \<Rightarrow> membership option" where
  "pg_findMembership d u t s =
     List.find (\<lambda>m. mem_userId m = u \<and> mem_tenantId m = t \<and> mem_storeId m = s) (db_memberships d)"

definition pg_listMembershipsForUser :: "db \<Rightarrow> jstring \<Rightarrow> membership list" where
  "pg_listMembershipsForUser d u =
     sort_by (\<lambda>a b. db_collate d (mem_id a) (mem_id b)) (filter (\<lambda>m. mem_userId m = u) (db_memberships d))"

definition pg_ops :: "db identity_ops" where
  "pg_ops =
     \<lparr>createUser = pg_createUser, createTenant = pg_createTenant, createStore = pg_createStore,
      createMembership = pg_createMembership, createAuthSession = pg_createAuthSession,
      findUserByEmail = pg_findUserByEmail, findUserById = pg_findUserById,
      findAuthSessionByTokenHash = pg_findAuthSessionByTokenHash,
      findAuthSessionByUserId = pg_findAuthSessionByUserId,
      deleteAuthSessionByTokenHash = pg_deleteAuthSessionByTokenHash,
      findMembership = pg_findMembership, listMembershipsForUser = pg_listMembershipsForUser\<rparr>"

lemma pg_ops_simps:
  "createUser pg_ops = pg_createUser" "createTenant pg_ops = pg_createTenant"
  "createStore pg_ops = pg_createStore" "createMembership pg_ops = pg_createMembership"
  "createAuthSession pg_ops = pg_createAuthSession"
  "findUserByEmail pg_ops = pg_findUserByEmail" "findUserById pg_ops = pg_findUserById"
  "findAuthSessionByTokenHash pg_ops = pg_findAuthSessionByTokenHash"
  "findAuthSessionByUserId pg_ops = pg_findAuthSessionByUserId"
  "deleteAuthSessionByTokenHash pg_ops = pg_deleteAuthSessionByTokenHash"
  "findMembership pg_ops = pg_findMembership"
  "listMembershipsForUser pg_ops = pg_listMembershipsForUser"
  by (simp_all add: pg_ops_def)

section \<open>The contract\<close>

definition hex64 :: "jstring \<Rightarrow> bool" where
  "hex64 h \<longleftrightarrow> length h = 64 \<and> list_all is_lower_hex h"

definition identity_ok :: "db \<Rightarrow> bool" where
  "identity_ok d \<longleftrightarrow> distinct (map user_id (db_users d)) \<and> distinct (map user_email (db_users d)) \<and>
     distinct (map mem_id (db_memberships d)) \<and>
     distinct (map ses_id (db_sessions d)) \<and> distinct (map ses_tokenHash (db_sessions d)) \<and>
     (\<forall>m \<in> set (db_memberships d). has_store d (mem_tenantId m) (mem_storeId m) \<and>
        mem_userId m \<in> user_id ` set (db_users d)) \<and>
     (\<forall>s \<in> set (db_sessions d). ses_userId s \<in> user_id ` set (db_users d))"

lemma hex_not_space: "is_lower_hex c \<Longrightarrow> \<not> is_space c"
  by (auto simp: is_lower_hex_def is_digit_def is_space_def)

lemma hex64_last: "hex64 h \<Longrightarrow> h \<noteq> [] \<and> \<not> is_space (last h) \<and> \<not> is_space (hd h)"
proof -
  assume "hex64 h"
  then have "h \<noteq> []" "\<forall>c \<in> set h. \<not> is_space c" by (auto simp: hex64_def list_all_iff hex_not_space)
  then show ?thesis by simp
qed

lemma hex64_unpad: "hex64 h \<Longrightarrow> unpad h = h"
proof -
  assume "hex64 h"
  then have "h \<noteq> []" "last h \<noteq> 32" using hex64_last [of h] by (auto simp: is_space_def)
  then show "unpad h = h" by (cases h rule: rev_cases) (auto simp: unpad_def)
qed

lemma hex64_trim: "hex64 h \<Longrightarrow> trim h = h"
proof -
  assume "hex64 h"
  note n = hex64_last [OF this]
  then have "trim_start h = h" by (cases h) (auto simp: trim_start_def)
  moreover have "trim_end h = h" using n by (cases h rule: rev_cases) (auto simp: trim_end_def)
  ultimately show "trim h = h" by (simp add: trim_def)
qed

lemma identity_ok_createUser: "identity_ok d \<Longrightarrow> pg_createUser d u = Inr d' \<Longrightarrow> identity_ok d'"
  by (auto simp: identity_ok_def pg_createUser_def Let_def list_ex_key list_ex_or has_store_def split: if_splits)

lemma identity_ok_createTenant: "identity_ok d \<Longrightarrow> pg_createTenant d t = Inr d' \<Longrightarrow> identity_ok d'"
  by (auto simp: identity_ok_def pg_createTenant_def has_store_def split: if_splits)

lemma identity_ok_createStore: "identity_ok d \<Longrightarrow> pg_createStore d s = Inr d' \<Longrightarrow> identity_ok d'"
  by (auto simp: identity_ok_def pg_createStore_def has_store_def split: if_splits)

lemma identity_ok_createMembership: "identity_ok d \<Longrightarrow> pg_createMembership d m = Inr d' \<Longrightarrow> identity_ok d'"
  by (auto simp: identity_ok_def pg_createMembership_def list_ex_key list_ex_or has_store_def split: if_splits)

lemma identity_ok_createAuthSession: "identity_ok d \<Longrightarrow> pg_createAuthSession d s = Inr d' \<Longrightarrow> identity_ok d'"
  by (auto simp: identity_ok_def pg_createAuthSession_def Let_def list_ex_key list_ex_or has_store_def split: if_splits)

lemma identity_ok_deleteAuthSession: "identity_ok d \<Longrightarrow> identity_ok (pg_deleteAuthSessionByTokenHash d h)"
  by (auto simp: identity_ok_def pg_deleteAuthSessionByTokenHash_def has_store_def distinct_map_filter)

lemma createAuthSession_Inr:
  assumes "pg_createAuthSession d s = Inr d'" and "hex64 (ses_tokenHash s)"
  shows "d' = d\<lparr>db_sessions := db_sessions d @ [s]\<rparr> \<and> (\<forall>x \<in> set (db_sessions d). ses_tokenHash x \<noteq> ses_tokenHash s)"
  using assms by (auto simp: pg_createAuthSession_def Let_def hex64_unpad list_ex_iff split: if_splits)

lemma sessions_frame [simp]:
  "pg_findUserById (d\<lparr>db_sessions := x\<rparr>) = pg_findUserById d"
  "pg_findUserByEmail (d\<lparr>db_sessions := x\<rparr>) = pg_findUserByEmail d"
  "pg_listMembershipsForUser (d\<lparr>db_sessions := x\<rparr>) = pg_listMembershipsForUser d"
  by (simp_all add: fun_eq_iff pg_findUserById_def pg_findUserByEmail_def pg_listMembershipsForUser_def)

lemma find_filter: "List.find P (filter Q xs) = List.find (\<lambda>x. Q x \<and> P x) xs"
  by (induction xs) auto

lemma createAuthSession_frame:
  "pg_createAuthSession d s = Inr d' \<Longrightarrow> \<exists>x. d' = d\<lparr>db_sessions := x\<rparr>"
  by (auto simp: pg_createAuthSession_def Let_def split: if_splits)

interpretation postgres_identity: identity_repository pg_ops identity_ok hex64
proof (unfold_locales, goal_cases)
  case (1 d s h d')
  then have new: "pg_createAuthSession d s = Inr d'" "hex64 (ses_tokenHash s)" by (simp_all add: pg_ops_simps)
  note n = createAuthSession_Inr [OF new]
  have "sessionFromRow s = s" using new(2) by (simp add: sessionFromRow_def hex64_trim)
  then show ?case using n 1(3)
    by (auto simp: pg_ops_simps pg_findAuthSessionByTokenHash_def hex64_unpad find_append find_None_iff split: option.splits
        dest: find_Some_iff')
next
  case (2 d s d')
  then show ?case by (auto simp: pg_ops_simps pg_createAuthSession_def Let_def pg_findAuthSessionByTokenHash_def
        find_None_iff list_ex_iff split: if_splits)
next
  case (3 d s d')
  then have "pg_createAuthSession d s = Inr d'" by (simp add: pg_ops_simps)
  then show ?case using identity_ok_createAuthSession [OF 3(1)] createAuthSession_frame
    by (fastforce simp: pg_ops_simps)
next
  case (4 d h h')
  then show ?case
    by (auto simp: pg_ops_simps pg_findAuthSessionByTokenHash_def pg_deleteAuthSessionByTokenHash_def hex64_unpad
        find_filter intro!: arg_cong [where f = "map_option sessionFromRow"] find_cong)
next
  case (5 d h)
  then show ?case using identity_ok_deleteAuthSession [OF 5]
    by (simp add: pg_ops_simps pg_deleteAuthSessionByTokenHash_def)
next
  case (6 d e u)
  then have "u \<in> set (db_users d)" "distinct (map user_id (db_users d))"
    unfolding pg_ops_simps pg_findUserByEmail_def identity_ok_def by (auto dest: find_Some_iff')
  then have "List.find (\<lambda>x. user_id x = user_id u) (db_users d) = Some u"
    by (intro find_unique [where k = user_id]) simp_all
  then show ?case by (simp add: pg_ops_simps pg_findUserById_def)
next
  case (7 d i u)
  then show ?case by (auto simp: pg_ops_simps pg_findUserById_def dest: find_Some_iff')
next
  case (8 d m i)
  then show ?case by (simp add: pg_ops_simps pg_listMembershipsForUser_def)
qed

lemma base64url_not_Nil: "bs \<noteq> [] \<Longrightarrow> base64url bs \<noteq> []"
  by (cases bs rule: b64_digits.cases) (simp_all add: base64url_def)

lemma code_points_replicate: "length (code_points (replicate n 48)) = n"
proof (induction n)
  case (Suc n)
  then show ?case by (cases n) (simp_all add: is_high_def)
qed simp

section \<open>Properties\<close>

text \<open>
  C11. Authentication over Postgres keeps the same promises as over the in-memory repository, the token
  hash being the hexadecimal digest: after a login the token resolves, until it expires, to the
  context of the user's single membership and to none otherwise; and once the session is
  logged out the token resolves to nothing, for ever.
\<close>

theorem postgres_sessions_authentic:
  assumes "identity_ok d" and hash: "\<And>t. hex64 (hashSessionToken c t)"
    and "login pg_ops c ttl d email password now random uid = Inr (d', Some s)"
    and "random \<noteq> []" and "now2 < now + ttl"
  shows "(\<exists>u. pg_findUserByEmail d email = Some u \<and>
      resolveExecutionContext pg_ops c d' (Some (as_token s)) rid now2 =
        (d', case pg_listMembershipsForUser d (user_id u) of
               [m] \<Rightarrow> Some (createSupportExecutionContext m rid) | _ \<Rightarrow> None)) \<and>
    (let d'' = logout pg_ops c d' (Some (as_token s)) in
      resolveExecutionContext pg_ops c d'' (Some (as_token s)) rid now2 = (d'', None))"
proof -
  note login = postgres_identity.login_resolve [OF assms(1,3-5) hash]
  have "as_token s \<noteq> []"
    using postgres_identity.login_session [OF assms(1,3)] base64url_not_Nil [OF assms(4)] by metis
  then have "resolveExecutionContext pg_ops c (logout pg_ops c d' (Some (as_token s))) (Some (as_token s)) rid now2 =
      (logout pg_ops c d' (Some (as_token s)), None)"
    by (intro postgres_identity.resolve_revoked [OF login(1) _ hash]) simp_all
  then show ?thesis using login(2) [where rid = rid] by (simp add: pg_ops_simps Let_def)
qed

definition hex_crypto :: crypto where
  "hex_crypto = demo_crypto\<lparr>sha256_hex := (\<lambda>t. replicate 64 48)\<rparr>"

definition demo_pg :: db where
  "demo_pg = demo_db\<lparr>db_users := [demo_user], db_memberships :=
     [\<lparr>mem_id = js ''m1'', mem_userId = js ''u1'', mem_tenantId = js ''t'', mem_storeId = js ''s'',
       mem_role = Supervisor, mem_createdAt = 0\<rparr>]\<rparr>"

lemma demo_pg_ok: "identity_ok demo_pg"
  by (simp add: identity_ok_def demo_pg_def demo_db_def demo_user_def has_store_def)

lemma hex_crypto_ok: "hex64 (hashSessionToken hex_crypto t)"
  by (simp add: hashSessionToken_def hex_crypto_def hex64_def is_lower_hex_def is_digit_def list_all_iff)

lemma demo_pg_find: "pg_findUserByEmail demo_pg (js '' A@b'') = Some demo_user"
  by (simp add: pg_findUserByEmail_def demo_pg_def demo_user_def js_simps trim_def
      trim_start_def trim_end_def is_space_def to_lower_def lower_unit_def)

lemma demo_pg_login:
  "\<exists>d'. login pg_ops hex_crypto 10 demo_pg (js '' A@b'') (js ''pw'') 5 [1, 2, 3] (js ''x'') =
     Inr (d', Some \<lparr>as_token = js ''AQID'', as_expiresAt = 15\<rparr>)"
proof -
  define s where "s = \<lparr>ses_id = js ''x'', ses_userId = js ''u1'', ses_tokenHash = hashSessionToken hex_crypto (js ''AQID''),
       ses_expiresAt = 15, ses_createdAt = 5\<rparr>"
  have s: "hex64 (ses_tokenHash s)" "length (code_points (ses_tokenHash s)) \<le> 64"
    using hex_crypto_ok by (simp_all add: s_def hashSessionToken_def hex_crypto_def code_points_replicate)
  have "\<exists>d'. pg_createAuthSession demo_pg s = Inr d'"
    using s by (simp add: pg_createAuthSession_def hex64_unpad demo_pg_def demo_db_def demo_user_def s_def)
  moreover have "verifyPassword hex_crypto (js ''pw'') (user_passwordHash demo_user)"
  proof -
    have "scrypt hex_crypto = scrypt demo_crypto" by (simp add: hex_crypto_def)
    then show ?thesis using demo_verify unfolding verifyPassword_def by (simp only:)
  qed
  ultimately show ?thesis
    by (auto simp: login_def pg_ops_simps demo_pg_find demo_token Let_def s_def demo_user_def)
qed

theorem postgres_sessions_authentic_witness:
  "\<exists>d'. resolveExecutionContext pg_ops hex_crypto d' (Some (js ''AQID'')) [] 14 =
     (d', Some \<lparr>actor_userId = js ''u1'', actor_role = Supervisor,
       actor_capabilities = capabilitiesForRole Supervisor, scope_tenantId = js ''t'',
       scope_storeId = js ''s'', request_requestId = []\<rparr>)"
proof -
  obtain d' where run: "login pg_ops hex_crypto 10 demo_pg (js '' A@b'') (js ''pw'') 5 [1, 2, 3] (js ''x'') =
     Inr (d', Some \<lparr>as_token = js ''AQID'', as_expiresAt = 15\<rparr>)"
    using demo_pg_login by blast
  have "pg_listMembershipsForUser demo_pg (js ''u1'') = db_memberships demo_pg"
    by (simp add: pg_listMembershipsForUser_def demo_pg_def)
  then show ?thesis
    using postgres_sessions_authentic [OF demo_pg_ok hex_crypto_ok run, of 14 "[]"]
    unfolding demo_pg_find by (intro exI [of _ d']) (simp add: demo_user_def demo_pg_def createSupportExecutionContext_def)
qed

end
