(* ===== verification/RagProps.thy ===== *)
theory RagProps
  imports FastApiRetrieval
begin

text \<open>
  Properties of the private retrieval: the canonical chunks of a document, the versions of the
  registry over any sequence of registrations, and the evidence that a search can return whatever
  the retrieval service answers.
\<close>

section \<open>Chunks\<close>

lemma concat_pieces: "0 < n \<Longrightarrow> concat (pieces n xs) = xs"
  by (induction n xs rule: pieces.induct) (subst pieces.simps, auto)

lemma pieces_parts: "p \<in> set (pieces n xs) \<Longrightarrow> p \<noteq> [] \<and> (\<exists>k. p = take n (drop k xs))"
proof (induction n xs rule: pieces.induct)
  case (1 n xs)
  show ?case
  proof (cases "xs = [] \<or> n = 0 \<or> p = take n xs")
    case True
    then show ?thesis using "1.prems" by (auto simp: pieces.simps [of n xs] intro: exI [of _ 0])
  next
    case False
    then have "p \<in> set (pieces n (drop n xs))" using "1.prems" by (simp add: pieces.simps [of n xs])
    from "1.IH" [OF _ this] False obtain k where "p \<noteq> []" "p = take n (drop k (drop n xs))" by blast
    then show ?thesis by (metis drop_drop)
  qed
qed

lemma length_pieces: "0 < n \<Longrightarrow> length (pieces n xs) * n < length xs + n"
proof (induction n xs rule: pieces.induct)
  case (1 n xs)
  show ?case
  proof (cases "xs = []")
    case True
    then show ?thesis using 1(2) by (simp add: pieces.simps)
  next
    case False
    have "length (pieces n (drop n xs)) * n < length (drop n xs) + n" using 1 False by blast
    then show ?thesis using False 1(2) by (simp add: pieces.simps [of n xs]) (cases "length xs \<le> n"; simp)
  qed
qed

text \<open>A segment of the code points of a string is the list of code points of its text.\<close>

lemma code_points_not_Nil: "[] \<notin> set (code_points s)"
  by (induction s rule: code_points.induct) auto

lemma code_points_tail: "code_points (concat (x # xs)) = x # xs \<Longrightarrow> code_points (concat xs) = xs"
  using code_points_not_Nil [of "concat (x # xs)"]
  by (cases "concat (x # xs)" rule: code_points.cases) (auto split: if_splits)

lemma code_points_drop: "code_points (concat xs) = xs \<Longrightarrow> code_points (concat (drop n xs)) = drop n xs"
proof (induction n arbitrary: xs)
  case (Suc n)
  then show ?case using code_points_tail by (cases xs) auto
qed simp

lemma code_points_take: "code_points (concat xs) = xs \<Longrightarrow> code_points (concat (take n xs)) = take n xs"
proof (induction xs arbitrary: n)
  case (Cons x xs)
  note tail = code_points_tail [OF Cons.prems]
  show ?case
  proof (cases n)
    case (Suc m)
    have IH: "code_points (concat (take m xs)) = take m xs" by (rule Cons.IH [OF tail])
    have "x \<noteq> []" using Cons.prems code_points_not_Nil by (metis list.set_intros(1))
    have ends: "take m xs = [] \<or> (\<exists>c r r'. concat (take m xs) = c # r \<and> concat xs = c # r')"
    proof (cases "take m xs")
      case (Cons y ys)
      then have "xs \<noteq> []" "hd xs = y" by (cases xs; cases m; simp)+
      moreover have "y \<noteq> []" using code_points_not_Nil [of "concat xs"] tail calculation by (metis list.set_sel(1))
      ultimately show ?thesis using Cons by (cases xs; cases y) auto
    qed auto
    show ?thesis using Cons.prems ends IH tail \<open>x \<noteq> []\<close> Suc
      by (cases "concat (x # xs)" rule: code_points.cases; cases x) (auto split: if_splits)
  qed simp
qed simp

lemma code_points_segment:
  "code_points (concat (take n (drop k (code_points s)))) = take n (drop k (code_points s))"
  by (intro code_points_take code_points_drop) (simp add: concat_code_points)

lemma chunk_texts_concat: "concat (chunk_texts s) = s"
proof -
  have "concat (map concat xss) = concat (concat xss)" for xss :: "jstring list list"
    by (induction xss) auto
  then show ?thesis by (simp add: chunk_texts_def concat_pieces)
qed


lemma canonicalChunks_Some:
  assumes "canonicalChunks sha e profile = Some cs"
  shows "\<exists>scope. validatePrivateRegistration [e] scope = Some [e] \<and> ke_tenantScope e = Some (rc_tenantId scope) \<and>
      ke_storeScope e = Some (rc_storeId scope)"
    and "cs = map (\<lambda>(i, x). chunk_of sha e profile i x) (zip [0..<length (chunk_texts (ke_content e))] (chunk_texts (ke_content e)))"
proof -
  obtain t s where ts: "ke_tenantScope e = Some t" "ke_storeScope e = Some s"
    "validatePrivateRegistration [e] \<lparr>rc_tenantId = t, rc_storeId = s\<rparr> \<noteq> None"
    using assms by (auto simp: canonicalChunks_def Let_def split: option.splits if_splits)
  then have "validatePrivateRegistration [e] \<lparr>rc_tenantId = t, rc_storeId = s\<rparr> = Some [e]"
    by (auto simp: validatePrivateRegistration_def split: if_splits sum.splits)
  with ts show "\<exists>scope. validatePrivateRegistration [e] scope = Some [e] \<and> ke_tenantScope e = Some (rc_tenantId scope) \<and>
      ke_storeScope e = Some (rc_storeId scope)" by (metis retrieval_context.select_convs(1,2))
  show "cs = map (\<lambda>(i, x). chunk_of sha e profile i x) (zip [0..<length (chunk_texts (ke_content e))] (chunk_texts (ke_content e)))"
    using assms by (auto simp: canonicalChunks_def Let_def split: option.splits if_splits)
qed

lemma validate_Some:
  assumes "validatePrivateRegistration es scope = Some es'"
  shows "es' = es" "scopeValue scope" "es \<noteq> []" "list_all (registrable scope) es" "validateKnowledgeEntries es = Inr ()"
  using assms by (auto simp: validatePrivateRegistration_def split: if_splits sum.splits)

lemma chunk_of_simps [simp]:
  "ch_ordinal (chunk_of sha e profile i x) = i" "ch_text (chunk_of sha e profile i x) = x"
  "ch_chunkSha256 (chunk_of sha e profile i x) = sha x" "ch_embeddingProfileId (chunk_of sha e profile i x) = profile"
  "ch_chunkId (chunk_of sha e profile i x) = sha (stringify (chunk_key e profile i (sha x)))"
  by (simp_all add: chunk_of_def)

lemma chunk_key_inject: "stringify (chunk_key e profile i h) = stringify (chunk_key e profile j h') \<longleftrightarrow> i = j \<and> h = h'"
  unfolding chunk_key_def stringify_inject by simp

text \<open>
  C35. The canonical chunks of a document are its content cut into one to eight pieces: their texts
  concatenate to the content, each has one to two thousand code points and its own hash, their
  ordinals count from zero, and their identifiers differ unless the hash of two of their keys
  collides.
\<close>

theorem canonical_chunks_partition:
  assumes "canonicalChunks sha e profile = Some cs"
  shows "concat (map ch_text cs) = ke_content e \<and> map ch_ordinal cs = [0..<length cs] \<and>
     1 \<le> length cs \<and> length cs \<le> 8 \<and>
     list_all (\<lambda>c. ch_text c \<noteq> [] \<and> length (code_points (ch_text c)) \<le> 2000 \<and> ch_chunkSha256 c = sha (ch_text c) \<and>
       ch_embeddingProfileId c = profile) cs \<and>
     (inj_on sha ((\<lambda>c. stringify (chunk_key e profile (ch_ordinal c) (ch_chunkSha256 c))) ` set cs) \<longrightarrow>
       distinct (map ch_chunkId cs))"
proof -
  let ?ts = "chunk_texts (ke_content e)"
  have cs: "cs = map (\<lambda>(i, x). chunk_of sha e profile i x) (zip [0..<length ?ts] ?ts)"
    by (rule canonicalChunks_Some(2) [OF assms])
  obtain scope where "validatePrivateRegistration [e] scope = Some [e]" using canonicalChunks_Some(1) [OF assms] by blast
  from validate_Some(4) [OF this] have content: "stringValue (ke_content e) 16000 False" by (simp add: registrable_def)
  have texts: "map ch_text cs = ?ts" and ordinals: "map ch_ordinal cs = [0..<length cs]" and n: "length cs = length ?ts"
    by (auto simp: cs intro: nth_equalityI)
  have "length ?ts * 2000 < length (code_points (ke_content e)) + 2000"
    using length_pieces [of 2000 "code_points (ke_content e)"] by (simp add: chunk_texts_def)
  moreover have "length (code_points (ke_content e)) \<le> 16000" using content by (simp add: stringValue_def)
  ultimately have few: "length cs \<le> 8" using n by simp
  have "ke_content e \<noteq> []" using content by (auto simp: stringValue_def)
  then have "?ts \<noteq> []" using chunk_texts_concat [of "ke_content e"] by auto
  then have some: "1 \<le> length cs" using n by (cases ?ts) auto
  have part: "t \<noteq> [] \<and> length (code_points t) \<le> 2000" if "t \<in> set ?ts" for t
  proof -
    obtain p where p: "p \<in> set (pieces 2000 (code_points (ke_content e)))" "t = concat p"
      using \<open>t \<in> set ?ts\<close> by (auto simp: chunk_texts_def)
    then obtain k where k: "p \<noteq> []" "p = take 2000 (drop k (code_points (ke_content e)))" using pieces_parts by blast
    then have "code_points t = p" using p(2) code_points_segment by simp
    with k show ?thesis by auto
  qed
  have each: "list_all (\<lambda>c. ch_text c \<noteq> [] \<and> length (code_points (ch_text c)) \<le> 2000 \<and> ch_chunkSha256 c = sha (ch_text c) \<and>
       ch_embeddingProfileId c = profile) cs"
    using part by (auto simp: cs list_all_iff dest: set_zip_rightD)
  have ids: "distinct (map ch_chunkId cs)"
    if inj: "inj_on sha ((\<lambda>c. stringify (chunk_key e profile (ch_ordinal c) (ch_chunkSha256 c))) ` set cs)"
  proof -
    have "inj_on ch_chunkId (set cs)"
    proof (rule inj_onI)
      fix a b assume ab: "a \<in> set cs" "b \<in> set cs" "ch_chunkId a = ch_chunkId b"
      have key: "ch_chunkId c = sha (stringify (chunk_key e profile (ch_ordinal c) (ch_chunkSha256 c)))" if "c \<in> set cs" for c
        using that by (auto simp: cs)
      have "ch_ordinal a = ch_ordinal b"
      proof -
        have "stringify (chunk_key e profile (ch_ordinal a) (ch_chunkSha256 a)) = stringify (chunk_key e profile (ch_ordinal b) (ch_chunkSha256 b))"
          using ab(3) unfolding key [OF ab(1)] key [OF ab(2)] by (rule inj_onD [OF inj]) (use ab in auto)
        then show ?thesis by (simp only: chunk_key_inject)
      qed
      moreover have "inj_on ch_ordinal (set cs)" using ordinals by (metis distinct_map distinct_upt)
      ultimately show "a = b" using ab by (simp add: inj_on_def)
    qed
    moreover have "distinct cs" using ordinals by (metis distinct_map distinct_upt)
    ultimately show ?thesis by (simp add: distinct_map)
  qed
  have "concat (map ch_text cs) = ke_content e" by (simp only: texts chunk_texts_concat)
  then show ?thesis using ordinals few some each ids by (intro conjI impI)
qed


section \<open>Versions of a document\<close>

definition version_key :: "rag_document \<Rightarrow> jstring \<times> jstring \<times> jstring \<times> jstring" where
  "version_key d = (dc_tenantId d, dc_storeId d, dc_documentId d, dc_version d)"

definition document_key :: "rag_document \<Rightarrow> jstring \<times> jstring \<times> jstring" where
  "document_key d = (dc_tenantId d, dc_storeId d, dc_documentId d)"

text \<open>The keys of the table, its CHECK constraints, and the hash of the content.\<close>

definition registry_ok :: "(jstring \<Rightarrow> jstring) \<Rightarrow> registry \<Rightarrow> bool" where
  "registry_ok sha rg \<longleftrightarrow>
     distinct (map version_key (rg_documents rg)) \<and>
     distinct (map document_key (filter dc_active (rg_documents rg))) \<and>
     list_all (\<lambda>d. (dc_active d \<longrightarrow> dc_status d = approved) \<and> dc_contentSha256 d = sha (dc_content d)) (rg_documents rg)"

text \<open>A row only ever changes by being retired.\<close>

definition row_evolves :: "rag_document \<Rightarrow> rag_document \<Rightarrow> bool" where
  "row_evolves d d' \<longleftrightarrow> d' = d \<or> (dc_active d \<and> d' = retire d)"

definition rows_evolve :: "registry \<Rightarrow> registry \<Rightarrow> bool" where
  "rows_evolve rg rg' \<longleftrightarrow> (\<forall>d \<in> set (rg_documents rg). \<exists>d' \<in> set (rg_documents rg'). row_evolves d d')"

lemma retire_simps [simp]:
  "dc_active (retire d) = False" "version_key (retire d) = version_key d" "document_key (retire d) = document_key d"
  "dc_contentSha256 (retire d) = dc_contentSha256 d" "dc_content (retire d) = dc_content d"
  "document_at scope i (retire d) = document_at scope i d" "dc_version (retire d) = dc_version d"
  by (simp_all add: retire_def version_key_def document_key_def document_at_def)

lemma document_row_simps [simp]:
  "dc_active (document_row sha scope e)" "dc_status (document_row sha scope e) = approved"
  "version_key (document_row sha scope e) = (rc_tenantId scope, rc_storeId scope, ke_id e, ke_version e)"
  "document_key (document_row sha scope e) = (rc_tenantId scope, rc_storeId scope, ke_id e)"
  "dc_contentSha256 (document_row sha scope e) = sha (dc_content (document_row sha scope e))"
  "document_at scope i (document_row sha scope e) = (ke_id e = i)" "dc_version (document_row sha scope e) = ke_version e"
  by (auto simp: document_row_def version_key_def document_key_def document_at_def)

lemma document_at_key: "document_at scope i d \<longleftrightarrow> document_key d = (rc_tenantId scope, rc_storeId scope, i)"
  by (simp add: document_at_def document_key_def)

lemma row_evolves_refl [simp]: "row_evolves d d"
  by (simp add: row_evolves_def)

lemma row_evolves_trans: "row_evolves a b \<Longrightarrow> row_evolves b c \<Longrightarrow> row_evolves a c"
  by (auto simp: row_evolves_def)

lemma rows_evolve_refl [simp]: "rows_evolve rg rg"
  unfolding rows_evolve_def using row_evolves_refl by blast

lemma rows_evolve_trans: "rows_evolve a b \<Longrightarrow> rows_evolve b c \<Longrightarrow> rows_evolve a c"
  unfolding rows_evolve_def by (meson row_evolves_trans)

lemma distinct_active_map:
  assumes "distinct (map f (filter P xs))" and "\<And>x. P (g x) \<Longrightarrow> P x \<and> f (g x) = f x"
  shows "distinct (map f (filter P (map g xs))) \<and> f ` {x \<in> set (map g xs). P x} \<subseteq> f ` {x \<in> set xs. P x}"
  using assms(1)
proof (induction xs)
  case (Cons x xs)
  then have IH: "distinct (map f (filter P (map g xs)))" "f ` {x \<in> set (map g xs). P x} \<subseteq> f ` {x \<in> set xs. P x}"
    by (auto split: if_splits)
  show ?case
  proof (cases "P (g x)")
    case True
    with assms(2) have "P x" "f (g x) = f x" by blast+
    with True IH Cons.prems show ?thesis by (auto 0 3)
  next
    case False
    with IH show ?thesis by auto
  qed
qed simp

lemma register_entry_cases:
  assumes "register_entry sha scope e rg = Inr rg'"
  obtains "rg' = rg" "document_row sha scope e \<in> set (rg_documents rg)"
  | "\<forall>d \<in> set (rg_documents rg). version_key d \<noteq> (rc_tenantId scope, rc_storeId scope, ke_id e, ke_version e)"
    "rg' = rg\<lparr>rg_documents :=
       map (\<lambda>d. if document_at scope (ke_id e) d \<and> dc_active d then retire d else d) (rg_documents rg) @ [document_row sha scope e]\<rparr>"
proof (cases "List.find (\<lambda>d. document_at scope (ke_id e) d \<and> dc_version d = ke_version e) (rg_documents rg)")
  case None
  then have "\<forall>d \<in> set (rg_documents rg). version_key d \<noteq> (rc_tenantId scope, rc_storeId scope, ke_id e, ke_version e)"
    by (auto simp: find_None_iff document_at_def version_key_def)
  with None that(2) assms show thesis by (auto simp: register_entry_def split: if_splits)
next
  case (Some d)
  then have "d \<in> set (rg_documents rg)" by (auto simp: find_Some_iff)
  with Some that(1) assms show thesis by (auto simp: register_entry_def split: if_splits)
qed

lemma register_entry_ok:
  assumes ok: "registry_ok sha rg" and step: "register_entry sha scope e rg = Inr rg'"
  shows "registry_ok sha rg' \<and> rows_evolve rg rg' \<and> document_row sha scope e \<in> set (rg_documents rg') \<and>
     (\<forall>d \<in> set (rg_documents rg). \<not> document_at scope (ke_id e) d \<longrightarrow> d \<in> set (rg_documents rg'))"
  using step
proof (cases rule: register_entry_cases)
  case 2
  let ?g = "\<lambda>d. if document_at scope (ke_id e) d \<and> dc_active d then retire d else d"
  let ?ds = "rg_documents rg" and ?new = "document_row sha scope e"
  have keys: "map version_key (map ?g ?ds) = map version_key ?ds" by simp
  have "distinct (map document_key (filter dc_active (map ?g ?ds))) \<and>
      document_key ` {d \<in> set (map ?g ?ds). dc_active d} \<subseteq> document_key ` {d \<in> set ?ds. dc_active d}"
    using ok by (intro distinct_active_map) (auto simp: registry_ok_def split: if_splits)
  moreover have "document_key d \<noteq> document_key ?new" if "d \<in> set (map ?g ?ds)" "dc_active d" for d
    using that by (auto simp: document_at_key split: if_splits)
  ultimately have "distinct (map document_key (filter dc_active (map ?g ?ds @ [?new])))" by auto
  moreover have "distinct (map version_key (map ?g ?ds @ [?new]))"
    using ok 2(1) unfolding map_append keys by (auto simp: registry_ok_def)
  moreover have "list_all (\<lambda>d. (dc_active d \<longrightarrow> dc_status d = approved) \<and> dc_contentSha256 d = sha (dc_content d)) (map ?g ?ds @ [?new])"
    using ok by (auto simp: registry_ok_def list_all_iff)
  ultimately have "registry_ok sha rg'" by (simp add: 2(2) registry_ok_def)
  moreover have "rows_evolve rg rg'" by (auto simp: rows_evolve_def row_evolves_def 2(2))
  ultimately show ?thesis using 2(2) by auto
qed (use ok in simp)

lemma register_all_ok:
  assumes "registry_ok sha rg" and "register_all sha scope stops es rg = Inr rg'" and "distinct (map ke_id es)"
  shows "registry_ok sha rg' \<and> rows_evolve rg rg' \<and> (\<forall>e \<in> set es. document_row sha scope e \<in> set (rg_documents rg')) \<and>
     (\<forall>d \<in> set (rg_documents rg). (\<forall>e \<in> set es. \<not> document_at scope (ke_id e) d) \<longrightarrow> d \<in> set (rg_documents rg'))"
  using assms
proof (induction es arbitrary: stops rg)
  case (Cons e es)
  then obtain rg1 where step: "register_entry sha scope e rg = Inr rg1"
    "register_all sha scope (map_option (\<lambda>n. n - 1) stops) es rg1 = Inr rg'" by (auto simp: and_then_Inr split: if_splits)
  note one = register_entry_ok [OF Cons.prems(1) step(1)]
  then have rest: "registry_ok sha rg' \<and> rows_evolve rg1 rg' \<and> (\<forall>e \<in> set es. document_row sha scope e \<in> set (rg_documents rg')) \<and>
     (\<forall>d \<in> set (rg_documents rg1). (\<forall>e \<in> set es. \<not> document_at scope (ke_id e) d) \<longrightarrow> d \<in> set (rg_documents rg'))"
    using Cons.IH [OF _ step(2)] Cons.prems(3) by simp
  moreover have "document_row sha scope e \<in> set (rg_documents rg')"
    using one rest Cons.prems(3) by (auto simp: image_iff)
  ultimately show ?case using one rows_evolve_trans by auto
qed (auto split: if_splits)

lemma distinct_insert_by: "distinct (map f (insert_by le x xs)) \<longleftrightarrow> f x \<notin> f ` set xs \<and> distinct (map f xs)"
  by (induction xs) (auto simp: set_insert_by)

lemma distinct_sort_by: "distinct (map f (sort_by le xs)) \<longleftrightarrow> distinct (map f xs)"
  by (induction xs) (simp_all add: distinct_insert_by)

lemma register_cases:
  assumes "registry_ok sha rg" and "register sha stops answer entries scope rg = (rg', r)"
  shows "(rg' = rg \<and> r = Inl ()) \<or>
    (answer \<noteq> Not_committed \<and> r = (if answer = Committed then Inr () else Inl ()) \<and> registry_ok sha rg' \<and> rows_evolve rg rg' \<and>
     (\<forall>e \<in> set entries. document_row sha scope e \<in> set (rg_documents rg')) \<and>
     (\<forall>d \<in> set (rg_documents rg). (\<forall>e \<in> set entries. \<not> document_at scope (ke_id e) d) \<longrightarrow> d \<in> set (rg_documents rg')))"
proof (cases "validatePrivateRegistration entries scope")
  case (Some es)
  note valid = validate_Some [OF Some]
  then have "distinct (map ke_id (sort_by (\<lambda>a b. ke_id a \<le> ke_id b) es))"
    using validateFrom_distinct by (auto simp: distinct_sort_by validateKnowledgeEntries_def)
  then show ?thesis
    using assms(2) Some valid(1) register_all_ok [OF assms(1), of scope stops "sort_by (\<lambda>a b. ke_id a \<le> ke_id b) es"]
    by (cases "register_all sha scope stops (sort_by (\<lambda>a b. ke_id a \<le> ke_id b) es) rg")
      (auto simp: register_def split: commit_answer.splits)
qed (use assms in \<open>auto simp: register_def\<close>)

text \<open>Anyone may register with any abort and any answer; the indexer writes the chunks as it likes.\<close>

inductive registry_run :: "(jstring \<Rightarrow> jstring) \<Rightarrow> registry \<Rightarrow> registry \<Rightarrow> bool" for sha where
  run_refl: "registry_run sha rg rg"
| run_register: "registry_run sha rg (fst (register sha stops answer entries scope rg1))" if "registry_run sha rg rg1"
| run_index: "registry_run sha rg (rg1\<lparr>rg_chunks := chunks\<rparr>)" if "registry_run sha rg rg1"
| run_store: "registry_run sha rg (rg1\<lparr>rg_stores := st # rg_stores rg1\<rparr>)" if "registry_run sha rg rg1"

lemma registry_run_ok:
  assumes "registry_run sha rg rg'" and "registry_ok sha rg"
  shows "registry_ok sha rg' \<and> rows_evolve rg rg'"
  using assms
proof (induction rule: registry_run.induct)
  case (run_register rg rg1 stops answer entries scope)
  then have ok: "registry_ok sha rg1" "rows_evolve rg rg1" by simp_all
  obtain rg2 r where reg: "register sha stops answer entries scope rg1 = (rg2, r)" by (cases "register sha stops answer entries scope rg1")
  with register_cases [OF ok(1) reg] ok show ?case by (auto dest: rows_evolve_trans)
qed (simp_all add: registry_ok_def rows_evolve_def)

lemma unique_row:
  assumes "distinct (map f xs)" "x \<in> set xs" "y \<in> set xs" "f x = f y" shows "x = y"
  using assms by (simp add: distinct_map inj_on_def)

text \<open>
  C34. Over every sequence of registrations, aborted, refused, rolled back or with their answer lost, a
  document has at most one active version, every active version is approved and carries the hash of its content, a
  stored version never changes its content or metadata and is at most retired, and a retired version never becomes
  active again.
\<close>

theorem registry_versions_settle:
  assumes ok: "registry_ok sha rg" and run: "registry_run sha rg rg'"
  shows "(\<forall>d \<in> set (rg_documents rg'). \<forall>x \<in> set (rg_documents rg'). dc_active d \<and> dc_active x \<and> document_key d = document_key x \<longrightarrow> d = x) \<and>
    (\<forall>d \<in> set (rg_documents rg'). dc_active d \<longrightarrow> dc_status d = js ''approved'' \<and> dc_contentSha256 d = sha (dc_content d)) \<and>
    (\<forall>d \<in> set (rg_documents rg). \<exists>d' \<in> set (rg_documents rg'). version_key d' = version_key d \<and>
       d' = (if dc_active d' then d else d\<lparr>dc_status := dc_status d', dc_active := False\<rparr>) \<and> (dc_active d' \<longrightarrow> dc_active d) \<and>
       (\<not> dc_active d \<longrightarrow> d' = d))"
proof -
  note r = registry_run_ok [OF run ok]
  have "d = x" if "d \<in> set (rg_documents rg')" "x \<in> set (rg_documents rg')" "dc_active d" "dc_active x" "document_key d = document_key x" for d x
    using that r unique_row [of document_key "filter dc_active (rg_documents rg')" d x] by (simp add: registry_ok_def)
  moreover have "\<exists>d' \<in> set (rg_documents rg'). version_key d' = version_key d \<and>
       d' = (if dc_active d' then d else d\<lparr>dc_status := dc_status d', dc_active := False\<rparr>) \<and> (dc_active d' \<longrightarrow> dc_active d) \<and>
       (\<not> dc_active d \<longrightarrow> d' = d)" if d: "d \<in> set (rg_documents rg)" for d
  proof -
    obtain d' where "d' \<in> set (rg_documents rg')" "row_evolves d d'" using r d by (auto simp: rows_evolve_def)
    then show ?thesis by (intro bexI [of _ d']) (auto simp: row_evolves_def retire_def version_key_def)
  qed
  moreover have "dc_active d \<longrightarrow> dc_status d = js ''approved'' \<and> dc_contentSha256 d = sha (dc_content d)"
    if "d \<in> set (rg_documents rg')" for d
    using that r by (simp add: registry_ok_def list_all_iff approved_def)
  ultimately show ?thesis by blast
qed

lemma register_again:
  assumes "registry_ok sha rg" and "\<forall>e \<in> set es. document_row sha scope e \<in> set (rg_documents rg)"
  shows "register_all sha scope None es rg = Inr rg"
  using assms(2)
proof (induction es)
  case (Cons e es)
  let ?P = "\<lambda>d. document_at scope (ke_id e) d \<and> dc_version d = ke_version e"
  have row: "document_row sha scope e \<in> set (rg_documents rg)" "?P (document_row sha scope e)" using Cons.prems by simp_all
  then obtain d where d: "List.find ?P (rg_documents rg) = Some d"
    by (cases "List.find ?P (rg_documents rg)") (blast dest: find_None_iff [THEN iffD1], blast)
  then have "d \<in> set (rg_documents rg)" "?P d" by (auto simp: find_Some_iff)
  then have "d = document_row sha scope e"
    using unique_row [of version_key "rg_documents rg" d "document_row sha scope e"] row assms(1)
    by (auto simp: registry_ok_def version_key_def document_at_def document_row_def)
  with d have "register_entry sha scope e rg = Inr rg" by (simp add: register_entry_def)
  with Cons show ?case by simp
qed simp

lemma filter_key: "distinct (map f xs) \<Longrightarrow> x \<in> set xs \<Longrightarrow> filter (\<lambda>d. f d = f x) xs = [x]"
proof -
  assume d: "distinct (map f xs)" and m: "x \<in> set xs"
  obtain as bs where xs: "xs = as @ x # bs" using split_list [OF m] by blast
  then have "filter (\<lambda>d. f d = f x) as = []" "filter (\<lambda>d. f d = f x) bs = []"
    using d by (auto simp: filter_empty_conv image_iff)
  with xs show ?thesis by simp
qed

lemma active_row_only:
  assumes "registry_ok sha rg" and "document_row sha scope e \<in> set (rg_documents rg)"
  shows "filter (\<lambda>d. document_at scope (ke_id e) d \<and> dc_active d) (rg_documents rg) = [document_row sha scope e]"
proof -
  have "filter (\<lambda>d. document_at scope (ke_id e) d \<and> dc_active d) (rg_documents rg) =
      filter (\<lambda>d. document_key d = document_key (document_row sha scope e)) (filter dc_active (rg_documents rg))"
    by (simp add: document_at_key conj_commute)
  also have "\<dots> = [document_row sha scope e]"
    by (rule filter_key) (use assms in \<open>simp_all add: registry_ok_def\<close>)
  finally show ?thesis .
qed

text \<open>
  A registration that succeeds makes exactly its entries the active versions of their documents and
  leaves every other document alone; one that fails changes nothing, unless only the answer to its
  commit was lost; and repeating a successful registration succeeds without any change.
\<close>

theorem registration_effective:
  assumes ok: "registry_ok sha rg" and reg: "register sha stops answer entries scope rg = (rg', r)"
  shows "(r = Inr () \<longrightarrow>
      (\<forall>e \<in> set entries. filter (\<lambda>d. document_at scope (ke_id e) d \<and> dc_active d) (rg_documents rg') = [document_row sha scope e]) \<and>
      (\<forall>d \<in> set (rg_documents rg). (\<forall>e \<in> set entries. \<not> document_at scope (ke_id e) d) \<longrightarrow> d \<in> set (rg_documents rg')) \<and>
      register sha None Committed entries scope rg' = (rg', Inr ())) \<and>
    (r = Inl () \<and> answer \<noteq> Answer_lost \<longrightarrow> rg' = rg)"
proof -
  from reg have c: "(rg' = rg \<and> r = Inl ()) \<or>
    (answer \<noteq> Not_committed \<and> r = (if answer = Committed then Inr () else Inl ()) \<and> registry_ok sha rg' \<and>
     (\<forall>e \<in> set entries. document_row sha scope e \<in> set (rg_documents rg')) \<and>
     (\<forall>d \<in> set (rg_documents rg). (\<forall>e \<in> set entries. \<not> document_at scope (ke_id e) d) \<longrightarrow> d \<in> set (rg_documents rg')))"
    using register_cases [OF ok] by blast
  have "validatePrivateRegistration entries scope = Some entries" if "r = Inr ()"
    using reg that validate_Some(1) by (auto simp: register_def split: option.splits)
  then have "register sha None Committed entries scope rg' = (rg', Inr ())" if "r = Inr ()"
    using that c register_again [of sha rg' "sort_by (\<lambda>a b. ke_id a \<le> ke_id b) entries" scope]
    by (simp add: register_def)
  with c show ?thesis using active_row_only [of sha rg'] by (cases answer) auto
qed


section \<open>Evidence\<close>

lemma parse_candidate_Some:
  assumes "parse_candidate scope profile documents index v = Some c"
  shows "cd_documentId c \<notin> set documents" "cd_rank c = index + 1" "- 1 \<le> cd_score c \<and> cd_score c \<le> 1"
    "cd_embeddingProfileId c = profile"
  using assms
  by (auto simp: parse_candidate_def score_field_def split: json.splits option.splits if_splits jnum.splits)

lemma parse_candidates_Some:
  assumes "parse_candidates scope profile documents index vs = Some cs"
  shows "length cs = length vs \<and> distinct (map cd_documentId cs) \<and> set (map cd_documentId cs) \<inter> set documents = {} \<and>
    map cd_rank cs = [index + 1..<index + 1 + length vs] \<and>
    list_all (\<lambda>c. - 1 \<le> cd_score c \<and> cd_score c \<le> 1 \<and> cd_embeddingProfileId c = profile) cs"
  using assms
proof (induction vs arbitrary: documents index cs)
  case (Cons v vs)
  then obtain c cs' where c: "parse_candidate scope profile documents index v = Some c" "cs = c # cs'"
    "parse_candidates scope profile (cd_documentId c # documents) (index + 1) vs = Some cs'"
    by (auto split: option.splits)
  have "[index + 1..<index + 1 + length (v # vs)] = (index + 1) # [index + 1 + 1..<index + 1 + 1 + length vs]"
    by (subst upt_conv_Cons) simp_all
  then show ?case using Cons.IH [OF c(3)] parse_candidate_Some [OF c(1)] c(2) by auto
qed simp

lemma validateSearchResponse_Some:
  assumes "validateSearchResponse v requestId scope profile = Some cs"
  shows "length cs \<le> 3" "distinct (map cd_documentId cs)" "map cd_rank cs = [1..<length cs + 1]"
    "list_all (\<lambda>c. - 1 \<le> cd_score c \<and> cd_score c \<le> 1 \<and> cd_embeddingProfileId c = profile) cs"
proof -
  obtain vs where vs: "length vs \<le> 3" "parse_candidates scope profile [] 0 vs = Some cs"
    using assms by (auto simp: validateSearchResponse_def not_less split: json.splits option.splits if_splits)
  from parse_candidates_Some [OF vs(2)] vs(1)
  show "length cs \<le> 3" "distinct (map cd_documentId cs)" "map cd_rank cs = [1..<length cs + 1]"
    "list_all (\<lambda>c. - 1 \<le> cd_score c \<and> cd_score c \<le> 1 \<and> cd_embeddingProfileId c = profile) cs" by auto
qed

definition evidence_for :: "knowledge_entry \<Rightarrow> candidate \<Rightarrow> rag_evidence" where
  "evidence_for e c =
     \<lparr>re_id = ke_id e, re_text = ke_content e,
      re_knowledge = \<lparr>km_kind = ke_kind e, km_status = ke_status e, km_version = ke_version e, km_sourceRef = ke_sourceRef e,
        km_tenantScope = ke_tenantScope e, km_storeScope = ke_storeScope e\<rparr>,
      re_score = cd_score c, re_rank = cd_rank c\<rparr>"

lemma candidate_evidence_Some:
  assumes "candidate_evidence sha scope documents c = Some ev"
  obtains doc canonical where "doc \<in> set documents" "ke_id (rd_entry doc) = cd_documentId c" "rd_active doc"
    "registrable scope (rd_entry doc)" "rd_contentSha256 doc = sha (ke_content (rd_entry doc))"
    "validateCompleteChunkGeneration sha (rd_entry doc) (rd_chunks doc) (cd_embeddingProfileId c)"
    "canonicalChunks sha (rd_entry doc) (cd_embeddingProfileId c) = Some canonical"
    "cd_text c \<in> set (map ch_text canonical)" "ev = evidence_for (rd_entry doc) c"
proof -
  obtain doc where doc: "filter (\<lambda>d. ke_id (rd_entry d) = cd_documentId c) documents = [doc]"
    using assms by (auto simp: candidate_evidence_def split: list.splits)
  obtain es where es: "validatePrivateRegistration [rd_entry doc] scope = Some es"
    using assms doc by (auto simp: candidate_evidence_def split: option.splits)
  note valid = validate_Some [OF es]
  obtain canonical where can: "canonicalChunks sha (rd_entry doc) (cd_embeddingProfileId c) = Some canonical"
    using assms doc es valid(1) by (auto simp: candidate_evidence_def split: option.splits if_splits list.splits)
  have body: "\<exists>i. rd_active doc \<and> rd_contentSha256 doc = sha (ke_content (rd_entry doc)) \<and>
        validateCompleteChunkGeneration sha (rd_entry doc) (rd_chunks doc) (cd_embeddingProfileId c) \<and>
        i < length canonical \<and> ch_text (canonical ! i) = cd_text c \<and>
        ev = evidence_for (rd_entry doc) c"
    using assms doc es valid(1) can
    by (auto simp: candidate_evidence_def Let_def evidence_for_def split: option.splits if_splits list.splits)
  then have "cd_text c \<in> set (map ch_text canonical)" by (metis length_map nth_map nth_mem)
  with body can valid(4) filter_one [OF doc] show thesis by (intro that [of doc canonical]) auto
qed

lemma all_some_Some: "all_some xs = Some ys \<Longrightarrow> xs = map Some ys"
  by (auto simp: all_some_def map_idI split: if_splits intro!: sym [OF map_idI]) (metis option.collapse)

lemma rag_search_Some:
  assumes "rag_search sha client registry reply abort requestId query context = Some evidence"
  obtains scope v candidates documents where "context = Some scope"
    "validateSearchResponse v requestId scope (rl_embeddingProfileId client) = Some candidates"
    "registry scope (map cd_documentId candidates) (rl_embeddingProfileId client) = Some documents"
    "map (candidate_evidence sha scope documents) candidates = map Some evidence"
  using assms by (auto simp: rag_search_def Let_def split: option.splits if_splits dest!: all_some_Some)

text \<open>
  C33. Whatever the retrieval service answers, a search over the registry returns at most three pieces
  of evidence on different documents, ranked from one with scores between -1 and 1, and each is
  the whole stored content, under its stored metadata, of an active approved document of the own
  tenant and store whose chunks are indexed completely; the service chooses the documents but no
  text.
\<close>

theorem rag_evidence_registered:
  assumes "rag_search sha client (current rg) reply abort requestId query context = Some evidence"
  shows "\<exists>scope. context = Some scope \<and> length evidence \<le> 3 \<and> distinct (map re_id evidence) \<and>
    map re_rank evidence = [1..<length evidence + 1] \<and>
    list_all (\<lambda>ev. - 1 \<le> re_score ev \<and> re_score ev \<le> 1 \<and>
      (\<exists>d \<in> set (rg_documents rg). dc_active d \<and> dc_status d = approved \<and> document_at scope (re_id ev) d \<and>
        re_text ev = dc_content d \<and> dc_contentSha256 d = sha (dc_content d) \<and>
        re_knowledge ev = \<lparr>km_kind = dc_kind d, km_status = approved, km_version = dc_version d, km_sourceRef = dc_sourceRef d,
          km_tenantScope = Some (rc_tenantId scope), km_storeScope = Some (rc_storeId scope)\<rparr> \<and>
        (\<exists>canonical. canonicalChunks sha (entry_of d) (rl_embeddingProfileId client) = Some canonical \<and>
          set canonical \<subseteq> set (chunks_for rg d (rl_embeddingProfileId client))))) evidence"
proof -
  let ?profile = "rl_embeddingProfileId client"
  obtain scope v cs documents where run: "context = Some scope" "validateSearchResponse v requestId scope ?profile = Some cs"
    "current rg scope (map cd_documentId cs) ?profile = Some documents"
    "map (candidate_evidence sha scope documents) cs = map Some evidence"
    using rag_search_Some [OF assms] by metis
  note valid = validateSearchResponse_Some [OF run(2)]
  have n: "length evidence = length cs" using run(4) by (metis length_map)
  have nth: "candidate_evidence sha scope documents (cs ! k) = Some (evidence ! k)" if "k < length cs" for k
    using run(4) that n by (metis nth_map)
  have fields: "re_id (evidence ! k) = cd_documentId (cs ! k) \<and> re_rank (evidence ! k) = cd_rank (cs ! k) \<and>
      re_score (evidence ! k) = cd_score (cs ! k)" if "k < length cs" for k
    using nth [OF that] by (elim candidate_evidence_Some) (simp add: evidence_for_def)
  then have "map re_id evidence = map cd_documentId cs" "map re_rank evidence = map cd_rank cs"
    using n by (auto intro: nth_equalityI)
  moreover have "- 1 \<le> re_score ev \<and> re_score ev \<le> 1 \<and>
      (\<exists>d \<in> set (rg_documents rg). dc_active d \<and> dc_status d = approved \<and> document_at scope (re_id ev) d \<and>
        re_text ev = dc_content d \<and> dc_contentSha256 d = sha (dc_content d) \<and>
        re_knowledge ev = \<lparr>km_kind = dc_kind d, km_status = approved, km_version = dc_version d, km_sourceRef = dc_sourceRef d,
          km_tenantScope = Some (rc_tenantId scope), km_storeScope = Some (rc_storeId scope)\<rparr> \<and>
        (\<exists>canonical. canonicalChunks sha (entry_of d) ?profile = Some canonical \<and>
          set canonical \<subseteq> set (chunks_for rg d ?profile)))" if ev: "ev \<in> set evidence" for ev
  proof -
    obtain k where k: "k < length cs" "ev = evidence ! k" using ev n by (metis in_set_conv_nth)
    have c: "- 1 \<le> cd_score (cs ! k) \<and> cd_score (cs ! k) \<le> 1 \<and> cd_embeddingProfileId (cs ! k) = ?profile"
      using valid(4) k(1) by (simp add: list_all_iff)
    obtain doc canonical where doc: "doc \<in> set documents" "ke_id (rd_entry doc) = cd_documentId (cs ! k)"
      "registrable scope (rd_entry doc)" "rd_contentSha256 doc = sha (ke_content (rd_entry doc))"
      "validateCompleteChunkGeneration sha (rd_entry doc) (rd_chunks doc) ?profile"
      "canonicalChunks sha (rd_entry doc) ?profile = Some canonical" "ev = evidence_for (rd_entry doc) (cs ! k)"
      using candidate_evidence_Some [OF nth [OF k(1)]] c k(2) by metis
    obtain d where d: "d \<in> set (rg_documents rg)" "dc_active d" "dc_status d = approved"
      "dc_tenantId d = rc_tenantId scope" "dc_storeId d = rc_storeId scope"
      "rd_entry doc = entry_of d" "rd_contentSha256 doc = dc_contentSha256 d" "rd_chunks doc = chunks_for rg d ?profile"
      using run(3) doc(1) by (auto simp: current_def split: if_splits)
    have "x \<in> set (chunks_for rg d ?profile)" if "x \<in> set canonical" for x
      using doc(5,6) d(6,8) that
      by (auto simp: validateCompleteChunkGeneration_def list_all_iff dest!: bspec filter_one)
    then have "\<exists>canonical. canonicalChunks sha (entry_of d) ?profile = Some canonical \<and>
          set canonical \<subseteq> set (chunks_for rg d ?profile)" using doc(6) d(6) by auto
    with d c doc show ?thesis
      by (intro conjI bexI [of _ d]) (auto simp: evidence_for_def entry_of_def document_at_def)
  qed
  ultimately show ?thesis using run(1) valid(1-3) n by (simp add: list_all_iff)
qed


section \<open>Examples\<close>

definition demo_sha :: "jstring \<Rightarrow> jstring" where
  "demo_sha s = replicate 64 (if length s < 5 then 48 else 97)"

definition rag_scope :: retrieval_context where
  "rag_scope = \<lparr>rc_tenantId = js ''t'', rc_storeId = js ''s''\<rparr>"

definition rag_entry :: "string \<Rightarrow> knowledge_entry" where
  "rag_entry ver =
     \<lparr>ke_id = js ''d'', ke_kind = js ''policy'', ke_status = approved, ke_title = js ''T'', ke_content = js ''text'',
      ke_version = js ver, ke_updatedAt = js ''2024-02-29'', ke_tenantScope = Some (js ''t''), ke_storeScope = Some (js ''s''),
      ke_sourceRef = js ''ref'', ke_tags = []\<rparr>"

definition rag_profile :: jstring where
  "rag_profile = js ''p''"

definition rag_empty :: registry where
  "rag_empty = \<lparr>rg_stores = [(js ''t'', js ''s'')], rg_documents = [], rg_chunks = []\<rparr>"

definition rag_registered :: registry where
  "rag_registered = rag_empty\<lparr>rg_documents := [document_row demo_sha rag_scope (rag_entry ''1'')]\<rparr>"

lemma plain_code_points: "list_all (\<lambda>c. 32 < c \<and> c < 127) v \<Longrightarrow> code_points v = map (\<lambda>c. [c]) v"
  by (induction v rule: code_points.induct) (auto simp: is_high_def)

lemma plain_stringValue:
  assumes "list_all (\<lambda>c. 32 < c \<and> c < 127) v" and "v \<noteq> []" and "length v \<le> limit"
  shows "stringValue v limit allow"
proof -
  have "blank v \<longleftrightarrow> list_all is_space v" by (rule blank_iff)
  moreover have "\<not> list_all is_space v" using assms(1,2) by (cases v) (auto simp: is_space_def)
  ultimately have "trim v \<noteq> []" by (simp add: blank_def)
  with assms show ?thesis
    by (auto simp: stringValue_def plain_code_points is_well_formed_def is_high_def is_low_def list_all_iff)
qed

lemma rag_plain:
  "list_all (\<lambda>c. 32 < c \<and> c < 127) (js ''t'')" "list_all (\<lambda>c. 32 < c \<and> c < 127) (js ''s'')"
  "list_all (\<lambda>c. 32 < c \<and> c < 127) (js ''d'')" "list_all (\<lambda>c. 32 < c \<and> c < 127) (js ''1'')"
  "list_all (\<lambda>c. 32 < c \<and> c < 127) (js ''T'')" "list_all (\<lambda>c. 32 < c \<and> c < 127) (js ''text'')"
  "list_all (\<lambda>c. 32 < c \<and> c < 127) (js ''ref'')" "list_all (\<lambda>c. 32 < c \<and> c < 127) (js ''p'')"
  by code_simp+

lemma length_text [simp]: "length (js s) = length s"
  by (simp add: js_def)

lemma rag_strings [simp]:
  "stringValue (js ''t'') 200 a" "stringValue (js ''s'') 200 a" "stringValue (js ''d'') 200 a" "stringValue (js ''1'') 200 a"
  "stringValue (js ''T'') 16000 a" "stringValue (js ''text'') 16000 a" "stringValue (js ''text'') 2000 a"
  "stringValue (js ''ref'') 262144 a" "stringValue (js ''p'') 200 a"
  by (rule plain_stringValue; simp add: rag_plain)+

lemma rag_entry_simps [simp]:
  "ke_id (rag_entry v) = js ''d''" "ke_kind (rag_entry v) = js ''policy''" "ke_status (rag_entry v) = approved"
  "ke_title (rag_entry v) = js ''T''" "ke_content (rag_entry v) = js ''text''" "ke_version (rag_entry v) = js v"
  "ke_updatedAt (rag_entry v) = js ''2024-02-29''" "ke_tenantScope (rag_entry v) = Some (js ''t'')"
  "ke_storeScope (rag_entry v) = Some (js ''s'')" "ke_sourceRef (rag_entry v) = js ''ref''" "ke_tags (rag_entry v) = []"
  "rc_tenantId rag_scope = js ''t''" "rc_storeId rag_scope = js ''s''"
  by (simp_all add: rag_entry_def rag_scope_def)

lemma rag_valid: "validatePrivateRegistration [rag_entry ''1''] rag_scope = Some [rag_entry ''1'']"
proof -
  have "validIsoDate (js ''2024-02-29'')" by code_simp
  then have "validateEntry [] (rag_entry ''1'') = Inr ()"
    by (simp add: validateEntry_def requiredString_def guard_def blank_iff is_space_def js_Cons statuses_def kinds_def approved_def)
  then have "validateKnowledgeEntries [rag_entry ''1''] = Inr ()" by (simp add: validateKnowledgeEntries_def)
  then show ?thesis by (simp add: validatePrivateRegistration_def scopeValue_def registrable_def)
qed

lemma rag_text: "chunk_texts (js ''text'') = [js ''text'']"
proof -
  have "code_points (js ''text'') = map (\<lambda>c. [c]) (js ''text'')" by (rule plain_code_points [OF rag_plain(6)])
  moreover have "pieces 2000 (map (\<lambda>c. [c]) (js ''text'')) = [map (\<lambda>c. [c]) (js ''text'')]"
    by (subst pieces.simps) (simp add: pieces.simps)
  ultimately show ?thesis by (simp add: chunk_texts_def)
qed

lemma rag_chunks: "canonicalChunks demo_sha (rag_entry ''1'') rag_profile = Some [chunk_of demo_sha (rag_entry ''1'') rag_profile 0 (js ''text'')]"
  using rag_valid [unfolded rag_scope_def] by (simp add: canonicalChunks_def rag_text rag_profile_def)

lemma rag_date: "date_column (js ''2024-02-29'')"
  by code_simp

lemma rag_register: "register demo_sha None Committed [rag_entry ''1''] rag_scope rag_empty = (rag_registered, Inr ())"
  by (simp add: register_def rag_valid register_entry_def rag_empty_def rag_registered_def rag_date)

lemma rag_empty_ok: "registry_ok sha rag_empty"
  by (simp add: registry_ok_def rag_empty_def)

theorem canonical_chunks_partition_witness:
  "concat (map ch_text [chunk_of demo_sha (rag_entry ''1'') rag_profile 0 (js ''text'')]) = ke_content (rag_entry ''1'')"
  using canonical_chunks_partition [OF rag_chunks] by simp

theorem registration_effective_witness:
  "register demo_sha None Committed [rag_entry ''1''] rag_scope rag_registered = (rag_registered, Inr ())"
  using registration_effective [OF rag_empty_ok rag_register] by simp

theorem registry_versions_settle_witness:
  "\<exists>d' \<in> set (rg_documents (fst (register demo_sha None Committed [rag_entry ''2''] rag_scope rag_registered))).
     version_key d' = (js ''t'', js ''s'', js ''d'', js ''1'') \<and> dc_content d' = js ''text''"
proof -
  have ok: "registry_ok demo_sha rag_registered"
    by (simp add: registry_ok_def rag_registered_def rag_empty_def)
  let ?d = "document_row demo_sha rag_scope (rag_entry ''1'')"
  let ?rg = "fst (register demo_sha None Committed [rag_entry ''2''] rag_scope rag_registered)"
  have run: "registry_run demo_sha rag_registered ?rg" by (intro run_register run_refl)
  have "?d \<in> set (rg_documents rag_registered)" by (simp add: rag_registered_def)
  then obtain d' where "d' \<in> set (rg_documents ?rg)" "version_key d' = version_key ?d"
    "d' = (if dc_active d' then ?d else ?d\<lparr>dc_status := dc_status d', dc_active := False\<rparr>)"
    using conjunct2 [OF conjunct2 [OF registry_versions_settle [OF ok run]]] by blast
  moreover have "version_key ?d = (js ''t'', js ''s'', js ''d'', js ''1'')" "dc_content ?d = js ''text''"
    by (simp_all add: rag_scope_def rag_entry_def document_row_def version_key_def)
  ultimately have "dc_content d' = js ''text''" by (metis rag_document.select_convs(7) rag_document.surjective rag_document.update_convs(12,13))
  with \<open>d' \<in> set (rg_documents ?rg)\<close> \<open>version_key d' = version_key ?d\<close> show ?thesis
    by (intro bexI [of _ d']) (simp_all add: rag_scope_def rag_entry_def)
qed

text \<open>The indexer has stored the one chunk, and the service answers with it.\<close>

definition rag_indexed :: registry where
  "rag_indexed = rag_registered\<lparr>rg_chunks := [\<lparr>cr_tenantId = js ''t'', cr_storeId = js ''s'', cr_documentId = js ''d'',
     cr_version = js ''1'', cr_chunk = chunk_of demo_sha (rag_entry ''1'') rag_profile 0 (js ''text'')\<rparr>]\<rparr>"

definition rag_reply :: json where
  "rag_reply = JObj [(js ''schemaVersion'', JStr (js ''job-ready-v1'')), (js ''requestId'', JStr (js ''q'')),
     (js ''candidates'', JArr [JObj [(js ''chunkId'', JStr (replicate 64 97)), (js ''documentId'', JStr (js ''d'')),
       (js ''version'', JStr (js ''1'')), (js ''sourceRef'', JStr (js ''ref'')), (js ''kind'', JStr (js ''policy'')),
       (js ''scope'', JObj [(js ''tenantId'', JStr (js ''t'')), (js ''storeId'', JStr (js ''s''))]),
       (js ''status'', JStr (js ''approved'')), (js ''contentSha256'', JStr (replicate 64 48)),
       (js ''chunkSha256'', JStr (replicate 64 48)), (js ''text'', JStr (js ''text'')), (js ''score'', JNum (Num (1 / 2))),
       (js ''rank'', JNum (Num 1)), (js ''embeddingProfileId'', JStr rag_profile)]])]"

definition rag_demo_client :: rag_client where
  "rag_demo_client = \<lparr>rl_serviceCredential = js ''k'', rl_embeddingProfileId = rag_profile\<rparr>"

lemma rag_response:
  "validateSearchResponse rag_reply (js ''q'') rag_scope rag_profile =
     Some [\<lparr>cd_chunkId = replicate 64 97, cd_documentId = js ''d'', cd_version = js ''1'', cd_sourceRef = js ''ref'',
       cd_kind = js ''policy'', cd_contentSha256 = replicate 64 48, cd_chunkSha256 = replicate 64 48, cd_text = js ''text'',
       cd_score = 1 / 2, cd_rank = 1, cd_embeddingProfileId = rag_profile\<rparr>]"
  by (simp add: validateSearchResponse_def rag_reply_def keys_exactly_def keys_within_def field_def parse_candidate_def
      candidate_keys_def text_field_def hash_field_def scope_field_def score_field_def rag_scope_def is_lower_hex_def is_digit_def
      list_all_iff approved_def)

lemma rag_entry_row: "entry_of (document_row demo_sha rag_scope (rag_entry ''1'')) = rag_entry ''1''"
  by (simp add: entry_of_def document_row_def rag_entry_def rag_scope_def approved_def)

lemma rag_current:
  "current rag_indexed rag_scope [js ''d''] rag_profile =
     Some [\<lparr>rd_entry = rag_entry ''1'', rd_active = True, rd_contentSha256 = replicate 64 48,
       rd_chunks = [chunk_of demo_sha (rag_entry ''1'') rag_profile 0 (js ''text'')]\<rparr>]"
proof -
  have "chunks_for rag_indexed (document_row demo_sha rag_scope (rag_entry ''1'')) rag_profile =
      [chunk_of demo_sha (rag_entry ''1'') rag_profile 0 (js ''text'')]"
    by (simp add: chunks_for_def rag_indexed_def document_row_def)
  moreover have "rg_documents rag_indexed = [document_row demo_sha rag_scope (rag_entry ''1'')]"
    by (simp add: rag_indexed_def rag_registered_def)
  ultimately show ?thesis
    by (simp add: current_def scopeValue_def rag_profile_def rag_entry_row) (simp add: document_row_def demo_sha_def)
qed

definition rag_candidate :: candidate where
  "rag_candidate = \<lparr>cd_chunkId = replicate 64 97, cd_documentId = js ''d'', cd_version = js ''1'', cd_sourceRef = js ''ref'',
       cd_kind = js ''policy'', cd_contentSha256 = replicate 64 48, cd_chunkSha256 = replicate 64 48, cd_text = js ''text'',
       cd_score = 1 / 2, cd_rank = 1, cd_embeddingProfileId = rag_profile\<rparr>"

lemma rag_chunk:
  "chunk_of demo_sha (rag_entry ''1'') rag_profile 0 (js ''text'') =
     \<lparr>ch_chunkId = replicate 64 97, ch_ordinal = 0, ch_text = js ''text'', ch_chunkSha256 = replicate 64 48,
      ch_embeddingProfileId = rag_profile\<rparr>"
proof -
  have "\<not> length (stringify (chunk_key (rag_entry ''1'') rag_profile 0 (replicate 64 48))) < 5"
    by (simp add: chunk_key_def)
  then show ?thesis by (simp add: chunk_of_def demo_sha_def)
qed

lemma rag_candidate_evidence:
  "candidate_evidence demo_sha rag_scope [\<lparr>rd_entry = rag_entry ''1'', rd_active = True, rd_contentSha256 = replicate 64 48,
       rd_chunks = [chunk_of demo_sha (rag_entry ''1'') rag_profile 0 (js ''text'')]\<rparr>] rag_candidate =
     Some (evidence_for (rag_entry ''1'') rag_candidate)"
  using rag_chunks [unfolded rag_chunk]
  by (simp add: candidate_evidence_def rag_candidate_def rag_valid validateCompleteChunkGeneration_def rag_chunk demo_sha_def
      isAdmissibleKnowledgeEvidence_def knowledgeScopeAllows_def evidence_for_def Let_def approved_def)

lemma plain_escape: "list_all (\<lambda>c. 32 < c \<and> c < 127 \<and> c \<noteq> 34 \<and> c \<noteq> 92) v \<Longrightarrow> escape v = v"
  by (induction v rule: code_points.induct) (auto simp: escape_def is_high_def is_low_def)

lemma rag_search_size: "byte_length (stringify (search_body (js ''q'') rag_scope (js ''text'') rag_profile)) \<le> 32 * 1024"
  by (simp add: search_body_def scope_text_def rag_profile_def plain_escape js_Cons byte_length_def utf8_ascii js_def show_nat.simps [of 3])

lemma rag_searched:
  "rag_search demo_sha rag_demo_client (current rag_indexed) (\<lambda>_. Some rag_reply) None (js ''q'') (js ''text'') (Some rag_scope) =
     Some [evidence_for (rag_entry ''1'') rag_candidate]"
proof -
  have "stringValue (js ''text'') 4000 False" by (rule plain_stringValue; simp add: rag_plain)
  then show ?thesis
    using rag_search_size rag_response [folded rag_candidate_def] rag_current rag_candidate_evidence
    by (simp add: rag_search_def scopeValue_def rag_demo_client_def post_def Let_def all_some_def rag_candidate_def)
qed

theorem rag_evidence_registered_witness:
  "\<exists>d \<in> set (rg_documents rag_indexed). dc_active d \<and> dc_content d = js ''text'' \<and>
     re_text (evidence_for (rag_entry ''1'') rag_candidate) = dc_content d"
  using rag_evidence_registered [OF rag_searched]
  by (auto simp: evidence_for_def)

end
