(* ===== verification/RuntimeProps.thy ===== *)
theory RuntimeProps
  imports Runtime
begin

text \<open>
  The side effects of a support turn. \<open>effects\<close> is the part of the state that the steps write to for their side
  effects; the steps that are not about it leave it alone (\<open>effects_basic\<close> and what follows), so its invariant
  \<open>effects_ok\<close> is proved on the few steps that touch it and carried along \<open>turn_run\<close>. \<open>late_ok\<close> is what holds of the
  reservations from the step on that seals the turn. The evidence of answers is the subject of \<open>RuntimeGrounding\<close>.
\<close>

section \<open>The parts of the state\<close>

definition effects where
  "effects t = (tn_phase t, tn_sealed t, tn_request t, tn_store t, tn_business t, tn_reservedTicketKeys t, tn_reservedHandoff t,
     tn_awaiting t, tn_granted t, tn_ticketsSettling t, tn_handoffsSettling t)"

lemmas step_defs =
  expireTurn_def checkDeadline_def onEscalate_def onNoKnowledgeEvidence_def ground_def onKnowledgeEvidence_def
  onOrdinaryKnowledgeRouting_def onSafetyEvidence_def searchFaq_def searchKnowledge_def set_status_def
  failTool_def

lemma effects_basic [simp]:
  "effects (expireTurn t) = effects t" "effects (checkDeadline now t) = effects t"
  "effects (onEscalate t) = effects t" "effects (onNoKnowledgeEvidence t) = effects t"
  "effects (ground q ss es ro t) = effects t" "effects (onSafetyEvidence q es t) = effects t"
  "effects (set_status i st t) = effects t" "effects (failTool t) = effects t"
  by (simp_all add: effects_def step_defs)

lemma effects_search [simp]:
  "effects (onKnowledgeEvidence opts q ss t) = effects t"
  "effects (onOrdinaryKnowledgeRouting now q ss ro t) = effects t"
  "effects (searchFaq opts q t) = effects t"
  "effects (searchKnowledge opts now q found t) = effects t"
  by (simp_all add: effects_def step_defs Let_def split: option.split)

lemma effects_beginKnowledge [simp]: "effects (started_turn (beginKnowledge now og q t)) = effects t"
proof -
  have "effects (started_turn (beginKnowledge now og q t)) = effects (checkDeadline now t)"
    by (simp add: beginKnowledge_def Let_def effects_def ground_def split: option.split)
  then show ?thesis by simp
qed

lemma effects_updates [simp]:
  "effects (t\<lparr>tn_completedChecks := x1\<rparr>) = effects t" "effects (t\<lparr>tn_activeTools := x2\<rparr>) = effects t"
  "effects (t\<lparr>tn_toolCalls := x3\<rparr>) = effects t" "effects (t\<lparr>tn_limitReached := x4\<rparr>) = effects t"
  "effects (t\<lparr>tn_toolsCalled := x5\<rparr>) = effects t" "effects (t\<lparr>tn_heap := x6\<rparr>) = effects t"
  "effects (t\<lparr>tn_promptStarted := x7\<rparr>) = effects t" "effects (t\<lparr>tn_escalationRequested := x8\<rparr>) = effects t"
  by (simp_all add: effects_def)

lemma effects_settleKnowledge [simp]: "effects (fst (settleKnowledge opts i q found now t)) = effects t"
  by (simp add: settleKnowledge_def Let_def split: option.split)

lemma effects_policyCheck [simp]: "effects (policyCheck opts now t) = effects t"
proof -
  have b: "effects u = effects v" if "beginKnowledge now og q v = c" "started_turn c = u" for og q c u v
    using effects_beginKnowledge [of now og q v] that by simp
  show ?thesis
    by (auto simp: policyCheck_def Let_def split: check_start.split dest!: b)
qed

lemma effects_policySettle [simp]: "effects (policySettle opts i q found now t) = effects t"
  using effects_settleKnowledge [of opts i q found now t]
  by (cases "settleKnowledge opts i q found now t") (simp add: policySettle_def)

lemma effects_beforeToolCall [simp]: "effects (fst (beforeToolCall opts now call t)) = effects t"
  by (simp add: beforeToolCall_def Let_def split: tool_call.split)

lemma effects_persistEvent [simp]: "effects (persistEvent e t) = effects t"
  by (simp add: persistEvent_def Let_def effects_def split: agent_event.split)

lemma effects_shouldStop [simp]: "effects (fst (shouldStopAfterTurn opts t)) = effects t"
  by (simp add: shouldStopAfterTurn_def)

section \<open>Reservations and authorization\<close>

definition mayTicket :: "support_request \<Rightarrow> bool" where
  "mayTicket r \<longleftrightarrow> hasPermission r ''tickets:write''"

definition mayHandoff :: "support_request \<Rightarrow> bool" where
  "mayHandoff r \<longleftrightarrow> rq_mayEscalate r = Some True \<and> hasPermission r ''handoff:write''"

definition permitted :: "support_request \<Rightarrow> tool_call \<Rightarrow> bool" where
  "permitted r call = (case call of Call_create_ticket _ _ \<Rightarrow> mayTicket r | Call_handoff _ \<Rightarrow> mayHandoff r | _ \<Rightarrow> True)"

text \<open>A handoff may come from the agent, or from the safety decision about the request.\<close>

definition escalates :: "support_request \<Rightarrow> bool" where
  "escalates r \<longleftrightarrow> mayHandoff r \<or> detectSafetyRisk (rq_text r) \<noteq> None"

text \<open>
  What the business store shows of its tickets and of its handoffs: a ticket leaves the handoffs alone, a handoff the
  tickets, and an audit record both.
\<close>

definition views_ok :: "'b runtime_options \<Rightarrow> ('b \<Rightarrow> 'x) \<Rightarrow> ('b \<Rightarrow> 'y) \<Rightarrow> bool" where
  "views_ok opts tv hv \<longleftrightarrow>
     (\<forall>ops. op_business opts = Some ops \<longrightarrow>
        (\<forall>b n. hv (fst (bo_createTicket ops b n)) = hv b) \<and> (\<forall>b n. tv (fst (bo_createHandoff ops b n)) = tv b) \<and>
        (\<forall>b t s c p. tv (fst (bo_recordAudit ops b t s c p)) = tv b \<and> hv (fst (bo_recordAudit ops b t s c p)) = hv b))"

text \<open>
  Against the store \<open>s0\<close> and the business state \<open>b0\<close> at the start: what is reserved beyond \<open>s0\<close>
  the turn has noted, only permitted calls are under way, and without a permission the records
  it guards are those of the start.
\<close>

definition effects_ok ::
  "('b \<Rightarrow> 'x) \<Rightarrow> ('b \<Rightarrow> 'y) \<Rightarrow> support_request \<Rightarrow> support_store \<Rightarrow> 'b \<Rightarrow> 'b turn \<Rightarrow> bool" where
  "effects_ok tv hv r s0 b0 t \<longleftrightarrow> tn_request t = r \<and> store_ok (tn_store t) \<and>
     set (ss_ticketReservations (tn_store t)) \<subseteq>
       set (ss_ticketReservations s0) \<union> ticket_key (rq_tenantId r) ` set (tn_reservedTicketKeys t) \<and>
     set (ss_handoffReservations (tn_store t)) \<subseteq>
       set (ss_handoffReservations s0) \<union> (if tn_reservedHandoff t then {rq_conversationId r} else {}) \<and>
     (\<forall>c \<in> set (tn_awaiting t) \<union> set (tn_granted t). permitted r c) \<and>
     (\<not> mayTicket r \<longrightarrow> ss_tickets (tn_store t) = ss_tickets s0 \<and> tn_reservedTicketKeys t = [] \<and>
        tn_ticketsSettling t = [] \<and> tv (tn_business t) = tv b0) \<and>
     (\<not> escalates r \<longrightarrow> ss_handoffs (tn_store t) = ss_handoffs s0 \<and> \<not> tn_reservedHandoff t \<and>
        tn_handoffsSettling t = [] \<and> hv (tn_business t) = hv b0 \<and>
        (\<forall>info m d a. tn_phase t \<noteq> Awaiting_handoff info m d a))"

lemma effects_ok_cong: "effects t = effects t' \<Longrightarrow> effects_ok tv hv r s0 b0 t = effects_ok tv hv r s0 b0 t'"
  by (simp add: effects_def effects_ok_def)

lemma effects_ok_start: "store_ok s \<Longrightarrow> effects_ok tv hv r s b (startTurn opts r s b h ms now)"
  by (simp add: effects_ok_def startTurn_def)

lemma effects_ok_call:
  assumes "effects_ok tv hv r s0 b0 t"
  shows "permitted r call \<Longrightarrow> effects_ok tv hv r s0 b0 (t\<lparr>tn_awaiting := tn_awaiting t @ [call]\<rparr>)"
    and "permitted r call \<Longrightarrow> effects_ok tv hv r s0 b0 (t\<lparr>tn_granted := tn_granted t @ [call]\<rparr>)"
    and "effects_ok tv hv r s0 b0 (t\<lparr>tn_awaiting := remove1 call (tn_awaiting t)\<rparr>)"
    and "effects_ok tv hv r s0 b0 (t\<lparr>tn_granted := remove1 call (tn_granted t)\<rparr>)"
  using assms by (auto simp: effects_ok_def dest: notin_set_remove1 in_set_takeD set_remove1_subset [THEN subsetD])

lemma beforeToolCall_permitted:
  "beforeToolCall opts now call t = (t', Some b) \<Longrightarrow> tn_request t' = tn_request t \<and> permitted (tn_request t) call"
proof -
  assume a: "beforeToolCall opts now call t = (t', Some b)"
  have "effects t' = effects t" using effects_beforeToolCall [of opts now call t] a by simp
  then have "tn_request t' = tn_request t" by (simp add: effects_def)
  moreover have "tn_request (checkDeadline now t) = tn_request t"
    using effects_basic(2) [of now t] by (simp add: effects_def)
  ultimately show ?thesis using a
    by (auto simp: beforeToolCall_def Let_def permitted_def mayTicket_def mayHandoff_def
        split: tool_call.splits if_splits)
qed

lemma effects_ok_reserveCall:
  assumes "effects_ok tv hv r s0 b0 t" and "permitted r call"
  shows "effects_ok tv hv r s0 b0 (fst (reserveCall opts call t))"
proof (cases call)
  case (Call_create_ticket summary key)
  then show ?thesis
    using assms store_ok_reserveTicket [of "tn_store t" "tenant t" key]
    by (auto simp: reserveCall_def reserveTicket_def Let_def effects_ok_def permitted_def tenant_def
        split: prod.splits bool.splits sum.splits option.splits if_splits)
next
  case (Call_handoff reason)
  then have "escalates r" using assms by (simp add: escalates_def permitted_def effects_ok_def)
  then show ?thesis
    using Call_handoff assms store_ok_reserveHandoff [of "tn_store t" "conversation t"]
    by (auto simp: reserveCall_def reserveHandoff_def effects_ok_def permitted_def conversation_def
        split: prod.splits bool.splits sum.splits option.splits if_splits)
qed (use assms in \<open>simp_all add: reserveCall_def\<close>)

lemma createTicket_fields:
  "set (ss_ticketReservations (fst (createTicket s x))) \<subseteq> set (ss_ticketReservations s)"
  "ss_handoffReservations (fst (createTicket s x)) = ss_handoffReservations s"
  "ss_handoffs (fst (createTicket s x)) = ss_handoffs s"
  by (auto simp: createTicket_def Let_def split: option.splits)

lemma createHandoff_fields:
  "ss_ticketReservations (createHandoff s c x) = ss_ticketReservations s"
  "set (ss_handoffReservations (createHandoff s c x)) \<subseteq> set (ss_handoffReservations s)"
  "ss_tickets (createHandoff s c x) = ss_tickets s"
  by (auto simp: createHandoff_def)

lemma effects_ok_store:
  assumes "effects_ok tv hv r s0 b0 t" and "store_ok s'"
    and "set (ss_ticketReservations s') \<subseteq> set (ss_ticketReservations (tn_store t))"
    and "set (ss_handoffReservations s') \<subseteq> set (ss_handoffReservations (tn_store t))"
    and "\<not> mayTicket r \<Longrightarrow> ss_tickets s' = ss_tickets (tn_store t)"
    and "\<not> escalates r \<Longrightarrow> ss_handoffs s' = ss_handoffs (tn_store t)"
  shows "effects_ok tv hv r s0 b0 (t\<lparr>tn_store := s'\<rparr>)"
proof -
  note ok = assms(1) [unfolded effects_ok_def]
  have "set (ss_ticketReservations s') \<subseteq>
       set (ss_ticketReservations s0) \<union> ticket_key (rq_tenantId r) ` set (tn_reservedTicketKeys t)"
    using assms(3) ok by (meson subset_trans)
  moreover have "set (ss_handoffReservations s') \<subseteq>
       set (ss_handoffReservations s0) \<union> (if tn_reservedHandoff t then {rq_conversationId r} else {})"
    using assms(4) ok by (meson subset_trans)
  ultimately show ?thesis using ok assms(2,5,6) unfolding effects_ok_def by simp
qed

lemma effects_ok_settling:
  assumes "effects_ok tv hv r s0 b0 t"
  shows "mayTicket r \<Longrightarrow> effects_ok tv hv r s0 b0 (t\<lparr>tn_ticketsSettling := xs\<rparr>)"
    and "escalates r \<or> hs = [] \<Longrightarrow> effects_ok tv hv r s0 b0 (t\<lparr>tn_handoffsSettling := hs\<rparr>)"
    and "(mayTicket r \<or> tv b = tv (tn_business t)) \<Longrightarrow> (escalates r \<or> hv b = hv (tn_business t)) \<Longrightarrow>
      effects_ok tv hv r s0 b0 (t\<lparr>tn_business := b\<rparr>)"
    and "escalates r \<or> (\<forall>info m d a. p \<noteq> Awaiting_handoff info m d a) \<Longrightarrow> effects_ok tv hv r s0 b0 (t\<lparr>tn_phase := p\<rparr>)"
  using assms unfolding effects_ok_def by auto

lemma effects_ok_ticket_store:
  assumes "effects_ok tv hv r s0 b0 t" and "mayTicket r"
  shows "effects_ok tv hv r s0 b0 (t\<lparr>tn_store := fst (createTicket (tn_store t) x)\<rparr>)"
  using assms store_ok_createTicket [of "tn_store t" x]
  by (intro effects_ok_store) (simp_all add: createTicket_fields effects_ok_def)

lemma effects_ok_handoff_store:
  assumes "effects_ok tv hv r s0 b0 t" and "escalates r"
  shows "effects_ok tv hv r s0 b0 (t\<lparr>tn_store := createHandoff (tn_store t) c x\<rparr>)"
  using assms store_ok_createHandoff [of "tn_store t" c x]
  by (intro effects_ok_store) (simp_all add: createHandoff_fields effects_ok_def)

lemma effects_ok_createBusinessTicket:
  assumes "effects_ok tv hv r s0 b0 t" and "mayTicket r" and "views_ok opts tv hv"
  shows "effects_ok tv hv r s0 b0 (createBusinessTicket opts summary key t)"
proof (cases "op_business opts")
  case None
  then show ?thesis using effects_ok_ticket_store [OF assms(1,2)] by (simp add: createBusinessTicket_def)
next
  case (Some ops)
  obtain b d where d: "bo_createTicket ops (tn_business t) (ticket_input t summary key) = (b, d)" by fastforce
  have "hv (fst (bo_createTicket ops (tn_business t) (ticket_input t summary key))) = hv (tn_business t)"
    using assms(3) Some by (simp add: views_ok_def)
  then have b: "effects_ok tv hv r s0 b0 (t\<lparr>tn_business := b\<rparr>)"
    using assms(2) d by (intro effects_ok_settling(3) [OF assms(1)]) simp_all
  show ?thesis
    using b effects_ok_settling(1) [OF b assms(2)]
    by (cases d) (auto simp: createBusinessTicket_def Some d)
qed

lemma effects_ok_settleTicket:
  assumes "effects_ok tv hv r s0 b0 t" and "x \<in> set (tn_ticketsSettling t)"
  shows "effects_ok tv hv r s0 b0 (settleTicket x t)"
proof -
  have "mayTicket r" using assms by (auto simp: effects_ok_def)
  from effects_ok_settling(1) [OF effects_ok_ticket_store [OF assms(1) this] this]
  show ?thesis by (simp add: settleTicket_def)
qed

lemma effects_ok_callHandoff:
  assumes "effects_ok tv hv r s0 b0 t" and "escalates r" and "views_ok opts tv hv"
  shows "effects_ok tv hv r s0 b0 (fst (callHandoff opts reason t))"
proof (cases "op_business opts")
  case None
  then show ?thesis using effects_ok_handoff_store [OF assms(1,2)] by (simp add: callHandoff_def)
next
  case (Some ops)
  obtain b d where d: "bo_createHandoff ops (tn_business t) (handoff_input t reason) = (b, d)" by fastforce
  have "tv (fst (bo_createHandoff ops (tn_business t) (handoff_input t reason))) = tv (tn_business t)"
    using assms(3) Some by (simp add: views_ok_def)
  then have "effects_ok tv hv r s0 b0 (t\<lparr>tn_business := b\<rparr>)"
    using assms(2) d by (intro effects_ok_settling(3) [OF assms(1)]) simp_all
  then show ?thesis by (cases d) (auto simp: callHandoff_def Some d)
qed

lemma effects_ok_onEscalate [simp]: "effects_ok tv hv r s0 b0 (onEscalate t) = effects_ok tv hv r s0 b0 t"
  by (rule effects_ok_cong) simp

lemma effects_ok_escalating [simp]:
  "effects_ok tv hv r s0 b0 (t\<lparr>tn_escalationRequested := b\<rparr>) = effects_ok tv hv r s0 b0 t"
  by (simp add: effects_ok_def)

lemma effects_ok_createBusinessHandoff:
  assumes "effects_ok tv hv r s0 b0 t" and "escalates r" and "views_ok opts tv hv"
  shows "effects_ok tv hv r s0 b0 (createBusinessHandoff opts reason t)"
proof -
  obtain u a where u: "callHandoff opts reason t = (u, a)" by fastforce
  then have "effects_ok tv hv r s0 b0 u" using effects_ok_callHandoff [OF assms, of reason] by simp
  then show ?thesis
    using assms(2) by (auto simp: createBusinessHandoff_def u split: option.split intro: effects_ok_settling(2))
qed

lemma effects_ok_settleHandoff:
  assumes "effects_ok tv hv r s0 b0 t" and "escalates r"
  shows "effects_ok tv hv r s0 b0 (settleHandoff x t)"
  using effects_ok_handoff_store [OF assms] assms(1) by (simp add: settleHandoff_def)

lemma effects_ok_runTool:
  assumes "effects_ok tv hv r s0 b0 t" and "permitted r call" and "views_ok opts tv hv"
  shows "effects_ok tv hv r s0 b0 (runTool opts call now t)"
proof (cases call)
  case (Call_search_faq q)
  then show ?thesis using assms effects_ok_cong [OF effects_search(3) [of opts q t], of tv hv r s0 b0] by (simp add: runTool_def)
next
  case (Call_search_knowledge q)
  then show ?thesis using assms effects_ok_cong [OF effects_beginKnowledge [of now Pi_check q t], of tv hv r s0 b0]
    by (simp add: runTool_def)
next
  case (Call_create_ticket x y)
  then show ?thesis using assms effects_ok_createBusinessTicket by (auto simp: runTool_def permitted_def)
next
  case (Call_handoff x)
  then have "escalates r" using assms(2) by (simp add: permitted_def escalates_def)
  from effects_ok_createBusinessHandoff [OF assms(1) this assms(3)] show ?thesis
    using assms(1) by (simp add: runTool_def Call_handoff)
qed

section \<open>The end of a turn\<close>

definition releaseTicket :: "jstring \<Rightarrow> support_store \<Rightarrow> jstring \<Rightarrow> support_store" where
  "releaseTicket tnt s k = (if findTicket s tnt k = None then releaseTicketReservation s tnt k else s)"

lemma releaseTicket_fields [simp]:
  "ss_handoffReservations (releaseTicket tnt s k) = ss_handoffReservations s"
  "ss_handoffs (releaseTicket tnt s k) = ss_handoffs s" "ss_tickets (releaseTicket tnt s k) = ss_tickets s"
  "ss_sessions (releaseTicket tnt s k) = ss_sessions s"
  by (simp_all add: releaseTicket_def releaseTicketReservation_def)

lemma releaseTickets_fields [simp]:
  "ss_handoffReservations (foldl (releaseTicket tnt) s ks) = ss_handoffReservations s"
  "ss_handoffs (foldl (releaseTicket tnt) s ks) = ss_handoffs s"
  "ss_tickets (foldl (releaseTicket tnt) s ks) = ss_tickets s"
  "ss_sessions (foldl (releaseTicket tnt) s ks) = ss_sessions s"
  by (induction ks arbitrary: s) simp_all

lemma store_ok_releaseTicket: "store_ok s \<Longrightarrow> store_ok (releaseTicket tnt s k)"
  by (simp add: releaseTicket_def store_ok_releaseTicketReservation)

lemma releaseTicket_gone:
  assumes "store_ok s"
  shows "set (ss_ticketReservations (releaseTicket tnt s k)) = set (ss_ticketReservations s) - {ticket_key tnt k}"
proof (cases "findTicket s tnt k")
  case None
  then show ?thesis by (auto simp: releaseTicket_def releaseTicketReservation_def)
next
  case (Some x)
  then have "ticket_key tnt k \<notin> set (ss_ticketReservations s)"
    using assms unfolding store_ok_def findTicket_def by blast
  then show ?thesis using Some by (simp add: releaseTicket_def)
qed

lemma releaseTickets_gone:
  "store_ok s \<Longrightarrow> store_ok (foldl (releaseTicket tnt) s ks) \<and>
     set (ss_ticketReservations (foldl (releaseTicket tnt) s ks)) =
       set (ss_ticketReservations s) - ticket_key tnt ` set ks"
proof (induction ks arbitrary: s)
  case (Cons k ks)
  show ?case using Cons.IH [OF store_ok_releaseTicket [OF Cons.prems]] releaseTicket_gone [OF Cons.prems] by auto
qed simp

lemma releaseReservations_eq:
  "releaseReservations t = (let s = foldl (releaseTicket (tenant t)) (tn_store t) (tn_reservedTicketKeys t)
     in if tn_reservedHandoff t \<and> findHandoff s (conversation t) = None
        then releaseHandoffReservation s (conversation t) else s)"
  by (simp add: releaseReservations_def releaseTicket_def [abs_def])

text \<open>What \<open>finish\<close> releases: everything the turn has noted and not turned into a record.\<close>

lemma releaseReservations_ok:
  assumes "effects_ok tv hv r s0 b0 t"
  shows "set (ss_ticketReservations (releaseReservations t)) \<subseteq> set (ss_ticketReservations s0)"
    and "set (ss_handoffReservations (releaseReservations t)) \<subseteq> set (ss_handoffReservations s0)"
    and "ss_tickets (releaseReservations t) = ss_tickets (tn_store t)"
    and "ss_handoffs (releaseReservations t) = ss_handoffs (tn_store t)"
    and "store_ok (releaseReservations t)"
proof -
  let ?s = "foldl (releaseTicket (tenant t)) (tn_store t) (tn_reservedTicketKeys t)"
  have ok: "store_ok ?s" and tickets: "set (ss_ticketReservations ?s) =
      set (ss_ticketReservations (tn_store t)) - ticket_key (tenant t) ` set (tn_reservedTicketKeys t)"
    using releaseTickets_gone assms by (auto simp: effects_ok_def)
  have handoff: "conversation t \<notin> set (ss_handoffReservations ?s)" if "findHandoff ?s (conversation t) \<noteq> None"
    using ok that unfolding store_ok_def findHandoff_None by blast
  show "set (ss_ticketReservations (releaseReservations t)) \<subseteq> set (ss_ticketReservations s0)"
    using tickets assms
    by (auto simp: releaseReservations_eq Let_def releaseHandoffReservation_def effects_ok_def tenant_def)
  show "set (ss_handoffReservations (releaseReservations t)) \<subseteq> set (ss_handoffReservations s0)"
    using handoff assms
    by (auto simp: releaseReservations_eq Let_def releaseHandoffReservation_def effects_ok_def
        conversation_def split: if_splits)
  show "ss_tickets (releaseReservations t) = ss_tickets (tn_store t)"
    "ss_handoffs (releaseReservations t) = ss_handoffs (tn_store t)"
    by (simp_all add: releaseReservations_eq Let_def releaseHandoffReservation_def)
  show "store_ok (releaseReservations t)"
    using ok by (simp add: releaseReservations_eq Let_def store_ok_releaseHandoffReservation)
qed

text \<open>The state in which a turn that is finished waits for its audit record, or has its result.\<close>

definition ended :: "'b turn \<Rightarrow> bool" where
  "ended t \<longleftrightarrow> (case tn_phase t of Serving \<Rightarrow> False | Awaiting_handoff info m d a \<Rightarrow> False | _ \<Rightarrow> True)"

lemma releaseReservations_sealed [simp]:
  "releaseReservations (t\<lparr>tn_sealed := True\<rparr>) = releaseReservations t"
  "releaseReservations (t\<lparr>tn_escalationRequested := e\<rparr>) = releaseReservations t"
  by (simp_all add: releaseReservations_eq tenant_def conversation_def cong: if_cong)

lemma finish_fields [simp]:
  "tn_store (finish opts info d m x t) = setSession (releaseReservations t)
     (session_of opts (tn_request t) (fi_piSessionId info) (fi_sessionFile info))"
  "tn_sealed (finish opts info d m x t)" "ended (finish opts info d m x t)"
  "tn_request (finish opts info d m x t) = tn_request t" "tn_business (finish opts info d m x t) = tn_business t"
  "tn_reservedTicketKeys (finish opts info d m x t) = tn_reservedTicketKeys t"
  "tn_reservedHandoff (finish opts info d m x t) = tn_reservedHandoff t"
  "tn_awaiting (finish opts info d m x t) = tn_awaiting t" "tn_granted (finish opts info d m x t) = tn_granted t"
  "tn_ticketsSettling (finish opts info d m x t) = tn_ticketsSettling t"
  "tn_handoffsSettling (finish opts info d m x t) = tn_handoffsSettling t"
  by (simp_all add: finish_def Let_def ended_def releaseReservations_eq tenant_def conversation_def cong: if_cong)

lemma answer_with_fields [simp]:
  "tn_store (answer_with opts info d m x t) = setSession (releaseReservations t)
     (session_of opts (tn_request t) (fi_piSessionId info) (fi_sessionFile info))"
  "tn_sealed (answer_with opts info d m x t)" "ended (answer_with opts info d m x t)"
  "tn_request (answer_with opts info d m x t) = tn_request t" "tn_business (answer_with opts info d m x t) = tn_business t"
  "tn_reservedTicketKeys (answer_with opts info d m x t) = tn_reservedTicketKeys t"
  "tn_reservedHandoff (answer_with opts info d m x t) = tn_reservedHandoff t"
  "tn_awaiting (answer_with opts info d m x t) = tn_awaiting t" "tn_granted (answer_with opts info d m x t) = tn_granted t"
  "tn_ticketsSettling (answer_with opts info d m x t) = tn_ticketsSettling t"
  "tn_handoffsSettling (answer_with opts info d m x t) = tn_handoffsSettling t"
  by (simp_all add: answer_with_def split: prod.split)

lemma ended_handoff: "ended t \<Longrightarrow> tn_phase t \<noteq> Awaiting_handoff info m d a"
  by (auto simp: ended_def)

text \<open>\<open>conclude\<close> and what follows a safety handoff either finish the turn or wait for that handoff.\<close>

definition finishes :: "support_request \<Rightarrow> 'b turn \<Rightarrow> 'b turn \<Rightarrow> bool" where
  "finishes r u t' \<longleftrightarrow> (\<exists>opts info d m x. t' = answer_with opts info d m x u)"

lemma finishesI [simp, intro]: "finishes r u (answer_with opts info d m x u)"
  unfolding finishes_def by blast

lemma effects_ok_finishes:
  assumes "effects_ok tv hv r s0 b0 u" and "finishes r u t'"
  shows "effects_ok tv hv r s0 b0 t' \<and> tn_sealed t' \<and> ended t' \<and> tn_awaiting t' = tn_awaiting u \<and>
    set (ss_ticketReservations (tn_store t')) \<subseteq> set (ss_ticketReservations s0) \<and>
    set (ss_handoffReservations (tn_store t')) \<subseteq> set (ss_handoffReservations s0)"
proof -
  obtain opts info d m x where t': "t' = answer_with opts info d m x u" using assms(2) by (auto simp: finishes_def)
  note rel = releaseReservations_ok [OF assms(1)]
  have "effects_ok tv hv r s0 b0 t'"
    using assms(1) rel store_ok_setSession [OF rel(5)] ended_handoff [of t']
    unfolding effects_ok_def t' by (auto simp: setSession_def)
  then show ?thesis using rel by (simp add: t' setSession_def)
qed

lemma safetyHandoff_cases:
  assumes "effects_ok tv hv r s0 b0 t" and "escalates r" and "views_ok opts tv hv"
    and "\<not> tn_sealed t"
  shows "(effects_ok tv hv r s0 b0 (safetyHandoff opts info m d t) \<and> tn_awaiting (safetyHandoff opts info m d t) = tn_awaiting t \<and>
      \<not> tn_sealed (safetyHandoff opts info m d t) \<and> \<not> ended (safetyHandoff opts info m d t)) \<or>
    (\<exists>u. effects_ok tv hv r s0 b0 u \<and> tn_awaiting u = tn_awaiting t \<and> finishes r u (safetyHandoff opts info m d t))"
proof -
  have esc: "\<exists>u. effects_ok tv hv r s0 b0 u \<and> tn_awaiting u = tn_awaiting t \<and> finishes r u (escalated opts info m d t)"
    using assms(1)
    by (intro exI [of _ "t\<lparr>tn_escalationRequested := True\<rparr>"]) (auto simp: escalated_def)
  obtain s g where sg: "reserveHandoff (tn_store t) (conversation t) = (s, g)" by fastforce
  show ?thesis
  proof (cases "findHandoff (tn_store t) (conversation t) \<noteq> None \<or> \<not> g")
    case True
    then have "safetyHandoff opts info m d t = escalated opts info m d t" using sg by (auto simp: safetyHandoff_def)
    then show ?thesis using esc by simp
  next
    case False
    let ?why = "js ''qualified_professional_required:'' @ risk_string (sd_riskCategory d) @ 58 # sd_reason d"
    let ?v = "t\<lparr>tn_store := s, tn_reservedHandoff := True\<rparr>"
    obtain u a where u: "callHandoff opts ?why ?v = (u, a)" by fastforce
    have "effects_ok tv hv r s0 b0 ?v"
      using assms(1,2) sg False store_ok_reserveHandoff [of "tn_store t" "conversation t"]
      by (auto simp: effects_ok_def reserveHandoff_def conversation_def split: if_splits)
    from effects_ok_callHandoff [OF this assms(2,3), of ?why] have "effects_ok tv hv r s0 b0 u" using u by simp
    then have "effects_ok tv hv r s0 b0 (u\<lparr>tn_phase := Awaiting_handoff info m d a\<rparr>)"
      using assms(2) by (intro effects_ok_settling(4)) simp_all
    moreover have "tn_awaiting u = tn_awaiting t" "tn_sealed u = tn_sealed t"
      using u by (auto simp: callHandoff_def split: option.splits prod.splits sum.splits)
    moreover have "safetyHandoff opts info m d t = u\<lparr>tn_phase := Awaiting_handoff info m d a\<rparr>"
      using False sg u by (simp add: safetyHandoff_def)
    ultimately show ?thesis using assms(4) by (simp add: ended_def)
  qed
qed

lemma conclude_cases:
  assumes "effects_ok tv hv r s0 b0 t" and "views_ok opts tv hv" and "\<not> tn_sealed t"
  shows "(effects_ok tv hv r s0 b0 (conclude opts info m t) \<and> tn_awaiting (conclude opts info m t) = tn_awaiting t \<and>
      \<not> tn_sealed (conclude opts info m t) \<and> \<not> ended (conclude opts info m t)) \<or>
    (\<exists>u. effects_ok tv hv r s0 b0 u \<and> tn_awaiting u = tn_awaiting t \<and> finishes r u (conclude opts info m t))"
proof -
  show ?thesis
  proof (cases "\<exists>d. safetyDecision t = Some d \<and> sd_disposition d = Escalate \<and> \<not> tn_timedOut t \<and> \<not> tn_limitReached t")
    case True
    then obtain d where d: "safetyDecision t = Some d" "conclude opts info m t = safetyHandoff opts info m d t"
      by (auto simp: conclude_def Let_def)
    then have "escalates r" using assms(1) by (auto simp: safetyDecision_def safetyRisk_def escalates_def effects_ok_def)
    from safetyHandoff_cases [OF assms(1) this assms(2,3)] d(2) show ?thesis by simp
  next
    case False
    then have "finishes r t (conclude opts info m t)"
      by (auto simp: conclude_def Let_def split: option.split disposition.split)
    then show ?thesis using assms(1) by blast
  qed
qed

lemma safetyHandedOff_cases:
  assumes "effects_ok tv hv r s0 b0 t" and "tn_phase t = Awaiting_handoff info m d a"
  shows "\<exists>u. effects_ok tv hv r s0 b0 u \<and> tn_awaiting u = tn_awaiting t \<and> finishes r u (safetyHandedOff opts info' m d a t)"
proof -
  have may: "escalates r" using assms by (auto simp: effects_ok_def)
  have esc: "\<exists>u. effects_ok tv hv r s0 b0 u \<and> tn_awaiting u = tn_awaiting v \<and> finishes r u (escalated opts info' m d v)"
    if "effects_ok tv hv r s0 b0 v" for v
    using that
    by (intro exI [of _ "v\<lparr>tn_escalationRequested := True\<rparr>"]) (auto simp: escalated_def)
  show ?thesis
  proof (cases a)
    case None
    then show ?thesis using assms(1) by (intro exI [of _ t]) (auto simp: safetyHandedOff_def)
  next
    case (Some b)
    then show ?thesis
      using esc [OF assms(1)] esc [OF effects_ok_settleHandoff [OF assms(1) may]]
      by (cases b) (auto simp: safetyHandedOff_def settleHandoff_def)
  qed
qed

lemma recordAudited_fields [simp]:
  "tn_store (recordAudited ops x p t) = tn_store t" "tn_sealed (recordAudited ops x p t) = tn_sealed t"
  "ended (recordAudited ops x p t)" "tn_request (recordAudited ops x p t) = tn_request t"
  "tn_awaiting (recordAudited ops x p t) = tn_awaiting t"
  by (simp_all add: recordAudited_def ended_def split: prod.split sum.split)

lemma effects_ok_recordAudited:
  assumes "effects_ok tv hv r s0 b0 t" and "views_ok opts tv hv" and "op_business opts = Some ops"
  shows "effects_ok tv hv r s0 b0 (recordAudited ops x p t)"
proof -
  obtain b y where b: "bo_recordAudit ops (tn_business t) (tenant t) (rq_storeId (tn_request t)) (conversation t) p = (b, y)"
    by fastforce
  have "tv b = tv (tn_business t)" "hv b = hv (tn_business t)"
    using assms(2,3) b unfolding views_ok_def by (metis fst_conv)+
  then have "effects_ok tv hv r s0 b0 (t\<lparr>tn_business := b\<rparr>)" by (intro effects_ok_settling(3) [OF assms(1)]) simp_all
  from effects_ok_settling(4) [OF this] show ?thesis
    by (cases y) (simp_all add: recordAudited_def b)
qed

lemma turn_step_effects_ok:
  assumes ok: "effects_ok tv hv r s0 b0 t" and views: "views_ok opts tv hv" and sealed: "tn_sealed t \<longleftrightarrow> ended t"
    and step: "turn_step opts e t = Some t'"
  shows "effects_ok tv hv r s0 b0 t'"
proof -
  have r: "tn_request t = r" using ok by (simp add: effects_ok_def)
  have same: ?thesis if "effects t' = effects t" using effects_ok_cong [OF that] ok by blast
  show ?thesis
  proof (cases e)
    case (Ev_before call now)
    obtain u d where u: "beforeToolCall opts now call t = (u, d)" by fastforce
    have eu: "effects_ok tv hv r s0 b0 u"
      using effects_ok_cong [OF effects_beforeToolCall [of opts now call t], of tv hv r s0 b0] ok u by simp
    show ?thesis
      using step Ev_before u eu beforeToolCall_permitted [of opts now call t u] r effects_ok_call(1,2) [OF eu]
      by (auto simp: turn_step_def split: if_splits option.splits bool.splits)
  next
    case (Ev_reserve call)
    then have c: "permitted r call" using ok step by (auto simp: turn_step_def effects_ok_def split: if_splits)
    let ?u = "reserveCall opts call (t\<lparr>tn_awaiting := remove1 call (tn_awaiting t)\<rparr>)"
    have u: "effects_ok tv hv r s0 b0 (fst ?u)"
      by (rule effects_ok_reserveCall [OF effects_ok_call(3) [OF ok] c])
    then show ?thesis
      using step Ev_reserve effects_ok_call(2) [OF u c]
      by (auto simp: turn_step_def split: if_splits prod.splits bool.splits)
  next
    case (Ev_run call now)
    then have "permitted r call" using ok step by (auto simp: turn_step_def effects_ok_def split: if_splits)
    then show ?thesis
      using effects_ok_runTool [OF effects_ok_call(4) [OF ok] _ views] step Ev_run
      by (auto simp: turn_step_def split: if_splits)
  next
    case (Ev_ticket_settle x)
    then show ?thesis using step effects_ok_settleTicket [OF ok] by (auto simp: turn_step_def split: if_splits)
  next
    case (Ev_handoff_settle x)
    then have may: "escalates r" using ok step by (auto simp: turn_step_def effects_ok_def split: if_splits)
    have "effects_ok tv hv r s0 b0 (t\<lparr>tn_handoffsSettling := remove1 x (tn_handoffsSettling t)\<rparr>)"
      by (rule effects_ok_settling(2) [OF ok]) (simp add: may)
    then show ?thesis
      using step Ev_handoff_settle effects_ok_settleHandoff [OF _ may] by (auto simp: turn_step_def split: if_splits)
  next
    case (Ev_conclude info m)
    then have "tn_phase t = Serving" "t' = conclude opts info m t" using step by (auto simp: turn_step_def split: if_splits)
    then show ?thesis using conclude_cases [OF ok views, of info m] effects_ok_finishes [of tv hv r s0 b0] sealed
      by (auto simp: ended_def)
  next
    case (Ev_safety_handoff now)
    then show ?thesis using step safetyHandedOff_cases [OF ok] effects_ok_finishes [of tv hv r s0 b0]
      by (fastforce simp: turn_step_def split: turn_phase.splits)
  next
    case Ev_audit
    then show ?thesis using step effects_ok_recordAudited [OF ok views]
      by (auto simp: turn_step_def split: turn_phase.splits option.splits)
  qed (use step same in \<open>auto simp: turn_step_def split: if_splits\<close>)
qed

text \<open>A turn is sealed exactly when it has ended, by the step that finishes it, and stays so.\<close>

definition stage :: "'b turn \<Rightarrow> turn_phase \<times> bool" where
  "stage t = (tn_phase t, tn_sealed t)"

lemma stage_effects: "effects t' = effects t \<Longrightarrow> stage t' = stage t"
  by (simp add: effects_def stage_def)

lemma stage_simps [simp]:
  "stage (onEscalate t) = stage t" "stage (settleHandoff h t) = stage t" "stage (settleTicket x t) = stage t"
  "stage (createBusinessTicket opts y k t) = stage t" "stage (fst (callHandoff opts z t)) = stage t"
  "stage (fst (reserveCall opts call t)) = stage t" "stage (t\<lparr>tn_awaiting := w1\<rparr>) = stage t"
  "stage (t\<lparr>tn_granted := w2\<rparr>) = stage t" "stage (t\<lparr>tn_handoffsSettling := w3\<rparr>) = stage t"
  by (simp_all add: stage_def onEscalate_def settleHandoff_def settleTicket_def createBusinessTicket_def
      callHandoff_def reserveCall_def split: option.split prod.split sum.split tool_call.split bool.split)

lemma stage_createBusinessHandoff [simp]: "stage (createBusinessHandoff opts z t) = stage t"
proof -
  obtain u a where u: "callHandoff opts z t = (u, a)" by fastforce
  then have "stage u = stage t" using stage_simps(5) [of opts z t] by simp
  then show ?thesis by (simp add: createBusinessHandoff_def u split: option.split)
qed

lemma stage_runTool [simp]: "stage (runTool opts call now t) = stage t"
  using stage_effects [OF effects_search(3) [of opts _ t]] stage_effects [OF effects_beginKnowledge [of now Pi_check _ t]]
  by (simp add: runTool_def split: tool_call.split)

lemma turn_step_stage:
  assumes "turn_step opts e t = Some t'" and "\<And>info m. e \<noteq> Ev_conclude info m" and "\<And>now. e \<noteq> Ev_safety_handoff now"
    and "e \<noteq> Ev_audit"
  shows "stage t' = stage t"
proof (cases e)
  case (Ev_before call now)
  obtain u d where u: "beforeToolCall opts now call t = (u, d)" by fastforce
  have "stage u = stage t" using stage_effects [OF effects_beforeToolCall [of opts now call t]] u by simp
  then show ?thesis using assms(1) Ev_before u by (auto simp: turn_step_def split: if_splits option.splits bool.splits)
next
  case (Ev_reserve call)
  obtain u d where u: "reserveCall opts call (t\<lparr>tn_awaiting := remove1 call (tn_awaiting t)\<rparr>) = (u, d)" by fastforce
  have "stage u = stage t" using stage_simps(6) [of opts call "t\<lparr>tn_awaiting := remove1 call (tn_awaiting t)\<rparr>"] u by simp
  then show ?thesis using assms(1) Ev_reserve u by (auto simp: turn_step_def split: if_splits bool.splits)
qed (use assms stage_effects [of t' t] in \<open>auto simp: turn_step_def split: if_splits\<close>)

lemma turn_step_sealed:
  assumes "turn_step opts e t = Some t'" and "tn_sealed t \<longleftrightarrow> ended t"
  shows "(tn_sealed t' \<longleftrightarrow> ended t') \<and> (tn_sealed t \<longrightarrow> tn_sealed t')"
proof -
  have over: "tn_sealed (escalated opts info m d u) \<and> ended (escalated opts info m d u)" for info m d u
    by (simp add: escalated_def)
  show ?thesis
  proof (cases e)
    case (Ev_conclude info m)
    then have serving: "tn_phase t = Serving" and t': "t' = conclude opts info m t"
      using assms(1) by (auto simp: turn_step_def split: if_splits)
    then have open_: "\<not> tn_sealed t" using assms(2) by (simp add: ended_def)
    have "tn_sealed (safetyHandoff opts info m d t) \<longleftrightarrow> ended (safetyHandoff opts info m d t)" for d
      using over open_
      by (auto simp: safetyHandoff_def callHandoff_def ended_def split: prod.split bool.split option.split sum.split)
    then show ?thesis using open_ t' by (auto simp: conclude_def Let_def split: option.split disposition.split)
  next
    case (Ev_safety_handoff now)
    then show ?thesis using assms(1) over
      by (auto simp: turn_step_def safetyHandedOff_def split: turn_phase.splits option.splits)
  next
    case Ev_audit
    then obtain ops x p where t': "t' = recordAudited ops x p t" and "tn_phase t = Awaiting_audit x p"
      using assms(1) by (auto simp: turn_step_def split: turn_phase.splits option.splits)
    then have "tn_sealed t" using assms(2) by (simp add: ended_def)
    then show ?thesis by (simp add: t')
  qed (use turn_step_stage [OF assms(1)] assms(2) in \<open>auto simp: stage_def ended_def\<close>)
qed

lemma turn_run_ok:
  assumes "turn_run opts es t = Some t'" and "effects_ok tv hv r s0 b0 t" and "views_ok opts tv hv" and "tn_sealed t \<longleftrightarrow> ended t"
  shows "effects_ok tv hv r s0 b0 t' \<and> (tn_sealed t' \<longleftrightarrow> ended t') \<and> (tn_sealed t \<longrightarrow> tn_sealed t')"
  using assms
proof (induction es arbitrary: t)
  case (Cons e es)
  then obtain u where u: "turn_step opts e t = Some u" "turn_run opts es u = Some t'" by (auto split: option.splits)
  then show ?case
    using Cons.IH [OF u(2) turn_step_effects_ok [OF Cons.prems(2,3,4) u(1)] Cons.prems(3)]
      turn_step_sealed [OF u(1) Cons.prems(4)] by blast
qed simp

lemma start_ok:
  assumes "store_ok s"
  shows "effects_ok tv hv r s b (policyCheck opts now (startTurn opts r s b h ms now))"
    and "\<not> tn_sealed (policyCheck opts now (startTurn opts r s b h ms now))"
    and "\<not> ended (policyCheck opts now (startTurn opts r s b h ms now))"
proof -
  show "effects_ok tv hv r s b (policyCheck opts now (startTurn opts r s b h ms now))"
    by (rule effects_ok_cong [OF effects_policyCheck, THEN iffD2]) (rule effects_ok_start [OF assms])
  have "stage (policyCheck opts now (startTurn opts r s b h ms now)) = stage (startTurn opts r s b h ms now)"
    by (rule stage_effects) simp
  then show "\<not> tn_sealed (policyCheck opts now (startTurn opts r s b h ms now))"
    "\<not> ended (policyCheck opts now (startTurn opts r s b h ms now))"
    by (simp_all add: stage_def startTurn_def ended_def)
qed

section \<open>After the seal\<close>

text \<open>
  Once the turn is sealed, only a tool call that was then waiting in \<open>beforeToolCall\<close> for the business store can
  reserve anything.
\<close>

definition late_ok :: "support_request \<Rightarrow> support_store \<Rightarrow> tool_call set \<Rightarrow> 'b turn \<Rightarrow> bool" where
  "late_ok r s0 waiting t \<longleftrightarrow> tn_request t = r \<and> tn_sealed t \<and> ended t \<and> set (tn_awaiting t) \<subseteq> waiting \<and>
     set (ss_ticketReservations (tn_store t)) \<subseteq>
       set (ss_ticketReservations s0) \<union> {ticket_key (rq_tenantId r) k |x k. Call_create_ticket x k \<in> waiting} \<and>
     set (ss_handoffReservations (tn_store t)) \<subseteq>
       set (ss_handoffReservations s0) \<union> {rq_conversationId r |x. Call_handoff x \<in> waiting}"

lemma late_ok_store:
  assumes "late_ok r s0 w t" and "stage t' = stage t" and "tn_request t' = tn_request t" and "set (tn_awaiting t') \<subseteq> set (tn_awaiting t)"
    and "set (ss_ticketReservations (tn_store t')) \<subseteq> set (ss_ticketReservations (tn_store t))"
    and "set (ss_handoffReservations (tn_store t')) \<subseteq> set (ss_handoffReservations (tn_store t))"
  shows "late_ok r s0 w t'"
proof -
  have "tn_phase t' = tn_phase t" "tn_sealed t' = tn_sealed t" using assms(2) by (simp_all add: stage_def)
  then show ?thesis using assms(1,3-6) unfolding late_ok_def ended_def by (metis (mono_tags, lifting) subset_trans)
qed

lemma late_ok_effects: "late_ok r s0 w t \<Longrightarrow> effects t' = effects t \<Longrightarrow> late_ok r s0 w t'"
  by (rule late_ok_store [of r s0 w t]) (simp_all add: effects_def stage_def)

lemma late_ok_updates [simp]:
  "late_ok r s0 w (t\<lparr>tn_granted := g\<rparr>) = late_ok r s0 w t"
  "late_ok r s0 w (t\<lparr>tn_handoffsSettling := hs\<rparr>) = late_ok r s0 w t"
  by (simp_all add: late_ok_def ended_def)

lemma late_ok_onEscalate [simp]: "late_ok r s0 w t \<Longrightarrow> late_ok r s0 w (onEscalate t)"
  by (rule late_ok_effects) simp_all

lemma late_ok_reserveCall:
  assumes "late_ok r s0 w t" and "call \<in> w"
  shows "late_ok r s0 w (fst (reserveCall opts call t))"
proof (cases call)
  case (Call_create_ticket x k)
  then have "ticket_key (rq_tenantId r) k \<in> {ticket_key (rq_tenantId r) k |x k. Call_create_ticket x k \<in> w}" using assms(2) by blast
  then show ?thesis
    using assms(1) Call_create_ticket
    by (auto simp: reserveCall_def reserveTicket_def Let_def late_ok_def tenant_def ended_def
        split: option.split sum.split prod.split bool.split)
next
  case (Call_handoff x)
  then show ?thesis
    using assms
    by (auto simp: reserveCall_def reserveHandoff_def late_ok_def conversation_def ended_def
        split: option.split sum.split prod.split bool.split)
qed (use assms in \<open>simp_all add: reserveCall_def\<close>)

lemma late_ok_handoff_store:
  assumes "late_ok r s0 w t"
  shows "late_ok r s0 w (t\<lparr>tn_store := createHandoff (tn_store t) c x\<rparr>)"
  by (rule late_ok_store [OF assms]) (simp_all add: stage_def createHandoff_fields)

lemma late_ok_runTool:
  assumes "late_ok r s0 w t"
  shows "late_ok r s0 w (runTool opts call now t)"
proof (cases call)
  case (Call_search_faq q)
  then show ?thesis using late_ok_effects [OF assms effects_search(3) [of opts q t]] by (simp add: runTool_def)
next
  case (Call_search_knowledge q)
  then show ?thesis using late_ok_effects [OF assms effects_beginKnowledge [of now Pi_check q t]] by (simp add: runTool_def)
next
  case (Call_create_ticket x k)
  have "late_ok r s0 w (createBusinessTicket opts x k t)"
    by (rule late_ok_store [OF assms])
      (simp_all add: stage_def createBusinessTicket_def createTicket_fields split: option.split prod.split sum.split)
  then show ?thesis using assms Call_create_ticket by (simp add: runTool_def)
next
  case (Call_handoff x)
  obtain u a where u: "callHandoff opts x t = (u, a)" by fastforce
  have "late_ok r s0 w (fst (callHandoff opts x t))"
    by (rule late_ok_store [OF assms])
      (simp_all add: stage_def callHandoff_def createHandoff_fields split: option.split prod.split sum.split)
  then have "late_ok r s0 w (createBusinessHandoff opts x t)"
    by (simp add: createBusinessHandoff_def u split: option.split)
  then show ?thesis using assms Call_handoff by (simp add: runTool_def)
qed

lemma turn_step_late_ok:
  assumes ok: "late_ok r s0 w t" and step: "turn_step opts e t = Some t'"
  shows "late_ok r s0 w t'"
proof -
  have sealed: "tn_sealed t" and over: "tn_phase t \<noteq> Serving" "\<And>info m d a. tn_phase t \<noteq> Awaiting_handoff info m d a"
    using ok by (auto simp: late_ok_def ended_def)
  have same: ?thesis if "effects t' = effects t" using late_ok_effects [OF ok that] .
  show ?thesis
  proof (cases e)
    case (Ev_before call now)
    obtain u d where u: "beforeToolCall opts now call t = (u, d)" by fastforce
    have "tn_sealed (checkDeadline now t)" using sealed effects_basic(2) [of now t] by (simp add: effects_def)
    then have "d = None" using u by (simp add: beforeToolCall_def Let_def)
    moreover have "late_ok r s0 w u" using late_ok_effects [OF ok effects_beforeToolCall [of opts now call t]] u by simp
    ultimately show ?thesis using step Ev_before u by (auto simp: turn_step_def split: if_splits)
  next
    case (Ev_reserve call)
    let ?t = "t\<lparr>tn_awaiting := remove1 call (tn_awaiting t)\<rparr>"
    have t: "late_ok r s0 w ?t" by (rule late_ok_store [OF ok]) (auto dest: set_remove1_subset [THEN subsetD])
    have "call \<in> w" using step Ev_reserve ok by (auto simp: turn_step_def late_ok_def split: if_splits)
    from late_ok_reserveCall [OF t this, of opts] show ?thesis
      using step Ev_reserve by (auto simp: turn_step_def split: if_splits prod.splits bool.splits)
  next
    case (Ev_run call now)
    then show ?thesis using step late_ok_runTool [of r s0 w "t\<lparr>tn_granted := remove1 call (tn_granted t)\<rparr>"] ok
      by (auto simp: turn_step_def split: if_splits)
  next
    case (Ev_ticket_settle x)
    have "late_ok r s0 w (settleTicket x t)"
      by (rule late_ok_store [OF ok]) (simp_all add: stage_def settleTicket_def createTicket_fields)
    then show ?thesis using step Ev_ticket_settle by (auto simp: turn_step_def split: if_splits)
  next
    case (Ev_handoff_settle x)
    let ?t = "t\<lparr>tn_handoffsSettling := remove1 x (tn_handoffsSettling t)\<rparr>"
    have "late_ok r s0 w ?t" using ok by simp
    then have "late_ok r s0 w (settleHandoff x ?t)"
      using late_ok_handoff_store [of r s0 w ?t] by (simp add: settleHandoff_def)
    then show ?thesis using step Ev_handoff_settle by (auto simp: turn_step_def split: if_splits)
  next
    case (Ev_conclude info m)
    then show ?thesis using step over by (simp add: turn_step_def)
  next
    case (Ev_safety_handoff now)
    then obtain info m d a where "tn_phase t = Awaiting_handoff info m d a"
      using step by (auto simp: turn_step_def split: turn_phase.splits)
    then show ?thesis using over(2) by blast
  next
    case Ev_audit
    then obtain ops x p where "t' = recordAudited ops x p t"
      using step by (auto simp: turn_step_def split: turn_phase.splits option.splits)
    then show ?thesis using ok by (simp add: late_ok_def)
  qed (use step same over in \<open>auto simp: turn_step_def split: if_splits\<close>)
qed

lemma turn_run_late_ok: "turn_run opts es t = Some t' \<Longrightarrow> late_ok r s0 w t \<Longrightarrow> late_ok r s0 w t'"
  by (induction es arbitrary: t) (auto split: option.splits dest: turn_step_late_ok)

text \<open>The step that seals a turn releases what the turn has reserved.\<close>

lemma sealing_step:
  assumes ok: "effects_ok tv hv r s0 b0 t" and views: "views_ok opts tv hv" and "tn_sealed t \<longleftrightarrow> ended t"
    and step: "turn_step opts e t = Some t'" and "\<not> tn_sealed t" and "tn_sealed t'"
  shows "late_ok r s0 (set (tn_awaiting t)) t'"
proof -
  have "\<exists>u. effects_ok tv hv r s0 b0 u \<and> tn_awaiting u = tn_awaiting t \<and> finishes r u t'"
  proof (cases e)
    case (Ev_conclude info m)
    then have "t' = conclude opts info m t" using step by (auto simp: turn_step_def split: if_splits)
    then show ?thesis using conclude_cases [OF ok views assms(5), of info m] assms(6) by auto
  next
    case (Ev_safety_handoff now)
    then show ?thesis using step safetyHandedOff_cases [OF ok] by (auto simp: turn_step_def split: turn_phase.splits)
  next
    case Ev_audit
    then show ?thesis using step assms(5,6) by (auto simp: turn_step_def split: turn_phase.splits option.splits)
  qed (use turn_step_stage [OF step] assms(5,6) in \<open>auto simp: stage_def\<close>)
  then obtain u where u: "effects_ok tv hv r s0 b0 u" "tn_awaiting u = tn_awaiting t" "finishes r u t'" by blast
  from effects_ok_finishes [OF u(1,3)] u(2) show ?thesis by (auto simp: late_ok_def effects_ok_def)
qed

lemma run_sealed:
  assumes "turn_run opts es t = Some t'" and "effects_ok tv hv r s0 b0 t" and "views_ok opts tv hv"
    and "\<not> tn_sealed t" and "\<not> ended t" and "tn_sealed t'"
  shows "\<exists>es1 e es2 u v. es = es1 @ e # es2 \<and> turn_run opts es1 t = Some u \<and> \<not> tn_sealed u \<and>
    turn_step opts e u = Some v \<and> tn_sealed v \<and> late_ok r s0 (set (tn_awaiting u)) t'"
  using assms
proof (induction es arbitrary: t)
  case (Cons e es)
  then obtain u where u: "turn_step opts e t = Some u" "turn_run opts es u = Some t'" by (auto split: option.splits)
  have ok: "effects_ok tv hv r s0 b0 u" and stage: "tn_sealed u \<longleftrightarrow> ended u"
    using turn_step_effects_ok [OF Cons.prems(2,3) _ u(1)] turn_step_sealed [OF u(1)] Cons.prems(4,5) by simp_all
  show ?case
  proof (cases "tn_sealed u")
    case True
    have "late_ok r s0 (set (tn_awaiting t)) u"
      using sealing_step [OF Cons.prems(2,3) _ u(1) Cons.prems(4) True] Cons.prems(4,5) by simp
    from turn_run_late_ok [OF u(2) this] show ?thesis
      using Cons.prems(4) u(1) True by (intro exI [of _ "[]"] exI [of _ e] exI [of _ es] exI [of _ t] exI [of _ u]) simp
  next
    case False
    obtain es1 f es2 v w where "es = es1 @ f # es2" "turn_run opts es1 u = Some v" "\<not> tn_sealed v"
      "turn_step opts f v = Some w" "tn_sealed w" "late_ok r s0 (set (tn_awaiting v)) t'"
      using Cons.IH [OF u(2) ok Cons.prems(3) False _ Cons.prems(6)] False stage by blast
    then show ?thesis
      using u(1) by (intro exI [of _ "e # es1"] exI [of _ f] exI [of _ es2] exI [of _ v] exI [of _ w]) simp
  qed
qed simp

section \<open>Sessions\<close>

lemma getOrCreateSession_owner:
  assumes "store_ok s" and "getOrCreateSession opts dir r opened created s = Inr (s', sid)"
  shows "store_ok s' \<and>
    (\<exists>x. getSession s' (rq_conversationId r) = Some x \<and> st_tenantId x = rq_tenantId r \<and>
       st_storeId x = rq_storeId r \<and> st_customerId x = rq_customerId r \<and>
       st_agentProfileHash x = Some (prof_hash (op_profile opts)) \<and> st_sessionManager x = Some sid) \<and>
    (\<forall>c. c \<noteq> rq_conversationId r \<longrightarrow> getSession s' c = getSession s c) \<and>
    (\<forall>x. getSession s (rq_conversationId r) = Some x \<longrightarrow>
       st_tenantId x = rq_tenantId r \<and> st_storeId x = rq_storeId r \<and> st_customerId x = rq_customerId r)"
proof (cases "getSession s (rq_conversationId r)")
  case None
  then have s': "s' = setSession s (session_of opts r (fst created) (snd created))" "sid = fst created"
    using assms(2) by (auto simp: getOrCreateSession_def)
  then have "store_ok s'" using store_ok_setSession [OF assms(1)] by simp
  with s' show ?thesis
    using None by (simp add: getSession_def setSession_def session_of_def)
next
  case (Some x)
  have c: "st_conversationId x = rq_conversationId r"
    using assms(1) Some unfolding store_ok_def getSession_def by blast
  have same: "st_tenantId x = rq_tenantId r" "st_storeId x = rq_storeId r" "st_customerId x = rq_customerId r"
    "st_agentProfileHash x = Some (prof_hash (op_profile opts))"
    and out: "(s' = s \<and> st_sessionManager x = Some sid) \<or>
      (s' = setSession s (x\<lparr>st_sessionManager := Some opened\<rparr>) \<and> sid = opened)"
    using assms(2) Some by (auto simp: getOrCreateSession_def split: if_splits option.splits)
  from out show ?thesis
  proof
    assume "s' = s \<and> st_sessionManager x = Some sid"
    then show ?thesis using assms(1) Some same by simp
  next
    assume "s' = setSession s (x\<lparr>st_sessionManager := Some opened\<rparr>) \<and> sid = opened"
    moreover from this have "store_ok s'" using store_ok_setSession [OF assms(1)] by simp
    ultimately show ?thesis
      using Some same c by (simp add: getSession_def setSession_def)
  qed
qed

section \<open>Properties of a turn\<close>

text \<open>
  C3. A turn gives back what it reserved: whatever the agent, the services and the timer do, and whether or not records
  were written, a turn that has returned or rejected was sealed at some step, and from that step on, while the audit
  record is awaited and afterwards, every ticket and handoff reservation in the store was there before the turn
  began, except one for a tool call that at the seal was waiting for the business store's answer before its
  reservation.
\<close>

theorem turn_releases_reservations:
  assumes "store_ok s"
    and "turn_run opts es (policyCheck opts now (startTurn opts r s b h ms now)) = Some t"
    and "tn_phase t = Run_returned res \<or> tn_phase t = Run_rejected err \<or> tn_phase t = Awaiting_audit res payload"
  shows "\<exists>es1 e es2 u v. es = es1 @ e # es2 \<and>
    turn_run opts es1 (policyCheck opts now (startTurn opts r s b h ms now)) = Some u \<and> \<not> tn_sealed u \<and>
    turn_step opts e u = Some v \<and> tn_sealed v \<and>
    set (ss_ticketReservations (tn_store t)) \<subseteq>
      set (ss_ticketReservations s) \<union> {ticket_key (rq_tenantId r) k |x k. Call_create_ticket x k \<in> set (tn_awaiting u)} \<and>
    set (ss_handoffReservations (tn_store t)) \<subseteq>
      set (ss_handoffReservations s) \<union> {rq_conversationId r |x. Call_handoff x \<in> set (tn_awaiting u)}"
proof -
  have views: "views_ok opts (\<lambda>_. ()) (\<lambda>_. ())" by (simp add: views_ok_def)
  note start = start_ok [OF assms(1)]
  have "tn_sealed t \<longleftrightarrow> ended t" using turn_run_ok [OF assms(2) start(1) views] by (simp add: start)
  then have "tn_sealed t" using assms(3) by (auto simp: ended_def)
  from run_sealed [OF assms(2) start(1) views start(2,3) this] show ?thesis unfolding late_ok_def by blast
qed

text \<open>
  What a turn writes, its request permits: for any view of the business store's tickets that handoffs and audit records
  leave alone, and any view of its handoffs that tickets and audit records leave alone.
\<close>

lemma turn_writes_permitted:
  assumes "store_ok s"
    and "turn_run opts es (policyCheck opts now (startTurn opts r s b h ms now)) = Some t"
    and "views_ok opts tickets handoffs"
  shows "(\<not> mayTicket r \<longrightarrow> ss_tickets (tn_store t) = ss_tickets s \<and> tickets (tn_business t) = tickets b) \<and>
    (\<not> mayHandoff r \<and> detectSafetyRisk (rq_text r) = None \<longrightarrow>
       ss_handoffs (tn_store t) = ss_handoffs s \<and> handoffs (tn_business t) = handoffs b)"
proof -
  note start = start_ok [OF assms(1)]
  have "effects_ok tickets handoffs r s b t" using turn_run_ok [OF assms(2) start(1) assms(3)] by (simp add: start)
  then show ?thesis by (auto simp: effects_ok_def escalates_def)
qed

text \<open>
  A conversation keeps its owner: a request gets the session of its conversation only if the
  mapping names the same tenant, store, customer and agent profile; otherwise it is refused. A
  new or restored mapping is the request's own, and no other conversation is touched.
\<close>

theorem session_keeps_owner:
  assumes "store_ok s" and "getOrCreateSession opts dir r opened created s = Inr (s', sid)"
  shows "(\<exists>x. getSession s' (rq_conversationId r) = Some x \<and> st_tenantId x = rq_tenantId r \<and>
       st_storeId x = rq_storeId r \<and> st_customerId x = rq_customerId r \<and>
       st_agentProfileHash x = Some (prof_hash (op_profile opts)) \<and> st_sessionManager x = Some sid) \<and>
    (\<forall>c. c \<noteq> rq_conversationId r \<longrightarrow> getSession s' c = getSession s c) \<and>
    (\<forall>x. getSession s (rq_conversationId r) = Some x \<longrightarrow>
       st_tenantId x = rq_tenantId r \<and> st_storeId x = rq_storeId r \<and> st_customerId x = rq_customerId r)"
  using getOrCreateSession_owner [OF assms] by blast

section \<open>A concrete turn\<close>

definition demo_runtime_profile :: resolved_profile where
  "demo_runtime_profile = \<lparr>prof_id = js ''p'', prof_version = js ''v'', prof_identityPrompt = js ''i'',
     prof_workPolicy = js ''w'', prof_allowedSkills = [], prof_allowedTools = AGENT_TOOL_NAMES, prof_hash = js ''h''\<rparr>"

definition demo_business_ops :: "unit business_ops" where
  "demo_business_ops = \<lparr>bo_findTicket = (\<lambda>_ _ _. Inr None), bo_createTicket = (\<lambda>b _. (b, Inl ''unavailable'')),
     bo_findHandoff = (\<lambda>_ _ _ _. Inr None), bo_createHandoff = (\<lambda>b _. (b, Inl ''unavailable'')),
     bo_recordAudit = (\<lambda>b _ _ _ _. (b, Inr ()))\<rparr>"

definition demo_faq :: faq_entry where
  "demo_faq = \<lparr>fq_id = js ''f'', fq_question = js ''.'', fq_answer = js ''yo'', fq_status = approved,
     fq_version = js ''v'', fq_sourceRef = js ''r'', fq_tenantScope = Some (js ''t''), fq_storeScope = None\<rparr>"

definition demo_options :: "'b business_ops \<Rightarrow> 'b runtime_options" where
  "demo_options ops = \<lparr>op_realPolicy = False, op_fallbackModel = False, op_business = Some ops,
     op_faq = [demo_faq], op_allowSynthetic = False, op_maxAgentTurns = 4, op_maxToolCalls = 6,
     op_overallTurnTimeoutMs = 10000, op_profile = demo_runtime_profile\<rparr>"

definition demo_request :: "string list \<Rightarrow> support_request" where
  "demo_request permissions = \<lparr>rq_conversationId = js ''c'', rq_tenantId = js ''t'', rq_storeId = js ''s'',
     rq_customerId = js ''k'', rq_text = js ''.'', rq_requestId = None,
     rq_permissions = Some (map js permissions), rq_mayEscalate = None, rq_requiresEscalation = None\<rparr>"

lemma demo_risk: "detectSafetyRisk (js ''.'') = None"
proof -
  have "normalize_risk_text (js ''.'') = []"
    by (simp add: normalize_risk_text_def js_simps to_lower_def lower_unit_def safety_separator_def safety_marks_def)
  then show ?thesis
    by (simp add: detectSafetyRisk_def hasSafetyHardNegative_def hard_negative_patterns_def hasDeviceRiskSignal_def
      hasContraindicationSignal_def hasVisibleSkinRiskSignal_def hasAcuteUncertainRiskSignal_def hasKeyword_def
      allergy_words_def skin_words_def hasProfessionalRiskSignal_def service_decision_pattern_def taken_pattern_def)
qed

definition demo_start :: "'b business_ops \<Rightarrow> 'b \<Rightarrow> string list \<Rightarrow> 'b turn" where
  "demo_start ops b ps = startTurn (demo_options ops) (demo_request ps) (newSupportStore []) b (\<lambda>_. faq_evidence demo_faq) [] 0"

lemma demo_start_fields [simp]:
  "tn_request (demo_start ops b ps) = demo_request ps" "tn_store (demo_start ops b ps) = newSupportStore []"
  "tn_toolCalls (demo_start ops b ps) = 0" "tn_phase (demo_start ops b ps) = Serving"
  "tn_timedOut (demo_start ops b ps) = False" "tn_sealed (demo_start ops b ps) = False"
  "tn_limitReached (demo_start ops b ps) = False"
  "tn_toolFailed (demo_start ops b ps) = False" "tn_promptStarted (demo_start ops b ps) = False"
  "tn_awaiting (demo_start ops b ps) = []"
  "tn_granted (demo_start ops b ps) = []" "tn_reservedTicketKeys (demo_start ops b ps) = []"
  "tn_reservedHandoff (demo_start ops b ps) = False"
  "tn_overallExpiresAt (demo_start ops b ps) = 10000" "tn_completedChecks (demo_start ops b ps) = []"
  "tn_verifiedKnowledgeEvidence (demo_start ops b ps) = False" "tn_evidenceSettledAt (demo_start ops b ps) = None"
  "tn_deadlineEvidenceEligible (demo_start ops b ps) = False" "tn_business (demo_start ops b ps) = b"
  "tn_escalationRequested (demo_start ops b ps) = False" "tn_noKnowledgeEvidence (demo_start ops b ps) = False"
  by (simp_all add: demo_start_def startTurn_def demo_options_def)

lemma demo_options_fields [simp]:
  "op_business (demo_options ops) = Some ops" "op_maxToolCalls (demo_options ops) = 6"
  "op_profile (demo_options ops) = demo_runtime_profile" "op_realPolicy (demo_options ops) = False"
  "set (prof_allowedTools demo_runtime_profile) = UNIV"
proof -
  have "x \<in> set AGENT_TOOL_NAMES" for x by (cases x) (simp_all add: AGENT_TOOL_NAMES_def)
  then show "set (prof_allowedTools demo_runtime_profile) = UNIV" by (auto simp: demo_runtime_profile_def)
qed (simp_all add: demo_options_def)

lemma demo_faq_found: "findAdmittedFaq (demo_options ops) (demo_request ps) (js ''.'') = Some (faq_evidence demo_faq)"
  by (simp add: findAdmittedFaq_def demo_options_def demo_faq_def admits_def admissible_iff scope_allows_iff
      faq_evidence_def demo_request_def request_context_def)

lemma demo_text: "rq_text (demo_request ps) = js ''.''"
  by (simp add: demo_request_def)

lemma demo_checked: "policyCheck (demo_options ops) 0 (demo_start ops b ps) = demo_start ops b ps"
  by (simp add: policyCheck_def demo_text demo_faq_found)

lemma demo_plain: "tn_request t = demo_request ps \<Longrightarrow> safetyRisk t = None"
  by (simp add: safetyRisk_def demo_text demo_risk)

definition demo_info :: finish_info where
  "demo_info = \<lparr>fi_requestId = js ''q'', fi_now = 7, fi_piSessionId = js ''pi'', fi_sessionFile = None\<rparr>"

lemma conclude_plain:
  "safetyRisk t = None \<Longrightarrow> \<exists>d x. conclude opts info m t = answer_with opts info d m x t"
  by (cases "ordinaryOutcome m t") (auto simp: conclude_def Let_def safetyDecision_def)

lemma answer_with_phase: "op_business opts \<noteq> None \<Longrightarrow> \<exists>res p. tn_phase (answer_with opts info d m x t) = Awaiting_audit res p"
  by (cases x) (auto simp: answer_with_def finish_def Let_def)

text \<open>A request without a risk is concluded, and its audit record is written.\<close>

lemma demo_end:
  assumes "tn_phase t = Serving" and "tn_request t = demo_request ps" and "op_business opts = Some ops"
    and "\<And>p. \<exists>b'. bo_recordAudit ops (tn_business t) (js ''t'') (js ''s'') (js ''c'') p = (b', Inr ())"
  shows "\<exists>t' res. turn_run opts [Ev_conclude demo_info m, Ev_audit] t = Some t' \<and> tn_phase t' = Run_returned res \<and>
    tn_awaiting t' = tn_awaiting t \<and> tn_request t' = tn_request t \<and>
    tn_store t' = setSession (releaseReservations t) (session_of opts (tn_request t) (js ''pi'') None)"
proof -
  obtain d x where c: "conclude opts demo_info m t = answer_with opts demo_info d m x t"
    using conclude_plain [OF demo_plain [OF assms(2)]] by blast
  obtain res p where p: "tn_phase (answer_with opts demo_info d m x t) = Awaiting_audit res p"
    using answer_with_phase assms(3) by blast
  let ?u = "answer_with opts demo_info d m x t"
  have "tenant ?u = js ''t''" "rq_storeId (tn_request ?u) = js ''s''" "conversation ?u = js ''c''"
    "tn_business ?u = tn_business t"
    by (simp_all add: tenant_def conversation_def assms(2) demo_request_def)
  then obtain b' where "bo_recordAudit ops (tn_business ?u) (tenant ?u) (rq_storeId (tn_request ?u)) (conversation ?u) p = (b', Inr ())"
    using assms(4) by metis
  then have "tn_phase (recordAudited ops res p ?u) = Run_returned res" by (simp add: recordAudited_def)
  then show ?thesis
    using assms(1,3) c p by (simp add: turn_step_def demo_info_def)
qed

subsection \<open>A late reservation\<close>

definition demo_call :: tool_call where
  "demo_call = Call_create_ticket (js ''s'') (js ''k'')"

definition demo_late :: "unit turn" where
  "demo_late = (demo_start demo_business_ops () [''tickets:write''])
     \<lparr>tn_promptStarted := True, tn_toolCalls := 1, tn_awaiting := [demo_call], tn_timedOut := True\<rparr>"

abbreviation demo_begin :: "turn_event list" where
  "demo_begin \<equiv> [Ev_prompt, Ev_before demo_call 6, Ev_timer]"

lemma demo_late_run:
  "turn_run (demo_options demo_business_ops) demo_begin (demo_start demo_business_ops () [''tickets:write'']) = Some demo_late"
  by (simp add: turn_step_def demo_call_def demo_late_def beforeToolCall_def checkDeadline_def is_cached_check_def
      expireTurn_def hasPermission_def demo_request_def)

lemma turn_run_append: "turn_run opts (es @ es') t = (case turn_run opts es t of None \<Rightarrow> None | Some u \<Rightarrow> turn_run opts es' u)"
  by (induction es arbitrary: t) (auto split: option.split)

text \<open>
  The exception of C3 is real: a hook that still waits for the business store when the turn times out does not look at
  the signal again; it reserves the key of the turn that has returned, and nothing releases it, so no later call can
  create that ticket.
\<close>

theorem late_reservation_leaks:
  "\<exists>t res. turn_run (demo_options demo_business_ops) (demo_begin @ [Ev_conclude demo_info None, Ev_audit] @ [Ev_reserve demo_call])
      (policyCheck (demo_options demo_business_ops) 0
        (startTurn (demo_options demo_business_ops) (demo_request [''tickets:write'']) (newSupportStore []) ()
          (\<lambda>_. faq_evidence demo_faq) [] 0)) = Some t \<and> tn_phase t = Run_returned res \<and>
     findTicket (tn_store t) (js ''t'') (js ''k'') = None \<and> \<not> snd (reserveTicket (tn_store t) (js ''t'') (js ''k''))"
proof -
  have phase: "tn_phase demo_late = Serving" "tn_request demo_late = demo_request [''tickets:write'']"
    by (simp_all add: demo_late_def)
  have aud: "\<exists>b'. bo_recordAudit demo_business_ops b (js ''t'') (js ''s'') (js ''c'') p = (b', Inr ())" for b p
    by (simp add: demo_business_ops_def)
  obtain t res where t: "turn_run (demo_options demo_business_ops) [Ev_conclude demo_info None, Ev_audit] demo_late = Some t"
    "tn_phase t = Run_returned res" "tn_awaiting t = [demo_call]" "tn_request t = demo_request [''tickets:write'']"
    "tn_store t = setSession (newSupportStore []) (session_of (demo_options demo_business_ops) (demo_request [''tickets:write'']) (js ''pi'') None)"
    using demo_end [OF phase demo_options_fields(1) aud, of None]
    by (auto simp: demo_late_def releaseReservations_def)
  then have store: "ss_tickets (tn_store t) = []" "ss_ticketReservations (tn_store t) = []"
    by (simp_all add: setSession_def newSupportStore_def)
  obtain u where u: "turn_step (demo_options demo_business_ops) (Ev_reserve demo_call) t = Some u" "tn_phase u = Run_returned res"
    "findTicket (tn_store u) (js ''t'') (js ''k'') = None" "\<not> snd (reserveTicket (tn_store u) (js ''t'') (js ''k''))"
    using t store
    by (simp add: turn_step_def demo_call_def reserveCall_def reserveTicket_def
        demo_business_ops_def tenant_def demo_request_def map_has_def findTicket_def Let_def)
  show ?thesis
    unfolding demo_start_def [symmetric] demo_checked turn_run_append demo_late_run
    using t(1) u by (simp del: turn_run.simps(2) add: turn_run.simps(2) [of _ "Ev_reserve demo_call"])
qed

theorem turn_releases_reservations_witness:
  "\<exists>t es1 e es2 u v. turn_run (demo_options demo_business_ops)
      (demo_begin @ [Ev_conclude demo_info None, Ev_audit] @ [Ev_reserve demo_call])
      (policyCheck (demo_options demo_business_ops) 0
        (startTurn (demo_options demo_business_ops) (demo_request [''tickets:write'']) (newSupportStore []) ()
          (\<lambda>_. faq_evidence demo_faq) [] 0)) = Some t \<and>
     demo_begin @ [Ev_conclude demo_info None, Ev_audit] @ [Ev_reserve demo_call] = es1 @ e # es2 \<and>
     turn_step (demo_options demo_business_ops) e u = Some v \<and> \<not> tn_sealed u \<and> tn_sealed v \<and>
     set (ss_ticketReservations (tn_store t)) \<subseteq>
       {ticket_key (js ''t'') k |x k. Call_create_ticket x k \<in> set (tn_awaiting u)}"
proof -
  obtain t res where t: "turn_run (demo_options demo_business_ops)
      (demo_begin @ [Ev_conclude demo_info None, Ev_audit] @ [Ev_reserve demo_call])
      (policyCheck (demo_options demo_business_ops) 0
        (startTurn (demo_options demo_business_ops) (demo_request [''tickets:write'']) (newSupportStore []) ()
          (\<lambda>_. faq_evidence demo_faq) [] 0)) = Some t" "tn_phase t = Run_returned res"
    using late_reservation_leaks by blast
  have fields: "rq_tenantId (demo_request [''tickets:write'']) = js ''t''" "ss_ticketReservations (newSupportStore []) = []"
    by (simp_all add: demo_request_def newSupportStore_def)
  from turn_releases_reservations [OF newSupportStore_ok t(1)] t(2)
  obtain es1 e es2 u v where "demo_begin @ [Ev_conclude demo_info None, Ev_audit] @ [Ev_reserve demo_call] = es1 @ e # es2"
    "turn_step (demo_options demo_business_ops) e u = Some v" "\<not> tn_sealed u" "tn_sealed v"
    "set (ss_ticketReservations (tn_store t)) \<subseteq> {ticket_key (js ''t'') k |x k. Call_create_ticket x k \<in> set (tn_awaiting u)}"
    unfolding fields by auto
  then show ?thesis using t(1) by blast
qed

theorem session_keeps_owner_witness:
  "\<exists>s'. getOrCreateSession (demo_options demo_business_ops) False (demo_request []) [] (js ''pi'', None) (newSupportStore []) = Inr (s', js ''pi'') \<and>
     (\<exists>x. getSession s' (rq_conversationId (demo_request [])) = Some x \<and> st_tenantId x = js ''t'')"
proof -
  obtain s' where s: "getOrCreateSession (demo_options demo_business_ops) False (demo_request []) [] (js ''pi'', None) (newSupportStore []) = Inr (s', js ''pi'')"
    by (simp add: getOrCreateSession_def getSession_def newSupportStore_def)
  show ?thesis using session_keeps_owner [OF newSupportStore_ok s] s by (auto simp: demo_request_def)
qed

end
