(* ===== verification/Business.thy ===== *)
theory Business
  imports Database RuntimeProps
begin

text \<open>
  \<open>PostgresEnterpriseBusinessRepository\<close> of \<open>src/enterprise/postgres.ts\<close> on the database, and the
  service of \<open>src/enterprise/business.ts\<close> that runs a support turn for a conversation of the caller's
  scope. The repository is the business store of the runtime: the interpretation of
  \<open>support_business_store\<close> shows that it keeps the contract. Rows are typed, so the conversions
  of the source that reject malformed rows are the identity.
\<close>

section \<open>The repository\<close>

definition findConversationById :: "db \<Rightarrow> jstring \<Rightarrow> conversation option" where
  "findConversationById d c = List.find (\<lambda>x. cv_id x = c) (db_conversations d)"

definition createConversation :: "db \<Rightarrow> conversation \<Rightarrow> db \<times> (error, conversation) result" where
  "createConversation d c =
     (if list_ex (\<lambda>x. cv_id x = cv_id c) (db_conversations d) \<or> \<not> has_store d (cv_tenantId c) (cv_storeId c)
      then (d, Inl ''constraint violation'')
      else (d\<lparr>db_conversations := db_conversations d @ [c]\<rparr>, Inr c))"

definition setConversationPiSession :: "db \<Rightarrow> jstring \<Rightarrow> jstring \<Rightarrow> date \<Rightarrow> db \<times> (error, unit) result" where
  "setConversationPiSession d c sid now =
     (d\<lparr>db_conversations := update_where (\<lambda>x. cv_id x = c)
          (\<lambda>x. x\<lparr>cv_piSessionId := Some sid, cv_updatedAt := now\<rparr>) (db_conversations d)\<rparr>,
      if count_where (\<lambda>x. cv_id x = c) (db_conversations d) \<noteq> 1
      then Inl ''Conversation not found while persisting Pi session mapping.'' else Inr ())"

definition listConversations :: "db \<Rightarrow> jstring \<Rightarrow> jstring \<Rightarrow> conversation list" where
  "listConversations d t s = newest_first (db_collate d) cv_createdAt cv_id
     (filter (\<lambda>x. cv_tenantId x = t \<and> cv_storeId x = s) (db_conversations d))"

definition db_findTicket :: "db \<Rightarrow> jstring \<Rightarrow> jstring \<Rightarrow> persistent_ticket option" where
  "db_findTicket d t k = List.find (\<lambda>x. tk_tenantId x = t \<and> tk_idempotencyKey x = k) (db_tickets d)"

text \<open>The default of the identifier column: a prefix and a random UUID.\<close>

definition ticket_row :: "db \<Rightarrow> new_ticket \<Rightarrow> persistent_ticket" where
  "ticket_row d n =
     \<lparr>tk_id = js ''ticket-'' @ uuid d, tk_tenantId = nt_tenantId n, tk_storeId = nt_storeId n,
      tk_summary = nt_summary n, tk_idempotencyKey = nt_idempotencyKey n,
      tk_conversationId = nt_conversationId n, tk_createdAt = db_now d\<rparr>"

text \<open>
  \<open>INSERT ... ON CONFLICT (tenant_id, idempotency_key) DO NOTHING\<close>; the insertion fails on a taken
  identifier, an unknown store and a conversation of another scope.
\<close>

definition db_createTicket :: "db \<Rightarrow> new_ticket \<Rightarrow> db \<times> (error, persistent_ticket \<times> bool) result" where
  "db_createTicket d n =
     (case db_findTicket d (nt_tenantId n) (nt_idempotencyKey n) of
        Some existing \<Rightarrow> (d, Inr (existing, True))
      | None \<Rightarrow>
          if list_ex (\<lambda>x. tk_id x = tk_id (ticket_row d n)) (db_tickets d) \<or>
            \<not> has_store d (nt_tenantId n) (nt_storeId n) \<or>
            \<not> has_conversation d (nt_conversationId n) (nt_tenantId n) (nt_storeId n)
          then (d, Inl ''constraint violation'')
          else (draw (d\<lparr>db_tickets := db_tickets d @ [ticket_row d n]\<rparr>), Inr (ticket_row d n, False)))"

definition db_findHandoff :: "db \<Rightarrow> jstring \<Rightarrow> jstring \<Rightarrow> jstring \<Rightarrow> support_handoff option" where
  "db_findHandoff d t s c =
     List.find (\<lambda>x. ho_tenantId x = t \<and> ho_storeId x = s \<and> ho_conversationId x = c) (db_handoffs d)"

definition handoff_row :: "db \<Rightarrow> new_handoff \<Rightarrow> support_handoff" where
  "handoff_row d n =
     \<lparr>ho_id = js ''handoff-'' @ uuid d, ho_tenantId = nh_tenantId n, ho_storeId = nh_storeId n,
      ho_conversationId = nh_conversationId n, ho_reason = nh_reason n, ho_createdAt = db_now d\<rparr>"

definition db_createHandoff :: "db \<Rightarrow> new_handoff \<Rightarrow> db \<times> (error, support_handoff \<times> bool) result" where
  "db_createHandoff d n =
     (case db_findHandoff d (nh_tenantId n) (nh_storeId n) (nh_conversationId n) of
        Some existing \<Rightarrow> (d, Inr (existing, True))
      | None \<Rightarrow>
          if list_ex (\<lambda>x. ho_id x = ho_id (handoff_row d n)) (db_handoffs d) \<or>
            \<not> has_store d (nh_tenantId n) (nh_storeId n) \<or>
            \<not> has_conversation d (nh_conversationId n) (nh_tenantId n) (nh_storeId n)
          then (d, Inl ''constraint violation'')
          else (draw (d\<lparr>db_handoffs := db_handoffs d @ [handoff_row d n]\<rparr>), Inr (handoff_row d n, False)))"

definition audit_row :: "db \<Rightarrow> jstring \<Rightarrow> jstring \<Rightarrow> jstring \<Rightarrow> json \<Rightarrow> audit_event" where
  "audit_row d t s c payload =
     \<lparr>ae_id = js ''audit-'' @ uuid d, ae_tenantId = t, ae_storeId = s, ae_conversationId = c,
      ae_payload = payload, ae_createdAt = db_now d\<rparr>"

definition recordAudit :: "db \<Rightarrow> jstring \<Rightarrow> jstring \<Rightarrow> jstring \<Rightarrow> json \<Rightarrow> db \<times> (error, unit) result" where
  "recordAudit d t s c payload =
     (if list_ex (\<lambda>x. ae_id x = ae_id (audit_row d t s c payload)) (db_audit d) \<or> \<not> has_store d t s \<or>
        \<not> has_conversation d c t s
      then (d, Inl ''constraint violation'')
      else (draw (d\<lparr>db_audit := db_audit d @ [audit_row d t s c payload]\<rparr>), Inr ()))"

definition listTickets :: "db \<Rightarrow> jstring \<Rightarrow> jstring \<Rightarrow> persistent_ticket list" where
  "listTickets d t s = newest_first (db_collate d) tk_createdAt tk_id
     (filter (\<lambda>x. tk_tenantId x = t \<and> tk_storeId x = s) (db_tickets d))"

definition listHandoffs :: "db \<Rightarrow> jstring \<Rightarrow> jstring \<Rightarrow> support_handoff list" where
  "listHandoffs d t s = newest_first (db_collate d) ho_createdAt ho_id
     (filter (\<lambda>x. ho_tenantId x = t \<and> ho_storeId x = s) (db_handoffs d))"

text \<open>\<open>auditEventFromRow\<close> refuses a payload that is no object.\<close>

definition audit_event_of :: "audit_event \<Rightarrow> (error, audit_event) result" where
  "audit_event_of x = (case ae_payload x of JObj _ \<Rightarrow> Inr x
     | _ \<Rightarrow> Inl ''Database audit event has invalid payload.'')"

definition listAuditEvents :: "db \<Rightarrow> jstring \<Rightarrow> jstring \<Rightarrow> (error, audit_event list) result" where
  "listAuditEvents d t s = map_result audit_event_of (newest_first (db_collate d) ae_createdAt ae_id
     (filter (\<lambda>x. ae_tenantId x = t \<and> ae_storeId x = s) (db_audit d)))"

definition postgres_business :: "db business_ops" where
  "postgres_business =
     \<lparr>bo_findTicket = (\<lambda>d t k. Inr (db_findTicket d t k)), bo_createTicket = db_createTicket,
      bo_findHandoff = (\<lambda>d t s c. Inr (db_findHandoff d t s c)), bo_createHandoff = db_createHandoff,
      bo_recordAudit = recordAudit\<rparr>"

lemma postgres_business_simps [simp]:
  "bo_findTicket postgres_business d t k = Inr (db_findTicket d t k)"
  "bo_createTicket postgres_business = db_createTicket"
  "bo_findHandoff postgres_business d t s c = Inr (db_findHandoff d t s c)"
  "bo_createHandoff postgres_business = db_createHandoff"
  "bo_recordAudit postgres_business = recordAudit"
  by (simp_all add: postgres_business_def)

subsection \<open>Invariant\<close>

text \<open>
  The unique keys of the business tables, and their foreign keys into the conversations: a
  record belongs to the scope of its conversation.
\<close>

definition ticket_index :: "persistent_ticket \<Rightarrow> jstring \<times> jstring" where
  "ticket_index x = (tk_tenantId x, tk_idempotencyKey x)"

definition handoff_index :: "support_handoff \<Rightarrow> jstring \<times> jstring \<times> jstring" where
  "handoff_index x = (ho_tenantId x, ho_storeId x, ho_conversationId x)"

definition business_ok :: "db \<Rightarrow> bool" where
  "business_ok d \<longleftrightarrow>
     distinct (map cv_id (db_conversations d)) \<and>
     distinct (map tk_id (db_tickets d)) \<and> distinct (map ticket_index (db_tickets d)) \<and>
     distinct (map ho_id (db_handoffs d)) \<and> distinct (map handoff_index (db_handoffs d)) \<and>
     (\<forall>x \<in> set (db_conversations d). has_store d (cv_tenantId x) (cv_storeId x)) \<and>
     (\<forall>x \<in> set (db_tickets d). has_conversation d (tk_conversationId x) (tk_tenantId x) (tk_storeId x)) \<and>
     (\<forall>x \<in> set (db_handoffs d). has_conversation d (ho_conversationId x) (ho_tenantId x) (ho_storeId x)) \<and>
     (\<forall>x \<in> set (db_audit d). has_conversation d (ae_conversationId x) (ae_tenantId x) (ae_storeId x))"

lemma business_frame [simp]:
  "has_store (draw d) = has_store d" "has_conversation (draw d) = has_conversation d"
  "has_store (d\<lparr>db_tickets := ts\<rparr>) = has_store d" "has_conversation (d\<lparr>db_tickets := ts\<rparr>) = has_conversation d"
  "has_store (d\<lparr>db_handoffs := hs\<rparr>) = has_store d" "has_conversation (d\<lparr>db_handoffs := hs\<rparr>) = has_conversation d"
  "has_store (d\<lparr>db_audit := es\<rparr>) = has_store d" "has_conversation (d\<lparr>db_audit := es\<rparr>) = has_conversation d"
  "has_store (d\<lparr>db_conversations := cs\<rparr>) = has_store d"
  by (simp_all add: fun_eq_iff has_store_def has_conversation_def draw_def)

lemma draw_tables [simp]:
  "db_tickets (draw d) = db_tickets d" "db_handoffs (draw d) = db_handoffs d"
  "db_conversations (draw d) = db_conversations d" "db_audit (draw d) = db_audit d"
  "db_bookings (draw d) = db_bookings d" "db_memberships (draw d) = db_memberships d"
  "db_availability (draw d) = db_availability d" "db_stores (draw d) = db_stores d"
  "db_users (draw d) = db_users d" "db_inbound (draw d) = db_inbound d" "db_bindings (draw d) = db_bindings d"
  "db_notifications (draw d) = db_notifications d" "db_customerInbound (draw d) = db_customerInbound d"
  "db_customers (draw d) = db_customers d" "db_channels (draw d) = db_channels d"
  "db_now (draw d) = db_now d" "db_collate (draw d) = db_collate d"
  by (simp_all add: draw_def)

lemma ticket_row_fields [simp]:
  "tk_tenantId (ticket_row d n) = nt_tenantId n" "tk_storeId (ticket_row d n) = nt_storeId n"
  "tk_conversationId (ticket_row d n) = nt_conversationId n"
  "tk_idempotencyKey (ticket_row d n) = nt_idempotencyKey n" "tk_summary (ticket_row d n) = nt_summary n"
  by (simp_all add: ticket_row_def)

lemma handoff_row_fields [simp]:
  "ho_tenantId (handoff_row d n) = nh_tenantId n" "ho_storeId (handoff_row d n) = nh_storeId n"
  "ho_conversationId (handoff_row d n) = nh_conversationId n" "ho_reason (handoff_row d n) = nh_reason n"
  by (simp_all add: handoff_row_def)

lemma audit_row_fields [simp]:
  "ae_tenantId (audit_row d t s c p) = t" "ae_storeId (audit_row d t s c p) = s"
  "ae_conversationId (audit_row d t s c p) = c" "ae_payload (audit_row d t s c p) = p"
  by (simp_all add: audit_row_def)

lemma db_findTicket_None: "db_findTicket d t k = None \<longleftrightarrow> (t, k) \<notin> ticket_index ` set (db_tickets d)"
  by (auto simp: db_findTicket_def find_None_iff ticket_index_def)

lemma db_findTicket_Some: "db_findTicket d t k = Some x \<Longrightarrow> x \<in> set (db_tickets d) \<and> tk_tenantId x = t \<and> tk_idempotencyKey x = k"
  unfolding db_findTicket_def by (drule find_Some_iff') simp

lemma db_findHandoff_None: "db_findHandoff d t s c = None \<longleftrightarrow> (t, s, c) \<notin> handoff_index ` set (db_handoffs d)"
  by (auto simp: db_findHandoff_def find_None_iff handoff_index_def)

lemma db_findHandoff_Some:
  "db_findHandoff d t s c = Some x \<Longrightarrow>
     x \<in> set (db_handoffs d) \<and> ho_tenantId x = t \<and> ho_storeId x = s \<and> ho_conversationId x = c"
  unfolding db_findHandoff_def by (drule find_Some_iff') simp

lemma db_createTicket_cases:
  assumes "db_createTicket d n = (d', r)"
  obtains (existing) x where "db_findTicket d (nt_tenantId n) (nt_idempotencyKey n) = Some x" "d' = d" "r = Inr (x, True)"
  | (refused) "d' = d" "r = Inl ''constraint violation''"
  | (inserted) "db_findTicket d (nt_tenantId n) (nt_idempotencyKey n) = None"
      "tk_id (ticket_row d n) \<notin> tk_id ` set (db_tickets d)"
      "has_conversation d (nt_conversationId n) (nt_tenantId n) (nt_storeId n)"
      "d' = draw (d\<lparr>db_tickets := db_tickets d @ [ticket_row d n]\<rparr>)" "r = Inr (ticket_row d n, False)"
proof (cases "db_findTicket d (nt_tenantId n) (nt_idempotencyKey n)")
  case None
  show thesis
  proof (cases "d' = d \<and> r = Inl ''constraint violation''")
    case True
    then show thesis by (metis refused)
  next
    case False
    with None assms show thesis
      by - (rule inserted, auto simp: db_createTicket_def list_ex_iff split: if_split_asm)
  qed
next
  case (Some x)
  show thesis by (rule existing) (use Some assms in \<open>auto simp: db_createTicket_def\<close>)
qed

lemma db_createHandoff_cases:
  assumes "db_createHandoff d n = (d', r)"
  obtains (existing) x where "db_findHandoff d (nh_tenantId n) (nh_storeId n) (nh_conversationId n) = Some x"
      "d' = d" "r = Inr (x, True)"
  | (refused) "d' = d" "r = Inl ''constraint violation''"
  | (inserted) "db_findHandoff d (nh_tenantId n) (nh_storeId n) (nh_conversationId n) = None"
      "ho_id (handoff_row d n) \<notin> ho_id ` set (db_handoffs d)"
      "has_conversation d (nh_conversationId n) (nh_tenantId n) (nh_storeId n)"
      "d' = draw (d\<lparr>db_handoffs := db_handoffs d @ [handoff_row d n]\<rparr>)" "r = Inr (handoff_row d n, False)"
proof (cases "db_findHandoff d (nh_tenantId n) (nh_storeId n) (nh_conversationId n)")
  case None
  show thesis
  proof (cases "d' = d \<and> r = Inl ''constraint violation''")
    case True
    then show thesis by (metis refused)
  next
    case False
    with None assms show thesis
      by - (rule inserted, auto simp: db_createHandoff_def list_ex_iff split: if_split_asm)
  qed
next
  case (Some x)
  show thesis by (rule existing) (use Some assms in \<open>auto simp: db_createHandoff_def\<close>)
qed

lemma business_ok_createTicket:
  assumes ok: "business_ok d" and "db_createTicket d n = (d', r)"
  shows "business_ok d'"
  using assms(2)
proof (cases rule: db_createTicket_cases)
  case inserted
  then have "(nt_tenantId n, nt_idempotencyKey n) \<notin> ticket_index ` set (db_tickets d)"
    by (simp add: db_findTicket_None)
  then show ?thesis using ok inserted(2-4)
    by (auto simp: business_ok_def ticket_index_def)
qed (use ok in simp_all)

lemma business_ok_createHandoff:
  assumes ok: "business_ok d" and "db_createHandoff d n = (d', r)"
  shows "business_ok d'"
  using assms(2)
proof (cases rule: db_createHandoff_cases)
  case inserted
  then have "(nh_tenantId n, nh_storeId n, nh_conversationId n) \<notin> handoff_index ` set (db_handoffs d)"
    by (simp add: db_findHandoff_None)
  then show ?thesis using ok inserted(2-4)
    by (auto simp: business_ok_def handoff_index_def)
qed (use ok in simp_all)

lemma business_ok_recordAudit: "business_ok d \<Longrightarrow> business_ok (fst (recordAudit d t s c p))"
  by (auto simp: business_ok_def recordAudit_def)

lemma business_ok_createConversation:
  assumes ok: "business_ok d" shows "business_ok (fst (createConversation d c))"
proof (cases "list_ex (\<lambda>x. cv_id x = cv_id c) (db_conversations d) \<or> \<not> has_store d (cv_tenantId c) (cv_storeId c)")
  case False
  have mono: "has_conversation d i t s \<Longrightarrow> has_conversation (d\<lparr>db_conversations := db_conversations d @ [c]\<rparr>) i t s" for i t s
    by (auto simp: has_conversation_def)
  show ?thesis using ok False unfolding business_ok_def
    by (auto simp: createConversation_def list_ex_iff intro: mono)
qed (use ok in \<open>simp_all add: createConversation_def\<close>)

lemma business_ok_setPiSession:
  assumes "business_ok d" shows "business_ok (fst (setConversationPiSession d c sid now))"
proof -
  let ?d = "fst (setConversationPiSession d c sid now)"
  have h: "has_conversation ?d = has_conversation d" "has_store ?d = has_store d"
    by (simp_all add: fun_eq_iff has_conversation_def has_store_def setConversationPiSession_def list_ex_update_where)
  have "map cv_id (db_conversations ?d) = map cv_id (db_conversations d)"
    by (simp add: setConversationPiSession_def map_update_where)
  moreover have "db_tickets ?d = db_tickets d" "db_handoffs ?d = db_handoffs d" "db_audit ?d = db_audit d"
    by (simp_all add: setConversationPiSession_def)
  moreover have "\<forall>x \<in> set (db_conversations ?d). has_store d (cv_tenantId x) (cv_storeId x)"
    using assms by (auto simp: business_ok_def setConversationPiSession_def set_update_where)
  ultimately show ?thesis using assms by (simp add: business_ok_def h)
qed

interpretation postgres: support_business_store postgres_business business_ok
proof (unfold_locales, goal_cases)
  case (1 d n d' x dup)
  then have run: "db_createTicket d n = (d', Inr (x, dup))" by simp
  have "tk_tenantId x = nt_tenantId n \<and> tk_idempotencyKey x = nt_idempotencyKey n \<and>
      db_findTicket d' (nt_tenantId n) (nt_idempotencyKey n) = Some x"
    using run
  proof (cases rule: db_createTicket_cases)
    case (existing y)
    then show ?thesis using db_findTicket_Some [OF existing(1)] by simp
  next
    case inserted
    then show ?thesis by (simp add: db_findTicket_def find_append)
  qed simp
  then show ?case using business_ok_createTicket [OF 1(1) run] by simp
next
  case (2 d n d' x)
  then have "db_createTicket d n = (d', Inr (x, False))" by simp
  then show ?case by (cases rule: db_createTicket_cases) simp_all
next
  case (3 d n x)
  then show ?case by (simp add: db_createTicket_def)
next
  case (4 d m d' h dup)
  then have run: "db_createHandoff d m = (d', Inr (h, dup))" by simp
  have "ho_tenantId h = nh_tenantId m \<and> ho_storeId h = nh_storeId m \<and> ho_conversationId h = nh_conversationId m \<and>
      db_findHandoff d' (nh_tenantId m) (nh_storeId m) (nh_conversationId m) = Some h"
    using run
  proof (cases rule: db_createHandoff_cases)
    case (existing y)
    then show ?thesis using db_findHandoff_Some [OF existing(1)] by simp
  next
    case inserted
    then show ?thesis by (simp add: db_findHandoff_def find_append)
  qed simp
  then show ?case using business_ok_createHandoff [OF 4(1) run] by simp
qed

section \<open>The support service\<close>

datatype service_error = Conversation_not_found | Conversation_conflict | Failed error

definition resolveConversation ::
  "db \<Rightarrow> jstring \<Rightarrow> jstring \<Rightarrow> jstring \<Rightarrow> jstring \<Rightarrow> date \<Rightarrow> db \<times> (service_error, conversation) result" where
  "resolveConversation d t s c customer now =
     (case findConversationById d c of
        None \<Rightarrow> (case createConversation d
            \<lparr>cv_id = c, cv_tenantId = t, cv_storeId = s, cv_customerId = customer, cv_piSessionId = None,
             cv_createdAt = now, cv_updatedAt = now\<rparr> of
            (d', Inl e) \<Rightarrow> (d', Inl (Failed e)) | (d', Inr x) \<Rightarrow> (d', Inr x))
      | Some x \<Rightarrow>
          if cv_tenantId x \<noteq> t \<or> cv_storeId x \<noteq> s then (d, Inl Conversation_not_found)
          else if cv_customerId x \<noteq> customer then (d, Inl Conversation_conflict)
          else (d, Inr x))"

definition runtimeRequest :: "jstring \<Rightarrow> jstring \<Rightarrow> jstring \<Rightarrow> exec_context \<Rightarrow> support_request" where
  "runtimeRequest c customer body ctx =
     \<lparr>rq_conversationId = c, rq_tenantId = scope_tenantId ctx, rq_storeId = scope_storeId ctx,
      rq_customerId = customer, rq_text = body, rq_requestId = Some (request_requestId ctx),
      rq_permissions = Some ((if Ticket_create \<in> set (actor_capabilities ctx) then [js ''tickets:write''] else []) @
         (if Handoff_create \<in> set (actor_capabilities ctx) then [js ''handoff:write''] else [])),
      rq_mayEscalate = Some (Handoff_create \<in> set (actor_capabilities ctx)), rq_requiresEscalation = None\<rparr>"

text \<open>The runtime port is a parameter: it runs one turn and may write the business tables.\<close>

definition respond_for ::
  "(db \<Rightarrow> support_request \<Rightarrow> db \<times> (error, support_result) result) \<Rightarrow> db \<Rightarrow> exec_context \<Rightarrow>
     jstring \<Rightarrow> jstring \<Rightarrow> jstring \<Rightarrow> date \<Rightarrow> date \<Rightarrow> db \<times> (service_error, support_result) result" where
  "respond_for run d ctx c customer body now later =
     (case resolveConversation d (scope_tenantId ctx) (scope_storeId ctx) c customer now of
        (d1, Inl e) \<Rightarrow> (d1, Inl e)
      | (d1, Inr _) \<Rightarrow> (case run d1 (runtimeRequest c customer body ctx) of
            (d2, Inl e) \<Rightarrow> (d2, Inl (Failed e))
          | (d2, Inr res) \<Rightarrow> (case setConversationPiSession d2 c (sr_piSessionId res) later of
                (d3, Inl e) \<Rightarrow> (d3, Inl (Failed e))
              | (d3, Inr _) \<Rightarrow> (d3, Inr res))))"

definition list_conversations_for :: "db \<Rightarrow> exec_context \<Rightarrow> conversation list" where
  "list_conversations_for d ctx = listConversations d (scope_tenantId ctx) (scope_storeId ctx)"

definition list_tickets_for :: "db \<Rightarrow> exec_context \<Rightarrow> persistent_ticket list" where
  "list_tickets_for d ctx = listTickets d (scope_tenantId ctx) (scope_storeId ctx)"

definition list_handoffs_for :: "db \<Rightarrow> exec_context \<Rightarrow> support_handoff list" where
  "list_handoffs_for d ctx = listHandoffs d (scope_tenantId ctx) (scope_storeId ctx)"

definition list_audit_for :: "db \<Rightarrow> exec_context \<Rightarrow> (error, audit_event list) result" where
  "list_audit_for d ctx =
     (if Audit_read \<notin> set (actor_capabilities ctx) then Inl ''Audit read permission denied.''
      else listAuditEvents d (scope_tenantId ctx) (scope_storeId ctx))"

text \<open>What identifies a conversation: no update of the program changes it.\<close>

definition owner_of :: "conversation \<Rightarrow> jstring \<times> jstring \<times> jstring \<times> jstring" where
  "owner_of x = (cv_id x, cv_tenantId x, cv_storeId x, cv_customerId x)"

lemma findConversation_owner:
  assumes "map owner_of (db_conversations d') = map owner_of (db_conversations d)"
  shows "map_option owner_of (findConversationById d' c) = map_option owner_of (findConversationById d c)"
proof -
  have "map_option owner_of (List.find (\<lambda>x. cv_id x = c) xs) = List.find (\<lambda>o'. fst o' = c) (map owner_of xs)" for xs
    by (induction xs) (auto simp: owner_of_def)
  then show ?thesis using assms by (simp add: findConversationById_def)
qed

lemma resolveConversation_Inr:
  assumes "resolveConversation d t s c customer now = (d', Inr x)"
  shows "map_option owner_of (findConversationById d' c) = Some (c, t, s, customer)"
proof (cases "findConversationById d c")
  case None
  then have "\<forall>x \<in> set (db_conversations d). cv_id x \<noteq> c"
    by (auto simp: findConversationById_def find_None_iff)
  with None assms show ?thesis
    by (auto simp: resolveConversation_def createConversation_def findConversationById_def find_append owner_of_def
        split: if_split_asm)
next
  case (Some y)
  then have "cv_id y = c" unfolding findConversationById_def by (drule_tac find_Some_iff') simp
  with Some assms show ?thesis
    by (auto simp: resolveConversation_def owner_of_def split: if_split_asm)
qed

section \<open>Properties\<close>

text \<open>
  C2. A turn writes no record that its request does not permit. Without the permission to write tickets there is no new
  ticket, neither in the runtime's store nor in the tickets of the database; and where the request may not escalate or lacks
  the handoff permission, and its text carries no safety risk, there is no new handoff in either. This holds at every
  moment of the turn, while tool calls, the handoff or the audit record are awaited and after the turn has returned, with
  the database as its business store or with none. The audit record of the turn is not covered: it is written for every request.
\<close>

theorem unauthorized_turn_writes_nothing:
  assumes "store_ok s" and "op_business opts = None \<or> op_business opts = Some postgres_business"
    and "turn_run opts es (policyCheck opts now (startTurn opts r s d h ms now)) = Some t"
  shows "(\<not> hasPermission r ''tickets:write'' \<longrightarrow>
       ss_tickets (tn_store t) = ss_tickets s \<and> db_tickets (tn_business t) = db_tickets d) \<and>
    ((rq_mayEscalate r \<noteq> Some True \<or> \<not> hasPermission r ''handoff:write'') \<and> detectSafetyRisk (rq_text r) = None \<longrightarrow>
       ss_handoffs (tn_store t) = ss_handoffs s \<and> db_handoffs (tn_business t) = db_handoffs d)"
proof -
  have "views_ok opts db_tickets db_handoffs" using assms(2)
    by (auto simp: views_ok_def db_createTicket_def db_createHandoff_def recordAudit_def split: option.split)
  from turn_writes_permitted [OF assms(1,3) this] show ?thesis by (auto simp: mayTicket_def mayHandoff_def)
qed

text \<open>
  The agent of a request without permissions tries to create a ticket: the call is blocked, the turn returns, and its
  audit record is the only row it leaves.
\<close>

definition demo_unpermitted :: "db turn" where
  "demo_unpermitted = (demo_start postgres_business demo_db [])\<lparr>tn_promptStarted := True, tn_toolCalls := 1\<rparr>"

lemma demo_unpermitted_run:
  "turn_run (demo_options postgres_business) [Ev_prompt, Ev_before demo_call 6] (demo_start postgres_business demo_db []) =
     Some demo_unpermitted"
  by (simp add: turn_step_def demo_call_def demo_unpermitted_def beforeToolCall_def checkDeadline_def is_cached_check_def
      hasPermission_def demo_request_def)

theorem unauthorized_turn_writes_nothing_witness:
  "\<exists>t res. turn_run (demo_options postgres_business)
      ([Ev_prompt, Ev_before demo_call 6] @ [Ev_conclude demo_info None, Ev_audit])
      (policyCheck (demo_options postgres_business) 0
        (startTurn (demo_options postgres_business) (demo_request []) (newSupportStore []) demo_db
          (\<lambda>_. faq_evidence demo_faq) [] 0)) = Some t \<and> tn_phase t = Run_returned res \<and>
     ss_tickets (tn_store t) = [] \<and> db_tickets (tn_business t) = [] \<and>
     ss_handoffs (tn_store t) = [] \<and> db_handoffs (tn_business t) = []"
proof -
  have phase: "tn_phase demo_unpermitted = Serving" "tn_request demo_unpermitted = demo_request []"
    by (simp_all add: demo_unpermitted_def)
  have aud: "\<exists>d. bo_recordAudit postgres_business (tn_business demo_unpermitted) (js ''t'') (js ''s'') (js ''c'') p = (d, Inr ())" for p
    by (simp add: demo_unpermitted_def recordAudit_def demo_db_def has_store_def has_conversation_def)
  obtain t res where t: "turn_run (demo_options postgres_business) [Ev_conclude demo_info None, Ev_audit] demo_unpermitted = Some t"
    "tn_phase t = Run_returned res"
    using demo_end [OF phase demo_options_fields(1) aud, of None] by blast
  have run: "turn_run (demo_options postgres_business)
      ([Ev_prompt, Ev_before demo_call 6] @ [Ev_conclude demo_info None, Ev_audit])
      (policyCheck (demo_options postgres_business) 0
        (startTurn (demo_options postgres_business) (demo_request []) (newSupportStore []) demo_db
          (\<lambda>_. faq_evidence demo_faq) [] 0)) = Some t"
    unfolding demo_start_def [symmetric] demo_checked turn_run_append demo_unpermitted_run by (simp only: option.case t)
  have none: "\<not> hasPermission (demo_request []) p" "ss_tickets (newSupportStore []) = []" "ss_handoffs (newSupportStore []) = []"
    "db_tickets demo_db = []" "db_handoffs demo_db = []" for p
    by (simp_all add: hasPermission_def demo_request_def newSupportStore_def demo_db_def)
  show ?thesis
    using unauthorized_turn_writes_nothing [OF newSupportStore_ok _ run] none t(2) run by (auto simp: demo_text demo_risk)
qed

text \<open>
  C12. Tickets exist once per tenant and idempotency key, whatever is created and in whatever order: a
  creation that succeeds leaves exactly one ticket under the key, the one it returns; every later
  creation under the key returns the same ticket as a duplicate and writes nothing; and the
  ticket belongs to the scope of an existing conversation.
\<close>

theorem tickets_exist_once:
  assumes "business_ok d" and "db_createTicket d n = (d', Inr (x, dup))"
    and "nt_tenantId m = nt_tenantId n" and "nt_idempotencyKey m = nt_idempotencyKey n"
  shows "filter (\<lambda>y. tk_tenantId y = nt_tenantId n \<and> tk_idempotencyKey y = nt_idempotencyKey n) (db_tickets d') = [x] \<and>
    db_createTicket d' m = (d', Inr (x, True)) \<and>
    has_conversation d' (tk_conversationId x) (tk_tenantId x) (tk_storeId x)"
proof -
  have ok: "business_ok d'" using business_ok_createTicket [OF assms(1,2)] .
  have found: "db_findTicket d' (nt_tenantId n) (nt_idempotencyKey n) = Some x"
    using postgres.ticket_created [OF assms(1), of n d' x dup] assms(2) by simp
  then have x: "x \<in> set (db_tickets d')" "tk_tenantId x = nt_tenantId n" "tk_idempotencyKey x = nt_idempotencyKey n"
    using db_findTicket_Some by blast+
  have one: "distinct (map ticket_index ys) \<Longrightarrow> x \<in> set ys \<Longrightarrow>
      filter (\<lambda>y. tk_tenantId y = tk_tenantId x \<and> tk_idempotencyKey y = tk_idempotencyKey x) ys = [x]" for ys
    using filter_distinct_key [of ticket_index ys x] by (simp add: ticket_index_def)
  have "db_createTicket d' m = (d', Inr (x, True))"
    using found assms(3,4) by (simp add: db_createTicket_def)
  moreover have "has_conversation d' (tk_conversationId x) (tk_tenantId x) (tk_storeId x)"
    using ok x(1) unfolding business_ok_def by blast
  moreover have "distinct (map ticket_index (db_tickets d'))" using ok unfolding business_ok_def by blast
  ultimately show ?thesis using one [of "db_tickets d'"] x by simp
qed

definition demo_new_ticket :: new_ticket where
  "demo_new_ticket = \<lparr>nt_tenantId = js ''t'', nt_storeId = js ''s'', nt_conversationId = js ''c'',
     nt_summary = js ''x'', nt_idempotencyKey = js ''k''\<rparr>"

lemma demo_business_ok: "business_ok demo_db"
  by (simp add: business_ok_def demo_db_def has_store_def)

theorem tickets_exist_once_witness:
  "let (d, r) = db_createTicket demo_db demo_new_ticket in
     (\<exists>x. r = Inr (x, False) \<and> db_createTicket d demo_new_ticket = (d, Inr (x, True)))"
proof -
  have run: "db_createTicket demo_db demo_new_ticket =
      (draw (demo_db\<lparr>db_tickets := [ticket_row demo_db demo_new_ticket]\<rparr>), Inr (ticket_row demo_db demo_new_ticket, False))"
    by (simp add: db_createTicket_def db_findTicket_def demo_db_def demo_new_ticket_def has_store_def has_conversation_def)
  show ?thesis using tickets_exist_once [OF demo_business_ok run refl refl] by (simp add: run)
qed

text \<open>
  C13. A caller reaches only conversations of its own scope and customer: a turn for a conversation of
  another tenant or store is refused as not found, one for another customer as a conflict, in
  both cases before the runtime is entered and with nothing written; and a turn that returns
  leaves the conversation owned by the caller's scope and customer, bound to the session of the
  result, provided the runtime itself leaves the owners of conversations alone.
\<close>

theorem respond_isolates_conversations:
  assumes run: "\<And>e q. map owner_of (db_conversations (fst (run e q))) = map owner_of (db_conversations e)"
  shows "(\<forall>x. findConversationById d c = Some x \<longrightarrow>
      (cv_tenantId x, cv_storeId x) \<noteq> (scope_tenantId ctx, scope_storeId ctx) \<longrightarrow>
      respond_for run d ctx c customer body now later = (d, Inl Conversation_not_found)) \<and>
    (\<forall>x. findConversationById d c = Some x \<longrightarrow>
      (cv_tenantId x, cv_storeId x) = (scope_tenantId ctx, scope_storeId ctx) \<longrightarrow> cv_customerId x \<noteq> customer \<longrightarrow>
      respond_for run d ctx c customer body now later = (d, Inl Conversation_conflict)) \<and>
    (\<forall>res d'. respond_for run d ctx c customer body now later = (d', Inr res) \<longrightarrow>
      (\<exists>x. findConversationById d' c = Some x \<and>
        owner_of x = (c, scope_tenantId ctx, scope_storeId ctx, customer) \<and>
        cv_piSessionId x = Some (sr_piSessionId res)))"
proof (intro conjI allI impI)
  fix res d'
  assume "respond_for run d ctx c customer body now later = (d', Inr res)"
  then obtain d1 x d2 where r: "resolveConversation d (scope_tenantId ctx) (scope_storeId ctx) c customer now = (d1, Inr x)"
    "run d1 (runtimeRequest c customer body ctx) = (d2, Inr res)"
    "setConversationPiSession d2 c (sr_piSessionId res) later = (d', Inr ())"
    by (auto simp: respond_for_def split: prod.splits sum.splits)
  have "map_option owner_of (findConversationById d2 c) = Some (c, scope_tenantId ctx, scope_storeId ctx, customer)"
    using resolveConversation_Inr [OF r(1)] findConversation_owner [of d2 d1 c] run [of d1 "runtimeRequest c customer body ctx"] r(2)
    by simp
  then obtain y where y: "findConversationById d2 c = Some y"
    "owner_of y = (c, scope_tenantId ctx, scope_storeId ctx, customer)" by auto
  have "findConversationById d' c =
      map_option (\<lambda>x. if cv_id x = c then x\<lparr>cv_piSessionId := Some (sr_piSessionId res), cv_updatedAt := later\<rparr> else x)
        (findConversationById d2 c)"
    using r(3) by (auto simp: setConversationPiSession_def findConversationById_def find_update_where)
  with y show "\<exists>x. findConversationById d' c = Some x \<and>
        owner_of x = (c, scope_tenantId ctx, scope_storeId ctx, customer) \<and>
        cv_piSessionId x = Some (sr_piSessionId res)"
    by (auto simp: owner_of_def)
qed (auto simp: respond_for_def resolveConversation_def)

definition demo_run :: "db \<Rightarrow> support_request \<Rightarrow> db \<times> (error, support_result) result" where
  "demo_run d q = (d, Inr \<lparr>sr_policyDecision = None, sr_type = Fallback_outcome, sr_text = [], sr_piSessionId = js ''p'',
     sr_toolsCalled = [], sr_sessionEvents = [], sr_evidence = []\<rparr>)"

theorem respond_isolates_conversations_witness:
  "respond_for demo_run demo_db (demo_supervisor\<lparr>scope_storeId := js ''other''\<rparr>) (js ''c'') (js ''k'') [] 0 0 =
     (demo_db, Inl Conversation_not_found) \<and>
   snd (respond_for demo_run demo_db demo_supervisor (js ''c'') (js ''z'') [] 0 0) = Inl Conversation_conflict"
proof -
  have run: "\<And>e q. map owner_of (db_conversations (fst (demo_run e q))) = map owner_of (db_conversations e)"
    by (simp add: demo_run_def)
  have found: "findConversationById demo_db (js ''c'') = Some \<lparr>cv_id = js ''c'', cv_tenantId = js ''t'',
      cv_storeId = js ''s'', cv_customerId = js ''k'', cv_piSessionId = None, cv_createdAt = 0, cv_updatedAt = 0\<rparr>"
    by (simp add: findConversationById_def demo_db_def)
  show ?thesis
    using respond_isolates_conversations [of demo_run demo_db "js ''c''" "demo_supervisor\<lparr>scope_storeId := js ''other''\<rparr>" "js ''k''" "[]" 0 0, OF run]
      respond_isolates_conversations [of demo_run demo_db "js ''c''" demo_supervisor "js ''z''" "[]" 0 0, OF run]
    unfolding found by (simp add: demo_supervisor_def)
qed

text \<open>
  Roles decide what a turn may write: the request that the service derives from a membership lets
  the runtime create tickets for every role and handoffs exactly for supervisors and
  administrators, always under the tenant and store of the membership, and only an administrator
  reads the audit events.
\<close>

theorem runtime_permissions_follow_role:
  "let ctx = createSupportExecutionContext m rid; r = runtimeRequest c customer body ctx in
     hasPermission r ''tickets:write'' \<and>
     (hasPermission r ''handoff:write'' \<longleftrightarrow> mem_role m \<noteq> Agent) \<and>
     rq_mayEscalate r = Some (mem_role m \<noteq> Agent) \<and>
     (rq_tenantId r, rq_storeId r) = (mem_tenantId m, mem_storeId m) \<and>
     (mem_role m \<noteq> Admin \<longleftrightarrow> list_audit_for d ctx = Inl ''Audit read permission denied.'')"
proof -
  have "map_result audit_event_of xs \<noteq> Inl ''Audit read permission denied.''" for xs
  proof (induction xs)
    case (Cons x xs)
    have "audit_event_of x = Inr x \<or> audit_event_of x = Inl ''Database audit event has invalid payload.''"
      by (simp add: audit_event_of_def split: json.splits)
    with Cons show ?case by (cases "map_result audit_event_of xs") auto
  qed simp
  then show ?thesis
    by (cases "mem_role m") (simp_all add: createSupportExecutionContext_def runtimeRequest_def hasPermission_def
        list_audit_for_def listAuditEvents_def)
qed

end
