(* ===== verification/StoreOps.thy ===== *)
theory StoreOps
  imports Business
begin

text \<open>
  \<open>StoreOpsService\<close> of \<open>src/storeops/postgres.ts\<close>: the availability of the staff and the booking
  intents of a store. A transaction is a function on the database that also gives its result; the
  locks of the source make transactions on the same rows take turns, and a failing transaction
  is rolled back. \<open>own\<close> tells whether the repository opens its own transaction or works
  inside one of its caller, where an error leaves the rollback to the caller. An INTEGER column
  holds at most \<open>2 ^ 31 - 1\<close> and a date or timestamp has a year from 1 on: beyond, the database
  refuses the statement. \<open>known\<close> tells the time zones of the host, \<open>zone\<close> the configured zone of
  a store and \<open>sha\<close> is SHA-256 in hexadecimal.
\<close>

section \<open>Transactions\<close>

type_synonym 'a tx = "db \<Rightarrow> db \<times> (storeops_error, 'a) result"

definition transaction :: "bool \<Rightarrow> 'a tx \<Rightarrow> 'a tx" where
  "transaction own operation d =
     (if own then (case operation d of (d', Inr x) \<Rightarrow> (d', Inr x) | (_, Inl e) \<Rightarrow> (d, Inl e))
      else operation d)"

definition authorized :: "bool \<Rightarrow> exec_context \<Rightarrow> capability \<Rightarrow> (membership \<Rightarrow> 'a tx) \<Rightarrow> 'a tx" where
  "authorized own ctx cap operation d =
     (if cap \<notin> set (actor_capabilities ctx) then (d, Inl Forbidden)
      else transaction own (\<lambda>d.
        case filter (\<lambda>m. mem_userId m = actor_userId ctx) (db_memberships d) of
          [actor] \<Rightarrow>
            if mem_tenantId actor \<noteq> scope_tenantId ctx \<or> mem_storeId actor \<noteq> scope_storeId ctx \<or>
              mem_role actor \<noteq> actor_role ctx \<or> cap \<notin> set (capabilitiesForRole (mem_role actor))
            then (d, Inl Forbidden) else operation actor d
        | _ \<Rightarrow> (d, Inl Forbidden)) d)"

definition scopedStaff :: "db \<Rightarrow> exec_context \<Rightarrow> jstring \<Rightarrow> bool" where
  "scopedStaff d ctx i = has_member d i (scope_tenantId ctx) (scope_storeId ctx)"

definition pg_date_ok :: "jstring \<Rightarrow> bool" where
  "pg_date_ok s \<longleftrightarrow> year_of (take 10 s) \<ge> 1"

definition pg_interval_ok :: "(jstring \<times> jstring) option \<Rightarrow> bool" where
  "pg_interval_ok iv = (case iv of None \<Rightarrow> True | Some (a, b) \<Rightarrow> pg_date_ok a \<and> pg_date_ok b)"

definition max_int4 :: int where
  "max_int4 = 2 ^ 31 - 1"

definition display_name :: "db \<Rightarrow> jstring \<Rightarrow> jstring option" where
  "display_name d m =
     (case List.find (\<lambda>x. mem_id x = m) (db_memberships d) of None \<Rightarrow> None
      | Some x \<Rightarrow> map_option user_displayName (List.find (\<lambda>u. user_id u = mem_userId x) (db_users d)))"

definition user_of :: "db \<Rightarrow> jstring \<Rightarrow> jstring option" where
  "user_of d m = map_option mem_userId (List.find (\<lambda>x. mem_id x = m) (db_memberships d))"

section \<open>Availability\<close>

record availability_dto =
  ad_id :: jstring
  ad_staffMembershipId :: jstring
  ad_staffDisplayName :: jstring
  ad_localDate :: jstring
  ad_timeZone :: jstring
  ad_windows :: "window list"
  ad_status :: jstring
  ad_version :: int
  ad_updatedAt :: jstring

definition availability :: "availability_row \<Rightarrow> jstring \<Rightarrow> availability_dto" where
  "availability r name =
     \<lparr>ad_id = av_id r, ad_staffMembershipId = av_staff r, ad_staffDisplayName = name,
      ad_localDate = av_date r, ad_timeZone = av_timeZone r, ad_windows = av_windows r,
      ad_status = av_status r, ad_version = av_version r, ad_updatedAt = toISOString (av_updatedAt r)\<rparr>"

definition listAvailability ::
  "bool \<Rightarrow> (jstring \<Rightarrow> bool) \<Rightarrow> (jstring \<Rightarrow> jstring \<Rightarrow> jstring option) \<Rightarrow> exec_context \<Rightarrow> jstring \<Rightarrow>
     (availability_dto list \<times> (jstring \<times> jstring) list \<times> jstring) tx" where
  "listAvailability own known zone ctx date d =
     (case validateDate (Some (JStr date)) of
        Inl e \<Rightarrow> (d, Inl e)
      | Inr _ \<Rightarrow> authorized own ctx Storeops_read (\<lambda>actor d.
          case validateTimeZone known (zone (scope_tenantId ctx) (scope_storeId ctx)) of
            Inl e \<Rightarrow> (d, Inl e)
          | Inr timeZone \<Rightarrow>
              if \<not> pg_date_ok date then (d, Inl Database_failure)
              else (d, Inr
                (List.map_filter (\<lambda>r. map_option (availability r) (display_name d (av_staff r)))
                   (sort_by (\<lambda>a b. db_collate d (av_staff a) (av_staff b))
                     (filter (\<lambda>r. av_tenantId r = scope_tenantId ctx \<and> av_storeId r = scope_storeId ctx \<and> av_date r = date)
                       (db_availability d))),
                 List.map_filter (\<lambda>m. map_option (\<lambda>n. (mem_id m, n)) (display_name d (mem_id m)))
                   (sort_by (\<lambda>a b. db_collate d (mem_id a) (mem_id b))
                     (filter (\<lambda>m. mem_tenantId m = scope_tenantId ctx \<and> mem_storeId m = scope_storeId ctx)
                       (db_memberships d))),
                 timeZone))) d)"

text \<open>
  The status is sent to a text column: an array that passed the validation becomes an array
  literal there, which the CHECK of the column refuses.
\<close>

definition status_column :: "json \<Rightarrow> jstring option" where
  "status_column v = (case v of JStr s \<Rightarrow> Some s | _ \<Rightarrow> None)"

definition availability_at :: "exec_context \<Rightarrow> jstring \<Rightarrow> jstring \<Rightarrow> availability_row \<Rightarrow> bool" where
  "availability_at ctx staff date r \<longleftrightarrow> av_tenantId r = scope_tenantId ctx \<and> av_storeId r = scope_storeId ctx \<and>
     av_staff r = staff \<and> av_date r = date"

definition write_availability ::
  "exec_context \<Rightarrow> jstring \<Rightarrow> jstring \<Rightarrow> jstring \<Rightarrow> availability_write \<Rightarrow> jstring \<Rightarrow> membership \<Rightarrow>
     availability_row option tx" where
  "write_availability ctx staff date timeZone data status actor d =
     (if aw_expectedVersion data = 0
      then (if list_ex (availability_at ctx staff date) (db_availability d) then (d, Inr None)
        else let r = \<lparr>av_id = uuid d, av_tenantId = scope_tenantId ctx, av_storeId = scope_storeId ctx,
              av_staff = staff, av_date = date, av_timeZone = timeZone, av_windows = aw_windows data,
              av_status = status, av_version = 1, av_updatedBy = mem_id actor, av_updatedAt = db_now d\<rparr>
          in if list_ex (\<lambda>x. av_id x = av_id r) (db_availability d) \<or>
              \<not> has_store d (scope_tenantId ctx) (scope_storeId ctx)
            then (d, Inl Database_failure)
            else (draw (d\<lparr>db_availability := db_availability d @ [r]\<rparr>), Inr (Some r)))
      else if aw_expectedVersion data > max_int4 then (d, Inl Database_failure)
      else (case List.find (\<lambda>r. availability_at ctx staff date r \<and> av_version r = aw_expectedVersion data) (db_availability d) of
          None \<Rightarrow> (d, Inr None)
        | Some r \<Rightarrow>
            if av_version r = max_int4 then (d, Inl Database_failure)
            else let f = (\<lambda>r. r\<lparr>av_timeZone := timeZone, av_windows := aw_windows data, av_status := status,
                av_updatedBy := mem_id actor, av_version := av_version r + 1, av_updatedAt := db_now d\<rparr>)
              in (d\<lparr>db_availability := update_where
                    (\<lambda>r. availability_at ctx staff date r \<and> av_version r = aw_expectedVersion data) f (db_availability d)\<rparr>,
                  Inr (Some (f r)))))"

definition put_in ::
  "(jstring \<Rightarrow> bool) \<Rightarrow> (jstring \<Rightarrow> jstring \<Rightarrow> jstring option) \<Rightarrow> exec_context \<Rightarrow> jstring \<Rightarrow> jstring \<Rightarrow>
     availability_write \<Rightarrow> membership \<Rightarrow> availability_dto tx" where
  "put_in known zone ctx staff date data actor d =
     (case validateTimeZone known (zone (scope_tenantId ctx) (scope_storeId ctx)) of
        Inl e \<Rightarrow> (d, Inl e)
      | Inr timeZone \<Rightarrow>
          if \<not> scopedStaff d ctx staff then (d, Inl Not_found)
          else (case status_column (aw_status data) of
              None \<Rightarrow> (d, Inl Database_failure)
            | Some status \<Rightarrow>
                if \<not> pg_date_ok date then (d, Inl Database_failure)
                else (case write_availability ctx staff date timeZone data status actor d of
                    (d', Inl e) \<Rightarrow> (d', Inl e)
                  | (d', Inr None) \<Rightarrow> (d', Inl Availability_conflict)
                  | (d', Inr (Some r)) \<Rightarrow> (case display_name d' staff of
                        None \<Rightarrow> (d', Inl Database_failure)
                      | Some name \<Rightarrow> (d', Inr (availability r name))))))"

definition putAvailability ::
  "bool \<Rightarrow> (jstring \<Rightarrow> bool) \<Rightarrow> (jstring \<Rightarrow> jstring \<Rightarrow> jstring option) \<Rightarrow> exec_context \<Rightarrow> jstring \<Rightarrow> jstring \<Rightarrow>
     json \<Rightarrow> availability_dto tx" where
  "putAvailability own known zone ctx staff date input d =
     (case boundedId (Some (JStr staff)) of
        Inl e \<Rightarrow> (d, Inl e)
      | Inr _ \<Rightarrow> (case parseAvailabilityWrite date input of
          Inl e \<Rightarrow> (d, Inl e)
        | Inr data \<Rightarrow> authorized own ctx Availability_write (put_in known zone ctx staff date data) d))"

section \<open>Booking intents\<close>

record booking_dto =
  bd_id :: jstring
  bd_conversationId :: jstring
  bd_customerId :: jstring
  bd_requestedService :: jstring
  bd_requested :: "(jstring \<times> jstring) option"
  bd_preferredStaff :: "jstring option"
  bd_status :: booking_status
  bd_alternative :: "(jstring \<times> jstring) option"
  bd_confirmed :: "(jstring \<times> jstring) option"
  bd_createdByUserId :: jstring
  bd_version :: int
  bd_createdAt :: jstring
  bd_updatedAt :: jstring

definition booking :: "booking_row \<Rightarrow> jstring \<Rightarrow> booking_dto" where
  "booking b creator =
     \<lparr>bd_id = bk_id b, bd_conversationId = bk_conversationId b, bd_customerId = bk_customerId b,
      bd_requestedService = bk_requestedService b, bd_requested = bk_requested b,
      bd_preferredStaff = bk_preferredStaff b, bd_status = bk_status b, bd_alternative = bk_alternative b,
      bd_confirmed = bk_confirmed b, bd_createdByUserId = creator, bd_version = bk_version b,
      bd_createdAt = toISOString (bk_createdAt b), bd_updatedAt = toISOString (bk_updatedAt b)\<rparr>"

definition TOpt :: "jstring option \<Rightarrow> jtext" where
  "TOpt x = (case x of None \<Rightarrow> TNull | Some s \<Rightarrow> TStr s)"

definition booking_request :: "booking_create \<Rightarrow> jstring option \<Rightarrow> membership \<Rightarrow> jtext" where
  "booking_request data binding actor =
     TArr [TStr (bc_conversationId data), TStr (bc_requestedService data),
       TOpt (map_option fst (bc_requested data)), TOpt (map_option snd (bc_requested data)),
       TOpt (bc_preferredStaffMembershipId data), TOpt binding, TStr (mem_id actor)]"

definition booking_key :: "exec_context \<Rightarrow> jstring \<Rightarrow> booking_row \<Rightarrow> bool" where
  "booking_key ctx key b \<longleftrightarrow> bk_tenantId b = scope_tenantId ctx \<and> bk_storeId b = scope_storeId ctx \<and>
     bk_idempotencyKey b = key"

definition new_booking ::
  "exec_context \<Rightarrow> jstring \<Rightarrow> booking_create \<Rightarrow> jstring \<Rightarrow> jstring option \<Rightarrow> jstring \<Rightarrow> membership \<Rightarrow> db \<Rightarrow> booking_row" where
  "new_booking ctx key data customer binding h actor d =
     \<lparr>bk_id = uuid d, bk_tenantId = scope_tenantId ctx, bk_storeId = scope_storeId ctx,
      bk_conversationId = bc_conversationId data, bk_customerId = customer, bk_channelBindingId = binding,
      bk_requestedService = bc_requestedService data, bk_requested = bc_requested data,
      bk_preferredStaff = bc_preferredStaffMembershipId data, bk_status = Pending_confirmation,
      bk_alternative = None, bk_confirmed = None, bk_createdBy = mem_id actor, bk_updatedBy = mem_id actor,
      bk_idempotencyKey = key, bk_requestHash = h, bk_version = 1,
      bk_createdAt = db_now d, bk_updatedAt = db_now d\<rparr>"

definition insert_booking :: "exec_context \<Rightarrow> booking_row \<Rightarrow> booking_row option tx" where
  "insert_booking ctx b d =
     (let t = scope_tenantId ctx; s = scope_storeId ctx in
      if \<not> pg_interval_ok (bk_requested b) then (d, Inl Database_failure)
      else if list_ex (booking_key ctx (bk_idempotencyKey b)) (db_bookings d) then (d, Inr None)
      else if list_ex (\<lambda>x. bk_id x = bk_id b) (db_bookings d) \<or> \<not> has_store d t s \<or>
        \<not> has_customer_conversation d (bk_conversationId b) t s (bk_customerId b) \<or>
        (case bk_channelBindingId b of None \<Rightarrow> False | Some c \<Rightarrow> \<not> has_binding d c t s)
      then (d, Inl Database_failure)
      else (draw (d\<lparr>db_bookings := db_bookings d @ [b]\<rparr>), Inr (Some b)))"

definition inbound_bindings :: "db \<Rightarrow> exec_context \<Rightarrow> jstring \<Rightarrow> jstring list" where
  "inbound_bindings d ctx c = remdups (List.map_filter ib_bindingId
     (filter (\<lambda>i. ib_scope i = Some (scope_tenantId ctx, scope_storeId ctx) \<and> ib_conversationId i = Some c) (db_inbound d)))"

definition first_of :: "'a list \<Rightarrow> 'a option" where
  "first_of xs = (case xs of [] \<Rightarrow> None | x # _ \<Rightarrow> Some x)"

definition create_in ::
  "(jstring \<Rightarrow> jstring) \<Rightarrow> exec_context \<Rightarrow> jstring \<Rightarrow> booking_create \<Rightarrow> membership \<Rightarrow> (booking_dto \<times> bool) tx" where
  "create_in sha ctx key data actor d =
     (case List.find (\<lambda>c. cv_tenantId c = scope_tenantId ctx \<and> cv_storeId c = scope_storeId ctx \<and>
         cv_id c = bc_conversationId data) (db_conversations d) of
        None \<Rightarrow> (d, Inl Not_found)
      | Some cv \<Rightarrow>
          if (case bc_preferredStaffMembershipId data of None \<Rightarrow> False | Some m \<Rightarrow> \<not> scopedStaff d ctx m)
          then (d, Inl Not_found)
          else if length (inbound_bindings d ctx (bc_conversationId data)) > 1 then (d, Inl Booking_intent_conflict)
          else (let binding = first_of (inbound_bindings d ctx (bc_conversationId data));
                    h = sha (stringify (booking_request data binding actor))
            in case insert_booking ctx (new_booking ctx key data (cv_customerId cv) binding h actor d) d of
                 (d', Inl e) \<Rightarrow> (d', Inl e)
               | (d', Inr inserted) \<Rightarrow>
                   (case (case inserted of Some b \<Rightarrow> Some b
                          | None \<Rightarrow> List.find (booking_key ctx key) (db_bookings d')) of
                      None \<Rightarrow> (d', Inl Booking_intent_conflict)
                    | Some existing \<Rightarrow>
                        if bk_requestHash existing \<noteq> h then (d', Inl Booking_intent_conflict)
                        else (d', Inr (booking existing (mem_userId actor), inserted = None)))))"

definition createBookingIntent ::
  "bool \<Rightarrow> (jstring \<Rightarrow> jstring) \<Rightarrow> exec_context \<Rightarrow> jstring \<Rightarrow> json \<Rightarrow> (booking_dto \<times> bool) tx" where
  "createBookingIntent own sha ctx key input d =
     (case boundedId (Some (JStr key)) of
        Inl e \<Rightarrow> (d, Inl e)
      | Inr _ \<Rightarrow> (case parseBookingCreate input of
          Inl e \<Rightarrow> (d, Inl e)
        | Inr data \<Rightarrow> authorized own ctx Booking_create (create_in sha ctx key data) d))"

definition booking_at :: "exec_context \<Rightarrow> jstring \<Rightarrow> booking_row \<Rightarrow> bool" where
  "booking_at ctx i b \<longleftrightarrow> bk_tenantId b = scope_tenantId ctx \<and> bk_storeId b = scope_storeId ctx \<and> bk_id b = i"

definition may_cancel :: "exec_context \<Rightarrow> membership \<Rightarrow> booking_row \<Rightarrow> bool" where
  "may_cancel ctx actor b \<longleftrightarrow>
     (Booking_manage \<in> set (actor_capabilities ctx) \<and> Booking_manage \<in> set (capabilitiesForRole (mem_role actor))) \<or>
     (bk_createdBy b = mem_id actor \<and> bk_status b = Pending_confirmation)"

definition apply_transition :: "transition \<Rightarrow> membership \<Rightarrow> date \<Rightarrow> booking_row \<Rightarrow> booking_row" where
  "apply_transition u actor now b =
     b\<lparr>bk_status := tr_status u,
       bk_alternative := (case tr_alternative u of None \<Rightarrow> bk_alternative b | Some iv \<Rightarrow> Some iv),
       bk_confirmed := (case tr_confirmed u of None \<Rightarrow> bk_confirmed b | Some iv \<Rightarrow> Some iv),
       bk_updatedBy := mem_id actor, bk_version := bk_version b + 1, bk_updatedAt := now\<rparr>"

definition transition_in :: "exec_context \<Rightarrow> jstring \<Rightarrow> booking_transition \<Rightarrow> membership \<Rightarrow> booking_dto tx" where
  "transition_in ctx i data actor d =
     (case List.find (booking_at ctx i) (db_bookings d) of
        None \<Rightarrow> (d, Inl Not_found)
      | Some existing \<Rightarrow>
          if is_action (bt_action data) ''cancel'' \<and> \<not> may_cancel ctx actor existing then (d, Inl Forbidden)
          else if bk_version existing \<noteq> bt_expectedVersion data then (d, Inl Booking_intent_conflict)
          else if (case bk_preferredStaff existing of None \<Rightarrow> False | Some m \<Rightarrow> \<not> scopedStaff d ctx m)
          then (d, Inl Not_found)
          else (case resolveTransition (bk_status existing) (map_option fst (bk_alternative existing))
                (map_option snd (bk_alternative existing)) data of
              Inl e \<Rightarrow> (d, Inl e)
            | Inr u \<Rightarrow>
                if \<not> pg_interval_ok (tr_alternative u) \<or> \<not> pg_interval_ok (tr_confirmed u) \<or>
                  bk_version existing = max_int4
                then (d, Inl Database_failure)
                else (let d' = d\<lparr>db_bookings := update_where (\<lambda>b. booking_at ctx i b \<and>
                        bk_version b = bt_expectedVersion data \<and> bk_status b = bk_status existing)
                        (apply_transition u actor (db_now d)) (db_bookings d)\<rparr>
                  in case user_of d' (bk_createdBy existing) of
                       None \<Rightarrow> (d', Inl Database_failure)
                     | Some creator \<Rightarrow> (d', Inr (booking (apply_transition u actor (db_now d) existing) creator)))))"

definition transitionBookingIntent :: "bool \<Rightarrow> exec_context \<Rightarrow> jstring \<Rightarrow> json \<Rightarrow> booking_dto tx" where
  "transitionBookingIntent own ctx i input d =
     (case boundedId (Some (JStr i)) of
        Inl e \<Rightarrow> (d, Inl e)
      | Inr _ \<Rightarrow> (case parseBookingTransition input of
          Inl e \<Rightarrow> (d, Inl e)
        | Inr data \<Rightarrow> authorized own ctx
            (if is_action (bt_action data) ''cancel'' then Booking_create else Booking_manage)
            (transition_in ctx i data) d))"

definition listBookingIntents :: "bool \<Rightarrow> exec_context \<Rightarrow> (booking_dto list \<times> bool) tx" where
  "listBookingIntents own ctx = authorized own ctx Storeops_read (\<lambda>actor d.
     let rows = take 101 (newest_first (db_collate d) (\<lambda>r. bk_createdAt (fst r)) (\<lambda>r. bk_id (fst r))
       (List.map_filter (\<lambda>b. map_option (Pair b) (user_of d (bk_createdBy b)))
         (filter (\<lambda>b. bk_tenantId b = scope_tenantId ctx \<and> bk_storeId b = scope_storeId ctx) (db_bookings d))))
     in (d, Inr (map (\<lambda>(b, u). booking b u) (take 100 rows), length rows > 100)))"

section \<open>Conversations that need attention\<close>

record needs_attention =
  na_conversationId :: jstring
  na_durable :: bool
  na_handoffId :: "jstring option"
  na_lastActivityAt :: jstring

definition latest_audit :: "db \<Rightarrow> conversation \<Rightarrow> audit_event option" where
  "latest_audit d c =
     (case sort_by (\<lambda>x y. ae_createdAt x > ae_createdAt y \<or> (ae_createdAt x = ae_createdAt y \<and> db_collate d (ae_id y) (ae_id x)))
        (filter (\<lambda>x. ae_conversationId x = cv_id c \<and> ae_tenantId x = cv_tenantId c \<and> ae_storeId x = cv_storeId c) (db_audit d)) of
        [] \<Rightarrow> None | x # _ \<Rightarrow> Some x)"

definition audit_outcome :: "audit_event \<Rightarrow> jstring option" where
  "audit_outcome x = (case ae_payload x of
      JObj kvs \<Rightarrow> (case field kvs ''outcome'' of Some (JStr s) \<Rightarrow> Some s | _ \<Rightarrow> None)
    | _ \<Rightarrow> None)"

definition attention_row :: "db \<Rightarrow> conversation \<Rightarrow> (jstring \<times> jstring option \<times> date) option" where
  "attention_row d c =
     (let h = db_findHandoff d (cv_tenantId c) (cv_storeId c) (cv_id c); a = latest_audit d c in
      if h \<noteq> None \<or> (case a of None \<Rightarrow> False | Some x \<Rightarrow> audit_outcome x = Some (js ''fallback''))
      then Some (cv_id c, map_option ho_id h,
        max (cv_updatedAt c) (max (case a of None \<Rightarrow> cv_updatedAt c | Some x \<Rightarrow> ae_createdAt x)
          (case h of None \<Rightarrow> cv_updatedAt c | Some x \<Rightarrow> ho_createdAt x)))
      else None)"

definition listNeedsAttention :: "bool \<Rightarrow> exec_context \<Rightarrow> (needs_attention list \<times> bool) tx" where
  "listNeedsAttention own ctx d =
     (if actor_role ctx = Agent then (d, Inl Forbidden)
      else authorized own ctx Storeops_read (\<lambda>actor d.
        let rows = take 101 (newest_first (db_collate d) (\<lambda>r. snd (snd r)) fst
          (List.map_filter (attention_row d)
            (filter (\<lambda>c. cv_tenantId c = scope_tenantId ctx \<and> cv_storeId c = scope_storeId ctx) (db_conversations d))))
        in (d, Inr (map (\<lambda>(c, h, t). \<lparr>na_conversationId = c, na_durable = (h \<noteq> None), na_handoffId = h,
                na_lastActivityAt = toISOString t\<rparr>) (take 100 rows), length rows > 100))) d)"

end
