(* ===== verification/WebDto.thy ===== *)
theory WebDto
  imports StoreOps
begin

text \<open>
  The data the console takes from the server, \<open>web/src/storeops/dto.ts\<close>, and its authority helpers,
  \<open>web/src/storeops/authority.ts\<close>. The value of a response is what \<open>JSON.parse\<close> gives; a parser returns
  the object it builds, or \<open>None\<close> for \<open>undefined\<close>. The two patterns for times are recognisers on
  code units. \<open>availability_json\<close> and \<open>booking_json\<close> are the objects \<open>availability\<close> and \<open>booking\<close> of the
  server build, as they arrive.
\<close>

section \<open>Elementary checks\<close>

abbreviation isClockTime :: "jstring \<Rightarrow> bool" where
  "isClockTime \<equiv> clock_time"

definition isLocalDate :: "jstring \<Rightarrow> bool" where
  "isLocalDate s \<longleftrightarrow> date_shape s \<and> month_of s \<in> {1..12} \<and> day_of s \<in> {1..31}"

text \<open>\<open>(Z|[+-]\d{2}:\d{2})\<close>, after an optional \<open>(\.\d+)\<close>.\<close>

definition offset_shape :: "jstring \<Rightarrow> bool" where
  "offset_shape z \<longleftrightarrow> z = [90] \<or>
     (length z = 6 \<and> (z ! 0 = 43 \<or> z ! 0 = 45) \<and> z ! 3 = 58 \<and> list_all is_digit (take 2 (drop 1 z) @ drop 4 z))"

definition fraction_and_offset :: "jstring \<Rightarrow> bool" where
  "fraction_and_offset r =
     (case r of
        c # f \<Rightarrow> if c = 46 then takeWhile is_digit f \<noteq> [] \<and> offset_shape (dropWhile is_digit f) else offset_shape r
      | [] \<Rightarrow> False)"

definition isInstant :: "jstring \<Rightarrow> bool" where
  "isInstant s \<longleftrightarrow> date_shape (take 10 s) \<and>
     (let t = drop 10 s in
      length t > 9 \<and> t ! 0 = 84 \<and> t ! 3 = 58 \<and> t ! 6 = 58 \<and>
      list_all is_digit (take 2 (drop 1 t) @ take 2 (drop 4 t) @ take 2 (drop 7 t)) \<and> fraction_and_offset (drop 9 t))"

definition text_at :: "(jstring \<Rightarrow> bool) \<Rightarrow> (jstring \<times> json) list \<Rightarrow> string \<Rightarrow> bool" where
  "text_at ok obj key = (case field obj key of Some (JStr s) \<Rightarrow> ok s | _ \<Rightarrow> False)"

abbreviation isNonemptyString :: "jstring \<Rightarrow> bool" where
  "isNonemptyString s \<equiv> s \<noteq> []"

definition nullable_at :: "(jstring \<Rightarrow> bool) \<Rightarrow> (jstring \<times> json) list \<Rightarrow> string \<Rightarrow> bool" where
  "nullable_at ok obj key \<longleftrightarrow> field obj key = Some JNull \<or> text_at ok obj key"

definition one_of :: "string list \<Rightarrow> jstring \<Rightarrow> bool" where
  "one_of ws s \<longleftrightarrow> s \<in> set (map js ws)"

definition isPositiveInteger :: "json option \<Rightarrow> bool" where
  "isPositiveInteger v = (case v of
      Some (JNum n) \<Rightarrow> (case as_integer n of Some i \<Rightarrow> i > 0 | None \<Rightarrow> False)
    | _ \<Rightarrow> False)"

definition record_of :: "string list \<Rightarrow> json \<Rightarrow> (jstring \<times> json) list option" where
  "record_of allowed v = (case v of JObj obj \<Rightarrow> if keys_exactly obj allowed then Some obj else None | _ \<Rightarrow> None)"

section \<open>Data transfer objects\<close>

definition isAvailabilityWindow :: "json \<Rightarrow> bool" where
  "isAvailabilityWindow v = (case record_of [''start'', ''end''] v of
      None \<Rightarrow> False | Some w \<Rightarrow> text_at isClockTime w ''start'' \<and> text_at isClockTime w ''end'')"

definition windows_at :: "(jstring \<times> json) list \<Rightarrow> bool" where
  "windows_at obj = (case field obj ''windows'' of
      Some (JArr ws) \<Rightarrow> length ws \<le> 24 \<and> list_all isAvailabilityWindow ws | _ \<Rightarrow> False)"

definition isAvailabilityDTO :: "json \<Rightarrow> bool" where
  "isAvailabilityDTO v = (case record_of [''id'', ''staffMembershipId'', ''staffDisplayName'', ''localDate'', ''timeZone'',
        ''windows'', ''status'', ''source'', ''version'', ''updatedAt''] v of
      None \<Rightarrow> False
    | Some obj \<Rightarrow>
        text_at isNonemptyString obj ''id'' \<and> text_at isNonemptyString obj ''staffMembershipId'' \<and>
        text_at isNonemptyString obj ''staffDisplayName'' \<and> text_at isLocalDate obj ''localDate'' \<and>
        text_at isNonemptyString obj ''timeZone'' \<and> windows_at obj \<and>
        text_at (one_of [''published'', ''withdrawn'']) obj ''status'' \<and> text_at (one_of [''human'']) obj ''source'' \<and>
        isPositiveInteger (field obj ''version'') \<and> text_at isInstant obj ''updatedAt'')"

definition isStaffDirectoryEntry :: "json \<Rightarrow> bool" where
  "isStaffDirectoryEntry v = (case record_of [''membershipId'', ''displayName''] v of
      None \<Rightarrow> False
    | Some obj \<Rightarrow> text_at isNonemptyString obj ''membershipId'' \<and> text_at isNonemptyString obj ''displayName'')"

definition parseAvailabilityBoard :: "json \<Rightarrow> json option" where
  "parseAvailabilityBoard v = (case record_of [''items'', ''staff'', ''timeZone''] v of
      None \<Rightarrow> None
    | Some obj \<Rightarrow>
        if \<not> text_at isNonemptyString obj ''timeZone'' then None
        else (case (field obj ''items'', field obj ''staff'', field obj ''timeZone'') of
            (Some (JArr items), Some (JArr staff), Some timeZone) \<Rightarrow>
              if list_all isAvailabilityDTO items \<and> list_all isStaffDirectoryEntry staff
              then Some (JObj [(js ''items'', JArr items), (js ''staff'', JArr staff), (js ''timeZone'', timeZone)])
              else None
          | _ \<Rightarrow> None))"

definition parseAvailabilityDTO :: "json \<Rightarrow> json option" where
  "parseAvailabilityDTO v = (if isAvailabilityDTO v then Some v else None)"

definition isBookingIntentDTO :: "json \<Rightarrow> bool" where
  "isBookingIntentDTO v = (case record_of [''id'', ''conversationId'', ''customerId'', ''requestedService'', ''requestedStart'',
        ''requestedEnd'', ''preferredStaffMembershipId'', ''status'', ''alternativeStart'', ''alternativeEnd'',
        ''confirmedStart'', ''confirmedEnd'', ''createdByUserId'', ''version'', ''createdAt'', ''updatedAt''] v of
      None \<Rightarrow> False
    | Some obj \<Rightarrow>
        text_at isNonemptyString obj ''id'' \<and> text_at isNonemptyString obj ''conversationId'' \<and>
        text_at isNonemptyString obj ''customerId'' \<and> text_at isNonemptyString obj ''requestedService'' \<and>
        nullable_at isInstant obj ''requestedStart'' \<and> nullable_at isInstant obj ''requestedEnd'' \<and>
        nullable_at isNonemptyString obj ''preferredStaffMembershipId'' \<and>
        text_at (one_of [''pending_confirmation'', ''confirmed'', ''alternative_proposed'', ''cancelled'']) obj ''status'' \<and>
        nullable_at isInstant obj ''alternativeStart'' \<and> nullable_at isInstant obj ''alternativeEnd'' \<and>
        nullable_at isInstant obj ''confirmedStart'' \<and> nullable_at isInstant obj ''confirmedEnd'' \<and>
        text_at isNonemptyString obj ''createdByUserId'' \<and> isPositiveInteger (field obj ''version'') \<and>
        text_at isInstant obj ''createdAt'' \<and> text_at isInstant obj ''updatedAt'')"

definition parseBookingIntentDTO :: "json \<Rightarrow> json option" where
  "parseBookingIntentDTO v = (if isBookingIntentDTO v then Some v else None)"

definition isKnowledgeDTO :: "json \<Rightarrow> bool" where
  "isKnowledgeDTO v = (case record_of [''id'', ''kind'', ''title'', ''version'', ''sourceRef'', ''updatedAt'', ''status''] v of
      None \<Rightarrow> False
    | Some obj \<Rightarrow>
        text_at isNonemptyString obj ''id'' \<and> text_at (one_of [''faq'', ''policy'', ''sop'', ''reference'']) obj ''kind'' \<and>
        text_at isNonemptyString obj ''title'' \<and> text_at isNonemptyString obj ''version'' \<and>
        text_at isNonemptyString obj ''sourceRef'' \<and> text_at isInstant obj ''updatedAt'' \<and>
        text_at (one_of [''approved'']) obj ''status'')"

definition isNeedsAttentionDTO :: "json \<Rightarrow> bool" where
  "isNeedsAttentionDTO v = (case record_of [''conversationId'', ''basis'', ''handoffId'', ''lastActivityAt''] v of
      None \<Rightarrow> False
    | Some obj \<Rightarrow>
        text_at isNonemptyString obj ''conversationId'' \<and> text_at (one_of [''fallback'', ''durable_handoff'']) obj ''basis'' \<and>
        nullable_at isNonemptyString obj ''handoffId'' \<and> text_at isInstant obj ''lastActivityAt'')"

definition parseBoundedList :: "(json \<Rightarrow> bool) \<Rightarrow> json \<Rightarrow> json option" where
  "parseBoundedList isItem v = (case v of
      JObj obj \<Rightarrow>
        if \<not> keys_exactly obj (if js ''truncated'' \<in> set (map fst obj) then [''items'', ''truncated''] else [''items''])
        then None
        else (case field obj ''items'' of
            Some (JArr items) \<Rightarrow>
              if \<not> list_all isItem items then None
              else (case field obj ''truncated'' of
                  None \<Rightarrow> Some (JObj [(js ''items'', JArr items)])
                | Some (JBool b) \<Rightarrow> Some (JObj [(js ''items'', JArr items), (js ''truncated'', JBool b)])
                | Some _ \<Rightarrow> None)
          | _ \<Rightarrow> None)
    | _ \<Rightarrow> None)"

definition parseBookingIntentList :: "json \<Rightarrow> json option" where
  "parseBookingIntentList = parseBoundedList isBookingIntentDTO"

definition parseKnowledgeList :: "json \<Rightarrow> json option" where
  "parseKnowledgeList = parseBoundedList isKnowledgeDTO"

definition parseNeedsAttentionList :: "json \<Rightarrow> json option" where
  "parseNeedsAttentionList = parseBoundedList isNeedsAttentionDTO"

section \<open>Drafts of availability\<close>

datatype window_error = Too_many | Bad_format | End_before_start | Overlap

fun validate_from :: "jstring option \<Rightarrow> window list \<Rightarrow> window_error option" where
  "validate_from previousEnd [] = None"
| "validate_from previousEnd ((a, b) # ws) =
     (if \<not> isClockTime a \<or> \<not> isClockTime b then Some Bad_format
      else if b \<le> a then Some End_before_start
      else if previousEnd \<noteq> None \<and> a < the previousEnd then Some Overlap
      else validate_from (Some b) ws)"

definition validateWindows :: "window list \<Rightarrow> window_error option" where
  "validateWindows windows = (if length windows > 24 then Some Too_many else validate_from None windows)"

section \<open>The objects of the server\<close>

definition window_json :: "window \<Rightarrow> json" where
  "window_json w = JObj [(js ''start'', JStr (fst w)), (js ''end'', JStr (snd w))]"

definition availability_json :: "availability_dto \<Rightarrow> json" where
  "availability_json a =
     JObj [(js ''id'', JStr (ad_id a)), (js ''staffMembershipId'', JStr (ad_staffMembershipId a)),
       (js ''staffDisplayName'', JStr (ad_staffDisplayName a)), (js ''localDate'', JStr (ad_localDate a)),
       (js ''timeZone'', JStr (ad_timeZone a)), (js ''windows'', JArr (map window_json (ad_windows a))),
       (js ''status'', JStr (ad_status a)), (js ''source'', JStr (js ''human'')),
       (js ''version'', JNum (Num (of_int (ad_version a)))), (js ''updatedAt'', JStr (ad_updatedAt a))]"

definition JOpt :: "jstring option \<Rightarrow> json" where
  "JOpt x = (case x of None \<Rightarrow> JNull | Some s \<Rightarrow> JStr s)"

fun status_text :: "booking_status \<Rightarrow> jstring" where
  "status_text Pending_confirmation = js ''pending_confirmation''"
| "status_text Confirmed = js ''confirmed''"
| "status_text Alternative_proposed = js ''alternative_proposed''"
| "status_text Cancelled = js ''cancelled''"

definition booking_json :: "booking_dto \<Rightarrow> json" where
  "booking_json b =
     JObj [(js ''id'', JStr (bd_id b)), (js ''conversationId'', JStr (bd_conversationId b)),
       (js ''customerId'', JStr (bd_customerId b)), (js ''requestedService'', JStr (bd_requestedService b)),
       (js ''requestedStart'', JOpt (map_option fst (bd_requested b))),
       (js ''requestedEnd'', JOpt (map_option snd (bd_requested b))),
       (js ''preferredStaffMembershipId'', JOpt (bd_preferredStaff b)), (js ''status'', JStr (status_text (bd_status b))),
       (js ''alternativeStart'', JOpt (map_option fst (bd_alternative b))),
       (js ''alternativeEnd'', JOpt (map_option snd (bd_alternative b))),
       (js ''confirmedStart'', JOpt (map_option fst (bd_confirmed b))),
       (js ''confirmedEnd'', JOpt (map_option snd (bd_confirmed b))),
       (js ''createdByUserId'', JStr (bd_createdByUserId b)), (js ''version'', JNum (Num (of_int (bd_version b)))),
       (js ''createdAt'', JStr (bd_createdAt b)), (js ''updatedAt'', JStr (bd_updatedAt b))]"

definition bookings_json :: "booking_dto list \<times> bool \<Rightarrow> json" where
  "bookings_json r = JObj [(js ''items'', JArr (map booking_json (fst r))), (js ''truncated'', JBool (snd r))]"

section \<open>Authority\<close>

record storeops_actor =
  sa_userId :: jstring
  sa_role :: jstring
  sa_capabilities :: "jstring list"

fun capability_name :: "capability \<Rightarrow> jstring" where
  "capability_name Agent_invoke = js ''agent:invoke''"
| "capability_name Conversation_read = js ''conversation:read''"
| "capability_name Ticket_create = js ''ticket:create''"
| "capability_name Handoff_create = js ''handoff:create''"
| "capability_name Audit_read = js ''audit:read''"
| "capability_name Storeops_read = js ''storeops:read''"
| "capability_name Availability_write = js ''availability:write''"
| "capability_name Booking_create = js ''booking-intent:create''"
| "capability_name Booking_manage = js ''booking-intent:manage''"

text \<open>The actor as the session endpoint shows it.\<close>

definition shown_actor :: "exec_context \<Rightarrow> storeops_actor" where
  "shown_actor ctx = \<lparr>sa_userId = actor_userId ctx, sa_role = role_name (actor_role ctx),
     sa_capabilities = map capability_name (actor_capabilities ctx)\<rparr>"

datatype booking_action = Confirm | Propose_alternative | Cancel

fun action_text :: "booking_action \<Rightarrow> string" where
  "action_text Confirm = ''confirm''"
| "action_text Propose_alternative = ''propose_alternative''"
| "action_text Cancel = ''cancel''"

definition canReadStoreOps :: "storeops_actor \<Rightarrow> bool" where
  "canReadStoreOps actor \<longleftrightarrow> js ''storeops:read'' \<in> set (sa_capabilities actor)"

definition canWriteAvailability :: "storeops_actor \<Rightarrow> bool" where
  "canWriteAvailability actor \<longleftrightarrow> js ''availability:write'' \<in> set (sa_capabilities actor)"

definition canCreateBookingIntent :: "storeops_actor \<Rightarrow> bool" where
  "canCreateBookingIntent actor \<longleftrightarrow> js ''booking-intent:create'' \<in> set (sa_capabilities actor)"

definition canManageBookingIntent :: "storeops_actor \<Rightarrow> bool" where
  "canManageBookingIntent actor \<longleftrightarrow> js ''booking-intent:manage'' \<in> set (sa_capabilities actor)"

definition canViewNeedsAttention :: "storeops_actor \<Rightarrow> bool" where
  "canViewNeedsAttention actor \<longleftrightarrow> canReadStoreOps actor \<and> (sa_role actor = js ''supervisor'' \<or> sa_role actor = js ''admin'')"

definition mayCancel :: "storeops_actor \<Rightarrow> booking_dto \<Rightarrow> bool" where
  "mayCancel actor b =
     (if bd_status b = Cancelled then False
      else if canManageBookingIntent actor
      then bd_status b = Pending_confirmation \<or> bd_status b = Alternative_proposed \<or> bd_status b = Confirmed
      else bd_status b = Pending_confirmation \<and> canCreateBookingIntent actor \<and> bd_createdByUserId b = sa_userId actor)"

definition permittedBookingActions :: "storeops_actor \<Rightarrow> booking_dto \<Rightarrow> booking_action list" where
  "permittedBookingActions actor b =
     (if bd_status b = Cancelled then []
      else filter (\<lambda>action. case action of
          Confirm \<Rightarrow> canManageBookingIntent actor \<and> (bd_status b = Pending_confirmation \<or> bd_status b = Alternative_proposed)
        | Propose_alternative \<Rightarrow> canManageBookingIntent actor \<and> bd_status b = Pending_confirmation
        | Cancel \<Rightarrow> mayCancel actor b) [Confirm, Propose_alternative, Cancel])"

fun bookingActionNeedsInterval :: "booking_action \<Rightarrow> booking_status \<Rightarrow> bool" where
  "bookingActionNeedsInterval Propose_alternative status = True"
| "bookingActionNeedsInterval Cancel status = False"
| "bookingActionNeedsInterval Confirm status = (status = Pending_confirmation)"

end
