(* ===== verification/AppServices.thy ===== *)
theory AppServices
  imports Composition PgIdentity RagProps WebDto
begin

text \<open>
  Two services that \<open>src/enterprise/application.ts\<close> defines itself: the list of the store's private knowledge for the
  console (\<open>storeOpsKnowledge\<close>), and the demonstration runtime that serializes its turns over one scripted provider
  (\<open>SerializedEnterpriseDemoRuntime\<close>).
\<close>

section \<open>The list of knowledge\<close>

text \<open>The rows of the query as \<open>JSON.stringify\<close> writes them.\<close>

definition knowledge_item :: "rag_document \<Rightarrow> json" where
  "knowledge_item d =
     JObj [(js ''id'', JStr (dc_documentId d)), (js ''kind'', JStr (dc_kind d)), (js ''title'', JStr (dc_title d)),
       (js ''version'', JStr (dc_version d)), (js ''sourceRef'', JStr (dc_sourceRef d)),
       (js ''updatedAt'', JStr (dc_updatedDate d @ js ''T00:00:00.000Z'')), (js ''status'', JStr (dc_status d))]"

definition listed :: "exec_context \<Rightarrow> rag_document \<Rightarrow> bool" where
  "listed ctx d \<longleftrightarrow> dc_tenantId d = scope_tenantId ctx \<and> dc_storeId d = scope_storeId ctx \<and> dc_status d = approved \<and> dc_active d"

definition storeOpsKnowledge :: "db \<Rightarrow> registry \<Rightarrow> exec_context \<Rightarrow> (storeops_error, json) result" where
  "storeOpsKnowledge d rg ctx =
     (if Storeops_read \<notin> set (actor_capabilities ctx) then Inl Forbidden
      else (case pg_listMembershipsForUser d (actor_userId ctx) of
          [m] \<Rightarrow>
            if mem_tenantId m \<noteq> scope_tenantId ctx \<or> mem_storeId m \<noteq> scope_storeId ctx \<or> mem_role m \<noteq> actor_role ctx
            then Inl Forbidden
            else Inr (JObj [(js ''items'', JArr (map knowledge_item
              (sort_by (\<lambda>a b. db_collate d (dc_documentId a) (dc_documentId b)) (filter (listed ctx) (rg_documents rg)))))])
        | _ \<Rightarrow> Inl Forbidden))"

subsection \<open>What the console makes of it\<close>

definition tidy_row :: "rag_document \<Rightarrow> bool" where
  "tidy_row d \<longleftrightarrow> dc_documentId d \<noteq> [] \<and> dc_title d \<noteq> [] \<and> dc_version d \<noteq> [] \<and> dc_sourceRef d \<noteq> [] \<and>
     dc_kind d \<in> set kinds \<and> date_shape (dc_updatedDate d) \<and> length (dc_updatedDate d) = 10"

definition tidy :: "registry \<Rightarrow> bool" where
  "tidy rg \<longleftrightarrow> list_all tidy_row (rg_documents rg)"

lemma tidy_retire [simp]: "tidy_row (retire d) = tidy_row d"
  by (simp add: tidy_row_def retire_def)

lemma validIsoDate_shape: "validIsoDate v \<Longrightarrow> date_shape v \<and> length v = 10"
  by (auto simp: validIsoDate_def date_shape_def take_map drop_map)

lemma blank_nonempty: "\<not> blank v \<Longrightarrow> v \<noteq> []"
  by (auto simp: blank_def trim_def trim_start_def trim_end_def)

lemma validateFrom_fields:
  "validateFrom ids es = Inr () \<Longrightarrow> e \<in> set es \<Longrightarrow>
     ke_id e \<noteq> [] \<and> ke_title e \<noteq> [] \<and> ke_version e \<noteq> [] \<and> ke_sourceRef e \<noteq> [] \<and> ke_kind e \<in> set kinds \<and> validIsoDate (ke_updatedAt e)"
proof (induction es arbitrary: ids)
  case (Cons a es)
  then have a: "validateEntry ids a = Inr ()" and es: "validateFrom (ke_id a # ids) es = Inr ()"
    by (auto simp: and_then_Inr)
  show ?case
  proof (cases "e = a")
    case True
    then show ?thesis using a blank_nonempty by (auto simp: validateEntry_def and_then_Inr requiredString_def guard_def split: if_splits)
  next
    case False
    then show ?thesis using Cons.IH [OF es] Cons.prems(2) by simp
  qed
qed simp

lemma register_entry_tidy:
  assumes "tidy rg" "tidy_row (document_row sha scope e)" "register_entry sha scope e rg = Inr rg'"
  shows "tidy rg'"
  using assms by (auto simp: register_entry_def tidy_def list_all_iff split: option.splits if_splits)

lemma register_all_tidy:
  "tidy rg \<Longrightarrow> \<forall>e \<in> set es. tidy_row (document_row sha scope e) \<Longrightarrow> register_all sha scope stops es rg = Inr rg' \<Longrightarrow> tidy rg'"
proof (induction es arbitrary: stops rg)
  case (Cons e es)
  then obtain rg1 where step: "register_entry sha scope e rg = Inr rg1"
    "register_all sha scope (map_option (\<lambda>n. n - 1) stops) es rg1 = Inr rg'" by (auto simp: and_then_Inr split: if_splits)
  have "tidy rg1" by (rule register_entry_tidy [OF Cons.prems(1) _ step(1)]) (use Cons.prems(2) in simp)
  then show ?case by (rule Cons.IH) (use step(2) Cons.prems(2) in simp_all)
qed (auto split: if_splits)

lemma register_tidy:
  assumes "tidy rg" shows "tidy (fst (register sha stops answer entries scope rg))"
proof (cases "validatePrivateRegistration entries scope")
  case (Some es)
  then have es: "es = entries" and v: "validateFrom [] entries = Inr ()"
    by (auto simp: validatePrivateRegistration_def validateKnowledgeEntries_def split: if_splits sum.splits)
  have "tidy_row (document_row sha scope e)" if "e \<in> set entries" for e
    using validateFrom_fields [OF v that] validIsoDate_shape by (simp add: tidy_row_def document_row_def)
  then have "\<forall>e \<in> set (sort_by (\<lambda>a b. ke_id a \<le> ke_id b) es). tidy_row (document_row sha scope e)" by (simp add: es)
  note all = register_all_tidy [OF assms this, of stops]
  then show ?thesis using assms Some
    by (cases "register_all sha scope stops (sort_by (\<lambda>a b. ke_id a \<le> ke_id b) es) rg")
      (auto simp: register_def dest: all split: commit_answer.split)
qed (use assms in \<open>simp add: register_def\<close>)

lemma registry_run_tidy: "registry_run sha rg rg' \<Longrightarrow> tidy rg \<Longrightarrow> tidy rg'"
proof (induction rule: registry_run.induct)
  case (run_register rg rg1 stops answer entries scope)
  then show ?case using register_tidy by blast
qed (simp_all add: tidy_def)


lemma knowledge_item_shown: "tidy_row d \<Longrightarrow> dc_status d = approved \<Longrightarrow> isKnowledgeDTO (knowledge_item d)"
proof -
  assume d: "tidy_row d" "dc_status d = approved"
  then have "isInstant (dc_updatedDate d @ js ''T00:00:00.000Z'')"
    by (auto simp: isInstant_def tidy_row_def js_simps fraction_and_offset_def offset_shape_def is_digit_def)
  then show ?thesis using d
    by (auto simp: isKnowledgeDTO_def knowledge_item_def record_of_def keys_exactly_def keys_within_def text_at_def field_def one_of_def
        tidy_row_def kinds_def approved_def)
qed

definition may_read_knowledge :: "db \<Rightarrow> exec_context \<Rightarrow> bool" where
  "may_read_knowledge d ctx \<longleftrightarrow> Storeops_read \<in> set (actor_capabilities ctx) \<and>
     (\<exists>m. pg_listMembershipsForUser d (actor_userId ctx) = [m] \<and> mem_tenantId m = scope_tenantId ctx \<and>
        mem_storeId m = scope_storeId ctx \<and> mem_role m = actor_role ctx)"

text \<open>
  The console's list of knowledge: whatever was registered, aborted, retired and indexed before, a caller whose only
  membership is still the one of its session gets the active approved documents of its own store, all of
  them, one version of each, in a list that the console's parser accepts as it is; every other
  caller is refused.
\<close>

theorem knowledge_list_understood:
  assumes "registry_run sha rg rg'" and "registry_ok sha rg" and "tidy rg"
  shows "case storeOpsKnowledge d rg' ctx of
      Inl e \<Rightarrow> e = Forbidden \<and> \<not> may_read_knowledge d ctx
    | Inr v \<Rightarrow> may_read_knowledge d ctx \<and> parseKnowledgeList v = Some v \<and>
        (\<exists>rows. v = JObj [(js ''items'', JArr (map knowledge_item rows))] \<and> distinct (map dc_documentId rows) \<and>
           set rows = {x \<in> set (rg_documents rg'). dc_tenantId x = scope_tenantId ctx \<and> dc_storeId x = scope_storeId ctx \<and> dc_active x})"
proof (cases "may_read_knowledge d ctx")
  case False
  then have "storeOpsKnowledge d rg' ctx = Inl Forbidden"
    by (auto simp: storeOpsKnowledge_def may_read_knowledge_def split: list.splits)
  then show ?thesis using False by simp
next
  case True
  have ok: "registry_ok sha rg'" "tidy rg'" using assms registry_run_ok registry_run_tidy by blast+
  define rows where "rows = sort_by (\<lambda>a b. db_collate d (dc_documentId a) (dc_documentId b)) (filter (listed ctx) (rg_documents rg'))"
  have v: "storeOpsKnowledge d rg' ctx = Inr (JObj [(js ''items'', JArr (map knowledge_item rows))])"
    using True by (auto simp: storeOpsKnowledge_def may_read_knowledge_def rows_def)
  have "list_all isKnowledgeDTO (map knowledge_item rows)"
    using ok(2) knowledge_item_shown by (auto simp: rows_def list_all_iff tidy_def listed_def)
  then have "parseKnowledgeList (JObj [(js ''items'', JArr (map knowledge_item rows))]) =
      Some (JObj [(js ''items'', JArr (map knowledge_item rows))])"
    by (simp add: parseKnowledgeList_def parseBoundedList_def keys_exactly_def keys_within_def field_def)
  moreover have "set rows = {x \<in> set (rg_documents rg'). dc_tenantId x = scope_tenantId ctx \<and> dc_storeId x = scope_storeId ctx \<and> dc_active x}"
    using ok(1) by (auto simp: rows_def listed_def registry_ok_def list_all_iff)
  moreover have "distinct (map dc_documentId rows)"
  proof -
    have "distinct (map document_key (filter dc_active (rg_documents rg')))" using ok(1) by (simp add: registry_ok_def)
    then have d: "distinct (filter dc_active (rg_documents rg'))" and "inj_on document_key (set (filter dc_active (rg_documents rg')))"
      by (simp_all add: distinct_map)
    moreover have eq: "filter (listed ctx) (rg_documents rg') = filter (listed ctx) (filter dc_active (rg_documents rg'))"
      by (auto simp: listed_def intro: filter_cong)
    have "distinct (filter (listed ctx) (rg_documents rg'))" by (subst eq) (rule distinct_filter [OF d])
    ultimately have "distinct (map dc_documentId (filter (listed ctx) (rg_documents rg')))"
      unfolding distinct_map inj_on_def by (auto simp: listed_def document_key_def)
    then show ?thesis by (simp add: rows_def distinct_sort_by)
  qed
  ultimately show ?thesis using True v by auto
qed


definition knowledge_reader :: exec_context where
  "knowledge_reader = \<lparr>actor_userId = js ''u1'', actor_role = Supervisor, actor_capabilities = capabilitiesForRole Supervisor,
     scope_tenantId = js ''t'', scope_storeId = js ''s'', request_requestId = js ''r''\<rparr>"

theorem knowledge_list_understood_witness:
  "\<exists>v. storeOpsKnowledge demo_db rag_registered knowledge_reader = Inr v \<and> parseKnowledgeList v = Some v"
proof -
  have run: "registry_run demo_sha rag_empty (fst (register demo_sha None Committed [rag_entry ''1''] rag_scope rag_empty))"
    by (intro run_register run_refl)
  have "tidy rag_empty" by (simp add: tidy_def rag_empty_def)
  note list = knowledge_list_understood [OF run rag_empty_ok this, of demo_db knowledge_reader]
  have "may_read_knowledge demo_db knowledge_reader"
    by (simp add: may_read_knowledge_def knowledge_reader_def pg_listMembershipsForUser_def demo_db_def)
  then show ?thesis using list by (auto simp: rag_register split: sum.splits)
qed

end
