(* ===== verification/CanonicalJson.thy ===== *)
theory CanonicalJson
  imports JsonText
begin

text \<open>
  Canonical JSON and the hash of a population, \<open>evals/job-ready-rag/freeze.ts\<close>; \<open>evals/regression/matrix.ts\<close> has
  the same two functions. The keys of an object are put in as they sort by code units, and the object
  keeps array indices in front of the other keys, by their value. SHA-256 of a text is a parameter.
  A key \<open>__proto__\<close>, which assignment treats apart, does not occur in a population.
\<close>

section \<open>Keys\<close>

fun units_less :: "jstring \<Rightarrow> jstring \<Rightarrow> bool" where
  "units_less _ [] = False"
| "units_less [] (_ # _) = True"
| "units_less (a # as) (b # bs) = (a < b \<or> (a = b \<and> units_less as bs))"

definition units_le :: "jstring \<Rightarrow> jstring \<Rightarrow> bool" where
  "units_le a b \<longleftrightarrow> a = b \<or> units_less a b"

text \<open>The canonical decimal text of a number below \<open>2 ^ 32 - 1\<close>.\<close>

definition array_index :: "jstring \<Rightarrow> nat option" where
  "array_index k =
     (if k \<noteq> [] \<and> list_all is_digit k \<and> k = show_nat (digits_value k) \<and> digits_value k < 2 ^ 32 - 1
      then Some (digits_value k) else None)"

definition key_le :: "jstring \<Rightarrow> jstring \<Rightarrow> bool" where
  "key_le a b =
     (case (array_index a, array_index b) of
        (Some m, Some n) \<Rightarrow> m \<le> n
      | (Some _, None) \<Rightarrow> True
      | (None, Some _) \<Rightarrow> False
      | (None, None) \<Rightarrow> units_le a b)"

section \<open>Canonical values\<close>

definition sort_keys :: "(jstring \<times> 'a) list \<Rightarrow> (jstring \<times> 'a) list" where
  "sort_keys kvs = sort_by (\<lambda>a b. key_le (fst a) (fst b)) kvs"

fun canonicalize :: "jtext \<Rightarrow> jtext" where
  "canonicalize (TArr vs) = TArr (map canonicalize vs)"
| "canonicalize (TObj kvs) = TObj (sort_keys (map (\<lambda>kv. (fst kv, canonicalize (snd kv))) kvs))"
| "canonicalize v = v"

definition canonicalJson :: "jtext \<Rightarrow> jstring" where
  "canonicalJson v = stringify (canonicalize v)"

definition hashPopulation :: "(jstring \<Rightarrow> jstring) \<Rightarrow> jtext \<Rightarrow> jstring" where
  "hashPopulation sha v = sha (canonicalJson v)"

section \<open>Sorted keys\<close>

lemma units_less_irrefl [simp]: "\<not> units_less a a"
  by (induction a) auto

lemma units_less_trans: "units_less a b \<Longrightarrow> units_less b c \<Longrightarrow> units_less a c"
proof (induction a b arbitrary: c rule: units_less.induct)
  case (2 b bs)
  then show ?case by (cases c) auto
next
  case (3 a as b bs)
  then show ?case by (cases c) auto
qed simp

lemma units_less_linear: "units_less a b \<or> a = b \<or> units_less b a"
proof (induction a b rule: units_less.induct)
  case (1 a)
  then show ?case by (cases a) auto
qed auto

lemma units_le_antisym: "units_le a b \<Longrightarrow> units_le b a \<Longrightarrow> a = b"
  unfolding units_le_def using units_less_trans units_less_irrefl by blast

lemma array_index_inject: "array_index a = Some n \<Longrightarrow> array_index b = Some n \<Longrightarrow> a = b"
  by (auto simp: array_index_def split: if_splits)

lemma key_le_total: "key_le a b \<or> key_le b a"
  using units_less_linear [of a b] by (auto simp: key_le_def units_le_def split: option.splits)

lemma key_le_trans: "key_le a b \<Longrightarrow> key_le b c \<Longrightarrow> key_le a c"
  using units_less_trans by (fastforce simp: key_le_def units_le_def split: option.splits)

lemma key_le_antisym: "key_le a b \<Longrightarrow> key_le b a \<Longrightarrow> a = b"
  using units_le_antisym array_index_inject by (fastforce simp: key_le_def split: option.splits)

lemma sorted_sort_keys: "sorted_wrt (\<lambda>a b. key_le (fst a) (fst b)) (sort_keys kvs)"
  unfolding sort_keys_def by (rule sorted_sort_by) (use key_le_total key_le_trans in blast)+

lemma set_sort_keys [simp]: "set (sort_keys kvs) = set kvs"
  by (simp add: sort_keys_def)

lemma length_sort_keys [simp]: "length (sort_keys kvs) = length kvs"
  by (simp add: sort_keys_def)

text \<open>Lists sorted by distinct keys are determined by their elements.\<close>

lemma sorted_unique:
  assumes "sorted_wrt (\<lambda>a b. key_le (fst a) (fst b)) xs" "sorted_wrt (\<lambda>a b. key_le (fst a) (fst b)) ys"
    "distinct (map fst xs)" "distinct (map fst ys)" "set xs = set ys"
  shows "xs = ys"
  using assms
proof (induction xs arbitrary: ys)
  case (Cons x xs)
  then obtain y ys' where ys: "ys = y # ys'" by (cases ys) auto
  have "x = y"
  proof (rule ccontr)
    assume ne: "x \<noteq> y"
    then have "x \<in> set ys'" "y \<in> set xs" using Cons.prems(5) ys by auto
    then have "key_le (fst y) (fst x)" "key_le (fst x) (fst y)" using Cons.prems(1,2) ys by auto
    then have "fst x = fst y" by (rule key_le_antisym [rotated])
    moreover have "fst y \<in> fst ` set xs" using \<open>y \<in> set xs\<close> by simp
    ultimately show False using Cons.prems(3) by simp
  qed
  moreover have "set xs = set ys'" using Cons.prems(3-5) ys \<open>x = y\<close> by (auto simp: image_iff)
  ultimately show ?case using Cons ys by auto
qed simp

lemma distinct_sort_keys:
  assumes "distinct (map fst kvs)" shows "distinct (map fst (sort_keys kvs))"
proof -
  have "set (map fst (sort_keys kvs)) = set (map fst kvs)" "length (map fst (sort_keys kvs)) = length (map fst kvs)"
    by simp_all
  with assms show ?thesis by (metis card_distinct distinct_card)
qed

lemma sort_keys_eq:
  assumes "distinct (map fst a)" "distinct (map fst b)"
  shows "sort_keys a = sort_keys b \<longleftrightarrow> set a = set b"
  using sorted_unique [OF sorted_sort_keys sorted_sort_keys distinct_sort_keys [OF assms(1)] distinct_sort_keys [OF assms(2)]]
    set_sort_keys [of a] set_sort_keys [of b] by metis

section \<open>Values up to the order of keys\<close>

fun text_ok :: "jtext \<Rightarrow> bool" where
  "text_ok (TArr vs) = list_all text_ok vs"
| "text_ok (TObj kvs) = (distinct (map fst kvs) \<and> list_all (\<lambda>kv. text_ok (snd kv)) kvs)"
| "text_ok _ = True"

fun same_json :: "jtext \<Rightarrow> jtext \<Rightarrow> bool" where
  "same_json (TArr vs) w = (case w of TArr ws \<Rightarrow> list_all2 same_json vs ws | _ \<Rightarrow> False)"
| "same_json (TObj kvs) w =
     (case w of
        TObj kws \<Rightarrow> length kvs = length kws \<and>
          list_all (\<lambda>kv. case map_of kws (fst kv) of None \<Rightarrow> False | Some x \<Rightarrow> same_json (snd kv) x) kvs
      | _ \<Rightarrow> False)"
| "same_json v w = (v = w)"


lemma same_fields:
  fixes c :: "'a \<Rightarrow> 'b"
  assumes a: "distinct (map fst a)" and b: "distinct (map fst b)"
  shows "set (map (\<lambda>kv. (fst kv, c (snd kv))) a) = set (map (\<lambda>kv. (fst kv, c (snd kv))) b) \<longleftrightarrow>
    length a = length b \<and> (\<forall>kv \<in> set a. case map_of b (fst kv) of None \<Rightarrow> False | Some x \<Rightarrow> c (snd kv) = c x)"
    (is "set ?fa = set ?fb \<longleftrightarrow> ?rhs")
proof -
  have keys: "map fst ?fa = map fst a" "map fst ?fb = map fst b" by simp_all
  have card: "card (set ?fa) = length a" "card (set ?fb) = length b"
    using a b keys by (metis distinct_card distinct_map length_map)+
  have member: "(k, c v) \<in> set ?fb \<longleftrightarrow> (case map_of b k of None \<Rightarrow> False | Some x \<Rightarrow> c v = c x)" for k v
  proof (cases "map_of b k")
    case None
    then have "k \<notin> fst ` set b" by (simp add: map_of_eq_None_iff)
    then show ?thesis using None by force
  next
    case (Some x)
    then have "(k, y) \<in> set b \<longleftrightarrow> y = x" for y using b by (metis map_of_eq_Some_iff option.inject)
    then show ?thesis using Some by force
  qed
  have sub: "set ?fa \<subseteq> set ?fb \<longleftrightarrow> (\<forall>kv \<in> set a. case map_of b (fst kv) of None \<Rightarrow> False | Some x \<Rightarrow> c (snd kv) = c x)"
  proof -
    have "set ?fa \<subseteq> T \<longleftrightarrow> (\<forall>kv \<in> set a. (fst kv, c (snd kv)) \<in> T)" for T by auto
    then show ?thesis by (simp only: member)
  qed
  show ?thesis
  proof
    assume "set ?fa = set ?fb"
    then show ?rhs using card sub by auto
  next
    assume ?rhs
    then show "set ?fa = set ?fb" using card sub by (intro card_subset_eq) auto
  qed
qed

lemma canonicalize_eq: "text_ok v \<Longrightarrow> text_ok w \<Longrightarrow> canonicalize v = canonicalize w \<longleftrightarrow> same_json v w"
proof (induction v arbitrary: w)
  case (TArr vs)
  show ?case
  proof (cases w)
    case (TArr ws)
    then show ?thesis using TArr.prems TArr.IH
      by (auto simp: list_all2_conv_all_nth list_eq_iff_nth_eq list_all_length)
  qed simp_all
next
  case (TObj kvs)
  show ?case
  proof (cases w)
    case (TObj kws)
    have d: "distinct (map fst kvs)" "distinct (map fst kws)" using TObj.prems TObj by simp_all
    let ?f = "\<lambda>kv :: jstring \<times> jtext. (fst kv, canonicalize (snd kv))"
    have dm: "distinct (map fst (map ?f kvs))" "distinct (map fst (map ?f kws))" using d by (simp_all add: comp_def)
    have same: "canonicalize (snd kv) = canonicalize x \<longleftrightarrow> same_json (snd kv) x"
      if "kv \<in> set kvs" "map_of kws (fst kv) = Some x" for kv x
    proof -
      have "text_ok (snd kv)" "text_ok x"
        using that TObj.prems TObj by (auto simp: list_all_iff dest!: map_of_SomeD)
      then show ?thesis using TObj.IH [OF that(1)] by (cases kv) auto
    qed
    have "canonicalize (TObj kvs) = canonicalize w \<longleftrightarrow> set (map ?f kvs) = set (map ?f kws)"
      using sort_keys_eq [OF dm] TObj by simp
    also have "\<dots> \<longleftrightarrow> length kvs = length kws \<and>
        (\<forall>kv \<in> set kvs. case map_of kws (fst kv) of None \<Rightarrow> False | Some x \<Rightarrow> canonicalize (snd kv) = canonicalize x)"
      by (rule same_fields [OF d])
    also have "\<dots> \<longleftrightarrow> same_json (TObj kvs) w"
      using same TObj by (auto simp: list_all_iff split: option.splits)
    finally show ?thesis .
  qed simp_all
next
  case TNull
  then show ?case by (cases w) auto
next
  case (TStr s)
  then show ?case by (cases w) auto
next
  case (TNat n)
  then show ?case by (cases w) auto
qed

text \<open>
  The hash of a population identifies it: two values have the same canonical text, and so the same hash under
  a collision-free digest, exactly if they are equal up to the order of the keys of their objects.
\<close>

theorem population_hash_identifies:
  assumes "text_ok v" and "text_ok w" and "inj sha"
  shows "hashPopulation sha v = hashPopulation sha w \<longleftrightarrow> same_json v w"
  using canonicalize_eq [OF assms(1,2)] assms(3) by (simp add: hashPopulation_def canonicalJson_def inj_eq)

theorem population_hash_identifies_witness:
  "hashPopulation id (TObj [(js ''b'', TNat 1), (js ''10'', TNull), (js ''9'', TArr [TObj [(js ''y'', TNat 2), (js ''x'', TStr (js ''s''))]])]) =
     hashPopulation id (TObj [(js ''9'', TArr [TObj [(js ''x'', TStr (js ''s'')), (js ''y'', TNat 2)]]), (js ''b'', TNat 1), (js ''10'', TNull)]) \<and>
   hashPopulation id (TObj [(js ''b'', TNat 1)]) \<noteq> hashPopulation id (TObj [(js ''b'', TNat 2)])"
proof
  show "hashPopulation id (TObj [(js ''b'', TNat 1), (js ''10'', TNull), (js ''9'', TArr [TObj [(js ''y'', TNat 2), (js ''x'', TStr (js ''s''))]])]) =
     hashPopulation id (TObj [(js ''9'', TArr [TObj [(js ''x'', TStr (js ''s'')), (js ''y'', TNat 2)]]), (js ''b'', TNat 1), (js ''10'', TNull)])"
    by (subst population_hash_identifies) simp_all
  show "hashPopulation id (TObj [(js ''b'', TNat 1)]) \<noteq> hashPopulation id (TObj [(js ''b'', TNat 2)])"
    by (subst population_hash_identifies) simp_all
qed

end
