(* ===== verification/CompositionProps.thy ===== *)
theory CompositionProps
  imports Composition
begin

text \<open>
  What the composition of an application guarantees: where private knowledge may go, and what becomes of the resources
  when a start fails and when the application is closed.
\<close>

section \<open>Private knowledge\<close>

definition in_scope :: "jstring \<Rightarrow> jstring \<Rightarrow> knowledge_entry \<Rightarrow> bool" where
  "in_scope t s e \<longleftrightarrow> ke_status e = approved \<and> ke_tenantScope e = Some t \<and> ke_storeScope e = Some s"

lemma check_scopes_Inr:
  "check_scopes es = Inr keys \<Longrightarrow> keys = map scope_key es \<and> (\<forall>e \<in> set es. ke_status e = approved \<and> declares_scope e)"
  by (induction es arbitrary: keys) (auto simp: and_then_Inr split: if_splits)

lemma one_key:
  assumes "length (remdups keys) = 1" "k \<in> set keys"
  shows "k = hd keys"
proof -
  from assms(1) obtain a where "remdups keys = [a]" by (cases "remdups keys") auto
  then have a: "set keys = {a}" by (metis set_remdups list.set(1) list.set(2))
  with assms(2) show ?thesis by (cases keys) auto
qed

lemma scope_of_key:
  assumes "declares_scope e" "0 \<notin> set (the (ke_tenantScope e))" "0 \<notin> set (the (ke_storeScope e))"
  shows "ke_tenantScope e = Some (split_on 0 (scope_key e) ! 0)" "ke_storeScope e = Some (split_on 0 (scope_key e) ! 1)"
proof -
  from assms(1) obtain t s where ts: "ke_tenantScope e = Some t" "ke_storeScope e = Some s"
    by (auto simp: declares_scope_def)
  then have "split_on 0 (scope_key e) = [t, s]"
    using assms(2,3) by (simp add: scope_key_def split_on_append split_on_no_sep)
  with ts show "ke_tenantScope e = Some (split_on 0 (scope_key e) ! 0)" "ke_storeScope e = Some (split_on 0 (scope_key e) ! 1)"
    by simp_all
qed

definition plain_scope :: "knowledge_entry \<Rightarrow> bool" where
  "plain_scope e \<longleftrightarrow> 0 \<notin> set (the (ke_tenantScope e)) \<and> 0 \<notin> set (the (ke_storeScope e))"

definition private_of :: "knowledge_entry list \<Rightarrow> private_composition \<Rightarrow> bool" where
  "private_of es c \<longleftrightarrow> es \<noteq> [] \<and> pc_faq c = map toFaqEntry (filter (\<lambda>e. ke_kind e = js ''faq'') es) \<and>
     pc_knowledge c = filter (\<lambda>e. ke_kind e \<noteq> js ''faq'') es \<and>
     \<not> pc_allowSyntheticTestFixtures c \<and> \<not> pc_allowSyntheticTestKnowledge c \<and>
     (\<forall>e \<in> set es. ke_status e = approved) \<and>
     (list_all plain_scope es \<longrightarrow> list_all (in_scope (pc_tenantId c) (pc_storeId c)) es)"

lemma loadPrivateStoreKnowledgeComposition_Inr:
  assumes "loadPrivateStoreKnowledgeComposition read env = Inr c"
  obtains d es where "privateKnowledgeDirectoryFromEnvironment env = Some d" "read d = Inr es" "private_of es c"
proof -
  from assms obtain es keys where r: "loadPrivateKnowledgeCorpus read env = Inr es" and ne: "es \<noteq> []"
    and k: "check_scopes es = Inr keys" and one: "length (remdups keys) = 1"
    and c: "c = \<lparr>pc_faq = map toFaqEntry (filter (\<lambda>e. ke_kind e = js ''faq'') es),
             pc_knowledge = filter (\<lambda>e. ke_kind e \<noteq> js ''faq'') es,
             pc_tenantId = split_on 0 (hd keys) ! 0, pc_storeId = split_on 0 (hd keys) ! 1,
             pc_allowSyntheticTestFixtures = False, pc_allowSyntheticTestKnowledge = False\<rparr>"
    by (auto simp: loadPrivateStoreKnowledgeComposition_def and_then_Inr Let_def split: if_splits)
  note ks = check_scopes_Inr [OF k]
  have "in_scope (pc_tenantId c) (pc_storeId c) e" if e: "e \<in> set es" and p: "plain_scope e" for e
  proof -
    have "scope_key e = hd keys" using one ks e by (intro one_key) auto
    then show ?thesis using scope_of_key [of e] ks e p unfolding in_scope_def plain_scope_def c by auto
  qed
  then have "private_of es c" using ne ks unfolding private_of_def by (auto simp: c list_all_iff)
  moreover from r obtain d where "privateKnowledgeDirectoryFromEnvironment env = Some d" "read d = Inr es"
    by (auto simp: loadPrivateKnowledgeCorpus_def split: option.splits)
  ultimately show ?thesis using that by blast
qed

lemma map_sum_Inr: "map_sum f g x = Inr b \<longleftrightarrow> (\<exists>a. x = Inr a \<and> b = g a)"
  by (cases x) auto

lemma runtime_factory_composition:
  assumes "enterpriseRuntimeFactoryFromEnv createRuntime read env = Inr f"
    and "enterpriseKnowledgeModeFromEnv env = Inr mode"
  shows "case mode of
      Private \<Rightarrow> (\<exists>pf c. f = Some pf \<and> pf_composition pf = Some c \<and> loadPrivateStoreKnowledgeComposition read env = Inr c)
    | Portfolio \<Rightarrow> \<forall>pf. f = Some pf \<longrightarrow> pf_composition pf = None"
proof -
  from assms(1) obtain rm where "enterpriseRuntimeModeFromEnv env = Inr rm"
    by (auto simp: enterpriseRuntimeFactoryFromEnv_def and_then_Inr)
  with assms show ?thesis
    by (cases rm; cases mode)
      (auto simp: enterpriseRuntimeFactoryFromEnv_def and_then_Inr bootstrapPiEnterpriseRuntimeFactory_def map_sum_Inr)
qed

lemma setting_is: "setting env name fallback = v \<Longrightarrow> fallback \<noteq> v \<Longrightarrow> map_option trim (env name) = Some v"
  by (auto simp: setting_def split: option.splits if_splits)

lemma knowledge_mode_private:
  "enterpriseKnowledgeModeFromEnv env = Inr Private \<Longrightarrow>
     map_option trim (env ''ENTERPRISE_KNOWLEDGE_MODE'') = Some (js ''private'')"
  by (rule setting_is [where fallback = "js ''portfolio''"])
    (auto simp: enterpriseKnowledgeModeFromEnv_def Let_def js_simps split: if_splits)

lemma vector_retrieval_Inr:
  assumes "enterpriseVectorRetrievalFactoryFromEnv parse_url env = Inr (Some client)"
  shows "enterpriseKnowledgeModeFromEnv env \<noteq> Inr Private \<and> env ''RAG_CORPUS_CLASSIFICATION'' = Some (js ''public-synthetic'') \<and>
    (\<exists>url. parse_url (setting env ''RAG_SERVICE_URL'' []) = Some url \<and> private_host (su_hostname url))"
  using assms knowledge_mode_private [of env]
  by (auto simp: enterpriseVectorRetrievalFactoryFromEnv_def Let_def split: if_splits option.splits)

text \<open>
  C25. A start from the environment keeps private knowledge local. If private entries are to be registered, then there
  is no client of the hosted embedding service and the runtime is a provider runtime over a composition of the
  private directory: it is not empty, synthetic fixtures are off, every entry is approved and (for scopes without the
  separator, the NUL character) of the one tenant and store of the composition, and the entries to register come from the
  same directory. If the embedding service is used, no private entry is read or registered, the corpus is declared
  synthetic, and the host of the service is a private address.
\<close>

theorem private_knowledge_stays_local:
  assumes "startup channels parse_url createRuntime read reread env = Inr st"
  shows "case st_knowledgeEntries st of
      Some entries \<Rightarrow> st_retrieval st = None \<and>
        (\<exists>pf c d es. st_runtime st = Some pf \<and> pf_composition pf = Some c \<and>
          privateKnowledgeDirectoryFromEnvironment env = Some d \<and> read d = Inr es \<and> reread d = Inr entries \<and> private_of es c)
    | None \<Rightarrow> (\<forall>pf. st_runtime st = Some pf \<longrightarrow> pf_composition pf = None) \<and>
        (st_retrieval st \<noteq> None \<longrightarrow> env ''RAG_CORPUS_CLASSIFICATION'' = Some (js ''public-synthetic'') \<and>
          (\<exists>url. parse_url (setting env ''RAG_SERVICE_URL'' []) = Some url \<and> private_host (su_hostname url)))"
proof -
  from assms obtain mode where
      v: "enterpriseVectorRetrievalFactoryFromEnv parse_url env = Inr (st_retrieval st)"
      and r: "enterpriseRuntimeFactoryFromEnv createRuntime read env = Inr (st_runtime st)"
      and m: "enterpriseKnowledgeModeFromEnv env = Inr mode"
      and e: "(if mode = Private then map_sum id Some (loadPrivateKnowledgeCorpus reread env) else Inr None) =
        Inr (st_knowledgeEntries st)"
    by (auto simp: startup_def and_then_Inr)
  note f = runtime_factory_composition [OF r m]
  show ?thesis
  proof (cases mode)
    case Portfolio
    then show ?thesis using f e v vector_retrieval_Inr [of parse_url env] by auto
  next
    case Private
    with f obtain pf c where pf: "st_runtime st = Some pf" "pf_composition pf = Some c"
      and c: "loadPrivateStoreKnowledgeComposition read env = Inr c" by auto
    from c obtain d es where d: "privateKnowledgeDirectoryFromEnvironment env = Some d" "read d = Inr es" "private_of es c"
      by (rule loadPrivateStoreKnowledgeComposition_Inr)
    from e Private obtain entries where en: "st_knowledgeEntries st = Some entries" "loadPrivateKnowledgeCorpus reread env = Inr entries"
      by (auto simp: map_sum_Inr)
    then have "reread d = Inr entries" using d by (simp add: loadPrivateKnowledgeCorpus_def)
    moreover have "st_retrieval st = None" using v m Private vector_retrieval_Inr [of parse_url env] by (cases "st_retrieval st") auto
    ultimately show ?thesis using en pf d by auto
  qed
qed

definition demo_env :: environment where
  "demo_env = map_of [(''DATABASE_URL'', js ''pg://db''), (''ENTERPRISE_KNOWLEDGE_MODE'', js ''private''),
     (''ENTERPRISE_RUNTIME_MODE'', js ''pi-real''), (''PI_PROVIDER'', js ''p''), (''PI_MODEL'', js ''m''),
     (''SUPPORT_AGENT_PRIVATE_KNOWLEDGE_DIR'', js ''d'')]"

definition demo_entry :: knowledge_entry where
  "demo_entry = \<lparr>ke_id = js ''k1'', ke_kind = js ''faq'', ke_status = approved, ke_title = js ''q'', ke_content = js ''a'',
     ke_version = js ''1'', ke_updatedAt = js ''2024-01-01'', ke_tenantScope = Some (js ''t''), ke_storeScope = Some (js ''s''),
     ke_sourceRef = js ''r'', ke_tags = []\<rparr>"

definition demo_provider :: "jstring \<Rightarrow> jstring \<Rightarrow> provider_runtime option" where
  "demo_provider p m = Some \<lparr>pr_checkAuth = (\<lambda>_. Some True), pr_getModel = (\<lambda>_ i. Some (Some i))\<rparr>"

definition demo_corpus :: corpus where
  "demo_corpus d = (if d = js ''d'' then Inr [demo_entry] else Inl ''no such directory'')"

definition demo_composition :: private_composition where
  "demo_composition = \<lparr>pc_faq = [toFaqEntry demo_entry], pc_knowledge = [], pc_tenantId = js ''t'', pc_storeId = js ''s'',
     pc_allowSyntheticTestFixtures = False, pc_allowSyntheticTestKnowledge = False\<rparr>"

lemma demo_loads: "loadPrivateStoreKnowledgeComposition demo_corpus demo_env = Inr demo_composition"
  by (simp add: loadPrivateStoreKnowledgeComposition_def loadPrivateKnowledgeCorpus_def
      privateKnowledgeDirectoryFromEnvironment_def setting_def demo_env_def demo_corpus_def demo_composition_def
      declares_scope_def demo_entry_def scope_key_def js_simps trim_def trim_start_def trim_end_def is_space_def)

lemma demo_config: "enterpriseApplicationConfigFromEnv demo_env =
  Inr \<lparr>ac_databaseUrl = js ''pg://db'', ac_host = js ''127.0.0.1'', ac_port = 3000, ac_secureCookies = False\<rparr>"
  by (simp add: enterpriseApplicationConfigFromEnv_def setting_def demo_env_def js_simps trim_def trim_start_def trim_end_def is_space_def
     to_number_def decimal_number_def signed_def digits_part_def is_digit_def digits_value_def exponent_of_def power_of_ten_def Let_def)

lemma demo_modes: "enterpriseVectorRetrievalFactoryFromEnv p demo_env = Inr None"
  "enterpriseRetrievalModeFromEnv demo_env = Inr False"
  "enterpriseRuntimeModeFromEnv demo_env = Inr (Pi_real (js ''p'') (js ''m''))"
  "enterpriseKnowledgeModeFromEnv demo_env = Inr Private"
  by (simp_all add: enterpriseVectorRetrievalFactoryFromEnv_def enterpriseRetrievalModeFromEnv_def enterpriseRuntimeModeFromEnv_def
    enterpriseKnowledgeModeFromEnv_def setting_def demo_env_def js_simps trim_def trim_start_def trim_end_def is_space_def Let_def)

definition demo_options :: "unit startup_options" where
  "demo_options =
     \<lparr>st_config = \<lparr>ac_databaseUrl = js ''pg://db'', ac_host = js ''127.0.0.1'', ac_port = 3000, ac_secureCookies = False\<rparr>,
      st_channels = (), st_retrieval = None,
      st_runtime = Some \<lparr>pf_model = js ''m'', pf_composition = Some demo_composition\<rparr>,
      st_knowledgeEntries = Some [demo_entry]\<rparr>"

lemma demo_starts:
  "startup (\<lambda>_. Inr ()) (\<lambda>_. None) demo_provider demo_corpus demo_corpus demo_env = Inr demo_options"
proof -
  have "loadPrivateKnowledgeCorpus demo_corpus demo_env = Inr [demo_entry]"
    by (simp add: loadPrivateKnowledgeCorpus_def privateKnowledgeDirectoryFromEnvironment_def setting_def demo_env_def
        demo_corpus_def js_simps trim_def trim_start_def trim_end_def is_space_def)
  then show ?thesis
    by (simp add: startup_def demo_config demo_modes enterpriseRuntimeFactoryFromEnv_def demo_loads
        bootstrapPiEnterpriseRuntimeFactory_def bootstrapPiEnterpriseRuntime_def demo_provider_def demo_options_def)
qed

theorem private_knowledge_stays_local_witness:
  "st_retrieval demo_options = None \<and> (\<exists>c es. private_of es c \<and> demo_corpus (js ''d'') = Inr es)"
proof -
  have "privateKnowledgeDirectoryFromEnvironment demo_env = Some (js ''d'')"
    by (simp add: privateKnowledgeDirectoryFromEnvironment_def setting_def demo_env_def js_simps trim_def trim_start_def
        trim_end_def is_space_def)
  moreover have "st_knowledgeEntries demo_options = Some [demo_entry]" by (simp add: demo_options_def)
  ultimately show ?thesis using private_knowledge_stays_local [OF demo_starts] by auto
qed

section \<open>Resources\<close>

lemma run_phases_fields:
  "run_phases fails ps st = (st', succeeded) \<Longrightarrow>
     ar_poolEnded st' = ar_poolEnded st \<and> ar_runtimeClosed st' = ar_runtimeClosed st \<and> ar_listening st' = ar_listening st \<and>
     ar_closed st' = ar_closed st \<and> (ar_runtimeCreated st' \<longrightarrow> ar_runtimeCreated st \<or> \<not> fails Make_runtime) \<and>
     (succeeded \<longleftrightarrow> list_all (\<lambda>p. \<not> fails p) ps)"
  by (induction fails ps st arbitrary: st' rule: run_phases.induct) (auto split: if_splits)

lemmas resource_defs = release_failed_def end_pool_def close_runtime_def close_application_def start_server_def
  new_resources_def

definition released :: "app_resources \<Rightarrow> bool" where
  "released st \<longleftrightarrow> ar_poolEnded st \<and> (ar_runtimeCreated st \<longrightarrow> ar_runtimeClosed st)"

lemma close_releases:
  assumes "\<not> ar_closed st" "close_application server_rejects rejects pool_rejects st = (st', r)"
  shows "released st' \<and> (ar_listening st' \<longleftrightarrow> ar_listening st \<and> server_rejects) \<and>
    (\<forall>a b c. close_application a b c st' = (st', True))"
  using assms by (auto simp: resource_defs Let_def released_def split: if_splits)

text \<open>
  C26. What a start of the application holds when it ends. Nothing is opened for an empty address or two sources of
  retrieval. When a phase of the creation fails, the runtime, if it was created, is closed, and the pool is ended
  unless closing the runtime rejects. When the creation succeeds and the server cannot listen, the start fails with
  the pool and the runtime left open, and nobody holds the application to close it. Otherwise it listens. Closing an
  application, started or not, releases the runtime and the pool whatever the closing calls do, stops the server
  unless the server rejects, and makes every later close a step that changes nothing.
\<close>

theorem resources_released:
  "(case startEnterpriseApplication fails listen_fails runtime_rejects url has_retrieval has_factory has_entries of
      None \<Rightarrow> trim url = [] \<or> has_retrieval \<and> has_factory
    | Some (st, succeeded) \<Rightarrow>
        if fails Connect \<or> fails Migrate \<or> fails Seed \<or> has_entries \<and> fails Register \<or> fails Make_runtime \<or> fails Make_server
        then \<not> succeeded \<and> \<not> ar_listening st \<and> (ar_runtimeClosed st \<longleftrightarrow> ar_runtimeCreated st) \<and>
          (ar_runtimeCreated st \<longleftrightarrow> \<not> (fails Connect \<or> fails Migrate \<or> fails Seed \<or> has_entries \<and> fails Register \<or> fails Make_runtime)) \<and>
          (ar_poolEnded st \<longleftrightarrow> \<not> (ar_runtimeCreated st \<and> runtime_rejects))
        else succeeded = (\<not> listen_fails) \<and> ar_listening st = (\<not> listen_fails) \<and> ar_runtimeCreated st \<and>
          \<not> ar_poolEnded st \<and> \<not> ar_runtimeClosed st \<and>
          (\<forall>server_rejects rejects pool_rejects.
             case close_application server_rejects rejects pool_rejects st of
               (st', _) \<Rightarrow> released st' \<and> (ar_listening st' \<longleftrightarrow> \<not> listen_fails \<and> server_rejects) \<and>
                 (\<forall>a b c. close_application a b c st' = (st', True))))"
proof (cases "trim url = [] \<or> has_retrieval \<and> has_factory")
  case True
  then show ?thesis by (auto simp: startEnterpriseApplication_def createEnterpriseApplication_def)
next
  case False
  let ?phases = "[Connect, Migrate, Seed] @ (if has_entries then [Register] else []) @ [Make_runtime, Make_server]"
  let ?early = "fails Connect \<or> fails Migrate \<or> fails Seed \<or> has_entries \<and> fails Register \<or> fails Make_runtime"
  have made: "run_phases fails ?phases new_resources =
      (if ?early then new_resources else new_resources\<lparr>ar_runtimeCreated := True\<rparr>, \<not> (?early \<or> fails Make_server))"
    by simp
  show ?thesis
  proof (cases "?early \<or> fails Make_server")
    case True
    then have "startEnterpriseApplication fails listen_fails runtime_rejects url has_retrieval has_factory has_entries =
        Some (release_failed runtime_rejects (if ?early then new_resources else new_resources\<lparr>ar_runtimeCreated := True\<rparr>), False)"
      using False made by (simp add: startEnterpriseApplication_def createEnterpriseApplication_def)
    then show ?thesis using True by (auto simp: resource_defs)
  next
    case ok: False
    define st where "st = new_resources\<lparr>ar_runtimeCreated := True, ar_listening := \<not> listen_fails\<rparr>"
    have "startEnterpriseApplication fails listen_fails runtime_rejects url has_retrieval has_factory has_entries =
        Some (st, \<not> listen_fails)"
      using False made ok
      by (simp add: startEnterpriseApplication_def createEnterpriseApplication_def st_def start_server_def new_resources_def)
    moreover have "\<not> ar_closed st" "ar_listening st = (\<not> listen_fails)" "ar_runtimeCreated st" "\<not> ar_poolEnded st"
      "\<not> ar_runtimeClosed st" by (simp_all add: st_def new_resources_def)
    ultimately show ?thesis using ok close_releases [OF \<open>\<not> ar_closed st\<close>] by (auto split: prod.split)
  qed
qed

end
