(* ===== verification/DemoData.thy ===== *)
theory DemoData
  imports PgIdentity
begin

text \<open>
  The seed of demonstration identities, \<open>src/enterprise/demo-data.ts\<close>, which every start of the enterprise application
  runs on its identity repository. The creations are separate statements without a transaction:
  \<open>stops\<close> is the number of creations after which the process dies or a statement fails, if it does.
\<close>

section \<open>The identities\<close>

record demo_person =
  dp_userId :: jstring
  dp_email :: jstring
  dp_password :: jstring
  dp_displayName :: jstring
  dp_membershipId :: jstring
  dp_tenantId :: jstring
  dp_storeId :: jstring
  dp_role :: role

definition tenant_a :: jstring where "tenant_a = js ''demo-tenant-a''"
definition tenant_b :: jstring where "tenant_b = js ''demo-tenant-b''"
definition store_a1 :: jstring where "store_a1 = js ''demo-store-a1''"
definition store_b1 :: jstring where "store_b1 = js ''demo-store-b1''"

definition alice :: demo_person where
  "alice = \<lparr>dp_userId = js ''demo-user-alice-agent'', dp_email = js ''alice.agent@demo.example'', dp_password = js ''AliceDemo!2026'',
     dp_displayName = js ''Alice Agent'', dp_membershipId = js ''demo-membership-alice-a1'', dp_tenantId = tenant_a,
     dp_storeId = store_a1, dp_role = Agent\<rparr>"

definition susan :: demo_person where
  "susan = \<lparr>dp_userId = js ''demo-user-susan-supervisor'', dp_email = js ''susan.supervisor@demo.example'',
     dp_password = js ''SusanDemo!2026'', dp_displayName = js ''Susan Supervisor'',
     dp_membershipId = js ''demo-membership-susan-a1'', dp_tenantId = tenant_a, dp_storeId = store_a1, dp_role = Supervisor\<rparr>"

definition bob :: demo_person where
  "bob = \<lparr>dp_userId = js ''demo-user-bob-agent'', dp_email = js ''bob.agent@demo.example'', dp_password = js ''BobDemo!2026'',
     dp_displayName = js ''Bob Agent'', dp_membershipId = js ''demo-membership-bob-b1'', dp_tenantId = tenant_b,
     dp_storeId = store_b1, dp_role = Agent\<rparr>"

definition ava :: demo_person where
  "ava = \<lparr>dp_userId = js ''demo-user-ava-admin'', dp_email = js ''ava.admin@demo.example'', dp_password = js ''AvaDemo!2026'',
     dp_displayName = js ''Ava Admin'', dp_membershipId = js ''demo-membership-ava-a1'', dp_tenantId = tenant_a,
     dp_storeId = store_a1, dp_role = Admin\<rparr>"

definition demo_tenants :: "date \<Rightarrow> tenant list" where
  "demo_tenants now =
     [\<lparr>tenant_id = tenant_a, tenant_name = js ''Demo Retail Group A'', tenant_createdAt = now\<rparr>,
      \<lparr>tenant_id = tenant_b, tenant_name = js ''Demo Retail Group B'', tenant_createdAt = now\<rparr>]"

definition demo_stores :: "date \<Rightarrow> store_rec list" where
  "demo_stores now =
     [\<lparr>store_id = store_a1, store_tenantId = tenant_a, store_name = js ''Store A1'', store_createdAt = now\<rparr>,
      \<lparr>store_id = store_b1, store_tenantId = tenant_b, store_name = js ''Store B1'', store_createdAt = now\<rparr>]"

definition demo_user_of :: "crypto \<Rightarrow> date \<Rightarrow> demo_person \<Rightarrow> byte list \<Rightarrow> (error, user) result" where
  "demo_user_of c now p salt =
     and_then (hashPassword c salt (dp_password p)) (\<lambda>h.
       Inr \<lparr>user_id = dp_userId p, user_email = dp_email p, user_displayName = dp_displayName p, user_passwordHash = h,
         user_createdAt = now\<rparr>)"

definition demo_membership_of :: "date \<Rightarrow> demo_person \<Rightarrow> membership" where
  "demo_membership_of now p =
     \<lparr>mem_id = dp_membershipId p, mem_userId = dp_userId p, mem_tenantId = dp_tenantId p, mem_storeId = dp_storeId p,
      mem_role = dp_role p, mem_createdAt = now\<rparr>"

section \<open>Creations\<close>

datatype creation = New_tenant tenant | New_store store_rec | New_user user | New_membership membership

fun create :: "'r identity_ops \<Rightarrow> 'r \<Rightarrow> creation \<Rightarrow> (error, 'r) result" where
  "create ops r (New_tenant t) = createTenant ops r t"
| "create ops r (New_store s) = createStore ops r s"
| "create ops r (New_user u) = createUser ops r u"
| "create ops r (New_membership m) = createMembership ops r m"

fun create_all :: "'r identity_ops \<Rightarrow> nat option \<Rightarrow> creation list \<Rightarrow> 'r \<Rightarrow> 'r \<times> (error, unit) result" where
  "create_all ops stops [] r = (r, Inr ())"
| "create_all ops stops (x # xs) r =
     (if stops = Some 0 then (r, Inl ''interrupted'')
      else (case create ops r x of
          Inl e \<Rightarrow> (r, Inl e)
        | Inr r' \<Rightarrow> create_all ops (map_option (\<lambda>n. n - 1) stops) xs r'))"

definition demo_creations :: "date \<Rightarrow> user list \<Rightarrow> creation list" where
  "demo_creations now us =
     map New_tenant (demo_tenants now) @ map New_store (demo_stores now) @ map New_user us @
     map (\<lambda>p. New_membership (demo_membership_of now p)) [alice, susan, bob, ava]"

section \<open>The seed\<close>

record demo_data =
  dd_tenants :: "tenant list"
  dd_stores :: "store_rec list"
  dd_users :: "user list"
  dd_credentials :: "(jstring \<times> jstring) list"

definition inconsistent_seed :: error where
  "inconsistent_seed = ''Portfolio enterprise demo seed is partial or inconsistent.''"

definition seeded_data :: "date \<Rightarrow> user list \<Rightarrow> demo_data" where
  "seeded_data now us = \<lparr>dd_tenants = demo_tenants now, dd_stores = demo_stores now, dd_users = us,
     dd_credentials = map (\<lambda>p. (dp_email p, dp_password p)) [alice, susan, bob, ava]\<rparr>"

definition isExpectedDemoMembership :: "membership \<Rightarrow> demo_person \<Rightarrow> bool" where
  "isExpectedDemoMembership m p \<longleftrightarrow> mem_id m = dp_membershipId p \<and> mem_userId m = dp_userId p \<and>
     mem_tenantId m = dp_tenantId p \<and> mem_storeId m = dp_storeId p \<and> mem_role m = dp_role p"

text \<open>\<open>assertExistingDemoIdentity\<close> does not throw.\<close>

definition existing_demo_identity :: "'r identity_ops \<Rightarrow> 'r \<Rightarrow> user \<Rightarrow> demo_person \<Rightarrow> bool" where
  "existing_demo_identity ops r u p \<longleftrightarrow> user_id u = dp_userId p \<and> user_email u = dp_email p \<and>
     (case listMembershipsForUser ops r (user_id u) of [m] \<Rightarrow> isExpectedDemoMembership m p | _ \<Rightarrow> False)"

definition created :: "demo_data \<Rightarrow> 'r \<times> (error, unit) result \<Rightarrow> 'r \<times> (error, demo_data) result" where
  "created data x = (fst x, case snd x of Inl e \<Rightarrow> Inl e | Inr _ \<Rightarrow> Inr data)"

definition seed_all ::
  "'r identity_ops \<Rightarrow> crypto \<Rightarrow> (demo_person \<Rightarrow> byte list) \<Rightarrow> date \<Rightarrow> nat option \<Rightarrow> 'r \<Rightarrow> 'r \<times> (error, demo_data) result" where
  "seed_all ops c salts now stops r =
     (case map_result (\<lambda>p. demo_user_of c now p (salts p)) [alice, susan, bob, ava] of
        Inl e \<Rightarrow> (r, Inl e)
      | Inr us \<Rightarrow> created (seeded_data now us) (create_all ops stops (demo_creations now us) r))"

definition seed_existing ::
  "'r identity_ops \<Rightarrow> crypto \<Rightarrow> (demo_person \<Rightarrow> byte list) \<Rightarrow> date \<Rightarrow> nat option \<Rightarrow> 'r \<Rightarrow> user \<Rightarrow> user \<Rightarrow> user \<Rightarrow> user option \<Rightarrow>
     'r \<times> (error, demo_data) result" where
  "seed_existing ops c salts now stops r a s b existingAva =
     (if \<not> existing_demo_identity ops r a alice \<or> \<not> existing_demo_identity ops r s susan \<or>
        \<not> existing_demo_identity ops r b bob then (r, Inl inconsistent_seed)
      else (case existingAva of
          None \<Rightarrow>
            (case demo_user_of c now ava (salts ava) of
               Inl e \<Rightarrow> (r, Inl e)
             | Inr u \<Rightarrow> created (seeded_data now [a, s, b, u])
                 (create_all ops stops [New_user u, New_membership (demo_membership_of now ava)] r))
        | Some v \<Rightarrow>
            if \<not> existing_demo_identity ops r v ava then (r, Inl inconsistent_seed)
            else (r, Inr (seeded_data now [a, s, b, v]))))"

definition seedPortfolioEnterpriseDemoData ::
  "'r identity_ops \<Rightarrow> crypto \<Rightarrow> (demo_person \<Rightarrow> byte list) \<Rightarrow> date \<Rightarrow> nat option \<Rightarrow> 'r \<Rightarrow> 'r \<times> (error, demo_data) result" where
  "seedPortfolioEnterpriseDemoData ops c salts now stops r =
     (let existing = map (\<lambda>p. findUserByEmail ops r (dp_email p)) [alice, susan, bob, ava] in
      if list_all (\<lambda>u. u = None) existing then seed_all ops c salts now stops r
      else (case existing of
          [Some a, Some s, Some b, v] \<Rightarrow> seed_existing ops c salts now stops r a s b v
        | _ \<Rightarrow> (r, Inl inconsistent_seed)))"


section \<open>Seeding a database\<close>

definition persons :: "demo_person list" where
  "persons = [alice, susan, bob, ava]"

definition demo_free :: "db \<Rightarrow> bool" where
  "demo_free d \<longleftrightarrow>
     (\<forall>u \<in> set (db_users d). user_id u \<notin> dp_userId ` set persons \<and> user_email u \<notin> dp_email ` set persons) \<and>
     (\<forall>t \<in> set (db_tenants d). tenant_id t \<notin> {tenant_a, tenant_b}) \<and>
     (\<forall>s \<in> set (db_stores d). store_id s \<notin> {store_a1, store_b1}) \<and>
     (\<forall>m \<in> set (db_memberships d). mem_id m \<notin> dp_membershipId ` set persons \<and> mem_userId m \<notin> dp_userId ` set persons)"

definition demo_users :: "user list \<Rightarrow> bool" where
  "demo_users us \<longleftrightarrow> map user_id us = map dp_userId persons \<and> map user_email us = map dp_email persons"

text \<open>The database after the first \<open>k\<close> of the twelve creations.\<close>

definition partial_seed :: "db \<Rightarrow> date \<Rightarrow> user list \<Rightarrow> nat \<Rightarrow> db" where
  "partial_seed d now us k = d\<lparr>db_tenants := db_tenants d @ take k (demo_tenants now),
     db_stores := db_stores d @ take (k - 2) (demo_stores now), db_users := db_users d @ take (k - 4) us,
     db_memberships := db_memberships d @ take (k - 8) (map (demo_membership_of now) persons)\<rparr>"

lemmas person_defs = alice_def susan_def bob_def ava_def tenant_a_def tenant_b_def store_a1_def store_b1_def

lemma demo_users_cases:
  assumes "demo_users us"
  obtains ua us' ub uv where "us = [ua, us', ub, uv]" "user_id ua = dp_userId alice" "user_email ua = dp_email alice"
    "user_id us' = dp_userId susan" "user_email us' = dp_email susan" "user_id ub = dp_userId bob" "user_email ub = dp_email bob"
    "user_id uv = dp_userId ava" "user_email uv = dp_email ava"
  using assms by (auto simp: demo_users_def persons_def map_eq_Cons_conv)

lemma demo_user_of_Inr:
  "demo_user_of c now p salt = Inr u \<Longrightarrow> user_id u = dp_userId p \<and> user_email u = dp_email p"
  by (auto simp: demo_user_of_def and_then_Inr)

lemma demo_user_of_total: "dp_password p \<noteq> [] \<Longrightarrow> \<exists>u. demo_user_of c now p salt = Inr u"
  by (simp add: demo_user_of_def hashPassword_def)

lemma demo_hashes:
  obtains us where "map_result (\<lambda>p. demo_user_of c now p (salts p)) [alice, susan, bob, ava] = Inr us" "demo_users us"
proof -
  have "\<exists>u. demo_user_of c now p (salts p) = Inr u" if "p \<in> {alice, susan, bob, ava}" for p
    using that by (intro demo_user_of_total) (auto simp: person_defs)
  then obtain f where f: "\<forall>p \<in> {alice, susan, bob, ava}. demo_user_of c now p (salts p) = Inr (f p)" by metis
  show thesis
    by (rule that [of "map f [alice, susan, bob, ava]"])
      (use f demo_user_of_Inr in \<open>auto simp: demo_users_def persons_def\<close>)
qed

lemma lower_email: "p \<in> {alice, susan, bob, ava} \<Longrightarrow> to_lower (trim (dp_email p)) = dp_email p"
  by (auto simp: person_defs js_simps trim_def trim_start_def trim_end_def is_space_def to_lower_def lower_unit_def)


lemma distinct_persons:
  "dp_userId alice \<noteq> dp_userId susan" "dp_userId alice \<noteq> dp_userId bob" "dp_userId alice \<noteq> dp_userId ava"
  "dp_userId susan \<noteq> dp_userId bob" "dp_userId susan \<noteq> dp_userId ava" "dp_userId bob \<noteq> dp_userId ava"
  "dp_email alice \<noteq> dp_email susan" "dp_email alice \<noteq> dp_email bob" "dp_email alice \<noteq> dp_email ava"
  "dp_email susan \<noteq> dp_email bob" "dp_email susan \<noteq> dp_email ava" "dp_email bob \<noteq> dp_email ava"
  "dp_membershipId alice \<noteq> dp_membershipId susan" "dp_membershipId alice \<noteq> dp_membershipId bob"
  "dp_membershipId alice \<noteq> dp_membershipId ava" "dp_membershipId susan \<noteq> dp_membershipId bob"
  "dp_membershipId susan \<noteq> dp_membershipId ava" "dp_membershipId bob \<noteq> dp_membershipId ava"
  "tenant_a \<noteq> tenant_b" "store_a1 \<noteq> store_b1"
  by (simp_all add: person_defs)

lemma person_scopes:
  "dp_tenantId alice = tenant_a" "dp_storeId alice = store_a1" "dp_tenantId susan = tenant_a" "dp_storeId susan = store_a1"
  "dp_tenantId bob = tenant_b" "dp_storeId bob = store_b1" "dp_tenantId ava = tenant_a" "dp_storeId ava = store_a1"
  by (simp_all add: alice_def susan_def bob_def ava_def)

lemma demo_free_simps:
  assumes "demo_free d"
  shows "\<not> list_ex (\<lambda>x. tenant_id x = tenant_a) (db_tenants d)" "\<not> list_ex (\<lambda>x. tenant_id x = tenant_b) (db_tenants d)"
    "\<not> list_ex (\<lambda>x. store_id x = store_a1) (db_stores d)" "\<not> list_ex (\<lambda>x. store_id x = store_b1) (db_stores d)"
    "p \<in> set persons \<Longrightarrow> \<not> list_ex (\<lambda>x. user_id x = dp_userId p \<or> user_email x = dp_email p) (db_users d)"
    "p \<in> set persons \<Longrightarrow> \<not> list_ex (\<lambda>x. mem_id x = dp_membershipId p \<or> sameMembership x (demo_membership_of now p)) (db_memberships d)"
    "p \<in> set persons \<Longrightarrow> List.find (\<lambda>u. user_email u = dp_email p) (db_users d) = None"
    "p \<in> set persons \<Longrightarrow> filter (\<lambda>m. mem_userId m = dp_userId p) (db_memberships d) = []"
  using assms
  by (auto simp: demo_free_def list_ex_iff sameMembership_def demo_membership_of_def find_None_iff filter_empty_conv image_iff)

lemma below_twelve:
  "k < 12 \<longleftrightarrow> k = 0 \<or> k = 1 \<or> k = 2 \<or> k = 3 \<or> k = 4 \<or> k = 5 \<or> k = 6 \<or> k = 7 \<or> k = 8 \<or> k = 9 \<or> k = 10 \<or> k = (11 :: nat)"
  by arith

lemma creation_step:
  assumes d: "demo_free d" and us: "demo_users us" and k: "k < 12"
  shows "create pg_ops (partial_seed d now us k) (demo_creations now us ! k) = Inr (partial_seed d now us (Suc k))"
proof -
  obtain ua us' ub uv where u: "us = [ua, us', ub, uv]" "user_id ua = dp_userId alice" "user_email ua = dp_email alice"
    "user_id us' = dp_userId susan" "user_email us' = dp_email susan" "user_id ub = dp_userId bob" "user_email ub = dp_email bob"
    "user_id uv = dp_userId ava" "user_email uv = dp_email ava" using us by (rule demo_users_cases)
  note frees = demo_free_simps [OF d]
  have pers: "alice \<in> set persons" "susan \<in> set persons" "bob \<in> set persons" "ava \<in> set persons" by (simp_all add: persons_def)
  note base = frees(1-4) frees(5) [OF pers(1)] frees(5) [OF pers(2)] frees(5) [OF pers(3)] frees(5) [OF pers(4)]
    frees(6) [OF pers(1)] frees(6) [OF pers(2)] frees(6) [OF pers(3)] frees(6) [OF pers(4)]
  have email: "to_lower (trim (dp_email p)) = dp_email p" if "p \<in> {alice, susan, bob, ava}" for p using that by (rule lower_email)
  show ?thesis
    using k base email unfolding below_twelve
    by (elim disjE)
      (simp_all add: u partial_seed_def demo_creations_def demo_tenants_def demo_stores_def persons_def pg_ops_simps
        pg_createTenant_def pg_createStore_def pg_createUser_def pg_createMembership_def Let_def has_store_def
        distinct_persons distinct_persons [symmetric] person_scopes demo_membership_of_def sameMembership_def)
qed


lemma length_creations: "demo_users us \<Longrightarrow> length (demo_creations now us) = 12"
  by (elim demo_users_cases) (simp add: demo_creations_def demo_tenants_def demo_stores_def)

text \<open>Creations one after the other, stopped or not.\<close>

lemma create_all_steps:
  assumes "\<And>k. k < length xs \<Longrightarrow> create ops (f k) (xs ! k) = Inr (f (Suc k))"
  shows "create_all ops stops xs (f 0) =
    (case stops of None \<Rightarrow> (f (length xs), Inr ())
     | Some n \<Rightarrow> if n < length xs then (f n, Inl ''interrupted'') else (f (length xs), Inr ()))"
  using assms
proof (induction xs arbitrary: f stops)
  case Nil
  then show ?case by (simp split: option.split)
next
  case (Cons x xs)
  have "create_all ops m xs (f (Suc 0)) =
    (case m of None \<Rightarrow> (f (Suc (length xs)), Inr ())
     | Some n \<Rightarrow> if n < length xs then (f (Suc n), Inl ''interrupted'') else (f (Suc (length xs)), Inr ()))" for m
    using Cons.IH [of "\<lambda>k. f (Suc k)" m] Cons.prems [of "Suc _"] by simp
  moreover have "create ops (f 0) x = Inr (f (Suc 0))" using Cons.prems [of 0] by simp
  ultimately show ?case by (cases stops) (auto split: nat.splits simp: gr0_conv_Suc)
qed

lemma seed_all_partial:
  assumes "demo_free d"
  obtains us where "demo_users us"
    "seed_all pg_ops c salts now (Some k) d =
      (if k < 12 then (partial_seed d now us k, Inl ''interrupted'') else (partial_seed d now us 12, Inr (seeded_data now us)))"
proof -
  obtain us where us: "map_result (\<lambda>p. demo_user_of c now p (salts p)) [alice, susan, bob, ava] = Inr us" "demo_users us"
    by (rule demo_hashes)
  have "partial_seed d now us 0 = d" by (simp add: partial_seed_def)
  then have "create_all pg_ops (Some k) (demo_creations now us) d =
      (if k < 12 then (partial_seed d now us k, Inl ''interrupted'') else (partial_seed d now us 12, Inr ()))"
    using create_all_steps [of "demo_creations now us" pg_ops "partial_seed d now us" "Some k"]
      creation_step [OF assms us(2)] length_creations [OF us(2)] by simp
  then show thesis using us by (intro that [OF us(2)]) (simp add: seed_all_def created_def)
qed

lemma find_partial:
  assumes "demo_free d" "demo_users us"
  shows "map (\<lambda>p. pg_findUserByEmail (partial_seed d now us k) (dp_email p)) [alice, susan, bob, ava] =
    [if 4 < k then Some (us ! 0) else None, if 5 < k then Some (us ! 1) else None, if 6 < k then Some (us ! 2) else None,
     if 7 < k then Some (us ! 3) else None]"
proof -
  obtain ua us' ub uv where u: "us = [ua, us', ub, uv]" "user_email ua = dp_email alice" "user_email us' = dp_email susan"
    "user_email ub = dp_email bob" "user_email uv = dp_email ava"
    using assms(2) by (rule demo_users_cases)
  have "pg_findUserByEmail (partial_seed d now us k) (dp_email p) = List.find (\<lambda>u. user_email u = dp_email p) (take (k - 4) us)"
    if "p \<in> set persons" for p
    using demo_free_simps(7) [OF assms(1) that] lower_email [of p] that
    by (simp add: pg_findUserByEmail_def partial_seed_def find_append persons_def)
  then show ?thesis
    by (auto simp: persons_def u take_Cons' distinct_persons distinct_persons [symmetric])
qed

lemma memberships_partial:
  assumes "demo_free d" "p \<in> set persons"
  shows "pg_listMembershipsForUser (partial_seed d now us k) (dp_userId p) =
    sort_by (\<lambda>a b. db_collate d (mem_id a) (mem_id b))
      (filter (\<lambda>m. mem_userId m = dp_userId p) (take (k - 8) (map (demo_membership_of now) persons)))"
  using demo_free_simps(8) [OF assms] by (simp add: pg_listMembershipsForUser_def partial_seed_def)

lemma existing_partial:
  assumes d: "demo_free d" and u: "user_id u = dp_userId p" "user_email u = dp_email p" and p: "p \<in> set persons"
  shows "existing_demo_identity pg_ops (partial_seed d now us k) u p \<longleftrightarrow>
    (if p = alice then 8 < k else if p = susan then 9 < k else if p = bob then 10 < k else 11 < k)"
proof -
  have ne: "alice \<noteq> susan" "alice \<noteq> bob" "alice \<noteq> ava" "susan \<noteq> bob" "susan \<noteq> ava" "bob \<noteq> ava"
    using distinct_persons by auto
  have ids: "mem_userId (demo_membership_of now q) = dp_userId q" for q by (simp add: demo_membership_of_def)
  have ex: "isExpectedDemoMembership (demo_membership_of now q) q" for q
    by (simp add: isExpectedDemoMembership_def demo_membership_of_def)
  from p show ?thesis unfolding existing_demo_identity_def u pg_ops_simps memberships_partial [OF d p]
    by (auto simp: persons_def take_Cons' ids ex ne ne [symmetric] distinct_persons distinct_persons [symmetric])
qed


text \<open>A seed that finds \<open>k\<close> of the creations made, \<open>0 < k\<close>.\<close>

lemma seed_again:
  assumes d: "demo_free d" and us: "demo_users us" and k: "0 < k" "k \<le> 12"
  shows "seedPortfolioEnterpriseDemoData pg_ops c salts now' stops (partial_seed d now us k) =
    (partial_seed d now us k,
     if k = 12 then Inr (seeded_data now' us)
     else if k \<le> 4 then (if stops = Some 0 then Inl ''interrupted'' else Inl constraint)
     else Inl inconsistent_seed)"
proof -
  let ?d = "partial_seed d now us k"
  obtain ua us' ub uv where u: "us = [ua, us', ub, uv]" "user_id ua = dp_userId alice" "user_email ua = dp_email alice"
    "user_id us' = dp_userId susan" "user_email us' = dp_email susan" "user_id ub = dp_userId bob" "user_email ub = dp_email bob"
    "user_id uv = dp_userId ava" "user_email uv = dp_email ava" using us by (rule demo_users_cases)
  note found = find_partial [OF d us, of now k]
  have pers: "alice \<in> set persons" "susan \<in> set persons" "bob \<in> set persons" "ava \<in> set persons" by (simp_all add: persons_def)
  have ex: "existing_demo_identity pg_ops ?d ua alice \<longleftrightarrow> 8 < k" "existing_demo_identity pg_ops ?d us' susan \<longleftrightarrow> 9 < k"
    "existing_demo_identity pg_ops ?d ub bob \<longleftrightarrow> 10 < k" "existing_demo_identity pg_ops ?d uv ava \<longleftrightarrow> 11 < k"
    using existing_partial [OF d u(2,3) pers(1)] existing_partial [OF d u(4,5) pers(2)] existing_partial [OF d u(6,7) pers(3)]
      existing_partial [OF d u(8,9) pers(4)] distinct_persons by auto
  have shape: "seedPortfolioEnterpriseDemoData pg_ops c salts now' stops ?d =
      (if k \<le> 4 then seed_all pg_ops c salts now' stops ?d
       else if k \<le> 6 then (?d, Inl inconsistent_seed)
       else seed_existing pg_ops c salts now' stops ?d ua us' ub (if 7 < k then Some uv else None))"
    unfolding seedPortfolioEnterpriseDemoData_def Let_def pg_ops_simps found by (auto simp: u)
  show ?thesis
  proof (cases "k \<le> 4")
    case True
    obtain vs where vs: "map_result (\<lambda>p. demo_user_of c now' p (salts p)) [alice, susan, bob, ava] = Inr vs" "demo_users vs"
      by (rule demo_hashes)
    have "create pg_ops ?d (New_tenant (demo_tenants now' ! 0)) = Inl constraint"
      using k by (cases k) (simp_all add: pg_ops_simps pg_createTenant_def partial_seed_def demo_tenants_def)
    then have "seed_all pg_ops c salts now' stops ?d = (?d, if stops = Some 0 then Inl ''interrupted'' else Inl constraint)"
      using vs by (simp add: seed_all_def demo_creations_def demo_tenants_def created_def)
    then show ?thesis using True shape by simp
  next
    case False
    then show ?thesis using k shape ex by (auto simp: seed_existing_def u)
  qed
qed

text \<open>
  The seed of the demonstration identities is all or nothing only when nothing goes wrong. On a database without them it
  makes its twelve creations; once it has made them, every later seed succeeds and leaves the database as it
  is. But they are no transaction: if the process dies or a statement fails after the first creation and before the
  twelfth, what was created stays, and every later seed, and with it every later start of the application, fails and
  changes nothing.
\<close>

theorem interrupted_seed_blocks_starts:
  assumes "demo_free d"
  shows "case seedPortfolioEnterpriseDemoData pg_ops c salts now (Some k) d of (d1, r1) \<Rightarrow>
    ((\<exists>data. r1 = Inr data) \<longleftrightarrow> 12 \<le> k) \<and> (d1 = d \<longleftrightarrow> k = 0) \<and>
    (\<forall>c' salts' now' stops. case seedPortfolioEnterpriseDemoData pg_ops c' salts' now' stops d1 of (d2, r2) \<Rightarrow>
       k = 0 \<or> (d2 = d1 \<and> ((\<exists>data. r2 = Inr data) \<longleftrightarrow> 12 \<le> k)))"
proof -
  have "partial_seed d now us 0 = d" for us by (simp add: partial_seed_def)
  obtain us where us: "demo_users us" and run: "seed_all pg_ops c salts now (Some k) d =
      (if k < 12 then (partial_seed d now us k, Inl ''interrupted'') else (partial_seed d now us 12, Inr (seeded_data now us)))"
    by (rule seed_all_partial [OF assms])
  have "map (\<lambda>p. pg_findUserByEmail d (dp_email p)) [alice, susan, bob, ava] = [None, None, None, None]"
    using find_partial [OF assms us, of now 0] by (simp add: partial_seed_def)
  then have first: "seedPortfolioEnterpriseDemoData pg_ops c salts now (Some k) d = seed_all pg_ops c salts now (Some k) d"
    by (simp add: seedPortfolioEnterpriseDemoData_def pg_ops_simps)
  have changed: "partial_seed d now us j = d \<longleftrightarrow> j = 0" for j
  proof
    assume "partial_seed d now us j = d"
    then have "db_tenants (partial_seed d now us j) = db_tenants d" by simp
    then show "j = 0" by (simp add: partial_seed_def demo_tenants_def)
  qed (simp add: partial_seed_def)
  show ?thesis
  proof (cases "k < 12")
    case True
    then show ?thesis
      using seed_again [OF assms us, of k] changed unfolding first run by (cases "k = 0") (auto split: if_splits)
  next
    case False
    then show ?thesis using seed_again [OF assms us, of 12] changed unfolding first run by simp
  qed
qed

theorem interrupted_seed_blocks_starts_witness:
  "\<exists>d1 e. seedPortfolioEnterpriseDemoData pg_ops demo_crypto (\<lambda>_. [1]) 0 (Some 6) demo_db = (d1, Inl e) \<and> d1 \<noteq> demo_db \<and>
     fst (seedPortfolioEnterpriseDemoData pg_ops demo_crypto (\<lambda>_. [2]) 1 None d1) = d1 \<and>
     isl (snd (seedPortfolioEnterpriseDemoData pg_ops demo_crypto (\<lambda>_. [2]) 1 None d1))"
proof -
  have "demo_free demo_db"
    by (simp add: demo_free_def demo_db_def persons_def alice_def susan_def bob_def ava_def tenant_a_def tenant_b_def
        store_a1_def store_b1_def)
  note seed = interrupted_seed_blocks_starts [OF this, where c = demo_crypto and salts = "\<lambda>_. [1]" and now = 0 and k = 6]
  obtain d1 r1 where r1: "seedPortfolioEnterpriseDemoData pg_ops demo_crypto (\<lambda>_. [1]) 0 (Some 6) demo_db = (d1, r1)" by fastforce
  obtain d2 r2 where r2: "seedPortfolioEnterpriseDemoData pg_ops demo_crypto (\<lambda>_. [2]) 1 None d1 = (d2, r2)" by fastforce
  have "(\<forall>data. r1 \<noteq> Inr data) \<and> d1 \<noteq> demo_db" using seed unfolding r1 by simp
  moreover have "\<forall>c' salts' now' stops. case seedPortfolioEnterpriseDemoData pg_ops c' salts' now' stops d1 of (d2, r2) \<Rightarrow>
       d2 = d1 \<and> (\<forall>data. r2 \<noteq> Inr data)" using seed unfolding r1 by simp
  then have "d2 = d1 \<and> (\<forall>data. r2 \<noteq> Inr data)" using r2 by (metis (mono_tags, lifting) case_prod_conv)
  ultimately show ?thesis using r1 r2 by (cases r1; cases r2) auto
qed

end
