(* ===== verification/DemoRuntime.thy ===== *)
theory DemoRuntime
  imports Runtime
begin

text \<open>
  The demonstration runtime of \<open>src/enterprise/application.ts\<close>: turns that share one scripted provider are chained
  on a promise, so that each runs after the one before has settled and finds the script of its own
  request. A turn asks the provider for nothing any more once it has settled.
\<close>

section \<open>Scripts\<close>

datatype faux_message = Faux_tool_call jstring jstring "(jstring \<times> jstring) list" | Faux_answer jstring

definition configureEnterpriseDemoResponses :: "support_request \<Rightarrow> faux_message list" where
  "configureEnterpriseDemoResponses request =
     (let text = rq_text request; conversation = rq_conversationId request in
      if contains [0x8BF7, 0x95EE, 0x95E8, 0x5E97, 0x8425, 0x4E1A, 0x65F6, 0x95F4, 0xFF1F] text then
        [Faux_tool_call (js ''faq-'' @ conversation) (js ''search_faq'') [(js ''query'', [0x8425, 0x4E1A, 0x65F6,
          0x95F4])],
         Faux_answer (js ''Deterministic Enterprise FAQ completion.'')]
      else if contains [0x8FD9, 0x4E2A, 0x9000, 0x6B3E, 0x5230, 0x5E95, 0x5E94, 0x8BE5, 0x6309, 0x54EA, 0x4E2A,
        0x89C4, 0x5219, 0x5904, 0x7406, 0xFF1F] text then
        [Faux_tool_call (js ''ambiguous-'' @ conversation) (js ''search_knowledge'') [(js ''query'', [0x9000,
          0x6B3E, 0x6309, 0x54EA, 0x4E2A, 0x89C4, 0x5219])],
         Faux_answer (js ''Deterministic Enterprise ambiguity completion.'')]
      else if contains [0x5E2E, 0x6211, 0x8BB0, 0x5F55, 0x4E00, 0x4E2A, 0x9000, 0x6B3E, 0x552E, 0x540E, 0x5DE5,
        0x5355] text then
        [Faux_tool_call (js ''ticket-'' @ conversation) (js ''create_ticket'')
           [(js ''summary'', js ''Demo refund after-sales request''), (js ''idempotencyKey'', js ''enterprise-ticket-'' @ conversation)],
         Faux_answer [0x5DF2, 0x4E3A, 0x60A8, 0x8BB0, 0x5F55, 0x552E, 0x540E, 0x5DE5, 0x5355, 0x3002]]
      else if contains [0x8FD9, 0x4E2A, 0x6295, 0x8BC9, 0x6211, 0x9700, 0x8981, 0x8F6C, 0x4EBA, 0x5DE5, 0x5904,
        0x7406] text then
        [Faux_tool_call (js ''handoff-'' @ conversation) (js ''handoff_to_human'')
           [(js ''reason'', js ''Demo complaint requires human handling'')]]
      else [Faux_answer [0x5F53, 0x524D, 0x6F14, 0x793A, 0x73AF, 0x5883, 0x4EC5, 0x63D0, 0x4F9B, 0x5DF2, 0x9A8C,
        0x8BC1, 0x4FE1, 0x606F, 0xFF1B, 0x5982, 0x9700, 0x7EE7, 0x7EED, 0xFF0C, 0x8BF7, 0x8054, 0x7CFB, 0x4EBA,
        0x5DE5, 0x5BA2, 0x670D, 0x3002]])"

section \<open>The chain of turns\<close>

text \<open>\<open>dr_tail\<close> is the number of turns that the awaited tail of a close waits for; \<open>dr_sent\<close> records what the provider
  answered and in which turn.\<close>

record demo_runtime =
  dr_submitted :: "support_request list"
  dr_started :: nat
  dr_settled :: nat
  dr_script :: "faux_message list"
  dr_sent :: "(nat \<times> faux_message) list"
  dr_tail :: "nat option"
  dr_registered :: bool

definition createDeterministicEnterpriseRuntime :: demo_runtime where
  "createDeterministicEnterpriseRuntime =
     \<lparr>dr_submitted = [], dr_started = 0, dr_settled = 0, dr_script = [], dr_sent = [], dr_tail = None, dr_registered = True\<rparr>"

definition demo_run :: "support_request \<Rightarrow> demo_runtime \<Rightarrow> demo_runtime" where
  "demo_run request s = s\<lparr>dr_submitted := dr_submitted s @ [request]\<rparr>"

definition start_turn :: "demo_runtime \<Rightarrow> demo_runtime option" where
  "start_turn s =
     (if dr_started s = dr_settled s \<and> dr_started s < length (dr_submitted s)
      then Some (s\<lparr>dr_script := configureEnterpriseDemoResponses (dr_submitted s ! dr_started s), dr_started := Suc (dr_started s)\<rparr>)
      else None)"

definition provider_answers :: "demo_runtime \<Rightarrow> demo_runtime option" where
  "provider_answers s =
     (if dr_settled s < dr_started s
      then (case dr_script s of [] \<Rightarrow> None
            | x # xs \<Rightarrow> Some (s\<lparr>dr_script := xs, dr_sent := dr_sent s @ [(dr_settled s, x)]\<rparr>))
      else None)"

definition settle_turn :: "demo_runtime \<Rightarrow> demo_runtime option" where
  "settle_turn s = (if dr_settled s < dr_started s then Some (s\<lparr>dr_settled := Suc (dr_settled s)\<rparr>) else None)"

definition close_demo :: "demo_runtime \<Rightarrow> demo_runtime" where
  "close_demo s = (if dr_tail s = None then s\<lparr>dr_tail := Some (length (dr_submitted s))\<rparr> else s)"

definition unregister :: "demo_runtime \<Rightarrow> demo_runtime option" where
  "unregister s =
     (case dr_tail s of Some n \<Rightarrow> if n \<le> dr_settled s then Some (s\<lparr>dr_registered := False\<rparr>) else None | None \<Rightarrow> None)"

inductive demo_step :: "demo_runtime \<Rightarrow> demo_runtime \<Rightarrow> bool" where
  run: "demo_step s (demo_run request s)"
| start: "start_turn s = Some s' \<Longrightarrow> demo_step s s'"
| answer: "provider_answers s = Some s' \<Longrightarrow> demo_step s s'"
| settle: "settle_turn s = Some s' \<Longrightarrow> demo_step s s'"
| close: "demo_step s (close_demo s)"
| unregister: "unregister s = Some s' \<Longrightarrow> demo_step s s'"

section \<open>Turns and their scripts\<close>

definition answers_of :: "demo_runtime \<Rightarrow> nat \<Rightarrow> faux_message list" where
  "answers_of s i = map snd (filter (\<lambda>x. fst x = i) (dr_sent s))"

definition chain_ok :: "demo_runtime \<Rightarrow> bool" where
  "chain_ok s \<longleftrightarrow> dr_settled s \<le> dr_started s \<and> dr_started s \<le> Suc (dr_settled s) \<and> dr_started s \<le> length (dr_submitted s) \<and>
     (\<forall>n x. (n, x) \<in> set (dr_sent s) \<longrightarrow> n < dr_started s) \<and>
     (\<forall>i < dr_started s. \<exists>rest. configureEnterpriseDemoResponses (dr_submitted s ! i) = answers_of s i @ rest \<and>
        (i = dr_settled s \<longrightarrow> rest = dr_script s)) \<and>
     (case dr_tail s of None \<Rightarrow> dr_registered s
      | Some n \<Rightarrow> n \<le> length (dr_submitted s) \<and> (dr_registered s \<or> n \<le> dr_settled s))"

lemma answers_of_new: "\<forall>n x. (n, x) \<in> set (dr_sent s) \<longrightarrow> n < dr_started s \<Longrightarrow> dr_started s \<le> i \<Longrightarrow> answers_of s i = []"
  by (fastforce simp: answers_of_def filter_empty_conv)

lemma answers_of_frame [simp]:
  "answers_of (demo_run r s) = answers_of s" "answers_of (s\<lparr>dr_script := x, dr_started := n\<rparr>) = answers_of s"
  "answers_of (s\<lparr>dr_settled := n\<rparr>) = answers_of s" "answers_of (s\<lparr>dr_tail := t\<rparr>) = answers_of s"
  "answers_of (s\<lparr>dr_registered := b\<rparr>) = answers_of s"
  by (simp_all add: answers_of_def demo_run_def fun_eq_iff)

lemma chain_ok_step: "demo_step s s' \<Longrightarrow> chain_ok s \<Longrightarrow> chain_ok s'"
proof (induction rule: demo_step.induct)
  case (run s request)
  then show ?case by (auto simp: chain_ok_def nth_append split: option.splits) (auto simp: demo_run_def nth_append)
next
  case (start s s')
  then have s': "s' = s\<lparr>dr_script := configureEnterpriseDemoResponses (dr_submitted s ! dr_started s), dr_started := Suc (dr_started s)\<rparr>"
    "dr_started s = dr_settled s" "dr_started s < length (dr_submitted s)" by (auto simp: start_turn_def split: if_splits)
  then show ?case using start(2) answers_of_new [of s "dr_started s"] unfolding chain_ok_def s'(1)
    by (auto simp: less_Suc_eq split: option.splits)
next
  case (answer s s')
  then obtain x xs where s': "s' = s\<lparr>dr_script := xs, dr_sent := dr_sent s @ [(dr_settled s, x)]\<rparr>" "dr_script s = x # xs"
    "dr_settled s < dr_started s" by (auto simp: provider_answers_def split: if_splits list.splits)
  have "answers_of s' i = answers_of s i @ (if i = dr_settled s then [x] else [])" for i
    by (simp add: answers_of_def s'(1))
  then show ?case using answer(2) s'(2,3) unfolding chain_ok_def
    by (auto simp: s'(1) split: option.splits)
next
  case (settle s s')
  then show ?case by (auto simp: settle_turn_def chain_ok_def split: if_splits option.splits; blast)
next
  case (close s)
  then show ?case by (auto simp: close_demo_def chain_ok_def split: option.splits)
next
  case (unregister s s')
  then show ?case by (auto simp: unregister_def chain_ok_def split: if_splits option.splits; blast)
qed

text \<open>
  One turn runs at a time, in the order of submission; what the provider answered in a turn is a beginning of the
  script of its own request; and the provider stays registered until every turn submitted before the close
  has settled.
\<close>

theorem demo_turns_serialized:
  assumes "demo_step\<^sup>*\<^sup>* createDeterministicEnterpriseRuntime s"
  shows "dr_settled s \<le> dr_started s \<and> dr_started s \<le> Suc (dr_settled s) \<and> dr_started s \<le> length (dr_submitted s) \<and>
    (\<forall>i < dr_started s. \<exists>rest. configureEnterpriseDemoResponses (dr_submitted s ! i) = answers_of s i @ rest) \<and>
    (dr_registered s \<or> (\<exists>n. dr_tail s = Some n \<and> n \<le> dr_settled s))"
proof -
  from assms have "chain_ok s"
  proof (induction rule: rtranclp_induct)
    case base
    show ?case by (simp add: chain_ok_def createDeterministicEnterpriseRuntime_def)
  next
    case (step s s')
    then show ?case using chain_ok_step by blast
  qed
  then show ?thesis by (auto simp: chain_ok_def split: option.splits)
qed

end
