(* ===== verification/HttpServing.thy ===== *)
theory HttpServing
  imports WeComCrypto Database
begin

text \<open>
  What the handlers of \<open>src/enterprise/http-api.ts\<close> share: reading a body within its limit, the session
  cookie, and the static files under their root. A request carries its URL as the host parsed it
  (path and query, \<open>None\<close> where the parser throws) and its body as the chunks that arrive before
  the stream ends or breaks off. \<open>JSON.parse\<close> of the decoded bytes is a parameter, \<open>None\<close> where it
  throws. Paths are those of a POSIX host, and the file system follows them without links.
\<close>

section \<open>Requests\<close>

text \<open>
  The origin is absent, or a header that is no URL, or a URL with its \<open>origin\<close> and its \<open>href\<close>.
\<close>

record http_request =
  hr_method :: jstring
  hr_url :: "(jstring \<times> query) option"
  hr_cookie :: "jstring option"
  hr_host :: "jstring option"
  hr_origin :: "(jstring \<times> jstring) option option"
  hr_idempotencyKey :: "jstring option"
  hr_chunks :: "byte list list"
  hr_aborted :: bool

definition BODY_LIMIT_BYTES :: nat where
  "BODY_LIMIT_BYTES = 64 * 1024"

fun read_chunks :: "byte list list \<Rightarrow> nat \<Rightarrow> byte list option" where
  "read_chunks [] n = Some []"
| "read_chunks (c # cs) n =
     (if n + length c > BODY_LIMIT_BYTES then None else map_option ((@) c) (read_chunks cs (n + length c)))"

definition body_bytes :: "http_request \<Rightarrow> byte list option" where
  "body_bytes r = (if hr_aborted r then None else read_chunks (hr_chunks r) 0)"

definition readTextBody :: "http_request \<Rightarrow> jstring option" where
  "readTextBody r = (case body_bytes r of None \<Rightarrow> None | Some bs \<Rightarrow> decode_text bs)"

definition readJsonBody :: "(byte list \<Rightarrow> json option) \<Rightarrow> http_request \<Rightarrow> (error, (jstring \<times> json) list) result" where
  "readJsonBody parse r =
     (case body_bytes r of
        None \<Rightarrow> Inl ''Request body too large.''
      | Some bs \<Rightarrow>
          (case parse bs of
             None \<Rightarrow> Inl ''JSON''
           | Some (JObj body) \<Rightarrow> Inr body
           | Some _ \<Rightarrow> Inl ''Invalid request body.''))"

definition requiredString :: "(jstring \<times> json) list \<Rightarrow> string \<Rightarrow> (error, jstring) result" where
  "requiredString body k =
     (case field body k of Some (JStr s) \<Rightarrow> if trim s = [] then Inl (''Invalid '' @ k @ ''.'') else Inr s
      | _ \<Rightarrow> Inl (''Invalid '' @ k @ ''.''))"

section \<open>The session cookie\<close>

definition SESSION_COOKIE :: jstring where
  "SESSION_COOKIE = js ''support_session''"

definition readCookie :: "jstring option \<Rightarrow> jstring \<Rightarrow> jstring option" where
  "readCookie header name =
     (case header of
        None \<Rightarrow> None
      | Some h \<Rightarrow>
          if h = [] then None
          else map_option (drop (length name + 1)) (List.find (starts_with (name @ [61])) (map trim (split_on 59 h))))"

definition day_names :: "string list" where
  "day_names = [''Sun'', ''Mon'', ''Tue'', ''Wed'', ''Thu'', ''Fri'', ''Sat'']"

definition month_names :: "string list" where
  "month_names = [''Jan'', ''Feb'', ''Mar'', ''Apr'', ''May'', ''Jun'', ''Jul'', ''Aug'', ''Sep'', ''Oct'', ''Nov'', ''Dec'']"

definition toUTCString :: "date \<Rightarrow> jstring" where
  "toUTCString ms =
     (let days = ms div 86400000; t = nat (ms mod 86400000) in
      case civil days of (y, m, d) \<Rightarrow>
        js (day_names ! nat ((days + 4) mod 7)) @ js '', '' @ two d @ [32] @ js (month_names ! (m - 1)) @ [32] @
        four y @ [32] @ two (t div 3600000) @ [58] @ two (t div 60000 mod 60) @ [58] @ two (t div 1000 mod 60) @ js '' GMT'')"

definition sessionCookie :: "jstring \<Rightarrow> date \<Rightarrow> date \<Rightarrow> bool \<Rightarrow> jstring" where
  "sessionCookie token expiresAt now secure =
     join (js ''; '')
       ([SESSION_COOKIE @ [61] @ token, js ''HttpOnly'', js ''SameSite=Strict'', js ''Path=/'',
         js ''Max-Age='' @ show_nat (nat ((expiresAt - now) div 1000)), js ''Expires='' @ toUTCString expiresAt] @
        (if secure then [js ''Secure''] else []))"

definition cleared_cookie :: jstring where
  "cleared_cookie = SESSION_COOKIE @ js ''=; HttpOnly; SameSite=Strict; Path=/; Max-Age=0''"

section \<open>Paths\<close>

text \<open>
  \<open>decodeURIComponent\<close>: the escapes from a percent sign on are the bytes of one character of
  UTF-8; anything else is an error.
\<close>

fun percent_bytes :: "jstring \<Rightarrow> byte list" where
  "percent_bytes (c # a # b # s) =
     (if c = 37 \<and> is_hex a \<and> is_hex b then of_nat (hex_value a * 16 + hex_value b) # percent_bytes s else [])"
| "percent_bytes _ = []"

function decodeURIComponent :: "jstring \<Rightarrow> jstring option" where
  "decodeURIComponent [] = Some []"
| "decodeURIComponent (c # s) =
     (if c \<noteq> 37 then map_option ((#) c) (decodeURIComponent s)
      else (case utf8_next (percent_bytes (c # s)) of
          None \<Rightarrow> None
        | Some (p, n) \<Rightarrow> map_option ((@) (units_of p)) (decodeURIComponent (drop (3 * n - 1) s))))"
  by pat_completeness auto
termination by (relation "measure length") auto

text \<open>\<open>path.resolve\<close> of an absolute base and one more path: empty and single-dot segments vanish, a
  double dot takes the last one away.\<close>

fun normal_segments :: "jstring list \<Rightarrow> jstring list \<Rightarrow> jstring list" where
  "normal_segments acc [] = rev acc"
| "normal_segments acc (x # xs) =
     (if x = [] \<or> x = [46] then normal_segments acc xs
      else if x = [46, 46] then normal_segments (tl acc) xs
      else normal_segments (x # acc) xs)"

definition path_of :: "jstring list \<Rightarrow> jstring" where
  "path_of segments = 47 # join [47] segments"

definition resolve_path :: "jstring \<Rightarrow> jstring \<Rightarrow> jstring" where
  "resolve_path base p =
     path_of (normal_segments [] (split_on 47 (if starts_with [47] p then p else base @ [47] @ p)))"

definition staticRelativePath :: "jstring \<Rightarrow> jstring option" where
  "staticRelativePath pathname =
     (case decodeURIComponent pathname of
        None \<Rightarrow> None
      | Some decoded \<Rightarrow>
          if 0 \<in> set decoded then None
          else (let stripped = dropWhile (\<lambda>c. c = 47) decoded in
            Some (if stripped = [] then js ''index.html'' else stripped)))"

section \<open>Static files\<close>

text \<open>\<open>path.extname\<close> of a normalized path.\<close>

definition basename :: "jstring \<Rightarrow> jstring" where
  "basename p = last (split_on 47 p)"

definition extname :: "jstring \<Rightarrow> jstring" where
  "extname p =
     (let parts = split_on 46 (basename p) in
      if length parts = 1 \<or> (length parts = 2 \<and> hd parts = []) then [] else 46 # last parts)"

definition staticContentType :: "jstring \<Rightarrow> jstring" where
  "staticContentType filePath =
     (let e = to_lower (extname filePath) in
      if e = js ''.html'' then js ''text/html; charset=utf-8''
      else if e = js ''.js'' \<or> e = js ''.mjs'' then js ''text/javascript; charset=utf-8''
      else if e = js ''.css'' then js ''text/css; charset=utf-8''
      else if e = js ''.svg'' then js ''image/svg+xml''
      else if e = js ''.json'' then js ''application/json; charset=utf-8''
      else if e = js ''.png'' then js ''image/png''
      else if e = js ''.jpg'' \<or> e = js ''.jpeg'' then js ''image/jpeg''
      else if e = js ''.ico'' then js ''image/x-icon''
      else if e = js ''.woff2'' then js ''font/woff2''
      else js ''application/octet-stream'')"

text \<open>What the file system has at a path: no regular file, one that cannot be read, or its bytes.\<close>

datatype static_file = No_file | Unreadable | Contents "byte list"

text \<open>The path that is looked up, where the request has one.\<close>

definition static_path :: "jstring \<Rightarrow> jstring \<Rightarrow> jstring \<Rightarrow> jstring option" where
  "static_path cwd staticRoot pathname =
     (case staticRelativePath pathname of
        None \<Rightarrow> None
      | Some relativePath \<Rightarrow>
          (let root = resolve_path cwd staticRoot; filePath = resolve_path root relativePath in
           if starts_with (root @ [47]) filePath then Some filePath else None))"

text \<open>The content type, the length and the bytes that are sent; \<open>Inr None\<close> when the file is not there.\<close>

definition serveStaticFile ::
  "(jstring \<Rightarrow> static_file) \<Rightarrow> jstring \<Rightarrow> jstring \<Rightarrow> jstring \<Rightarrow> (error, (jstring \<times> byte list) option) result" where
  "serveStaticFile files cwd staticRoot pathname =
     (case static_path cwd staticRoot pathname of
        None \<Rightarrow> Inr None
      | Some filePath \<Rightarrow>
          (case files filePath of
             No_file \<Rightarrow> Inr None
           | Unreadable \<Rightarrow> Inl ''EACCES''
           | Contents body \<Rightarrow> Inr (Some (staticContentType filePath, body))))"

end
