(* ===== verification/WeCom.thy ===== *)
theory WeCom
  imports Database RealPolicy
begin

text \<open>
  The channel for staff messages: \<open>WeComCore\<close> of \<open>src/channels/wecom/core.ts\<close> and its Postgres
  repository, \<open>src/channels/wecom/postgres.ts\<close>. A call of \<open>handle\<close> is a process whose steps
  are the code between two awaits; its mutable variables are the fields of a record and its
  constants the arguments of its program point. Calls run concurrently over one repository, which
  may fail before or after it has done its work; the mapping of conversations, the agent and the
  sender answer as the environment likes. Their invocations are the effects of a step, tagged with
  the key of the message. \<open>sha\<close> is SHA-256 in hexadecimal.
\<close>

section \<open>Types\<close>

record wecom_message =
  wm_corpId :: jstring
  wm_applicationId :: jstring
  wm_externalSubjectId :: jstring
  wm_messageId :: jstring
  wm_sentAt :: jstring
  wm_text :: jstring

record wecom_identity =
  wi_bindingId :: jstring
  wi_membershipId :: jstring
  wi_context :: exec_context

datatype wecom_category =
    Invalid_message | Payload_conflict | Identity_unresolved | Conversation_busy
  | Dispatch_unavailable | Delivery_unavailable | Dependency_lost

record wecom_completion =
  wc_state :: inbound_state
  wc_delivery :: delivery_state
  wc_resultType :: "result_type option"
  wc_category :: "wecom_category option"

datatype wecom_claim = Claimed jstring | Duplicate | Conflict

text \<open>The repository interface: an operation that throws gives \<open>None\<close>.\<close>

record 'r wecom_ops =
  wr_claim :: "'r \<Rightarrow> wecom_message \<Rightarrow> jstring \<Rightarrow> jstring \<Rightarrow> 'r \<times> wecom_claim option"
  wr_resolveIdentity :: "'r \<Rightarrow> wecom_message \<Rightarrow> jstring \<Rightarrow> wecom_identity option"
  wr_attachConversation :: "'r \<Rightarrow> jstring \<Rightarrow> wecom_identity \<Rightarrow> jstring \<times> jstring \<Rightarrow> 'r \<times> bool option"
  wr_markDeliveryUncertain :: "'r \<Rightarrow> jstring \<Rightarrow> 'r \<times> unit option"
  wr_finish :: "'r \<Rightarrow> jstring \<Rightarrow> wecom_completion \<Rightarrow> 'r \<times> unit option"

datatype wecom_outcome = Completed result_type | Duplicate_event | Blocked wecom_category

record public_result =
  pr_type :: result_type
  pr_text :: jstring
  pr_piSessionId :: jstring
  pr_toolsCalled :: "jstring list"
  pr_evidence :: "(jstring \<times> jstring \<times> jstring \<times> jstring) list"

type_synonym wecom_key = "jstring \<times> jstring \<times> jstring"

datatype wecom_effect =
    Dispatch wecom_key exec_context "jstring \<times> jstring" jstring
  | Send wecom_key jstring jstring jstring public_result

section \<open>Messages\<close>

definition wecom_field :: "(jstring \<times> json) list \<Rightarrow> string \<Rightarrow> nat \<Rightarrow> jstring option" where
  "wecom_field input key maximum =
     (case field input key of
        Some (JStr s) \<Rightarrow>
          if blank s \<or> \<not> is_well_formed s \<or> 0 \<in> set s \<or> length (code_points s) > maximum then None else Some s
      | _ \<Rightarrow> None)"

text \<open>
  \<open>/^\d{4}-\d{2}-\d{2}T\d{2}:\d{2}:\d{2}(?:\.\d{3})?Z$/\<close>, a time that the host parses, and one
  that \<open>toISOString\<close> shows unchanged: a day past the end of its month and the hour 24 are not.
\<close>

definition sent_at :: "jstring \<Rightarrow> bool" where
  "sent_at s \<longleftrightarrow>
     (let d = take 10 s; t = drop 10 s in
      case time_shape t of
        None \<Rightarrow> False
      | Some f \<Rightarrow> date_shape d \<and> length f \<in> {0, 3} \<and> date_parses d \<and> time_parses t f \<and>
          show_date (normal_date d) = d \<and> hour_of t \<noteq> 24)"

definition parseVerifiedWeComText :: "json \<Rightarrow> jstring \<times> jstring \<Rightarrow> wecom_message option" where
  "parseVerifiedWeComText value receiver =
     (case value of
        JObj input \<Rightarrow>
          if \<not> keys_exactly input [''corpId'', ''applicationId'', ''externalSubjectId'', ''messageId'', ''sentAt'', ''text'']
          then None
          else (case (wecom_field input ''corpId'' 200, wecom_field input ''applicationId'' 200,
              wecom_field input ''externalSubjectId'' 200, wecom_field input ''messageId'' 200,
              wecom_field input ''sentAt'' 200, wecom_field input ''text'' 4000) of
            (Some c, Some a, Some e, Some m, Some s, Some t) \<Rightarrow>
              if (c, a) \<noteq> receiver \<or> \<not> sent_at s then None
              else Some \<lparr>wm_corpId = c, wm_applicationId = a, wm_externalSubjectId = e, wm_messageId = m,
                wm_sentAt = s, wm_text = t\<rparr>
          | _ \<Rightarrow> None)
      | _ \<Rightarrow> None)"

definition weComPayloadHash :: "(jstring \<Rightarrow> jstring) \<Rightarrow> wecom_message \<Rightarrow> jstring" where
  "weComPayloadHash sha m =
     sha (stringify (TArr [TStr (wm_corpId m), TStr (wm_applicationId m), TStr (wm_externalSubjectId m),
       TStr (wm_messageId m), TStr (wm_sentAt m), TStr (wm_text m)]))"

definition message_key :: "wecom_message \<Rightarrow> wecom_key" where
  "message_key m = (wm_corpId m, wm_applicationId m, wm_messageId m)"

definition sameIdentity :: "wecom_identity \<Rightarrow> wecom_identity option \<Rightarrow> bool" where
  "sameIdentity left right =
     (case right of
        None \<Rightarrow> False
      | Some r \<Rightarrow> wi_bindingId left = wi_bindingId r \<and> wi_membershipId left = wi_membershipId r \<and>
          actor_userId (wi_context left) = actor_userId (wi_context r) \<and>
          actor_role (wi_context left) = actor_role (wi_context r) \<and>
          scope_tenantId (wi_context left) = scope_tenantId (wi_context r) \<and>
          scope_storeId (wi_context left) = scope_storeId (wi_context r) \<and>
          actor_capabilities (wi_context left) = actor_capabilities (wi_context r))"

text \<open>The check of a mapped conversation: exactly the two keys, with bounded texts.\<close>

definition mapped_text :: "json option \<Rightarrow> jstring option" where
  "mapped_text v = (case v of Some (JStr s) \<Rightarrow> if blank s \<or> length s > 200 then None else Some s | _ \<Rightarrow> None)"

definition mapped_conversation :: "(jstring \<times> json) list \<Rightarrow> (jstring \<times> jstring) option" where
  "mapped_conversation kvs =
     (if length kvs \<noteq> 2 then None
      else (case (mapped_text (field kvs ''conversationId''), mapped_text (field kvs ''customerId'')) of
          (Some c, Some u) \<Rightarrow> Some (c, u)
        | _ \<Rightarrow> None))"

fun result_name :: "outcome \<Rightarrow> result_type" where
  "result_name Answer = Answered"
| "result_name Fallback_outcome = Fell_back"
| "result_name Escalation = Escalated"

definition publicResult :: "support_result \<Rightarrow> public_result" where
  "publicResult r =
     \<lparr>pr_type = result_name (sr_type r), pr_text = sr_text r, pr_piSessionId = sr_piSessionId r,
      pr_toolsCalled = sr_toolsCalled r,
      pr_evidence = map (\<lambda>e. (gr_id e, gr_kind e, gr_version e, gr_sourceRef e)) (sr_evidence r)\<rparr>"

section \<open>The handler\<close>

datatype fault = No_fault | Fail_before | Fail_after

definition called :: "fault \<Rightarrow> ('r \<Rightarrow> 'r \<times> 'a option) \<Rightarrow> 'r \<Rightarrow> 'r \<times> 'a option" where
  "called f op r = (case f of Fail_before \<Rightarrow> (r, None) | Fail_after \<Rightarrow> (fst (op r), None) | No_fault \<Rightarrow> op r)"

text \<open>
  What the environment answers to an await; each await reads the field that concerns it. The change that an attachment
  or a delivery mark makes in the repository is a step of its own: the handler goes on in a later step
  (\<open>At_dispatch\<close>, \<open>At_deliver\<close>), between which anything may happen.
\<close>

record wecom_answer =
  an_fault :: fault
  an_conversation :: "(jstring \<times> json) list option"
  an_result :: "support_result option"
  an_delivered :: bool

datatype wecom_pc =
    At_claim
  | At_identity
  | At_conversation wecom_identity
  | At_recheck wecom_identity "jstring \<times> jstring"
  | At_attach wecom_identity "jstring \<times> jstring"
  | At_dispatch wecom_identity "jstring \<times> jstring"
  | At_respond wecom_identity "jstring \<times> jstring"
  | At_confirm wecom_identity "jstring \<times> jstring" support_result
  | At_mark wecom_identity "jstring \<times> jstring" support_result
  | At_deliver wecom_identity "jstring \<times> jstring" support_result
  | At_send wecom_identity "jstring \<times> jstring" support_result
  | At_finish wecom_identity "jstring \<times> jstring" support_result
  | At_abandon
  | Returned wecom_outcome

record wecom_handler =
  wh_message :: wecom_message
  wh_requestId :: jstring
  wh_claimId :: "jstring option"
  wh_dispatched :: bool
  wh_deliveryUncertain :: bool
  wh_resultType :: "result_type option"
  wh_category :: wecom_category
  wh_pc :: wecom_pc

definition wecom_start :: "wecom_message \<Rightarrow> jstring \<Rightarrow> wecom_handler" where
  "wecom_start m requestId =
     \<lparr>wh_message = m, wh_requestId = requestId, wh_claimId = None, wh_dispatched = False,
      wh_deliveryUncertain = False, wh_resultType = None, wh_category = Dependency_lost, wh_pc = At_claim\<rparr>"

text \<open>The entry into the \<open>catch\<close> block.\<close>

definition abandon :: "wecom_handler \<Rightarrow> wecom_handler" where
  "abandon h = h\<lparr>wh_pc := (case wh_claimId h of None \<Rightarrow> Returned (Blocked (wh_category h)) | Some _ \<Rightarrow> At_abandon)\<rparr>"

definition abandon_as :: "wecom_category \<Rightarrow> wecom_handler \<Rightarrow> wecom_handler" where
  "abandon_as c h = abandon (h\<lparr>wh_category := c\<rparr>)"

definition resolve_call :: "'r wecom_ops \<Rightarrow> wecom_handler \<Rightarrow> fault \<Rightarrow> 'r \<Rightarrow> wecom_identity option option" where
  "resolve_call ops h f r =
     (if f = No_fault then Some (wr_resolveIdentity ops r (wh_message h) (wh_requestId h)) else None)"

definition advance ::
  "'r wecom_ops \<Rightarrow> (jstring \<Rightarrow> jstring) \<Rightarrow> wecom_answer \<Rightarrow> 'r \<Rightarrow> wecom_handler \<Rightarrow> 'r \<times> wecom_handler \<times> wecom_effect list" where
  "advance ops sha a r h =
     (let f = an_fault a; m = wh_message h; i = the (wh_claimId h) in
      case wh_pc h of
        At_claim \<Rightarrow>
          (case called f (\<lambda>r. wr_claim ops r m (weComPayloadHash sha m) (wh_requestId h)) r of
             (r', None) \<Rightarrow> (r', abandon h, [])
           | (r', Some Duplicate) \<Rightarrow> (r', h\<lparr>wh_pc := Returned Duplicate_event\<rparr>, [])
           | (r', Some Conflict) \<Rightarrow> (r', h\<lparr>wh_pc := Returned (Blocked Payload_conflict)\<rparr>, [])
           | (r', Some (Claimed c)) \<Rightarrow> (r', h\<lparr>wh_claimId := Some c, wh_pc := At_identity\<rparr>, []))
      | At_identity \<Rightarrow>
          (case resolve_call ops h f r of
             None \<Rightarrow> (r, abandon h, [])
           | Some None \<Rightarrow> (r, abandon_as Identity_unresolved h, [])
           | Some (Some w) \<Rightarrow>
               if Agent_invoke \<notin> set (actor_capabilities (wi_context w))
               then (r, abandon_as Identity_unresolved h, []) else (r, h\<lparr>wh_pc := At_conversation w\<rparr>, []))
      | At_conversation w \<Rightarrow>
          (case an_conversation a of
             None \<Rightarrow> (r, abandon h, [])
           | Some kvs \<Rightarrow> (case mapped_conversation kvs of
               None \<Rightarrow> (r, abandon_as Identity_unresolved h, [])
             | Some c \<Rightarrow> (r, h\<lparr>wh_pc := At_recheck w c\<rparr>, [])))
      | At_recheck w c \<Rightarrow>
          (case resolve_call ops h f r of
             None \<Rightarrow> (r, abandon h, [])
           | Some w' \<Rightarrow> if sameIdentity w w' then (r, h\<lparr>wh_pc := At_attach w c\<rparr>, [])
               else (r, abandon_as Identity_unresolved h, []))
      | At_attach w c \<Rightarrow>
          (case called f (\<lambda>r. wr_attachConversation ops r i w c) r of
             (r', None) \<Rightarrow> (r', abandon h, [])
           | (r', Some False) \<Rightarrow> (r', abandon_as Conversation_busy h, [])
           | (r', Some True) \<Rightarrow> (r', h\<lparr>wh_pc := At_dispatch w c\<rparr>, []))
      | At_dispatch w c \<Rightarrow>
          (r, h\<lparr>wh_category := Dispatch_unavailable, wh_dispatched := True, wh_pc := At_respond w c\<rparr>,
            [Dispatch (message_key m) (wi_context w) c (wm_text m)])
      | At_respond w c \<Rightarrow>
          (case an_result a of
             None \<Rightarrow> (r, abandon h, [])
           | Some x \<Rightarrow> (r, h\<lparr>wh_resultType := Some (result_name (sr_type x)), wh_category := Dependency_lost,
                wh_pc := At_confirm w c x\<rparr>, []))
      | At_confirm w c x \<Rightarrow>
          (case resolve_call ops h f r of
             None \<Rightarrow> (r, abandon h, [])
           | Some w' \<Rightarrow> if sameIdentity w w' then (r, h\<lparr>wh_deliveryUncertain := True, wh_pc := At_mark w c x\<rparr>, [])
               else (r, abandon_as Identity_unresolved h, []))
      | At_mark w c x \<Rightarrow>
          (case called f (\<lambda>r. wr_markDeliveryUncertain ops r i) r of
             (r', None) \<Rightarrow> (r', abandon h, [])
           | (r', Some _) \<Rightarrow> (r', h\<lparr>wh_pc := At_deliver w c x\<rparr>, []))
      | At_deliver w c x \<Rightarrow>
          (r, h\<lparr>wh_category := Delivery_unavailable, wh_pc := At_send w c x\<rparr>,
            [Send (message_key m) (wh_requestId h) (wi_bindingId w) (fst c) (publicResult x)])
      | At_send w c x \<Rightarrow>
          if an_delivered a then (r, h\<lparr>wh_category := Dependency_lost, wh_pc := At_finish w c x\<rparr>, [])
          else (r, abandon h, [])
      | At_finish w c x \<Rightarrow>
          (case called f (\<lambda>r. wr_finish ops r i \<lparr>wc_state = In_completed, wc_delivery = Sent,
                wc_resultType = Some (result_name (sr_type x)), wc_category = None\<rparr>) r of
             (r', None) \<Rightarrow> (r', abandon h, [])
           | (r', Some _) \<Rightarrow> (r', h\<lparr>wh_pc := Returned (Completed (result_name (sr_type x)))\<rparr>, []))
      | At_abandon \<Rightarrow>
          (fst (called f (\<lambda>r. wr_finish ops r i
              \<lparr>wc_state = (if wh_dispatched h then In_indeterminate else In_failed),
               wc_delivery = (if wh_deliveryUncertain h then Indeterminate else Not_sent),
               wc_resultType = wh_resultType h, wc_category = Some (wh_category h)\<rparr>) r),
           h\<lparr>wh_pc := Returned (Blocked (wh_category h))\<rparr>, [])
      | Returned out \<Rightarrow> (r, h, []))"

text \<open>A call that the parser refuses returns \<open>Blocked Invalid_message\<close> and makes no process.\<close>

record 'r wecom_system =
  ws_repo :: 'r
  ws_handlers :: "wecom_handler list"
  ws_trace :: "wecom_effect list"

inductive wecom_step ::
  "'r wecom_ops \<Rightarrow> (jstring \<Rightarrow> jstring) \<Rightarrow> jstring \<times> jstring \<Rightarrow> ('r \<Rightarrow> 'r \<Rightarrow> bool) \<Rightarrow>
     'r wecom_system \<Rightarrow> 'r wecom_system \<Rightarrow> bool"
  for ops sha receiver other where
  receive: "parseVerifiedWeComText value receiver = Some m \<Longrightarrow>
     wecom_step ops sha receiver other s (s\<lparr>ws_handlers := ws_handlers s @ [wecom_start m requestId]\<rparr>)"
| advance: "n < length (ws_handlers s) \<Longrightarrow> advance ops sha a (ws_repo s) (ws_handlers s ! n) = (r', h', es) \<Longrightarrow>
     wecom_step ops sha receiver other s
       \<lparr>ws_repo = r', ws_handlers = (ws_handlers s)[n := h'], ws_trace = ws_trace s @ es\<rparr>"
| other: "other (ws_repo s) r' \<Longrightarrow> wecom_step ops sha receiver other s (s\<lparr>ws_repo := r'\<rparr>)"

section \<open>The Postgres repository\<close>

definition inbound_key :: "inbound_row \<Rightarrow> wecom_key" where
  "inbound_key x = (ib_corpId x, ib_applicationId x, ib_messageId x)"

fun category_name :: "wecom_category \<Rightarrow> string" where
  "category_name Invalid_message = ''invalid_request''"
| "category_name Payload_conflict = ''payload_conflict''"
| "category_name Identity_unresolved = ''identity_unresolved''"
| "category_name Conversation_busy = ''conversation_busy''"
| "category_name Dispatch_unavailable = ''dispatch_unavailable''"
| "category_name Delivery_unavailable = ''delivery_unavailable''"
| "category_name Dependency_lost = ''dependency_unavailable''"

text \<open>Rows are never deleted, so the conflicting row of an insertion is there to be read.\<close>

definition pg_claim :: "db \<Rightarrow> wecom_message \<Rightarrow> jstring \<Rightarrow> jstring \<Rightarrow> db \<times> wecom_claim option" where
  "pg_claim d m payloadHash requestId =
     (case List.find (\<lambda>x. inbound_key x = message_key m) (db_inbound d) of
        Some x \<Rightarrow> (d, Some (if ib_payloadHash x = payloadHash then Duplicate else Conflict))
      | None \<Rightarrow>
          if list_ex (\<lambda>x. ib_id x = uuid d) (db_inbound d) then (d, None)
          else (draw (d\<lparr>db_inbound := db_inbound d @
            [\<lparr>ib_id = uuid d, ib_corpId = wm_corpId m, ib_applicationId = wm_applicationId m,
              ib_messageId = wm_messageId m, ib_payloadHash = payloadHash, ib_state = In_processing,
              ib_bindingId = None, ib_scope = None, ib_conversationId = None, ib_requestId = requestId,
              ib_resultType = None, ib_errorCategory = None, ib_delivery = Not_sent\<rparr>]\<rparr>),
            Some (Claimed (uuid d))))"

definition sole_membership :: "db \<Rightarrow> membership \<Rightarrow> bool" where
  "sole_membership d m \<longleftrightarrow> count_where (\<lambda>x. mem_userId x = mem_userId m) (db_memberships d) = 1"

definition pg_resolveIdentity :: "db \<Rightarrow> wecom_message \<Rightarrow> jstring \<Rightarrow> wecom_identity option" where
  "pg_resolveIdentity d msg requestId =
     (case [(b, m). b \<leftarrow> db_bindings d, m \<leftarrow> db_memberships d, u \<leftarrow> db_users d,
         mem_id m = cb_membershipId b \<and> mem_tenantId m = cb_tenantId b \<and> mem_storeId m = cb_storeId b \<and>
         user_id u = mem_userId m \<and> cb_corpId b = wm_corpId msg \<and> cb_applicationId b = wm_applicationId msg \<and>
         cb_subject b = wm_externalSubjectId msg \<and> cb_active b \<and> sole_membership d m] of
        [(b, m)] \<Rightarrow> Some \<lparr>wi_bindingId = cb_id b, wi_membershipId = mem_id m,
          wi_context = createSupportExecutionContext m requestId\<rparr>
      | _ \<Rightarrow> None)"

definition attach_binding :: "db \<Rightarrow> wecom_identity \<Rightarrow> inbound_row \<Rightarrow> channel_binding \<Rightarrow> membership \<Rightarrow> bool" where
  "attach_binding d w x b m \<longleftrightarrow>
     mem_id m = cb_membershipId b \<and> cb_id b = wi_bindingId w \<and> cb_tenantId b = scope_tenantId (wi_context w) \<and>
     cb_storeId b = scope_storeId (wi_context w) \<and> cb_active b \<and> cb_membershipId b = wi_membershipId w \<and>
     mem_userId m = actor_userId (wi_context w) \<and> mem_role m = actor_role (wi_context w) \<and>
     cb_corpId b = ib_corpId x \<and> cb_applicationId b = ib_applicationId x \<and> sole_membership d m"

definition inbound_at :: "wecom_identity \<Rightarrow> jstring \<Rightarrow> inbound_row \<Rightarrow> bool" where
  "inbound_at w c x \<longleftrightarrow>
     ib_scope x = Some (scope_tenantId (wi_context w), scope_storeId (wi_context w)) \<and> ib_conversationId x = Some c"

definition attachable :: "db \<Rightarrow> jstring \<Rightarrow> wecom_identity \<Rightarrow> inbound_row \<Rightarrow> bool" where
  "attachable d i w x \<longleftrightarrow> ib_id x = i \<and> ib_state x = In_processing \<and> ib_bindingId x = None \<and>
     list_ex (\<lambda>b. list_ex (attach_binding d w x b) (db_memberships d)) (db_bindings d)"

definition pg_attachConversation :: "db \<Rightarrow> jstring \<Rightarrow> wecom_identity \<Rightarrow> jstring \<times> jstring \<Rightarrow> db \<times> bool option" where
  "pg_attachConversation d i w c =
     (if count_where (\<lambda>x. cv_id x = fst c \<and> cv_tenantId x = scope_tenantId (wi_context w) \<and>
          cv_storeId x = scope_storeId (wi_context w) \<and> cv_customerId x = snd c) (db_conversations d) \<noteq> 1
      then (d, Some False)
      else if list_ex (\<lambda>x. inbound_at w (fst c) x \<and>
          (ib_state x \<in> {In_processing, In_indeterminate} \<or> ib_bindingId x \<noteq> Some (wi_bindingId w))) (db_inbound d)
      then (d, Some False)
      else (d\<lparr>db_inbound := update_where (attachable d i w)
          (\<lambda>x. x\<lparr>ib_bindingId := Some (wi_bindingId w),
             ib_scope := Some (scope_tenantId (wi_context w), scope_storeId (wi_context w)),
             ib_conversationId := Some (fst c)\<rparr>) (db_inbound d)\<rparr>,
        Some (count_where (attachable d i w) (db_inbound d) = 1)))"

definition update_one :: "(inbound_row \<Rightarrow> bool) \<Rightarrow> (inbound_row \<Rightarrow> inbound_row) \<Rightarrow> db \<Rightarrow> db \<times> unit option" where
  "update_one P g d = (d\<lparr>db_inbound := update_where P g (db_inbound d)\<rparr>,
     if count_where P (db_inbound d) \<noteq> 1 then None else Some ())"

definition pg_markDeliveryUncertain :: "db \<Rightarrow> jstring \<Rightarrow> db \<times> unit option" where
  "pg_markDeliveryUncertain d i =
     update_one (\<lambda>x. ib_id x = i \<and> ib_state x = In_processing \<and> ib_delivery x = Not_sent \<and> ib_conversationId x \<noteq> None)
       (\<lambda>x. x\<lparr>ib_delivery := Indeterminate\<rparr>) d"

definition pg_finish :: "db \<Rightarrow> jstring \<Rightarrow> wecom_completion \<Rightarrow> db \<times> unit option" where
  "pg_finish d i c =
     update_one (\<lambda>x. ib_id x = i \<and> ib_state x = In_processing)
       (\<lambda>x. x\<lparr>ib_state := wc_state c, ib_delivery := wc_delivery c, ib_resultType := wc_resultType c,
          ib_errorCategory := map_option category_name (wc_category c)\<rparr>) d"

definition pg_wecom :: "db wecom_ops" where
  "pg_wecom = \<lparr>wr_claim = pg_claim, wr_resolveIdentity = pg_resolveIdentity,
     wr_attachConversation = pg_attachConversation, wr_markDeliveryUncertain = pg_markDeliveryUncertain,
     wr_finish = pg_finish\<rparr>"

text \<open>Everything else the program does leaves the inbox of this channel alone.\<close>

definition other_work :: "db \<Rightarrow> db \<Rightarrow> bool" where
  "other_work d d' \<longleftrightarrow> db_inbound d' = db_inbound d"

end
