(* ===== verification/WeComClient.thy ===== *)
theory WeComClient
  imports JsonText Bytes
begin

text \<open>
  The client of the customer-service API, \<open>src/channels/wecom/client.ts\<close>. Its state is the cached
  access token; what the network answers to each attempt and what the clock says are arguments.
  An attempt is repeated once, with a new token, when the API calls the token invalid; the requests
  that were posted are part of the result. Lengths in bytes are those of the UTF-8 encoding.
\<close>

section \<open>Validators\<close>

definition optionalBoundedString :: "json option \<Rightarrow> nat \<Rightarrow> jstring option" where
  "optionalBoundedString v maxLength =
     (case v of
        Some (JStr s) \<Rightarrow>
          if length s > 0 \<and> length s \<le> maxLength \<and> 0 \<notin> set s \<and> is_well_formed s then Some s else None
      | _ \<Rightarrow> None)"

definition optionalPositiveInteger :: "json option \<Rightarrow> int \<Rightarrow> int option" where
  "optionalPositiveInteger v maximum =
     (case v of
        Some (JNum n) \<Rightarrow>
          (case as_integer n of
             Some i \<Rightarrow> if 0 \<le> i \<and> i \<le> maximum then Some i else None
           | None \<Rightarrow> None)
      | _ \<Rightarrow> None)"

definition boundedPositiveInteger :: "json option \<Rightarrow> int \<Rightarrow> int option" where
  "boundedPositiveInteger v maximum =
     (case optionalPositiveInteger v maximum of None \<Rightarrow> None | Some i \<Rightarrow> if i < 1 then None else Some i)"

definition validateCredential :: "jstring \<Rightarrow> nat \<Rightarrow> bool" where
  "validateCredential value maxLength \<longleftrightarrow>
     value = trim value \<and> length value \<ge> 1 \<and> length value \<le> maxLength \<and> 0 \<notin> set value \<and> is_well_formed value"

section \<open>Messages\<close>

record synced_text =
  sx_corpId :: jstring
  sx_messageId :: jstring
  sx_openKfId :: jstring
  sx_externalUserId :: jstring
  sx_sentAtUnix :: int
  sx_text :: jstring

record sync_result =
  sy_messageCount :: nat
  sy_textMessages :: "synced_text list"
  sy_hasMore :: bool
  sy_nextCursor :: "jstring option"

record kf_text_message =
  kt_openKfId :: jstring
  kt_externalUserId :: jstring
  kt_messageId :: jstring
  kt_text :: jstring

definition synced_item :: "jstring \<Rightarrow> jstring \<Rightarrow> json \<Rightarrow> synced_text option" where
  "synced_item corpId expectedOpenKfId item =
     (case item of
        JObj message \<Rightarrow>
          if field message ''msgtype'' \<noteq> Some (JStr (js ''text'')) \<or>
            field message ''open_kfid'' \<noteq> Some (JStr expectedOpenKfId) then None
          else (case field message ''text'' of
            Some (JObj t) \<Rightarrow>
              if optionalPositiveInteger (field message ''origin'') 100 \<noteq> Some 3 then None
              else (case (optionalBoundedString (field message ''external_userid'') 256,
                  optionalBoundedString (field message ''msgid'') 256,
                  optionalBoundedString (field t ''content'') 4000,
                  optionalPositiveInteger (field message ''send_time'') max_safe_integer) of
                (Some u, Some i, Some x, Some n) \<Rightarrow>
                  Some \<lparr>sx_corpId = corpId, sx_messageId = i, sx_openKfId = expectedOpenKfId,
                    sx_externalUserId = u, sx_sentAtUnix = n, sx_text = x\<rparr>
              | _ \<Rightarrow> None)
          | _ \<Rightarrow> None)
      | _ \<Rightarrow> None)"

definition parseSyncResult :: "(jstring \<times> json) list \<Rightarrow> jstring \<Rightarrow> jstring \<Rightarrow> sync_result option" where
  "parseSyncResult body corpId expectedOpenKfId =
     (case field body ''msg_list'' of
        Some (JArr items) \<Rightarrow>
          Some \<lparr>sy_messageCount = length items,
            sy_textMessages = List.map_filter (synced_item corpId expectedOpenKfId) items,
            sy_hasMore = (field body ''has_more'' = Some (JNum (Num 1))),
            sy_nextCursor = optionalBoundedString (field body ''next_cursor'') 4096\<rparr>
      | _ \<Rightarrow> None)"

section \<open>Requests\<close>

text \<open>
  The answer to a request: no response (refused, or too late), a response that is not ok, one
  whose body is not a JSON object, and one with a body.
\<close>

datatype api_reply = No_response | Not_ok | Bad_body | Body "(jstring \<times> json) list"

record attempt =
  at_checkedAt :: int
  at_token :: api_reply
  at_storedAt :: int
  at_post :: api_reply

type_synonym token_cache = "(jstring \<times> int) option"

definition errcode :: "(jstring \<times> json) list \<Rightarrow> int \<Rightarrow> bool" where
  "errcode body n \<longleftrightarrow> field body ''errcode'' = Some (JNum (Num (of_int n)))"

definition token_refused :: "(jstring \<times> json) list \<Rightarrow> bool" where
  "token_refused body \<longleftrightarrow> errcode body 40014 \<or> errcode body 42001"

definition safety_window :: int where
  "safety_window = 5 * 60 * 1000"

definition accessToken :: "attempt \<Rightarrow> bool \<Rightarrow> token_cache \<Rightarrow> token_cache \<times> jstring option" where
  "accessToken a forceRefresh cached =
     (let fetched = (case at_token a of
          Body body \<Rightarrow>
            if \<not> errcode body 0 then (cached, None)
            else (case (optionalBoundedString (field body ''access_token'') 2048,
                boundedPositiveInteger (field body ''expires_in'') (24 * 60 * 60)) of
              (Some v, Some n) \<Rightarrow> (Some (v, at_storedAt a + n * 1000), Some v)
            | _ \<Rightarrow> (cached, None))
        | _ \<Rightarrow> (cached, None))
      in case cached of
           Some (v, expiresAt) \<Rightarrow>
             if \<not> forceRefresh \<and> expiresAt - at_checkedAt a > safety_window then (cached, Some v) else fetched
         | None \<Rightarrow> fetched)"

text \<open>\<open>syncOnce\<close>: the attempt with the cached token and, after a refusal of the token, with a new one.\<close>

definition sync_attempt ::
  "attempt \<Rightarrow> jstring \<Rightarrow> jstring \<Rightarrow> bool \<Rightarrow> token_cache \<Rightarrow> token_cache \<times> sync_result option \<times> bool" where
  "sync_attempt a corpId openKfId refresh cached =
     (case accessToken a refresh cached of
        (cached', None) \<Rightarrow> (cached', None, False)
      | (cached', Some token) \<Rightarrow>
          (case at_post a of
             Body body \<Rightarrow>
               if token_refused body then (if refresh then cached' else None, None, \<not> refresh)
               else if \<not> errcode body 0 then (cached', None, False)
               else (cached', parseSyncResult body corpId openKfId, False)
           | _ \<Rightarrow> (cached', None, False)))"

definition syncMessages ::
  "attempt \<Rightarrow> attempt \<Rightarrow> jstring \<Rightarrow> jstring \<Rightarrow> jstring \<Rightarrow> token_cache \<Rightarrow> token_cache \<times> sync_result option" where
  "syncMessages a1 a2 corpId eventToken openKfId cached =
     (if \<not> validateCredential eventToken 2048 \<or> \<not> validateCredential openKfId 128 then (cached, None)
      else (case sync_attempt a1 corpId openKfId False cached of
          (cached', r, True) \<Rightarrow> (case sync_attempt a2 corpId openKfId True cached' of (c, r, _) \<Rightarrow> (c, r))
        | (cached', r, False) \<Rightarrow> (cached', r)))"

section \<open>Sending\<close>

text \<open>\<open>Failed\<close> is an error that is neither of the two classes the callers tell apart.\<close>

datatype send_outcome = Delivered | Send_rejected | Send_indeterminate | Send_failed

text \<open>The outcome of one attempt, whether it asks for another, and whether a request was posted.\<close>

definition send_attempt ::
  "attempt \<Rightarrow> kf_text_message \<Rightarrow> bool \<Rightarrow> token_cache \<Rightarrow> token_cache \<times> send_outcome \<times> bool \<times> bool" where
  "send_attempt a m refresh cached =
     (case accessToken a refresh cached of
        (cached', None) \<Rightarrow> (cached', Send_rejected, False, False)
      | (cached', Some token) \<Rightarrow>
          (case at_post a of
             Body body \<Rightarrow>
               if token_refused body then (if refresh then cached' else None, Send_rejected, \<not> refresh, True)
               else if \<not> errcode body 0 then (cached', Send_rejected, False, True)
               else (case optionalBoundedString (field body ''msgid'') 32 of
                   None \<Rightarrow> (cached', Send_failed, False, True)
                 | Some i \<Rightarrow> (cached', if i \<noteq> kt_messageId m then Send_indeterminate else Delivered, False, True))
           | _ \<Rightarrow> (cached', Send_indeterminate, False, True)))"

definition message_id_char :: "nat \<Rightarrow> bool" where
  "message_id_char c \<longleftrightarrow> is_digit c \<or> (c \<ge> 65 \<and> c \<le> 90) \<or> (c \<ge> 97 \<and> c \<le> 122) \<or> c = 95 \<or> c = 45"

definition sendable :: "kf_text_message \<Rightarrow> bool" where
  "sendable m \<longleftrightarrow> validateCredential (kt_openKfId m) 128 \<and> validateCredential (kt_externalUserId m) 256 \<and>
     length (kt_messageId m) \<in> {1..32} \<and> list_all message_id_char (kt_messageId m) \<and>
     length (kt_text m) \<ge> 1 \<and> 0 \<notin> set (kt_text m) \<and> is_well_formed (kt_text m) \<and> byte_length (kt_text m) \<le> 2048"

text \<open>The result names the attempts that posted the message.\<close>

definition sendTextMessage ::
  "attempt \<Rightarrow> attempt \<Rightarrow> kf_text_message \<Rightarrow> token_cache \<Rightarrow> token_cache \<times> send_outcome \<times> attempt list" where
  "sendTextMessage a1 a2 m cached =
     (if \<not> sendable m then (cached, Send_rejected, [])
      else (case send_attempt a1 m False cached of
          (cached', r, False, posted) \<Rightarrow> (cached', r, if posted then [a1] else [])
        | (cached', r, True, posted) \<Rightarrow>
            (case send_attempt a2 m True cached' of
               (c, r', _, posted') \<Rightarrow> (c, r', (if posted then [a1] else []) @ (if posted' then [a2] else [])))))"

section \<open>Properties\<close>

definition accepted_post :: "attempt \<Rightarrow> bool" where
  "accepted_post a \<longleftrightarrow> (\<exists>body. at_post a = Body body \<and> errcode body 0)"

lemma errcode_unique: "errcode body n \<Longrightarrow> errcode body m \<Longrightarrow> n = m"
  by (simp add: errcode_def)

lemma send_attempt_cases:
  assumes "send_attempt a m refresh cached = (c, r, again, posted)"
  shows "(r = Delivered \<longrightarrow> accepted_post a) \<and> (r = Send_failed \<longrightarrow> accepted_post a) \<and>
    (r = Send_rejected \<longrightarrow> posted \<longrightarrow> \<not> accepted_post a) \<and> (\<not> posted \<longrightarrow> r = Send_rejected) \<and>
    (again \<longrightarrow> r = Send_rejected \<and> posted \<and> \<not> refresh \<and> c = None)"
  using assms errcode_unique
  by (fastforce simp: send_attempt_def accepted_post_def token_refused_def
      split: prod.splits option.splits api_reply.splits if_splits)

text \<open>
  C24. The outcome of sending a text: at most two requests are posted, a second only after the first
  was refused; a message reported as delivered was accepted by the last request; one reported as
  rejected was accepted by none of them; only an accepted request ends in an error of neither
  kind, when its response names no message.
\<close>

theorem send_outcome_sound:
  "case sendTextMessage a1 a2 m cached of (c, r, posts) \<Rightarrow>
     posts \<in> {[], [a1], [a1, a2]} \<and> \<not> list_ex accepted_post (butlast posts) \<and>
     (case r of
        Delivered \<Rightarrow> posts \<noteq> [] \<and> accepted_post (last posts)
      | Send_failed \<Rightarrow> posts \<noteq> [] \<and> accepted_post (last posts)
      | Send_indeterminate \<Rightarrow> posts \<noteq> []
      | Send_rejected \<Rightarrow> \<not> list_ex accepted_post posts)"
proof (cases "sendable m")
  case True
  obtain c r again posted where one: "send_attempt a1 m False cached = (c, r, again, posted)" by (metis prod_cases4)
  obtain c' r' again' posted' where two: "send_attempt a2 m True c = (c', r', again', posted')" by (metis prod_cases4)
  note facts = send_attempt_cases [OF one] send_attempt_cases [OF two]
  have run: "sendTextMessage a1 a2 m cached =
      (if again then (c', r', (if posted then [a1] else []) @ (if posted' then [a2] else []))
       else (c, r, if posted then [a1] else []))"
    by (simp add: sendTextMessage_def True one two)
  show ?thesis unfolding run using facts
    by (cases again; cases posted; cases posted'; cases r; cases r'; simp)
qed (simp add: sendTextMessage_def)

text \<open>
  An accepted message whose response carries no usable identifier is reported neither as
  delivered nor as in doubt: with a cached token, any such response ends in the plain error that
  callers treat as a refusal.
\<close>

theorem accepted_send_fails_plainly:
  "let a = \<lparr>at_checkedAt = now, at_token = t, at_storedAt = n, at_post = Body [(js ''errcode'', JNum (Num 0))]\<rparr>;
       m = \<lparr>kt_openKfId = js ''k'', kt_externalUserId = js ''u'', kt_messageId = js ''m'', kt_text = js ''hi''\<rparr>;
       cached = Some (token, now + safety_window + 1)
   in sendTextMessage a a2 m cached = (cached, Send_failed, [a]) \<and> accepted_post a"
proof -
  have "sendable \<lparr>kt_openKfId = js ''k'', kt_externalUserId = js ''u'', kt_messageId = js ''m'', kt_text = js ''hi''\<rparr>"
    by (simp add: sendable_def validateCredential_def trim_def trim_start_def trim_end_def js_simps is_space_def
        is_well_formed_def is_high_def is_low_def message_id_char_def is_digit_def byte_length_def utf8_ascii)
  then show ?thesis
    by (simp add: Let_def sendTextMessage_def send_attempt_def accessToken_def token_refused_def errcode_def field_def
        optionalBoundedString_def accepted_post_def)
qed

text \<open>
  What a synchronization hands on is well formed whatever the API sends: at most as many texts
  as messages, each of the own corporation and of the asked account, with bounded, well-formed and
  non-empty identifiers and text, and a time that is a safe integer.
\<close>

theorem sync_texts_bounded:
  assumes "syncMessages a1 a2 corpId eventToken openKfId cached = (c, Some r)"
  shows "length (sy_textMessages r) \<le> sy_messageCount r \<and>
    (\<forall>x \<in> set (sy_textMessages r). sx_corpId x = corpId \<and> sx_openKfId x = openKfId \<and>
       0 < length (sx_externalUserId x) \<and> length (sx_externalUserId x) \<le> 256 \<and>
       0 < length (sx_messageId x) \<and> length (sx_messageId x) \<le> 256 \<and>
       0 < length (sx_text x) \<and> length (sx_text x) \<le> 4000 \<and> is_well_formed (sx_text x) \<and> 0 \<notin> set (sx_text x) \<and>
       0 \<le> sx_sentAtUnix x \<and> sx_sentAtUnix x \<le> max_safe_integer)"
proof -
  obtain body where parsed: "parseSyncResult body corpId openKfId = Some r"
    using assms by (auto simp: syncMessages_def sync_attempt_def split: if_splits prod.splits option.splits api_reply.splits bool.splits)
  then obtain items where items: "r = \<lparr>sy_messageCount = length items,
            sy_textMessages = List.map_filter (synced_item corpId openKfId) items,
            sy_hasMore = (field body ''has_more'' = Some (JNum (Num 1))),
            sy_nextCursor = optionalBoundedString (field body ''next_cursor'') 4096\<rparr>"
    by (auto simp: parseSyncResult_def split: option.splits json.splits)
  have "sx_corpId x = corpId \<and> sx_openKfId x = openKfId \<and>
       0 < length (sx_externalUserId x) \<and> length (sx_externalUserId x) \<le> 256 \<and>
       0 < length (sx_messageId x) \<and> length (sx_messageId x) \<le> 256 \<and>
       0 < length (sx_text x) \<and> length (sx_text x) \<le> 4000 \<and> is_well_formed (sx_text x) \<and> 0 \<notin> set (sx_text x) \<and>
       0 \<le> sx_sentAtUnix x \<and> sx_sentAtUnix x \<le> max_safe_integer" if "synced_item corpId openKfId item = Some x" for item x
    using that by (auto simp: synced_item_def optionalBoundedString_def optionalPositiveInteger_def
        split: json.splits option.splits if_splits)
  moreover have "length (List.map_filter f xs) \<le> length xs" for f :: "json \<Rightarrow> synced_text option" and xs
    by (simp add: List.map_filter_def)
  ultimately show ?thesis by (auto simp: items List.map_filter_def)
qed

definition demo_sync :: "(jstring \<times> json) list" where
  "demo_sync = [(js ''errcode'', JNum (Num 0)), (js ''msg_list'', JArr [JObj
     [(js ''msgtype'', JStr (js ''text'')), (js ''open_kfid'', JStr (js ''k'')),
      (js ''text'', JObj [(js ''content'', JStr (js ''hi''))]), (js ''origin'', JNum (Num 3)),
      (js ''external_userid'', JStr (js ''u'')), (js ''msgid'', JStr (js ''m'')), (js ''send_time'', JNum (Num 1))]])]"

definition demo_attempt :: attempt where
  "demo_attempt = \<lparr>at_checkedAt = 0, at_token = No_response, at_storedAt = 0, at_post = Body demo_sync\<rparr>"

theorem sync_texts_bounded_witness:
  "\<exists>r. syncMessages demo_attempt demo_attempt (js ''w'') (js ''t'') (js ''k'') (Some (js ''tok'', safety_window + 1)) =
       (Some (js ''tok'', safety_window + 1), Some r) \<and>
     sy_messageCount r = 1 \<and> length (sy_textMessages r) = 1 \<and> (\<forall>x \<in> set (sy_textMessages r). sx_corpId x = js ''w'')"
proof -
  have parsed: "parseSyncResult demo_sync (js ''w'') (js ''k'') = Some \<lparr>sy_messageCount = 1,
      sy_textMessages = [\<lparr>sx_corpId = js ''w'', sx_messageId = js ''m'', sx_openKfId = js ''k'', sx_externalUserId = js ''u'',
        sx_sentAtUnix = 1, sx_text = js ''hi''\<rparr>], sy_hasMore = False, sy_nextCursor = None\<rparr>" (is "_ = Some ?r")
    by (simp add: parseSyncResult_def demo_sync_def field_def synced_item_def optionalPositiveInteger_def
        optionalBoundedString_def max_safe_integer_def List.map_filter_def js_simps is_well_formed_def is_high_def is_low_def)
  have "errcode demo_sync 0" "\<not> token_refused demo_sync"
    by (simp_all add: errcode_def token_refused_def demo_sync_def field_def)
  then have "sync_attempt demo_attempt (js ''w'') (js ''k'') False (Some (js ''tok'', safety_window + 1)) =
      (Some (js ''tok'', safety_window + 1), Some ?r, False)"
    by (simp add: sync_attempt_def demo_attempt_def accessToken_def parsed)
  moreover have "validateCredential (js ''t'') 2048" "validateCredential (js ''k'') 128"
    by (simp_all add: validateCredential_def trim_def trim_start_def trim_end_def js_simps is_space_def
        is_well_formed_def is_high_def is_low_def)
  ultimately have run: "syncMessages demo_attempt demo_attempt (js ''w'') (js ''t'') (js ''k'') (Some (js ''tok'', safety_window + 1)) =
      (Some (js ''tok'', safety_window + 1), Some ?r)"
    by (simp add: syncMessages_def)
  show ?thesis using sync_texts_bounded [OF run] run by auto
qed

end
