(* ===== verification/WeComCustomer.thy ===== *)
theory WeComCustomer
  imports WeCom WeComClient
begin

text \<open>
  The customer channel: the Postgres router of \<open>src/channels/wecom/customer.ts\<close> and the loop that
  answers the texts of a callback, \<open>routeWeComCustomerTexts\<close> of \<open>src/enterprise/http-api.ts\<close>. A
  callback is a process whose steps are the code between two awaits; callbacks run concurrently
  over one router, whose operations may fail before or after their effect, while the support
  service and the client answer as the environment likes. The counters of the loop are the
  occurrences of their names in a list.
\<close>

section \<open>Types\<close>

record customer_route =
  rt_channelBindingId :: jstring
  rt_customerBindingId :: jstring
  rt_customerId :: jstring
  rt_conversationId :: jstring
  rt_context :: exec_context

datatype customer_error =
    Unbound_channel | Route_attach_failed | Routing_error | Agent_execution_error
  | Outbound_send_failed | Outbound_send_indeterminate | Completion_persist_failed

fun customer_error_name :: "customer_error \<Rightarrow> string" where
  "customer_error_name Unbound_channel = ''unbound_channel''"
| "customer_error_name Route_attach_failed = ''route_attach_failed''"
| "customer_error_name Routing_error = ''routing_error''"
| "customer_error_name Agent_execution_error = ''agent_execution_error''"
| "customer_error_name Outbound_send_failed = ''outbound_send_failed''"
| "customer_error_name Outbound_send_indeterminate = ''outbound_send_indeterminate''"
| "customer_error_name Completion_persist_failed = ''completion_persist_failed''"

text \<open>The router interface: an operation that throws gives \<open>None\<close>.\<close>

record 'r customer_ops =
  cr_claim :: "'r \<Rightarrow> synced_text \<Rightarrow> jstring \<Rightarrow> 'r \<times> wecom_claim option"
  cr_resolveRoute :: "'r \<Rightarrow> synced_text \<Rightarrow> jstring \<Rightarrow> 'r \<times> customer_route option option"
  cr_attachRoute :: "'r \<Rightarrow> jstring \<Rightarrow> customer_route \<Rightarrow> 'r \<times> bool option"
  cr_complete :: "'r \<Rightarrow> jstring \<Rightarrow> result_type \<Rightarrow> 'r \<times> bool option"
  cr_markFailed :: "'r \<Rightarrow> jstring \<Rightarrow> customer_error \<Rightarrow> 'r \<times> bool option"
  cr_markIndeterminate :: "'r \<Rightarrow> jstring \<Rightarrow> customer_error \<Rightarrow> 'r \<times> bool option"

definition weComCustomerPayloadHash :: "(jstring \<Rightarrow> jstring) \<Rightarrow> synced_text \<Rightarrow> jstring" where
  "weComCustomerPayloadHash sha m =
     sha (stringify (TArr [TStr (sx_corpId m), TStr (sx_openKfId m), TStr (sx_externalUserId m),
       TStr (sx_messageId m), TNat (nat (sx_sentAtUnix m)), TStr (sx_text m)]))"

section \<open>The Postgres router\<close>

definition text_key :: "synced_text \<Rightarrow> wecom_key" where
  "text_key m = (sx_corpId m, sx_openKfId m, sx_messageId m)"

definition customer_key :: "customer_inbound \<Rightarrow> wecom_key" where
  "customer_key x = (ci_corpId x, ci_openKfId x, ci_messageId x)"

definition customer_claim :: "(jstring \<Rightarrow> jstring) \<Rightarrow> db \<Rightarrow> synced_text \<Rightarrow> jstring \<Rightarrow> db \<times> wecom_claim option" where
  "customer_claim sha d m requestId =
     (case List.find (\<lambda>x. customer_key x = text_key m) (db_customerInbound d) of
        Some x \<Rightarrow> (d, Some (if ci_payloadHash x = weComCustomerPayloadHash sha m then Duplicate else Conflict))
      | None \<Rightarrow>
          if list_ex (\<lambda>x. ci_id x = uuid d) (db_customerInbound d) then (d, None)
          else (draw (d\<lparr>db_customerInbound := db_customerInbound d @
            [\<lparr>ci_id = uuid d, ci_corpId = sx_corpId m, ci_openKfId = sx_openKfId m, ci_messageId = sx_messageId m,
              ci_payloadHash = weComCustomerPayloadHash sha m, ci_state = In_processing, ci_requestId = requestId,
              ci_route = None, ci_resultType = None, ci_errorCategory = None\<rparr>]\<rparr>),
            Some (Claimed (uuid d))))"

definition lockAuthority :: "db \<Rightarrow> synced_text \<Rightarrow> (kf_channel \<times> membership) option" where
  "lockAuthority d msg =
     (case [(c, m). c \<leftarrow> db_channels d, m \<leftarrow> db_memberships d,
         mem_id m = kf_membershipId c \<and> mem_tenantId m = kf_tenantId c \<and> mem_storeId m = kf_storeId c \<and>
         kf_corpId c = sx_corpId msg \<and> kf_openKfId c = sx_openKfId msg \<and> kf_active c] of
        [x] \<Rightarrow> Some x
      | _ \<Rightarrow> None)"

text \<open>
  The new conversation and binding of an unknown customer take three random identifiers; a taken
  one or a missing parent row fails and is rolled back.
\<close>

definition new_customer :: "db \<Rightarrow> kf_channel \<Rightarrow> synced_text \<Rightarrow> db \<times> customer_binding option" where
  "new_customer d c m =
     (let b = \<lparr>cu_id = js ''wecom-customer-binding-'' @ uuid d, cu_channelId = kf_id c, cu_tenantId = kf_tenantId c,
            cu_storeId = kf_storeId c, cu_externalUserId = sx_externalUserId m,
            cu_customerId = js ''wecom-customer-'' @ uuid (draw d),
            cu_conversationId = js ''wecom-conversation-'' @ uuid (draw (draw d))\<rparr>;
          v = \<lparr>cv_id = cu_conversationId b, cv_tenantId = kf_tenantId c, cv_storeId = kf_storeId c,
            cv_customerId = cu_customerId b, cv_piSessionId = None, cv_createdAt = db_now d, cv_updatedAt = db_now d\<rparr>;
          d' = draw (draw (draw d))
      in if list_ex (\<lambda>x. cv_id x = cv_id v) (db_conversations d) \<or> \<not> has_store d (kf_tenantId c) (kf_storeId c) \<or>
           list_ex (\<lambda>x. cu_id x = cu_id b) (db_customers d)
         then (d', None)
         else (d'\<lparr>db_conversations := db_conversations d @ [v], db_customers := db_customers d @ [b]\<rparr>, Some b))"

definition route_for :: "kf_channel \<Rightarrow> customer_binding \<Rightarrow> exec_context \<Rightarrow> customer_route" where
  "route_for c b ctx =
     \<lparr>rt_channelBindingId = kf_id c, rt_customerBindingId = cu_id b, rt_customerId = cu_customerId b,
      rt_conversationId = cu_conversationId b, rt_context = ctx\<rparr>"

definition resolveRoute :: "db \<Rightarrow> synced_text \<Rightarrow> jstring \<Rightarrow> db \<times> customer_route option option" where
  "resolveRoute d msg requestId =
     (case lockAuthority d msg of
        None \<Rightarrow> (d, Some None)
      | Some (c, m) \<Rightarrow>
          (let context = createSupportExecutionContext m requestId in
           if Agent_invoke \<notin> set (actor_capabilities context) then (d, Some None)
           else (case List.find (\<lambda>b. cu_channelId b = kf_id c \<and> cu_externalUserId b = sx_externalUserId msg) (db_customers d) of
               Some b \<Rightarrow> (d, Some (Some (route_for c b context)))
             | None \<Rightarrow> (case new_customer d c msg of
                 (d', None) \<Rightarrow> (d', None)
               | (d', Some b) \<Rightarrow> (d', Some (Some (route_for c b context)))))))"

definition update_inbound ::
  "(customer_inbound \<Rightarrow> bool) \<Rightarrow> (customer_inbound \<Rightarrow> customer_inbound) \<Rightarrow> db \<Rightarrow> db \<times> bool option" where
  "update_inbound P g d = (d\<lparr>db_customerInbound := update_where P g (db_customerInbound d)\<rparr>,
     Some (count_where P (db_customerInbound d) = 1))"

definition route_columns :: "customer_route \<Rightarrow> jstring \<times> jstring \<times> jstring \<times> jstring \<times> jstring" where
  "route_columns r = (rt_channelBindingId r, rt_customerBindingId r, scope_tenantId (rt_context r),
     scope_storeId (rt_context r), rt_conversationId r)"

definition attachRoute :: "db \<Rightarrow> jstring \<Rightarrow> customer_route \<Rightarrow> db \<times> bool option" where
  "attachRoute d i r =
     (let P = (\<lambda>x. ci_id x = i \<and> ci_state x = In_processing \<and> ci_route x = None) in
      if list_ex P (db_customerInbound d) \<and>
        \<not> list_ex (\<lambda>b. (cu_channelId b, cu_id b, cu_tenantId b, cu_storeId b, cu_conversationId b) = route_columns r) (db_customers d)
      then (d, None)
      else update_inbound P (\<lambda>x. x\<lparr>ci_state := In_routed, ci_route := Some (route_columns r)\<rparr>) d)"

definition complete :: "db \<Rightarrow> jstring \<Rightarrow> result_type \<Rightarrow> db \<times> bool option" where
  "complete d i t = update_inbound (\<lambda>x. ci_id x = i \<and> ci_state x = In_routed)
     (\<lambda>x. x\<lparr>ci_state := In_completed, ci_resultType := Some t, ci_errorCategory := None\<rparr>) d"

definition markFailed :: "db \<Rightarrow> jstring \<Rightarrow> customer_error \<Rightarrow> db \<times> bool option" where
  "markFailed d i e = update_inbound (\<lambda>x. ci_id x = i \<and> ci_state x \<in> {In_processing, In_routed})
     (\<lambda>x. x\<lparr>ci_state := In_failed, ci_errorCategory := Some (customer_error_name e)\<rparr>) d"

definition markIndeterminate :: "db \<Rightarrow> jstring \<Rightarrow> customer_error \<Rightarrow> db \<times> bool option" where
  "markIndeterminate d i e = update_inbound (\<lambda>x. ci_id x = i \<and> ci_state x = In_routed)
     (\<lambda>x. x\<lparr>ci_state := In_indeterminate, ci_errorCategory := Some (customer_error_name e)\<rparr>) d"

definition pg_customer :: "(jstring \<Rightarrow> jstring) \<Rightarrow> db customer_ops" where
  "pg_customer sha = \<lparr>cr_claim = customer_claim sha, cr_resolveRoute = resolveRoute, cr_attachRoute = attachRoute,
     cr_complete = complete, cr_markFailed = markFailed, cr_markIndeterminate = markIndeterminate\<rparr>"

section \<open>The loop over the texts of a callback\<close>

datatype tally =
    T_claimed | T_duplicates | T_conflicts | T_routed | T_completed | T_unbound | T_routeAttachFailed
  | T_routingErrors | T_executionErrors | T_outboundAccepted | T_outboundRejected
  | T_outboundIndeterminate | T_completionPersistFailed

datatype customer_pc =
    C_claim synced_text jstring
  | C_resolve synced_text jstring jstring
  | C_unbound jstring
  | C_attach synced_text jstring customer_route
  | C_attachFailed jstring
  | C_routingError jstring
  | C_respond synced_text jstring customer_route
  | C_executionError jstring
  | C_send jstring support_result
  | C_sendFailed jstring
  | C_sendIndeterminate jstring
  | C_complete jstring result_type
  | C_persistFailed jstring
  | C_done
  | C_thrown

record customer_process =
  cp_queue :: "synced_text list"
  cp_tally :: "tally list"
  cp_pc :: customer_pc

record customer_answer =
  ca_fault :: fault
  ca_requestId :: jstring
  ca_result :: "support_result option"
  ca_sent :: send_outcome

text \<open>The agent is started for a text; a text is handed to the client.\<close>

datatype customer_effect =
    Respond synced_text customer_route
  | Send_text synced_text kf_text_message

definition next_text :: "customer_answer \<Rightarrow> customer_process \<Rightarrow> customer_process" where
  "next_text a p = (case cp_queue p of
      [] \<Rightarrow> p\<lparr>cp_pc := C_done\<rparr>
    | m # q \<Rightarrow> p\<lparr>cp_queue := q, cp_pc := C_claim m (ca_requestId a)\<rparr>)"

definition count_up :: "tally \<Rightarrow> customer_process \<Rightarrow> customer_process" where
  "count_up t p = p\<lparr>cp_tally := cp_tally p @ [t]\<rparr>"

definition start_loop :: "customer_answer \<Rightarrow> synced_text list \<Rightarrow> customer_process" where
  "start_loop a messages = next_text a \<lparr>cp_queue = messages, cp_tally = [], cp_pc = C_done\<rparr>"

definition weComOutboundMessageId :: "(jstring \<Rightarrow> jstring) \<Rightarrow> jstring \<Rightarrow> jstring" where
  "weComOutboundMessageId sha claimId = js ''fa_'' @ take 29 (sha claimId)"

definition outbound :: "(jstring \<Rightarrow> jstring) \<Rightarrow> synced_text \<Rightarrow> jstring \<Rightarrow> support_result \<Rightarrow> kf_text_message" where
  "outbound sha m i x = \<lparr>kt_openKfId = sx_openKfId m, kt_externalUserId = sx_externalUserId m,
     kt_messageId = weComOutboundMessageId sha i, kt_text = sr_text x\<rparr>"

definition customer_advance ::
  "'r customer_ops \<Rightarrow> (jstring \<Rightarrow> jstring) \<Rightarrow> customer_answer \<Rightarrow> 'r \<Rightarrow> customer_process \<Rightarrow>
     'r \<times> customer_process \<times> customer_effect list" where
  "customer_advance ops sha a r p =
     (let f = ca_fault a;
          goto = (\<lambda>pc. p\<lparr>cp_pc := pc\<rparr>);
          counted = (\<lambda>t. next_text a (count_up t p))
      in case cp_pc p of
        C_claim m q \<Rightarrow>
          (case called f (\<lambda>r. cr_claim ops r m q) r of
             (r', None) \<Rightarrow> (r', goto C_thrown, [])
           | (r', Some Duplicate) \<Rightarrow> (r', counted T_duplicates, [])
           | (r', Some Conflict) \<Rightarrow> (r', counted T_conflicts, [])
           | (r', Some (Claimed i)) \<Rightarrow> (r', (count_up T_claimed p)\<lparr>cp_pc := C_resolve m q i\<rparr>, []))
      | C_resolve m q i \<Rightarrow>
          (case called f (\<lambda>r. cr_resolveRoute ops r m q) r of
             (r', None) \<Rightarrow> (r', goto (C_routingError i), [])
           | (r', Some None) \<Rightarrow> (r', goto (C_unbound i), [])
           | (r', Some (Some route)) \<Rightarrow> (r', goto (C_attach m i route), []))
      | C_unbound i \<Rightarrow>
          (case called f (\<lambda>r. cr_markFailed ops r i Unbound_channel) r of
             (r', None) \<Rightarrow> (r', goto (C_routingError i), [])
           | (r', Some _) \<Rightarrow> (r', counted T_unbound, []))
      | C_attach m i route \<Rightarrow>
          (case called f (\<lambda>r. cr_attachRoute ops r i route) r of
             (r', None) \<Rightarrow> (r', goto (C_routingError i), [])
           | (r', Some False) \<Rightarrow> (r', goto (C_attachFailed i), [])
           | (r', Some True) \<Rightarrow> (r', (count_up T_routed p)\<lparr>cp_pc := C_respond m i route\<rparr>, [Respond m route]))
      | C_attachFailed i \<Rightarrow>
          (case called f (\<lambda>r. cr_markFailed ops r i Route_attach_failed) r of
             (r', None) \<Rightarrow> (r', goto (C_routingError i), [])
           | (r', Some _) \<Rightarrow> (r', counted T_routeAttachFailed, []))
      | C_routingError i \<Rightarrow>
          (fst (called f (\<lambda>r. cr_markFailed ops r i Routing_error) r), counted T_routingErrors, [])
      | C_respond m i route \<Rightarrow>
          (case ca_result a of
             None \<Rightarrow> (r, goto (C_executionError i), [])
           | Some x \<Rightarrow> (r, goto (C_send i x), [Send_text m (outbound sha m i x)]))
      | C_executionError i \<Rightarrow>
          (fst (called f (\<lambda>r. cr_markFailed ops r i Agent_execution_error) r), counted T_executionErrors, [])
      | C_send i x \<Rightarrow>
          (case ca_sent a of
             Delivered \<Rightarrow> (r, (count_up T_outboundAccepted p)\<lparr>cp_pc := C_complete i (result_name (sr_type x))\<rparr>, [])
           | Send_indeterminate \<Rightarrow> (r, goto (C_sendIndeterminate i), [])
           | _ \<Rightarrow> (r, goto (C_sendFailed i), []))
      | C_sendFailed i \<Rightarrow>
          (fst (called f (\<lambda>r. cr_markFailed ops r i Outbound_send_failed) r), counted T_outboundRejected, [])
      | C_sendIndeterminate i \<Rightarrow>
          (fst (called f (\<lambda>r. cr_markIndeterminate ops r i Outbound_send_indeterminate) r), counted T_outboundIndeterminate, [])
      | C_complete i t \<Rightarrow>
          (case called f (\<lambda>r. cr_complete ops r i t) r of
             (r', Some True) \<Rightarrow> (r', counted T_completed, [])
           | (r', _) \<Rightarrow> (r', goto (C_persistFailed i), []))
      | C_persistFailed i \<Rightarrow>
          (fst (called f (\<lambda>r. cr_markIndeterminate ops r i Completion_persist_failed) r), counted T_completionPersistFailed, [])
      | _ \<Rightarrow> (r, p, []))"

record 'r customer_system =
  cs_repo :: 'r
  cs_processes :: "customer_process list"
  cs_trace :: "customer_effect list"

inductive customer_step ::
  "'r customer_ops \<Rightarrow> (jstring \<Rightarrow> jstring) \<Rightarrow> ('r \<Rightarrow> 'r \<Rightarrow> bool) \<Rightarrow> 'r customer_system \<Rightarrow> 'r customer_system \<Rightarrow> bool"
  for ops sha other where
  callback: "customer_step ops sha other s (s\<lparr>cs_processes := cs_processes s @ [start_loop a messages]\<rparr>)"
| advance: "n < length (cs_processes s) \<Longrightarrow>
     customer_advance ops sha a (cs_repo s) (cs_processes s ! n) = (r', p', es) \<Longrightarrow>
     customer_step ops sha other s
       \<lparr>cs_repo = r', cs_processes = (cs_processes s)[n := p'], cs_trace = cs_trace s @ es\<rparr>"
| other: "other (cs_repo s) r' \<Longrightarrow> customer_step ops sha other s (s\<lparr>cs_repo := r'\<rparr>)"

end
