(* ===== verification/WeComStaff.thy ===== *)
theory WeComStaff
  imports StoreOps WeCom WeComClient
begin

text \<open>
  The staff channel of \<open>src/channels/wecom/staff.ts\<close>: a new booking intent is offered to one member
  of the staff as a card, and a pressed button confirms or cancels it, once. A call is a process whose
  steps are the code between two awaits; every statement and transaction may fail before or
  after its effect, and the staff application and the customer client answer as the environment
  likes. The locks a transaction takes on the rows it reads make it one step.
\<close>

section \<open>Types\<close>

record staff_config =
  sc_corpId :: jstring
  sc_agentId :: jstring
  sc_appSecret :: jstring
  sc_token :: jstring
  sc_encodingAesKey :: jstring

record staff_event =
  se_userId :: jstring
  se_agentId :: jstring
  se_taskId :: jstring
  se_eventKey :: jstring
  se_responseCode :: jstring

datatype staff_delivery = D_accepted | D_rejected | D_indeterminate

fun delivery_column :: "staff_delivery \<Rightarrow> delivery_state" where
  "delivery_column D_accepted = Accepted"
| "delivery_column D_rejected = Rejected"
| "delivery_column D_indeterminate = Indeterminate"

record card_input =
  card_userId :: jstring
  card_taskId :: jstring
  card_storeName :: jstring
  card_bookingId :: jstring
  card_service :: jstring
  card_interval :: "(jstring \<times> jstring) option"
  card_version :: int
  card_customerSource :: jstring

text \<open>The two columns of a task that record an attempt made after the commit.\<close>

datatype attempt_column = Feedback_state | Customer_delivery_state

fun attempt_state :: "attempt_column \<Rightarrow> notification \<Rightarrow> delivery_state" where
  "attempt_state Feedback_state n = nf_feedback n"
| "attempt_state Customer_delivery_state n = nf_customer n"

fun set_attempt :: "attempt_column \<Rightarrow> delivery_state \<Rightarrow> notification \<Rightarrow> notification" where
  "set_attempt Feedback_state x n = n\<lparr>nf_feedback := x\<rparr>"
| "set_attempt Customer_delivery_state x n = n\<lparr>nf_customer := x\<rparr>"

section \<open>Members of the staff\<close>

definition staffSelect :: "db \<Rightarrow> staff_config \<Rightarrow> (channel_binding \<times> membership) list" where
  "staffSelect d cfg = [(b, m). b \<leftarrow> db_bindings d, m \<leftarrow> db_memberships d,
     mem_id m = cb_membershipId b \<and> mem_tenantId m = cb_tenantId b \<and> mem_storeId m = cb_storeId b \<and>
     cb_corpId b = sc_corpId cfg \<and> cb_applicationId b = sc_agentId cfg \<and> cb_active b \<and> sole_membership d m]"

definition contextFor :: "membership \<Rightarrow> jstring \<Rightarrow> (storeops_error, exec_context) result" where
  "contextFor m requestId =
     (if Booking_manage \<notin> set (capabilitiesForRole (mem_role m)) then Inl Forbidden
      else Inr (createSupportExecutionContext m requestId))"

definition agent_id_ok :: "jstring \<Rightarrow> bool" where
  "agent_id_ok s \<longleftrightarrow> (case s of [] \<Rightarrow> False | c # cs \<Rightarrow> is_digit c \<and> c \<noteq> 48 \<and> list_all is_digit cs \<and> length cs \<le> 9)"

definition binding_key :: "jstring \<Rightarrow> jstring \<Rightarrow> jstring \<Rightarrow> channel_binding \<Rightarrow> bool" where
  "binding_key corp agent subject b \<longleftrightarrow> cb_corpId b = corp \<and> cb_applicationId b = agent \<and> cb_subject b = subject"

definition provision_in :: "jstring \<Rightarrow> jstring \<Rightarrow> jstring \<Rightarrow> jstring \<Rightarrow> jstring tx" where
  "provision_in corpId agentId userId membershipId d =
     (case List.find (\<lambda>m. mem_id m = membershipId) (db_memberships d) of
        None \<Rightarrow> (d, Inl Not_found)
      | Some member \<Rightarrow>
          (let taken = list_ex (binding_key corpId agentId userId) (db_bindings d);
               b = \<lparr>cb_id = uuid d, cb_tenantId = mem_tenantId member, cb_storeId = mem_storeId member,
                 cb_corpId = corpId, cb_applicationId = agentId, cb_subject = userId, cb_membershipId = mem_id member,
                 cb_active = True\<rparr>
           in if \<not> taken \<and> list_ex (\<lambda>x. cb_id x = cb_id b) (db_bindings d) then (d, Inl Database_failure)
             else (let d' = (if taken then draw d else draw (d\<lparr>db_bindings := db_bindings d @ [b]\<rparr>))
               in case List.find (binding_key corpId agentId userId) (db_bindings d') of
                    None \<Rightarrow> (d', Inl Forbidden)
                  | Some existing \<Rightarrow>
                      if cb_membershipId existing \<noteq> mem_id member \<or> cb_tenantId existing \<noteq> mem_tenantId member \<or>
                        cb_storeId existing \<noteq> mem_storeId member \<or> \<not> cb_active existing
                      then (d', Inl Forbidden) else (d', Inr (cb_id existing)))))"

definition provisionStaffBinding :: "jstring \<Rightarrow> jstring \<Rightarrow> jstring \<Rightarrow> jstring \<Rightarrow> jstring tx" where
  "provisionStaffBinding corpId agentId userId membershipId d =
     (if \<not> list_all (\<lambda>s. \<not> isl (boundedId (Some (JStr s)))) [corpId, agentId, userId, membershipId] \<or>
        \<not> agent_id_ok agentId \<or> 124 \<in> set userId \<or> userId = js ''@all''
      then (d, Inl Invalid_request)
      else transaction True (provision_in corpId agentId userId membershipId) d)"

definition staffCustomerText :: "booking_status \<Rightarrow> jstring option \<Rightarrow> jstring option" where
  "staffCustomerText status confirmedStart =
     (case (status, confirmedStart) of
        (Confirmed, Some start) \<Rightarrow> if start = [] then None else
          Some ([0x5DE5, 0x4F5C, 0x4EBA, 0x5458, 0x5DF2, 0x786E, 0x8BA4, 0x60A8, 0x7684, 0x9884, 0x7EA6, 0x610F,
            0x5411, 0xFF0C, 0x786E, 0x8BA4, 0x65F6, 0x95F4, 0x4E3A, 0x20] @ start @ [0x3002, 0x6B64, 0x786E,
            0x8BA4, 0x4E3A, 0x610F, 0x5411, 0x5904, 0x7406, 0x7ED3, 0x679C, 0xFF0C, 0x4E0D, 0x4EE3, 0x8868, 0x5BB9,
            0x91CF, 0x9501, 0x5B9A, 0x3002])
      | (Cancelled, _) \<Rightarrow> Some [0x8BE5, 0x9884, 0x7EA6, 0x610F, 0x5411, 0x5DF2, 0x53D6, 0x6D88, 0xFF0C,
        0x8BF7, 0x8054, 0x7CFB, 0x5DE5, 0x4F5C, 0x4EBA, 0x5458, 0x4E86, 0x89E3, 0x8BE6, 0x60C5, 0x3002]
      | _ \<Rightarrow> None)"

section \<open>Offering a booking\<close>

datatype prepared = Unprepared | Prepared_before | Prepared card_input

definition may_create :: "db \<Rightarrow> exec_context \<Rightarrow> bool" where
  "may_create d ctx \<longleftrightarrow> (case filter (\<lambda>m. mem_userId m = actor_userId ctx) (db_memberships d) of
       [m] \<Rightarrow> mem_tenantId m = scope_tenantId ctx \<and> mem_storeId m = scope_storeId ctx \<and> mem_role m = actor_role ctx \<and>
         Booking_create \<in> set (capabilitiesForRole (mem_role m)) \<and> Booking_create \<in> set (actor_capabilities ctx)
     | _ \<Rightarrow> False)"

definition staff_recipient :: "db \<Rightarrow> staff_config \<Rightarrow> exec_context \<Rightarrow> booking_row \<Rightarrow> channel_binding option" where
  "staff_recipient d cfg ctx b =
     (let candidates = filter (\<lambda>(x, m). mem_tenantId m = scope_tenantId ctx \<and> mem_storeId m = scope_storeId ctx \<and>
            Booking_manage \<in> set (capabilitiesForRole (mem_role m))) (staffSelect d cfg);
          preferred = filter (\<lambda>(x, m). Some (mem_id m) = bk_preferredStaff b) candidates
      in case preferred of
           [(x, m)] \<Rightarrow> Some x
         | [] \<Rightarrow> (case candidates of [(x, m)] \<Rightarrow> Some x | _ \<Rightarrow> None)
         | _ \<Rightarrow> None)"

definition same_task :: "staff_config \<Rightarrow> booking_row \<Rightarrow> notification \<Rightarrow> bool" where
  "same_task cfg b n \<longleftrightarrow> nf_bookingId n = bk_id b \<and> nf_expectedVersion n = bk_version b \<and>
     nf_corpId n = sc_corpId cfg \<and> nf_applicationId n = sc_agentId cfg"

definition new_task :: "staff_config \<Rightarrow> booking_row \<Rightarrow> channel_binding \<Rightarrow> jstring \<Rightarrow> notification" where
  "new_task cfg b x task =
     \<lparr>nf_taskId = task, nf_bookingId = bk_id b, nf_tenantId = bk_tenantId b, nf_storeId = bk_storeId b,
      nf_corpId = sc_corpId cfg, nf_applicationId = sc_agentId cfg, nf_bindingId = cb_id x,
      nf_expectedVersion = bk_version b, nf_delivery = Indeterminate, nf_feedback = Not_sent, nf_customer = Not_sent\<rparr>"

definition card_for :: "db \<Rightarrow> booking_row \<Rightarrow> store_rec \<Rightarrow> channel_binding \<Rightarrow> jstring \<Rightarrow> card_input" where
  "card_for d b st x task =
     \<lparr>card_userId = cb_subject x, card_taskId = task, card_storeName = store_name st, card_bookingId = bk_id b,
      card_service = bk_requestedService b, card_interval = bk_requested b, card_version = bk_version b,
      card_customerSource =
        (if list_ex (\<lambda>c. cu_conversationId c = bk_conversationId b \<and> cu_tenantId c = bk_tenantId b \<and>
            cu_storeId c = bk_storeId b \<and> cu_customerId c = bk_customerId b) (db_customers d)
         then js ''WeChat Customer Service'' else js ''other'')\<rparr>"

text \<open>
  The keys that the new row refers to were read in the same transaction, so only its own key and the
  check of its version can refuse it.
\<close>

definition notify_in :: "staff_config \<Rightarrow> exec_context \<Rightarrow> jstring \<Rightarrow> prepared tx" where
  "notify_in cfg ctx bookingId d =
     (if \<not> may_create d ctx then (d, Inl Forbidden)
      else (case List.find (booking_at ctx bookingId) (db_bookings d) of
          None \<Rightarrow> (d, Inl Not_found)
        | Some b \<Rightarrow>
            (case List.find (\<lambda>s. store_id s = bk_storeId b \<and> store_tenantId s = bk_tenantId b) (db_stores d) of
               None \<Rightarrow> (d, Inl Not_found)
             | Some st \<Rightarrow>
                 if bk_status b \<noteq> Pending_confirmation then (d, Inr Unprepared)
                 else (case staff_recipient d cfg ctx b of
                     None \<Rightarrow> (d, Inr Unprepared)
                   | Some x \<Rightarrow>
                       if list_ex (same_task cfg b) (db_notifications d) then (draw d, Inr Prepared_before)
                       else if list_ex (\<lambda>n. nf_taskId n = uuid d) (db_notifications d) \<or> bk_version b < 1
                       then (draw d, Inl Database_failure)
                       else (draw (d\<lparr>db_notifications := db_notifications d @ [new_task cfg b x (uuid d)]\<rparr>),
                         Inr (Prepared (card_for d b st x (uuid d))))))))"

section \<open>A pressed button\<close>

definition staff_message_id :: "jstring \<Rightarrow> jstring" where
  "staff_message_id task = js ''staff-booking:'' @ task"

definition staff_hash :: "(jstring \<Rightarrow> jstring) \<Rightarrow> jstring list \<Rightarrow> jstring" where
  "staff_hash sha xs = sha (stringify (TArr (map TStr xs)))"

definition event_hash :: "(jstring \<Rightarrow> jstring) \<Rightarrow> staff_event \<Rightarrow> jstring" where
  "event_hash sha e = staff_hash sha [se_taskId e, se_agentId e, se_userId e, se_eventKey e]"

definition task_for :: "staff_config \<Rightarrow> exec_context \<Rightarrow> channel_binding \<Rightarrow> jstring \<Rightarrow> notification \<Rightarrow> bool" where
  "task_for cfg ctx b task n \<longleftrightarrow> nf_taskId n = task \<and> nf_corpId n = sc_corpId cfg \<and>
     nf_applicationId n = sc_agentId cfg \<and> nf_tenantId n = scope_tenantId ctx \<and> nf_storeId n = scope_storeId ctx \<and>
     nf_bindingId n = cb_id b"

definition staff_claim_key :: "staff_config \<Rightarrow> jstring \<Rightarrow> inbound_row \<Rightarrow> bool" where
  "staff_claim_key cfg task x \<longleftrightarrow> ib_corpId x = sc_corpId cfg \<and> ib_applicationId x = sc_agentId cfg \<and>
     ib_messageId x = staff_message_id task"

definition staff_claim_row ::
  "staff_config \<Rightarrow> (jstring \<Rightarrow> jstring) \<Rightarrow> exec_context \<Rightarrow> channel_binding \<Rightarrow> staff_event \<Rightarrow> jstring \<Rightarrow> inbound_row" where
  "staff_claim_row cfg sha ctx b e i =
     \<lparr>ib_id = i, ib_corpId = sc_corpId cfg, ib_applicationId = sc_agentId cfg,
      ib_messageId = staff_message_id (se_taskId e), ib_payloadHash = event_hash sha e, ib_state = In_processing,
      ib_bindingId = Some (cb_id b), ib_scope = Some (scope_tenantId ctx, scope_storeId ctx), ib_conversationId = None,
      ib_requestId = request_requestId ctx, ib_resultType = None, ib_errorCategory = None, ib_delivery = Not_sent\<rparr>"

datatype staff_status = St_confirmed | St_cancelled | St_conflict | St_duplicate

fun staff_status_of :: "booking_status \<Rightarrow> staff_status" where
  "staff_status_of Confirmed = St_confirmed"
| "staff_status_of _ = St_cancelled"

definition staff_action :: "staff_event \<Rightarrow> booking_row \<Rightarrow> int \<Rightarrow> json" where
  "staff_action e b n =
     (if se_eventKey e = js ''booking_confirm''
      then JObj ([(js ''action'', JStr (js ''confirm'')), (js ''expectedVersion'', JNum (Num (of_int n)))] @
        (case bk_requested b of None \<Rightarrow> []
         | Some (s, t) \<Rightarrow> [(js ''start'', JStr s), (js ''end'', JStr t)]))
      else JObj [(js ''action'', JStr (js ''cancel'')), (js ''expectedVersion'', JNum (Num (of_int n)))])"

text \<open>The transition of the claimed task: its new status and the version it leads to.\<close>

definition staff_transition :: "exec_context \<Rightarrow> staff_event \<Rightarrow> notification \<Rightarrow> (staff_status \<times> int) tx" where
  "staff_transition ctx e task d =
     (case List.find (booking_at ctx (nf_bookingId task)) (db_bookings d) of
        None \<Rightarrow> (d, Inl Not_found)
      | Some b \<Rightarrow>
          if bk_version b \<noteq> nf_expectedVersion task \<or> bk_status b \<noteq> Pending_confirmation
          then (d, Inr (St_conflict, bk_version b))
          else if se_eventKey e = js ''booking_confirm'' \<and> bk_requested b = None then (d, Inl Invalid_request)
          else (case transitionBookingIntent False ctx (bk_id b) (staff_action e b (nf_expectedVersion task)) d of
              (d', Inl x) \<Rightarrow> (d', Inl x)
            | (d', Inr changed) \<Rightarrow> (d', Inr (staff_status_of (bd_status changed), bk_version b + 1))))"

definition settle_claim :: "jstring \<Rightarrow> staff_status \<Rightarrow> db \<Rightarrow> db" where
  "settle_claim i status d = d\<lparr>db_inbound := update_where (\<lambda>x. ib_id x = i)
     (\<lambda>x. x\<lparr>ib_state := (if status = St_conflict then In_failed else In_completed),
       ib_errorCategory := (if status = St_conflict then Some ''booking_intent_conflict'' else None)\<rparr>) (db_inbound d)\<rparr>"

definition handle_in ::
  "staff_config \<Rightarrow> (jstring \<Rightarrow> jstring) \<Rightarrow> jstring \<Rightarrow> staff_event \<Rightarrow> (staff_status \<times> int) tx" where
  "handle_in cfg sha requestId e d =
     (case filter (\<lambda>(b, m). cb_subject b = se_userId e) (staffSelect d cfg) of
        [(b, m)] \<Rightarrow>
          (case contextFor m requestId of
             Inl x \<Rightarrow> (d, Inl x)
           | Inr ctx \<Rightarrow>
               (case List.find (task_for cfg ctx b (se_taskId e)) (db_notifications d) of
                  None \<Rightarrow> (d, Inl Not_found)
                | Some task \<Rightarrow>
                    if nf_delivery task = Rejected then (d, Inl Forbidden)
                    else (case List.find (staff_claim_key cfg (se_taskId e)) (db_inbound d) of
                        Some prior \<Rightarrow>
                          if ib_payloadHash prior \<noteq> event_hash sha e then (d, Inl Booking_intent_conflict)
                          else (draw d, Inr (St_duplicate, 0))
                      | None \<Rightarrow>
                          if list_ex (\<lambda>x. ib_id x = uuid d) (db_inbound d) then (d, Inl Database_failure)
                          else (case staff_transition ctx e task (draw (d\<lparr>db_inbound := db_inbound d @
                                [staff_claim_row cfg sha ctx b e (uuid d)]\<rparr>)) of
                              (d', Inl x) \<Rightarrow> (d', Inl x)
                            | (d', Inr (status, n)) \<Rightarrow> (settle_claim (uuid d) status d', Inr (status, n))))))
      | _ \<Rightarrow> (d, Inl Forbidden))"

definition event_ok :: "staff_config \<Rightarrow> staff_event \<Rightarrow> bool" where
  "event_ok cfg e \<longleftrightarrow> se_agentId e = sc_agentId cfg \<and>
     se_eventKey e \<in> {js ''booking_confirm'', js ''booking_cancel''} \<and>
     \<not> isl (boundedId (Some (JStr (se_userId e)))) \<and> \<not> isl (boundedId (Some (JStr (se_taskId e))))"

definition handle_event ::
  "staff_config \<Rightarrow> (jstring \<Rightarrow> jstring) \<Rightarrow> jstring \<Rightarrow> staff_event \<Rightarrow> (staff_status \<times> int) tx" where
  "handle_event cfg sha requestId e d =
     (if \<not> event_ok cfg e then (d, Inl Invalid_request)
      else transaction True (handle_in cfg sha requestId e) d)"

definition feedback_text :: "staff_status \<Rightarrow> int \<Rightarrow> jstring" where
  "feedback_text status n =
     (case status of
        St_conflict \<Rightarrow> [0x72B6, 0x6001, 0x5DF2, 0x53D8, 0x5316, 0xFF0C, 0x8BF7, 0x91CD, 0x65B0, 0x5904,
          0x7406]
      | St_confirmed \<Rightarrow> [0x5DF2, 0x786E, 0x8BA4] @ js '' confirmed v'' @ show_nat (nat n)
      | _ \<Rightarrow> [0x5DF2, 0x53D6, 0x6D88] @ js '' cancelled v'' @ show_nat (nat n))"

section \<open>Attempts after the commit\<close>

text \<open>The mark that precedes an attempt and whether it was made; the outcome that follows it.\<close>

definition mark_attempt :: "attempt_column \<Rightarrow> jstring \<Rightarrow> db \<Rightarrow> db \<times> bool option" where
  "mark_attempt c task d =
     (let P = (\<lambda>n. nf_taskId n = task \<and> attempt_state c n = Not_sent)
      in (d\<lparr>db_notifications := update_where P (set_attempt c Indeterminate) (db_notifications d)\<rparr>,
        Some (count_where P (db_notifications d) \<noteq> 0)))"

definition store_attempt :: "attempt_column \<Rightarrow> jstring \<Rightarrow> staff_delivery \<Rightarrow> db \<Rightarrow> db \<times> unit option" where
  "store_attempt c task x d =
     (d\<lparr>db_notifications := update_where (\<lambda>n. nf_taskId n = task) (set_attempt c (delivery_column x)) (db_notifications d)\<rparr>,
      Some ())"

definition store_card :: "jstring \<Rightarrow> staff_delivery \<Rightarrow> db \<Rightarrow> db \<times> unit option" where
  "store_card task x d =
     (d\<lparr>db_notifications := update_where (\<lambda>n. nf_taskId n = task) (\<lambda>n. n\<lparr>nf_delivery := delivery_column x\<rparr>)
        (db_notifications d)\<rparr>, Some ())"

definition store_unavailable :: "jstring \<Rightarrow> db \<Rightarrow> db \<times> unit option" where
  "store_unavailable task d =
     (d\<lparr>db_notifications := update_where (\<lambda>n. nf_taskId n = task \<and> nf_customer n = Not_sent)
        (\<lambda>n. n\<lparr>nf_customer := Unavailable\<rparr>) (db_notifications d)\<rparr>, Some ())"

definition customer_rows ::
  "staff_config \<Rightarrow> jstring \<Rightarrow> db \<Rightarrow> (booking_row \<times> customer_binding \<times> kf_channel) list" where
  "customer_rows cfg task d = [(b, c, k). n \<leftarrow> db_notifications d, b \<leftarrow> db_bookings d, c \<leftarrow> db_customers d, k \<leftarrow> db_channels d,
     nf_taskId n = task \<and> bk_id b = nf_bookingId n \<and> bk_tenantId b = nf_tenantId n \<and> bk_storeId b = nf_storeId n \<and>
     cu_conversationId c = bk_conversationId b \<and> cu_customerId c = bk_customerId b \<and> cu_tenantId c = bk_tenantId b \<and>
     cu_storeId c = bk_storeId b \<and> kf_id k = cu_channelId c \<and> kf_tenantId k = cu_tenantId c \<and>
     kf_storeId k = cu_storeId c \<and> kf_active k \<and> kf_corpId k = sc_corpId cfg]"

definition customer_message ::
  "(jstring \<Rightarrow> jstring) \<Rightarrow> jstring \<Rightarrow> booking_row \<times> customer_binding \<times> kf_channel \<Rightarrow> kf_text_message option" where
  "customer_message sha task row =
     (case row of (b, c, k) \<Rightarrow>
        map_option (\<lambda>t. \<lparr>kt_openKfId = kf_openKfId k, kt_externalUserId = cu_externalUserId c,
            kt_messageId = take 32 (staff_hash sha [js ''staff-booking'', task]), kt_text = t\<rparr>)
          (staffCustomerText (bk_status b) (map_option fst (bk_confirmed b))))"

definition customer_ready ::
  "bool \<Rightarrow> (booking_row \<times> customer_binding \<times> kf_channel) list \<Rightarrow> (booking_row \<times> customer_binding \<times> kf_channel) option" where
  "customer_ready hasClient rows =
     (case rows of
        [(b, c, k)] \<Rightarrow> if hasClient \<and> bk_status b \<in> {Confirmed, Cancelled} then Some (b, c, k) else None
      | _ \<Rightarrow> None)"

section \<open>Calls as processes\<close>

datatype staff_pc =
    N_prepare exec_context jstring
  | N_sent jstring
  | N_store jstring staff_delivery
  | H_transaction staff_event
  | H_feedback staff_event staff_status int
  | H_updated staff_event staff_status
  | H_feedbackStore staff_event staff_status staff_delivery
  | H_query staff_event staff_status
  | H_unavailable staff_event staff_status
  | H_customer staff_event staff_status "booking_row \<times> customer_binding \<times> kf_channel"
  | H_texted staff_event staff_status
  | H_customerStore staff_event staff_status staff_delivery
  | Notified "delivery_state option"
  | Notify_unavailable
  | Handled staff_status
  | Staff_failed storeops_error

record staff_answer =
  sa_fault :: fault
  sa_requestId :: jstring
  sa_delivery :: "staff_delivery option"
  sa_text :: send_outcome

text \<open>A card is sent, a booking changes, a card is updated, a customer is told; all for a task.\<close>

datatype staff_effect =
    Card card_input
  | Decided jstring staff_status
  | Card_update jstring jstring
  | Customer_text jstring kf_text_message

definition committed :: "fault \<Rightarrow> 'a tx \<Rightarrow> 'a tx" where
  "committed f op d = (case f of
     Fail_before \<Rightarrow> (d, Inl Database_failure) | Fail_after \<Rightarrow> (fst (op d), Inl Database_failure) | No_fault \<Rightarrow> op d)"

definition safeDelivery :: "staff_delivery option \<Rightarrow> staff_delivery" where
  "safeDelivery x = (case x of None \<Rightarrow> D_indeterminate | Some v \<Rightarrow> v)"

definition text_delivery :: "send_outcome \<Rightarrow> staff_delivery" where
  "text_delivery x = (case x of Delivered \<Rightarrow> D_accepted | Send_rejected \<Rightarrow> D_rejected | _ \<Rightarrow> D_indeterminate)"

definition after_feedback :: "staff_event \<Rightarrow> staff_status \<Rightarrow> staff_pc" where
  "after_feedback e status = (if status = St_conflict then Handled status else H_query e status)"

text \<open>
  The commit of a decision happens even when the call sees a failure, so the trace records it from
  the effect of the transaction on the database.
\<close>

definition decided :: "staff_config \<Rightarrow> (jstring \<Rightarrow> jstring) \<Rightarrow> staff_answer \<Rightarrow> staff_event \<Rightarrow> db \<Rightarrow> staff_effect list" where
  "decided cfg sha a e d =
     (case (sa_fault a, snd (handle_event cfg sha (sa_requestId a) e d)) of
        (Fail_before, _) \<Rightarrow> []
      | (_, Inr (St_confirmed, n)) \<Rightarrow> [Decided (se_taskId e) St_confirmed]
      | (_, Inr (St_cancelled, n)) \<Rightarrow> [Decided (se_taskId e) St_cancelled]
      | _ \<Rightarrow> [])"

definition staff_advance ::
  "staff_config \<Rightarrow> bool \<Rightarrow> (jstring \<Rightarrow> jstring) \<Rightarrow> staff_answer \<Rightarrow> db \<Rightarrow> staff_pc \<Rightarrow> db \<times> staff_pc \<times> staff_effect list" where
  "staff_advance cfg hasClient sha a d pc =
     (let f = sa_fault a in
      case pc of
        N_prepare ctx bookingId \<Rightarrow>
          (if isl (boundedId (Some (JStr bookingId))) then (d, Staff_failed Invalid_request, [])
           else (case committed f (transaction True (notify_in cfg ctx bookingId)) d of
               (d', Inl x) \<Rightarrow> (d', Staff_failed x, [])
             | (d', Inr Unprepared) \<Rightarrow> (d', Notify_unavailable, [])
             | (d', Inr Prepared_before) \<Rightarrow> (d', Notified None, [])
             | (d', Inr (Prepared crd)) \<Rightarrow> (d', N_sent (card_taskId crd), [Card crd])))
      | N_sent task \<Rightarrow> (d, N_store task (safeDelivery (sa_delivery a)), [])
      | N_store task x \<Rightarrow>
          (case called f (store_card task x) d of
             (d', None) \<Rightarrow> (d', Staff_failed Database_failure, [])
           | (d', Some _) \<Rightarrow> (d', Notified (Some (delivery_column x)), []))
      | H_transaction e \<Rightarrow>
          (case committed f (handle_event cfg sha (sa_requestId a) e) d of
             (d', Inl x) \<Rightarrow> (d', Staff_failed x, decided cfg sha a e d)
           | (d', Inr (St_duplicate, _)) \<Rightarrow> (d', Handled St_duplicate, [])
           | (d', Inr (status, n)) \<Rightarrow> (d', H_feedback e status n, decided cfg sha a e d))
      | H_feedback e status n \<Rightarrow>
          (case called f (mark_attempt Feedback_state (se_taskId e)) d of
             (d', Some True) \<Rightarrow> (d', H_updated e status, [Card_update (se_taskId e) (feedback_text status n)])
           | (d', _) \<Rightarrow> (d', after_feedback e status, []))
      | H_updated e status \<Rightarrow> (d, H_feedbackStore e status (safeDelivery (sa_delivery a)), [])
      | H_feedbackStore e status x \<Rightarrow>
          (fst (called f (store_attempt Feedback_state (se_taskId e) x) d), after_feedback e status, [])
      | H_query e status \<Rightarrow>
          (if f \<noteq> No_fault then (d, Handled status, [])
           else (case customer_ready hasClient (customer_rows cfg (se_taskId e) d) of
               None \<Rightarrow> (d, H_unavailable e status, [])
             | Some row \<Rightarrow> (d, H_customer e status row, [])))
      | H_unavailable e status \<Rightarrow> (fst (called f (store_unavailable (se_taskId e)) d), Handled status, [])
      | H_customer e status row \<Rightarrow>
          (case called f (mark_attempt Customer_delivery_state (se_taskId e)) d of
             (d', Some True) \<Rightarrow>
               (case customer_message sha (se_taskId e) row of
                  None \<Rightarrow> (d', H_customerStore e status D_indeterminate, [])
                | Some m \<Rightarrow> (d', H_texted e status, [Customer_text (se_taskId e) m]))
           | (d', _) \<Rightarrow> (d', Handled status, []))
      | H_texted e status \<Rightarrow> (d, H_customerStore e status (text_delivery (sa_text a)), [])
      | H_customerStore e status x \<Rightarrow>
          (fst (called f (store_attempt Customer_delivery_state (se_taskId e) x) d), Handled status, [])
      | _ \<Rightarrow> (d, pc, []))"

record staff_system =
  ss_db :: db
  ss_calls :: "staff_pc list"
  ss_trace :: "staff_effect list"

inductive staff_step ::
  "staff_config \<Rightarrow> bool \<Rightarrow> (jstring \<Rightarrow> jstring) \<Rightarrow> (db \<Rightarrow> db \<Rightarrow> bool) \<Rightarrow> staff_system \<Rightarrow> staff_system \<Rightarrow> bool"
  for cfg hasClient sha other where
  notified: "staff_step cfg hasClient sha other s (s\<lparr>ss_calls := ss_calls s @ [N_prepare ctx bookingId]\<rparr>)"
| pressed: "staff_step cfg hasClient sha other s (s\<lparr>ss_calls := ss_calls s @ [H_transaction e]\<rparr>)"
| advance: "n < length (ss_calls s) \<Longrightarrow>
     staff_advance cfg hasClient sha a (ss_db s) (ss_calls s ! n) = (d', pc', es) \<Longrightarrow>
     staff_step cfg hasClient sha other s
       \<lparr>ss_db = d', ss_calls = (ss_calls s)[n := pc'], ss_trace = ss_trace s @ es\<rparr>"
| other: "other (ss_db s) d' \<Longrightarrow> staff_step cfg hasClient sha other s (s\<lparr>ss_db := d'\<rparr>)"

end
