(* ===== verification/StaffProtocol.thy ===== *)
theory StaffProtocol
  imports WeComCrypto WeComStaff
begin

text \<open>
  The protocol of the staff application, \<open>src/channels/wecom/staff-protocol.ts\<close>: its configuration, the
  verified button events, and the two requests of its API with the cached access token. The
  payload of a request is the serialized value; one call at a time uses the cache.
\<close>

section \<open>Values and configuration\<close>

definition bounded :: "jstring \<Rightarrow> nat \<Rightarrow> bool" where
  "bounded v n \<longleftrightarrow> v \<noteq> [] \<and> length v \<le> n \<and> v = trim v \<and> \<not> list_ex (\<lambda>c. c \<le> 0x1F) v \<and> is_well_formed v"

definition userId_ok :: "jstring \<Rightarrow> bool" where
  "userId_ok v \<longleftrightarrow> bounded v 128 \<and> 124 \<notin> set v \<and> v \<noteq> js ''@all''"

definition staff_verifier :: "staff_config \<Rightarrow> verifier option" where
  "staff_verifier c = createWeComCallbackVerifier (sc_corpId c) (sc_token c) (sc_encodingAesKey c) None"

definition validateConfig :: "staff_config \<Rightarrow> bool" where
  "validateConfig c \<longleftrightarrow> staff_verifier c \<noteq> None \<and> agent_id_ok (sc_agentId c) \<and>
     int (digits_value (sc_agentId c)) \<le> max_safe_integer \<and> bounded (sc_appSecret c) 256"

definition or_empty :: "jstring option \<Rightarrow> jstring" where
  "or_empty v = (case v of None \<Rightarrow> [] | Some s \<Rightarrow> s)"

definition staffConfigFromEnv ::
  "jstring option \<Rightarrow> jstring option \<Rightarrow> jstring option \<Rightarrow> jstring option \<Rightarrow> jstring option \<Rightarrow> jstring option \<Rightarrow>
     (unit, staff_config option) result" where
  "staffConfigFromEnv enabled corpId agentId appSecret token key =
     (if enabled = None \<or> enabled = Some (js ''false'') then Inr None
      else if enabled \<noteq> Some (js ''true'') then Inl ()
      else (let c = \<lparr>sc_corpId = or_empty corpId, sc_agentId = or_empty agentId, sc_appSecret = or_empty appSecret,
          sc_token = or_empty token, sc_encodingAesKey = or_empty key\<rparr>
        in if validateConfig c then Inr (Some c) else Inl ()))"

section \<open>Button events\<close>

text \<open>\<open>/<!DOCTYPE|<!ENTITY/i\<close>: without the unicode flag only ASCII letters fold.\<close>

definition ascii_upper :: "nat \<Rightarrow> nat" where
  "ascii_upper c = (if 97 \<le> c \<and> c \<le> 122 then c - 32 else c)"

definition declares_entities :: "jstring \<Rightarrow> bool" where
  "declares_entities xml \<longleftrightarrow> (let s = map ascii_upper xml in contains (js ''<!DOCTYPE'') s \<or> contains (js ''<!ENTITY'') s)"

definition parse_button :: "staff_config \<Rightarrow> jstring \<Rightarrow> staff_event option" where
  "parse_button c xml =
     (if declares_entities xml \<or> xmlField xml ''ToUserName'' 128 \<noteq> Some (sc_corpId c) \<or>
        xmlField xml ''MsgType'' 32 \<noteq> Some (js ''event'') \<or> xmlField xml ''Event'' 64 \<noteq> Some (js ''template_card_event'')
      then None
      else (case (xmlField xml ''AgentID'' 16, xmlField xml ''EventKey'' 64) of
          (Some agentId, Some eventKey) \<Rightarrow>
            if agentId \<noteq> sc_agentId c \<or> eventKey \<notin> {js ''booking_confirm'', js ''booking_cancel''} then None
            else (case (xmlField xml ''FromUserName'' 128, xmlField xml ''TaskId'' 128, xmlField xml ''ResponseCode'' 2048) of
                (Some u, Some t, Some r) \<Rightarrow>
                  if userId_ok u \<and> bounded t 128 \<and> bounded r 2048
                  then Some \<lparr>se_userId = u, se_agentId = agentId, se_taskId = t, se_eventKey = eventKey, se_responseCode = r\<rparr>
                  else None
              | _ \<Rightarrow> None)
        | _ \<Rightarrow> None))"

definition staff_verifyEvent ::
  "(byte list \<Rightarrow> byte list) \<Rightarrow> (byte list \<Rightarrow> byte list \<Rightarrow> byte list option) \<Rightarrow> staff_config \<Rightarrow> int option \<Rightarrow> query \<Rightarrow> jstring \<Rightarrow>
     staff_event option" where
  "staff_verifyEvent sha1 aes c now q body =
     (if \<not> validateConfig c then None
      else (case verified_document sha1 aes (the (staff_verifier c)) now q body of
          None \<Rightarrow> None | Some xml \<Rightarrow> parse_button c xml))"

section \<open>Requests\<close>

text \<open>What JavaScript takes as true.\<close>

fun js_truthy :: "json option \<Rightarrow> bool" where
  "js_truthy None = False"
| "js_truthy (Some JNull) = False"
| "js_truthy (Some (JBool b)) = b"
| "js_truthy (Some (JNum NotANumber)) = False"
| "js_truthy (Some (JNum n)) = (n \<noteq> Num 0)"
| "js_truthy (Some (JStr s)) = (s \<noteq> [])"
| "js_truthy (Some _) = True"

definition staff_token :: "attempt \<Rightarrow> token_cache \<Rightarrow> token_cache \<times> jstring option" where
  "staff_token a cached =
     (let fetched = (case at_token a of
          Body body \<Rightarrow>
            if \<not> errcode body 0 then (cached, None)
            else (case (optionalPositiveInteger (field body ''expires_in'') 86400, field body ''access_token'') of
                (Some n, Some (JStr v)) \<Rightarrow>
                  if n \<le> 0 \<or> \<not> bounded v 2048 then (cached, None) else (Some (v, at_storedAt a + n * 1000), Some v)
              | _ \<Rightarrow> (cached, None))
        | _ \<Rightarrow> (cached, None))
      in case cached of
           Some (v, expiresAt) \<Rightarrow> if expiresAt > at_checkedAt a + 60000 then (cached, Some v) else fetched
         | None \<Rightarrow> fetched)"

text \<open>The outcome of a request, and whether it was posted.\<close>

definition staff_post :: "attempt \<Rightarrow> token_cache \<Rightarrow> token_cache \<times> staff_delivery \<times> bool" where
  "staff_post a cached =
     (case staff_token a cached of
        (cached', None) \<Rightarrow> (cached', D_rejected, False)
      | (cached', Some token) \<Rightarrow>
          (case at_post a of
             Body body \<Rightarrow>
               (case field body ''errcode'' of
                  Some (JNum n) \<Rightarrow>
                    if as_integer n = None then (cached', D_indeterminate, True)
                    else if \<not> errcode body 0 then (if token_refused body then None else cached', D_rejected, True)
                    else if js_truthy (field body ''invaliduser'') \<or> js_truthy (field body ''invalidparty'') \<or>
                      js_truthy (field body ''invalidtag'') \<or> js_truthy (field body ''unlicenseduser'')
                    then (cached', D_rejected, True)
                    else (cached', D_accepted, True)
                | _ \<Rightarrow> (cached', D_indeterminate, True))
           | _ \<Rightarrow> (cached', D_indeterminate, True)))"

definition short_service :: "jstring \<Rightarrow> jstring" where
  "short_service s =
     (if length s \<le> 128 then s
      else (let t = take 127 s in (if is_well_formed t then t else butlast t) @ [0x2026]))"

definition card_ok :: "card_input \<Rightarrow> bool" where
  "card_ok x \<longleftrightarrow> userId_ok (card_userId x) \<and> bounded (card_taskId x) 128 \<and> bounded (card_storeName x) 64 \<and>
     bounded (card_bookingId x) 128 \<and> bounded (card_service x) 400 \<and> length (code_points (card_service x)) \<le> 200 \<and>
     bounded (card_customerSource x) 64 \<and> 1 \<le> card_version x \<and> card_version x \<le> max_safe_integer \<and>
     (case card_interval x of None \<Rightarrow> True | Some (s, e) \<Rightarrow> bounded s 64 \<and> bounded e 64)"

definition card_line :: "jstring \<Rightarrow> jstring \<Rightarrow> jtext" where
  "card_line k v = TObj [(js ''keyname'', TStr k), (js ''value'', TStr v)]"

definition card_payload :: "staff_config \<Rightarrow> card_input \<Rightarrow> jtext" where
  "card_payload c x =
     TObj [(js ''touser'', TStr (card_userId x)), (js ''msgtype'', TStr (js ''template_card'')),
       (js ''agentid'', TNat (digits_value (sc_agentId c))),
       (js ''template_card'', TObj [
         (js ''card_type'', TStr (js ''button_interaction'')),
         (js ''main_title'', TObj [(js ''title'', TStr [0x9884, 0x7EA6, 0x610F, 0x5411, 0x5F85, 0x5904, 0x7406]),
           (js ''desc'', TStr (card_storeName x @ [0x20, 0xB7, 0x20, 0x70, 0x65, 0x6E, 0x64, 0x69, 0x6E, 0x67,
             0x5F, 0x63, 0x6F, 0x6E, 0x66, 0x69, 0x72, 0x6D, 0x61, 0x74, 0x69, 0x6F, 0x6E, 0x20, 0xB7, 0x20,
             0x76] @ show_nat (nat (card_version x))))]),
         (js ''task_id'', TStr (card_taskId x)),
         (js ''horizontal_content_list'', TArr [
           card_line [0x9884, 0x7EA6, 0x7F16, 0x53F7] (card_bookingId x), card_line [0x670D,
             0x52A1] (short_service (card_service x)),
           card_line [0x5F00, 0x59CB] (case card_interval x of None \<Rightarrow> [0x5F85, 0x6838,
             0x5B9E] | Some (s, e) \<Rightarrow> s),
           card_line [0x7ED3, 0x675F] (case card_interval x of None \<Rightarrow> [0x5F85, 0x6838,
             0x5B9E] | Some (s, e) \<Rightarrow> e),
           card_line [0x6765, 0x6E90] (card_customerSource x)]),
         (js ''button_list'', TArr (
           (if card_interval x \<noteq> None
            then [TObj [(js ''text'', TStr [0x786E, 0x8BA4]), (js ''style'', TNat 1), (js ''key'',
              TStr (js ''booking_confirm''))]] else []) @
           [TObj [(js ''text'', TStr [0x53D6, 0x6D88]), (js ''style'', TNat 2), (js ''key'',
             TStr (js ''booking_cancel''))]]))])]"

text \<open>The result carries the payload that was posted.\<close>

definition sendCard :: "staff_config \<Rightarrow> attempt \<Rightarrow> card_input \<Rightarrow> token_cache \<Rightarrow> token_cache \<times> staff_delivery \<times> jtext option" where
  "sendCard c a x cached =
     (if \<not> card_ok x then (cached, D_rejected, None)
      else (case staff_post a cached of (cached', d, posted) \<Rightarrow>
        (cached', d, if posted then Some (card_payload c x) else None)))"

definition update_payload :: "staff_config \<Rightarrow> jstring \<Rightarrow> jstring \<Rightarrow> jstring \<Rightarrow> jtext" where
  "update_payload c user code text =
     TObj [(js ''userids'', TArr [TStr user]), (js ''agentid'', TNat (digits_value (sc_agentId c))),
       (js ''response_code'', TStr code), (js ''button'', TObj [(js ''replace_name'', TStr text)])]"

definition updateCard ::
  "staff_config \<Rightarrow> attempt \<Rightarrow> jstring \<Rightarrow> jstring \<Rightarrow> jstring \<Rightarrow> token_cache \<Rightarrow> token_cache \<times> staff_delivery \<times> jtext option" where
  "updateCard c a user code text cached =
     (if \<not> userId_ok user \<or> \<not> bounded code 2048 \<or> \<not> bounded text 32 then (cached, D_rejected, None)
      else (case staff_post a cached of (cached', d, posted) \<Rightarrow>
        (cached', d, if posted then Some (update_payload c user code text) else None)))"

section \<open>Properties\<close>

lemma well_formed_pair: "is_well_formed (c # d # s) \<longleftrightarrow>
    (if is_high c \<and> is_low d then is_well_formed s else \<not> is_high c \<and> \<not> is_low c \<and> is_well_formed (d # s))"
  by (simp add: is_well_formed_def)

lemma well_formed_small [simp]: "is_well_formed []" "is_well_formed [c] \<longleftrightarrow> \<not> is_high c \<and> \<not> is_low c"
  by (simp_all add: is_well_formed_def)

text \<open>Cutting a well-formed text splits at most the last pair.\<close>

lemma well_formed_take: "is_well_formed s \<Longrightarrow> is_well_formed (take n s) \<or> (0 < n \<and> is_well_formed (take (n - 1) s))"
proof (induction s arbitrary: n rule: code_points.induct)
  case (2 c)
  then show ?case by (cases n) auto
next
  case (3 c d s)
  show ?case
  proof (cases "is_high c \<and> is_low d")
    case True
    then have "is_well_formed s" using 3(3) by (simp add: well_formed_pair)
    note ih = 3(1) [OF True this]
    consider "n = 0" | "n = 1" | m where "n = Suc (Suc m)" by (cases n; cases "n - 1") auto
    then show ?thesis
    proof cases
      case (3 m)
      then show ?thesis using ih [of m] True by (cases m) (auto simp: well_formed_pair)
    qed simp_all
  next
    case False
    then have tail: "is_well_formed (d # s)" and c: "\<not> is_high c \<and> \<not> is_low c" using 3(3) by (auto simp: well_formed_pair)
    have cons: "is_well_formed (c # t)" if "is_well_formed t" for t using that c by (cases t) (auto simp: well_formed_pair)
    show ?thesis
    proof (cases n)
      case (Suc m)
      then show ?thesis using 3(2) [OF False tail, of m] cons by (cases m) auto
    qed simp
  qed
qed simp

lemma well_formed_snoc: "is_well_formed s \<Longrightarrow> \<not> is_high c \<Longrightarrow> \<not> is_low c \<Longrightarrow> is_well_formed (s @ [c])"
proof (induction s rule: code_points.induct)
  case (2 d)
  then show ?case by (simp add: well_formed_pair)
next
  case (3 d e s)
  then show ?case by (cases "is_high d \<and> is_low e") (auto simp: well_formed_pair)
qed simp

lemma short_service_bounded:
  assumes "is_well_formed s"
  shows "length (short_service s) \<le> 128 \<and> is_well_formed (short_service s)"
proof (cases "length s \<le> 128")
  case False
  have "butlast (take 127 s) = take 126 s" using False by (simp add: butlast_take)
  then have "is_well_formed (if is_well_formed (take 127 s) then take 127 s else butlast (take 127 s))"
    using well_formed_take [OF assms, of 127] by auto
  then have "is_well_formed (short_service s)"
    using False well_formed_snoc [of _ "0x2026"] by (simp add: short_service_def Let_def is_high_def is_low_def)
  then show ?thesis using False by (simp add: short_service_def Let_def)
qed (use assms in \<open>simp add: short_service_def\<close>)

lemma staff_post_cases:
  "staff_post a cached = (c, d, posted) \<Longrightarrow>
    (d = D_accepted \<longrightarrow> posted \<and> accepted_post a) \<and> (\<not> posted \<longrightarrow> d = D_rejected) \<and>
    (posted \<and> d = D_rejected \<longrightarrow> (\<exists>body. at_post a = Body body \<and>
      (\<not> errcode body 0 \<or> (\<exists>k \<in> {''invaliduser'', ''invalidparty'', ''invalidtag'', ''unlicenseduser''}. js_truthy (field body k)))))"
  by (auto simp: staff_post_def accepted_post_def split: prod.splits option.splits api_reply.splits json.splits if_splits)

text \<open>
  A card request is sound: only a valid card is posted, and its service line has at most 128 code
  units and is well formed; a card counts as accepted only when the API accepted it, as refused
  after posting only when the API refused it or its recipient; and a card that was not posted is
  refused.
\<close>

theorem staff_card_sound:
  assumes "sendCard c a x cached = (cached', d, payload)"
  shows "(payload \<noteq> None \<longrightarrow> card_ok x \<and> payload = Some (card_payload c x) \<and>
      length (short_service (card_service x)) \<le> 128 \<and> is_well_formed (short_service (card_service x))) \<and>
    (d = D_accepted \<longrightarrow> payload \<noteq> None \<and> accepted_post a) \<and>
    (payload = None \<longrightarrow> d = D_rejected) \<and>
    (payload \<noteq> None \<and> d = D_rejected \<longrightarrow> (\<exists>body. at_post a = Body body \<and>
      (\<not> errcode body 0 \<or> (\<exists>k \<in> {''invaliduser'', ''invalidparty'', ''invalidtag'', ''unlicenseduser''}. js_truthy (field body k)))))"
proof (cases "card_ok x")
  case True
  obtain c1 d1 posted where p: "staff_post a cached = (c1, d1, posted)" by (metis prod_cases3)
  have "is_well_formed (card_service x)" using True by (simp add: card_ok_def bounded_def)
  from short_service_bounded [OF this] staff_post_cases [OF p] p assms True show ?thesis
    by (cases posted) (auto simp: sendCard_def)
qed (use assms in \<open>auto simp: sendCard_def\<close>)

definition card_example :: card_input where
  "card_example = \<lparr>card_userId = js ''x'', card_taskId = js ''n'', card_storeName = js ''S'', card_bookingId = js ''k'',
     card_service = js ''cut'', card_interval = None, card_version = 1, card_customerSource = js ''other''\<rparr>"

definition card_config :: staff_config where
  "card_config = \<lparr>sc_corpId = js ''w'', sc_agentId = js ''1'', sc_appSecret = js ''s'', sc_token = js ''t'', sc_encodingAesKey = []\<rparr>"

theorem staff_card_sound_witness:
  "let a = \<lparr>at_checkedAt = 0, at_token = No_response, at_storedAt = 0, at_post = Body [(js ''errcode'', JNum (Num 0))]\<rparr> in
   \<exists>c' p. sendCard card_config a card_example (Some (js ''t'', 100000)) = (c', D_accepted, Some p) \<and> accepted_post a"
proof -
  let ?a = "\<lparr>at_checkedAt = 0, at_token = No_response, at_storedAt = 0, at_post = Body [(js ''errcode'', JNum (Num 0))]\<rparr>"
  have ok: "card_ok card_example"
    by (simp add: card_ok_def card_example_def userId_ok_def bounded_def js_simps trim_def trim_start_def trim_end_def
        is_space_def is_well_formed_def is_high_def is_low_def max_safe_integer_def)
  have "staff_post ?a (Some (js ''t'', 100000)) = (Some (js ''t'', 100000), D_accepted, True)"
    by (simp add: staff_post_def staff_token_def errcode_def field_def)
  then have run: "sendCard card_config ?a card_example (Some (js ''t'', 100000)) = (Some (js ''t'', 100000), D_accepted, Some (card_payload card_config card_example))"
    by (simp add: sendCard_def ok)
  from staff_card_sound [OF run] run show ?thesis by (simp add: Let_def)
qed

end
