(* ===== verification/EnterpriseHttp.thy ===== *)
theory EnterpriseHttp
  imports HttpServing WeComCustomer StaffProtocol
begin

text \<open>
  The HTTP server of the enterprise application, \<open>src/enterprise/http-api.ts\<close>. The services the
  server is given are the fields of \<open>http_options\<close>, functions on a state \<open>'w\<close> of the world: a
  service that rejects gives an error. A handler ends in a response or in a rejection;
  \<open>handleRequest\<close> answers the rejections of the handlers it awaits, while those of the handlers it
  returns without awaiting them leave the request unanswered (\<open>Escaped\<close>). Bodies are the values
  that \<open>JSON.stringify\<close> is given. The request id and the clock are arguments. The loop over the
  texts of a callback is \<open>customer_advance\<close> in \<open>WeComCustomer\<close>; here it is the service \<open>ho_routeTexts\<close>.
\<close>

section \<open>Public views\<close>

record public_support_result =
  ps_type :: outcome
  ps_text :: jstring
  ps_piSessionId :: jstring
  ps_toolsCalled :: "jstring list"
  ps_evidence :: "grounding_reference list"

definition publicSupportResult :: "support_result \<Rightarrow> public_support_result" where
  "publicSupportResult r =
     \<lparr>ps_type = sr_type r, ps_text = sr_text r, ps_piSessionId = sr_piSessionId r,
      ps_toolsCalled = sr_toolsCalled r, ps_evidence = sr_evidence r\<rparr>"

record public_audit_event =
  pa_id :: jstring
  pa_tenantId :: jstring
  pa_storeId :: jstring
  pa_conversationId :: jstring
  pa_outcome :: "jstring option"
  pa_toolsCalled :: "jstring list"
  pa_requestId :: "jstring option"
  pa_runtimeDurationMs :: "rat option"
  pa_agentProfileId :: "jstring option"
  pa_agentProfileVersion :: "jstring option"
  pa_agentProfileHash :: "jstring option"
  pa_createdAt :: jstring

definition publicAuditTools :: "jstring list" where
  "publicAuditTools = [js ''search_faq'', js ''search_knowledge'', js ''create_ticket'', js ''handoff_to_human'']"

definition publicAuditOutcomes :: "jstring list" where
  "publicAuditOutcomes = [js ''answer'', js ''fallback'', js ''escalation'']"

definition text_where :: "(jstring \<Rightarrow> bool) \<Rightarrow> json option \<Rightarrow> jstring option" where
  "text_where ok v = (case v of Some (JStr s) \<Rightarrow> if ok s then Some s else None | _ \<Rightarrow> None)"

definition nonEmptyAuditText :: "json option \<Rightarrow> jstring option" where
  "nonEmptyAuditText = text_where (\<lambda>s. trim s \<noteq> [])"

definition public_tools :: "json option \<Rightarrow> jstring list" where
  "public_tools v = (case v of
      Some (JArr xs) \<Rightarrow> List.map_filter (\<lambda>x. text_where (\<lambda>s. s \<in> set publicAuditTools) (Some x)) xs
    | _ \<Rightarrow> [])"

definition audit_field :: "audit_event \<Rightarrow> string \<Rightarrow> json option" where
  "audit_field x k = (case ae_payload x of JObj payload \<Rightarrow> field payload k | _ \<Rightarrow> None)"

definition publicAuditEvent :: "audit_event \<Rightarrow> public_audit_event" where
  "publicAuditEvent x =
     \<lparr>pa_id = ae_id x, pa_tenantId = ae_tenantId x, pa_storeId = ae_storeId x, pa_conversationId = ae_conversationId x,
      pa_outcome = text_where (\<lambda>s. s \<in> set publicAuditOutcomes) (audit_field x ''outcome''),
      pa_toolsCalled = public_tools (audit_field x ''toolsCalled''),
      pa_requestId = nonEmptyAuditText (audit_field x ''requestId''),
      pa_runtimeDurationMs = (case audit_field x ''runtimeDurationMs'' of
          Some (JNum (Num n)) \<Rightarrow> if n \<ge> 0 then Some n else None | _ \<Rightarrow> None),
      pa_agentProfileId = nonEmptyAuditText (audit_field x ''agentProfileId''),
      pa_agentProfileVersion = nonEmptyAuditText (audit_field x ''agentProfileVersion''),
      pa_agentProfileHash = text_where (\<lambda>s. length s = 64 \<and> list_all is_lower_hex s) (audit_field x ''agentProfileHash''),
      pa_createdAt = toISOString (ae_createdAt x)\<rparr>"

section \<open>Responses and services\<close>

datatype http_body =
    No_body
  | Error_body string
  | Status_ok
  | Text_body jstring
  | File_body "byte list"
  | Login_body jstring
  | Context_body exec_context
  | Support_body public_support_result
  | Conversations_body "conversation list"
  | Tickets_body "persistent_ticket list"
  | Handoffs_body "support_handoff list"
  | Audit_body "public_audit_event list"
  | Knowledge_body jtext
  | Availability_list_body "availability_dto list \<times> (jstring \<times> jstring) list \<times> jstring"
  | Availability_body availability_dto
  | Booking_list_body "booking_dto list \<times> bool"
  | Booking_body booking_dto
  | Attention_body "needs_attention list \<times> bool"

record http_response =
  rs_status :: nat
  rs_headers :: "(string \<times> jstring) list"
  rs_body :: http_body

datatype rejection = Store_ops storeops_error | Service service_error

datatype http_outcome = Responded http_response | Escaped

type_synonym ('w, 'a) call = "'w \<Rightarrow> 'w \<times> (rejection, 'a) result"

record 'w staff_port =
  sp_verifyUrl :: "'w \<Rightarrow> query \<Rightarrow> jstring option"
  sp_verifyEvent :: "'w \<Rightarrow> query \<Rightarrow> jstring \<Rightarrow> staff_event option"
  sp_handle :: "staff_event \<Rightarrow> ('w, unit) call"
  sp_notify :: "exec_context \<Rightarrow> jstring \<Rightarrow> ('w, unit) call"

record 'w kf_verifier =
  kv_verifyUrl :: "'w \<Rightarrow> query \<Rightarrow> jstring option"
  kv_verifyEvent :: "'w \<Rightarrow> query \<Rightarrow> jstring \<Rightarrow> kf_event option"

record 'w support_port =
  su_respond :: "exec_context \<Rightarrow> jstring \<Rightarrow> jstring \<Rightarrow> jstring \<Rightarrow> ('w, support_result) call"
  su_conversations :: "exec_context \<Rightarrow> ('w, conversation list) call"
  su_tickets :: "exec_context \<Rightarrow> ('w, persistent_ticket list) call"
  su_handoffs :: "exec_context \<Rightarrow> ('w, support_handoff list) call"
  su_audit :: "exec_context \<Rightarrow> ('w, audit_event list) call"

record 'w storeops_port =
  so_listAvailability :: "exec_context \<Rightarrow> jstring \<Rightarrow> ('w, availability_dto list \<times> (jstring \<times> jstring) list \<times> jstring) call"
  so_putAvailability :: "exec_context \<Rightarrow> jstring \<Rightarrow> jstring \<Rightarrow> availability_write \<Rightarrow> ('w, availability_dto) call"
  so_listBookings :: "exec_context \<Rightarrow> ('w, booking_dto list \<times> bool) call"
  so_createBooking :: "exec_context \<Rightarrow> jstring \<Rightarrow> booking_create \<Rightarrow> ('w, booking_dto \<times> bool) call"
  so_transition :: "exec_context \<Rightarrow> jstring \<Rightarrow> booking_transition \<Rightarrow> ('w, booking_dto) call"
  so_needsAttention :: "exec_context \<Rightarrow> ('w, needs_attention list \<times> bool) call"

record 'w http_options =
  ho_resolve :: "jstring option \<Rightarrow> jstring \<Rightarrow> ('w, exec_context option) call"
  ho_login :: "jstring \<Rightarrow> jstring \<Rightarrow> ('w, authenticated_session option) call"
  ho_logout :: "jstring option \<Rightarrow> ('w, unit) call"
  ho_verifier :: "'w kf_verifier option"
  ho_kfSync :: "(kf_event \<Rightarrow> ('w, sync_result) call) option"
  ho_routeTexts :: "(synced_text list \<Rightarrow> ('w, unit) call) option"
  ho_staff :: "'w staff_port option"
  ho_runtime :: "(support_request \<Rightarrow> ('w, support_result) call) option"
  ho_support :: "'w support_port option"
  ho_storeOps :: "'w storeops_port option"
  ho_knowledge :: "(exec_context \<Rightarrow> ('w, jtext) call) option"
  ho_secureCookies :: bool
  ho_staticRoot :: "jstring option"
  ho_cwd :: jstring
  ho_files :: "'w \<Rightarrow> jstring \<Rightarrow> static_file"
  ho_parse :: "byte list \<Rightarrow> json option"

definition bind_call :: "('w, 'a) call \<Rightarrow> ('a \<Rightarrow> ('w, 'b) call) \<Rightarrow> ('w, 'b) call" where
  "bind_call f k w = (case f w of (w', Inl e) \<Rightarrow> (w', Inl e) | (w', Inr x) \<Rightarrow> k x w')"

definition done_call :: "'a \<Rightarrow> ('w, 'a) call" where
  "done_call x w = (w, Inr x)"

definition fail_call :: "rejection \<Rightarrow> ('w, 'a) call" where
  "fail_call e w = (w, Inl e)"

definition lift_result :: "('e \<Rightarrow> rejection) \<Rightarrow> ('e, 'a) result \<Rightarrow> ('w, 'a) call" where
  "lift_result f r w = (w, case r of Inl e \<Rightarrow> Inl (f e) | Inr x \<Rightarrow> Inr x)"

definition sendJson :: "nat \<Rightarrow> http_body \<Rightarrow> (string \<times> jstring) list \<Rightarrow> http_response" where
  "sendJson status body headers =
     \<lparr>rs_status = status, rs_headers = (''content-type'', js ''application/json; charset=utf-8'') # headers, rs_body = body\<rparr>"

definition sendText :: "nat \<Rightarrow> jstring \<Rightarrow> http_response" where
  "sendText status body =
     \<lparr>rs_status = status,
      rs_headers = [(''content-type'', js ''text/plain; charset=utf-8''),
        (''content-length'', show_nat (length (utf8 body))), (''cache-control'', js ''no-store'')],
      rs_body = Text_body body\<rparr>"

definition send_error :: "nat \<Rightarrow> string \<Rightarrow> http_response" where
  "send_error status code = sendJson status (Error_body code) []"

definition methodNotAllowed :: "string \<Rightarrow> http_response" where
  "methodNotAllowed allow = sendJson 405 (Error_body ''method_not_allowed'') [(''Allow'', js allow)]"

definition not_found :: http_response where
  "not_found = send_error 404 ''not_found''"

definition authenticatedContext :: "'w http_options \<Rightarrow> http_request \<Rightarrow> jstring \<Rightarrow> ('w, exec_context option) call" where
  "authenticatedContext opts r requestId = ho_resolve opts (readCookie (hr_cookie r) SESSION_COOKIE) requestId"

section \<open>The callbacks\<close>

definition staff_callback :: "'w http_options \<Rightarrow> http_request \<Rightarrow> query \<Rightarrow> ('w, http_response) call" where
  "staff_callback opts r q w =
     (case ho_staff opts of
        None \<Rightarrow> (w, Inr not_found)
      | Some staff \<Rightarrow>
          if hr_method r = js ''GET'' then
            (w, Inr (case sp_verifyUrl staff w q of
               Some reply \<Rightarrow> sendText 200 reply | None \<Rightarrow> send_error 400 ''invalid_request''))
          else if hr_method r \<noteq> js ''POST'' then (w, Inr (methodNotAllowed ''GET, POST''))
          else (case readTextBody r of
              None \<Rightarrow> (w, Inr (send_error 400 ''invalid_request''))
            | Some body \<Rightarrow> (case sp_verifyEvent staff w q body of
                None \<Rightarrow> (w, Inr (send_error 400 ''invalid_request''))
              | Some event \<Rightarrow> bind_call (sp_handle staff event) (\<lambda>_. done_call (sendText 200 (js ''success''))) w)))"

definition weComCallbackVerification :: "'w http_options \<Rightarrow> query \<Rightarrow> 'w \<Rightarrow> http_response" where
  "weComCallbackVerification opts q w =
     (case ho_verifier opts of
        None \<Rightarrow> send_error 503 ''dependency_unavailable''
      | Some v \<Rightarrow> (case kv_verifyUrl v w q of
          Some reply \<Rightarrow> sendText 200 reply | None \<Rightarrow> send_error 400 ''invalid_request''))"

definition weComCallbackEvent :: "'w http_options \<Rightarrow> http_request \<Rightarrow> query \<Rightarrow> ('w, http_response) call" where
  "weComCallbackEvent opts r q w =
     (case ho_verifier opts of
        None \<Rightarrow> (w, Inr (send_error 503 ''dependency_unavailable''))
      | Some v \<Rightarrow>
          (case (case readTextBody r of None \<Rightarrow> None | Some body \<Rightarrow> kv_verifyEvent v w q body) of
             None \<Rightarrow> (w, Inr (send_error 400 ''invalid_request''))
           | Some event \<Rightarrow>
               (case (ho_kfSync opts, ho_routeTexts opts, ho_support opts) of
                  (Some sync, Some deliver, Some _) \<Rightarrow>
                    (case bind_call (sync event) (\<lambda>synced. deliver (sy_textMessages synced)) w of
                       (w', Inr _) \<Rightarrow> (w', Inr (sendText 200 (js ''success'')))
                     | (w', Inl _) \<Rightarrow> (w', Inr (send_error 502 ''dependency_unavailable'')))
                | _ \<Rightarrow> (w, Inr (send_error 503 ''dependency_unavailable'')))))"

section \<open>Store operations\<close>

datatype storeops_route =
    Availability_path | Knowledge_path | Attention_path | Bookings_path
  | Availability_of jstring jstring | Transition_of jstring | Unknown_path

definition storeops_route :: "jstring \<Rightarrow> storeops_route" where
  "storeops_route path =
     (if path = js ''/booking-intents'' then Bookings_path
      else if path = js ''/availability'' then Availability_path
      else if path = js ''/knowledge'' then Knowledge_path
      else if path = js ''/needs-attention'' then Attention_path
      else (case split_on 47 path of
          [x0, x1, a, b] \<Rightarrow>
            if x0 = [] \<and> x1 = js ''availability'' \<and> a \<noteq> [] \<and> b \<noteq> [] then Availability_of a b
            else if x0 = [] \<and> x1 = js ''booking-intents'' \<and> a \<noteq> [] \<and> b = js ''transition'' then Transition_of a
            else Unknown_path
        | _ \<Rightarrow> Unknown_path))"

fun storeops_methods :: "storeops_route \<Rightarrow> string list" where
  "storeops_methods Bookings_path = [''GET'', ''POST'']"
| "storeops_methods (Availability_of a b) = [''PUT'']"
| "storeops_methods (Transition_of a) = [''POST'']"
| "storeops_methods Unknown_path = []"
| "storeops_methods _ = [''GET'']"

fun is_transition :: "storeops_route \<Rightarrow> bool" where
  "is_transition (Transition_of i) = True"
| "is_transition _ = False"

definition storeops_query_ok :: "storeops_route \<Rightarrow> query \<Rightarrow> bool" where
  "storeops_query_ok rt q \<longleftrightarrow>
     \<not> list_ex (\<lambda>kv. fst kv \<noteq> js ''date'' \<or> rt \<noteq> Availability_path) q \<and> length (getAll q (js ''date'')) \<le> 1"

definition same_origin :: "bool \<Rightarrow> http_request \<Rightarrow> bool" where
  "same_origin secure r = (case hr_origin r of
      None \<Rightarrow> True
    | Some None \<Rightarrow> False
    | Some (Some (origin, href)) \<Rightarrow>
        origin = (if secure then js ''https:'' else js ''http:'') @ js ''//'' @
          (case hr_host r of None \<Rightarrow> js ''undefined'' | Some h \<Rightarrow> h) \<and>
        href = origin @ [47])"

definition storeops_capability :: "storeops_route \<Rightarrow> http_request \<Rightarrow> capability" where
  "storeops_capability rt r =
     (if hr_method r = js ''GET'' then Storeops_read
      else (case rt of Availability_of _ _ \<Rightarrow> Availability_write | _ \<Rightarrow> Booking_create))"

text \<open>The checks between the method and the services, in their order.\<close>

definition storeops_refusal ::
  "bool \<Rightarrow> storeops_route \<Rightarrow> http_request \<Rightarrow> query \<Rightarrow> exec_context \<Rightarrow> storeops_error option" where
  "storeops_refusal secure rt r q ctx =
     (if \<not> storeops_query_ok rt q then Some Invalid_request
      else if hr_method r \<noteq> js ''GET'' \<and> \<not> same_origin secure r then Some Forbidden
      else if \<not> is_transition rt \<and> storeops_capability rt r \<notin> set (actor_capabilities ctx)
      then Some Forbidden
      else if rt = Attention_path \<and> actor_role ctx = Agent then Some Forbidden
      else None)"

definition decodeId :: "jstring \<Rightarrow> (storeops_error, jstring) result" where
  "decodeId v = (case decodeURIComponent v of None \<Rightarrow> Inl Invalid_request | Some s \<Rightarrow> boundedId (Some (JStr s)))"

definition storeops_read ::
  "'w storeops_port \<Rightarrow> storeops_route \<Rightarrow> query \<Rightarrow> exec_context \<Rightarrow> ('w, http_response) call" where
  "storeops_read service rt q ctx =
     (case rt of
        Availability_path \<Rightarrow>
          bind_call (lift_result Store_ops (validateDate (map_option JStr (map_of q (js ''date''))))) (\<lambda>date.
            bind_call (so_listAvailability service ctx date) (\<lambda>x. done_call (sendJson 200 (Availability_list_body x) [])))
      | Bookings_path \<Rightarrow>
          bind_call (so_listBookings service ctx) (\<lambda>x. done_call (sendJson 200 (Booking_list_body x) []))
      | _ \<Rightarrow> bind_call (so_needsAttention service ctx) (\<lambda>x. done_call (sendJson 200 (Attention_body x) [])))"

definition notify_staff :: "'w http_options \<Rightarrow> exec_context \<Rightarrow> jstring \<Rightarrow> 'w \<Rightarrow> 'w" where
  "notify_staff opts ctx bookingId w =
     (case ho_staff opts of None \<Rightarrow> w | Some staff \<Rightarrow> fst (sp_notify staff ctx bookingId w))"

definition storeops_write ::
  "'w http_options \<Rightarrow> 'w storeops_port \<Rightarrow> storeops_route \<Rightarrow> http_request \<Rightarrow> exec_context \<Rightarrow> ('w, http_response) call" where
  "storeops_write opts service rt r ctx =
     bind_call (lift_result (\<lambda>_. Store_ops Invalid_request) (readJsonBody (ho_parse opts) r)) (\<lambda>body.
       case rt of
         Availability_of staff day \<Rightarrow>
           bind_call (lift_result Store_ops (decodeId day)) (\<lambda>date.
             bind_call (lift_result Store_ops (decodeId staff)) (\<lambda>staffId.
               bind_call (lift_result Store_ops (parseAvailabilityWrite date (JObj body))) (\<lambda>input.
                 bind_call (so_putAvailability service ctx staffId date input) (\<lambda>x.
                   done_call (sendJson 200 (Availability_body x) [])))))
       | Transition_of i \<Rightarrow>
           bind_call (lift_result Store_ops (parseBookingTransition (JObj body))) (\<lambda>input.
             if (if is_action (bt_action input) ''cancel'' then Booking_create else Booking_manage)
                 \<notin> set (actor_capabilities ctx)
             then fail_call (Store_ops Forbidden)
             else bind_call (lift_result Store_ops (decodeId i)) (\<lambda>bookingId.
               bind_call (so_transition service ctx bookingId input) (\<lambda>x. done_call (sendJson 200 (Booking_body x) []))))
       | _ \<Rightarrow>
           bind_call (lift_result Store_ops (boundedId (map_option JStr (hr_idempotencyKey r)))) (\<lambda>key.
             bind_call (lift_result Store_ops (parseBookingCreate (JObj body))) (\<lambda>input.
               bind_call (so_createBooking service ctx key input) (\<lambda>(intent, duplicate) w.
                 (notify_staff opts ctx (bd_id intent) w,
                  Inr (sendJson (if duplicate then 200 else 201) (Booking_body intent) []))))))"

definition storeops_subpath :: "jstring \<Rightarrow> jstring" where
  "storeops_subpath path = drop (length ''/api/v1/storeops'') path"

text \<open>The handler once the context is known.\<close>

definition storeops_route_for ::
  "'w http_options \<Rightarrow> http_request \<Rightarrow> storeops_route \<Rightarrow> query \<Rightarrow> exec_context \<Rightarrow> ('w, http_response) call" where
  "storeops_route_for opts r rt q ctx =
     (let methods = storeops_methods rt in
      if methods = [] then fail_call (Store_ops Not_found)
      else if hr_method r \<notin> set (map js methods)
      then done_call (sendJson 405 (Error_body ''method_not_allowed'') [(''Allow'', join (js '', '') (map js methods))])
      else (case storeops_refusal (ho_secureCookies opts) rt r q ctx of
          Some e \<Rightarrow> fail_call (Store_ops e)
        | None \<Rightarrow>
            if rt = Knowledge_path then
              (case ho_knowledge opts of
                 None \<Rightarrow> fail_call (Store_ops Dependency_unavailable)
               | Some knowledge \<Rightarrow>
                   bind_call (knowledge ctx) (\<lambda>x. done_call (sendJson 200 (Knowledge_body x) [])))
            else (case ho_storeOps opts of
                None \<Rightarrow> fail_call (Store_ops Dependency_unavailable)
              | Some service \<Rightarrow>
                  if hr_method r = js ''GET'' then storeops_read service rt q ctx
                  else storeops_write opts service rt r ctx)))"

definition storeOps :: "'w http_options \<Rightarrow> http_request \<Rightarrow> jstring \<Rightarrow> query \<Rightarrow> jstring \<Rightarrow> ('w, http_response) call" where
  "storeOps opts r path q requestId =
     bind_call (authenticatedContext opts r requestId) (\<lambda>context.
       case context of
         None \<Rightarrow> done_call (send_error 401 ''unauthenticated'')
       | Some ctx \<Rightarrow> storeops_route_for opts r (storeops_route (storeops_subpath path)) q ctx)"

section \<open>Sessions and support\<close>

definition http_login :: "'w http_options \<Rightarrow> http_request \<Rightarrow> date \<Rightarrow> ('w, http_response) call" where
  "http_login opts r now =
     bind_call (lift_result (Service \<circ> Failed)
         (and_then (readJsonBody (ho_parse opts) r) (\<lambda>body.
            and_then (requiredString body ''email'') (\<lambda>email.
              and_then (requiredString body ''password'') (\<lambda>password. Inr (email, password))))))
       (\<lambda>(email, password). bind_call (ho_login opts email password) (\<lambda>authenticated.
         done_call (case authenticated of
             None \<Rightarrow> send_error 401 ''invalid_credentials''
           | Some s \<Rightarrow> sendJson 200 (Login_body (toISOString (as_expiresAt s)))
               [(''Set-Cookie'', sessionCookie (as_token s) (as_expiresAt s) now (ho_secureCookies opts))])))"

definition http_logout :: "'w http_options \<Rightarrow> http_request \<Rightarrow> ('w, http_response) call" where
  "http_logout opts r =
     bind_call (ho_logout opts (readCookie (hr_cookie r) SESSION_COOKIE)) (\<lambda>_.
       done_call \<lparr>rs_status = 204, rs_headers = [(''Set-Cookie'', cleared_cookie)], rs_body = No_body\<rparr>)"

definition me :: "'w http_options \<Rightarrow> http_request \<Rightarrow> jstring \<Rightarrow> ('w, http_response) call" where
  "me opts r requestId =
     bind_call (authenticatedContext opts r requestId) (\<lambda>context.
       done_call (case context of
           None \<Rightarrow> send_error 401 ''unauthenticated''
         | Some ctx \<Rightarrow> sendJson 200 (Context_body ctx) []))"

definition support_input :: "(jstring \<times> json) list \<Rightarrow> (error, jstring \<times> jstring \<times> jstring) result" where
  "support_input body =
     and_then (requiredString body ''conversationId'') (\<lambda>c.
       and_then (requiredString body ''customerId'') (\<lambda>k.
         and_then (requiredString body ''text'') (\<lambda>t. Inr (c, k, t))))"

text \<open>The request id was set as a header of the response before.\<close>

definition with_request_id :: "jstring \<Rightarrow> http_response \<Rightarrow> http_response" where
  "with_request_id requestId x = x\<lparr>rs_headers := (''X-Request-Id'', requestId) # rs_headers x\<rparr>"

definition support_run :: "'w http_options \<Rightarrow> exec_context \<Rightarrow> jstring \<times> jstring \<times> jstring \<Rightarrow> ('w, support_result) call" where
  "support_run opts ctx input = (case input of (c, k, t) \<Rightarrow>
     (case ho_support opts of
        Some service \<Rightarrow> su_respond service ctx c k t
      | None \<Rightarrow> (case ho_runtime opts of
          None \<Rightarrow> fail_call (Service (Failed ''Enterprise support runtime is not configured.''))
        | Some run \<Rightarrow> run (runtimeRequest c k t ctx))))"

definition support :: "'w http_options \<Rightarrow> http_request \<Rightarrow> jstring \<Rightarrow> ('w, http_response) call" where
  "support opts r requestId =
     bind_call (authenticatedContext opts r requestId) (\<lambda>context.
       case context of
         None \<Rightarrow> done_call (with_request_id requestId (send_error 401 ''unauthenticated''))
       | Some ctx \<Rightarrow>
           if Agent_invoke \<notin> set (actor_capabilities ctx)
           then done_call (with_request_id requestId (send_error 403 ''forbidden''))
           else bind_call (lift_result (Service \<circ> Failed) (and_then (readJsonBody (ho_parse opts) r) support_input))
             (\<lambda>input. bind_call (support_run opts ctx input) (\<lambda>x.
               done_call (with_request_id requestId (sendJson 200 (Support_body (publicSupportResult x)) [])))))"

text \<open>The lists: \<open>list\<close> is what the service is asked for.\<close>

definition readBusiness ::
  "'w http_options \<Rightarrow> http_request \<Rightarrow> query \<Rightarrow> jstring \<Rightarrow> capability \<Rightarrow>
     ('w support_port \<Rightarrow> exec_context \<Rightarrow> ('w, http_body) call) \<Rightarrow> ('w, http_response) call" where
  "readBusiness opts r q requestId required list_of =
     (if js ''tenantId'' \<in> fst ` set q \<or> js ''storeId'' \<in> fst ` set q
      then done_call (send_error 400 ''invalid_scope_query'')
      else bind_call (authenticatedContext opts r requestId) (\<lambda>context.
        case context of
          None \<Rightarrow> done_call (send_error 401 ''unauthenticated'')
        | Some ctx \<Rightarrow>
            if required \<notin> set (actor_capabilities ctx) then done_call (send_error 403 ''forbidden'')
            else (case ho_support opts of
                None \<Rightarrow> done_call not_found
              | Some service \<Rightarrow> bind_call (list_of service ctx) (\<lambda>body. done_call (sendJson 200 body [])))))"

section \<open>The router\<close>

definition error_response :: "rejection \<Rightarrow> http_response" where
  "error_response e = (case e of
      Store_ops Invalid_request \<Rightarrow> send_error 400 ''invalid_request''
    | Store_ops Forbidden \<Rightarrow> send_error 403 ''forbidden''
    | Store_ops Not_found \<Rightarrow> send_error 404 ''not_found''
    | Store_ops Availability_conflict \<Rightarrow> send_error 409 ''availability_conflict''
    | Store_ops Booking_intent_conflict \<Rightarrow> send_error 409 ''booking_intent_conflict''
    | Store_ops Dependency_unavailable \<Rightarrow> send_error 503 ''dependency_unavailable''
    | Service Conversation_not_found \<Rightarrow> send_error 404 ''not_found''
    | Service Conversation_conflict \<Rightarrow> send_error 409 ''conversation_conflict''
    | _ \<Rightarrow> send_error 500 ''internal_error'')"

text \<open>A handler that is awaited inside the \<open>try\<close>, and one whose promise is returned.\<close>

definition awaited :: "'w \<times> (rejection, http_response) result \<Rightarrow> 'w \<times> http_outcome" where
  "awaited p = (fst p, Responded (case snd p of Inr x \<Rightarrow> x | Inl e \<Rightarrow> error_response e))"

definition unawaited :: "'w \<times> (rejection, http_response) result \<Rightarrow> 'w \<times> http_outcome" where
  "unawaited p = (fst p, case snd p of Inr x \<Rightarrow> Responded x | Inl e \<Rightarrow> Escaped)"

definition static_response :: "'w http_options \<Rightarrow> jstring \<Rightarrow> ('w, http_response) call" where
  "static_response opts path w =
     (case ho_staticRoot opts of
        None \<Rightarrow> (w, Inr not_found)
      | Some dir \<Rightarrow>
          if dir = [] then (w, Inr not_found)
          else (case serveStaticFile (ho_files opts w) (ho_cwd opts) dir path of
              Inl e \<Rightarrow> (w, Inl (Service (Failed e)))
            | Inr None \<Rightarrow> (w, Inr not_found)
            | Inr (Some (kind, body)) \<Rightarrow>
                (w, Inr \<lparr>rs_status = 200,
                  rs_headers = [(''content-type'', kind), (''content-length'', show_nat (length body))],
                  rs_body = File_body body\<rparr>)))"

definition conversations_of :: "'w support_port \<Rightarrow> exec_context \<Rightarrow> ('w, http_body) call" where
  "conversations_of service ctx = bind_call (su_conversations service ctx) (\<lambda>xs. done_call (Conversations_body xs))"

definition tickets_of :: "'w support_port \<Rightarrow> exec_context \<Rightarrow> ('w, http_body) call" where
  "tickets_of service ctx = bind_call (su_tickets service ctx) (\<lambda>xs. done_call (Tickets_body xs))"

definition handoffs_of :: "'w support_port \<Rightarrow> exec_context \<Rightarrow> ('w, http_body) call" where
  "handoffs_of service ctx = bind_call (su_handoffs service ctx) (\<lambda>xs. done_call (Handoffs_body xs))"

definition audit_of :: "'w support_port \<Rightarrow> exec_context \<Rightarrow> ('w, http_body) call" where
  "audit_of service ctx = bind_call (su_audit service ctx) (\<lambda>xs. done_call (Audit_body (map publicAuditEvent xs)))"

text \<open>A route that takes one method.\<close>

definition only :: "string \<Rightarrow> http_request \<Rightarrow> ('w \<Rightarrow> 'w \<times> http_outcome) \<Rightarrow> 'w \<Rightarrow> 'w \<times> http_outcome" where
  "only m r handler w = (if hr_method r = js m then handler w else (w, Responded (methodNotAllowed m)))"

definition handleRequest :: "'w http_options \<Rightarrow> http_request \<Rightarrow> jstring \<Rightarrow> date \<Rightarrow> 'w \<Rightarrow> 'w \<times> http_outcome" where
  "handleRequest opts r requestId now w =
     (case hr_url r of
        None \<Rightarrow> (w, Escaped)
      | Some (path, q) \<Rightarrow>
          if path = js ''/api/v1/channels/wecom/staff/callback'' then awaited (staff_callback opts r q w)
          else if path = js ''/api/v1/channels/wecom/callback'' then
            (if hr_method r = js ''GET'' then (w, Responded (weComCallbackVerification opts q w))
             else if hr_method r = js ''POST'' then awaited (weComCallbackEvent opts r q w)
             else (w, Responded (methodNotAllowed ''GET, POST'')))
          else if path = js ''/api/v1/storeops'' \<or> starts_with (js ''/api/v1/storeops/'') path then
            awaited (storeOps opts r path q requestId w)
          else if path = js ''/healthz'' then only ''GET'' r (\<lambda>w. (w, Responded (sendJson 200 Status_ok []))) w
          else if path = js ''/api/v1/auth/login'' then only ''POST'' r (\<lambda>w. unawaited (http_login opts r now w)) w
          else if path = js ''/api/v1/auth/logout'' then only ''POST'' r (\<lambda>w. unawaited (http_logout opts r w)) w
          else if path = js ''/api/v1/auth/me'' then only ''GET'' r (\<lambda>w. unawaited (me opts r requestId w)) w
          else if path = js ''/api/v1/support/respond'' then
            only ''POST'' r (\<lambda>w. unawaited (support opts r requestId w)) w
          else if path = js ''/api/v1/conversations'' then
            only ''GET'' r (\<lambda>w. unawaited (readBusiness opts r q requestId Conversation_read conversations_of w)) w
          else if path = js ''/api/v1/tickets'' then
            only ''GET'' r (\<lambda>w. unawaited (readBusiness opts r q requestId Conversation_read tickets_of w)) w
          else if path = js ''/api/v1/handoffs'' then
            only ''GET'' r (\<lambda>w. unawaited (readBusiness opts r q requestId Conversation_read handoffs_of w)) w
          else if path = js ''/api/v1/audit-events'' then
            only ''GET'' r (\<lambda>w. unawaited (readBusiness opts r q requestId Audit_read audit_of w)) w
          else if starts_with (js ''/api/'') path then (w, Responded not_found)
          else awaited (static_response opts path w))"

end
