(* ===== verification/EvalPopulation.thy ===== *)
theory EvalPopulation
  imports CanonicalJson Knowledge
begin

text \<open>
  The frozen population of the retrieval evaluation: the fail-closed parsers of \<open>evals/job-ready-rag/schema.ts\<close> and the
  validation and freeze of \<open>evals/job-ready-rag/freeze.ts\<close>. A record of strings is an association list; no key
  is the name of a member of \<open>Object.prototype\<close>. The population and the table of negative controls are arguments.
\<close>

section \<open>Schema\<close>

datatype expected_answerability = Exp_answerable | Exp_no_answer | Exp_ambiguous

datatype actual_answerability = Act_answerable | Act_no_answer | Act_ambiguous | Act_unavailable

datatype case_provenance = Human_authored_official_source | Case_synthetic_fixture

datatype retrieval_mode = Lexical | Vector

datatype corpus_provenance = Approved_public_benchmark | Corpus_synthetic_fixture

record retrieval_eval_case =
  ec_caseId :: jstring
  ec_query :: jstring
  ec_scope :: retrieval_context
  ec_expectedEvidenceIds :: "jstring list"
  ec_expectedAnswerability :: expected_answerability
  ec_expectedVersions :: "(jstring \<times> jstring) list"
  ec_expectedSourceRefs :: "(jstring \<times> jstring) list"
  ec_provenance :: case_provenance
  ec_sourceRefs :: "jstring list"
  ec_goldReason :: jstring

record retrieval_measurement =
  rm_caseId :: jstring
  rm_sourceCommit :: jstring
  rm_casesSha256 :: jstring
  rm_corpusSha256 :: jstring
  rm_mode :: retrieval_mode
  rm_embeddingProfileId :: "jstring option"
  rm_returnedEvidenceIds :: "jstring list"
  rm_admittedEvidenceIds :: "jstring list"
  rm_returnedVersions :: "(jstring \<times> jstring) list"
  rm_actualAnswerability :: actual_answerability
  rm_elapsedMs :: rat
  rm_errorCategory :: "jstring option"
  rm_pass :: bool
  rm_failureReasons :: "jstring list"

record corpus_entry =
  ce_id :: jstring
  ce_kind :: jstring
  ce_status :: jstring
  ce_version :: jstring
  ce_updatedAt :: jstring
  ce_sourceRef :: jstring
  ce_tenantScope :: "jstring option"
  ce_storeScope :: "jstring option"
  ce_provenance :: corpus_provenance
  ce_sourcePath :: "jstring option"

section \<open>Parsers\<close>

datatype schema_error =
    Missing_key string | Unexpected_key jstring | Bad_value string
  | Negative_elapsed | Missing_profile | Scope_without_tenant jstring

definition assertKeySet :: "(jstring \<times> json) list \<Rightarrow> string list \<Rightarrow> string list \<Rightarrow> (schema_error, unit) result" where
  "assertKeySet obj required optional =
     (case List.find (\<lambda>k. js k \<notin> set (map fst obj)) required of
        Some k \<Rightarrow> Inl (Missing_key k)
      | None \<Rightarrow> (case List.find (\<lambda>k. k \<notin> set (map js (required @ optional))) (map fst obj) of
          Some k \<Rightarrow> Inl (Unexpected_key k)
        | None \<Rightarrow> Inr ()))"

definition requireNonEmptyString :: "json option \<Rightarrow> string \<Rightarrow> (schema_error, jstring) result" where
  "requireNonEmptyString v name = (case v of Some (JStr s) \<Rightarrow> if trim s = [] then Inl (Bad_value name) else Inr s | _ \<Rightarrow> Inl (Bad_value name))"

definition requireString :: "json option \<Rightarrow> string \<Rightarrow> (schema_error, jstring) result" where
  "requireString v name = (case v of Some (JStr s) \<Rightarrow> Inr s | _ \<Rightarrow> Inl (Bad_value name))"

definition requireStringArray :: "json option \<Rightarrow> string \<Rightarrow> (schema_error, jstring list) result" where
  "requireStringArray v name =
     (case v of Some (JArr xs) \<Rightarrow> map_result (\<lambda>x. requireString (Some x) name) xs | _ \<Rightarrow> Inl (Bad_value name))"

text \<open>Assigning a string to the key \<open>__proto__\<close> of the new object has no effect.\<close>

definition requireStringRecord :: "json option \<Rightarrow> string \<Rightarrow> (schema_error, (jstring \<times> jstring) list) result" where
  "requireStringRecord v name =
     (case v of
        Some (JObj kvs) \<Rightarrow>
          and_then (map_result (\<lambda>kv. and_then (requireString (Some (snd kv)) name) (\<lambda>s. Inr (fst kv, s))) kvs) (\<lambda>r.
            Inr (filter (\<lambda>kv. fst kv \<noteq> js ''__proto__'') r))
      | _ \<Rightarrow> Inl (Bad_value name))"

definition requireEnum :: "json option \<Rightarrow> (string \<times> 'a) list \<Rightarrow> string \<Rightarrow> (schema_error, 'a) result" where
  "requireEnum v allowed name =
     (case v of
        Some (JStr s) \<Rightarrow> (case map_of (map (\<lambda>(k, a). (js k, a)) allowed) s of Some a \<Rightarrow> Inr a | None \<Rightarrow> Inl (Bad_value name))
      | _ \<Rightarrow> Inl (Bad_value name))"

definition requireOptionalString :: "json option \<Rightarrow> string \<Rightarrow> (schema_error, jstring option) result" where
  "requireOptionalString v name = (case v of None \<Rightarrow> Inr None | Some x \<Rightarrow> map_sum id Some (requireString (Some x) name))"

definition requireFiniteNumber :: "json option \<Rightarrow> string \<Rightarrow> (schema_error, rat) result" where
  "requireFiniteNumber v name = (case v of Some (JNum (Num r)) \<Rightarrow> Inr r | _ \<Rightarrow> Inl (Bad_value name))"

definition requireBoolean :: "json option \<Rightarrow> string \<Rightarrow> (schema_error, bool) result" where
  "requireBoolean v name = (case v of Some (JBool b) \<Rightarrow> Inr b | _ \<Rightarrow> Inl (Bad_value name))"

definition EXPECTED_ANSWERABILITY :: "(string \<times> expected_answerability) list" where
  "EXPECTED_ANSWERABILITY = [(''answerable'', Exp_answerable), (''no_answer'', Exp_no_answer), (''ambiguous'', Exp_ambiguous)]"

definition ACTUAL_ANSWERABILITY :: "(string \<times> actual_answerability) list" where
  "ACTUAL_ANSWERABILITY = [(''answerable'', Act_answerable), (''no_answer'', Act_no_answer), (''ambiguous'', Act_ambiguous),
     (''unavailable'', Act_unavailable)]"

definition CASE_PROVENANCE :: "(string \<times> case_provenance) list" where
  "CASE_PROVENANCE = [(''human_authored_official_source'', Human_authored_official_source),
     (''synthetic_isolation_fixture'', Case_synthetic_fixture)]"

definition RETRIEVAL_MODE :: "(string \<times> retrieval_mode) list" where
  "RETRIEVAL_MODE = [(''lexical'', Lexical), (''vector'', Vector)]"

definition CORPUS_PROVENANCE :: "(string \<times> corpus_provenance) list" where
  "CORPUS_PROVENANCE = [(''approved_public_benchmark'', Approved_public_benchmark), (''synthetic_isolation_fixture'', Corpus_synthetic_fixture)]"

definition KNOWLEDGE_STATUS :: "(string \<times> jstring) list" where
  "KNOWLEDGE_STATUS = map (\<lambda>s. (s, js s)) [''approved'', ''synthetic_test_only'', ''unapproved'', ''retired'']"

definition KNOWLEDGE_KIND :: "(string \<times> jstring) list" where
  "KNOWLEDGE_KIND = map (\<lambda>s. (s, js s)) [''faq'', ''policy'', ''sop'', ''reference'']"

definition parseScope :: "json option \<Rightarrow> (schema_error, retrieval_context) result" where
  "parseScope v =
     (case v of
        Some (JObj obj) \<Rightarrow>
          and_then (assertKeySet obj [''tenantId'', ''storeId''] []) (\<lambda>_.
          and_then (requireNonEmptyString (field obj ''tenantId'') ''scope.tenantId'') (\<lambda>t.
          and_then (requireNonEmptyString (field obj ''storeId'') ''scope.storeId'') (\<lambda>s.
            Inr \<lparr>rc_tenantId = t, rc_storeId = s\<rparr>)))
      | _ \<Rightarrow> Inl (Bad_value ''scope''))"

definition RETRIEVAL_EVAL_CASE_KEYS :: "string list" where
  "RETRIEVAL_EVAL_CASE_KEYS = [''caseId'', ''query'', ''scope'', ''expectedEvidenceIds'', ''expectedAnswerability'',
     ''expectedVersions'', ''expectedSourceRefs'', ''provenance'', ''sourceRefs'', ''goldReason'']"

definition parseRetrievalEvalCase :: "json \<Rightarrow> (schema_error, retrieval_eval_case) result" where
  "parseRetrievalEvalCase v =
     (case v of
        JObj obj \<Rightarrow>
          and_then (assertKeySet obj RETRIEVAL_EVAL_CASE_KEYS []) (\<lambda>_.
          and_then (requireNonEmptyString (field obj ''caseId'') ''caseId'') (\<lambda>caseId.
          and_then (requireNonEmptyString (field obj ''query'') ''query'') (\<lambda>query.
          and_then (parseScope (field obj ''scope'')) (\<lambda>scope.
          and_then (requireStringArray (field obj ''expectedEvidenceIds'') ''expectedEvidenceIds'') (\<lambda>ids.
          and_then (requireEnum (field obj ''expectedAnswerability'') EXPECTED_ANSWERABILITY ''expectedAnswerability'') (\<lambda>ans.
          and_then (requireStringRecord (field obj ''expectedVersions'') ''expectedVersions'') (\<lambda>versions.
          and_then (requireStringRecord (field obj ''expectedSourceRefs'') ''expectedSourceRefs'') (\<lambda>refs.
          and_then (requireEnum (field obj ''provenance'') CASE_PROVENANCE ''provenance'') (\<lambda>prov.
          and_then (requireStringArray (field obj ''sourceRefs'') ''sourceRefs'') (\<lambda>sourceRefs.
          and_then (requireNonEmptyString (field obj ''goldReason'') ''goldReason'') (\<lambda>reason.
            Inr \<lparr>ec_caseId = caseId, ec_query = query, ec_scope = scope, ec_expectedEvidenceIds = ids,
              ec_expectedAnswerability = ans, ec_expectedVersions = versions, ec_expectedSourceRefs = refs,
              ec_provenance = prov, ec_sourceRefs = sourceRefs, ec_goldReason = reason\<rparr>)))))))))))
      | _ \<Rightarrow> Inl (Bad_value ''RetrievalEvalCase''))"

definition RETRIEVAL_MEASUREMENT_REQUIRED_KEYS :: "string list" where
  "RETRIEVAL_MEASUREMENT_REQUIRED_KEYS = [''caseId'', ''sourceCommit'', ''casesSha256'', ''corpusSha256'', ''mode'',
     ''returnedEvidenceIds'', ''admittedEvidenceIds'', ''returnedVersions'', ''actualAnswerability'', ''elapsedMs'', ''pass'',
     ''failureReasons'']"

definition checked_measurement :: "retrieval_measurement \<Rightarrow> (schema_error, retrieval_measurement) result" where
  "checked_measurement m =
     (if rm_elapsedMs m < 0 then Inl Negative_elapsed
      else if rm_mode m = Vector \<and> rm_embeddingProfileId m = None then Inl Missing_profile
      else Inr m)"

definition parseRetrievalMeasurement :: "json \<Rightarrow> (schema_error, retrieval_measurement) result" where
  "parseRetrievalMeasurement v =
     (case v of
        JObj obj \<Rightarrow>
          and_then (assertKeySet obj RETRIEVAL_MEASUREMENT_REQUIRED_KEYS [''embeddingProfileId'', ''errorCategory'']) (\<lambda>_.
          and_then (requireNonEmptyString (field obj ''caseId'') ''caseId'') (\<lambda>caseId.
          and_then (requireNonEmptyString (field obj ''sourceCommit'') ''sourceCommit'') (\<lambda>commit.
          and_then (requireNonEmptyString (field obj ''casesSha256'') ''casesSha256'') (\<lambda>cases.
          and_then (requireNonEmptyString (field obj ''corpusSha256'') ''corpusSha256'') (\<lambda>corpus.
          and_then (requireEnum (field obj ''mode'') RETRIEVAL_MODE ''mode'') (\<lambda>mode.
          and_then (requireStringArray (field obj ''returnedEvidenceIds'') ''returnedEvidenceIds'') (\<lambda>returned.
          and_then (requireStringArray (field obj ''admittedEvidenceIds'') ''admittedEvidenceIds'') (\<lambda>admitted.
          and_then (requireStringRecord (field obj ''returnedVersions'') ''returnedVersions'') (\<lambda>versions.
          and_then (requireEnum (field obj ''actualAnswerability'') ACTUAL_ANSWERABILITY ''actualAnswerability'') (\<lambda>ans.
          and_then (requireFiniteNumber (field obj ''elapsedMs'') ''elapsedMs'') (\<lambda>elapsed.
          and_then (requireBoolean (field obj ''pass'') ''pass'') (\<lambda>pass.
          and_then (requireStringArray (field obj ''failureReasons'') ''failureReasons'') (\<lambda>reasons.
          and_then (requireOptionalString (field obj ''embeddingProfileId'') ''embeddingProfileId'') (\<lambda>profile.
          and_then (requireOptionalString (field obj ''errorCategory'') ''errorCategory'') (\<lambda>category.
            checked_measurement \<lparr>rm_caseId = caseId, rm_sourceCommit = commit, rm_casesSha256 = cases, rm_corpusSha256 = corpus,
              rm_mode = mode, rm_embeddingProfileId = profile, rm_returnedEvidenceIds = returned,
              rm_admittedEvidenceIds = admitted, rm_returnedVersions = versions, rm_actualAnswerability = ans,
              rm_elapsedMs = elapsed, rm_errorCategory = category, rm_pass = pass, rm_failureReasons = reasons\<rparr>)))))))))))))))
      | _ \<Rightarrow> Inl (Bad_value ''RetrievalMeasurement''))"

definition CORPUS_ENTRY_REQUIRED_KEYS :: "string list" where
  "CORPUS_ENTRY_REQUIRED_KEYS = [''id'', ''kind'', ''status'', ''version'', ''updatedAt'', ''sourceRef'', ''provenance'']"

definition parseCorpusEntry :: "json \<Rightarrow> (schema_error, corpus_entry) result" where
  "parseCorpusEntry v =
     (case v of
        JObj obj \<Rightarrow>
          and_then (assertKeySet obj CORPUS_ENTRY_REQUIRED_KEYS [''tenantScope'', ''storeScope'', ''sourcePath'']) (\<lambda>_.
          and_then (requireNonEmptyString (field obj ''id'') ''id'') (\<lambda>i.
          and_then (requireEnum (field obj ''kind'') KNOWLEDGE_KIND ''kind'') (\<lambda>kind.
          and_then (requireEnum (field obj ''status'') KNOWLEDGE_STATUS ''status'') (\<lambda>status.
          and_then (requireNonEmptyString (field obj ''version'') ''version'') (\<lambda>version.
          and_then (requireNonEmptyString (field obj ''updatedAt'') ''updatedAt'') (\<lambda>updatedAt.
          and_then (requireNonEmptyString (field obj ''sourceRef'') ''sourceRef'') (\<lambda>sourceRef.
          and_then (requireEnum (field obj ''provenance'') CORPUS_PROVENANCE ''provenance'') (\<lambda>prov.
          and_then (requireOptionalString (field obj ''tenantScope'') ''tenantScope'') (\<lambda>tenantScope.
          and_then (requireOptionalString (field obj ''storeScope'') ''storeScope'') (\<lambda>storeScope.
          and_then (requireOptionalString (field obj ''sourcePath'') ''sourcePath'') (\<lambda>sourcePath.
            if storeScope \<noteq> None \<and> tenantScope = None then Inl (Scope_without_tenant i)
            else Inr \<lparr>ce_id = i, ce_kind = kind, ce_status = status, ce_version = version, ce_updatedAt = updatedAt,
              ce_sourceRef = sourceRef, ce_tenantScope = tenantScope, ce_storeScope = storeScope, ce_provenance = prov,
              ce_sourcePath = sourcePath\<rparr>)))))))))))
      | _ \<Rightarrow> Inl (Bad_value ''CorpusEntry''))"


section \<open>The objects of the population\<close>

fun json_of_text :: "jtext \<Rightarrow> json" where
  "json_of_text TNull = JNull"
| "json_of_text (TStr s) = JStr s"
| "json_of_text (TNat n) = JNum (Num (of_nat n))"
| "json_of_text (TArr vs) = JArr (map json_of_text vs)"
| "json_of_text (TObj kvs) = JObj (map (\<lambda>kv. (fst kv, json_of_text (snd kv))) kvs)"

definition key_of :: "(string \<times> 'a) list \<Rightarrow> 'a \<Rightarrow> jtext" where
  "key_of table a = (case List.find (\<lambda>x. snd x = a) table of Some x \<Rightarrow> TStr (js (fst x)) | None \<Rightarrow> TNull)"

definition text_array :: "jstring list \<Rightarrow> jtext" where
  "text_array xs = TArr (map TStr xs)"

definition text_record :: "(jstring \<times> jstring) list \<Rightarrow> jtext" where
  "text_record kvs = TObj (map (\<lambda>kv. (fst kv, TStr (snd kv))) kvs)"

definition eval_case_text :: "retrieval_eval_case \<Rightarrow> jtext" where
  "eval_case_text c =
     TObj [(js ''caseId'', TStr (ec_caseId c)), (js ''query'', TStr (ec_query c)),
       (js ''scope'', TObj [(js ''tenantId'', TStr (rc_tenantId (ec_scope c))), (js ''storeId'', TStr (rc_storeId (ec_scope c)))]),
       (js ''expectedEvidenceIds'', text_array (ec_expectedEvidenceIds c)),
       (js ''expectedAnswerability'', key_of EXPECTED_ANSWERABILITY (ec_expectedAnswerability c)),
       (js ''expectedVersions'', text_record (ec_expectedVersions c)),
       (js ''expectedSourceRefs'', text_record (ec_expectedSourceRefs c)),
       (js ''provenance'', key_of CASE_PROVENANCE (ec_provenance c)), (js ''sourceRefs'', text_array (ec_sourceRefs c)),
       (js ''goldReason'', TStr (ec_goldReason c))]"

definition optional_text :: "string \<Rightarrow> jstring option \<Rightarrow> (jstring \<times> jtext) list" where
  "optional_text key v = (case v of None \<Rightarrow> [] | Some s \<Rightarrow> [(js key, TStr s)])"

definition corpus_entry_text :: "corpus_entry \<Rightarrow> jtext" where
  "corpus_entry_text e =
     TObj ([(js ''id'', TStr (ce_id e)), (js ''kind'', TStr (ce_kind e)), (js ''status'', TStr (ce_status e)),
       (js ''version'', TStr (ce_version e)), (js ''updatedAt'', TStr (ce_updatedAt e)), (js ''sourceRef'', TStr (ce_sourceRef e))] @
       optional_text ''tenantScope'' (ce_tenantScope e) @ optional_text ''storeScope'' (ce_storeScope e) @
       [(js ''provenance'', key_of CORPUS_PROVENANCE (ce_provenance e))] @ optional_text ''sourcePath'' (ce_sourcePath e))"

section \<open>Validation\<close>

datatype population_error =
    Malformed schema_error | Duplicate_entry jstring | Wrong_count nat | Wrong_split nat nat nat | Duplicate_case jstring
  | Short_reason jstring | Unknown_gold jstring jstring | Version_mismatch jstring jstring | Source_mismatch jstring jstring
  | Wrong_gold jstring | Wrong_provenance jstring | Few_controls nat | Bad_control jstring
  | Unknown_excluded jstring jstring | Excluded_not_fixture jstring | Missing_dimension string

definition entry_by_id :: "corpus_entry list \<Rightarrow> jstring \<Rightarrow> corpus_entry option" where
  "entry_by_id corpus i = List.find (\<lambda>e. ce_id e = i) corpus"

fun check_corpus :: "jstring list \<Rightarrow> corpus_entry list \<Rightarrow> (population_error, unit) result" where
  "check_corpus seen [] = Inr ()"
| "check_corpus seen (e # es) =
     (case parseCorpusEntry (json_of_text (corpus_entry_text e)) of
        Inl x \<Rightarrow> Inl (Malformed x)
      | Inr _ \<Rightarrow> if ce_id e \<in> set seen then Inl (Duplicate_entry (ce_id e)) else check_corpus (ce_id e # seen) es)"

definition countBy :: "retrieval_eval_case list \<Rightarrow> expected_answerability \<Rightarrow> nat" where
  "countBy cases a = length (filter (\<lambda>c. ec_expectedAnswerability c = a) cases)"

fun check_gold :: "corpus_entry list \<Rightarrow> retrieval_eval_case \<Rightarrow> jstring list \<Rightarrow> (population_error, unit) result" where
  "check_gold corpus c [] = Inr ()"
| "check_gold corpus c (i # is) =
     (case entry_by_id corpus i of
        None \<Rightarrow> Inl (Unknown_gold (ec_caseId c) i)
      | Some e \<Rightarrow>
          if map_of (ec_expectedVersions c) i \<noteq> Some (ce_version e) then Inl (Version_mismatch (ec_caseId c) i)
          else if map_of (ec_expectedSourceRefs c) i \<noteq> Some (ce_sourceRef e) then Inl (Source_mismatch (ec_caseId c) i)
          else check_gold corpus c is)"

definition check_kind :: "retrieval_eval_case \<Rightarrow> (population_error, unit) result" where
  "check_kind c =
     (case ec_expectedAnswerability c of
        Exp_answerable \<Rightarrow>
          if length (ec_expectedEvidenceIds c) \<noteq> 1 then Inl (Wrong_gold (ec_caseId c))
          else guard (ec_provenance c = Human_authored_official_source) (Wrong_provenance (ec_caseId c))
      | Exp_ambiguous \<Rightarrow>
          if length (remdups (ec_expectedEvidenceIds c)) < 2 then Inl (Wrong_gold (ec_caseId c))
          else guard (ec_provenance c = Human_authored_official_source) (Wrong_provenance (ec_caseId c))
      | Exp_no_answer \<Rightarrow>
          if ec_expectedEvidenceIds c \<noteq> [] then Inl (Wrong_gold (ec_caseId c))
          else guard (ec_provenance c = Case_synthetic_fixture) (Wrong_provenance (ec_caseId c)))"

fun check_cases :: "corpus_entry list \<Rightarrow> jstring list \<Rightarrow> retrieval_eval_case list \<Rightarrow> (population_error, unit) result" where
  "check_cases corpus seen [] = Inr ()"
| "check_cases corpus seen (c # cs) =
     (case parseRetrievalEvalCase (json_of_text (eval_case_text c)) of
        Inl x \<Rightarrow> Inl (Malformed x)
      | Inr _ \<Rightarrow>
          if ec_caseId c \<in> set seen then Inl (Duplicate_case (ec_caseId c))
          else if length (trim (ec_goldReason c)) < 8 then Inl (Short_reason (ec_caseId c))
          else and_then (check_gold corpus c (ec_expectedEvidenceIds c)) (\<lambda>_.
            and_then (check_kind c) (\<lambda>_. check_cases corpus (ec_caseId c # seen) cs)))"

record negative_control =
  nc_caseId :: jstring
  nc_dimension :: string
  nc_excludedEntryIds :: "jstring list"

fun check_excluded :: "corpus_entry list \<Rightarrow> jstring \<Rightarrow> jstring list \<Rightarrow> (population_error, unit) result" where
  "check_excluded corpus caseId [] = Inr ()"
| "check_excluded corpus caseId (i # is) =
     (case entry_by_id corpus i of
        None \<Rightarrow> Inl (Unknown_excluded caseId i)
      | Some e \<Rightarrow> if ce_provenance e \<noteq> Corpus_synthetic_fixture then Inl (Excluded_not_fixture caseId)
          else check_excluded corpus caseId is)"

fun check_controls :: "corpus_entry list \<Rightarrow> retrieval_eval_case list \<Rightarrow> negative_control list \<Rightarrow> (population_error, unit) result" where
  "check_controls corpus cases [] = Inr ()"
| "check_controls corpus cases (n # ns) =
     (case List.find (\<lambda>c. ec_caseId c = nc_caseId n) cases of
        None \<Rightarrow> Inl (Bad_control (nc_caseId n))
      | Some target \<Rightarrow>
          if ec_expectedAnswerability target \<noteq> Exp_no_answer then Inl (Bad_control (nc_caseId n))
          else and_then (check_excluded corpus (nc_caseId n) (nc_excludedEntryIds n)) (\<lambda>_. check_controls corpus cases ns))"

definition REQUIRED_DIMENSIONS :: "string list" where
  "REQUIRED_DIMENSIONS = [''tenant_isolation'', ''store_isolation'', ''unapproved_evidence'', ''stale_version'']"

definition assertValidPopulation ::
  "negative_control list \<Rightarrow> retrieval_eval_case list \<Rightarrow> corpus_entry list \<Rightarrow> (population_error, unit) result" where
  "assertValidPopulation controls cases corpus =
     and_then (check_corpus [] corpus) (\<lambda>_.
       if length cases \<noteq> 40 then Inl (Wrong_count (length cases))
       else (let a = countBy cases Exp_answerable; n = countBy cases Exp_no_answer; m = countBy cases Exp_ambiguous in
         if a \<noteq> 24 \<or> n \<noteq> 8 \<or> m \<noteq> 8 then Inl (Wrong_split a n m)
         else and_then (check_cases corpus [] cases) (\<lambda>_.
           if length controls < 8 then Inl (Few_controls (length controls))
           else and_then (check_controls corpus cases controls) (\<lambda>_.
             (case List.find (\<lambda>d. d \<notin> set (map nc_dimension controls)) REQUIRED_DIMENSIONS of
                Some d \<Rightarrow> Inl (Missing_dimension d)
              | None \<Rightarrow> Inr ())))))"

section \<open>The freeze\<close>

record frozen_population =
  fp_casesSha256 :: jstring
  fp_corpusSha256 :: jstring
  fp_caseCount :: nat
  fp_answerableCount :: nat
  fp_noAnswerCount :: nat
  fp_ambiguousCount :: nat
  fp_negativeControlCount :: nat
  fp_negativeControlDimensions :: "string list"
  fp_corpusEntryCount :: nat
  fp_approvedEntryCount :: nat
  fp_syntheticFixtureCount :: nat
  fp_humanAuthoredCaseCount :: nat
  fp_syntheticFixtureCaseCount :: nat

definition freezePopulation ::
  "(jstring \<Rightarrow> jstring) \<Rightarrow> negative_control list \<Rightarrow> retrieval_eval_case list \<Rightarrow> corpus_entry list \<Rightarrow>
     (population_error, frozen_population) result" where
  "freezePopulation sha controls cases corpus =
     and_then (assertValidPopulation controls cases corpus) (\<lambda>_.
       Inr \<lparr>fp_casesSha256 = hashPopulation sha (TArr (map eval_case_text cases)),
         fp_corpusSha256 = hashPopulation sha (TArr (map corpus_entry_text corpus)), fp_caseCount = length cases,
         fp_answerableCount = countBy cases Exp_answerable, fp_noAnswerCount = countBy cases Exp_no_answer,
         fp_ambiguousCount = countBy cases Exp_ambiguous, fp_negativeControlCount = length controls,
         fp_negativeControlDimensions = sort_by (\<lambda>a b. units_le (js a) (js b)) (remdups (map nc_dimension controls)),
         fp_corpusEntryCount = length corpus,
         fp_approvedEntryCount = length (filter (\<lambda>e. ce_provenance e = Approved_public_benchmark) corpus),
         fp_syntheticFixtureCount = length (filter (\<lambda>e. ce_provenance e = Corpus_synthetic_fixture) corpus),
         fp_humanAuthoredCaseCount = length (filter (\<lambda>c. ec_provenance c = Human_authored_official_source) cases),
         fp_syntheticFixtureCaseCount = length (filter (\<lambda>c. ec_provenance c = Case_synthetic_fixture) cases)\<rparr>)"

end
