(* ===== verification/EvalMetrics.thy ===== *)
theory EvalMetrics
  imports EvalPopulation
begin

text \<open>
  The scoring of a retrieval run, \<open>evals/job-ready-rag/metrics.ts\<close>. Numbers are exact rationals. A field that is
  \<open>null\<close> or \<open>undefined\<close> in the source is an option.
\<close>

section \<open>One case\<close>

datatype routing_bucket = Bucket_0 | Bucket_1 | Bucket_2

definition scopeAllowsEntry :: "corpus_entry \<Rightarrow> retrieval_context \<Rightarrow> bool" where
  "scopeAllowsEntry e s \<longleftrightarrow>
     (ce_tenantScope e = None \<or> ce_tenantScope e = Some (rc_tenantId s)) \<and>
     (ce_storeScope e = None \<or> ce_storeScope e = Some (rc_storeId s))"

fun bucketForExpected :: "expected_answerability \<Rightarrow> routing_bucket" where
  "bucketForExpected Exp_no_answer = Bucket_0"
| "bucketForExpected Exp_ambiguous = Bucket_2"
| "bucketForExpected Exp_answerable = Bucket_1"

definition bucketForCount :: "nat \<Rightarrow> routing_bucket" where
  "bucketForCount n = (if n = 0 then Bucket_0 else if n = 1 then Bucket_1 else Bucket_2)"

text \<open>The first occurrence of each.\<close>

definition distinct_ids :: "jstring list \<Rightarrow> jstring list" where
  "distinct_ids ids = rev (remdups (rev ids))"

record case_evaluation =
  cv_caseId :: jstring
  cv_missing :: bool
  cv_mode :: "retrieval_mode option"
  cv_provenance :: case_provenance
  cv_expectedAnswerability :: expected_answerability
  cv_actualAnswerability :: "actual_answerability option"
  cv_expectedRoutingBucket :: routing_bucket
  cv_actualRoutingBucket :: routing_bucket
  cv_routingCorrect :: bool
  cv_elapsedMs :: "rat option"
  cv_errored :: bool
  cv_timedOut :: bool
  cv_errorCategory :: "jstring option"
  cv_dependencyFailure :: bool
  cv_hasGold :: bool
  cv_recallAt3 :: "rat option"
  cv_recallHitIds :: "jstring list"
  cv_recallMissedIds :: "jstring list"
  cv_returnedDistinctIds :: "jstring list"
  cv_wrongDistinctIds :: "jstring list"
  cv_noAnswerEligible :: bool
  cv_noAnswerCorrect :: bool
  cv_crossScopeAdmissions :: "jstring list"
  cv_unapprovedAdmissions :: "jstring list"
  cv_staleVersionAdmissions :: "jstring list"
  cv_unknownAdmissions :: "jstring list"
  cv_ordinaryAuthorizationOnZeroOrMultiple :: bool
  cv_failureReasons :: "jstring list"
  cv_pass :: bool

text \<open>The map of the corpus by identifier keeps the last of equal identifiers.\<close>

definition indexed_entry :: "corpus_entry list \<Rightarrow> jstring \<Rightarrow> corpus_entry option" where
  "indexed_entry corpus i = List.find (\<lambda>e. ce_id e = i) (rev corpus)"

definition isValidGold :: "jstring \<Rightarrow> retrieval_eval_case \<Rightarrow> retrieval_measurement \<Rightarrow> corpus_entry list \<Rightarrow> bool" where
  "isValidGold i c m corpus \<longleftrightarrow> i \<in> set (ec_expectedEvidenceIds c) \<and>
     (case indexed_entry corpus i of
        None \<Rightarrow> False
      | Some e \<Rightarrow> scopeAllowsEntry e (ec_scope c) \<and> map_of (rm_returnedVersions m) i = map_of (ec_expectedVersions c) i)"

definition missing_evaluation :: "retrieval_eval_case \<Rightarrow> case_evaluation" where
  "missing_evaluation c =
     \<lparr>cv_caseId = ec_caseId c, cv_missing = True, cv_mode = None, cv_provenance = ec_provenance c,
      cv_expectedAnswerability = ec_expectedAnswerability c, cv_actualAnswerability = None,
      cv_expectedRoutingBucket = bucketForExpected (ec_expectedAnswerability c), cv_actualRoutingBucket = Bucket_0,
      cv_routingCorrect = False, cv_elapsedMs = None, cv_errored = True, cv_timedOut = False, cv_errorCategory = None,
      cv_dependencyFailure = True, cv_hasGold = (ec_expectedEvidenceIds c \<noteq> []), cv_recallAt3 = None, cv_recallHitIds = [],
      cv_recallMissedIds = ec_expectedEvidenceIds c, cv_returnedDistinctIds = [], cv_wrongDistinctIds = [],
      cv_noAnswerEligible = (ec_expectedAnswerability c = Exp_no_answer), cv_noAnswerCorrect = False,
      cv_crossScopeAdmissions = [], cv_unapprovedAdmissions = [], cv_staleVersionAdmissions = [], cv_unknownAdmissions = [],
      cv_ordinaryAuthorizationOnZeroOrMultiple = False, cv_failureReasons = [js ''missing_measurement''], cv_pass = False\<rparr>"

text \<open>What the loop over the admitted documents finds of one of them.\<close>

definition unknown_entry :: "corpus_entry list \<Rightarrow> jstring \<Rightarrow> bool" where
  "unknown_entry corpus i \<longleftrightarrow> indexed_entry corpus i = None"

definition entry_such :: "corpus_entry list \<Rightarrow> jstring \<Rightarrow> (corpus_entry \<Rightarrow> bool) \<Rightarrow> bool" where
  "entry_such corpus i P = (case indexed_entry corpus i of None \<Rightarrow> False | Some e \<Rightarrow> P e)"

definition stale_entry :: "retrieval_measurement \<Rightarrow> jstring \<Rightarrow> corpus_entry \<Rightarrow> bool" where
  "stale_entry m i e \<longleftrightarrow> ce_status e = js ''retired'' \<or>
     (case map_of (rm_returnedVersions m) i of None \<Rightarrow> False | Some v \<Rightarrow> v \<noteq> ce_version e)"

fun bucket_name :: "routing_bucket \<Rightarrow> string" where
  "bucket_name Bucket_0 = ''0''"
| "bucket_name Bucket_1 = ''1''"
| "bucket_name Bucket_2 = ''2+''"

definition admission_reason :: "string \<Rightarrow> jstring list \<Rightarrow> jstring list" where
  "admission_reason name ids = (if ids = [] then [] else [js name @ js '':'' @ join (js ''|'') ids])"

definition failure_reasons ::
  "bool \<Rightarrow> jstring list \<Rightarrow> jstring list \<Rightarrow> jstring list \<Rightarrow> jstring list \<Rightarrow> bool \<Rightarrow> routing_bucket \<Rightarrow> routing_bucket \<Rightarrow> jstring list" where
  "failure_reasons dependencyFailure crossScope unapproved stale unknown ordinary expected actual =
     (if dependencyFailure then [js ''dependency_failure''] else []) @
     admission_reason ''cross_scope_admission'' crossScope @ admission_reason ''unapproved_admission'' unapproved @
     admission_reason ''stale_version_admission'' stale @ admission_reason ''unknown_admission'' unknown @
     (if ordinary then [js ''ordinary_authorization_on_zero_or_multiple''] else []) @
     (if actual \<noteq> expected \<and> \<not> dependencyFailure
      then [js ''routing_mismatch:expected_'' @ js (bucket_name expected) @ js ''_got_'' @ js (bucket_name actual)] else [])"

definition ordinary_authorization :: "retrieval_eval_case \<Rightarrow> retrieval_measurement \<Rightarrow> bool" where
  "ordinary_authorization c m \<longleftrightarrow> ec_expectedAnswerability c \<in> {Exp_no_answer, Exp_ambiguous} \<and> rm_actualAnswerability m = Act_answerable"

definition measured_evaluation :: "retrieval_measurement \<Rightarrow> retrieval_eval_case \<Rightarrow> corpus_entry list \<Rightarrow> case_evaluation" where
  "measured_evaluation m c corpus =
     (let returnedDistinct = distinct_ids (rm_returnedEvidenceIds m);
          top3 = take 3 returnedDistinct;
          admittedDistinct = distinct_ids (rm_admittedEvidenceIds m);
          dependencyFailure = (rm_actualAnswerability m = Act_unavailable);
          errored = (dependencyFailure \<or> rm_errorCategory m \<noteq> None);
          expectedBucket = bucketForExpected (ec_expectedAnswerability c);
          actualBucket = bucketForCount (length admittedDistinct);
          hit = (\<lambda>i. i \<in> set top3 \<and> isValidGold i c m corpus);
          gold = ec_expectedEvidenceIds c;
          crossScope = filter (\<lambda>i. entry_such corpus i (\<lambda>e. \<not> scopeAllowsEntry e (ec_scope c))) admittedDistinct;
          unapproved = filter (\<lambda>i. entry_such corpus i (\<lambda>e. ce_status e \<noteq> approved)) admittedDistinct;
          stale = filter (\<lambda>i. entry_such corpus i (stale_entry m i)) admittedDistinct;
          unknown = filter (unknown_entry corpus) admittedDistinct;
          ordinary = ordinary_authorization c m;
          reasons = failure_reasons dependencyFailure crossScope unapproved stale unknown ordinary expectedBucket actualBucket
      in \<lparr>cv_caseId = ec_caseId c, cv_missing = False, cv_mode = Some (rm_mode m), cv_provenance = ec_provenance c,
          cv_expectedAnswerability = ec_expectedAnswerability c, cv_actualAnswerability = Some (rm_actualAnswerability m),
          cv_expectedRoutingBucket = expectedBucket, cv_actualRoutingBucket = actualBucket,
          cv_routingCorrect = (\<not> dependencyFailure \<and> actualBucket = expectedBucket), cv_elapsedMs = Some (rm_elapsedMs m),
          cv_errored = errored,
          cv_timedOut = (case rm_errorCategory m of None \<Rightarrow> False | Some x \<Rightarrow> contains (js ''timeout'') (to_lower x)),
          cv_errorCategory = rm_errorCategory m, cv_dependencyFailure = dependencyFailure, cv_hasGold = (gold \<noteq> []),
          cv_recallAt3 = (if gold = [] then None else Some (of_nat (length (filter hit gold)) / of_nat (length gold))),
          cv_recallHitIds = filter hit gold, cv_recallMissedIds = filter (\<lambda>i. \<not> hit i) gold,
          cv_returnedDistinctIds = returnedDistinct,
          cv_wrongDistinctIds = filter (\<lambda>i. \<not> isValidGold i c m corpus) returnedDistinct,
          cv_noAnswerEligible = (ec_expectedAnswerability c = Exp_no_answer),
          cv_noAnswerCorrect = (ec_expectedAnswerability c = Exp_no_answer \<and> admittedDistinct = [] \<and> \<not> errored),
          cv_crossScopeAdmissions = crossScope, cv_unapprovedAdmissions = unapproved, cv_staleVersionAdmissions = stale,
          cv_unknownAdmissions = unknown, cv_ordinaryAuthorizationOnZeroOrMultiple = ordinary, cv_failureReasons = reasons,
          cv_pass = (reasons = [])\<rparr>)"

definition evaluateCase :: "retrieval_measurement option \<Rightarrow> retrieval_eval_case \<Rightarrow> corpus_entry list \<Rightarrow> case_evaluation" where
  "evaluateCase m c corpus = (case m of None \<Rightarrow> missing_evaluation c | Some x \<Rightarrow> measured_evaluation x c corpus)"

section \<open>A run\<close>

record latency_stats =
  ls_count :: nat
  ls_min :: "rat option"
  ls_p50 :: "rat option"
  ls_p95 :: "rat option"
  ls_max :: "rat option"
  ls_timeoutCount :: nat
  ls_errorCount :: nat

record recall_stratum =
  rs_cases :: nat
  rs_macroRecallAt3 :: "rat option"

record safety_invariants =
  si_crossScopeAdmissions :: nat
  si_unapprovedAdmissions :: nat
  si_staleVersionAdmissions :: nat
  si_unknownAdmissions :: nat
  si_ordinaryAuthorizationOnZeroOrMultiple :: nat
  si_violatingCaseIds :: "jstring list"
  si_allHold :: bool

datatype summary_mode = One_mode retrieval_mode | Mixed_modes | No_mode

record metrics_summary =
  sm_mode :: summary_mode
  sm_caseCount :: nat
  sm_measurementCount :: nat
  sm_recallAnswerable :: recall_stratum
  sm_recallAmbiguous :: recall_stratum
  sm_wrongEvidenceRate :: "rat option"
  sm_wrongEvidenceReturnedDistinct :: nat
  sm_wrongEvidenceWrongDistinct :: nat
  sm_coverage :: "rat option"
  sm_noAnswerAccuracy :: "rat option"
  sm_noAnswerCorrect :: nat
  sm_noAnswerTotal :: nat
  sm_latency :: latency_stats
  sm_routingAccuracy :: "rat option"
  sm_routingBuckets :: "routing_bucket \<Rightarrow> nat \<times> nat"
  sm_dependencyFailureCount :: nat
  sm_passedCaseCount :: nat
  sm_failedCaseIds :: "jstring list"
  sm_safetyInvariants :: safety_invariants

definition percentile :: "rat list \<Rightarrow> rat \<Rightarrow> rat option" where
  "percentile xs p =
     (if xs = [] then None
      else (let rank = nat \<lceil>p / 100 * of_nat (length xs)\<rceil> in Some (xs ! min (max (rank - 1) 0) (length xs - 1))))"

definition macroRecall :: "case_evaluation list \<Rightarrow> expected_answerability \<Rightarrow> recall_stratum" where
  "macroRecall es a =
     (let stratum = filter (\<lambda>e. cv_expectedAnswerability e = a \<and> cv_recallAt3 e \<noteq> None) es in
      if stratum = [] then \<lparr>rs_cases = 0, rs_macroRecallAt3 = None\<rparr>
      else \<lparr>rs_cases = length stratum,
        rs_macroRecallAt3 = Some (sum_list (map (the \<circ> cv_recallAt3) stratum) / of_nat (length stratum))\<rparr>)"

definition ratio :: "nat \<Rightarrow> nat \<Rightarrow> rat option" where
  "ratio a b = (if b = 0 then None else Some (of_nat a / of_nat b))"

definition violating :: "case_evaluation \<Rightarrow> bool" where
  "violating e \<longleftrightarrow> cv_crossScopeAdmissions e \<noteq> [] \<or> cv_unapprovedAdmissions e \<noteq> [] \<or> cv_staleVersionAdmissions e \<noteq> [] \<or>
     cv_unknownAdmissions e \<noteq> [] \<or> cv_ordinaryAuthorizationOnZeroOrMultiple e"

definition total :: "('a \<Rightarrow> 'b list) \<Rightarrow> 'a list \<Rightarrow> nat" where
  "total f xs = sum_list (map (length \<circ> f) xs)"

definition count :: "('a \<Rightarrow> bool) \<Rightarrow> 'a list \<Rightarrow> nat" where
  "count P xs = length (filter P xs)"

definition safety_of :: "case_evaluation list \<Rightarrow> safety_invariants" where
  "safety_of es =
     (let bad = map cv_caseId (filter violating es) in
      \<lparr>si_crossScopeAdmissions = total cv_crossScopeAdmissions es, si_unapprovedAdmissions = total cv_unapprovedAdmissions es,
       si_staleVersionAdmissions = total cv_staleVersionAdmissions es, si_unknownAdmissions = total cv_unknownAdmissions es,
       si_ordinaryAuthorizationOnZeroOrMultiple = count cv_ordinaryAuthorizationOnZeroOrMultiple es,
       si_violatingCaseIds = bad, si_allHold = (bad = [])\<rparr>)"

definition latency_of :: "case_evaluation list \<Rightarrow> latency_stats" where
  "latency_of measured =
     (let xs = sort (map (\<lambda>e. case cv_elapsedMs e of None \<Rightarrow> 0 | Some t \<Rightarrow> t) measured) in
      \<lparr>ls_count = length xs, ls_min = (if xs = [] then None else Some (hd xs)), ls_p50 = percentile xs 50, ls_p95 = percentile xs 95,
       ls_max = (if xs = [] then None else Some (last xs)), ls_timeoutCount = count cv_timedOut measured,
       ls_errorCount = count cv_errored measured\<rparr>)"

definition computeMetrics :: "case_evaluation list \<Rightarrow> metrics_summary" where
  "computeMetrics es =
     (let measured = filter (\<lambda>e. \<not> cv_missing e) es;
          modes = remdups (map cv_mode measured);
          returned = total cv_returnedDistinctIds es;
          wrong = total cv_wrongDistinctIds es;
          noAnswer = filter cv_noAnswerEligible es
      in \<lparr>sm_mode = (case modes of [] \<Rightarrow> No_mode | [Some m] \<Rightarrow> One_mode m | _ \<Rightarrow> Mixed_modes),
          sm_caseCount = length es, sm_measurementCount = length measured, sm_recallAnswerable = macroRecall es Exp_answerable,
          sm_recallAmbiguous = macroRecall es Exp_ambiguous, sm_wrongEvidenceRate = ratio wrong returned,
          sm_wrongEvidenceReturnedDistinct = returned, sm_wrongEvidenceWrongDistinct = wrong,
          sm_coverage = ratio (count (\<lambda>e. cv_returnedDistinctIds e \<noteq> []) es) (length es),
          sm_noAnswerAccuracy = ratio (count cv_noAnswerCorrect noAnswer) (length noAnswer),
          sm_noAnswerCorrect = count cv_noAnswerCorrect noAnswer, sm_noAnswerTotal = length noAnswer,
          sm_latency = latency_of measured, sm_routingAccuracy = ratio (count cv_routingCorrect es) (length es),
          sm_routingBuckets = (\<lambda>b. (count (\<lambda>e. cv_expectedRoutingBucket e = b) es,
            count (\<lambda>e. cv_expectedRoutingBucket e = b \<and> cv_routingCorrect e) es)),
          sm_dependencyFailureCount = count cv_dependencyFailure es, sm_passedCaseCount = count cv_pass es,
          sm_failedCaseIds = map cv_caseId (filter (\<lambda>e. \<not> cv_pass e) es), sm_safetyInvariants = safety_of es\<rparr>)"

text \<open>The left side is the case of a second measurement.\<close>

fun index_measurements ::
  "(jstring \<times> retrieval_measurement) list \<Rightarrow> retrieval_measurement list \<Rightarrow> (jstring, (jstring \<times> retrieval_measurement) list) result" where
  "index_measurements seen [] = Inr seen"
| "index_measurements seen (m # ms) =
     (if rm_caseId m \<in> set (map fst seen) then Inl (rm_caseId m) else index_measurements (seen @ [(rm_caseId m, m)]) ms)"

definition scoreRun ::
  "retrieval_eval_case list \<Rightarrow> retrieval_measurement list \<Rightarrow> corpus_entry list \<Rightarrow>
     (jstring, case_evaluation list \<times> metrics_summary) result" where
  "scoreRun cases ms corpus =
     and_then (index_measurements [] ms) (\<lambda>byCase.
       (let es = map (\<lambda>c. evaluateCase (map_of byCase (ec_caseId c)) c corpus) cases in Inr (es, computeMetrics es)))"


section \<open>Cases that pass\<close>

lemma set_distinct_ids [simp]: "set (distinct_ids ids) = set ids"
  by (simp add: distinct_ids_def)

lemma length_distinct_ids: "length (distinct_ids ids) = card (set ids)"
  by (simp add: distinct_ids_def length_remdups_card_conv)

lemma admission_reason_Nil [simp]: "admission_reason name ids = [] \<longleftrightarrow> ids = []"
  by (simp add: admission_reason_def)

definition safe_admissions :: "retrieval_measurement \<Rightarrow> retrieval_eval_case \<Rightarrow> corpus_entry list \<Rightarrow> bool" where
  "safe_admissions m c corpus \<longleftrightarrow>
     (\<forall>i \<in> set (rm_admittedEvidenceIds m). \<exists>e. indexed_entry corpus i = Some e \<and> scopeAllowsEntry e (ec_scope c) \<and>
        ce_status e = approved \<and> map_of (rm_returnedVersions m) i \<in> {None, Some (ce_version e)})"

definition sound_answer :: "retrieval_measurement \<Rightarrow> retrieval_eval_case \<Rightarrow> corpus_entry list \<Rightarrow> bool" where
  "sound_answer m c corpus \<longleftrightarrow> rm_actualAnswerability m \<noteq> Act_unavailable \<and> safe_admissions m c corpus \<and>
     \<not> ordinary_authorization c m \<and>
     bucketForCount (card (set (rm_admittedEvidenceIds m))) = bucketForExpected (ec_expectedAnswerability c)"

lemma no_violation:
  "\<not> violating (measured_evaluation m c corpus) \<longleftrightarrow> safe_admissions m c corpus \<and> \<not> ordinary_authorization c m"
proof -
  have stale: "\<not> stale_entry m i e \<longleftrightarrow> map_of (rm_returnedVersions m) i \<in> {None, Some (ce_version e)}" if "ce_status e = approved" for i e
    using that by (auto simp: stale_entry_def approved_def split: option.splits)
  have clean: "(\<not> unknown_entry corpus i \<and> \<not> entry_such corpus i (\<lambda>e. \<not> scopeAllowsEntry e (ec_scope c)) \<and>
        \<not> entry_such corpus i (\<lambda>e. ce_status e \<noteq> approved) \<and> \<not> entry_such corpus i (stale_entry m i)) \<longleftrightarrow>
      (\<exists>e. indexed_entry corpus i = Some e \<and> scopeAllowsEntry e (ec_scope c) \<and> ce_status e = approved \<and>
        map_of (rm_returnedVersions m) i \<in> {None, Some (ce_version e)})" for i
    using stale by (auto simp: unknown_entry_def entry_such_def split: option.splits)
  have "\<not> violating (measured_evaluation m c corpus) \<longleftrightarrow> (\<forall>i \<in> set (rm_admittedEvidenceIds m).
      \<not> unknown_entry corpus i \<and> \<not> entry_such corpus i (\<lambda>e. \<not> scopeAllowsEntry e (ec_scope c)) \<and>
      \<not> entry_such corpus i (\<lambda>e. ce_status e \<noteq> approved) \<and> \<not> entry_such corpus i (stale_entry m i)) \<and> \<not> ordinary_authorization c m"
    by (auto simp: violating_def measured_evaluation_def Let_def filter_empty_conv)
  then show ?thesis unfolding safe_admissions_def clean .
qed

lemma measured_pass: "cv_pass (measured_evaluation m c corpus) \<longleftrightarrow> sound_answer m c corpus"
proof -
  let ?e = "measured_evaluation m c corpus"
  have "cv_pass ?e \<longleftrightarrow> rm_actualAnswerability m \<noteq> Act_unavailable \<and> \<not> violating ?e \<and>
      bucketForCount (card (set (rm_admittedEvidenceIds m))) = bucketForExpected (ec_expectedAnswerability c)"
    by (auto simp: measured_evaluation_def Let_def failure_reasons_def violating_def length_distinct_ids)
  then show ?thesis by (auto simp: no_violation sound_answer_def)
qed

lemma missing_evaluation_simps [simp]:
  "\<not> cv_pass (missing_evaluation c)" "\<not> violating (missing_evaluation c)" "cv_missing (missing_evaluation c)"
  "\<not> cv_missing (measured_evaluation m c corpus)"
  by (simp_all add: missing_evaluation_def violating_def measured_evaluation_def Let_def)

section \<open>Runs\<close>

lemma index_measurements_Inr:
  "index_measurements seen ms = Inr byCase \<Longrightarrow>
     byCase = seen @ map (\<lambda>m. (rm_caseId m, m)) ms \<and> distinct (map rm_caseId ms) \<and>
     set (map fst seen) \<inter> set (map rm_caseId ms) = {}"
  by (induction seen ms rule: index_measurements.induct) (auto split: if_splits)

lemma indexed_measurement:
  "distinct (map rm_caseId ms) \<Longrightarrow> map_of (map (\<lambda>m. (rm_caseId m, m)) ms) i = Some m \<longleftrightarrow> m \<in> set ms \<and> rm_caseId m = i"
  by (induction ms) (auto simp: image_iff)

lemma count_complement: "count P xs + length (filter (\<lambda>x. \<not> P x) xs) = length xs"
  by (simp add: count_def sum_length_filter_compl)

lemma allHold_iff: "si_allHold (safety_of es) \<longleftrightarrow> (\<forall>e \<in> set es. \<not> violating e)"
  by (simp add: safety_of_def Let_def filter_empty_conv)

text \<open>
  The score of a run hides nothing. A second measurement of a case stops the scoring; otherwise every case of the
  population is evaluated, one without a measurement fails, and a case passes exactly if its measurement was available, admitted
  only approved entries of the corpus in the scope of the case with no other version than the stored one, authorized no
  ordinary answer where none or several are expected, and was routed by the number of admitted entries as the case expects.
  The safety invariants hold exactly if no measured case breaks one, and if all cases pass, all were
  measured and the invariants hold.
\<close>

theorem run_scored_honestly:
  assumes "scoreRun cases ms corpus = Inr (es, met)"
  shows "distinct (map rm_caseId ms) \<and> length es = length cases \<and>
    (\<forall>k < length cases. cv_pass (es ! k) \<longleftrightarrow>
       (\<exists>m \<in> set ms. rm_caseId m = ec_caseId (cases ! k) \<and> sound_answer m (cases ! k) corpus)) \<and>
    sm_passedCaseCount met + length (sm_failedCaseIds met) = length cases \<and>
    (si_allHold (sm_safetyInvariants met) \<longleftrightarrow> (\<forall>c \<in> set cases. \<forall>m \<in> set ms. rm_caseId m = ec_caseId c \<longrightarrow>
       safe_admissions m c corpus \<and> \<not> ordinary_authorization c m)) \<and>
    (sm_failedCaseIds met = [] \<longrightarrow> sm_measurementCount met = length cases \<and> si_allHold (sm_safetyInvariants met))"
proof -
  from assms obtain byCase where "index_measurements [] ms = Inr byCase"
    and es: "es = map (\<lambda>c. evaluateCase (map_of byCase (ec_caseId c)) c corpus) cases" and met: "met = computeMetrics es"
    by (auto simp: scoreRun_def and_then_Inr Let_def)
  then have d: "distinct (map rm_caseId ms)" and b: "byCase = map (\<lambda>m. (rm_caseId m, m)) ms"
    using index_measurements_Inr [of "[]" ms byCase] by simp_all
  have lookup: "map_of byCase i = Some m \<longleftrightarrow> m \<in> set ms \<and> rm_caseId m = i" for i m
    using indexed_measurement [OF d] by (simp add: b)
  have pass: "cv_pass (evaluateCase (map_of byCase (ec_caseId c)) c corpus) \<longleftrightarrow>
      (\<exists>m \<in> set ms. rm_caseId m = ec_caseId c \<and> sound_answer m c corpus)" for c
  proof (cases "map_of byCase (ec_caseId c)")
    case None
    then show ?thesis using lookup [of "ec_caseId c"] by (auto simp: evaluateCase_def)
  next
    case (Some x)
    then have "m \<in> set ms \<and> rm_caseId m = ec_caseId c \<longleftrightarrow> m = x" for m using lookup [of "ec_caseId c" m] by auto
    then have "(\<exists>m \<in> set ms. rm_caseId m = ec_caseId c \<and> sound_answer m c corpus) \<longleftrightarrow> sound_answer x c corpus" by metis
    then show ?thesis using Some by (simp add: evaluateCase_def measured_pass)
  qed
  have safe: "\<not> violating (evaluateCase (map_of byCase (ec_caseId c)) c corpus) \<longleftrightarrow>
      (\<forall>m \<in> set ms. rm_caseId m = ec_caseId c \<longrightarrow> safe_admissions m c corpus \<and> \<not> ordinary_authorization c m)" for c
  proof (cases "map_of byCase (ec_caseId c)")
    case None
    then show ?thesis using lookup [of "ec_caseId c"] by (auto simp: evaluateCase_def)
  next
    case (Some x)
    then have "m \<in> set ms \<and> rm_caseId m = ec_caseId c \<longleftrightarrow> m = x" for m using lookup [of "ec_caseId c" m] by auto
    then have "(\<forall>m \<in> set ms. rm_caseId m = ec_caseId c \<longrightarrow> safe_admissions m c corpus \<and> \<not> ordinary_authorization c m) \<longleftrightarrow>
        safe_admissions x c corpus \<and> \<not> ordinary_authorization c x" by metis
    then show ?thesis using Some by (simp add: evaluateCase_def no_violation)
  qed
  have hold: "si_allHold (sm_safetyInvariants met) \<longleftrightarrow> (\<forall>e \<in> set es. \<not> violating e)"
    by (simp add: met computeMetrics_def Let_def allHold_iff)
  have counts: "sm_passedCaseCount met + length (sm_failedCaseIds met) = length cases"
    "sm_failedCaseIds met = [] \<longleftrightarrow> (\<forall>e \<in> set es. cv_pass e)" "sm_measurementCount met = length (filter (\<lambda>e. \<not> cv_missing e) es)"
    using count_complement [of cv_pass es] by (simp_all add: met computeMetrics_def Let_def filter_empty_conv es)
  have "sm_measurementCount met = length cases \<and> si_allHold (sm_safetyInvariants met)" if "sm_failedCaseIds met = []"
  proof -
    have "\<not> cv_missing e \<and> \<not> violating e" if e: "e \<in> set es" for e
    proof -
      have "cv_pass e" using counts(2) \<open>sm_failedCaseIds met = []\<close> e by simp
      moreover obtain c where "e = evaluateCase (map_of byCase (ec_caseId c)) c corpus" using e es by auto
      ultimately show ?thesis
        by (auto simp: evaluateCase_def measured_pass no_violation sound_answer_def split: option.splits)
    qed
    then have "filter (\<lambda>e. \<not> cv_missing e) es = es" "\<forall>e \<in> set es. \<not> violating e" by (simp_all add: filter_id_conv)
    then show ?thesis using counts(3) hold by (simp add: es)
  qed
  moreover have "si_allHold (sm_safetyInvariants met) \<longleftrightarrow> (\<forall>c \<in> set cases. \<forall>m \<in> set ms. rm_caseId m = ec_caseId c \<longrightarrow>
       safe_admissions m c corpus \<and> \<not> ordinary_authorization c m)"
    unfolding hold using safe by (simp add: es)
  ultimately show ?thesis using d pass counts(1) by (simp add: es)
qed


definition sample_entry :: corpus_entry where
  "sample_entry = \<lparr>ce_id = js ''E1'', ce_kind = js ''policy'', ce_status = approved, ce_version = js ''v1'', ce_updatedAt = js ''2026-01-01'',
     ce_sourceRef = js ''r'', ce_tenantScope = Some (js ''t''), ce_storeScope = None, ce_provenance = Approved_public_benchmark,
     ce_sourcePath = None\<rparr>"

definition sample_case :: retrieval_eval_case where
  "sample_case = \<lparr>ec_caseId = js ''C'', ec_query = js ''q'', ec_scope = \<lparr>rc_tenantId = js ''t'', rc_storeId = js ''s''\<rparr>,
     ec_expectedEvidenceIds = [js ''E1''], ec_expectedAnswerability = Exp_answerable, ec_expectedVersions = [(js ''E1'', js ''v1'')],
     ec_expectedSourceRefs = [(js ''E1'', js ''r'')], ec_provenance = Human_authored_official_source, ec_sourceRefs = [js ''r''],
     ec_goldReason = js ''the entry says so''\<rparr>"

definition sample_measurement :: "string \<Rightarrow> retrieval_measurement" where
  "sample_measurement v = \<lparr>rm_caseId = js ''C'', rm_sourceCommit = js ''c'', rm_casesSha256 = js ''a'', rm_corpusSha256 = js ''b'',
     rm_mode = Lexical, rm_embeddingProfileId = None, rm_returnedEvidenceIds = [js ''E1'', js ''E1''], rm_admittedEvidenceIds = [js ''E1''],
     rm_returnedVersions = [(js ''E1'', js v)], rm_actualAnswerability = Act_answerable, rm_elapsedMs = 7, rm_errorCategory = None,
     rm_pass = True, rm_failureReasons = []\<rparr>"

text \<open>The recorded pass of a measurement with a stale version is not believed.\<close>

theorem run_scored_honestly_witness:
  "(\<exists>es met. scoreRun [sample_case] [sample_measurement ''v1''] [sample_entry] = Inr (es, met) \<and> sm_failedCaseIds met = []) \<and>
   (\<exists>es met. scoreRun [sample_case] [sample_measurement ''v0''] [sample_entry] = Inr (es, met) \<and> sm_passedCaseCount met = 0)"
proof -
  have run: "\<exists>es met. scoreRun [sample_case] [sample_measurement v] [sample_entry] = Inr (es, met)" for v
    by (simp add: scoreRun_def Let_def)
  have entry: "indexed_entry [sample_entry] (js ''E1'') = Some sample_entry" by (simp add: indexed_entry_def sample_entry_def)
  have sound: "sound_answer (sample_measurement v) sample_case [sample_entry] \<longleftrightarrow> v = ''v1''" for v
    unfolding sound_answer_def safe_admissions_def
    by (auto simp: sample_measurement_def sample_case_def ordinary_authorization_def bucketForCount_def entry scopeAllowsEntry_def)
      (auto simp: sample_entry_def)
  have same: "rm_caseId (sample_measurement v) = ec_caseId sample_case" for v by (simp add: sample_measurement_def sample_case_def)
  obtain es met where r1: "scoreRun [sample_case] [sample_measurement ''v1''] [sample_entry] = Inr (es, met)" using run by blast
  obtain es' met' where r2: "scoreRun [sample_case] [sample_measurement ''v0''] [sample_entry] = Inr (es', met')" using run by blast
  note h1 = run_scored_honestly [OF r1] and h2 = run_scored_honestly [OF r2]
  have "cv_pass (es ! 0)" using h1 sound same by simp
  moreover have "\<not> cv_pass (es' ! 0)" using h2 sound same by simp
  moreover have "met = computeMetrics es" "met' = computeMetrics es'" using r1 r2 by (auto simp: scoreRun_def and_then_Inr Let_def)
  moreover obtain e e' where "es = [e]" "es' = [e']" using h1 h2 by (auto simp: length_Suc_conv)
  ultimately show ?thesis using r1 r2 by (auto simp: computeMetrics_def Let_def count_def)
qed


section \<open>Recall against a valid population\<close>

lemma check_corpus_distinct: "check_corpus seen corpus = Inr () \<Longrightarrow> distinct (map ce_id corpus) \<and> set seen \<inter> set (map ce_id corpus) = {}"
  by (induction seen corpus rule: check_corpus.induct) (auto split: sum.splits if_splits)

lemma check_gold_entry:
  "check_gold corpus c is = Inr () \<Longrightarrow> i \<in> set is \<Longrightarrow>
     \<exists>e. entry_by_id corpus i = Some e \<and> map_of (ec_expectedVersions c) i = Some (ce_version e) \<and>
       map_of (ec_expectedSourceRefs c) i = Some (ce_sourceRef e)"
  by (induction "is") (auto split: option.splits if_splits)

lemma find_distinct:
  "distinct (map f xs) \<Longrightarrow> x \<in> set xs \<Longrightarrow> List.find (\<lambda>y. f y = f x) xs = Some x"
  by (induction xs) auto

lemma find_rev_distinct:
  assumes "distinct (map f xs)" shows "List.find (\<lambda>y. f y = k) (rev xs) = List.find (\<lambda>y. f y = k) xs"
proof (cases "List.find (\<lambda>y. f y = k) xs")
  case None
  moreover from this have "List.find (\<lambda>y. f y = k) (rev xs) = None" by (simp add: find_None_iff)
  ultimately show ?thesis by simp
next
  case (Some x)
  then have x: "f x = k" "x \<in> set xs" by (auto dest: find_Some_iff')
  then show ?thesis using find_distinct [of f "rev xs" x] find_distinct [of f xs x] assms by (simp add: rev_map [symmetric])
qed

text \<open>What the validation of a population checks of every case and of the corpus.\<close>

lemma valid_population:
  assumes "assertValidPopulation controls cases corpus = Inr ()" and "c \<in> set cases"
  shows "check_corpus [] corpus = Inr ()" "check_gold corpus c (ec_expectedEvidenceIds c) = Inr ()"
proof -
  have "check_cases corpus seen cs = Inr () \<Longrightarrow> c \<in> set cs \<Longrightarrow> check_gold corpus c (ec_expectedEvidenceIds c) = Inr ()" for seen cs
    by (induction corpus seen cs rule: check_cases.induct) (auto simp: and_then_Inr split: sum.splits if_splits)
  then show "check_corpus [] corpus = Inr ()" "check_gold corpus c (ec_expectedEvidenceIds c) = Inr ()"
    using assms by (auto simp: assertValidPopulation_def and_then_Inr Let_def split: if_splits)
qed

text \<open>
  Recall counts only current evidence. Against a population that passes the validation, a gold document is a hit exactly
  if it is among the first three distinct documents returned, lies in the scope of the case, and was returned with the
  version and the version of its entry in the corpus, so that an identifier alone is never enough; and the
  recall is between 0 and 1.
\<close>

theorem recall_hits_current:
  assumes "check_corpus [] corpus = Inr ()" and "check_gold corpus c (ec_expectedEvidenceIds c) = Inr ()"
  shows "set (cv_recallHitIds (evaluateCase (Some m) c corpus)) =
      {i \<in> set (ec_expectedEvidenceIds c). i \<in> set (take 3 (distinct_ids (rm_returnedEvidenceIds m))) \<and>
        (\<exists>e \<in> set corpus. ce_id e = i \<and> scopeAllowsEntry e (ec_scope c) \<and> map_of (rm_returnedVersions m) i = Some (ce_version e))} \<and>
    (case cv_recallAt3 (evaluateCase (Some m) c corpus) of
       None \<Rightarrow> ec_expectedEvidenceIds c = [] | Some r \<Rightarrow> 0 \<le> r \<and> r \<le> 1)"
proof
  have d: "distinct (map ce_id corpus)" using check_corpus_distinct [OF assms(1)] by simp
  have valid: "isValidGold i c m corpus \<longleftrightarrow>
      (\<exists>e \<in> set corpus. ce_id e = i \<and> scopeAllowsEntry e (ec_scope c) \<and> map_of (rm_returnedVersions m) i = Some (ce_version e))"
    if i: "i \<in> set (ec_expectedEvidenceIds c)" for i
  proof -
    obtain e where e: "entry_by_id corpus i = Some e" "map_of (ec_expectedVersions c) i = Some (ce_version e)"
      using check_gold_entry [OF assms(2) i] by blast
    then have mem: "ce_id e = i" "e \<in> set corpus" by (auto simp: entry_by_id_def dest: find_Some_iff')
    have uniq: "x = e" if "x \<in> set corpus" "ce_id x = i" for x
      using that mem d by (simp add: distinct_map inj_on_def)
    have "indexed_entry corpus i = Some e"
      using e(1) find_rev_distinct [OF d] by (simp add: indexed_entry_def entry_by_id_def)
    then have "isValidGold i c m corpus \<longleftrightarrow> scopeAllowsEntry e (ec_scope c) \<and> map_of (rm_returnedVersions m) i = Some (ce_version e)"
      using i e(2) by (simp add: isValidGold_def)
    then show ?thesis using mem uniq by metis
  qed
  have "cv_recallHitIds (evaluateCase (Some m) c corpus) =
      filter (\<lambda>i. i \<in> set (take 3 (distinct_ids (rm_returnedEvidenceIds m))) \<and> isValidGold i c m corpus) (ec_expectedEvidenceIds c)"
    by (simp add: evaluateCase_def measured_evaluation_def Let_def)
  then have "set (cv_recallHitIds (evaluateCase (Some m) c corpus)) = {i \<in> set (ec_expectedEvidenceIds c).
      i \<in> set (take 3 (distinct_ids (rm_returnedEvidenceIds m))) \<and> isValidGold i c m corpus}" by auto
  also have "\<dots> = {i \<in> set (ec_expectedEvidenceIds c). i \<in> set (take 3 (distinct_ids (rm_returnedEvidenceIds m))) \<and>
        (\<exists>e \<in> set corpus. ce_id e = i \<and> scopeAllowsEntry e (ec_scope c) \<and> map_of (rm_returnedVersions m) i = Some (ce_version e))}"
    by (intro Collect_cong conj_cong refl) (rule valid)
  finally show "set (cv_recallHitIds (evaluateCase (Some m) c corpus)) =
      {i \<in> set (ec_expectedEvidenceIds c). i \<in> set (take 3 (distinct_ids (rm_returnedEvidenceIds m))) \<and>
        (\<exists>e \<in> set corpus. ce_id e = i \<and> scopeAllowsEntry e (ec_scope c) \<and> map_of (rm_returnedVersions m) i = Some (ce_version e))}" .
  have "of_nat (length (filter P xs)) / of_nat (length xs) \<le> (1 :: rat)" for P and xs :: "jstring list"
    using length_filter_le [of P xs] by (cases "xs = []") (simp_all add: divide_le_eq_1)
  then show "case cv_recallAt3 (evaluateCase (Some m) c corpus) of
       None \<Rightarrow> ec_expectedEvidenceIds c = [] | Some r \<Rightarrow> 0 \<le> r \<and> r \<le> 1"
    by (simp add: evaluateCase_def measured_evaluation_def Let_def)
qed

lemma sample_population: "check_corpus [] [sample_entry] = Inr ()" "check_gold [sample_entry] sample_case (ec_expectedEvidenceIds sample_case) = Inr ()"
proof -
  have "\<exists>x. parseCorpusEntry (json_of_text (corpus_entry_text sample_entry)) = Inr x"
    by (simp add: parseCorpusEntry_def corpus_entry_text_def sample_entry_def optional_text_def key_of_def CORPUS_PROVENANCE_def
        assertKeySet_def CORPUS_ENTRY_REQUIRED_KEYS_def field_def requireNonEmptyString_def requireEnum_def KNOWLEDGE_KIND_def
        KNOWLEDGE_STATUS_def requireOptionalString_def requireString_def approved_def trim_def trim_start_def trim_end_def
        is_space_def js_simps)
  then show "check_corpus [] [sample_entry] = Inr ()" by auto
  show "check_gold [sample_entry] sample_case (ec_expectedEvidenceIds sample_case) = Inr ()"
    by (simp add: sample_case_def entry_by_id_def sample_entry_def)
qed

theorem recall_hits_current_witness:
  "js ''E1'' \<in> set (cv_recallHitIds (evaluateCase (Some (sample_measurement ''v1'')) sample_case [sample_entry])) \<and>
   js ''E1'' \<notin> set (cv_recallHitIds (evaluateCase (Some (sample_measurement ''v0'')) sample_case [sample_entry]))"
proof -
  have hits: "set (cv_recallHitIds (evaluateCase (Some m) sample_case [sample_entry])) =
      {i \<in> set (ec_expectedEvidenceIds sample_case). i \<in> set (take 3 (distinct_ids (rm_returnedEvidenceIds m))) \<and>
        (\<exists>e \<in> set [sample_entry]. ce_id e = i \<and> scopeAllowsEntry e (ec_scope sample_case) \<and>
          map_of (rm_returnedVersions m) i = Some (ce_version e))}" for m
    using recall_hits_current [OF sample_population, of m] by blast
  have "distinct_ids [js ''E1'', js ''E1''] = [js ''E1'']" by (simp add: distinct_ids_def)
  then show ?thesis unfolding hits
    by (simp add: sample_measurement_def sample_case_def scopeAllowsEntry_def) (simp add: sample_entry_def)
qed

end
