(* ===== verification/HttpProps.thy ===== *)
theory HttpProps
  imports EnterpriseHttp PgIdentity
begin

text \<open>
  Properties of the HTTP server: what a request without the rights for it can reach, which requests
  stay unanswered, what the static files expose, and the session cookie from the login to the
  execution context of a later request.
\<close>

section \<open>Calls\<close>

lemma call_simps [simp]:
  "bind_call (done_call x) k = k x"
  "bind_call (fail_call e) k = fail_call e"
  "done_call x w = (w, Inr x)"
  "fail_call e w = (w, Inl e)"
  "lift_result f (Inr x) = done_call x"
  "lift_result f (Inl e') = fail_call (f e')"
  by (auto simp: bind_call_def done_call_def fail_call_def lift_result_def)

lemma bind_call_Inl: "f w = (w', Inl e) \<Longrightarrow> bind_call f k w = (w', Inl e)"
  and bind_call_Inr: "f w = (w', Inr x) \<Longrightarrow> bind_call f k w = k x w'"
  by (simp_all add: bind_call_def)

lemma bind_call_cases:
  obtains e where "f w = (fst (f w), Inl e)" "bind_call f k w = (fst (f w), Inl e)"
  | x where "f w = (fst (f w), Inr x)" "bind_call f k w = k x (fst (f w))"
  by (cases "f w"; cases "snd (f w)") (auto simp: bind_call_def)

text \<open>A refusal: the world is left as the handler found it, and the answer is an error.\<close>

definition refused :: "http_response \<Rightarrow> bool" where
  "refused x \<longleftrightarrow> rs_status x \<ge> 400 \<and> (\<exists>code. rs_body x = Error_body code)"

definition refusing :: "'w \<Rightarrow> 'w \<times> (rejection, http_response) result \<Rightarrow> bool" where
  "refusing w p \<longleftrightarrow> fst p = w \<and> (\<forall>x. snd p = Inr x \<longrightarrow> refused x)"

lemma refused_simps [simp]:
  "refused (send_error n code) \<longleftrightarrow> n \<ge> 400"
  "refused (methodNotAllowed m)"
  "refused not_found"
  "refused (sendJson n (Error_body code) hs) \<longleftrightarrow> n \<ge> 400"
  "refused (with_request_id i x) \<longleftrightarrow> refused x"
  "refused (error_response e)"
  by (auto simp: refused_def send_error_def methodNotAllowed_def not_found_def sendJson_def with_request_id_def
      error_response_def split: rejection.split storeops_error.split service_error.split)

lemma refusing_simps [simp]:
  "refusing w (w', Inr x) \<longleftrightarrow> w' = w \<and> refused x"
  "refusing w (w', Inl e) \<longleftrightarrow> w' = w"
  by (auto simp: refusing_def)

section \<open>Requests without the rights\<close>

text \<open>The routes behind a session, and the right each asks for.\<close>

definition guarded :: "jstring \<Rightarrow> bool" where
  "guarded path \<longleftrightarrow> path = js ''/api/v1/storeops'' \<or> starts_with (js ''/api/v1/storeops/'') path \<or>
     path \<in> js ` {''/api/v1/support/respond'', ''/api/v1/conversations'', ''/api/v1/tickets'', ''/api/v1/handoffs'',
       ''/api/v1/audit-events''}"

definition storeops_permits :: "bool \<Rightarrow> storeops_route \<Rightarrow> http_request \<Rightarrow> exec_context \<Rightarrow> bool" where
  "storeops_permits secure rt r ctx \<longleftrightarrow>
     (let held = set (actor_capabilities ctx) in
      if hr_method r = js ''GET'' then Storeops_read \<in> held \<and> (rt = Attention_path \<longrightarrow> actor_role ctx \<noteq> Agent)
      else same_origin secure r \<and>
        (case rt of
           Availability_of _ _ \<Rightarrow> Availability_write \<in> held
         | Transition_of _ \<Rightarrow> Booking_create \<in> held \<or> Booking_manage \<in> held
         | _ \<Rightarrow> Booking_create \<in> held))"

definition permits :: "bool \<Rightarrow> jstring \<Rightarrow> http_request \<Rightarrow> exec_context \<Rightarrow> bool" where
  "permits secure path r ctx \<longleftrightarrow>
     (let held = set (actor_capabilities ctx) in
      if path = js ''/api/v1/support/respond'' then Agent_invoke \<in> held
      else if path = js ''/api/v1/audit-events'' then Audit_read \<in> held
      else if path \<in> js ` {''/api/v1/conversations'', ''/api/v1/tickets'', ''/api/v1/handoffs''} then Conversation_read \<in> held
      else storeops_permits secure (storeops_route (storeops_subpath path)) r ctx)"

lemma guarded_handler:
  assumes call: "\<And>ctx. authenticatedContext opts r i w = (fst (authenticatedContext opts r i w), Inr (Some ctx)) \<Longrightarrow>
      refusing (fst (authenticatedContext opts r i w)) (k (Some ctx) (fst (authenticatedContext opts r i w)))"
    and none: "\<And>w. refusing w (k None w)"
  shows "refusing (fst (authenticatedContext opts r i w)) (bind_call (authenticatedContext opts r i) k w)"
proof (rule bind_call_cases [of "authenticatedContext opts r i" w k])
  fix x assume x: "authenticatedContext opts r i w = (fst (authenticatedContext opts r i w), Inr x)"
    and b: "bind_call (authenticatedContext opts r i) k w = k x (fst (authenticatedContext opts r i w))"
  show ?thesis unfolding b by (cases x) (use call none x in auto)
qed simp

lemma readBusiness_refuses:
  assumes "\<And>ctx. authenticatedContext opts r i w = (fst (authenticatedContext opts r i w), Inr (Some ctx)) \<Longrightarrow>
      c \<notin> set (actor_capabilities ctx)"
  shows "refusing w (readBusiness opts r q i c list_of w) \<or>
     refusing (fst (authenticatedContext opts r i w)) (readBusiness opts r q i c list_of w)"
  unfolding readBusiness_def
  by (cases "js ''tenantId'' \<in> fst ` set q \<or> js ''storeId'' \<in> fst ` set q")
    (simp_all only: if_True if_False, simp, intro disjI2 guarded_handler, use assms in auto)

lemma support_refuses:
  assumes "\<And>ctx. authenticatedContext opts r i w = (fst (authenticatedContext opts r i w), Inr (Some ctx)) \<Longrightarrow>
      Agent_invoke \<notin> set (actor_capabilities ctx)"
  shows "refusing (fst (authenticatedContext opts r i w)) (support opts r i w)"
  unfolding support_def by (rule guarded_handler) (use assms in auto)

lemma transition_refuses:
  assumes "Booking_create \<notin> set (actor_capabilities ctx)" "Booking_manage \<notin> set (actor_capabilities ctx)"
  shows "refusing w (storeops_write opts service (Transition_of i) r ctx w)"
  using assms by (cases "readJsonBody (ho_parse opts) r") (auto simp: storeops_write_def bind_call_def lift_result_def split: sum.splits)

lemma storeops_route_refuses:
  assumes deny: "\<not> storeops_permits (ho_secureCookies opts) rt r ctx"
  shows "refusing w (storeops_route_for opts r rt q ctx w)"
proof (cases "(\<exists>i. rt = Transition_of i) \<and> hr_method r = js ''POST'' \<and> same_origin (ho_secureCookies opts) r")
  case True
  then obtain i where i: "rt = Transition_of i" "hr_method r = js ''POST''" by blast
  show ?thesis using deny True transition_refuses [of ctx w opts _ i r] i
    by (auto simp: storeops_route_for_def storeops_permits_def Let_def storeops_refusal_def split: option.split)
next
  case False
  then show ?thesis using deny
    by (cases rt; cases "hr_method r = js ''GET''")
      (auto simp: storeops_route_for_def storeops_permits_def storeops_refusal_def storeops_capability_def Let_def)
qed

lemma storeOps_refuses:
  assumes deny: "\<And>ctx. authenticatedContext opts r i w = (fst (authenticatedContext opts r i w), Inr (Some ctx)) \<Longrightarrow>
      \<not> storeops_permits (ho_secureCookies opts) (storeops_route (storeops_subpath path)) r ctx"
  shows "refusing (fst (authenticatedContext opts r i w)) (storeOps opts r path q i w)"
  unfolding storeOps_def
proof (rule guarded_handler)
  fix ctx assume "authenticatedContext opts r i w = (fst (authenticatedContext opts r i w), Inr (Some ctx))"
  from deny [OF this] show "refusing (fst (authenticatedContext opts r i w))
      ((case Some ctx of None \<Rightarrow> done_call (send_error 401 ''unauthenticated'')
        | Some ctx \<Rightarrow> storeops_route_for opts r (storeops_route (storeops_subpath path)) q ctx)
       (fst (authenticatedContext opts r i w)))"
    by (simp add: storeops_route_refuses)
qed simp

lemma refusing_outcome:
  assumes "refusing w p"
  shows "fst (awaited p) = w \<and> (\<forall>x. snd (awaited p) = Responded x \<longrightarrow> refused x)"
    and "fst (unawaited p) = w \<and> (\<forall>x. snd (unawaited p) = Responded x \<longrightarrow> refused x)"
  using assms by (cases p; cases "snd p"; auto simp: awaited_def unawaited_def)+

lemma only_refuses:
  assumes "fst (h w) \<in> W \<and> (\<forall>x. snd (h w) = Responded x \<longrightarrow> refused x)" "w \<in> W"
  shows "fst (only m r h w) \<in> W \<and> (\<forall>x. snd (only m r h w) = Responded x \<longrightarrow> refused x)"
  using assms by (simp add: only_def)

lemma starts_with_js: "starts_with (js a) (js b) \<longleftrightarrow> starts_with a b"
  by (induction a b rule: starts_with.induct) (auto simp: js_Cons)

text \<open>
  C29. A request to a guarded route whose session resolves to no context with the right for it
  reaches no service: the world changes at most by the lookup of the session, and the answer, if
  there is one, is an error.
\<close>

theorem guarded_routes_refuse:
  assumes url: "hr_url r = Some (path, q)" and "guarded path"
    and deny: "\<And>ctx. snd (authenticatedContext opts r i w) = Inr (Some ctx) \<Longrightarrow> \<not> permits (ho_secureCookies opts) path r ctx"
  shows "fst (handleRequest opts r i now w) \<in> {w, fst (authenticatedContext opts r i w)} \<and>
     (\<forall>x. snd (handleRequest opts r i now w) = Responded x \<longrightarrow> rs_status x \<ge> 400 \<and> (\<exists>code. rs_body x = Error_body code))"
proof -
  let ?W = "{w, fst (authenticatedContext opts r i w)}"
  let ?ok = "\<lambda>p. fst p \<in> ?W \<and> (\<forall>x. snd p = Responded x \<longrightarrow> refused x)"
  have deny': "\<not> permits (ho_secureCookies opts) path r ctx"
    if "authenticatedContext opts r i w = (fst (authenticatedContext opts r i w), Inr (Some ctx))" for ctx
    using deny [of ctx] that by (metis snd_conv)
  have list_ok: "?ok (unawaited (readBusiness opts r q i c list_of w))"
    if "\<And>ctx. permits (ho_secureCookies opts) path r ctx \<longleftrightarrow> c \<in> set (actor_capabilities ctx)" for c list_of
  proof -
    have no: "c \<notin> set (actor_capabilities ctx)"
      if "authenticatedContext opts r i w = (fst (authenticatedContext opts r i w), Inr (Some ctx))" for ctx
      using deny' [OF that] \<open>\<And>ctx. permits (ho_secureCookies opts) path r ctx \<longleftrightarrow> c \<in> set (actor_capabilities ctx)\<close> by simp
    have "refusing w (readBusiness opts r q i c list_of w) \<or>
        refusing (fst (authenticatedContext opts r i w)) (readBusiness opts r q i c list_of w)"
      by (rule readBusiness_refuses) (rule no)
    then show ?thesis
      by (elim disjE) (auto dest: refusing_outcome(2))
  qed
  consider (s) "path = js ''/api/v1/storeops'' \<or> starts_with (js ''/api/v1/storeops/'') path"
    | (r) "path = js ''/api/v1/support/respond''" | (c) "path = js ''/api/v1/conversations''"
    | (t) "path = js ''/api/v1/tickets''" | (h) "path = js ''/api/v1/handoffs''" | (a) "path = js ''/api/v1/audit-events''"
    using \<open>guarded path\<close> by (auto simp: guarded_def)
  then have "?ok (handleRequest opts r i now w)"
  proof cases
    case s
    then have "handleRequest opts r i now w = awaited (storeOps opts r path q i w)"
      using url by (auto simp: handleRequest_def starts_with_js)
    moreover have spec: "permits secure path r ctx = storeops_permits secure (storeops_route (storeops_subpath path)) r ctx"
      for secure ctx using s by (auto simp: permits_def Let_def starts_with_js)
    have "refusing (fst (authenticatedContext opts r i w)) (storeOps opts r path q i w)"
      by (rule storeOps_refuses) (use deny' spec in simp)
    ultimately show ?thesis by (simp add: refusing_outcome(1))
  next
    case r
    then have "permits secure path r ctx \<longleftrightarrow> Agent_invoke \<in> set (actor_capabilities ctx)" for secure ctx
      by (simp add: permits_def Let_def)
    then have "refusing (fst (authenticatedContext opts r i w)) (support opts r i w)"
      using support_refuses deny' by metis
    from refusing_outcome(2) [OF this] have "?ok (unawaited (support opts r i w))" by simp
    then show ?thesis using url r by (simp add: handleRequest_def starts_with_js only_def)
  next
    case c
    then have "?ok (unawaited (readBusiness opts r q i Conversation_read conversations_of w))"
      by (intro list_ok) (simp add: permits_def Let_def)
    then show ?thesis using url c by (simp add: handleRequest_def starts_with_js only_def)
  next
    case t
    then have "?ok (unawaited (readBusiness opts r q i Conversation_read tickets_of w))"
      by (intro list_ok) (simp add: permits_def Let_def)
    then show ?thesis using url t by (simp add: handleRequest_def starts_with_js only_def)
  next
    case h
    then have "?ok (unawaited (readBusiness opts r q i Conversation_read handoffs_of w))"
      by (intro list_ok) (simp add: permits_def Let_def)
    then show ?thesis using url h by (simp add: handleRequest_def starts_with_js only_def)
  next
    case a
    then have "?ok (unawaited (readBusiness opts r q i Audit_read audit_of w))"
      by (intro list_ok) (simp add: permits_def Let_def)
    then show ?thesis using url a by (simp add: handleRequest_def starts_with_js only_def)
  qed
  then show ?thesis by (simp add: refused_def)
qed


text \<open>A server whose state counts the calls its services receive.\<close>

definition demo_call :: "'a \<Rightarrow> (nat, 'a) call" where
  "demo_call x n = (n + 1, Inr x)"

definition demo_support :: "nat support_port" where
  "demo_support =
     \<lparr>su_respond = (\<lambda>_ _ _ _ n. (n + 1, Inl (Service Conversation_conflict))), su_conversations = (\<lambda>_. demo_call []),
      su_tickets = (\<lambda>_. demo_call []), su_handoffs = (\<lambda>_. demo_call []), su_audit = (\<lambda>_. demo_call [])\<rparr>"

definition demo_options :: "exec_context option \<Rightarrow> nat http_options" where
  "demo_options context =
     \<lparr>ho_resolve = (\<lambda>_ _ n. (n, Inr context)), ho_login = (\<lambda>_ _. demo_call None), ho_logout = (\<lambda>_. demo_call ()),
      ho_verifier = None, ho_kfSync = None, ho_routeTexts = None, ho_staff = None, ho_runtime = None,
      ho_support = Some demo_support, ho_storeOps = None, ho_knowledge = None, ho_secureCookies = False,
      ho_staticRoot = Some (js ''web''), ho_cwd = js ''/srv'',
      ho_files = (\<lambda>_ p. if starts_with (js ''/srv/web/'') p then Contents [1] else Unreadable),
      ho_parse = (\<lambda>_. None)\<rparr>"

definition demo_request :: "string \<Rightarrow> string \<Rightarrow> http_request" where
  "demo_request m path =
     \<lparr>hr_method = js m, hr_url = Some (js path, []), hr_cookie = None, hr_host = None, hr_origin = None,
      hr_idempotencyKey = None, hr_chunks = [], hr_aborted = False\<rparr>"

lemma demo_http_simps [simp]:
  "hr_url (demo_request m path) = Some (js path, [])"
  "hr_method (demo_request m path) = js m"
  "authenticatedContext (demo_options context) r i n = (n, Inr context)"
  by (simp_all add: demo_request_def demo_options_def authenticatedContext_def)

theorem guarded_routes_refuse_witness:
  "fst (handleRequest (demo_options (Some demo_agent)) (demo_request ''GET'' ''/api/v1/audit-events'') [1] 0 (5 :: nat)) = 5"
proof -
  let ?opts = "demo_options (Some demo_agent)" and ?r = "demo_request ''GET'' ''/api/v1/audit-events''"
  have "fst (handleRequest ?opts ?r [1] 0 5) \<in> {5, fst (authenticatedContext ?opts ?r [1] 5)}"
    by (rule conjunct1 [OF guarded_routes_refuse [of ?r "js ''/api/v1/audit-events''" "[]" ?opts "[1]" 5 0]])
      (auto simp: guarded_def permits_def demo_agent_def)
  then show ?thesis by simp
qed

section \<open>Requests that stay unanswered\<close>

text \<open>The routes whose handlers are returned without being awaited.\<close>

definition unawaited_routes ::
  "'w http_options \<Rightarrow> http_request \<Rightarrow> query \<Rightarrow> jstring \<Rightarrow> date \<Rightarrow> (string \<times> string \<times> ('w, http_response) call) list" where
  "unawaited_routes opts r q i now =
     [(''/api/v1/auth/login'', ''POST'', http_login opts r now),
      (''/api/v1/auth/logout'', ''POST'', http_logout opts r),
      (''/api/v1/auth/me'', ''GET'', me opts r i),
      (''/api/v1/support/respond'', ''POST'', support opts r i),
      (''/api/v1/conversations'', ''GET'', readBusiness opts r q i Conversation_read conversations_of),
      (''/api/v1/tickets'', ''GET'', readBusiness opts r q i Conversation_read tickets_of),
      (''/api/v1/handoffs'', ''GET'', readBusiness opts r q i Conversation_read handoffs_of),
      (''/api/v1/audit-events'', ''GET'', readBusiness opts r q i Audit_read audit_of)]"

lemma awaited_answers [simp]: "snd (awaited p) \<noteq> Escaped"
  by (simp add: awaited_def)

lemma unawaited_escapes: "snd (unawaited p) = Escaped \<longleftrightarrow> (\<exists>e. snd p = Inl e)"
  by (simp add: unawaited_def split: sum.split)

lemma only_escapes: "snd (only m r h w) = Escaped \<longleftrightarrow> hr_method r = js m \<and> snd (h w) = Escaped"
  by (simp add: only_def)

lemma handleRequest_escapes:
  assumes "hr_url r = Some (path, q)"
  shows "snd (handleRequest opts r i now w) = Escaped \<longleftrightarrow>
     list_ex (\<lambda>(p, m, f). path = js p \<and> hr_method r = js m \<and> (\<exists>e. snd (f w) = Inl e)) (unawaited_routes opts r q i now)"
proof -
  consider (a) "path = js ''/api/v1/storeops'' \<or> starts_with (js ''/api/v1/storeops/'') path"
    | "path = js ''/api/v1/auth/login''" | "path = js ''/api/v1/auth/logout''" | "path = js ''/api/v1/auth/me''"
    | "path = js ''/api/v1/support/respond''" | "path = js ''/api/v1/conversations''" | "path = js ''/api/v1/tickets''"
    | "path = js ''/api/v1/handoffs''" | "path = js ''/api/v1/audit-events''"
    | (n) "\<not> (path = js ''/api/v1/storeops'' \<or> starts_with (js ''/api/v1/storeops/'') path)"
        "path \<notin> js ` {''/api/v1/auth/login'', ''/api/v1/auth/logout'', ''/api/v1/auth/me'', ''/api/v1/support/respond'',
          ''/api/v1/conversations'', ''/api/v1/tickets'', ''/api/v1/handoffs'', ''/api/v1/audit-events''}"
    by blast
  then show ?thesis
  proof cases
    case a
    then show ?thesis using assms by (auto simp: handleRequest_def unawaited_routes_def starts_with_js)
  next
    case n
    then show ?thesis using assms by (simp add: handleRequest_def unawaited_routes_def only_escapes)
  qed (simp_all add: handleRequest_def unawaited_routes_def assms starts_with_js only_escapes unawaited_escapes)
qed

lemma malformed_login: "and_then (readJsonBody (ho_parse opts) r) (\<lambda>body. and_then (requiredString body ''email'')
    (\<lambda>email. and_then (requiredString body ''password'') (\<lambda>password. Inr (email, password)))) = Inl e \<Longrightarrow>
  http_login opts r now w = (w, Inl (Service (Failed e)))"
  by (simp add: http_login_def)

text \<open>
  C30. A request is left without a response exactly when its URL cannot be parsed or it reaches one of
  the eight routes whose handler is returned unawaited and that handler rejects; in particular
  every login whose body is malformed, and every support request that the service refuses.
\<close>

theorem unanswered_requests:
  "(snd (handleRequest opts r i now w) = Escaped \<longleftrightarrow>
     (case hr_url r of
        None \<Rightarrow> True
      | Some (path, q) \<Rightarrow>
          list_ex (\<lambda>(p, m, f). path = js p \<and> hr_method r = js m \<and> (\<exists>e. snd (f w) = Inl e)) (unawaited_routes opts r q i now))) \<and>
   (\<forall>q e. hr_url r = Some (js ''/api/v1/auth/login'', q) \<and> hr_method r = js ''POST'' \<and>
      readJsonBody (ho_parse opts) r = Inl e \<longrightarrow> snd (handleRequest opts r i now w) = Escaped)"
proof (cases "hr_url r")
  case None
  then show ?thesis by (simp add: handleRequest_def)
next
  case (Some u)
  then obtain path q where u: "hr_url r = Some (path, q)" by (cases u) auto
  have "snd (handleRequest opts r i now w) = Escaped"
    if "path = js ''/api/v1/auth/login''" "hr_method r = js ''POST''" "readJsonBody (ho_parse opts) r = Inl e" for e
    using that handleRequest_escapes [OF u, of opts i now w] malformed_login [of opts r e now w] by (simp add: unawaited_routes_def)
  then show ?thesis unfolding handleRequest_escapes [OF u] u by auto
qed

theorem unanswered_requests_witness:
  "snd (handleRequest (demo_options None) (demo_request ''POST'' ''/api/v1/auth/login'') [1] 0 (5 :: nat)) = Escaped"
  using unanswered_requests [of "demo_options None" "demo_request ''POST'' ''/api/v1/auth/login''" "[1]" 0 5]
  by (simp add: readJsonBody_def body_bytes_def demo_request_def demo_options_def)

section \<open>Static files\<close>

definition proper_segment :: "jstring \<Rightarrow> bool" where
  "proper_segment x \<longleftrightarrow> x \<noteq> [] \<and> x \<noteq> [46] \<and> x \<noteq> [46, 46] \<and> 47 \<notin> set x"

text \<open>A path below a directory: only proper segments follow it.\<close>

definition inside :: "jstring \<Rightarrow> jstring \<Rightarrow> bool" where
  "inside dir p \<longleftrightarrow> (\<exists>t. p = dir @ [47] @ t \<and> list_all proper_segment (split_on 47 t))"

lemma split_on_segments: "x \<in> set (split_on c s) \<Longrightarrow> c \<notin> set x"
  by (induction s arbitrary: x) (fastforce split: list.splits if_splits)+

lemma split_on_join: "list_all (\<lambda>x. c \<notin> set x) xs \<Longrightarrow> xs \<noteq> [] \<Longrightarrow> split_on c (join [c] xs) = xs"
proof (induction xs rule: induct_list012)
  case (3 x y xs)
  then show ?case using split_on_append [of c x "join [c] (y # xs)"] by simp
qed (simp_all add: split_on_no_sep)

lemma split_on_both: "split_on c (a @ c # b) = split_on c a @ split_on c b"
  by (induction a) (auto split: list.splits)

lemma normal_segments_proper:
  assumes "list_all proper_segment acc" "list_all (\<lambda>x. 47 \<notin> set x) xs"
  shows "list_all proper_segment (normal_segments acc xs)"
  using assms
proof (induction acc xs rule: normal_segments.induct)
  case (2 acc x xs)
  have "list_all proper_segment (tl acc)" using 2(4) by (cases acc) auto
  with 2 show ?case by (cases "x = [46, 46]") (auto, auto simp: proper_segment_def)
qed (simp add: list_all_iff)

lemma resolve_path_segments:
  obtains segs where "resolve_path base p = path_of segs" "list_all proper_segment segs"
proof
  let ?s = "if starts_with [47] p then p else base @ [47] @ p"
  show "resolve_path base p = path_of (normal_segments [] (split_on 47 ?s))" by (simp only: resolve_path_def)
  show "list_all proper_segment (normal_segments [] (split_on 47 ?s))"
    by (rule normal_segments_proper) (auto simp: list_all_iff dest: split_on_segments)
qed

lemma static_path_inside:
  assumes "static_path cwd dir pathname = Some p"
  shows "inside (resolve_path cwd dir) p"
proof -
  obtain rel where rel: "p = resolve_path (resolve_path cwd dir) rel" "starts_with (resolve_path cwd dir @ [47]) p"
    using assms by (auto simp: static_path_def Let_def split: option.splits if_splits)
  then obtain t where t: "p = resolve_path cwd dir @ [47] @ t" by (auto simp: starts_with_iff)
  obtain segs where segs: "p = path_of segs" "list_all proper_segment segs" using resolve_path_segments rel(1) by metis
  obtain rs where rs: "resolve_path cwd dir = path_of rs" using resolve_path_segments by metis
  have "segs \<noteq> []"
  proof
    assume "segs = []"
    then have "p = [47]" using segs by (simp add: path_of_def)
    with t rs show False by (simp add: path_of_def)
  qed
  then have "split_on 47 p = [] # segs"
    using segs split_on_join [of 47 segs] by (simp add: path_of_def list_all_iff proper_segment_def)
  moreover have "split_on 47 p = split_on 47 (path_of rs) @ split_on 47 t"
    using t rs split_on_both by simp
  moreover have "split_on 47 (path_of rs) = [] # split_on 47 (join [47] rs)" by (simp add: path_of_def)
  ultimately have "set (split_on 47 t) \<subseteq> set segs" by auto
  then show ?thesis using t segs(2) by (auto simp: inside_def list_all_iff)
qed

lemma other_files:
  fixes f :: "'w \<Rightarrow> jstring \<Rightarrow> static_file"
  shows "authenticatedContext (opts\<lparr>ho_files := f\<rparr>) = authenticatedContext opts"
    "staff_callback (opts\<lparr>ho_files := f\<rparr>) = staff_callback opts"
    "weComCallbackVerification (opts\<lparr>ho_files := f\<rparr>) = weComCallbackVerification opts"
    "weComCallbackEvent (opts\<lparr>ho_files := f\<rparr>) = weComCallbackEvent opts"
    "storeops_write (opts\<lparr>ho_files := f\<rparr>) = storeops_write opts"
    "http_login (opts\<lparr>ho_files := f\<rparr>) = http_login opts"
    "http_logout (opts\<lparr>ho_files := f\<rparr>) = http_logout opts"
    "support_run (opts\<lparr>ho_files := f\<rparr>) = support_run opts"
  by (intro ext, simp add: authenticatedContext_def staff_callback_def weComCallbackVerification_def weComCallbackEvent_def
      storeops_write_def notify_staff_def http_login_def http_logout_def support_run_def
      cong: option.case_cong prod.case_cong storeops_route.case_cong)+

lemma other_files_routes:
  fixes f :: "'w \<Rightarrow> jstring \<Rightarrow> static_file"
  shows "storeOps (opts\<lparr>ho_files := f\<rparr>) = storeOps opts" "me (opts\<lparr>ho_files := f\<rparr>) = me opts"
    "support (opts\<lparr>ho_files := f\<rparr>) = support opts" "readBusiness (opts\<lparr>ho_files := f\<rparr>) = readBusiness opts"
  by (intro ext, simp add: storeOps_def storeops_route_for_def me_def support_def readBusiness_def other_files
      cong: option.case_cong if_cong)+

text \<open>
  C31. The server's answer depends on no file outside its static root: two file systems with the same
  regular files below the root give the same responses to every request, whatever the path is.
\<close>

theorem static_files_confined:
  assumes "\<And>dir w p. ho_staticRoot opts = Some dir \<Longrightarrow> inside (resolve_path (ho_cwd opts) dir) p \<Longrightarrow> files w p = ho_files opts w p"
  shows "handleRequest (opts\<lparr>ho_files := files\<rparr>) r i now w = handleRequest opts r i now w"
proof -
  have "static_response (opts\<lparr>ho_files := files\<rparr>) path w = static_response opts path w" for path
    using assms static_path_inside
    by (fastforce simp: static_response_def serveStaticFile_def split: option.split)
  then show ?thesis by (simp add: handleRequest_def other_files other_files_routes cong: option.case_cong prod.case_cong if_cong)
qed


lemma demo_static_root: "resolve_path (js ''/srv'') (js ''web'') = js ''/srv/web''"
  by code_simp

theorem static_files_confined_witness:
  "handleRequest (demo_options None\<lparr>ho_files := \<lambda>_ p. if starts_with (js ''/srv/web/'') p then Contents [1] else Contents [9]\<rparr>)
     (demo_request ''GET'' ''/%2e%2e/secret'') [] 0 (5 :: nat) =
   handleRequest (demo_options None) (demo_request ''GET'' ''/%2e%2e/secret'') [] 0 5"
proof (rule static_files_confined)
  fix dir p and w :: nat
  assume "ho_staticRoot (demo_options None) = Some dir" "inside (resolve_path (ho_cwd (demo_options None)) dir) p"
  then have "\<exists>t. p = js ''/srv/web'' @ [47] @ t" by (auto simp: demo_options_def demo_static_root inside_def)
  then have "starts_with (js ''/srv/web/'') p" by (auto simp: js_def)
  then show "(if starts_with (js ''/srv/web/'') p then Contents [1] else Contents [9]) = ho_files (demo_options None) w p"
    by (simp add: demo_options_def)
qed

section \<open>The session cookie\<close>

text \<open>A cookie of a request that is not taken for the session.\<close>

definition other_cookie :: "jstring \<Rightarrow> bool" where
  "other_cookie c \<longleftrightarrow> 59 \<notin> set c \<and> \<not> starts_with (SESSION_COOKIE @ [61]) (trim c)"

lemma split_on_cookies:
  "59 \<notin> set w \<Longrightarrow> list_all (\<lambda>c. 59 \<notin> set c) (x # xs) \<Longrightarrow>
   split_on 59 (w @ join [59, 32] (x # xs)) = (w @ x) # map ((#) 32) xs"
proof (induction xs arbitrary: w x)
  case Nil
  then show ?case by (simp add: split_on_no_sep)
next
  case (Cons y ys)
  have "split_on 59 (w @ join [59, 32] (x # y # ys)) = (w @ x) # split_on 59 ([32] @ join [59, 32] (y # ys))"
    using split_on_append [of 59 "w @ x"] Cons.prems by simp
  also have "split_on 59 ([32] @ join [59, 32] (y # ys)) = ([32] @ y) # map ((#) 32) ys"
    by (rule Cons.IH) (use Cons.prems in simp_all)
  finally show ?case by simp
qed

lemma trim_space: "trim (32 # s) = trim s"
  by (simp add: trim_def trim_start_def is_space_def)

lemma trimmed_cookies:
  assumes "list_all (\<lambda>c. 59 \<notin> set c) cookies" "cookies \<noteq> []"
  shows "map trim (split_on 59 (join [59, 32] cookies)) = map trim cookies"
  using assms split_on_cookies [of "[]"] by (cases cookies) (simp_all add: trim_space)

lemma trim_same: "list_all (\<lambda>c. \<not> is_space c) s \<Longrightarrow> trim s = s"
proof -
  assume plain: "list_all (\<lambda>c. \<not> is_space c) s"
  have "dropWhile is_space s = s" "dropWhile is_space (rev s) = rev s"
    using plain by (auto simp: dropWhile_eq_self_iff list_all_iff hd_rev dest: last_in_set)
  then show ?thesis by (simp add: trim_def trim_start_def trim_end_def)
qed

lemma find_skip: "list_all (\<lambda>x. \<not> P x) xs \<Longrightarrow> List.find P (xs @ ys) = List.find P ys"
  by (induction xs) auto

definition plain_token :: "jstring \<Rightarrow> bool" where
  "plain_token t \<longleftrightarrow> list_all (\<lambda>c. \<not> is_space c \<and> c \<noteq> 59) t"

lemma session_name: "list_all (\<lambda>c. \<not> is_space c \<and> c \<noteq> 59) (SESSION_COOKIE @ [61])"
  by (simp add: SESSION_COOKIE_def js_Cons is_space_def)

lemma readCookie_session:
  assumes others: "list_all other_cookie pre" "list_all (\<lambda>c. 59 \<notin> set c) post" and token: "plain_token token"
  shows "readCookie (Some (join [59, 32] (pre @ [SESSION_COOKIE @ [61] @ token] @ post))) SESSION_COOKIE = Some token"
proof -
  let ?c = "SESSION_COOKIE @ [61] @ token"
  have all: "list_all (\<lambda>c. \<not> is_space c \<and> c \<noteq> 59) ?c"
    using session_name token by (simp add: plain_token_def)
  then have same: "trim ?c = ?c" by (intro trim_same) (auto simp: list_all_iff)
  have "59 \<notin> set ?c" using all by (auto simp: list_all_iff)
  with others have "map trim (split_on 59 (join [59, 32] (pre @ ?c # post))) = map trim pre @ ?c # map trim post"
    unfolding other_cookie_def list_all_iff
    by (subst trimmed_cookies) (auto simp: list_all_iff same simp del: append.simps)
  moreover have "join [59, 32] (pre @ ?c # post) \<noteq> []"
    using calculation by (cases pre) (auto simp: SESSION_COOKIE_def)
  moreover have "List.find (starts_with (SESSION_COOKIE @ [61])) (map trim pre @ ?c # map trim post) = Some ?c"
    using others(1) by (subst find_skip) (auto simp: list_all_iff other_cookie_def starts_with_iff)
  ultimately show ?thesis by (simp add: readCookie_def)
qed

lemma sessionCookie_first:
  assumes "plain_token token"
  shows "hd (split_on 59 (sessionCookie token e n secure)) = SESSION_COOKIE @ [61] @ token"
proof -
  have c: "59 \<notin> set (SESSION_COOKIE @ [61] @ token)"
    using session_name assms by (auto simp: plain_token_def list_all_iff)
  have "sessionCookie token e n secure = (SESSION_COOKIE @ [61] @ token) @ 59 # drop 1 (js ''; '') @
      join (js ''; '') (tl ([SESSION_COOKIE @ [61] @ token, js ''HttpOnly'', js ''SameSite=Strict'', js ''Path=/'',
         js ''Max-Age='' @ show_nat (nat ((e - n) div 1000)), js ''Expires='' @ toUTCString e] @
        (if secure then [js ''Secure''] else [])))"
    by (simp add: sessionCookie_def js_Cons)
  then show ?thesis using split_on_append [OF c] by simp
qed

lemma base64url_plain: "plain_token (base64url bs)"
  by (auto simp: plain_token_def list_all_iff base64url_def b64_char_def is_space_def)

text \<open>The server's session services, over the authentication service on Postgres.\<close>

definition pg_login :: "crypto \<Rightarrow> int \<Rightarrow> date \<Rightarrow> byte list \<Rightarrow> jstring \<Rightarrow> jstring \<Rightarrow> jstring \<Rightarrow> (db, authenticated_session option) call" where
  "pg_login cr ttl now random uid email password d =
     (case login pg_ops cr ttl d email password now random uid of
        Inl e \<Rightarrow> (d, Inl (Service (Failed e))) | Inr (d', s) \<Rightarrow> (d', Inr s))"

definition pg_resolve :: "crypto \<Rightarrow> date \<Rightarrow> jstring option \<Rightarrow> jstring \<Rightarrow> (db, exec_context option) call" where
  "pg_resolve cr now token i d = (case resolveExecutionContext pg_ops cr d token i now of (d', c) \<Rightarrow> (d', Inr c))"

lemma login_answer:
  assumes "http_login opts r now d = (d', Inr x)" and "ho_login opts = pg_login cr ttl now random uid" and "rs_status x = 200"
  obtains body email password s where "readJsonBody (ho_parse opts) r = Inr body"
    "requiredString body ''email'' = Inr email" "requiredString body ''password'' = Inr password"
    "login pg_ops cr ttl d email password now random uid = Inr (d', Some s)"
    "map_of (rs_headers x) ''Set-Cookie'' = Some (sessionCookie (as_token s) (as_expiresAt s) now (ho_secureCookies opts))"
proof -
  show thesis
    using assms that
    by (auto simp: http_login_def bind_call_def lift_result_def done_call_def pg_login_def send_error_def sendJson_def
        and_then_Inr split: sum.splits option.splits prod.splits)
qed

text \<open>
  C32. The session cookie carries a login to later requests: when a login is answered with 200, a later
  request that sends back the first part of its \<open>Set-Cookie\<close> among any cookies of other names, before
  the session expires, is answered at \<open>/api/v1/auth/me\<close> with the execution context of the single
  membership of the user whose email and password the body of the login held.
\<close>

theorem login_cookie_authenticates:
  assumes db: "identity_ok d" and hash: "\<And>t. hex64 (hashSessionToken cr t)" and "random \<noteq> []" and "later < now + ttl"
    and url: "hr_url r = Some (js ''/api/v1/auth/login'', q)" and "hr_method r = js ''POST''"
    and services: "ho_login opts = pg_login cr ttl now random uid" "ho_resolve opts' = pg_resolve cr later"
    and answer: "handleRequest opts r i now d = (d', Responded x)" "rs_status x = 200"
    and cookie: "map_of (rs_headers x) ''Set-Cookie'' = Some h"
      "hr_cookie r' = Some (join [59, 32] (pre @ [hd (split_on 59 h)] @ post))"
      "list_all other_cookie pre" "list_all (\<lambda>c. 59 \<notin> set c) post"
    and later: "hr_url r' = Some (js ''/api/v1/auth/me'', q')" "hr_method r' = js ''GET''"
  shows "\<exists>body email password u. readJsonBody (ho_parse opts) r = Inr body \<and>
     requiredString body ''email'' = Inr email \<and> requiredString body ''password'' = Inr password \<and>
     pg_findUserByEmail d email = Some u \<and> verifyPassword cr password (user_passwordHash u) \<and>
     handleRequest opts' r' i' now' d' = (d', Responded (case pg_listMembershipsForUser d (user_id u) of
        [m] \<Rightarrow> sendJson 200 (Context_body (createSupportExecutionContext m i')) []
      | _ \<Rightarrow> send_error 401 ''unauthenticated''))"
proof -
  have "unawaited (http_login opts r now d) = (d', Responded x)"
    using answer(1) url \<open>hr_method r = js ''POST''\<close> by (simp add: handleRequest_def starts_with_js only_def)
  then have "http_login opts r now d = (d', Inr x)"
    by (cases "http_login opts r now d") (auto simp: unawaited_def split: sum.splits)
  then obtain body email password s where login: "readJsonBody (ho_parse opts) r = Inr body"
    "requiredString body ''email'' = Inr email" "requiredString body ''password'' = Inr password"
    "login pg_ops cr ttl d email password now random uid = Inr (d', Some s)"
    "map_of (rs_headers x) ''Set-Cookie'' = Some (sessionCookie (as_token s) (as_expiresAt s) now (ho_secureCookies opts))"
    using login_answer services(1) answer(2) by blast
  obtain u where u: "pg_findUserByEmail d email = Some u" "verifyPassword cr password (user_passwordHash u)"
    "as_token s = base64url random"
    using postgres_identity.login_session [OF db login(4)] by (auto simp: pg_ops_simps)
  have "readCookie (hr_cookie r') SESSION_COOKIE = Some (as_token s)"
  proof -
    have "h = sessionCookie (as_token s) (as_expiresAt s) now (ho_secureCookies opts)" using cookie(1) login(5) by simp
    moreover have "plain_token (as_token s)" by (simp add: u(3) base64url_plain)
    ultimately show ?thesis using cookie(2-4) readCookie_session by (simp only: sessionCookie_first)
  qed
  moreover have "resolveExecutionContext pg_ops cr d' (Some (as_token s)) i' later =
      (d', case pg_listMembershipsForUser d (user_id u) of [m] \<Rightarrow> Some (createSupportExecutionContext m i') | _ \<Rightarrow> None)"
    using postgres_identity.login_resolve(2) [OF db login(4) \<open>random \<noteq> []\<close> \<open>later < now + ttl\<close> hash, of i'] u(1)
    by (auto simp: pg_ops_simps)
  ultimately have "handleRequest opts' r' i' now' d' = (d', Responded (case pg_listMembershipsForUser d (user_id u) of
        [m] \<Rightarrow> sendJson 200 (Context_body (createSupportExecutionContext m i')) []
      | _ \<Rightarrow> send_error 401 ''unauthenticated''))"
    using later services(2)
    by (simp add: handleRequest_def starts_with_js only_def me_def authenticatedContext_def bind_call_def pg_resolve_def
        unawaited_def done_call_def split: list.split)
  with login u show ?thesis by blast
qed

definition cookie_options ::
  "(jstring option \<Rightarrow> jstring \<Rightarrow> (db, exec_context option) call) \<Rightarrow> (jstring \<Rightarrow> jstring \<Rightarrow> (db, authenticated_session option) call) \<Rightarrow>
     db http_options" where
  "cookie_options resolve signIn =
     \<lparr>ho_resolve = resolve, ho_login = signIn, ho_logout = (\<lambda>_ d. (d, Inr ())),
      ho_verifier = None, ho_kfSync = None, ho_routeTexts = None, ho_staff = None, ho_runtime = None,
      ho_support = None, ho_storeOps = None, ho_knowledge = None, ho_secureCookies = True, ho_staticRoot = None,
      ho_cwd = [], ho_files = (\<lambda>_ _. No_file),
      ho_parse = (\<lambda>_. Some (JObj [(js ''email'', JStr (js '' A@b'')), (js ''password'', JStr (js ''pw''))]))\<rparr>"

lemma demo_login_body:
  "readJsonBody (ho_parse (cookie_options f g)) (demo_request m p) =
     Inr [(js ''email'', JStr (js '' A@b'')), (js ''password'', JStr (js ''pw''))]"
  "requiredString [(js ''email'', JStr (js '' A@b'')), (js ''password'', JStr (js ''pw''))] ''email'' = Inr (js '' A@b'')"
  "requiredString [(js ''email'', JStr (js '' A@b'')), (js ''password'', JStr (js ''pw''))] ''password'' = Inr (js ''pw'')"
  by (simp_all add: readJsonBody_def body_bytes_def demo_request_def cookie_options_def requiredString_def field_def
      js_simps trim_def trim_start_def trim_end_def is_space_def)

lemma cookie_options_simps:
  "ho_resolve (cookie_options f g) = f" "ho_login (cookie_options f g) = g" "ho_secureCookies (cookie_options f g)"
  by (simp_all add: cookie_options_def)

theorem login_cookie_authenticates_witness:
  "\<exists>d' header. handleRequest (cookie_options (pg_resolve hex_crypto 14) (pg_login hex_crypto 10 14 [] []))
       ((demo_request ''GET'' ''/api/v1/auth/me'')\<lparr>hr_cookie := Some header\<rparr>) [] 14 d' =
     (d', Responded (sendJson 200 (Context_body
        \<lparr>actor_userId = js ''u1'', actor_role = Supervisor, actor_capabilities = capabilitiesForRole Supervisor,
         scope_tenantId = js ''t'', scope_storeId = js ''s'', request_requestId = []\<rparr>) []))"
proof -
  obtain d' where run: "login pg_ops hex_crypto 10 demo_pg (js '' A@b'') (js ''pw'') 5 [1, 2, 3] (js ''x'') =
     Inr (d', Some \<lparr>as_token = js ''AQID'', as_expiresAt = 15\<rparr>)"
    using demo_pg_login by blast
  let ?opts = "cookie_options (pg_resolve hex_crypto 5) (pg_login hex_crypto 10 5 [1, 2, 3] (js ''x''))"
    and ?later = "cookie_options (pg_resolve hex_crypto 14) (pg_login hex_crypto 10 14 [] [])"
    and ?r = "demo_request ''POST'' ''/api/v1/auth/login''"
  let ?h = "sessionCookie (js ''AQID'') 15 5 True"
  let ?x = "sendJson 200 (Login_body (toISOString 15)) [(''Set-Cookie'', ?h)]"
  let ?r' = "(demo_request ''GET'' ''/api/v1/auth/me'')\<lparr>hr_cookie := Some (join [59, 32] ([js ''a=b''] @ [hd (split_on 59 ?h)] @ []))\<rparr>"
  have answer: "handleRequest ?opts ?r [] 5 demo_pg = (d', Responded ?x)"
    by (simp add: handleRequest_def starts_with_js only_def http_login_def demo_login_body cookie_options_simps
        unawaited_def pg_login_def run bind_call_def done_call_def)
  have other: "list_all other_cookie [js ''a=b'']"
    by (simp add: other_cookie_def js_Cons trim_def trim_start_def trim_end_def is_space_def SESSION_COOKIE_def)
  have "pg_listMembershipsForUser demo_pg (js ''u1'') =
     [\<lparr>mem_id = js ''m1'', mem_userId = js ''u1'', mem_tenantId = js ''t'', mem_storeId = js ''s'',
       mem_role = Supervisor, mem_createdAt = 0\<rparr>]"
    by (simp add: pg_listMembershipsForUser_def demo_pg_def)
  moreover have "user_id demo_user = js ''u1''" by (simp add: demo_user_def)
  moreover have "\<exists>body email password u. readJsonBody (ho_parse ?opts) ?r = Inr body \<and>
     requiredString body ''email'' = Inr email \<and> requiredString body ''password'' = Inr password \<and>
     pg_findUserByEmail demo_pg email = Some u \<and> verifyPassword hex_crypto password (user_passwordHash u) \<and>
     handleRequest ?later ?r' [] 14 d' = (d', Responded (case pg_listMembershipsForUser demo_pg (user_id u) of
        [m] \<Rightarrow> sendJson 200 (Context_body (createSupportExecutionContext m [])) []
      | _ \<Rightarrow> send_error 401 ''unauthenticated''))"
    by (rule login_cookie_authenticates [where h = ?h and pre = "[js ''a=b'']" and post = "[]" and random = "[1, 2, 3]" and later = 14,
          OF demo_pg_ok hex_crypto_ok _ _ _ _ _ _ answer])
      (use other in \<open>simp_all add: cookie_options_simps sendJson_def demo_request_def\<close>)
  ultimately show ?thesis
    by (auto simp: demo_login_body demo_pg_find createSupportExecutionContext_def simp del: demo_http_simps)
qed

end
