(* ===== verification/Migrations.thy ===== *)
theory Migrations
  imports Main
begin

text \<open>
  The migrations of the database, \<open>applyEnterpriseMigrations\<close> and \<open>applyMigrationOnce\<close> of
  \<open>src/enterprise/postgres.ts\<close>, run by several starting applications at once. A process is one call of an
  entry point; a step is one statement of it. A statement may fail, the answer of a commit may be lost, and
  an exclusive lock of the table of migrations is held to the end of the transaction. The effect of a
  script is its name in the list of the scripts whose effects are in the database.
\<close>

section \<open>Migrations and their transactions\<close>

definition migration_ids :: "string list" where
  "migration_ids = [''001_enterprise_identity'', ''002_support_business_persistence'', ''003_job_ready_storeops'',
     ''004_job_ready_rag'', ''005_job_ready_rag_profiles'', ''006_wecom_customer_identity'', ''007_wecom_staff_booking'']"

datatype entry_point = Identity_migrations | Business_migrations | Job_ready_migrations

fun entry_migrations :: "entry_point \<Rightarrow> string list" where
  "entry_migrations Identity_migrations = take 1 migration_ids"
| "entry_migrations Business_migrations = take 2 migration_ids"
| "entry_migrations Job_ready_migrations = migration_ids"

record migration_db =
  md_applied :: "string list"
  md_executed :: "string list"
  md_lock :: "nat option"

datatype migration_phase =
    Idle | Begun | Table_there | Table_locked | Found bool | Script_run | Recorded | Failed

record migrator =
  mg_entry :: entry_point
  mg_todo :: "string list"
  mg_phase :: migration_phase

definition new_migrator :: "entry_point \<Rightarrow> migrator" where
  "new_migrator e = \<lparr>mg_entry = e, mg_todo = entry_migrations e, mg_phase = Idle\<rparr>"

definition finished :: "migrator \<Rightarrow> bool" where
  "finished p \<longleftrightarrow> mg_phase p = Idle \<and> mg_todo p = []"

text \<open>What \<open>COMMIT\<close> makes of the database: the effects of the script and of the insertion appear, the lock
  goes.\<close>

definition commit_migration :: "migrator \<Rightarrow> migration_db \<Rightarrow> migration_db" where
  "commit_migration p d =
     (if mg_phase p = Recorded
      then d\<lparr>md_applied := md_applied d @ [hd (mg_todo p)], md_executed := md_executed d @ [hd (mg_todo p)], md_lock := None\<rparr>
      else d\<lparr>md_lock := None\<rparr>)"

text \<open>The next statement of process \<open>i\<close>: \<open>None\<close> where it waits, has failed or has finished.\<close>

definition migration_statement :: "nat \<Rightarrow> migration_db \<Rightarrow> migrator \<Rightarrow> (migration_db \<times> migrator) option" where
  "migration_statement i d p =
     (case mg_todo p of
        [] \<Rightarrow> None
      | m # rest \<Rightarrow>
          (case mg_phase p of
             Idle \<Rightarrow> Some (d, p\<lparr>mg_phase := Begun\<rparr>)
           | Begun \<Rightarrow> Some (d, p\<lparr>mg_phase := Table_there\<rparr>)
           | Table_there \<Rightarrow> if md_lock d = None then Some (d\<lparr>md_lock := Some i\<rparr>, p\<lparr>mg_phase := Table_locked\<rparr>) else None
           | Table_locked \<Rightarrow> Some (d, p\<lparr>mg_phase := Found (m \<in> set (md_applied d))\<rparr>)
           | Found True \<Rightarrow> Some (commit_migration p d, p\<lparr>mg_todo := rest, mg_phase := Idle\<rparr>)
           | Found False \<Rightarrow> Some (d, p\<lparr>mg_phase := Script_run\<rparr>)
           | Script_run \<Rightarrow> if m \<in> set (md_applied d) then None else Some (d, p\<lparr>mg_phase := Recorded\<rparr>)
           | Recorded \<Rightarrow> Some (commit_migration p d, p\<lparr>mg_todo := rest, mg_phase := Idle\<rparr>)
           | Failed \<Rightarrow> None))"

definition in_transaction :: "migrator \<Rightarrow> bool" where
  "in_transaction p \<longleftrightarrow> mg_phase p \<noteq> Idle \<and> mg_phase p \<noteq> Failed"

text \<open>\<open>ROLLBACK\<close>.\<close>

definition abandon_migration :: "nat \<Rightarrow> migration_db \<Rightarrow> migrator \<Rightarrow> migration_db \<times> migrator" where
  "abandon_migration i d p = ((if md_lock d = Some i then d\<lparr>md_lock := None\<rparr> else d), p\<lparr>mg_phase := Failed\<rparr>)"

definition commits :: "migrator \<Rightarrow> bool" where
  "commits p \<longleftrightarrow> mg_phase p = Found True \<or> mg_phase p = Recorded"

record migration_system =
  ms_db :: migration_db
  ms_processes :: "migrator list"

inductive migration_step :: "migration_system \<Rightarrow> migration_system \<Rightarrow> bool" where
  call: "migration_step s (s\<lparr>ms_processes := ms_processes s @ [new_migrator e]\<rparr>)"
| statement: "i < length (ms_processes s) \<Longrightarrow> migration_statement i (ms_db s) (ms_processes s ! i) = Some (d', p') \<Longrightarrow>
    migration_step s \<lparr>ms_db = d', ms_processes = (ms_processes s)[i := p']\<rparr>"
| failure: "i < length (ms_processes s) \<Longrightarrow> \<not> finished (ms_processes s ! i) \<Longrightarrow>
    abandon_migration i (ms_db s) (ms_processes s ! i) = (d', p') \<Longrightarrow>
    migration_step s \<lparr>ms_db = d', ms_processes = (ms_processes s)[i := p']\<rparr>"
| lost_answer: "i < length (ms_processes s) \<Longrightarrow> commits (ms_processes s ! i) \<Longrightarrow> mg_todo (ms_processes s ! i) \<noteq> [] \<Longrightarrow>
    migration_step s \<lparr>ms_db = commit_migration (ms_processes s ! i) (ms_db s),
      ms_processes = (ms_processes s)[i := (ms_processes s ! i)\<lparr>mg_phase := Failed\<rparr>]\<rparr>"

definition empty_system :: migration_system where
  "empty_system = \<lparr>ms_db = \<lparr>md_applied = [], md_executed = [], md_lock = None\<rparr>, ms_processes = []\<rparr>"

section \<open>The invariant\<close>

definition holds_lock :: "migrator \<Rightarrow> bool" where
  "holds_lock p \<longleftrightarrow> mg_phase p \<notin> {Idle, Begun, Table_there, Failed}"

definition settled :: "migration_db \<Rightarrow> bool" where
  "settled d \<longleftrightarrow> md_executed d = md_applied d \<and> (\<exists>k \<le> length migration_ids. md_applied d = take k migration_ids)"

definition process_ok :: "migration_db \<Rightarrow> migrator \<Rightarrow> bool" where
  "process_ok d p \<longleftrightarrow>
     (\<exists>past. entry_migrations (mg_entry p) = past @ mg_todo p \<and> set past \<subseteq> set (md_applied d)) \<and>
     (in_transaction p \<longrightarrow> mg_todo p \<noteq> []) \<and>
     (mg_phase p = Found True \<longrightarrow> hd (mg_todo p) \<in> set (md_applied d)) \<and>
     (mg_phase p \<in> {Found False, Script_run, Recorded} \<longrightarrow> hd (mg_todo p) \<notin> set (md_applied d))"

definition system_ok :: "migration_system \<Rightarrow> bool" where
  "system_ok s \<longleftrightarrow> settled (ms_db s) \<and>
     (\<forall>i < length (ms_processes s). process_ok (ms_db s) (ms_processes s ! i) \<and>
        (holds_lock (ms_processes s ! i) \<longleftrightarrow> md_lock (ms_db s) = Some i)) \<and>
     (\<forall>i. md_lock (ms_db s) = Some i \<longrightarrow> i < length (ms_processes s))"

lemma distinct_migration_ids: "distinct migration_ids"
  by (simp add: migration_ids_def)

lemma entry_prefix: "\<exists>n \<le> length migration_ids. entry_migrations e = take n migration_ids"
  by (cases e) (auto simp: migration_ids_def intro: exI [of _ 1] exI [of _ 2] exI [of _ 7])

text \<open>The next migration of a process whose past is applied and which is not applied itself is the first
  that is missing.\<close>

lemma next_migration:
  assumes e: "entry_migrations e = past @ m # rest" and past: "set past \<subseteq> set applied"
    and a: "applied = take k migration_ids" "k \<le> length migration_ids" and m: "m \<notin> set applied"
  shows "k < length migration_ids \<and> m = migration_ids ! k"
proof -
  obtain n where n: "n \<le> length migration_ids" "entry_migrations e = take n migration_ids" using entry_prefix by blast
  define j where "j = length past"
  have "length past + Suc (length rest) = n" using arg_cong [OF e, of length] n by simp
  then have j: "j < n" unfolding j_def by simp
  have past_eq: "past = take j migration_ids"
    using arg_cong [OF e, of "take (length past)"] n j unfolding j_def by (simp add: min_def)
  have m_eq: "m = migration_ids ! j"
    using arg_cong [OF e, of "\<lambda>xs. xs ! length past"] n j unfolding j_def by simp
  have "\<not> j < k" using m a m_eq j n by (auto simp: in_set_conv_nth)
  moreover have "\<not> k < j"
  proof
    assume k: "k < j"
    then have "migration_ids ! k \<in> set past" using past_eq j n by (auto simp: in_set_conv_nth intro!: exI [of _ k])
    then have "migration_ids ! k \<in> set (take k migration_ids)" using past a by auto
    then show False using distinct_migration_ids k j n
      by (auto simp: in_set_conv_nth nth_eq_iff_index_eq)
  qed
  ultimately show ?thesis using m_eq j n by simp
qed


lemma process_ok_grows:
  "process_ok d p \<Longrightarrow> \<not> holds_lock p \<Longrightarrow> set (md_applied d) \<subseteq> set (md_applied d') \<Longrightarrow> process_ok d' p"
  unfolding process_ok_def holds_lock_def in_transaction_def by auto

lemma process_ok_same: "md_applied d = md_applied d' \<Longrightarrow> process_ok d p = process_ok d' p"
  unfolding process_ok_def by simp

lemma system_ok_update:
  assumes ok: "system_ok s" and i: "i < length (ms_processes s)"
    and d: "settled d'" and p: "process_ok d' p'" and lock: "holds_lock p' \<longleftrightarrow> md_lock d' = Some i"
    and others: "\<And>j. j \<noteq> i \<Longrightarrow> md_lock d' = Some j \<longleftrightarrow> md_lock (ms_db s) = Some j"
    and applied: "md_applied d' = md_applied (ms_db s) \<or>
      md_lock (ms_db s) = Some i \<and> set (md_applied (ms_db s)) \<subseteq> set (md_applied d')"
  shows "system_ok \<lparr>ms_db = d', ms_processes = (ms_processes s)[i := p']\<rparr>"
proof -
  have "process_ok d' (ms_processes s ! j) \<and> (holds_lock (ms_processes s ! j) \<longleftrightarrow> md_lock d' = Some j)"
    if j: "j < length (ms_processes s)" "j \<noteq> i" for j
  proof -
    have oj: "process_ok (ms_db s) (ms_processes s ! j)" "holds_lock (ms_processes s ! j) \<longleftrightarrow> md_lock (ms_db s) = Some j"
      using ok j by (auto simp: system_ok_def)
    from applied have "process_ok d' (ms_processes s ! j)"
    proof
      assume "md_applied d' = md_applied (ms_db s)"
      then show ?thesis using oj process_ok_same [of "ms_db s" d'] by simp
    next
      assume "md_lock (ms_db s) = Some i \<and> set (md_applied (ms_db s)) \<subseteq> set (md_applied d')"
      then show ?thesis using oj j process_ok_grows [of "ms_db s" "ms_processes s ! j" d'] by simp
    qed
    then show ?thesis using oj others [OF j(2)] by simp
  qed
  moreover have "j < length (ms_processes s)" if "md_lock d' = Some j" for j
    using that i others [of j] ok by (cases "j = i") (auto simp: system_ok_def)
  ultimately show ?thesis using d p lock i by (simp add: system_ok_def nth_list_update)
qed

lemma settled_lock [simp]: "settled (d\<lparr>md_lock := l\<rparr>) = settled d"
  by (simp add: settled_def)

lemma process_ok_lock [simp]: "process_ok (d\<lparr>md_lock := l\<rparr>) p = process_ok d p"
  by (simp add: process_ok_def)

lemma commit_lock [simp]: "md_lock (commit_migration p d) = None"
  by (simp add: commit_migration_def)

text \<open>A commit keeps the applied migrations a prefix, and the committed migration is among them.\<close>

lemma commit_settled:
  assumes d: "settled d" and p: "process_ok d p" and c: "commits p" and t: "mg_todo p = m # rest"
  shows "settled (commit_migration p d) \<and> set (md_applied (commit_migration p d)) = insert m (set (md_applied d))"
proof (cases "mg_phase p = Recorded")
  case True
  obtain k where k: "k \<le> length migration_ids" "md_applied d = take k migration_ids" and e: "md_executed d = md_applied d"
    using d by (auto simp: settled_def)
  obtain past where "entry_migrations (mg_entry p) = past @ m # rest" "set past \<subseteq> set (md_applied d)"
    using p t by (auto simp: process_ok_def)
  moreover have "m \<notin> set (md_applied d)" using p t True by (auto simp: process_ok_def)
  ultimately have n: "k < length migration_ids" "m = migration_ids ! k" using next_migration k by metis+
  then have "md_applied d @ [m] = take (Suc k) migration_ids" using k by (simp add: take_Suc_conv_app_nth)
  then have "settled (commit_migration p d)"
    using True t e n by (auto simp: commit_migration_def settled_def intro: exI [of _ "Suc k"])
  then show ?thesis using True t by (simp add: commit_migration_def)
next
  case False
  then show ?thesis using c d p t by (auto simp: commits_def process_ok_def commit_migration_def)
qed

lemma process_ok_next:
  assumes "process_ok d p" "mg_todo p = m # rest" "set (md_applied d') = insert m (set (md_applied d))"
  shows "process_ok d' (p\<lparr>mg_todo := rest, mg_phase := Idle\<rparr>)" "process_ok d' (p\<lparr>mg_phase := Failed\<rparr>)"
proof -
  obtain past where past: "entry_migrations (mg_entry p) = past @ m # rest" "set past \<subseteq> set (md_applied d)"
    using assms(1,2) by (auto simp: process_ok_def)
  have "entry_migrations (mg_entry p) = (past @ [m]) @ rest" "set (past @ [m]) \<subseteq> set (md_applied d')"
    using past assms(3) by auto
  then show "process_ok d' (p\<lparr>mg_todo := rest, mg_phase := Idle\<rparr>)"
    unfolding process_ok_def holds_lock_def in_transaction_def by (intro conjI exI [of _ "past @ [m]"]) auto
  show "process_ok d' (p\<lparr>mg_phase := Failed\<rparr>)"
    using past assms(2,3) unfolding process_ok_def holds_lock_def in_transaction_def by (intro conjI exI [of _ past]) auto
qed

lemma system_ok_commit:
  assumes ok: "system_ok s" and i: "i < length (ms_processes s)" and c: "commits (ms_processes s ! i)"
    and t: "mg_todo (ms_processes s ! i) = m # rest"
    and p': "p' = (ms_processes s ! i)\<lparr>mg_todo := rest, mg_phase := Idle\<rparr> \<or> p' = (ms_processes s ! i)\<lparr>mg_phase := Failed\<rparr>"
  shows "system_ok \<lparr>ms_db = commit_migration (ms_processes s ! i) (ms_db s), ms_processes = (ms_processes s)[i := p']\<rparr>"
proof -
  let ?d' = "commit_migration (ms_processes s ! i) (ms_db s)"
  have o: "settled (ms_db s)" "process_ok (ms_db s) (ms_processes s ! i)" using ok i by (auto simp: system_ok_def)
  note cs = commit_settled [OF o c t]
  have lock: "md_lock (ms_db s) = Some i" using ok i c by (auto simp: system_ok_def commits_def holds_lock_def)
  have "process_ok ?d' p'" using process_ok_next [OF o(2) t] cs p' by auto
  moreover have "\<not> holds_lock p'" using p' by (auto simp: holds_lock_def)
  ultimately show ?thesis using cs lock by (intro system_ok_update [OF ok i]) auto
qed

lemma system_ok_statement:
  assumes ok: "system_ok s" and i: "i < length (ms_processes s)"
    and st: "migration_statement i (ms_db s) (ms_processes s ! i) = Some (d', p')"
  shows "system_ok \<lparr>ms_db = d', ms_processes = (ms_processes s)[i := p']\<rparr>"
proof (cases "commits (ms_processes s ! i)")
  case True
  then show ?thesis
    using st by (auto simp: migration_statement_def commits_def split: list.splits intro!: system_ok_commit [OF ok i])
next
  case False
  have o: "settled (ms_db s)" "process_ok (ms_db s) (ms_processes s ! i)"
    "holds_lock (ms_processes s ! i) \<longleftrightarrow> md_lock (ms_db s) = Some i" using ok i by (auto simp: system_ok_def)
  have "md_applied d' = md_applied (ms_db s) \<and> settled d' \<and> process_ok d' p' \<and> (holds_lock p' \<longleftrightarrow> md_lock d' = Some i) \<and>
      (\<forall>j. j \<noteq> i \<longrightarrow> (md_lock d' = Some j \<longleftrightarrow> md_lock (ms_db s) = Some j))"
    using st False o
    by (auto simp: migration_statement_def commits_def process_ok_def holds_lock_def in_transaction_def
        split: list.splits migration_phase.splits bool.splits if_splits)
  then show ?thesis by (intro system_ok_update [OF ok i]) auto
qed

lemma system_ok_step: "migration_step s s' \<Longrightarrow> system_ok s \<Longrightarrow> system_ok s'"
proof (induction rule: migration_step.induct)
  case (call s e)
  have "process_ok (ms_db s) (new_migrator e)" "\<not> holds_lock (new_migrator e)"
    by (auto simp: process_ok_def new_migrator_def holds_lock_def in_transaction_def)
  then show ?case using call by (auto simp: system_ok_def nth_append less_Suc_eq)
next
  case (statement i s d' p')
  then show ?case by (rule system_ok_statement [rotated])
next
  case (failure i s d' p')
  have o: "settled (ms_db s)" "process_ok (ms_db s) (ms_processes s ! i)"
    using failure by (auto simp: system_ok_def)
  have "process_ok (ms_db s) ((ms_processes s ! i)\<lparr>mg_phase := Failed\<rparr>)"
    using o(2) by (auto simp: process_ok_def holds_lock_def in_transaction_def)
  then show ?case using failure o
    by (intro system_ok_update) (auto simp: abandon_migration_def holds_lock_def split: if_splits)
next
  case (lost_answer i s)
  then obtain m rest where "mg_todo (ms_processes s ! i) = m # rest" by (cases "mg_todo (ms_processes s ! i)") auto
  then show ?case using lost_answer by (intro system_ok_commit) auto
qed

lemma system_ok_reachable: "migration_step\<^sup>*\<^sup>* empty_system s \<Longrightarrow> system_ok s"
proof (induction rule: rtranclp_induct)
  case base
  show ?case by (auto simp: system_ok_def empty_system_def settled_def)
next
  case (step s s')
  then show ?case using system_ok_step by blast
qed


section \<open>Progress\<close>

fun phase_rank :: "migration_phase \<Rightarrow> nat" where
  "phase_rank Idle = 6"
| "phase_rank Begun = 5"
| "phase_rank Table_there = 4"
| "phase_rank Table_locked = 3"
| "phase_rank (Found b) = 2"
| "phase_rank Script_run = 1"
| "phase_rank _ = 0"

definition remaining :: "migrator \<Rightarrow> nat" where
  "remaining p = 7 * length (mg_todo p) + phase_rank (mg_phase p)"

definition may_run :: "nat \<Rightarrow> migration_db \<Rightarrow> migrator \<Rightarrow> bool" where
  "may_run i d p \<longleftrightarrow> mg_phase p \<noteq> Failed \<and> (md_lock d = None \<or> md_lock d = Some i)"

lemma statement_enabled:
  assumes "may_run i d p" "process_ok d p" "holds_lock p \<longleftrightarrow> md_lock d = Some i" "\<not> finished p"
  obtains d' p' where "migration_statement i d p = Some (d', p')" "may_run i d' p'" "remaining p' < remaining p" "mg_entry p' = mg_entry p"
proof -
  obtain m rest where t: "mg_todo p = m # rest"
    using assms by (cases "mg_todo p") (auto simp: finished_def process_ok_def in_transaction_def may_run_def)
  have "\<exists>d' p'. migration_statement i d p = Some (d', p') \<and> may_run i d' p' \<and> remaining p' < remaining p \<and> mg_entry p' = mg_entry p"
    using assms t
    by (cases "mg_phase p") (auto simp: migration_statement_def may_run_def holds_lock_def process_ok_def remaining_def split: bool.splits)
  then show ?thesis using that by blast
qed

lemma runs_to_end:
  "system_ok s \<Longrightarrow> i < length (ms_processes s) \<Longrightarrow> may_run i (ms_db s) (ms_processes s ! i) \<Longrightarrow>
     \<exists>s'. migration_step\<^sup>*\<^sup>* s s' \<and> i < length (ms_processes s') \<and> finished (ms_processes s' ! i) \<and>
       mg_entry (ms_processes s' ! i) = mg_entry (ms_processes s ! i)"
proof (induction "remaining (ms_processes s ! i)" arbitrary: s rule: less_induct)
  case less
  show ?case
  proof (cases "finished (ms_processes s ! i)")
    case True
    with less.prems show ?thesis by blast
  next
    case False
    have "process_ok (ms_db s) (ms_processes s ! i)" "holds_lock (ms_processes s ! i) \<longleftrightarrow> md_lock (ms_db s) = Some i"
      using less.prems by (auto simp: system_ok_def)
    from statement_enabled [OF less.prems(3) this False] obtain d' p'
      where st: "migration_statement i (ms_db s) (ms_processes s ! i) = Some (d', p')" "may_run i d' p'"
        "remaining p' < remaining (ms_processes s ! i)" "mg_entry p' = mg_entry (ms_processes s ! i)" by blast
    define t where "t = \<lparr>ms_db = d', ms_processes = (ms_processes s)[i := p']\<rparr>"
    have t: "ms_processes t ! i = p'" "i < length (ms_processes t)" "ms_db t = d'" using less.prems(2) by (simp_all add: t_def)
    have step: "migration_step s t" unfolding t_def by (rule migration_step.statement [OF less.prems(2) st(1)])
    have "\<exists>s'. migration_step\<^sup>*\<^sup>* t s' \<and> i < length (ms_processes s') \<and> finished (ms_processes s' ! i) \<and>
       mg_entry (ms_processes s' ! i) = mg_entry (ms_processes t ! i)"
      using less.hyps [of t] system_ok_step [OF step less.prems(1)] st t by simp
    then show ?thesis using converse_rtranclp_into_rtranclp [of migration_step s t] step st(4) t by metis
  qed
qed

lemma reachable_applied:
  assumes "migration_step\<^sup>*\<^sup>* empty_system s"
  shows "md_executed (ms_db s) = md_applied (ms_db s)" "\<exists>k. md_applied (ms_db s) = take k migration_ids"
    "p \<in> set (ms_processes s) \<Longrightarrow> finished p \<Longrightarrow> set (entry_migrations (mg_entry p)) \<subseteq> set (md_applied (ms_db s))"
proof -
  have ok: "system_ok s" using assms by (rule system_ok_reachable)
  then show "md_executed (ms_db s) = md_applied (ms_db s)" "\<exists>k. md_applied (ms_db s) = take k migration_ids"
    by (auto simp: system_ok_def settled_def)
  assume p: "p \<in> set (ms_processes s)" "finished p"
  then obtain i where "i < length (ms_processes s)" "ms_processes s ! i = p" by (metis in_set_conv_nth)
  then have "process_ok (ms_db s) p" using ok by (auto simp: system_ok_def)
  then show "set (entry_migrations (mg_entry p)) \<subseteq> set (md_applied (ms_db s))"
    using p(2) by (auto simp: process_ok_def finished_def)
qed

lemma new_call_returns:
  assumes "migration_step\<^sup>*\<^sup>* empty_system s" and free: "md_lock (ms_db s) = None"
  shows "\<exists>s' p. migration_step\<^sup>*\<^sup>* s s' \<and> p \<in> set (ms_processes s') \<and> finished p \<and> mg_entry p = e"
proof -
  define t where "t = s\<lparr>ms_processes := ms_processes s @ [new_migrator e]\<rparr>"
  let ?n = "length (ms_processes s)"
  have step: "migration_step s t" unfolding t_def by (rule migration_step.call)
  have t: "ms_processes t ! ?n = new_migrator e" "?n < length (ms_processes t)" "ms_db t = ms_db s" by (simp_all add: t_def)
  have "may_run ?n (ms_db t) (ms_processes t ! ?n)"
    using free unfolding t by (simp add: may_run_def new_migrator_def)
  from runs_to_end [OF system_ok_step [OF step system_ok_reachable [OF assms(1)]] t(2) this] obtain s' where
    "migration_step\<^sup>*\<^sup>* t s'" "?n < length (ms_processes s')" "finished (ms_processes s' ! ?n)"
    "mg_entry (ms_processes s' ! ?n) = e"
    using t by (auto simp: new_migrator_def)
  moreover from this(1) have "migration_step\<^sup>*\<^sup>* s s'" using step by (meson converse_rtranclp_into_rtranclp)
  ultimately show ?thesis using nth_mem by blast
qed

text \<open>
  Starting applications migrate the database once, whatever the interleaving of their statements, their failures
  and lost answers of commits: the scripts whose effects are in the database are exactly the recorded
  migrations, each once and in their order without a gap, and a call that returns has left all of its migrations applied. A
  process that dies blocks no other: whenever the lock is free, a new call that is left alone returns.
\<close>

theorem migrations_once:
  assumes "migration_step\<^sup>*\<^sup>* empty_system s"
  shows "md_executed (ms_db s) = md_applied (ms_db s) \<and> (\<exists>k. md_applied (ms_db s) = take k migration_ids) \<and>
    (\<forall>p \<in> set (ms_processes s). finished p \<longrightarrow> set (entry_migrations (mg_entry p)) \<subseteq> set (md_applied (ms_db s))) \<and>
    (md_lock (ms_db s) = None \<longrightarrow>
       (\<forall>e. \<exists>s' p. migration_step\<^sup>*\<^sup>* s s' \<and> p \<in> set (ms_processes s') \<and> finished p \<and> mg_entry p = e))"
  using reachable_applied [OF assms] new_call_returns [OF assms] by blast

text \<open>Starting on an empty database leaves all migrations applied.\<close>

theorem migrations_once_witness:
  "\<exists>s. migration_step\<^sup>*\<^sup>* empty_system s \<and> set migration_ids \<subseteq> set (md_applied (ms_db s)) \<and> md_executed (ms_db s) = md_applied (ms_db s)"
proof -
  have "md_lock (ms_db empty_system) = None" by (simp add: empty_system_def)
  then obtain s p where s: "migration_step\<^sup>*\<^sup>* empty_system s" "p \<in> set (ms_processes s)" "finished p" "mg_entry p = Job_ready_migrations"
    using migrations_once [OF rtranclp.rtrancl_refl] by blast
  have "set (entry_migrations Job_ready_migrations) \<subseteq> set (md_applied (ms_db s))" "md_executed (ms_db s) = md_applied (ms_db s)"
    using migrations_once [OF s(1)] s(2-4) by metis+
  then show ?thesis using s(1) by auto
qed

end
