(* ===== verification/PortfolioHttp.thy ===== *)
theory PortfolioHttp
  imports EnterpriseHttp
begin

text \<open>
  The portfolio's HTTP server, \<open>src/http-api.ts\<close>: two routes, and a body that is read to its end even
  when it is too large. \<open>runtime\<close> is the support runtime, a function on the state \<open>'w\<close> of the world
  whose \<open>None\<close> is a rejection, and \<open>parse\<close> decodes and parses the bytes of a body. In contrast to
  the enterprise server every handler is awaited, so there is always a response.
\<close>

record portfolio_request = http_request +
  pr_contentLength :: "jstring option"

text \<open>\<open>Number.parseInt(v, 10)\<close>: \<open>None\<close> is \<open>NaN\<close>.\<close>

definition parseInt :: "jstring \<Rightarrow> int option" where
  "parseInt v =
     (let s = trim_start v;
          negative = (s \<noteq> [] \<and> hd s = 45);
          digits = takeWhile is_digit (if s \<noteq> [] \<and> (hd s = 45 \<or> hd s = 43) then tl s else s)
      in if digits = [] then None else Some (if negative then - int (digits_value digits) else int (digits_value digits)))"

definition PORTFOLIO_JSON_BODY_LIMIT_BYTES :: nat where
  "PORTFOLIO_JSON_BODY_LIMIT_BYTES = 64 * 1024"

datatype portfolio_error = Invalid_request_error | Request_body_too_large | Internal_error

definition portfolio_readJsonBody :: "(byte list \<Rightarrow> json option) \<Rightarrow> portfolio_request \<Rightarrow> (portfolio_error, json) result" where
  "portfolio_readJsonBody parse r =
     (if (case pr_contentLength r of None \<Rightarrow> False
          | Some h \<Rightarrow> (case parseInt h of None \<Rightarrow> False | Some n \<Rightarrow> n > int PORTFOLIO_JSON_BODY_LIMIT_BYTES))
      then Inl Request_body_too_large
      else if hr_aborted r then Inl Internal_error
      else (let received = concat (hr_chunks r) in
        if length received > PORTFOLIO_JSON_BODY_LIMIT_BYTES then Inl Request_body_too_large
        else (case parse received of None \<Rightarrow> Inl Invalid_request_error | Some v \<Rightarrow> Inr v)))"

definition portfolio_requiredString :: "json option \<Rightarrow> (portfolio_error, jstring) result" where
  "portfolio_requiredString v =
     (case v of Some (JStr s) \<Rightarrow> if trim s = [] then Inl Invalid_request_error else Inr s | _ \<Rightarrow> Inl Invalid_request_error)"

fun as_text :: "json \<Rightarrow> jstring option" where
  "as_text (JStr s) = Some s"
| "as_text _ = None"

definition optionalStringArray :: "json option \<Rightarrow> (portfolio_error, jstring list option) result" where
  "optionalStringArray v =
     (case v of
        None \<Rightarrow> Inr None
      | Some (JArr xs) \<Rightarrow>
          if list_all (\<lambda>x. as_text x \<noteq> None) xs then Inr (Some (map (the \<circ> as_text) xs)) else Inl Invalid_request_error
      | Some _ \<Rightarrow> Inl Invalid_request_error)"

definition optionalBoolean :: "json option \<Rightarrow> (portfolio_error, bool option) result" where
  "optionalBoolean v =
     (case v of None \<Rightarrow> Inr None | Some (JBool b) \<Rightarrow> Inr (Some b) | Some _ \<Rightarrow> Inl Invalid_request_error)"

definition parseSupportRequest :: "json \<Rightarrow> (portfolio_error, support_request) result" where
  "parseSupportRequest v =
     (case v of
        JObj obj \<Rightarrow>
          and_then (portfolio_requiredString (field obj ''conversationId'')) (\<lambda>conversationId.
          and_then (portfolio_requiredString (field obj ''tenantId'')) (\<lambda>tenantId.
          and_then (portfolio_requiredString (field obj ''storeId'')) (\<lambda>storeId.
          and_then (portfolio_requiredString (field obj ''customerId'')) (\<lambda>customerId.
          and_then (portfolio_requiredString (field obj ''text'')) (\<lambda>text.
          and_then (optionalStringArray (field obj ''permissions'')) (\<lambda>permissions.
          and_then (optionalBoolean (field obj ''mayEscalate'')) (\<lambda>mayEscalate.
          and_then (optionalBoolean (field obj ''requiresEscalation'')) (\<lambda>requiresEscalation.
            Inr \<lparr>rq_conversationId = conversationId, rq_tenantId = tenantId, rq_storeId = storeId, rq_customerId = customerId,
              rq_text = text, rq_requestId = None, rq_permissions = permissions, rq_mayEscalate = mayEscalate,
              rq_requiresEscalation = requiresEscalation\<rparr>))))))))
      | _ \<Rightarrow> Inl Invalid_request_error)"

fun portfolio_error_response :: "portfolio_error \<Rightarrow> http_response" where
  "portfolio_error_response Request_body_too_large = send_error 413 ''request_body_too_large''"
| "portfolio_error_response Invalid_request_error = send_error 400 ''invalid_request''"
| "portfolio_error_response Internal_error = send_error 500 ''internal_error''"

definition requestPathname :: "portfolio_request \<Rightarrow> jstring" where
  "requestPathname r = (case hr_url r of None \<Rightarrow> [] | Some (path, q) \<Rightarrow> path)"

definition portfolio_handleRequest ::
  "(byte list \<Rightarrow> json option) \<Rightarrow> (support_request \<Rightarrow> 'w \<Rightarrow> 'w \<times> support_result option) \<Rightarrow> portfolio_request \<Rightarrow> 'w \<Rightarrow>
     'w \<times> http_response" where
  "portfolio_handleRequest parse runtime r w =
     (let pathname = requestPathname r in
      if pathname = js ''/healthz'' then
        (w, if hr_method r \<noteq> js ''GET'' then methodNotAllowed ''GET'' else sendJson 200 Status_ok [])
      else if pathname \<noteq> js ''/api/v1/support/respond'' then (w, send_error 404 ''not_found'')
      else if hr_method r \<noteq> js ''POST'' then (w, methodNotAllowed ''POST'')
      else (case and_then (portfolio_readJsonBody parse r) parseSupportRequest of
          Inl e \<Rightarrow> (w, portfolio_error_response e)
        | Inr request \<Rightarrow> (case runtime request w of
            (w', None) \<Rightarrow> (w', portfolio_error_response Internal_error)
          | (w', Some x) \<Rightarrow> (w', sendJson 200 (Support_body (publicSupportResult x)) []))))"

section \<open>Requests\<close>

definition well_formed_request :: "support_request \<Rightarrow> bool" where
  "well_formed_request q \<longleftrightarrow> list_all (\<lambda>s. trim s \<noteq> []) [rq_conversationId q, rq_tenantId q, rq_storeId q, rq_customerId q, rq_text q]"

lemma portfolio_requiredString_Inr: "portfolio_requiredString v = Inr s \<longleftrightarrow> v = Some (JStr s) \<and> trim s \<noteq> []"
  by (auto simp: portfolio_requiredString_def split: option.splits json.splits)

lemma parseSupportRequest_Inr:
  assumes "parseSupportRequest v = Inr q" shows "well_formed_request q \<and> rq_requestId q = None"
  using assms by (auto simp: parseSupportRequest_def and_then_Inr portfolio_requiredString_Inr well_formed_request_def split: json.splits)

text \<open>
  C28. The portfolio's server runs the agent only on a well-formed request of at most 64 KiB posted to
  its one route, once, and then answers 200 with its public result or 500 if it fails; in every
  other case the world is left alone and the answer is the status of the first check that fails.
\<close>

theorem portfolio_runs_checked_requests:
  "(\<exists>q bs. requestPathname r = js ''/api/v1/support/respond'' \<and> hr_method r = js ''POST'' \<and> bs = concat (hr_chunks r) \<and>
      length bs \<le> PORTFOLIO_JSON_BODY_LIMIT_BYTES \<and> well_formed_request q \<and>
      and_then (case parse bs of None \<Rightarrow> Inl Invalid_request_error | Some v \<Rightarrow> Inr v) parseSupportRequest = Inr q \<and>
      portfolio_handleRequest parse runtime r w = (fst (runtime q w), case snd (runtime q w) of
          None \<Rightarrow> send_error 500 ''internal_error'' | Some x \<Rightarrow> sendJson 200 (Support_body (publicSupportResult x)) [])) \<or>
    (\<exists>s b. portfolio_handleRequest parse runtime r w = (w, b) \<and> rs_status b = s \<and>
      (s = 200 \<longleftrightarrow> requestPathname r = js ''/healthz'' \<and> hr_method r = js ''GET'') \<and>
      (s = 404 \<longleftrightarrow> requestPathname r \<notin> {js ''/healthz'', js ''/api/v1/support/respond''}) \<and>
      s \<in> {200, 400, 404, 405, 413, 500})"
proof (cases "requestPathname r = js ''/api/v1/support/respond'' \<and> hr_method r = js ''POST''")
  case True
  show ?thesis
  proof (cases "and_then (portfolio_readJsonBody parse r) parseSupportRequest")
    case (Inl e)
    then have "portfolio_handleRequest parse runtime r w = (w, portfolio_error_response e)"
      using True by (simp add: portfolio_handleRequest_def Let_def)
    then show ?thesis using True by (cases e) (auto simp: send_error_def sendJson_def)
  next
    case (Inr q)
    then obtain v where v: "portfolio_readJsonBody parse r = Inr v" "parseSupportRequest v = Inr q" by (auto simp: and_then_Inr)
    then have "length (concat (hr_chunks r)) \<le> PORTFOLIO_JSON_BODY_LIMIT_BYTES" "parse (concat (hr_chunks r)) = Some v"
      by (auto simp: portfolio_readJsonBody_def Let_def split: if_splits option.splits)
    moreover have "portfolio_handleRequest parse runtime r w = (fst (runtime q w), case snd (runtime q w) of
          None \<Rightarrow> send_error 500 ''internal_error'' | Some x \<Rightarrow> sendJson 200 (Support_body (publicSupportResult x)) [])"
      using True Inr by (cases "runtime q w") (simp add: portfolio_handleRequest_def Let_def split: option.splits)
    ultimately show ?thesis using True v parseSupportRequest_Inr [OF v(2)] by (intro disjI1 exI [of _ q]) auto
  qed
next
  case False
  then show ?thesis
    by (intro disjI2) (auto simp: portfolio_handleRequest_def Let_def methodNotAllowed_def send_error_def sendJson_def)
qed

end
