(* ===== verification/RetrievalEval.thy ===== *)
theory RetrievalEval
  imports Complex_Main Prelude
begin

text \<open>
  The quality metrics of a retrieval service and their gate, \<open>src/retrieval-eval.ts\<close>. Numbers are exact rationals, the
  service gives the ordered identifiers of its evidence for a query and a scope (\<open>None\<close> when it fails, which ends the run), and \<open>collate\<close> is
  \<open>localeCompare\<close>.
\<close>

section \<open>Cases and results\<close>

datatype query_provenance = PUBLIC_REAL_CASE | HUMAN_AUTHORED | SYNTHETIC_QUERY

datatype scope_expectation = Tenant_scope | Store_scope

record quality_case =
  qc_caseId :: jstring
  qc_query :: jstring
  qc_tenantId :: jstring
  qc_storeId :: jstring
  qc_expectedAnswerable :: bool
  qc_expectedEvidenceIds :: "jstring list"
  qc_queryProvenance :: query_provenance
  qc_category :: jstring
  qc_difficulty :: jstring
  qc_scopeExpectation :: "scope_expectation option"

record quality_result =
  qr_caseId :: jstring
  qr_queryProvenance :: query_provenance
  qr_category :: jstring
  qr_difficulty :: jstring
  qr_expectedAnswerable :: bool
  qr_expectedEvidenceIds :: "jstring list"
  qr_actualEvidenceIds :: "jstring list"
  qr_top1Hit :: bool
  qr_recallAt3Hit :: bool
  qr_noAnswerRejected :: bool
  qr_wrongEvidence :: bool
  qr_unauthorizedKnowledgeExposure :: bool

record quality_metrics =
  qm_top1HitRate :: rat
  qm_recallAt3 :: rat
  qm_mrr :: rat
  qm_noAnswerCorrectRejectionRate :: rat
  qm_wrongEvidenceRate :: rat
  qm_evidencePrecision :: rat
  qm_extraneousEvidenceRate :: rat
  qm_meanReturnedEvidenceCount :: rat
  qm_crossTenantLeakageRate :: rat
  qm_crossStoreLeakageRate :: rat
  qm_unauthorizedKnowledgeExposureRate :: rat
  qm_queryProvenanceBreakdown :: "(jstring \<times> rat) list"
  qm_categoryBreakdown :: "(jstring \<times> rat) list"
  qm_difficultyBreakdown :: "(jstring \<times> rat) list"

section \<open>Metrics\<close>

definition over :: "nat \<Rightarrow> nat \<Rightarrow> rat" where
  "over a b = of_nat a / of_nat (max 1 b)"

definition rate :: "'a list \<Rightarrow> ('a \<Rightarrow> bool) \<Rightarrow> rat" where
  "rate items predicate = over (length (filter predicate items)) (length items)"

fun rank_from :: "nat \<Rightarrow> jstring list \<Rightarrow> jstring list \<Rightarrow> rat" where
  "rank_from n expected [] = 0"
| "rank_from n expected (i # is) = (if i \<in> set expected then 1 / of_nat n else rank_from (Suc n) expected is)"

definition reciprocalRank :: "quality_result \<Rightarrow> rat" where
  "reciprocalRank r = rank_from 1 (qr_expectedEvidenceIds r) (qr_actualEvidenceIds r)"

fun provenance_name :: "query_provenance \<Rightarrow> jstring" where
  "provenance_name PUBLIC_REAL_CASE = js ''PUBLIC_REAL_CASE''"
| "provenance_name HUMAN_AUTHORED = js ''HUMAN_AUTHORED''"
| "provenance_name SYNTHETIC_QUERY = js ''SYNTHETIC_QUERY''"

definition breakdown :: "(jstring \<Rightarrow> jstring \<Rightarrow> bool) \<Rightarrow> quality_result list \<Rightarrow> (quality_result \<Rightarrow> jstring) \<Rightarrow> (jstring \<times> rat) list" where
  "breakdown collate results key =
     map (\<lambda>g. (g, rate (filter (\<lambda>r. key r = g) results) (\<lambda>r. if qr_expectedAnswerable r then qr_recallAt3Hit r else qr_noAnswerRejected r)))
       (sort_by collate (rev (remdups (rev (map key results)))))"

definition case_result :: "quality_case \<Rightarrow> jstring list \<Rightarrow> quality_result" where
  "case_result c actual =
     (let expected = qc_expectedEvidenceIds c;
          top1Hit = (qc_expectedAnswerable c \<and> (case actual of [] \<Rightarrow> [] | i # _ \<Rightarrow> i) \<in> set expected);
          recallAt3Hit = (qc_expectedAnswerable c \<and> list_ex (\<lambda>i. i \<in> set expected) (take 3 actual));
          answered = (\<not> qc_expectedAnswerable c \<and> actual \<noteq> [])
      in \<lparr>qr_caseId = qc_caseId c, qr_queryProvenance = qc_queryProvenance c, qr_category = qc_category c,
          qr_difficulty = qc_difficulty c, qr_expectedAnswerable = qc_expectedAnswerable c, qr_expectedEvidenceIds = expected,
          qr_actualEvidenceIds = actual, qr_top1Hit = top1Hit, qr_recallAt3Hit = recallAt3Hit,
          qr_noAnswerRejected = (\<not> qc_expectedAnswerable c \<and> actual = []),
          qr_wrongEvidence = ((qc_expectedAnswerable c \<and> actual \<noteq> [] \<and> \<not> recallAt3Hit) \<or> answered),
          qr_unauthorizedKnowledgeExposure = answered\<rparr>)"

definition evaluate_case ::
  "(jstring \<Rightarrow> jstring \<Rightarrow> jstring \<Rightarrow> jstring list option) \<Rightarrow> quality_case \<Rightarrow> quality_result option" where
  "evaluate_case search c = map_option (case_result c) (search (qc_query c) (qc_tenantId c) (qc_storeId c))"

definition expecting :: "quality_case list \<Rightarrow> scope_expectation \<Rightarrow> quality_result \<Rightarrow> bool" where
  "expecting cases e r \<longleftrightarrow>
     (case List.find (\<lambda>c. qc_caseId c = qr_caseId r) cases of None \<Rightarrow> False | Some c \<Rightarrow> qc_scopeExpectation c = Some e)"

definition quality_of :: "(jstring \<Rightarrow> jstring \<Rightarrow> bool) \<Rightarrow> quality_case list \<Rightarrow> quality_result list \<Rightarrow> quality_metrics" where
  "quality_of collate cases results =
     (let answerable = filter qr_expectedAnswerable results;
          noAnswer = filter (\<lambda>r. \<not> qr_expectedAnswerable r) results;
          returned = concat (map qr_actualEvidenceIds answerable);
          gold = concat (map (\<lambda>r. filter (\<lambda>i. i \<in> set (qr_expectedEvidenceIds r)) (qr_actualEvidenceIds r)) answerable);
          precision = over (length gold) (length returned)
      in \<lparr>qm_top1HitRate = rate answerable qr_top1Hit, qm_recallAt3 = rate answerable qr_recallAt3Hit,
          qm_mrr = sum_list (map reciprocalRank answerable) / of_nat (max 1 (length answerable)),
          qm_noAnswerCorrectRejectionRate = rate noAnswer qr_noAnswerRejected,
          qm_wrongEvidenceRate = rate results qr_wrongEvidence, qm_evidencePrecision = precision,
          qm_extraneousEvidenceRate = 1 - precision,
          qm_meanReturnedEvidenceCount = over (length returned) (length answerable),
          qm_crossTenantLeakageRate = rate (filter (expecting cases Tenant_scope) results) (\<lambda>r. \<not> qr_noAnswerRejected r),
          qm_crossStoreLeakageRate = rate (filter (expecting cases Store_scope) results) (\<lambda>r. \<not> qr_noAnswerRejected r),
          qm_unauthorizedKnowledgeExposureRate = rate noAnswer qr_unauthorizedKnowledgeExposure,
          qm_queryProvenanceBreakdown = breakdown collate results (\<lambda>r. provenance_name (qr_queryProvenance r)),
          qm_categoryBreakdown = breakdown collate results qr_category,
          qm_difficultyBreakdown = breakdown collate results qr_difficulty\<rparr>)"

definition runRetrievalEvaluation ::
  "(jstring \<Rightarrow> jstring \<Rightarrow> bool) \<Rightarrow> (jstring \<Rightarrow> jstring \<Rightarrow> jstring \<Rightarrow> jstring list option) \<Rightarrow> quality_case list \<Rightarrow>
     (quality_result list \<times> quality_metrics) option" where
  "runRetrievalEvaluation collate search cases =
     map_option (\<lambda>results. (results, quality_of collate cases results)) (those (map (evaluate_case search) cases))"

definition isRetrievalQualityGatePassed :: "quality_metrics \<Rightarrow> bool" where
  "isRetrievalQualityGatePassed m \<longleftrightarrow>
     qm_top1HitRate m \<ge> 85 / 100 \<and> qm_recallAt3 m \<ge> 95 / 100 \<and> qm_noAnswerCorrectRejectionRate m \<ge> 95 / 100 \<and>
     qm_wrongEvidenceRate m \<le> 5 / 100 \<and> qm_crossTenantLeakageRate m = 0 \<and> qm_crossStoreLeakageRate m = 0 \<and>
     qm_unauthorizedKnowledgeExposureRate m = 0"

section \<open>Bounds\<close>

lemma over_le: "a \<le> b \<Longrightarrow> 0 \<le> over a b \<and> over a b \<le> 1"
  by (auto simp: over_def divide_le_eq_1)

lemma rate_range: "0 \<le> rate xs P \<and> rate xs P \<le> 1"
  by (simp add: rate_def over_le)

lemma over_0: "over a b = 0 \<longleftrightarrow> a = 0"
  by (simp add: over_def)

lemma rate_0: "rate xs P = 0 \<longleftrightarrow> (\<forall>x \<in> set xs. \<not> P x)"
  by (auto simp: rate_def over_0 filter_empty_conv)

lemma rate_mono: "(\<And>x. x \<in> set xs \<Longrightarrow> P x \<Longrightarrow> Q x) \<Longrightarrow> rate xs P \<le> rate xs Q"
proof -
  assume "\<And>x. x \<in> set xs \<Longrightarrow> P x \<Longrightarrow> Q x"
  then have "length (filter P xs) \<le> length (filter Q xs)"
    by (induction xs) (auto simp: le_Suc_eq)
  then show ?thesis by (simp add: rate_def over_def divide_right_mono)
qed

lemma rank_from_range: "0 < n \<Longrightarrow> 0 \<le> rank_from n e is \<and> rank_from n e is \<le> 1 / of_nat n"
proof (induction "is" arbitrary: n)
  case (Cons i "is")
  have "0 \<le> rank_from (Suc n) e is \<and> rank_from (Suc n) e is \<le> 1 / of_nat (Suc n)" by (rule Cons.IH) simp
  moreover have "1 / of_nat (Suc n) \<le> (1 :: rat) / of_nat n" using Cons.prems by (intro divide_left_mono) simp_all
  moreover have "0 \<le> (1 :: rat) / of_nat n" by simp
  ultimately have "0 \<le> rank_from (Suc n) e is \<and> rank_from (Suc n) e is \<le> 1 / of_nat n" by (meson order_trans)
  then show ?case by simp
qed simp

text \<open>The rank counts in full exactly for a hit at the top, and at most a quarter for one behind the third place.\<close>

lemma reciprocalRank_hits:
  assumes "r = case_result c actual" and "qr_expectedAnswerable r" and "[] \<notin> set (qr_expectedEvidenceIds r)"
  shows "(if qr_top1Hit r then 1 else 0) \<le> reciprocalRank r \<and> reciprocalRank r \<le> (if qr_recallAt3Hit r then 1 else 1 / 4)"
proof -
  define ids where "ids = qr_actualEvidenceIds r"
  define e where "e = qr_expectedEvidenceIds r"
  have f: "qr_top1Hit r \<longleftrightarrow> (case ids of [] \<Rightarrow> [] | i # _ \<Rightarrow> i) \<in> set e" "qr_recallAt3Hit r \<longleftrightarrow> list_ex (\<lambda>i. i \<in> set e) (take 3 ids)"
    using assms(1,2) by (simp_all add: case_result_def Let_def ids_def e_def)
  have rr: "reciprocalRank r = rank_from 1 e ids" by (simp add: reciprocalRank_def ids_def e_def)
  have "qr_top1Hit r \<Longrightarrow> rank_from 1 e ids = 1" using f(1) assms(3) by (cases ids) (auto simp: e_def [symmetric])
  moreover have "\<not> list_ex (\<lambda>i. i \<in> set e) (take 3 ids) \<Longrightarrow> rank_from 1 e ids \<le> 1 / 4"
  proof -
    assume no: "\<not> list_ex (\<lambda>i. i \<in> set e) (take 3 ids)"
    have "rank_from 1 e ids = rank_from 4 e (drop 3 ids)"
    proof (cases "\<exists>a b c is. ids = a # b # c # is")
      case True
      then show ?thesis using no by (auto simp: numeral_eq_Suc)
    next
      case False
      then have "drop 3 ids = []" "\<forall>i \<in> set ids. i \<notin> set e"
        using no by (cases ids rule: remdups_adj.cases; cases "tl (tl ids)"; auto simp: numeral_eq_Suc)+
      moreover have "\<forall>i \<in> set ids. i \<notin> set e \<Longrightarrow> rank_from n e ids = 0" for n by (induction ids arbitrary: n) auto
      ultimately show ?thesis by simp
    qed
    then show ?thesis using rank_from_range [of 4 e "drop 3 ids"] by simp
  qed
  ultimately show ?thesis using rank_from_range [of 1 e ids] by (auto simp: rr f(2))
qed

text \<open>What a passed gate says of the service: the rates that must be zero are zero only when every case counted in them is
  rejected, and the rejection rate of an empty list of no-answer cases is zero, so that both kinds of cases are present.\<close>

lemma those_map: "those (map f xs) = Some ys \<longleftrightarrow> list_all2 (\<lambda>x y. f x = Some y) xs ys"
  by (induction xs arbitrary: ys) (auto split: option.splits simp: list_all2_Cons1)

lemma evaluated_case:
  assumes "runRetrievalEvaluation collate search cases = Some (results, m)" and "c \<in> set cases"
  shows "\<exists>found. search (qc_query c) (qc_tenantId c) (qc_storeId c) = Some found \<and> case_result c found \<in> set results"
proof -
  have l: "list_all2 (\<lambda>c r. evaluate_case search c = Some r) cases results"
    using assms(1) by (auto simp: runRetrievalEvaluation_def those_map)
  then show ?thesis using assms(2) by (induction) (auto simp: evaluate_case_def)
qed

lemma gate_empty: "rate [] P = 0"
  by (simp add: rate_def over_def)

lemma evaluated_list:
  assumes "runRetrievalEvaluation collate search cases = Some (results, m)"
  shows "m = quality_of collate cases results \<and> map qr_caseId results = map qc_caseId cases \<and>
    (\<forall>r \<in> set results. \<exists>c \<in> set cases. qr_caseId r = qc_caseId c \<and> qr_expectedAnswerable r = qc_expectedAnswerable c)"
proof -
  have l: "list_all2 (\<lambda>c r. evaluate_case search c = Some r) cases results" and m: "m = quality_of collate cases results"
    using assms by (auto simp: runRetrievalEvaluation_def those_map)
  from l have "map qr_caseId results = map qc_caseId cases \<and>
    (\<forall>r \<in> set results. \<exists>c \<in> set cases. qr_caseId r = qc_caseId c \<and> qr_expectedAnswerable r = qc_expectedAnswerable c)"
    by (induction) (auto simp: evaluate_case_def case_result_def Let_def)
  with m show ?thesis by simp
qed

theorem quality_gate_sound:
  assumes run: "runRetrievalEvaluation collate search cases = Some (results, m)" and gate: "isRetrievalQualityGatePassed m"
    and ids: "distinct (map qc_caseId cases)"
  shows "(\<forall>c \<in> set cases. \<not> qc_expectedAnswerable c \<or> qc_scopeExpectation c \<noteq> None \<longrightarrow>
      \<not> qc_expectedAnswerable c \<and> search (qc_query c) (qc_tenantId c) (qc_storeId c) = Some []) \<and>
    (\<exists>c \<in> set cases. qc_expectedAnswerable c) \<and> (\<exists>c \<in> set cases. \<not> qc_expectedAnswerable c)"
proof -
  note ev = evaluated_list [OF run]
  let ?yes = "filter qr_expectedAnswerable results" and ?no = "filter (\<lambda>r. \<not> qr_expectedAnswerable r) results"
  have rates: "rate ?yes qr_recallAt3Hit \<ge> 95 / 100" "rate ?no qr_noAnswerRejected \<ge> 95 / 100"
    "rate ?no qr_unauthorizedKnowledgeExposure = 0"
    "rate (filter (expecting cases x) results) (\<lambda>r. \<not> qr_noAnswerRejected r) = 0" for x
    using gate ev by (cases x; simp add: isRetrievalQualityGatePassed_def quality_of_def Let_def)+
  have present: "xs \<noteq> []" if "rate xs P \<ge> 95 / 100" for xs :: "quality_result list" and P
    using that by (auto simp: gate_empty)
  have "?yes \<noteq> []" "?no \<noteq> []" using present [OF rates(1)] present [OF rates(2)] by blast+
  then have both: "(\<exists>c \<in> set cases. qc_expectedAnswerable c) \<and> (\<exists>c \<in> set cases. \<not> qc_expectedAnswerable c)"
    using ev by (force simp: filter_empty_conv)
  have "\<not> qc_expectedAnswerable c \<and> search (qc_query c) (qc_tenantId c) (qc_storeId c) = Some []"
    if c: "c \<in> set cases" and why: "\<not> qc_expectedAnswerable c \<or> qc_scopeExpectation c \<noteq> None" for c
  proof -
    obtain found where f: "search (qc_query c) (qc_tenantId c) (qc_storeId c) = Some found" "case_result c found \<in> set results"
      using evaluated_case [OF run c] by blast
    let ?r = "case_result c found"
    have r: "qr_caseId ?r = qc_caseId c" "qr_expectedAnswerable ?r = qc_expectedAnswerable c"
      "qr_noAnswerRejected ?r \<longleftrightarrow> \<not> qc_expectedAnswerable c \<and> found = []"
      "qr_unauthorizedKnowledgeExposure ?r \<longleftrightarrow> \<not> qc_expectedAnswerable c \<and> found \<noteq> []"
      by (simp_all add: case_result_def Let_def)
    show ?thesis
    proof (cases "qc_scopeExpectation c")
      case None
      then show ?thesis using why rates(3) f r unfolding rate_0 by auto
    next
      case (Some x)
      have "List.find (\<lambda>d. qc_caseId d = qc_caseId c) cases = Some c"
        using c ids by (induction cases) force+
      then have "expecting cases x ?r" using Some r by (simp add: expecting_def)
      then show ?thesis using rates(4) [of x] f r unfolding rate_0 by auto
    qed
  qed
  with both show ?thesis by blast
qed

end
