(* ===== verification/RuntimeGrounding.thy ===== *)
theory RuntimeGrounding
  imports RuntimeProps
begin

text \<open>
  What the answers of a support turn rest on. \<open>supplied\<close> says which piece of knowledge a step of the turn brings in: the
  only admissible one of a reply of the retrieval service, or a matching admissible FAQ entry. The invariant
  \<open>grounding_ok\<close> carries that origin to the evidence the turn keeps, cached checks included, and \<open>answers_ok\<close> to the
  result that the turn returns.
\<close>

section \<open>Where evidence comes from\<close>

text \<open>Knowledge that may answer a request: approved, or synthetic where tests allow it, and of no other tenant or store.\<close>

definition may_answer :: "'b runtime_options \<Rightarrow> support_request \<Rightarrow> evidence \<Rightarrow> bool" where
  "may_answer opts r e \<longleftrightarrow> (\<exists>k. ev_knowledge e = Some k \<and>
     (km_status k = approved \<or> op_allowSynthetic opts \<and> km_status k = synthetic_test_only) \<and>
     km_tenantScope k \<in> {None, Some (rq_tenantId r)} \<and> km_storeScope k \<in> {None, Some (rq_storeId r)})"

lemma admits_may_answer: "admits opts r e \<longleftrightarrow> may_answer opts r e"
  by (cases "ev_knowledge e")
    (auto simp: admits_def may_answer_def admissible_iff scope_allows_iff request_context_def isAdmissibleKnowledgeEvidence_def)

lemma admits_may_answer_fun: "admits opts r = may_answer opts r"
  by (rule ext) (rule admits_may_answer)

text \<open>The evidence objects of a retrieval reply, when the step is one.\<close>

fun retrieved :: "turn_event \<Rightarrow> nat list option" where
  "retrieved (Ev_policy_settle i found now) = found"
| "retrieved (Ev_knowledge_settle i found now) = found"
| "retrieved _ = None"

definition supplied :: "'b runtime_options \<Rightarrow> support_request \<Rightarrow> 'b turn \<Rightarrow> turn_event \<Rightarrow> evidence \<Rightarrow> bool" where
  "supplied opts r u ev e \<longleftrightarrow>
     (\<exists>found. retrieved ev = Some found \<and> filter (may_answer opts r) (map (tn_heap u) found) = [e]) \<or>
     (\<exists>q now f. ev = Ev_run (Call_search_faq q) now \<and> f \<in> set (op_faq opts) \<and>
        (contains q (fq_question f) \<or> contains (fq_question f) q) \<and> e = faq_evidence f \<and> may_answer opts r e)"

text \<open>In the course of a run from \<open>t0\<close>: the evidence supplied, and the safety evidence of the retrieval replies.\<close>

definition supplied_in ::
  "'b runtime_options \<Rightarrow> support_request \<Rightarrow> 'b turn \<Rightarrow> turn_event list \<Rightarrow> evidence \<Rightarrow> bool" where
  "supplied_in opts r t0 es e \<longleftrightarrow> (\<exists>es1 ev es2 u. es = es1 @ ev # es2 \<and> turn_run opts es1 t0 = Some u \<and> supplied opts r u ev e)"

definition safety_in :: "'b runtime_options \<Rightarrow> 'b turn \<Rightarrow> turn_event list \<Rightarrow> safety_evidence list \<Rightarrow> bool" where
  "safety_in opts t0 es vs \<longleftrightarrow> vs = [] \<or> (\<exists>es1 ev es2 u found. es = es1 @ ev # es2 \<and> turn_run opts es1 t0 = Some u \<and>
     retrieved ev = Some found \<and> vs = List.map_filter ev_safety (map (tn_heap u) found))"

lemma supplied_in_snoc:
  "supplied_in opts r t0 es e \<Longrightarrow> supplied_in opts r t0 (es @ [ev]) e"
  "turn_run opts es t0 = Some u \<Longrightarrow> supplied opts r u ev e \<Longrightarrow> supplied_in opts r t0 (es @ [ev]) e"
  unfolding supplied_in_def by (metis append_Cons append_assoc, metis append_Nil)

lemma safety_in_snoc:
  "safety_in opts t0 es vs \<Longrightarrow> safety_in opts t0 (es @ [ev]) vs"
  "turn_run opts es t0 = Some u \<Longrightarrow> retrieved ev = Some found \<Longrightarrow>
    safety_in opts t0 (es @ [ev]) (List.map_filter ev_safety (map (tn_heap u) found))"
  unfolding safety_in_def by (metis append_Cons append_assoc, metis append_Nil)

lemma turn_run_snoc:
  "turn_run opts (es @ [ev]) t0 = (case turn_run opts es t0 of None \<Rightarrow> None | Some u \<Rightarrow> turn_step opts ev u)"
  by (induction es arbitrary: t0) (auto split: option.split)

section \<open>The invariant of the evidence\<close>

text \<open>At most one piece of evidence grounds an answer, and it was supplied (\<open>P\<close>), like the safety evidence (\<open>Q\<close>).\<close>

definition single :: "(evidence \<Rightarrow> bool) \<Rightarrow> evidence list \<Rightarrow> bool" where
  "single P es \<longleftrightarrow> length es \<le> 1 \<and> (\<forall>e \<in> set es. P e)"

definition grounding_ok ::
  "support_request \<Rightarrow> (evidence \<Rightarrow> bool) \<Rightarrow> (safety_evidence list \<Rightarrow> bool) \<Rightarrow> 'b turn \<Rightarrow> bool" where
  "grounding_ok r P Q t \<longleftrightarrow> tn_request t = r \<and> single P (tn_groundingEvidence t) \<and>
     (tn_verifiedKnowledgeEvidence t \<longleftrightarrow> tn_groundingEvidence t \<noteq> []) \<and>
     (tn_deadlineEvidenceEligible t \<longrightarrow> tn_timedOut t \<and> tn_groundingEvidence t \<noteq> []) \<and>
     (\<forall>c \<in> set (map_values (tn_completedChecks t)). single P (sn_evidence c)) \<and> Q (tn_safetyEvidence t)"

lemma single_simps [simp]:
  "single P []" "single P [e] \<longleftrightarrow> P e"
  by (simp_all add: single_def)

lemma single_mono: "single P es \<Longrightarrow> (\<And>e. P e \<Longrightarrow> P' e) \<Longrightarrow> single P' es"
  by (auto simp: single_def)

lemma grounding_ok_mono:
  "grounding_ok r P Q t \<Longrightarrow> (\<And>e. P e \<Longrightarrow> P' e) \<Longrightarrow> (\<And>vs. Q vs \<Longrightarrow> Q' vs) \<Longrightarrow> grounding_ok r P' Q' t"
  unfolding grounding_ok_def using single_mono [of P _ P'] by blast

definition grounding where
  "grounding t = (tn_request t, tn_groundingEvidence t, length (tn_groundingSources t),
     tn_verifiedKnowledgeEvidence t, map_values (tn_completedChecks t), tn_timedOut t,
     tn_deadlineEvidenceEligible t, tn_safetyEvidence t)"

lemma grounding_ok_cong: "grounding t = grounding t' \<Longrightarrow> grounding_ok r P Q t = grounding_ok r P Q t'"
  by (simp add: grounding_def grounding_ok_def)

lemma grounding_ok_checkDeadline:
  assumes "grounding_ok r P Q t"
  shows "grounding_ok r P Q (expireTurn t)" and "grounding_ok r P Q (checkDeadline now t)"
proof -
  show "grounding_ok r P Q (expireTurn t)"
    using assms by (auto simp: expireTurn_def grounding_ok_def)
  with assms show "grounding_ok r P Q (checkDeadline now t)" by (simp add: checkDeadline_def)
qed

lemma grounding_basic [simp]:
  "grounding (onEscalate t) = grounding t" "grounding (onNoKnowledgeEvidence t) = grounding t"
  "grounding (set_status i st t) = grounding t" "grounding (failTool t) = grounding t"
  by (simp_all add: grounding_def step_defs)

lemma grounding_updates [simp]:
  "grounding (t\<lparr>tn_activeTools := x2\<rparr>) = grounding t"
  "grounding (t\<lparr>tn_toolCalls := x3\<rparr>) = grounding t" "grounding (t\<lparr>tn_limitReached := x4\<rparr>) = grounding t"
  "grounding (t\<lparr>tn_toolsCalled := x5\<rparr>) = grounding t" "grounding (t\<lparr>tn_heap := x6\<rparr>) = grounding t"
  "grounding (t\<lparr>tn_promptStarted := x7\<rparr>) = grounding t" "grounding (t\<lparr>tn_awaiting := x8\<rparr>) = grounding t"
  "grounding (t\<lparr>tn_granted := x9\<rparr>) = grounding t" "grounding (t\<lparr>tn_store := x10\<rparr>) = grounding t"
  "grounding (t\<lparr>tn_business := x11\<rparr>) = grounding t" "grounding (t\<lparr>tn_ticketsSettling := x12\<rparr>) = grounding t"
  "grounding (t\<lparr>tn_handoffsSettling := x13\<rparr>) = grounding t" "grounding (t\<lparr>tn_reservedHandoff := x14\<rparr>) = grounding t"
  "grounding (t\<lparr>tn_reservedTicketKeys := x15\<rparr>) = grounding t"
  "grounding (t\<lparr>tn_knowledgeChecks := x16\<rparr>) = grounding t" "grounding (t\<lparr>tn_phase := x17\<rparr>) = grounding t"
  "grounding (t\<lparr>tn_escalationRequested := x18\<rparr>) = grounding t"
  by (simp_all add: grounding_def)

lemma grounding_effects [simp]:
  "grounding (createBusinessTicket opts x k t) = grounding t"
  "grounding (fst (callHandoff opts x t)) = grounding t"
  "grounding (settleTicket y t) = grounding t" "grounding (settleHandoff z t) = grounding t"
  "grounding (persistEvent e t) = grounding t" "grounding (fst (shouldStopAfterTurn opts t)) = grounding t"
  "grounding (fst (reserveCall opts call t)) = grounding t"
  by (simp_all add: createBusinessTicket_def callHandoff_def settleTicket_def settleHandoff_def
      persistEvent_def Let_def shouldStopAfterTurn_def reserveCall_def grounding_def
      split: option.split prod.split sum.split agent_event.split tool_call.split bool.split)
    (simp_all add: grounding_def [symmetric] step_defs)?

lemma grounding_ok_beforeToolCall:
  assumes "grounding_ok r P Q t"
  shows "grounding_ok r P Q (fst (beforeToolCall opts now call t))"
proof -
  have "grounding (fst (beforeToolCall opts now call t)) = grounding (checkDeadline now t)"
    by (simp add: beforeToolCall_def Let_def split: tool_call.split)
  from grounding_ok_cong [OF this] show ?thesis using grounding_ok_checkDeadline(2) [OF assms] by blast
qed

lemma grounding_ok_start: "Q [] \<Longrightarrow> grounding_ok r P Q (startTurn opts r s b h ms now)"
  by (simp add: grounding_ok_def startTurn_def single_def)

lemma grounding_createBusinessHandoff [simp]: "grounding (createBusinessHandoff opts x t) = grounding t"
proof -
  obtain u a where u: "callHandoff opts x t = (u, a)" by fastforce
  then have "grounding u = grounding t" using grounding_effects(2) [of opts x t] by simp
  then show ?thesis by (simp add: createBusinessHandoff_def u split: option.split)
qed

lemma grounding_ok_searchFaq:
  assumes "grounding_ok r P Q t" and "\<And>e. findAdmittedFaq opts r q = Some e \<Longrightarrow> P e"
  shows "grounding_ok r P Q (searchFaq opts q t)"
proof (cases "findAdmittedFaq opts (tn_request t) q")
  case None
  then show ?thesis
    using assms(1) grounding_ok_cong [OF grounding_basic(2) [of t], of r P Q] by (simp add: searchFaq_def)
next
  case (Some e)
  have "tn_request t = r" using assms(1) by (simp add: grounding_ok_def)
  then have "admits opts (tn_request t) e" "P e"
    using Some assms(2) by (auto simp: findAdmittedFaq_def dest: find_Some_iff' [THEN conjunct1])
  with Some show ?thesis
    using assms(1)
    by (auto simp: searchFaq_def onKnowledgeEvidence_def ground_def values_of_def grounding_ok_def)
qed

lemma grounding_ok_routing:
  assumes "grounding_ok r P Q t" and "\<not> tn_timedOut t" and "single P (values_of t ss)"
  shows "grounding_ok r P Q (onOrdinaryKnowledgeRouting now q ss ro t)"
  using assms
  by (cases ss) (auto simp: onOrdinaryKnowledgeRouting_def ground_def Let_def grounding_ok_def single_def values_of_def)

lemma grounding_ok_searchKnowledge:
  assumes "grounding_ok r P Q t" and "\<not> tn_timedOut t"
    and "\<And>e. filter (admits opts r) (map (tn_heap t) found) = [e] \<Longrightarrow> P e"
    and "Q (List.map_filter ev_safety (map (tn_heap t) found))"
  shows "grounding_ok r P Q (searchKnowledge opts now q found t)"
proof -
  let ?t = "onSafetyEvidence q (map (tn_heap t) found) t"
  let ?adm = "filter (\<lambda>n. admits opts (tn_request t) (tn_heap t n)) found"
  let ?auth = "if length ?adm = 1 then map Shared ?adm else []"
  have req: "tn_request t = r" using assms by (simp add: grounding_ok_def)
  have "grounding_ok r P Q ?t" using assms(1,4) by (simp add: grounding_ok_def onSafetyEvidence_def)
  moreover have "single P (values_of ?t ?auth)"
  proof (cases "length ?adm = 1")
    case True
    then obtain n where n: "?adm = [n]" by (auto simp: length_Suc_conv)
    then have "filter (admits opts r) (map (tn_heap t) found) = [tn_heap t n]" using req by (simp add: filter_map comp_def)
    with n assms(3) show ?thesis by (simp add: values_of_def onSafetyEvidence_def)
  qed (simp add: values_of_def)
  moreover have "searchKnowledge opts now q found t =
      onOrdinaryKnowledgeRouting now q ?auth (route (map (tn_heap t) ?adm)) ?t"
    by (simp add: searchKnowledge_def Let_def onSafetyEvidence_def)
  moreover have "\<not> tn_timedOut ?t" using assms(2) by (simp add: onSafetyEvidence_def)
  ultimately show ?thesis using grounding_ok_routing by metis
qed

lemma grounding_ok_beginKnowledge:
  assumes "grounding_ok r P Q t"
  shows "grounding_ok r P Q (started_turn (beginKnowledge now og q t))"
proof -
  let ?t = "checkDeadline now t"
  have ok: "grounding_ok r P Q ?t" using assms by (rule grounding_ok_checkDeadline)
  show ?thesis
  proof (cases "map_get (tn_completedChecks ?t) q")
    case None
    then show ?thesis
      using ok grounding_ok_cong [OF grounding_updates(15) [where t = ?t], of r P Q]
      by (simp add: beginKnowledge_def Let_def)
  next
    case (Some c)
    then have "c \<in> set (map_values (tn_completedChecks ?t))"
      by (metis map_of_SomeD image_eqI list.set_map snd_conv)
    then have "single P (sn_evidence c)" using ok unfolding grounding_ok_def by blast
    then show ?thesis
      using ok Some
      by (cases "sn_evidence c") (auto simp: beginKnowledge_def Let_def ground_def grounding_ok_def single_def)
  qed
qed

text \<open>What a retrieval reply must satisfy.\<close>

definition reply_ok ::
  "'b runtime_options \<Rightarrow> support_request \<Rightarrow> (evidence \<Rightarrow> bool) \<Rightarrow> (safety_evidence list \<Rightarrow> bool) \<Rightarrow> 'b turn \<Rightarrow> nat list option \<Rightarrow> bool" where
  "reply_ok opts r P Q t found \<longleftrightarrow> (\<forall>refs. found = Some refs \<longrightarrow>
     (\<forall>e. filter (admits opts r) (map (tn_heap t) refs) = [e] \<longrightarrow> P e) \<and>
     Q (List.map_filter ev_safety (map (tn_heap t) refs)))"

lemma grounding_ok_settleKnowledge:
  assumes "grounding_ok r P Q t" and "reply_ok opts r P Q t found"
  shows "grounding_ok r P Q (fst (settleKnowledge opts i q found now t))"
proof (cases "found = None \<or> tn_timedOut t")
  case True
  then show ?thesis
    using assms(1) grounding_ok_cong [OF grounding_basic(3) [of i Failed t], of r P Q]
    by (auto simp: settleKnowledge_def Let_def split: option.split)
next
  case False
  then obtain refs where refs: "found = Some refs" by (cases found) auto
  let ?u = "checkDeadline now (searchKnowledge opts now q refs t)"
  have u: "grounding_ok r P Q ?u"
    using grounding_ok_searchKnowledge [OF assms(1)] assms(2) refs False
    by (intro grounding_ok_checkDeadline) (simp add: reply_ok_def)
  have st: "grounding_ok r P Q (set_status i st ?u)" for st
    using u grounding_ok_cong [OF grounding_basic(3)] by blast
  have cached: "grounding_ok r P Q (v\<lparr>tn_completedChecks := AList.update q
      \<lparr>sn_sources = ss, sn_evidence = tn_groundingEvidence v, sn_routing = ro\<rparr> (tn_completedChecks v)\<rparr>)"
    if "grounding_ok r P Q v" for v ss ro
    using that set_values_update [of _ q _ "tn_completedChecks v"]
    unfolding grounding_ok_def by fastforce
  show ?thesis
    using u st [of Failed] st [of Completed] cached [OF st [of Completed]] refs False
    by (simp add: settleKnowledge_def Let_def)
qed

lemma grounding_ok_failTool [simp]: "grounding_ok r P Q (failTool t) = grounding_ok r P Q t"
  by (rule grounding_ok_cong) simp

lemma grounding_ok_active [simp]:
  "grounding_ok r P Q (t\<lparr>tn_activeTools := n\<rparr>) = grounding_ok r P Q t"
  by (rule grounding_ok_cong) simp

lemma grounding_ok_policySettle:
  assumes "grounding_ok r P Q t" and "reply_ok opts r P Q t found"
  shows "grounding_ok r P Q (policySettle opts i q found now t)"
  using grounding_ok_settleKnowledge [OF assms, of i q now]
  by (cases "settleKnowledge opts i q found now t") (simp add: policySettle_def)

lemma grounding_ok_policyCheck:
  assumes "grounding_ok r P Q t"
  shows "grounding_ok r P Q (policyCheck opts now t)"
proof -
  have b: "grounding_ok r P Q u" if "beginKnowledge now og q v = c" "started_turn c = u" "grounding_ok r P Q v"
    for og q c u v
    using grounding_ok_beginKnowledge [OF that(3), of now og q] that(1,2) by simp
  have v: "grounding_ok r P Q (t\<lparr>tn_toolCalls := n\<rparr>)"
    "grounding_ok r P Q (t\<lparr>tn_toolCalls := n, tn_limitReached := l\<rparr>)"
    "grounding_ok r P Q (t\<lparr>tn_toolCalls := n, tn_toolsCalled := cs, tn_activeTools := a\<rparr>)" for n l cs a
    using assms by (simp_all add: grounding_ok_def)
  show ?thesis
    using assms v by (auto simp: policyCheck_def Let_def split: check_start.split dest: b)
qed

lemma grounding_finish [simp]:
  "grounding (finish opts info d m x t) = grounding t" "grounding (answer_with opts info d m y t) = grounding t"
  "grounding (escalated opts info m d' t) = grounding t" "grounding (recordAudited ops z p t) = grounding t"
  by (simp_all add: escalated_def answer_with_def finish_def recordAudited_def Let_def grounding_def
      split: prod.split sum.split)

lemma grounding_safetyHandoff [simp]: "grounding (safetyHandoff opts info m d t) = grounding t"
proof -
  have call: "grounding u = grounding v" if "callHandoff opts x v = (u, a)" for x u v a
    using grounding_effects(2) [of opts x v] that by simp
  show ?thesis by (auto simp: safetyHandoff_def split: prod.split bool.split dest!: call)
qed

lemma grounding_safetyHandedOff [simp]: "grounding (safetyHandedOff opts info m d a t) = grounding t"
  by (simp add: safetyHandedOff_def split: option.split)

lemma grounding_conclude [simp]: "grounding (conclude opts info m t) = grounding t"
  by (simp add: conclude_def Let_def split: option.split disposition.split)

lemma find_Some_in: "List.find p xs = Some x \<Longrightarrow> x \<in> set xs \<and> p x"
  by (induction xs) (auto split: if_splits)

lemma turn_step_grounding_ok:
  assumes ok: "grounding_ok r P Q t" and step: "turn_step opts ev t = Some t'"
    and new: "\<And>e. supplied opts r t ev e \<Longrightarrow> P e"
    and safety: "\<And>found. retrieved ev = Some found \<Longrightarrow> Q (List.map_filter ev_safety (map (tn_heap t) found))"
  shows "grounding_ok r P Q t'"
proof -
  have same: ?thesis if "grounding t' = grounding t" using grounding_ok_cong [OF that] ok by blast
  have granted: "grounding_ok r P Q (t\<lparr>tn_granted := g\<rparr>)" for g using ok by (simp add: grounding_ok_def)
  have reply: "reply_ok opts r P Q t (retrieved ev)"
    using new safety by (auto simp: reply_ok_def supplied_def admits_may_answer_fun)
  show ?thesis
  proof (cases ev)
    case (Ev_policy_settle i found now)
    then show ?thesis using step reply grounding_ok_policySettle [OF ok] by (auto simp: turn_step_def split: if_splits)
  next
    case (Ev_knowledge_settle i found now)
    then show ?thesis using step reply grounding_ok_settleKnowledge [OF ok] by (auto simp: turn_step_def split: if_splits)
  next
    case (Ev_before call now)
    obtain u d where u: "beforeToolCall opts now call t = (u, d)" by fastforce
    then have "grounding_ok r P Q u" using grounding_ok_beforeToolCall [OF ok, of opts now call] by simp
    then have "grounding_ok r P Q (u\<lparr>tn_awaiting := a\<rparr>)" "grounding_ok r P Q (u\<lparr>tn_granted := a\<rparr>)"
      "grounding_ok r P Q u" for a
      by (simp_all add: grounding_ok_def)
    then show ?thesis
      using step Ev_before u by (auto simp: turn_step_def split: if_splits option.splits bool.splits)
  next
    case (Ev_reserve call)
    obtain u d where u: "reserveCall opts call (t\<lparr>tn_awaiting := remove1 call (tn_awaiting t)\<rparr>) = (u, d)" by fastforce
    then have "grounding u = grounding t"
      using grounding_effects(7) [of opts call "t\<lparr>tn_awaiting := remove1 call (tn_awaiting t)\<rparr>"] by simp
    then show ?thesis
      using step Ev_reserve u same by (auto simp: turn_step_def split: if_splits bool.splits)
  next
    case (Ev_run call now)
    let ?u = "t\<lparr>tn_granted := remove1 call (tn_granted t)\<rparr>"
    have t': "t' = runTool opts call now ?u" using step Ev_run by (auto simp: turn_step_def split: if_splits)
    show ?thesis
    proof (cases call)
      case (Call_search_faq q)
      have "P e" if f: "findAdmittedFaq opts r q = Some e" for e
      proof -
        have "supplied opts r t ev e"
          using f Ev_run Call_search_faq by (auto simp: findAdmittedFaq_def supplied_def admits_may_answer dest!: find_Some_in)
        then show ?thesis by (rule new)
      qed
      then show ?thesis using t' Call_search_faq grounding_ok_searchFaq [OF granted] by (simp add: runTool_def)
    next
      case (Call_search_knowledge q)
      then show ?thesis using t' grounding_ok_beginKnowledge [OF granted] by (simp add: runTool_def)
    next
      case (Call_create_ticket x y)
      then show ?thesis using t' by (intro same) (simp add: runTool_def)
    next
      case (Call_handoff x)
      then show ?thesis using t' by (intro same) (simp add: runTool_def split: option.split)
    qed
  next
    case (Ev_safety_handoff now)
    then show ?thesis using step by (intro same) (auto simp: turn_step_def split: turn_phase.splits)
  next
    case Ev_audit
    then show ?thesis using step by (intro same) (auto simp: turn_step_def split: turn_phase.splits option.splits)
  qed (use step same grounding_ok_checkDeadline [OF ok] in \<open>auto simp: turn_step_def split: if_splits\<close>)
qed

lemma run_grounding_ok:
  assumes "turn_run opts es t0 = Some t" and "\<And>P Q. Q [] \<Longrightarrow> grounding_ok r P Q t0"
  shows "grounding_ok r (supplied_in opts r t0 es) (safety_in opts t0 es) t"
  using assms(1)
proof (induction es arbitrary: t rule: rev_induct)
  case Nil
  have "safety_in opts t0 [] []" by (simp add: safety_in_def)
  from assms(2) [of "safety_in opts t0 []", OF this] show ?case using Nil by simp
next
  case (snoc ev es)
  then obtain u where u: "turn_run opts es t0 = Some u" "turn_step opts ev u = Some t"
    by (auto simp: turn_run_snoc split: option.splits)
  have "grounding_ok r (supplied_in opts r t0 (es @ [ev])) (safety_in opts t0 (es @ [ev])) u"
    using snoc.IH [OF u(1)] supplied_in_snoc(1) safety_in_snoc(1) by (rule grounding_ok_mono)
  then show ?case
    using u(2) by (rule turn_step_grounding_ok) (blast intro: supplied_in_snoc(2) safety_in_snoc(2) u(1))+
qed

lemma start_grounding_ok: "Q [] \<Longrightarrow> grounding_ok r P Q (policyCheck opts now (startTurn opts r s b h ms now))"
  by (intro grounding_ok_policyCheck grounding_ok_start)

lemma grounded_answer:
  assumes "grounding_ok r P Q t" and "tn_groundingEvidence t \<noteq> []"
  shows "\<exists>e. P e \<and> groundedText t = ev_text e \<and>
    groundingReferences t = (case groundingReference e of None \<Rightarrow> [] | Some g \<Rightarrow> [g])"
proof -
  obtain e where e: "tn_groundingEvidence t = [e]"
    using assms by (cases "tn_groundingEvidence t") (auto simp: grounding_ok_def single_def)
  then show ?thesis
    using assms(1)
    by (intro exI [of _ e])
      (auto simp: grounding_ok_def groundedText_def groundingReferences_def List.map_filter_simps split: option.split)
qed

section \<open>The results\<close>

text \<open>
  What an answer may be: knowledge that was supplied, a supported safety decision on safety evidence that was
  retrieved, harmless text of the model, or a fixed text of the real policy.
\<close>

definition outcome_ok ::
  "support_request \<Rightarrow> (evidence \<Rightarrow> bool) \<Rightarrow> (safety_evidence list \<Rightarrow> bool) \<Rightarrow> (message option \<Rightarrow> bool) \<Rightarrow>
     jstring \<Rightarrow> grounding_reference list \<Rightarrow> bool" where
  "outcome_ok r P Q M text refs \<longleftrightarrow>
     (\<exists>e. P e \<and> text = ev_text e \<and> refs = (case groundingReference e of None \<Rightarrow> [] | Some g \<Rightarrow> [g])) \<or>
     (\<exists>risk vs. detectSafetyRisk (rq_text r) = Some risk \<and> Q vs \<and>
        sd_disposition (decideSafety risk vs False (js ''pause'')) = Supported \<and>
        text = formatSafetySupportedResponse (sd_options (decideSafety risk vs False (js ''pause''))) \<and> refs = []) \<or>
     (\<exists>m. M m \<and> text = textFromMessage m \<and> refs = [] \<and> text \<noteq> [] \<and> \<not> contains (js ''<tool'') text \<and>
        \<not> contains (js ''system prompt'') text \<and> \<not> hasSupportFactualClaim text \<and> \<not> hasUnsafeSideEffectPromise text)"

definition answers_ok ::
  "'b runtime_options \<Rightarrow> support_request \<Rightarrow> (evidence \<Rightarrow> bool) \<Rightarrow> (safety_evidence list \<Rightarrow> bool) \<Rightarrow> (message option \<Rightarrow> bool) \<Rightarrow>
     'b turn \<Rightarrow> bool" where
  "answers_ok opts r P Q M t \<longleftrightarrow> (\<forall>res p. tn_phase t \<in> {Run_returned res, Awaiting_audit res p} \<longrightarrow> sr_type res = Answer \<longrightarrow>
     outcome_ok r P Q M (sr_text res) (sr_evidence res) \<or>
     (op_realPolicy opts \<and> sr_evidence res = [] \<and> sr_text res \<in> {text_ticket, text_greeting}))"

lemma outcome_ok_mono:
  assumes "outcome_ok r P Q M text refs" and "\<And>e. P e \<Longrightarrow> P' e" and "\<And>vs. Q vs \<Longrightarrow> Q' vs" and "\<And>m. M m \<Longrightarrow> M' m"
  shows "outcome_ok r P' Q' M' text refs"
  using assms unfolding outcome_ok_def by blast

lemma answers_ok_mono:
  assumes "answers_ok opts r P Q M t" and "\<And>e. P e \<Longrightarrow> P' e" and "\<And>vs. Q vs \<Longrightarrow> Q' vs" and "\<And>m. M m \<Longrightarrow> M' m"
  shows "answers_ok opts r P' Q' M' t"
proof -
  have "outcome_ok r P' Q' M' words refs" if "outcome_ok r P Q M words refs" for words refs
    using that assms(2-4) by (rule outcome_ok_mono)
  with assms(1) show ?thesis unfolding answers_ok_def by blast
qed

lemma answers_ok_phase: "tn_phase t' = tn_phase t \<Longrightarrow> answers_ok opts r P Q M t' = answers_ok opts r P Q M t"
  by (simp add: answers_ok_def)

lemma finalResult_answer:
  assumes "sr_type (finalResult opts d m t x) = Answer"
  shows "(sr_type x = Answer \<and> sr_text (finalResult opts d m t x) = sr_text x \<and>
      sr_evidence (finalResult opts d m t x) = sr_evidence x) \<or>
    (op_realPolicy opts \<and> sr_evidence (finalResult opts d m t x) = [] \<and>
      sr_text (finalResult opts d m t x) \<in> {text_ticket, text_greeting})"
  using assms by (auto simp: finalResult_def applyRealPolicy_def split: if_splits)

lemma answers_ok_answer_with:
  assumes "ty = Answer \<Longrightarrow> outcome_ok r P Q M text refs"
  shows "answers_ok opts r P Q M (answer_with opts info d m (ty, text, refs) t)"
proof -
  let ?x = "result_of info t ty text refs"
  have x: "sr_type ?x = ty" "sr_text ?x = text" "sr_evidence ?x = refs" by (simp_all add: result_of_def)
  define res where "res = finalResult opts d m (t\<lparr>tn_sealed := True\<rparr>) ?x"
  have phase: "tn_phase (answer_with opts info d m (ty, text, refs) t) \<in> {Run_returned y, Awaiting_audit y p} \<Longrightarrow> y = res" for y p
    by (auto simp: answer_with_def finish_def Let_def res_def split: if_splits)
  have "sr_type res = Answer \<Longrightarrow> outcome_ok r P Q M (sr_text res) (sr_evidence res) \<or>
     (op_realPolicy opts \<and> sr_evidence res = [] \<and> sr_text res \<in> {text_ticket, text_greeting})"
    using finalResult_answer [of opts d m "t\<lparr>tn_sealed := True\<rparr>" ?x] assms x unfolding res_def by auto
  then show ?thesis unfolding answers_ok_def using phase by blast
qed

lemma ordinaryOutcome_answer:
  assumes "ordinaryOutcome m t = (Answer, text, refs)" and "grounding_ok r P Q t" and "M m"
  shows "outcome_ok r P Q M text refs"
proof -
  have "(tn_verifiedKnowledgeEvidence t \<and> text = groundedText t \<and> refs = groundingReferences t) \<or>
    (text = textFromMessage m \<and> refs = [] \<and> text \<noteq> [] \<and> \<not> contains (js ''<tool'') text \<and>
     \<not> contains (js ''system prompt'') text \<and> \<not> hasSupportFactualClaim text \<and> \<not> hasUnsafeSideEffectPromise text)"
    using assms(1) by (auto simp: ordinaryOutcome_def Let_def split: if_splits)
  then show ?thesis
  proof
    assume "tn_verifiedKnowledgeEvidence t \<and> text = groundedText t \<and> refs = groundingReferences t"
    moreover from this have "tn_groundingEvidence t \<noteq> []" using assms(2) by (simp add: grounding_ok_def)
    ultimately show ?thesis using grounded_answer [OF assms(2)] unfolding outcome_ok_def by metis
  qed (use assms(3) in \<open>unfold outcome_ok_def, blast\<close>)
qed

lemma answers_ok_escalated: "answers_ok opts r P Q M (escalated opts info m d t)"
  unfolding escalated_def by (rule answers_ok_answer_with) simp

lemma answers_ok_safetyHandedOff: "answers_ok opts r P Q M (safetyHandedOff opts info m d a t)"
  by (auto simp: safetyHandedOff_def answers_ok_escalated split: option.split intro: answers_ok_answer_with)

lemma answers_ok_safetyHandoff: "answers_ok opts r P Q M (safetyHandoff opts info m d t)"
  by (auto simp: safetyHandoff_def answers_ok_escalated split: prod.split bool.split) (simp add: answers_ok_def)

lemma answers_ok_conclude:
  assumes ok: "grounding_ok r P Q t" and "M m"
  shows "answers_ok opts r P Q M (conclude opts info m t)"
proof -
  have ordinary: "answers_ok opts r P Q M (answer_with opts info d m (ordinaryOutcome m t) t)" for d
    using ordinaryOutcome_answer [OF _ ok, of m _ _ M] assms(2)
    by (cases "ordinaryOutcome m t") (auto intro: answers_ok_answer_with)
  have deadline: "outcome_ok r P Q M (groundedText t) (groundingReferences t)" if "tn_deadlineEvidenceEligible t"
    using grounded_answer [OF ok] ok that unfolding outcome_ok_def grounding_ok_def by metis
  have safety: "outcome_ok r P Q M (formatSafetySupportedResponse (sd_options d)) []"
    if "safetyDecision t = Some d" "sd_disposition d = Supported" for d
    using ok that unfolding outcome_ok_def grounding_ok_def safetyDecision_def safetyRisk_def by blast
  show ?thesis
    using ordinary deadline safety answers_ok_safetyHandoff
    by (auto simp: conclude_def Let_def split: option.split disposition.split intro!: answers_ok_answer_with)
qed

lemma turn_step_answers_ok:
  assumes ok: "answers_ok opts r P Q M t" "grounding_ok r P Q t" and step: "turn_step opts ev t = Some t'"
    and new: "\<And>info m. ev = Ev_conclude info m \<Longrightarrow> M m"
  shows "answers_ok opts r P Q M t'"
proof (cases ev)
  case (Ev_conclude info m)
  then show ?thesis using step answers_ok_conclude [OF ok(2), of M m] new by (auto simp: turn_step_def split: if_splits)
next
  case (Ev_safety_handoff now)
  then show ?thesis using step answers_ok_safetyHandedOff by (auto simp: turn_step_def split: turn_phase.splits)
next
  case Ev_audit
  then obtain ops x p where x: "tn_phase t = Awaiting_audit x p" "t' = recordAudited ops x p t"
    using step by (auto simp: turn_step_def split: turn_phase.splits option.splits)
  show ?thesis using ok(1) unfolding answers_ok_def x(2)
    by (auto simp: x(1) recordAudited_def split: prod.splits sum.splits)
qed (use turn_step_stage [OF step] ok(1) answers_ok_phase [of t' t] in \<open>auto simp: stage_def\<close>)

lemma run_answers_ok:
  assumes "turn_run opts es t0 = Some t" and "\<And>P Q. Q [] \<Longrightarrow> grounding_ok r P Q t0" and "tn_phase t0 = Serving"
  shows "answers_ok opts r (supplied_in opts r t0 es) (safety_in opts t0 es) (\<lambda>m. \<exists>info. Ev_conclude info m \<in> set es) t"
  using assms(1)
proof (induction es arbitrary: t rule: rev_induct)
  case Nil
  then show ?case using assms(3) by (simp add: answers_ok_def)
next
  case (snoc ev es)
  let ?P = "supplied_in opts r t0 (es @ [ev])" and ?Q = "safety_in opts t0 (es @ [ev])"
  obtain u where u: "turn_run opts es t0 = Some u" "turn_step opts ev u = Some t"
    using snoc.prems by (auto simp: turn_run_snoc split: option.splits)
  have "answers_ok opts r ?P ?Q (\<lambda>m. \<exists>info. Ev_conclude info m \<in> set (es @ [ev])) u"
    by (rule answers_ok_mono [OF snoc.IH [OF u(1)] supplied_in_snoc(1) safety_in_snoc(1)]) auto
  moreover have "grounding_ok r ?P ?Q u"
    using run_grounding_ok [OF u(1) assms(2)] supplied_in_snoc(1) safety_in_snoc(1) by (rule grounding_ok_mono)
  ultimately show ?case using u(2) by (rule turn_step_answers_ok) auto
qed

text \<open>
  C1. Every answer that a turn returns is one of four things. It is the text of one piece of knowledge, cited as its only
  reference: knowledge that is approved (or synthetic, where tests allow it) and of no other tenant or store, and that was,
  in the course of this turn, the only such piece in a reply of the retrieval service, or an FAQ entry whose question
  matches a query of the agent. Or it is the fixed rendering of the options that a supporting safety decision derives
  from the safety evidence of a retrieval reply of this turn, with no reference. Or it is the text of the agent's last
  message, with no reference, without any claim of fact about the business, promise of a side effect or tool markup. Or, under the real
  policy, it is one of two fixed texts.
\<close>

theorem answers_are_grounded:
  assumes "turn_run opts es (policyCheck opts now (startTurn opts r s b h ms now)) = Some t"
    and "tn_phase t = Run_returned res" and "sr_type res = Answer"
  shows "(\<exists>e. supplied_in opts r (policyCheck opts now (startTurn opts r s b h ms now)) es e \<and> sr_text res = ev_text e \<and>
       sr_evidence res = (case groundingReference e of None \<Rightarrow> [] | Some g \<Rightarrow> [g])) \<or>
    (\<exists>risk vs. detectSafetyRisk (rq_text r) = Some risk \<and>
       safety_in opts (policyCheck opts now (startTurn opts r s b h ms now)) es vs \<and>
       sd_disposition (decideSafety risk vs False (js ''pause'')) = Supported \<and>
       sr_text res = formatSafetySupportedResponse (sd_options (decideSafety risk vs False (js ''pause''))) \<and>
       sr_evidence res = []) \<or>
    (\<exists>info m. Ev_conclude info m \<in> set es \<and> sr_text res = textFromMessage m \<and> sr_evidence res = [] \<and>
       sr_text res \<noteq> [] \<and> \<not> contains (js ''<tool'') (sr_text res) \<and> \<not> contains (js ''system prompt'') (sr_text res) \<and>
       \<not> hasSupportFactualClaim (sr_text res) \<and> \<not> hasUnsafeSideEffectPromise (sr_text res)) \<or>
    (op_realPolicy opts \<and> sr_evidence res = [] \<and> sr_text res \<in> {text_ticket, text_greeting})"
proof -
  have "tn_phase (policyCheck opts now (startTurn opts r s b h ms now)) = Serving"
    using stage_effects [OF effects_policyCheck [of opts now "startTurn opts r s b h ms now"]]
    by (simp add: stage_def startTurn_def)
  from run_answers_ok [OF assms(1) start_grounding_ok this] show ?thesis
    using assms(2,3) unfolding answers_ok_def outcome_ok_def by blast
qed

definition demo_answered :: "unit turn" where
  "demo_answered = (demo_start demo_business_ops () [])\<lparr>tn_promptStarted := True, tn_toolCalls := 1, tn_granted := [],
     tn_groundingQuery := Some (js ''.''), tn_groundingSources := [Private (faq_evidence demo_faq)],
     tn_groundingEvidence := [faq_evidence demo_faq], tn_knowledgeRouting := None,
     tn_evidenceSettledAt := None, tn_verifiedKnowledgeEvidence := True\<rparr>"

abbreviation demo_search :: "turn_event list" where
  "demo_search \<equiv> [Ev_prompt, Ev_before (Call_search_faq (js ''.'')) 6, Ev_run (Call_search_faq (js ''.'')) 7]"

lemma demo_answered_run:
  "turn_run (demo_options demo_business_ops) demo_search (demo_start demo_business_ops () []) = Some demo_answered"
proof -
  have "admits (demo_options demo_business_ops) (demo_request []) (faq_evidence demo_faq)"
    using demo_faq_found unfolding findAdmittedFaq_def by (rule find_Some_iff' [THEN conjunct1])
  then show ?thesis
    by (simp add: turn_step_def demo_answered_def beforeToolCall_def checkDeadline_def is_cached_check_def
      runTool_def searchFaq_def demo_faq_found onKnowledgeEvidence_def ground_def values_of_def)
qed

text \<open>The agent finds the FAQ entry and the turn returns its answer.\<close>

theorem answers_are_grounded_witness:
  "\<exists>t res e. turn_run (demo_options demo_business_ops) (demo_search @ [Ev_conclude demo_info None, Ev_audit])
      (policyCheck (demo_options demo_business_ops) 0
        (startTurn (demo_options demo_business_ops) (demo_request []) (newSupportStore []) ()
          (\<lambda>_. faq_evidence demo_faq) [] 0)) = Some t \<and> tn_phase t = Run_returned res \<and>
     supplied_in (demo_options demo_business_ops) (demo_request [])
       (policyCheck (demo_options demo_business_ops) 0
        (startTurn (demo_options demo_business_ops) (demo_request []) (newSupportStore []) ()
          (\<lambda>_. faq_evidence demo_faq) [] 0)) (demo_search @ [Ev_conclude demo_info None, Ev_audit]) e \<and>
     sr_text res = ev_text e \<and> length (sr_evidence res) = 1"
proof -
  let ?o = "demo_options demo_business_ops"
  let ?x = "result_of demo_info demo_answered Answer (js ''yo'') (groundingReferences demo_answered)"
  have refs: "length (groundingReferences demo_answered) = 1"
    by (simp add: groundingReferences_def demo_answered_def List.map_filter_simps groundingReference_def faq_evidence_def)
  have plain: "safetyDecision demo_answered = None" and req: "tn_request demo_answered = demo_request []"
    using demo_plain [of demo_answered "[]"] by (simp_all add: safetyDecision_def demo_answered_def)
  have "ordinaryOutcome None demo_answered = (Answer, js ''yo'', groundingReferences demo_answered)"
    by (simp add: ordinaryOutcome_def demo_answered_def snapshotStillCurrent_def values_of_def groundedText_def
        demo_request_def faq_evidence_def demo_faq_def)
  then have "conclude ?o demo_info None demo_answered = finish ?o demo_info None None ?x demo_answered"
    using plain by (simp add: conclude_def answer_with_def demo_answered_def)
  moreover obtain p where "tn_phase (finish ?o demo_info None None ?x demo_answered) = Awaiting_audit ?x p"
    by (simp add: finish_def Let_def finalResult_def)
  moreover have "recordAudited demo_business_ops y p u = u\<lparr>tn_business := tn_business u, tn_phase := Run_returned y\<rparr>" for y p u
    by (simp add: recordAudited_def demo_business_ops_def)
  moreover have "tn_phase demo_answered = Serving" by (simp add: demo_answered_def)
  ultimately obtain t where t: "turn_run ?o [Ev_conclude demo_info None, Ev_audit] demo_answered = Some t"
    "tn_phase t = Run_returned ?x"
    by (simp add: turn_step_def)
  have run: "turn_run ?o (demo_search @ [Ev_conclude demo_info None, Ev_audit])
      (policyCheck ?o 0 (startTurn ?o (demo_request []) (newSupportStore []) () (\<lambda>_. faq_evidence demo_faq) [] 0)) = Some t"
    unfolding demo_start_def [symmetric] demo_checked turn_run_append demo_answered_run by (simp only: option.case t)
  have x: "sr_type ?x = Answer" "length (sr_evidence ?x) = 1" using refs by (simp_all add: result_of_def)
  from answers_are_grounded [OF run t(2) x(1)] x(2) t(2) run show ?thesis by auto
qed

end
