(* ===== verification/SemanticSelector.thy ===== *)
theory SemanticSelector
  imports JsonText
begin

text \<open>
  The one-shot evidence selector, \<open>src/semantic-selector.ts\<close>: the validation of its input, the strict
  parser of the model's text, the classification of that text for observation, and the race of
  the completion with the deadline. \<open>JSON.parse\<close> and SHA-256 are parameters. A completion is what its
  promise does, and when: times are milliseconds from the call, a settlement at the very deadline
  may come first or second, and \<open>abort\<close> is the time the caller's signal is aborted, if it is.
\<close>

section \<open>Data\<close>

record selection_candidate =
  sc_label :: jstring
  sc_title :: jstring
  sc_content :: jstring

record selection_input =
  si_query :: jstring
  si_candidates :: "selection_candidate list"

datatype raw_shape =
    Exact_json | Surrounding_whitespace_json | Fenced_json | Json_plus_prose
  | Plain_label | Empty_output | Malformed_json | Other_invalid

record selection_observation =
  so_rawOutputShape :: raw_shape
  so_rawOutputSha256 :: jstring
  so_rawOutputLength :: nat

datatype selection_outcome = Selected | Abstained | Invalid | Timeout | Provider_error

text \<open>The selection is a label, or \<open>None\<close> for \<open>ABSTAIN\<close>.\<close>

record selection_result =
  sr_selection :: "jstring option"
  sr_outcome :: selection_outcome
  sr_observation :: "selection_observation option"

datatype failure = Failure_timeout | Failure_provider_error

datatype completion = Completed_text jstring | Completion_failure failure

definition isLabel :: "jstring \<Rightarrow> bool" where
  "isLabel s \<longleftrightarrow> s = js ''A'' \<or> s = js ''B'' \<or> s = js ''C''"

definition validInput :: "selection_input \<Rightarrow> bool" where
  "validInput i \<longleftrightarrow>
     trim (si_query i) \<noteq> [] \<and> 2 \<le> length (si_candidates i) \<and> length (si_candidates i) \<le> 3 \<and>
     distinct (map sc_label (si_candidates i)) \<and>
     list_all (\<lambda>c. isLabel (sc_label c) \<and> trim (sc_title c) \<noteq> [] \<and> trim (sc_content c) \<noteq> []) (si_candidates i)"

section \<open>The output of the model\<close>

text \<open>\<open>normalized.lastIndexOf("}")\<close>.\<close>

definition last_brace :: "jstring \<Rightarrow> nat option" where
  "last_brace s = (if 125 \<in> set s then Some (length (dropWhile (\<lambda>c. c \<noteq> 125) (rev s)) - 1) else None)"

definition prose_after_json :: "(jstring \<Rightarrow> json option) \<Rightarrow> jstring \<Rightarrow> bool" where
  "prose_after_json parse s = (case last_brace s of
      None \<Rightarrow> False
    | Some n \<Rightarrow> 0 < n \<and> n < length s - 1 \<and> parse (take (n + 1) s) \<noteq> None)"

definition classifyRawOutputShape :: "(jstring \<Rightarrow> json option) \<Rightarrow> jstring \<Rightarrow> jstring \<Rightarrow> raw_shape" where
  "classifyRawOutputShape parse raw normalized =
     (if normalized = [] then Empty_output
      else if starts_with (js ''```'') normalized then Fenced_json
      else if parse normalized \<noteq> None then (if raw = normalized then Exact_json else Surrounding_whitespace_json)
      else if isLabel normalized \<or> normalized = js ''ABSTAIN'' then Plain_label
      else if prose_after_json parse normalized then Json_plus_prose
      else if starts_with (js ''{'') normalized \<or> starts_with (js ''['') normalized then Malformed_json else Other_invalid)"

definition observeRawOutput :: "(jstring \<Rightarrow> json option) \<Rightarrow> (jstring \<Rightarrow> jstring) \<Rightarrow> jstring \<Rightarrow> jstring \<Rightarrow> selection_observation" where
  "observeRawOutput parse sha raw normalized =
     \<lparr>so_rawOutputShape = classifyRawOutputShape parse raw normalized, so_rawOutputSha256 = sha raw,
      so_rawOutputLength = length raw\<rparr>"

definition parseOutput ::
  "(jstring \<Rightarrow> json option) \<Rightarrow> (jstring \<Rightarrow> jstring) \<Rightarrow> jstring \<Rightarrow> jstring list \<Rightarrow> bool \<Rightarrow> selection_result" where
  "parseOutput parse sha raw allowedLabels includeObservation =
     (let normalized = trim raw;
          observation = (if includeObservation then Some (observeRawOutput parse sha raw normalized) else None);
          invalid = \<lparr>sr_selection = None, sr_outcome = Invalid, sr_observation = observation\<rparr>
      in if normalized = [] then invalid
         else (case parse normalized of
             Some (JObj obj) \<Rightarrow>
               if length obj \<noteq> 1 then invalid
               else (case field obj ''selection'' of
                   Some (JStr s) \<Rightarrow>
                     if s = js ''ABSTAIN'' then \<lparr>sr_selection = None, sr_outcome = Abstained, sr_observation = observation\<rparr>
                     else if isLabel s \<and> s \<in> set allowedLabels
                     then \<lparr>sr_selection = Some s, sr_outcome = Selected, sr_observation = observation\<rparr>
                     else invalid
                 | _ \<Rightarrow> invalid)
           | _ \<Rightarrow> invalid))"

definition parseSemanticSelectionOutput :: "(jstring \<Rightarrow> json option) \<Rightarrow> (jstring \<Rightarrow> jstring) \<Rightarrow> jstring \<Rightarrow> jstring list \<Rightarrow> selection_result" where
  "parseSemanticSelectionOutput parse sha raw allowedLabels = parseOutput parse sha raw allowedLabels False"

section \<open>Completions\<close>

datatype pi_content = Pi_text jstring | Pi_other

datatype stop_reason = Stop_error | Stop_aborted | Stop_other

definition mapPiAssistantMessageToSemanticCompletion :: "stop_reason \<Rightarrow> pi_content list \<Rightarrow> completion" where
  "mapPiAssistantMessageToSemanticCompletion reason content =
     (case reason of
        Stop_error \<Rightarrow> Completion_failure Failure_provider_error
      | Stop_aborted \<Rightarrow> Completion_failure Failure_timeout
      | Stop_other \<Rightarrow> Completed_text (concat (map (\<lambda>c. case c of Pi_text t \<Rightarrow> t | Pi_other \<Rightarrow> []) content)))"

text \<open>What a completion's promise does: nothing for ever, or settle at a time, with a result or a rejection.\<close>

datatype task = Pending_forever | Settles nat bool "completion option"

definition settled_in_time :: "nat \<Rightarrow> task \<Rightarrow> (nat \<times> completion option) option" where
  "settled_in_time timeoutMs task = (case task of
      Pending_forever \<Rightarrow> None
    | Settles t first r \<Rightarrow> if t < timeoutMs \<or> (t = timeoutMs \<and> first) then Some (t, r) else None)"

definition aborted_by :: "nat option \<Rightarrow> nat \<Rightarrow> bool" where
  "aborted_by abort t = (case abort of None \<Rightarrow> False | Some a \<Rightarrow> a \<le> t)"

definition abstain :: "selection_outcome \<Rightarrow> selection_result" where
  "abstain x = \<lparr>sr_selection = None, sr_outcome = x, sr_observation = None\<rparr>"

text \<open>The message the completion is given.\<close>

definition model_input :: "selection_input \<Rightarrow> jtext" where
  "model_input i = TObj [(js ''query'', TStr (si_query i)),
     (js ''candidates'', TArr (map (\<lambda>c. TObj [(js ''label'', TStr (sc_label c)), (js ''title'', TStr (sc_title c)),
       (js ''content'', TStr (sc_content c))]) (si_candidates i)))]"

text \<open>The result with the time at which it is returned.\<close>

definition select ::
  "(jstring \<Rightarrow> json option) \<Rightarrow> (jstring \<Rightarrow> jstring) \<Rightarrow> (jstring \<Rightarrow> task) \<Rightarrow> nat \<Rightarrow> nat option \<Rightarrow> selection_input \<Rightarrow>
     nat \<times> selection_result" where
  "select parse sha completer timeoutMs abort i =
     (if \<not> validInput i then (0, abstain Invalid)
      else if aborted_by abort 0 then (0, abstain Timeout)
      else (case settled_in_time timeoutMs (completer (stringify (model_input i))) of
          None \<Rightarrow> (timeoutMs, abstain Timeout)
        | Some (t, r) \<Rightarrow> (t, case r of
              None \<Rightarrow> abstain (if aborted_by abort t then Timeout else Provider_error)
            | Some completion \<Rightarrow>
                if aborted_by abort t then abstain Timeout
                else (case completion of
                    Completion_failure x \<Rightarrow> abstain (case x of Failure_timeout \<Rightarrow> Timeout | Failure_provider_error \<Rightarrow> Provider_error)
                  | Completed_text raw \<Rightarrow> parseOutput parse sha raw (map sc_label (si_candidates i)) True))))"

definition createPiSemanticEvidenceSelector ::
  "(jstring \<Rightarrow> json option) \<Rightarrow> (jstring \<Rightarrow> jstring) \<Rightarrow> (jstring \<Rightarrow> nat \<times> bool \<times> (stop_reason \<times> pi_content list) option) \<Rightarrow>
     nat \<Rightarrow> nat option \<Rightarrow> selection_input \<Rightarrow> nat \<times> selection_result" where
  "createPiSemanticEvidenceSelector parse sha completeSimple timeoutMs =
     select parse sha (\<lambda>modelInput. case completeSimple modelInput of (t, first, response) \<Rightarrow>
       Settles t first (map_option (\<lambda>(reason, content). mapPiAssistantMessageToSemanticCompletion reason content) response)) timeoutMs"

section \<open>Selections\<close>

lemma parseOutput_selected:
  assumes "sr_outcome (parseOutput parse sha raw labels obs) = Selected"
  obtains l where "sr_selection (parseOutput parse sha raw labels obs) = Some l" "isLabel l" "l \<in> set labels"
    "parse (trim raw) = Some (JObj [(js ''selection'', JStr l)])"
proof -
  obtain kvs l where p: "parse (trim raw) = Some (JObj kvs)" "length kvs = 1" "field kvs ''selection'' = Some (JStr l)"
    "isLabel l" "l \<in> set labels" "sr_selection (parseOutput parse sha raw labels obs) = Some l"
    using assms by (auto simp: parseOutput_def Let_def split: if_splits option.splits json.splits)
  obtain k v where "kvs = [(k, v)]" using p(2) by (auto simp: length_Suc_conv)
  then show thesis using p by (auto simp: field_def intro: that split: if_splits)
qed

lemma parseOutput_selection: "sr_selection (parseOutput parse sha raw labels obs) = Some l \<Longrightarrow> sr_outcome (parseOutput parse sha raw labels obs) = Selected"
  by (auto simp: parseOutput_def Let_def split: if_splits option.splits json.splits)

lemma parseOutput_observation:
  "sr_observation (parseOutput parse sha raw labels obs) = (if obs then Some (observeRawOutput parse sha raw (trim raw)) else None)"
  by (simp add: parseOutput_def Let_def split: option.splits json.splits)

text \<open>
  C27. The selector never makes up a choice and never keeps its caller waiting: it returns by its
  deadline whatever the model does; a label is selected only from a valid input, before any
  abort, by a completion in time whose whole trimmed text is JSON with the one field selection and
  a label among the candidates; in every other case it abstains, and a selected answer is
  observed as JSON, bare or with white space around it.
\<close>

theorem selection_sound:
  "case select parse sha completer timeoutMs abort i of (t, r) \<Rightarrow> t \<le> timeoutMs \<and>
    (case sr_selection r of
       None \<Rightarrow> sr_outcome r \<noteq> Selected
     | Some l \<Rightarrow> sr_outcome r = Selected \<and> validInput i \<and> l \<in> set (map sc_label (si_candidates i)) \<and> \<not> aborted_by abort t \<and>
         (\<exists>raw first. completer (stringify (model_input i)) = Settles t first (Some (Completed_text raw)) \<and>
            parse (trim raw) = Some (JObj [(js ''selection'', JStr l)]) \<and>
            map_option so_rawOutputShape (sr_observation r) =
              Some (if starts_with (js ''```'') (trim raw) then Fenced_json
                else if raw = trim raw then Exact_json else Surrounding_whitespace_json)))"
proof -
  obtain t r where run: "select parse sha completer timeoutMs abort i = (t, r)" by fastforce
  have le: "t \<le> timeoutMs"
    using run by (auto simp: select_def settled_in_time_def split: if_splits option.splits task.splits)
  show ?thesis
  proof (cases "sr_selection r")
    case None
    then have "sr_outcome r \<noteq> Selected"
      using run parseOutput_selected [of parse sha _ "map sc_label (si_candidates i)" True]
      by (fastforce simp: select_def abstain_def split: if_splits option.splits completion.splits failure.splits)
    with None run le show ?thesis by simp
  next
    case (Some l)
    then obtain raw where raw: "validInput i" "\<not> aborted_by abort t"
      "settled_in_time timeoutMs (completer (stringify (model_input i))) = Some (t, Some (Completed_text raw))"
      "r = parseOutput parse sha raw (map sc_label (si_candidates i)) True"
      using run by (auto simp: select_def abstain_def split: if_splits option.splits completion.splits)
    have sel: "sr_outcome r = Selected" using Some parseOutput_selection unfolding raw(4) by auto
    obtain l' where l: "sr_selection r = Some l'" "isLabel l'" "l' \<in> set (map sc_label (si_candidates i))"
      "parse (trim raw) = Some (JObj [(js ''selection'', JStr l')])"
      using sel unfolding raw(4) by (elim parseOutput_selected)
    have "trim raw \<noteq> []" using sel by (auto simp: raw(4) parseOutput_def Let_def)
    then have "map_option so_rawOutputShape (sr_observation r) =
        Some (if starts_with (js ''```'') (trim raw) then Fenced_json
          else if raw = trim raw then Exact_json else Surrounding_whitespace_json)"
      using l(4) by (simp add: raw(4) parseOutput_observation observeRawOutput_def classifyRawOutputShape_def)
    moreover obtain first where "completer (stringify (model_input i)) = Settles t first (Some (Completed_text raw))"
      using raw(3) by (auto simp: settled_in_time_def split: task.splits if_splits)
    ultimately show ?thesis using run le Some sel raw(1,2) l by auto
  qed
qed

definition demo_selector_input :: selection_input where
  "demo_selector_input = \<lparr>si_query = js ''q'', si_candidates = [
     \<lparr>sc_label = js ''A'', sc_title = js ''t'', sc_content = js ''c''\<rparr>, \<lparr>sc_label = js ''B'', sc_title = js ''t'', sc_content = js ''c''\<rparr>]\<rparr>"

text \<open>A model that answers B after five milliseconds, with a line feed behind the object.\<close>

definition demo_answer :: jstring where
  "demo_answer = js ''{B}'' @ [10]"

definition demo_parse :: "jstring \<Rightarrow> json option" where
  "demo_parse s = (if s = js ''{B}'' then Some (JObj [(js ''selection'', JStr (js ''B''))]) else None)"

lemma demo_selects:
  "select demo_parse (\<lambda>_. []) (\<lambda>_. Settles 5 True (Some (Completed_text demo_answer))) 2000 (Some 7) demo_selector_input =
     (5, \<lparr>sr_selection = Some (js ''B''), sr_outcome = Selected, sr_observation =
        Some \<lparr>so_rawOutputShape = Surrounding_whitespace_json, so_rawOutputSha256 = [], so_rawOutputLength = 4\<rparr>\<rparr>)"
proof -
  have "validInput demo_selector_input"
    by (simp add: validInput_def demo_selector_input_def isLabel_def trim_def trim_start_def trim_end_def is_space_def js_simps)
  moreover have "trim demo_answer = js ''{B}''" by (simp add: trim_def trim_start_def trim_end_def demo_answer_def is_space_def js_simps)
  moreover have "length demo_answer = 4" "demo_answer \<noteq> js ''{B}''" "\<not> starts_with (js ''```'') (js ''{B}'')" "js ''{B}'' \<noteq> []"
    by (simp_all add: demo_answer_def js_simps)
  moreover have "map sc_label (si_candidates demo_selector_input) = [js ''A'', js ''B'']" by (simp add: demo_selector_input_def)
  ultimately show ?thesis
    by (simp add: select_def aborted_by_def settled_in_time_def parseOutput_def Let_def demo_parse_def
        observeRawOutput_def classifyRawOutputShape_def field_def isLabel_def)
qed

theorem selection_sound_witness:
  "js ''B'' \<in> set (map sc_label (si_candidates demo_selector_input)) \<and> validInput demo_selector_input"
  using selection_sound [where parse = demo_parse and sha = "\<lambda>_. []" and completer = "\<lambda>_. Settles 5 True (Some (Completed_text demo_answer))"
    and timeoutMs = 2000 and abort = "Some 7" and i = demo_selector_input]
  unfolding demo_selects by simp

end
