(* ===== verification/StoreOpsProps.thy ===== *)
theory StoreOpsProps
  imports StoreOps
begin

text \<open>
  What the store operations guarantee: rollback and authority of every transaction, the
  invariant of the booking and availability tables, the life cycle of a booking intent along any
  sequence of operations, idempotent creation and optimistic concurrency of availability.
\<close>

section \<open>Transactions and authority\<close>

lemma transaction_Inr [simp]:
  "transaction own op d = (d', Inr x) \<longleftrightarrow> op d = (d', Inr x)"
  by (auto simp: transaction_def split: prod.splits sum.splits)

lemma transaction_Inl: "transaction True op d = (d', Inl e) \<Longrightarrow> d' = d"
  by (auto simp: transaction_def split: prod.splits sum.splits)

text \<open>The membership that authorizes a context: the only one of the user, in the scope, with the role.\<close>

definition authority :: "db \<Rightarrow> exec_context \<Rightarrow> capability \<Rightarrow> membership \<Rightarrow> bool" where
  "authority d ctx cap actor \<longleftrightarrow> cap \<in> set (actor_capabilities ctx) \<and>
     filter (\<lambda>m. mem_userId m = actor_userId ctx) (db_memberships d) = [actor] \<and>
     mem_tenantId actor = scope_tenantId ctx \<and> mem_storeId actor = scope_storeId ctx \<and>
     mem_role actor = actor_role ctx \<and> cap \<in> set (capabilitiesForRole (mem_role actor))"

lemma authorized_Inr:
  "authorized own ctx cap op d = (d', Inr x) \<longleftrightarrow> (\<exists>actor. authority d ctx cap actor \<and> op actor d = (d', Inr x))"
  by (auto simp: authorized_def authority_def split: list.splits)

lemma authorized_Inl: "authorized True ctx cap op d = (d', Inl e) \<Longrightarrow> d' = d"
  by (auto simp: authorized_def dest: transaction_Inl split: if_split_asm)

lemma authorized_authority: "authority d ctx cap a \<Longrightarrow> authorized own ctx cap op d = transaction own (op a) d"
  unfolding authority_def authorized_def transaction_def by (elim conjE) (simp cong: if_cong)

lemma authorized_none: "(\<And>a. \<not> authority d ctx cap a) \<Longrightarrow> authorized True ctx cap op d = (d, Inl Forbidden)"
  by (auto simp: authorized_def authority_def transaction_def split: list.splits)

lemma rollback_result:
  "(\<And>d' e. r = (d', Inl e) \<Longrightarrow> d' = d) \<Longrightarrow> (\<exists>e. snd r = Inl e) \<longrightarrow> fst r = d"
  by (cases r) auto

lemma authority_unique: "authority d ctx cap a \<Longrightarrow> authority d ctx cap' a' \<Longrightarrow> a' = a"
  by (simp add: authority_def)

lemma authority_member: "authority d ctx cap a \<Longrightarrow> a \<in> set (db_memberships d) \<and> mem_userId a = actor_userId ctx"
  unfolding authority_def by (metis (mono_tags, lifting) filter_one)

lemma authority_has_member:
  "authority d ctx cap a \<Longrightarrow> has_member d (mem_id a) (scope_tenantId ctx) (scope_storeId ctx)"
  using authority_member [of d ctx cap a] by (auto simp: has_member_def list_ex_iff authority_def)

section \<open>Single operations\<close>

lemma no_pair [simp]: "(\<forall>a b. x \<noteq> Some (a, b)) \<longleftrightarrow> x = None"
  by (cases x) auto

definition rank :: "booking_status \<Rightarrow> int" where
  "rank s = (case s of Pending_confirmation \<Rightarrow> 0 | Alternative_proposed \<Rightarrow> 1 | Confirmed \<Rightarrow> 2 | Cancelled \<Rightarrow> 3)"

definition ordered :: "(jstring \<times> jstring) option \<Rightarrow> bool" where
  "ordered iv = (case iv of None \<Rightarrow> True | Some (a, b) \<Rightarrow> a < b)"

lemma interval_ordered: "interval a b = Inr iv \<Longrightarrow> ordered iv"
  by (auto simp: interval_def ordered_def and_then_Inr split: if_split_asm)

lemma parseBookingTransition_interval: "parseBookingTransition input = Inr data \<Longrightarrow> ordered (bt_interval data)"
  by (auto simp: parseBookingTransition_def and_then_Inr Let_def dest: interval_ordered split: if_split_asm)

lemma parseBookingCreate_interval: "parseBookingCreate input = Inr data \<Longrightarrow> ordered (bc_requested data)"
  by (auto simp: parseBookingCreate_def and_then_Inr dest!: interval_ordered)

text \<open>The transition table: the rank grows, a proposal or confirmation comes with an interval.\<close>

lemma resolveTransition_table:
  assumes "resolveTransition st (map_option fst alt) (map_option snd alt) data = Inr u"
  shows "rank st < rank (tr_status u) \<and>
    (is_action (bt_action data) ''cancel'' \<longleftrightarrow> tr_status u = Cancelled) \<and>
    (tr_status u = Alternative_proposed \<longleftrightarrow> tr_alternative u \<noteq> None) \<and>
    (tr_status u = Confirmed \<longleftrightarrow> tr_confirmed u \<noteq> None) \<and>
    (tr_alternative u \<noteq> None \<longrightarrow> tr_alternative u = bt_interval data) \<and>
    (tr_confirmed u \<noteq> None \<longrightarrow>
      tr_confirmed u = (if st = Alternative_proposed then alt else bt_interval data))"
  using assms
  by (cases st; cases alt; cases "bt_interval data")
     (auto simp: resolveTransition_def rank_def nonempty_def is_action_def split: if_split_asm)

lemma user_of_bookings [simp]: "user_of (d\<lparr>db_bookings := x\<rparr>) = user_of d"
  by (simp add: fun_eq_iff user_of_def)

lemma transition_in_Inr:
  assumes "transition_in ctx i data actor d = (d', Inr dto)"
  obtains b u creator where
    "List.find (booking_at ctx i) (db_bookings d) = Some b"
    "is_action (bt_action data) ''cancel'' \<Longrightarrow> may_cancel ctx actor b"
    "bk_version b = bt_expectedVersion data" "bk_version b \<noteq> max_int4"
    "resolveTransition (bk_status b) (map_option fst (bk_alternative b)) (map_option snd (bk_alternative b)) data = Inr u"
    "d' = d\<lparr>db_bookings := update_where (\<lambda>x. booking_at ctx i x \<and> bk_version x = bk_version b \<and> bk_status x = bk_status b)
        (apply_transition u actor (db_now d)) (db_bookings d)\<rparr>"
    "user_of d (bk_createdBy b) = Some creator"
    "dto = booking (apply_transition u actor (db_now d) b) creator"
proof (cases "List.find (booking_at ctx i) (db_bookings d)")
  case None
  then show thesis using assms by (simp add: transition_in_def)
next
  case (Some b)
  note run = assms [unfolded transition_in_def Some option.case]
  from run obtain u where u: "resolveTransition (bk_status b) (map_option fst (bk_alternative b))
      (map_option snd (bk_alternative b)) data = Inr u"
    by (auto split: if_split_asm sum.splits)
  have n: "\<not> (is_action (bt_action data) ''cancel'' \<and> \<not> may_cancel ctx actor b)" "bk_version b = bt_expectedVersion data"
    using run by (auto split: if_split_asm)
  have m: "bk_version b \<noteq> max_int4" using run u n by (auto split: if_split_asm)
  let ?d = "d\<lparr>db_bookings := update_where (\<lambda>x. booking_at ctx i x \<and> bk_version x = bk_version b \<and> bk_status x = bk_status b)
        (apply_transition u actor (db_now d)) (db_bookings d)\<rparr>"
  have "(case user_of d (bk_createdBy b) of None \<Rightarrow> (?d, Inl Database_failure)
      | Some creator \<Rightarrow> (?d, Inr (booking (apply_transition u actor (db_now d) b) creator))) = (d', Inr dto)"
    using run u n(1) unfolding n(2) [symmetric] by (simp add: Let_def split: if_split_asm)
  then obtain creator where "user_of d (bk_createdBy b) = Some creator" "d' = ?d"
    "dto = booking (apply_transition u actor (db_now d) b) creator"
    by (cases "user_of d (bk_createdBy b)") auto
  then show thesis using n m by (intro that [OF Some _ _ _ u]) auto
qed

lemma transitionBookingIntent_Inr:
  assumes "transitionBookingIntent own ctx i input d = (d', Inr dto)"
  obtains data actor where "parseBookingTransition input = Inr data"
    "authority d ctx (if is_action (bt_action data) ''cancel'' then Booking_create else Booking_manage) actor"
    "transition_in ctx i data actor d = (d', Inr dto)"
  using assms by (auto simp: transitionBookingIntent_def authorized_Inr split: sum.splits)

lemma transitionBookingIntent_Inl: "transitionBookingIntent True ctx i input d = (d', Inl e) \<Longrightarrow> d' = d"
  by (auto simp: transitionBookingIntent_def dest: authorized_Inl split: sum.splits)

lemma createBookingIntent_Inl: "createBookingIntent True sha ctx key input d = (d', Inl e) \<Longrightarrow> d' = d"
  by (auto simp: createBookingIntent_def dest: authorized_Inl split: sum.splits)

lemma putAvailability_Inl: "putAvailability True known zone ctx staff date input d = (d', Inl e) \<Longrightarrow> d' = d"
  by (auto simp: putAvailability_def dest: authorized_Inl split: sum.splits)

section \<open>The booking table\<close>

definition booking_ok :: "db \<Rightarrow> booking_row \<Rightarrow> bool" where
  "booking_ok d b \<longleftrightarrow>
     has_customer_conversation d (bk_conversationId b) (bk_tenantId b) (bk_storeId b) (bk_customerId b) \<and>
     has_member d (bk_createdBy b) (bk_tenantId b) (bk_storeId b) \<and>
     has_member d (bk_updatedBy b) (bk_tenantId b) (bk_storeId b) \<and>
     (\<forall>m. bk_preferredStaff b = Some m \<longrightarrow> has_member d m (bk_tenantId b) (bk_storeId b)) \<and>
     1 \<le> bk_version b \<and> bk_version b \<le> 1 + rank (bk_status b) \<and>
     ordered (bk_requested b) \<and> ordered (bk_alternative b) \<and> ordered (bk_confirmed b) \<and>
     (bk_status b = Alternative_proposed \<longrightarrow> bk_alternative b \<noteq> None) \<and>
     (bk_status b = Confirmed \<longrightarrow> bk_confirmed b \<noteq> None) \<and>
     (bk_status b = Pending_confirmation \<longrightarrow> bk_alternative b = None) \<and>
     (rank (bk_status b) < 2 \<longrightarrow> bk_confirmed b = None) \<and>
     (bk_alternative b \<noteq> None \<and> bk_confirmed b \<noteq> None \<longrightarrow> bk_confirmed b = bk_alternative b)"

definition booking_index :: "booking_row \<Rightarrow> jstring \<times> jstring \<times> jstring" where
  "booking_index b = (bk_tenantId b, bk_storeId b, bk_idempotencyKey b)"

definition bookings_ok :: "db \<Rightarrow> bool" where
  "bookings_ok d \<longleftrightarrow> distinct (map bk_id (db_bookings d)) \<and> distinct (map booking_index (db_bookings d)) \<and>
     (\<forall>b \<in> set (db_bookings d). booking_ok d b)"

text \<open>What no operation changes of a booking intent.\<close>

definition fixed_part where
  "fixed_part b = (bk_id b, bk_tenantId b, bk_storeId b, bk_conversationId b, bk_customerId b,
     bk_channelBindingId b, bk_requestedService b, bk_requested b, bk_preferredStaff b, bk_createdBy b,
     bk_idempotencyKey b, bk_requestHash b, bk_createdAt b)"

lemma fixed_apply [simp]: "fixed_part (apply_transition u actor now b) = fixed_part b"
  by (simp add: fixed_part_def apply_transition_def)

lemma apply_fields [simp]:
  "bk_id (apply_transition u actor now b) = bk_id b"
  "booking_index (apply_transition u actor now b) = booking_index b"
  "bk_tenantId (apply_transition u actor now b) = bk_tenantId b"
  "bk_storeId (apply_transition u actor now b) = bk_storeId b"
  "bk_status (apply_transition u actor now b) = tr_status u"
  "bk_version (apply_transition u actor now b) = bk_version b + 1"
  "bk_alternative (apply_transition u actor now b) =
     (case tr_alternative u of None \<Rightarrow> bk_alternative b | Some iv \<Rightarrow> Some iv)"
  "bk_confirmed (apply_transition u actor now b) =
     (case tr_confirmed u of None \<Rightarrow> bk_confirmed b | Some iv \<Rightarrow> Some iv)"
  by (simp_all add: apply_transition_def booking_index_def)

lemma booking_ok_mono:
  assumes "booking_ok d b"
    and "\<And>m t s. has_member d m t s \<Longrightarrow> has_member d' m t s"
    and "\<And>c t s u. has_customer_conversation d c t s u \<Longrightarrow> has_customer_conversation d' c t s u"
  shows "booking_ok d' b"
  using assms by (auto simp: booking_ok_def split: option.splits)

lemma bookings_frame [simp]:
  "has_member (d\<lparr>db_bookings := x\<rparr>) = has_member d" "has_member (draw d) = has_member d"
  "has_customer_conversation (d\<lparr>db_bookings := x\<rparr>) = has_customer_conversation d"
  "has_customer_conversation (draw d) = has_customer_conversation d"
  "has_member (d\<lparr>db_availability := y\<rparr>) = has_member d"
  "has_customer_conversation (d\<lparr>db_availability := y\<rparr>) = has_customer_conversation d"
  by (simp_all add: fun_eq_iff has_member_def has_customer_conversation_def draw_def)

lemma booking_ok_frame [simp]:
  "booking_ok (d\<lparr>db_bookings := x\<rparr>) = booking_ok d" "booking_ok (draw d) = booking_ok d"
  "booking_ok (d\<lparr>db_availability := y\<rparr>) = booking_ok d"
  by (simp_all add: fun_eq_iff booking_ok_def)

lemma booking_ok_transition:
  assumes "booking_ok d b" and "ordered (bt_interval data)"
    and "resolveTransition (bk_status b) (map_option fst (bk_alternative b)) (map_option snd (bk_alternative b)) data = Inr u"
    and "has_member d (mem_id actor) (bk_tenantId b) (bk_storeId b)"
  shows "booking_ok d (apply_transition u actor now b)"
proof -
  note t = resolveTransition_table [OF assms(3)]
  have "tr_alternative u = None \<or> tr_alternative u = bt_interval data" using t by blast
  moreover have "tr_confirmed u = None \<or> tr_confirmed u = bk_alternative b \<or> tr_confirmed u = bt_interval data"
    using t by metis
  moreover have "ordered None" "ordered (bk_alternative b)"
    using assms(1) by (simp_all add: ordered_def booking_ok_def)
  ultimately have "ordered (tr_alternative u) \<and> ordered (tr_confirmed u)" using assms(2) by metis
  note intervals = this
  have up: "rank (bk_status b) < rank (tr_status u)" "bk_version b \<le> 1 + rank (bk_status b)" "1 \<le> bk_version b"
    using t assms(1) by (simp_all add: booking_ok_def)
  consider (proposed) iv where "tr_status u = Alternative_proposed" "tr_alternative u = Some iv" "tr_confirmed u = None"
      "bk_status b = Pending_confirmation"
    | (confirmed) iv where "tr_status u = Confirmed" "tr_alternative u = None" "tr_confirmed u = Some iv"
      "bk_alternative b = None \<or> bk_alternative b = Some iv"
    | (cancelled) "tr_status u = Cancelled" "tr_alternative u = None" "tr_confirmed u = None"
  proof (cases "tr_status u")
    case Pending_confirmation
    with up have False by (cases "bk_status b") (simp_all add: rank_def)
    then show thesis ..
  next
    case Alternative_proposed
    moreover from this up have "bk_status b = Pending_confirmation" by (cases "bk_status b") (simp_all add: rank_def)
    moreover obtain iv where "tr_alternative u = Some iv" using t Alternative_proposed by blast
    moreover have "tr_confirmed u = None" using t Alternative_proposed by simp
    ultimately show thesis using proposed by blast
  next
    case Confirmed
    obtain iv where iv: "tr_confirmed u = Some iv" using t Confirmed by blast
    moreover have "tr_alternative u = None" using t Confirmed by simp
    moreover have "bk_alternative b = None \<or> bk_alternative b = Some iv"
      using t up iv Confirmed assms(1) by (cases "bk_status b") (simp_all add: rank_def booking_ok_def)
    ultimately show thesis using Confirmed confirmed by blast
  next
    case Cancelled
    then show thesis using t cancelled by simp
  qed
  then show ?thesis
    using assms(1,4) intervals up by cases (auto simp: booking_ok_def apply_transition_def rank_def)
qed

text \<open>A transition replaces exactly the row with its identifier.\<close>

lemma transition_in_replaces:
  assumes ok: "bookings_ok d" and run: "transition_in ctx i data actor d = (d', Inr dto)"
  obtains b u creator where "b \<in> set (db_bookings d)" "booking_at ctx i b"
    "is_action (bt_action data) ''cancel'' \<Longrightarrow> may_cancel ctx actor b"
    "bk_version b = bt_expectedVersion data"
    "resolveTransition (bk_status b) (map_option fst (bk_alternative b)) (map_option snd (bk_alternative b)) data = Inr u"
    "d' = d\<lparr>db_bookings := map (\<lambda>x. if bk_id x = i then apply_transition u actor (db_now d) b else x) (db_bookings d)\<rparr>"
    "user_of d (bk_createdBy b) = Some creator"
    "dto = booking (apply_transition u actor (db_now d) b) creator"
  using run
proof (rule transition_in_Inr)
  fix b u creator
  assume b: "List.find (booking_at ctx i) (db_bookings d) = Some b"
    and facts: "is_action (bt_action data) ''cancel'' \<Longrightarrow> may_cancel ctx actor b"
    "bk_version b = bt_expectedVersion data"
    "resolveTransition (bk_status b) (map_option fst (bk_alternative b)) (map_option snd (bk_alternative b)) data = Inr u"
    and d': "d' = d\<lparr>db_bookings := update_where (\<lambda>x. booking_at ctx i x \<and> bk_version x = bk_version b \<and> bk_status x = bk_status b)
        (apply_transition u actor (db_now d)) (db_bookings d)\<rparr>"
    and dto: "user_of d (bk_createdBy b) = Some creator" "dto = booking (apply_transition u actor (db_now d) b) creator"
  from b have mem: "booking_at ctx i b" "b \<in> set (db_bookings d)" by (auto dest: find_Some_iff')
  have same: "x = b" if "x \<in> set (db_bookings d)" "bk_id x = i" for x
    using ok that mem by (auto simp: bookings_ok_def booking_at_def distinct_map dest: inj_onD)
  have "update_where (\<lambda>x. booking_at ctx i x \<and> bk_version x = bk_version b \<and> bk_status x = bk_status b)
      (apply_transition u actor (db_now d)) (db_bookings d) =
    map (\<lambda>x. if bk_id x = i then apply_transition u actor (db_now d) b else x) (db_bookings d)"
    unfolding update_where_def
  proof (rule map_cong [OF refl])
    fix x assume x: "x \<in> set (db_bookings d)"
    show "(if booking_at ctx i x \<and> bk_version x = bk_version b \<and> bk_status x = bk_status b
        then apply_transition u actor (db_now d) x else x) =
      (if bk_id x = i then apply_transition u actor (db_now d) b else x)"
    proof (cases "bk_id x = i")
      case True
      then show ?thesis using same [OF x True] mem by simp
    qed (simp add: booking_at_def)
  qed
  with d' show thesis using facts dto mem by (intro that) simp_all
qed

lemma bookings_ok_transition:
  assumes ok: "bookings_ok d" and "transitionBookingIntent own ctx i input d = (d', Inr dto)"
  shows "bookings_ok d'"
  using assms(2)
proof (rule transitionBookingIntent_Inr)
  fix data actor
  assume parsed: "parseBookingTransition input = Inr data"
    and auth: "authority d ctx (if is_action (bt_action data) ''cancel'' then Booking_create else Booking_manage) actor"
    and run: "transition_in ctx i data actor d = (d', Inr dto)"
  from ok run show ?thesis
  proof (rule transition_in_replaces)
    fix b u
    let ?b = "apply_transition u actor (db_now d) b"
    assume b: "b \<in> set (db_bookings d)" "booking_at ctx i b"
      and u: "resolveTransition (bk_status b) (map_option fst (bk_alternative b)) (map_option snd (bk_alternative b)) data = Inr u"
      and d': "d' = d\<lparr>db_bookings := map (\<lambda>x. if bk_id x = i then ?b else x) (db_bookings d)\<rparr>"
    have same: "x = b" if "x \<in> set (db_bookings d)" "bk_id x = i" for x
      using ok that b by (auto simp: bookings_ok_def booking_at_def distinct_map dest: inj_onD)
    have "booking_ok d b" using ok b(1) by (simp add: bookings_ok_def)
    then have "booking_ok d ?b"
      using booking_ok_transition [OF _ parseBookingTransition_interval [OF parsed] u] authority_has_member [OF auth] b(2)
      by (simp add: booking_at_def)
    moreover have "map bk_id (db_bookings d') = map bk_id (db_bookings d)"
      "map booking_index (db_bookings d') = map booking_index (db_bookings d)"
      using same b(2) by (auto simp: d' booking_at_def)
    moreover have "set (db_bookings d') \<subseteq> insert ?b (set (db_bookings d))" by (auto simp: d')
    moreover have "booking_ok d' = booking_ok d" by (simp add: d')
    ultimately show ?thesis using ok unfolding bookings_ok_def by (metis insertE subsetD)
  qed
qed

lemma new_booking_fields [simp]:
  "bk_id (new_booking ctx key data customer binding h actor d) = uuid d"
  "bk_tenantId (new_booking ctx key data customer binding h actor d) = scope_tenantId ctx"
  "bk_storeId (new_booking ctx key data customer binding h actor d) = scope_storeId ctx"
  "bk_conversationId (new_booking ctx key data customer binding h actor d) = bc_conversationId data"
  "bk_customerId (new_booking ctx key data customer binding h actor d) = customer"
  "bk_channelBindingId (new_booking ctx key data customer binding h actor d) = binding"
  "bk_requested (new_booking ctx key data customer binding h actor d) = bc_requested data"
  "bk_preferredStaff (new_booking ctx key data customer binding h actor d) = bc_preferredStaffMembershipId data"
  "bk_status (new_booking ctx key data customer binding h actor d) = Pending_confirmation"
  "bk_alternative (new_booking ctx key data customer binding h actor d) = None"
  "bk_confirmed (new_booking ctx key data customer binding h actor d) = None"
  "bk_createdBy (new_booking ctx key data customer binding h actor d) = mem_id actor"
  "bk_updatedBy (new_booking ctx key data customer binding h actor d) = mem_id actor"
  "bk_idempotencyKey (new_booking ctx key data customer binding h actor d) = key"
  "bk_requestHash (new_booking ctx key data customer binding h actor d) = h"
  "bk_version (new_booking ctx key data customer binding h actor d) = 1"
  by (simp_all add: new_booking_def)

lemma insert_booking_Inr:
  "insert_booking ctx b d = (d', Inr r) \<longleftrightarrow> pg_interval_ok (bk_requested b) \<and>
     (if list_ex (booking_key ctx (bk_idempotencyKey b)) (db_bookings d) then d' = d \<and> r = None
      else bk_id b \<notin> bk_id ` set (db_bookings d) \<and> has_store d (scope_tenantId ctx) (scope_storeId ctx) \<and>
        has_customer_conversation d (bk_conversationId b) (scope_tenantId ctx) (scope_storeId ctx) (bk_customerId b) \<and>
        (\<forall>c. bk_channelBindingId b = Some c \<longrightarrow> has_binding d c (scope_tenantId ctx) (scope_storeId ctx)) \<and>
        d' = draw (d\<lparr>db_bookings := db_bookings d @ [b]\<rparr>) \<and> r = Some b)"
  by (auto simp: insert_booking_def Let_def list_ex_key split: if_split_asm option.splits)

definition creation_hash :: "(jstring \<Rightarrow> jstring) \<Rightarrow> exec_context \<Rightarrow> booking_create \<Rightarrow> membership \<Rightarrow> db \<Rightarrow> jstring" where
  "creation_hash sha ctx data actor d =
     sha (stringify (booking_request data (first_of (inbound_bindings d ctx (bc_conversationId data))) actor))"

definition staff_in_scope :: "db \<Rightarrow> exec_context \<Rightarrow> booking_create \<Rightarrow> bool" where
  "staff_in_scope d ctx data \<longleftrightarrow>
     (case bc_preferredStaffMembershipId data of None \<Rightarrow> True | Some m \<Rightarrow> scopedStaff d ctx m)"

lemma create_in_Inr:
  assumes "create_in sha ctx key data actor d = (d', Inr (dto, dup))"
  obtains cv b where
    "List.find (\<lambda>c. cv_tenantId c = scope_tenantId ctx \<and> cv_storeId c = scope_storeId ctx \<and>
       cv_id c = bc_conversationId data) (db_conversations d) = Some cv"
    "staff_in_scope d ctx data" "length (inbound_bindings d ctx (bc_conversationId data)) \<le> 1"
    "pg_interval_ok (bc_requested data)" "dup \<longleftrightarrow> list_ex (booking_key ctx key) (db_bookings d)"
    "dup \<Longrightarrow> d' = d \<and> List.find (booking_key ctx key) (db_bookings d) = Some b"
    "\<not> dup \<Longrightarrow> insert_booking ctx b d = (d', Inr (Some b)) \<and>
       b = new_booking ctx key data (cv_customerId cv)
         (first_of (inbound_bindings d ctx (bc_conversationId data))) (creation_hash sha ctx data actor d) actor d"
    "bk_requestHash b = creation_hash sha ctx data actor d" "dto = booking b (mem_userId actor)"
proof -
  let ?bindings = "inbound_bindings d ctx (bc_conversationId data)"
  let ?h = "creation_hash sha ctx data actor d"
  obtain cv where cv: "List.find (\<lambda>c. cv_tenantId c = scope_tenantId ctx \<and> cv_storeId c = scope_storeId ctx \<and>
       cv_id c = bc_conversationId data) (db_conversations d) = Some cv"
    using assms by (auto simp: create_in_def split: option.splits)
  note run = assms [unfolded create_in_def cv option.case]
  have pre: "staff_in_scope d ctx data" "length ?bindings \<le> 1"
    using run by (auto simp: staff_in_scope_def split: if_split_asm option.splits)
  let ?n = "new_booking ctx key data (cv_customerId cv) (first_of ?bindings) ?h actor d"
  have run2: "(case insert_booking ctx ?n d of
                 (d', Inl e) \<Rightarrow> (d', Inl e)
               | (d', Inr inserted) \<Rightarrow>
                   (case (case inserted of Some b \<Rightarrow> Some b
                          | None \<Rightarrow> List.find (booking_key ctx key) (db_bookings d')) of
                      None \<Rightarrow> (d', Inl Booking_intent_conflict)
                    | Some existing \<Rightarrow>
                        if bk_requestHash existing \<noteq> ?h then (d', Inl Booking_intent_conflict)
                        else (d', Inr (booking existing (mem_userId actor), inserted = None)))) = (d', Inr (dto, dup))"
    unfolding creation_hash_def
    using run pre by (simp add: staff_in_scope_def Let_def split: option.split_asm)
  obtain d1 r where ins: "insert_booking ctx ?n d = (d1, Inr r)"
    using run2 by (cases "insert_booking ctx ?n d"; cases "snd (insert_booking ctx ?n d)") auto
  note run3 = run2 [unfolded ins prod.case sum.case]
  show thesis
  proof (cases r)
    case None
    with run3 obtain b where b: "List.find (booking_key ctx key) (db_bookings d1) = Some b" "bk_requestHash b = ?h"
      "d' = d1" "dto = booking b (mem_userId actor)" "dup" by (auto split: option.splits if_split_asm)
    from ins None have "d1 = d" "list_ex (booking_key ctx key) (db_bookings d)" "pg_interval_ok (bc_requested data)"
      by (auto simp: insert_booking_Inr split: if_split_asm)
    with b show thesis by (intro that [OF cv pre]) auto
  next
    case (Some b)
    from ins Some have i: "\<not> list_ex (booking_key ctx key) (db_bookings d)" "pg_interval_ok (bc_requested data)" "b = ?n"
      by (auto simp: insert_booking_Inr split: if_split_asm)
    from run3 Some i have "d' = d1" "dto = booking b (mem_userId actor)" "\<not> dup" by (auto split: if_split_asm)
    with i ins Some show thesis by (intro that [OF cv pre]) auto
  qed
qed

lemma createBookingIntent_Inr:
  "createBookingIntent own sha ctx key input d = (d', Inr r) \<longleftrightarrow>
     (\<exists>data actor. (\<exists>k. boundedId (Some (JStr key)) = Inr k) \<and> parseBookingCreate input = Inr data \<and>
       authority d ctx Booking_create actor \<and> create_in sha ctx key data actor d = (d', Inr r))"
  by (auto simp: createBookingIntent_def authorized_Inr split: sum.splits)

lemma bookings_ok_create:
  assumes ok: "bookings_ok d" and "createBookingIntent own sha ctx key input d = (d', Inr r)"
  shows "bookings_ok d'"
proof -
  obtain data actor where p: "parseBookingCreate input = Inr data" and a: "authority d ctx Booking_create actor"
    and run: "create_in sha ctx key data actor d = (d', Inr (fst r, snd r))"
    using assms(2) by (auto simp: createBookingIntent_Inr)
  show ?thesis
    using run
  proof (rule create_in_Inr)
    fix cv b
    assume cv: "List.find (\<lambda>c. cv_tenantId c = scope_tenantId ctx \<and> cv_storeId c = scope_storeId ctx \<and>
       cv_id c = bc_conversationId data) (db_conversations d) = Some cv"
      and staff: "staff_in_scope d ctx data" and dup: "snd r \<Longrightarrow> d' = d \<and> List.find (booking_key ctx key) (db_bookings d) = Some b"
      and new: "\<not> snd r \<Longrightarrow> insert_booking ctx b d = (d', Inr (Some b)) \<and>
       b = new_booking ctx key data (cv_customerId cv)
         (first_of (inbound_bindings d ctx (bc_conversationId data))) (creation_hash sha ctx data actor d) actor d"
      and nodup: "snd r \<longleftrightarrow> list_ex (booking_key ctx key) (db_bookings d)"
    show ?thesis
    proof (cases "snd r")
      case True
      then show ?thesis using dup ok by simp
    next
      case False
      note n = new [OF False]
      have d': "d' = draw (d\<lparr>db_bookings := db_bookings d @ [b]\<rparr>)" "bk_id b \<notin> bk_id ` set (db_bookings d)"
        "has_customer_conversation d (bk_conversationId b) (bk_tenantId b) (bk_storeId b) (bk_customerId b)"
        using n nodup False by (auto simp: insert_booking_Inr)
      have "booking_index b \<notin> booking_index ` set (db_bookings d)"
        using nodup False n by (auto simp: list_ex_iff booking_index_def booking_key_def)
      moreover have "booking_ok d b"
        using n staff authority_has_member [OF a] d'(3) parseBookingCreate_interval [OF p]
        by (auto simp: booking_ok_def rank_def staff_in_scope_def scopedStaff_def ordered_def split: option.splits)
      ultimately show ?thesis using ok d'(1,2) by (auto simp: bookings_ok_def)
    qed
  qed
qed

section \<open>The availability table\<close>

definition availability_index :: "availability_row \<Rightarrow> jstring \<times> jstring \<times> jstring \<times> jstring" where
  "availability_index r = (av_tenantId r, av_storeId r, av_staff r, av_date r)"

definition availability_ok :: "db \<Rightarrow> bool" where
  "availability_ok d \<longleftrightarrow> distinct (map av_id (db_availability d)) \<and>
     distinct (map availability_index (db_availability d)) \<and>
     (\<forall>r \<in> set (db_availability d). 1 \<le> av_version r \<and> av_version r \<le> max_int4 \<and>
        has_member d (av_staff r) (av_tenantId r) (av_storeId r) \<and>
        has_member d (av_updatedBy r) (av_tenantId r) (av_storeId r))"

lemma availability_at_index:
  "availability_at ctx staff date r \<longleftrightarrow> availability_index r = (scope_tenantId ctx, scope_storeId ctx, staff, date)"
  by (auto simp: availability_at_def availability_index_def)

text \<open>The version a reader sees for a member of the staff and a day, zero where nothing is stored.\<close>

definition version_at :: "db \<Rightarrow> exec_context \<Rightarrow> jstring \<Rightarrow> jstring \<Rightarrow> int" where
  "version_at d ctx staff date =
     (case List.find (availability_at ctx staff date) (db_availability d) of None \<Rightarrow> 0 | Some r \<Rightarrow> av_version r)"

definition written :: "jstring \<Rightarrow> availability_write \<Rightarrow> jstring \<Rightarrow> membership \<Rightarrow> date \<Rightarrow> availability_row \<Rightarrow> availability_row" where
  "written timeZone data status actor now r =
     r\<lparr>av_timeZone := timeZone, av_windows := aw_windows data, av_status := status,
       av_updatedBy := mem_id actor, av_version := av_version r + 1, av_updatedAt := now\<rparr>"

lemma written_fields [simp]:
  "availability_index (written z w st a now r) = availability_index r" "av_id (written z w st a now r) = av_id r"
  "av_version (written z w st a now r) = av_version r + 1" "av_staff (written z w st a now r) = av_staff r"
  "av_tenantId (written z w st a now r) = av_tenantId r" "av_storeId (written z w st a now r) = av_storeId r"
  "av_updatedBy (written z w st a now r) = mem_id a"
  by (simp_all add: written_def availability_index_def)

lemma write_availability_Some:
  assumes run: "write_availability ctx staff date z data status actor d = (d', Inr (Some r))"
    and ok: "availability_ok d"
  obtains (inserted) "aw_expectedVersion data = 0" "\<forall>x \<in> set (db_availability d). \<not> availability_at ctx staff date x"
      "d' = draw (d\<lparr>db_availability := db_availability d @ [r]\<rparr>)" "av_version r = 1"
      "availability_at ctx staff date r" "av_id r \<notin> av_id ` set (db_availability d)" "av_updatedBy r = mem_id actor"
  | (updated) r0 where "r0 \<in> set (db_availability d)" "availability_at ctx staff date r0"
      "av_version r0 = aw_expectedVersion data" "av_version r0 < max_int4" "aw_expectedVersion data \<noteq> 0"
      "r = written z data status actor (db_now d) r0"
      "d' = d\<lparr>db_availability := map (\<lambda>x. if availability_at ctx staff date x then r else x) (db_availability d)\<rparr>"
proof (cases "aw_expectedVersion data = 0")
  case True
  then have "\<not> list_ex (availability_at ctx staff date) (db_availability d)"
    using run by (auto simp: write_availability_def)
  with True show thesis using run
    by (intro inserted) (auto simp: write_availability_def Let_def list_ex_iff image_iff availability_at_def split: if_split_asm)
next
  case False
  let ?P = "\<lambda>r. availability_at ctx staff date r \<and> av_version r = aw_expectedVersion data"
  obtain r0 where r0: "List.find ?P (db_availability d) = Some r0"
    using run False by (cases "List.find ?P (db_availability d)") (auto simp: write_availability_def split: if_split_asm)
  then have m: "r0 \<in> set (db_availability d)" "?P r0" by (auto dest: find_Some_iff')
  have n: "av_version r0 \<noteq> max_int4" using run False r0 by (auto simp: write_availability_def split: if_split_asm)
  have r: "r = written z data status actor (db_now d) r0"
    "d' = d\<lparr>db_availability := update_where ?P (written z data status actor (db_now d)) (db_availability d)\<rparr>"
    using run False r0 n by (auto simp: write_availability_def written_def [abs_def] Let_def split: if_split_asm)
  have same: "x = r0" if "x \<in> set (db_availability d)" "availability_at ctx staff date x" for x
    using ok that m by (intro key_unique [of availability_index]) (simp_all add: availability_ok_def availability_at_index)
  have "update_where ?P (written z data status actor (db_now d)) (db_availability d) =
      map (\<lambda>x. if availability_at ctx staff date x then r else x) (db_availability d)"
    unfolding update_where_def r(1)
  proof (rule map_cong [OF refl])
    fix x assume "x \<in> set (db_availability d)"
    then show "(if ?P x then written z data status actor (db_now d) x else x) =
        (if availability_at ctx staff date x then written z data status actor (db_now d) r0 else x)"
      using same m(2) by (cases "availability_at ctx staff date x") auto
  qed
  then show thesis using r m n False ok by (intro updated [of r0]) (auto simp: availability_ok_def order.order_iff_strict)
qed

lemma putAvailability_Inr:
  assumes "putAvailability own known zone ctx staff date input d = (d', Inr dto)"
  obtains data actor z status r name where "parseAvailabilityWrite date input = Inr data"
    "authority d ctx Availability_write actor" "scopedStaff d ctx staff"
    "write_availability ctx staff date z data status actor d = (d', Inr (Some r))"
    "dto = availability r name"
proof -
  obtain data actor where p: "parseAvailabilityWrite date input = Inr data" "authority d ctx Availability_write actor"
    and run: "put_in known zone ctx staff date data actor d = (d', Inr dto)"
    using assms by (auto simp: putAvailability_def authorized_Inr split: sum.splits)
  obtain z where z: "validateTimeZone known (zone (scope_tenantId ctx) (scope_storeId ctx)) = Inr z"
    and staff: "scopedStaff d ctx staff"
    using run by (auto simp: put_in_def split: sum.splits if_split_asm)
  obtain status where st: "status_column (aw_status data) = Some status"
    using run z staff by (auto simp: put_in_def split: option.splits)
  have "(case write_availability ctx staff date z data status actor d of
          (d', Inl e) \<Rightarrow> (d', Inl e)
        | (d', Inr None) \<Rightarrow> (d', Inl Availability_conflict)
        | (d', Inr (Some r)) \<Rightarrow> (case display_name d' staff of
              None \<Rightarrow> (d', Inl Database_failure)
            | Some name \<Rightarrow> (d', Inr (availability r name)))) = (d', Inr dto)"
    using run z staff st by (simp add: put_in_def split: if_split_asm)
  then obtain r name where "write_availability ctx staff date z data status actor d = (d', Inr (Some r))" "dto = availability r name"
    by (auto split: prod.splits sum.splits option.splits)
  then show thesis using p staff by (intro that)
qed

lemma put_versions:
  assumes ok: "availability_ok d" and "putAvailability own known zone ctx staff date input d = (d', Inr dto)"
    and p: "parseAvailabilityWrite date input = Inr data"
  shows "version_at d ctx staff date = aw_expectedVersion data \<and>
    version_at d' ctx staff date = aw_expectedVersion data + 1 \<and> ad_version dto = aw_expectedVersion data + 1"
  using assms(2)
proof (rule putAvailability_Inr)
  fix data2 actor z status r name
  assume q: "parseAvailabilityWrite date input = Inr data2"
    and run: "write_availability ctx staff date z data2 status actor d = (d', Inr (Some r))" and dto: "dto = availability r name"
  from p q have [simp]: "data2 = data" by simp
  have unique: "List.find (availability_at ctx staff date) xs = Some x"
    if "distinct (map availability_index xs)" "x \<in> set xs" "availability_at ctx staff date x" for xs x
    using that by (intro find_unique [where k = availability_index]) (simp_all add: availability_at_index)
  from run ok show ?thesis
  proof (cases rule: write_availability_Some)
    case inserted
    then show ?thesis by (auto simp: version_at_def dto availability_def find_append find_None_iff split: option.splits dest: find_Some_iff')
  next
    case (updated r0)
    have "List.find (availability_at ctx staff date) (db_availability d) = Some r0"
      using ok updated by (intro unique) (simp_all add: availability_ok_def)
    moreover have "List.find (availability_at ctx staff date) (db_availability d') = Some r"
    proof (rule unique)
      have "map availability_index (db_availability d') = map availability_index (db_availability d)"
        using updated by (auto simp: availability_at_index)
      then show "distinct (map availability_index (db_availability d'))" using ok by (simp add: availability_ok_def)
      show "r \<in> set (db_availability d')" using updated by auto
      show "availability_at ctx staff date r" using updated by (simp add: availability_at_index)
    qed
    ultimately show ?thesis using updated by (simp add: version_at_def dto availability_def)
  qed
qed

lemma availability_ok_put:
  assumes ok: "availability_ok d" and "putAvailability own known zone ctx staff date input d = (d', Inr dto)"
  shows "availability_ok d'"
  using assms(2)
proof (rule putAvailability_Inr)
  fix data actor z status r name
  assume auth: "authority d ctx Availability_write actor" and staff: "scopedStaff d ctx staff"
    and run: "write_availability ctx staff date z data status actor d = (d', Inr (Some r))"
  have by_actor: "has_member d (mem_id actor) (scope_tenantId ctx) (scope_storeId ctx)"
    using authority_has_member [OF auth] .
  from run ok show ?thesis
  proof (cases rule: write_availability_Some)
    case inserted
    then show ?thesis using ok staff by_actor
      by (auto simp: availability_ok_def availability_at_index scopedStaff_def max_int4_def availability_index_def)
  next
    case (updated r0)
    have "map availability_index (db_availability d') = map availability_index (db_availability d)"
      using updated by (auto simp: availability_at_index)
    moreover have "map av_id (db_availability d') = map av_id (db_availability d)"
    proof -
      have same: "x = r0" if "x \<in> set (db_availability d)" "availability_at ctx staff date x" for x
        using ok that updated(1,2) by (intro key_unique [of availability_index]) (simp_all add: availability_ok_def availability_at_index)
      have "av_id (if availability_at ctx staff date x then r else x) = av_id x" if "x \<in> set (db_availability d)" for x
        using same [OF that] by (simp add: updated(6))
      then show ?thesis by (simp add: updated(7))
    qed
    moreover have "set (db_availability d') \<subseteq> insert r (set (db_availability d))" using updated by auto
    moreover have "has_member d' = has_member d" using updated by simp
    moreover have "1 \<le> av_version r \<and> av_version r \<le> max_int4 \<and> has_member d (av_staff r) (av_tenantId r) (av_storeId r) \<and>
        has_member d (av_updatedBy r) (av_tenantId r) (av_storeId r)"
      using updated ok by_actor by (auto simp: availability_ok_def availability_at_def)
    ultimately show ?thesis using ok unfolding availability_ok_def by (metis insertE subsetD)
  qed
qed

section \<open>Sequences of operations\<close>

text \<open>
  A step is a call of one of the writing operations, with any context and input and whatever its
  result, or a change of the rest of the database (memberships, conversations, the clock, the
  messages of the channels) that keeps the rows the bookings and the availability refer to.
\<close>

inductive storeops_step ::
  "(jstring \<Rightarrow> bool) \<Rightarrow> (jstring \<Rightarrow> jstring \<Rightarrow> jstring option) \<Rightarrow> (jstring \<Rightarrow> jstring) \<Rightarrow> db \<Rightarrow> db \<Rightarrow> bool"
  for known zone sha where
  put: "storeops_step known zone sha d (fst (putAvailability True known zone ctx staff date input d))"
| create: "storeops_step known zone sha d (fst (createBookingIntent True sha ctx key input d))"
| transition: "storeops_step known zone sha d (fst (transitionBookingIntent True ctx i input d))"
| environment: "storeops_step known zone sha d d'"
    if "db_bookings d' = db_bookings d" and "db_availability d' = db_availability d"
      and "\<And>m t s. has_member d m t s \<Longrightarrow> has_member d' m t s"
      and "\<And>c t s u. has_customer_conversation d c t s u \<Longrightarrow> has_customer_conversation d' c t s u"

text \<open>How a booking intent may change.\<close>

definition evolves :: "booking_row \<Rightarrow> booking_row \<Rightarrow> bool" where
  "evolves b b' \<longleftrightarrow> b' = b \<or>
     (fixed_part b' = fixed_part b \<and> bk_version b < bk_version b' \<and>
      bk_version b' - bk_version b \<le> rank (bk_status b') - rank (bk_status b) \<and>
      (bk_alternative b \<noteq> None \<longrightarrow> bk_alternative b' = bk_alternative b) \<and>
      (bk_confirmed b \<noteq> None \<longrightarrow> bk_confirmed b' = bk_confirmed b))"

lemma evolves_refl [simp]: "evolves b b"
  by (simp add: evolves_def)

lemma evolves_trans: "evolves a b \<Longrightarrow> evolves b c \<Longrightarrow> evolves a c"
  unfolding evolves_def by (elim disjE conjE) (simp_all del: not_None_eq)

lemma rank_bound: "0 \<le> rank s \<and> rank s \<le> 3"
  by (simp add: rank_def split: booking_status.split)

lemma evolves_cancelled:
  assumes "evolves b b'" and "bk_status b = Cancelled" shows "b' = b"
  using assms rank_bound [of "bk_status b'"] by (auto simp: evolves_def rank_def [of Cancelled])

definition tables_ok :: "db \<Rightarrow> bool" where
  "tables_ok d \<longleftrightarrow> bookings_ok d \<and> availability_ok d"

lemma availability_ok_bookings [simp]:
  "availability_ok (d\<lparr>db_bookings := x\<rparr>) = availability_ok d" "availability_ok (draw d) = availability_ok d"
  by (simp_all add: availability_ok_def)

lemma bookings_ok_availability [simp]: "bookings_ok (d\<lparr>db_availability := x\<rparr>) = bookings_ok d"
  "bookings_ok (draw d) = bookings_ok d"
  by (simp_all add: bookings_ok_def)

lemma create_keeps_availability:
  assumes "createBookingIntent own sha ctx key input d = (d', Inr r)"
  shows "(d' = d \<or> (\<exists>b. d' = draw (d\<lparr>db_bookings := db_bookings d @ [b]\<rparr>)))"
proof -
  obtain data actor where "create_in sha ctx key data actor d = (d', Inr (fst r, snd r))"
    using assms by (auto simp: createBookingIntent_Inr)
  then show ?thesis
  proof (rule create_in_Inr)
    fix cv b
    assume "snd r \<Longrightarrow> d' = d \<and> List.find (booking_key ctx key) (db_bookings d) = Some b"
      and "\<not> snd r \<Longrightarrow> insert_booking ctx b d = (d', Inr (Some b)) \<and>
       b = new_booking ctx key data (cv_customerId cv)
         (first_of (inbound_bindings d ctx (bc_conversationId data))) (creation_hash sha ctx data actor d) actor d"
    then show ?thesis by (cases "snd r") (auto simp: insert_booking_Inr split: if_split_asm)
  qed
qed

lemma put_keeps_bookings:
  assumes "availability_ok d" and "putAvailability own known zone ctx staff date input d = (d', Inr r)"
  shows "\<exists>x. d' = d\<lparr>db_availability := x\<rparr> \<or> d' = draw (d\<lparr>db_availability := x\<rparr>)"
  using assms(2)
proof (rule putAvailability_Inr)
  fix data actor z status r'
  assume "write_availability ctx staff date z data status actor d = (d', Inr (Some r'))"
  from this assms(1) show ?thesis by (cases rule: write_availability_Some) blast+
qed

lemma transition_in_evolves:
  assumes ok: "bookings_ok d" and run: "transition_in ctx i data actor d = (d', Inr dto)" and b: "b \<in> set (db_bookings d)"
  shows "\<exists>b' \<in> set (db_bookings d'). evolves b b'"
  using ok run
proof (rule transition_in_replaces)
  fix b0 u
  let ?b = "apply_transition u actor (db_now d) b0"
  assume b0: "b0 \<in> set (db_bookings d)" "booking_at ctx i b0"
    and u: "resolveTransition (bk_status b0) (map_option fst (bk_alternative b0)) (map_option snd (bk_alternative b0)) data = Inr u"
    and d': "d' = d\<lparr>db_bookings := map (\<lambda>x. if bk_id x = i then ?b else x) (db_bookings d)\<rparr>"
  show ?thesis
  proof (cases "bk_id b = i")
    case True
    then have "b = b0" using key_unique [of bk_id "db_bookings d" b b0] ok b b0 by (simp add: bookings_ok_def booking_at_def)
    moreover have "evolves b0 ?b"
    proof -
      note t = resolveTransition_table [OF u]
      have inv: "booking_ok d b0" using ok b0(1) by (simp add: bookings_ok_def)
      have "bk_alternative b0 \<noteq> None \<Longrightarrow> tr_alternative u = None"
        using inv t by (cases "bk_status b0") (auto simp: booking_ok_def rank_def split: booking_status.splits)
      moreover have "bk_confirmed b0 \<noteq> None \<Longrightarrow> tr_confirmed u = None"
        using inv t by (cases "bk_status b0") (auto simp: booking_ok_def rank_def split: booking_status.splits)
      ultimately show ?thesis using t by (auto simp: evolves_def)
    qed
    ultimately show ?thesis using b True by (intro bexI [of _ ?b]) (auto simp: d')
  next
    case False
    then show ?thesis using b by (intro bexI [of _ b]) (auto simp: d')
  qed
qed

lemma storeops_step_ok:
  assumes "storeops_step known zone sha d d'" and ok: "tables_ok d"
  shows "tables_ok d' \<and> (\<forall>b \<in> set (db_bookings d). \<exists>b' \<in> set (db_bookings d'). evolves b b')"
  using assms(1)
proof cases
  case (put ctx staff date input)
  show ?thesis
  proof (cases "putAvailability True known zone ctx staff date input d")
    case (Pair d1 r)
    show ?thesis
    proof (cases r)
      case (Inl e)
      then show ?thesis using put ok putAvailability_Inl Pair by (metis evolves_refl fst_conv)
    next
      case (Inr x)
      note run = Pair [unfolded Inr]
      have "availability_ok d" "bookings_ok d" using ok by (simp_all add: tables_ok_def)
      then show ?thesis using put Pair availability_ok_put [OF _ run] put_keeps_bookings [OF _ run]
        by (auto simp: tables_ok_def intro: evolves_refl)
    qed
  qed
next
  case (create ctx key input)
  show ?thesis
  proof (cases "createBookingIntent True sha ctx key input d")
    case (Pair d1 r)
    show ?thesis
    proof (cases r)
      case (Inl e)
      then show ?thesis using create ok createBookingIntent_Inl Pair by (metis evolves_refl fst_conv)
    next
      case (Inr x)
      note run = Pair [unfolded Inr]
      have "availability_ok d" "bookings_ok d" using ok by (simp_all add: tables_ok_def)
      then show ?thesis using create Pair bookings_ok_create [OF _ run] create_keeps_availability [OF run]
        by (auto simp: tables_ok_def intro: evolves_refl)
    qed
  qed
next
  case (transition ctx i input)
  show ?thesis
  proof (cases "transitionBookingIntent True ctx i input d")
    case (Pair d1 r)
    show ?thesis
    proof (cases r)
      case (Inl e)
      then show ?thesis using transition ok transitionBookingIntent_Inl Pair by (metis evolves_refl fst_conv)
    next
      case (Inr x)
      note run = Pair [unfolded Inr]
      have oks: "availability_ok d" "bookings_ok d" using ok by (simp_all add: tables_ok_def)
      from run show ?thesis
      proof (rule transitionBookingIntent_Inr)
        fix data actor
        assume t: "transition_in ctx i data actor d = (d1, Inr x)"
        from t have "availability_ok d1" by (rule transition_in_Inr) (simp add: oks(1))
        then show ?thesis using transition Pair bookings_ok_transition [OF oks(2) run] transition_in_evolves [OF oks(2) t]
          by (simp add: tables_ok_def)
      qed
    qed
  qed
next
  case environment
  moreover have "\<forall>b \<in> set (db_bookings d). \<exists>b' \<in> set (db_bookings d). evolves b b'" by (meson evolves_refl)
  ultimately show ?thesis using ok
    by (auto simp: tables_ok_def bookings_ok_def availability_ok_def intro: booking_ok_mono)
qed

lemma storeops_steps_ok:
  assumes "(storeops_step known zone sha)\<^sup>*\<^sup>* d d'" and "tables_ok d"
  shows "tables_ok d' \<and> (\<forall>b \<in> set (db_bookings d). \<exists>b' \<in> set (db_bookings d'). evolves b b')"
  using assms(1)
proof (induction rule: rtranclp_induct)
  case base
  then show ?case using assms(2) by (auto intro: evolves_refl)
next
  case (step d1 d2)
  then show ?case using storeops_step_ok [OF step(2)] by (meson evolves_trans)
qed

section \<open>Properties\<close>

text \<open>
  C7. The life cycle of a booking intent over every sequence of store operations and changes of the
  rest of the database: the tables stay well-formed; an intent is never lost and keeps its
  conversation, customer, request, creator and key; each change raises its version and moves it
  forward along pending, alternative proposed, confirmed, cancelled, so there are at most three
  changes; a cancelled intent never changes again; and an interval once proposed or confirmed
  stays, a confirmation after a proposal being of exactly the proposed interval.
\<close>

theorem booking_life_cycle:
  assumes "tables_ok d" and "(storeops_step known zone sha)\<^sup>*\<^sup>* d d'" and "b \<in> set (db_bookings d)"
  shows "tables_ok d' \<and> (\<exists>b' \<in> set (db_bookings d').
    fixed_part b' = fixed_part b \<and>
    (b' \<noteq> b \<longrightarrow> bk_version b < bk_version b' \<and> rank (bk_status b) < rank (bk_status b')) \<and>
    bk_version b' \<le> 4 \<and> (bk_status b = Cancelled \<longrightarrow> b' = b) \<and>
    (bk_alternative b \<noteq> None \<longrightarrow> bk_alternative b' = bk_alternative b) \<and>
    (bk_confirmed b \<noteq> None \<longrightarrow> bk_confirmed b' = bk_confirmed b) \<and>
    (bk_alternative b' \<noteq> None \<and> bk_confirmed b' \<noteq> None \<longrightarrow> bk_confirmed b' = bk_alternative b'))"
proof -
  obtain b' where b': "tables_ok d'" "b' \<in> set (db_bookings d')" "evolves b b'"
    using storeops_steps_ok [OF assms(2,1)] assms(3) by blast
  have inv: "booking_ok d' b'" using b' by (simp add: tables_ok_def bookings_ok_def)
  then have "bk_version b' \<le> 4" using rank_bound [of "bk_status b'"] by (simp add: booking_ok_def)
  moreover have "bk_alternative b' \<noteq> None \<and> bk_confirmed b' \<noteq> None \<longrightarrow> bk_confirmed b' = bk_alternative b'"
    using inv unfolding booking_ok_def by blast
  moreover have "bk_status b = Cancelled \<longrightarrow> b' = b" using evolves_cancelled [OF b'(3)] by blast
  moreover have "fixed_part b' = fixed_part b \<and>
      (b' \<noteq> b \<longrightarrow> bk_version b < bk_version b' \<and> rank (bk_status b) < rank (bk_status b')) \<and>
      (bk_alternative b \<noteq> None \<longrightarrow> bk_alternative b' = bk_alternative b) \<and>
      (bk_confirmed b \<noteq> None \<longrightarrow> bk_confirmed b' = bk_confirmed b)"
    using b'(3) by (auto simp: evolves_def)
  ultimately show ?thesis using b' by blast
qed

definition demo_sha :: "jstring \<Rightarrow> jstring" where
  "demo_sha s = js ''h''"

definition demo_create_input :: json where
  "demo_create_input = JObj [(js ''conversationId'', JStr (js ''c'')), (js ''requestedService'', JStr (js ''cut''))]"

definition demo_cancel_input :: json where
  "demo_cancel_input = JObj [(js ''action'', JStr (js ''cancel'')), (js ''expectedVersion'', JNum (Num 1))]"

definition demo_booking :: booking_row where
  "demo_booking = new_booking demo_agent (js ''k1'') \<lparr>bc_conversationId = js ''c'', bc_requestedService = js ''cut'',
     bc_requested = None, bc_preferredStaffMembershipId = None\<rparr> (js ''k'') None (js ''h'')
     \<lparr>mem_id = js ''m2'', mem_userId = js ''u2'', mem_tenantId = js ''t'', mem_storeId = js ''s'',
         mem_role = Agent, mem_createdAt = 0\<rparr> demo_db"

definition demo_booked :: db where
  "demo_booked = draw (demo_db\<lparr>db_bookings := [demo_booking]\<rparr>)"

lemma demo_parse_create:
  "parseBookingCreate demo_create_input = Inr \<lparr>bc_conversationId = js ''c'', bc_requestedService = js ''cut'',
     bc_requested = None, bc_preferredStaffMembershipId = None\<rparr>"
  by (simp add: parseBookingCreate_def demo_create_input_def object_def keys_within_def field_def interval_def
      boundedId_def blank_iff js_simps is_space_def)

lemma demo_parse_cancel:
  "parseBookingTransition demo_cancel_input =
     Inr \<lparr>bt_expectedVersion = 1, bt_action = JStr (js ''cancel''), bt_interval = None\<rparr>"
  by (simp add: parseBookingTransition_def demo_cancel_input_def object_def keys_within_def field_def interval_def
      keyword_def is_action_def version_def as_safe_integer_def max_safe_integer_def Let_def)

lemma demo_id: "boundedId (Some (JStr (js ''k1''))) = Inr (js ''k1'')"
  by (simp add: boundedId_def blank_iff js_simps is_space_def)

lemma demo_created:
  "createBookingIntent own demo_sha demo_agent (js ''k1'') demo_create_input demo_db =
     (demo_booked, Inr (booking demo_booking (js ''u2''), False))"
proof -
  have "authority demo_db demo_agent Booking_create
      \<lparr>mem_id = js ''m2'', mem_userId = js ''u2'', mem_tenantId = js ''t'', mem_storeId = js ''s'',
         mem_role = Agent, mem_createdAt = 0\<rparr>" (is "authority _ _ _ ?a")
    by (simp add: authority_def demo_agent_def demo_db_def)
  moreover have "create_in demo_sha demo_agent (js ''k1'') \<lparr>bc_conversationId = js ''c'', bc_requestedService = js ''cut'',
     bc_requested = None, bc_preferredStaffMembershipId = None\<rparr> ?a demo_db = (demo_booked, Inr (booking demo_booking (js ''u2''), False))"
    by (simp add: create_in_def demo_booked_def demo_booking_def demo_db_def demo_agent_def insert_booking_def has_store_def
        has_customer_conversation_def inbound_bindings_def List.map_filter_def first_of_def pg_interval_ok_def demo_sha_def Let_def)
  ultimately show ?thesis using demo_id demo_parse_create by (auto simp: createBookingIntent_Inr)
qed

lemma demo_tables_ok: "tables_ok demo_db"
  by (simp add: tables_ok_def bookings_ok_def availability_ok_def demo_db_def)

lemma demo_booked_ok: "tables_ok demo_booked"
  using storeops_step_ok [OF storeops_step.create [of "\<lambda>_. True" "\<lambda>_ _. None" demo_sha demo_db demo_agent "js ''k1''" demo_create_input] demo_tables_ok]
  by (simp add: demo_created)

lemma demo_booked_rows: "db_bookings demo_booked = [demo_booking]"
  by (simp add: demo_booked_def)

theorem booking_life_cycle_witness:
  "let d' = fst (transitionBookingIntent True demo_agent (bk_id demo_booking) demo_cancel_input demo_booked) in
     tables_ok d' \<and> (\<exists>b' \<in> set (db_bookings d'). fixed_part b' = fixed_part demo_booking)"
  using booking_life_cycle [OF demo_booked_ok
      r_into_rtranclp [of "storeops_step (\<lambda>_. True) (\<lambda>_ _. None) demo_sha", OF storeops_step.transition
        [of _ _ _ demo_booked demo_agent "bk_id demo_booking" demo_cancel_input]], of demo_booking]
  by (auto simp: Let_def demo_booked_rows)

text \<open>
  C8. A transition of a booking intent happens only under current authority and changes one row: the
  caller is the only membership of its user, in the scope and role of its context; the row was at
  the version the caller expected and moves along an edge of the transition table, its version
  growing by one; confirming and proposing need a manager, cancelling a manager or the creator of
  a pending intent; a confirmation of a proposal takes exactly the proposed interval; and nothing
  else in the database changes.
\<close>

theorem booking_transition_sound:
  assumes "bookings_ok d" and "transitionBookingIntent own ctx i input d = (d', Inr dto)"
  shows "\<exists>actor b b' data. parseBookingTransition input = Inr data \<and>
    filter (\<lambda>m. mem_userId m = actor_userId ctx) (db_memberships d) = [actor] \<and>
    (mem_tenantId actor, mem_storeId actor, mem_role actor) = (scope_tenantId ctx, scope_storeId ctx, actor_role ctx) \<and>
    b \<in> set (db_bookings d) \<and> (bk_id b, bk_tenantId b, bk_storeId b) = (i, scope_tenantId ctx, scope_storeId ctx) \<and>
    bk_version b = bt_expectedVersion data \<and> bk_version b' = bk_version b + 1 \<and> fixed_part b' = fixed_part b \<and>
    (bk_status b, bk_status b') \<in> {(Pending_confirmation, Alternative_proposed), (Pending_confirmation, Confirmed),
      (Alternative_proposed, Confirmed), (Pending_confirmation, Cancelled), (Alternative_proposed, Cancelled),
      (Confirmed, Cancelled)} \<and>
    (if bk_status b' = Cancelled
     then mem_role actor \<noteq> Agent \<or> (bk_createdBy b = mem_id actor \<and> bk_status b = Pending_confirmation)
     else mem_role actor \<noteq> Agent) \<and>
    (bk_status b = Alternative_proposed \<and> bk_status b' = Confirmed \<longrightarrow> bk_confirmed b' = bk_alternative b) \<and>
    d' = d\<lparr>db_bookings := map (\<lambda>x. if bk_id x = i then b' else x) (db_bookings d)\<rparr>"
  using assms(2)
proof (rule transitionBookingIntent_Inr)
  fix data actor
  assume p: "parseBookingTransition input = Inr data"
    and auth: "authority d ctx (if is_action (bt_action data) ''cancel'' then Booking_create else Booking_manage) actor"
    and run: "transition_in ctx i data actor d = (d', Inr dto)"
  from assms(1) run show ?thesis
  proof (rule transition_in_replaces)
    fix b u
    let ?b = "apply_transition u actor (db_now d) b"
    assume b: "b \<in> set (db_bookings d)" "booking_at ctx i b" "bk_version b = bt_expectedVersion data"
      and may: "is_action (bt_action data) ''cancel'' \<Longrightarrow> may_cancel ctx actor b"
      and u: "resolveTransition (bk_status b) (map_option fst (bk_alternative b)) (map_option snd (bk_alternative b)) data = Inr u"
      and d': "d' = d\<lparr>db_bookings := map (\<lambda>x. if bk_id x = i then ?b else x) (db_bookings d)\<rparr>"
    note t = resolveTransition_table [OF u]
    have edge: "(bk_status b, tr_status u) \<in> {(Pending_confirmation, Alternative_proposed), (Pending_confirmation, Confirmed),
      (Alternative_proposed, Confirmed), (Pending_confirmation, Cancelled), (Alternative_proposed, Cancelled), (Confirmed, Cancelled)}"
      using t by (cases "bk_status b"; cases "tr_status u") (simp_all add: rank_def)
    have who: "if tr_status u = Cancelled
     then mem_role actor \<noteq> Agent \<or> (bk_createdBy b = mem_id actor \<and> bk_status b = Pending_confirmation)
     else mem_role actor \<noteq> Agent"
      using t may auth by (auto simp: may_cancel_def authority_def)
    have conf: "bk_status b = Alternative_proposed \<and> tr_status u = Confirmed \<longrightarrow> bk_confirmed ?b = bk_alternative b"
      using t by (auto simp: rank_def split: option.split)
    show ?thesis
      by (rule exI [of _ actor], rule exI [of _ b], rule exI [of _ ?b], rule exI [of _ data])
        (use p auth b edge who conf d' in \<open>simp add: authority_def booking_at_def\<close>)
  qed
qed

lemma demo_cancelled:
  "\<exists>d' dto. transitionBookingIntent True demo_agent (js ''k1'') demo_cancel_input
     (demo_booked\<lparr>db_bookings := [demo_booking\<lparr>bk_id := js ''k1''\<rparr>]\<rparr>) = (d', Inr dto)"
proof -
  have "transition_in demo_agent (js ''k1'') \<lparr>bt_expectedVersion = 1, bt_action = JStr (js ''cancel''), bt_interval = None\<rparr>
      \<lparr>mem_id = js ''m2'', mem_userId = js ''u2'', mem_tenantId = js ''t'', mem_storeId = js ''s'', mem_role = Agent, mem_createdAt = 0\<rparr>
      (demo_booked\<lparr>db_bookings := [demo_booking\<lparr>bk_id := js ''k1''\<rparr>]\<rparr>) =
    (let d = demo_booked\<lparr>db_bookings := [(demo_booking\<lparr>bk_id := js ''k1''\<rparr>)
        \<lparr>bk_status := Cancelled, bk_alternative := None, bk_confirmed := None, bk_updatedBy := js ''m2'', bk_version := 2, bk_updatedAt := 1000\<rparr>]\<rparr>
     in (d, Inr (booking (hd (db_bookings d)) (js ''u2''))))"
    by (simp add: transition_in_def booking_at_def demo_booking_def demo_agent_def is_action_def may_cancel_def
        resolveTransition_def pg_interval_ok_def max_int4_def update_where_def user_of_def demo_booked_def demo_db_def
        apply_transition_def Let_def new_booking_def)
  moreover have "authority (demo_booked\<lparr>db_bookings := x\<rparr>) demo_agent Booking_create
      \<lparr>mem_id = js ''m2'', mem_userId = js ''u2'', mem_tenantId = js ''t'', mem_storeId = js ''s'', mem_role = Agent, mem_createdAt = 0\<rparr>" for x
    by (simp add: authority_def demo_agent_def demo_booked_def demo_db_def)
  ultimately show ?thesis
    using demo_id demo_parse_cancel by (auto simp: transitionBookingIntent_def authorized_Inr Let_def is_action_def)
qed

theorem booking_transition_sound_witness:
  "\<exists>d' dto b'. transitionBookingIntent True demo_agent (js ''k1'') demo_cancel_input
       (demo_booked\<lparr>db_bookings := [demo_booking\<lparr>bk_id := js ''k1''\<rparr>]\<rparr>) = (d', Inr dto) \<and>
     db_bookings d' = [b'] \<and> bk_version b' = 2 \<and> fixed_part b' = fixed_part (demo_booking\<lparr>bk_id := js ''k1''\<rparr>)"
proof -
  have ok: "bookings_ok (demo_booked\<lparr>db_bookings := [demo_booking\<lparr>bk_id := js ''k1''\<rparr>]\<rparr>)"
    using demo_booked_ok by (auto simp: tables_ok_def bookings_ok_def demo_booked_rows booking_ok_def)
  obtain d' dto where run: "transitionBookingIntent True demo_agent (js ''k1'') demo_cancel_input
     (demo_booked\<lparr>db_bookings := [demo_booking\<lparr>bk_id := js ''k1''\<rparr>]\<rparr>) = (d', Inr dto)"
    using demo_cancelled by blast
  obtain b b' where "b \<in> set [demo_booking\<lparr>bk_id := js ''k1''\<rparr>]" "bk_version b' = bk_version b + 1" "fixed_part b' = fixed_part b"
    "db_bookings d' = map (\<lambda>x. if bk_id x = js ''k1'' then b' else x) [demo_booking\<lparr>bk_id := js ''k1''\<rparr>]"
    using booking_transition_sound [OF ok run] by (elim exE conjE) (rule that, simp_all)
  then have "bk_version b' = 2" "fixed_part b' = fixed_part (demo_booking\<lparr>bk_id := js ''k1''\<rparr>)" "db_bookings d' = [b']"
    by (auto simp: demo_booking_def)
  then show ?thesis using run by (intro exI [of _ d'] exI [of _ dto] exI [of _ b']) simp
qed

definition refusal :: "db \<Rightarrow> exec_context \<Rightarrow> booking_create \<Rightarrow> storeops_error" where
  "refusal d ctx data =
     (if (\<forall>c \<in> set (db_conversations d). cv_tenantId c = scope_tenantId ctx \<and> cv_storeId c = scope_storeId ctx \<longrightarrow>
            cv_id c \<noteq> bc_conversationId data) \<or>
          (\<exists>m. bc_preferredStaffMembershipId data = Some m \<and> \<not> has_member d m (scope_tenantId ctx) (scope_storeId ctx))
      then Not_found
      else if length (inbound_bindings d ctx (bc_conversationId data)) \<le> 1 \<and> \<not> pg_interval_ok (bc_requested data)
      then Database_failure else Booking_intent_conflict)"

text \<open>A request under a used key whose hash differs.\<close>

lemma create_in_refused:
  assumes "list_ex (booking_key ctx key) (db_bookings d')" and "List.find (booking_key ctx key) (db_bookings d') = Some b"
    and "bk_requestHash b \<noteq> creation_hash sha ctx data actor d'"
    and "db_conversations d' = db_conversations d" "inbound_bindings d' = inbound_bindings d" "scopedStaff d' = scopedStaff d"
  shows "create_in sha ctx key data actor d' = (d', Inl (refusal d ctx data))"
proof (cases "List.find (\<lambda>c. cv_tenantId c = scope_tenantId ctx \<and> cv_storeId c = scope_storeId ctx \<and>
     cv_id c = bc_conversationId data) (db_conversations d)")
  case None
  then have "refusal d ctx data = Not_found" by (auto simp: refusal_def find_None_iff)
  then show ?thesis using assms(4) None by (simp add: create_in_def)
next
  case (Some cv)
  then have "\<not> (\<forall>c \<in> set (db_conversations d). cv_tenantId c = scope_tenantId ctx \<and> cv_storeId c = scope_storeId ctx \<longrightarrow>
      cv_id c \<noteq> bc_conversationId data)" by (auto simp: find_Some_iff)
  moreover have "(case bc_preferredStaffMembershipId data of None \<Rightarrow> False | Some m \<Rightarrow> \<not> scopedStaff d ctx m) \<longleftrightarrow>
      (\<exists>m. bc_preferredStaffMembershipId data = Some m \<and> \<not> has_member d m (scope_tenantId ctx) (scope_storeId ctx))"
    by (auto simp: scopedStaff_def split: option.splits)
  ultimately show ?thesis
    using assms Some by (cases "bc_preferredStaffMembershipId data")
      (auto simp: create_in_def refusal_def insert_booking_def Let_def creation_hash_def)
qed

text \<open>
  C9. Creating a booking intent is idempotent: once a creation has succeeded exactly one intent exists
  under the key in the scope; the same request of the same caller gives the same intent back as a
  duplicate and writes nothing; and a request under the key whose hash differs writes nothing and is refused: as a
  conflict, unless its conversation or preferred member is not of the scope (not found) or, with at most one
  channel binding, its interval is none the database stores.
\<close>

theorem booking_create_idempotent:
  assumes "bookings_ok d" and "createBookingIntent own sha ctx key input d = (d', Inr (dto, dup))"
  shows "(\<exists>b. filter (booking_key ctx key) (db_bookings d') = [b] \<and> bk_id b = bd_id dto) \<and>
    createBookingIntent own sha ctx key input d' = (d', Inr (dto, True)) \<and>
    (\<forall>input2 data data2 actor. parseBookingCreate input = Inr data \<longrightarrow> parseBookingCreate input2 = Inr data2 \<longrightarrow>
      authority d ctx Booking_create actor \<longrightarrow> creation_hash sha ctx data actor d \<noteq> creation_hash sha ctx data2 actor d \<longrightarrow>
      createBookingIntent own sha ctx key input2 d' = (d', Inl
        (if (\<forall>c \<in> set (db_conversations d). cv_tenantId c = scope_tenantId ctx \<and> cv_storeId c = scope_storeId ctx \<longrightarrow>
              cv_id c \<noteq> bc_conversationId data2) \<or>
            (\<exists>m. bc_preferredStaffMembershipId data2 = Some m \<and> \<not> has_member d m (scope_tenantId ctx) (scope_storeId ctx))
         then Not_found
         else if length (inbound_bindings d ctx (bc_conversationId data2)) \<le> 1 \<and> \<not> pg_interval_ok (bc_requested data2)
         then Database_failure else Booking_intent_conflict)))"
proof -
  obtain data actor k where k: "boundedId (Some (JStr key)) = Inr k" and p: "parseBookingCreate input = Inr data"
    and a: "authority d ctx Booking_create actor" and run: "create_in sha ctx key data actor d = (d', Inr (dto, dup))"
    using assms(2) by (auto simp: createBookingIntent_Inr)
  have ok': "bookings_ok d'" using bookings_ok_create [OF assms] .
  from run show ?thesis
  proof (rule create_in_Inr)
    fix cv b
    assume cv: "List.find (\<lambda>c. cv_tenantId c = scope_tenantId ctx \<and> cv_storeId c = scope_storeId ctx \<and>
       cv_id c = bc_conversationId data) (db_conversations d) = Some cv"
      and pre: "staff_in_scope d ctx data" "length (inbound_bindings d ctx (bc_conversationId data)) \<le> 1"
        "pg_interval_ok (bc_requested data)"
      and dup: "dup \<longleftrightarrow> list_ex (booking_key ctx key) (db_bookings d)"
        "dup \<Longrightarrow> d' = d \<and> List.find (booking_key ctx key) (db_bookings d) = Some b"
      and new: "\<not> dup \<Longrightarrow> insert_booking ctx b d = (d', Inr (Some b)) \<and>
       b = new_booking ctx key data (cv_customerId cv)
         (first_of (inbound_bindings d ctx (bc_conversationId data))) (creation_hash sha ctx data actor d) actor d"
      and h: "bk_requestHash b = creation_hash sha ctx data actor d" and dto: "dto = booking b (mem_userId actor)"
    have d': "d' = d \<or> d' = draw (d\<lparr>db_bookings := db_bookings d @ [b]\<rparr>)"
      using dup new by (cases dup) (auto simp: insert_booking_Inr split: if_split_asm)
    have find: "List.find (booking_key ctx key) (db_bookings d') = Some b"
    proof (cases dup)
      case False
      then have "List.find (booking_key ctx key) (db_bookings d) = None" "booking_key ctx key b"
        "d' = draw (d\<lparr>db_bookings := db_bookings d @ [b]\<rparr>)"
        using new dup(1) by (auto simp: insert_booking_Inr find_None_iff list_ex_iff booking_key_def split: if_split_asm)
      then show ?thesis by (simp add: find_append)
    qed (use dup in simp)
    have frame: "db_conversations d' = db_conversations d" "authority d' = authority d"
      "inbound_bindings d' = inbound_bindings d" "scopedStaff d' = scopedStaff d"
      using d' by (auto simp: fun_eq_iff authority_def inbound_bindings_def scopedStaff_def has_member_def)
    have same_hash: "creation_hash sha ctx x actor d' = creation_hash sha ctx x actor d" for x
      by (simp add: creation_hash_def frame)
    have b: "b \<in> set (db_bookings d')" "booking_key ctx key b" using find by (auto dest: find_Some_iff')
    have exists': "list_ex (booking_key ctx key) (db_bookings d')" using b by (auto simp: list_ex_iff)
    have "filter (\<lambda>y. booking_index y = booking_index b) (db_bookings d') = [b]"
      using ok' b(1) by (intro filter_distinct_key) (simp add: bookings_ok_def)
    moreover have "booking_index y = booking_index b \<longleftrightarrow> booking_key ctx key y" for y
      using b(2) by (auto simp: booking_index_def booking_key_def)
    ultimately have one: "filter (booking_key ctx key) (db_bookings d') = [b]" by simp
    have "create_in sha ctx key data actor d' = (d', Inr (dto, True))"
      using cv pre exists' find same_hash [of data] h
      by (auto simp: create_in_def frame insert_booking_def Let_def creation_hash_def [symmetric] dto staff_in_scope_def
          split: option.splits)
    then have again: "createBookingIntent own sha ctx key input d' = (d', Inr (dto, True))"
      using k p a by (auto simp: createBookingIntent_Inr frame)
    have other: "createBookingIntent own sha ctx key input2 d' = (d', Inl (refusal d ctx data2))"
      if q: "parseBookingCreate input2 = Inr data2" and "creation_hash sha ctx data actor d \<noteq> creation_hash sha ctx data2 actor d"
      for input2 data2
    proof -
      have "create_in sha ctx key data2 actor d' = (d', Inl (refusal d ctx data2))"
        using that(2) exists' find same_hash [of data2] h frame
        by (intro create_in_refused [where b = b]) simp_all
      moreover have "authorized own ctx Booking_create op d' = transaction own (op actor) d'" for op :: "membership \<Rightarrow> (booking_dto \<times> bool) tx"
        using a unfolding frame(2) [symmetric] by (rule authorized_authority)
      ultimately show ?thesis using k q by (auto simp: createBookingIntent_def transaction_def)
    qed
    have "\<forall>input2 data data2 actor. parseBookingCreate input = Inr data \<longrightarrow> parseBookingCreate input2 = Inr data2 \<longrightarrow>
      authority d ctx Booking_create actor \<longrightarrow> creation_hash sha ctx data actor d \<noteq> creation_hash sha ctx data2 actor d \<longrightarrow>
      createBookingIntent own sha ctx key input2 d' = (d', Inl (refusal d ctx data2))"
      using other p authority_unique [OF a] by (metis Inr_inject)
    moreover have "\<exists>b. filter (booking_key ctx key) (db_bookings d') = [b] \<and> bk_id b = bd_id dto"
      using one by (simp add: dto booking_def)
    ultimately show ?thesis using again unfolding refusal_def by blast
  qed
qed

theorem booking_create_idempotent_witness:
  "createBookingIntent True demo_sha demo_agent (js ''k1'') demo_create_input demo_booked =
     (demo_booked, Inr (booking demo_booking (js ''u2''), True))"
  using booking_create_idempotent [OF _ demo_created [of True]] demo_tables_ok by (simp add: tables_ok_def)

text \<open>
  Availability is written under optimistic concurrency: a write succeeds only if the caller
  expected the stored version, zero where nothing is stored, and leaves the next version; a second
  write for the same member and day expecting the version the first one did is refused, whoever
  makes it in the scope and whatever it carries.
\<close>

theorem availability_optimistic:
  assumes "availability_ok d" and "putAvailability own known zone ctx staff date input d = (d', Inr dto)"
  shows "\<exists>data. parseAvailabilityWrite date input = Inr data \<and>
    version_at d ctx staff date = aw_expectedVersion data \<and>
    version_at d' ctx staff date = aw_expectedVersion data + 1 \<and> ad_version dto = aw_expectedVersion data + 1 \<and>
    (\<forall>ctx2 input2 data2. scope_tenantId ctx2 = scope_tenantId ctx \<longrightarrow> scope_storeId ctx2 = scope_storeId ctx \<longrightarrow>
      parseAvailabilityWrite date input2 = Inr data2 \<longrightarrow> aw_expectedVersion data2 = aw_expectedVersion data \<longrightarrow>
      (\<exists>e. snd (putAvailability own known zone ctx2 staff date input2 d') = Inl e))"
proof -
  obtain data where p: "parseAvailabilityWrite date input = Inr data"
    using assms(2) by (rule putAvailability_Inr)
  note v = put_versions [OF assms p]
  have "\<exists>e. snd (putAvailability own known zone ctx2 staff date input2 d') = Inl e"
    if scope: "scope_tenantId ctx2 = scope_tenantId ctx" "scope_storeId ctx2 = scope_storeId ctx"
      and q: "parseAvailabilityWrite date input2 = Inr data2" "aw_expectedVersion data2 = aw_expectedVersion data"
    for ctx2 input2 data2
  proof (rule ccontr)
    assume "\<not> ?thesis"
    then obtain d2 dto2 where "putAvailability own known zone ctx2 staff date input2 d' = (d2, Inr dto2)"
      by (cases "putAvailability own known zone ctx2 staff date input2 d'";
          cases "snd (putAvailability own known zone ctx2 staff date input2 d')") auto
    from put_versions [OF availability_ok_put [OF assms] this q(1)]
    have "version_at d' ctx2 staff date = aw_expectedVersion data" using q(2) by simp
    moreover have "version_at d' ctx2 staff date = version_at d' ctx staff date"
      by (simp add: version_at_def availability_at_def [abs_def] scope)
    ultimately show False using v by simp
  qed
  then show ?thesis using p v by blast
qed

definition demo_put_input :: json where
  "demo_put_input = JObj [(js ''expectedVersion'', JNum (Num 0)), (js ''windows'', JArr []), (js ''status'', JStr (js ''published''))]"

definition demo_day :: jstring where
  "demo_day = show_date (2024, 5, 1)"

lemma demo_day_valid: "validateDate (Some (JStr demo_day)) = Inr demo_day" "pg_date_ok demo_day"
proof -
  show "validateDate (Some (JStr demo_day)) = Inr demo_day"
    unfolding validateDate_iff_dates
    by (intro conjI exI [of _ 2024] exI [of _ 5] exI [of _ 1]) (simp_all add: demo_day_def days_in_month_def)
  have "year_of (show_date (2024, 5, 1)) = 2024" by (rule date_parts(2)) simp_all
  then have "year_of demo_day = 2024" by (simp add: demo_day_def)
  then show "pg_date_ok demo_day" by (simp add: pg_date_ok_def year_of_def)
qed

lemma demo_put:
  "\<exists>d' dto. putAvailability True (\<lambda>z. True) (\<lambda>t s. Some (js ''UTC'')) demo_supervisor (js ''m2'') demo_day demo_put_input demo_db = (d', Inr dto)"
proof -
  have "parseAvailabilityWrite demo_day demo_put_input =
      Inr \<lparr>aw_expectedVersion = 0, aw_windows = [], aw_status = JStr (js ''published'')\<rparr>"
    by (simp add: parseAvailabilityWrite_def demo_day_valid demo_put_input_def object_def keys_within_def field_def keyword_def
        version_def as_safe_integer_def max_safe_integer_def)
  moreover have "boundedId (Some (JStr (js ''m2''))) = Inr (js ''m2'')"
    by (simp add: boundedId_def blank_iff js_simps is_space_def)
  moreover have "\<exists>d' dto. put_in (\<lambda>z. True) (\<lambda>t s. Some (js ''UTC'')) demo_supervisor (js ''m2'') demo_day
      \<lparr>aw_expectedVersion = 0, aw_windows = [], aw_status = JStr (js ''published'')\<rparr>
      \<lparr>mem_id = js ''m1'', mem_userId = js ''u1'', mem_tenantId = js ''t'', mem_storeId = js ''s'',
         mem_role = Supervisor, mem_createdAt = 0\<rparr> demo_db = (d', Inr dto)"
    by (simp add: put_in_def validateTimeZone_def scopedStaff_def has_member_def demo_db_def demo_supervisor_def status_column_def
        demo_day_valid write_availability_def has_store_def display_name_def draw_def Let_def)
  moreover have "authority demo_db demo_supervisor Availability_write
      \<lparr>mem_id = js ''m1'', mem_userId = js ''u1'', mem_tenantId = js ''t'', mem_storeId = js ''s'',
         mem_role = Supervisor, mem_createdAt = 0\<rparr>"
    by (simp add: authority_def demo_supervisor_def demo_db_def)
  ultimately show ?thesis by (auto simp: putAvailability_def authorized_Inr)
qed

theorem availability_optimistic_witness:
  "\<exists>d' dto. putAvailability True (\<lambda>z. True) (\<lambda>t s. Some (js ''UTC'')) demo_supervisor (js ''m2'') demo_day demo_put_input demo_db =
       (d', Inr dto) \<and> version_at d' demo_supervisor (js ''m2'') demo_day = version_at demo_db demo_supervisor (js ''m2'') demo_day + 1"
proof -
  obtain d' dto where run: "putAvailability True (\<lambda>z. True) (\<lambda>t s. Some (js ''UTC'')) demo_supervisor (js ''m2'') demo_day demo_put_input demo_db = (d', Inr dto)"
    using demo_put by blast
  have "availability_ok demo_db" using demo_tables_ok by (simp add: tables_ok_def)
  from availability_optimistic [OF this run] show ?thesis using run by auto
qed

text \<open>
  A stale or forged context writes nothing: unless the user of the context has exactly one
  membership and it still has the tenant, store and role that the context claims, every writing
  operation fails and leaves the database as it was, whatever capabilities the context lists; and
  whatever makes an operation fail, nothing of it remains.
\<close>

theorem stale_context_writes_nothing:
  "((\<forall>m. filter (\<lambda>x. mem_userId x = actor_userId ctx) (db_memberships d) = [m] \<longrightarrow>
       (mem_tenantId m, mem_storeId m, mem_role m) \<noteq> (scope_tenantId ctx, scope_storeId ctx, actor_role ctx)) \<longrightarrow>
     (\<exists>e. putAvailability True known zone ctx staff date input d = (d, Inl e)) \<and>
     (\<exists>e. createBookingIntent True sha ctx key input d = (d, Inl e)) \<and>
     (\<exists>e. transitionBookingIntent True ctx i input d = (d, Inl e))) \<and>
   ((\<exists>e. snd (putAvailability True known zone ctx staff date input d) = Inl e) \<longrightarrow>
     fst (putAvailability True known zone ctx staff date input d) = d) \<and>
   ((\<exists>e. snd (createBookingIntent True sha ctx key input d) = Inl e) \<longrightarrow>
     fst (createBookingIntent True sha ctx key input d) = d) \<and>
   ((\<exists>e. snd (transitionBookingIntent True ctx i input d) = Inl e) \<longrightarrow>
     fst (transitionBookingIntent True ctx i input d) = d)"
proof (intro conjI)
  show "(\<forall>m. filter (\<lambda>x. mem_userId x = actor_userId ctx) (db_memberships d) = [m] \<longrightarrow>
       (mem_tenantId m, mem_storeId m, mem_role m) \<noteq> (scope_tenantId ctx, scope_storeId ctx, actor_role ctx)) \<longrightarrow>
     (\<exists>e. putAvailability True known zone ctx staff date input d = (d, Inl e)) \<and>
     (\<exists>e. createBookingIntent True sha ctx key input d = (d, Inl e)) \<and>
     (\<exists>e. transitionBookingIntent True ctx i input d = (d, Inl e))"
    (is "?stale \<longrightarrow> _")
  proof
    assume ?stale
    then have none: "\<not> authority d ctx cap a" for cap a by (auto simp: authority_def)
    show "(\<exists>e. putAvailability True known zone ctx staff date input d = (d, Inl e)) \<and>
     (\<exists>e. createBookingIntent True sha ctx key input d = (d, Inl e)) \<and>
     (\<exists>e. transitionBookingIntent True ctx i input d = (d, Inl e))"
      unfolding putAvailability_def createBookingIntent_def transitionBookingIntent_def authorized_none [OF none]
      by (simp split: sum.split)
  qed
qed (intro rollback_result putAvailability_Inl createBookingIntent_Inl transitionBookingIntent_Inl, assumption)+

theorem stale_context_writes_nothing_witness:
  "\<exists>e. createBookingIntent True demo_sha (demo_agent\<lparr>scope_storeId := js ''z''\<rparr>) (js ''k1'') demo_create_input demo_db =
     (demo_db, Inl e)"
proof -
  have "\<forall>m. filter (\<lambda>x. mem_userId x = js ''u2'') (db_memberships demo_db) = [m] \<longrightarrow> mem_storeId m \<noteq> js ''z''"
    by (simp add: demo_db_def)
  then show ?thesis
    using stale_context_writes_nothing [of "demo_agent\<lparr>scope_storeId := js ''z''\<rparr>" demo_db "\<lambda>_. True" "\<lambda>_ _. None"
        "js ''m2''" demo_day demo_create_input demo_sha "js ''k1''" "js ''i''"]
    by (simp add: demo_agent_def)
qed

lemma user_of_member: "has_member d m t s \<Longrightarrow> \<exists>u. user_of d m = Some u"
  by (auto simp: user_of_def has_member_def list_ex_iff find_None_iff not_None_eq [symmetric] simp del: not_None_eq)

lemma map_filter_total: "(\<And>x. x \<in> set xs \<Longrightarrow> f x = Some (g x)) \<Longrightarrow> List.map_filter f xs = map g xs"
  by (induction xs) (simp_all add: List.map_filter_simps)

text \<open>
  The list of booking intents shows at most a hundred intents, each a row of the caller's own
  tenant and store, newest first, and reports truncation exactly when the scope holds more; it
  changes nothing.
\<close>

theorem booking_list_scoped:
  assumes "bookings_ok d" and "listBookingIntents own ctx d = (d', Inr (items, truncated))"
  shows "d' = d \<and> length items \<le> 100 \<and>
    (\<forall>x \<in> set items. \<exists>b \<in> set (db_bookings d). \<exists>u. x = booking b u \<and>
       bk_tenantId b = scope_tenantId ctx \<and> bk_storeId b = scope_storeId ctx) \<and>
    (truncated \<longleftrightarrow> length (filter (\<lambda>b. bk_tenantId b = scope_tenantId ctx \<and> bk_storeId b = scope_storeId ctx) (db_bookings d)) > 100)"
proof -
  let ?rows = "filter (\<lambda>b. bk_tenantId b = scope_tenantId ctx \<and> bk_storeId b = scope_storeId ctx) (db_bookings d)"
  let ?pairs = "List.map_filter (\<lambda>b. map_option (Pair b) (user_of d (bk_createdBy b))) ?rows"
  let ?sorted = "newest_first (db_collate d) (\<lambda>r. bk_createdAt (fst r)) (\<lambda>r. bk_id (fst r)) ?pairs"
  have run: "d' = d" "items = map (\<lambda>(b, u). booking b u) (take 100 (take 101 ?sorted))" "truncated \<longleftrightarrow> length (take 101 ?sorted) > 100"
    using assms(2) by (auto simp: listBookingIntents_def authorized_Inr Let_def)
  have "?pairs = map (\<lambda>b. (b, the (user_of d (bk_createdBy b)))) ?rows"
  proof (rule map_filter_total)
    fix b assume "b \<in> set ?rows"
    then obtain u where "user_of d (bk_createdBy b) = Some u"
      using assms(1) user_of_member by (fastforce simp: bookings_ok_def booking_ok_def)
    then show "map_option (Pair b) (user_of d (bk_createdBy b)) = Some (b, the (user_of d (bk_createdBy b)))" by simp
  qed
  then have "length ?sorted = length ?rows" and pairs: "fst ` set ?sorted \<subseteq> set ?rows" by auto
  moreover have "\<exists>b \<in> set (db_bookings d). \<exists>u. x = booking b u \<and> bk_tenantId b = scope_tenantId ctx \<and> bk_storeId b = scope_storeId ctx"
    if "x \<in> set items" for x
  proof -
    have "set items \<subseteq> (\<lambda>(b, u). booking b u) ` set ?sorted"
      unfolding run(2) set_map by (intro image_mono order.trans [OF set_take_subset set_take_subset])
    then obtain p where p: "p \<in> set ?sorted" "x = (\<lambda>(b, u). booking b u) p" using \<open>x \<in> set items\<close> by blast
    then have "fst p \<in> set ?rows" "x = booking (fst p) (snd p)" using pairs by (auto simp only: case_prod_beta)
    then show ?thesis by auto
  qed
  ultimately show ?thesis using run by (auto simp: min_def)
qed

theorem booking_list_scoped_witness:
  "\<exists>items. listBookingIntents True demo_agent demo_booked = (demo_booked, Inr (items, False)) \<and> length items \<le> 100"
proof -
  have "bookings_ok demo_booked" using demo_booked_ok by (simp add: tables_ok_def)
  moreover have "authority demo_booked demo_agent Storeops_read
      \<lparr>mem_id = js ''m2'', mem_userId = js ''u2'', mem_tenantId = js ''t'', mem_storeId = js ''s'', mem_role = Agent, mem_createdAt = 0\<rparr>"
    by (simp add: authority_def demo_agent_def demo_booked_def demo_db_def)
  then obtain items truncated where "listBookingIntents True demo_agent demo_booked = (demo_booked, Inr (items, truncated))"
    by (auto simp: listBookingIntents_def authorized_authority transaction_def Let_def)
  ultimately show ?thesis using booking_list_scoped [of demo_booked True demo_agent demo_booked items truncated]
    by (auto simp: demo_booked_rows)
qed

end
