(* ===== verification/WeComCryptoProps.thy ===== *)
theory WeComCryptoProps
  imports WeComCrypto
begin

text \<open>
  What the verified callbacks guarantee: what an accepted event was checked for, that decoding and
  decryption invert the encoding of the platform, and that a genuine event is accepted.
\<close>

section \<open>Decoding inverts encoding\<close>

definition is_unit :: "nat \<Rightarrow> bool" where
  "is_unit c \<longleftrightarrow> c < 0x10000"

lemma unat_of_nat_byte [simp]: "n < 256 \<Longrightarrow> unat (of_nat n :: byte) = n"
  by (simp add: unat_of_nat take_bit_eq_mod)

lemma unat_byte_arith:
  "p < 0x800 \<Longrightarrow> unat (of_nat (0xC0 + p div 64) :: byte) = 0xC0 + p div 64"
  "unat (of_nat (0x80 + p mod 64) :: byte) = 0x80 + p mod 64"
  "p < 0x10000 \<Longrightarrow> unat (of_nat (0xE0 + p div 4096) :: byte) = 0xE0 + p div 4096"
  "p < 0x110000 \<Longrightarrow> unat (of_nat (0xF0 + p div 262144) :: byte) = 0xF0 + p div 262144"
  by (rule unat_of_nat_byte; simp add: less_mult_imp_div_less | presburger)+

lemma base_64_digits:
  "(p :: nat) = (p div 4096 * 64 + p div 64 mod 64) * 64 + p mod 64"
  "(p :: nat) = ((p div 262144 * 64 + p div 4096 mod 64) * 64 + p div 64 mod 64) * 64 + p mod 64"
proof -
  have s: "p div 64 div 64 = p div 4096" "p div 4096 div 64 = p div 262144"
    by (simp_all add: div_mult2_eq [symmetric])
  have one: "n = n div 64 * 64 + n mod 64" for n :: nat by simp
  show "p = (p div 4096 * 64 + p div 64 mod 64) * 64 + p mod 64"
    by (metis one s(1))
  show "p = ((p div 262144 * 64 + p div 4096 mod 64) * 64 + p div 64 mod 64) * 64 + p mod 64"
    by (metis one s)
qed

lemma digit_bounds:
  fixes x y z :: nat
  shows "2048 \<le> y * 64 + z \<Longrightarrow> z < 64 \<Longrightarrow> 32 \<le> y"
    and "\<not> (55296 \<le> 53248 + y * 64 + z \<and> 53248 + y * 64 + z \<le> 57343) \<Longrightarrow> y < 64 \<Longrightarrow> z < 64 \<Longrightarrow> y < 32"
    and "65536 \<le> (x * 64 + y) * 64 + z \<Longrightarrow> y < 64 \<Longrightarrow> z < 64 \<Longrightarrow> 16 \<le> x"
    and "1048576 + (x * 64 + y) * 64 + z < 1114112 \<Longrightarrow> x < 16"
proof -
  show "2048 \<le> y * 64 + z \<Longrightarrow> z < 64 \<Longrightarrow> 32 \<le> y" by linarith
  show "65536 \<le> (x * 64 + y) * 64 + z \<Longrightarrow> y < 64 \<Longrightarrow> z < 64 \<Longrightarrow> 16 \<le> x"
    unfolding add_mult_distrib by linarith
  show "1048576 + (x * 64 + y) * 64 + z < 1114112 \<Longrightarrow> x < 16"
    unfolding add_mult_distrib by linarith
  assume "\<not> (55296 \<le> 53248 + y * 64 + z \<and> 53248 + y * 64 + z \<le> 57343)" "y < 64" "z < 64"
  moreover from this have "53248 + y * 64 + z \<le> 57343" by linarith
  ultimately show "y < 32" by linarith
qed

lemma utf8_next_three:
  assumes "unat a = 0xE0 + x" "unat b = 0x80 + y" "unat c = 0x80 + z" "x < 16" "y < 64" "z < 64"
    and "x = 0 \<longrightarrow> 32 \<le> y" "x = 13 \<longrightarrow> y < 32"
  shows "utf8_next (a # b # c # r) = Some ((x * 64 + y) * 64 + z, 3)"
proof -
  have "\<not> unat a < 0x80" "continuation b" "continuation c" "\<not> (0xC2 \<le> unat a \<and> unat a \<le> 0xDF)" "0xE0 \<le> unat a \<and> unat a \<le> 0xEF"
    "\<not> ((unat a = 0xE0 \<and> unat b < 0xA0) \<or> (unat a = 0xED \<and> unat b > 0x9F))"
    "unat a - 0xE0 = x" "unat b - 0x80 = y" "unat c - 0x80 = z"
    using assms unfolding continuation_def by linarith+
  then show ?thesis by (simp only: utf8_next.simps Let_def list.case if_True if_False not_True_eq_False simp_thms)
qed

lemma utf8_next_four:
  assumes "unat a = 0xF0 + w" "unat b = 0x80 + x" "unat c = 0x80 + y" "unat d = 0x80 + z" "w < 5" "x < 64" "y < 64" "z < 64"
    and "w = 0 \<longrightarrow> 16 \<le> x" "w = 4 \<longrightarrow> x < 16"
  shows "utf8_next (a # b # c # d # r) = Some (((w * 64 + x) * 64 + y) * 64 + z, 4)"
proof -
  have "\<not> unat a < 0x80" "continuation b" "continuation c" "continuation d" "\<not> (0xC2 \<le> unat a \<and> unat a \<le> 0xDF)"
    "\<not> (0xE0 \<le> unat a \<and> unat a \<le> 0xEF)" "\<not> unat a < 0xF0" "\<not> unat a > 0xF4"
    "\<not> (unat a = 0xF0 \<and> unat b < 0x90)" "\<not> (unat a = 0xF4 \<and> unat b > 0x8F)"
    "unat a - 0xF0 = w" "unat b - 0x80 = x" "unat c - 0x80 = y" "unat d - 0x80 = z"
    using assms unfolding continuation_def by linarith+
  then show ?thesis by (simp only: utf8_next.simps Let_def list.case if_True if_False not_True_eq_False simp_thms)
qed

lemma utf8_next_point:
  assumes "p < 0x110000" and "\<not> (0xD800 \<le> p \<and> p \<le> 0xDFFF)"
  shows "utf8_next (utf8_point p @ r) = Some (p, length (utf8_point p))"
proof -
  consider "p < 0x80" | "0x80 \<le> p" "p < 0x800" | "0x800 \<le> p" "p < 0x10000" | "0x10000 \<le> p" by linarith
  then show ?thesis
  proof cases
    case 1
    then show ?thesis by (simp add: utf8_point_def Let_def)
  next
    case 2
    have "2 \<le> p div 64" "p div 64 < 32" using 2 by (auto simp: less_eq_div_iff_mult_less_eq div_less_iff_less_mult)
    moreover have "p mod 64 < 64" by simp
    ultimately show ?thesis using 2
      by (simp add: utf8_point_def Let_def continuation_def unat_byte_arith del: of_nat_add)
  next
    case 3
    define x where "x = p div 4096"
    define y where "y = p div 64 mod 64"
    define z where "z = p mod 64"
    have p: "p = (x * 64 + y) * 64 + z" unfolding x_def y_def z_def by (rule base_64_digits)
    have b: "x < 16" "y < 64" "z < 64" using 3 by (simp_all add: x_def y_def z_def div_less_iff_less_mult)
    have lo: "x = 0 \<longrightarrow> 32 \<le> y" using digit_bounds(1) [of y z] 3(1) b unfolding p by auto
    have hi: "x = 13 \<longrightarrow> y < 32" using digit_bounds(2) [of y z] assms(2) b unfolding p by auto
    have u: "unat (of_nat (0xE0 + x) :: byte) = 0xE0 + x" "unat (of_nat (0x80 + y) :: byte) = 0x80 + y"
      "unat (of_nat (0x80 + z) :: byte) = 0x80 + z"
      using b by (simp_all del: of_nat_add)
    have "utf8_point p = map of_nat [0xE0 + x, 0x80 + y,
      0x80 + z]" using 3 by (simp add: utf8_point_def x_def y_def z_def)
    then show ?thesis using utf8_next_three [OF u b] lo hi p by (simp del: of_nat_add utf8_next.simps)
  next
    case 4
    define w where "w = p div 262144"
    define x where "x = p div 4096 mod 64"
    define y where "y = p div 64 mod 64"
    define z where "z = p mod 64"
    have p: "p = ((w * 64 + x) * 64 + y) * 64 + z" unfolding w_def x_def y_def z_def by (rule base_64_digits)
    have b: "w < 5" "x < 64" "y < 64" "z < 64" using assms(1) by (simp_all add: w_def x_def y_def z_def div_less_iff_less_mult)
    have lo: "w = 0 \<longrightarrow> 16 \<le> x" using digit_bounds(3) [of x y z] 4 b unfolding p by auto
    have hi: "w = 4 \<longrightarrow> x < 16" using digit_bounds(4) [of x y z] assms(1) b unfolding p by auto
    have u: "unat (of_nat (0xF0 + w) :: byte) = 0xF0 + w" "unat (of_nat (0x80 + x) :: byte) = 0x80 + x"
      "unat (of_nat (0x80 + y) :: byte) = 0x80 + y" "unat (of_nat (0x80 + z) :: byte) = 0x80 + z"
      using b by (simp_all del: of_nat_add)
    have "utf8_point p = map of_nat [0xF0 + w, 0x80 + x, 0x80 + y,
      0x80 + z]" using 4 by (simp add: utf8_point_def w_def x_def y_def z_def)
    then show ?thesis using utf8_next_four [OF u b] lo hi p by (simp del: of_nat_add utf8_next.simps)
  qed
qed

lemma utf8_point_Nil [simp]: "utf8_point p \<noteq> []"
  by (simp add: utf8_point_def)

lemma utf8_decode_point:
  assumes "p < 0x110000" and "\<not> (0xD800 \<le> p \<and> p \<le> 0xDFFF)"
  shows "utf8_decode (utf8_point p @ r) = map_option ((@) (units_of p)) (utf8_decode r)"
proof -
  have "max 1 (length (utf8_point p)) = length (utf8_point p)" by (cases "utf8_point p") auto
  then show ?thesis using utf8_next_point [OF assms, of r] by (simp add: utf8_decode.simps [of "utf8_point p @ r"])
qed

lemma utf8_decode_Nil [simp]: "utf8_decode [] = Some []"
  by (simp add: utf8_decode.simps)

lemma pair_value:
  assumes "is_high h" "is_low l"
  shows "point_value [h, l] < 0x110000" "0x10000 \<le> point_value [h, l]" "units_of (point_value [h, l]) = [h, l]"
proof -
  define a where "a = h - 0xD800"
  define b where "b = l - 0xDC00"
  have ab: "h = 0xD800 + a" "l = 0xDC00 + b" "a < 0x400" "b < 0x400" using assms by (auto simp: a_def b_def is_high_def is_low_def)
  have v: "point_value [h, l] = 0x10000 + (a * 0x400 + b)" using ab by simp
  show "point_value [h, l] < 0x110000" "0x10000 \<le> point_value [h, l]" using ab unfolding v by linarith+
  have "(a * 0x400 + b) div 0x400 = a" "(a * 0x400 + b) mod 0x400 = b" using ab by simp_all
  then show "units_of (point_value [h, l]) = [h, l]" using ab unfolding v units_of_def by simp
qed

lemma utf8_decode_utf8: "is_well_formed s \<Longrightarrow> list_all is_unit s \<Longrightarrow> utf8_decode (utf8 s) = Some s"
proof (induction s rule: code_points.induct)
  case (2 c)
  then have "\<not> (is_high c \<or> is_low c)" "c < 0x10000" by (auto simp: is_well_formed_def is_unit_def)
  moreover from this have "\<not> (0xD800 \<le> c \<and> c \<le> 0xDFFF)" by (auto simp: is_high_def is_low_def)
  ultimately show ?case using utf8_decode_point [of c "[]"] by (simp add: utf8_def units_of_def)
next
  case (3 c d s)
  show ?case
  proof (cases "is_high c \<and> is_low d")
    case True
    then have "utf8_decode (utf8 s) = Some s" using 3 by (simp add: is_well_formed_def)
    moreover have "utf8 (c # d # s) = utf8_point (point_value [c, d]) @ utf8 s" using True by (simp add: utf8_def)
    ultimately show ?thesis using utf8_decode_point [of "point_value [c, d]" "utf8 s"] pair_value [of c d] True
      by (simp del: point_value.simps)
  next
    case False
    then have "utf8_decode (utf8 (d # s)) = Some (d # s)" "\<not> (is_high c \<or> is_low c)" "c < 0x10000"
      using 3 by (auto simp: is_well_formed_def is_unit_def)
    moreover have "code_points (c # d # s) = [c] # code_points (d # s)" using False by auto
    then have "utf8 (c # d # s) = utf8_point (point_value [c]) @ utf8 (d # s)"
      by (simp add: utf8_def del: code_points.simps)
    moreover have "\<not> (0xD800 \<le> c \<and> c \<le> 0xDFFF)" using calculation(2) by (auto simp: is_high_def is_low_def)
    ultimately show ?thesis using utf8_decode_point [of c "utf8 (d # s)"]
      by (simp add: units_of_def)
  qed
qed (simp add: utf8_def)

lemma decode_text_utf8:
  assumes "is_well_formed s" and "list_all is_unit s" and "s = [] \<or> hd s \<noteq> 0xFEFF"
  shows "decode_text (utf8 s) = Some s"
proof -
  have "take 3 (utf8 s) \<noteq> [0xEF, 0xBB, 0xBF]"
  proof
    assume bom: "take 3 (utf8 s) = [0xEF, 0xBB, 0xBF]"
    then obtain r where r: "utf8 s = [0xEF, 0xBB, 0xBF] @ r" by (metis append_take_drop_id)
    have point: "utf8_point 0xFEFF = [0xEF, 0xBB, 0xBF]" by (simp add: utf8_point_def)
    have "utf8_decode (utf8 s) = map_option ((@) [0xFEFF]) (utf8_decode r)"
      using utf8_decode_point [of "0xFEFF" r] unfolding point r by (simp add: units_of_def)
    then show False using utf8_decode_utf8 [OF assms(1,2)] assms(3) by (cases "utf8_decode r") auto
  qed
  then show ?thesis using utf8_decode_utf8 [OF assms(1,2)] by (simp add: decode_text_def)
qed

section \<open>Encryption as the platform does it\<close>

definition frame :: "byte list \<Rightarrow> jstring \<Rightarrow> jstring \<Rightarrow> byte list" where
  "frame random msg corpId = random @ to_be32 (byte_length msg) @ utf8 msg @ utf8 corpId"

definition pad32 :: "byte list \<Rightarrow> byte list" where
  "pad32 p = (let n = 32 - length p mod 32 in p @ replicate n (of_nat n))"

lemma strip_pad32 [simp]: "stripPkcs7Padding (pad32 p) = Some p"
proof -
  define n where "n = 32 - length p mod 32"
  have n: "1 \<le> n" "n \<le> 32" by (simp_all add: n_def Suc_leI)
  have "last (p @ replicate n (of_nat n :: byte)) = of_nat n" using n by (simp add: last_append)
  moreover have "unat (of_nat n :: byte) = n" using n by simp
  ultimately show ?thesis using n
    by (simp add: pad32_def n_def [symmetric] stripPkcs7Padding_def Let_def list_all_iff)
qed

lemma length_pad32: "length (pad32 p) mod 16 = 0" "pad32 p \<noteq> []"
proof -
  have "length (pad32 p) = length p + (32 - length p mod 32)" by (simp add: pad32_def Let_def)
  also have "\<dots> = 32 * (length p div 32 + 1)" 
    using div_mult_mod_eq [of "length p" 32] mod_less_divisor [of 32 "length p", OF zero_less_numeral] unfolding distrib_left by linarith
  finally have *: "length (pad32 p) = 16 * (2 * (length p div 32 + 1))" by simp
  show "length (pad32 p) mod 16 = 0" unfolding * by simp
  then show "pad32 p \<noteq> []" using * by auto
qed

lemma byte_length_pos: "s \<noteq> [] \<Longrightarrow> 1 \<le> byte_length s"
  by (cases s rule: code_points.cases) (auto simp: byte_length_def utf8_def Suc_le_eq)

lemma unframe_frame:
  assumes "length random = 16" "msg \<noteq> []" "byte_length msg < 2 ^ 32" "is_well_formed msg" "list_all is_unit msg" "hd msg \<noteq> 0xFEFF"
  shows "unframe (frame random msg corpId) corpId = Some msg"
proof -
  have "drop 16 (frame random msg corpId) = to_be32 (byte_length msg) @ utf8 msg @ utf8 corpId"
    "drop 20 (frame random msg corpId) = utf8 msg @ utf8 corpId"
    "length (frame random msg corpId) = 20 + byte_length msg + length (utf8 corpId)"
    "drop (20 + byte_length msg) (frame random msg corpId) = utf8 corpId"
    using assms(1) by (simp_all add: frame_def byte_length_def)
  moreover have "take (byte_length msg) (utf8 msg @ utf8 corpId) = utf8 msg" by (simp add: byte_length_def)
  ultimately show ?thesis using assms byte_length_pos [of msg] decode_text_utf8 [of msg]
    by (simp add: unframe_def Let_def)
qed

text \<open>
  C23. Decryption inverts the encryption of the platform: where the cipher undoes the encryption of whole
  blocks, a message framed with sixteen random bytes, its length and the receiver, padded to
  blocks of 32 bytes, encrypted and written in base64 decrypts to itself, for every non-empty,
  well-formed message that begins with no byte order mark.
\<close>

theorem decrypt_roundtrip:
  assumes "\<And>p. length p mod 16 = 0 \<Longrightarrow> aes key (enc p) = Some p \<and> length (enc p) = length p"
    and "length random = 16" "msg \<noteq> []" "byte_length msg < 2 ^ 32" "is_well_formed msg" "list_all is_unit msg" "hd msg \<noteq> 0xFEFF"
  shows "decryptMessage aes (base64 (enc (pad32 (frame random msg corpId)))) key corpId = Some msg"
proof -
  let ?p = "pad32 (frame random msg corpId)"
  have "aes key (enc ?p) = Some ?p" "length (enc ?p) = length ?p" using assms(1) [OF length_pad32(1)] by blast+
  moreover from this have "enc ?p \<noteq> []" using length_pad32(2) by (metis length_0_conv)
  ultimately show ?thesis using unframe_frame [OF assms(2-)] length_pad32(1) by (simp add: decryptMessage_def Let_def)
qed

section \<open>Accepted events\<close>

lemma getAll_single: "length (getAll q k) = 1 \<Longrightarrow> map_of q k = Some v \<Longrightarrow> getAll q k = [v]"
proof -
  assume one: "length (getAll q k) = 1" and v: "map_of q k = Some v"
  have "v \<in> set (getAll q k)" using map_of_SomeD [OF v] by (force simp: getAll_def)
  then show ?thesis using one by (cases "getAll q k") auto
qed

lemma parseEventQuery_Some:
  assumes "parseEventQuery q = Some c"
  shows "length q = 3 \<and> getAll q (js ''msg_signature'') = [cq_msgSignature c] \<and> getAll q (js ''timestamp'') = [cq_timestamp c] \<and>
    getAll q (js ''nonce'') = [cq_nonce c] \<and> signature_shape (cq_msgSignature c) \<and> timestamp_shape (cq_timestamp c)"
proof -
  have once: "exactly_once (take 3 CALLBACK_FIELDS) q" and p: "parse_query_fields q = Some c"
    using assms by (simp_all add: parseEventQuery_def split: if_splits)
  have bound: "map_of q k = Some v" if "boundedQueryValue q k n = Some v" for k n v
    using that by (auto simp: boundedQueryValue_def split: option.splits if_splits)
  have "length (getAll q (js ''msg_signature'')) = 1" "length (getAll q (js ''timestamp'')) = 1" "length (getAll q (js ''nonce'')) = 1"
    using once by (simp_all add: exactly_once_def CALLBACK_FIELDS_def numeral_3_eq_3)
  then show ?thesis using once p getAll_single bound
    by (auto simp: parse_query_fields_def exactly_once_def CALLBACK_FIELDS_def split: option.splits if_splits)
qed

lemma stripPkcs7Padding_Some:
  "stripPkcs7Padding v = Some p \<Longrightarrow> \<exists>n. 1 \<le> n \<and> n \<le> 32 \<and> v = p @ replicate n (of_nat n)"
proof -
  assume s: "stripPkcs7Padding v = Some p"
  define n where "n = unat (last v)"
  have n: "1 \<le> n" "n \<le> 32" "n \<le> length v" "list_all (\<lambda>b. b = last v) (drop (length v - n) v)" "p = take (length v - n) v"
    using s by (auto simp: stripPkcs7Padding_def Let_def n_def split: if_splits)
  then have "drop (length v - n) v = replicate n (last v)"
    by (intro replicate_eqI) (auto simp: list_all_iff)
  moreover have "last v = of_nat n" by (simp add: n_def)
  ultimately show ?thesis using n by (intro exI [of _ n]) (metis append_take_drop_id)
qed

lemma unframe_Some:
  assumes "unframe plain corpId = Some m"
  obtains random n content where "length random = 16" "n = length content" "1 \<le> n"
    "n = be32 (drop 16 plain)" "take 16 plain = random" "drop 20 plain = content @ utf8 corpId" "decode_text content = Some m"
proof -
  define n where "n = be32 (drop 16 plain)"
  have n: "21 \<le> length plain" "1 \<le> n" "20 + n \<le> length plain" "drop (20 + n) plain = utf8 corpId"
    "decode_text (take n (drop 20 plain)) = Some m"
    using assms by (auto simp: unframe_def Let_def n_def split: if_splits)
  have "drop 20 plain = take n (drop 20 plain) @ utf8 corpId"
    using n(4) by (metis add.commute append_take_drop_id drop_drop)
  then show thesis using n by (intro that [of "take 16 plain" n "take n (drop 20 plain)"]) (simp_all add: n_def)
qed

lemma xmlField_Some:
  "xmlField xml f n = Some v \<Longrightarrow> \<exists>x. elements (js f) xml = [x] \<and> v = trim x \<and> v \<noteq> [] \<and> length v \<le> n \<and> 0 \<notin> set v \<and> is_well_formed v"
  by (auto simp: xmlField_def Let_def split: list.splits if_splits)

text \<open>
  C21. An accepted event is authentic as far as the protocol can tell: the query has exactly the three
  fields; its time is within the allowed skew; the signature is the hash of the sorted token, time,
  nonce and the only encrypted element of the body; that element decrypts under the key, with
  correct padding, to a message framed for the own corporation; and the event was read from the
  single fields of that message, within their bounds.
\<close>

theorem verified_event_authentic:
  assumes "verifyEvent sha1 aes v now q body = Some e"
  shows "\<exists>(c :: callback_query) x encrypted plain n content xml ms. length q = 3 \<and> getAll q (js ''timestamp'') = [cq_timestamp c] \<and>
    getAll q (js ''nonce'') = [cq_nonce c] \<and> getAll q (js ''msg_signature'') = [cq_msgSignature c] \<and>
    now = Some ms \<and> \<bar>int (digits_value (cq_timestamp c)) - ms div 1000\<bar> \<le> vf_maxClockSkewSeconds v \<and>
    elements (js ''Encrypt'') body = [x] \<and> encrypted = trim x \<and>
    from_hex (cq_msgSignature c) = sha1 (utf8 (signed_text (vf_token v) (cq_timestamp c) (cq_nonce c) encrypted)) \<and>
    aes (vf_aesKey v) (from_base64 encrypted) = Some (plain @ replicate n (of_nat n)) \<and> 1 \<le> n \<and> n \<le> 32 \<and>
    drop 20 plain = content @ utf8 (vf_corpId v) \<and> length content = be32 (drop 16 plain) \<and> decode_text content = Some xml \<and>
    (\<exists>u. elements (js ''ToUserName'') xml = [u] \<and> trim u = vf_corpId v) \<and>
    (\<exists>t. elements (js ''Token'') xml = [t] \<and> ke_token e = trim t) \<and> ke_token e \<noteq> [] \<and> length (ke_token e) \<le> 2048 \<and>
    (\<exists>k. elements (js ''OpenKfId'') xml = [k] \<and> ke_openKfId e = trim k) \<and> ke_openKfId e \<noteq> [] \<and> length (ke_openKfId e) \<le> 128 \<and>
    int (ke_createdAtUnix e) \<le> max_safe_integer"
proof -
  obtain xml where doc: "verified_document sha1 aes v now q body = Some xml" and ev: "parseKfMessageEvent xml (vf_corpId v) = Some e"
    using assms by (auto simp: verifyEvent_def split: option.splits)
  obtain c encrypted where c: "parseEventQuery q = Some c" "validateTimestamp (cq_timestamp c) now (vf_maxClockSkewSeconds v)"
    and e: "encryptedXmlValue body = Some encrypted"
    and s: "verifySignature sha1 (vf_token v) (cq_timestamp c) (cq_nonce c) encrypted (cq_msgSignature c)"
    and m: "decryptMessage aes encrypted (vf_aesKey v) (vf_corpId v) = Some xml"
    using doc by (auto simp: verified_document_def split: option.splits if_splits)
  obtain ms where ms: "now = Some ms" "\<bar>int (digits_value (cq_timestamp c)) - ms div 1000\<bar> \<le> vf_maxClockSkewSeconds v"
    using c(2) by (auto simp: validateTimestamp_def split: option.splits)
  obtain x where x: "elements (js ''Encrypt'') body = [x]" "encrypted = trim x"
    using e by (auto simp: encryptedXmlValue_def Let_def split: list.splits if_splits)
  obtain padded plain where pad: "aes (vf_aesKey v) (from_base64 encrypted) = Some padded" "stripPkcs7Padding padded = Some plain"
    and un: "unframe plain (vf_corpId v) = Some xml"
    using m by (auto simp: decryptMessage_def Let_def split: option.splits if_splits)
  obtain n where n: "1 \<le> n" "n \<le> 32" "padded = plain @ replicate n (of_nat n)" using stripPkcs7Padding_Some [OF pad(2)] by blast
  obtain content where content: "drop 20 plain = content @ utf8 (vf_corpId v)" "length content = be32 (drop 16 plain)" "decode_text content = Some xml"
    using un by (rule unframe_Some) blast
  have corp: "xmlField xml ''ToUserName'' 128 = Some (vf_corpId v)" and tok: "xmlField xml ''Token'' 2048 = Some (ke_token e)"
    and kf: "xmlField xml ''OpenKfId'' 128 = Some (ke_openKfId e)" and safe: "int (ke_createdAtUnix e) \<le> max_safe_integer"
    using ev by (auto simp: parseKfMessageEvent_def split: option.splits if_splits)
  show ?thesis
    by (rule exI [of _ c], rule exI [of _ x], rule exI [of _ encrypted], rule exI [of _ plain], rule exI [of _ n],
        rule exI [of _ content], rule exI [of _ xml], rule exI [of _ ms])
      (use parseEventQuery_Some [OF c(1)] ms x s pad(1) n content safe xmlField_Some [OF corp] xmlField_Some [OF tok]
          xmlField_Some [OF kf] in \<open>auto simp: verifySignature_def\<close>)
qed

section \<open>Genuine events\<close>

subsection \<open>Elements of a rendered document\<close>

text \<open>Values that need no escape in a document.\<close>

definition plain_char :: "nat \<Rightarrow> bool" where
  "plain_char c \<longleftrightarrow> 32 < c \<and> c < 0x80 \<and> c \<noteq> 60 \<and> c \<noteq> 93"

definition plain_value :: "jstring \<Rightarrow> bool" where
  "plain_value v \<longleftrightarrow> v \<noteq> [] \<and> list_all plain_char v"

abbreviation tag_name :: "jstring \<Rightarrow> bool" where
  "tag_name f \<equiv> list_all is_alnum f"

definition cdata_element :: "string \<Rightarrow> jstring \<Rightarrow> jstring" where
  "cdata_element f v = open_tag (js f) @ js ''<![CDATA['' @ v @ js '']]>'' @ close_tag (js f)"

definition plain_element :: "string \<Rightarrow> jstring \<Rightarrow> jstring" where
  "plain_element f v = open_tag (js f) @ v @ close_tag (js f)"

lemma cdata_js: "js ''<![CDATA['' = [60, 33, 91, 67, 68, 65, 84, 65, 91]" "js '']]>'' = [93, 93, 62]"
  by (simp_all add: js_simps)

lemma alnum_not: "is_alnum c \<Longrightarrow> c \<noteq> 33 \<and> c \<noteq> 47 \<and> c \<noteq> 60 \<and> c \<noteq> 62 \<and> c \<noteq> 91 \<and> c \<noteq> 93"
  by (auto simp: is_alnum_def is_digit_def)

lemma elements_skip: "60 \<notin> set a \<Longrightarrow> elements g (a @ s) = elements g s"
proof (induction a)
  case (Cons c a)
  then have "element_at g (c # a @ s) = None" by (simp add: element_at_def open_tag_def)
  then show ?case using Cons by (simp add: elements.simps [of g "c # a @ s"])
qed simp

lemma elements_other_tag: "\<not> starts_with (open_tag g) (60 # s) \<Longrightarrow> elements g (60 # s) = elements g s"
  by (simp add: elements.simps [of g "60 # s"] element_at_def)

lemma tag_prefix: "tag_name g \<Longrightarrow> tag_name f \<Longrightarrow> starts_with (g @ [62]) (f @ 62 # r) \<longleftrightarrow> g = f"
proof (induction g arbitrary: f)
  case Nil
  then show ?case by (cases f) (auto dest: alnum_not)
next
  case (Cons c g)
  then show ?case by (cases f) (auto dest: alnum_not)
qed

lemma open_prefix: "tag_name g \<Longrightarrow> tag_name f \<Longrightarrow> starts_with (open_tag g) (open_tag f @ r) \<longleftrightarrow> g = f"
proof -
  assume "tag_name g" "tag_name f"
  moreover have "starts_with (open_tag g) (open_tag f @ r) \<longleftrightarrow> starts_with (g @ [62]) (f @ 62 # r)" by (simp add: open_tag_def)
  ultimately show ?thesis using tag_prefix by metis
qed

lemma markup_prefix: "tag_name g \<Longrightarrow> \<not> starts_with (open_tag g) (60 # 33 # r)" "tag_name g \<Longrightarrow> \<not> starts_with (open_tag g) (60 # 47 # r)"
  by (cases g; auto simp: open_tag_def dest: alnum_not)+

lemma tag_no_open: "tag_name f \<Longrightarrow> 60 \<notin> set f"
  by (auto simp: list_all_iff dest: alnum_not)

lemma elements_open:
  assumes "tag_name g" "tag_name f" "g \<noteq> f"
  shows "elements g (open_tag f @ s) = elements g s"
proof -
  have other: "\<not> starts_with (open_tag g) (open_tag f @ s)" using open_prefix [OF assms(1,2)] assms(3) by blast
  have form: "open_tag f @ s = 60 # (f @ [62]) @ s" by (simp add: open_tag_def)
  have "elements g (open_tag f @ s) = elements g ((f @ [62]) @ s)" unfolding form by (rule elements_other_tag) (use other form in simp)
  then show ?thesis using elements_skip [of "f @ [62]" g s] tag_no_open [OF assms(2)] by simp
qed

lemma elements_close:
  assumes "tag_name g" "tag_name f"
  shows "elements g (close_tag f @ s) = elements g s"
proof -
  have "elements g (close_tag f @ s) = elements g ((47 # f @ [62]) @ s)"
    using elements_other_tag [OF markup_prefix(2) [OF assms(1)]] by (simp add: close_tag_def)
  then show ?thesis using elements_skip [of "47 # f @ [62]" g s] tag_no_open [OF assms(2)] by simp
qed

lemma elements_cdata_other:
  assumes "tag_name (js f)" "tag_name g" "g \<noteq> js f" "60 \<notin> set v"
  shows "elements g (cdata_element f v @ s) = elements g s"
proof -
  let ?r = "close_tag (js f) @ s"
  have "elements g (cdata_element f v @ s) = elements g (60 # 33 # ([91, 67, 68, 65, 84, 65, 91] @ v @ [93, 93, 62] @ ?r))"
    using elements_open [OF assms(2,1,3)] by (simp add: cdata_element_def cdata_js)
  also have "\<dots> = elements g ((33 # [91, 67, 68, 65, 84, 65, 91] @ v @ [93, 93, 62]) @ ?r)"
    using elements_other_tag [OF markup_prefix(1) [OF assms(2)]] by simp
  also have "\<dots> = elements g ?r" by (rule elements_skip) (use assms(4) in simp)
  finally show ?thesis using elements_close [OF assms(2,1)] by simp
qed

lemma elements_plain_other:
  assumes "tag_name (js f)" "tag_name g" "g \<noteq> js f" "60 \<notin> set v"
  shows "elements g (plain_element f v @ s) = elements g s"
  using elements_open [OF assms(2,1,3)] elements_skip [OF assms(4)] elements_close [OF assms(2,1)]
  by (simp add: plain_element_def)

lemma cdata_content_close: "93 \<notin> set v \<Longrightarrow> cdata_content (close_tag f) (v @ 93 # 93 # 62 # close_tag f @ s) = Some (v, s)"
proof (induction v)
  case Nil
  have "after_space (close_tag f) (close_tag f @ s) = Some s"
    using starts_with_append [of "f @ [62]" s] by (simp add: after_space_def close_tag_def is_space_def Let_def)
  then show ?case by (simp add: cdata_content.simps [of _ "93 # _"])
next
  case (Cons c v)
  then show ?case by (simp add: cdata_content.simps [of _ "c # _"])
qed

lemma elements_cdata_same:
  assumes "93 \<notin> set v"
  shows "elements (js f) (cdata_element f v @ s) = v # elements (js f) s"
proof -
  let ?t = "cdata_element f v @ s"
  have "element_content (js f) (js ''<![CDATA['' @ v @ 93 # 93 # 62 # close_tag (js f) @ s) = Some (v, s)"
    using cdata_content_close [OF assms, of "js f" s]
    by (simp add: element_content_def cdata_js is_space_def)
  then have "element_at (js f) ?t = Some (v, s)"
    by (simp add: element_at_def cdata_element_def cdata_js(2))
  then show ?thesis by (simp add: elements.simps [of "js f" ?t])
qed

lemma trim_start_same: "trim v = v \<Longrightarrow> v \<noteq> [] \<Longrightarrow> \<not> is_space (hd v)"
  using trim_starts [of v] by simp

lemma elements_plain_same:
  assumes "trim v = v" "v \<noteq> []" "60 \<notin> set v"
  shows "elements (js f) (plain_element f v @ s) = v # elements (js f) s"
proof -
  let ?t = "plain_element f v @ s" and ?r = "v @ close_tag (js f) @ s"
  obtain c w where v: "v = c # w" using assms(2) by (cases v) auto
  have "\<not> is_space c" "c \<noteq> 60" using trim_start_same [OF assms(1,2)] assms(3) v by auto
  then have "dropWhile is_space ?r = ?r" "\<not> starts_with (js ''<![CDATA['') ?r" by (simp_all add: v cdata_js)
  moreover have "takeWhile (\<lambda>c. c \<noteq> 60) ?r = v" "dropWhile (\<lambda>c. c \<noteq> 60) ?r = close_tag (js f) @ s"
    using assms(3) by (auto simp: close_tag_def takeWhile_append dropWhile_append)
  ultimately have "element_content (js f) ?r = Some (v, s)" by (simp add: element_content_def)
  then have "element_at (js f) ?t = Some (v, s)" by (simp add: element_at_def plain_element_def)
  then show ?thesis by (simp add: elements.simps [of "js f" ?t])
qed

subsection \<open>The callback the platform makes\<close>

definition event_document :: "jstring \<Rightarrow> kf_event \<Rightarrow> jstring" where
  "event_document corpId e = js ''<xml>'' @ cdata_element ''ToUserName'' corpId @
     plain_element ''CreateTime'' (show_nat (ke_createdAtUnix e)) @ cdata_element ''MsgType'' (js ''event'') @
     cdata_element ''Event'' (js ''kf_msg_or_event'') @ cdata_element ''Token'' (ke_token e) @
     cdata_element ''OpenKfId'' (ke_openKfId e) @ js ''</xml>''"

definition callback_body :: "jstring \<Rightarrow> jstring" where
  "callback_body encrypted = js ''<xml>'' @ cdata_element ''Encrypt'' encrypted @ js ''</xml>''"

definition hex_text :: "byte list \<Rightarrow> jstring" where
  "hex_text bs = concat (map (\<lambda>b. [hex_digit (unat b div 16), hex_digit (unat b mod 16)]) bs)"

definition callback_query_of :: "jstring \<Rightarrow> jstring \<Rightarrow> jstring \<Rightarrow> query" where
  "callback_query_of signature timestamp nonce =
     [(js ''msg_signature'', signature), (js ''timestamp'', timestamp), (js ''nonce'', nonce)]"

lemma xml_tags: "js ''<xml>'' = open_tag (js ''xml'')" "js ''</xml>'' = close_tag (js ''xml'')"
  by (simp_all add: open_tag_def close_tag_def js_simps)

lemma tag_name_js [simp]: "tag_name (js s) \<longleftrightarrow> list_all (\<lambda>c. is_alnum (of_char c)) s"
  by (simp add: js_def list_all_iff)

lemma elements_Nil [simp]: "elements f [] = []"
  by (simp add: elements.simps element_at_def open_tag_def)

lemma from_hex_text: "from_hex (hex_text bs) = bs"
proof (induction bs)
  case (Cons b bs)
  have hex: "is_hex (hex_digit n)" "hex_value (hex_digit n) = n" if "n < 16" for n
    using that by (auto simp: is_hex_def is_lower_hex_def is_digit_def hex_digit_def hex_value_def)
  have "unat b div 16 < 16" "unat b mod 16 < 16" using byte_parts(1) by simp_all
  note h = hex [OF this(1)] hex [OF this(2)]
  have "unat b div 16 * 16 + unat b mod 16 = unat b" by simp
  then have "(of_nat (unat b div 16 * 16 + unat b mod 16) :: byte) = b" by (simp only: of_nat_unat ucast_id)
  then show ?case using Cons h by (simp add: hex_text_def del: of_nat_add of_nat_mult)
qed (simp add: hex_text_def)

lemma hex_text_shape: "length bs = 20 \<Longrightarrow> signature_shape (hex_text bs)"
proof -
  have hex: "is_hex (hex_digit n)" if "n < 16" for n
    using that by (auto simp: is_hex_def is_lower_hex_def is_digit_def hex_digit_def)
  have "length (hex_text bs) = 2 * length bs" "list_all is_hex (hex_text bs)"
    by (induction bs) (simp_all add: hex_text_def hex byte_parts)
  then show "length bs = 20 \<Longrightarrow> signature_shape (hex_text bs)" by (simp add: signature_shape_def)
qed

lemma plain_units: "list_all (\<lambda>c. 32 < c \<and> c < 0x80) s \<Longrightarrow> s \<noteq> [] \<Longrightarrow> trim s = s \<and> 0 \<notin> set s \<and> is_well_formed s \<and> list_all is_unit s"
proof -
  assume a: "list_all (\<lambda>c. 32 < c \<and> c < 0x80) s" and ne: "s \<noteq> []"
  have space: "\<not> is_space c" if "c \<in> set s" for c using a that by (auto simp: list_all_iff is_space_def)
  have "dropWhile is_space s = s" using ne space by (cases s) auto
  moreover have "dropWhile is_space (rev s) = rev s" using ne space by (cases "rev s") (auto simp: rev_eq_Cons_iff)
  ultimately have "trim s = s" by (simp add: trim_def trim_start_def trim_end_def)
  moreover have "is_well_formed s" using a
    by (induction s rule: code_points.induct) (auto simp: is_well_formed_def is_high_def is_low_def)
  ultimately show ?thesis using a by (auto simp: list_all_iff is_unit_def)
qed

lemma base64_text:
  assumes "bs \<noteq> []"
  shows "base64_shape (base64 bs)" "length (base64 bs) mod 4 = 0" "length (base64 bs) \<le> 4 * (length bs + 2) div 3"
    "list_all plain_char (base64 bs)"
proof -
  have char: "is_base64 (b64_char False n)" if "n < 64" for n
    using that by (auto simp: is_base64_def b64_char_def is_digit_def)
  let ?cs = "map (b64_char False) (b64_digits bs)"
  have cs: "list_all is_base64 ?cs" using b64_digits_bound char by (auto simp: list_all_iff)
  have ne: "?cs \<noteq> []" using assms by (cases bs rule: b64_digits.cases) auto
  obtain pad where pad: "base64 bs = ?cs @ pad" "pad \<in> {[], [61], [61, 61]}" by (auto simp: base64_def)
  have "takeWhile is_base64 (base64 bs) = ?cs" "dropWhile is_base64 (base64 bs) = pad"
    using cs pad by (auto simp: list_all_iff takeWhile_append dropWhile_append is_base64_def is_digit_def)
  then show "base64_shape (base64 bs)" using ne pad(2) by (simp add: base64_shape_def Let_def)
  show "list_all plain_char (base64 bs)"
    using cs pad by (auto simp: list_all_iff is_base64_def is_digit_def plain_char_def)
  show "length (base64 bs) mod 4 = 0" "length (base64 bs) \<le> 4 * (length bs + 2) div 3"
    by (induction bs rule: b64_digits.induct) (auto simp: base64_def)
qed

lemma plain_value_facts:
  assumes "plain_value v"
  shows "v \<noteq> []" "trim v = v" "60 \<notin> set v" "93 \<notin> set v" "0 \<notin> set v" "is_well_formed v" "list_all (\<lambda>c. 32 < c \<and> c < 0x80) v"
proof -
  show ne: "v \<noteq> []" and a: "list_all (\<lambda>c. 32 < c \<and> c < 0x80) v" and "60 \<notin> set v" "93 \<notin> set v"
    using assms by (auto simp: plain_value_def list_all_iff plain_char_def)
  show "trim v = v" "0 \<notin> set v" "is_well_formed v" using plain_units [OF a ne] by simp_all
qed

lemma show_nat_length: "n < 10 ^ k \<Longrightarrow> 1 \<le> k \<Longrightarrow> length (show_nat n) \<le> k"
proof (induction n arbitrary: k rule: show_nat.induct)
  case (1 n)
  show ?case
  proof (cases "n < 10")
    case False
    then obtain j where j: "k = Suc j" "1 \<le> j" using 1(2,3) by (cases k; cases "k - 1") auto
    then have "n div 10 < 10 ^ j" using 1(2) by (simp add: div_less_iff_less_mult mult.commute)
    then show ?thesis using 1(1) [OF False _ j(2)] False j by (simp add: show_nat.simps [of n])
  qed (use 1 in \<open>simp add: show_nat.simps [of n]\<close>)
qed

lemma show_nat_plain: "plain_value (show_nat n)"
  using show_nat_digits [of n] by (auto simp: plain_value_def list_all_iff is_digit_def plain_char_def)

lemma created_shape: "int n \<le> max_safe_integer \<Longrightarrow> timestamp_shape (show_nat n)"
  using show_nat_length [of n 20] show_nat_digits [of n]
  by (auto simp: timestamp_shape_def max_safe_integer_def Suc_le_eq)

lemma length_js [simp]: "length (js s) = length s"
  by (simp add: js_def)

lemma js_plain [simp]: "list_all P (js s) \<longleftrightarrow> list_all (\<lambda>c. P (of_char c)) s"
  by (simp add: js_def list_all_iff)

lemmas element_rules = elements_open elements_close elements_cdata_other elements_plain_other elements_cdata_same elements_plain_same

lemma event_fields:
  assumes "plain_value corp" "plain_value (ke_token e)" "plain_value (ke_openKfId e)"
  defines "d \<equiv> event_document corp e"
  shows "elements (js ''ToUserName'') d = [corp]" "elements (js ''CreateTime'') d = [show_nat (ke_createdAtUnix e)]"
    "elements (js ''MsgType'') d = [js ''event'']" "elements (js ''Event'') d = [js ''kf_msg_or_event'']"
    "elements (js ''Token'') d = [ke_token e]" "elements (js ''OpenKfId'') d = [ke_openKfId e]"
proof -
  note v = plain_value_facts [OF assms(1)] plain_value_facts [OF assms(2)] plain_value_facts [OF assms(3)]
    plain_value_facts [OF show_nat_plain]
  have m: "60 \<notin> set (js ''event'')" "93 \<notin> set (js ''event'')" "60 \<notin> set (js ''kf_msg_or_event'')" "93 \<notin> set (js ''kf_msg_or_event'')"
    by (simp_all add: js_simps)
  have x: "elements g (js ''</xml>'') = []" if "tag_name g" for g
    using elements_close [OF that, of "js ''xml''" "[]"] by (simp add: xml_tags is_alnum_def is_digit_def)
  note rules = d_def event_document_def xml_tags(1) x element_rules is_alnum_def is_digit_def v m
  show "elements (js ''ToUserName'') d = [corp]" by (simp add: rules)
  show "elements (js ''CreateTime'') d = [show_nat (ke_createdAtUnix e)]" by (simp add: rules)
  show "elements (js ''MsgType'') d = [js ''event'']" by (simp add: rules)
  show "elements (js ''Event'') d = [js ''kf_msg_or_event'']" by (simp add: rules)
  show "elements (js ''Token'') d = [ke_token e]" by (simp add: rules)
  show "elements (js ''OpenKfId'') d = [ke_openKfId e]" by (simp add: rules)
qed

lemma event_document_parsed:
  assumes "plain_value corp" "plain_value (ke_token e)" "plain_value (ke_openKfId e)"
    and "length corp \<le> 128" "length (ke_token e) \<le> 2048" "length (ke_openKfId e) \<le> 128" "int (ke_createdAtUnix e) \<le> max_safe_integer"
  shows "parseKfMessageEvent (event_document corp e) corp = Some e"
proof -
  note f = event_fields [OF assms(1-3)]
  note v = plain_value_facts [OF assms(1)] plain_value_facts [OF assms(2)] plain_value_facts [OF assms(3)]
    plain_value_facts [OF show_nat_plain]
  have m: "trim (js ''event'') = js ''event''" "trim (js ''kf_msg_or_event'') = js ''kf_msg_or_event''"
    "is_well_formed (js ''event'')" "is_well_formed (js ''kf_msg_or_event'')" "0 \<notin> set (js ''event'')" "0 \<notin> set (js ''kf_msg_or_event'')"
    using plain_units [of "js ''event''"] plain_units [of "js ''kf_msg_or_event''"] by simp_all
  have "length (show_nat (ke_createdAtUnix e)) \<le> 20" using created_shape [OF assms(7)] by (simp add: timestamp_shape_def)
  then show ?thesis using created_shape [OF assms(7)] assms(4-) v m
    by (simp add: parseKfMessageEvent_def xmlField_def f Let_def)
qed

lemma ascii_facts:
  assumes "list_all (\<lambda>c. 32 < c \<and> c < 0x80) s" and "s \<noteq> []"
  shows "0 \<notin> set s" "is_well_formed s" "list_all is_unit s" "utf8 s = map of_nat s" "hd s \<noteq> 0xFEFF"
proof -
  show "0 \<notin> set s" "is_well_formed s" "list_all is_unit s" using plain_units [OF assms] by simp_all
  show "utf8 s = map of_nat s" by (rule utf8_ascii) (use assms(1) in \<open>auto simp: list_all_iff\<close>)
  show "hd s \<noteq> 0xFEFF" using assms by (cases s) auto
qed

lemma event_document_ascii:
  assumes "plain_value corp" "plain_value (ke_token e)" "plain_value (ke_openKfId e)"
  shows "list_all (\<lambda>c. 32 < c \<and> c < 0x80) (event_document corp e)" "event_document corp e \<noteq> []"
  using plain_value_facts(7) [OF assms(1)] plain_value_facts(7) [OF assms(2)] plain_value_facts(7) [OF assms(3)]
    plain_value_facts(7) [OF show_nat_plain]
  by (simp_all add: event_document_def cdata_element_def plain_element_def open_tag_def close_tag_def)

definition platform_text ::
  "(byte list \<Rightarrow> byte list) \<Rightarrow> byte list \<Rightarrow> jstring \<Rightarrow> kf_event \<Rightarrow> jstring" where
  "platform_text enc random corpId e = base64 (enc (pad32 (frame random (event_document corpId e) corpId)))"

lemma platform_text_length:
  assumes "\<And>p. length p mod 16 = 0 \<Longrightarrow> length (enc p) = length p" and "length random = 16"
    and "plain_value corp" "plain_value (ke_token e)" "plain_value (ke_openKfId e)"
    and "length corp \<le> 128" "length (ke_token e) \<le> 2048" "length (ke_openKfId e) \<le> 128" "int (ke_createdAtUnix e) \<le> max_safe_integer"
  shows "length (platform_text enc random corp e) \<le> 8192" "byte_length (event_document corp e) < 2 ^ 32"
    "platform_text enc random corp e \<noteq> []" "enc (pad32 (frame random (event_document corp e) corp)) \<noteq> []"
proof -
  let ?d = "event_document corp e"
  let ?p = "pad32 (frame random ?d corp)"
  have n: "length (show_nat (ke_createdAtUnix e)) \<le> 20" using created_shape [OF assms(9)] by (simp add: timestamp_shape_def)
  have d: "length ?d \<le> 3000"
    using assms(6-8) n by (simp add: event_document_def cdata_element_def plain_element_def open_tag_def close_tag_def)
  have u: "byte_length ?d = length ?d" "length (utf8 corp) = length corp"
    using ascii_facts(4) [OF event_document_ascii [OF assms(3-5)]] ascii_facts(4) [OF plain_value_facts(7,1) [OF assms(3)]]
    by (simp_all add: byte_length_def)
  then show "byte_length ?d < 2 ^ 32" using d by simp
  have "length ?p = length (frame random ?d corp) + (32 - length (frame random ?d corp) mod 32)" by (simp add: pad32_def Let_def)
  moreover have "length (frame random ?d corp) = 20 + length ?d + length corp" using u assms(2) by (simp add: frame_def byte_length_def)
  ultimately have p: "length ?p \<le> 3200" using d assms(6) by linarith
  have same: "length (enc ?p) = length ?p" by (rule assms(1)) (rule length_pad32)
  then show ne: "enc ?p \<noteq> []" using length_pad32(2) [of "frame random ?d corp"] by (metis length_0_conv)
  have "4 * (length (enc ?p) + 2) div 3 \<le> 4 * (3200 + 2) div 3" by (rule div_le_mono) (use p same in simp)
  then have "length (base64 (enc ?p)) \<le> 4 * (3200 + 2) div 3" using base64_text(3) [OF ne] by (rule order_trans [rotated])
  then show "length (platform_text enc random corp e) \<le> 8192" by (simp add: platform_text_def)
  have "enc ?p = from_base64 (platform_text enc random corp e)" by (simp add: platform_text_def)
  then show "platform_text enc random corp e \<noteq> []" using ne by (auto simp: from_base64_def List.map_filter_def)
qed

lemma callback_body_value:
  assumes "bs \<noteq> []" and "length (base64 bs) \<le> 8192"
  shows "encryptedXmlValue (callback_body (base64 bs)) = Some (base64 bs)"
proof -
  let ?e = "base64 bs" and ?b = "callback_body (base64 bs)"
  note t = base64_text [OF assms(1)]
  have ne: "?e \<noteq> []" using t(1) by (auto simp: base64_shape_def)
  have v: "plain_value ?e" using ne t(4) by (simp add: plain_value_def)
  note f = plain_value_facts [OF v]
  have ascii: "list_all (\<lambda>c. 32 < c \<and> c < 0x80) ?b" "?b \<noteq> []"
    using f(7) by (simp_all add: callback_body_def cdata_element_def open_tag_def close_tag_def)
  have "elements (js ''Encrypt'') ?b = [?e]"
    using elements_close [of "js ''Encrypt''" "js ''xml''" "[]"] f(3,4)
    by (simp add: callback_body_def xml_tags element_rules is_alnum_def is_digit_def)
  moreover have "length ?b \<le> 64 * 1024"
    using assms(2) by (simp add: callback_body_def cdata_element_def open_tag_def close_tag_def)
  ultimately show ?thesis using ascii_facts(1,2) [OF ascii] ascii(2) f(2) ne t(1,2) assms(2)
    by (simp add: encryptedXmlValue_def Let_def)
qed

lemma callback_query_parsed:
  assumes "signature_shape s" "timestamp_shape t" "n \<noteq> []" "length n \<le> 128" "0 \<notin> set n" "is_well_formed n"
  shows "parseEventQuery (callback_query_of s t n) = Some \<lparr>cq_msgSignature = s, cq_timestamp = t, cq_nonce = n\<rparr>"
proof -
  have s: "list_all (\<lambda>c. 32 < c \<and> c < 0x80) s" "s \<noteq> []" "length s = 40"
    using assms(1) by (auto simp: signature_shape_def list_all_iff is_hex_def is_lower_hex_def is_digit_def)
  have t: "list_all (\<lambda>c. 32 < c \<and> c < 0x80) t" "t \<noteq> []" "length t \<le> 20"
    using assms(2) by (auto simp: timestamp_shape_def list_all_iff is_digit_def)
  show ?thesis using ascii_facts(1,2) [OF s(1,2)] ascii_facts(1,2) [OF t(1,2)] s t assms
    by (simp add: parseEventQuery_def parse_query_fields_def exactly_once_def callback_query_of_def CALLBACK_FIELDS_def
        getAll_def boundedQueryValue_def numeral_3_eq_3)
qed

lemma accept_genuine:
  assumes cipher: "\<And>p. length p mod 16 = 0 \<Longrightarrow> aes (vf_aesKey v) (enc p) = Some p \<and> length (enc p) = length p"
    and hash: "\<And>x. length (sha1 x) = 20" and random: "length random = 16"
    and plain: "plain_value (vf_corpId v)" "plain_value (ke_token e)" "plain_value (ke_openKfId e)"
    and bounds: "length (vf_corpId v) \<le> 128" "length (ke_token e) \<le> 2048" "length (ke_openKfId e) \<le> 128"
      "int (ke_createdAtUnix e) \<le> max_safe_integer"
    and query: "timestamp_shape t" "\<bar>int (digits_value t) - now div 1000\<bar> \<le> vf_maxClockSkewSeconds v"
      "n \<noteq> []" "length n \<le> 128" "0 \<notin> set n" "is_well_formed n"
  shows "let x = platform_text enc random (vf_corpId v) e; s = hex_text (sha1 (utf8 (signed_text (vf_token v) t n x)))
    in verifyEvent sha1 aes v (Some now) (callback_query_of s t n) (callback_body x) = Some e"
proof -
  let ?x = "platform_text enc random (vf_corpId v) e"
  let ?s = "hex_text (sha1 (utf8 (signed_text (vf_token v) t n ?x)))"
  let ?d = "event_document (vf_corpId v) e"
  note len = platform_text_length [OF conjunct2 [OF cipher] random plain bounds]
  note ascii = event_document_ascii [OF plain]
  have "parseEventQuery (callback_query_of ?s t n) = Some \<lparr>cq_msgSignature = ?s, cq_timestamp = t, cq_nonce = n\<rparr>"
    by (rule callback_query_parsed [OF hex_text_shape [OF hash] query(1,3-)])
  moreover have "encryptedXmlValue (callback_body ?x) = Some ?x"
    using callback_body_value [OF len(4)] len(1) by (simp add: platform_text_def)
  moreover have "decryptMessage aes ?x (vf_aesKey v) (vf_corpId v) = Some ?d"
  proof -
    let ?p = "pad32 (frame random ?d (vf_corpId v))"
    have "aes (vf_aesKey v) (enc ?p) = Some ?p" "length (enc ?p) = length ?p" using cipher [OF length_pad32(1)] by blast+
    then show ?thesis
      using unframe_frame [OF random ascii(2) len(2) ascii_facts(2,3,5) [OF ascii]] len(4) length_pad32(1)
      by (simp add: decryptMessage_def platform_text_def Let_def)
  qed
  ultimately show ?thesis using query(2) event_document_parsed [OF plain bounds]
    by (simp add: Let_def verifyEvent_def verified_document_def validateTimestamp_def verifySignature_def from_hex_text)
qed

text \<open>
  C22. Genuine events get through: when the cipher undoes the encryption of whole blocks and the hash
  has its twenty bytes, the callback that the platform makes of an event, encrypted with any random
  bytes and signed within the allowed skew, is accepted and gives the event back.
\<close>

theorem genuine_event_accepted:
  assumes "\<And>p. length p mod 16 = 0 \<Longrightarrow> aes (vf_aesKey v) (enc p) = Some p \<and> length (enc p) = length p"
    and "\<And>x. length (sha1 x) = 20" and "length random = 16"
    and "plain_value (vf_corpId v)" "plain_value (ke_token e)" "plain_value (ke_openKfId e)"
    and "length (vf_corpId v) \<le> 128" "length (ke_token e) \<le> 2048" "length (ke_openKfId e) \<le> 128"
    and "int (ke_createdAtUnix e) \<le> max_safe_integer"
    and "timestamp_shape t" "\<bar>int (digits_value t) - now div 1000\<bar> \<le> vf_maxClockSkewSeconds v"
    and "n \<noteq> []" "length n \<le> 128" "0 \<notin> set n" "is_well_formed n"
  shows "let x = platform_text enc random (vf_corpId v) e; s = hex_text (sha1 (utf8 (signed_text (vf_token v) t n x)))
    in verifyEvent sha1 aes v (Some now) (callback_query_of s t n) (callback_body x) = Some e"
  by (rule accept_genuine) (use assms in simp_all)

section \<open>A callback\<close>

definition demo_verifier :: verifier where
  "demo_verifier = \<lparr>vf_corpId = js ''ww1'', vf_token = js ''t'', vf_aesKey = [], vf_maxClockSkewSeconds = 300\<rparr>"

definition demo_event :: kf_event where
  "demo_event = \<lparr>ke_token = js ''tok'', ke_openKfId = js ''kf'', ke_createdAtUnix = 5\<rparr>"

lemma demo_values:
  "plain_value (vf_corpId demo_verifier)" "plain_value (ke_token demo_event)" "plain_value (ke_openKfId demo_event)"
  "length (vf_corpId demo_verifier) \<le> 128" "length (ke_token demo_event) \<le> 2048" "length (ke_openKfId demo_event) \<le> 128"
  "int (ke_createdAtUnix demo_event) \<le> max_safe_integer"
  "timestamp_shape (js ''1000'')" "\<bar>int (digits_value (js ''1000'')) - 1000000 div 1000\<bar> \<le> vf_maxClockSkewSeconds demo_verifier"
  "js ''n'' \<noteq> []" "length (js ''n'') \<le> 128" "0 \<notin> set (js ''n'')" "is_well_formed (js ''n'')"
  by (simp_all add: demo_verifier_def demo_event_def plain_value_def plain_char_def timestamp_shape_def is_digit_def
      digits_value_def max_safe_integer_def js_simps is_well_formed_def is_high_def is_low_def)

abbreviation demo_sha1 :: "byte list \<Rightarrow> byte list" where
  "demo_sha1 \<equiv> \<lambda>_. replicate 20 0"

abbreviation demo_cipher :: "byte list \<Rightarrow> byte list \<Rightarrow> byte list option" where
  "demo_cipher \<equiv> \<lambda>k c. Some c"

theorem genuine_event_accepted_witness:
  "\<exists>s x. verifyEvent demo_sha1 demo_cipher demo_verifier (Some 1000000) (callback_query_of s (js ''1000'') (js ''n''))
     (callback_body x) = Some demo_event"
  using genuine_event_accepted [of demo_cipher demo_verifier "\<lambda>p. p" demo_sha1 "replicate 16 0" demo_event, OF _ _ _ demo_values]
  by (auto simp: Let_def)

theorem verified_event_authentic_witness:
  "\<exists>q body (c :: callback_query). verifyEvent demo_sha1 demo_cipher demo_verifier (Some 1000000) q body = Some demo_event \<and>
     length q = 3 \<and> getAll q (js ''timestamp'') = [cq_timestamp c] \<and> from_hex (cq_msgSignature c) = replicate 20 0"
proof -
  obtain s x where run: "verifyEvent demo_sha1 demo_cipher demo_verifier (Some 1000000) (callback_query_of s (js ''1000'') (js ''n''))
      (callback_body x) = Some demo_event"
    using accept_genuine [of demo_cipher demo_verifier "\<lambda>p. p" demo_sha1 "replicate 16 0" demo_event, OF _ _ _ demo_values]
    by (auto simp: Let_def)
  from verified_event_authentic [OF run] run show ?thesis by blast
qed

theorem decrypt_roundtrip_witness:
  "decryptMessage demo_cipher (base64 (pad32 (frame (replicate 16 0) (js ''hi'') (js ''ww1'')))) [] (js ''ww1'') = Some (js ''hi'')"
proof -
  have a: "list_all (\<lambda>c. 32 < c \<and> c < 0x80) (js ''hi'')" "js ''hi'' \<noteq> []" by simp_all
  have "byte_length (js ''hi'') < 2 ^ 32" using ascii_facts(4) [OF a] by (simp add: byte_length_def)
  then show ?thesis
    using decrypt_roundtrip [of demo_cipher "[]" "\<lambda>p. p" "replicate 16 0" "js ''hi''" "js ''ww1''"] ascii_facts [OF a] by simp
qed

end
