(* ===== verification/WeComCustomerProps.thy ===== *)
theory WeComCustomerProps
  imports WeComCustomer
begin

text \<open>
  What the customer channel guarantees: each text starts the agent and is answered at most once over
  all interleavings of callbacks and losses of answers, from the laws of the router; the life
  cycle of an inbound row and the isolation of customers, on the Postgres router.
\<close>

section \<open>Effects and processes\<close>

declare split_paired_All [simp del] split_paired_Ex [simp del]

fun respond_key :: "customer_effect \<Rightarrow> wecom_key option" where
  "respond_key (Respond m r) = Some (text_key m)"
| "respond_key (Send_text m x) = None"

fun text_sent_key :: "customer_effect \<Rightarrow> wecom_key option" where
  "text_sent_key (Respond m r) = None"
| "text_sent_key (Send_text m x) = Some (text_key m)"

definition responded :: "customer_effect list \<Rightarrow> wecom_key list" where
  "responded = List.map_filter respond_key"

definition texted :: "customer_effect list \<Rightarrow> wecom_key list" where
  "texted = List.map_filter text_sent_key"

lemma customer_effects_simps [simp]:
  "responded [] = []" "texted [] = []"
  "responded (x # xs) = (case respond_key x of None \<Rightarrow> responded xs | Some k \<Rightarrow> k # responded xs)"
  "texted (x # xs) = (case text_sent_key x of None \<Rightarrow> texted xs | Some k \<Rightarrow> k # texted xs)"
  "responded (xs @ ys) = responded xs @ responded ys"
  "texted (xs @ ys) = texted xs @ texted ys"
  by (simp_all add: responded_def texted_def List.map_filter_simps map_filter_append split: option.splits)

text \<open>The claimed text that a process has not yet handed to the agent, or not yet to the client.\<close>

fun pending_respond :: "customer_pc \<Rightarrow> wecom_key option" where
  "pending_respond (C_resolve m q i) = Some (text_key m)"
| "pending_respond (C_attach m i route) = Some (text_key m)"
| "pending_respond _ = None"

fun pending_send :: "customer_pc \<Rightarrow> wecom_key option" where
  "pending_send (C_respond m i route) = Some (text_key m)"
| "pending_send pc = pending_respond pc"

abbreviation before_respond :: "customer_process \<Rightarrow> wecom_key option" where
  "before_respond p \<equiv> pending_respond (cp_pc p)"

abbreviation before_send :: "customer_process \<Rightarrow> wecom_key option" where
  "before_send p \<equiv> pending_send (cp_pc p)"

lemma pending_respond_send: "pending_respond pc = Some k \<Longrightarrow> pending_send pc = Some k"
  by (cases pc) auto

definition process_ok :: "wecom_key set \<Rightarrow> customer_effect list \<Rightarrow> customer_process \<Rightarrow> bool" where
  "process_ok K tr p \<longleftrightarrow> (\<forall>k. before_respond p = Some k \<longrightarrow> k \<notin> set (responded tr)) \<and>
     (\<forall>k. before_send p = Some k \<longrightarrow> k \<in> K \<and> k \<notin> set (texted tr) \<and> (before_respond p = None \<longrightarrow> k \<in> set (responded tr)))"

definition loops_ok :: "wecom_key set \<Rightarrow> customer_effect list \<Rightarrow> customer_process list \<Rightarrow> bool" where
  "loops_ok K tr ps \<longleftrightarrow> distinct (responded tr) \<and> distinct (texted tr) \<and> set (responded tr) \<subseteq> K \<and>
     set (texted tr) \<subseteq> set (responded tr) \<and> (\<forall>p \<in> set ps. process_ok K tr p) \<and>
     (\<forall>a < length ps. \<forall>b < length ps. a \<noteq> b \<longrightarrow> (\<forall>k. before_send (ps ! a) = Some k \<longrightarrow> before_send (ps ! b) \<noteq> Some k))"

lemma idle_next [simp]: "before_send (next_text a p) = None" "before_respond (next_text a p) = None"
  by (simp_all add: next_text_def split: list.split)

text \<open>The four kinds of steps of a process, by what they do to the claimed text and the effects.\<close>

definition quiet_step where
  "quiet_step K p K' p' es \<longleftrightarrow> es = [] \<and> K \<subseteq> K' \<and>
     (before_send p' = None \<and> before_respond p' = None \<or>
      before_send p' = before_send p \<and> before_respond p' = before_respond p)"

definition claim_step where
  "claim_step K p K' p' es \<longleftrightarrow> es = [] \<and>
     (\<exists>k. k \<notin> K \<and> K' = insert k K \<and> before_send p' = Some k \<and> before_respond p' = Some k)"

definition respond_step where
  "respond_step K p K' p' es \<longleftrightarrow> K' = K \<and>
     (\<exists>m route. es = [Respond m route] \<and> before_respond p = Some (text_key m) \<and> before_send p = Some (text_key m) \<and>
        before_send p' = Some (text_key m) \<and> before_respond p' = None)"

definition send_step where
  "send_step K p K' p' es \<longleftrightarrow> K' = K \<and>
     (\<exists>m x. es = [Send_text m x] \<and> before_respond p = None \<and> before_send p = Some (text_key m) \<and>
        before_send p' = None \<and> before_respond p' = None)"

lemma process_ok_other:
  assumes "process_ok K tr g" and "K \<subseteq> K'"
    and "\<forall>k \<in> set (responded es) \<union> set (texted es). before_send g \<noteq> Some k"
  shows "process_ok K' (tr @ es) g"
  using assms pending_respond_send [of "cp_pc g"] by (fastforce simp: process_ok_def)

lemma loops_apart:
  "loops_ok K tr ps \<Longrightarrow> a < length ps \<Longrightarrow> b < length ps \<Longrightarrow> a \<noteq> b \<Longrightarrow> before_send (ps ! a) = Some k \<Longrightarrow>
     before_send (ps ! b) \<noteq> Some k"
  by (simp add: loops_ok_def)

lemma loops_step:
  assumes ok: "loops_ok K tr ps" and n: "n < length ps"
    and kind: "quiet_step K (ps ! n) K' p' es \<or> claim_step K (ps ! n) K' p' es \<or>
      respond_step K (ps ! n) K' p' es \<or> send_step K (ps ! n) K' p' es"
  shows "loops_ok K' (tr @ es) (ps[n := p'])"
proof -
  let ?p = "ps ! n"
  have all: "process_ok K tr g" if "g \<in> set ps" for g using ok that by (simp add: loops_ok_def)
  have own: "process_ok K tr ?p" using all n by simp
  have apart: "before_send (ps ! b) \<noteq> Some k" if "b < length ps" "b \<noteq> n" "before_send ?p = Some k" for b k
    using loops_apart [OF ok n that(1) _ that(3)] that(2) by blast
  have sub: "K \<subseteq> K'" using kind by (auto simp: quiet_step_def claim_step_def respond_step_def send_step_def)
  have keys: "before_send ?p = Some k" if "k \<in> set (responded es) \<union> set (texted es)" for k
    using kind that by (auto simp: quiet_step_def claim_step_def respond_step_def send_step_def)
  have known: "set (responded tr) \<subseteq> K" "set (texted tr) \<subseteq> K" using ok by (auto simp: loops_ok_def)
  have p': "process_ok K' (tr @ es) p'"
    using kind own known sub
    by (auto simp: quiet_step_def claim_step_def respond_step_def send_step_def process_ok_def)
  have others: "process_ok K' (tr @ es) (ps ! b)" if "b < length ps" "b \<noteq> n" for b
    using process_ok_other [OF all sub] keys apart that by auto
  have new: "before_send (ps ! b) \<noteq> Some k" if b: "b < length ps" "b \<noteq> n" and k: "before_send p' = Some k" for b k
  proof -
    have "before_send ?p = Some k \<or> k \<notin> K"
      using kind k by (auto simp: quiet_step_def claim_step_def respond_step_def send_step_def)
    moreover have "j \<in> K" if "before_send (ps ! b) = Some j" for j
      using all [of "ps ! b"] b(1) that by (auto simp: process_ok_def)
    ultimately show ?thesis using apart [OF b(1,2)] by blast
  qed
  have "distinct (responded (tr @ es)) \<and> distinct (texted (tr @ es)) \<and> set (responded (tr @ es)) \<subseteq> K' \<and>
      set (texted (tr @ es)) \<subseteq> set (responded (tr @ es))"
    using kind ok own by (auto simp: loops_ok_def quiet_step_def claim_step_def respond_step_def send_step_def process_ok_def)
  moreover have "process_ok K' (tr @ es) g" if mem: "g \<in> set (ps[n := p'])" for g
  proof -
    obtain b where "b < length (ps[n := p'])" "ps[n := p'] ! b = g" using mem unfolding in_set_conv_nth by blast
    then show ?thesis using others [of b] p' by (cases "b = n") auto
  qed
  moreover have "before_send (ps[n := p'] ! b) \<noteq> Some k"
    if ab: "a < length ps" "b < length ps" "a \<noteq> b" "before_send (ps[n := p'] ! a) = Some k" for a b k
  proof -
    consider "a = n" "b \<noteq> n" | "a \<noteq> n" "b = n" | "a \<noteq> n" "b \<noteq> n" using ab(3) by blast
    then show ?thesis
    proof cases
      case 1
      then show ?thesis using ab new [of b k] n by (simp, blast?)
    next
      case 2
      then show ?thesis using ab new [of a k] n by (simp, blast?)
    next
      case 3
      then show ?thesis using ab loops_apart [OF ok] by simp
    qed
  qed
  ultimately show ?thesis by (simp add: loops_ok_def)
qed

lemma loops_callback:
  assumes "loops_ok K tr ps" and idle: "before_send p = None" "before_respond p = None"
  shows "loops_ok K tr (ps @ [p])"
proof -
  have "before_send ((ps @ [p]) ! b) \<noteq> Some k"
    if "a < length (ps @ [p])" "b < length (ps @ [p])" "a \<noteq> b" "before_send ((ps @ [p]) ! a) = Some k" for a b k
  proof (cases "a < length ps \<and> b < length ps")
    case True
    then show ?thesis using that(3,4) loops_apart [OF assms(1), of a b k] by (simp add: nth_append)
  next
    case False
    then have "(ps @ [p]) ! a = p \<or> (ps @ [p]) ! b = p" using that(1,2) by (auto simp: nth_append less_Suc_eq)
    then show ?thesis using that(4) idle by auto
  qed
  moreover have "process_ok K tr p" using idle by (simp add: process_ok_def)
  ultimately show ?thesis using assms(1) by (simp add: loops_ok_def)
qed

section \<open>The router interface\<close>

locale customer_router =
  fixes ops :: "'r customer_ops"
    and keys :: "'r \<Rightarrow> wecom_key set"
  assumes claim_new: "cr_claim ops r m q = (r', Some (Claimed i)) \<Longrightarrow>
      text_key m \<notin> keys r \<and> keys r' = insert (text_key m) (keys r)"
    and claim_old: "cr_claim ops r m q = (r', x) \<Longrightarrow> (\<forall>i. x \<noteq> Some (Claimed i)) \<Longrightarrow> keys r' = keys r"
    and resolve_keeps: "keys (fst (cr_resolveRoute ops r m q)) = keys r"
    and attach_keeps: "keys (fst (cr_attachRoute ops r i route)) = keys r"
    and complete_keeps: "keys (fst (cr_complete ops r i t)) = keys r"
    and failed_keeps: "keys (fst (cr_markFailed ops r i e)) = keys r"
    and indeterminate_keeps: "keys (fst (cr_markIndeterminate ops r i e)) = keys r"
begin

lemma called_keeps: "(\<And>r. keys (fst (op r)) = keys r) \<Longrightarrow> called f op r = (r', x) \<Longrightarrow> keys r' = keys r"
  by (cases f) (simp_all add: called_def, metis fst_conv, metis fst_conv)

lemma claim_kinds:
  assumes "called f (\<lambda>r. cr_claim ops r m q) r = (r', x)"
  shows "keys r \<subseteq> keys r' \<and> (\<forall>i. x = Some (Claimed i) \<longrightarrow> text_key m \<notin> keys r \<and> keys r' = insert (text_key m) (keys r))"
proof -
  obtain r1 y where run: "cr_claim ops r m q = (r1, y)" by fastforce
  then have "keys r \<subseteq> keys r1"
    using claim_new [of r m q r1] claim_old [OF run] by (cases "\<exists>i. y = Some (Claimed i)") auto
  then show ?thesis using assms run claim_new [of r m q r1] by (auto simp: called_def split: fault.splits)
qed

lemma advance_kinds:
  assumes "customer_advance ops sha a r p = (r', p', es)"
  shows "quiet_step (keys r) p (keys r') p' es \<or> claim_step (keys r) p (keys r') p' es \<or>
    respond_step (keys r) p (keys r') p' es \<or> send_step (keys r) p (keys r') p' es"
proof (cases "cp_pc p")
  case (C_claim m q)
  obtain r1 x where run: "called (ca_fault a) (\<lambda>r. cr_claim ops r m q) r = (r1, x)" by fastforce
  from claim_kinds [OF run] assms C_claim run show ?thesis
    by (auto simp: customer_advance_def quiet_step_def claim_step_def count_up_def
        split: option.splits wecom_claim.splits)
next
  case (C_resolve m q i)
  obtain r1 x where run: "called (ca_fault a) (\<lambda>r. cr_resolveRoute ops r m q) r = (r1, x)" by fastforce
  from called_keeps [OF resolve_keeps run] assms C_resolve run show ?thesis
    by (auto simp: customer_advance_def quiet_step_def split: option.splits)
next
  case (C_attach m i route)
  obtain r1 x where run: "called (ca_fault a) (\<lambda>r. cr_attachRoute ops r i route) r = (r1, x)" by fastforce
  from called_keeps [OF attach_keeps run] assms C_attach run show ?thesis
    by (auto simp: customer_advance_def quiet_step_def respond_step_def count_up_def split: option.splits bool.splits)
next
  case (C_respond m i route)
  then show ?thesis using assms
    by (auto simp: customer_advance_def quiet_step_def send_step_def split: option.splits)
next
  case (C_complete i t)
  obtain r1 x where run: "called (ca_fault a) (\<lambda>r. cr_complete ops r i t) r = (r1, x)" by fastforce
  from called_keeps [OF complete_keeps run] assms C_complete run show ?thesis
    by (auto simp: customer_advance_def quiet_step_def split: option.splits bool.splits)
next
  case (C_unbound i)
  obtain r1 x where run: "called (ca_fault a) (\<lambda>r. cr_markFailed ops r i Unbound_channel) r = (r1, x)" by fastforce
  from called_keeps [OF failed_keeps run] assms C_unbound run show ?thesis
    by (auto simp: customer_advance_def quiet_step_def split: option.splits)
next
  case (C_attachFailed i)
  obtain r1 x where run: "called (ca_fault a) (\<lambda>r. cr_markFailed ops r i Route_attach_failed) r = (r1, x)" by fastforce
  from called_keeps [OF failed_keeps run] assms C_attachFailed run show ?thesis
    by (auto simp: customer_advance_def quiet_step_def split: option.splits)
next
  case (C_send i x)
  then show ?thesis using assms
    by (auto simp: customer_advance_def quiet_step_def count_up_def split: send_outcome.splits)
qed (use assms called_keeps [OF failed_keeps, OF surjective_pairing] called_keeps [OF indeterminate_keeps, OF surjective_pairing]
  in \<open>auto simp: customer_advance_def quiet_step_def\<close>)

lemma loops_invariant:
  assumes "(customer_step ops sha other)\<^sup>*\<^sup>* s s'" and "loops_ok (keys (cs_repo s)) (cs_trace s) (cs_processes s)"
    and "\<And>r r'. other r r' \<Longrightarrow> keys r' = keys r"
  shows "loops_ok (keys (cs_repo s')) (cs_trace s') (cs_processes s')"
  using assms(1)
proof (induction rule: rtranclp_induct)
  case base
  then show ?case using assms(2) by simp
next
  case (step s s')
  from step(2) show ?case
  proof cases
    case (callback a messages)
    then show ?thesis using loops_callback [OF step(3), of "start_loop a messages"] by (simp add: start_loop_def)
  next
    case (advance n a r' p' es)
    then show ?thesis using loops_step [OF step(3) advance(2) advance_kinds [OF advance(3)]] by simp
  next
    case (other r')
    then show ?thesis using step(3) assms(3) by simp
  qed
qed

end

section \<open>The Postgres router\<close>

definition inbound_keys :: "db \<Rightarrow> wecom_key set" where
  "inbound_keys d = customer_key ` set (db_customerInbound d)"

lemma update_inbound_keys:
  assumes "\<And>x. customer_key (g x) = customer_key x"
  shows "inbound_keys (fst (update_inbound P g d)) = inbound_keys d"
proof -
  have "map customer_key (update_where P g (db_customerInbound d)) = map customer_key (db_customerInbound d)"
    by (rule map_update_where) (rule assms)
  then have "set (map customer_key (update_where P g (db_customerInbound d))) = set (map customer_key (db_customerInbound d))"
    by (rule arg_cong)
  then show ?thesis by (simp add: update_inbound_def inbound_keys_def)
qed

lemma new_customer_frame:
  "db_customerInbound (fst (new_customer d c m)) = db_customerInbound d"
  by (simp add: new_customer_def Let_def draw_def)

lemma resolveRoute_frame: "db_customerInbound (fst (resolveRoute d m q)) = db_customerInbound d"
  using new_customer_frame [of d _ m]
  by (auto simp: resolveRoute_def Let_def split: option.splits prod.splits) (metis fst_conv)+

interpretation customer: customer_router "pg_customer sha" inbound_keys for sha
proof
  fix d m q d' i
  assume "cr_claim (pg_customer sha) d m q = (d', Some (Claimed i))"
  then have "List.find (\<lambda>x. customer_key x = text_key m) (db_customerInbound d) = None" and
    "\<exists>x. db_customerInbound d' = db_customerInbound d @ [x] \<and> customer_key x = text_key m"
    by (auto simp: pg_customer_def customer_claim_def draw_def customer_key_def text_key_def split: option.splits if_splits)
  then show "text_key m \<notin> inbound_keys d \<and> inbound_keys d' = insert (text_key m) (inbound_keys d)"
    by (auto simp: inbound_keys_def find_None_iff)
next
  fix d m q d' x
  assume "cr_claim (pg_customer sha) d m q = (d', x)" "\<forall>i. x \<noteq> Some (Claimed i)"
  then show "inbound_keys d' = inbound_keys d"
    by (auto simp: pg_customer_def customer_claim_def split: option.splits if_splits)
next
  fix d m q
  show "inbound_keys (fst (cr_resolveRoute (pg_customer sha) d m q)) = inbound_keys d"
    by (simp add: pg_customer_def inbound_keys_def resolveRoute_frame)
next
  fix d i route
  show "inbound_keys (fst (cr_attachRoute (pg_customer sha) d i route)) = inbound_keys d"
    by (simp add: pg_customer_def attachRoute_def Let_def update_inbound_keys customer_key_def)
next
  fix d i t
  show "inbound_keys (fst (cr_complete (pg_customer sha) d i t)) = inbound_keys d"
    by (simp add: pg_customer_def complete_def update_inbound_keys customer_key_def)
next
  fix d i e
  show "inbound_keys (fst (cr_markFailed (pg_customer sha) d i e)) = inbound_keys d"
    by (simp add: pg_customer_def markFailed_def update_inbound_keys customer_key_def)
next
  fix d i e
  show "inbound_keys (fst (cr_markIndeterminate (pg_customer sha) d i e)) = inbound_keys d"
    by (simp add: pg_customer_def markIndeterminate_def update_inbound_keys customer_key_def)
qed

text \<open>
  What the rest of the program may do meanwhile: it leaves the inbox and the bindings of customers
  alone, keeps the identity of the channels and deletes no conversation.
\<close>

definition channel_ids :: "db \<Rightarrow> (jstring \<times> jstring \<times> jstring) list" where
  "channel_ids d = map (\<lambda>c. (kf_id c, kf_corpId c, kf_openKfId c)) (db_channels d)"

definition other_customer_work :: "db \<Rightarrow> db \<Rightarrow> bool" where
  "other_customer_work d d' \<longleftrightarrow> db_customerInbound d' = db_customerInbound d \<and> db_customers d' = db_customers d \<and>
     channel_ids d' = channel_ids d \<and> cv_id ` set (db_conversations d) \<subseteq> cv_id ` set (db_conversations d')"

definition customer_initial :: "db \<Rightarrow> db customer_system" where
  "customer_initial d = \<lparr>cs_repo = d, cs_processes = [], cs_trace = []\<rparr>"

text \<open>
  C17. Over every interleaving of callbacks, however often a text is delivered and whatever answers
  of the database are lost, a customer text (corporation, account, message identifier) starts the
  agent at most once and is handed to the client at most once, and only after the agent ran for it.
\<close>

theorem customer_texts_handled_once:
  assumes "(customer_step (pg_customer sha) sha other_customer_work)\<^sup>*\<^sup>* (customer_initial d) s"
  shows "distinct (responded (cs_trace s)) \<and> distinct (texted (cs_trace s)) \<and>
    set (texted (cs_trace s)) \<subseteq> set (responded (cs_trace s)) \<and>
    set (responded (cs_trace s)) \<subseteq> customer_key ` set (db_customerInbound (cs_repo s))"
proof -
  have "loops_ok (inbound_keys (cs_repo s)) (cs_trace s) (cs_processes s)"
    by (rule customer.loops_invariant [OF assms])
      (simp_all add: customer_initial_def loops_ok_def other_customer_work_def inbound_keys_def)
  then show ?thesis by (simp add: loops_ok_def inbound_keys_def)
qed

section \<open>Customers apart\<close>

definition bindings_apart :: "db \<Rightarrow> bool" where
  "bindings_apart d \<longleftrightarrow> distinct (map fst (channel_ids d)) \<and> distinct (map snd (channel_ids d)) \<and>
     distinct (map (\<lambda>b. (cu_channelId b, cu_externalUserId b)) (db_customers d)) \<and>
     distinct (map cu_conversationId (db_customers d)) \<and>
     cu_conversationId ` set (db_customers d) \<subseteq> cv_id ` set (db_conversations d)"

definition bound_route :: "db \<Rightarrow> synced_text \<Rightarrow> customer_route \<Rightarrow> bool" where
  "bound_route d m r \<longleftrightarrow> (\<exists>b \<in> set (db_customers d). \<exists>f.
     (f, sx_corpId m, sx_openKfId m) \<in> set (channel_ids d) \<and> cu_channelId b = f \<and>
     cu_externalUserId b = sx_externalUserId m \<and> rt_channelBindingId r = f \<and>
     rt_conversationId r = cu_conversationId b \<and> rt_customerId r = cu_customerId b)"

lemma lockAuthority_channel:
  "lockAuthority d msg = Some (c, m) \<Longrightarrow> (kf_id c, sx_corpId msg, sx_openKfId msg) \<in> set (channel_ids d)"
proof -
  assume "lockAuthority d msg = Some (c, m)"
  then have "[(c, m). c \<leftarrow> db_channels d, m \<leftarrow> db_memberships d,
         mem_id m = kf_membershipId c \<and> mem_tenantId m = kf_tenantId c \<and> mem_storeId m = kf_storeId c \<and>
         kf_corpId c = sx_corpId msg \<and> kf_openKfId c = sx_openKfId msg \<and> kf_active c] = [(c, m)]" (is "?rows = _")
    unfolding lockAuthority_def by (cases ?rows rule: remdups_adj.cases) simp_all
  then have "(c, m) \<in> set ?rows" by simp
  then show ?thesis by (auto simp: channel_ids_def)
qed

lemma bound_route_for:
  "b \<in> set (db_customers d) \<Longrightarrow> cu_channelId b = kf_id c \<Longrightarrow> cu_externalUserId b = sx_externalUserId m \<Longrightarrow>
     (kf_id c, sx_corpId m, sx_openKfId m) \<in> set (channel_ids d) \<Longrightarrow> bound_route d m (route_for c b ctx)"
  unfolding bound_route_def route_for_def by (intro bexI [of _ b] exI [of _ "kf_id c"]) simp_all

lemma resolveRoute_apart:
  assumes "bindings_apart d" and "resolveRoute d m q = (d', x)"
  shows "bindings_apart d' \<and> set (db_customers d) \<subseteq> set (db_customers d') \<and> channel_ids d' = channel_ids d \<and>
    (\<forall>r. x = Some (Some r) \<longrightarrow> bound_route d' m r)"
proof (cases "lockAuthority d m")
  case None
  then show ?thesis using assms by (auto simp: resolveRoute_def)
next
  case (Some cm)
  then obtain c mb where cm: "lockAuthority d m = Some (c, mb)" by (cases cm) auto
  note ch = lockAuthority_channel [OF cm]
  show ?thesis
  proof (cases "List.find (\<lambda>b. cu_channelId b = kf_id c \<and> cu_externalUserId b = sx_externalUserId m) (db_customers d)")
    case (Some b)
    then show ?thesis using assms cm ch find_Some_iff' [OF Some] bound_route_for [of b d c m]
      by (auto simp: resolveRoute_def Let_def split: if_splits)
  next
    case None
    obtain d1 y where new: "new_customer d c m = (d1, y)" by fastforce
    have d1: "bindings_apart d1 \<and> set (db_customers d) \<subseteq> set (db_customers d1) \<and> channel_ids d1 = channel_ids d \<and>
        (\<forall>b. y = Some b \<longrightarrow> b \<in> set (db_customers d1) \<and> cu_channelId b = kf_id c \<and> cu_externalUserId b = sx_externalUserId m)"
    proof (cases y)
      case None
      then have "d1 = draw (draw (draw d))" using new by (auto simp: new_customer_def Let_def split: if_splits)
      then show ?thesis using assms(1) None by (simp add: bindings_apart_def channel_ids_def draw_def)
    next
      case (Some b)
      have b: "cu_channelId b = kf_id c" "cu_externalUserId b = sx_externalUserId m"
        "cu_conversationId b \<notin> cv_id ` set (db_conversations d)" "db_customers d1 = db_customers d @ [b]"
        "db_channels d1 = db_channels d" "cv_id ` set (db_conversations d1) = insert (cu_conversationId b) (cv_id ` set (db_conversations d))"
        using new Some by (auto simp: new_customer_def Let_def draw_def list_ex_iff split: if_splits)
      have "(cu_channelId b, cu_externalUserId b) \<notin> (\<lambda>b. (cu_channelId b, cu_externalUserId b)) ` set (db_customers d)"
        using None b(1,2) by (auto simp: find_None_iff)
      moreover have "cu_conversationId b \<notin> cu_conversationId ` set (db_customers d)"
        using assms(1) b(3) by (auto simp: bindings_apart_def)
      ultimately show ?thesis using assms(1) b Some by (auto simp: bindings_apart_def channel_ids_def)
    qed
    have "d' = d1 \<or> d' = d" "\<And>r. x = Some (Some r) \<Longrightarrow> d' = d1 \<and> (\<exists>b ctx. y = Some b \<and> r = route_for c b ctx)"
      using assms(2) cm None new by (auto simp: resolveRoute_def Let_def split: if_splits option.splits)
    moreover have "bound_route d1 m r" if "x = Some (Some r)" for r
      using calculation(2) [OF that] d1 ch bound_route_for [of _ d1 c m] by auto
    ultimately show ?thesis using d1 assms(1) by auto
  qed
qed

lemma bound_route_mono:
  "bound_route d m r \<Longrightarrow> set (db_customers d) \<subseteq> set (db_customers d') \<Longrightarrow> channel_ids d' = channel_ids d \<Longrightarrow> bound_route d' m r"
  by (auto simp: bound_route_def)

fun held_route :: "customer_pc \<Rightarrow> (synced_text \<times> customer_route) option" where
  "held_route (C_attach m i r) = Some (m, r)"
| "held_route (C_respond m i r) = Some (m, r)"
| "held_route _ = None"

lemma held_route_next [simp]: "held_route (cp_pc (next_text a p)) = None"
  by (simp add: next_text_def split: list.split)

definition routes_ok :: "db customer_system \<Rightarrow> bool" where
  "routes_ok s \<longleftrightarrow> bindings_apart (cs_repo s) \<and>
     (\<forall>p \<in> set (cs_processes s). \<forall>m r. held_route (cp_pc p) = Some (m, r) \<longrightarrow> bound_route (cs_repo s) m r) \<and>
     (\<forall>m r. Respond m r \<in> set (cs_trace s) \<longrightarrow> bound_route (cs_repo s) m r)"

text \<open>Only the resolution of a route changes more of the database than the inbox.\<close>

definition same_routes :: "db \<Rightarrow> db \<Rightarrow> bool" where
  "same_routes d d' \<longleftrightarrow> db_customers d' = db_customers d \<and> db_channels d' = db_channels d \<and>
     db_conversations d' = db_conversations d"

lemma same_routes_ops:
  "same_routes d (fst (update_inbound P g d))" "same_routes d (fst (customer_claim sha d m q))"
  "same_routes d (fst (attachRoute d i r))" "same_routes d (fst (complete d i t))"
  "same_routes d (fst (markFailed d i e))" "same_routes d (fst (markIndeterminate d i e))"
proof -
  show *: "same_routes d (fst (update_inbound P g d))" for P g by (simp add: same_routes_def update_inbound_def)
  show "same_routes d (fst (customer_claim sha d m q))"
    by (simp add: same_routes_def customer_claim_def draw_def split: option.split)
  have "same_routes d d" by (simp add: same_routes_def)
  then show "same_routes d (fst (attachRoute d i r))" using * by (simp add: attachRoute_def Let_def)
qed (simp_all add: same_routes_def complete_def markFailed_def markIndeterminate_def update_inbound_def)

lemma called_same: "same_routes d (fst (op d)) \<Longrightarrow> called f op d = (d', x) \<Longrightarrow> same_routes d d'"
  by (auto simp: called_def same_routes_def split: fault.splits)

lemma advance_routes:
  assumes "customer_advance (pg_customer sha) sha a d p = (d', p', es)"
  shows "(\<exists>m q i. cp_pc p = C_resolve m q i \<and> es = [] \<and>
      (\<exists>x. called (ca_fault a) (\<lambda>d. resolveRoute d m q) d = (d', x) \<and>
        (\<forall>n r. held_route (cp_pc p') = Some (n, r) \<longrightarrow> n = m \<and> x = Some (Some r)))) \<or>
    (same_routes d d' \<and> (held_route (cp_pc p') = None \<or> held_route (cp_pc p') = held_route (cp_pc p)) \<and>
      (\<forall>m r. Respond m r \<in> set es \<longrightarrow> held_route (cp_pc p) = Some (m, r)))"
proof -
  show ?thesis
  proof (cases "cp_pc p")
    case (C_claim m q)
    obtain y x where run: "called (ca_fault a) (\<lambda>d. customer_claim sha d m q) d = (y, x)" by fastforce
    from called_same [OF same_routes_ops(2) run] assms C_claim run show ?thesis
      by (auto simp: customer_advance_def pg_customer_def count_up_def split: option.splits wecom_claim.splits)
  next
    case (C_resolve m q i)
    obtain y x where run: "called (ca_fault a) (\<lambda>d. resolveRoute d m q) d = (y, x)" by fastforce
    with assms C_resolve show ?thesis
      by (auto simp: customer_advance_def pg_customer_def split: option.splits)
  next
    case (C_attach m i route)
    obtain y x where run: "called (ca_fault a) (\<lambda>d. attachRoute d i route) d = (y, x)" by fastforce
    from called_same [OF same_routes_ops(3) run] assms C_attach run show ?thesis
      by (auto simp: customer_advance_def pg_customer_def count_up_def split: option.splits bool.splits)
  next
    case (C_complete i t)
    obtain y x where run: "called (ca_fault a) (\<lambda>d. complete d i t) d = (y, x)" by fastforce
    from called_same [OF same_routes_ops(4) run] assms C_complete run show ?thesis
      by (auto simp: customer_advance_def pg_customer_def split: option.splits bool.splits)
  next
    case (C_respond m i route)
    then show ?thesis using assms
      by (auto simp: customer_advance_def same_routes_def split: option.splits)
  next
    case (C_send i x)
    then show ?thesis using assms
      by (auto simp: customer_advance_def same_routes_def count_up_def split: send_outcome.splits)
  next
    case (C_unbound i)
    obtain y x where run: "called (ca_fault a) (\<lambda>d. markFailed d i Unbound_channel) d = (y, x)" by fastforce
    from called_same [OF same_routes_ops(5) run] assms C_unbound run show ?thesis
      by (auto simp: customer_advance_def pg_customer_def split: option.splits)
  next
    case (C_attachFailed i)
    obtain y x where run: "called (ca_fault a) (\<lambda>d. markFailed d i Route_attach_failed) d = (y, x)" by fastforce
    from called_same [OF same_routes_ops(5) run] assms C_attachFailed run show ?thesis
      by (auto simp: customer_advance_def pg_customer_def split: option.splits)
  next
    case (C_routingError i)
    obtain y x where run: "called (ca_fault a) (\<lambda>d. markFailed d i Routing_error) d = (y, x)" by fastforce
    from called_same [OF same_routes_ops(5) run] assms C_routingError run show ?thesis
      by (auto simp: customer_advance_def pg_customer_def count_up_def)
  next
    case (C_executionError i)
    obtain y x where run: "called (ca_fault a) (\<lambda>d. markFailed d i Agent_execution_error) d = (y, x)" by fastforce
    from called_same [OF same_routes_ops(5) run] assms C_executionError run show ?thesis
      by (auto simp: customer_advance_def pg_customer_def count_up_def)
  next
    case (C_sendFailed i)
    obtain y x where run: "called (ca_fault a) (\<lambda>d. markFailed d i Outbound_send_failed) d = (y, x)" by fastforce
    from called_same [OF same_routes_ops(5) run] assms C_sendFailed run show ?thesis
      by (auto simp: customer_advance_def pg_customer_def count_up_def)
  next
    case (C_sendIndeterminate i)
    obtain y x where run: "called (ca_fault a) (\<lambda>d. markIndeterminate d i Outbound_send_indeterminate) d = (y, x)" by fastforce
    from called_same [OF same_routes_ops(6) run] assms C_sendIndeterminate run show ?thesis
      by (auto simp: customer_advance_def pg_customer_def count_up_def)
  next
    case (C_persistFailed i)
    obtain y x where run: "called (ca_fault a) (\<lambda>d. markIndeterminate d i Completion_persist_failed) d = (y, x)" by fastforce
    from called_same [OF same_routes_ops(6) run] assms C_persistFailed run show ?thesis
      by (auto simp: customer_advance_def pg_customer_def count_up_def)
  qed (use assms in \<open>auto simp: customer_advance_def same_routes_def\<close>)
qed

lemma routes_step:
  assumes "customer_step (pg_customer sha) sha other_customer_work s s'" and ok: "routes_ok s"
  shows "routes_ok s'"
  using assms(1)
proof cases
  case (callback a messages)
  then show ?thesis using ok by (auto simp: routes_ok_def start_loop_def)
next
  case (other d')
  then have work: "set (db_customers (cs_repo s)) \<subseteq> set (db_customers d')" "channel_ids d' = channel_ids (cs_repo s)"
    by (auto simp: other_customer_work_def channel_ids_def)
  have "bindings_apart d'"
    using ok other(2) subset_trans [of "cu_conversationId ` set (db_customers (cs_repo s))"]
    unfolding routes_ok_def bindings_apart_def work(2) other_customer_work_def by metis
  then show ?thesis using ok other(1) bound_route_mono [OF _ work] by (auto simp: routes_ok_def)
next
  case (advance n a d' p' es)
  let ?p = "cs_processes s ! n" and ?d = "cs_repo s"
  have apart: "bindings_apart ?d" and held: "\<And>m r. held_route (cp_pc ?p) = Some (m, r) \<Longrightarrow> bound_route ?d m r"
    using ok nth_mem [OF advance(2)] unfolding routes_ok_def by blast+
  have new: "bindings_apart d' \<and> set (db_customers ?d) \<subseteq> set (db_customers d') \<and> channel_ids d' = channel_ids ?d \<and>
      (\<forall>m r. held_route (cp_pc p') = Some (m, r) \<longrightarrow> bound_route d' m r) \<and>
      (\<forall>m r. Respond m r \<in> set es \<longrightarrow> bound_route d' m r)"
    using advance_routes [OF advance(3)]
  proof
    assume "same_routes ?d d' \<and> (held_route (cp_pc p') = None \<or> held_route (cp_pc p') = held_route (cp_pc ?p)) \<and>
      (\<forall>m r. Respond m r \<in> set es \<longrightarrow> held_route (cp_pc ?p) = Some (m, r))"
    then show ?thesis using apart held
      by (auto simp: same_routes_def bindings_apart_def channel_ids_def bound_route_def)
  next
    assume "\<exists>m q i. cp_pc ?p = C_resolve m q i \<and> es = [] \<and>
      (\<exists>x. called (ca_fault a) (\<lambda>d. resolveRoute d m q) ?d = (d', x) \<and>
        (\<forall>n r. held_route (cp_pc p') = Some (n, r) \<longrightarrow> n = m \<and> x = Some (Some r)))"
    then obtain m q x where x: "called (ca_fault a) (\<lambda>d. resolveRoute d m q) ?d = (d', x)" "es = []"
      "\<And>n r. held_route (cp_pc p') = Some (n, r) \<Longrightarrow> n = m \<and> x = Some (Some r)" by blast
    obtain d1 y where run: "resolveRoute ?d m q = (d1, y)" by fastforce
    have "(d', x) \<in> {(?d, None), (d1, None), (d1, y)}" using x(1) run by (auto simp: called_def split: fault.splits)
    then show ?thesis using resolveRoute_apart [OF apart run] apart x(2,3) by auto
  qed
  have "bound_route d' m r" if "bound_route ?d m r" for m r using bound_route_mono [OF that] new by blast
  then show ?thesis using ok new advance(1) by (auto simp: routes_ok_def dest!: set_update_subset_insert [THEN subsetD])
qed

text \<open>
  C18. Customers are kept apart: whenever the agent is started for two texts, they share a conversation
  exactly when they come from the same user of the same account, and then they also share the
  customer record; so no user ever reaches the conversation of another, and every user stays in
  one conversation.
\<close>

theorem customer_conversations_apart:
  assumes "bindings_apart d" and "(customer_step (pg_customer sha) sha other_customer_work)\<^sup>*\<^sup>* (customer_initial d) s"
    and "Respond m r \<in> set (cs_trace s)" and "Respond m' r' \<in> set (cs_trace s)"
  shows "(rt_conversationId r = rt_conversationId r' \<longleftrightarrow>
      (sx_corpId m, sx_openKfId m, sx_externalUserId m) = (sx_corpId m', sx_openKfId m', sx_externalUserId m')) \<and>
    (rt_conversationId r = rt_conversationId r' \<longrightarrow> rt_customerId r = rt_customerId r')"
proof -
  have "routes_ok s" using assms(2)
  proof (induction rule: rtranclp_induct)
    case base
    then show ?case using assms(1) by (simp add: routes_ok_def customer_initial_def)
  qed (rule routes_step)
  then have apart: "bindings_apart (cs_repo s)" and "bound_route (cs_repo s) m r" "bound_route (cs_repo s) m' r'"
    using assms(3,4) by (auto simp: routes_ok_def)
  then obtain b b' f f' where b: "b \<in> set (db_customers (cs_repo s))" "(f, sx_corpId m, sx_openKfId m) \<in> set (channel_ids (cs_repo s))"
      "cu_channelId b = f" "cu_externalUserId b = sx_externalUserId m" "rt_conversationId r = cu_conversationId b" "rt_customerId r = cu_customerId b"
    and b': "b' \<in> set (db_customers (cs_repo s))" "(f', sx_corpId m', sx_openKfId m') \<in> set (channel_ids (cs_repo s))"
      "cu_channelId b' = f'" "cu_externalUserId b' = sx_externalUserId m'" "rt_conversationId r' = cu_conversationId b'" "rt_customerId r' = cu_customerId b'"
    unfolding bound_route_def by blast
  have conv: "cu_conversationId b = cu_conversationId b' \<longleftrightarrow> b = b'"
    using key_unique [of cu_conversationId _ b b'] apart b(1) b'(1) by (auto simp: bindings_apart_def)
  have user: "(f, sx_externalUserId m) = (f', sx_externalUserId m') \<longleftrightarrow> b = b'"
    using key_unique [of "\<lambda>b. (cu_channelId b, cu_externalUserId b)" _ b b'] apart b(1) b'(1)
    unfolding b(3,4) [symmetric] b'(3,4) [symmetric] by (auto simp: bindings_apart_def)
  have keys: "distinct (map fst (channel_ids (cs_repo s)))" "distinct (map snd (channel_ids (cs_repo s)))"
    using apart by (simp_all add: bindings_apart_def)
  have chan: "f = f' \<longleftrightarrow> (sx_corpId m, sx_openKfId m) = (sx_corpId m', sx_openKfId m')"
    using key_unique [OF keys(1) b(2) b'(2)] key_unique [OF keys(2) b(2) b'(2)] unfolding fst_conv snd_conv by blast
  have same: "rt_conversationId r = rt_conversationId r' \<longleftrightarrow> b = b'" using conv b(5) b'(5) by simp
  have who: "b = b' \<longleftrightarrow> (sx_corpId m, sx_openKfId m, sx_externalUserId m) = (sx_corpId m', sx_openKfId m', sx_externalUserId m')"
    using user chan unfolding prod.inject by blast
  have "rt_customerId r = rt_customerId r'" if "b = b'" using that b(6) b'(6) by simp
  with same who show ?thesis by blast
qed


section \<open>A run\<close>

text \<open>A callback that no other work interrupts.\<close>

fun run_alone :: "'r customer_ops \<Rightarrow> (jstring \<Rightarrow> jstring) \<Rightarrow> customer_answer list \<Rightarrow> 'r \<Rightarrow> customer_process \<Rightarrow>
    'r \<times> customer_process \<times> customer_effect list" where
  "run_alone ops sha [] r p = (r, p, [])"
| "run_alone ops sha (a # as) r p =
     (let (r', p', es) = customer_advance ops sha a r p; (r'', p'', fs) = run_alone ops sha as r' p' in (r'', p'', es @ fs))"

lemma run_alone_steps:
  assumes "run_alone ops sha as r p = (r', p', es)"
  shows "(customer_step ops sha other)\<^sup>*\<^sup>* \<lparr>cs_repo = r, cs_processes = [p], cs_trace = tr\<rparr>
    \<lparr>cs_repo = r', cs_processes = [p'], cs_trace = tr @ es\<rparr>"
  using assms
proof (induction as arbitrary: r p tr es)
  case Nil
  then show ?case by simp
next
  case (Cons a as)
  obtain r1 p1 es1 where one: "customer_advance ops sha a r p = (r1, p1, es1)" by (cases "customer_advance ops sha a r p")
  obtain fs where rest: "run_alone ops sha as r1 p1 = (r', p', fs)" "es = es1 @ fs"
    using Cons.prems one by (auto split: prod.splits)
  have "customer_step ops sha other \<lparr>cs_repo = r, cs_processes = [p], cs_trace = tr\<rparr>
      \<lparr>cs_repo = r1, cs_processes = [p1], cs_trace = tr @ es1\<rparr>"
    using customer_step.advance [of 0 "\<lparr>cs_repo = r, cs_processes = [p], cs_trace = tr\<rparr>" ops sha a r1 p1 es1 other] one by simp
  from converse_rtranclp_into_rtranclp [OF this Cons.IH [OF rest(1)]] show ?case using rest(2) by simp
qed

definition guest_text :: synced_text where
  "guest_text = \<lparr>sx_corpId = js ''w'', sx_messageId = js ''m'', sx_openKfId = js ''o'', sx_externalUserId = js ''x'',
     sx_sentAtUnix = 1, sx_text = js ''hi''\<rparr>"

definition guest_answer :: support_result where
  "guest_answer = \<lparr>sr_policyDecision = None, sr_type = Answer, sr_text = js ''ok'', sr_piSessionId = js ''p'',
     sr_toolsCalled = [], sr_sessionEvents = [], sr_evidence = []\<rparr>"

definition guest_environment :: customer_answer where
  "guest_environment = \<lparr>ca_fault = No_fault, ca_requestId = js ''q'', ca_result = Some guest_answer, ca_sent = Delivered\<rparr>"

definition guest_row :: customer_inbound where
  "guest_row = \<lparr>ci_id = [0], ci_corpId = js ''w'', ci_openKfId = js ''o'', ci_messageId = js ''m'',
     ci_payloadHash = weComCustomerPayloadHash (\<lambda>s. s) guest_text, ci_state = In_processing, ci_requestId = js ''q'',
     ci_route = None, ci_resultType = None, ci_errorCategory = None\<rparr>"

definition guest_binding :: customer_binding where
  "guest_binding = \<lparr>cu_id = js ''wecom-customer-binding-'' @ [1], cu_channelId = js ''f'', cu_tenantId = js ''t'',
     cu_storeId = js ''s'', cu_externalUserId = js ''x'', cu_customerId = js ''wecom-customer-'' @ [2],
     cu_conversationId = js ''wecom-conversation-'' @ [3]\<rparr>"

definition guest_route :: customer_route where
  "guest_route = \<lparr>rt_channelBindingId = js ''f'', rt_customerBindingId = cu_id guest_binding,
     rt_customerId = cu_customerId guest_binding, rt_conversationId = cu_conversationId guest_binding,
     rt_context = demo_supervisor\<rparr>"

definition guest_claimed :: db where
  "guest_claimed = demo_db\<lparr>db_customerInbound := [guest_row], db_drawn := 1\<rparr>"

definition guest_resolved :: db where
  "guest_resolved = guest_claimed\<lparr>db_drawn := 4,
     db_conversations := db_conversations guest_claimed @
       [\<lparr>cv_id = cu_conversationId guest_binding, cv_tenantId = js ''t'', cv_storeId = js ''s'',
         cv_customerId = cu_customerId guest_binding, cv_piSessionId = None, cv_createdAt = 1000, cv_updatedAt = 1000\<rparr>],
     db_customers := [guest_binding]\<rparr>"

definition guest_attached :: db where
  "guest_attached = guest_resolved\<lparr>db_customerInbound := [guest_row\<lparr>ci_state := In_routed, ci_route := Some (route_columns guest_route)\<rparr>]\<rparr>"

lemma guest_claim: "customer_claim (\<lambda>s. s) demo_db guest_text (js ''q'') = (guest_claimed, Some (Claimed [0]))"
  by (simp add: customer_claim_def demo_db_def uuid_def draw_def guest_claimed_def guest_row_def guest_text_def)

lemma guest_authority: "lockAuthority guest_claimed guest_text = Some (hd (db_channels demo_db), hd (db_memberships demo_db))"
  by (simp add: lockAuthority_def guest_claimed_def demo_db_def guest_text_def)

lemma guest_new: "new_customer guest_claimed (hd (db_channels demo_db)) guest_text = (guest_resolved, Some guest_binding)"
  by (simp add: new_customer_def guest_resolved_def guest_claimed_def guest_binding_def demo_db_def guest_text_def
      uuid_def draw_def Let_def has_store_def numeral_eq_Suc js_simps)

lemma guest_resolve: "resolveRoute guest_claimed guest_text (js ''q'') = (guest_resolved, Some (Some guest_route))"
proof -
  have "List.find (\<lambda>b. cu_channelId b = kf_id (hd (db_channels demo_db)) \<and> cu_externalUserId b = sx_externalUserId guest_text)
      (db_customers guest_claimed) = None" by (simp add: guest_claimed_def demo_db_def)
  moreover have "createSupportExecutionContext (hd (db_memberships demo_db)) (js ''q'') = demo_supervisor"
    by (simp add: demo_db_def createSupportExecutionContext_def demo_supervisor_def)
  moreover have "Agent_invoke \<in> set (actor_capabilities demo_supervisor)" by (simp add: demo_supervisor_def)
  moreover have "kf_id (hd (db_channels demo_db)) = js ''f''" by (simp add: demo_db_def)
  ultimately show ?thesis
    by (simp add: resolveRoute_def guest_authority guest_new route_for_def guest_route_def Let_def)
qed

lemma guest_attach: "attachRoute guest_resolved [0] guest_route = (guest_attached, Some True)"
  by (simp add: attachRoute_def guest_attached_def guest_resolved_def guest_claimed_def guest_route_def guest_row_def
      guest_binding_def demo_supervisor_def route_columns_def update_inbound_def update_where_def count_where_def Let_def)

lemma guest_environment_simps:
  "ca_fault guest_environment = No_fault" "ca_requestId guest_environment = js ''q''"
  "ca_result guest_environment = Some guest_answer" "ca_sent guest_environment = Delivered"
  by (simp_all add: guest_environment_def)

lemma guest_run:
  "\<exists>p. run_alone (pg_customer (\<lambda>s. s)) (\<lambda>s. s) (replicate 4 guest_environment) demo_db (start_loop guest_environment [guest_text]) =
    (guest_attached, p, [Respond guest_text guest_route, Send_text guest_text (outbound (\<lambda>s. s) guest_text [0] guest_answer)])"
  by (simp add: customer_advance_def start_loop_def next_text_def count_up_def Let_def called_def pg_customer_def
      guest_environment_simps guest_claim guest_resolve guest_attach numeral_eq_Suc)

lemma guest_reachable:
  "\<exists>s. (customer_step (pg_customer (\<lambda>s. s)) (\<lambda>s. s) other_customer_work)\<^sup>*\<^sup>* (customer_initial demo_db) s \<and>
     cs_trace s = [Respond guest_text guest_route, Send_text guest_text (outbound (\<lambda>s. s) guest_text [0] guest_answer)]"
proof -
  obtain p where run: "run_alone (pg_customer (\<lambda>s. s)) (\<lambda>s. s) (replicate 4 guest_environment) demo_db
      (start_loop guest_environment [guest_text]) =
    (guest_attached, p, [Respond guest_text guest_route, Send_text guest_text (outbound (\<lambda>s. s) guest_text [0] guest_answer)])"
    using guest_run by blast
  have "customer_step (pg_customer (\<lambda>s. s)) (\<lambda>s. s) other_customer_work (customer_initial demo_db)
      \<lparr>cs_repo = demo_db, cs_processes = [start_loop guest_environment [guest_text]], cs_trace = []\<rparr>"
    using customer_step.callback [of "pg_customer (\<lambda>s. s)" "\<lambda>s. s" other_customer_work "customer_initial demo_db" guest_environment "[guest_text]"]
    by (simp add: customer_initial_def)
  from converse_rtranclp_into_rtranclp [OF this run_alone_steps [OF run, of other_customer_work "[]"]] show ?thesis
    by (intro exI [of _ "\<lparr>cs_repo = guest_attached, cs_processes = [p],
      cs_trace = [] @ [Respond guest_text guest_route, Send_text guest_text (outbound (\<lambda>s. s) guest_text [0] guest_answer)]\<rparr>"]) simp
qed

lemma guest_apart: "bindings_apart demo_db"
  by (simp add: bindings_apart_def channel_ids_def demo_db_def)

theorem customer_texts_handled_once_witness:
  "\<exists>s :: db customer_system. responded (cs_trace s) = [text_key guest_text] \<and> distinct (texted (cs_trace s)) \<and>
     set (texted (cs_trace s)) \<subseteq> set (responded (cs_trace s))"
proof -
  obtain s where s: "(customer_step (pg_customer (\<lambda>s. s)) (\<lambda>s. s) other_customer_work)\<^sup>*\<^sup>* (customer_initial demo_db) s"
    "cs_trace s = [Respond guest_text guest_route, Send_text guest_text (outbound (\<lambda>s. s) guest_text [0] guest_answer)]"
    using guest_reachable by blast
  from customer_texts_handled_once [OF s(1)] s(2) have "responded (cs_trace s) = [text_key guest_text] \<and>
      distinct (texted (cs_trace s)) \<and> set (texted (cs_trace s)) \<subseteq> set (responded (cs_trace s))" by simp
  then show ?thesis by blast
qed

theorem customer_conversations_apart_witness:
  "rt_conversationId guest_route = rt_conversationId guest_route \<and>
     rt_customerId guest_route = js ''wecom-customer-'' @ [2] \<and> sx_externalUserId guest_text = js ''x''"
proof -
  obtain s where s: "(customer_step (pg_customer (\<lambda>s. s)) (\<lambda>s. s) other_customer_work)\<^sup>*\<^sup>* (customer_initial demo_db) s"
    "cs_trace s = [Respond guest_text guest_route, Send_text guest_text (outbound (\<lambda>s. s) guest_text [0] guest_answer)]"
    using guest_reachable by blast
  have mem: "Respond guest_text guest_route \<in> set (cs_trace s)" using s(2) by simp
  from customer_conversations_apart [OF guest_apart s(1) mem mem]
  show ?thesis by (simp add: guest_text_def guest_route_def guest_binding_def)
qed

section \<open>The life of an inbound row\<close>

definition row_forward :: "customer_inbound \<Rightarrow> customer_inbound \<Rightarrow> bool" where
  "row_forward x y \<longleftrightarrow> ci_id y = ci_id x \<and> customer_key y = customer_key x \<and> ci_payloadHash y = ci_payloadHash x \<and>
     ci_requestId y = ci_requestId x \<and>
     (ci_state x \<notin> {In_processing, In_routed} \<longrightarrow> y = x) \<and>
     (ci_state x = In_routed \<longrightarrow> ci_state y \<noteq> In_processing) \<and>
     (ci_state x = In_routed \<or> ci_route x \<noteq> None \<longrightarrow> ci_route y = ci_route x)"

definition rows_forward :: "customer_inbound list \<Rightarrow> customer_inbound list \<Rightarrow> bool" where
  "rows_forward xs ys \<longleftrightarrow> length xs \<le> length ys \<and> (\<forall>j < length xs. row_forward (xs ! j) (ys ! j))"

lemma row_forward_refl [simp]: "row_forward x x"
  by (simp add: row_forward_def)

lemma row_forward_trans: "row_forward x y \<Longrightarrow> row_forward y z \<Longrightarrow> row_forward x z"
  unfolding row_forward_def by (cases "ci_state x"; cases "ci_state y") auto

lemma rows_forward_refl [simp]: "rows_forward xs xs"
  by (simp add: rows_forward_def)

lemma rows_forward_trans: "rows_forward xs ys \<Longrightarrow> rows_forward ys zs \<Longrightarrow> rows_forward xs zs"
  unfolding rows_forward_def using row_forward_trans by (meson le_trans less_le_trans)

lemma update_inbound_forward:
  "(\<And>x. P x \<Longrightarrow> row_forward x (g x)) \<Longrightarrow>
     rows_forward (db_customerInbound d) (db_customerInbound (fst (update_inbound P g d)))"
  by (simp add: rows_forward_def update_inbound_def update_where_def)

lemma called_forward:
  "rows_forward (db_customerInbound d) (db_customerInbound (fst (op d))) \<Longrightarrow> called f op d = (d', x) \<Longrightarrow>
     rows_forward (db_customerInbound d) (db_customerInbound d')"
  by (auto simp: called_def split: fault.splits)

lemma forward_ops:
  "rows_forward (db_customerInbound d) (db_customerInbound (fst (customer_claim sha d m q)))"
  "rows_forward (db_customerInbound d) (db_customerInbound (fst (resolveRoute d m q)))"
  "rows_forward (db_customerInbound d) (db_customerInbound (fst (attachRoute d i r)))"
  "rows_forward (db_customerInbound d) (db_customerInbound (fst (complete d i t)))"
  "rows_forward (db_customerInbound d) (db_customerInbound (fst (markFailed d i e)))"
  "rows_forward (db_customerInbound d) (db_customerInbound (fst (markIndeterminate d i e)))"
proof -
  show "rows_forward (db_customerInbound d) (db_customerInbound (fst (customer_claim sha d m q)))"
    by (simp add: customer_claim_def draw_def rows_forward_def nth_append split: option.split)
  show "rows_forward (db_customerInbound d) (db_customerInbound (fst (attachRoute d i r)))"
    using update_inbound_forward [of "\<lambda>x. ci_id x = i \<and> ci_state x = In_processing \<and> ci_route x = None"
        "\<lambda>x. x\<lparr>ci_state := In_routed, ci_route := Some (route_columns r)\<rparr>" d]
    by (simp add: attachRoute_def Let_def row_forward_def customer_key_def)
qed (auto simp: resolveRoute_frame complete_def markFailed_def markIndeterminate_def row_forward_def customer_key_def
    intro!: update_inbound_forward)

lemmas called_forward_ops =
  called_forward [where op = "\<lambda>d. customer_claim sha d m q" for sha m q, OF forward_ops(1)]
  called_forward [where op = "\<lambda>d. resolveRoute d m q" for m q, OF forward_ops(2)]
  called_forward [where op = "\<lambda>d. attachRoute d i r" for i r, OF forward_ops(3)]
  called_forward [where op = "\<lambda>d. complete d i t" for i t, OF forward_ops(4)]
  called_forward [where op = "\<lambda>d. markFailed d i e" for i e, OF forward_ops(5)]
  called_forward [where op = "\<lambda>d. markIndeterminate d i e" for i e, OF forward_ops(6)]

lemma advance_forward:
  assumes "customer_advance (pg_customer sha) sha a d p = (d', p', es)"
  shows "rows_forward (db_customerInbound d) (db_customerInbound d')"
  using assms called_forward_ops [OF prod.collapse [symmetric]]
  by (cases "cp_pc p")
    (auto simp: customer_advance_def pg_customer_def split: option.splits prod.splits bool.splits
      wecom_claim.splits send_outcome.splits dest: called_forward_ops)

text \<open>
  The state machine of an inbound row holds over every run of the loops: a row keeps its
  text, request and payload hash, its route is fixed once it is set, it never returns to the
  processing state from the routed one, and a completed, failed or indeterminate row never changes.
\<close>

theorem customer_rows_forward:
  assumes "(customer_step (pg_customer sha) sha other_customer_work)\<^sup>*\<^sup>* s s'"
  shows "rows_forward (db_customerInbound (cs_repo s)) (db_customerInbound (cs_repo s'))"
  using assms
proof (induction rule: rtranclp_induct)
  case (step s1 s2)
  from step(2) have "rows_forward (db_customerInbound (cs_repo s1)) (db_customerInbound (cs_repo s2))"
    by cases (auto simp: other_customer_work_def dest: advance_forward)
  then show ?case using rows_forward_trans [OF step(3)] by blast
qed simp

theorem customer_rows_forward_witness:
  "rows_forward [guest_row] [guest_row\<lparr>ci_state := In_routed, ci_route := Some (route_columns guest_route)\<rparr>]"
proof -
  let ?p = "\<lparr>cp_queue = [], cp_tally = [], cp_pc = C_attach guest_text [0] guest_route\<rparr>"
  let ?s = "\<lparr>cs_repo = guest_resolved, cs_processes = [?p], cs_trace = []\<rparr>"
  obtain p es where "customer_advance (pg_customer (\<lambda>s. s)) (\<lambda>s. s) guest_environment guest_resolved ?p = (guest_attached, p, es)"
    by (simp add: customer_advance_def called_def pg_customer_def guest_environment_simps guest_attach Let_def)
  then have "customer_step (pg_customer (\<lambda>s. s)) (\<lambda>s. s) other_customer_work ?s
      \<lparr>cs_repo = guest_attached, cs_processes = [p], cs_trace = es\<rparr>"
    using customer_step.advance [of 0 ?s "pg_customer (\<lambda>s. s)" "\<lambda>s. s" guest_environment guest_attached p es] by simp
  from customer_rows_forward [OF r_into_rtranclp [of "customer_step (pg_customer (\<lambda>s. s)) (\<lambda>s. s) other_customer_work", OF this]]
  show ?thesis by (simp add: guest_attached_def guest_resolved_def guest_claimed_def)
qed

end
