(* ===== verification/WeComProps.thy ===== *)
theory WeComProps
  imports WeCom Bytes
begin

text \<open>
  What the message channel guarantees over every interleaving of its handlers, every loss of an
  answer of the repository and every outcome of the agent and the sender. The laws of the
  repository are a locale over an abstract view of the inbox; its invariants are proved there
  and hold for the Postgres repository by interpretation.
\<close>

section \<open>The view of the inbox\<close>

record wecom_view =
  wv_key :: wecom_key
  wv_state :: inbound_state
  wv_delivery :: delivery_state
  wv_binding :: "jstring option"
  wv_conversation :: "(jstring \<times> jstring \<times> jstring) option"

type_synonym inbox = "jstring \<Rightarrow> wecom_view option"

definition busy :: "wecom_view \<Rightarrow> bool" where
  "busy v \<longleftrightarrow> wv_state v \<in> {In_processing, In_indeterminate}"

definition conversation_of :: "wecom_identity \<Rightarrow> jstring \<times> jstring \<Rightarrow> jstring \<times> jstring \<times> jstring" where
  "conversation_of w c = (scope_tenantId (wi_context w), scope_storeId (wi_context w), fst c)"

definition keys_unique :: "inbox \<Rightarrow> bool" where
  "keys_unique V \<longleftrightarrow> (\<forall>a b v w. V a = Some v \<longrightarrow> V b = Some w \<longrightarrow> wv_key v = wv_key w \<longrightarrow> a = b)"

text \<open>A conversation belongs to one binding and has at most one message in processing or in doubt.\<close>

definition exclusive :: "inbox \<Rightarrow> bool" where
  "exclusive V \<longleftrightarrow> (\<forall>a b v w. V a = Some v \<longrightarrow> V b = Some w \<longrightarrow> a \<noteq> b \<longrightarrow>
     wv_conversation v = wv_conversation w \<longrightarrow> wv_conversation v \<noteq> None \<longrightarrow>
     wv_binding v = wv_binding w \<and> \<not> (busy v \<and> busy w))"

definition fresh_view :: "wecom_key \<Rightarrow> wecom_view" where
  "fresh_view k = \<lparr>wv_key = k, wv_state = In_processing, wv_delivery = Not_sent, wv_binding = None, wv_conversation = None\<rparr>"

text \<open>The changes that one operation of the repository makes, at the entry \<open>i\<close>.\<close>

inductive view_change :: "wecom_key \<Rightarrow> jstring \<Rightarrow> inbox \<Rightarrow> inbox \<Rightarrow> bool" where
  same: "view_change k i V V"
| new: "V i = None \<Longrightarrow> (\<And>j v. V j = Some v \<Longrightarrow> wv_key v \<noteq> k) \<Longrightarrow> view_change k i V (V(i \<mapsto> fresh_view k))"
| attach: "V i = Some v \<Longrightarrow> wv_state v = In_processing \<Longrightarrow> wv_conversation v = None \<Longrightarrow>
     (\<And>j u. V j = Some u \<Longrightarrow> wv_conversation u = Some c \<Longrightarrow> \<not> busy u \<and> wv_binding u = Some b) \<Longrightarrow>
     view_change k i V (V(i \<mapsto> v\<lparr>wv_binding := Some b, wv_conversation := Some c\<rparr>))"
| mark: "V i = Some v \<Longrightarrow> view_change k i V (V(i \<mapsto> v\<lparr>wv_delivery := Indeterminate\<rparr>))"
| finish: "V i = Some v \<Longrightarrow> wv_state v = In_processing \<Longrightarrow>
     view_change k i V (V(i \<mapsto> v\<lparr>wv_state := s, wv_delivery := d\<rparr>))"

lemma view_change_frame: "view_change k i V V' \<Longrightarrow> j \<noteq> i \<Longrightarrow> V' j = V j"
  by (auto elim: view_change.cases)

lemma view_change_keeps: "view_change k i V V' \<Longrightarrow> V j = Some v \<Longrightarrow> \<exists>v'. V' j = Some v' \<and> wv_key v' = wv_key v"
  by (cases rule: view_change.cases) auto

lemma exclusiveD:
  "exclusive V \<Longrightarrow> V a = Some v \<Longrightarrow> V b = Some w \<Longrightarrow> a \<noteq> b \<Longrightarrow> wv_conversation v = wv_conversation w \<Longrightarrow>
     wv_conversation v \<noteq> None \<Longrightarrow> wv_binding v = wv_binding w \<and> \<not> (busy v \<and> busy w)"
  unfolding exclusive_def by blast

lemma keys_uniqueD: "keys_unique V \<Longrightarrow> V a = Some v \<Longrightarrow> V b = Some w \<Longrightarrow> wv_key v = wv_key w \<Longrightarrow> a = b"
  unfolding keys_unique_def by blast

lemma keys_unique_update:
  assumes "keys_unique V" and "\<And>j u. j \<noteq> i \<Longrightarrow> V j = Some u \<Longrightarrow> wv_key u \<noteq> wv_key v"
  shows "keys_unique (V(i \<mapsto> v))"
  unfolding keys_unique_def
proof (intro allI impI)
  fix a b x y
  assume *: "(V(i \<mapsto> v)) a = Some x" "(V(i \<mapsto> v)) b = Some y" "wv_key x = wv_key y"
  consider "a = i" "b = i" | "a = i" "b \<noteq> i" | "a \<noteq> i" "b = i" | "a \<noteq> i" "b \<noteq> i" by blast
  then show "a = b"
  proof cases
    case 2
    then show ?thesis using * assms(2) [of b y] by simp
  next
    case 3
    then show ?thesis using * assms(2) [of a x] by simp
  next
    case 4
    then show ?thesis using * assms(1) by (simp add: keys_unique_def)
  qed simp
qed

lemma exclusive_update:
  assumes "exclusive V" and "\<And>j u. j \<noteq> i \<Longrightarrow> V j = Some u \<Longrightarrow> wv_conversation u = wv_conversation v \<Longrightarrow>
    wv_conversation v \<noteq> None \<Longrightarrow> wv_binding u = wv_binding v \<and> \<not> (busy u \<and> busy v)"
  shows "exclusive (V(i \<mapsto> v))"
  unfolding exclusive_def
proof (intro allI impI)
  fix a b x y
  assume *: "(V(i \<mapsto> v)) a = Some x" "(V(i \<mapsto> v)) b = Some y" "a \<noteq> b"
    "wv_conversation x = wv_conversation y" "wv_conversation x \<noteq> None"
  consider "a = i" "b \<noteq> i" | "a \<noteq> i" "b = i" | "a \<noteq> i" "b \<noteq> i" using *(3) by blast
  then show "wv_binding x = wv_binding y \<and> \<not> (busy x \<and> busy y)"
  proof cases
    case 1
    then show ?thesis using * assms(2) [of b y] by auto
  next
    case 2
    then show ?thesis using * assms(2) [of a x] by auto
  next
    case 3
    then show ?thesis using exclusiveD [OF assms(1), of a x b y] * by simp
  qed
qed

lemma view_change_unique: "view_change k i V V' \<Longrightarrow> keys_unique V \<Longrightarrow> keys_unique V'"
proof (induction rule: view_change.induct)
  case (new V i k)
  then show ?case by (intro keys_unique_update) (auto simp: fresh_view_def)
qed (auto intro!: keys_unique_update dest: keys_uniqueD)

lemma view_change_exclusive: "view_change k i V V' \<Longrightarrow> exclusive V \<Longrightarrow> exclusive V'"
proof (induction rule: view_change.induct)
  case (attach V i v c b k)
  then show ?case by (intro exclusive_update) auto
next
  case (mark V i v k)
  note entry = mark(1)
  show ?case
  proof (rule exclusive_update [OF mark(2)])
    fix j u
    assume *: "j \<noteq> i" "V j = Some u" "wv_conversation u = wv_conversation (v\<lparr>wv_delivery := Indeterminate\<rparr>)"
      "wv_conversation (v\<lparr>wv_delivery := Indeterminate\<rparr>) \<noteq> None"
    then show "wv_binding u = wv_binding (v\<lparr>wv_delivery := Indeterminate\<rparr>) \<and>
        \<not> (busy u \<and> busy (v\<lparr>wv_delivery := Indeterminate\<rparr>))"
      using exclusiveD [OF mark(2) *(2) entry *(1)] by (simp add: busy_def)
  qed
next
  case (finish V i v k d s)
  show ?case
  proof (rule exclusive_update [OF finish(3)])
    fix j u
    assume *: "j \<noteq> i" "V j = Some u" "wv_conversation u = wv_conversation (v\<lparr>wv_state := s, wv_delivery := d\<rparr>)"
      "wv_conversation (v\<lparr>wv_state := s, wv_delivery := d\<rparr>) \<noteq> None"
    then show "wv_binding u = wv_binding (v\<lparr>wv_state := s, wv_delivery := d\<rparr>) \<and>
        \<not> (busy u \<and> busy (v\<lparr>wv_state := s, wv_delivery := d\<rparr>))"
      using exclusiveD [OF finish(3) *(2) finish(1) *(1)] finish(2) by (simp add: busy_def)
  qed
qed (auto intro!: exclusive_update simp: fresh_view_def)

section \<open>Handlers\<close>

fun dispatch_key :: "wecom_effect \<Rightarrow> wecom_key option" where
  "dispatch_key (Dispatch k ctx c t) = Some k"
| "dispatch_key (Send k q b c r) = None"

fun send_key :: "wecom_effect \<Rightarrow> wecom_key option" where
  "send_key (Dispatch k ctx c t) = None"
| "send_key (Send k q b c r) = Some k"

definition dispatched :: "wecom_effect list \<Rightarrow> wecom_key list" where
  "dispatched = List.map_filter dispatch_key"

definition sent :: "wecom_effect list \<Rightarrow> wecom_key list" where
  "sent = List.map_filter send_key"

lemma effects_simps [simp]:
  "dispatched [] = []" "sent [] = []"
  "dispatched (x # xs) = (case dispatch_key x of None \<Rightarrow> dispatched xs | Some k \<Rightarrow> k # dispatched xs)"
  "sent (x # xs) = (case send_key x of None \<Rightarrow> sent xs | Some k \<Rightarrow> k # sent xs)"
  "dispatched (xs @ ys) = dispatched xs @ dispatched ys"
  "sent (xs @ ys) = sent xs @ sent ys"
  by (simp_all add: dispatched_def sent_def List.map_filter_simps map_filter_append split: option.splits)

abbreviation handler_key :: "wecom_handler \<Rightarrow> wecom_key" where
  "handler_key h \<equiv> message_key (wh_message h)"

definition live :: "wecom_handler \<Rightarrow> bool" where
  "live h \<longleftrightarrow> wh_claimId h \<noteq> None \<and> (\<forall>out. wh_pc h \<noteq> Returned out)"

text \<open>The phases of a claimed message, as the inbox and the effects so far show them.\<close>

definition early :: "wecom_effect list \<Rightarrow> wecom_key \<Rightarrow> wecom_view \<Rightarrow> bool" where
  "early tr k v \<longleftrightarrow> wv_state v = In_processing \<and> wv_conversation v = None \<and> wv_delivery v = Not_sent \<and>
     k \<notin> set (dispatched tr)"

definition running :: "wecom_effect list \<Rightarrow> wecom_key \<Rightarrow> jstring \<times> jstring \<times> jstring \<Rightarrow> wecom_view \<Rightarrow> bool" where
  "running tr k c v \<longleftrightarrow> wv_state v = In_processing \<and> wv_conversation v = Some c \<and>
     k \<in> set (dispatched tr) \<and> k \<notin> set (sent tr)"

definition attached :: "wecom_effect list \<Rightarrow> wecom_key \<Rightarrow> jstring \<times> jstring \<times> jstring \<Rightarrow> wecom_view \<Rightarrow> bool" where
  "attached tr k c v \<longleftrightarrow> wv_state v = In_processing \<and> wv_conversation v = Some c \<and> wv_delivery v = Not_sent \<and>
     k \<notin> set (dispatched tr) \<and> k \<notin> set (sent tr)"

definition delivering :: "wecom_effect list \<Rightarrow> wecom_key \<Rightarrow> jstring \<times> jstring \<times> jstring \<Rightarrow> wecom_view \<Rightarrow> bool" where
  "delivering tr k c v \<longleftrightarrow> wv_state v = In_processing \<and> wv_conversation v = Some c \<and> wv_delivery v = Indeterminate \<and>
     k \<in> set (dispatched tr) \<and> k \<in> set (sent tr)"

definition phase_ok :: "wecom_effect list \<Rightarrow> wecom_handler \<Rightarrow> wecom_view \<Rightarrow> bool" where
  "phase_ok tr h v \<longleftrightarrow> wv_key v = handler_key h \<and>
     (case wh_pc h of
        At_identity \<Rightarrow> early tr (handler_key h) v
      | At_conversation w \<Rightarrow> early tr (handler_key h) v
      | At_recheck w c \<Rightarrow> early tr (handler_key h) v
      | At_attach w c \<Rightarrow> early tr (handler_key h) v
      | At_dispatch w c \<Rightarrow> attached tr (handler_key h) (conversation_of w c) v
      | At_respond w c \<Rightarrow> running tr (handler_key h) (conversation_of w c) v
      | At_confirm w c x \<Rightarrow> running tr (handler_key h) (conversation_of w c) v
      | At_mark w c x \<Rightarrow> running tr (handler_key h) (conversation_of w c) v \<and> wh_deliveryUncertain h
      | At_deliver w c x \<Rightarrow> running tr (handler_key h) (conversation_of w c) v \<and> wv_delivery v = Indeterminate \<and>
          wh_deliveryUncertain h
      | At_send w c x \<Rightarrow> delivering tr (handler_key h) (conversation_of w c) v \<and> wh_deliveryUncertain h
      | At_finish w c x \<Rightarrow> delivering tr (handler_key h) (conversation_of w c) v \<and> wh_deliveryUncertain h
      | At_abandon \<Rightarrow> handler_key h \<in> set (sent tr) \<longrightarrow> wh_deliveryUncertain h
      | _ \<Rightarrow> True)"

definition handler_ok :: "inbox \<Rightarrow> wecom_effect list \<Rightarrow> wecom_handler \<Rightarrow> bool" where
  "handler_ok V tr h \<longleftrightarrow> (wh_pc h = At_claim \<longleftrightarrow> wh_claimId h = None \<and> (\<forall>out. wh_pc h \<noteq> Returned out)) \<and>
     (live h \<longrightarrow> (\<exists>v. V (the (wh_claimId h)) = Some v \<and> phase_ok tr h v))"

text \<open>What the inbox shows of the effects.\<close>

definition recorded :: "inbox \<Rightarrow> wecom_effect list \<Rightarrow> bool" where
  "recorded V tr \<longleftrightarrow> distinct (dispatched tr) \<and> distinct (sent tr) \<and> set (sent tr) \<subseteq> set (dispatched tr) \<and>
     (\<forall>k \<in> set (dispatched tr). \<exists>i v. V i = Some v \<and> wv_key v = k) \<and>
     (\<forall>i v. V i = Some v \<longrightarrow> wv_key v \<in> set (sent tr) \<longrightarrow> wv_delivery v \<noteq> Not_sent)"

definition owners_differ :: "wecom_handler list \<Rightarrow> bool" where
  "owners_differ hs \<longleftrightarrow> (\<forall>a < length hs. \<forall>b < length hs. a \<noteq> b \<longrightarrow> live (hs ! a) \<longrightarrow> live (hs ! b) \<longrightarrow>
     wh_claimId (hs ! a) \<noteq> wh_claimId (hs ! b))"

definition system_ok :: "('r \<Rightarrow> inbox) \<Rightarrow> 'r wecom_system \<Rightarrow> bool" where
  "system_ok view s \<longleftrightarrow> keys_unique (view (ws_repo s)) \<and> exclusive (view (ws_repo s)) \<and>
     recorded (view (ws_repo s)) (ws_trace s) \<and> owners_differ (ws_handlers s) \<and>
     (\<forall>h \<in> set (ws_handlers s). handler_ok (view (ws_repo s)) (ws_trace s) h)"

text \<open>One step of a handler, seen by the system.\<close>

definition progress ::
  "inbox \<Rightarrow> wecom_effect list \<Rightarrow> wecom_handler \<Rightarrow> inbox \<Rightarrow> wecom_handler \<Rightarrow> wecom_effect list \<Rightarrow> bool" where
  "progress V tr h V' h' es \<longleftrightarrow> wh_message h' = wh_message h \<and> recorded V' (tr @ es) \<and> handler_ok V' (tr @ es) h' \<and>
     (\<forall>k \<in> set (dispatched es) \<union> set (sent es). k = handler_key h \<and> live h) \<and>
     (\<exists>i. view_change (handler_key h) i V V' \<and>
        (\<forall>j. V j \<noteq> None \<longrightarrow> V' j \<noteq> V j \<longrightarrow> live h \<and> wh_claimId h = Some j) \<and>
        (live h' \<longrightarrow> wh_claimId h' = Some i \<and> (live h \<and> wh_claimId h = Some i \<or> V i = None)))"

lemma recorded_change:
  assumes "recorded V tr" and "view_change k i V V'"
    and "\<And>j v'. V' j = Some v' \<Longrightarrow> wv_key v' \<in> set (sent tr) \<Longrightarrow> wv_delivery v' \<noteq> Not_sent"
  shows "recorded V' tr"
proof -
  have "\<exists>i v. V' i = Some v \<and> wv_key v = x" if "x \<in> set (dispatched tr)" for x
    using assms(1) that view_change_keeps [OF assms(2)] unfolding recorded_def by metis
  then show ?thesis using assms(1,3) unfolding recorded_def by blast
qed

lemma recorded_deliveries:
  "recorded V tr \<Longrightarrow> V j = Some v \<Longrightarrow> wv_key v \<in> set (sent tr) \<Longrightarrow> wv_delivery v \<noteq> Not_sent"
  unfolding recorded_def by blast

lemma recorded_key: "recorded V tr \<Longrightarrow> k \<in> set (sent tr) \<or> k \<in> set (dispatched tr) \<Longrightarrow> \<exists>j v. V j = Some v \<and> wv_key v = k"
  unfolding recorded_def by blast

lemma progress_quiet:
  assumes "recorded V tr" and "wh_message h' = wh_message h" and "handler_ok V tr h'"
    and "live h' \<Longrightarrow> live h \<and> wh_claimId h' = wh_claimId h"
  shows "progress V tr h V h' []"
proof -
  have "\<exists>i. live h' \<longrightarrow> wh_claimId h' = Some i \<and> wh_claimId h = Some i \<and> live h"
    using assms(4) by (cases "wh_claimId h'") (auto simp: live_def)
  then show ?thesis using assms by (auto simp: progress_def intro: view_change.same)
qed

lemma progress_own:
  assumes "recorded V' (tr @ es)" and "wh_message h' = wh_message h" and "handler_ok V' (tr @ es) h'"
    and "live h" and "wh_claimId h = Some i" and "wh_claimId h' = Some i" and "view_change (handler_key h) i V V'"
    and "\<forall>k \<in> set (dispatched es) \<union> set (sent es). k = handler_key h"
  shows "progress V tr h V' h' es"
proof -
  have "\<forall>j. V j \<noteq> None \<longrightarrow> V' j \<noteq> V j \<longrightarrow> live h \<and> wh_claimId h = Some j"
  proof (intro allI impI)
    fix j assume "V' j \<noteq> V j"
    then have "j = i" using view_change_frame [OF assms(7), of j] by argo
    then show "live h \<and> wh_claimId h = Some j" using assms(4,5) by simp
  qed
  moreover have "\<forall>k \<in> set (dispatched es) \<union> set (sent es). k = handler_key h \<and> live h"
    using assms(4,8) by blast
  moreover have "live h' \<longrightarrow> wh_claimId h' = Some i \<and> (live h \<and> wh_claimId h = Some i \<or> V i = None)"
    using assms(4,5,6) by simp
  ultimately show ?thesis unfolding progress_def
    by (intro conjI assms exI [of _ i])
qed

lemma abandon_simps [simp]:
  "wh_message (abandon h) = wh_message h" "wh_claimId (abandon h) = wh_claimId h"
  "wh_deliveryUncertain (abandon h) = wh_deliveryUncertain h"
  "wh_message (abandon_as c h) = wh_message h" "wh_claimId (abandon_as c h) = wh_claimId h"
  "wh_deliveryUncertain (abandon_as c h) = wh_deliveryUncertain h"
  by (simp_all add: abandon_def abandon_as_def)

lemma abandon_pc: "wh_claimId h = Some i \<Longrightarrow> wh_pc (abandon h) = At_abandon \<and> wh_pc (abandon_as c h) = At_abandon"
  by (simp add: abandon_def abandon_as_def)

lemma live_claimed: "live h \<Longrightarrow> handler_ok V tr h \<Longrightarrow>
    \<exists>i v. wh_claimId h = Some i \<and> V i = Some v \<and> phase_ok tr h v"
  by (auto simp: handler_ok_def live_def)

text \<open>A handler that gives up is in order when a sent message is known to it.\<close>

lemma handler_ok_abandon:
  assumes "wh_claimId h = Some i" and "V i = Some v" and "wv_key v = handler_key h"
    and "handler_key h \<in> set (sent tr) \<Longrightarrow> wh_deliveryUncertain h"
  shows "handler_ok V tr (abandon h) \<and> handler_ok V tr (abandon_as c h)"
  using assms abandon_pc [OF assms(1)] by (auto simp: handler_ok_def live_def phase_ok_def)

lemma phase_uncertain:
  assumes "recorded V tr" and "live h" and "phase_ok tr h v" and "handler_key h \<in> set (sent tr)"
    and "wh_pc h \<noteq> At_claim"
  shows "wh_deliveryUncertain h"
proof -
  have "handler_key h \<in> set (dispatched tr)" using assms(1,4) by (auto simp: recorded_def)
  then show ?thesis using assms(2-5)
    by (cases "wh_pc h") (auto simp: phase_ok_def early_def attached_def running_def live_def)
qed

lemma recorded_own:
  assumes "recorded V tr" and "view_change k i V V'"
    and "\<And>v'. V' i = Some v' \<Longrightarrow> wv_key v' \<in> set (sent tr) \<Longrightarrow> wv_delivery v' \<noteq> Not_sent"
  shows "recorded V' tr"
proof (rule recorded_change [OF assms(1,2)])
  fix j v'
  assume *: "V' j = Some v'" "wv_key v' \<in> set (sent tr)"
  show "wv_delivery v' \<noteq> Not_sent"
  proof (cases "j = i")
    case False
    then have "V j = Some v'" using *(1) view_change_frame [OF assms(2), of j] by argo
    then show ?thesis using recorded_deliveries [OF assms(1)] *(2) by blast
  qed (use * assms(3) in blast)
qed

lemma handler_ok_returned: "wh_pc h = Returned out \<Longrightarrow> handler_ok V tr h \<and> \<not> live h"
  by (simp add: handler_ok_def live_def)

lemma handler_ok_live:
  "wh_claimId h = Some i \<Longrightarrow> V i = Some v \<Longrightarrow> phase_ok tr h v \<Longrightarrow> wh_pc h \<noteq> At_claim \<Longrightarrow> handler_ok V tr h"
  by (simp add: handler_ok_def)

lemma recorded_dispatch:
  assumes "recorded V tr" and "V i = Some v" and "wv_key v = k" and "k \<notin> set (dispatched tr)"
  shows "recorded V (tr @ [Dispatch k ctx c t])"
  using assms unfolding recorded_def by auto

lemma recorded_send:
  assumes "recorded V tr" and "keys_unique V" and "V i = Some v" and "wv_key v = k" and "wv_delivery v \<noteq> Not_sent"
    and "k \<in> set (dispatched tr)" and "k \<notin> set (sent tr)"
  shows "recorded V (tr @ [Send k q b c x])"
proof -
  have "wv_delivery u \<noteq> Not_sent" if "V j = Some u" "wv_key u = k" for j u
    using keys_uniqueD [OF assms(2) that(1) assms(3)] that assms(3-5) by auto
  then show ?thesis using assms unfolding recorded_def by auto
qed

lemma phase_ok_frame:
  assumes "\<forall>k \<in> set (dispatched es) \<union> set (sent es). k \<noteq> handler_key g"
  shows "phase_ok (tr @ es) g v \<longleftrightarrow> phase_ok tr g v"
proof -
  have "handler_key g \<in> set (dispatched (tr @ es)) \<longleftrightarrow> handler_key g \<in> set (dispatched tr)"
    "handler_key g \<in> set (sent (tr @ es)) \<longleftrightarrow> handler_key g \<in> set (sent tr)"
    using assms by auto
  then show ?thesis by (simp add: phase_ok_def early_def attached_def running_def delivering_def split: wecom_pc.split)
qed

lemma owners_differD:
  "owners_differ hs \<Longrightarrow> a < length hs \<Longrightarrow> b < length hs \<Longrightarrow> a \<noteq> b \<Longrightarrow> live (hs ! a) \<Longrightarrow> live (hs ! b) \<Longrightarrow>
     wh_claimId (hs ! a) \<noteq> wh_claimId (hs ! b)"
  by (simp add: owners_differ_def)

lemma progress_claim:
  "progress V tr h V' h' es \<Longrightarrow> live h' \<Longrightarrow>
     \<exists>i. wh_claimId h' = Some i \<and> (live h \<and> wh_claimId h = Some i \<or> V i = None)"
  unfolding progress_def by blast

text \<open>The step of one handler leaves the others in order and the owners of the claims apart.\<close>

lemma progress_frame:
  assumes p: "progress V tr h V' h' es" and "keys_unique V" and h: "handler_ok V tr h" and g: "handler_ok V tr g"
    and apart: "live h \<Longrightarrow> live g \<Longrightarrow> wh_claimId h \<noteq> wh_claimId g"
  shows "handler_ok V' (tr @ es) g \<and> (live h' \<longrightarrow> live g \<longrightarrow> wh_claimId h' \<noteq> wh_claimId g)"
proof (cases "live g")
  case False
  then show ?thesis using g by (simp add: handler_ok_def)
next
  case True
  then obtain j v where j: "wh_claimId g = Some j" "V j = Some v" and ph: "phase_ok tr g v"
    using live_claimed [OF _ g] by blast
  have "V' j = V j" using p j True apart unfolding progress_def by (metis option.distinct(1))
  moreover have "k \<noteq> handler_key g" if "k \<in> set (dispatched es) \<union> set (sent es)" for k
  proof -
    have k: "k = handler_key h" "live h" using p that unfolding progress_def by auto
    then obtain i u where i: "wh_claimId h = Some i" "V i = Some u" "phase_ok tr h u" using live_claimed [OF _ h] by blast
    have "i \<noteq> j" using apart k(2) True i(1) j(1) by auto
    then have "wv_key u \<noteq> wv_key v" using keys_uniqueD [OF assms(2) i(2) j(2)] by blast
    then show ?thesis using i(3) ph k(1) by (auto simp: phase_ok_def)
  qed
  ultimately have "handler_ok V' (tr @ es) g"
    using j ph phase_ok_frame [of es g tr v] g by (auto simp: handler_ok_def)
  moreover have "wh_claimId h' \<noteq> wh_claimId g" if lv': "live h'"
  proof -
    obtain i where "wh_claimId h' = Some i" "live h \<and> wh_claimId h = Some i \<or> V i = None"
      using progress_claim [OF p lv'] by blast
    then show ?thesis using apart True j by auto
  qed
  ultimately show ?thesis by blast
qed

lemma system_receive:
  "system_ok view s \<Longrightarrow> system_ok view (s\<lparr>ws_handlers := ws_handlers s @ [wecom_start m q]\<rparr>)"
proof -
  assume ok: "system_ok view s"
  have start: "\<not> live (wecom_start m q)" "handler_ok V tr (wecom_start m q)" for V tr
    by (simp_all add: live_def handler_ok_def wecom_start_def)
  have "owners_differ (ws_handlers s @ [wecom_start m q])"
    using ok start(1) by (auto simp: system_ok_def owners_differ_def nth_append)
  then show ?thesis using ok start(2) by (auto simp: system_ok_def)
qed

section \<open>The repository interface\<close>

locale wecom_repository =
  fixes ops :: "'r wecom_ops"
    and view :: "'r \<Rightarrow> inbox"
    and ok :: "'r \<Rightarrow> bool"
  assumes claimed: "ok r \<Longrightarrow> wr_claim ops r m p q = (r', Some (Claimed i)) \<Longrightarrow>
      ok r' \<and> view r i = None \<and> (\<forall>j v. view r j = Some v \<longrightarrow> wv_key v \<noteq> message_key m) \<and>
      view r' = (view r)(i \<mapsto> fresh_view (message_key m))"
    and not_claimed: "ok r \<Longrightarrow> wr_claim ops r m p q = (r', x) \<Longrightarrow> (\<forall>i. x \<noteq> Some (Claimed i)) \<Longrightarrow>
      ok r' \<and> view r' = view r"
    and attached: "ok r \<Longrightarrow> wr_attachConversation ops r i w c = (r', Some True) \<Longrightarrow>
      ok r' \<and> (\<exists>v. view r i = Some v \<and> wv_state v = In_processing \<and> wv_conversation v = None \<and>
        (\<forall>j u. view r j = Some u \<longrightarrow> wv_conversation u = Some (conversation_of w c) \<longrightarrow>
          \<not> busy u \<and> wv_binding u = Some (wi_bindingId w)) \<and>
        view r' = (view r)(i \<mapsto> v\<lparr>wv_binding := Some (wi_bindingId w), wv_conversation := Some (conversation_of w c)\<rparr>))"
    and not_attached: "ok r \<Longrightarrow> wr_attachConversation ops r i w c = (r', a) \<Longrightarrow> a \<noteq> Some True \<Longrightarrow>
      ok r' \<and> view r' = view r"
    and marked: "ok r \<Longrightarrow> wr_markDeliveryUncertain ops r i = (r', Some ()) \<Longrightarrow>
      ok r' \<and> (\<exists>v. view r i = Some v \<and> view r' = (view r)(i \<mapsto> v\<lparr>wv_delivery := Indeterminate\<rparr>))"
    and not_marked: "ok r \<Longrightarrow> wr_markDeliveryUncertain ops r i = (r', None) \<Longrightarrow> ok r' \<and> view r' = view r"
    and finished: "ok r \<Longrightarrow> wr_finish ops r i k = (r', Some ()) \<Longrightarrow>
      ok r' \<and> (\<exists>v. view r i = Some v \<and> wv_state v = In_processing \<and>
        view r' = (view r)(i \<mapsto> v\<lparr>wv_state := wc_state k, wv_delivery := wc_delivery k\<rparr>))"
    and not_finished: "ok r \<Longrightarrow> wr_finish ops r i k = (r', None) \<Longrightarrow> ok r' \<and> view r' = view r"
begin

lemma claim_change:
  assumes "ok r" and "called f (\<lambda>r. wr_claim ops r m p q) r = (r', x)"
  shows "ok r' \<and> (\<exists>i. view_change (message_key m) i (view r) (view r') \<and> view r i = None \<and>
    (\<forall>c. x = Some (Claimed c) \<longrightarrow> c = i \<and> view r' i = Some (fresh_view (message_key m)) \<and>
       (\<forall>j v. view r j = Some v \<longrightarrow> wv_key v \<noteq> message_key m)) \<and> (\<forall>j. view r j \<noteq> None \<longrightarrow> view r' j = view r j))
    \<or> (ok r' \<and> view r' = view r \<and> (\<forall>c. x \<noteq> Some (Claimed c)))"
proof -
  obtain r1 y where run: "wr_claim ops r m p q = (r1, y)" by fastforce
  then have alt: "(r', x) \<in> {(r, None), (r1, None), (r1, y)}"
    using assms(2) by (auto simp: called_def split: fault.splits)
  show ?thesis
  proof (cases "\<exists>i. y = Some (Claimed i)")
    case True
    then obtain i where y: "y = Some (Claimed i)" by blast
    note law = claimed [OF assms(1) run [unfolded y]]
    have "view_change (message_key m) i (view r) (view r1)"
      using law view_change.new [of "view r" i "message_key m"] by auto
    then show ?thesis using alt law assms(1) y by fastforce
  next
    case False
    then show ?thesis using alt not_claimed [OF assms(1) run] assms(1) by auto
  qed
qed

lemma attach_change:
  assumes "ok r" and "called f (\<lambda>r. wr_attachConversation ops r i w c) r = (r', x)"
  shows "ok r' \<and> view_change k i (view r) (view r') \<and>
    (x = Some True \<longrightarrow> (\<exists>v. view r i = Some v \<and>
       view r' i = Some (v\<lparr>wv_binding := Some (wi_bindingId w), wv_conversation := Some (conversation_of w c)\<rparr>)))"
proof -
  obtain r1 y where run: "wr_attachConversation ops r i w c = (r1, y)" by fastforce
  then have alt: "(r', x) \<in> {(r, None), (r1, None), (r1, y)}"
    using assms(2) by (auto simp: called_def split: fault.splits)
  show ?thesis
  proof (cases "y = Some True")
    case True
    then obtain v where law: "ok r1" "view r i = Some v" "wv_state v = In_processing" "wv_conversation v = None"
      "\<forall>j u. view r j = Some u \<longrightarrow> wv_conversation u = Some (conversation_of w c) \<longrightarrow> \<not> busy u \<and> wv_binding u = Some (wi_bindingId w)"
      "view r1 = (view r)(i \<mapsto> v\<lparr>wv_binding := Some (wi_bindingId w), wv_conversation := Some (conversation_of w c)\<rparr>)"
      using attached [OF assms(1), of i w c r1] run by auto
    then have "view_change k i (view r) (view r1)" unfolding law(6) by (intro view_change.attach) auto
    then show ?thesis using alt law assms(1) True by (auto intro: view_change.same)
  next
    case False
    then show ?thesis using alt not_attached [OF assms(1) run] assms(1) by (auto intro: view_change.same)
  qed
qed

lemma mark_change:
  assumes "ok r" and "called f (\<lambda>r. wr_markDeliveryUncertain ops r i) r = (r', x)"
  shows "ok r' \<and> view_change k i (view r) (view r') \<and>
    (x = Some () \<longrightarrow> (\<exists>v. view r i = Some v \<and> view r' i = Some (v\<lparr>wv_delivery := Indeterminate\<rparr>)))"
proof -
  obtain r1 y where run: "wr_markDeliveryUncertain ops r i = (r1, y)" by fastforce
  then have alt: "(r', x) \<in> {(r, None), (r1, None), (r1, y)}"
    using assms(2) by (auto simp: called_def split: fault.splits)
  show ?thesis
    using alt marked [OF assms(1), of i r1] not_marked [OF assms(1), of i r1] run assms(1)
    by (cases y) (auto intro: view_change.intros)
qed

lemma finish_change:
  assumes "ok r" and "called f (\<lambda>r. wr_finish ops r i c) r = (r', x)"
  shows "ok r' \<and> view_change k i (view r) (view r') \<and>
    (\<forall>v'. view r' i = Some v' \<longrightarrow> (\<exists>v. view r i = Some v \<and> wv_delivery v' \<in> {wv_delivery v, wc_delivery c}))"
proof -
  obtain r1 y where run: "wr_finish ops r i c = (r1, y)" by fastforce
  then have alt: "(r', x) \<in> {(r, None), (r1, None), (r1, y)}"
    using assms(2) by (auto simp: called_def split: fault.splits)
  show ?thesis
    using alt finished [OF assms(1), of i c r1] not_finished [OF assms(1), of i c r1] run assms(1)
    by (cases y) (auto intro: view_change.intros)
qed


lemma claim_progress:
  assumes "ok r" and rec: "recorded (view r) tr" and hok: "handler_ok (view r) tr h"
    and pc: "wh_pc h = At_claim" and run: "advance ops sha a r h = (r', h', es)"
  shows "ok r' \<and> progress (view r) tr h (view r') h' es"
proof -
  have none: "wh_claimId h = None" using hok pc by (simp add: handler_ok_def)
  obtain x where c: "called (an_fault a) (\<lambda>r. wr_claim ops r (wh_message h)
      (weComPayloadHash sha (wh_message h)) (wh_requestId h)) r = (r', x)"
    using run pc by (auto simp: advance_def Let_def split: prod.splits option.splits wecom_claim.splits)
  have es: "es = []" and m: "wh_message h' = wh_message h"
    and got: "\<And>i. x = Some (Claimed i) \<Longrightarrow> h' = h\<lparr>wh_claimId := Some i, wh_pc := At_identity\<rparr>"
    and fin: "(\<forall>i. x \<noteq> Some (Claimed i)) \<Longrightarrow> (\<exists>out. wh_pc h' = Returned out)"
    using run pc c none
    by (auto simp: advance_def Let_def abandon_def split: option.splits wecom_claim.splits)
  have dead: "handler_ok V t h' \<and> \<not> live h'" if "\<forall>i. x \<noteq> Some (Claimed i)" for V t
    using fin [OF that] by (auto simp: handler_ok_def live_def)
  consider (same) "ok r'" "view r' = view r" "\<forall>c. x \<noteq> Some (Claimed c)"
    | (new) i where "ok r'" "view_change (handler_key h) i (view r) (view r')" "view r i = None"
      "\<forall>c. x = Some (Claimed c) \<longrightarrow> c = i \<and> view r' i = Some (fresh_view (handler_key h)) \<and>
         (\<forall>j v. view r j = Some v \<longrightarrow> wv_key v \<noteq> handler_key h)" "\<forall>j. view r j \<noteq> None \<longrightarrow> view r' j = view r j"
    using claim_change [OF assms(1) c] by blast
  then show ?thesis
  proof cases
    case same
    then show ?thesis using progress_quiet [OF rec m] dead es by simp
  next
    case new
    have rec': "recorded (view r') tr"
    proof (rule recorded_change [OF rec new(2)])
      fix j v'
      assume v': "view r' j = Some v'" "wv_key v' \<in> set (sent tr)"
      show "wv_delivery v' \<noteq> Not_sent"
      proof (cases "j = i")
        case False
        then show ?thesis using v' view_change_frame [OF new(2) False] recorded_deliveries [OF rec] by metis
      next
        case True
        show ?thesis using new(2) True v' new(3) recorded_key [OF rec, of "handler_key h"]
          by (cases rule: view_change.cases) (auto simp: fresh_view_def)
      qed
    qed
    show ?thesis
    proof (cases "\<forall>i. x \<noteq> Some (Claimed i)")
      case True
      then show ?thesis using new rec' m es dead unfolding progress_def by auto
    next
      case False
      then obtain x': "x = Some (Claimed i)" and fresh: "view r' i = Some (fresh_view (handler_key h))"
        "\<forall>j v. view r j = Some v \<longrightarrow> wv_key v \<noteq> handler_key h" using new(4) by blast
      have "handler_key h \<notin> set (dispatched tr)" using fresh(2) recorded_key [OF rec] by blast
      then have "handler_ok (view r') tr h'"
        using fresh(1) by (auto simp: got [OF x'] handler_ok_def live_def phase_ok_def early_def fresh_view_def)
      then show ?thesis using new(1,2,3,5) rec' m es got [OF x'] unfolding progress_def by auto
    qed
  qed
qed

lemma attach_progress:
  assumes "ok r" and rec: "recorded (view r) tr" and hok: "handler_ok (view r) tr h"
    and pc: "wh_pc h = At_attach w c" and run: "advance ops sha a r h = (r', h', es)"
  shows "ok r' \<and> progress (view r) tr h (view r') h' es"
proof -
  have lv: "live h" using hok pc by (auto simp: handler_ok_def live_def)
  then obtain i v where i: "wh_claimId h = Some i" "view r i = Some v" and ph: "phase_ok tr h v"
    using live_claimed [OF _ hok] by blast
  then have early: "early tr (handler_key h) v" "wv_key v = handler_key h" by (simp_all add: phase_ok_def pc)
  then have new: "handler_key h \<notin> set (dispatched tr)" "handler_key h \<notin> set (sent tr)"
    using rec by (auto simp: early_def recorded_def)
  obtain x where x: "called (an_fault a) (\<lambda>r. wr_attachConversation ops r i w c) r = (r', x)"
    using run pc i by (auto simp: advance_def Let_def split: prod.splits option.splits bool.splits)
  note ch = attach_change [OF assms(1) x, of "handler_key h"]
  then have okr: "ok r'" and vc: "view_change (handler_key h) i (view r) (view r')" by simp_all
  obtain v' where v': "view r' i = Some v'" "wv_key v' = handler_key h"
    using view_change_keeps [OF vc i(2)] early(2) by auto
  have rec': "recorded (view r') tr" using recorded_own [OF rec vc] v' new(2) by auto
  show ?thesis
  proof (cases "x = Some True")
    case True
    have v'_def: "v' = v\<lparr>wv_binding := Some (wi_bindingId w), wv_conversation := Some (conversation_of w c)\<rparr>"
      using ch True v'(1) i(2) by auto
    have h': "h' = h\<lparr>wh_pc := At_dispatch w c\<rparr>" "es = []"
      using run pc i x True by (auto simp: advance_def Let_def)
    have "phase_ok tr h' v'" using early new by (auto simp: phase_ok_def h' attached_def early_def v'_def)
    then have "handler_ok (view r') tr h'" using v'(1) i(1) by (intro handler_ok_live) (auto simp: h')
    then show ?thesis using okr rec' by (auto intro!: progress_own [OF _ _ _ lv i(1) _ vc] simp: h' i(1))
  next
    case False
    then have h': "es = []" "h' = abandon h \<or> h' = abandon_as Conversation_busy h"
      using run pc i x by (auto simp: advance_def Let_def split: option.splits bool.splits)
    then have "handler_ok (view r') tr h'"
      using handler_ok_abandon [of h i "view r'" v' tr Conversation_busy] i(1) v' new(2) by auto
    moreover have "wh_message h' = wh_message h" "wh_claimId h' = Some i" using h'(2) i(1) by auto
    ultimately show ?thesis using rec' okr h'(1) by (auto intro!: progress_own [OF _ _ _ lv i(1) _ vc])
  qed
qed

lemma mark_progress:
  assumes "ok r" and uniq: "keys_unique (view r)" and rec: "recorded (view r) tr" and hok: "handler_ok (view r) tr h"
    and pc: "wh_pc h = At_mark w c y" and run: "advance ops sha a r h = (r', h', es)"
  shows "ok r' \<and> progress (view r) tr h (view r') h' es"
proof -
  have lv: "live h" using hok pc by (auto simp: handler_ok_def live_def)
  then obtain i v where i: "wh_claimId h = Some i" "view r i = Some v" and ph: "phase_ok tr h v"
    using live_claimed [OF _ hok] by blast
  then have phase: "running tr (handler_key h) (conversation_of w c) v" "wv_key v = handler_key h" "wh_deliveryUncertain h"
    by (simp_all add: phase_ok_def pc)
  obtain x where x: "called (an_fault a) (\<lambda>r. wr_markDeliveryUncertain ops r i) r = (r', x)"
    using run pc i by (auto simp: advance_def Let_def split: prod.splits option.splits)
  note ch = mark_change [OF assms(1) x, of "handler_key h"]
  then have okr: "ok r'" and vc: "view_change (handler_key h) i (view r) (view r')" by simp_all
  obtain v' where v': "view r' i = Some v'" "wv_key v' = handler_key h"
    using view_change_keeps [OF vc i(2)] phase(2) by auto
  have rec': "recorded (view r') tr" using recorded_own [OF rec vc] v' phase(1) by (auto simp: running_def)
  show ?thesis
  proof (cases x)
    case (Some u)
    then have v'_def: "v' = v\<lparr>wv_delivery := Indeterminate\<rparr>"
      using ch v'(1) i(2) by auto
    have h': "h' = h\<lparr>wh_pc := At_deliver w c y\<rparr>" "es = []"
      using run pc i x Some by (auto simp: advance_def Let_def)
    have "phase_ok tr h' v'" using phase by (auto simp: phase_ok_def h' running_def v'_def)
    then have "handler_ok (view r') tr h'" using v'(1) i(1) by (intro handler_ok_live) (auto simp: h')
    then show ?thesis using okr rec' by (auto intro!: progress_own [OF _ _ _ lv i(1) _ vc] simp: h' i(1))
  next
    case None
    then have h': "es = []" "h' = abandon h"
      using run pc i x by (auto simp: advance_def Let_def)
    then have "handler_ok (view r') tr h'"
      using handler_ok_abandon [of h i "view r'" v' tr] i(1) v' phase(3) by auto
    then show ?thesis using rec' okr h' by (auto intro!: progress_own [OF _ _ _ lv i(1) _ vc] simp: i(1))
  qed
qed

lemma finish_progress:
  assumes "ok r" and rec: "recorded (view r) tr" and hok: "handler_ok (view r) tr h"
    and pc: "(\<exists>w c y. wh_pc h = At_finish w c y) \<or> wh_pc h = At_abandon" and run: "advance ops sha a r h = (r', h', es)"
  shows "ok r' \<and> progress (view r) tr h (view r') h' es"
proof -
  have lv: "live h" using hok pc by (auto simp: handler_ok_def live_def)
  then obtain i v where i: "wh_claimId h = Some i" "view r i = Some v" and ph: "phase_ok tr h v"
    using live_claimed [OF _ hok] by blast
  then have key: "wv_key v = handler_key h" and unc: "handler_key h \<in> set (sent tr) \<Longrightarrow> wh_deliveryUncertain h"
    using pc by (auto simp: phase_ok_def)
  obtain x k where x: "called (an_fault a) (\<lambda>r. wr_finish ops r i k) r = (r', x)"
    and d: "wc_delivery k \<in> {Sent, (if wh_deliveryUncertain h then Indeterminate else Not_sent)}"
    and h': "es = []" "h' = abandon h \<or> (\<exists>out. h' = h\<lparr>wh_pc := Returned out\<rparr>)"
    using run pc i
    by (fastforce simp: advance_def Let_def prod_eq_iff split: prod.splits option.splits)
  note ch = finish_change [OF assms(1) x, of "handler_key h"]
  then have okr: "ok r'" and vc: "view_change (handler_key h) i (view r) (view r')" by simp_all
  obtain v' where v': "view r' i = Some v'" "wv_key v' = handler_key h"
    using view_change_keeps [OF vc i(2)] key by auto
  have "wv_delivery v' \<noteq> Not_sent" if "handler_key h \<in> set (sent tr)"
    using ch v'(1) i(2) d unc [OF that] recorded_deliveries [OF rec i(2)] that key by auto
  then have rec': "recorded (view r') tr" using recorded_own [OF rec vc] v' by auto
  have "handler_ok (view r') tr h'" "wh_message h' = wh_message h" "wh_claimId h' = Some i"
    using h'(2) handler_ok_abandon [of h i "view r'" v' tr] i(1) v' unc by (auto simp: handler_ok_def live_def)
  then show ?thesis using rec' okr h'(1) by (auto intro!: progress_own [OF _ _ _ lv i(1) _ vc])
qed

lemma effect_progress:
  assumes "ok r" and uniq: "keys_unique (view r)" and rec: "recorded (view r) tr" and hok: "handler_ok (view r) tr h"
    and pc: "(\<exists>w c. wh_pc h = At_dispatch w c) \<or> (\<exists>w c x. wh_pc h = At_deliver w c x)"
    and run: "advance ops sha a r h = (r', h', es)"
  shows "ok r' \<and> progress (view r) tr h (view r') h' es"
proof -
  have lv: "live h" using hok pc by (auto simp: handler_ok_def live_def)
  then obtain i v where i: "wh_claimId h = Some i" "view r i = Some v" and ph: "phase_ok tr h v"
    using live_claimed [OF _ hok] by blast
  then have key: "wv_key v = handler_key h" by (simp add: phase_ok_def)
  have h': "r' = r" "wh_message h' = wh_message h" "wh_claimId h' = Some i" "wh_pc h' \<noteq> At_claim"
    using run pc i(1) by (auto simp: advance_def Let_def)
  have "phase_ok (tr @ es) h' v" "recorded (view r) (tr @ es)" "set (dispatched es) \<union> set (sent es) \<subseteq> {handler_key h}"
  proof -
    have "phase_ok (tr @ es) h' v \<and> recorded (view r) (tr @ es) \<and> set (dispatched es) \<union> set (sent es) \<subseteq> {handler_key h}"
      using pc
    proof (elim disjE exE)
      fix w c
      assume at: "wh_pc h = At_dispatch w c"
      then have es: "es = [Dispatch (handler_key h) (wi_context w) c (wm_text (wh_message h))]" "wh_pc h' = At_respond w c"
        using run by (auto simp: advance_def Let_def)
      have "attached tr (handler_key h) (conversation_of w c) v" using ph by (simp add: phase_ok_def at)
      then show ?thesis using recorded_dispatch [OF rec i(2) key] key
        by (auto simp: es phase_ok_def running_def attached_def h')
    next
      fix w c x
      assume at: "wh_pc h = At_deliver w c x"
      then have es: "es = [Send (handler_key h) (wh_requestId h) (wi_bindingId w) (fst c) (publicResult x)]" "wh_pc h' = At_send w c x"
        "wh_deliveryUncertain h' = wh_deliveryUncertain h" using run by (auto simp: advance_def Let_def)
      have "running tr (handler_key h) (conversation_of w c) v" "wv_delivery v = Indeterminate" "wh_deliveryUncertain h"
        using ph by (simp_all add: phase_ok_def at)
      then show ?thesis using recorded_send [OF rec uniq i(2) key] key
        by (auto simp: es phase_ok_def running_def delivering_def h')
    qed
    then show "phase_ok (tr @ es) h' v" "recorded (view r) (tr @ es)" "set (dispatched es) \<union> set (sent es) \<subseteq> {handler_key h}"
      by blast+
  qed
  moreover from this(1) have "handler_ok (view r) (tr @ es) h'" using i(2) h' by (intro handler_ok_live) auto
  ultimately show ?thesis using assms(1) i h' lv
    by (auto intro!: progress_own [OF _ _ _ lv i(1) _ view_change.same])
qed

lemma quiet_progress:
  assumes "ok r" and rec: "recorded (view r) tr" and hok: "handler_ok (view r) tr h"
    and pc: "wh_pc h \<noteq> At_claim" "wh_pc h \<noteq> At_abandon" "\<And>w c. wh_pc h \<noteq> At_attach w c"
      "\<And>w c x. wh_pc h \<noteq> At_mark w c x" "\<And>w c x. wh_pc h \<noteq> At_finish w c x" "\<And>w c. wh_pc h \<noteq> At_dispatch w c"
      "\<And>w c x. wh_pc h \<noteq> At_deliver w c x"
    and run: "advance ops sha a r h = (r', h', es)"
  shows "ok r' \<and> progress (view r) tr h (view r') h' es"
proof (cases "live h")
  case False
  then have "\<exists>out. wh_pc h = Returned out" using hok pc(1) by (auto simp: handler_ok_def live_def)
  then have "r' = r" "h' = h" "es = []" using run by (auto simp: advance_def Let_def)
  then show ?thesis using progress_quiet [OF rec _ hok] assms(1) by simp
next
  case True
  then obtain i v where i: "wh_claimId h = Some i" "view r i = Some v" and ph: "phase_ok tr h v"
    using live_claimed [OF _ hok] by blast
  have key: "wv_key v = handler_key h" using ph by (simp add: phase_ok_def)
  note lost = handler_ok_abandon [of h i "view r" v tr, OF i key phase_uncertain [OF rec True ph _ pc(1)]]
  have "r' = r" "es = []" and alt: "h' \<in> {abandon h, abandon_as Identity_unresolved h} \<or>
      (wh_message h' = wh_message h \<and> wh_claimId h' = wh_claimId h \<and> wh_pc h' \<noteq> At_claim \<and> phase_ok tr h' v)"
    using run pc ph True
    by (cases "wh_pc h"; auto simp: advance_def Let_def phase_ok_def live_def split: option.splits if_splits)+
  then have "handler_ok (view r) tr h'" "wh_message h' = wh_message h" "wh_claimId h' = wh_claimId h"
    using lost i handler_ok_live [of h' i "view r" v tr] by auto
  then show ?thesis using progress_quiet [OF rec, of h' h] True assms(1) \<open>r' = r\<close> \<open>es = []\<close> by simp
qed

lemma advance_progress:
  assumes "ok r" and "keys_unique (view r)" and "recorded (view r) tr" and "handler_ok (view r) tr h"
    and "advance ops sha a r h = (r', h', es)"
  shows "ok r' \<and> progress (view r) tr h (view r') h' es"
proof -
  consider "wh_pc h = At_claim" | w c where "wh_pc h = At_attach w c" | w c x where "wh_pc h = At_mark w c x"
    | "(\<exists>w c y. wh_pc h = At_finish w c y) \<or> wh_pc h = At_abandon"
    | "(\<exists>w c. wh_pc h = At_dispatch w c) \<or> (\<exists>w c x. wh_pc h = At_deliver w c x)"
    | "wh_pc h \<noteq> At_claim" "wh_pc h \<noteq> At_abandon" "\<And>w c. wh_pc h \<noteq> At_attach w c"
      "\<And>w c x. wh_pc h \<noteq> At_mark w c x" "\<And>w c x. wh_pc h \<noteq> At_finish w c x" "\<And>w c. wh_pc h \<noteq> At_dispatch w c"
      "\<And>w c x. wh_pc h \<noteq> At_deliver w c x" by blast
  then show ?thesis
    by cases (rule claim_progress attach_progress mark_progress finish_progress effect_progress quiet_progress; (rule assms | assumption))+
qed

lemma system_advance:
  assumes "ok (ws_repo s)" and sys: "system_ok view s" and n: "n < length (ws_handlers s)"
    and run: "advance ops sha a (ws_repo s) (ws_handlers s ! n) = (r', h', es)"
  shows "ok r' \<and> system_ok view \<lparr>ws_repo = r', ws_handlers = (ws_handlers s)[n := h'], ws_trace = ws_trace s @ es\<rparr>"
proof -
  let ?V = "view (ws_repo s)" and ?h = "ws_handlers s ! n"
  have uniq: "keys_unique ?V" and excl: "exclusive ?V" and rec: "recorded ?V (ws_trace s)" and own: "owners_differ (ws_handlers s)"
    and all: "g \<in> set (ws_handlers s) \<Longrightarrow> handler_ok ?V (ws_trace s) g" for g
    using sys by (auto simp: system_ok_def)
  have h: "handler_ok ?V (ws_trace s) ?h" using all n by simp
  have okr: "ok r'" and p: "progress ?V (ws_trace s) ?h (view r') h' es"
    using advance_progress [OF assms(1) uniq rec h run] by simp_all
  then obtain i where vc: "view_change (handler_key ?h) i ?V (view r')" by (auto simp: progress_def)
  have frame: "handler_ok (view r') (ws_trace s @ es) (ws_handlers s ! b) \<and>
      (live h' \<longrightarrow> live (ws_handlers s ! b) \<longrightarrow> wh_claimId h' \<noteq> wh_claimId (ws_handlers s ! b))"
    if "b < length (ws_handlers s)" "b \<noteq> n" for b
    using progress_frame [OF p uniq h all] own that n by (auto simp: owners_differ_def)
  have "handler_ok (view r') (ws_trace s @ es) g" if mem: "g \<in> set ((ws_handlers s)[n := h'])" for g
  proof -
    obtain b where "b < length ((ws_handlers s)[n := h'])" "(ws_handlers s)[n := h'] ! b = g"
      using mem unfolding in_set_conv_nth by blast
    moreover have "handler_ok (view r') (ws_trace s @ es) h'" using p by (simp add: progress_def)
    ultimately show ?thesis using frame [of b] by (cases "b = n") auto
  qed
  moreover have "owners_differ ((ws_handlers s)[n := h'])"
    unfolding owners_differ_def
  proof (intro allI impI)
    fix a b
    assume *: "a < length ((ws_handlers s)[n := h'])" "b < length ((ws_handlers s)[n := h'])" "a \<noteq> b"
      "live ((ws_handlers s)[n := h'] ! a)" "live ((ws_handlers s)[n := h'] ! b)"
    consider "a = n" "b \<noteq> n" | "a \<noteq> n" "b = n" | "a \<noteq> n" "b \<noteq> n" using *(3) by blast
    then show "wh_claimId ((ws_handlers s)[n := h'] ! a) \<noteq> wh_claimId ((ws_handlers s)[n := h'] ! b)"
    proof cases
      case 1
      then show ?thesis using * frame [of b] by simp
    next
      case 2
      then show ?thesis using * frame [of a] by auto
    next
      case 3
      then show ?thesis using * own by (simp add: owners_differ_def)
    qed
  qed
  ultimately show ?thesis using okr p view_change_unique [OF vc uniq] view_change_exclusive [OF vc excl]
    by (auto simp: system_ok_def progress_def)
qed

lemma system_invariant:
  assumes "(wecom_step ops sha receiver other)\<^sup>*\<^sup>* s s'" and "ok (ws_repo s)" and "system_ok view s"
    and "\<And>r r'. ok r \<Longrightarrow> other r r' \<Longrightarrow> ok r' \<and> view r' = view r"
  shows "ok (ws_repo s') \<and> system_ok view s'"
  using assms(1)
proof (induction rule: rtranclp_induct)
  case base
  then show ?case using assms(2,3) by simp
next
  case (step s s')
  from step(2) show ?case
  proof cases
    case (receive v m q)
    then show ?thesis using step(3) system_receive by auto
  next
    case (advance n a r' h' es)
    then show ?thesis using step(3) system_advance [of s n sha a r' h' es] by simp
  next
    case (other r')
    then show ?thesis using step(3) assms(4) by (auto simp: system_ok_def)
  qed
qed

end

section \<open>The Postgres repository\<close>

definition row_view :: "inbound_row \<Rightarrow> wecom_view" where
  "row_view x = \<lparr>wv_key = inbound_key x, wv_state = ib_state x, wv_delivery = ib_delivery x,
     wv_binding = ib_bindingId x,
     wv_conversation = (case (ib_scope x, ib_conversationId x) of
       (Some (t, s), Some c) \<Rightarrow> Some (t, s, c) | _ \<Rightarrow> None)\<rparr>"

definition inbound_view :: "db \<Rightarrow> inbox" where
  "inbound_view d i = map_option row_view (List.find (\<lambda>x. ib_id x = i) (db_inbound d))"

text \<open>The primary key and the CHECKs of the table.\<close>

definition inbound_ok :: "db \<Rightarrow> bool" where
  "inbound_ok d \<longleftrightarrow> distinct (map ib_id (db_inbound d)) \<and>
     (\<forall>x \<in> set (db_inbound d). (ib_bindingId x = None \<longleftrightarrow> ib_scope x = None) \<and>
        (ib_conversationId x \<noteq> None \<longrightarrow> ib_scope x \<noteq> None))"

lemma row_view_simps [simp]:
  "wv_key (row_view x) = inbound_key x" "wv_state (row_view x) = ib_state x" "wv_delivery (row_view x) = ib_delivery x"
  "wv_binding (row_view x) = ib_bindingId x" "busy (row_view x) \<longleftrightarrow> ib_state x \<in> {In_processing, In_indeterminate}"
  "wv_conversation (row_view x) = Some (t, u, c) \<longleftrightarrow> ib_scope x = Some (t, u) \<and> ib_conversationId x = Some c"
  by (auto simp: row_view_def busy_def split: option.splits)

lemma inbound_view_row: "inbound_ok d \<Longrightarrow> x \<in> set (db_inbound d) \<Longrightarrow> inbound_view d (ib_id x) = Some (row_view x)"
  unfolding inbound_view_def inbound_ok_def by (subst find_unique [of ib_id]) auto

lemma inbound_view_Some: "inbound_view d i = Some v \<Longrightarrow> \<exists>x \<in> set (db_inbound d). ib_id x = i \<and> v = row_view x"
  by (auto simp: inbound_view_def dest: find_Some_iff')

text \<open>An update of the one row that a condition selects by its identifier.\<close>

lemma inbound_update:
  assumes ok: "inbound_ok d" and P: "\<And>x. P x \<Longrightarrow> ib_id x = i" and g: "\<And>x. ib_id (g x) = ib_id x"
    and c: "count_where P (db_inbound d) = 1"
    and keep: "\<And>x. x \<in> set (db_inbound d) \<Longrightarrow> P x \<Longrightarrow>
      (ib_bindingId (g x) = None \<longleftrightarrow> ib_scope (g x) = None) \<and> (ib_conversationId (g x) \<noteq> None \<longrightarrow> ib_scope (g x) \<noteq> None)"
  obtains x where "x \<in> set (db_inbound d)" "P x" "inbound_view d i = Some (row_view x)"
    "inbound_view (d\<lparr>db_inbound := update_where P g (db_inbound d)\<rparr>) = (inbound_view d)(i \<mapsto> row_view (g x))"
    "inbound_ok (d\<lparr>db_inbound := update_where P g (db_inbound d)\<rparr>)"
proof -
  have "filter P (db_inbound d) \<noteq> []" using c by (auto simp: count_where_def)
  then obtain x where x: "x \<in> set (db_inbound d)" "P x" by (auto simp: filter_empty_conv)
  then have v: "List.find (\<lambda>y. ib_id y = i) (db_inbound d) = Some x"
    using ok P [OF x(2)] by (intro find_unique [of ib_id]) (auto simp: inbound_ok_def)
  have "inbound_view (d\<lparr>db_inbound := update_where P g (db_inbound d)\<rparr>) j = ((inbound_view d)(i \<mapsto> row_view (g x))) j" for j
  proof -
    have "List.find (\<lambda>y. ib_id y = j) (update_where P g (db_inbound d)) =
        map_option (\<lambda>y. if P y then g y else y) (List.find (\<lambda>y. ib_id y = j) (db_inbound d))"
      by (rule find_update_where) (simp add: g)
    moreover have "\<not> P y" if "List.find (\<lambda>y. ib_id y = j) (db_inbound d) = Some y" "j \<noteq> i" for y
      using find_Some_iff' [OF that(1)] P that(2) by auto
    ultimately show ?thesis using v x(2)
      by (cases "List.find (\<lambda>y. ib_id y = j) (db_inbound d)") (auto simp: inbound_view_def)
  qed
  moreover have "inbound_ok (d\<lparr>db_inbound := update_where P g (db_inbound d)\<rparr>)"
    using ok keep by (auto simp: inbound_ok_def map_update_where g set_update_where)
  moreover have "inbound_view d i = Some (row_view x)" using v by (simp add: inbound_view_def)
  ultimately show ?thesis using that x by blast
qed

lemma update_one_Some:
  assumes "update_one P g d = (d', Some u)"
  shows "d' = d\<lparr>db_inbound := update_where P g (db_inbound d)\<rparr> \<and> count_where P (db_inbound d) = 1"
  using assms by (auto simp: update_one_def split: if_splits)

lemma update_one_view:
  assumes ok: "inbound_ok d" and run: "update_one P g d = (d', Some u)" and P: "\<And>x. P x \<Longrightarrow> ib_id x = i"
    and g: "\<And>x. ib_id (g x) = ib_id x" "\<And>x. ib_bindingId (g x) = ib_bindingId x" "\<And>x. ib_scope (g x) = ib_scope x"
      "\<And>x. ib_conversationId (g x) = ib_conversationId x"
  obtains x where "x \<in> set (db_inbound d)" "P x" "inbound_view d i = Some (row_view x)"
    "inbound_view d' = (inbound_view d)(i \<mapsto> row_view (g x))" "inbound_ok d'"
proof -
  note d' = update_one_Some [OF run]
  have keep: "(ib_bindingId (g x) = None \<longleftrightarrow> ib_scope (g x) = None) \<and> (ib_conversationId (g x) \<noteq> None \<longrightarrow> ib_scope (g x) \<noteq> None)"
    if "x \<in> set (db_inbound d)" for x
    unfolding g using ok that unfolding inbound_ok_def by blast
  show ?thesis
    by (rule inbound_update [OF ok P g(1) conjunct2 [OF d'] keep]) (use that d' in auto)
qed

lemma count_by_id:
  assumes "distinct (map ib_id xs)" and "\<And>x. P x \<Longrightarrow> ib_id x = i"
  shows "count_where P xs \<le> 1"
  using assms(1)
proof (induction xs)
  case (Cons x xs)
  show ?case
  proof (cases "P x")
    case True
    then have "filter P xs = []" using Cons.prems assms(2) by (force simp: filter_empty_conv)
    then show ?thesis by (simp add: count_where_def)
  qed (use Cons in \<open>simp add: count_where_def\<close>)
qed (simp add: count_where_def)

lemma update_one_None:
  assumes "update_one P g d = (d', None)" and "inbound_ok d" and "\<And>x. P x \<Longrightarrow> ib_id x = i"
  shows "d' = d"
proof -
  have "count_where P (db_inbound d) = 0"
    using assms count_by_id [of "db_inbound d" P i] by (fastforce simp: update_one_def inbound_ok_def split: if_splits)
  then have "update_where P g (db_inbound d) = db_inbound d"
    by (intro update_where_same) (simp add: count_where_0)
  then show ?thesis using assms(1) by (simp add: update_one_def split: if_splits)
qed

lemma pg_claim_claimed:
  assumes "inbound_ok d" and "pg_claim d m p q = (d', Some (Claimed i))"
  shows "inbound_ok d' \<and> inbound_view d i = None \<and>
    (\<forall>j v. inbound_view d j = Some v \<longrightarrow> wv_key v \<noteq> message_key m) \<and>
    inbound_view d' = (inbound_view d)(i \<mapsto> fresh_view (message_key m))"
proof -
  have none: "\<And>x. x \<in> set (db_inbound d) \<Longrightarrow> inbound_key x \<noteq> message_key m"
      "\<And>x. x \<in> set (db_inbound d) \<Longrightarrow> ib_id x \<noteq> i" and i: "i = uuid d"
    and d': "d' = draw (d\<lparr>db_inbound := db_inbound d @
            [\<lparr>ib_id = i, ib_corpId = wm_corpId m, ib_applicationId = wm_applicationId m,
              ib_messageId = wm_messageId m, ib_payloadHash = p, ib_state = In_processing,
              ib_bindingId = None, ib_scope = None, ib_conversationId = None, ib_requestId = q,
              ib_resultType = None, ib_errorCategory = None, ib_delivery = Not_sent\<rparr>]\<rparr>)"
    using assms(2) by (auto simp: pg_claim_def list_ex_iff find_None_iff split: option.splits if_splits)
  then have "List.find (\<lambda>x. ib_id x = i) (db_inbound d) = None" by (simp add: find_None_iff)
  moreover have "\<forall>j v. inbound_view d j = Some v \<longrightarrow> wv_key v \<noteq> message_key m"
    using none(1) by (auto dest!: inbound_view_Some simp: row_view_def)
  moreover have "inbound_ok d'"
    using assms(1) none(2) by (auto simp: inbound_ok_def d' draw_def)
  moreover have "inbound_view d' = (inbound_view d)(i \<mapsto> fresh_view (message_key m))"
    using calculation(1) by (auto simp: inbound_view_def d' draw_def find_append row_view_def fresh_view_def
        inbound_key_def message_key_def fun_eq_iff split: option.split)
  ultimately show ?thesis by (auto simp: inbound_view_def)
qed

lemma pg_attach_attached:
  assumes ok: "inbound_ok d" and run: "pg_attachConversation d i w c = (d', Some True)"
  shows "inbound_ok d' \<and> (\<exists>v. inbound_view d i = Some v \<and> wv_state v = In_processing \<and> wv_conversation v = None \<and>
        (\<forall>j u. inbound_view d j = Some u \<longrightarrow> wv_conversation u = Some (conversation_of w c) \<longrightarrow>
          \<not> busy u \<and> wv_binding u = Some (wi_bindingId w)) \<and>
        inbound_view d' = (inbound_view d)(i \<mapsto>
          v\<lparr>wv_binding := Some (wi_bindingId w), wv_conversation := Some (conversation_of w c)\<rparr>))"
proof -
  let ?g = "\<lambda>x. x\<lparr>ib_bindingId := Some (wi_bindingId w),
      ib_scope := Some (scope_tenantId (wi_context w), scope_storeId (wi_context w)), ib_conversationId := Some (fst c)\<rparr>"
  have free: "\<not> list_ex (\<lambda>x. inbound_at w (fst c) x \<and>
        (ib_state x \<in> {In_processing, In_indeterminate} \<or> ib_bindingId x \<noteq> Some (wi_bindingId w))) (db_inbound d)"
    and d': "d' = d\<lparr>db_inbound := update_where (attachable d i w) ?g (db_inbound d)\<rparr>"
    and one: "count_where (attachable d i w) (db_inbound d) = 1"
    using run unfolding pg_attachConversation_def by (simp_all split: if_split_asm)
  obtain x where x: "x \<in> set (db_inbound d)" "attachable d i w x" "inbound_view d i = Some (row_view x)"
    "inbound_view d' = (inbound_view d)(i \<mapsto> row_view (?g x))" "inbound_ok d'"
    unfolding d' using inbound_update [OF ok, of "attachable d i w" i ?g] one by (auto simp: attachable_def)
  have "ib_scope x = None" "ib_state x = In_processing"
    using ok x(1,2) by (auto simp: inbound_ok_def attachable_def)
  moreover have "\<not> busy u \<and> wv_binding u = Some (wi_bindingId w)"
    if u: "inbound_view d j = Some u" "wv_conversation u = Some (conversation_of w c)" for j u
  proof -
    obtain y where y: "y \<in> set (db_inbound d)" "u = row_view y" using inbound_view_Some [OF u(1)] by blast
    then have "inbound_at w (fst c) y"
      using u(2) by (auto simp: row_view_def conversation_of_def inbound_at_def split: option.splits)
    then show ?thesis using free y by (auto simp: list_ex_iff busy_def row_view_def)
  qed
  moreover have "row_view (?g x) = (row_view x)\<lparr>wv_binding := Some (wi_bindingId w), wv_conversation := Some (conversation_of w c)\<rparr>"
    by (simp add: row_view_def conversation_of_def inbound_key_def)
  ultimately show ?thesis using x(3,4,5)
    by (intro conjI exI [of _ "row_view x"]) (simp_all add: row_view_def)
qed

lemma pg_attach_other:
  assumes ok: "inbound_ok d" and run: "pg_attachConversation d i w c = (d', x)" and no: "x \<noteq> Some True"
  shows "d' = d"
proof -
  have "count_where (attachable d i w) (db_inbound d) \<le> 1"
    using ok by (intro count_by_id [of _ _ i]) (auto simp: inbound_ok_def attachable_def)
  moreover have "update_where (attachable d i w) g (db_inbound d) = db_inbound d"
    if "count_where (attachable d i w) (db_inbound d) = 0" for g
    using that by (intro update_where_same) (simp add: count_where_0)
  ultimately show ?thesis using run no unfolding pg_attachConversation_def
    by (auto simp: le_Suc_eq split: if_split_asm)
qed

interpretation pg: wecom_repository pg_wecom inbound_view inbound_ok
proof
  fix d m p q d' i
  assume "inbound_ok d" "wr_claim pg_wecom d m p q = (d', Some (Claimed i))"
  then show "inbound_ok d' \<and> inbound_view d i = None \<and>
      (\<forall>j v. inbound_view d j = Some v \<longrightarrow> wv_key v \<noteq> message_key m) \<and>
      inbound_view d' = (inbound_view d)(i \<mapsto> fresh_view (message_key m))"
    using pg_claim_claimed by (simp add: pg_wecom_def)
next
  fix d m p q d' x
  assume "inbound_ok d" "wr_claim pg_wecom d m p q = (d', x)" "\<forall>i. x \<noteq> Some (Claimed i)"
  then show "inbound_ok d' \<and> inbound_view d' = inbound_view d"
    by (auto simp: pg_wecom_def pg_claim_def split: option.splits if_splits)
next
  fix d i w c d'
  assume "inbound_ok d" "wr_attachConversation pg_wecom d i w c = (d', Some True)"
  then show "inbound_ok d' \<and> (\<exists>v. inbound_view d i = Some v \<and> wv_state v = In_processing \<and> wv_conversation v = None \<and>
        (\<forall>j u. inbound_view d j = Some u \<longrightarrow> wv_conversation u = Some (conversation_of w c) \<longrightarrow>
          \<not> busy u \<and> wv_binding u = Some (wi_bindingId w)) \<and>
        inbound_view d' = (inbound_view d)(i \<mapsto>
          v\<lparr>wv_binding := Some (wi_bindingId w), wv_conversation := Some (conversation_of w c)\<rparr>))"
    using pg_attach_attached by (simp add: pg_wecom_def)
next
  fix d i w c d' x
  assume "inbound_ok d" "wr_attachConversation pg_wecom d i w c = (d', x)" "x \<noteq> Some True"
  then show "inbound_ok d' \<and> inbound_view d' = inbound_view d"
    using pg_attach_other [of d i w c d' x] by (simp add: pg_wecom_def)
next
  fix d i d'
  assume ok: "inbound_ok d" and "wr_markDeliveryUncertain pg_wecom d i = (d', Some ())"
  then have "update_one (\<lambda>x. ib_id x = i \<and> ib_state x = In_processing \<and> ib_delivery x = Not_sent \<and> ib_conversationId x \<noteq> None)
       (\<lambda>x. x\<lparr>ib_delivery := Indeterminate\<rparr>) d = (d', Some ())" (is "update_one ?P ?g d = _")
    by (simp add: pg_wecom_def pg_markDeliveryUncertain_def)
  then obtain x where x: "inbound_view d i = Some (row_view x)"
      "inbound_view d' = (inbound_view d)(i \<mapsto> row_view (?g x))" "inbound_ok d'"
    by (rule update_one_view [OF ok, where i = i]) simp_all
  then show "inbound_ok d' \<and> (\<exists>v. inbound_view d i = Some v \<and> inbound_view d' = (inbound_view d)(i \<mapsto> v\<lparr>wv_delivery := Indeterminate\<rparr>))"
    by (auto simp: row_view_def inbound_key_def)
next
  fix d i d'
  assume ok: "inbound_ok d" and "wr_markDeliveryUncertain pg_wecom d i = (d', None)"
  then have "d' = d"
    unfolding pg_wecom_def pg_markDeliveryUncertain_def using update_one_None [of _ _ d d' i] by fastforce
  then show "inbound_ok d' \<and> inbound_view d' = inbound_view d" using ok by simp
next
  fix d i k d'
  assume ok: "inbound_ok d" and "wr_finish pg_wecom d i k = (d', Some ())"
  then have "update_one (\<lambda>x. ib_id x = i \<and> ib_state x = In_processing)
       (\<lambda>x. x\<lparr>ib_state := wc_state k, ib_delivery := wc_delivery k, ib_resultType := wc_resultType k,
          ib_errorCategory := map_option category_name (wc_category k)\<rparr>) d = (d', Some ())" (is "update_one ?P ?g d = _")
    by (simp add: pg_wecom_def pg_finish_def)
  then obtain x where x: "?P x" "inbound_view d i = Some (row_view x)"
      "inbound_view d' = (inbound_view d)(i \<mapsto> row_view (?g x))" "inbound_ok d'"
    by (rule update_one_view [OF ok, where i = i]) simp_all
  then show "inbound_ok d' \<and> (\<exists>v. inbound_view d i = Some v \<and> wv_state v = In_processing \<and>
        inbound_view d' = (inbound_view d)(i \<mapsto> v\<lparr>wv_state := wc_state k, wv_delivery := wc_delivery k\<rparr>))"
    by (auto simp: row_view_def inbound_key_def)
next
  fix d i k d'
  assume ok: "inbound_ok d" and "wr_finish pg_wecom d i k = (d', None)"
  then have "d' = d"
    unfolding pg_wecom_def pg_finish_def using update_one_None [of _ _ d d' i] by fastforce
  then show "inbound_ok d' \<and> inbound_view d' = inbound_view d" using ok by simp
qed

text \<open>The conversation a handler works for, from the claim of the conversation to the end of the delivery.\<close>

definition turn_of :: "wecom_handler \<Rightarrow> (jstring \<times> jstring \<times> jstring) option" where
  "turn_of h = (case wh_pc h of
      At_dispatch w c \<Rightarrow> Some (conversation_of w c)
    | At_respond w c \<Rightarrow> Some (conversation_of w c)
    | At_confirm w c x \<Rightarrow> Some (conversation_of w c)
    | At_mark w c x \<Rightarrow> Some (conversation_of w c)
    | At_deliver w c x \<Rightarrow> Some (conversation_of w c)
    | At_send w c x \<Rightarrow> Some (conversation_of w c)
    | At_finish w c x \<Rightarrow> Some (conversation_of w c)
    | _ \<Rightarrow> None)"

section \<open>Runs of one handler\<close>

text \<open>A handler on its own: each answer comes with what the rest of the program did before it.\<close>

fun drive ::
  "'r wecom_ops \<Rightarrow> (jstring \<Rightarrow> jstring) \<Rightarrow> (('r \<Rightarrow> 'r) \<times> wecom_answer) list \<Rightarrow> 'r \<Rightarrow> wecom_handler \<Rightarrow>
     'r \<times> wecom_handler \<times> wecom_effect list" where
  "drive ops sha [] r h = (r, h, [])"
| "drive ops sha ((g, a) # as) r h =
     (case advance ops sha a (g r) h of (r1, h1, es) \<Rightarrow>
        (case drive ops sha as r1 h1 of (r2, h2, fs) \<Rightarrow> (r2, h2, es @ fs)))"

lemma drive_steps:
  assumes "drive ops sha as r h = (r', h', es)" and "list_all (\<lambda>(g, a). \<forall>r. other r (g r)) as"
  shows "(wecom_step ops sha receiver other)\<^sup>*\<^sup>* \<lparr>ws_repo = r, ws_handlers = [h], ws_trace = tr\<rparr>
    \<lparr>ws_repo = r', ws_handlers = [h'], ws_trace = tr @ es\<rparr>"
  using assms
proof (induction as arbitrary: r h tr es)
  case (Cons x as)
  obtain g a where x: "x = (g, a)" by fastforce
  obtain r1 h1 fs gs where one: "advance ops sha a (g r) h = (r1, h1, fs)" and rest: "drive ops sha as r1 h1 = (r', h', gs)"
    and es: "es = fs @ gs" using Cons.prems(1) x by (auto split: prod.splits)
  let ?s = "\<lparr>ws_repo = r, ws_handlers = [h], ws_trace = tr\<rparr>"
  have "other r (g r)" using Cons.prems(2) x by simp
  then have "wecom_step ops sha receiver other ?s \<lparr>ws_repo = g r, ws_handlers = [h], ws_trace = tr\<rparr>"
    using wecom_step.other [of other ?s "g r" ops sha receiver] by simp
  moreover have "wecom_step ops sha receiver other \<lparr>ws_repo = g r, ws_handlers = [h], ws_trace = tr\<rparr>
      \<lparr>ws_repo = r1, ws_handlers = [h1], ws_trace = tr @ fs\<rparr>"
    using wecom_step.advance [of 0 "\<lparr>ws_repo = g r, ws_handlers = [h], ws_trace = tr\<rparr>" ops sha a r1 h1 fs] one by simp
  ultimately show ?case using Cons.IH [OF rest, of "tr @ fs"] Cons.prems(2) es by (simp add: x)
qed simp

definition pc_rank :: "wecom_pc \<Rightarrow> nat" where
  "pc_rank pc = (case pc of At_claim \<Rightarrow> 13 | At_identity \<Rightarrow> 12 | At_conversation w \<Rightarrow> 11 | At_recheck w c \<Rightarrow> 10
     | At_attach w c \<Rightarrow> 9 | At_dispatch w c \<Rightarrow> 8 | At_respond w c \<Rightarrow> 7 | At_confirm w c x \<Rightarrow> 6 | At_mark w c x \<Rightarrow> 5
     | At_deliver w c x \<Rightarrow> 4 | At_send w c x \<Rightarrow> 3 | At_finish w c x \<Rightarrow> 2 | At_abandon \<Rightarrow> 1 | Returned out \<Rightarrow> 0)"

lemma abandon_rank: "pc_rank (wh_pc (abandon h)) \<le> 1" "pc_rank (wh_pc (abandon_as k h)) \<le> 1"
  by (simp_all add: abandon_def abandon_as_def pc_rank_def split: option.split)

lemma advance_rank: "advance ops sha a r h = (r', h', es) \<Longrightarrow> pc_rank (wh_pc h') \<le> pc_rank (wh_pc h) - 1"
  using abandon_rank(1) [of h] abandon_rank(2) [of Identity_unresolved h] abandon_rank(2) [of Conversation_busy h]
  by (cases "wh_pc h"; auto simp: advance_def Let_def pc_rank_def split: prod.splits option.splits wecom_claim.splits bool.splits if_splits)

lemma drive_rank: "drive ops sha as r h = (r', h', es) \<Longrightarrow> pc_rank (wh_pc h') \<le> pc_rank (wh_pc h) - length as"
proof (induction as arbitrary: r h es)
  case (Cons x as)
  obtain g a where x: "x = (g, a)" by fastforce
  obtain r1 h1 fs gs where one: "advance ops sha a (g r) h = (r1, h1, fs)" and rest: "drive ops sha as r1 h1 = (r', h', gs)"
    using Cons.prems x by (auto split: prod.splits)
  show ?case using advance_rank [OF one] Cons.IH [OF rest] by simp
qed simp

text \<open>
  A call of the handler always returns: after at most thirteen answers, whatever they are and
  whatever else happens to the repository between them, it has reached an outcome.
\<close>

theorem wecom_handle_returns:
  assumes "length as \<ge> 13" and "drive ops sha as r (wecom_start m q) = (r', h', es)"
  shows "\<exists>out. wh_pc h' = Returned out"
proof -
  have "pc_rank (wh_pc h') = 0" using drive_rank [OF assms(2)] assms(1) by (simp add: wecom_start_def pc_rank_def)
  then show ?thesis by (cases "wh_pc h'") (simp_all add: pc_rank_def)
qed

definition demo_message :: wecom_message where
  "demo_message = \<lparr>wm_corpId = js ''w'', wm_applicationId = js ''1'', wm_externalSubjectId = js ''x'',
     wm_messageId = js ''m'', wm_sentAt = js ''2024-05-01T00:00:00Z'', wm_text = js ''hi''\<rparr>"

definition demo_result :: support_result where
  "demo_result = \<lparr>sr_policyDecision = None, sr_type = Answer, sr_text = js ''ok'', sr_piSessionId = js ''p'',
     sr_toolsCalled = [], sr_sessionEvents = [], sr_evidence = []\<rparr>"

definition demo_answer :: wecom_answer where
  "demo_answer = \<lparr>an_fault = No_fault,
     an_conversation = Some [(js ''conversationId'', JStr (js ''c'')), (js ''customerId'', JStr (js ''k''))],
     an_result = Some demo_result, an_delivered = True\<rparr>"

definition demo_answers :: "((db \<Rightarrow> db) \<times> wecom_answer) list" where
  "demo_answers = replicate 13 (id, demo_answer)"

definition demo_run :: "db \<times> wecom_handler \<times> wecom_effect list" where
  "demo_run = drive pg_wecom (\<lambda>s. s) demo_answers demo_db (wecom_start demo_message (js ''q''))"

lemma sameIdentity_refl [simp]: "sameIdentity w (Some w)"
  by (simp add: sameIdentity_def)

definition demo_who :: "jstring \<Rightarrow> wecom_identity" where
  "demo_who q = \<lparr>wi_bindingId = js ''b'', wi_membershipId = js ''m1'',
     wi_context = demo_supervisor\<lparr>request_requestId := q\<rparr>\<rparr>"

lemma demo_identity:
  "pg_resolveIdentity (demo_db\<lparr>db_inbound := rows, db_drawn := n\<rparr>) demo_message q = Some (demo_who q)"
  by (simp add: pg_resolveIdentity_def demo_db_def demo_message_def sole_membership_def count_where_def
      createSupportExecutionContext_def demo_supervisor_def demo_who_def)

lemma demo_mapped: "mapped_conversation (the (an_conversation demo_answer)) = Some (js ''c'', js ''k'')"
  by (simp add: mapped_conversation_def demo_answer_def field_def mapped_text_def blank_iff js_simps is_space_def)

definition demo_row :: inbound_row where
  "demo_row = \<lparr>ib_id = [0], ib_corpId = js ''w'', ib_applicationId = js ''1'', ib_messageId = js ''m'',
     ib_payloadHash = weComPayloadHash (\<lambda>s. s) demo_message, ib_state = In_processing, ib_bindingId = None,
     ib_scope = None, ib_conversationId = None, ib_requestId = js ''q'', ib_resultType = None,
     ib_errorCategory = None, ib_delivery = Not_sent\<rparr>"

definition demo_inbox :: "inbound_row list \<Rightarrow> db" where
  "demo_inbox rows = demo_db\<lparr>db_inbound := rows, db_drawn := 1\<rparr>"

definition demo_attached :: inbound_row where
  "demo_attached = demo_row\<lparr>ib_bindingId := Some (js ''b''), ib_scope := Some (js ''t'', js ''s''),
     ib_conversationId := Some (js ''c'')\<rparr>"

lemma demo_claim: "pg_claim demo_db demo_message (weComPayloadHash (\<lambda>s. s) demo_message) (js ''q'') =
    (demo_inbox [demo_row], Some (Claimed [0]))"
  by (simp add: pg_claim_def demo_db_def uuid_def draw_def demo_inbox_def demo_row_def demo_message_def)

lemma demo_attach: "pg_attachConversation (demo_inbox [demo_row]) [0]
    (demo_who q) (js ''c'', js ''k'') =
    (demo_inbox [demo_attached], Some True)"
  by (simp add: pg_attachConversation_def demo_inbox_def demo_db_def demo_row_def demo_attached_def demo_supervisor_def demo_who_def
      count_where_def inbound_at_def attachable_def attach_binding_def sole_membership_def update_where_def)

lemma demo_mark: "pg_markDeliveryUncertain (demo_inbox [demo_attached]) [0] =
    (demo_inbox [demo_attached\<lparr>ib_delivery := Indeterminate\<rparr>], Some ())"
  by (simp add: pg_markDeliveryUncertain_def update_one_def demo_inbox_def demo_row_def demo_attached_def
      count_where_def update_where_def)

lemma demo_finish: "pg_finish (demo_inbox [demo_attached\<lparr>ib_delivery := Indeterminate\<rparr>]) [0]
      \<lparr>wc_state = In_completed, wc_delivery = Sent, wc_resultType = Some Answered, wc_category = None\<rparr> =
    (demo_inbox [demo_attached\<lparr>ib_state := In_completed, ib_delivery := Sent, ib_resultType := Some Answered\<rparr>], Some ())"
  by (simp add: pg_finish_def update_one_def demo_inbox_def demo_row_def demo_attached_def
      count_where_def update_where_def)

lemma demo_facts:
  "pg_resolveIdentity (demo_inbox rows) demo_message q = Some (demo_who q)"
  "Agent_invoke \<in> set (actor_capabilities (wi_context (demo_who q)))"
  "an_fault demo_answer = No_fault" "an_result demo_answer = Some demo_result" "an_delivered demo_answer"
  using demo_identity by (simp_all add: demo_inbox_def demo_who_def demo_supervisor_def demo_answer_def)

lemma demo_conversation:
  obtains kvs where "an_conversation demo_answer = Some kvs" "mapped_conversation kvs = Some (js ''c'', js ''k'')"
  using demo_mapped by (simp add: demo_answer_def)

lemmas demo_run_simps = advance_def wecom_start_def Let_def called_def resolve_call_def pg_wecom_def demo_facts
  demo_claim demo_attach demo_mark demo_finish demo_result_def numeral_eq_Suc

lemma demo_run_outcome:
  "\<exists>h' es. demo_run = (demo_inbox [demo_attached\<lparr>ib_state := In_completed, ib_delivery := Sent, ib_resultType := Some Answered\<rparr>], h', es) \<and>
     wh_pc h' = Returned (Completed Answered) \<and> dispatched es = [message_key demo_message] \<and> sent es = [message_key demo_message]"
  by (rule demo_conversation) (simp add: demo_run_def demo_answers_def demo_run_simps)

lemma demo_conversation_of: "conversation_of (demo_who q) (js ''c'', js ''k'') = (js ''t'', js ''s'', js ''c'')"
  by (simp add: conversation_of_def demo_who_def demo_supervisor_def)

lemma demo_turn:
  "\<exists>h' es. drive pg_wecom (\<lambda>s. s) (replicate 5 (id, demo_answer)) demo_db (wecom_start demo_message (js ''q'')) =
      (demo_inbox [demo_attached], h', es) \<and> turn_of h' = Some (js ''t'', js ''s'', js ''c'')"
  by (rule demo_conversation) (simp add: demo_run_simps turn_of_def demo_conversation_of)

theorem wecom_handle_returns_witness:
  "\<exists>r' h' es out. drive pg_wecom (\<lambda>s. s) demo_answers demo_db (wecom_start demo_message (js ''q'')) = (r', h', es) \<and>
     wh_pc h' = Returned out"
proof -
  obtain r' h' es where run: "drive pg_wecom (\<lambda>s. s) demo_answers demo_db (wecom_start demo_message (js ''q'')) = (r', h', es)"
    by (metis prod_cases3)
  have "length demo_answers \<ge> 13" by (simp add: demo_answers_def)
  from wecom_handle_returns [OF this run] run show ?thesis by blast
qed

section \<open>Properties of the channel\<close>

definition wecom_initial :: "db \<Rightarrow> db wecom_system" where
  "wecom_initial d = \<lparr>ws_repo = d, ws_handlers = [], ws_trace = []\<rparr>"

text \<open>The constraints of the inbox, and its conversations apart.\<close>

definition inbox_ok :: "db \<Rightarrow> bool" where
  "inbox_ok d \<longleftrightarrow> inbound_ok d \<and> keys_unique (inbound_view d) \<and> exclusive (inbound_view d)"

lemma inbox_ok_empty: "db_inbound d = [] \<Longrightarrow> inbox_ok d"
  by (simp add: inbox_ok_def inbound_ok_def keys_unique_def exclusive_def inbound_view_def)

lemma wecom_reachable_ok:
  assumes "inbox_ok d" and "(wecom_step pg_wecom sha receiver other_work)\<^sup>*\<^sup>* (wecom_initial d) s"
  shows "inbound_ok (ws_repo s) \<and> system_ok inbound_view s"
proof (rule pg.system_invariant [OF assms(2)])
  show "inbound_ok (ws_repo (wecom_initial d))" using assms(1) by (simp add: wecom_initial_def inbox_ok_def)
  show "system_ok inbound_view (wecom_initial d)"
    using assms(1) by (simp add: wecom_initial_def inbox_ok_def system_ok_def recorded_def owners_differ_def)
qed (simp add: other_work_def inbound_ok_def inbound_view_def fun_eq_iff)

text \<open>
  C14. Over every interleaving of calls, lost answers and other work on the database, a message
  (corporation, application and message identifier) starts the agent at most once and is answered
  at most once, and only after the agent was started for it; once an answer may have been sent,
  the row of the message no longer says that it was not.
\<close>

theorem wecom_messages_handled_once:
  assumes "inbox_ok d" and "(wecom_step pg_wecom sha receiver other_work)\<^sup>*\<^sup>* (wecom_initial d) s"
  shows "distinct (dispatched (ws_trace s)) \<and> distinct (sent (ws_trace s)) \<and>
    set (sent (ws_trace s)) \<subseteq> set (dispatched (ws_trace s)) \<and>
    (\<forall>x \<in> set (db_inbound (ws_repo s)). inbound_key x \<in> set (sent (ws_trace s)) \<longrightarrow> ib_delivery x \<noteq> Not_sent)"
proof -
  have ok: "inbound_ok (ws_repo s)" and rec: "recorded (inbound_view (ws_repo s)) (ws_trace s)"
    using wecom_reachable_ok [OF assms] by (simp_all add: system_ok_def)
  have "ib_delivery x \<noteq> Not_sent" if "x \<in> set (db_inbound (ws_repo s))" "inbound_key x \<in> set (sent (ws_trace s))" for x
    using recorded_deliveries [OF rec inbound_view_row [OF ok that(1)]] that(2) by (simp add: row_view_def)
  then show ?thesis using rec by (simp add: recorded_def)
qed

lemma demo_received:
  "wecom_step pg_wecom (\<lambda>s. s) (js ''w'', js ''1'') other_work (wecom_initial demo_db)
      \<lparr>ws_repo = demo_db, ws_handlers = [wecom_start demo_message (js ''q'')], ws_trace = []\<rparr>"
proof -
  let ?v = "JObj [(js ''corpId'', JStr (js ''w'')), (js ''applicationId'', JStr (js ''1'')), (js ''externalSubjectId'', JStr (js ''x'')),
      (js ''messageId'', JStr (js ''m'')), (js ''sentAt'', JStr (js ''2024-05-01T00:00:00Z'')), (js ''text'', JStr (js ''hi''))]"
  have "parseVerifiedWeComText ?v (js ''w'', js ''1'') = Some demo_message"
    by (simp add: parseVerifiedWeComText_def demo_message_def keys_exactly_def keys_within_def wecom_field_def field_def
        blank_iff js_simps is_space_def is_well_formed_def is_high_def is_low_def sent_at_def time_shape_def is_digit_def
        date_shape_def date_parses_def month_of_def day_of_def year_of_def digits_value_def time_parses_def minute_of_def
        second_of_def hour_of_def normal_date_def show_date_def four_def two_def days_in_month_def Let_def)
  then show ?thesis
    using wecom_step.receive [of ?v "(js ''w'', js ''1'')" demo_message pg_wecom "\<lambda>s. s" other_work "wecom_initial demo_db" "js ''q''"]
    by (simp add: wecom_initial_def)
qed

lemma demo_reachable:
  "\<exists>s. (wecom_step pg_wecom (\<lambda>s. s) (js ''w'', js ''1'') other_work)\<^sup>*\<^sup>* (wecom_initial demo_db) s \<and>
     sent (ws_trace s) = [message_key demo_message] \<and>
     db_inbound (ws_repo s) = [demo_attached\<lparr>ib_state := In_completed, ib_delivery := Sent, ib_resultType := Some Answered\<rparr>]"
proof -
  obtain h' es where run: "drive pg_wecom (\<lambda>s. s) demo_answers demo_db (wecom_start demo_message (js ''q'')) =
      (demo_inbox [demo_attached\<lparr>ib_state := In_completed, ib_delivery := Sent, ib_resultType := Some Answered\<rparr>], h', es)"
      "sent es = [message_key demo_message]"
    using demo_run_outcome by (auto simp: demo_run_def)
  note demo_received
  moreover have "list_all (\<lambda>(g, a). \<forall>r. other_work r (g r)) demo_answers"
    by (simp add: demo_answers_def other_work_def list_all_iff)
  from drive_steps [OF run(1) this, of "(js ''w'', js ''1'')" "[]"]
  have "(wecom_step pg_wecom (\<lambda>s. s) (js ''w'', js ''1'') other_work)\<^sup>*\<^sup>*
      \<lparr>ws_repo = demo_db, ws_handlers = [wecom_start demo_message (js ''q'')], ws_trace = []\<rparr>
      \<lparr>ws_repo = demo_inbox [demo_attached\<lparr>ib_state := In_completed, ib_delivery := Sent, ib_resultType := Some Answered\<rparr>],
        ws_handlers = [h'], ws_trace = es\<rparr>" by simp
  ultimately have "(wecom_step pg_wecom (\<lambda>s. s) (js ''w'', js ''1'') other_work)\<^sup>*\<^sup>* (wecom_initial demo_db)
      \<lparr>ws_repo = demo_inbox [demo_attached\<lparr>ib_state := In_completed, ib_delivery := Sent, ib_resultType := Some Answered\<rparr>],
        ws_handlers = [h'], ws_trace = es\<rparr>"
    by (rule converse_rtranclp_into_rtranclp)
  then show ?thesis using run(2) by (intro exI conjI) (assumption, simp_all add: demo_inbox_def)
qed

lemma demo_inbox_ok: "inbox_ok demo_db"
  by (rule inbox_ok_empty) (simp add: demo_db_def)

theorem wecom_messages_handled_once_witness:
  "\<exists>s. (wecom_step pg_wecom (\<lambda>s. s) (js ''w'', js ''1'') other_work)\<^sup>*\<^sup>* (wecom_initial demo_db) s \<and>
     message_key demo_message \<in> set (dispatched (ws_trace s)) \<and> sent (ws_trace s) = [message_key demo_message]"
proof -
  obtain s where s: "(wecom_step pg_wecom (\<lambda>s. s) (js ''w'', js ''1'') other_work)\<^sup>*\<^sup>* (wecom_initial demo_db) s"
    "sent (ws_trace s) = [message_key demo_message]" using demo_reachable by blast
  from wecom_messages_handled_once [OF demo_inbox_ok s(1)] s show ?thesis by auto
qed

lemma turn_row:
  assumes "handler_ok V tr h" and "turn_of h = Some c"
  shows "\<exists>i v. wh_claimId h = Some i \<and> live h \<and> V i = Some v \<and> wv_state v = In_processing \<and> wv_conversation v = Some c"
proof -
  have "live h" using assms by (auto simp: turn_of_def handler_ok_def live_def split: wecom_pc.splits)
  moreover obtain i v where "wh_claimId h = Some i" "V i = Some v" "phase_ok tr h v"
    using live_claimed [OF calculation assms(1)] by blast
  ultimately show ?thesis using assms(2)
    by (auto simp: turn_of_def phase_ok_def attached_def running_def delivering_def split: wecom_pc.splits)
qed

text \<open>
  A conversation has one turn at a time: two calls never work for the same conversation
  (tenant, store, identifier), and while one does, no other message of the conversation is in
  processing or in doubt and every message of it came through the same binding.
\<close>

theorem wecom_turns_exclusive:
  assumes "inbox_ok d" and "(wecom_step pg_wecom sha receiver other_work)\<^sup>*\<^sup>* (wecom_initial d) s"
    and "n < length (ws_handlers s)" and "turn_of (ws_handlers s ! n) = Some (t, u, c)"
  shows "(\<forall>m < length (ws_handlers s). m \<noteq> n \<longrightarrow> turn_of (ws_handlers s ! m) \<noteq> Some (t, u, c)) \<and>
    (\<exists>x \<in> set (db_inbound (ws_repo s)). ib_state x = In_processing \<and> wh_claimId (ws_handlers s ! n) = Some (ib_id x) \<and>
      (\<forall>y \<in> set (db_inbound (ws_repo s)). ib_scope y = Some (t, u) \<longrightarrow> ib_conversationId y = Some c \<longrightarrow>
        ib_bindingId y = ib_bindingId x \<and> (y = x \<or> ib_state y \<in> {In_routed, In_completed, In_failed})))"
proof -
  let ?V = "inbound_view (ws_repo s)"
  have ok: "inbound_ok (ws_repo s)" and excl: "exclusive ?V" and own: "owners_differ (ws_handlers s)"
    and all: "\<And>h. h \<in> set (ws_handlers s) \<Longrightarrow> handler_ok ?V (ws_trace s) h"
    using wecom_reachable_ok [OF assms(1,2)] by (simp_all add: system_ok_def)
  obtain i v where i: "wh_claimId (ws_handlers s ! n) = Some i" "live (ws_handlers s ! n)" "?V i = Some v"
    "wv_state v = In_processing" "wv_conversation v = Some (t, u, c)"
    using turn_row [OF all assms(4)] assms(3) by auto
  have others: "wv_binding w = wv_binding v \<and> \<not> busy w"
    if "?V j = Some w" "wv_conversation w = Some (t, u, c)" "j \<noteq> i" for j w
    using exclusiveD [OF excl that(1) i(3) that(3)] that(2) i(4,5) by (simp add: busy_def)
  have "turn_of (ws_handlers s ! m) \<noteq> Some (t, u, c)" if m: "m < length (ws_handlers s)" "m \<noteq> n" for m
  proof
    assume *: "turn_of (ws_handlers s ! m) = Some (t, u, c)"
    then obtain j w where j: "wh_claimId (ws_handlers s ! m) = Some j" "live (ws_handlers s ! m)" "?V j = Some w"
      "wv_state w = In_processing" "wv_conversation w = Some (t, u, c)"
      using turn_row [OF all *] m(1) by auto
    then have "j \<noteq> i" using owners_differD [OF own m(1) assms(3) m(2) j(2) i(2)] i(1) by auto
    from others [OF j(3,5) this] j(4) show False by (simp add: busy_def)
  qed
  moreover obtain x where x: "x \<in> set (db_inbound (ws_repo s))" "ib_id x = i" "v = row_view x"
    using inbound_view_Some [OF i(3)] by blast
  moreover have "ib_bindingId y = ib_bindingId x \<and> (y = x \<or> ib_state y \<in> {In_routed, In_completed, In_failed})"
    if y: "y \<in> set (db_inbound (ws_repo s))" "ib_scope y = Some (t, u)" "ib_conversationId y = Some c" for y
  proof (cases "y = x")
    case False
    then have "ib_id y \<noteq> i" using ok y(1) x(1,2) key_unique [of ib_id] by (auto simp: inbound_ok_def)
    then have "wv_binding (row_view y) = wv_binding v \<and> \<not> busy (row_view y)"
      using others [OF inbound_view_row [OF ok y(1)]] y(2,3) by simp
    then show ?thesis using x(3) by (cases "ib_state y") auto
  qed simp
  ultimately show ?thesis using i(1,4) by (auto intro!: bexI [of _ x])
qed

lemma demo_in_turn:
  "\<exists>s. (wecom_step pg_wecom (\<lambda>s. s) (js ''w'', js ''1'') other_work)\<^sup>*\<^sup>* (wecom_initial demo_db) s \<and>
     length (ws_handlers s) = 1 \<and> turn_of (ws_handlers s ! 0) = Some (js ''t'', js ''s'', js ''c'')"
proof -
  obtain h' es where run: "drive pg_wecom (\<lambda>s. s) (replicate 5 (id, demo_answer)) demo_db (wecom_start demo_message (js ''q'')) =
      (demo_inbox [demo_attached], h', es)" "turn_of h' = Some (js ''t'', js ''s'', js ''c'')"
    using demo_turn by blast
  have "list_all (\<lambda>(g, a). \<forall>r. other_work r (g r)) (replicate 5 (id, demo_answer))"
    by (simp add: other_work_def list_all_iff)
  from rtranclp_trans [OF r_into_rtranclp [of "wecom_step pg_wecom _ _ _", OF demo_received] drive_steps [OF run(1) this, of "(js ''w'', js ''1'')" "[]"]] run(2)
  show ?thesis by (intro exI conjI) (assumption, simp_all)
qed

theorem wecom_turns_exclusive_witness:
  "\<exists>s. (wecom_step pg_wecom (\<lambda>s. s) (js ''w'', js ''1'') other_work)\<^sup>*\<^sup>* (wecom_initial demo_db) s \<and>
     turn_of (ws_handlers s ! 0) = Some (js ''t'', js ''s'', js ''c'') \<and>
     (\<exists>x \<in> set (db_inbound (ws_repo s)). ib_state x = In_processing)"
proof -
  obtain s where s: "(wecom_step pg_wecom (\<lambda>s. s) (js ''w'', js ''1'') other_work)\<^sup>*\<^sup>* (wecom_initial demo_db) s"
    "length (ws_handlers s) = 1" "turn_of (ws_handlers s ! 0) = Some (js ''t'', js ''s'', js ''c'')"
    using demo_in_turn by blast
  from wecom_turns_exclusive [OF demo_inbox_ok s(1) _ s(3)] s show ?thesis by auto
qed

end
