(* ===== verification/WeComOutcome.thy ===== *)
theory WeComOutcome
  imports WeComProps
begin

text \<open>
  What authorized a start of the agent, as a history of the channel's states, and how a call of the handler ends: after
  a bounded number of answers and, when none of them is lost, with its row of the inbox settled.
\<close>

section \<open>Authority\<close>

text \<open>
  The identity was resolved for the sender of the message: an active binding of the sender in the receiving corporation
  and application, with the only membership of its user; the context has its user, role, scope and capabilities.
\<close>

definition sole_member :: "db \<Rightarrow> wecom_identity \<Rightarrow> membership \<Rightarrow> bool" where
  "sole_member d w m \<longleftrightarrow> m \<in> set (db_memberships d) \<and> wi_membershipId w = mem_id m \<and>
     filter (\<lambda>x. mem_userId x = actor_userId (wi_context w)) (db_memberships d) = [m] \<and>
     actor_role (wi_context w) = mem_role m"

definition sender_authority :: "db \<Rightarrow> wecom_message \<Rightarrow> wecom_identity \<Rightarrow> bool" where
  "sender_authority d msg w \<longleftrightarrow>
     (\<exists>b \<in> set (db_bindings d). \<exists>m. sole_member d w m \<and> cb_active b \<and> cb_id b = wi_bindingId w \<and>
        cb_membershipId b = mem_id m \<and> cb_corpId b = wm_corpId msg \<and> cb_applicationId b = wm_applicationId msg \<and>
        cb_subject b = wm_externalSubjectId msg \<and>
        (scope_tenantId (wi_context w), scope_storeId (wi_context w)) = (mem_tenantId m, mem_storeId m) \<and>
        (cb_tenantId b, cb_storeId b) = (mem_tenantId m, mem_storeId m) \<and>
        actor_capabilities (wi_context w) = capabilitiesForRole (mem_role m))"

text \<open>The conversation is of that scope and the customer it is run for, and the binding is still active, still
  with the only membership of the user.\<close>

definition attach_authority :: "db \<Rightarrow> wecom_message \<Rightarrow> wecom_identity \<Rightarrow> jstring \<times> jstring \<Rightarrow> bool" where
  "attach_authority d msg w c \<longleftrightarrow>
     (\<exists>b \<in> set (db_bindings d). \<exists>m. sole_member d w m \<and> cb_active b \<and> cb_id b = wi_bindingId w \<and>
        cb_membershipId b = mem_id m \<and> cb_corpId b = wm_corpId msg \<and> cb_applicationId b = wm_applicationId msg \<and>
        (cb_tenantId b, cb_storeId b) = (scope_tenantId (wi_context w), scope_storeId (wi_context w))) \<and>
     (\<exists>v \<in> set (db_conversations d). cv_id v = fst c \<and> cv_customerId v = snd c \<and>
        (cv_tenantId v, cv_storeId v) = (scope_tenantId (wi_context w), scope_storeId (wi_context w)))"

lemma sole_memberI:
  assumes "sole_membership d m" and "m \<in> set (db_memberships d)" and "mem_userId m = actor_userId (wi_context w)"
    and "wi_membershipId w = mem_id m" and "mem_role m = actor_role (wi_context w)"
  shows "sole_member d w m"
proof -
  let ?P = "\<lambda>x. mem_userId x = actor_userId (wi_context w)"
  have "length (filter ?P (db_memberships d)) = 1"
    using assms(1) unfolding sole_membership_def count_where_def assms(3) by simp
  moreover have "m \<in> set (filter ?P (db_memberships d))" using assms(2,3) by simp
  ultimately have "filter ?P (db_memberships d) = [m]" by (cases "filter ?P (db_memberships d)") auto
  then show ?thesis using assms by (simp add: sole_member_def)
qed

lemma resolve_authority:
  assumes "pg_resolveIdentity d msg q = Some w"
  shows "sender_authority d msg w"
proof -
  obtain b m where one: "[(b, m). b \<leftarrow> db_bindings d, m \<leftarrow> db_memberships d, u \<leftarrow> db_users d,
         mem_id m = cb_membershipId b \<and> mem_tenantId m = cb_tenantId b \<and> mem_storeId m = cb_storeId b \<and>
         user_id u = mem_userId m \<and> cb_corpId b = wm_corpId msg \<and> cb_applicationId b = wm_applicationId msg \<and>
         cb_subject b = wm_externalSubjectId msg \<and> cb_active b \<and> sole_membership d m] = [(b, m)]" (is "?xs = _")
    and w: "w = \<lparr>wi_bindingId = cb_id b, wi_membershipId = mem_id m, wi_context = createSupportExecutionContext m q\<rparr>"
    using assms by (auto simp: pg_resolveIdentity_def split: list.splits prod.splits)
  have "(b, m) \<in> set ?xs" unfolding one by simp
  then have bm: "b \<in> set (db_bindings d)" "m \<in> set (db_memberships d)" "mem_id m = cb_membershipId b"
    "mem_tenantId m = cb_tenantId b" "mem_storeId m = cb_storeId b" "cb_corpId b = wm_corpId msg"
    "cb_applicationId b = wm_applicationId msg" "cb_subject b = wm_externalSubjectId msg" "cb_active b" "sole_membership d m"
    by (auto split: if_splits)
  have "sole_member d w m" using bm by (intro sole_memberI) (simp_all add: w createSupportExecutionContext_def)
  then show ?thesis using bm unfolding sender_authority_def
    by (intro bexI [of _ b] exI [of _ m]) (simp_all add: w createSupportExecutionContext_def)
qed

lemma sameIdentity_authority:
  assumes "sameIdentity w (Some w')" and "sender_authority d msg w'"
  shows "sender_authority d msg w"
  using assms by (simp add: sameIdentity_def sender_authority_def sole_member_def)

lemma pg_attach_authority:
  assumes "inbound_ok d" and "pg_attachConversation d i w c = (d', Some True)"
    and "inbound_view d i = Some v" and "wv_key v = message_key msg"
  shows "attach_authority d msg w c"
proof -
  have one: "count_where (attachable d i w) (db_inbound d) = 1"
    and own: "count_where (\<lambda>x. cv_id x = fst c \<and> cv_tenantId x = scope_tenantId (wi_context w) \<and>
          cv_storeId x = scope_storeId (wi_context w) \<and> cv_customerId x = snd c) (db_conversations d) = 1"
    using assms(2) unfolding pg_attachConversation_def by (simp_all split: if_split_asm)
  from one have "count_where (attachable d i w) (db_inbound d) \<noteq> 0" by simp
  then obtain x where x: "x \<in> set (db_inbound d)" "attachable d i w x" by (auto simp: count_where_0)
  then obtain b m where bm: "b \<in> set (db_bindings d)" "m \<in> set (db_memberships d)" "attach_binding d w x b m"
    by (auto simp: attachable_def list_ex_iff)
  have "ib_id x = i" using x(2) by (simp add: attachable_def)
  then have "inbound_key x = message_key msg" using inbound_view_row [OF assms(1) x(1)] assms(3,4) by simp
  then have "cb_corpId b = wm_corpId msg" "cb_applicationId b = wm_applicationId msg"
    using bm(3) by (simp_all add: attach_binding_def inbound_key_def message_key_def)
  moreover have "sole_member d w m" using bm by (intro sole_memberI) (simp_all add: attach_binding_def)
  moreover from own have "count_where (\<lambda>x. cv_id x = fst c \<and> cv_tenantId x = scope_tenantId (wi_context w) \<and>
          cv_storeId x = scope_storeId (wi_context w) \<and> cv_customerId x = snd c) (db_conversations d) \<noteq> 0" by simp
  then have "\<exists>v \<in> set (db_conversations d). cv_id v = fst c \<and> cv_tenantId v = scope_tenantId (wi_context w) \<and>
       cv_storeId v = scope_storeId (wi_context w) \<and> cv_customerId v = snd c" by (auto simp: count_where_0)
  ultimately show ?thesis using bm unfolding attach_authority_def attach_binding_def by fastforce
qed

text \<open>The identity a handler works with may invoke the agent.\<close>

definition identity_of :: "wecom_pc \<Rightarrow> wecom_identity option" where
  "identity_of pc = (case pc of At_conversation w \<Rightarrow> Some w | At_recheck w c \<Rightarrow> Some w | At_attach w c \<Rightarrow> Some w
     | At_dispatch w c \<Rightarrow> Some w | _ \<Rightarrow> None)"

definition invoking :: "wecom_handler \<Rightarrow> bool" where
  "invoking h \<longleftrightarrow> (\<forall>w. identity_of (wh_pc h) = Some w \<longrightarrow> Agent_invoke \<in> set (actor_capabilities (wi_context w)))"

lemma invoking_abandon [simp]: "invoking (abandon h)" "invoking (abandon_as k h)"
  by (simp_all add: invoking_def identity_of_def abandon_def abandon_as_def split: option.split)

lemma advance_invoking:
  assumes "invoking h" and "advance ops sha a d h = (d', h', es)"
  shows "invoking h'"
proof (cases "wh_pc h")
  case At_identity
  then have "h' \<in> {abandon h, abandon_as Identity_unresolved h} \<or>
      (\<exists>w. Agent_invoke \<in> set (actor_capabilities (wi_context w)) \<and> h' = h\<lparr>wh_pc := At_conversation w\<rparr>)"
    using assms(2) by (auto simp: advance_def Let_def resolve_call_def split: option.splits if_splits)
  then show ?thesis by (auto simp: invoking_def [of "h\<lparr>wh_pc := _\<rparr>"] identity_of_def)
qed (use assms in \<open>auto simp: advance_def Let_def split: prod.splits option.splits wecom_claim.splits bool.splits if_splits\<close>;
    simp add: invoking_def identity_of_def)+

lemma advance_message: "advance ops sha a r h = (r', h', es) \<Longrightarrow> wh_message h' = wh_message h"
  by (cases "wh_pc h"; auto simp: advance_def Let_def split: prod.splits option.splits wecom_claim.splits bool.splits if_splits)

lemma advance_to_attach:
  assumes "advance pg_wecom sha a d h = (d', h', es)" and "wh_pc h' = At_attach w c"
  shows "sender_authority d (wh_message h) w"
proof -
  have "\<exists>w'. resolve_call pg_wecom h (an_fault a) d = Some w' \<and> sameIdentity w w'"
    using assms
    by (cases "wh_pc h"; auto simp: advance_def Let_def abandon_def abandon_as_def
        split: prod.splits option.splits wecom_claim.splits bool.splits if_splits)
  then obtain w' where "pg_resolveIdentity d (wh_message h) (wh_requestId h) = Some w'" "sameIdentity w (Some w')"
    by (auto simp: resolve_call_def pg_wecom_def sameIdentity_def split: if_splits option.splits)
  then show ?thesis using sameIdentity_authority resolve_authority by blast
qed

lemma advance_to_dispatch:
  assumes "advance ops sha a r h = (r', h', es)" and "wh_pc h' = At_dispatch w c"
  shows "wh_pc h = At_attach w c \<and> wr_attachConversation ops r (the (wh_claimId h)) w c = (r', Some True)"
  using assms
  by (cases "wh_pc h"; auto simp: advance_def Let_def called_def abandon_def abandon_as_def
      split: prod.splits option.splits wecom_claim.splits bool.splits if_splits fault.splits)

lemma advance_dispatch:
  assumes "advance ops sha a r h = (r', h', es)" and "Dispatch k ctx c t \<in> set es"
  shows "\<exists>w. wh_pc h = At_dispatch w c \<and> ctx = wi_context w \<and> k = handler_key h \<and> t = wm_text (wh_message h)"
  using assms
  by (cases "wh_pc h"; auto simp: advance_def Let_def called_def split: prod.splits option.splits wecom_claim.splits bool.splits if_splits fault.splits)

text \<open>The earlier states that a handler's program point owes its authority to.\<close>

definition backed :: "(jstring \<Rightarrow> jstring) \<Rightarrow> jstring \<times> jstring \<Rightarrow> db \<Rightarrow> db wecom_system \<Rightarrow> wecom_handler \<Rightarrow> bool" where
  "backed sha receiver d s h \<longleftrightarrow> invoking h \<and>
     (\<forall>w c. wh_pc h = At_attach w c \<longrightarrow>
        (\<exists>s1. (wecom_step pg_wecom sha receiver other_work)\<^sup>*\<^sup>* (wecom_initial d) s1 \<and>
           (wecom_step pg_wecom sha receiver other_work)\<^sup>*\<^sup>* s1 s \<and> sender_authority (ws_repo s1) (wh_message h) w)) \<and>
     (\<forall>w c. wh_pc h = At_dispatch w c \<longrightarrow>
        (\<exists>s1 s2. (wecom_step pg_wecom sha receiver other_work)\<^sup>*\<^sup>* (wecom_initial d) s1 \<and>
           (wecom_step pg_wecom sha receiver other_work)\<^sup>*\<^sup>* s1 s2 \<and> (wecom_step pg_wecom sha receiver other_work)\<^sup>*\<^sup>* s2 s \<and>
           sender_authority (ws_repo s1) (wh_message h) w \<and> attach_authority (ws_repo s2) (wh_message h) w c))"

lemma backed_later:
  "backed sha receiver d s h \<Longrightarrow> wecom_step pg_wecom sha receiver other_work s s' \<Longrightarrow> backed sha receiver d s' h"
  unfolding backed_def by (meson rtranclp.rtrancl_into_rtrancl)

lemma reachable_backed:
  assumes "inbox_ok d" and "(wecom_step pg_wecom sha receiver other_work)\<^sup>*\<^sup>* (wecom_initial d) s"
  shows "\<forall>h \<in> set (ws_handlers s). backed sha receiver d s h"
  using assms(2)
proof (induction rule: rtranclp_induct)
  case (step s s')
  from step(2) show ?case
  proof cases
    case (receive v m q)
    have "backed sha receiver d s' (wecom_start m q)"
      by (simp add: backed_def wecom_start_def invoking_def identity_of_def)
    then show ?thesis using step(3) backed_later [OF _ step(2)] receive by auto
  next
    case (advance n a r' h' es)
    let ?h = "ws_handlers s ! n"
    have h: "backed sha receiver d s ?h" using step(3) advance by simp
    have ok: "inbound_ok (ws_repo s)" and hok: "handler_ok (inbound_view (ws_repo s)) (ws_trace s) ?h"
      using wecom_reachable_ok [OF assms(1) step(1)] advance by (simp_all add: system_ok_def)
    note m = advance_message [OF advance(3)]
    have "backed sha receiver d s' h'"
      unfolding backed_def
    proof (intro conjI allI impI)
      show "invoking h'" using advance_invoking [OF _ advance(3)] h by (simp add: backed_def)
    next
      fix w c assume "wh_pc h' = At_attach w c"
      from advance_to_attach [OF advance(3) this] show "\<exists>s1. (wecom_step pg_wecom sha receiver other_work)\<^sup>*\<^sup>* (wecom_initial d) s1 \<and>
           (wecom_step pg_wecom sha receiver other_work)\<^sup>*\<^sup>* s1 s' \<and> sender_authority (ws_repo s1) (wh_message h') w"
        using step(1,2) m by auto
    next
      fix w c assume to: "wh_pc h' = At_dispatch w c"
      note at = advance_to_dispatch [OF advance(3) to]
      then have "live ?h" using hok by (auto simp: handler_ok_def live_def)
      then obtain i v where i: "wh_claimId ?h = Some i" "inbound_view (ws_repo s) i = Some v" "phase_ok (ws_trace s) ?h v"
        using live_claimed [OF _ hok] by blast
      have "attach_authority (ws_repo s) (wh_message ?h) w c"
        using at i by (intro pg_attach_authority [OF ok _ i(2)]) (auto simp: pg_wecom_def phase_ok_def)
      moreover obtain s1 where "(wecom_step pg_wecom sha receiver other_work)\<^sup>*\<^sup>* (wecom_initial d) s1"
        "(wecom_step pg_wecom sha receiver other_work)\<^sup>*\<^sup>* s1 s" "sender_authority (ws_repo s1) (wh_message ?h) w"
        using h at unfolding backed_def by blast
      ultimately show "\<exists>s1 s2. (wecom_step pg_wecom sha receiver other_work)\<^sup>*\<^sup>* (wecom_initial d) s1 \<and>
           (wecom_step pg_wecom sha receiver other_work)\<^sup>*\<^sup>* s1 s2 \<and> (wecom_step pg_wecom sha receiver other_work)\<^sup>*\<^sup>* s2 s' \<and>
           sender_authority (ws_repo s1) (wh_message h') w \<and> attach_authority (ws_repo s2) (wh_message h') w c"
        unfolding m using step(2) by blast
    qed
    then show ?thesis using step(3) backed_later [OF _ step(2)] advance
      by (auto dest!: set_update_subset_insert [THEN subsetD])
  next
    case (other r')
    then show ?thesis using step(3) backed_later [OF _ step(2)] by auto
  qed
qed (simp add: wecom_initial_def)

text \<open>
  C15. The agent is started only for an authorized sender. Between the commit of the attachment and the start the
  handler waits, so the authority is that of two earlier states, in this order: in the first the sender of the message
  had an active binding with the only membership of its user, from which the context takes its user, role, scope and
  capabilities, among them to invoke the agent; in the second, which is the commit, that binding was active with that
  membership still, and the conversation was one of the scope and of the customer it is run for. The
  start itself carries the key and text of that message, and its row is in processing for that conversation.
\<close>

theorem wecom_dispatch_authorized:
  assumes "inbox_ok d" and "(wecom_step pg_wecom sha receiver other_work)\<^sup>*\<^sup>* (wecom_initial d) s"
    and "n < length (ws_handlers s)" and "advance pg_wecom sha a (ws_repo s) (ws_handlers s ! n) = (r', h', es)"
    and "Dispatch k ctx c t \<in> set es"
  shows "\<exists>w s1 s2. let msg = wh_message (ws_handlers s ! n) in
    (wecom_step pg_wecom sha receiver other_work)\<^sup>*\<^sup>* (wecom_initial d) s1 \<and>
    (wecom_step pg_wecom sha receiver other_work)\<^sup>*\<^sup>* s1 s2 \<and> (wecom_step pg_wecom sha receiver other_work)\<^sup>*\<^sup>* s2 s \<and>
    k = message_key msg \<and> t = wm_text msg \<and> ctx = wi_context w \<and> Agent_invoke \<in> set (actor_capabilities ctx) \<and>
    sender_authority (ws_repo s1) msg w \<and> attach_authority (ws_repo s2) msg w c \<and>
    (\<exists>x \<in> set (db_inbound (ws_repo s)). inbound_key x = k \<and> ib_state x = In_processing \<and>
       ib_scope x = Some (scope_tenantId ctx, scope_storeId ctx) \<and> ib_conversationId x = Some (fst c))"
proof -
  let ?h = "ws_handlers s ! n" and ?d = "ws_repo s"
  have h: "?h \<in> set (ws_handlers s)" using assms(3) by simp
  have ok: "inbound_ok ?d" and hok: "handler_ok (inbound_view ?d) (ws_trace s) ?h"
    using wecom_reachable_ok [OF assms(1,2)] h by (simp_all add: system_ok_def)
  obtain w where w: "wh_pc ?h = At_dispatch w c" "ctx = wi_context w" "k = handler_key ?h" "t = wm_text (wh_message ?h)"
    using advance_dispatch [OF assms(4,5)] by blast
  have "live ?h" using hok w(1) by (auto simp: handler_ok_def live_def)
  then obtain i u where i: "inbound_view ?d i = Some u" "phase_ok (ws_trace s) ?h u"
    using live_claimed [OF _ hok] by blast
  then obtain x where x: "x \<in> set (db_inbound ?d)" "u = row_view x" using inbound_view_Some by blast
  have row: "inbound_key x = k \<and> ib_state x = In_processing \<and> ib_scope x = Some (scope_tenantId ctx, scope_storeId ctx) \<and>
      ib_conversationId x = Some (fst c)"
    using i(2) x(2) w by (auto simp: phase_ok_def attached_def conversation_of_def)
  have b: "backed sha receiver d s ?h" using reachable_backed [OF assms(1,2)] h by blast
  then have inv: "Agent_invoke \<in> set (actor_capabilities (wi_context w))"
    using w(1) by (simp add: backed_def invoking_def identity_of_def)
  obtain s1 s2 where "(wecom_step pg_wecom sha receiver other_work)\<^sup>*\<^sup>* (wecom_initial d) s1"
    "(wecom_step pg_wecom sha receiver other_work)\<^sup>*\<^sup>* s1 s2" "(wecom_step pg_wecom sha receiver other_work)\<^sup>*\<^sup>* s2 s"
    "sender_authority (ws_repo s1) (wh_message ?h) w" "attach_authority (ws_repo s2) (wh_message ?h) w c"
    using b w(1) unfolding backed_def by blast
  then show ?thesis using w row x(1) inv
    by (intro exI [of _ w] exI [of _ s1] exI [of _ s2]) (auto simp: Let_def)
qed

lemma demo_dispatching:
  "\<exists>s r' h' ctx. (wecom_step pg_wecom (\<lambda>s. s) (js ''w'', js ''1'') other_work)\<^sup>*\<^sup>* (wecom_initial demo_db) s \<and>
     length (ws_handlers s) = 1 \<and> wh_message (ws_handlers s ! 0) = demo_message \<and>
     advance pg_wecom (\<lambda>s. s) demo_answer (ws_repo s) (ws_handlers s ! 0) =
       (r', h', [Dispatch (message_key demo_message) ctx (js ''c'', js ''k'') (js ''hi'')])"
proof -
  have "\<exists>h. drive pg_wecom (\<lambda>s. s) (replicate 5 (id, demo_answer)) demo_db (wecom_start demo_message (js ''q'')) =
      (demo_inbox [demo_attached], h, []) \<and> h = (wecom_start demo_message (js ''q''))
        \<lparr>wh_claimId := Some [0], wh_pc := At_dispatch (demo_who (js ''q'')) (js ''c'', js ''k'')\<rparr>"
    by (rule demo_conversation) (simp add: demo_run_simps)
  then obtain h where run: "drive pg_wecom (\<lambda>s. s) (replicate 5 (id, demo_answer)) demo_db (wecom_start demo_message (js ''q'')) =
      (demo_inbox [demo_attached], h, [])" and h: "h = (wecom_start demo_message (js ''q''))
        \<lparr>wh_claimId := Some [0], wh_pc := At_dispatch (demo_who (js ''q'')) (js ''c'', js ''k'')\<rparr>" by blast
  have others: "list_all (\<lambda>(g, a). \<forall>r. other_work r (g r)) (replicate 5 (id, demo_answer))"
    by (simp add: other_work_def list_all_iff)
  have "wm_text demo_message = js ''hi''" by (simp add: demo_message_def)
  then have "\<exists>r' h'. advance pg_wecom (\<lambda>s. s) demo_answer (demo_inbox [demo_attached]) h =
       (r', h', [Dispatch (message_key demo_message) (wi_context (demo_who (js ''q''))) (js ''c'', js ''k'') (js ''hi'')])"
    by (simp add: h demo_run_simps)
  moreover have "wh_message h = demo_message" by (simp add: h wecom_start_def)
  ultimately show ?thesis
    using rtranclp_trans [OF r_into_rtranclp [of "wecom_step pg_wecom _ _ _", OF demo_received]
        drive_steps [OF run others, of "(js ''w'', js ''1'')" "[]"]]
    by (elim exE, intro exI conjI) (assumption, simp_all)
qed

theorem wecom_dispatch_authorized_witness:
  "\<exists>s1 b. (wecom_step pg_wecom (\<lambda>s. s) (js ''w'', js ''1'') other_work)\<^sup>*\<^sup>* (wecom_initial demo_db) s1 \<and>
     b \<in> set (db_bindings (ws_repo s1)) \<and> cb_active b \<and> cb_corpId b = js ''w'' \<and> cb_subject b = js ''x''"
proof -
  obtain s r' h' ctx where s: "(wecom_step pg_wecom (\<lambda>s. s) (js ''w'', js ''1'') other_work)\<^sup>*\<^sup>* (wecom_initial demo_db) s"
    "length (ws_handlers s) = 1" "wh_message (ws_handlers s ! 0) = demo_message"
    "advance pg_wecom (\<lambda>s. s) demo_answer (ws_repo s) (ws_handlers s ! 0) =
       (r', h', [Dispatch (message_key demo_message) ctx (js ''c'', js ''k'') (js ''hi'')])"
    using demo_dispatching by blast
  have "wm_corpId demo_message = js ''w''" "wm_externalSubjectId demo_message = js ''x''" by (simp_all add: demo_message_def)
  then show ?thesis
    using wecom_dispatch_authorized [OF demo_inbox_ok s(1) _ s(4), of "message_key demo_message" ctx "(js ''c'', js ''k'')" "js ''hi''"] s(2,3)
    by (auto simp: Let_def sender_authority_def)
qed

section \<open>The end of a call\<close>

text \<open>
  A live handler none of whose answers was lost: its row is in processing, and its flags say whether the agent was
  started and the answer may have been sent. A handler that has returned has settled its row.
\<close>

definition settled :: "wecom_effect list \<Rightarrow> wecom_key \<Rightarrow> wecom_outcome \<Rightarrow> inbound_state \<Rightarrow> delivery_state \<Rightarrow> bool" where
  "settled tr k out st dl \<longleftrightarrow>
     (case out of
        Completed ty \<Rightarrow> st = In_completed \<and> dl = Sent \<and> k \<in> set (sent tr)
      | Blocked c \<Rightarrow> st = (if k \<in> set (dispatched tr) then In_indeterminate else In_failed) \<and> dl \<noteq> Sent \<and>
          (k \<in> set (sent tr) \<longrightarrow> dl = Indeterminate) \<and> (k \<notin> set (dispatched tr) \<longrightarrow> dl = Not_sent)
      | Duplicate_event \<Rightarrow> False)"

definition faultless :: "inbox \<Rightarrow> wecom_effect list \<Rightarrow> wecom_handler \<Rightarrow> bool" where
  "faultless V tr h \<longleftrightarrow>
     (case wh_claimId h of
        None \<Rightarrow> \<not> wh_dispatched h \<and> \<not> wh_deliveryUncertain h \<and>
          (wh_pc h = At_claim \<and> wh_category h = Dependency_lost \<or> wh_pc h \<in> Returned ` {Duplicate_event, Blocked Payload_conflict, Blocked Dependency_lost})
      | Some i \<Rightarrow> \<exists>v. V i = Some v \<and> wv_key v = handler_key h \<and>
          (case wh_pc h of
             Returned out \<Rightarrow> settled tr (handler_key h) out (wv_state v) (wv_delivery v)
           | _ \<Rightarrow> wv_state v = In_processing \<and> wh_dispatched h = (handler_key h \<in> set (dispatched tr)) \<and>
               (handler_key h \<in> set (sent tr) \<longrightarrow> wh_deliveryUncertain h) \<and> (wh_deliveryUncertain h \<longrightarrow> wh_dispatched h)))"

lemma settled_simps [simp]:
  "settled tr k (Completed ty) st dl \<longleftrightarrow> st = In_completed \<and> dl = Sent \<and> k \<in> set (sent tr)"
  "settled tr k (Blocked c) st dl \<longleftrightarrow> st = (if k \<in> set (dispatched tr) then In_indeterminate else In_failed) \<and> dl \<noteq> Sent \<and>
     (k \<in> set (sent tr) \<longrightarrow> dl = Indeterminate) \<and> (k \<notin> set (dispatched tr) \<longrightarrow> dl = Not_sent)"
  by (simp_all add: settled_def)

lemma pg_finish_processing:
  assumes "inbound_ok d" and "inbound_view d i = Some v" and "wv_state v = In_processing"
  shows "\<exists>d'. pg_finish d i c = (d', Some ()) \<and>
    inbound_view d' = (inbound_view d)(i \<mapsto> v\<lparr>wv_state := wc_state c, wv_delivery := wc_delivery c\<rparr>)"
proof -
  obtain x where x: "x \<in> set (db_inbound d)" "ib_id x = i" "v = row_view x" using inbound_view_Some [OF assms(2)] by blast
  let ?P = "\<lambda>x. ib_id x = i \<and> ib_state x = In_processing"
  have "count_where ?P (db_inbound d) \<le> 1" using assms(1) by (intro count_by_id [of _ _ i]) (auto simp: inbound_ok_def)
  moreover have "count_where ?P (db_inbound d) \<noteq> 0" using x assms(3) by (auto simp: count_where_0)
  ultimately obtain d' where d': "pg_finish d i c = (d', Some ())"
    by (simp add: pg_finish_def update_one_def)
  then show ?thesis using pg.finished [OF assms(1), of i c d'] assms(2) by (auto simp: pg_wecom_def)
qed

lemma faultless_live:
  assumes "wh_claimId h = Some i" and "\<And>out. wh_pc h \<noteq> Returned out"
  shows "faultless V tr h \<longleftrightarrow> (\<exists>v. V i = Some v \<and> wv_key v = handler_key h \<and> wv_state v = In_processing \<and>
     wh_dispatched h = (handler_key h \<in> set (dispatched tr)) \<and>
     (handler_key h \<in> set (sent tr) \<longrightarrow> wh_deliveryUncertain h) \<and> (wh_deliveryUncertain h \<longrightarrow> wh_dispatched h))"
  using assms by (cases "wh_pc h") (auto simp: faultless_def)

lemma faultless_claim:
  assumes ok: "inbound_ok d" and rec: "recorded (inbound_view d) tr" and h: "faultless (inbound_view d) tr h"
    and pc: "wh_pc h = At_claim" "wh_claimId h = None" and run: "advance pg_wecom sha a d h = (d', h', es)" and f: "an_fault a = No_fault"
  shows "faultless (inbound_view d') (tr @ es) h'"
proof -
  obtain x where x: "pg_claim d (wh_message h) (weComPayloadHash sha (wh_message h)) (wh_requestId h) = (d', x)"
    using run f pc(1) by (auto simp: advance_def Let_def called_def pg_wecom_def split: prod.splits option.splits wecom_claim.splits)
  show ?thesis
  proof (cases "\<exists>i. x = Some (Claimed i)")
    case True
    then obtain i where i: "x = Some (Claimed i)" by blast
    note c = pg_claim_claimed [OF ok x [unfolded i]]
    have "handler_key h \<notin> set (dispatched tr)" "handler_key h \<notin> set (sent tr)"
      using c recorded_key [OF rec, of "handler_key h"] by auto
    moreover have "h' = h\<lparr>wh_claimId := Some i, wh_pc := At_identity\<rparr>" "es = []"
      using run f pc(1) x i by (auto simp: advance_def Let_def called_def pg_wecom_def)
    ultimately show ?thesis using c h pc(2) by (auto simp: faultless_def fresh_view_def)
  next
    case False
    then have "h' = h\<lparr>wh_pc := wh_pc h'\<rparr>" "wh_pc h' \<in> Returned ` {Duplicate_event, Blocked Payload_conflict, Blocked Dependency_lost}"
      using run f pc x h
      by (auto simp: advance_def Let_def called_def pg_wecom_def abandon_def faultless_def split: option.splits wecom_claim.splits)
    then show ?thesis using h pc(2) by (cases h; cases h') (auto simp: faultless_def)
  qed
qed

lemma faultless_step:
  assumes ok: "inbound_ok d" and rec: "recorded (inbound_view d) tr" and hok: "handler_ok (inbound_view d) tr h"
    and h: "faultless (inbound_view d) tr h" and run: "advance pg_wecom sha a d h = (d', h', es)" and f: "an_fault a = No_fault"
  shows "faultless (inbound_view d') (tr @ es) h'"
proof (cases "wh_claimId h")
  case None
  show ?thesis
  proof (cases "wh_pc h = At_claim")
    case True
    then show ?thesis using faultless_claim [OF ok rec h _ None run f] by simp
  next
    case False
    then have "\<exists>out. wh_pc h = Returned out" using h None by (auto simp: faultless_def)
    then show ?thesis using run h by (auto simp: advance_def Let_def)
  qed
next
  case (Some i)
  show ?thesis
  proof (cases "\<exists>out. wh_pc h = Returned out")
    case True
    then show ?thesis using run h by (auto simp: advance_def Let_def)
  next
    case live: False
    then obtain v where v: "inbound_view d i = Some v" "wv_key v = handler_key h" "wv_state v = In_processing"
      "wh_dispatched h = (handler_key h \<in> set (dispatched tr))" "handler_key h \<in> set (sent tr) \<longrightarrow> wh_deliveryUncertain h"
      "wh_deliveryUncertain h \<longrightarrow> wh_dispatched h"
      using h faultless_live [OF Some, of "inbound_view d" tr] by blast
    have ph: "phase_ok tr h v" using live_claimed [OF _ hok] Some live v(1) by (auto simp: live_def)
    have claimed: "wh_pc h \<noteq> At_claim" using hok Some by (simp add: handler_ok_def)
    have keep: "faultless V fs g"
      if "wh_claimId g = Some i" "wh_message g = wh_message h" "\<And>out. wh_pc g \<noteq> Returned out"
        "V i = Some u" "wv_key u = handler_key h" "wv_state u = In_processing"
        "wh_dispatched g = (handler_key h \<in> set (dispatched fs))"
        "handler_key h \<in> set (sent fs) \<longrightarrow> wh_deliveryUncertain g" "wh_deliveryUncertain g \<longrightarrow> wh_dispatched g" for V u g fs
      using that faultless_live [OF that(1,3)] by simp
    have gone: "faultless V tr (abandon h) \<and> faultless V tr (abandon_as k h)"
      if "V i = Some u" "wv_key u = handler_key h" "wv_state u = In_processing" for V u k
      using that Some v by (intro conjI keep [of _ V u]) (simp_all add: abandon_def abandon_as_def)
    have ends: "faultless V (tr @ es) h'"
      if "es = []" "h' = h\<lparr>wh_pc := Returned out\<rparr>" "V i = Some u" "wv_key u = handler_key h"
        "settled tr (handler_key h) out (wv_state u) (wv_delivery u)" for V u out
      using that Some by (simp add: faultless_def)
    show ?thesis
    proof (cases "wh_pc h")
      case (At_attach w c)
      obtain x where x: "wr_attachConversation pg_wecom d i w c = (d', x)"
        using run f At_attach Some by (auto simp: advance_def Let_def called_def split: prod.splits option.splits bool.splits)
      show ?thesis
      proof (cases "x = Some True")
        case True
        obtain u where "inbound_view d' i = Some u" "wv_key u = handler_key h" "wv_state u = In_processing"
          using pg.attached [OF ok x [unfolded True]] v by auto
        moreover have "h' = h\<lparr>wh_pc := At_dispatch w c\<rparr>" "es = []"
          using run f At_attach Some x True by (simp_all add: advance_def Let_def called_def)
        ultimately show ?thesis using Some v by (intro keep [of _ _ u]) simp_all
      next
        case False
        then have "inbound_view d' = inbound_view d" using pg.not_attached [OF ok x] by simp
        moreover have "es = []" "h' = abandon h \<or> h' = abandon_as Conversation_busy h"
          using run f At_attach Some x False by (auto simp: advance_def Let_def called_def split: option.splits bool.splits)
        ultimately show ?thesis using v gone [of "inbound_view d" v Conversation_busy] by auto
      qed
    next
      case (At_mark w c y)
      obtain x where x: "wr_markDeliveryUncertain pg_wecom d i = (d', x)"
        using run f At_mark Some by (auto simp: advance_def Let_def called_def split: prod.splits option.splits)
      obtain u where u: "inbound_view d' i = Some u" "wv_key u = handler_key h" "wv_state u = In_processing"
        using x pg.marked [OF ok, of i d'] pg.not_marked [OF ok, of i d'] v by (cases x) auto
      show ?thesis
      proof (cases x)
        case None
        then have "h' = abandon h" "es = []" using run f At_mark Some x by (auto simp: advance_def Let_def called_def)
        then show ?thesis using gone [of "inbound_view d'" u] u by simp
      next
        case (Some z)
        then have "h' = h\<lparr>wh_pc := At_deliver w c y\<rparr>" "es = []"
          using run f At_mark \<open>wh_claimId h = Some i\<close> x by (auto simp: advance_def Let_def called_def)
        then show ?thesis using u v \<open>wh_claimId h = Some i\<close> by (intro keep [of _ _ u]) simp_all
      qed
    next
      case (At_finish w c y)
      let ?k = "\<lparr>wc_state = In_completed, wc_delivery = Sent, wc_resultType = Some (result_name (sr_type y)), wc_category = None\<rparr>"
      obtain e where e: "pg_finish d i ?k = (e, Some ())"
          "inbound_view e = (inbound_view d)(i \<mapsto> v\<lparr>wv_state := In_completed, wv_delivery := Sent\<rparr>)"
        using pg_finish_processing [OF ok v(1,3), of ?k] by auto
      have "handler_key h \<in> set (sent tr)" using ph by (simp add: phase_ok_def At_finish delivering_def)
      moreover have "d' = e" "es = []" "h' = h\<lparr>wh_pc := Returned (Completed (result_name (sr_type y)))\<rparr>"
        using run f At_finish Some e(1) by (simp_all add: advance_def Let_def called_def pg_wecom_def)
      ultimately show ?thesis using e(2) v(2)
        by (intro ends [where u = "v\<lparr>wv_state := In_completed, wv_delivery := Sent\<rparr>" and out = "Completed (result_name (sr_type y))"]) simp_all
    next
      case At_abandon
      let ?k = "\<lparr>wc_state = (if wh_dispatched h then In_indeterminate else In_failed),
          wc_delivery = (if wh_deliveryUncertain h then Indeterminate else Not_sent),
          wc_resultType = wh_resultType h, wc_category = Some (wh_category h)\<rparr>"
      obtain e where e: "pg_finish d i ?k = (e, Some ())"
          "inbound_view e = (inbound_view d)(i \<mapsto> v\<lparr>wv_state := wc_state ?k, wv_delivery := wc_delivery ?k\<rparr>)"
        using pg_finish_processing [OF ok v(1,3), of ?k] by auto
      have "d' = e" "es = []" "h' = h\<lparr>wh_pc := Returned (Blocked (wh_category h))\<rparr>"
        using run f At_abandon Some e(1) by (simp_all add: advance_def Let_def called_def pg_wecom_def)
      then show ?thesis using e(2) v(2,4,5,6)
        by (intro ends [where u = "v\<lparr>wv_state := wc_state ?k, wv_delivery := wc_delivery ?k\<rparr>" and out = "Blocked (wh_category h)"]) simp_all
    next
      case (At_dispatch w c)
      then show ?thesis using run v Some by (intro keep [of _ _ v]) (auto simp: advance_def Let_def)
    next
      case (At_deliver w c y)
      then have "handler_key h \<in> set (dispatched tr)" "wh_deliveryUncertain h" using ph by (simp_all add: phase_ok_def running_def)
      then show ?thesis using run v Some At_deliver by (intro keep [of _ _ v]) (auto simp: advance_def Let_def)
    next
      case (At_confirm w c y)
      then have "handler_key h \<in> set (dispatched tr)" using ph by (simp add: phase_ok_def running_def)
      moreover have "d' = d" "es = []" "h' \<in> {abandon h, abandon_as Identity_unresolved h, h\<lparr>wh_deliveryUncertain := True, wh_pc := At_mark w c y\<rparr>}"
        using run At_confirm by (auto simp: advance_def Let_def split: option.splits if_splits)
      ultimately show ?thesis
        using v Some gone [of "inbound_view d" v Identity_unresolved]
          keep [of "h\<lparr>wh_deliveryUncertain := True, wh_pc := At_mark w c y\<rparr>" "inbound_view d" v tr] by auto
    next
      case At_claim
      then show ?thesis using claimed by simp
    next
      case (Returned out)
      then show ?thesis using live by simp
    qed (use run v(1-3) Some gone [of "inbound_view d" v] keep [of _ "inbound_view d" v tr] v(4-6) in
        \<open>auto simp: advance_def Let_def resolve_call_def split: option.splits if_splits\<close>)
  qed
qed

lemma drive_message: "drive ops sha as r h = (r', h', es) \<Longrightarrow> wh_message h' = wh_message h"
proof (induction as arbitrary: r h es)
  case (Cons x as)
  obtain g a where x: "x = (g, a)" by fastforce
  obtain r1 h1 fs gs where "advance ops sha a (g r) h = (r1, h1, fs)" "drive ops sha as r1 h1 = (r', h', gs)"
    using Cons.prems x by (auto split: prod.splits)
  then show ?case using Cons.IH advance_message by metis
qed simp

lemma drive_faultless:
  assumes "inbox_ok d" and "(wecom_step pg_wecom sha receiver other_work)\<^sup>*\<^sup>* (wecom_initial d) s"
    and "n < length (ws_handlers s)" and "faultless (inbound_view (ws_repo s)) (ws_trace s) (ws_handlers s ! n)"
    and "list_all (\<lambda>(g, a). \<forall>r. other_work r (g r)) as" and "list_all (\<lambda>(g, a). an_fault a = No_fault) as"
    and "drive pg_wecom sha as (ws_repo s) (ws_handlers s ! n) = (d', h', es)"
  shows "faultless (inbound_view d') (ws_trace s @ es) h' \<and> inbound_ok d'"
  using assms(2-)
proof (induction as arbitrary: s es)
  case Nil
  then show ?case using wecom_reachable_ok [OF assms(1) Nil(1)] by simp
next
  case (Cons x as)
  let ?h = "ws_handlers s ! n"
  obtain g a where x: "x = (g, a)" by fastforce
  obtain d1 h1 e1 e2 where one: "advance pg_wecom sha a (g (ws_repo s)) ?h = (d1, h1, e1)"
    and rest: "drive pg_wecom sha as d1 h1 = (d', h', e2)" and es: "es = e1 @ e2"
    using Cons.prems(6) x by (auto split: prod.splits)
  have g: "other_work (ws_repo s) (g (ws_repo s))" and f: "an_fault a = No_fault" using Cons.prems(4,5) x by simp_all
  define s1 where "s1 = s\<lparr>ws_repo := g (ws_repo s)\<rparr>"
  define s2 where "s2 = \<lparr>ws_repo = d1, ws_handlers = (ws_handlers s)[n := h1], ws_trace = ws_trace s @ e1\<rparr>"
  have view: "inbound_view (g (ws_repo s)) = inbound_view (ws_repo s)"
    using g by (simp add: other_work_def inbound_view_def fun_eq_iff)
  have r1: "(wecom_step pg_wecom sha receiver other_work)\<^sup>*\<^sup>* (wecom_initial d) s1"
    using Cons.prems(1) wecom_step.other [of other_work s, OF g] unfolding s1_def by (rule rtranclp.rtrancl_into_rtrancl)
  have "wecom_step pg_wecom sha receiver other_work s1 s2"
    using wecom_step.advance [of n s1 pg_wecom sha a d1 h1 e1] one Cons.prems(2) by (simp add: s1_def s2_def)
  with r1 have r2: "(wecom_step pg_wecom sha receiver other_work)\<^sup>*\<^sup>* (wecom_initial d) s2" by (rule rtranclp.rtrancl_into_rtrancl)
  have "inbound_ok (ws_repo s1)" "recorded (inbound_view (ws_repo s1)) (ws_trace s1)"
    "handler_ok (inbound_view (ws_repo s1)) (ws_trace s1) (ws_handlers s1 ! n)"
    using wecom_reachable_ok [OF assms(1) r1] Cons.prems(2) by (simp_all add: system_ok_def s1_def)
  then have "faultless (inbound_view d1) (ws_trace s @ e1) h1"
    using faultless_step [of "g (ws_repo s)" "ws_trace s" ?h sha a d1 h1 e1] Cons.prems(3) one f view by (simp add: s1_def)
  then show ?case
    using Cons.IH [OF r2, of e2] Cons.prems(2,4,5) rest es by (simp add: s2_def)
qed

text \<open>
  C16. Every call ends, and ends settled. Received in any state that the channel can be in, it returns after at most
  thirteen answers, whatever they are and whatever else happens between them. If no call of the repository is lost, it
  either never got the message (a duplicate, a conflict of payloads, no claim) or leaves the row of its message
  settled: completed and sent exactly for the outcome \<open>Completed\<close>, with the answer handed to the sender; otherwise
  failed and not sent when the agent was not started for the message, and in doubt when it was, with a delivery in
  doubt when the answer was handed over.
\<close>

theorem wecom_handle_settles:
  assumes "inbox_ok d" and "(wecom_step pg_wecom sha receiver other_work)\<^sup>*\<^sup>* (wecom_initial d) s"
    and "n < length (ws_handlers s)" and "ws_handlers s ! n = wecom_start m q"
    and "length as \<ge> 13" and "list_all (\<lambda>(g, a). \<forall>r. other_work r (g r)) as"
    and "drive pg_wecom sha as (ws_repo s) (ws_handlers s ! n) = (d', h', es)"
  shows "\<exists>out. wh_pc h' = Returned out \<and>
    (list_all (\<lambda>(g, a). an_fault a = No_fault) as \<longrightarrow>
       (if wh_claimId h' = None then out \<in> {Duplicate_event, Blocked Payload_conflict, Blocked Dependency_lost}
        else \<exists>x \<in> set (db_inbound d'). wh_claimId h' = Some (ib_id x) \<and> inbound_key x = message_key m \<and>
          (let tr = ws_trace s @ es in
           case out of
             Completed ty \<Rightarrow> ib_state x = In_completed \<and> ib_delivery x = Sent \<and> message_key m \<in> set (sent tr)
           | Blocked c \<Rightarrow> ib_state x = (if message_key m \<in> set (dispatched tr) then In_indeterminate else In_failed) \<and>
               ib_delivery x \<noteq> Sent \<and> (message_key m \<in> set (sent tr) \<longrightarrow> ib_delivery x = Indeterminate) \<and>
               (message_key m \<notin> set (dispatched tr) \<longrightarrow> ib_delivery x = Not_sent)
           | Duplicate_event \<Rightarrow> False)))"
proof -
  have "pc_rank (wh_pc h') = 0"
    using drive_rank [OF assms(7)] assms(4,5) by (simp add: wecom_start_def pc_rank_def)
  then obtain out where out: "wh_pc h' = Returned out" by (cases "wh_pc h'") (simp_all add: pc_rank_def)
  have message: "wh_message h' = m"
    using drive_message [OF assms(7)] assms(4) by (simp add: wecom_start_def)
  have "faultless (inbound_view (ws_repo s)) (ws_trace s) (ws_handlers s ! n)"
    by (simp add: assms(4) wecom_start_def faultless_def)
  note run = drive_faultless [OF assms(1-3) this assms(6) _ assms(7)]
  show ?thesis
  proof (intro exI [of _ out] conjI impI out)
    assume "list_all (\<lambda>(g, a). an_fault a = No_fault) as"
    then have f: "faultless (inbound_view d') (ws_trace s @ es) h'" using run by blast
    show "if wh_claimId h' = None then out \<in> {Duplicate_event, Blocked Payload_conflict, Blocked Dependency_lost}
        else \<exists>x \<in> set (db_inbound d'). wh_claimId h' = Some (ib_id x) \<and> inbound_key x = message_key m \<and>
          (let tr = ws_trace s @ es in
           case out of
             Completed ty \<Rightarrow> ib_state x = In_completed \<and> ib_delivery x = Sent \<and> message_key m \<in> set (sent tr)
           | Blocked c \<Rightarrow> ib_state x = (if message_key m \<in> set (dispatched tr) then In_indeterminate else In_failed) \<and>
               ib_delivery x \<noteq> Sent \<and> (message_key m \<in> set (sent tr) \<longrightarrow> ib_delivery x = Indeterminate) \<and>
               (message_key m \<notin> set (dispatched tr) \<longrightarrow> ib_delivery x = Not_sent)
           | Duplicate_event \<Rightarrow> False)"
    proof (cases "wh_claimId h'")
      case None
      then show ?thesis using f out by (auto simp: faultless_def)
    next
      case (Some i)
      then obtain v where v: "inbound_view d' i = Some v" "wv_key v = message_key m"
        "settled (ws_trace s @ es) (message_key m) out (wv_state v) (wv_delivery v)"
        using f out message by (auto simp: faultless_def)
      obtain x where "x \<in> set (db_inbound d')" "ib_id x = i" "v = row_view x" using inbound_view_Some [OF v(1)] by blast
      then show ?thesis using v(2,3) Some by (cases out) (auto simp: settled_def Let_def intro!: bexI [of _ x])
    qed
  qed
qed

theorem wecom_handle_settles_witness:
  "\<exists>d' h' es. drive pg_wecom (\<lambda>s. s) demo_answers demo_db (wecom_start demo_message (js ''q'')) = (d', h', es) \<and>
     wh_claimId h' \<noteq> None \<and> (\<exists>x \<in> set (db_inbound d'). inbound_key x = message_key demo_message \<and> ib_state x \<noteq> In_processing)"
proof -
  let ?s = "\<lparr>ws_repo = demo_db, ws_handlers = [wecom_start demo_message (js ''q'')], ws_trace = []\<rparr>"
  obtain d' h' es where run: "drive pg_wecom (\<lambda>s. s) demo_answers demo_db (wecom_start demo_message (js ''q'')) = (d', h', es)"
    and fin: "wh_pc h' = Returned (Completed Answered)" using demo_run_outcome by (auto simp: demo_run_def)
  have as: "length demo_answers \<ge> 13" "list_all (\<lambda>(g, a). \<forall>r. other_work r (g r)) demo_answers"
    "list_all (\<lambda>(g, a). an_fault a = No_fault) demo_answers"
    by (simp_all add: demo_answers_def other_work_def list_all_iff demo_answer_def)
  have "if wh_claimId h' = None then Completed Answered \<in> {Duplicate_event, Blocked Payload_conflict, Blocked Dependency_lost}
      else \<exists>x \<in> set (db_inbound d'). inbound_key x = message_key demo_message \<and> ib_state x = In_completed"
    using wecom_handle_settles [OF demo_inbox_ok r_into_rtranclp [of "wecom_step pg_wecom _ _ _", OF demo_received],
        of 0 demo_message "js ''q''" demo_answers d' h' es] run as fin
    by (auto simp: Let_def split: if_splits)
  then show ?thesis using run by (auto split: if_splits)
qed

end
