(* ===== verification/WeComStaffProps.thy ===== *)
theory WeComStaffProps
  imports WeComStaff StoreOpsProps
begin

text \<open>
  What the staff channel guarantees: who decides on a booking and what the decision changes, and that
  over all interleavings of calls a task is decided, acknowledged and reported at most once.
\<close>

declare split_paired_All [simp del] split_paired_Ex [simp del]

section \<open>One pressed button\<close>

lemma bookings_ok_inbound [simp]:
  "bookings_ok (d\<lparr>db_inbound := x\<rparr>) = bookings_ok d" "bookings_ok (draw d) = bookings_ok d"
  by (simp_all add: bookings_ok_def booking_ok_def has_member_def has_customer_conversation_def draw_def)

lemma draw_fields [simp]:
  "db_bookings (draw d) = db_bookings d" "db_inbound (draw d) = db_inbound d"
  "db_notifications (draw d) = db_notifications d" "db_memberships (draw d) = db_memberships d"
  by (simp_all add: draw_def)

lemma settle_claim_fields [simp]:
  "db_bookings (settle_claim i st d) = db_bookings d" "db_notifications (settle_claim i st d) = db_notifications d"
  by (simp_all add: settle_claim_def)

lemma staff_action_parsed:
  assumes "parseBookingTransition (staff_action e b n) = Inr data"
  shows "bt_action data = JStr (if se_eventKey e = js ''booking_confirm'' then js ''confirm'' else js ''cancel'')"
  using assms by (cases "bk_requested b")
    (auto simp: staff_action_def parseBookingTransition_def object_def field_def and_then_Inr Let_def split: if_splits)

text \<open>The shape of a decided or conflicting button: its member, its task and its claim.\<close>

lemma handle_event_Inr:
  assumes "handle_event cfg sha q e d = (d', Inr (status, n))"
  obtains b m ctx task where "event_ok cfg e" "(b, m) \<in> set (staffSelect d cfg)" "cb_subject b = se_userId e"
    "contextFor m q = Inr ctx" "List.find (task_for cfg ctx b (se_taskId e)) (db_notifications d) = Some task"
    "nf_delivery task \<noteq> Rejected"
    "(status = St_duplicate \<and> d' = draw d) \<or>
     (List.find (staff_claim_key cfg (se_taskId e)) (db_inbound d) = None \<and>
      (\<exists>d2. staff_transition ctx e task (draw (d\<lparr>db_inbound := db_inbound d @ [staff_claim_row cfg sha ctx b e (uuid d)]\<rparr>)) =
        (d2, Inr (status, n)) \<and> d' = settle_claim (uuid d) status d2))"
proof -
  have ok: "event_ok cfg e" and run: "handle_in cfg sha q e d = (d', Inr (status, n))"
    using assms by (auto simp: handle_event_def split: if_splits)
  obtain b m where bm: "filter (\<lambda>(b, m). cb_subject b = se_userId e) (staffSelect d cfg) = [(b, m)]"
    using run by (auto simp: handle_in_def split: list.splits)
  note run = run [unfolded handle_in_def bm list.case prod.case]
  obtain ctx where ctx: "contextFor m q = Inr ctx" using run by (auto split: sum.splits)
  note run = run [unfolded ctx sum.case]
  obtain task where task: "List.find (task_for cfg ctx b (se_taskId e)) (db_notifications d) = Some task"
    using run by (auto split: option.splits)
  note run = run [unfolded task option.case]
  have rej: "nf_delivery task \<noteq> Rejected" using run by (auto split: if_splits)
  have "(b, m) \<in> set (staffSelect d cfg) \<and> cb_subject b = se_userId e" using filter_one [OF bm] by simp
  moreover have "(status = St_duplicate \<and> d' = draw d) \<or>
     (List.find (staff_claim_key cfg (se_taskId e)) (db_inbound d) = None \<and>
      (\<exists>d2. staff_transition ctx e task (draw (d\<lparr>db_inbound := db_inbound d @ [staff_claim_row cfg sha ctx b e (uuid d)]\<rparr>)) =
        (d2, Inr (status, n)) \<and> d' = settle_claim (uuid d) status d2))"
    using run rej by (auto split: option.splits if_splits prod.splits sum.splits)
  ultimately show thesis using ok ctx task rej that by blast
qed

lemma staff_transition_Inr:
  assumes "staff_transition ctx e task d = (d', Inr (status, n))"
  obtains (conflict) "status = St_conflict" "d' = d"
  | (decided) k changed where "List.find (booking_at ctx (nf_bookingId task)) (db_bookings d) = Some k"
      "bk_version k = nf_expectedVersion task" "bk_status k = Pending_confirmation"
      "transitionBookingIntent False ctx (bk_id k) (staff_action e k (nf_expectedVersion task)) d = (d', Inr changed)"
      "status = staff_status_of (bd_status changed)" "n = bk_version k + 1"
proof (cases "List.find (booking_at ctx (nf_bookingId task)) (db_bookings d)")
  case (Some k)
  show thesis
  proof (cases "bk_version k = nf_expectedVersion task \<and> bk_status k = Pending_confirmation")
    case True
    then show thesis using assms Some decided by (auto simp: staff_transition_def split: if_splits prod.splits sum.splits)
  next
    case False
    then show thesis using assms Some conflict by (simp add: staff_transition_def)
  qed
qed (use assms in \<open>simp add: staff_transition_def\<close>)

lemma staff_transition_frame:
  assumes "staff_transition ctx e task d = (d', Inr (status, n))"
  shows "db_notifications d' = db_notifications d \<and> db_inbound d' = db_inbound d \<and> status \<noteq> St_duplicate \<and>
    (status = St_conflict \<longrightarrow> d' = d)"
proof -
  have stat: "staff_status_of s \<noteq> St_conflict" "staff_status_of s \<noteq> St_duplicate" for s by (cases s; simp)+
  from assms show ?thesis
  proof (cases rule: staff_transition_Inr)
    case (decided k changed)
    then show ?thesis using stat by (elim transitionBookingIntent_Inr transition_in_Inr) auto
  qed simp
qed

text \<open>
  C19. A pressed button decides a booking only under current authority: the event comes from the
  subject of an active binding whose membership is the only one of its user and may manage
  bookings; the task was offered through that very binding and its card was not refused; the
  booking is pending and still at the version of the card; exactly that booking moves to confirmed
  or cancelled, as the button says, its version growing by one; and no other outcome changes a
  booking.
\<close>

theorem staff_decision_sound:
  assumes "bookings_ok d" and "handle_event cfg sha q e d = (d', Inr (status, n))"
  shows "if status \<in> {St_confirmed, St_cancelled}
    then \<exists>b m task k k'. (b, m) \<in> set (staffSelect d cfg) \<and> cb_subject b = se_userId e \<and> mem_role m \<noteq> Agent \<and>
      task \<in> set (db_notifications d) \<and> nf_taskId task = se_taskId e \<and> nf_bindingId task = cb_id b \<and>
      nf_delivery task \<noteq> Rejected \<and> k \<in> set (db_bookings d) \<and>
      (bk_id k, bk_tenantId k, bk_storeId k) = (nf_bookingId task, mem_tenantId m, mem_storeId m) \<and>
      bk_version k = nf_expectedVersion task \<and> bk_status k = Pending_confirmation \<and>
      (status, bk_status k') = (if se_eventKey e = js ''booking_confirm'' then (St_confirmed, Confirmed) else (St_cancelled, Cancelled)) \<and>
      bk_version k' = bk_version k + 1 \<and> n = bk_version k' \<and> fixed_part k' = fixed_part k \<and>
      db_bookings d' = map (\<lambda>x. if bk_id x = bk_id k then k' else x) (db_bookings d)
    else db_bookings d' = db_bookings d"
  using assms(2)
proof (rule handle_event_Inr)
  fix b m ctx task
  assume bm: "(b, m) \<in> set (staffSelect d cfg)" "cb_subject b = se_userId e" and ctx: "contextFor m q = Inr ctx"
    and task: "List.find (task_for cfg ctx b (se_taskId e)) (db_notifications d) = Some task" "nf_delivery task \<noteq> Rejected"
    and kinds: "(status = St_duplicate \<and> d' = draw d) \<or>
     (List.find (staff_claim_key cfg (se_taskId e)) (db_inbound d) = None \<and>
      (\<exists>d2. staff_transition ctx e task (draw (d\<lparr>db_inbound := db_inbound d @ [staff_claim_row cfg sha ctx b e (uuid d)]\<rparr>)) =
        (d2, Inr (status, n)) \<and> d' = settle_claim (uuid d) status d2))"
  have scope: "scope_tenantId ctx = mem_tenantId m" "scope_storeId ctx = mem_storeId m" and role: "mem_role m \<noteq> Agent"
    using ctx by (auto simp: contextFor_def createSupportExecutionContext_def split: if_splits)
  have t: "task \<in> set (db_notifications d)" "nf_taskId task = se_taskId e" "nf_bindingId task = cb_id b"
    using find_Some_iff' [OF task(1)] by (auto simp: task_for_def)
  let ?d1 = "draw (d\<lparr>db_inbound := db_inbound d @ [staff_claim_row cfg sha ctx b e (uuid d)]\<rparr>)"
  show ?thesis
  proof (cases "status \<in> {St_confirmed, St_cancelled}")
    case True
    with kinds obtain d2 where run: "staff_transition ctx e task ?d1 = (d2, Inr (status, n))" and d': "d' = settle_claim (uuid d) status d2"
      by auto
    from run True obtain k changed where k: "List.find (booking_at ctx (nf_bookingId task)) (db_bookings d) = Some k"
      and pend: "bk_version k = nf_expectedVersion task" "bk_status k = Pending_confirmation"
      and tr: "transitionBookingIntent False ctx (bk_id k) (staff_action e k (nf_expectedVersion task)) ?d1 = (d2, Inr changed)"
      and st: "status = staff_status_of (bd_status changed)" "n = bk_version k + 1"
      by (cases rule: staff_transition_Inr) auto
    have kb: "k \<in> set (db_bookings d)" "booking_at ctx (nf_bookingId task) k" using find_Some_iff' [OF k] by auto
    from tr show ?thesis
    proof (rule transitionBookingIntent_Inr)
      fix data actor
      assume p: "parseBookingTransition (staff_action e k (nf_expectedVersion task)) = Inr data"
        and tin: "transition_in ctx (bk_id k) data actor ?d1 = (d2, Inr changed)"
      have ok: "bookings_ok ?d1" using assms(1) by simp
      from ok tin show ?thesis
      proof (rule transition_in_replaces)
        fix k1 u creator
        assume k1: "k1 \<in> set (db_bookings ?d1)" "booking_at ctx (bk_id k) k1"
          and u: "resolveTransition (bk_status k1) (map_option fst (bk_alternative k1)) (map_option snd (bk_alternative k1)) data = Inr u"
          and d2: "d2 = ?d1\<lparr>db_bookings := map (\<lambda>x. if bk_id x = bk_id k then apply_transition u actor (db_now ?d1) k1 else x) (db_bookings ?d1)\<rparr>"
          and changed: "changed = booking (apply_transition u actor (db_now ?d1) k1) creator"
        let ?k = "apply_transition u actor (db_now ?d1) k1"
        have "k1 = k" using k1 kb assms(1) key_unique [of bk_id "db_bookings d" k1 k]
          by (auto simp: bookings_ok_def booking_at_def)
        then have edge: "tr_status u = (if se_eventKey e = js ''booking_confirm'' then Confirmed else Cancelled)"
          using u pend(2) staff_action_parsed [OF p] by (auto simp: resolveTransition_def is_action_def split: if_splits option.splits)
        have "(status, bk_status ?k) = (if se_eventKey e = js ''booking_confirm'' then (St_confirmed, Confirmed) else (St_cancelled, Cancelled))"
          using edge st(1) changed by (simp add: booking_def)
        moreover have "db_bookings d' = map (\<lambda>x. if bk_id x = bk_id k then ?k else x) (db_bookings d)" by (simp add: d' d2)
        moreover have "bk_version ?k = bk_version k + 1" "n = bk_version ?k" "fixed_part ?k = fixed_part k"
          using \<open>k1 = k\<close> st(2) by simp_all
        moreover have "(bk_id k, bk_tenantId k, bk_storeId k) = (nf_bookingId task, mem_tenantId m, mem_storeId m)"
          using kb(2) scope by (simp add: booking_at_def)
        ultimately show ?thesis unfolding if_P [OF True] using bm role t task(2) kb(1) pend by blast
      qed
    qed
  next
    case False
    then have "db_bookings d' = db_bookings d"
      using kinds staff_transition_frame [of ctx e task ?d1] by (cases status) fastforce+
    then show ?thesis unfolding if_not_P [OF False] .
  qed
qed

section \<open>All calls\<close>

fun card_task :: "staff_effect \<Rightarrow> jstring option" where
  "card_task (Card x) = Some (card_taskId x)"
| "card_task _ = None"

fun decided_task :: "staff_effect \<Rightarrow> jstring option" where
  "decided_task (Decided t s) = Some t"
| "decided_task _ = None"

fun updated_task :: "staff_effect \<Rightarrow> jstring option" where
  "updated_task (Card_update t x) = Some t"
| "updated_task _ = None"

fun told_task :: "staff_effect \<Rightarrow> jstring option" where
  "told_task (Customer_text t m) = Some t"
| "told_task _ = None"

abbreviation tasks_of :: "(staff_effect \<Rightarrow> jstring option) \<Rightarrow> staff_effect list \<Rightarrow> jstring list" where
  "tasks_of f \<equiv> List.map_filter f"

lemma tasks_of_append [simp]: "tasks_of f (xs @ ys) = tasks_of f xs @ tasks_of f ys"
  by (simp add: List.map_filter_def)

lemmas tasks_of_simps [simp] = List.map_filter_simps

text \<open>The tasks of which the database already records a card, a decision or an attempt.\<close>

definition known_tasks :: "db \<Rightarrow> jstring set" where
  "known_tasks d = nf_taskId ` set (db_notifications d)"

definition claimed_tasks :: "staff_config \<Rightarrow> db \<Rightarrow> jstring set" where
  "claimed_tasks cfg d = {t. list_ex (staff_claim_key cfg t) (db_inbound d)}"

definition attempted :: "attempt_column \<Rightarrow> db \<Rightarrow> jstring set" where
  "attempted c d = {t. list_ex (\<lambda>n. nf_taskId n = t \<and> attempt_state c n \<noteq> Not_sent) (db_notifications d)}"

definition tasks_grow :: "staff_config \<Rightarrow> db \<Rightarrow> db \<Rightarrow> bool" where
  "tasks_grow cfg d d' \<longleftrightarrow> distinct (map nf_taskId (db_notifications d')) \<and> known_tasks d \<subseteq> known_tasks d' \<and>
     claimed_tasks cfg d \<subseteq> claimed_tasks cfg d' \<and> (\<forall>c. attempted c d \<subseteq> attempted c d')"

lemma tasks_grow_refl: "distinct (map nf_taskId (db_notifications d)) \<Longrightarrow> tasks_grow cfg d d"
  by (simp add: tasks_grow_def)

lemma same_notifications:
  "db_notifications d' = db_notifications d \<Longrightarrow> known_tasks d' = known_tasks d \<and> attempted c d' = attempted c d"
  by (simp add: known_tasks_def attempted_def)

lemma set_attempt_task [simp]: "nf_taskId (set_attempt c x n) = nf_taskId n"
  by (cases c) auto

lemma attempt_set_attempt: "attempt_state c (set_attempt c' x n) = (if c = c' then x else attempt_state c n)"
  by (cases c; cases c') auto

lemma attempt_frame [simp]:
  "attempt_state c (n\<lparr>nf_delivery := x\<rparr>) = attempt_state c n"
  "attempt_state c (n\<lparr>nf_customer := x\<rparr>) = (if c = Customer_delivery_state then x else attempt_state c n)"
  by (cases c; simp)+

lemma delivery_column_sent [simp]: "delivery_column x \<noteq> Not_sent"
  by (cases x) auto

lemma updated_rows_grow:
  assumes d: "distinct (map nf_taskId (db_notifications d))"
    and d': "d' = d\<lparr>db_notifications := update_where P f (db_notifications d)\<rparr>"
    and f: "\<And>n. nf_taskId (f n) = nf_taskId n" "\<And>n c. P n \<Longrightarrow> attempt_state c n \<noteq> Not_sent \<Longrightarrow> attempt_state c (f n) \<noteq> Not_sent"
  shows "tasks_grow cfg d d'"
proof -
  have ids: "map nf_taskId (db_notifications d') = map nf_taskId (db_notifications d)"
    unfolding d' by (simp add: map_update_where f)
  then have "known_tasks d' = known_tasks d" unfolding known_tasks_def by (metis set_map)
  moreover have "claimed_tasks cfg d' = claimed_tasks cfg d" by (simp add: claimed_tasks_def d')
  moreover have "attempted c d \<subseteq> attempted c d'" for c
  proof
    fix t
    assume "t \<in> attempted c d"
    then obtain n where n: "n \<in> set (db_notifications d)" "nf_taskId n = t" "attempt_state c n \<noteq> Not_sent"
      by (auto simp: attempted_def list_ex_iff)
    then have "(if P n then f n else n) \<in> set (db_notifications d')" by (auto simp: d' update_where_def)
    moreover have "nf_taskId (if P n then f n else n) = t \<and> attempt_state c (if P n then f n else n) \<noteq> Not_sent"
      using n f by simp
    ultimately show "t \<in> attempted c d'" unfolding attempted_def list_ex_iff by blast
  qed
  ultimately show ?thesis using d ids by (simp add: tasks_grow_def)
qed

lemma mark_attempt_grows:
  assumes d: "distinct (map nf_taskId (db_notifications d))" and run: "called f (mark_attempt c t) d = (d', x)"
  shows "tasks_grow cfg d d' \<and> (x = Some True \<longrightarrow> t \<notin> attempted c d \<and> t \<in> attempted c d')"
proof -
  let ?P = "\<lambda>n. nf_taskId n = t \<and> attempt_state c n = Not_sent"
  let ?d = "d\<lparr>db_notifications := update_where ?P (set_attempt c Indeterminate) (db_notifications d)\<rparr>"
  have grow: "tasks_grow cfg d ?d"
    by (rule updated_rows_grow [OF d refl]) (auto simp: attempt_set_attempt)
  have "t \<notin> attempted c d \<and> t \<in> attempted c ?d" if marked: "count_where ?P (db_notifications d) \<noteq> 0"
  proof -
    obtain n where n: "n \<in> set (db_notifications d)" "?P n" using marked unfolding count_where_0 by blast
    have "attempt_state c n' = Not_sent" if "n' \<in> set (db_notifications d)" "nf_taskId n' = t" for n'
      using key_unique [OF d that(1) n(1)] that(2) n(2) by metis
    then have "t \<notin> attempted c d" by (auto simp: attempted_def list_ex_iff)
    moreover have "set_attempt c Indeterminate n \<in> set (db_notifications ?d)" using n by (auto simp: set_update_where)
    then have "t \<in> attempted c ?d"
      using n(2) unfolding attempted_def list_ex_iff by (intro CollectI bexI [of _ "set_attempt c Indeterminate n"]) (simp_all add: attempt_set_attempt)
    ultimately show ?thesis by blast
  qed
  then show ?thesis using run grow tasks_grow_refl [OF d]
    by (auto simp: called_def mark_attempt_def Let_def split: fault.splits)
qed

lemma stores_grow:
  assumes "distinct (map nf_taskId (db_notifications d))"
  shows "tasks_grow cfg d (fst (called f (store_attempt c t x) d))" "tasks_grow cfg d (fst (called f (store_card t x) d))"
    "tasks_grow cfg d (fst (called f (store_unavailable t) d))"
proof -
  note rows = updated_rows_grow [OF assms refl]
  have "tasks_grow cfg d (fst (store_attempt c t x d))" unfolding store_attempt_def fst_conv
    by (rule rows) (auto simp: attempt_set_attempt)
  moreover have "tasks_grow cfg d (fst (store_card t x d))" unfolding store_card_def fst_conv
    by (rule rows) simp_all
  moreover have "tasks_grow cfg d (fst (store_unavailable t d))" unfolding store_unavailable_def fst_conv
    by (rule rows) simp_all
  ultimately show "tasks_grow cfg d (fst (called f (store_attempt c t x) d))" "tasks_grow cfg d (fst (called f (store_card t x) d))"
    "tasks_grow cfg d (fst (called f (store_unavailable t) d))"
    using tasks_grow_refl [OF assms] by (auto simp: called_def split: fault.splits)
qed

lemma claimed_append: "claimed_tasks cfg (draw (d\<lparr>db_inbound := db_inbound d @ [staff_claim_row cfg sha ctx b e i]\<rparr>)) =
    insert (se_taskId e) (claimed_tasks cfg d)"
  by (auto simp: claimed_tasks_def staff_claim_row_def staff_claim_key_def staff_message_id_def)

lemma claimed_settle: "claimed_tasks cfg (settle_claim i st d) = claimed_tasks cfg d"
  unfolding claimed_tasks_def settle_claim_def
  by (simp add: staff_claim_key_def list_ex_update_where)

lemma handle_event_grows:
  assumes d: "distinct (map nf_taskId (db_notifications d))" and run: "handle_event cfg sha q e d = (d', r)"
  shows "tasks_grow cfg d d' \<and> (\<forall>st n. r = Inr (st, n) \<longrightarrow> st \<noteq> St_duplicate \<longrightarrow>
    se_taskId e \<notin> claimed_tasks cfg d \<and> se_taskId e \<in> claimed_tasks cfg d')"
proof (cases r)
  case (Inl x)
  then have "d' = d" using run by (auto simp: handle_event_def dest: transaction_Inl split: if_splits)
  then show ?thesis using Inl tasks_grow_refl [OF d] by simp
next
  case (Inr y)
  obtain st n where y: "y = (st, n)" by (cases y)
  from run [unfolded Inr y] show ?thesis
  proof (rule handle_event_Inr)
    fix b m ctx task
    let ?d1 = "draw (d\<lparr>db_inbound := db_inbound d @ [staff_claim_row cfg sha ctx b e (uuid d)]\<rparr>)"
    assume "(st = St_duplicate \<and> d' = draw d) \<or>
     (List.find (staff_claim_key cfg (se_taskId e)) (db_inbound d) = None \<and>
      (\<exists>d2. staff_transition ctx e task ?d1 = (d2, Inr (st, n)) \<and> d' = settle_claim (uuid d) st d2))"
    then show ?thesis
    proof
      assume "st = St_duplicate \<and> d' = draw d"
      then show ?thesis using d Inr y by (simp add: tasks_grow_def known_tasks_def claimed_tasks_def attempted_def)
    next
      assume "List.find (staff_claim_key cfg (se_taskId e)) (db_inbound d) = None \<and>
        (\<exists>d2. staff_transition ctx e task ?d1 = (d2, Inr (st, n)) \<and> d' = settle_claim (uuid d) st d2)"
      then obtain d2 where new: "se_taskId e \<notin> claimed_tasks cfg d" and t: "staff_transition ctx e task ?d1 = (d2, Inr (st, n))"
        and d': "d' = settle_claim (uuid d) st d2"
        by (auto simp: claimed_tasks_def list_ex_iff find_None_iff)
      have same: "db_notifications d' = db_notifications d" "db_inbound d2 = db_inbound ?d1"
        using staff_transition_frame [OF t] d' by simp_all
      have "claimed_tasks cfg d' = claimed_tasks cfg ?d1"
        unfolding d' claimed_settle using same(2) by (simp add: claimed_tasks_def)
      then show ?thesis using d same(1) same_notifications [OF same(1)] new Inr y
        by (auto simp: tasks_grow_def claimed_append)
    qed
  qed
qed

lemma notify_in_grows:
  assumes d: "distinct (map nf_taskId (db_notifications d))" and run: "transaction True (notify_in cfg ctx i) d = (d', r)"
  shows "tasks_grow cfg d d' \<and> (\<forall>x. r = Inr (Prepared x) \<longrightarrow> card_taskId x \<notin> known_tasks d \<and> card_taskId x \<in> known_tasks d')"
proof (cases r)
  case (Inl x)
  then show ?thesis using run tasks_grow_refl [OF d] by (auto dest: transaction_Inl)
next
  case (Inr y)
  then have run: "notify_in cfg ctx i d = (d', Inr y)" using run by simp
  have grown: "tasks_grow cfg d (draw d)" using d by (simp add: tasks_grow_def known_tasks_def claimed_tasks_def attempted_def)
  have new: "tasks_grow cfg d (draw (d\<lparr>db_notifications := db_notifications d @ [new_task cfg b x (uuid d)]\<rparr>))"
    if "\<not> list_ex (\<lambda>n. nf_taskId n = uuid d) (db_notifications d)" for b x
    using d that by (auto simp: tasks_grow_def known_tasks_def claimed_tasks_def attempted_def new_task_def list_ex_iff)
  show ?thesis using run Inr grown new tasks_grow_refl [OF d]
    by (auto simp: notify_in_def known_tasks_def card_for_def new_task_def list_ex_iff
        split: if_splits option.splits)
qed

text \<open>A call that acts after a decision acts on the decided task.\<close>

fun decision_of :: "staff_pc \<Rightarrow> jstring option" where
  "decision_of (H_feedback e st n) = (if st = St_conflict then None else Some (se_taskId e))"
| "decision_of (H_updated e st) = (if st = St_conflict then None else Some (se_taskId e))"
| "decision_of (H_feedbackStore e st x) = (if st = St_conflict then None else Some (se_taskId e))"
| "decision_of (H_query e st) = Some (se_taskId e)"
| "decision_of (H_unavailable e st) = Some (se_taskId e)"
| "decision_of (H_customer e st row) = Some (se_taskId e)"
| "decision_of _ = None"

lemma decision_after_feedback [simp]:
  "decision_of (after_feedback e st) = (if st = St_conflict then None else Some (se_taskId e))"
  by (simp add: after_feedback_def)

definition call_effects :: "staff_config \<Rightarrow> db \<Rightarrow> staff_pc \<Rightarrow> db \<Rightarrow> staff_pc \<Rightarrow> staff_effect list \<Rightarrow> bool" where
  "call_effects cfg d pc d' pc' es \<longleftrightarrow>
     (es = [] \<or>
      (\<exists>x. es = [Card x] \<and> card_taskId x \<notin> known_tasks d \<and> card_taskId x \<in> known_tasks d') \<or>
      (\<exists>t st. es = [Decided t st] \<and> t \<notin> claimed_tasks cfg d \<and> t \<in> claimed_tasks cfg d') \<or>
      (\<exists>t x. es = [Card_update t x] \<and> t \<notin> attempted Feedback_state d \<and> t \<in> attempted Feedback_state d') \<or>
      (\<exists>t m. es = [Customer_text t m] \<and> t \<notin> attempted Customer_delivery_state d \<and>
        t \<in> attempted Customer_delivery_state d' \<and> decision_of pc = Some t)) \<and>
     (\<forall>t. decision_of pc' = Some t \<longrightarrow> decision_of pc = Some t \<or> (\<exists>st. es = [Decided t st]))"

lemma committed_cases:
  assumes "committed f op d = (d', r)"
  obtains "f = Fail_before" "d' = d" "r = Inl Database_failure"
  | r1 where "f \<noteq> Fail_before" "op d = (d', r1)" "r = r1 \<or> r = Inl Database_failure"
  using assms by (cases f; cases "op d") (auto simp: committed_def)

lemma advance_effects:
  assumes d: "distinct (map nf_taskId (db_notifications d))"
    and run: "staff_advance cfg hasClient sha a d pc = (d', pc', es)"
  shows "tasks_grow cfg d d' \<and> call_effects cfg d pc d' pc' es"
proof (cases pc)
  case (N_prepare ctx i)
  show ?thesis
  proof (cases "isl (boundedId (Some (JStr i)))")
    case False
    obtain d1 r where t: "committed (sa_fault a) (transaction True (notify_in cfg ctx i)) d = (d1, r)" by fastforce
    then have d1: "d' = d1"
      using run N_prepare False by (auto simp: staff_advance_def split: sum.splits prepared.splits)
    have "tasks_grow cfg d d1 \<and> (\<forall>x. r = Inr (Prepared x) \<longrightarrow> card_taskId x \<notin> known_tasks d \<and> card_taskId x \<in> known_tasks d1)"
    proof -
      obtain d2 r2 where n: "transaction True (notify_in cfg ctx i) d = (d2, r2)" by fastforce
      show ?thesis using t n tasks_grow_refl [OF d, of cfg] notify_in_grows [OF d n]
        by (elim committed_cases) (simp_all del: transaction_Inr, blast+)
    qed
    then show ?thesis using run N_prepare False t d1
      by (auto simp: staff_advance_def call_effects_def split: sum.splits prepared.splits)
  qed (use run N_prepare tasks_grow_refl [OF d] in \<open>auto simp: staff_advance_def call_effects_def\<close>)
next
  case (H_transaction e)
  obtain d1 r where t: "committed (sa_fault a) (handle_event cfg sha (sa_requestId a) e) d = (d1, r)" by fastforce
  obtain d2 r2 where h: "handle_event cfg sha (sa_requestId a) e d = (d2, r2)" by fastforce
  have d1: "d' = d1" using run H_transaction t by (auto simp: staff_advance_def split: sum.splits staff_status.splits)
  note grows = handle_event_grows [OF d h]
  have "(sa_fault a = Fail_before \<and> d1 = d \<and> r = Inl Database_failure) \<or>
      (sa_fault a \<noteq> Fail_before \<and> d1 = d2 \<and> (r = r2 \<or> r = Inl Database_failure))"
    using t h by (elim committed_cases) auto
  then show ?thesis
  proof
    assume "sa_fault a = Fail_before \<and> d1 = d \<and> r = Inl Database_failure"
    then show ?thesis using run H_transaction t tasks_grow_refl [OF d]
      by (auto simp: staff_advance_def call_effects_def decided_def)
  next
    assume f: "sa_fault a \<noteq> Fail_before \<and> d1 = d2 \<and> (r = r2 \<or> r = Inl Database_failure)"
    then have dec: "decided cfg sha a e d = (case r2 of Inr (St_confirmed, n) \<Rightarrow> [Decided (se_taskId e) St_confirmed]
        | Inr (St_cancelled, n) \<Rightarrow> [Decided (se_taskId e) St_cancelled] | _ \<Rightarrow> [])"
      using h by (cases "sa_fault a") (auto simp: decided_def split: sum.splits staff_status.splits)
    have es: "es = [] \<or> es = decided cfg sha a e d"
      using run H_transaction t by (auto simp: staff_advance_def split: sum.splits staff_status.splits)
    have pc': "\<forall>u. decision_of pc' = Some u \<longrightarrow> u = se_taskId e \<and> es = decided cfg sha a e d \<and>
        (\<exists>st n. r = Inr (st, n) \<and> st \<noteq> St_conflict \<and> st \<noteq> St_duplicate)"
      using run H_transaction t by (auto simp: staff_advance_def split: sum.splits staff_status.splits)
    show ?thesis
    proof (cases "\<exists>st n. r2 = Inr (st, n) \<and> st \<noteq> St_conflict \<and> st \<noteq> St_duplicate")
      case True
      then obtain st n where st: "r2 = Inr (st, n)" "st \<noteq> St_conflict" "st \<noteq> St_duplicate" by blast
      then have "decided cfg sha a e d = [Decided (se_taskId e) st]" using dec by (cases st) simp_all
      then show ?thesis using es pc' grows st f d1 H_transaction by (auto simp: call_effects_def)
    next
      case False
      then have "decided cfg sha a e d = []" using dec by (auto split: sum.splits staff_status.splits)
      then show ?thesis using es pc' grows False f d1 by (auto simp: call_effects_def)
    qed
  qed
next
  case (H_feedback e st n)
  obtain d1 x where m: "called (sa_fault a) (mark_attempt Feedback_state (se_taskId e)) d = (d1, x)" by fastforce
  show ?thesis using mark_attempt_grows [OF d m, of cfg] run H_feedback m
    by (auto simp: staff_advance_def call_effects_def split: option.splits bool.splits if_splits)
next
  case (H_customer e st row)
  obtain d1 x where m: "called (sa_fault a) (mark_attempt Customer_delivery_state (se_taskId e)) d = (d1, x)" by fastforce
  show ?thesis using mark_attempt_grows [OF d m, of cfg] run H_customer m
    by (auto simp: staff_advance_def call_effects_def split: option.splits bool.splits)
next
  case (N_store t x)
  obtain d1 y where m: "called (sa_fault a) (store_card t x) d = (d1, y)" by fastforce
  show ?thesis using stores_grow(2) [OF d, of cfg "sa_fault a" t x] run N_store m
    by (auto simp: staff_advance_def call_effects_def split: option.splits)
next
  case (H_query e st)
  then show ?thesis using run tasks_grow_refl [OF d]
    by (auto simp: staff_advance_def call_effects_def split: if_splits option.splits)
qed (use run tasks_grow_refl [OF d] stores_grow [OF d] in \<open>auto simp: staff_advance_def call_effects_def\<close>)

definition staff_ok :: "staff_config \<Rightarrow> staff_system \<Rightarrow> bool" where
  "staff_ok cfg s \<longleftrightarrow> (let d = ss_db s; tr = ss_trace s in
     distinct (map nf_taskId (db_notifications d)) \<and>
     distinct (tasks_of card_task tr) \<and> set (tasks_of card_task tr) \<subseteq> known_tasks d \<and>
     distinct (tasks_of decided_task tr) \<and> set (tasks_of decided_task tr) \<subseteq> claimed_tasks cfg d \<and>
     distinct (tasks_of updated_task tr) \<and> set (tasks_of updated_task tr) \<subseteq> attempted Feedback_state d \<and>
     distinct (tasks_of told_task tr) \<and> set (tasks_of told_task tr) \<subseteq> attempted Customer_delivery_state d \<and>
     set (tasks_of told_task tr) \<subseteq> set (tasks_of decided_task tr) \<and>
     (\<forall>pc \<in> set (ss_calls s). \<forall>t. decision_of pc = Some t \<longrightarrow> t \<in> set (tasks_of decided_task tr)))"

text \<open>The rest of the program leaves the tasks alone and forgets no message.\<close>

definition other_staff_work :: "db \<Rightarrow> db \<Rightarrow> bool" where
  "other_staff_work d d' \<longleftrightarrow> db_notifications d' = db_notifications d \<and>
     (\<lambda>x. (ib_corpId x, ib_applicationId x, ib_messageId x)) ` set (db_inbound d) \<subseteq>
       (\<lambda>x. (ib_corpId x, ib_applicationId x, ib_messageId x)) ` set (db_inbound d')"

lemma other_staff_grows:
  assumes "other_staff_work d d'" and "distinct (map nf_taskId (db_notifications d))"
  shows "tasks_grow cfg d d'"
proof -
  have "claimed_tasks cfg d \<subseteq> claimed_tasks cfg d'"
  proof
    fix t
    assume "t \<in> claimed_tasks cfg d"
    then have "(sc_corpId cfg, sc_agentId cfg, staff_message_id t) \<in>
        (\<lambda>x. (ib_corpId x, ib_applicationId x, ib_messageId x)) ` set (db_inbound d')"
      using assms(1) by (force simp: claimed_tasks_def list_ex_iff staff_claim_key_def other_staff_work_def)
    then show "t \<in> claimed_tasks cfg d'" by (auto simp: claimed_tasks_def list_ex_iff staff_claim_key_def)
  qed
  then show ?thesis using assms same_notifications [of d' d] by (simp add: tasks_grow_def other_staff_work_def)
qed

lemma staff_ok_grow:
  "staff_ok cfg s \<Longrightarrow> tasks_grow cfg (ss_db s) d' \<Longrightarrow> staff_ok cfg (s\<lparr>ss_db := d'\<rparr>)"
  unfolding staff_ok_def tasks_grow_def Let_def by simp blast

lemma staff_step_ok:
  assumes "staff_step cfg hasClient sha other_staff_work s s'" and ok: "staff_ok cfg s"
  shows "staff_ok cfg s'"
  using assms(1)
proof cases
  case (notified ctx i)
  then show ?thesis using ok by (simp add: staff_ok_def)
next
  case (pressed e)
  then show ?thesis using ok by (simp add: staff_ok_def)
next
  case (other d')
  have "tasks_grow cfg (ss_db s) d'" using other_staff_grows [OF other(2)] ok by (simp add: staff_ok_def Let_def)
  then show ?thesis using staff_ok_grow [OF ok] other(1) by simp
next
  case (advance n a d' pc' es)
  let ?d = "ss_db s" and ?pc = "ss_calls s ! n" and ?tr = "ss_trace s"
  have d: "distinct (map nf_taskId (db_notifications ?d))" using ok by (simp add: staff_ok_def Let_def)
  note step = advance_effects [OF d advance(3)]
  have held: "decision_of ?pc = Some t \<Longrightarrow> t \<in> set (tasks_of decided_task ?tr)" for t
    using ok nth_mem [OF advance(2)] unfolding staff_ok_def Let_def by blast
  let ?tr' = "?tr @ es"
  have more: "set (tasks_of decided_task ?tr) \<subseteq> set (tasks_of decided_task ?tr')" by simp
  have next_held: "t \<in> set (tasks_of decided_task ?tr')" if "decision_of pc' = Some t" for t
    using step held that by (auto simp: call_effects_def)
  have calls: "t \<in> set (tasks_of decided_task ?tr')" if "pc \<in> set ((ss_calls s)[n := pc'])" "decision_of pc = Some t" for pc t
  proof (cases "pc = pc'")
    case False
    then have "pc \<in> set (ss_calls s)" using that(1) set_update_subset_insert [of "ss_calls s" n pc'] by auto
    then show ?thesis using ok that(2) more unfolding staff_ok_def Let_def by blast
  qed (use next_held that in simp)
  have grow: "known_tasks ?d \<subseteq> known_tasks d'" "claimed_tasks cfg ?d \<subseteq> claimed_tasks cfg d'"
      "attempted Feedback_state ?d \<subseteq> attempted Feedback_state d'"
      "attempted Customer_delivery_state ?d \<subseteq> attempted Customer_delivery_state d'"
      "distinct (map nf_taskId (db_notifications d'))"
    using step unfolding tasks_grow_def by blast+
  have fresh: "distinct (tasks_of f ?tr') \<and> set (tasks_of f ?tr') \<subseteq> K'"
    if "distinct (tasks_of f ?tr)" "set (tasks_of f ?tr) \<subseteq> K" "K \<subseteq> K'"
      and "tasks_of f es = [] \<or> (\<exists>t. tasks_of f es = [t] \<and> t \<notin> K \<and> t \<in> K')" for f K K'
    using that by auto
  have "staff_ok cfg \<lparr>ss_db = d', ss_calls = (ss_calls s)[n := pc'], ss_trace = ?tr'\<rparr>"
    unfolding staff_ok_def Let_def
  proof (intro conjI)
    show "distinct (map nf_taskId (db_notifications (ss_db \<lparr>ss_db = d', ss_calls = (ss_calls s)[n := pc'], ss_trace = ?tr'\<rparr>)))"
      using grow by simp
  qed (use fresh [of card_task "known_tasks ?d" "known_tasks d'"]
      fresh [of decided_task "claimed_tasks cfg ?d" "claimed_tasks cfg d'"]
      fresh [of updated_task "attempted Feedback_state ?d" "attempted Feedback_state d'"]
      fresh [of told_task "attempted Customer_delivery_state ?d" "attempted Customer_delivery_state d'"]
      grow step held calls ok in \<open>auto simp: staff_ok_def Let_def call_effects_def\<close>)
  then show ?thesis using advance(1) by simp
qed

text \<open>
  C20. Over every interleaving of offers and pressed buttons, however often a callback is repeated and
  whatever statements fail, the card of a task is handed out in at most one offer, each task is decided at most once, acknowledged
  on its card at most once, and reported to the customer at most once; and a customer is only told
  about a decided task.
\<close>

theorem staff_tasks_once:
  assumes "(staff_step cfg hasClient sha other_staff_work)\<^sup>*\<^sup>* \<lparr>ss_db = d, ss_calls = [], ss_trace = []\<rparr> s"
    and "distinct (map nf_taskId (db_notifications d))"
  shows "distinct (tasks_of card_task (ss_trace s)) \<and> distinct (tasks_of decided_task (ss_trace s)) \<and>
    distinct (tasks_of updated_task (ss_trace s)) \<and> distinct (tasks_of told_task (ss_trace s)) \<and>
    set (tasks_of told_task (ss_trace s)) \<subseteq> set (tasks_of decided_task (ss_trace s))"
proof -
  have "staff_ok cfg s" using assms(1)
  proof (induction rule: rtranclp_induct)
    case base
    then show ?case using assms(2) by (simp add: staff_ok_def)
  qed (rule staff_step_ok)
  then show ?thesis by (simp add: staff_ok_def Let_def)
qed

section \<open>A run\<close>

text \<open>The supervisor cancels a booking that an agent made; the booking has one task.\<close>

definition press_config :: staff_config where
  "press_config = \<lparr>sc_corpId = js ''w'', sc_agentId = js ''1'', sc_appSecret = [], sc_token = [], sc_encodingAesKey = []\<rparr>"

definition press_event :: staff_event where
  "press_event = \<lparr>se_userId = js ''x'', se_agentId = js ''1'', se_taskId = js ''n'', se_eventKey = js ''booking_cancel'',
     se_responseCode = js ''r''\<rparr>"

definition press_booking :: booking_row where
  "press_booking = demo_booking\<lparr>bk_id := js ''k1''\<rparr>"

definition press_task :: notification where
  "press_task = \<lparr>nf_taskId = js ''n'', nf_bookingId = js ''k1'', nf_tenantId = js ''t'', nf_storeId = js ''s'',
     nf_corpId = js ''w'', nf_applicationId = js ''1'', nf_bindingId = js ''b'', nf_expectedVersion = 1,
     nf_delivery = Accepted, nf_feedback = Not_sent, nf_customer = Not_sent\<rparr>"

definition press_db :: db where
  "press_db = demo_booked\<lparr>db_bookings := [press_booking], db_notifications := [press_task]\<rparr>"

definition press_claimed :: db where
  "press_claimed = draw (press_db\<lparr>db_inbound := db_inbound press_db @
     [staff_claim_row press_config (\<lambda>s. s) demo_supervisor (hd (db_bindings demo_db)) press_event (uuid press_db)]\<rparr>)"

lemma press_ok: "bookings_ok press_db" "distinct (map nf_taskId (db_notifications press_db))"
proof -
  show "bookings_ok press_db"
    using demo_booked_ok by (auto simp: press_db_def press_booking_def tables_ok_def bookings_ok_def demo_booked_rows booking_ok_def
        has_member_def has_customer_conversation_def)
qed (simp add: press_db_def)

lemma press_fields:
  "se_taskId press_event = js ''n''" "se_eventKey press_event = js ''booking_cancel''"
  "db_inbound press_db = []" "db_bookings press_claimed = [press_booking]" "db_notifications press_db = [press_task]"
  "task_for press_config demo_supervisor (hd (db_bindings demo_db)) (js ''n'') press_task"
  "nf_delivery press_task = Accepted"
  by (simp_all add: press_event_def press_db_def press_claimed_def demo_booked_def demo_db_def draw_def
      task_for_def press_config_def press_task_def demo_supervisor_def)

lemma press_event_ok: "event_ok press_config press_event"
  by (simp add: event_ok_def press_event_def press_config_def boundedId_def blank_iff js_simps is_space_def)

lemma press_member:
  "filter (\<lambda>(b, m). cb_subject b = se_userId press_event) (staffSelect press_db press_config) =
     [(hd (db_bindings demo_db), hd (db_memberships demo_db))]"
  by (simp add: staffSelect_def press_db_def demo_booked_def demo_db_def draw_def press_config_def press_event_def
      sole_membership_def count_where_def)

lemma press_context: "contextFor (hd (db_memberships demo_db)) (js ''q'') = Inr demo_supervisor"
  by (simp add: contextFor_def demo_db_def createSupportExecutionContext_def demo_supervisor_def)

lemma press_transition:
  "\<exists>d' dto. transitionBookingIntent False demo_supervisor (js ''k1'') demo_cancel_input press_claimed = (d', Inr dto) \<and>
     bd_status dto = Cancelled"
proof -
  have moved: "transition_in demo_supervisor (js ''k1'') \<lparr>bt_expectedVersion = 1, bt_action = JStr (js ''cancel''), bt_interval = None\<rparr>
      (hd (db_memberships demo_db)) press_claimed =
    (let b = press_booking\<lparr>bk_status := Cancelled, bk_alternative := None, bk_confirmed := None, bk_updatedBy := js ''m1'',
          bk_version := 2, bk_updatedAt := 1000\<rparr>
     in (press_claimed\<lparr>db_bookings := [b]\<rparr>, Inr (booking b (js ''u2''))))"
    by (simp add: transition_in_def press_fields booking_at_def press_booking_def demo_booking_def demo_agent_def demo_supervisor_def
        is_action_def may_cancel_def resolveTransition_def pg_interval_ok_def max_int4_def update_where_def user_of_def
        demo_booked_def demo_db_def press_claimed_def press_db_def apply_transition_def Let_def new_booking_def draw_def)
  have auth: "authority press_claimed demo_supervisor Booking_create (hd (db_memberships demo_db))"
    by (simp add: authority_def demo_supervisor_def press_claimed_def press_db_def demo_booked_def demo_db_def draw_def)
  have "transitionBookingIntent False demo_supervisor (js ''k1'') demo_cancel_input press_claimed =
      transition_in demo_supervisor (js ''k1'') \<lparr>bt_expectedVersion = 1, bt_action = JStr (js ''cancel''), bt_interval = None\<rparr>
        (hd (db_memberships demo_db)) press_claimed"
    using authorized_authority [OF auth, of False]
    by (simp add: transitionBookingIntent_def demo_id demo_parse_cancel is_action_def transaction_def)
  then show ?thesis unfolding moved Let_def by (simp add: booking_def)
qed

lemma press_handled:
  "\<exists>d'. handle_event press_config (\<lambda>s. s) (js ''q'') press_event press_db = (d', Inr (St_cancelled, 2))"
proof -
  obtain d' dto where t: "transitionBookingIntent False demo_supervisor (js ''k1'') demo_cancel_input press_claimed = (d', Inr dto)"
    "bd_status dto = Cancelled"
    using press_transition by blast
  have k: "bk_id press_booking = js ''k1''" "bk_version press_booking = 1" "bk_status press_booking = Pending_confirmation"
    "List.find (booking_at demo_supervisor (js ''k1'')) [press_booking] = Some press_booking"
    "nf_bookingId press_task = js ''k1''" "nf_expectedVersion press_task = 1"
    by (simp_all add: press_booking_def demo_booking_def new_booking_def booking_at_def demo_supervisor_def demo_agent_def press_task_def)
  have "staff_action press_event press_booking 1 = demo_cancel_input"
    by (simp add: staff_action_def press_fields demo_cancel_input_def)
  then have "staff_transition demo_supervisor press_event press_task press_claimed = (d', Inr (St_cancelled, 2))"
    using k(4) by (simp add: staff_transition_def press_fields k(1-3,5,6) t)
  then show ?thesis
    by (simp add: handle_event_def press_event_ok handle_in_def press_member press_context press_fields press_claimed_def)
qed

theorem staff_decision_sound_witness:
  "\<exists>d' k'. handle_event press_config (\<lambda>s. s) (js ''q'') press_event press_db = (d', Inr (St_cancelled, 2)) \<and>
     db_bookings d' = [k'] \<and> bk_status k' = Cancelled \<and> fixed_part k' = fixed_part press_booking"
proof -
  obtain d' where run: "handle_event press_config (\<lambda>s. s) (js ''q'') press_event press_db = (d', Inr (St_cancelled, 2))"
    using press_handled by blast
  have "db_bookings press_db = [press_booking]" by (simp add: press_db_def)
  then show ?thesis using staff_decision_sound [OF press_ok(1) run] run by (auto simp: press_fields)
qed

theorem staff_tasks_once_witness:
  "\<exists>tr. tasks_of decided_task tr = [js ''n''] \<and> distinct (tasks_of decided_task tr) \<and>
     set (tasks_of told_task tr) \<subseteq> set (tasks_of decided_task tr)"
proof -
  let ?step = "staff_step press_config True (\<lambda>s. s) other_staff_work"
  let ?a = "\<lparr>sa_fault = No_fault, sa_requestId = js ''q'', sa_delivery = None, sa_text = Delivered\<rparr>"
  let ?s = "\<lparr>ss_db = press_db, ss_calls = [], ss_trace = []\<rparr>"
  let ?s1 = "?s\<lparr>ss_calls := [H_transaction press_event]\<rparr>"
  obtain d' where run: "handle_event press_config (\<lambda>s. s) (js ''q'') press_event press_db = (d', Inr (St_cancelled, 2))"
    using press_handled by blast
  have "?step ?s ?s1" using staff_step.pressed [of press_config True "\<lambda>s. s" other_staff_work ?s press_event] by simp
  moreover have "staff_advance press_config True (\<lambda>s. s) ?a press_db (H_transaction press_event) =
      (d', H_feedback press_event St_cancelled 2, [Decided (js ''n'') St_cancelled])"
    by (simp add: staff_advance_def committed_def run decided_def press_fields)
  then have "?step ?s1 \<lparr>ss_db = d', ss_calls = [H_feedback press_event St_cancelled 2], ss_trace = [Decided (js ''n'') St_cancelled]\<rparr>"
    using staff_step.advance [of 0 ?s1 press_config True "\<lambda>s. s" ?a] by simp
  ultimately have "?step\<^sup>*\<^sup>* ?s \<lparr>ss_db = d', ss_calls = [H_feedback press_event St_cancelled 2], ss_trace = [Decided (js ''n'') St_cancelled]\<rparr>"
    by (metis (no_types) rtranclp.rtrancl_into_rtrancl rtranclp.rtrancl_refl)
  from staff_tasks_once [OF this press_ok(2)] show ?thesis
    by (intro exI [of _ "[Decided (js ''n'') St_cancelled]"]) simp
qed

end
