(* ===== verification/WebClient.thy ===== *)
theory WebClient
  imports WebDto HttpServing
begin

text \<open>
  The clients of the console: \<open>web/src/storeops/api.ts\<close>, \<open>web/src/session.ts\<close>, \<open>web/src/support.ts\<close>,
  \<open>web/src/business.ts\<close> and the request guards of \<open>web/src/storeops/lifecycle.ts\<close>. \<open>api\<close> is the session's
  request function: it gives \<open>None\<close> where the request rejects, and a response has \<open>None\<close> for a
  body that is no JSON. The body of a request is the value its JSON stands for. A function that
  may reject has the result \<open>None\<close>.
\<close>

section \<open>Requests and outcomes\<close>

record web_request =
  wr_method :: string
  wr_path :: jstring
  wr_headers :: "(string \<times> jstring) list"
  wr_body :: "json option"

record web_response =
  ws_status :: nat
  ws_json :: "json option"

type_synonym session_api = "web_request \<Rightarrow> web_response option"

datatype 'a outcome =
    Success 'a | Conflict jstring string | Missing string | Session_invalidated | Refused | Failed string

definition ok :: "web_response \<Rightarrow> bool" where
  "ok r \<longleftrightarrow> ws_status r \<in> {200..299}"

definition json_header :: "(string \<times> jstring) list" where
  "json_header = [(''content-type'', js ''application/json'')]"

definition get_request :: "jstring \<Rightarrow> web_request" where
  "get_request path = \<lparr>wr_method = ''GET'', wr_path = path, wr_headers = [], wr_body = None\<rparr>"

definition send_request :: "string \<Rightarrow> jstring \<Rightarrow> (string \<times> jstring) list \<Rightarrow> (jstring \<times> json) list \<Rightarrow> web_request" where
  "send_request m path headers body =
     \<lparr>wr_method = m, wr_path = path, wr_headers = json_header @ headers, wr_body = Some (JObj body)\<rparr>"

text \<open>\<open>encodeURIComponent\<close>: \<open>None\<close> where it throws.\<close>

definition unreserved :: "nat \<Rightarrow> bool" where
  "unreserved c \<longleftrightarrow> is_alnum c \<or> c \<in> set (js ''-_.!~*'') \<or> c \<in> {39, 40, 41}"

definition hex_upper :: "nat \<Rightarrow> nat" where
  "hex_upper n = (if n < 10 then 48 + n else 55 + n)"

definition percent_byte :: "byte \<Rightarrow> jstring" where
  "percent_byte b = [37, hex_upper (unat b div 16), hex_upper (unat b mod 16)]"

definition encode_point :: "jstring \<Rightarrow> jstring" where
  "encode_point p = (if list_all unreserved p then p else concat (map percent_byte (utf8_point (point_value p))))"

definition encodeURIComponent :: "jstring \<Rightarrow> jstring option" where
  "encodeURIComponent s = (if is_well_formed s then Some (concat (map encode_point (code_points s))) else None)"

section \<open>Store operations\<close>

definition STOREOPS_BASE :: jstring where
  "STOREOPS_BASE = js ''/api/v1/storeops''"

definition readErrorCode :: "web_response \<Rightarrow> jstring option" where
  "readErrorCode r = (case ws_json r of
      Some (JObj obj) \<Rightarrow> (case field obj ''error'' of Some (JStr s) \<Rightarrow> Some s | _ \<Rightarrow> None)
    | _ \<Rightarrow> None)"

definition verified :: "(json \<Rightarrow> json option) \<Rightarrow> string \<Rightarrow> web_response \<Rightarrow> json outcome" where
  "verified parse unverified r = (case ws_json r of
      None \<Rightarrow> Failed unverified
    | Some v \<Rightarrow> (case parse v of None \<Rightarrow> Failed unverified | Some x \<Rightarrow> Success x))"

definition read_outcome :: "(json \<Rightarrow> json option) \<Rightarrow> string \<Rightarrow> string \<Rightarrow> web_response option \<Rightarrow> json outcome" where
  "read_outcome parse unloaded unverified response =
     (case response of
        None \<Rightarrow> Failed unloaded
      | Some r \<Rightarrow>
          if ws_status r = 401 then Session_invalidated
          else if ws_status r = 403 then Refused
          else if \<not> ok r then Failed unloaded
          else verified parse unverified r)"

definition write_outcome ::
  "(json \<Rightarrow> json option) \<Rightarrow> string \<Rightarrow> string \<Rightarrow> string \<Rightarrow> string \<Rightarrow> string \<Rightarrow> web_response option \<Rightarrow> json outcome" where
  "write_outcome parse unsaved missing code changed unverified response =
     (case response of
        None \<Rightarrow> Failed unsaved
      | Some r \<Rightarrow>
          if ws_status r = 401 then Session_invalidated
          else if ws_status r = 403 then Refused
          else if ws_status r = 404 then Missing missing
          else if ws_status r = 409 then Conflict (case readErrorCode r of None \<Rightarrow> js code | Some c \<Rightarrow> c) changed
          else if \<not> ok r then Failed unsaved
          else verified parse unverified r)"

record availability_draft =
  dv_staffMembershipId :: jstring
  dv_date :: jstring
  dv_expectedVersion :: int
  dv_windows :: "window list"
  dv_status :: jstring

record booking_draft =
  db_idempotencyKey :: jstring
  db_conversationId :: jstring
  db_requestedService :: jstring
  db_requestedStart :: "jstring option"
  db_requestedEnd :: "jstring option"
  db_preferredStaffMembershipId :: "jstring option"

record transition_draft =
  dt_id :: jstring
  dt_expectedVersion :: int
  dt_action :: booking_action
  dt_start :: "jstring option"
  dt_end :: "jstring option"

definition given :: "string \<Rightarrow> jstring option \<Rightarrow> (jstring \<times> json) list" where
  "given key v = (case v of None \<Rightarrow> [] | Some s \<Rightarrow> [(js key, JStr s)])"

definition loadAvailability :: "session_api \<Rightarrow> jstring \<Rightarrow> json outcome" where
  "loadAvailability api date =
     read_outcome parseAvailabilityBoard ''Today's availability could not be loaded.''
       ''Today's availability could not be verified.''
       (case encodeURIComponent date of
          None \<Rightarrow> None | Some d \<Rightarrow> api (get_request (STOREOPS_BASE @ js ''/availability?date='' @ d)))"

definition availability_request :: "availability_draft \<Rightarrow> web_request option" where
  "availability_request draft =
     (case (encodeURIComponent (dv_staffMembershipId draft), encodeURIComponent (dv_date draft)) of
        (Some staff, Some date) \<Rightarrow> Some (send_request ''PUT'' (STOREOPS_BASE @ js ''/availability/'' @ staff @ [47] @ date) []
          [(js ''expectedVersion'', JNum (Num (of_int (dv_expectedVersion draft)))),
           (js ''windows'', JArr (map window_json (dv_windows draft))), (js ''status'', JStr (dv_status draft))])
      | _ \<Rightarrow> None)"

definition saveAvailability :: "session_api \<Rightarrow> availability_draft \<Rightarrow> json outcome option" where
  "saveAvailability api draft =
     map_option (\<lambda>request. write_outcome parseAvailabilityDTO ''The availability change could not be saved.''
         ''That staff member is not available in your scope.'' ''availability_conflict''
         ''This availability changed elsewhere. Reload before editing.''
         ''The availability change could not be verified.'' (api request))
       (availability_request draft)"

definition loadBookingIntents :: "session_api \<Rightarrow> json outcome" where
  "loadBookingIntents api =
     read_outcome parseBookingIntentList ''Booking intents could not be loaded.'' ''Booking intents could not be verified.''
       (api (get_request (STOREOPS_BASE @ js ''/booking-intents'')))"

definition booking_request_of :: "booking_draft \<Rightarrow> web_request" where
  "booking_request_of draft =
     send_request ''POST'' (STOREOPS_BASE @ js ''/booking-intents'') [(''Idempotency-Key'', db_idempotencyKey draft)]
       ([(js ''conversationId'', JStr (db_conversationId draft)), (js ''requestedService'', JStr (db_requestedService draft))] @
        given ''requestedStart'' (db_requestedStart draft) @ given ''requestedEnd'' (db_requestedEnd draft) @
        given ''preferredStaffMembershipId'' (db_preferredStaffMembershipId draft))"

definition with_created :: "web_response option \<Rightarrow> json outcome \<Rightarrow> (json \<times> bool) outcome" where
  "with_created response x = (case x of
      Success v \<Rightarrow> Success (v, map_option ws_status response = Some 201)
    | Conflict c m \<Rightarrow> Conflict c m | Missing m \<Rightarrow> Missing m | Session_invalidated \<Rightarrow> Session_invalidated
    | Refused \<Rightarrow> Refused | Failed m \<Rightarrow> Failed m)"

definition web_createBookingIntent :: "session_api \<Rightarrow> booking_draft \<Rightarrow> (json \<times> bool) outcome" where
  "web_createBookingIntent api draft =
     (let response = api (booking_request_of draft) in
      with_created response (write_outcome parseBookingIntentDTO ''The booking intent could not be recorded.''
        ''The conversation or preferred staff is not available in your scope.'' ''booking_intent_conflict''
        ''That idempotency key was already used for a different request.''
        ''The booking intent could not be verified.'' response))"

definition transition_request :: "transition_draft \<Rightarrow> web_request option" where
  "transition_request draft =
     map_option (\<lambda>i. send_request ''POST'' (STOREOPS_BASE @ js ''/booking-intents/'' @ i @ js ''/transition'') []
         ([(js ''expectedVersion'', JNum (Num (of_int (dt_expectedVersion draft)))),
           (js ''action'', JStr (js (action_text (dt_action draft))))] @
          given ''start'' (dt_start draft) @ given ''end'' (dt_end draft)))
       (encodeURIComponent (dt_id draft))"

text \<open>Here the identifier is encoded inside the \<open>try\<close> block.\<close>

definition web_transitionBookingIntent :: "session_api \<Rightarrow> transition_draft \<Rightarrow> json outcome" where
  "web_transitionBookingIntent api draft =
     write_outcome parseBookingIntentDTO ''The booking intent could not be updated.''
       ''That booking intent is not available in your scope.'' ''booking_intent_conflict''
       ''This booking intent changed elsewhere. Reload before acting.'' ''The booking intent could not be verified.''
       (case transition_request draft of None \<Rightarrow> None | Some request \<Rightarrow> api request)"

definition loadKnowledge :: "session_api \<Rightarrow> json outcome" where
  "loadKnowledge api =
     read_outcome parseKnowledgeList ''Approved knowledge could not be loaded.'' ''Approved knowledge could not be verified.''
       (api (get_request (STOREOPS_BASE @ js ''/knowledge'')))"

definition loadNeedsAttention :: "session_api \<Rightarrow> json outcome" where
  "loadNeedsAttention api =
     read_outcome parseNeedsAttentionList ''Needs Attention could not be loaded.'' ''Needs Attention could not be verified.''
       (api (get_request (STOREOPS_BASE @ js ''/needs-attention'')))"

section \<open>Request guards\<close>

record submit_lifecycle =
  sl_activeRequest :: "nat option"
  sl_nextRequest :: nat

definition newSubmitLifecycle :: submit_lifecycle where
  "newSubmitLifecycle = \<lparr>sl_activeRequest = None, sl_nextRequest = 0\<rparr>"

definition submit_begin :: "submit_lifecycle \<Rightarrow> submit_lifecycle \<times> nat option" where
  "submit_begin l =
     (if sl_activeRequest l \<noteq> None then (l, None)
      else (\<lparr>sl_activeRequest = Some (sl_nextRequest l + 1), sl_nextRequest = sl_nextRequest l + 1\<rparr>,
        Some (sl_nextRequest l + 1)))"

definition submit_complete :: "nat \<Rightarrow> submit_lifecycle \<Rightarrow> submit_lifecycle \<times> bool" where
  "submit_complete request l =
     (if sl_activeRequest l \<noteq> Some request then (l, False) else (l\<lparr>sl_activeRequest := None\<rparr>, True))"

definition submit_invalidate :: "submit_lifecycle \<Rightarrow> submit_lifecycle" where
  "submit_invalidate l = \<lparr>sl_activeRequest = None, sl_nextRequest = sl_nextRequest l + 1\<rparr>"

definition busy :: "submit_lifecycle \<Rightarrow> bool" where
  "busy l \<longleftrightarrow> sl_activeRequest l \<noteq> None"

text \<open>The guard of reads is its counter.\<close>

definition read_begin :: "nat \<Rightarrow> nat \<times> nat" where
  "read_begin active = (active + 1, active + 1)"

definition read_complete :: "nat \<Rightarrow> nat \<Rightarrow> bool" where
  "read_complete request active \<longleftrightarrow> active = request"

definition read_invalidate :: "nat \<Rightarrow> nat" where
  "read_invalidate active = active + 1"

section \<open>Sessions\<close>

datatype session_state =
    Bootstrapping | Authenticating | Unauthenticated "string option" | Invalidated
  | Authenticated json | Authorization_error json

definition member :: "json option \<Rightarrow> string \<Rightarrow> json option" where
  "member v key = (case v of Some (JObj obj) \<Rightarrow> field obj key | _ \<Rightarrow> None)"

definition is_string :: "json option \<Rightarrow> bool" where
  "is_string v = (case v of Some (JStr s) \<Rightarrow> True | _ \<Rightarrow> False)"

definition isIdentityContext :: "json \<Rightarrow> bool" where
  "isIdentityContext v \<longleftrightarrow>
     is_string (member (member (Some v) ''actor'') ''userId'') \<and> is_string (member (member (Some v) ''actor'') ''role'') \<and>
     (case member (member (Some v) ''actor'') ''capabilities'' of
        Some (JArr cs) \<Rightarrow> list_all (\<lambda>c. is_string (Some c)) cs | _ \<Rightarrow> False) \<and>
     is_string (member (member (Some v) ''scope'') ''tenantId'') \<and> is_string (member (member (Some v) ''scope'') ''storeId'') \<and>
     is_string (member (member (Some v) ''request'') ''requestId'')"

definition identityContext :: "web_response \<Rightarrow> json option" where
  "identityContext r = (case ws_json r of Some v \<Rightarrow> if isIdentityContext v then Some v else None | None \<Rightarrow> None)"

definition bootstrapSession :: "session_api \<Rightarrow> session_state option" where
  "bootstrapSession api =
     (case api (get_request (js ''/api/v1/auth/me'')) of
        None \<Rightarrow> Some (Unauthenticated (Some ''Unable to restore the current session.''))
      | Some r \<Rightarrow>
          if ws_status r = 401 then Some (Unauthenticated None)
          else if \<not> ok r then Some (Unauthenticated (Some ''Unable to restore the current session.''))
          else map_option Authenticated (identityContext r))"

definition loginAndReloadSession :: "session_api \<Rightarrow> session_api \<Rightarrow> jstring \<Rightarrow> jstring \<Rightarrow> session_state option" where
  "loginAndReloadSession api reload email password =
     (case api (send_request ''POST'' (js ''/api/v1/auth/login'') [] [(js ''email'', JStr email), (js ''password'', JStr password)]) of
        None \<Rightarrow> Some (Unauthenticated (Some ''Sign-in is unavailable. Try again.''))
      | Some response \<Rightarrow>
          if \<not> ok response then Some (Unauthenticated (Some ''Email or password is not valid.''))
          else bootstrapSession reload)"

definition applyAuthenticatedApiStatus :: "json \<Rightarrow> nat \<Rightarrow> session_state" where
  "applyAuthenticatedApiStatus context status =
     (if status = 401 then Invalidated else if status = 403 then Authorization_error context else Authenticated context)"

definition logoutAndClearSession :: "session_api \<Rightarrow> session_state" where
  "logoutAndClearSession api =
     (case api \<lparr>wr_method = ''POST'', wr_path = js ''/api/v1/auth/logout'', wr_headers = [], wr_body = None\<rparr> of
        Some _ \<Rightarrow> Unauthenticated None
      | None \<Rightarrow> Unauthenticated (Some ''Signed out locally. Server sign-out can be retried.''))"

section \<open>Support and business\<close>

definition isPublicEvidenceReference :: "json \<Rightarrow> bool" where
  "isPublicEvidenceReference v = (case v of
      JObj obj \<Rightarrow> is_string (field obj ''id'') \<and> is_string (field obj ''version'') \<and> is_string (field obj ''sourceRef'') \<and>
        text_at (one_of [''faq'', ''policy'', ''sop'', ''reference'']) obj ''kind''
    | _ \<Rightarrow> False)"

definition customerFacingTools :: "string list" where
  "customerFacingTools = [''search_faq'', ''search_knowledge'', ''create_ticket'', ''handoff_to_human'']"

definition parsePublicSupportResult :: "json \<Rightarrow> json option" where
  "parsePublicSupportResult v = (case v of
      JObj obj \<Rightarrow>
        if \<not> text_at (one_of [''answer'', ''fallback'', ''escalation'']) obj ''type'' then None
        else (case (field obj ''type'', field obj ''text'', field obj ''piSessionId'', field obj ''toolsCalled'', field obj ''evidence'') of
            (Some t, Some (JStr text), Some (JStr s), Some (JArr tools), Some (JArr evidence)) \<Rightarrow>
              if list_all (\<lambda>x. case x of JStr tool \<Rightarrow> one_of customerFacingTools tool | _ \<Rightarrow> False) tools \<and>
                list_all isPublicEvidenceReference evidence
              then Some (JObj [(js ''type'', t), (js ''text'', JStr text), (js ''piSessionId'', JStr s),
                (js ''toolsCalled'', JArr tools), (js ''evidence'', JArr evidence)])
              else None
          | _ \<Rightarrow> None)
    | _ \<Rightarrow> None)"

definition submitSupportRequest :: "session_api \<Rightarrow> jstring \<Rightarrow> jstring \<Rightarrow> jstring \<Rightarrow> json outcome" where
  "submitSupportRequest api conversationId customerId text =
     read_outcome parsePublicSupportResult ''Unable to complete the support request. Try again.''
       ''The support result could not be verified.''
       (api (send_request ''POST'' (js ''/api/v1/support/respond'') []
         [(js ''conversationId'', JStr conversationId), (js ''customerId'', JStr customerId), (js ''text'', JStr text)]))"

definition hasScope :: "(jstring \<times> json) list \<Rightarrow> jstring \<Rightarrow> jstring \<Rightarrow> bool" where
  "hasScope obj tenantId storeId \<longleftrightarrow>
     field obj ''tenantId'' = Some (JStr tenantId) \<and> field obj ''storeId'' = Some (JStr storeId)"

definition scoped_row :: "string list \<Rightarrow> jstring \<Rightarrow> jstring \<Rightarrow> json \<Rightarrow> bool" where
  "scoped_row keys tenantId storeId v = (case v of
      JObj obj \<Rightarrow> hasScope obj tenantId storeId \<and> list_all (\<lambda>key. is_string (field obj key)) keys | _ \<Rightarrow> False)"

definition parse_rows :: "string list \<Rightarrow> jstring \<Rightarrow> jstring \<Rightarrow> json \<Rightarrow> json list option" where
  "parse_rows keys tenantId storeId v = (case v of
      JArr rows \<Rightarrow> if list_all (scoped_row keys tenantId storeId) rows then Some rows else None | _ \<Rightarrow> None)"

definition parseTickets :: "jstring \<Rightarrow> jstring \<Rightarrow> json \<Rightarrow> json list option" where
  "parseTickets = parse_rows [''id'', ''conversationId'', ''summary'', ''idempotencyKey'', ''createdAt'']"

definition parseHandoffs :: "jstring \<Rightarrow> jstring \<Rightarrow> json \<Rightarrow> json list option" where
  "parseHandoffs = parse_rows [''id'', ''conversationId'', ''reason'', ''createdAt'']"

definition loadScopedBusinessProof :: "session_api \<Rightarrow> jstring \<Rightarrow> jstring \<Rightarrow> (json list \<times> json list) outcome" where
  "loadScopedBusinessProof api tenantId storeId =
     (let unavailable = Failed ''Durable business state could not be verified.'' in
      case (api (get_request (js ''/api/v1/tickets'')), api (get_request (js ''/api/v1/handoffs''))) of
        (Some t, Some h) \<Rightarrow>
          if ws_status t = 401 \<or> ws_status h = 401 then Session_invalidated
          else if ws_status t = 403 \<or> ws_status h = 403 then Refused
          else if \<not> ok t \<or> \<not> ok h then unavailable
          else (case (ws_json t, ws_json h) of
              (Some tv, Some hv) \<Rightarrow>
                (case (parseTickets tenantId storeId tv, parseHandoffs tenantId storeId hv) of
                   (Some tickets, Some handoffs) \<Rightarrow> Success (tickets, handoffs)
                 | _ \<Rightarrow> unavailable)
            | _ \<Rightarrow> unavailable)
      | _ \<Rightarrow> unavailable)"

end
