(* ===== verification/WebProps.thy ===== *)
theory WebProps
  imports WebClient StoreOpsProps WeComCryptoProps HttpProps
begin

text \<open>The console against the server: what it offers, sends and accepts.\<close>

section \<open>Drafts of availability\<close>

lemma window_json_object: "object (window_json w) [''start'', ''end''] = Inr [(js ''start'', JStr (fst w)), (js ''end'', JStr (snd w))]"
  by (simp add: object_def window_json_def keys_within_def)

lemma validate_from_parseWindows:
  "validate_from p ws = None \<longleftrightarrow> parseWindows (case p of None \<Rightarrow> [] | Some e \<Rightarrow> e) (map window_json ws) = Inr ws"
proof (induction ws arbitrary: p)
  case (Cons w ws)
  obtain a b where w: "w = (a, b)" by (cases w)
  show ?case using Cons.IH [of "Some b"]
    by (cases p) (auto simp: w window_json_object field_def not_le and_then_Inr split: if_splits)
qed simp

lemma client_windows: "validateWindows ws = None \<longleftrightarrow> length ws \<le> 24 \<and> parseWindows [] (map window_json ws) = Inr ws"
  using validate_from_parseWindows [of None ws] by (simp add: validateWindows_def)

text \<open>
  C39. The console reports no error in a draft of availability exactly when the server, which validates
  the request made from it again, accepts it and keeps the windows, the version and the status
  as they are: between them no draft is lost and none refused that looked valid.
\<close>

theorem client_windows_exact:
  assumes "availability_request draft = Some rq" and "validateDate (Some (JStr (dv_date draft))) = Inr (dv_date draft)"
    and "0 \<le> dv_expectedVersion draft" and "dv_expectedVersion draft \<le> max_safe_integer"
    and "one_of [''published'', ''withdrawn''] (dv_status draft)"
  shows "validateWindows (dv_windows draft) = None \<longleftrightarrow>
    parseAvailabilityWrite (dv_date draft) (the (wr_body rq)) =
      Inr \<lparr>aw_expectedVersion = dv_expectedVersion draft, aw_windows = dv_windows draft, aw_status = JStr (dv_status draft)\<rparr>"
proof -
  let ?kvs = "[(js ''expectedVersion'', JNum (Num (of_int (dv_expectedVersion draft)))),
     (js ''windows'', JArr (map window_json (dv_windows draft))), (js ''status'', JStr (dv_status draft))]"
  have body: "the (wr_body rq) = JObj ?kvs"
    using assms(1) by (auto simp: availability_request_def send_request_def split: option.splits)
  have "object (JObj ?kvs) [''expectedVersion'', ''windows'', ''status''] = Inr ?kvs" by (simp add: object_def keys_within_def)
  moreover have "keyword [''published'', ''withdrawn''] (Some (JStr (dv_status draft)))"
    using assms(5) by (simp add: keyword_def one_of_def)
  moreover have "version (Some (JNum (Num (of_int (dv_expectedVersion draft))))) 0 = Inr (dv_expectedVersion draft)"
    using assms(3,4) by (simp add: version_def as_safe_integer_def)
  ultimately show ?thesis unfolding client_windows body parseAvailabilityWrite_def assms(2)
    by (cases "parseWindows [] (map window_json (dv_windows draft))") (auto simp: field_def)
qed

section \<open>Identifiers in paths\<close>

lemma hex_upper: "n < 16 \<Longrightarrow> is_hex (hex_upper n) \<and> hex_value (hex_upper n) = n"
  by (auto simp: is_hex_def is_lower_hex_def is_digit_def hex_upper_def hex_value_def)

lemma percent_bytes_encoded: "percent_bytes (concat (map percent_byte bs) @ r) = bs @ percent_bytes r"
proof (induction bs)
  case (Cons b bs)
  have "unat b div 16 < 16" "unat b mod 16 < 16" using byte_parts(1) by simp_all
  note h = this [THEN hex_upper]
  have "unat b div 16 * 16 + unat b mod 16 = unat b" by simp
  then have "(of_nat (unat b div 16 * 16 + unat b mod 16) :: byte) = b" by (simp only: of_nat_unat ucast_id)
  then show ?case using Cons h by (simp add: percent_byte_def del: of_nat_add of_nat_mult)
qed simp

lemma length_percent: "length (concat (map percent_byte bs)) = 3 * length bs"
  by (induction bs) (simp_all add: percent_byte_def)

lemma decode_percent:
  assumes "p < 0x110000" and "\<not> (0xD800 \<le> p \<and> p \<le> 0xDFFF)"
  shows "decodeURIComponent (concat (map percent_byte (utf8_point p)) @ r) = map_option ((@) (units_of p)) (decodeURIComponent r)"
proof -
  let ?e = "concat (map percent_byte (utf8_point p))"
  obtain t where t: "?e = 37 # t"
    by (cases "utf8_point p") (simp_all add: percent_byte_def)
  have "percent_bytes (37 # t @ r) = utf8_point p @ percent_bytes r" using percent_bytes_encoded [of "utf8_point p" r] t by simp
  moreover have "drop (3 * length (utf8_point p) - 1) (t @ r) = r"
    using length_percent [of "utf8_point p"] t by simp
  ultimately show ?thesis using utf8_next_point [OF assms, of "percent_bytes r"] t by simp
qed

lemma unreserved_plain: "unreserved c \<Longrightarrow> c \<noteq> 37 \<and> c \<noteq> 47"
  by (auto simp: unreserved_def is_alnum_def is_digit_def js_simps)

lemma decode_encode_single:
  assumes "\<not> (is_high c \<or> is_low c)" and "is_unit c"
  shows "decodeURIComponent (encode_point [c] @ r) = map_option ((#) c) (decodeURIComponent r)"
proof (cases "unreserved c")
  case True
  then show ?thesis using unreserved_plain by (simp add: encode_point_def)
next
  case False
  have "\<not> (0xD800 \<le> c \<and> c \<le> 0xDFFF)" "c < 0x10000" using assms by (auto simp: is_high_def is_low_def is_unit_def)
  then show ?thesis using decode_percent [of c r] False assms(1)
    by (cases "decodeURIComponent r") (simp_all add: encode_point_def units_of_def)
qed

lemma unreserved_ascii: "unreserved c \<Longrightarrow> c < 128"
  by (auto simp: unreserved_def is_alnum_def is_digit_def js_simps)

lemma decode_encode:
  "is_well_formed s \<Longrightarrow> list_all is_unit s \<Longrightarrow> decodeURIComponent (concat (map encode_point (code_points s))) = Some s"
proof (induction s rule: code_points.induct)
  case (2 c)
  then show ?case using decode_encode_single [of c "[]"] by (simp add: is_well_formed_def)
next
  case (3 c d s)
  show ?case
  proof (cases "is_high c \<and> is_low d")
    case True
    then have "decodeURIComponent (concat (map encode_point (code_points s))) = Some s" using 3 by (simp add: is_well_formed_def)
    moreover have "\<not> unreserved c" using unreserved_ascii [of c] True by (auto simp: is_high_def)
    then have "encode_point [c, d] = concat (map percent_byte (utf8_point (point_value [c, d])))"
      by (simp add: encode_point_def del: point_value.simps)
    ultimately show ?thesis
      using decode_percent [of "point_value [c, d]" "concat (map encode_point (code_points s))"] pair_value [of c d] True
      by (simp del: point_value.simps)
  next
    case False
    then have "decodeURIComponent (concat (map encode_point (code_points (d # s)))) = Some (d # s)"
      "\<not> (is_high c \<or> is_low c)" "is_unit c"
      using 3 by (auto simp: is_well_formed_def)
    moreover have "code_points (c # d # s) = [c] # code_points (d # s)" using False by auto
    ultimately show ?thesis using decode_encode_single [of c "concat (map encode_point (code_points (d # s)))"]
      by (simp del: code_points.simps)
  qed
qed simp

lemma encodeURIComponent_decode:
  "encodeURIComponent s = Some e \<Longrightarrow> list_all is_unit s \<Longrightarrow> decodeURIComponent e = Some s"
  using decode_encode by (auto simp: encodeURIComponent_def split: if_splits)

lemma encode_no_slash: "encodeURIComponent s = Some e \<Longrightarrow> 47 \<notin> set e \<and> (e = [] \<longleftrightarrow> s = [])"
proof -
  have byte: "47 \<notin> set (percent_byte b)" for b by (auto simp: percent_byte_def hex_upper_def)
  have "47 \<notin> set (encode_point p)" for p
    using unreserved_plain byte by (auto simp: encode_point_def list_all_iff)
  moreover have "p \<noteq> [] \<Longrightarrow> encode_point p \<noteq> []" for p
    by (simp add: encode_point_def percent_byte_def)
  moreover have "p \<noteq> []" if "p \<in> set (code_points s)" for p
    using that by (induction s rule: code_points.induct) (auto split: if_splits)
  moreover have "code_points s = [] \<longleftrightarrow> s = []" by (cases s rule: code_points.cases) auto
  ultimately show "encodeURIComponent s = Some e \<Longrightarrow> ?thesis"
    by (auto simp: encodeURIComponent_def split: if_splits)
qed

section \<open>The actions offered for a booking\<close>

lemma parse_transition_body:
  assumes "interval (map_option JStr (dt_start draft)) (map_option JStr (dt_end draft)) = Inr iv"
    and "dt_action draft = Cancel \<Longrightarrow> iv = None" and "dt_action draft = Propose_alternative \<Longrightarrow> iv \<noteq> None"
    and "1 \<le> dt_expectedVersion draft" and "dt_expectedVersion draft \<le> max_safe_integer"
    and "transition_request draft = Some rq"
  shows "parseBookingTransition (the (wr_body rq)) =
    Inr \<lparr>bt_expectedVersion = dt_expectedVersion draft, bt_action = JStr (js (action_text (dt_action draft))), bt_interval = iv\<rparr>"
proof -
  let ?kvs = "[(js ''expectedVersion'', JNum (Num (of_int (dt_expectedVersion draft)))),
      (js ''action'', JStr (js (action_text (dt_action draft))))] @ given ''start'' (dt_start draft) @ given ''end'' (dt_end draft)"
  have body: "the (wr_body rq) = JObj ?kvs" using assms(6) by (auto simp: transition_request_def send_request_def)
  have f: "field ?kvs ''start'' = map_option JStr (dt_start draft)" "field ?kvs ''end'' = map_option JStr (dt_end draft)"
    "field ?kvs ''action'' = Some (JStr (js (action_text (dt_action draft))))"
    "field ?kvs ''expectedVersion'' = Some (JNum (Num (of_int (dt_expectedVersion draft))))"
    by (simp_all add: field_def given_def split: option.splits)
  have "keys_within ?kvs [''expectedVersion'', ''action'', ''start'', ''end'']"
    by (simp add: keys_within_def given_def split: option.splits)
  then have o: "object (JObj ?kvs) [''expectedVersion'', ''action'', ''start'', ''end''] = Inr ?kvs" by (simp add: object_def)
  have "version (Some (JNum (Num (of_int (dt_expectedVersion draft))))) 1 = Inr (dt_expectedVersion draft)"
    using assms(4,5) by (simp add: version_def as_safe_integer_def)
  moreover have "keyword [''confirm'', ''propose_alternative'', ''cancel''] (Some (JStr (js (action_text (dt_action draft)))))"
    by (cases "dt_action draft") (simp_all add: keyword_def)
  ultimately show ?thesis using assms(1-3)
    unfolding body parseBookingTransition_def o and_then.simps f
    by (cases "dt_action draft") (auto simp: Let_def is_action_def)
qed

lemma transition_accepted_iff:
  assumes ok: "bookings_ok d" and b: "b \<in> set (db_bookings d)" "booking_at ctx (bk_id b) b"
    and actor: "filter (\<lambda>m. mem_userId m = actor_userId ctx) (db_memberships d) = [actor]"
      "mem_tenantId actor = scope_tenantId ctx" "mem_storeId actor = scope_storeId ctx" "mem_role actor = actor_role ctx"
      "actor_capabilities ctx = capabilitiesForRole (actor_role ctx)"
    and creator: "user_of d (bk_createdBy b) = Some u" and id_ok: "boundedId (Some (JStr (bk_id b))) = Inr (bk_id b)"
    and times: "pg_interval_ok (bk_alternative b)" "pg_interval_ok (bt_interval data)"
    and data: "parseBookingTransition input = Inr data" "bt_expectedVersion data = bk_version b"
  shows "(\<exists>d' dto. transitionBookingIntent True ctx (bk_id b) input d = (d', Inr dto)) \<longleftrightarrow>
    (if is_action (bt_action data) ''cancel'' then Booking_create else Booking_manage) \<in> set (actor_capabilities ctx) \<and>
    (is_action (bt_action data) ''cancel'' \<longrightarrow> may_cancel ctx actor b) \<and>
    (\<exists>t. resolveTransition (bk_status b) (map_option fst (bk_alternative b)) (map_option snd (bk_alternative b)) data = Inr t)"
    (is "?L \<longleftrightarrow> ?cap \<in> _ \<and> ?C \<and> ?R")
proof -
  have found: "List.find (booking_at ctx (bk_id b)) (db_bookings d) = Some b"
  proof -
    obtain x where x: "List.find (booking_at ctx (bk_id b)) (db_bookings d) = Some x"
      using b by (metis find_None_iff option.exhaust)
    then have "x \<in> set (db_bookings d)" "bk_id x = bk_id b" by (auto simp: find_Some_iff booking_at_def)
    then have "x = b" using ok b(1) by (auto simp: bookings_ok_def distinct_map inj_on_def)
    with x show ?thesis by simp
  qed
  have row: "booking_ok d b" using ok b(1) by (simp add: bookings_ok_def)
  then have staff: "\<not> (case bk_preferredStaff b of None \<Rightarrow> False | Some m \<Rightarrow> \<not> scopedStaff d ctx m)"
    using b(2) by (auto simp: booking_ok_def scopedStaff_def booking_at_def split: option.splits)
  have small: "bk_version b \<noteq> max_int4" using row by (auto simp: booking_ok_def rank_def max_int4_def split: booking_status.splits)
  have auth: "authority d ctx ?cap actor \<longleftrightarrow> ?cap \<in> set (actor_capabilities ctx)"
    using actor by (auto simp: authority_def)
  have inside: "(\<exists>d' dto. transition_in ctx (bk_id b) data actor d = (d', Inr dto)) \<longleftrightarrow> ?C \<and> ?R"
  proof
    assume "\<exists>d' dto. transition_in ctx (bk_id b) data actor d = (d', Inr dto)"
    then show "?C \<and> ?R" using found by (auto elim!: transition_in_Inr)
  next
    assume cr: "?C \<and> ?R"
    then obtain t where t: "resolveTransition (bk_status b) (map_option fst (bk_alternative b)) (map_option snd (bk_alternative b)) data = Inr t"
      by blast
    have "tr_alternative t = None \<or> tr_alternative t = bt_interval data"
      "tr_confirmed t = None \<or> tr_confirmed t = bk_alternative b \<or> tr_confirmed t = bt_interval data"
      using resolveTransition_table [OF t] by metis+
    moreover have "pg_interval_ok None" by (simp add: pg_interval_ok_def)
    ultimately have pg: "(\<not> pg_interval_ok (tr_alternative t) \<or> \<not> pg_interval_ok (tr_confirmed t) \<or> bk_version b = max_int4) = False"
      using times small by metis
    have c: "(is_action (bt_action data) ''cancel'' \<and> \<not> may_cancel ctx actor b) = False" using cr by blast
    have v: "(bk_version b \<noteq> bt_expectedVersion data) = False" using data(2) by simp
    have s: "(case bk_preferredStaff b of None \<Rightarrow> False | Some m \<Rightarrow> \<not> scopedStaff d ctx m) = False" using staff by simp
    show "\<exists>d' dto. transition_in ctx (bk_id b) data actor d = (d', Inr dto)"
      unfolding transition_in_def found option.case c v s t sum.case pg if_False Let_def user_of_bookings creator
      by blast
  qed
  have "?L \<longleftrightarrow> authority d ctx ?cap actor \<and> (\<exists>d' dto. transition_in ctx (bk_id b) data actor d = (d', Inr dto))"
    using id_ok data(1) actor(1)
    by (auto simp: transitionBookingIntent_def authorized_Inr authority_def)
  then show ?thesis using auth inside by blast
qed

lemma capability_name_inject [simp]: "capability_name c = capability_name c' \<longleftrightarrow> c = c'"
  by (cases c; cases c') simp_all

lemma shown_capability: "capability_name c \<in> set (sa_capabilities (shown_actor ctx)) \<longleftrightarrow> c \<in> set (actor_capabilities ctx)"
  by (auto simp: shown_actor_def)

lemma shown_authority:
  "canManageBookingIntent (shown_actor ctx) \<longleftrightarrow> Booking_manage \<in> set (actor_capabilities ctx)"
  "canCreateBookingIntent (shown_actor ctx) \<longleftrightarrow> Booking_create \<in> set (actor_capabilities ctx)"
  using shown_capability [of Booking_manage ctx] shown_capability [of Booking_create ctx]
  by (simp_all add: canManageBookingIntent_def canCreateBookingIntent_def)

lemma find_Some: "List.find P xs = Some x \<Longrightarrow> x \<in> set xs \<and> P x"
  by (auto simp: find_Some_iff)

lemma creator_is_actor:
  assumes "filter (\<lambda>m. mem_userId m = actor_userId ctx) (db_memberships d) = [actor]"
    and "distinct (map mem_id (db_memberships d))" and "user_of d i = Some u"
  shows "i = mem_id actor \<longleftrightarrow> u = actor_userId ctx"
proof -
  obtain x where x: "x \<in> set (db_memberships d)" "mem_id x = i" "mem_userId x = u"
    using assms(3) by (auto simp: user_of_def dest!: find_Some)
  have a: "actor \<in> set (db_memberships d)" "mem_userId actor = actor_userId ctx"
    using assms(1) by (metis (mono_tags, lifting) filter_one)+
  have "x = actor" if "mem_id x = mem_id actor" using assms(2) that x(1) a(1) by (auto simp: distinct_map inj_on_def)
  moreover have "x = actor" if "mem_userId x = actor_userId ctx"
  proof -
    have "x \<in> set (filter (\<lambda>m. mem_userId m = actor_userId ctx) (db_memberships d))" using that x(1) by simp
    then show ?thesis unfolding assms(1) by simp
  qed
  ultimately show ?thesis using x a by auto
qed

text \<open>
  C36. For an actor whose session is current, the console offers an action on a booking intent of the
  store exactly when the server carries it out: whatever the status, the role and the creator, the
  request the console makes, with an interval just where it asks for one, succeeds if the
  action is among the permitted ones and is refused if not.
\<close>

theorem permitted_actions_exact:
  assumes "bookings_ok d" and "distinct (map mem_id (db_memberships d))"
    and "b \<in> set (db_bookings d)" and "booking_at ctx (bk_id b) b" and "user_of d (bk_createdBy b) = Some u"
    and actor: "filter (\<lambda>m. mem_userId m = actor_userId ctx) (db_memberships d) = [actor]"
      "mem_tenantId actor = scope_tenantId ctx" "mem_storeId actor = scope_storeId ctx" "mem_role actor = actor_role ctx"
      "actor_capabilities ctx = capabilitiesForRole (actor_role ctx)"
    and draft: "dt_id draft = bk_id b" "dt_expectedVersion draft = bk_version b"
      "interval (map_option JStr (dt_start draft)) (map_option JStr (dt_end draft)) = Inr iv"
      "iv \<noteq> None \<longleftrightarrow> bookingActionNeedsInterval (dt_action draft) (bk_status b)"
      "transition_request draft = Some rq"
    and column: "boundedId (Some (JStr (bk_id b))) = Inr (bk_id b)" "pg_interval_ok (bk_alternative b)" "pg_interval_ok iv"
  shows "dt_action draft \<in> set (permittedBookingActions (shown_actor ctx) (booking b u)) \<longleftrightarrow>
    (\<exists>d' dto. transitionBookingIntent True ctx (bk_id b) (the (wr_body rq)) d = (d', Inr dto))"
proof -
  let ?data = "\<lparr>bt_expectedVersion = bk_version b, bt_action = JStr (js (action_text (dt_action draft))), bt_interval = iv\<rparr>"
  let ?a = "dt_action draft"
  have row: "booking_ok d b" using assms(1,3) by (simp add: bookings_ok_def)
  then have "1 \<le> bk_version b" "bk_version b \<le> max_safe_integer"
    by (auto simp: booking_ok_def rank_def max_safe_integer_def split: booking_status.splits)
  then have parsed: "parseBookingTransition (the (wr_body rq)) = Inr ?data"
    using parse_transition_body [OF draft(3) _ _ _ _ draft(5)] draft(1,2,4) by (cases ?a) auto
  have action: "is_action (bt_action ?data) w \<longleftrightarrow> action_text ?a = w" for w by (simp add: is_action_def)
  have none_empty: "nonempty (Some x) \<longleftrightarrow> x \<noteq> []" for x by (simp add: nonempty_def)
  have stored: "x \<noteq> [] \<and> y \<noteq> []" if "bk_alternative b = Some (x, y)" for x y
    using column(2) that by (auto simp: pg_interval_ok_def pg_date_ok_def year_of_def digits_value_def)
  have alternative: "bk_alternative b \<noteq> None" if "bk_status b = Alternative_proposed"
    using row that by (simp add: booking_ok_def)
  have resolves: "(\<exists>t. resolveTransition (bk_status b) (map_option fst (bk_alternative b)) (map_option snd (bk_alternative b)) ?data = Inr t) \<longleftrightarrow>
      (case ?a of Cancel \<Rightarrow> bk_status b \<noteq> Cancelled
        | Confirm \<Rightarrow> bk_status b = Pending_confirmation \<or> bk_status b = Alternative_proposed
        | Propose_alternative \<Rightarrow> bk_status b = Pending_confirmation)"
    using draft(4) alternative stored unfolding resolveTransition_def action
    by (cases ?a; cases "bk_status b"; cases iv; cases "bk_alternative b") (auto simp: none_empty)
  have mine: "bk_createdBy b = mem_id actor \<longleftrightarrow> u = actor_userId ctx"
    by (rule creator_is_actor [OF actor(1) assms(2,5)])
  have cancels: "may_cancel ctx actor b \<longleftrightarrow>
      Booking_manage \<in> set (actor_capabilities ctx) \<or> (u = actor_userId ctx \<and> bk_status b = Pending_confirmation)"
    using actor(4,5) mine by (auto simp: may_cancel_def)
  have grants: "Booking_manage \<in> set (actor_capabilities ctx) \<longrightarrow> Booking_create \<in> set (actor_capabilities ctx)"
    unfolding actor(5) by (cases "actor_role ctx") simp_all
  have shown: "bd_status (booking b u) = bk_status b" "bd_createdByUserId (booking b u) = u"
    "sa_userId (shown_actor ctx) = actor_userId ctx" by (simp_all add: booking_def shown_actor_def)
  have "pg_interval_ok (bt_interval ?data)" "bt_expectedVersion ?data = bk_version b" using column(3) by simp_all
  note accepted = transition_accepted_iff [OF assms(1,3,4) actor assms(5) column(1,2) this(1) parsed this(2)]
  show ?thesis unfolding accepted resolves action cancels permittedBookingActions_def mayCancel_def shown shown_authority
    using grants by (cases ?a; cases "bk_status b") auto
qed

section \<open>Requests at the server\<close>

text \<open>
  The server has the request: its method, its path without a query, its body and its key, from the
  same origin and with the session of the context.
\<close>

definition carries ::
  "'w http_options \<Rightarrow> 'w storeops_port \<Rightarrow> exec_context \<Rightarrow> web_request \<Rightarrow> http_request \<Rightarrow> jstring \<Rightarrow> 'w \<Rightarrow> bool" where
  "carries opts service ctx rq r requestId w \<longleftrightarrow>
     authenticatedContext opts r requestId w = (w, Inr (Some ctx)) \<and> ho_storeOps opts = Some service \<and>
     hr_url r = Some (wr_path rq, []) \<and> hr_method r = js (wr_method rq) \<and> same_origin (ho_secureCookies opts) r \<and>
     (\<exists>kvs. wr_body rq = Some (JObj kvs) \<and> readJsonBody (ho_parse opts) r = Inr kvs)"

lemma route_of_segments:
  assumes "47 \<notin> set a" "a \<noteq> []"
  shows "storeops_route (js ''/booking-intents/'' @ a @ js ''/transition'') = Transition_of a"
    and "47 \<notin> set b \<Longrightarrow> b \<noteq> [] \<Longrightarrow> storeops_route (js ''/availability/'' @ a @ 47 # b) = Availability_of a b"
proof -
  have "split_on 47 (js ''/booking-intents/'' @ a @ js ''/transition'') = [[], js ''booking-intents'', a, js ''transition'']"
    using split_on_append [of 47 a "js ''transition''"] assms by (simp add: js_simps)
  then show "storeops_route (js ''/booking-intents/'' @ a @ js ''/transition'') = Transition_of a"
    using assms by (auto simp: storeops_route_def js_simps)
  assume b: "47 \<notin> set b" "b \<noteq> []"
  then have "split_on 47 (js ''/availability/'' @ a @ 47 # b) = [[], js ''availability'', a, b]"
    using split_on_append [of 47 a b] assms by (simp add: js_simps split_on_no_sep)
  then show "storeops_route (js ''/availability/'' @ a @ 47 # b) = Availability_of a b"
    using assms b by (auto simp: storeops_route_def js_simps)
qed

lemma storeops_path:
  "storeops_subpath (STOREOPS_BASE @ p) = p" "starts_with (js ''/api/v1/storeops/'') (STOREOPS_BASE @ 47 # p)"
  by (simp_all add: storeops_subpath_def STOREOPS_BASE_def js_simps)

lemma handle_storeOps:
  assumes "hr_url r = Some (STOREOPS_BASE @ 47 # p, q)"
  shows "handleRequest opts r requestId now w = awaited (storeOps opts r (STOREOPS_BASE @ 47 # p) q requestId w)"
proof -
  have "STOREOPS_BASE @ 47 # p \<noteq> js x" if "\<not> starts_with ''/api/v1/storeops/'' x" for x
    using storeops_path(2) [of p] that by (metis starts_with_js)
  then show ?thesis using assms storeops_path(2) [of p] by (simp add: handleRequest_def)
qed

lemma decodeId_encoded:
  assumes "encodeURIComponent i = Some e" and "list_all is_unit i" and "boundedId (Some (JStr i)) = Inr i"
  shows "decodeId e = Inr i" "47 \<notin> set e" "e \<noteq> []"
proof -
  have "i \<noteq> []" using assms(3) by (auto simp: boundedId_def blank_def)
  then show "decodeId e = Inr i" "47 \<notin> set e" "e \<noteq> []"
    using encodeURIComponent_decode [OF assms(1,2)] encode_no_slash [OF assms(1)] assms(3) by (simp_all add: decodeId_def)
qed

lemma carried_write:
  assumes c: "carries opts service ctx rq r requestId w" and path: "wr_path rq = STOREOPS_BASE @ 47 # p"
    and rt: "storeops_route (47 # p) = rt" "wr_method rq \<in> set (storeops_methods rt)" "wr_method rq \<noteq> ''GET''"
      "rt \<noteq> Knowledge_path" "rt \<noteq> Attention_path"
    and cap: "is_transition rt \<or> storeops_capability rt r \<in> set (actor_capabilities ctx)"
  shows "handleRequest opts r requestId now w = awaited (storeops_write opts service rt r ctx w)"
proof -
  have url: "hr_url r = Some (STOREOPS_BASE @ 47 # p, [])" and m: "hr_method r = js (wr_method rq)"
    using c path by (auto simp: carries_def)
  have "storeops_methods rt \<noteq> []" "hr_method r \<in> set (map js (storeops_methods rt))" "hr_method r \<noteq> js ''GET''"
    using rt(2,3) m by auto
  moreover have "storeops_refusal (ho_secureCookies opts) rt r [] ctx = None"
    using c cap rt(4,5) calculation(3) by (auto simp: carries_def storeops_refusal_def storeops_query_ok_def getAll_def)
  ultimately have "storeops_route_for opts r rt [] ctx w = storeops_write opts service rt r ctx w"
    using c rt(4) unfolding storeops_route_for_def carries_def by (auto simp: Let_def)
  then show ?thesis
    unfolding handle_storeOps [OF url] storeOps_def storeops_path(1) rt(1)
    using c by (simp add: carries_def bind_call_def)
qed

text \<open>A write of the console with what the server is to make of its body, and the call of the service.\<close>

datatype console_write =
    Put availability_draft availability_write
  | Create booking_draft booking_create
  | Transition transition_draft booking_transition

fun write_request :: "console_write \<Rightarrow> web_request option" where
  "write_request (Put draft data) = availability_request draft"
| "write_request (Create draft data) = Some (booking_request_of draft)"
| "write_request (Transition draft data) = transition_request draft"

definition usable_id :: "jstring \<Rightarrow> bool" where
  "usable_id i \<longleftrightarrow> list_all is_unit i \<and> boundedId (Some (JStr i)) = Inr i"

fun admitted :: "exec_context \<Rightarrow> http_request \<Rightarrow> console_write \<Rightarrow> json \<Rightarrow> bool" where
  "admitted ctx r (Put draft data) v \<longleftrightarrow> usable_id (dv_staffMembershipId draft) \<and> usable_id (dv_date draft) \<and>
     parseAvailabilityWrite (dv_date draft) v = Inr data \<and> Availability_write \<in> set (actor_capabilities ctx)"
| "admitted ctx r (Create draft data) v \<longleftrightarrow> usable_id (db_idempotencyKey draft) \<and>
     hr_idempotencyKey r = Some (db_idempotencyKey draft) \<and> parseBookingCreate v = Inr data \<and>
     Booking_create \<in> set (actor_capabilities ctx)"
| "admitted ctx r (Transition draft data) v \<longleftrightarrow> usable_id (dt_id draft) \<and> parseBookingTransition v = Inr data \<and>
     (if is_action (bt_action data) ''cancel'' then Booking_create else Booking_manage) \<in> set (actor_capabilities ctx)"

fun service_call :: "'w http_options \<Rightarrow> 'w storeops_port \<Rightarrow> exec_context \<Rightarrow> console_write \<Rightarrow> ('w, http_response) call" where
  "service_call opts service ctx (Put draft data) =
     bind_call (so_putAvailability service ctx (dv_staffMembershipId draft) (dv_date draft) data)
       (\<lambda>x. done_call (sendJson 200 (Availability_body x) []))"
| "service_call opts service ctx (Create draft data) =
     bind_call (so_createBooking service ctx (db_idempotencyKey draft) data) (\<lambda>(intent, duplicate) w.
       (notify_staff opts ctx (bd_id intent) w, Inr (sendJson (if duplicate then 200 else 201) (Booking_body intent) [])))"
| "service_call opts service ctx (Transition draft data) =
     bind_call (so_transition service ctx (dt_id draft) data) (\<lambda>x. done_call (sendJson 200 (Booking_body x) []))"

text \<open>
  C37. What the console sends is what the server does: whatever characters the identifiers hold, an
  admissible write of the console that reaches the server calls the service with exactly the
  identifiers of the draft and the data of its body, for an availability draft as for a new
  booking intent and for a transition, and is answered with the result of the service.
\<close>

theorem client_requests_delivered:
  assumes c: "carries opts service ctx rq r requestId w" and body: "wr_body rq = Some v"
    and rq: "write_request x = Some rq" and adm: "admitted ctx r x v"
  shows "handleRequest opts r requestId now w = awaited (service_call opts service ctx x w)"
proof (cases x)
  case (Put draft data)
  have kvs: "\<exists>kvs. v = JObj kvs \<and> readJsonBody (ho_parse opts) r = Inr kvs" using c body by (auto simp: carries_def)
  obtain a b where e: "encodeURIComponent (dv_staffMembershipId draft) = Some a" "encodeURIComponent (dv_date draft) = Some b"
    "wr_path rq = STOREOPS_BASE @ js ''/availability/'' @ a @ 47 # b" "wr_method rq = ''PUT''"
    using rq Put by (auto simp: availability_request_def send_request_def split: option.splits)
  have "usable_id (dv_staffMembershipId draft)" "usable_id (dv_date draft)" using adm Put by simp_all
  note d = decodeId_encoded [OF e(1)] decodeId_encoded [OF e(2)] this [unfolded usable_id_def]
  have h: "hr_method r = js ''PUT''" using c e(4) by (simp add: carries_def)
  have "handleRequest opts r requestId now w = awaited (storeops_write opts service (Availability_of a b) r ctx w)"
    using route_of_segments(2) [of a b] d e adm Put h
    by (intro carried_write [OF c, of "js ''availability/'' @ a @ 47 # b"]) (simp_all add: js_simps storeops_capability_def)
  then show ?thesis using adm kvs d Put by (auto simp: storeops_write_def bind_call_def lift_result_def done_call_def cong: prod.case_cong sum.case_cong)
next
  case (Create draft data)
  have kvs: "\<exists>kvs. v = JObj kvs \<and> readJsonBody (ho_parse opts) r = Inr kvs" using c body by (auto simp: carries_def)
  have e: "wr_path rq = STOREOPS_BASE @ js ''/booking-intents''" "wr_method rq = ''POST''"
    using rq Create by (auto simp: booking_request_of_def send_request_def)
  have h: "hr_method r = js ''POST''" using c e(2) by (simp add: carries_def)
  have "storeops_route (js ''/booking-intents'') = Bookings_path" by (simp add: storeops_route_def)
  then have "handleRequest opts r requestId now w = awaited (storeops_write opts service Bookings_path r ctx w)"
    using e adm Create h
    by (intro carried_write [OF c, of "js ''booking-intents''"]) (simp_all add: js_simps storeops_capability_def)
  then show ?thesis using adm kvs Create by (auto simp: storeops_write_def bind_call_def lift_result_def done_call_def usable_id_def cong: prod.case_cong sum.case_cong)
next
  case (Transition draft data)
  have kvs: "\<exists>kvs. v = JObj kvs \<and> readJsonBody (ho_parse opts) r = Inr kvs" using c body by (auto simp: carries_def)
  obtain e where e: "encodeURIComponent (dt_id draft) = Some e"
    "wr_path rq = STOREOPS_BASE @ js ''/booking-intents/'' @ e @ js ''/transition''" "wr_method rq = ''POST''"
    using rq Transition by (auto simp: transition_request_def send_request_def)
  have "usable_id (dt_id draft)" using adm Transition by simp
  note d = decodeId_encoded [OF e(1)] this [unfolded usable_id_def]
  have "handleRequest opts r requestId now w = awaited (storeops_write opts service (Transition_of e) r ctx w)"
    using route_of_segments(1) [of e] d e
    by (intro carried_write [OF c, of "js ''booking-intents/'' @ e @ js ''/transition''"]) (simp_all add: js_simps)
  then show ?thesis using adm kvs d Transition by (auto simp: storeops_write_def bind_call_def lift_result_def done_call_def cong: prod.case_cong sum.case_cong)
qed

section \<open>Late responses\<close>

datatype guard_event = Begin | Complete nat | Invalidate

fun guard_step :: "guard_event \<Rightarrow> submit_lifecycle \<Rightarrow> submit_lifecycle" where
  "guard_step Begin l = fst (submit_begin l)"
| "guard_step (Complete t) l = fst (submit_complete t l)"
| "guard_step Invalidate l = submit_invalidate l"

fun read_step :: "guard_event \<Rightarrow> nat \<Rightarrow> nat" where
  "read_step Begin n = fst (read_begin n)"
| "read_step (Complete t) n = n"
| "read_step Invalidate n = read_invalidate n"

lemma settled_guard:
  "t \<le> sl_nextRequest l \<Longrightarrow> sl_activeRequest l \<noteq> Some t \<Longrightarrow>
     t \<le> sl_nextRequest (fold guard_step es l) \<and> sl_activeRequest (fold guard_step es l) \<noteq> Some t"
proof (induction es arbitrary: l)
  case (Cons e es)
  have "t \<le> sl_nextRequest (guard_step e l) \<and> sl_activeRequest (guard_step e l) \<noteq> Some t"
    using Cons.prems by (cases e) (auto simp: submit_begin_def submit_complete_def submit_invalidate_def)
  then show ?case using Cons.IH by simp
qed simp

lemma active_guard:
  "t \<le> sl_nextRequest l \<Longrightarrow> sl_activeRequest l = Some t \<Longrightarrow>
     sl_activeRequest (fold guard_step es l) = Some t \<longleftrightarrow> Invalidate \<notin> set es \<and> Complete t \<notin> set es"
proof (induction es arbitrary: l)
  case (Cons e es)
  show ?case
  proof (cases "e = Invalidate \<or> e = Complete t")
    case True
    then have "t \<le> sl_nextRequest (guard_step e l)" "sl_activeRequest (guard_step e l) \<noteq> Some t"
      using Cons.prems by (auto simp: submit_complete_def submit_invalidate_def)
    then show ?thesis using settled_guard [of t "guard_step e l" es] True by auto
  next
    case False
    then have "guard_step e l = l" using Cons.prems by (cases e) (auto simp: submit_begin_def submit_complete_def)
    then show ?thesis using Cons False by auto
  qed
qed simp

lemma read_guard: "t \<le> n \<Longrightarrow> fold read_step es n = t \<longleftrightarrow> n = t \<and> Begin \<notin> set es \<and> Invalidate \<notin> set es"
proof (induction es arbitrary: n)
  case (Cons e es)
  then show ?case by (cases e) (auto simp: read_begin_def read_invalidate_def)
qed auto

text \<open>
  C40. A late response never repaints: whatever is begun, completed or invalidated in between, in any
  number and order, a submission is committed by its token exactly if the guard was not
  invalidated and the token not used since, and a read exactly if nothing was begun or
  invalidated since; and a second submission cannot begin while one is under way.
\<close>

theorem late_responses_discarded:
  assumes "submit_begin l = (l', Some t)" and "read_begin n = (n', r)"
  shows "(snd (submit_complete t (fold guard_step es l')) \<longleftrightarrow> Invalidate \<notin> set es \<and> Complete t \<notin> set es) \<and>
    (read_complete r (fold read_step es n') \<longleftrightarrow> Begin \<notin> set es \<and> Invalidate \<notin> set es) \<and>
    (Invalidate \<notin> set es \<and> Complete t \<notin> set es \<longrightarrow> snd (submit_begin (fold guard_step es l')) = None)"
proof -
  have l: "t \<le> sl_nextRequest l'" "sl_activeRequest l' = Some t" and n: "n' = r"
    using assms by (auto simp: submit_begin_def read_begin_def split: if_splits)
  show ?thesis using active_guard [OF l, of es] read_guard [of r n' es] n
    by (auto simp: submit_complete_def submit_begin_def read_complete_def)
qed

theorem late_responses_discarded_witness:
  "\<not> snd (submit_complete 1 (fold guard_step [Invalidate, Begin] \<lparr>sl_activeRequest = Some 1, sl_nextRequest = 1\<rparr>)) \<and>
     \<not> read_complete 1 (fold read_step [Invalidate, Begin] 1)"
  using late_responses_discarded [of newSubmitLifecycle "\<lparr>sl_activeRequest = Some 1, sl_nextRequest = 1\<rparr>" 1 0 1 1 "[Invalidate, Begin]"]
  by (simp add: submit_begin_def newSubmitLifecycle_def read_begin_def)

section \<open>Examples\<close>

definition demo_window_draft :: availability_draft where
  "demo_window_draft =
     \<lparr>dv_staffMembershipId = js ''m2'', dv_date = demo_day, dv_expectedVersion = 0,
      dv_windows = [(js ''09:00'', js ''12:30''), (js ''12:30'', js ''18:00'')], dv_status = js ''published''\<rparr>"

lemma demo_windows: "validateWindows (dv_windows demo_window_draft) = None"
  by code_simp

lemma demo_day_text: "demo_day = js ''2024-05-01''"
  by (simp add: demo_day_def show_date_def four_def two_def js_simps)

lemma encode_plain: "list_all unreserved s \<Longrightarrow> encodeURIComponent s = Some s"
proof -
  assume plain: "list_all unreserved s"
  have "code_points s = map (\<lambda>c. [c]) s" using plain
    by (induction s rule: code_points.induct) (auto simp: is_high_def dest: unreserved_ascii)
  moreover have "concat (map (encode_point \<circ> (\<lambda>c. [c])) s) = s"
    using plain by (induction s) (simp_all add: encode_point_def)
  moreover have "is_well_formed s" using plain unreserved_ascii
    unfolding is_well_formed_def calculation(1) by (fastforce simp: is_high_def is_low_def list_all_iff)
  ultimately show ?thesis by (simp add: encodeURIComponent_def)
qed

lemma demo_encoded: "encodeURIComponent demo_day = Some demo_day" "encodeURIComponent (js ''m2'') = Some (js ''m2'')"
  "encodeURIComponent (js ''k1'') = Some (js ''k1'')"
proof -
  have "list_all unreserved (js ''2024-05-01'')" "list_all unreserved (js ''m2'')" "list_all unreserved (js ''k1'')" by code_simp+
  then show "encodeURIComponent demo_day = Some demo_day" "encodeURIComponent (js ''m2'') = Some (js ''m2'')"
    "encodeURIComponent (js ''k1'') = Some (js ''k1'')" by (simp_all add: encode_plain demo_day_text)
qed

theorem client_windows_exact_witness:
  "\<exists>rq. availability_request demo_window_draft = Some rq \<and> parseAvailabilityWrite demo_day (the (wr_body rq)) =
      Inr \<lparr>aw_expectedVersion = 0, aw_windows = dv_windows demo_window_draft, aw_status = JStr (js ''published'')\<rparr>"
proof -
  obtain rq where rq: "availability_request demo_window_draft = Some rq"
    by (simp add: availability_request_def demo_window_draft_def demo_encoded)
  have "validateDate (Some (JStr (dv_date demo_window_draft))) = Inr (dv_date demo_window_draft)"
    by (simp add: demo_window_draft_def demo_day_valid)
  from client_windows_exact [OF rq this] demo_windows rq show ?thesis
    by (simp add: demo_window_draft_def one_of_def max_safe_integer_def)
qed

definition demo_cancel_draft :: transition_draft where
  "demo_cancel_draft = \<lparr>dt_id = js ''k1'', dt_expectedVersion = 1, dt_action = Cancel, dt_start = None, dt_end = None\<rparr>"

lemma demo_cancel_request:
  "transition_request demo_cancel_draft = Some (send_request ''POST'' (js ''/api/v1/storeops/booking-intents/k1/transition'') []
     [(js ''expectedVersion'', JNum (Num 1)), (js ''action'', JStr (js ''cancel''))])"
  by (simp add: transition_request_def demo_cancel_draft_def demo_encoded given_def) (simp add: STOREOPS_BASE_def js_simps)

theorem permitted_actions_exact_witness:
  "\<exists>d' dto. transitionBookingIntent True demo_agent (js ''k1'')
      (JObj [(js ''expectedVersion'', JNum (Num 1)), (js ''action'', JStr (js ''cancel''))])
      (demo_booked\<lparr>db_bookings := [demo_booking\<lparr>bk_id := js ''k1''\<rparr>]\<rparr>) = (d', Inr dto)"
proof -
  let ?b = "demo_booking\<lparr>bk_id := js ''k1''\<rparr>"
  let ?d = "demo_booked\<lparr>db_bookings := [?b]\<rparr>"
  have ok: "bookings_ok ?d"
    using demo_booked_ok by (auto simp: tables_ok_def bookings_ok_def demo_booked_rows booking_ok_def)
  have "Cancel \<in> set (permittedBookingActions (shown_actor demo_agent) (booking ?b (js ''u2'')))"
    unfolding permittedBookingActions_def mayCancel_def shown_authority
    by (simp add: booking_def shown_actor_def demo_agent_def demo_booking_def new_booking_def)
  then show ?thesis
    using permitted_actions_exact [of ?d ?b demo_agent "js ''u2''"
      "\<lparr>mem_id = js ''m2'', mem_userId = js ''u2'', mem_tenantId = js ''t'', mem_storeId = js ''s'', mem_role = Agent, mem_createdAt = 0\<rparr>"
      demo_cancel_draft None, OF ok _ _ _ _ _ _ _ _ _ _ _ _ _ demo_cancel_request] demo_id
    by (simp add: demo_cancel_draft_def demo_booked_def demo_db_def demo_agent_def demo_booking_def new_booking_def draw_def
        booking_at_def user_of_def interval_def pg_interval_ok_def send_request_def)
qed

text \<open>A service that counts its calls, and the cancellation at the server.\<close>

definition demo_port :: "nat storeops_port" where
  "demo_port =
     \<lparr>so_listAvailability = (\<lambda>_ _. demo_call ([], [], [])), so_putAvailability = (\<lambda>_ _ _ _ n. (n, Inl (Store_ops Not_found))),
      so_listBookings = (\<lambda>_. demo_call ([], False)), so_createBooking = (\<lambda>_ _ _ n. (n, Inl (Store_ops Not_found))),
      so_transition = (\<lambda>_ i _. demo_call (booking (demo_booking\<lparr>bk_id := i\<rparr>) (js ''u2''))), so_needsAttention = (\<lambda>_. demo_call ([], False))\<rparr>"

definition demo_cancel_body :: "(jstring \<times> json) list" where
  "demo_cancel_body = [(js ''expectedVersion'', JNum (Num 1)), (js ''action'', JStr (js ''cancel''))]"

definition demo_write_options :: "nat http_options" where
  "demo_write_options = demo_options (Some demo_agent)\<lparr>ho_storeOps := Some demo_port, ho_parse := \<lambda>_. Some (JObj demo_cancel_body)\<rparr>"

lemma demo_carried:
  "carries demo_write_options demo_port demo_agent (send_request ''POST'' (js ''/api/v1/storeops/booking-intents/k1/transition'') [] demo_cancel_body)
     (demo_request ''POST'' ''/api/v1/storeops/booking-intents/k1/transition'') [1] 5"
  by (simp add: carries_def demo_write_options_def send_request_def same_origin_def demo_options_def demo_request_def
      authenticatedContext_def readJsonBody_def body_bytes_def)

theorem client_requests_delivered_witness:
  "handleRequest demo_write_options (demo_request ''POST'' ''/api/v1/storeops/booking-intents/k1/transition'') [1] 0 (5 :: nat) =
     (6, Responded (sendJson 200 (Booking_body (booking (demo_booking\<lparr>bk_id := js ''k1''\<rparr>) (js ''u2''))) []))"
proof -
  let ?data = "\<lparr>bt_expectedVersion = 1, bt_action = JStr (js ''cancel''), bt_interval = None\<rparr>"
  have "interval (map_option JStr (dt_start demo_cancel_draft)) (map_option JStr (dt_end demo_cancel_draft)) = Inr None"
    by (simp add: interval_def demo_cancel_draft_def)
  from parse_transition_body [OF this _ _ _ _ demo_cancel_request]
  have "parseBookingTransition (JObj demo_cancel_body) = Inr ?data"
    by (simp add: demo_cancel_draft_def send_request_def demo_cancel_body_def max_safe_integer_def)
  moreover have "usable_id (js ''k1'')" using demo_id by (simp add: usable_id_def is_unit_def js_simps)
  ultimately have "admitted demo_agent (demo_request ''POST'' ''/api/v1/storeops/booking-intents/k1/transition'')
      (Transition demo_cancel_draft ?data) (JObj demo_cancel_body)"
    by (simp add: is_action_def demo_cancel_draft_def demo_agent_def)
  from client_requests_delivered [OF demo_carried _ _ this, of 0] demo_cancel_request
  show ?thesis
    by (simp add: send_request_def demo_cancel_body_def demo_cancel_draft_def bind_call_def demo_port_def demo_call_def
        done_call_def awaited_def)
qed

end
