(* ===== verification/WebAnswerProps.thy ===== *)
theory WebAnswerProps
  imports WebProps
begin

text \<open>
  The answers of the booking operations at the console: the times and texts of the server pass the
  strict parsers of \<open>WebDto\<close>, over tables that the operations keep presentable.
\<close>

section \<open>Times\<close>

text \<open>A time of a four-digit year; \<open>toISOString\<close> is modelled for no others.\<close>

definition clock_ok :: "date \<Rightarrow> bool" where
  "clock_ok t \<longleftrightarrow> fst (civil (t div 86400000)) < 10000"

lemma is_digit_plus: "n < 10 \<Longrightarrow> is_digit (48 + n)"
  by (simp add: is_digit_def)

lemma digits_of_hundred: "n < 100 \<Longrightarrow> n div 10 < (10::nat)"
  by (simp add: div_less_iff_less_mult)

lemma civil_digits: "fst (snd (civil days)) < 100 \<and> snd (snd (civil days)) < 100"
proof -
  define z where "z = days + 719468"
  define doe where "doe = z mod 146097"
  define yoe where "yoe = (doe - doe div 1460 + doe div 36524 - doe div 146096) div 365"
  define doy where "doy = doe - (365 * yoe + yoe div 4 - yoe div 100)"
  define mp where "mp = (5 * doy + 2) div 153"
  have doe: "0 \<le> doe" "doe \<le> 146096" by (simp_all add: doe_def)
  have yoe: "0 \<le> yoe" "yoe \<le> 400" using doe unfolding yoe_def by linarith+
  define x where "x = doe - doe div 1460 + doe div 36524 - doe div 146096"
  have "doe div 1460 \<le> 100" "doe div 36524 \<ge> 0" "doe div 146096 \<le> 1" using doe by linarith+
  then have "doe \<le> x + 101" by (simp add: x_def)
  moreover have "x < 365 * yoe + 365" unfolding yoe_def x_def [symmetric] by linarith
  moreover have "yoe div 4 \<ge> 0" "yoe div 100 \<le> 4" using yoe by linarith+
  ultimately have doy: "doy \<le> 500" unfolding doy_def by linarith
  have mp: "mp \<le> 20" using doy unfolding mp_def by linarith
  define k where "k = (153 * mp + 2) div 5"
  have "5 * doy + 2 < 153 * mp + 153" unfolding mp_def by linarith
  moreover have "153 * mp + 2 < 5 * k + 5" unfolding k_def by linarith
  ultimately have "doy - k + 1 \<le> 40" by linarith
  moreover have "civil days = (nat (yoe + z div 146097 * 400 + (if (if mp < 10 then mp + 3 else mp - 9) \<le> 2 then 1 else 0)),
      nat (if mp < 10 then mp + 3 else mp - 9), nat (doy - k + 1))"
    by (simp only: civil_def Let_def k_def mp_def doy_def yoe_def doe_def z_def)
  moreover have "nat x < 100" if "x < 100" for x :: int using that by linarith
  ultimately show ?thesis using mp by simp
qed

lemma show_date_shape: "y < 10000 \<Longrightarrow> m < 100 \<Longrightarrow> d < 100 \<Longrightarrow> date_shape (show_date (y, m, d)) \<and> length (show_date (y, m, d)) = 10"
  by (simp add: date_shape_def show_date_def four_def two_def nth_append is_digit_plus div_less_iff_less_mult)

lemma isInstant_digits:
  assumes "date_shape d" and "list_all is_digit [a1, a2, b1, b2, c1, c2, f1, f2, f3]"
  shows "isInstant (d @ [84, a1, a2, 58, b1, b2, 58, c1, c2, 46, f1, f2, f3, 90])"
proof -
  have "length d = 10" using assms(1) by (simp add: date_shape_def)
  moreover have "\<not> is_digit 90" by (simp add: is_digit_def)
  ultimately show ?thesis using assms
    by (simp add: isInstant_def fraction_and_offset_def offset_shape_def)
qed

lemma isInstant_toISOString:
  assumes "clock_ok t" shows "isInstant (toISOString t)"
proof -
  define s where "s = nat (t mod 86400000)"
  obtain y m d where ymd: "civil (t div 86400000) = (y, m, d)" by (metis prod_cases3)
  have "y < 10000" "m < 100" "d < 100" using assms civil_digits [of "t div 86400000"] ymd by (simp_all add: clock_ok_def)
  then have date: "date_shape (show_date (y, m, d))" using show_date_shape by blast
  have "s < 86400000" by (simp add: s_def nat_less_iff)
  then have "s div 3600000 < 100" by (simp add: div_less_iff_less_mult)
  moreover have "s div 60000 mod 60 < 100" "s div 1000 mod 60 < 100" by (rule less_trans [of _ 60], simp, simp)+
  moreover have "s mod 1000 div 100 < 10" by (simp add: div_less_iff_less_mult)
  ultimately show ?thesis
    using isInstant_digits [OF date] digits_of_hundred unfolding toISOString_def ymd s_def [symmetric] Let_def
    by (simp add: two_def three_def is_digit_plus)
qed

section \<open>Canonical instants\<close>

lemma nine_units: "length t \<ge> 9 \<Longrightarrow> \<exists>a0 a1 a2 a3 b1 b2 a6 c1 c2 r. t = a0 # a1 # a2 # a3 # b1 # b2 # a6 # c1 # c2 # r"
  by (auto simp: numeral_eq_Suc Suc_le_length_iff)

lemma padded_fraction:
  "length f \<le> 3 \<Longrightarrow> list_all is_digit f \<Longrightarrow>
     \<exists>f1 f2 f3. f @ replicate (3 - length f) 48 = [f1, f2, f3] \<and> list_all is_digit [f1, f2, f3]"
  by (cases f rule: remdups_adj.cases; cases "tl (tl f)") (auto simp: is_digit_def numeral_eq_Suc)

lemma instant_isInstant:
  assumes "instant v = Inr s" shows "isInstant s"
proof -
  obtain x f where x: "v = Some (JStr x)" "time_shape (drop 10 x) = Some f" "date_shape (take 10 x)"
    "s = take 10 x @ take 9 (drop 10 x) @ [46] @ f @ replicate (3 - length f) 48 @ [90]"
    using assms by (auto simp: instant_def Let_def and_then_Inr split: option.splits json.splits if_splits)
  let ?t = "drop 10 x"
  have t: "length ?t \<ge> 10" "?t ! 0 = 84" "?t ! 3 = 58" "?t ! 6 = 58"
    "list_all is_digit (take 2 (drop 1 ?t) @ take 2 (drop 4 ?t) @ take 2 (drop 7 ?t))"
    and f: "length f \<le> 3" "list_all is_digit f"
    using x(2) by (auto simp: time_shape_def Let_def split: if_splits)
  have "length ?t \<ge> 9" using t(1) by linarith
  from nine_units [OF this] obtain a0 a1 a2 a3 b1 b2 a6 c1 c2 r where
    u: "?t = a0 # a1 # a2 # a3 # b1 # b2 # a6 # c1 # c2 # r" by (elim exE) (rule that)
  obtain f1 f2 f3 where p: "f @ replicate (3 - length f) 48 = [f1, f2, f3]" "list_all is_digit [f1, f2, f3]"
    using padded_fraction [OF f] by blast
  have "s = take 10 x @ [84, a1, a2, 58, b1, b2, 58, c1, c2, 46, f1, f2, f3, 90]"
    using x(4) p(1) t(2-4) unfolding u by simp
  moreover have "list_all is_digit [a1, a2, b1, b2, c1, c2, f1, f2, f3]" using t(5) p(2) unfolding u by simp
  ultimately show ?thesis using isInstant_digits [OF x(3)] by simp
qed

section \<open>Bookings\<close>

text \<open>The texts a row of the booking table, and the tables it is made from, show to the console.\<close>

definition shown_interval :: "(jstring \<times> jstring) option \<Rightarrow> bool" where
  "shown_interval iv = (case iv of None \<Rightarrow> True | Some (a, b) \<Rightarrow> isInstant a \<and> isInstant b)"

definition shown_row :: "booking_row \<Rightarrow> bool" where
  "shown_row b \<longleftrightarrow> bk_id b \<noteq> [] \<and> bk_conversationId b \<noteq> [] \<and> bk_customerId b \<noteq> [] \<and> bk_requestedService b \<noteq> [] \<and>
     bk_preferredStaff b \<noteq> Some [] \<and> 1 \<le> bk_version b \<and> shown_interval (bk_requested b) \<and>
     shown_interval (bk_alternative b) \<and> shown_interval (bk_confirmed b) \<and>
     clock_ok (bk_createdAt b) \<and> clock_ok (bk_updatedAt b)"

definition presentable :: "db \<Rightarrow> bool" where
  "presentable d \<longleftrightarrow> (\<forall>b \<in> set (db_bookings d). shown_row b) \<and> (\<forall>c \<in> set (db_conversations d). cv_customerId c \<noteq> []) \<and>
     (\<forall>m \<in> set (db_memberships d). mem_userId m \<noteq> []) \<and> (\<forall>n. db_uuids d n \<noteq> []) \<and> clock_ok (db_now d)"

lemma JOpt_interval:
  "shown_interval iv \<Longrightarrow> JOpt (map_option fst iv) = JNull \<or> (\<exists>s. JOpt (map_option fst iv) = JStr s \<and> isInstant s)"
  "shown_interval iv \<Longrightarrow> JOpt (map_option snd iv) = JNull \<or> (\<exists>s. JOpt (map_option snd iv) = JStr s \<and> isInstant s)"
  by (auto simp: shown_interval_def JOpt_def split: option.splits)

lemma shown_booking:
  assumes "shown_row b" and "u \<noteq> []"
  shows "isBookingIntentDTO (booking_json (booking b u))"
proof -
  have iv: "shown_interval (bk_requested b)" "shown_interval (bk_alternative b)" "shown_interval (bk_confirmed b)"
    using assms(1) by (simp_all add: shown_row_def)
  have st: "one_of [''pending_confirmation'', ''confirmed'', ''alternative_proposed'', ''cancelled''] (status_text (bk_status b))"
    by (cases "bk_status b") (simp_all add: one_of_def)
  have staff: "JOpt (bk_preferredStaff b) = JNull \<or> (\<exists>s. JOpt (bk_preferredStaff b) = JStr s \<and> s \<noteq> [])"
    using assms(1) by (cases "bk_preferredStaff b") (auto simp: shown_row_def JOpt_def)
  note times = JOpt_interval [OF iv(1)] JOpt_interval [OF iv(2)] JOpt_interval [OF iv(3)]
  have clock: "isInstant (toISOString (bk_createdAt b))" "isInstant (toISOString (bk_updatedAt b))"
    using assms(1) isInstant_toISOString by (simp_all add: shown_row_def)
  have nullable: "nullable_at ok obj key" if "field obj key = Some v" "v = JNull \<or> (\<exists>s. v = JStr s \<and> ok s)" for ok obj key v
    using that by (auto simp: nullable_at_def text_at_def)
  let ?obj = "case booking_json (booking b u) of JObj obj \<Rightarrow> obj"
  have keys: "record_of [''id'', ''conversationId'', ''customerId'', ''requestedService'', ''requestedStart'',
        ''requestedEnd'', ''preferredStaffMembershipId'', ''status'', ''alternativeStart'', ''alternativeEnd'',
        ''confirmedStart'', ''confirmedEnd'', ''createdByUserId'', ''version'', ''createdAt'', ''updatedAt'']
      (booking_json (booking b u)) = Some ?obj"
    by (simp add: record_of_def booking_json_def keys_exactly_def keys_within_def)
  have f: "field ?obj ''requestedStart'' = Some (JOpt (map_option fst (bk_requested b)))"
    "field ?obj ''requestedEnd'' = Some (JOpt (map_option snd (bk_requested b)))"
    "field ?obj ''preferredStaffMembershipId'' = Some (JOpt (bk_preferredStaff b))"
    "field ?obj ''alternativeStart'' = Some (JOpt (map_option fst (bk_alternative b)))"
    "field ?obj ''alternativeEnd'' = Some (JOpt (map_option snd (bk_alternative b)))"
    "field ?obj ''confirmedStart'' = Some (JOpt (map_option fst (bk_confirmed b)))"
    "field ?obj ''confirmedEnd'' = Some (JOpt (map_option snd (bk_confirmed b)))"
    by (simp_all add: booking_json_def field_def booking_def)
  have g: "field ?obj ''id'' = Some (JStr (bk_id b))" "field ?obj ''conversationId'' = Some (JStr (bk_conversationId b))"
    "field ?obj ''customerId'' = Some (JStr (bk_customerId b))" "field ?obj ''requestedService'' = Some (JStr (bk_requestedService b))"
    "field ?obj ''status'' = Some (JStr (status_text (bk_status b)))" "field ?obj ''createdByUserId'' = Some (JStr u)"
    "field ?obj ''version'' = Some (JNum (Num (of_int (bk_version b))))"
    "field ?obj ''createdAt'' = Some (JStr (toISOString (bk_createdAt b)))"
    "field ?obj ''updatedAt'' = Some (JStr (toISOString (bk_updatedAt b)))"
    by (simp_all add: booking_json_def field_def booking_def)
  show ?thesis
    unfolding isBookingIntentDTO_def keys option.case
    using assms st clock nullable [OF f(1) times(1)] nullable [OF f(2) times(2)] nullable [OF f(3) staff]
      nullable [OF f(4) times(3)] nullable [OF f(5) times(4)] nullable [OF f(6) times(5)] nullable [OF f(7) times(6)]
    by (simp add: text_at_def g isPositiveInteger_def shown_row_def)
qed

lemma interval_shown: "interval a b = Inr iv \<Longrightarrow> shown_interval iv"
  by (auto simp: interval_def shown_interval_def and_then_Inr dest: instant_isInstant split: if_split_asm)

lemma parsed_intervals:
  "parseBookingTransition input = Inr data \<Longrightarrow> shown_interval (bt_interval data)"
  "parseBookingCreate input = Inr create \<Longrightarrow> shown_interval (bc_requested create)"
  by (auto simp: parseBookingTransition_def parseBookingCreate_def and_then_Inr Let_def dest: interval_shown split: if_split_asm)

lemma boundedId_nonempty: "boundedId v = Inr i \<Longrightarrow> i \<noteq> []"
  by (auto simp: boundedId_def blank_def split: option.splits json.splits if_splits)

lemma parsed_texts:
  assumes "parseBookingCreate input = Inr data"
  shows "bc_conversationId data \<noteq> [] \<and> bc_requestedService data \<noteq> [] \<and> bc_preferredStaffMembershipId data \<noteq> Some []"
proof -
  obtain kvs where "boundedId (field kvs ''conversationId'') = Inr (bc_conversationId data)"
    "boundedId (field kvs ''requestedService'') = Inr (bc_requestedService data)"
    "(if field kvs ''preferredStaffMembershipId'' = None then Inr None
         else map_sum id Some (boundedId (field kvs ''preferredStaffMembershipId''))) = Inr (bc_preferredStaffMembershipId data)"
    using assms by (auto simp: parseBookingCreate_def and_then_Inr)
  then show ?thesis using boundedId_nonempty
    by (cases "boundedId (field kvs ''preferredStaffMembershipId'')") (auto split: if_split_asm)
qed

lemma user_of_nonempty: "presentable d \<Longrightarrow> user_of d m = Some u \<Longrightarrow> u \<noteq> []"
  by (auto simp: user_of_def presentable_def dest!: find_Some)

lemma shown_interval_None [simp]: "shown_interval None"
  by (simp add: shown_interval_def)

lemma shown_apply:
  "shown_row b \<Longrightarrow> clock_ok now \<Longrightarrow> shown_interval (tr_alternative u) \<Longrightarrow> shown_interval (tr_confirmed u) \<Longrightarrow>
     shown_row (apply_transition u actor now b)"
  by (auto simp: shown_row_def apply_transition_def split: option.splits)

lemma shown_resolved:
  assumes "shown_row b" and "shown_interval (bt_interval data)"
    and t: "resolveTransition (bk_status b) (map_option fst (bk_alternative b)) (map_option snd (bk_alternative b)) data = Inr u"
  shows "shown_interval (tr_alternative u) \<and> shown_interval (tr_confirmed u)"
proof -
  have "tr_alternative u = None \<or> tr_alternative u = bt_interval data"
    "tr_confirmed u = None \<or> tr_confirmed u = bk_alternative b \<or> tr_confirmed u = bt_interval data"
    using resolveTransition_table [OF t] by metis+
  then show ?thesis using assms(1,2) by (auto simp: shown_row_def)
qed

lemma transition_answer_shown:
  assumes p: "presentable d" and "transitionBookingIntent own ctx i input d = (d', Inr dto)"
  shows "presentable d' \<and> isBookingIntentDTO (booking_json dto)"
proof -
  obtain data actor where run: "parseBookingTransition input = Inr data" "transition_in ctx i data actor d = (d', Inr dto)"
    using assms(2) by (auto elim!: transitionBookingIntent_Inr)
  obtain b u creator where t: "List.find (booking_at ctx i) (db_bookings d) = Some b"
    "resolveTransition (bk_status b) (map_option fst (bk_alternative b)) (map_option snd (bk_alternative b)) data = Inr u"
    "d' = d\<lparr>db_bookings := update_where (\<lambda>x. booking_at ctx i x \<and> bk_version x = bk_version b \<and> bk_status x = bk_status b)
        (apply_transition u actor (db_now d)) (db_bookings d)\<rparr>"
    "user_of d (bk_createdBy b) = Some creator" "dto = booking (apply_transition u actor (db_now d) b) creator"
    using run(2) by (elim transition_in_Inr)
  have clock: "clock_ok (db_now d)" using p by (simp add: presentable_def)
  note iv = parsed_intervals(1) [OF run(1)]
  have b: "shown_row b" using p find_Some [OF t(1)] by (simp add: presentable_def)
  note shown = shown_apply [OF _ clock] shown_resolved [OF b iv t(2)]
  have "isBookingIntentDTO (booking_json dto)"
    unfolding t(5) using shown b by (intro shown_booking user_of_nonempty [OF p t(4)]) blast+
  moreover have "\<forall>x \<in> set (db_bookings d'). shown_row x"
    using p shown unfolding t(3) by (auto simp: presentable_def set_update_where)
  ultimately show ?thesis using p t(3) by (simp add: presentable_def)
qed

lemma create_answer_shown:
  assumes p: "presentable d" and "createBookingIntent own sha ctx key input d = (d', Inr (dto, dup))"
  shows "presentable d' \<and> isBookingIntentDTO (booking_json dto)"
proof -
  obtain data actor where run: "parseBookingCreate input = Inr data" "authority d ctx Booking_create actor"
    "create_in sha ctx key data actor d = (d', Inr (dto, dup))"
    using assms(2) by (auto simp: createBookingIntent_Inr)
  have actor: "mem_userId actor \<noteq> []" using p authority_member [OF run(2)] by (auto simp: presentable_def)
  from run(3) show ?thesis
  proof (rule create_in_Inr)
    fix cv b
    assume cv: "List.find (\<lambda>c. cv_tenantId c = scope_tenantId ctx \<and> cv_storeId c = scope_storeId ctx \<and>
       cv_id c = bc_conversationId data) (db_conversations d) = Some cv"
    assume old: "dup \<Longrightarrow> d' = d \<and> List.find (booking_key ctx key) (db_bookings d) = Some b"
    assume new: "\<not> dup \<Longrightarrow> insert_booking ctx b d = (d', Inr (Some b)) \<and>
       b = new_booking ctx key data (cv_customerId cv)
         (first_of (inbound_bindings d ctx (bc_conversationId data))) (creation_hash sha ctx data actor d) actor d"
    assume dto: "dto = booking b (mem_userId actor)"
    have customer: "cv_customerId cv \<noteq> []" using p find_Some [OF cv] by (simp add: presentable_def)
    have "shown_row b \<and> presentable d'"
    proof (cases dup)
      case True
      then show ?thesis using old p find_Some by (fastforce simp: presentable_def)
    next
      case False
      then have b: "shown_row b"
        using new p customer parsed_texts [OF run(1)] parsed_intervals(2) [OF run(1)]
        by (auto simp: shown_row_def presentable_def new_booking_def uuid_def)
      have "d' = draw (d\<lparr>db_bookings := db_bookings d @ [b]\<rparr>) \<or> d' = d"
        using new False by (auto simp: insert_booking_Inr split: if_split_asm)
      then show ?thesis using p b by (auto simp: presentable_def draw_def)
    qed
    then show ?thesis using dto shown_booking [OF _ actor] by blast
  qed
qed

lemma list_answer_shown:
  assumes p: "presentable d" and "listBookingIntents own ctx d = (d', Inr r)"
  shows "d' = d \<and> list_all isBookingIntentDTO (map booking_json (fst r))"
proof -
  let ?rows = "filter (\<lambda>b. bk_tenantId b = scope_tenantId ctx \<and> bk_storeId b = scope_storeId ctx) (db_bookings d)"
  let ?sorted = "newest_first (db_collate d) (\<lambda>r. bk_createdAt (fst r)) (\<lambda>r. bk_id (fst r))
    (List.map_filter (\<lambda>b. map_option (Pair b) (user_of d (bk_createdBy b))) ?rows)"
  have run: "d' = d" "fst r = map (\<lambda>(b, u). booking b u) (take 100 (take 101 ?sorted))"
    using assms(2) by (auto simp: listBookingIntents_def authorized_Inr Let_def)
  have "isBookingIntentDTO (booking_json (booking b u))" if "(b, u) \<in> set (take 100 (take 101 ?sorted))" for b u
  proof -
    have "(b, u) \<in> set ?sorted" using that by (meson in_set_takeD)
    then have "b \<in> set (db_bookings d)" "user_of d (bk_createdBy b) = Some u" by (auto simp: List.map_filter_def)
    then show ?thesis using p shown_booking user_of_nonempty [OF p] by (auto simp: presentable_def)
  qed
  then show ?thesis unfolding run by (auto simp: list_all_iff)
qed

text \<open>
  C38. The console understands every answer about bookings: over tables whose texts are not empty and
  whose times have four-digit years, which every operation preserves, the booking a creation or
  a transition returns and every list of bookings pass the strict parsers of the console as they
  are, so a carried-out operation is never shown as an error.
\<close>

theorem booking_answers_understood:
  assumes "presentable d"
  shows "(\<forall>own ctx i input d' dto. transitionBookingIntent own ctx i input d = (d', Inr dto) \<longrightarrow>
       presentable d' \<and> parseBookingIntentDTO (booking_json dto) = Some (booking_json dto)) \<and>
    (\<forall>own sha ctx key input d' dto dup. createBookingIntent own sha ctx key input d = (d', Inr (dto, dup)) \<longrightarrow>
       presentable d' \<and> parseBookingIntentDTO (booking_json dto) = Some (booking_json dto)) \<and>
    (\<forall>own ctx d' r. listBookingIntents own ctx d = (d', Inr r) \<longrightarrow>
       parseBookingIntentList (bookings_json r) = Some (bookings_json r))"
proof -
  have "parseBookingIntentList (bookings_json r) = Some (bookings_json r)"
    if "list_all isBookingIntentDTO (map booking_json (fst r))" for r
    using that by (simp add: parseBookingIntentList_def parseBoundedList_def bookings_json_def keys_exactly_def keys_within_def field_def)
  then show ?thesis
    using transition_answer_shown [OF assms] create_answer_shown [OF assms] list_answer_shown [OF assms]
    by (simp add: parseBookingIntentDTO_def)
qed

lemma demo_presentable: "presentable demo_db"
proof -
  have "clock_ok 1000" by (simp add: clock_ok_def civil_epoch)
  then show ?thesis by (simp add: presentable_def demo_db_def)
qed

theorem booking_answers_understood_witness:
  "parseBookingIntentDTO (booking_json (booking demo_booking (js ''u2''))) = Some (booking_json (booking demo_booking (js ''u2'')))"
  using booking_answers_understood [OF demo_presentable] demo_created [of True] by blast

end
