(* ===== verification/Spec2Isabelle.thy ===== *)
theory Spec2Isabelle
  imports AgentProfile AppServices AuthService Business Bytes CanonicalJson Composition CompositionProps Database DemoData DemoRuntime EnterpriseHttp EvalMetrics EvalPopulation FastApiRetrieval HttpProps HttpServing Identity JsonText Knowledge Migrations PgIdentity PortfolioHttp Prelude RagProps RagRegistry RealPolicy Regex RetrievalEval Runtime RuntimeGrounding RuntimeProps Safety SemanticSelector StaffProtocol StoreOps StoreOpsContracts StoreOpsProps SupportStore WeCom WeComClient WeComCrypto WeComCryptoProps WeComCustomer WeComCustomerProps WeComOutcome WeComProps WeComStaff WeComStaffProps WebAnswerProps WebClient WebDto WebProps 
begin

text \<open>
  A model of the customer-support agent and its store-operations back end (TypeScript, under
  \<open>src/\<close>), with the properties that make its parts correct.

  The program answers customers of beauty stores: an authenticated request runs one turn of a
  language-model agent under a runtime that owns retrieval, safety, permissions, limits and the
  final choice of the answer, and records tickets, handoffs and audit events.

  Theories and the code they model:

    \<^item> \<open>Prelude\<close>, \<open>Bytes\<close>, \<open>JsonText\<close>, \<open>Regex\<close>: JavaScript strings as lists of UTF-16 code units,
      buffers as lists of 8-bit words with base64 and UTF-8, parsed and serialized JSON, the
      pattern language of the keyword classifiers with its semantics, results of code that
      throws, insertion-ordered maps.
    \<^item> \<open>Identity\<close>, \<open>AuthService\<close>: \<open>enterprise/identity.ts\<close> and \<open>enterprise/auth.ts\<close>. The
      repository is an interface (locale \<open>identity_repository\<close>), interpreted on the in-memory
      repository; the service's guarantees are proved from the interface.
    \<^item> \<open>AgentProfile\<close>: \<open>enterprise/agent-profile.ts\<close>.
    \<^item> \<open>Knowledge\<close>, \<open>Safety\<close>, \<open>RealPolicy\<close>: \<open>knowledge.ts\<close>, \<open>safety.ts\<close>, \<open>real-policy.ts\<close>.
    \<^item> \<open>SupportStore\<close>, \<open>Runtime\<close>, \<open>RuntimeProps\<close>: \<open>index.ts\<close>. The store is a record with one
      definition per method; a turn of the runtime is a state machine whose steps are the code
      between two suspension points, driven by a list of events of the environment.

  Conventions. A \<open>Date\<close> is its millisecond value. Code that throws is a sum whose left side is
  the error. Random bytes, identifiers and clock readings are arguments. Cryptographic
  functions, Unicode normalization and locale comparison, the agent package, the model
  providers and the databases are parameters; what the code relies on of an interface of its
  own is a locale. No fuel is used: every recursion is structural or has a measure, and the
  unbounded part of a turn is the length of its list of events, over which the theorems
  quantify.

  What is not modelled is listed with its reason in the manifest: evaluation harnesses, views,
  scripts, provider configuration and demonstration data.
\<close>

end
